(* ===== verification/DlcPrelude.thy ===== *)
theory DlcPrelude
  imports Main "HOL-Library.Monad_Syntax"
begin

text \<open>
  Shared vocabulary of the development: Rust's machine integers as naturals with the bound
  written out, the \<open>Result\<close> type as a sum, the failing computations of the library crates as
  \<open>option\<close> (a panic is \<open>None\<close>), and the generic list lemmas the component theories use.
\<close>

section \<open>Machine integers\<close>

text \<open>
  \<open>usize\<close> and \<open>u64\<close> values are naturals below \<open>2 ^ 64\<close>. The arithmetic of the program either is
  checked (\<open>checked_add\<close>, \<open>checked_mul\<close>) or panics on overflow (the debug profile of
  \<open>cargo run\<close>, and always for \<open>bitcoin::Amount\<close>); both are partial functions here.
\<close>

type_synonym usize = nat
type_synonym u64 = nat
type_synonym u32 = nat
type_synonym u16 = nat

abbreviation u64_bound :: nat where "u64_bound \<equiv> 2 ^ 64"
abbreviation u32_bound :: nat where "u32_bound \<equiv> 2 ^ 32"

definition u64_add :: "nat \<Rightarrow> nat \<Rightarrow> nat option" where
  "u64_add a b = (if a + b < u64_bound then Some (a + b) else None)"

definition u64_mul :: "nat \<Rightarrow> nat \<Rightarrow> nat option" where
  "u64_mul a b = (if a * b < u64_bound then Some (a * b) else None)"

definition u64_sub :: "nat \<Rightarrow> nat \<Rightarrow> nat option" where
  "u64_sub a b = (if b \<le> a then Some (a - b) else None)"

lemma u64_add_Some [simp]: "u64_add a b = Some c \<longleftrightarrow> c = a + b \<and> c < u64_bound"
  by (auto simp: u64_add_def)

lemma u64_mul_Some [simp]: "u64_mul a b = Some c \<longleftrightarrow> c = a * b \<and> c < u64_bound"
  by (auto simp: u64_mul_def)

lemma u64_sub_Some [simp]: "u64_sub a b = Some c \<longleftrightarrow> b \<le> a \<and> c = a - b"
  by (auto simp: u64_sub_def)

lemma u64_add_None [simp]: "u64_add a b = None \<longleftrightarrow> u64_bound \<le> a + b"
  by (auto simp: u64_add_def)

lemma u64_mul_None [simp]: "u64_mul a b = None \<longleftrightarrow> u64_bound \<le> a * b"
  by (auto simp: u64_mul_def)

lemma u64_sub_None [simp]: "u64_sub a b = None \<longleftrightarrow> a < b"
  by (auto simp: u64_sub_def)

lemma u64_in [simp]:
  "b \<le> a \<Longrightarrow> u64_sub a b = Some (a - b)"
  "a + b < u64_bound \<Longrightarrow> u64_add a b = Some (a + b)"
  "a * b < u64_bound \<Longrightarrow> u64_mul a b = Some (a * b)"
  "a < b \<Longrightarrow> u64_sub a b = None"
  by simp_all

section \<open>Results\<close>

text \<open>\<open>Result<T, E>\<close> is \<open>'e + 't\<close>; \<open>rbind\<close> is the \<open>?\<close> operator.\<close>

definition rbind :: "'e + 'a \<Rightarrow> ('a \<Rightarrow> 'e + 'b) \<Rightarrow> 'e + 'b" where
  "rbind r f = (case r of Inl e \<Rightarrow> Inl e | Inr x \<Rightarrow> f x)"

definition ok_or :: "'e \<Rightarrow> 'a option \<Rightarrow> 'e + 'a" where
  "ok_or e x = (case x of None \<Rightarrow> Inl e | Some y \<Rightarrow> Inr y)"

lemma rbind_simps [simp]: "rbind (Inl e) f = Inl e" "rbind (Inr x) f = f x"
  by (simp_all add: rbind_def)

lemma rbind_Inr [simp]: "rbind r f = Inr y \<longleftrightarrow> (\<exists>x. r = Inr x \<and> f x = Inr y)"
  by (cases r) auto

lemma rbind_Inl: "rbind r f = Inl e \<longleftrightarrow> r = Inl e \<or> (\<exists>x. r = Inr x \<and> f x = Inl e)"
  by (cases r) auto

lemma rbind_cong [fundef_cong]:
  "r = r' \<Longrightarrow> (\<And>x. r' = Inr x \<Longrightarrow> f x = g x) \<Longrightarrow> rbind r f = rbind r' g"
  by (cases r) auto

lemma ok_or_Inr [simp]: "ok_or e x = Inr y \<longleftrightarrow> x = Some y"
  by (cases x) (auto simp: ok_or_def)

lemma ok_or_Inl [simp]: "ok_or e x = Inl e' \<longleftrightarrow> x = None \<and> e' = e"
  by (cases x) (auto simp: ok_or_def)

lemma ok_or_simps [simp]: "ok_or e None = Inl e" "ok_or e (Some x) = Inr x"
  by (simp_all add: ok_or_def)

text \<open>\<open>iter().map(f).collect::<Result<Vec<_>, _>>()\<close>: the first error, or all results.\<close>

fun rmap :: "('a \<Rightarrow> 'e + 'b) \<Rightarrow> 'a list \<Rightarrow> 'e + 'b list" where
  "rmap f [] = Inr []"
| "rmap f (x # xs) = rbind (f x) (\<lambda>y. rbind (rmap f xs) (\<lambda>ys. Inr (y # ys)))"

lemma rmap_Inr_iff: "rmap f xs = Inr ys \<longleftrightarrow> list_all2 (\<lambda>x y. f x = Inr y) xs ys"
  by (induction xs arbitrary: ys) (auto simp: list_all2_Cons1)

lemma rmap_length: "rmap f xs = Inr ys \<Longrightarrow> length ys = length xs"
  by (simp add: rmap_Inr_iff list_all2_lengthD)

lemma rmap_cong [fundef_cong]:
  "xs = ys \<Longrightarrow> (\<And>x. x \<in> set ys \<Longrightarrow> f x = g x) \<Longrightarrow> rmap f xs = rmap g ys"
proof (induction ys arbitrary: xs)
  case (Cons y ys)
  then show ?case by (auto intro!: rbind_cong)
qed simp

text \<open>The same over \<open>option\<close>.\<close>

fun omap :: "('a \<Rightarrow> 'b option) \<Rightarrow> 'a list \<Rightarrow> 'b list option" where
  "omap f [] = Some []"
| "omap f (x # xs) = Option.bind (f x) (\<lambda>y. Option.bind (omap f xs) (\<lambda>ys. Some (y # ys)))"

lemma omap_Some_iff: "omap f xs = Some ys \<longleftrightarrow> list_all2 (\<lambda>x y. f x = Some y) xs ys"
  by (induction xs arbitrary: ys) (auto simp: list_all2_Cons1 bind_eq_Some_conv)

lemma omap_Some_map: "(\<And>x. x \<in> set xs \<Longrightarrow> f x = Some (g x)) \<Longrightarrow> omap f xs = Some (map g xs)"
  by (induction xs) auto

lemma omap_cong [fundef_cong]:
  "xs = ys \<Longrightarrow> (\<And>x. x \<in> set ys \<Longrightarrow> f x = g x) \<Longrightarrow> omap f xs = omap g ys"
proof (induction ys arbitrary: xs)
  case (Cons y ys)
  then show ?case by (auto intro!: Option.bind_cong)
qed simp

section \<open>Results of code that may also panic\<close>

text \<open>
  \<open>('e + 'a) option\<close>: \<open>None\<close> a panic, \<open>Some (Inl e)\<close> an \<open>Err\<close>, \<open>Some (Inr x)\<close> an \<open>Ok\<close>. \<open>pbind\<close>
  is \<open>?\<close>, \<open>pmap\<close> the collection of results into a result, in order and up to the first failure.
\<close>

definition pbind :: "('e + 'a) option \<Rightarrow> ('a \<Rightarrow> ('e + 'b) option) \<Rightarrow> ('e + 'b) option" where
  "pbind r f = (case r of None \<Rightarrow> None | Some (Inl e) \<Rightarrow> Some (Inl e) | Some (Inr x) \<Rightarrow> f x)"

abbreviation pok :: "'a \<Rightarrow> ('e + 'a) option" where "pok x \<equiv> Some (Inr x)"
abbreviation perr :: "'e \<Rightarrow> ('e + 'a) option" where "perr e \<equiv> Some (Inl e)"

text \<open>A computation that can only panic, before the rest.\<close>

abbreviation obind :: "'a option \<Rightarrow> ('a \<Rightarrow> 'b option) \<Rightarrow> 'b option" where "obind \<equiv> Option.bind"

lemma pbind_simps [simp]: "pbind None f = None" "pbind (perr e) f = perr e" "pbind (pok x) f = f x"
  by (simp_all add: pbind_def)

lemma pbind_pok [simp]: "pbind r f = pok y \<longleftrightarrow> (\<exists>x. r = pok x \<and> f x = pok y)"
  by (auto simp: pbind_def split: option.splits sum.splits)

lemma pbind_perr: "pbind r f = perr e \<longleftrightarrow> r = perr e \<or> (\<exists>x. r = pok x \<and> f x = perr e)"
  by (auto simp: pbind_def split: option.splits sum.splits)

lemma pbind_None: "pbind r f = None \<longleftrightarrow> r = None \<or> (\<exists>x. r = pok x \<and> f x = None)"
  by (auto simp: pbind_def split: option.splits sum.splits)

lemma pbind_assoc: "pbind (pbind r f) g = pbind r (\<lambda>x. pbind (f x) g)"
  by (simp add: pbind_def split: option.split sum.split)

lemma pbind_cong [fundef_cong]:
  "r = r' \<Longrightarrow> (\<And>x. r' = pok x \<Longrightarrow> f x = g x) \<Longrightarrow> pbind r f = pbind r' g"
  by (auto simp: pbind_def split: option.splits sum.splits)

fun pmap :: "('a \<Rightarrow> ('e + 'b) option) \<Rightarrow> 'a list \<Rightarrow> ('e + 'b list) option" where
  "pmap f [] = pok []"
| "pmap f (x # xs) = pbind (f x) (\<lambda>y. pbind (pmap f xs) (\<lambda>ys. pok (y # ys)))"

lemma pmap_pok_iff: "pmap f xs = pok ys \<longleftrightarrow> list_all2 (\<lambda>x y. f x = pok y) xs ys"
  by (induction xs arbitrary: ys) (auto simp: list_all2_Cons1)

lemma pmap_length: "pmap f xs = pok ys \<Longrightarrow> length ys = length xs"
  by (simp add: pmap_pok_iff list_all2_lengthD)

lemma pmap_pok_map: "(\<And>x. x \<in> set xs \<Longrightarrow> f x = pok (g x)) \<Longrightarrow> pmap f xs = pok (map g xs)"
  by (induction xs) auto

text \<open>A loop that checks its items, up to the first failure.\<close>

fun pforall :: "('a \<Rightarrow> ('e + unit) option) \<Rightarrow> 'a list \<Rightarrow> ('e + unit) option" where
  "pforall f [] = pok ()"
| "pforall f (x # xs) = pbind (f x) (\<lambda>_. pforall f xs)"

lemma pforall_pok [simp]: "pforall f xs = pok () \<longleftrightarrow> (\<forall>x \<in> set xs. f x = pok ())"
  by (induction xs) auto

section \<open>Checked indexing\<close>

text \<open>\<open>v[i]\<close> and \<open>v[i] = x\<close>: out of range panics.\<close>

definition vget :: "'a list \<Rightarrow> nat \<Rightarrow> 'a option" where
  "vget xs i = (if i < length xs then Some (xs ! i) else None)"

definition vset :: "'a list \<Rightarrow> nat \<Rightarrow> 'a \<Rightarrow> 'a list option" where
  "vset xs i x = (if i < length xs then Some (xs[i := x]) else None)"

lemma vget_Some [simp]: "vget xs i = Some x \<longleftrightarrow> i < length xs \<and> x = xs ! i"
  by (auto simp: vget_def)

lemma vget_None [simp]: "vget xs i = None \<longleftrightarrow> length xs \<le> i"
  by (auto simp: vget_def)

lemma vget_in [simp]: "i < length xs \<Longrightarrow> vget xs i = Some (xs ! i)"
  by (simp add: vget_def)

lemma vset_Some [simp]: "vset xs i x = Some ys \<longleftrightarrow> i < length xs \<and> ys = xs[i := x]"
  by (auto simp: vset_def)

lemma vset_in [simp]: "i < length xs \<Longrightarrow> vset xs i x = Some (xs[i := x])"
  by (simp add: vset_def)

lemma vset_None [simp]: "vset xs i x = None \<longleftrightarrow> length xs \<le> i"
  by (auto simp: vset_def)

lemma vget_last: "xs \<noteq> [] \<Longrightarrow> vget xs (length xs - Suc 0) = Some (last xs)"
  by (simp add: last_conv_nth)

lemma u64_sub_1 [simp]: "0 < n \<Longrightarrow> u64_sub n (Suc 0) = Some (n - Suc 0)"
  by (simp add: u64_sub_def)

text \<open>\<open>assert!(b)\<close>: the panic is \<open>None\<close>.\<close>

abbreviation assert_that :: "bool \<Rightarrow> unit option" where
  "assert_that b \<equiv> (if b then Some () else None)"

text \<open>\<open>iter().position(p)\<close>.\<close>

fun find_first_index :: "('a \<Rightarrow> bool) \<Rightarrow> 'a list \<Rightarrow> nat option" where
  "find_first_index p [] = None"
| "find_first_index p (x # xs) = (if p x then Some 0 else map_option Suc (find_first_index p xs))"

lemma find_first_index_Some:
  "find_first_index p xs = Some i \<longleftrightarrow> i < length xs \<and> p (xs ! i) \<and> (\<forall>j < i. \<not> p (xs ! j))"
proof (induction xs arbitrary: i)
  case (Cons x xs)
  show ?case by (cases i) (auto simp: Cons All_less_Suc2)
qed simp

lemma find_first_index_None: "find_first_index p xs = None \<longleftrightarrow> (\<forall>x \<in> set xs. \<not> p x)"
  by (induction xs) auto

lemma map_filter_map: "List.map_filter f (map g xs) = List.map_filter (\<lambda>x. f (g x)) xs"
  by (simp add: map_filter_def filter_map comp_def)

text \<open>A loop with an early return: the first item for which the body returns something.\<close>

fun ofirst :: "('a \<Rightarrow> 'b option option) \<Rightarrow> 'a list \<Rightarrow> 'b option option" where
  "ofirst f [] = Some None"
| "ofirst f (x # xs) = Option.bind (f x) (\<lambda>r. case r of None \<Rightarrow> ofirst f xs | Some y \<Rightarrow> Some (Some y))"

lemma ofirst_cong [fundef_cong]:
  "xs = ys \<Longrightarrow> (\<And>x. x \<in> set ys \<Longrightarrow> f x = g x) \<Longrightarrow> ofirst f xs = ofirst g ys"
proof (induction ys arbitrary: xs)
  case (Cons y ys)
  then show ?case by (auto intro!: Option.bind_cong split: option.splits)
qed simp

lemma ofirst_total:
  "(\<And>x. x \<in> set xs \<Longrightarrow> f x = Some (g x)) \<Longrightarrow>
   ofirst f xs = Some (case List.map_filter g xs of [] \<Rightarrow> None | y # _ \<Rightarrow> Some y)"
  by (induction xs) (auto simp: map_filter_simps split: option.splits)

text \<open>A loop over a state that may panic or return an error with the state as it is then.\<close>

fun each_state :: "('a \<Rightarrow> 's \<Rightarrow> (('e + unit) \<times> 's) option) \<Rightarrow> 'a list \<Rightarrow> 's \<Rightarrow> (('e + unit) \<times> 's) option" where
  "each_state f [] s = Some (Inr (), s)"
| "each_state f (x # xs) s =
     Option.bind (f x s) (\<lambda>(r, s). case r of Inl e \<Rightarrow> Some (Inl e, s) | Inr _ \<Rightarrow> each_state f xs s)"

lemma each_state_append:
  "each_state f (xs @ ys) s =
     Option.bind (each_state f xs s) (\<lambda>(r, s). case r of Inl e \<Rightarrow> Some (Inl e, s) | Inr _ \<Rightarrow> each_state f ys s)"
proof (induction xs arbitrary: s)
  case (Cons x xs)
  then show ?case by (cases "f x s") (auto split: sum.splits prod.splits)
qed simp

section \<open>Partial correctness\<close>

text \<open>\<open>every x Q\<close>: the result of \<open>x\<close>, if there is one, satisfies \<open>Q\<close>.\<close>

definition every :: "'a option \<Rightarrow> ('a \<Rightarrow> bool) \<Rightarrow> bool" where
  "every x Q \<longleftrightarrow> (\<forall>y. x = Some y \<longrightarrow> Q y)"

lemma every_simps [simp]: "every None Q" "every (Some y) Q \<longleftrightarrow> Q y"
  by (simp_all add: every_def)

lemma every_bind: "(\<And>x. m = Some x \<Longrightarrow> every (f x) Q) \<Longrightarrow> every (Option.bind m f) Q"
  by (cases m) auto

lemma everyD: "every x Q \<Longrightarrow> x = Some y \<Longrightarrow> Q y"
  by (simp add: every_def)

lemma every_seq: "every m P \<Longrightarrow> (\<And>x. P x \<Longrightarrow> every (f x) Q) \<Longrightarrow> every (Option.bind m f) Q"
  by (cases m) auto

lemma every_mono: "every m P \<Longrightarrow> (\<And>x. P x \<Longrightarrow> Q x) \<Longrightarrow> every m Q"
  by (cases m) auto

lemma each_state_every:
  assumes "\<And>x s. x \<in> set xs \<Longrightarrow> P s \<Longrightarrow> every (f x s) (\<lambda>(r, s). P s)"
  shows "P s \<Longrightarrow> every (each_state f xs s) (\<lambda>(r, s). P s)"
  using assms
proof (induction xs arbitrary: s)
  case (Cons x xs)
  have "every (each_state f xs s') (\<lambda>(r, s). P s)" if "P s'" for s'
    using Cons.IH[OF that] Cons.prems(2) by simp
  then show ?case using Cons.prems(2)[of x s] Cons.prems(1) by (cases "f x s") (auto split: sum.split prod.split)
qed simp

section \<open>Iterators\<close>

text \<open>
  \<open>Iterator::next\<close> takes the state of the iterator and returns an item or \<open>None\<close> and the state after;
  \<open>drain\<close> is \<open>collect()\<close>, which may not end. An iterator that keeps a relation \<open>R\<close> between its state and the items
  to come yields these items.
\<close>

partial_function (option) drain :: "('i \<Rightarrow> ('x option \<times> 'i) option) \<Rightarrow> 'i \<Rightarrow> 'x list option" where
  "drain nxt it = Option.bind (nxt it) (\<lambda>(r, it').
     case r of None \<Rightarrow> Some [] | Some x \<Rightarrow> Option.bind (drain nxt it') (\<lambda>xs. Some (x # xs)))"

declare drain.simps [code]

locale iterator =
  fixes nxt :: "'i \<Rightarrow> ('x option \<times> 'i) option" and R :: "'i \<Rightarrow> 'x list \<Rightarrow> bool"
  assumes next_none: "R it [] \<Longrightarrow> \<exists>it'. nxt it = Some (None, it')"
    and next_some: "R it (x # xs) \<Longrightarrow> \<exists>it'. nxt it = Some (Some x, it') \<and> R it' xs"
begin

lemma drain_yields: "R it xs \<Longrightarrow> drain nxt it = Some xs"
proof (induction xs arbitrary: it)
  case Nil
  then obtain it' where "nxt it = Some (None, it')" using next_none by blast
  then show ?case by (subst drain.simps) simp
next
  case (Cons x xs)
  then obtain it' where "nxt it = Some (Some x, it')" "R it' xs" using next_some by blast
  then show ?case using Cons.IH by (subst drain.simps) auto
qed

lemma yields_unique: "R it xs \<Longrightarrow> R it ys \<Longrightarrow> xs = ys"
  using drain_yields by (metis option.inject)

end

end
