(* ===== verification/Combinations.thy ===== *)
theory Combinations
  imports DlcPrelude
begin

text \<open>
  \<open>dlc-trie/src/combination_iterator.rs\<close>: the iterator over all selections of \<open>nb_selected\<close>
  of the indexes \<open>0..nb_elements\<close>. The state is the struct; \<open>next\<close> is one call of the
  iterator (\<open>None\<close> on a panic), and \<open>collect\<close> the loop \<open>for c in iter\<close>.
\<close>

section \<open>The iterator\<close>

record CombinationIterator =
  selector :: "nat list"
  nb_selected :: nat
  nb_elements :: nat
  is_init :: bool

definition new :: "nat \<Rightarrow> nat \<Rightarrow> CombinationIterator option" where
  "new n k = (if k \<le> n
     then Some \<lparr>selector = [0..<k], nb_selected = k, nb_elements = n, is_init = False\<rparr>
     else None)"

text \<open>
  The first loop of \<open>next\<close>: from the last index down to the first one whose element can still
  grow. \<open>last_index - cur_index\<close> and \<open>nb_elements - 1\<close> cannot underflow where the loop runs
  with \<open>cur_index \<le> last_index\<close> and \<open>0 < nb_elements\<close>; the outer subtraction may.
\<close>

fun rewind :: "nat list \<Rightarrow> nat \<Rightarrow> nat \<Rightarrow> nat \<Rightarrow> nat option" where
  "rewind sel n l 0 = Some 0"
| "rewind sel n l (Suc c) =
     do {
       x \<leftarrow> vget sel (Suc c);
       m \<leftarrow> u64_sub n 1;
       y \<leftarrow> u64_sub m (l - Suc c);
       if x = y then rewind sel n l c else Some (Suc c)
     }"

text \<open>The second loop: every later element is one more than the element before it.\<close>

function refill :: "nat list \<Rightarrow> nat \<Rightarrow> nat \<Rightarrow> nat list option" where
  "refill sel l c =
     (if c \<le> l
      then do { x \<leftarrow> vget sel (c - 1); sel' \<leftarrow> vset sel c (x + 1); refill sel' l (c + 1) }
      else Some sel)"
  by pat_completeness auto
termination
  by (relation "measure (\<lambda>(sel, l, c). Suc l - c)") auto

declare refill.simps [simp del]

definition next_combination ::
  "CombinationIterator \<Rightarrow> (nat list option \<times> CombinationIterator) option" where
  "next_combination it =
     (if \<not> is_init it
      then Some (Some (selector it), it\<lparr>is_init := True\<rparr>)
      else do {
        last_index \<leftarrow> u64_sub (nb_selected it) 1;
        cur \<leftarrow> rewind (selector it) (nb_elements it) last_index last_index;
        x \<leftarrow> vget (selector it) cur;
        sel \<leftarrow> vset (selector it) cur (x + 1);
        sel' \<leftarrow> refill sel last_index (cur + 1);
        h \<leftarrow> vget sel' 0;
        d \<leftarrow> u64_sub (nb_elements it) (nb_selected it);
        Some (if h = d + 1 then None else Some sel', it\<lparr>selector := sel'\<rparr>)
      })"

partial_function (option) collect :: "CombinationIterator \<Rightarrow> nat list list option" where
  "collect it =
     Option.bind (next_combination it) (\<lambda>(r, it').
       case r of
         None \<Rightarrow> Some []
       | Some c \<Rightarrow> Option.bind (collect it') (\<lambda>cs. Some (c # cs)))"

declare collect.simps [code]

text \<open>\<open>get_index_for_combination\<close>: the loop over \<open>self.enumerate()\<close>.\<close>

partial_function (option) get_index_from ::
  "CombinationIterator \<Rightarrow> nat list \<Rightarrow> nat \<Rightarrow> nat option option" where
  "get_index_from it combination i =
     Option.bind (next_combination it) (\<lambda>(r, it').
       case r of
         None \<Rightarrow> Some None
       | Some cur \<Rightarrow> if combination = cur then Some (Some i)
                     else get_index_from it' combination (i + 1))"

declare get_index_from.simps [code]

definition get_index_for_combination ::
  "CombinationIterator \<Rightarrow> nat list \<Rightarrow> nat option option" where
  "get_index_for_combination it combination = get_index_from it combination 0"


section \<open>Specification: the selections in lexicographic order\<close>

text \<open>\<open>combs lo n k\<close> lists the strictly increasing \<open>k\<close>-lists over \<open>lo..<n\<close>, in order.\<close>

fun combs :: "nat \<Rightarrow> nat \<Rightarrow> nat \<Rightarrow> nat list list" where
  "combs lo n 0 = [[]]"
| "combs lo n (Suc k) = concat (map (\<lambda>x. map ((#) x) (combs (Suc x) n k)) [lo..<n])"

definition selection :: "nat \<Rightarrow> nat \<Rightarrow> nat \<Rightarrow> nat list \<Rightarrow> bool" where
  "selection lo n k xs \<longleftrightarrow> length xs = k \<and> sorted_wrt (<) xs \<and> set xs \<subseteq> {lo..<n}"

lemma selection_Cons:
  "selection lo n (Suc k) (x # xs) \<longleftrightarrow> lo \<le> x \<and> x < n \<and> selection (Suc x) n k xs"
  by (auto simp: selection_def Suc_le_eq)

lemma set_combs: "set (combs lo n k) = {xs. selection lo n k xs}"
proof (induction k arbitrary: lo)
  case 0
  then show ?case by (auto simp: selection_def)
next
  case (Suc k)
  have "selection lo n (Suc k) ys \<longleftrightarrow> (\<exists>x xs. ys = x # xs \<and> lo \<le> x \<and> x < n \<and> selection (Suc x) n k xs)"
    for ys by (cases ys) (auto simp: selection_Cons, simp add: selection_def)
  then show ?case by (auto simp: Suc image_iff)
qed

lemma selection_bound: "selection lo n k xs \<Longrightarrow> 0 < k \<Longrightarrow> lo + k \<le> n"
proof (induction k arbitrary: lo xs)
  case (Suc k)
  then obtain x ys where xs: "xs = x # ys" by (cases xs) (auto simp: selection_def)
  with Suc.prems have *: "lo \<le> x" "x < n" "selection (Suc x) n k ys" by (auto simp: selection_Cons)
  show ?case
  proof (cases k)
    case 0
    with * show ?thesis by simp
  next
    case (Suc j)
    with Suc.IH[OF *(3)] * show ?thesis by simp
  qed
qed simp

lemma combs_empty: "n < lo + k \<Longrightarrow> 0 < k \<Longrightarrow> combs lo n k = []"
  using set_combs[of lo n k] selection_bound[of lo n k] by (fastforce simp: set_empty[symmetric] simp del: set_empty)

text \<open>The successor of a selection in that order, \<open>None\<close> at the last one.\<close>

fun succ_sel :: "nat \<Rightarrow> nat list \<Rightarrow> nat list option" where
  "succ_sel n [] = None"
| "succ_sel n (x # xs) =
     (case succ_sel n xs of
        Some ys \<Rightarrow> Some (x # ys)
      | None \<Rightarrow> if x + length xs + 1 < n then Some [Suc x..<Suc x + Suc (length xs)] else None)"

text \<open>\<open>chain n L\<close>: each element of \<open>L\<close> is followed by its successor, and the last has none.\<close>

definition chain :: "nat \<Rightarrow> nat list list \<Rightarrow> bool" where
  "chain n L \<longleftrightarrow> (\<forall>i. Suc i < length L \<longrightarrow> succ_sel n (L ! i) = Some (L ! Suc i)) \<and>
     (L \<noteq> [] \<longrightarrow> succ_sel n (last L) = None)"

lemma chain_nth: "chain n L \<Longrightarrow> Suc i < length L \<Longrightarrow> succ_sel n (L ! i) = Some (L ! Suc i)"
  and chain_last: "chain n L \<Longrightarrow> L \<noteq> [] \<Longrightarrow> succ_sel n (last L) = None"
  by (simp_all add: chain_def)

lemma chain_append:
  assumes xs: "xs \<noteq> []" and ys: "ys \<noteq> []" "chain n ys"
    and link: "succ_sel n (last xs) = Some (hd ys)"
    and step: "\<And>i. Suc i < length xs \<Longrightarrow> succ_sel n (xs ! i) = Some (xs ! Suc i)"
  shows "chain n (xs @ ys)"
proof -
  have "succ_sel n ((xs @ ys) ! i) = Some ((xs @ ys) ! Suc i)" if i: "Suc i < length (xs @ ys)" for i
  proof -
    consider "Suc i < length xs" | "Suc i = length xs" | "length xs \<le> i" by linarith
    then show ?thesis
    proof cases
      case 1
      then show ?thesis using step by (simp add: nth_append)
    next
      case 2
      then have "xs ! i = last xs" using xs by (metis diff_Suc_1 last_conv_nth)
      with 2 link ys show ?thesis by (simp add: nth_append hd_conv_nth)
    next
      case 3
      with i chain_nth[OF ys(2), of "i - length xs"] show ?thesis
        by (simp add: nth_append Suc_diff_le less_diff_conv2 add.commute)
    qed
  qed
  with ys chain_last[OF ys(2)] show ?thesis by (simp add: chain_def)
qed

lemma hd_combs: "lo + k \<le> n \<Longrightarrow> combs lo n k \<noteq> [] \<and> hd (combs lo n k) = [lo..<lo + k]"
proof (induction k arbitrary: lo)
  case (Suc k)
  then have "[lo..<n] = lo # [Suc lo..<n]" by (simp add: upt_conv_Cons)
  moreover have "combs (Suc lo) n k \<noteq> [] \<and> hd (combs (Suc lo) n k) = [Suc lo..<Suc lo + k]"
    using Suc by simp
  ultimately show ?case by (simp add: hd_map upt_conv_Cons)
qed simp

lemma chain_combs: "0 < k \<Longrightarrow> chain n (combs lo n k)"
proof (induction k arbitrary: lo)
  case (Suc k)
  note outer = Suc.IH
  show ?case
  proof (induction "n - lo" arbitrary: lo)
    case 0
    then show ?case by (simp add: chain_def)
  next
    case (Suc d)
    then have lo: "[lo..<n] = lo # [Suc lo..<n]" and d: "d = n - Suc lo" by (simp_all add: upt_conv_Cons)
    let ?blk = "map ((#) lo) (combs (Suc lo) n k)"
    have split: "combs lo n (Suc k) = ?blk @ combs (Suc lo) n (Suc k)" by (simp add: lo)
    have IH: "chain n (combs (Suc lo) n (Suc k))" using Suc.hyps(1)[OF d] .
    show ?case
    proof (cases "lo + Suc k \<le> n")
      case False
      then have "combs lo n (Suc k) = []" by (intro combs_empty) auto
      then show ?thesis by (simp add: chain_def del: combs.simps)
    next
      case True
      let ?sub = "combs (Suc lo) n k"
      have sub: "?sub \<noteq> []" "hd ?sub = [Suc lo..<Suc lo + k]" using hd_combs[of "Suc lo" k n] True by auto
      have none: "succ_sel n (last ?sub) = None"
      proof (cases k)
        case (Suc j)
        then show ?thesis using outer[of "Suc lo"] chain_last sub by simp
      qed simp
      have step: "succ_sel n (?blk ! i) = Some (?blk ! Suc i)" if "Suc i < length ?blk" for i
      proof -
        have "k \<noteq> 0" using that by (cases k) auto
        then have "chain n ?sub" using outer by simp
        from chain_nth[OF this] that show ?thesis by simp
      qed
      have len: "length (last ?sub) = k"
        using last_in_set[OF sub(1)] by (simp add: set_combs selection_def)
      have lst: "succ_sel n (last ?blk) = (if lo + k + 1 < n then Some [Suc lo..<Suc lo + Suc k] else None)"
        using sub none len by (simp add: last_map)
      show ?thesis
      proof (cases "lo + k + 1 < n")
        case True
        then have "combs (Suc lo) n (Suc k) \<noteq> [] \<and> hd (combs (Suc lo) n (Suc k)) = [Suc lo..<Suc lo + Suc k]"
          by (intro hd_combs) simp
        with chain_append[of ?blk "combs (Suc lo) n (Suc k)" n] sub IH lst True step show ?thesis
          unfolding split by (simp del: combs.simps)
      next
        case False
        with True have "combs (Suc lo) n (Suc k) = []" by (intro combs_empty) auto
        then show ?thesis unfolding split using lst False step by (auto simp: chain_def simp del: combs.simps)
      qed
    qed
  qed
qed simp


section \<open>One call of the iterator is the successor\<close>

lemma succ_sel_None: "(\<And>j. j < length sel \<Longrightarrow> sel ! j + (length sel - j) = n) \<Longrightarrow> succ_sel n sel = None"
proof (induction sel)
  case (Cons x xs)
  have "succ_sel n xs = None" using Cons.prems[of "Suc j" for j] by (intro Cons.IH) auto
  with Cons.prems[of 0] show ?case by simp
qed simp

lemma succ_sel_pivot:
  "j < length sel \<Longrightarrow> sel ! j + (length sel - j) < n \<Longrightarrow>
   (\<And>i. j < i \<Longrightarrow> i < length sel \<Longrightarrow> sel ! i + (length sel - i) = n) \<Longrightarrow>
   succ_sel n sel = Some (take j sel @ [Suc (sel ! j)..<Suc (sel ! j) + (length sel - j)])"
proof (induction sel arbitrary: j)
  case (Cons x xs)
  show ?case
  proof (cases j)
    case 0
    have "succ_sel n xs = None" using Cons.prems(3)[of "Suc i" for i] 0 by (intro succ_sel_None) auto
    with Cons.prems(2) 0 show ?thesis by simp
  next
    case (Suc j')
    have "succ_sel n xs = Some (take j' xs @ [Suc (xs ! j')..<Suc (xs ! j') + (length xs - j')])"
      using Cons.prems Cons.prems(3)[of "Suc i" for i] Suc by (intro Cons.IH) auto
    with Suc show ?thesis by simp
  qed
qed simp

lemma rewind_spec:
  assumes "c \<le> l" "length sel = Suc l" "l < n"
  shows "\<exists>j \<le> c. rewind sel n l c = Some j \<and> (0 < j \<longrightarrow> sel ! j \<noteq> n - 1 - (l - j)) \<and>
     (\<forall>i. j < i \<and> i \<le> c \<longrightarrow> sel ! i = n - 1 - (l - i))"
  using assms
proof (induction c)
  case (Suc c)
  have sub: "u64_sub n 1 = Some (n - 1)" "u64_sub (n - 1) (l - Suc c) = Some (n - 1 - (l - Suc c))"
    using Suc.prems by (auto simp: u64_sub_def)
  have idx: "vget sel (Suc c) = Some (sel ! Suc c)" using Suc.prems by simp
  show ?case
  proof (cases "sel ! Suc c = n - 1 - (l - Suc c)")
    case True
    have "rewind sel n l (Suc c) = rewind sel n l c" by (simp add: sub[unfolded One_nat_def] idx True del: vget_in)
    moreover obtain j where "j \<le> c" "rewind sel n l c = Some j" "0 < j \<longrightarrow> sel ! j \<noteq> n - 1 - (l - j)"
      "\<forall>i. j < i \<and> i \<le> c \<longrightarrow> sel ! i = n - 1 - (l - i)" using Suc by auto
    ultimately show ?thesis using True by (intro exI[of _ j]) (auto simp: le_Suc_eq)
  next
    case False
    have "rewind sel n l (Suc c) = Some (Suc c)" using False by (simp add: sub[unfolded One_nat_def] idx del: vget_in)
    with False show ?thesis by (intro exI[of _ "Suc c"]) auto
  qed
qed auto

lemma refill_spec:
  "0 < c \<Longrightarrow> c \<le> Suc l \<Longrightarrow> length sel = Suc l \<Longrightarrow>
   refill sel l c = Some (take c sel @ [Suc (sel ! (c - 1))..<Suc (sel ! (c - 1)) + (Suc l - c)])"
proof (induction sel l c rule: refill.induct)
  case (1 sel l c)
  show ?case
  proof (cases "c \<le> l")
    case True
    let ?x = "sel ! (c - 1)" and ?s = "sel[c := Suc (sel ! (c - 1))]"
    have "refill ?s l (c + 1) = Some (take (c + 1) ?s @ [Suc (?s ! c)..<Suc (?s ! c) + (Suc l - (c + 1))])"
      using "1.IH"[OF True, of ?x ?s] "1.prems" True by (simp del: upt_Suc)
    moreover have "take (c + 1) ?s = take c sel @ [Suc ?x]" "?s ! c = Suc ?x"
      using True 1 by (simp_all add: take_Suc_conv_app_nth)
    ultimately show ?thesis
      using True 1 by (subst refill.simps) (simp add: Suc_diff_le upt_conv_Cons del: upt_Suc)
  next
    case False
    with 1 show ?thesis by (subst refill.simps) simp
  qed
qed

definition ready :: "nat \<Rightarrow> nat \<Rightarrow> CombinationIterator \<Rightarrow> bool" where
  "ready n k it \<longleftrightarrow> is_init it \<and> nb_elements it = n \<and> nb_selected it = k \<and> 0 < k \<and>
     selection 0 n k (selector it)"

lemma selection_nth:
  "selection lo n k xs \<Longrightarrow> j < k \<Longrightarrow> xs ! j + (k - j) \<le> n"
proof (induction k arbitrary: lo xs j)
  case (Suc k)
  then obtain x ys where xs: "xs = x # ys" by (cases xs) (auto simp: selection_def)
  with Suc.prems have ys: "x < n" "selection (Suc x) n k ys" by (auto simp: selection_Cons)
  show ?case
  proof (cases j)
    case 0
    with xs ys selection_bound[OF ys(2)] show ?thesis by (cases k) auto
  next
    case (Suc j')
    with Suc.IH[OF ys(2), of j'] Suc.prems xs show ?thesis by simp
  qed
qed simp

lemma next_combination_ready:
  assumes "ready n k it"
  shows "\<exists>sel'. next_combination it = Some (succ_sel n (selector it), it\<lparr>selector := sel'\<rparr>) \<and>
     (\<forall>ys. succ_sel n (selector it) = Some ys \<longrightarrow> sel' = ys)"
proof -
  let ?sel = "selector it"
  obtain l where k: "k = Suc l" using assms by (cases k) (auto simp: ready_def)
  have it: "is_init it" "nb_elements it = n" "nb_selected it = k" and sel: "selection 0 n k ?sel"
    using assms by (auto simp: ready_def)
  have len: "length ?sel = Suc l" using sel k by (simp add: selection_def)
  have kn: "k \<le> n" using selection_bound[OF sel] k by simp
  from rewind_spec[of l l ?sel n] len kn k obtain j where j: "j \<le> l" "rewind ?sel n l l = Some j"
    "0 < j \<longrightarrow> ?sel ! j \<noteq> n - 1 - (l - j)" "\<forall>i. j < i \<and> i \<le> l \<longrightarrow> ?sel ! i = n - 1 - (l - i)" by auto
  let ?s1 = "?sel[j := Suc (?sel ! j)]"
  define sel' where "sel' = take j ?sel @ [Suc (?sel ! j)..<Suc (?sel ! j) + (k - j)]"
  have "refill ?s1 l (j + 1) = Some sel'"
    using refill_spec[of "j + 1" l ?s1] len j(1) k
    by (simp add: sel'_def take_Suc_conv_app_nth Suc_diff_le upt_conv_Cons del: upt_Suc)
  moreover have "length sel' = k" using j(1) k len by (simp add: sel'_def)
  then have "0 < length sel'" using k by simp
  ultimately have step: "next_combination it =
      Some (if sel' ! 0 = (n - k) + 1 then None else Some sel', it\<lparr>selector := sel'\<rparr>)"
    using it j k kn len by (simp add: next_combination_def u64_sub_def vget_def vset_def del: length_greater_0_conv)
  have le: "?sel ! i + (Suc l - i) \<le> n" if "i \<le> l" for i
    using selection_nth[OF sel, of i] that k by simp
  have tail: "?sel ! i + (length ?sel - i) = n" if "j < i" "i < length ?sel" for i
    using j(4) that len kn k by simp
  show ?thesis
  proof (cases "j = 0 \<and> ?sel ! 0 = n - k")
    case True
    have "succ_sel n ?sel = None"
    proof (rule succ_sel_None)
      fix i assume "i < length ?sel"
      with tail[of i] True len kn k show "?sel ! i + (length ?sel - i) = n" by (cases i) auto
    qed
    moreover have "sel' ! 0 = Suc (n - k)" using True k by (simp add: sel'_def nth_append del: upt_Suc)
    ultimately show ?thesis using step by auto
  next
    case False
    then have ne: "?sel ! j \<noteq> n - 1 - (l - j)" using j(3) k by auto
    have lt: "?sel ! j + (length ?sel - j) < n" using le[OF j(1)] ne len j(1) kn k by linarith
    from succ_sel_pivot[OF _ lt tail] j(1) len k have succ: "succ_sel n ?sel = Some sel'"
      by (simp add: sel'_def)
    have "sel' ! 0 \<noteq> n - k + 1"
    proof (cases j)
      case 0
      with lt k len show ?thesis by (simp add: sel'_def nth_append del: upt_Suc)
    next
      case (Suc j')
      with le[of 0] len k show ?thesis by (simp add: sel'_def nth_append)
    qed
    with step succ show ?thesis by simp
  qed
qed

section \<open>The loop over the iterator\<close>

lemma collect_chain:
  assumes "chain n L" "i < length L" "ready n k it" "selector it = L ! i"
    "\<forall>xs \<in> set L. selection 0 n k xs"
  shows "collect it = Some (drop (Suc i) L)"
  using assms(2-4)
proof (induction "length L - i" arbitrary: i it)
  case (Suc d)
  obtain sel' where nx: "next_combination it = Some (succ_sel n (L ! i), it\<lparr>selector := sel'\<rparr>)"
    "\<forall>ys. succ_sel n (L ! i) = Some ys \<longrightarrow> sel' = ys"
    using next_combination_ready[OF Suc.prems(2)] Suc.prems(3) by auto
  show ?case
  proof (cases "Suc i < length L")
    case True
    then have succ: "succ_sel n (L ! i) = Some (L ! Suc i)" by (rule chain_nth[OF assms(1)])
    have "collect (it\<lparr>selector := L ! Suc i\<rparr>) = Some (drop (Suc (Suc i)) L)"
      using Suc True assms(5) by (intro Suc.hyps(1)) (auto simp: ready_def)
    then show ?thesis using nx succ True by (subst collect.simps) (simp add: Cons_nth_drop_Suc)
  next
    case False
    then have "L ! i = last L" using Suc.prems(1) by (metis Suc_lessI diff_Suc_1 last_conv_nth list.size(3) not_less0)
    moreover have "L \<noteq> []" using Suc.prems(1) by auto
    ultimately have "succ_sel n (L ! i) = None" using chain_last[OF assms(1)] by simp
    with nx False show ?thesis by (subst collect.simps) simp
  qed
qed simp


lemma get_index_chain:
  assumes "chain n L" "i < length L" "ready n k it" "selector it = L ! i"
    "\<forall>xs \<in> set L. selection 0 n k xs"
  shows "get_index_from it c m =
    Some (map_option (\<lambda>j. m + j) (find_first_index ((=) c) (drop (Suc i) L)))"
  using assms(2-4)
proof (induction "length L - i" arbitrary: i it m)
  case (Suc d)
  obtain sel' where nx: "next_combination it = Some (succ_sel n (L ! i), it\<lparr>selector := sel'\<rparr>)"
    "\<forall>ys. succ_sel n (L ! i) = Some ys \<longrightarrow> sel' = ys"
    using next_combination_ready[OF Suc.prems(2)] Suc.prems(3) by auto
  show ?case
  proof (cases "Suc i < length L")
    case True
    then have succ: "succ_sel n (L ! i) = Some (L ! Suc i)" by (rule chain_nth[OF assms(1)])
    have "get_index_from (it\<lparr>selector := L ! Suc i\<rparr>) c (m + 1) =
        Some (map_option (\<lambda>j. m + 1 + j) (find_first_index ((=) c) (drop (Suc (Suc i)) L)))"
      using Suc True assms(5) by (intro Suc.hyps(1)) (auto simp: ready_def)
    moreover have "drop (Suc i) L = L ! Suc i # drop (Suc (Suc i)) L" using True by (simp add: Cons_nth_drop_Suc)
    ultimately show ?thesis using nx succ
      by (subst get_index_from.simps) (simp add: option.map_comp o_def)
  next
    case False
    then have "L ! i = last L" using Suc.prems(1) by (metis Suc_lessI diff_Suc_1 last_conv_nth list.size(3) not_less0)
    moreover have "L \<noteq> []" using Suc.prems(1) by auto
    ultimately have "succ_sel n (L ! i) = None" using chain_last[OF assms(1)] by simp
    with nx False show ?thesis by (subst get_index_from.simps) simp
  qed
qed simp

lemma new_ready:
  assumes "0 < k" "k \<le> n"
  obtains it it' where "new n k = Some it" "next_combination it = Some (Some (combs 0 n k ! 0), it')"
    "ready n k it'" "selector it' = combs 0 n k ! 0" "0 < length (combs 0 n k)"
proof -
  let ?it = "\<lparr>selector = [0..<k], nb_selected = k, nb_elements = n, is_init = False\<rparr>"
  have ne: "combs 0 n k \<noteq> [] \<and> hd (combs 0 n k) = [0..<0 + k]" using assms by (intro hd_combs) simp
  then have h: "combs 0 n k ! 0 = [0..<k]" using hd_conv_nth[of "combs 0 n k"] by simp
  have "ready n k (?it\<lparr>is_init := True\<rparr>)"
    using assms by (auto simp: ready_def selection_def)
  then show thesis
    using that[of ?it "?it\<lparr>is_init := True\<rparr>"] assms ne h by (simp add: new_def next_combination_def)
qed

lemma collect_new:
  assumes "0 < k" "k \<le> n"
  shows "\<exists>it. new n k = Some it \<and> collect it = Some (combs 0 n k)"
proof -
  let ?L = "combs 0 n k"
  obtain it it' where it: "new n k = Some it" "next_combination it = Some (Some (?L ! 0), it')"
    "ready n k it'" "selector it' = ?L ! 0" "0 < length ?L" using new_ready[OF assms] .
  have "collect it' = Some (drop (Suc 0) ?L)"
    using it by (intro collect_chain[OF chain_combs[OF assms(1)]]) (auto simp: set_combs)
  then have "collect it = Some (?L ! 0 # drop (Suc 0) ?L)" using it(2) by (subst collect.simps) simp
  with it(1,5) show ?thesis by (metis Cons_nth_drop_Suc drop0)
qed

lemma get_index_new:
  assumes "0 < k" "k \<le> n"
  shows "\<exists>it. new n k = Some it \<and>
    get_index_for_combination it c = Some (find_first_index ((=) c) (combs 0 n k))"
proof -
  let ?L = "combs 0 n k"
  obtain it it' where it: "new n k = Some it" "next_combination it = Some (Some (?L ! 0), it')"
    "ready n k it'" "selector it' = ?L ! 0" "0 < length ?L" using new_ready[OF assms] .
  have "get_index_from it' c 1 = Some (map_option (\<lambda>j. 1 + j) (find_first_index ((=) c) (drop (Suc 0) ?L)))"
    using it by (intro get_index_chain[OF chain_combs[OF assms(1)]]) (auto simp: set_combs)
  moreover obtain x xs where "?L = x # xs" using it(5) by (cases ?L) auto
  then have "find_first_index ((=) c) ?L =
      (if c = ?L ! 0 then Some 0 else map_option Suc (find_first_index ((=) c) (drop (Suc 0) ?L)))"
    by simp
  moreover have "get_index_from it c 0 =
      (if c = ?L ! 0 then Some (Some 0) else get_index_from it' c 1)"
    by (subst get_index_from.simps) (simp add: it(2))
  ultimately have "get_index_from it c 0 = Some (find_first_index ((=) c) ?L)"
    by (simp add: option.map_comp o_def)
  with it(1) show ?thesis by (simp add: get_index_for_combination_def)
qed

lemma length_combs: "0 < k \<Longrightarrow> length (combs lo n k) = (n - lo) choose k"
proof (induction k arbitrary: lo)
  case (Suc k)
  note IH = Suc.IH
  show ?case
  proof (induction "n - lo" arbitrary: lo)
    case (Suc d)
    then have lo: "[lo..<n] = lo # [Suc lo..<n]" and d: "d = n - Suc lo" by (simp_all add: upt_conv_Cons)
    have "length (combs lo n (Suc k)) = length (combs (Suc lo) n k) + length (combs (Suc lo) n (Suc k))"
      by (simp add: lo)
    moreover have "length (combs (Suc lo) n k) = (n - Suc lo) choose k" using IH by (cases k) auto
    ultimately show ?case using Suc.hyps(1)[OF d] Suc.hyps(2) d
      by (metis binomial_Suc_Suc)
  qed simp
qed simp

lemma sorted_combs: "sorted_wrt ord_class.lexordp (combs lo n k)"
proof (induction k arbitrary: lo)
  case (Suc k)
  note IH = Suc.IH
  show ?case
  proof (induction "n - lo" arbitrary: lo)
    case (Suc d)
    then have lo: "[lo..<n] = lo # [Suc lo..<n]" and d: "d = n - Suc lo" by (simp_all add: upt_conv_Cons)
    show ?case using IH[of "Suc lo"] Suc.hyps(1)[OF d]
      by (auto simp: lo sorted_wrt_append sorted_wrt_map lexordp_simps)
  qed simp
qed simp


text \<open>C35: For \<open>0 < k \<le> n\<close>, \<open>CombinationIterator::new(n, k)\<close> does not panic, the loop over the
  iterator ends, and it yields exactly the strictly increasing selections of \<open>k\<close> of the indexes
  \<open>0..n\<close>, in lexicographic order, each once, so \<open>n choose k\<close> of them;
  \<open>get_index_for_combination\<close> returns the position of its argument among them, or \<open>None\<close>.\<close>

theorem combination_iterator_correct:
  assumes "0 < k" "k \<le> n"
  shows "\<exists>it cs. new n k = Some it \<and> collect it = Some cs \<and>
    set cs = {xs. length xs = k \<and> sorted_wrt (<) xs \<and> set xs \<subseteq> {0..<n}} \<and>
    sorted_wrt ord_class.lexordp cs \<and> length cs = n choose k \<and>
    (\<forall>c. get_index_for_combination it c = Some (find_first_index ((=) c) cs))"
  using collect_new[OF assms] get_index_new[OF assms] assms
  by (auto simp: set_combs selection_def sorted_combs length_combs)

lemma combination_iterator_correct_witness:
  "\<exists>it cs. new 4 3 = Some it \<and> collect it = Some cs \<and> length cs = 4 choose 3 \<and> [0, 2, 3] \<in> set cs"
  using combination_iterator_correct[of 3 4] by fastforce

end
