(* ===== verification/TrieUtils.thy ===== *)
theory TrieUtils
  imports Combinations
begin

text \<open>
  \<open>dlc-trie/src/utils.rs\<close> and the numeric oracle information of \<open>dlc-trie/src/lib.rs\<close>: padding,
  the paths that cover the outcomes beyond the range of the shortest oracle, the callback that
  numbers adaptor signatures, and the adaptor point of a set of paths. Errors are those of
  \<open>dlc/src/lib.rs\<close>; a panic is \<open>None\<close>.
\<close>

section \<open>Errors and oracle information\<close>

text \<open>The payloads are errors of the called libraries.\<close>

datatype DlcError =
  Secp256k1 string | P2wpkh string | InvalidArgument | Miniscript string | InputsIndex string

record OracleNumericInfo =
  oni_base :: nat
  nb_digits :: "nat list"

definition get_min_nb_digits :: "OracleNumericInfo \<Rightarrow> nat option" where
  "get_min_nb_digits info = (case nb_digits info of [] \<Rightarrow> None | x # xs \<Rightarrow> Some (fold min xs x))"

definition has_diff_nb_digits :: "OracleNumericInfo \<Rightarrow> bool" where
  "has_diff_nb_digits info = (\<exists>x \<in> set (drop 1 (nb_digits info)). x \<noteq> nb_digits info ! 0)"

record RangeInfo =
  cet_index :: nat
  adaptor_index :: nat

record TrieIterInfo =
  tii_indexes :: "nat list"
  tii_paths :: "nat list list"
  tii_value :: RangeInfo

section \<open>Padding\<close>

definition pre_pad_vec :: "nat list \<Rightarrow> nat \<Rightarrow> nat list option" where
  "pre_pad_vec input expected_size =
     (if length input = expected_size then Some input
      else Option.bind (u64_sub expected_size (length input)) (\<lambda>k. Some (replicate k 0 @ input)))"

lemma pre_pad_vec_Some [simp]:
  "pre_pad_vec p n = Some q \<longleftrightarrow> length p \<le> n \<and> q = replicate (n - length p) 0 @ p"
  by (auto simp: pre_pad_vec_def bind_eq_Some_conv)

section \<open>Paths beyond the shortest oracle\<close>

text \<open>
  The counters hold, for every selected oracle, the length of its prefix (0 for an oracle with
  the minimum number of digits); \<open>bump_counters\<close> is the inner \<open>while\<close> with the increment.
\<close>

definition covering_path :: "nat \<Rightarrow> nat list \<Rightarrow> nat list \<Rightarrow> (nat \<times> nat list) list" where
  "covering_path m counters comb =
     map (\<lambda>(x, i). (i, if x = 0 then replicate m 1 else replicate (x - 1) 0 @ [1])) (zip counters comb)"

function bump_counters :: "nat \<Rightarrow> nat list \<Rightarrow> nat list \<Rightarrow> nat list \<Rightarrow> nat \<Rightarrow> nat list option" where
  "bump_counters m infos mx counters i =
     do {
       c \<leftarrow> vget counters i;
       h \<leftarrow> vget mx i;
       if c = h
       then do { d \<leftarrow> vget infos i; bump_counters m infos mx (if d \<noteq> m then counters[i := 1] else counters) (i + 1) }
       else Some (counters[i := c + 1])
     }"
  by pat_completeness auto
termination
  by (relation "measure (\<lambda>(m, infos, mx, counters, i). length counters - i)") auto

declare bump_counters.simps [simp del]

partial_function (option) covering_loop ::
  "nat \<Rightarrow> nat list \<Rightarrow> nat list \<Rightarrow> nat list \<Rightarrow> nat list \<Rightarrow> (nat \<times> nat list) list list \<Rightarrow>
   (nat \<times> nat list) list list option" where
  "covering_loop m infos mx comb counters paths =
     (let paths = paths @ [covering_path m counters comb] in
      if list_all (\<lambda>(x, y). x = y) (zip counters mx) then Some paths
      else Option.bind (bump_counters m infos mx counters 0) (\<lambda>counters. covering_loop m infos mx comb counters paths))"

declare covering_loop.simps [code]

definition selected_infos :: "nat list \<Rightarrow> nat list \<Rightarrow> nat list" where
  "selected_infos nds comb = map snd (filter (\<lambda>(i, x). i \<in> set comb) (zip [0..<length nds] nds))"

fun covering_combinations ::
  "nat list \<Rightarrow> nat \<Rightarrow> nat list list \<Rightarrow> (nat \<times> nat list) list list \<Rightarrow> (nat \<times> nat list) list list option" where
  "covering_combinations nds m [] paths = Some paths"
| "covering_combinations nds m (comb # rest) paths =
     (let infos = selected_infos nds comb in
      if list_all (\<lambda>x. x = m) infos then covering_combinations nds m rest paths
      else do {
        mx \<leftarrow> omap (\<lambda>x. u64_sub x m) infos;
        paths \<leftarrow> covering_loop m infos mx comb (map (\<lambda>x. if x \<noteq> m then 1 else 0) infos) paths;
        covering_combinations nds m rest paths
      })"

definition get_max_covering_paths :: "OracleNumericInfo \<Rightarrow> nat \<Rightarrow> (nat \<times> nat list) list list option" where
  "get_max_covering_paths info threshold =
     do {
       m \<leftarrow> get_min_nb_digits info;
       it \<leftarrow> new (length (nb_digits info)) threshold;
       cs \<leftarrow> collect it;
       covering_combinations (nb_digits info) m cs []
     }"

section \<open>Callbacks and adaptor points\<close>

text \<open>The state of the callback: the next adaptor index and the infos so far.\<close>

type_synonym trie_state = "nat \<times> TrieIterInfo list"

definition get_value_callback ::
  "nat list list \<Rightarrow> nat list \<Rightarrow> nat \<Rightarrow> trie_state \<Rightarrow> (DlcError + RangeInfo) \<times> trie_state" where
  "get_value_callback paths oracle_indexes cet st =
     (let range_info = \<lparr>cet_index = cet, adaptor_index = fst st\<rparr>;
          iter_info = \<lparr>tii_indexes = oracle_indexes, tii_paths = paths, tii_value = range_info\<rparr>
      in (Inr range_info, (fst st + 1, snd st @ [iter_info])))"

text \<open>
  \<open>combine\<close> is \<open>PublicKey::combine_keys\<close>, the sum of points of the secp256k1 library: it fails
  when the sum is the point at infinity.
\<close>

definition indexed_keys :: "nat list \<Rightarrow> nat list list \<Rightarrow> 'pk list list list \<Rightarrow> 'pk list option" where
  "indexed_keys indexes paths points =
     map_option concat (omap (\<lambda>(i, j). do {
       path \<leftarrow> vget paths i;
       ps \<leftarrow> vget points j;
       omap (\<lambda>(y, p). vget y p) (zip ps path)
     }) (zip [0..<length indexes] indexes))"

definition get_adaptor_point_for_indexed_paths ::
  "('pk list \<Rightarrow> string + 'pk) \<Rightarrow> nat list \<Rightarrow> nat list list \<Rightarrow> 'pk list list list \<Rightarrow> (DlcError + 'pk) option" where
  "get_adaptor_point_for_indexed_paths combine indexes paths points =
     do {
       assert_that (length indexes = length paths);
       assert_that (length indexes \<le> length points);
       if indexes = [] then Some (Inl InvalidArgument)
       else do {
         keys \<leftarrow> indexed_keys indexes paths points;
         Some (case combine keys of Inl e \<Rightarrow> Inl (Secp256k1 e) | Inr k \<Rightarrow> Inr k)
       }
     }"

section \<open>Specification of the counters\<close>

text \<open>Every position of the odometer has its lowest and its highest value.\<close>

fun inc :: "(nat \<times> nat) list \<Rightarrow> nat list \<Rightarrow> nat list option" where
  "inc ((lo, hi) # rs) (c # cs) = (if c = hi then map_option ((#) lo) (inc rs cs) else Some (Suc c # cs))"
| "inc _ _ = None"

fun odo_run :: "(nat \<times> nat) list \<Rightarrow> nat list \<Rightarrow> nat list list" where
  "odo_run ((lo, hi) # rs) (c # cs) =
     map (\<lambda>x. x # cs) [c..<Suc hi] @ concat (map (\<lambda>cs'. map (\<lambda>x. x # cs') [lo..<Suc hi]) (tl (odo_run rs cs)))"
| "odo_run _ _ = [[]]"

definition in_ranges :: "(nat \<times> nat) list \<Rightarrow> nat list \<Rightarrow> bool" where
  "in_ranges rs cs \<longleftrightarrow> list_all2 (\<lambda>(lo, hi) c. lo \<le> c \<and> c \<le> hi) rs cs"

lemma in_ranges_simps [simp]:
  "in_ranges [] cs \<longleftrightarrow> cs = []"
  "in_ranges ((lo, hi) # rs) (c # cs) \<longleftrightarrow> lo \<le> c \<and> c \<le> hi \<and> in_ranges rs cs"
  "in_ranges rs [] \<longleftrightarrow> rs = []"
  by (auto simp: in_ranges_def)

lemma inc_in_ranges: "in_ranges rs cs \<Longrightarrow> inc rs cs = Some cs' \<Longrightarrow> in_ranges rs cs'"
  by (induction rs cs arbitrary: cs' rule: inc.induct) (auto split: if_splits)

lemma odo_run_hd: "in_ranges rs cs \<Longrightarrow> odo_run rs cs = cs # tl (odo_run rs cs)"
  by (cases "(rs, cs)" rule: odo_run.cases) (auto simp: upt_conv_Cons simp del: upt_Suc)

lemma concat_map_hd: "L = x # tl L \<Longrightarrow> concat (map F L) = F x @ concat (map F (tl L))"
  by (cases L) auto

lemma odo_run_step:
  "in_ranges rs cs \<Longrightarrow> odo_run rs cs = cs # (case inc rs cs of None \<Rightarrow> [] | Some cs' \<Rightarrow> odo_run rs cs')"
proof (induction rs cs rule: inc.induct)
  case (1 lo hi rs c cs)
  show ?case
  proof (cases "c = hi")
    case True
    show ?thesis
    proof (cases "inc rs cs")
      case None
      then show ?thesis using 1 True by simp
    next
      case (Some cs')
      have "odo_run rs cs' = cs' # tl (odo_run rs cs')"
        using 1(2) inc_in_ranges[OF _ Some] by (intro odo_run_hd) simp
      note c = concat_map_hd[OF this]
      have "odo_run rs cs = cs # odo_run rs cs'" using 1 True Some by simp
      then show ?thesis using Some True by (simp add: c del: upt_Suc) simp
    qed
  next
    case False
    then have "c < hi" using 1(2) by simp
    then show ?thesis using False by (simp add: upt_conv_Cons del: upt_Suc)
  qed
qed (auto simp: in_ranges_def)

lemma inc_None: "in_ranges rs cs \<Longrightarrow> inc rs cs = None \<longleftrightarrow> cs = map snd rs"
  by (induction rs cs rule: inc.induct) auto

lemma distinct_product: "distinct xs \<Longrightarrow> distinct L \<Longrightarrow> distinct (concat (map (\<lambda>b. map (\<lambda>a. a # b) xs) L))"
  by (induction L) (auto simp: distinct_map inj_on_def)

text \<open>From the lowest counters, every tuple of the ranges comes up, once.\<close>

lemma odo_run_lows:
  "list_all (\<lambda>(lo, hi). lo \<le> hi) rs \<Longrightarrow>
   set (odo_run rs (map fst rs)) = {cs. in_ranges rs cs} \<and> distinct (odo_run rs (map fst rs)) \<and>
   odo_run rs (map fst rs) \<noteq> []"
proof (induction rs)
  case (Cons r rs)
  obtain lo hi where r: "r = (lo, hi)" by (cases r)
  let ?L = "odo_run rs (map fst rs)"
  have lh: "lo \<le> hi" and low: "list_all (\<lambda>(lo, hi). lo \<le> hi) rs" using Cons.prems r by auto
  note IH = Cons.IH[OF low]
  have "in_ranges rs (map fst rs)" using low by (auto simp: in_ranges_def list_all2_conv_all_nth list_all_length)
  then have hd: "?L = map fst rs # tl ?L" by (rule odo_run_hd)
  have run: "odo_run (r # rs) (map fst (r # rs)) = concat (map (\<lambda>cs'. map (\<lambda>x. x # cs') [lo..<Suc hi]) ?L)"
    by (simp add: r concat_map_hd[OF hd] del: upt_Suc)
  have "cs \<in> set (odo_run (r # rs) (map fst (r # rs))) \<longleftrightarrow> in_ranges (r # rs) cs" for cs
    unfolding run using IH by (cases cs) (auto simp: r image_iff simp del: upt_Suc)
  moreover have "distinct (concat (map (\<lambda>cs'. map (\<lambda>x. x # cs') [lo..<Suc hi]) ?L))"
    using IH by (intro distinct_product) auto
  moreover have "odo_run (r # rs) (map fst (r # rs)) \<noteq> []" using lh by (simp add: r)
  ultimately show ?case unfolding run by blast
qed auto

definition counter_ranges :: "nat \<Rightarrow> nat list \<Rightarrow> (nat \<times> nat) list" where
  "counter_ranges m infos = map (\<lambda>d. if d \<noteq> m then (1, d - m) else (0, 0)) infos"

lemma bump_counters_inc:
  assumes "mx = map (\<lambda>d. d - m) infos" "in_ranges (counter_ranges m infos) cs" "i \<le> length cs"
  shows "bump_counters m infos mx cs i =
    map_option (\<lambda>cs'. take i cs @ cs') (inc (drop i (counter_ranges m infos)) (drop i cs))"
  using assms
proof (induction m infos mx cs i rule: bump_counters.induct)
  case (1 m infos mx cs i)
  let ?rs = "counter_ranges m infos"
  have len: "length cs = length infos" "length mx = length infos" "length ?rs = length infos"
    using 1(2,3) by (auto simp: in_ranges_def counter_ranges_def dest: list_all2_lengthD)
  show ?case
  proof (cases "i < length cs")
    case False
    then show ?thesis by (subst bump_counters.simps) (simp add: vget_def)
  next
    case True
    let ?cs = "if infos ! i \<noteq> m then cs[i := 1] else cs"
    have rsi: "?rs ! i = (if infos ! i \<noteq> m then (1, mx ! i) else (0, 0))" and mxi: "mx ! i = infos ! i - m"
      using True len 1(2) by (auto simp: counter_ranges_def)
    have bnd: "fst (?rs ! i) \<le> cs ! i" "cs ! i \<le> snd (?rs ! i)"
      using 1(3) True len by (auto simp: in_ranges_def list_all2_conv_all_nth case_prod_beta)
    have drops: "drop i ?rs = ?rs ! i # drop (Suc i) ?rs" "drop i cs = cs ! i # drop (Suc i) cs"
      using True len by (simp_all add: Cons_nth_drop_Suc)
    show ?thesis
    proof (cases "cs ! i = mx ! i")
      case eq: True
      have cs': "?cs = cs[i := fst (?rs ! i)]"
      proof (cases "infos ! i = m")
        case True
        then have "cs ! i = fst (?rs ! i)" using rsi bnd by simp
        then show ?thesis using True list_update_id[of cs i] by simp
      qed (simp add: rsi)
      have ranges: "in_ranges ?rs ?cs"
        using 1(3) rsi bnd eq True len unfolding cs' in_ranges_def list_all2_conv_all_nth
        by (auto simp: nth_list_update split: prod.splits)
      have "bump_counters m infos mx cs i = bump_counters m infos mx ?cs (i + 1)"
        using True len eq by (subst bump_counters.simps) simp
      also have "\<dots> = map_option (\<lambda>r. take (i + 1) ?cs @ r) (inc (drop (i + 1) ?rs) (drop (i + 1) ?cs))"
        using True len eq ranges 1(2) by (intro 1(1)) auto
      also have "take (i + 1) ?cs = take i cs @ [fst (?rs ! i)]"
        unfolding cs' using True by (simp add: take_Suc_conv_app_nth)
      also have "drop (i + 1) ?cs = drop (Suc i) cs" unfolding cs' by simp
      finally show ?thesis unfolding drops using eq rsi bnd mxi
        by (cases "?rs ! i") (auto simp: option.map_comp comp_def split: if_splits)
    next
      case ne: False
      then have "bump_counters m infos mx cs i = Some (cs[i := cs ! i + 1])"
        using True len by (subst bump_counters.simps) simp
      then show ?thesis unfolding drops using ne rsi bnd mxi True
        by (cases "?rs ! i") (auto simp: upd_conv_take_nth_drop split: if_splits)
    qed
  qed
qed

lemma covering_loop_run:
  assumes "mx = map (\<lambda>d. d - m) infos" "in_ranges (counter_ranges m infos) cs"
  shows "covering_loop m infos mx comb cs paths =
    Some (paths @ map (\<lambda>c. covering_path m c comb) (odo_run (counter_ranges m infos) cs))"
  using assms(2)
proof (induction "length (odo_run (counter_ranges m infos) cs)" arbitrary: cs paths rule: less_induct)
  case less
  let ?rs = "counter_ranges m infos"
  have len: "length cs = length mx" using less.prems assms(1)
    by (auto simp: in_ranges_def counter_ranges_def dest: list_all2_lengthD)
  have snds: "map snd ?rs = mx" by (auto simp: assms(1) counter_ranges_def)
  have eq: "list_all (\<lambda>(x, y). x = y) (zip cs mx) \<longleftrightarrow> inc ?rs cs = None"
    unfolding inc_None[OF less.prems] snds using len by (auto simp: list_all_length list_eq_iff_nth_eq)
  note step = odo_run_step[OF less.prems]
  have bump: "bump_counters m infos mx cs 0 = inc ?rs cs"
    using bump_counters_inc[OF assms(1) less.prems, of 0] by (simp add: option.map_ident)
  show ?case
  proof (cases "inc ?rs cs")
    case None
    then show ?thesis using step by (subst covering_loop.simps) (simp add: eq)
  next
    case (Some cs')
    have "length (odo_run ?rs cs') < length (odo_run ?rs cs)" using step Some by simp
    note IH = less.hyps[OF this inc_in_ranges[OF less.prems Some]]
    show ?thesis using step Some IH by (subst covering_loop.simps) (simp add: eq bump Let_def)
  qed
qed

text \<open>The paths of one combination of oracles.\<close>

definition covering_paths_of :: "nat list \<Rightarrow> nat \<Rightarrow> nat list \<Rightarrow> (nat \<times> nat list) list list" where
  "covering_paths_of nds m comb =
     (let infos = map ((!) nds) comb in
      if \<forall>x \<in> set infos. x = m then []
      else map (\<lambda>c. covering_path m c comb) (odo_run (counter_ranges m infos) (map fst (counter_ranges m infos))))"

lemma selected_infos_eq:
  assumes "selection 0 (length nds) k comb"
  shows "selected_infos nds comb = map ((!) nds) comb"
proof -
  have "filter (\<lambda>i. i \<in> set comb) [0..<length nds] = comb"
    using assms by (intro sorted_distinct_set_unique)
      (auto simp: selection_def strict_sorted_iff sorted_wrt_filter)
  moreover have "selected_infos nds comb = map ((!) nds) (filter (\<lambda>i. i \<in> set comb) [0..<length nds])"
  proof -
    have zip: "zip [0..<length nds] nds = map (\<lambda>i. (i, nds ! i)) [0..<length nds]"
      by (rule nth_equalityI) auto
    show ?thesis unfolding selected_infos_def zip by (simp add: filter_map comp_def)
  qed
  ultimately show ?thesis by simp
qed

lemma covering_combinations_run:
  assumes "\<forall>x \<in> set nds. m \<le> x"
  shows "\<forall>c \<in> set cs. selection 0 (length nds) k c \<Longrightarrow>
    covering_combinations nds m cs paths = Some (paths @ concat (map (covering_paths_of nds m) cs))"
proof (induction cs arbitrary: paths)
  case (Cons c cs)
  have sel: "selection 0 (length nds) k c" using Cons.prems by simp
  note infos = selected_infos_eq[OF sel]
  let ?infos = "map ((!) nds) c"
  have ge: "\<forall>x \<in> set ?infos. m \<le> x" using sel assms by (auto simp: selection_def)
  then have mx: "omap (\<lambda>x. u64_sub x m) ?infos = Some (map (\<lambda>x. x - m) ?infos)"
    by (auto simp: omap_Some_iff list_all2_conv_all_nth u64_sub_def)
  have low: "map (\<lambda>x. if x \<noteq> m then 1 else 0) ?infos = map fst (counter_ranges m ?infos)"
    by (auto simp: counter_ranges_def)
  have rng: "in_ranges (counter_ranges m ?infos) (map fst (counter_ranges m ?infos))"
    using ge by (auto simp: in_ranges_def counter_ranges_def list_all2_conv_all_nth Suc_le_eq dest!: nth_mem)
  note loop = covering_loop_run[OF refl rng]
  show ?case using Cons.IH Cons.prems
    by (simp add: infos Let_def list_all_iff covering_paths_of_def mx[simplified] low[simplified] loop[simplified])
qed simp

lemma get_min_nb_digits_spec:
  "get_min_nb_digits info = (if nb_digits info = [] then None else Some (Min (set (nb_digits info))))"
proof -
  have "fold min xs x = Min (set (x # xs))" for xs and x :: nat
    by (metis Min.set_eq_fold)
  then show ?thesis by (auto simp: get_min_nb_digits_def split: list.splits)
qed

lemma get_max_covering_paths_run:
  assumes "0 < k" "k \<le> length (nb_digits info)"
  shows "get_max_covering_paths info k =
    Some (concat (map (covering_paths_of (nb_digits info) (Min (set (nb_digits info)))) (combs 0 (length (nb_digits info)) k)))"
proof -
  obtain it where it: "new (length (nb_digits info)) k = Some it"
    "collect it = Some (combs 0 (length (nb_digits info)) k)" using collect_new[OF assms] by blast
  have "nb_digits info \<noteq> []" using assms by auto
  then show ?thesis using it
      covering_combinations_run[of "nb_digits info" "Min (set (nb_digits info))" "combs 0 (length (nb_digits info)) k" k "[]"]
    by (simp add: get_max_covering_paths_def get_min_nb_digits_spec set_combs)
qed

section \<open>The covering paths cover\<close>

lemma take_unary: "j < length d \<Longrightarrow> take (Suc j) d = replicate j 0 @ [1] \<longleftrightarrow> d ! j = (1::nat) \<and> (\<forall>i < j. d ! i = 0)"
  by (auto simp: list_eq_iff_nth_eq take_Suc_conv_app_nth nth_append)

text \<open>The digits of an outcome that the covering path of counter \<open>c\<close> is a prefix of.\<close>

definition counter_matches :: "nat \<Rightarrow> nat \<Rightarrow> nat list \<Rightarrow> bool" where
  "counter_matches m c d \<longleftrightarrow> (let q = (if c = 0 then replicate m 1 else replicate (c - 1) 0 @ [1]) in take (length q) d = q)"

lemma counter_unique:
  assumes "set d \<subseteq> {0, 1}" "\<exists>j < length d - m. d ! j \<noteq> 0" "m < length d"
  shows "\<exists>!c. 1 \<le> c \<and> c \<le> length d - m \<and> counter_matches m c d"
proof -
  define j where "j = (LEAST j. d ! j \<noteq> 0)"
  obtain j0 where j0: "j0 < length d - m" "d ! j0 \<noteq> 0" using assms(2) by blast
  have nz: "d ! j \<noteq> 0" "j < length d - m"
    unfolding j_def using j0 by (auto intro: LeastI le_less_trans[OF Least_le])
  have below: "\<forall>i < j. d ! i = 0" unfolding j_def using not_less_Least by blast
  have "d ! j = 1" using nz assms(1) by (metis diff_le_self insertE less_le_trans nth_mem singletonD subsetD)
  have match: "counter_matches m (Suc i) d \<longleftrightarrow> d ! i = 1 \<and> (\<forall>k < i. d ! k = 0)" if "i < length d - m" for i
    using take_unary[of i d] that by (simp add: counter_matches_def Let_def)
  show ?thesis
  proof (rule ex1I[of _ "Suc j"])
    show "1 \<le> Suc j \<and> Suc j \<le> length d - m \<and> counter_matches m (Suc j) d"
      using nz(2) below \<open>d ! j = 1\<close> match by auto
    fix c assume c: "1 \<le> c \<and> c \<le> length d - m \<and> counter_matches m c d"
    then obtain i where i: "c = Suc i" "i < length d - m" by (cases c) auto
    then have "d ! i = 1" "\<forall>k < i. d ! k = 0" using c match by auto
    then have "i = j" using below \<open>d ! j = 1\<close> by (metis linorder_neqE_nat zero_neq_one)
    then show "c = Suc j" using i by simp
  qed
qed

text \<open>The outcomes that \<open>get_max_covering_paths\<close> is for.\<close>

definition beyond_min :: "nat \<Rightarrow> nat list \<Rightarrow> bool" where
  "beyond_min m d \<longleftrightarrow> set d \<subseteq> {0, 1} \<and>
     (if length d = m then d = replicate m 1 else m < length d \<and> (\<exists>j < length d - m. d ! j \<noteq> 0))"

lemma counter_for:
  assumes "beyond_min m d"
  shows "\<exists>!c. in_ranges (counter_ranges m [length d]) [c] \<and> counter_matches m c d"
proof (cases "length d = m")
  case True
  then show ?thesis using assms
    by (intro ex1I[of _ 0]) (auto simp: beyond_min_def counter_ranges_def counter_matches_def)
next
  case False
  then show ?thesis using counter_unique[of d m] assms by (auto simp: beyond_min_def counter_ranges_def)
qed

lemma ranges_Cons:
  "in_ranges (counter_ranges m (x # xs)) (c # cs) \<longleftrightarrow>
     in_ranges (counter_ranges m [x]) [c] \<and> in_ranges (counter_ranges m xs) cs"
  by (simp add: counter_ranges_def)

lemma counters_for:
  assumes "\<forall>i \<in> set comb. beyond_min m (d i)"
  shows "\<exists>!cs. in_ranges (counter_ranges m (map (\<lambda>i. length (d i)) comb)) cs \<and>
    list_all2 (\<lambda>c i. counter_matches m c (d i)) cs comb"
  using assms
proof (induction comb)
  case (Cons i comb)
  obtain c where c: "in_ranges (counter_ranges m [length (d i)]) [c]" "counter_matches m c (d i)"
    "\<And>c'. in_ranges (counter_ranges m [length (d i)]) [c'] \<Longrightarrow> counter_matches m c' (d i) \<Longrightarrow> c' = c"
    using counter_for[of m "d i"] Cons.prems by (metis list.set_intros(1))
  obtain cs where cs: "in_ranges (counter_ranges m (map (\<lambda>i. length (d i)) comb)) cs"
    "list_all2 (\<lambda>c i. counter_matches m c (d i)) cs comb"
    "\<And>cs'. in_ranges (counter_ranges m (map (\<lambda>i. length (d i)) comb)) cs' \<Longrightarrow>
       list_all2 (\<lambda>c i. counter_matches m c (d i)) cs' comb \<Longrightarrow> cs' = cs"
    using Cons.IH Cons.prems by (metis list.set_intros(2))
  note rng = ranges_Cons[of m "length (d i)" "map (\<lambda>i. length (d i)) comb"]
  show ?case
  proof (rule ex1I[of _ "c # cs"])
    show "in_ranges (counter_ranges m (map (\<lambda>i. length (d i)) (i # comb))) (c # cs) \<and>
        list_all2 (\<lambda>c i. counter_matches m c (d i)) (c # cs) (i # comb)"
      using c(1,2) cs(1,2) by (simp add: rng)
    fix ys assume ys: "in_ranges (counter_ranges m (map (\<lambda>i. length (d i)) (i # comb))) ys \<and>
        list_all2 (\<lambda>c i. counter_matches m c (d i)) ys (i # comb)"
    then obtain y ys' where y: "ys = y # ys'" by (cases ys) auto
    show "ys = c # cs" using ys c(3)[of y] cs(3)[of ys'] by (simp add: y rng)
  qed
qed (auto simp: counter_ranges_def in_ranges_def)

lemma covering_path_matches:
  "length cs = length comb \<Longrightarrow>
   (\<forall>(i, q) \<in> set (covering_path m cs comb). take (length q) (d i) = q) \<longleftrightarrow>
   list_all2 (\<lambda>c i. counter_matches m c (d i)) cs comb"
  by (induction cs comb rule: list_induct2) (auto simp: covering_path_def counter_matches_def Let_def)

lemma covering_path_fst: "length cs = length comb \<Longrightarrow> map fst (covering_path m cs comb) = comb"
  by (induction cs comb rule: list_induct2) (auto simp: covering_path_def)

lemma set_covering_paths_of:
  assumes "\<forall>i \<in> set comb. m \<le> nds ! i" "\<exists>i \<in> set comb. nds ! i \<noteq> m"
  shows "set (covering_paths_of nds m comb) =
    (\<lambda>cs. covering_path m cs comb) ` {cs. in_ranges (counter_ranges m (map ((!) nds) comb)) cs}"
proof -
  let ?rs = "counter_ranges m (map ((!) nds) comb)"
  have "list_all (\<lambda>(lo, hi). lo \<le> hi) ?rs"
    using assms(1) by (auto simp: counter_ranges_def list_all_iff Suc_le_eq)
  then have "set (odo_run ?rs (map fst ?rs)) = {cs. in_ranges ?rs cs}" using odo_run_lows by blast
  then show ?thesis using assms(2) by (auto simp: covering_paths_of_def Let_def)
qed

lemma ranges_length: "in_ranges (counter_ranges m xs) cs \<Longrightarrow> length cs = length xs"
  by (auto simp: in_ranges_def counter_ranges_def dest: list_all2_lengthD)

lemma covering_paths_unique:
  assumes "\<forall>i \<in> set comb. beyond_min m (d i) \<and> length (d i) = nds ! i" "\<exists>i \<in> set comb. nds ! i \<noteq> m"
  shows "\<exists>!p. p \<in> set (covering_paths_of nds m comb) \<and> (\<forall>(i, q) \<in> set p. take (length q) (d i) = q)"
proof -
  let ?rs = "counter_ranges m (map ((!) nds) comb)"
  have len: "map (\<lambda>i. length (d i)) comb = map ((!) nds) comb" using assms(1) by simp
  have "\<forall>i \<in> set comb. m \<le> nds ! i" using assms(1) by (auto simp: beyond_min_def split: if_splits)
  note set = set_covering_paths_of[OF this assms(2)]
  obtain cs where cs: "in_ranges ?rs cs" "list_all2 (\<lambda>c i. counter_matches m c (d i)) cs comb"
    "\<And>cs'. in_ranges ?rs cs' \<Longrightarrow> list_all2 (\<lambda>c i. counter_matches m c (d i)) cs' comb \<Longrightarrow> cs' = cs"
    using counters_for[of comb m d] assms(1) unfolding len by blast
  show ?thesis
  proof (rule ex1I[of _ "covering_path m cs comb"])
    show "covering_path m cs comb \<in> set (covering_paths_of nds m comb) \<and>
        (\<forall>(i, q) \<in> set (covering_path m cs comb). take (length q) (d i) = q)"
      using cs(1,2) covering_path_matches[OF list_all2_lengthD[OF cs(2)]] by (auto simp: set)
    fix p assume p: "p \<in> set (covering_paths_of nds m comb) \<and> (\<forall>(i, q) \<in> set p. take (length q) (d i) = q)"
    then obtain cs' where cs': "p = covering_path m cs' comb" "in_ranges ?rs cs'" by (auto simp: set)
    then have "length cs' = length comb" using ranges_length[OF cs'(2)] by simp
    then have "cs' = cs" using p covering_path_matches[of cs' comb m d] cs' by (intro cs(3)) auto
    then show "p = covering_path m cs comb" using cs' by simp
  qed
qed

lemma covering_paths_indexes: "p \<in> set (covering_paths_of nds m comb) \<Longrightarrow> \<forall>i \<in> set comb. m \<le> nds ! i \<Longrightarrow> map fst p = comb"
proof -
  assume p: "p \<in> set (covering_paths_of nds m comb)" and ge: "\<forall>i \<in> set comb. m \<le> nds ! i"
  then have "\<exists>i \<in> set comb. nds ! i \<noteq> m" by (auto simp: covering_paths_of_def Let_def split: if_splits)
  from set_covering_paths_of[OF ge this] p obtain cs where
    "p = covering_path m cs comb" "in_ranges (counter_ranges m (map ((!) nds) comb)) cs" by auto
  then show ?thesis using ranges_length[of m "map ((!) nds) comb" cs] by (simp add: covering_path_fst)
qed

text \<open>The covering paths exist for every threshold from 1 to the number of oracles, and cover the
  outcomes beyond the range of the shortest oracle without overlap: for every selection of that many
  oracles, not all of minimum length, and all outcomes of theirs that are maximal for the shortest
  oracles and out of their range for the others, exactly one path has these oracles and is a prefix
  of every outcome.\<close>

theorem max_covering_paths_exact_cover:
  assumes "0 < k" "k \<le> length (nb_digits info)"
  shows "\<exists>m ps. get_min_nb_digits info = Some m \<and> get_max_covering_paths info k = Some ps \<and>
    (\<forall>comb d. selection 0 (length (nb_digits info)) k comb \<and> (\<exists>i \<in> set comb. nb_digits info ! i \<noteq> m) \<and>
       (\<forall>i \<in> set comb. length (d i) = nb_digits info ! i \<and> beyond_min m (d i)) \<longrightarrow>
       (\<exists>!p. p \<in> set ps \<and> map fst p = comb \<and> (\<forall>(i, q) \<in> set p. take (length q) (d i) = q)))"
proof -
  let ?nds = "nb_digits info" and ?n = "length (nb_digits info)"
  let ?m = "Min (set ?nds)"
  let ?ps = "concat (map (covering_paths_of ?nds ?m) (combs 0 ?n k))"
  have ne: "?nds \<noteq> []" using assms by auto
  have sel: "\<forall>i \<in> set c. ?m \<le> ?nds ! i" if "selection 0 ?n k c" for c
    using that by (auto simp: selection_def)
  have "\<exists>!p. p \<in> set ?ps \<and> map fst p = comb \<and> (\<forall>(i, q) \<in> set p. take (length q) (d i) = q)"
    if c: "selection 0 ?n k comb" "\<exists>i \<in> set comb. ?nds ! i \<noteq> ?m"
      "\<forall>i \<in> set comb. length (d i) = ?nds ! i \<and> beyond_min ?m (d i)" for comb d
  proof -
    have "p \<in> set ?ps \<and> map fst p = comb \<longleftrightarrow> p \<in> set (covering_paths_of ?nds ?m comb)" for p
      using covering_paths_indexes[of p ?nds ?m] sel c(1) by (auto simp: set_combs)
    moreover have "\<exists>!p. p \<in> set (covering_paths_of ?nds ?m comb) \<and> (\<forall>(i, q) \<in> set p. take (length q) (d i) = q)"
      using c(2,3) by (intro covering_paths_unique) auto
    ultimately show ?thesis by (simp only: conj_assoc[symmetric])
  qed
  then show ?thesis using get_max_covering_paths_run[OF assms] ne
    by (intro exI[of _ ?m] exI[of _ ?ps]) (simp add: get_min_nb_digits_spec)
qed

theorem max_covering_paths_exact_cover_witness:
  "\<exists>ps. get_max_covering_paths \<lparr>oni_base = 2, nb_digits = [3, 2, 4]\<rparr> 2 = Some ps \<and>
    (\<exists>!p. p \<in> set ps \<and> map fst p = [0, 2] \<and>
       (\<forall>(i, q) \<in> set p. take (length q) (if i = 0 then [1, 0, 1] else [0, 1, 1, 0]) = q))"
proof -
  let ?info = "\<lparr>oni_base = 2, nb_digits = [3, 2, 4]\<rparr>" and ?d = "\<lambda>i. if i = 0 then [1, 0, 1] else [0, 1, 1, 0::nat]"
  obtain ps where ps: "get_max_covering_paths ?info 2 = Some ps" and all: "\<And>comb d. selection 0 (length [3, 2, 4 :: nat]) 2 comb \<Longrightarrow>
      \<exists>i \<in> set comb. [3, 2, 4] ! i \<noteq> (2::nat) \<Longrightarrow> \<forall>i \<in> set comb. length (d i) = [3, 2, 4] ! i \<and> beyond_min 2 (d i) \<Longrightarrow>
      \<exists>!p. p \<in> set ps \<and> map fst p = comb \<and> (\<forall>(i, q) \<in> set p. take (length q) (d i) = q)"
    using max_covering_paths_exact_cover[of 2 ?info] by (auto simp: get_min_nb_digits_def)
  have "beyond_min 2 [1, 0, 1]" by (simp add: beyond_min_def)
  moreover have "beyond_min 2 [0, 1, 1, 0]" by (simp add: beyond_min_def) (rule exI[of _ 1], simp)
  ultimately have "\<exists>!p. p \<in> set ps \<and> map fst p = [0, 2] \<and> (\<forall>(i, q) \<in> set p. take (length q) (?d i) = q)"
    by (intro all) (auto simp: selection_def)
  with ps show ?thesis by (intro exI[of _ ps] conjI)
qed

end
