(* ===== verification/F64.thy ===== *)
theory F64
  imports DlcPrelude
begin

text \<open>
  The non-negative part of IEEE 754 double precision that the library crates use: the
  conversion \<open>x as f64\<close> of an integer, division, \<open>floor\<close>, \<open>ceil\<close> and the conversion back.
  A value is \<open>F64 m e\<close>, that is \<open>m * 2 ^ e\<close>, with rounding to 53 significant bits, ties to
  even. The exponent range is not bounded (the operands are integers below \<open>2 ^ 64\<close>).
\<close>

section \<open>Values and rounding\<close>

datatype f64 = F64 (mant: nat) (expo: int)

text \<open>The integer nearest to \<open>x / y\<close>, ties to even.\<close>

definition round_half_even :: "nat \<Rightarrow> nat \<Rightarrow> nat" where
  "round_half_even x y =
     (let q = x div y; r = x mod y
      in if 2 * r < y \<or> (2 * r = y \<and> even q) then q else Suc q)"

text \<open>How far \<open>a / b\<close> is scaled up (down) to have a 53-bit integer part.\<close>

function scale_up :: "nat \<Rightarrow> nat \<Rightarrow> nat" where
  "scale_up a b = (if 0 < a \<and> a < 2 ^ 52 * b then Suc (scale_up (2 * a) b) else 0)"
  by pat_completeness auto
termination
  by (relation "measure (\<lambda>(a, b). 2 ^ 52 * b - a)") auto

function scale_down :: "nat \<Rightarrow> nat \<Rightarrow> nat" where
  "scale_down a b = (if 0 < b \<and> 2 ^ 53 * b \<le> a then Suc (scale_down a (2 * b)) else 0)"
  by pat_completeness auto
termination
  by (relation "measure (\<lambda>(a, b). a - b)") auto

declare scale_up.simps [simp del] scale_down.simps [simp del]

definition round_quotient :: "nat \<Rightarrow> nat \<Rightarrow> f64" where
  "round_quotient a b =
     (if 2 ^ 53 * b \<le> a
      then let t = scale_down a b in F64 (round_half_even a (b * 2 ^ t)) (int t)
      else let s = scale_up a b in F64 (round_half_even (a * 2 ^ s) b) (- int s))"

text \<open>\<open>x as f64\<close>.\<close>

definition f64_of_nat :: "nat \<Rightarrow> f64" where
  "f64_of_nat x = round_quotient x 1"

text \<open>\<open>a / b\<close>, for a divisor that is not zero: the exponents are moved into the operands.\<close>

definition f64_div :: "f64 \<Rightarrow> f64 \<Rightarrow> f64" where
  "f64_div a b =
     (let d = expo a - expo b
      in if 0 \<le> d then round_quotient (mant a * 2 ^ nat d) (mant b)
         else round_quotient (mant a) (mant b * 2 ^ nat (- d)))"

definition f64_floor :: "f64 \<Rightarrow> nat" where
  "f64_floor a = (if 0 \<le> expo a then mant a * 2 ^ nat (expo a) else mant a div 2 ^ nat (- expo a))"

definition f64_ceil :: "f64 \<Rightarrow> nat" where
  "f64_ceil a = (if 0 \<le> expo a then mant a * 2 ^ nat (expo a)
     else (mant a + 2 ^ nat (- expo a) - 1) div 2 ^ nat (- expo a))"

section \<open>Exactness below \<open>2 ^ 53\<close>\<close>

lemma scale_up_bounds:
  "0 < a \<Longrightarrow> a < 2 ^ 53 * b \<Longrightarrow>
   2 ^ 52 * b \<le> a * 2 ^ scale_up a b \<and> a * 2 ^ scale_up a b < 2 ^ 53 * b"
proof (induction a b rule: scale_up.induct)
  case (1 a b)
  show ?case
  proof (cases "a < 2 ^ 52 * b")
    case True
    then have "2 ^ 52 * b \<le> (2 * a) * 2 ^ scale_up (2 * a) b \<and> (2 * a) * 2 ^ scale_up (2 * a) b < 2 ^ 53 * b"
      using 1 by auto
    moreover have "scale_up a b = Suc (scale_up (2 * a) b)" using True 1 by (subst scale_up.simps) simp
    ultimately show ?thesis by (simp add: mult.assoc mult.left_commute)
  next
    case False
    then have "scale_up a b = 0" by (subst scale_up.simps) simp
    with False 1 show ?thesis by simp
  qed
qed

lemma round_half_even_exact: "0 < y \<Longrightarrow> round_half_even (q * y) y = q"
  by (simp add: round_half_even_def)

lemma round_half_even_ge: "0 < y \<Longrightarrow> n * y \<le> x \<Longrightarrow> n \<le> round_half_even x y"
  using div_le_mono[of "n * y" x y] by (auto simp: round_half_even_def Let_def)

lemma round_half_even_less:
  assumes "0 < y" "x + d \<le> n * y" "y < 2 * d"
  shows "round_half_even x y < n"
proof -
  have "x < n * y" using assms by auto
  then have q: "x div y < n" using assms(1) by (simp add: div_less_iff_less_mult)
  show ?thesis
  proof (cases "Suc (x div y) = n")
    case True
    have "x div y * y + x mod y + d \<le> (x div y) * y + y" using assms(2) True by (metis add.commute div_mult_mod_eq mult_Suc)
    then have "2 * (x mod y) < y" using assms(3) by linarith
    with q show ?thesis by (simp add: round_half_even_def)
  next
    case False
    with q show ?thesis by (auto simp: round_half_even_def Let_def)
  qed
qed

lemma round_half_even_greater:
  assumes "n * y + d \<le> x" "0 < y" "y < 2 * d"
  shows "n < round_half_even x y"
proof -
  have "n * y \<le> x" using assms(1) by simp
  then have q: "n \<le> x div y" using assms(2) by (simp add: less_eq_div_iff_mult_less_eq)
  show ?thesis
  proof (cases "x div y = n")
    case True
    then have "d \<le> x mod y" using assms(1) by (metis add_le_cancel_left div_mult_mod_eq)
    then have "\<not> (2 * (x mod y) \<le> y)" using assms(3) by simp
    with True show ?thesis by (simp add: round_half_even_def Let_def)
  next
    case False
    with q show ?thesis by (auto simp: round_half_even_def Let_def)
  qed
qed

lemma f64_value_exact:
  assumes "a < 2 ^ 53"
  obtains s where "f64_of_nat a = F64 (a * 2 ^ s) (- int s)"
proof -
  have "f64_of_nat a = F64 (a * 2 ^ scale_up a 1) (- int (scale_up a 1))"
    using assms round_half_even_exact[of 1] by (simp add: f64_of_nat_def round_quotient_def Let_def)
  then show thesis by (rule that)
qed

lemma scale_up_scale: "0 < k \<Longrightarrow> scale_up (a * k) (b * k) = scale_up a b"
proof (induction a b rule: scale_up.induct)
  case (1 a b)
  have "2 * (a * k) = 2 * a * k" by simp
  moreover have "a * k < 2 ^ 52 * (b * k) \<longleftrightarrow> a < 2 ^ 52 * b"
    using 1(2) by (metis mult.assoc mult_less_cancel2)
  ultimately show ?case using 1 by (subst (1 2) scale_up.simps) (simp add: mult.assoc)
qed

lemma round_half_even_scale: "0 < k \<Longrightarrow> round_half_even (x * k) (y * k) = round_half_even x y"
proof -
  assume k: "0 < k"
  have "2 * (x mod y * k) < y * k \<longleftrightarrow> 2 * (x mod y) < y" "2 * (x mod y * k) = y * k \<longleftrightarrow> 2 * (x mod y) = y"
    using k by (metis mult.assoc mult_less_cancel2) (metis k mult.assoc mult_cancel2 less_numeral_extra(3))
  then show ?thesis using k by (simp add: round_half_even_def mult_mod_left[symmetric] Let_def)
qed

lemma round_quotient_scale:
  assumes "0 < k" "a < 2 ^ 53 * b"
  shows "round_quotient (a * k) (b * k) = round_quotient a b"
proof -
  have "a * k < 2 ^ 53 * (b * k)" using assms by (metis mult.assoc mult_less_cancel2)
  moreover have "round_half_even (a * k * 2 ^ s) (b * k) = round_half_even (a * 2 ^ s) b" for s
    using round_half_even_scale[of k "a * 2 ^ s" b] assms(1) by (simp add: ac_simps)
  ultimately show ?thesis using assms
    by (simp add: round_quotient_def scale_up_scale Let_def)
qed

text \<open>The quotient of two exactly represented integers is the rounded quotient.\<close>

lemma f64_div_of_nat:
  assumes "a < 2 ^ 53" "b < 2 ^ 53" "0 < b"
  shows "f64_div (f64_of_nat a) (f64_of_nat b) = round_quotient a b"
proof -
  obtain s where s: "f64_of_nat a = F64 (a * 2 ^ s) (- int s)" using f64_value_exact[OF assms(1)] .
  obtain t where t: "f64_of_nat b = F64 (b * 2 ^ t) (- int t)" using f64_value_exact[OF assms(2)] .
  have lt: "a < 2 ^ 53 * b" using assms by (metis less_le_trans mult.right_neutral mult_le_mono2 Suc_leI One_nat_def)
  show ?thesis
  proof (cases "s \<le> t")
    case True
    then have eq: "a * 2 ^ s * 2 ^ (t - s) = a * 2 ^ t" by (simp add: mult.assoc flip: power_add)
    have "f64_div (f64_of_nat a) (f64_of_nat b) = round_quotient (a * 2 ^ s * 2 ^ (t - s)) (b * 2 ^ t)"
      using True by (simp add: s t f64_div_def Let_def nat_diff_distrib)
    with round_quotient_scale[of "2 ^ t" a b] lt show ?thesis by (simp only: eq) simp
  next
    case False
    then have eq: "b * 2 ^ t * 2 ^ (s - t) = b * 2 ^ s" by (simp add: mult.assoc flip: power_add)
    have "f64_div (f64_of_nat a) (f64_of_nat b) = round_quotient (a * 2 ^ s) (b * 2 ^ t * 2 ^ (s - t))"
      using False by (simp add: s t f64_div_def Let_def nat_diff_distrib)
    with round_quotient_scale[of "2 ^ s" a b] lt show ?thesis by (simp only: eq) simp
  qed
qed

lemma scale_up_half:
  assumes "a < 2 ^ 53" "0 < a" "0 < b"
  shows "b < 2 * 2 ^ scale_up a b"
proof -
  have lt: "a < 2 ^ 53 * b" using assms by (metis less_le_trans mult.right_neutral mult_le_mono2 Suc_leI One_nat_def)
  from scale_up_bounds[OF assms(2) lt] have lo: "2 ^ 52 * b \<le> a * 2 ^ scale_up a b" by simp
  have "2 ^ 52 * b < 2 ^ 53 * 2 ^ scale_up a b"
    by (rule le_less_trans[OF lo mult_strict_right_mono[OF assms(1)]]) simp
  then show ?thesis by simp
qed

lemma round_quotient_bounds:
  assumes "a < 2 ^ 53" "0 < b"
  obtains m s where "round_quotient a b = F64 m (- int s)"
    "a div b * 2 ^ s \<le> m" "m < Suc (a div b) * 2 ^ s" "a mod b = 0 \<longleftrightarrow> m = a div b * 2 ^ s"
proof (cases "a = 0")
  case True
  then show thesis using that[of 0 0] assms
    by (simp add: round_quotient_def round_half_even_def Let_def scale_up.simps)
next
  case False
  let ?s = "scale_up a b" and ?q = "a div b"
  let ?m = "round_half_even (a * 2 ^ ?s) b"
  have lt: "a < 2 ^ 53 * b" using assms by (metis less_le_trans mult.right_neutral mult_le_mono2 Suc_leI One_nat_def)
  have half: "b < 2 * 2 ^ ?s" using scale_up_half assms False by simp
  have "?q * b \<le> a" by simp
  then have "?q * 2 ^ ?s * b \<le> a * 2 ^ ?s" by (metis mult.assoc mult.commute mult_le_mono1)
  then have ge: "?q * 2 ^ ?s \<le> ?m" using assms(2) by (intro round_half_even_ge) auto
  have "a + 1 \<le> Suc ?q * b" using assms(2) by (metis Suc_eq_plus1 Suc_leI dividend_less_div_times mult_Suc add.commute)
  then have "(a + 1) * 2 ^ ?s \<le> Suc ?q * b * 2 ^ ?s" by (rule mult_le_mono1)
  then have "a * 2 ^ ?s + 2 ^ ?s \<le> Suc ?q * 2 ^ ?s * b" by (simp add: algebra_simps)
  then have less: "?m < Suc ?q * 2 ^ ?s" using assms(2) half by (intro round_half_even_less) auto
  have exact: "a mod b = 0 \<longleftrightarrow> ?m = ?q * 2 ^ ?s"
  proof (cases "a mod b = 0")
    case True
    then have "a * 2 ^ ?s = ?q * 2 ^ ?s * b" by (metis add.right_neutral div_mult_mod_eq mult.assoc mult.commute)
    then have "?m = ?q * 2 ^ ?s" by (simp only: round_half_even_exact[OF assms(2)])
    with True show ?thesis by simp
  next
    case False
    then have "?q * b + 1 \<le> a" by (metis add_le_cancel_left div_mult_mod_eq Suc_leI One_nat_def neq0_conv)
    then have "(?q * b + 1) * 2 ^ ?s \<le> a * 2 ^ ?s" by (rule mult_le_mono1)
    then have "?q * 2 ^ ?s * b + 2 ^ ?s \<le> a * 2 ^ ?s" by (simp add: algebra_simps)
    then have "?q * 2 ^ ?s < ?m" using assms(2) half by (rule round_half_even_greater)
    with False show ?thesis by simp
  qed
  have "round_quotient a b = F64 ?m (- int ?s)" using lt by (simp add: round_quotient_def Let_def)
  from that[OF this ge less exact] show thesis .
qed

lemma round_quotient_floor:
  assumes "a < 2 ^ 53" "0 < b"
  shows "f64_floor (round_quotient a b) = a div b"
proof -
  obtain m s where m: "round_quotient a b = F64 m (- int s)" "a div b * 2 ^ s \<le> m" "m < Suc (a div b) * 2 ^ s"
    using round_quotient_bounds[OF assms] .
  then have "m div 2 ^ s = a div b" by (simp add: div_nat_eqI mult.commute)
  with m(1) show ?thesis by (cases "s = 0") (auto simp: f64_floor_def)
qed

lemma round_quotient_ceil:
  assumes "a < 2 ^ 53" "0 < b"
  shows "f64_ceil (round_quotient a b) = (a + b - 1) div b"
proof -
  obtain m s where m: "round_quotient a b = F64 m (- int s)" "a div b * 2 ^ s \<le> m" "m < Suc (a div b) * 2 ^ s"
    "a mod b = 0 \<longleftrightarrow> m = a div b * 2 ^ s"
    using round_quotient_bounds[OF assms] .
  have val: "f64_ceil (round_quotient a b) = (m + 2 ^ s - 1) div 2 ^ s"
    using m(1) by (cases "s = 0") (auto simp: f64_ceil_def)
  show ?thesis
  proof (cases "a mod b = 0")
    case True
    then have "m = 2 ^ s * (a div b)" using m(4) by simp
    moreover have "(0::nat) < 2 ^ s" by simp
    ultimately have "m + 2 ^ s - 1 = (2 ^ s - 1) + 2 ^ s * (a div b)" by linarith
    then have "(m + 2 ^ s - 1) div 2 ^ s = a div b"
      using div_mult_self2[of "2 ^ s" "2 ^ s - 1" "a div b"] by simp
    moreover have "(a + b - 1) div b = a div b"
      using True assms(2) by (intro div_nat_eqI) (auto simp: mult.commute)
    ultimately show ?thesis using val by simp
  next
    case False
    then have "(m + 2 ^ s - 1) div 2 ^ s = Suc (a div b)" using m
      by (intro div_nat_eqI) (auto simp: mult.commute[of "2 ^ s"])
    moreover have "a = b * (a div b) + a mod b" "a mod b < b" using assms(2) by auto
    then have "(a + b - 1) div b = Suc (a div b)"
      using False assms(2) by (intro div_nat_eqI) (unfold mult_Suc_right, linarith+)
    ultimately show ?thesis using val by simp
  qed
qed

lemma f64_div_floor:
  "a < 2 ^ 53 \<Longrightarrow> b < 2 ^ 53 \<Longrightarrow> 0 < b \<Longrightarrow>
   f64_floor (f64_div (f64_of_nat a) (f64_of_nat b)) = a div b"
  by (simp add: f64_div_of_nat round_quotient_floor)


lemma f64_div_ceil:
  "a < 2 ^ 53 \<Longrightarrow> b < 2 ^ 53 \<Longrightarrow> 0 < b \<Longrightarrow>
   f64_ceil (f64_div (f64_of_nat a) (f64_of_nat b)) = (a + b - 1) div b"
  by (simp add: f64_div_of_nat round_quotient_ceil)

end
