(* ===== verification/DigitDecomposition.thy ===== *)
theory DigitDecomposition
  imports F64
begin

text \<open>
  \<open>dlc-trie/src/digit_decomposition.rs\<close>: decomposition of a numeric outcome into digits, its
  inverse, the padding of payout ranges, and \<open>group_by_ignoring_digits\<close>, which covers an
  interval of outcomes by digit prefixes. Loops whose end is not structural are
  \<open>partial_function (option)\<close>; a panic is also \<open>None\<close>, and the theorems show that the functions
  return.
\<close>

section \<open>Decomposition of a value\<close>

partial_function (option) decompose_loop :: "nat \<Rightarrow> nat \<Rightarrow> nat list \<Rightarrow> nat list option" where
  "decompose_loop value base res =
     (if 0 < value
      then if base = 0 then None
      else decompose_loop (f64_floor (f64_div (f64_of_nat value) (f64_of_nat base))) base
             (res @ [value mod base])
      else Some res)"

declare decompose_loop.simps [code]

definition decompose_value :: "nat \<Rightarrow> nat \<Rightarrow> nat \<Rightarrow> nat list option" where
  "decompose_value value base nb_digits =
     do {
       res \<leftarrow> decompose_loop value base [];
       let res = res @ replicate (nb_digits - length res) 0;
       assert_that (nb_digits = length res);
       Some (rev res)
     }"

text \<open>\<open>usize::pow\<close>, panicking on overflow.\<close>

definition usize_pow :: "nat \<Rightarrow> nat \<Rightarrow> nat option" where
  "usize_pow base e = (if base ^ e < u64_bound then Some (base ^ e) else None)"

fun compose_loop :: "nat list \<Rightarrow> nat \<Rightarrow> nat \<Rightarrow> nat option" where
  "compose_loop [] base composed = Some composed"
| "compose_loop (v # vs) base composed =
     do {
       p \<leftarrow> usize_pow base (length vs);
       x \<leftarrow> u64_mul v p;
       composed' \<leftarrow> u64_add composed x;
       compose_loop vs base composed'
     }"

definition compose_value :: "nat list \<Rightarrow> nat \<Rightarrow> nat option" where
  "compose_value values base = compose_loop values base 0"

section \<open>Covering an interval by prefixes\<close>

text \<open>
  \<open>take_prefix\<close> empties both vectors when they are equal, and otherwise moves the common prefix
  out; the result is the prefix with what is left of the two vectors. The loop
  \<open>while start[i] == end[i]\<close> panics where an index is out of range.
\<close>

fun common_length :: "nat list \<Rightarrow> nat list \<Rightarrow> nat option" where
  "common_length (x # xs) (y # ys) =
     (if x = y then map_option Suc (common_length xs ys) else Some 0)"
| "common_length _ _ = None"

definition take_prefix :: "nat list \<Rightarrow> nat list \<Rightarrow> (nat list \<times> nat list \<times> nat list) option" where
  "take_prefix s e =
     (if s = e then Some (s, [], [])
      else do { i \<leftarrow> common_length s e; Some (take i e, drop i s, drop i e) })"

function remove_tail :: "nat list \<Rightarrow> nat \<Rightarrow> nat list" where
  "remove_tail v to_remove =
     (if 1 < length v \<and> last v = to_remove then remove_tail (butlast v) to_remove else v)"
  by pat_completeness auto
termination
  by (relation "measure (\<lambda>(v, r). length v)") auto

declare remove_tail.simps [simp del]

text \<open>The loop that covers \<open>[start, start[0]..base - 1]\<close>.\<close>

partial_function (option) start_loop ::
  "nat \<Rightarrow> nat list \<Rightarrow> nat list list \<Rightarrow> (nat list \<times> nat list list) option" where
  "start_loop base stack list =
     (if length stack = 1 then Some (stack, list)
      else Option.bind (u64_sub (length stack) 1) (\<lambda>i.
        Option.bind (vget stack i) (\<lambda>x.
        Option.bind
          (if x = base - 1
           then let st = remove_tail (butlast stack) (base - 1) in
             Option.bind (u64_sub (length st) 1) (\<lambda>j.
             Option.bind (vget st j) (\<lambda>y. Some (st[j := y + 1], list @ [stack])))
           else if x = 0 then Some (remove_tail stack 0, list)
           else Some (stack[i := x + 1], list @ [stack]))
          (\<lambda>(stack', list').
             if \<forall>x \<in> set stack'. x < base then start_loop base stack' list' else None))))"

declare start_loop.simps [code]

text \<open>The single digits strictly between the first digits.\<close>

partial_function (option) middle_loop ::
  "nat list \<Rightarrow> nat list \<Rightarrow> nat list list \<Rightarrow> (nat list \<times> nat list list) option" where
  "middle_loop de stack list =
     Option.bind (vget stack 0) (\<lambda>s0. Option.bind (vget de 0) (\<lambda>e0.
       if s0 \<noteq> e0 then middle_loop de (stack[0 := s0 + 1]) (list @ [stack])
       else Some (stack, list)))"

declare middle_loop.simps [code]

text \<open>The loop that covers \<open>[end[0]..0; end]\<close>.\<close>

partial_function (option) end_loop ::
  "nat list \<Rightarrow> nat list \<Rightarrow> nat list list \<Rightarrow> nat list list option" where
  "end_loop de stack list =
     (if stack \<noteq> de
      then Option.bind (u64_sub (length stack) 1) (\<lambda>i.
        Option.bind (vget stack i) (\<lambda>x. Option.bind (vget de i) (\<lambda>y.
          if x = y then end_loop de (stack @ [0]) list
          else end_loop de (stack[i := x + 1]) (list @ [stack]))))
      else Some list)"

declare end_loop.simps [code]

definition group_by_ignoring_digits ::
  "nat \<Rightarrow> nat \<Rightarrow> nat \<Rightarrow> nat \<Rightarrow> nat list list option" where
  "group_by_ignoring_digits s e base nb_digits =
     do {
       assert_that (s \<le> e);
       ds \<leftarrow> decompose_value s base nb_digits;
       de \<leftarrow> decompose_value e base nb_digits;
       (prefix, ds, de) \<leftarrow> take_prefix ds de;
       if (ds = [] \<and> de = []) \<or> ((\<forall>x \<in> set ds. x = 0) \<and> (\<forall>x \<in> set de. x = base - 1))
       then Some [prefix]
       else do {
         let ds = remove_tail ds 0;
         let de = remove_tail de (base - 1);
         (stack, list) \<leftarrow> start_loop base ds [];
         (stack, list) \<leftarrow> middle_loop de stack list;
         list \<leftarrow> end_loop de stack list;
         let list = list @ [de];
         Some (if prefix \<noteq> [] then map (\<lambda>x. prefix @ x) list else list)
       }
     }"


section \<open>Digits and values\<close>

fun digits :: "nat \<Rightarrow> nat \<Rightarrow> nat \<Rightarrow> nat list" where
  "digits b 0 v = []"
| "digits b (Suc n) v = digits b n (v div b) @ [v mod b]"

definition digit_val :: "nat \<Rightarrow> nat list \<Rightarrow> nat" where
  "digit_val b ds = foldl (\<lambda>a d. a * b + d) 0 ds"

abbreviation all_digits :: "nat \<Rightarrow> nat list \<Rightarrow> bool" where
  "all_digits b ds \<equiv> \<forall>d \<in> set ds. d < b"

lemma length_digits [simp]: "length (digits b n v) = n"
  by (induction n arbitrary: v) auto

lemma digit_val_simps [simp]:
  "digit_val b [] = 0" "digit_val b (xs @ [x]) = digit_val b xs * b + x" "digit_val b [x] = x"
  by (simp_all add: digit_val_def)

lemma digit_val_append: "digit_val b (xs @ ys) = digit_val b xs * b ^ length ys + digit_val b ys"
  by (induction ys rule: rev_induct)
     (simp_all add: algebra_simps flip: append_assoc)

lemma digit_val_Cons: "digit_val b (x # xs) = x * b ^ length xs + digit_val b xs"
  using digit_val_append[of b "[x]" xs] by simp

lemma digit_val_less: "all_digits b ds \<Longrightarrow> digit_val b ds < b ^ length ds"
proof (induction ds)
  case (Cons d ds)
  then have "digit_val b ds < b ^ length ds" "Suc d \<le> b" by auto
  then have "d * b ^ length ds + digit_val b ds < Suc d * b ^ length ds" by simp
  moreover have "Suc d * b ^ length ds \<le> b * b ^ length ds" using \<open>Suc d \<le> b\<close> by (rule mult_le_mono1)
  ultimately show ?case by (simp add: digit_val_Cons)
qed simp

lemma all_digits_digits: "0 < b \<Longrightarrow> all_digits b (digits b n v)"
  by (induction n arbitrary: v) auto

lemma digit_val_digits: "digit_val b (digits b n v) = v mod b ^ n"
proof (induction n arbitrary: v)
  case (Suc n)
  have "v div b mod b ^ n * b + v mod b = v mod (b * b ^ n)"
    by (simp add: mod_mult2_eq mult.commute)
  then show ?case by (simp add: Suc)
qed simp

lemma digits_digit_val: "all_digits b ds \<Longrightarrow> digits b (length ds) (digit_val b ds) = ds"
  by (induction ds rule: rev_induct) auto

lemma take_digits: "k \<le> n \<Longrightarrow> take k (digits b n v) = digits b k (v div b ^ (n - k))"
proof (induction n arbitrary: v)
  case (Suc n)
  show ?case
  proof (cases "k = Suc n")
    case False
    with Suc have "take k (digits b (Suc n) v) = digits b k (v div b div b ^ (n - k))" by simp
    with False Suc.prems show ?thesis by (simp add: Suc_diff_le div_mult2_eq)
  qed simp
qed simp

lemma digit_val_inj:
  "all_digits b xs \<Longrightarrow> all_digits b ys \<Longrightarrow> length xs = length ys \<Longrightarrow> digit_val b xs = digit_val b ys \<Longrightarrow> xs = ys"
  by (metis digits_digit_val)

lemma digits_zero [simp]: "digits b n 0 = replicate n 0"
  by (induction n) (simp_all add: replicate_append_same)

text \<open>\<open>decompose_value\<close> computes the digits, below \<open>2 ^ 53\<close>.\<close>

function lsd_digits :: "nat \<Rightarrow> nat \<Rightarrow> nat list" where
  "lsd_digits b v = (if 0 < v \<and> 2 \<le> b then v mod b # lsd_digits b (v div b) else [])"
  by pat_completeness auto
termination
  by (relation "measure snd") auto

declare lsd_digits.simps [simp del]

lemma decompose_loop_lsd:
  "v < 2 ^ 53 \<Longrightarrow> b < 2 ^ 53 \<Longrightarrow> 2 \<le> b \<Longrightarrow> decompose_loop v b res = Some (res @ lsd_digits b v)"
proof (induction b v arbitrary: res rule: lsd_digits.induct)
  case (1 b v)
  show ?case
  proof (cases "0 < v")
    case True
    have "v div b < 2 ^ 53" using "1.prems" by (meson div_le_dividend le_less_trans)
    then have "decompose_loop (v div b) b (res @ [v mod b]) = Some ((res @ [v mod b]) @ lsd_digits b (v div b))"
      using 1 True by blast
    moreover have "decompose_loop v b res = decompose_loop (v div b) b (res @ [v mod b])"
      using True 1 f64_div_floor[of v b] by (subst decompose_loop.simps) simp
    ultimately show ?thesis using True 1 by (subst lsd_digits.simps) simp
  qed (subst decompose_loop.simps, subst lsd_digits.simps, simp)
qed

lemma lsd_digits_pad:
  "v < b ^ n \<Longrightarrow> 2 \<le> b \<Longrightarrow>
   length (lsd_digits b v) \<le> n \<and> rev (lsd_digits b v @ replicate (n - length (lsd_digits b v)) 0) = digits b n v"
proof (induction n arbitrary: v)
  case 0
  then show ?case by (simp add: lsd_digits.simps)
next
  case (Suc n)
  show ?case
  proof (cases "0 < v")
    case True
    then have eq: "lsd_digits b v = v mod b # lsd_digits b (v div b)"
      using Suc.prems by (subst lsd_digits.simps) simp
    have "v div b < b ^ n" using Suc.prems by (simp add: div_less_iff_less_mult mult.commute)
    from Suc.IH[OF this Suc.prems(2)] show ?thesis by (simp add: eq)
  next
    case False
    then have "lsd_digits b v = []" by (subst lsd_digits.simps) simp
    with False show ?thesis by (simp add: replicate_append_same)
  qed
qed

lemma decompose_value_digits:
  "v < 2 ^ 53 \<Longrightarrow> b < 2 ^ 53 \<Longrightarrow> 2 \<le> b \<Longrightarrow> v < b ^ n \<Longrightarrow> decompose_value v b n = Some (digits b n v)"
  using lsd_digits_pad[of v b n] by (simp add: decompose_value_def decompose_loop_lsd)

text \<open>\<open>compose_value\<close> is the value, when no power or sum overflows.\<close>

lemma compose_loop_val:
  "0 < b \<Longrightarrow> all_digits b ds \<Longrightarrow> c + digit_val b ds < u64_bound \<Longrightarrow> (\<forall>k < length ds. b ^ k < u64_bound) \<Longrightarrow>
   compose_loop ds b c = Some (c + digit_val b ds)"
proof (induction ds arbitrary: c)
  case (Cons d ds)
  have "c + d * b ^ length ds + digit_val b ds < u64_bound" using Cons.prems by (simp add: digit_val_Cons)
  moreover have "usize_pow b (length ds) = Some (b ^ length ds)" using Cons.prems by (simp add: usize_pow_def)
  ultimately show ?case using Cons by (simp add: digit_val_Cons u64_mul_def u64_add_def)
qed simp

lemma compose_value_val:
  assumes "2 \<le> b" "all_digits b ds" "b ^ (length ds - 1) < u64_bound" "digit_val b ds < u64_bound"
  shows "compose_value ds b = Some (digit_val b ds)"
proof -
  have "b ^ k < u64_bound" if "k < length ds" for k
  proof -
    have "b ^ k \<le> b ^ (length ds - 1)" using that assms(1) by (intro power_increasing) auto
    from this assms(3) show ?thesis by (rule le_less_trans)
  qed
  then show ?thesis using assms by (simp add: compose_value_def compose_loop_val)
qed


section \<open>Prefixes as intervals\<close>

text \<open>
  A prefix \<open>p\<close> of \<open>m\<close>-digit numbers stands for the interval \<open>lo..<hi\<close>; \<open>tiles b m a ps e\<close> says
  that the intervals of \<open>ps\<close> follow each other without gap or overlap from \<open>a\<close> to \<open>e\<close>.
\<close>

definition lo :: "nat \<Rightarrow> nat \<Rightarrow> nat list \<Rightarrow> nat" where
  "lo b m p = digit_val b p * b ^ (m - length p)"

definition hi :: "nat \<Rightarrow> nat \<Rightarrow> nat list \<Rightarrow> nat" where
  "hi b m p = Suc (digit_val b p) * b ^ (m - length p)"

definition prefix_ok :: "nat \<Rightarrow> nat \<Rightarrow> nat list \<Rightarrow> bool" where
  "prefix_ok b m p \<longleftrightarrow> length p \<le> m \<and> all_digits b p"

fun tiles :: "nat \<Rightarrow> nat \<Rightarrow> nat \<Rightarrow> nat list list \<Rightarrow> nat \<Rightarrow> bool" where
  "tiles b m a [] e \<longleftrightarrow> a = e"
| "tiles b m a (p # ps) e \<longleftrightarrow> prefix_ok b m p \<and> lo b m p = a \<and> tiles b m (hi b m p) ps e"

lemma tiles_append: "tiles b m a (xs @ ys) e \<longleftrightarrow> (\<exists>c. tiles b m a xs c \<and> tiles b m c ys e)"
  by (induction xs arbitrary: a) auto

lemma tiles_snoc: "tiles b m a xs (lo b m p) \<Longrightarrow> prefix_ok b m p \<Longrightarrow> tiles b m a (xs @ [p]) (hi b m p)"
  by (auto simp: tiles_append)

lemma hi_le: "prefix_ok b m p \<Longrightarrow> hi b m p \<le> b ^ m"
proof -
  assume ok: "prefix_ok b m p"
  then have "Suc (digit_val b p) \<le> b ^ length p" by (simp add: prefix_ok_def digit_val_less Suc_leI)
  then have "hi b m p \<le> b ^ length p * b ^ (m - length p)" unfolding hi_def by (rule mult_le_mono1)
  with ok show ?thesis by (simp add: prefix_ok_def flip: power_add)
qed

lemma lo_less_hi: "0 < b \<Longrightarrow> lo b m p < hi b m p"
  by (simp add: lo_def hi_def)

lemma prefix_interval:
  assumes "2 \<le> b" "prefix_ok b m p" "v < b ^ m"
  shows "take (length p) (digits b m v) = p \<longleftrightarrow> lo b m p \<le> v \<and> v < hi b m p"
proof -
  let ?k = "length p"
  have k: "?k \<le> m" and dig: "all_digits b p" using assms(2) by (simp_all add: prefix_ok_def)
  have lt: "v div b ^ (m - ?k) < b ^ ?k"
    using assms(1,3) k by (simp add: div_less_iff_less_mult flip: power_add)
  have "take ?k (digits b m v) = p \<longleftrightarrow> v div b ^ (m - ?k) = digit_val b p"
    using take_digits[OF k, of b v] digits_digit_val[OF dig] digit_val_digits[of b ?k "v div b ^ (m - ?k)"] lt
    by (metis mod_less)
  also have "\<dots> \<longleftrightarrow> lo b m p \<le> v \<and> v < hi b m p"
    using assms(1) by (auto simp: lo_def hi_def div_nat_eqI mult.commute)
      (metis mult.commute times_div_less_eq_dividend, metis dividend_less_times_div add.commute mult.commute mult_Suc power_not_zero zero_less_iff_neq_zero not_numeral_le_zero)
  finally show ?thesis .
qed

lemma tiles_le: "tiles b m a ps e \<Longrightarrow> 0 < b \<Longrightarrow> a \<le> e"
proof (induction ps arbitrary: a)
  case (Cons p ps)
  then have "hi b m p \<le> e" by simp
  with Cons.prems lo_less_hi[of b m p] show ?case by simp
qed simp

lemma tiles_unique:
  assumes "2 \<le> b" "v < b ^ m"
  shows "tiles b m a ps e \<Longrightarrow>
    length (filter (\<lambda>p. take (length p) (digits b m v) = p) ps) = (if a \<le> v \<and> v < e then 1 else 0)"
proof (induction ps arbitrary: a)
  case (Cons p ps)
  have p: "take (length p) (digits b m v) = p \<longleftrightarrow> a \<le> v \<and> v < hi b m p"
    using prefix_interval[OF assms(1) _ assms(2)] Cons.prems by simp
  have "hi b m p \<le> e" "a < hi b m p"
    using tiles_le[of b m "hi b m p" ps e] lo_less_hi[of b m p] Cons.prems assms(1) by auto
  moreover have "length (filter (\<lambda>p. take (length p) (digits b m v) = p) ps) = (if hi b m p \<le> v \<and> v < e then 1 else 0)"
    using Cons by simp
  ultimately show ?case using p by (auto split: if_splits)
qed simp

section \<open>The three loops\<close>

lemma remove_tail_decomp:
  "v \<noteq> [] \<Longrightarrow> \<exists>k. v = remove_tail v t @ replicate k t \<and> remove_tail v t \<noteq> [] \<and>
     (length (remove_tail v t) = 1 \<or> last (remove_tail v t) \<noteq> t)"
proof (induction v t rule: remove_tail.induct)
  case (1 v t)
  show ?case
  proof (cases "1 < length v \<and> last v = t")
    case True
    then have "butlast v \<noteq> []" by (cases v) auto
    with 1 True obtain k where k: "butlast v = remove_tail (butlast v) t @ replicate k t"
      "remove_tail (butlast v) t \<noteq> []" "length (remove_tail (butlast v) t) = 1 \<or> last (remove_tail (butlast v) t) \<noteq> t"
      by auto
    have "v = remove_tail (butlast v) t @ replicate (Suc k) t"
      using k(1) True 1 by (metis append_assoc append_butlast_last_id replicate_Suc replicate_append_same)
    moreover have "remove_tail v t = remove_tail (butlast v) t" using True by (subst remove_tail.simps) simp
    ultimately show ?thesis using k by metis
  next
    case False
    then have "remove_tail v t = v" by (subst remove_tail.simps) auto
    moreover have "length v = 1 \<or> last v \<noteq> t" using False 1 by (cases v) auto
    ultimately show ?thesis using 1 by (intro exI[of _ 0]) auto
  qed
qed

lemma digit_val_replicate_max: "Suc (digit_val b (xs @ replicate k (b - 1))) = Suc (digit_val b xs) * b ^ k" if "0 < b"
proof (induction k)
  case (Suc k)
  have "digit_val b (xs @ replicate (Suc k) (b - 1)) = digit_val b (xs @ replicate k (b - 1)) * b + (b - 1)"
    by (metis append_assoc digit_val_simps(2) replicate_Suc replicate_append_same)
  then have "Suc (digit_val b (xs @ replicate (Suc k) (b - 1))) = Suc (digit_val b (xs @ replicate k (b - 1))) * b"
    using that by simp
  with Suc show ?case by (simp add: algebra_simps)
qed simp

lemma digit_val_replicate_zero: "digit_val b (xs @ replicate k 0) = digit_val b xs * b ^ k"
  by (induction k) (simp_all add: digit_val_append digit_val_Cons)

lemma hi_strip_max:
  "0 < b \<Longrightarrow> length (xs @ replicate k (b - 1)) \<le> m \<Longrightarrow> hi b m (xs @ replicate k (b - 1)) = hi b m xs"
  unfolding hi_def digit_val_replicate_max by (simp add: mult.assoc del: mult_Suc flip: power_add)

lemma lo_strip_zero:
  "length (xs @ replicate k 0) \<le> m \<Longrightarrow> lo b m (xs @ replicate k 0) = lo b m xs"
  unfolding lo_def digit_val_replicate_zero by (simp add: mult.assoc flip: power_add)

lemma lo_Suc_last: "lo b m (xs @ [Suc x]) = hi b m (xs @ [x])"
  by (simp add: lo_def hi_def)

lemma list_update_last: "xs \<noteq> [] \<Longrightarrow> xs[length xs - 1 := y] = butlast xs @ [y]"
  by (metis append_butlast_last_id length_butlast list_update_length)


text \<open>What the first loop keeps: a non-empty stack of digits that stays below the first digit of the end.\<close>

definition start_inv :: "nat \<Rightarrow> nat \<Rightarrow> nat \<Rightarrow> nat list \<Rightarrow> bool" where
  "start_inv b m e0 st \<longleftrightarrow> st \<noteq> [] \<and> prefix_ok b m st \<and>
     (hd st < e0 \<or> (length st = 1 \<and> hd st \<le> e0))"

lemma prefix_ok_append:
  "prefix_ok b m (xs @ ys) \<Longrightarrow> prefix_ok b m xs"
  by (simp add: prefix_ok_def)

lemma start_carry:
  assumes inv: "start_inv b m e0 (st @ replicate (Suc k) (b - 1))" and st: "st \<noteq> []"
    and last: "length st = 1 \<or> last st \<noteq> b - 1" and e0: "e0 < b"
  shows "start_inv b m e0 (butlast st @ [Suc (last st)])"
    "lo b m (butlast st @ [Suc (last st)]) = hi b m (st @ replicate (Suc k) (b - 1))"
proof -
  have ok: "prefix_ok b m (st @ replicate (Suc k) (b - 1))" and h: "hd st < e0"
    using inv st by (auto simp: start_inv_def)
  obtain xs x where xs: "st = xs @ [x]" using st by (metis append_butlast_last_id)
  have "x < b" using ok xs by (auto simp: prefix_ok_def)
  moreover have "x \<noteq> b - 1" using last h e0 xs by (cases xs) auto
  ultimately have "Suc x < b" by simp
  then have "prefix_ok b m (xs @ [Suc x])" using ok xs by (auto simp: prefix_ok_def)
  moreover have "hd (xs @ [Suc x]) < e0 \<or> (length (xs @ [Suc x]) = 1 \<and> hd (xs @ [Suc x]) \<le> e0)"
    using h xs by (cases xs) auto
  ultimately show "start_inv b m e0 (butlast st @ [Suc (last st)])" by (simp add: start_inv_def xs)
  have "hi b m (st @ replicate (Suc k) (b - 1)) = hi b m st"
    using ok e0 by (intro hi_strip_max) (auto simp: prefix_ok_def)
  then show "lo b m (butlast st @ [Suc (last st)]) = hi b m (st @ replicate (Suc k) (b - 1))"
    by (simp add: xs lo_Suc_last)
qed

text \<open>One iteration of the first loop: the same call on a stack and a list that made progress.\<close>

definition start_progress ::
  "nat \<Rightarrow> nat \<Rightarrow> nat \<Rightarrow> nat \<Rightarrow> nat list \<Rightarrow> nat list list \<Rightarrow> nat list \<Rightarrow> nat list list \<Rightarrow> bool" where
  "start_progress b m e0 a st ls st' ls' \<longleftrightarrow>
     start_loop b st ls = start_loop b st' ls' \<and> start_inv b m e0 st' \<and> tiles b m a ls' (lo b m st') \<and>
     (lo b m st < lo b m st' \<or> (lo b m st' = lo b m st \<and> length st' < length st))"

lemma start_step_carry:
  assumes "e0 < b" and inv: "start_inv b m e0 st" and tl: "tiles b m a ls (lo b m st)"
    and len2: "2 \<le> length st" and lst: "last st = b - 1"
  shows "\<exists>st' ls'. start_progress b m e0 a st ls st' ls'"
proof -
  have ok: "prefix_ok b m st" and ne: "st \<noteq> []" using inv by (auto simp: start_inv_def)
  have "butlast st \<noteq> []" using len2 by (cases st rule: rev_cases) auto
  then obtain u k where u: "remove_tail (butlast st) (b - 1) = u" "butlast st = u @ replicate k (b - 1)"
    "u \<noteq> []" "length u = 1 \<or> last u \<noteq> b - 1"
    using remove_tail_decomp by blast
  have st: "st = u @ replicate (Suc k) (b - 1)"
    using u(2) lst ne by (metis append_assoc append_butlast_last_id replicate_Suc replicate_append_same)
  let ?st' = "butlast u @ [Suc (last u)]"
  have inv': "start_inv b m e0 ?st'" and lo: "lo b m ?st' = hi b m st"
    using start_carry[OF inv[unfolded st] u(3,4) assms(1)] unfolding st by auto
  have "all_digits b ?st'" using inv' by (simp add: start_inv_def prefix_ok_def)
  then have "start_loop b st ls = start_loop b ?st' (ls @ [st])"
    using len2 lst ne u(1,3)
    by (simp add: start_loop.simps[of b st] Let_def vget_last list_update_last[unfolded One_nat_def]
        del: vget_in)
  then show ?thesis using inv' lo lo_less_hi[of b m st] tiles_snoc[OF tl ok] assms(1)
    by (intro exI[of _ ?st'] exI[of _ "ls @ [st]"]) (simp add: start_progress_def)
qed

lemma start_step_zero:
  assumes "e0 < b" and inv: "start_inv b m e0 st" and tl: "tiles b m a ls (lo b m st)"
    and len2: "2 \<le> length st" and lst: "last st \<noteq> b - 1" "last st = 0"
  shows "\<exists>st' ls'. start_progress b m e0 a st ls st' ls'"
proof -
  have ok: "prefix_ok b m st" and ne: "st \<noteq> []" and hd: "hd st < e0" using inv len2 by (auto simp: start_inv_def)
  let ?st' = "remove_tail st 0"
  obtain k where k: "st = ?st' @ replicate k 0" "?st' \<noteq> []" "length ?st' = 1 \<or> last ?st' \<noteq> 0"
    using remove_tail_decomp[OF ne] by blast
  have "k \<noteq> 0" using k lst(2) len2 by (cases k) auto
  then have shorter: "length ?st' < length st" using k(1) by (metis length_append length_replicate less_add_same_cancel1 neq0_conv)
  have lo: "lo b m ?st' = lo b m st" using lo_strip_zero[of ?st' k m b] k(1) ok by (simp add: prefix_ok_def)
  have ok': "prefix_ok b m ?st'" using ok k(1) prefix_ok_append by metis
  have "hd ?st' = hd st" using k by (metis hd_append2)
  then have inv': "start_inv b m e0 ?st'" using ok' hd k(2) by (simp add: start_inv_def)
  have "all_digits b ?st'" using ok' by (simp add: prefix_ok_def)
  then have "start_loop b st ls = start_loop b ?st' ls"
    using len2 lst ne by (simp add: start_loop.simps[of b st] vget_last del: vget_in)
  then show ?thesis using inv' lo tl shorter
    by (intro exI[of _ ?st'] exI[of _ ls]) (simp add: start_progress_def)
qed

lemma start_step_inc:
  assumes "e0 < b" and inv: "start_inv b m e0 st" and tl: "tiles b m a ls (lo b m st)"
    and len2: "2 \<le> length st" and lst: "last st \<noteq> b - 1" "last st \<noteq> 0"
  shows "\<exists>st' ls'. start_progress b m e0 a st ls st' ls'"
proof -
  have ok: "prefix_ok b m st" and ne: "st \<noteq> []" and hd: "hd st < e0" using inv len2 by (auto simp: start_inv_def)
  let ?st' = "butlast st @ [Suc (last st)]"
  have "last st < b" using ok ne by (simp add: prefix_ok_def)
  then have "Suc (last st) < b" using lst by simp
  then have ok': "prefix_ok b m ?st'" using ok ne len2 by (auto simp: prefix_ok_def dest: in_set_butlastD)
  have lo: "lo b m ?st' = hi b m st" using ne by (metis append_butlast_last_id lo_Suc_last)
  have "hd ?st' = hd st" using len2 by (cases st rule: rev_cases) (auto simp: hd_append)
  then have inv': "start_inv b m e0 ?st'" using ok' hd by (simp add: start_inv_def)
  have "all_digits b ?st'" using ok' by (simp add: prefix_ok_def)
  then have "start_loop b st ls = start_loop b ?st' (ls @ [st])"
    using len2 lst ne
    by (simp add: start_loop.simps[of b st] vget_last list_update_last[unfolded One_nat_def] del: vget_in)
  then show ?thesis using inv' lo lo_less_hi[of b m st] tiles_snoc[OF tl ok] assms(1)
    by (intro exI[of _ ?st'] exI[of _ "ls @ [st]"]) (simp add: start_progress_def)
qed

lemma start_loop_tiles:
  assumes "e0 < b" "start_inv b m e0 st" "tiles b m a ls (lo b m st)"
  shows "\<exists>x ls'. start_loop b st ls = Some ([x], ls') \<and> x \<le> e0 \<and> start_inv b m e0 [x] \<and>
    tiles b m a ls' (lo b m [x])"
  using assms(2,3)
proof (induction "(b ^ m - lo b m st) * Suc m + length st" arbitrary: st ls rule: less_induct)
  case less
  show ?case
  proof (cases "length st = 1")
    case True
    then obtain x where "st = [x]" by (cases st) auto
    with less.prems show ?thesis by (subst start_loop.simps) (auto simp: start_inv_def)
  next
    case False
    then have "2 \<le> length st" using less.prems(1) by (cases st) (auto simp: start_inv_def Suc_le_eq)
    then obtain st' ls' where pr: "start_progress b m e0 a st ls st' ls'"
      using start_step_carry[OF assms(1) less.prems] start_step_zero[OF assms(1) less.prems]
        start_step_inc[OF assms(1) less.prems] by blast
    have ok': "prefix_ok b m st'" using pr by (simp add: start_progress_def start_inv_def)
    have "0 < b" using assms(1) by simp
    then have up: "lo b m st' < b ^ m" "length st' \<le> m"
      using lo_less_hi[of b m st'] hi_le[OF ok'] ok' by (auto simp: prefix_ok_def)
    have "(b ^ m - lo b m st') * Suc m + length st' < (b ^ m - lo b m st) * Suc m + length st"
    proof (cases "lo b m st < lo b m st'")
      case True
      then have "Suc (b ^ m - lo b m st') \<le> b ^ m - lo b m st" using up by simp
      then have "Suc (b ^ m - lo b m st') * Suc m \<le> (b ^ m - lo b m st) * Suc m" by (rule mult_le_mono1)
      with up show ?thesis by simp
    qed (use pr in \<open>simp add: start_progress_def\<close>)
    from less.hyps[OF this] pr show ?thesis by (simp add: start_progress_def)
  qed
qed

lemma middle_loop_tiles:
  assumes "x \<le> e0" "e0 < b" "0 < m" "tiles b m a ls (lo b m [x])"
  shows "\<exists>ls'. middle_loop (e0 # es) [x] ls = Some ([e0], ls') \<and> tiles b m a ls' (lo b m [e0])"
  using assms(1,4)
proof (induction "e0 - x" arbitrary: x ls)
  case 0
  then show ?case by (subst middle_loop.simps) simp
next
  case (Suc d)
  then have x: "x < e0" by simp
  have "tiles b m a (ls @ [[x]]) (lo b m [Suc x])"
    using tiles_snoc[OF Suc.prems(2)] lo_Suc_last[of b m "[]" x] x assms(2,3) by (simp add: prefix_ok_def)
  with Suc.hyps(1)[of "Suc x" "ls @ [[x]]"] Suc.hyps(2) x show ?case by (subst middle_loop.simps) simp
qed

text \<open>What the last loop keeps: the stack agrees with the end up to its last digit, which is not larger.\<close>

definition end_inv :: "nat list \<Rightarrow> nat list \<Rightarrow> bool" where
  "end_inv de st \<longleftrightarrow> (\<exists>i x. i < length de \<and> st = take i de @ [x] \<and> x \<le> de ! i)"

lemma end_loop_tiles:
  assumes de: "prefix_ok b m de" and b: "0 < b" and "end_inv de st" "tiles b m a ls (lo b m st)"
  shows "\<exists>ls'. end_loop de st ls = Some ls' \<and> tiles b m a ls' (lo b m de)"
  using assms(3,4)
proof (induction "(length de - length st) * b + (de ! (length st - 1) - last st)" arbitrary: st ls rule: less_induct)
  case less
  from less.prems(1) obtain i x where i: "i < length de" and st: "st = take i de @ [x]" and x: "x \<le> de ! i"
    by (auto simp: end_inv_def)
  have lt: "de ! j < b" if "j < length de" for j using de that by (simp add: prefix_ok_def)
  have unfold: "end_loop de st ls = (if st \<noteq> de then if x = de ! i then end_loop de (st @ [0]) ls
      else end_loop de (take i de @ [Suc x]) (ls @ [st]) else Some ls)"
    using i by (subst end_loop.simps) (simp add: st u64_sub_def vget_def nth_append list_update_append)
  consider "st = de" | "st \<noteq> de" "x = de ! i" | "st \<noteq> de" "x < de ! i" using x by linarith
  then show ?case
  proof cases
    case 1
    then show ?thesis using less.prems(2) unfold by simp
  next
    case 2
    then have st': "st = take (Suc i) de" using i st by (simp add: take_Suc_conv_app_nth)
    then have i': "Suc i < length de" using i 2(1) by (cases "Suc i = length de") auto
    have "end_inv de (st @ [0])" using i' st' by (auto simp: end_inv_def)
    moreover have "tiles b m a ls (lo b m (st @ [0]))"
      using less.prems(2) lo_strip_zero[of st 1 m b] i' st' de by (simp add: prefix_ok_def)
    moreover have "(length de - length (st @ [0])) * b + (de ! (length (st @ [0]) - 1) - last (st @ [0]))
        < (length de - length st) * b + (de ! (length st - 1) - last st)"
    proof -
      have "length de - Suc i = Suc (length de - Suc (Suc i))" using i' by simp
      then show ?thesis using st i i' lt[OF i'] by simp
    qed
    ultimately show ?thesis using less.hyps unfold 2 by simp
  next
    case 3
    let ?st' = "take i de @ [Suc x]"
    have "end_inv de ?st'" using 3 i by (auto simp: end_inv_def)
    moreover have "prefix_ok b m st"
      using de i st less_trans[OF 3(2) lt[OF i]] by (auto simp: prefix_ok_def dest: in_set_takeD)
    then have "tiles b m a (ls @ [st]) (lo b m ?st')"
      using tiles_snoc[OF less.prems(2)] by (simp add: st lo_Suc_last)
    moreover have "(length de - length ?st') * b + (de ! (length ?st' - 1) - last ?st')
        < (length de - length st) * b + (de ! (length st - 1) - last st)"
      using st i 3 by simp
    ultimately show ?thesis using less.hyps unfold 3 by simp
  qed
qed


section \<open>The whole function\<close>

lemma common_length_spec:
  "length xs = length ys \<Longrightarrow> xs \<noteq> ys \<Longrightarrow>
   \<exists>i < length xs. common_length xs ys = Some i \<and> take i xs = take i ys \<and> xs ! i \<noteq> ys ! i"
proof (induction xs ys rule: list_induct2')
  case (4 x xs y ys)
  show ?case
  proof (cases "x = y")
    case True
    with 4 obtain i where "i < length xs" "common_length xs ys = Some i" "take i xs = take i ys" "xs ! i \<noteq> ys ! i" by auto
    with True show ?thesis by (intro exI[of _ "Suc i"]) simp
  qed auto
qed auto

lemma take_prefix_eq [simp]: "take_prefix s s = Some (s, [], [])"
  by (simp add: take_prefix_def)

lemma take_prefix_neq:
  assumes "length s = length e" "s \<noteq> e"
  obtains p d ds c cs where "take_prefix s e = Some (p, d # ds, c # cs)" "s = p @ d # ds" "e = p @ c # cs"
    "d \<noteq> c" "length ds = length cs"
proof -
  obtain i where i: "i < length s" "common_length s e = Some i" "take i s = take i e" "s ! i \<noteq> e ! i"
    using common_length_spec[OF assms] by auto
  have "drop i s = s ! i # drop (Suc i) s" "drop i e = e ! i # drop (Suc i) e"
    using i assms(1) by (simp_all add: Cons_nth_drop_Suc)
  then show thesis
    using i assms that[of "take i e" "s ! i" "drop (Suc i) s" "e ! i" "drop (Suc i) e"]
    by (simp add: take_prefix_def) (metis append_take_drop_id)
qed

lemma tiles_prefix:
  assumes "prefix_ok b k p"
  shows "tiles b m a ls e \<Longrightarrow> k = length p \<Longrightarrow>
    tiles b (k + m) (digit_val b p * b ^ m + a) (map (\<lambda>x. p @ x) ls) (digit_val b p * b ^ m + e)"
proof (induction ls arbitrary: a)
  case (Cons x ls)
  then have x: "prefix_ok b m x" "lo b m x = a" "tiles b m (hi b m x) ls e" by auto
  have "k + m - length (p @ x) = m - length x" "length x \<le> m" using Cons.prems x by (auto simp: prefix_ok_def)
  then have "lo b (k + m) (p @ x) = digit_val b p * b ^ m + lo b m x"
    "hi b (k + m) (p @ x) = digit_val b p * b ^ m + hi b m x"
    by (simp_all add: lo_def hi_def digit_val_append algebra_simps power_add flip: power_add)
  with Cons x assms show ?case by (auto simp: prefix_ok_def)
qed simp

lemma lo_full: "length ds = m \<Longrightarrow> lo b m ds = digit_val b ds"
  and hi_full: "length ds = m \<Longrightarrow> hi b m ds = Suc (digit_val b ds)"
  by (simp_all add: lo_def hi_def)

lemma loops_tile:
  assumes b: "2 \<le> b" and ds: "all_digits b (d # ds)" and de: "all_digits b (c # cs)"
    and len: "length ds = length cs" and lt: "d < c"
  defines "m \<equiv> Suc (length cs)"
  defines "s \<equiv> remove_tail (d # ds) 0" and "e \<equiv> remove_tail (c # cs) (b - 1)"
  shows "\<exists>stack list list'. start_loop b s [] = Some (stack, list) \<and>
    (\<exists>stack2 list2. middle_loop e stack list = Some (stack2, list2) \<and> end_loop e stack2 list2 = Some list') \<and>
    tiles b m (digit_val b (d # ds)) (list' @ [e]) (Suc (digit_val b (c # cs)))"
proof -
  obtain i where i: "d # ds = s @ replicate i 0" "s \<noteq> []" using remove_tail_decomp[of "d # ds" 0] by (auto simp: s_def)
  obtain j where j: "c # cs = e @ replicate j (b - 1)" "e \<noteq> []" using remove_tail_decomp[of "c # cs" "b - 1"] by (auto simp: e_def)
  obtain s' where s': "s = d # s'" using i by (cases s) auto
  obtain e' where e': "e = c # e'" using j by (cases e) auto
  have lens: "length (s @ replicate i 0) = m" "length (e @ replicate j (b - 1)) = m"
    using arg_cong[OF i(1), of length] arg_cong[OF j(1), of length] len by (simp_all add: m_def)
  have oks: "prefix_ok b m s" using ds lens(1) unfolding i(1) by (simp add: prefix_ok_def)
  have oke: "prefix_ok b m e" using de lens(2) unfolding j(1) by (simp add: prefix_ok_def)
  have los: "lo b m s = digit_val b (d # ds)"
    using lo_strip_zero[of s i m b] lo_full[of "s @ replicate i 0" m b] lens(1) i(1) by simp
  have hie: "hi b m e = Suc (digit_val b (c # cs))"
    using hi_strip_max[of b e j m] hi_full[of "e @ replicate j (b - 1)" m b] lens(2) j(1) b by simp
  have "start_inv b m c s" using oks lt s' by (simp add: start_inv_def)
  then obtain x ls1 where 1: "start_loop b s [] = Some ([x], ls1)" "x \<le> c" "tiles b m (lo b m s) ls1 (lo b m [x])"
    using start_loop_tiles[of c b m s "lo b m s" "[]"] de by auto
  then obtain ls2 where 2: "middle_loop e [x] ls1 = Some ([c], ls2)" "tiles b m (lo b m s) ls2 (lo b m [c])"
    using middle_loop_tiles[of x c b m "lo b m s" ls1 e'] de by (auto simp: e' m_def)
  have "end_inv e [c]" by (auto simp: end_inv_def e' intro!: exI[of _ 0])
  then obtain ls3 where 3: "end_loop e [c] ls2 = Some ls3" "tiles b m (lo b m s) ls3 (lo b m e)"
    using end_loop_tiles[OF oke _ _ 2(2)] b by auto
  have "tiles b m (lo b m s) (ls3 @ [e]) (hi b m e)" using 3(2) oke by (rule tiles_snoc)
  with 1(1) 2(1) 3(1) los hie show ?thesis by auto
qed

lemma group_by_tiles:
  assumes b: "2 \<le> b" "b < 2 ^ 53" and v: "s \<le> e" "e < 2 ^ 53" "e < b ^ n"
  shows "\<exists>ps. group_by_ignoring_digits s e b n = Some ps \<and> tiles b n s ps (Suc e)"
proof -
  let ?ds = "digits b n s" and ?de = "digits b n e"
  have dec: "decompose_value s b n = Some ?ds" "decompose_value e b n = Some ?de"
    using assms by (auto intro!: decompose_value_digits)
  have dig: "all_digits b ?ds" "all_digits b ?de" using all_digits_digits b by (simp_all add: Suc_le_eq)
  have val: "digit_val b ?ds = s" "digit_val b ?de = e" using v by (simp_all add: digit_val_digits)
  show ?thesis
  proof (cases "s = e")
    case True
    have "tiles b n s [?de] (Suc e)" using dig val True
      by (simp add: prefix_ok_def lo_full hi_full)
    then show ?thesis using dec True v by (simp add: group_by_ignoring_digits_def)
  next
    case False
    then have ne: "?ds \<noteq> ?de" using val by metis
    obtain p d ds c cs where tp: "take_prefix ?ds ?de = Some (p, d # ds, c # cs)"
      "?ds = p @ d # ds" "?de = p @ c # cs" "d \<noteq> c" "length ds = length cs"
      by (rule take_prefix_neq[OF _ ne]) simp_all
    let ?m = "Suc (length cs)"
    have n: "n = length p + ?m" using arg_cong[OF tp(3), of length] by simp
    have sp: "s = digit_val b p * b ^ ?m + digit_val b (d # ds)" "e = digit_val b p * b ^ ?m + digit_val b (c # cs)"
      using val tp(2,3,5) digit_val_append[of b p "d # ds"] digit_val_append[of b p "c # cs"] by simp_all
    have dig': "all_digits b (d # ds)" "all_digits b (c # cs)" "prefix_ok b (length p) p"
      using dig unfolding tp(2,3) by (auto simp: prefix_ok_def)
    have le: "digit_val b (d # ds) \<le> digit_val b (c # cs)" using sp v by simp
    have "\<not> c < d"
    proof
      assume "c < d"
      then have "Suc c * b ^ length cs \<le> d * b ^ length cs" by (intro mult_le_mono1) simp
      moreover have "digit_val b cs < b ^ length cs" using dig' by (intro digit_val_less) auto
      ultimately show False using le tp(5) by (simp add: digit_val_Cons)
    qed
    then have "d < c" using tp(4) by simp
    show ?thesis
    proof (cases "(\<forall>x \<in> set (d # ds). x = 0) \<and> (\<forall>x \<in> set (c # cs). x = b - 1)")
      case True
      then have "d # ds = [] @ replicate ?m 0" "c # cs = [] @ replicate ?m (b - 1)"
        using tp(5) by (auto simp: list_eq_iff_nth_eq nth_Cons' all_set_conv_all_nth split: if_splits)
      then have "digit_val b (d # ds) = 0" "Suc (digit_val b (c # cs)) = b ^ ?m"
        using digit_val_replicate_zero[of b "[]" ?m] digit_val_replicate_max[of b "[]" ?m] b by simp_all
      then have "tiles b n s [p] (Suc e)" using dig' n sp by (auto simp: prefix_ok_def lo_def hi_def)
      then show ?thesis using dec v tp True by (simp add: group_by_ignoring_digits_def)
    next
      case False
      obtain st l st2 l2 l3 where L: "start_loop b (remove_tail (d # ds) 0) [] = Some (st, l)"
        "middle_loop (remove_tail (c # cs) (b - 1)) st l = Some (st2, l2)"
        "end_loop (remove_tail (c # cs) (b - 1)) st2 l2 = Some l3"
        "tiles b ?m (digit_val b (d # ds)) (l3 @ [remove_tail (c # cs) (b - 1)]) (Suc (digit_val b (c # cs)))"
        using loops_tile[OF b(1) dig'(1,2) tp(5) \<open>d < c\<close>] by auto
      let ?l = "l3 @ [remove_tail (c # cs) (b - 1)]"
      have "tiles b n s (map (\<lambda>x. p @ x) ?l) (Suc e)"
        using tiles_prefix[OF dig'(3) L(4) refl] n sp by simp
      moreover have "(if p \<noteq> [] then map (\<lambda>x. p @ x) ?l else ?l) = map (\<lambda>x. p @ x) ?l"
        by (cases p) (simp_all add: map_idI)
      then have "group_by_ignoring_digits s e b n = Some (map (\<lambda>x. p @ x) ?l)"
        using dec v tp L False by (auto simp: group_by_ignoring_digits_def Let_def)
      ultimately show ?thesis by blast
    qed
  qed
qed


section \<open>Properties\<close>

text \<open>The outcomes that a prefix stands for: those whose digits extend it.\<close>

definition stands_for :: "nat \<Rightarrow> nat \<Rightarrow> nat list \<Rightarrow> nat \<Rightarrow> bool" where
  "stands_for base nb_digits p v \<longleftrightarrow> v < 2 ^ 53 \<and> v < base ^ nb_digits \<and>
     (\<exists>ds. decompose_value v base nb_digits = Some ds \<and> take (length p) ds = p)"

lemma stands_for_interval:
  assumes "2 \<le> base" "base < 2 ^ 53" "prefix_ok base nb_digits p"
  shows "stands_for base nb_digits p v \<longleftrightarrow> v < 2 ^ 53 \<and> lo base nb_digits p \<le> v \<and> v < hi base nb_digits p"
  using prefix_interval[OF assms(1,3), of v] hi_le[OF assms(3)] decompose_value_digits[of v base nb_digits] assms(1,2)
  by (auto simp: stands_for_def)

lemma tiles_sorted:
  assumes "2 \<le> base" "base < 2 ^ 53"
  shows "tiles base nb_digits a ps e \<Longrightarrow>
    (\<forall>p \<in> set ps. prefix_ok base nb_digits p \<and> a \<le> lo base nb_digits p \<and> hi base nb_digits p \<le> e) \<and>
    sorted_wrt (\<lambda>p q. hi base nb_digits p \<le> lo base nb_digits q) ps"
proof (induction ps arbitrary: a)
  case (Cons p ps)
  have "hi base nb_digits p \<le> e" "lo base nb_digits p < hi base nb_digits p"
    using tiles_le[of base nb_digits "hi base nb_digits p" ps e] lo_less_hi[of base nb_digits p] Cons.prems assms(1) by auto
  then show ?case using Cons by fastforce
qed simp

text \<open>C27: The prefixes that \<open>group_by_ignoring_digits\<close> returns for an interval of outcomes below \<open>2 ^ 53\<close> cover it exactly and in
  order: it returns, every outcome in \<open>[start, end]\<close> has exactly one prefix in the result that its digits extend, and every other
  outcome has none; each prefix stands for some outcome of the interval, and the outcomes of a prefix are below those of every later
  one.\<close>

theorem group_by_ignoring_digits_exact_cover:
  assumes "2 \<le> base" "base < 2 ^ 53" "s \<le> e" "e < 2 ^ 53" "e < base ^ nb_digits"
  shows "\<exists>ps. group_by_ignoring_digits s e base nb_digits = Some ps \<and>
    (\<forall>v ds. v < 2 ^ 53 \<and> v < base ^ nb_digits \<and> decompose_value v base nb_digits = Some ds \<longrightarrow>
      length (filter (\<lambda>p. take (length p) ds = p) ps) = (if s \<le> v \<and> v \<le> e then 1 else 0)) \<and>
    (\<forall>p \<in> set ps. \<exists>v. s \<le> v \<and> v \<le> e \<and> stands_for base nb_digits p v) \<and>
    sorted_wrt (\<lambda>p q. \<forall>v w. stands_for base nb_digits p v \<and> stands_for base nb_digits q w \<longrightarrow> v < w) ps"
proof -
  obtain ps where ps: "group_by_ignoring_digits s e base nb_digits = Some ps" "tiles base nb_digits s ps (Suc e)"
    using group_by_tiles[OF assms] by blast
  have "length (filter (\<lambda>p. take (length p) ds = p) ps) = (if s \<le> v \<and> v \<le> e then 1 else 0)"
    if "v < 2 ^ 53 \<and> v < base ^ nb_digits \<and> decompose_value v base nb_digits = Some ds" for v ds
    using that tiles_unique[OF assms(1) _ ps(2), of v] decompose_value_digits[of v base nb_digits] assms(1,2)
    by (simp only: less_Suc_eq_le) auto
  moreover note tiles_sorted[OF assms(1,2) ps(2)]
  moreover have "\<exists>v. s \<le> v \<and> v \<le> e \<and> stands_for base nb_digits p v"
    if "prefix_ok base nb_digits p" "s \<le> lo base nb_digits p" "hi base nb_digits p \<le> Suc e" for p
    using that stands_for_interval[OF assms(1,2) that(1), of "lo base nb_digits p"] lo_less_hi[of base nb_digits p] assms(1,4)
    by (intro exI[of _ "lo base nb_digits p"]) auto
  moreover have "sorted_wrt (\<lambda>p q. \<forall>v w. stands_for base nb_digits p v \<and> stands_for base nb_digits q w \<longrightarrow> v < w) ps"
    using calculation(2) by (auto elim!: sorted_wrt_mono_rel[rotated] simp: stands_for_interval[OF assms(1,2)])
  ultimately show ?thesis using ps(1) by blast
qed

lemma group_by_ignoring_digits_exact_cover_witness:
  "\<exists>ps. group_by_ignoring_digits 171 210 16 2 = Some ps \<and>
     (\<forall>v ds. v < 2 ^ 53 \<and> v < 16 ^ 2 \<and> decompose_value v 16 2 = Some ds \<longrightarrow>
       length (filter (\<lambda>p. take (length p) ds = p) ps) = (if 171 \<le> v \<and> v \<le> 210 then 1 else 0)) \<and>
     (\<forall>p \<in> set ps. \<exists>v. 171 \<le> v \<and> v \<le> 210 \<and> stands_for 16 2 p v) \<and>
     sorted_wrt (\<lambda>p q. \<forall>v w. stands_for 16 2 p v \<and> stands_for 16 2 q w \<longrightarrow> v < w) ps"
  by (rule group_by_ignoring_digits_exact_cover) simp_all

text \<open>C40: \<open>decompose_value\<close> gives \<open>nb_digits\<close> digits below the base, most significant first, and
  \<open>compose_value\<close> reads the value back, for values below \<open>2 ^ 53\<close> that fit in the digits.\<close>

theorem decompose_compose_roundtrip:
  assumes "2 \<le> base" "base < 2 ^ 53" "v < 2 ^ 53" "v < base ^ nb_digits" "base ^ (nb_digits - 1) < 2 ^ 64"
  shows "\<exists>ds. decompose_value v base nb_digits = Some ds \<and> length ds = nb_digits \<and>
    (\<forall>d \<in> set ds. d < base) \<and> compose_value ds base = Some v"
proof -
  have "compose_value (digits base nb_digits v) base = Some (digit_val base (digits base nb_digits v))"
    using assms all_digits_digits[of base nb_digits v]
    by (intro compose_value_val) (auto simp: digit_val_digits)
  then show ?thesis
    using assms all_digits_digits[of base nb_digits v] by (simp add: decompose_value_digits digit_val_digits)
qed

lemma decompose_compose_roundtrip_witness:
  "\<exists>ds. decompose_value 123456789 10 9 = Some ds \<and> length ds = 9 \<and> (\<forall>d \<in> set ds. d < 10) \<and>
     compose_value ds 10 = Some 123456789"
  by (rule decompose_compose_roundtrip) simp_all

text \<open>The bound \<open>2 ^ 53\<close> of the round trip is needed: the division in floating point makes
  \<open>decompose_value\<close> return the digits of another number already for \<open>2 ^ 53 + 3\<close> in base 2.\<close>

theorem decompose_value_imprecise:
  "Option.bind (decompose_value (2 ^ 53 + 3) 2 54) (\<lambda>ds. compose_value ds 2) = Some (2 ^ 53 + 5)"
proof -
  have "f64_floor (f64_div (f64_of_nat (2 ^ 53 + 3)) (f64_of_nat 2)) = 2 ^ 52 + 2"
    by (simp add: f64_of_nat_def f64_div_def f64_floor_def round_quotient_def round_half_even_def
        scale_up.simps scale_down.simps Let_def)
  then have "decompose_loop (2 ^ 53 + 3) 2 [] = decompose_loop (2 ^ 52 + 2) 2 [1]"
    by (subst decompose_loop.simps) (simp add: mod2_eq_if)
  also have "\<dots> = Some (1 # lsd_digits 2 (2 ^ 52 + 2))" by (subst decompose_loop_lsd) simp_all
  finally have loop: "decompose_loop (2 ^ 53 + 3) 2 [] = Some (1 # lsd_digits 2 (2 ^ 52 + 2))" .
  have pad: "rev (lsd_digits 2 (2 ^ 52 + 2) @ replicate (53 - length (lsd_digits 2 (2 ^ 52 + 2))) 0) = digits 2 53 (2 ^ 52 + 2)"
    "length (lsd_digits 2 (2 ^ 52 + 2)) \<le> 53"
    using lsd_digits_pad[of "2 ^ 52 + 2" 2 53] by simp_all
  have dec: "decompose_value (2 ^ 53 + 3) 2 54 = Some (digits 2 53 (2 ^ 52 + 2) @ [1])"
    using pad by (simp add: decompose_value_def loop[simplified])
  have "all_digits 2 (digits 2 53 (2 ^ 52 + 2) @ [1])" using all_digits_digits[of 2 53 "2 ^ 52 + 2"] by auto
  then have "compose_value (digits 2 53 (2 ^ 52 + 2) @ [1]) 2 = Some (digit_val 2 (digits 2 53 (2 ^ 52 + 2) @ [1]))"
    by (intro compose_value_val) (simp_all add: digit_val_digits)
  with dec show ?thesis by (simp add: digit_val_digits)
qed

end
