(* ===== verification/MultiOracle.thy ===== *)
theory MultiOracle
  imports TrieUtils DigitDecomposition
begin

unbundle bit_operations_syntax

text \<open>
  \<open>dlc-trie/src/multi_oracle.rs\<close>: for an interval of outcomes of the main oracle, given as a binary
  prefix, the combinations of prefixes of all oracles that cover the outcomes within the supported
  difference. \<open>None\<close> is a panic (an overflow, an index, an \<open>unwrap\<close>).
\<close>

section \<open>Prefixes\<close>

definition adjust_prefix_size :: "nat list \<Rightarrow> nat \<Rightarrow> nat \<Rightarrow> (unit + nat list) option" where
  "adjust_prefix_size prefix nd suffix_len =
     do {
       expected_len \<leftarrow> u64_sub nd suffix_len;
       if length prefix \<le> expected_len
       then map_option Inr (pre_pad_vec prefix expected_len)
       else let k = length prefix - expected_len in
         if list_all (\<lambda>x. x = 0) (take k prefix) then pok (drop k prefix) else perr ()
     }"

text \<open>\<open>unwrap\<close> of the adjusted prefix.\<close>

definition adjust_unwrap :: "nat list \<Rightarrow> nat \<Rightarrow> nat \<Rightarrow> nat list option" where
  "adjust_unwrap prefix nd suffix_len =
     Option.bind (adjust_prefix_size prefix nd suffix_len) (\<lambda>r. case r of Inl _ \<Rightarrow> None | Inr p \<Rightarrow> Some p)"

definition compute_interval_from_prefix :: "nat list \<Rightarrow> nat \<Rightarrow> nat \<Rightarrow> (nat \<times> nat) option" where
  "compute_interval_from_prefix prefix num_digits base =
     do {
       suffix_len \<leftarrow> u64_sub num_digits (length prefix);
       s \<leftarrow> compose_value (prefix @ replicate suffix_len 0) base;
       e \<leftarrow> compose_value (prefix @ replicate suffix_len (base - 1)) base;
       Some (s, e)
     }"

definition num_to_vec :: "nat \<Rightarrow> nat \<Rightarrow> nat \<Rightarrow> nat \<Rightarrow> nat list option" where
  "num_to_vec input nd ignored_digits base =
     do {
       decomposed \<leftarrow> decompose_value input base nd;
       to_take \<leftarrow> u64_sub (length decomposed) ignored_digits;
       Some (take to_take decomposed)
     }"

definition compute_min_support_covering_prefix :: "nat \<Rightarrow> nat \<Rightarrow> nat \<Rightarrow> nat \<Rightarrow> nat list option" where
  "compute_min_support_covering_prefix s e min_support min_nb_digits =
     do {
       left_bound \<leftarrow> u64_sub s min_support;
       right_bound \<leftarrow> u64_add e min_support;
       ld \<leftarrow> decompose_value left_bound 2 min_nb_digits;
       rd \<leftarrow> decompose_value right_bound 2 min_nb_digits;
       Some (map fst (takeWhile (\<lambda>(x, y). x = y) (zip ld rd)))
     }"

text \<open>The two directions differ in the bound and in the digit that extends the prefix.\<close>

definition extend_covering_prefix :: "nat \<Rightarrow> nat \<Rightarrow> nat \<Rightarrow> nat \<Rightarrow> nat list option" where
  "extend_covering_prefix digit bound max_error_exp nd =
     do {
       ds \<leftarrow> decompose_value bound 2 nd;
       k \<leftarrow> u64_sub nd max_error_exp;
       assert_that (k \<le> length ds);
       Some (take k ds @ takeWhile (\<lambda>x. x = digit) (drop k ds))
     }"

definition compute_left_covering_prefix :: "nat \<Rightarrow> nat \<Rightarrow> nat \<Rightarrow> nat \<Rightarrow> nat list option" where
  "compute_left_covering_prefix s max_error_exp min_support nd =
     Option.bind (u64_sub s min_support) (\<lambda>bound. extend_covering_prefix 1 bound max_error_exp nd)"

definition compute_right_covering_prefix :: "nat \<Rightarrow> nat \<Rightarrow> nat \<Rightarrow> nat \<Rightarrow> nat list option" where
  "compute_right_covering_prefix e max_error_exp min_support nd =
     Option.bind (u64_add e min_support) (\<lambda>bound. extend_covering_prefix 0 bound max_error_exp nd)"

section \<open>Combinations of prefixes\<close>

definition single_covering_prefix_combinations ::
  "nat list \<Rightarrow> nat list \<Rightarrow> nat list \<Rightarrow> nat \<Rightarrow> nat list list option" where
  "single_covering_prefix_combinations main secondary infos suffix_len =
     do {
       sec \<leftarrow> omap (\<lambda>nb. do {
         k \<leftarrow> u64_sub (length main) (length secondary);
         k \<leftarrow> u64_add k suffix_len;
         adjust_unwrap secondary nb k
       }) (drop 1 infos);
       i0 \<leftarrow> vget infos 0;
       res \<leftarrow> adjust_unwrap main i0 suffix_len;
       Some (res # sec)
     }"

text \<open>The order of slices is lexicographic.\<close>

definition slice_less :: "nat list \<Rightarrow> nat list \<Rightarrow> bool" where
  "slice_less xs ys = ord_class.lexordp xs ys"

definition usize_shl1 :: "nat \<Rightarrow> nat option" where
  "usize_shl1 e = (if e < 64 then Some (push_bit e 1) else None)"

text \<open>
  The literals of the loop over the choices are of type \<open>i32\<close>: the shift wraps to the smallest number at 31, where the range is
  empty, and panics from 32 on.
\<close>

definition i32_shl1 :: "nat \<Rightarrow> int option" where
  "i32_shl1 e = (if e < 32 then Some (signed_take_bit 31 (push_bit e 1)) else None)"

text \<open>The \<open>i\<close>-th choice: bit \<open>j\<close> of \<open>i\<close> picks the prefix of an oracle; the last one is first.\<close>

definition mid_combination :: "nat \<Rightarrow> nat \<Rightarrow> nat list \<Rightarrow> nat list \<Rightarrow> nat list \<Rightarrow> nat list list" where
  "mid_combination nb_oracles i main first second =
     rev (map (\<lambda>j. if i AND push_bit j 1 = 0 then first else second) [0..<nb_oracles - 1] @ [main])"

definition trim_combination :: "nat list list \<Rightarrow> nat list \<Rightarrow> nat list \<Rightarrow> nat \<Rightarrow> (unit + nat list list) option" where
  "trim_combination mid_res infos main suffix_len =
     pmap (\<lambda>(x, y). Option.bind (u64_add (length main) suffix_len) (\<lambda>k.
       Option.bind (u64_sub k (length x)) (\<lambda>k. adjust_prefix_size x y k))) (zip mid_res infos)"

fun double_covering_loop ::
  "nat list \<Rightarrow> nat list \<Rightarrow> nat list \<Rightarrow> nat list \<Rightarrow> nat \<Rightarrow> nat list \<Rightarrow> nat list list list option" where
  "double_covering_loop main first second infos suffix_len [] = Some []"
| "double_covering_loop main first second infos suffix_len (i # is) =
     do {
       r \<leftarrow> trim_combination (mid_combination (length infos) i main first second) infos main suffix_len;
       res \<leftarrow> double_covering_loop main first second infos suffix_len is;
       Some (case r of Inl _ \<Rightarrow> res | Inr c \<Rightarrow> c # res)
     }"

definition double_covering_prefix_combinations ::
  "nat list \<Rightarrow> nat list \<Rightarrow> nat list \<Rightarrow> nat list \<Rightarrow> nat \<Rightarrow> nat list list list option" where
  "double_covering_prefix_combinations main left right infos suffix_len =
     (let (first, second) = (if slice_less right left then (right, left) else (left, right)) in
      do {
        n \<leftarrow> u64_sub (length infos) 1;
        bound \<leftarrow> i32_shl1 n;
        double_covering_loop main first second infos suffix_len [0..<nat bound]
      })"

definition double_covering_restricted_prefix_combinations ::
  "nat list \<Rightarrow> nat list \<Rightarrow> nat list \<Rightarrow> nat \<Rightarrow> nat list list list option" where
  "double_covering_restricted_prefix_combinations main other infos suffix_len =
     do {
       combinations \<leftarrow> double_covering_prefix_combinations main main other infos suffix_len;
       if slice_less other main
       then do { _ \<leftarrow> u64_sub (length combinations) 1; Some (butlast combinations) }
       else Some (drop 1 combinations)
     }"

section \<open>\<open>compute_outcome_combinations\<close>\<close>

text \<open>The interval is shorter than the maximal error.\<close>

definition small_interval_combinations ::
  "nat list \<Rightarrow> nat list \<Rightarrow> nat \<Rightarrow> nat \<Rightarrow> nat \<Rightarrow> nat \<Rightarrow> nat \<Rightarrow> nat \<Rightarrow> nat \<Rightarrow> nat \<Rightarrow> bool \<Rightarrow> nat list list list option" where
  "small_interval_combinations infos main n max_num suffix_len s e max_error_exp max_error min_support maximize =
     (let start_suffix = s AND (max_error - 1);
          left_bound = push_bit max_error_exp (drop_bit max_error_exp s);
          right_bound = left_bound OR (max_error - 1)
      in do {
        error_prefix \<leftarrow> num_to_vec left_bound n max_error_exp 2;
        rm \<leftarrow> (if min_support \<le> start_suffix then u64_sub right_bound min_support else Some 0);
        if min_support \<le> start_suffix \<and> e \<le> rm
        then do {
          support \<leftarrow> (if maximize then Some error_prefix
            else compute_min_support_covering_prefix s e min_support n);
          c \<leftarrow> single_covering_prefix_combinations main support infos suffix_len;
          Some [c]
        }
        else if start_suffix < min_support
        then do {
          right_prefix \<leftarrow> (if maximize then Some error_prefix
            else compute_right_covering_prefix e max_error_exp min_support n);
          if left_bound = 0
          then do { c \<leftarrow> single_covering_prefix_combinations main right_prefix infos suffix_len; Some [c] }
          else do {
            left_prefix \<leftarrow> (if maximize
              then do { x \<leftarrow> u64_sub left_bound (drop_bit 1 max_error); i \<leftarrow> u64_sub max_error_exp 1; num_to_vec x n i 2 }
              else compute_left_covering_prefix s max_error_exp min_support n);
            double_covering_prefix_combinations main right_prefix left_prefix infos suffix_len
          }
        }
        else do {
          rm \<leftarrow> u64_sub right_bound min_support;
          if rm < e
          then do {
            left_prefix \<leftarrow> (if maximize then Some error_prefix
              else compute_left_covering_prefix s max_error_exp min_support n);
            if right_bound = max_num
            then do { c \<leftarrow> single_covering_prefix_combinations main left_prefix infos suffix_len; Some [c] }
            else do {
              right_prefix \<leftarrow> (if maximize
                then do { x \<leftarrow> u64_add right_bound 1; i \<leftarrow> u64_sub max_error_exp 1; num_to_vec x n i 2 }
                else compute_right_covering_prefix e max_error_exp min_support n);
              double_covering_prefix_combinations main left_prefix right_prefix infos suffix_len
            }
          }
          else None
        }
      })"

text \<open>The longer intervals: the neighbours of both ends, and the interval itself.\<close>

definition large_interval_combinations ::
  "nat list \<Rightarrow> nat list \<Rightarrow> nat \<Rightarrow> nat \<Rightarrow> nat \<Rightarrow> nat \<Rightarrow> nat \<Rightarrow> nat \<Rightarrow> nat \<Rightarrow> nat \<Rightarrow> nat \<Rightarrow> bool \<Rightarrow> nat list list list option" where
  "large_interval_combinations infos main n max_num suffix_len s e max_error_exp half min_support_exp min_support maximize =
     (let ignored = (if maximize then u64_sub max_error_exp 1 else Some min_support_exp);
          width = (if maximize then half else min_support)
      in do {
        lefts \<leftarrow> (if s = 0 then Some []
          else do {
            i \<leftarrow> ignored;
            right_prefix \<leftarrow> num_to_vec s n i 2;
            x \<leftarrow> u64_sub s width;
            left_prefix \<leftarrow> num_to_vec x n i 2;
            k \<leftarrow> u64_sub n (length right_prefix);
            double_covering_restricted_prefix_combinations right_prefix left_prefix infos k
          });
        mid \<leftarrow> single_covering_prefix_combinations main main infos suffix_len;
        rights \<leftarrow> (if e = max_num then Some []
          else do {
            i \<leftarrow> ignored;
            x \<leftarrow> u64_sub e width;
            right_prefix \<leftarrow> num_to_vec (x + 1) n i 2;
            y \<leftarrow> u64_add e 1;
            left_prefix \<leftarrow> num_to_vec y n i 2;
            k \<leftarrow> u64_sub n (length right_prefix);
            double_covering_restricted_prefix_combinations right_prefix left_prefix infos k
          });
        Some (lefts @ mid # rights)
      })"

definition compute_outcome_combinations ::
  "nat list \<Rightarrow> nat list \<Rightarrow> nat \<Rightarrow> nat \<Rightarrow> bool \<Rightarrow> nat list list list option" where
  "compute_outcome_combinations infos main max_error_exp min_support_exp maximize =
     do {
       assert_that (1 < length infos \<and> min_support_exp < max_error_exp);
       m \<leftarrow> vget infos 0;
       let same = list_all (\<lambda>x. x = m) (drop 1 infos);
       let n = (if same then m else m + 1);
       let main = (if same then main else 0 # main);
       p \<leftarrow> usize_shl1 n;
       let max_num = p - 1;
       max_error \<leftarrow> usize_shl1 max_error_exp;
       let half = drop_bit 1 max_error;
       min_support \<leftarrow> usize_shl1 min_support_exp;
       suffix_len \<leftarrow> u64_sub n (length main);
       (s, e) \<leftarrow> compute_interval_from_prefix main n 2;
       if suffix_len < max_error_exp
       then small_interval_combinations infos main n max_num suffix_len s e max_error_exp max_error min_support maximize
       else large_interval_combinations infos main n max_num suffix_len s e max_error_exp half min_support_exp min_support maximize
     }"

end
