(* ===== verification/MultiOracleCover.thy ===== *)
theory MultiOracleCover
  imports MultiOracle
begin

unbundle bit_operations_syntax

text \<open>
  What \<open>compute_outcome_combinations\<close> is for, when all oracles have the same number of digits: every
  tuple of outcomes that differ by at most the minimal support is covered, and an outcome of a covered tuple
  differs from that of the main oracle by less than the maximal error, unless both have the given prefix.
\<close>

section \<open>Prefixes as intervals of outcomes\<close>

definition inside :: "nat \<Rightarrow> nat list \<Rightarrow> nat \<Rightarrow> bool" where
  "inside n p v \<longleftrightarrow> lo 2 n p \<le> v \<and> v < hi 2 n p"

text \<open>The prefix of the outcomes that share all but the last \<open>i\<close> digits with \<open>x\<close>.\<close>

definition block :: "nat \<Rightarrow> nat \<Rightarrow> nat \<Rightarrow> nat list" where
  "block n i x = digits 2 (n - i) (x div 2 ^ i)"

lemma block_less: "i \<le> n \<Longrightarrow> x < 2 ^ n \<Longrightarrow> x div 2 ^ i < (2 :: nat) ^ (n - i)"
  by (simp add: div_less_iff_less_mult flip: power_add)

lemma block_props:
  assumes "i \<le> n" "x < 2 ^ n"
  shows "length (block n i x) = n - i" "prefix_ok 2 n (block n i x)"
    "lo 2 n (block n i x) = x div 2 ^ i * 2 ^ i" "hi 2 n (block n i x) = x div 2 ^ i * 2 ^ i + 2 ^ i"
proof -
  show len: "length (block n i x) = n - i" by (simp add: block_def)
  show "prefix_ok 2 n (block n i x)" using all_digits_digits[of 2 "n - i"] by (simp add: prefix_ok_def block_def)
  have "digit_val 2 (block n i x) = x div 2 ^ i" using block_less[OF assms] by (simp add: block_def digit_val_digits)
  then show "lo 2 n (block n i x) = x div 2 ^ i * 2 ^ i" "hi 2 n (block n i x) = x div 2 ^ i * 2 ^ i + 2 ^ i"
    using assms(1) by (simp_all add: lo_def hi_def len)
qed

lemma num_to_vec_block:
  assumes "i \<le> n" "n \<le> 53" "x < 2 ^ n"
  shows "num_to_vec x n i 2 = Some (block n i x)"
proof -
  have "(2::nat) ^ n \<le> 2 ^ 53" using assms(2) by (rule power_increasing) simp
  then have "decompose_value x 2 n = Some (digits 2 n x)" using assms(3) by (intro decompose_value_digits) auto
  then show ?thesis using assms take_digits[of "n - i" n 2 x] by (simp add: num_to_vec_def block_def)
qed

lemma interval_of_prefix:
  assumes "prefix_ok 2 n p" "n \<le> 53"
  shows "compute_interval_from_prefix p n 2 = Some (lo 2 n p, hi 2 n p - 1)"
proof -
  let ?k = "n - length p"
  have len: "length p \<le> n" and dig: "all_digits 2 p" using assms(1) by (auto simp: prefix_ok_def)
  have "(2::nat) ^ n < u64_bound" using assms(2) by (intro power_strict_increasing) auto
  moreover have "(2::nat) ^ (n - 1) \<le> 2 ^ n" by (rule power_increasing) auto
  ultimately have pw: "(2::nat) ^ n < u64_bound" "(2::nat) ^ (n - 1) < u64_bound" by linarith+
  have val: "compose_value ds 2 = Some (digit_val 2 ds)" if "all_digits 2 ds" "length ds = n" for ds
    using that pw digit_val_less[OF that(1)] by (intro compose_value_val) auto
  have "all_digits 2 (p @ replicate ?k 0)" "all_digits 2 (p @ replicate ?k (2 - 1))" using dig by auto
  then have "compose_value (p @ replicate ?k 0) 2 = Some (lo 2 n p)"
    "compose_value (p @ replicate ?k (2 - 1)) 2 = Some (hi 2 n p - 1)"
    using val[of "p @ replicate ?k 0"] val[of "p @ replicate ?k (2 - 1)"] len
      digit_val_replicate_zero[of 2 p ?k] digit_val_replicate_max[of 2 p ?k]
    by (auto simp: lo_def hi_def)
  then show ?thesis using len by (simp add: compute_interval_from_prefix_def)
qed

lemma extends_inside:
  assumes "prefix_ok 2 n p" "n \<le> 53" "v < 2 ^ n"
  shows "(\<exists>ds. decompose_value v 2 n = Some ds \<and> take (length p) ds = p) \<longleftrightarrow> inside n p v"
proof -
  have "(2::nat) ^ n \<le> 2 ^ 53" using assms(2) by (rule power_increasing) simp
  then have "decompose_value v 2 n = Some (digits 2 n v)" using assms(3) by (intro decompose_value_digits) auto
  then show ?thesis using prefix_interval[OF _ assms(1,3)] by (simp add: inside_def)
qed

section \<open>Prefixes that reach a bound\<close>

lemma take_block: "i \<le> n \<Longrightarrow> take (n - i) (digits 2 n x) = block n i x"
  using take_digits[of "n - i" n 2 x] by (simp add: block_def)

lemma takeWhile_take:
  "takeWhile P xs = take (length (takeWhile P xs)) xs"
  "u \<le> length xs \<Longrightarrow> \<forall>x \<in> set (take u xs). P x \<Longrightarrow> u \<le> length (takeWhile P xs)"
  subgoal by (metis append_eq_conv_conj takeWhile_dropWhile_id)
  subgoal
  proof (induction xs arbitrary: u)
    case (Cons x xs)
    then show ?case by (cases u) auto
  qed simp
  done

lemma digits_mod: "digits 2 n (v mod 2 ^ n) = digits 2 n v"
  by (rule digit_val_inj[where b = 2]) (simp_all add: all_digits_digits digit_val_digits)

lemma drop_digits: "k \<le> n \<Longrightarrow> drop (n - k) (digits 2 n x) = digits 2 k x"
proof (induction n arbitrary: k x)
  case (Suc n)
  then show ?case by (cases k) (auto simp: Suc_diff_le)
qed simp

lemma all_zero_digits: "(\<forall>d \<in> set (digits 2 t v). d = 0) \<longleftrightarrow> v mod 2 ^ t = 0"
proof
  assume "\<forall>d \<in> set (digits 2 t v). d = 0"
  then have "digits 2 t v = replicate t 0" by (intro replicate_eqI) auto
  then show "v mod 2 ^ t = 0" using digit_val_digits[of 2 t v] digit_val_replicate_zero[of 2 "[]" t] by simp
next
  assume "v mod 2 ^ t = 0"
  then have "digits 2 t v = replicate t 0" using digits_mod[of t v] by simp
  then show "\<forall>d \<in> set (digits 2 t v). d = 0" by simp
qed

lemma all_one_digits: "(\<forall>d \<in> set (digits 2 t v). d = 1) \<longleftrightarrow> v mod 2 ^ t = 2 ^ t - 1"
proof -
  have max: "digit_val 2 (replicate t (Suc 0)) = 2 ^ t - 1"
    using digit_val_replicate_max[of 2 "[]" t] by simp
  have "(\<forall>d \<in> set (digits 2 t v). d = 1) \<longleftrightarrow> digits 2 t v = replicate t 1"
    by (metis in_set_replicate length_digits replicate_eqI)
  also have "\<dots> \<longleftrightarrow> v mod 2 ^ t = 2 ^ t - 1"
    using digit_val_inj[where b = 2 and xs = "digits 2 t v" and ys = "replicate t 1"] all_digits_digits[of 2 t v] max digit_val_digits[of 2 t v] by auto
  finally show ?thesis .
qed

text \<open>The digits below the \<open>e\<close>-th one are followed as long as they are all the same.\<close>

lemma extended_block:
  fixes n e b d :: nat
  assumes "e \<le> n"
  defines "j \<equiv> e - length (takeWhile (\<lambda>x. x = d) (drop (n - e) (digits 2 n b)))"
  shows "take (n - e) (digits 2 n b) @ takeWhile (\<lambda>x. x = d) (drop (n - e) (digits 2 n b)) = block n j b" "j \<le> e"
    "\<forall>x \<in> set (digits 2 (e - j) (b div 2 ^ j)). x = d"
    "i \<le> e \<Longrightarrow> \<forall>x \<in> set (digits 2 (e - i) (b div 2 ^ i)). x = d \<Longrightarrow> j \<le> i"
proof -
  let ?ds = "digits 2 n b" and ?P = "\<lambda>x. x = d"
  let ?t = "length (takeWhile ?P (drop (n - e) ?ds))"
  have low: "drop (n - e) ?ds = digits 2 e b" using assms(1) by (rule drop_digits)
  have t: "?t \<le> e" using length_takeWhile_le[of ?P "digits 2 e b"] by (simp only: low length_digits)
  show "j \<le> e" by (simp add: j_def)
  have "take ?t (drop (n - e) ?ds) = takeWhile ?P (drop (n - e) ?ds)" by (rule takeWhile_take(1)[symmetric])
  then have "take (n - e) ?ds @ takeWhile ?P (drop (n - e) ?ds) = take (n - e + ?t) ?ds" by (simp only: take_add)
  also have "n - e + ?t = n - j" using t assms(1) by (simp add: j_def)
  also have "take (n - j) ?ds = block n j b" using assms(1) by (intro take_block) (simp add: j_def)
  finally show "take (n - e) ?ds @ takeWhile ?P (drop (n - e) ?ds) = block n j b" .
  have pre: "take (e - i) (digits 2 e b) = digits 2 (e - i) (b div 2 ^ i)" if "i \<le> e" for i
    using take_digits[of "e - i" e 2 b] that by simp
  have tj: "e - j = ?t" using t by (simp add: j_def)
  have "take (e - j) (digits 2 e b) = takeWhile ?P (digits 2 e b)" unfolding tj low by (rule takeWhile_take(1)[symmetric])
  then have "digits 2 (e - j) (b div 2 ^ j) = takeWhile ?P (digits 2 e b)" using pre[OF \<open>j \<le> e\<close>] by (simp only:)
  then show "\<forall>x \<in> set (digits 2 (e - j) (b div 2 ^ j)). x = d" by (simp only:) (blast dest: set_takeWhileD)
  show "j \<le> i" if "i \<le> e" "\<forall>x \<in> set (digits 2 (e - i) (b div 2 ^ i)). x = d"
    using takeWhile_take(2)[of "e - i" "digits 2 e b" ?P] that pre[OF that(1)] tj \<open>j \<le> e\<close> unfolding low by simp
qed

lemma covering_ext:
  assumes "e \<le> n" "n \<le> 53" "b < 2 ^ n"
  shows "extend_covering_prefix d b e n =
    Some (take (n - e) (digits 2 n b) @ takeWhile (\<lambda>x. x = d) (drop (n - e) (digits 2 n b)))"
proof -
  have "(2::nat) ^ n \<le> 2 ^ 53" using assms(2) by (rule power_increasing) simp
  then have "decompose_value b 2 n = Some (digits 2 n b)" using assms(3) by (intro decompose_value_digits) auto
  then show ?thesis using assms(1) by (simp add: extend_covering_prefix_def)
qed

text \<open>A prefix that starts with a block of the maximal error and reaches a bound, and one that ends with it.\<close>

lemma right_extension:
  assumes "e \<le> n" "n \<le> 53" "c + r < 2 ^ n" "2 ^ e dvd c" "r < 2 ^ e"
  shows "\<exists>P w. extend_covering_prefix 0 (c + r) e n = Some P \<and> prefix_ok 2 n P \<and> n - e \<le> length P \<and> r < w \<and> w \<le> 2 ^ e \<and>
    (\<forall>v. inside n P v \<longleftrightarrow> c \<le> v \<and> v < c + w) \<and> (\<forall>i \<le> e. r < 2 ^ i \<longrightarrow> w \<le> 2 ^ i)"
proof -
  let ?b = "c + r"
  define j where "j = e - length (takeWhile (\<lambda>x. x = 0) (drop (n - e) (digits 2 n ?b)))"
  note x = extended_block[OF assms(1), where d = 0 and b = ?b, folded j_def]
  have j: "j \<le> n" using x(2) assms(1) by simp
  have split: "(2 :: nat) ^ e = 2 ^ j * 2 ^ (e - j)" using x(2) by (simp flip: power_add)
  have "(c + r) div 2 ^ j mod 2 ^ (e - j) = 0" using x(3) by (simp only: all_zero_digits)
  moreover have "(c + r) mod 2 ^ e = r" using assms(4,5) by (metis add.right_neutral dvd_imp_mod_0 mod_add_left_eq mod_less add_0)
  then have "(c + r) mod 2 ^ j + 2 ^ j * ((c + r) div 2 ^ j mod 2 ^ (e - j)) = r"
    unfolding split mod_mult2_eq by (simp add: add.commute)
  ultimately have r: "(c + r) mod 2 ^ j = r" by simp
  then have rj: "r < 2 ^ j" by (metis mod_less_divisor zero_less_numeral zero_less_power)
  have c: "(c + r) div 2 ^ j * 2 ^ j = c" using r by (simp add: minus_mod_eq_div_mult[symmetric])
  note blk = block_props[OF j assms(3), unfolded c]
  have "j \<le> i" if "i \<le> e" "r < 2 ^ i" for i
  proof (rule x(4)[OF that(1)])
    have "2 ^ i dvd c" using assms(4) le_imp_power_dvd[OF that(1)] by (rule dvd_trans[rotated])
    then have "(c + r) mod 2 ^ i = r" using that(2) by (metis add_0 dvd_imp_mod_0 mod_add_left_eq mod_less)
    moreover have "(2 :: nat) ^ e = 2 ^ i * 2 ^ (e - i)" using that(1) by (simp flip: power_add)
    then have "(c + r) mod 2 ^ e = (c + r) mod 2 ^ i + 2 ^ i * ((c + r) div 2 ^ i mod 2 ^ (e - i))"
      by (simp add: mod_mult2_eq add.commute)
    ultimately have "(c + r) div 2 ^ i mod 2 ^ (e - i) = 0" using \<open>(c + r) mod 2 ^ e = r\<close> by simp
    then show "\<forall>d \<in> set (digits 2 (e - i) ((c + r) div 2 ^ i)). d = 0" by (simp only: all_zero_digits)
  qed
  then have min: "\<forall>i \<le> e. r < 2 ^ i \<longrightarrow> (2 :: nat) ^ j \<le> 2 ^ i" by (simp add: power_increasing)
  have "(2 :: nat) ^ j \<le> 2 ^ e" using x(2) by (rule power_increasing) simp
  then show ?thesis using covering_ext[OF assms(1-3)] x(1,2) blk rj min
    by (intro exI[of _ "block n j ?b"] exI[of _ "2 ^ j"]) (auto simp: inside_def)
qed

lemma left_extension:
  assumes "e \<le> n" "n \<le> 53" "c + r < 2 ^ n" "2 ^ e dvd c" "r < 2 ^ e"
  shows "\<exists>P w. extend_covering_prefix 1 (c + r) e n = Some P \<and> prefix_ok 2 n P \<and> n - e \<le> length P \<and> 2 ^ e \<le> r + w \<and> w \<le> 2 ^ e \<and>
    (\<forall>v. inside n P v \<longleftrightarrow> c + 2 ^ e \<le> v + w \<and> v < c + 2 ^ e) \<and> (\<forall>i \<le> e. 2 ^ e \<le> r + 2 ^ i \<longrightarrow> w \<le> 2 ^ i)"
proof -
  let ?b = "c + r"
  define j where "j = e - length (takeWhile (\<lambda>x. x = 1) (drop (n - e) (digits 2 n ?b)))"
  note x = extended_block[OF assms(1), where d = 1 and b = ?b, folded j_def]
  have j: "j \<le> n" using x(2) assms(1) by simp
  have mod: "(c + r) mod 2 ^ e = r" using assms(4,5) by (metis add_0 dvd_imp_mod_0 mod_add_left_eq mod_less)
  have part: "r = (c + r) mod 2 ^ i + 2 ^ i * ((c + r) div 2 ^ i mod 2 ^ (e - i))" if "i \<le> e" for i
  proof -
    have "(2 :: nat) ^ e = 2 ^ i * 2 ^ (e - i)" using that by (simp flip: power_add)
    then show ?thesis using mod by (simp add: mod_mult2_eq add.commute)
  qed
  have full: "2 ^ i * (2 ^ (e - i) - 1) + 2 ^ i = (2 :: nat) ^ e" if "i \<le> e" for i
    using that by (simp add: diff_mult_distrib2 flip: power_add)
  have "(c + r) div 2 ^ j mod 2 ^ (e - j) = 2 ^ (e - j) - 1" using x(3) by (simp only: all_one_digits)
  then have r: "r + 2 ^ j = (c + r) mod 2 ^ j + 2 ^ e" using part[OF x(2)] full[OF x(2)] by simp
  have c: "(c + r) div 2 ^ j * 2 ^ j + 2 ^ j = c + 2 ^ e"
    using r div_mult_mod_eq[of "c + r" "2 ^ j"] by linarith
  note blk = block_props[OF j assms(3), unfolded c]
  have "j \<le> i" if i: "i \<le> e" "2 ^ e \<le> r + 2 ^ i" for i
  proof (rule x(4)[OF i(1)])
    have lt: "(c + r) mod 2 ^ i < 2 ^ i" "(c + r) div 2 ^ i mod 2 ^ (e - i) < 2 ^ (e - i)" by simp_all
    have "\<not> (c + r) div 2 ^ i mod 2 ^ (e - i) < 2 ^ (e - i) - 1"
    proof
      assume "(c + r) div 2 ^ i mod 2 ^ (e - i) < 2 ^ (e - i) - 1"
      then have "2 ^ i * Suc ((c + r) div 2 ^ i mod 2 ^ (e - i)) \<le> 2 ^ i * (2 ^ (e - i) - 1)" by (intro mult_le_mono2) simp
      then show False using part[OF i(1)] full[OF i(1)] i(2) lt(1) by simp
    qed
    then have "(c + r) div 2 ^ i mod 2 ^ (e - i) = 2 ^ (e - i) - 1" using lt(2) by linarith
    then show "\<forall>d \<in> set (digits 2 (e - i) ((c + r) div 2 ^ i)). d = 1" by (simp only: all_one_digits)
  qed
  then have min: "\<forall>i \<le> e. 2 ^ e \<le> r + 2 ^ i \<longrightarrow> (2 :: nat) ^ j \<le> 2 ^ i" by (simp add: power_increasing)
  have "(2 :: nat) ^ j \<le> 2 ^ e" using x(2) by (rule power_increasing) simp
  then show ?thesis using covering_ext[OF assms(1-3)] x(1,2) blk r min c
    by (intro exI[of _ "block n j ?b"] exI[of _ "2 ^ j"]) (auto simp: inside_def)
qed

lemma common_prefix:
  "map fst (takeWhile (\<lambda>(x, y). x = y) (zip xs ys)) = take (length (takeWhile (\<lambda>(x, y). x = y) (zip xs ys))) xs"
  "map fst (takeWhile (\<lambda>(x, y). x = y) (zip xs ys)) = take (length (takeWhile (\<lambda>(x, y). x = y) (zip xs ys))) ys"
  subgoal
  proof (induction xs arbitrary: ys)
    case (Cons x xs)
    then show ?case by (cases ys) auto
  qed simp
  subgoal
  proof (induction xs arbitrary: ys)
    case (Cons x xs)
    then show ?case by (cases ys) auto
  qed simp
  done

lemma common_prefix_longest:
  "u \<le> length xs \<Longrightarrow> u \<le> length ys \<Longrightarrow> take u xs = take u ys \<Longrightarrow> u \<le> length (takeWhile (\<lambda>(x, y). x = y) (zip xs ys))"
proof (induction xs arbitrary: ys u)
  case (Cons x xs)
  then show ?case by (cases ys; cases u) auto
qed simp

lemma inside_block: "i \<le> n \<Longrightarrow> x < 2 ^ n \<Longrightarrow> inside n (block n i x) v \<longleftrightarrow> v div 2 ^ i = x div 2 ^ i"
proof -
  assume "i \<le> n" "x < 2 ^ n"
  have "v div 2 ^ i = k \<longleftrightarrow> k * 2 ^ i \<le> v \<and> v < k * 2 ^ i + 2 ^ i" for k :: nat
    by (metis add.commute div_nat_eqI dividend_less_times_div mult.commute mult_Suc nat_zero_less_power_iff times_div_less_eq_dividend zero_less_numeral)
  then show ?thesis using block_props[OF \<open>i \<le> n\<close> \<open>x < 2 ^ n\<close>] by (auto simp: inside_def)
qed

lemma support_prefix:
  assumes "e \<le> n" "n \<le> 53" "x \<le> y" "y < 2 ^ n" "x div 2 ^ e = y div 2 ^ e" "S \<le> A" "x = A - S" "y = E + S"
  shows "\<exists>P. compute_min_support_covering_prefix A E S n = Some P \<and> prefix_ok 2 n P \<and>
    (\<forall>v. x \<le> v \<and> v \<le> y \<longrightarrow> inside n P v) \<and> (\<forall>v. inside n P v \<longrightarrow> v div 2 ^ e = x div 2 ^ e)"
proof -
  have n: "(2::nat) ^ n \<le> 2 ^ 53" using assms(2) by (rule power_increasing) simp
  have dec: "decompose_value v 2 n = Some (digits 2 n v)" if "v < 2 ^ n" for v using that n by (intro decompose_value_digits) auto
  let ?t = "length (takeWhile (\<lambda>(x, y). x = y) (zip (digits 2 n x) (digits 2 n y)))"
  let ?P = "map fst (takeWhile (\<lambda>(x, y). x = y) (zip (digits 2 n x) (digits 2 n y)))"
  define j where "j = n - ?t"
  have t: "?t \<le> n" using length_takeWhile_le[of "\<lambda>(x, y). x = y" "zip (digits 2 n x) (digits 2 n y)"] by simp
  have j: "j \<le> n" "?t = n - j" using t by (simp_all add: j_def)
  have "block n e x = block n e y" by (simp add: block_def assms(5))
  then have "take (n - e) (digits 2 n x) = take (n - e) (digits 2 n y)" using take_block[OF assms(1)] by simp
  then have "n - e \<le> ?t" by (intro common_prefix_longest) simp_all
  then have je: "j \<le> e" using assms(1) by (simp add: j_def)
  have P: "?P = block n j x" "?P = block n j y"
    using common_prefix[of "digits 2 n x" "digits 2 n y"] take_block[OF j(1)] unfolding j(2) by metis+
  have xn: "x < 2 ^ n" using assms(3,4) by simp
  have eq: "x div 2 ^ j = y div 2 ^ j"
    using P inside_block[OF j(1) xn, of y] inside_block[OF j(1) assms(4), of y] by simp
  have mid: "v div 2 ^ j = x div 2 ^ j" if "x \<le> v" "v \<le> y" for v
    using div_le_mono[OF that(1), of "2 ^ j"] div_le_mono[OF that(2), of "2 ^ j"] eq by simp
  have "(2 :: nat) ^ e = 2 ^ j * 2 ^ (e - j)" using je by (simp flip: power_add)
  then have up: "v div 2 ^ e = x div 2 ^ e" if "v div 2 ^ j = x div 2 ^ j" for v using that by (simp add: div_mult2_eq)
  have "E + S < u64_bound" using assms(4,8) n by simp
  then have "u64_add E S = Some y" unfolding assms(8) u64_add_def by simp
  moreover have "u64_sub A S = Some x" unfolding assms(7) using assms(6) by (simp add: u64_sub_def)
  ultimately have "compute_min_support_covering_prefix A E S n = Some ?P"
    by (simp only: compute_min_support_covering_prefix_def dec[OF xn] dec[OF assms(4)] Option.bind.bind_lunit)
  then have "compute_min_support_covering_prefix A E S n = Some (block n j x)" unfolding P(1) .
  then show ?thesis unfolding inside_block[OF j(1) xn, symmetric]
    using block_props(2)[OF j(1) xn] mid[folded inside_block[OF j(1) xn]] up[folded inside_block[OF j(1) xn]] by blast
qed

section \<open>Combinations of prefixes of one length\<close>

lemma adjust_same: "length p \<le> n \<Longrightarrow> adjust_prefix_size p n (n - length p) = pok p"
  by (simp add: adjust_prefix_size_def pre_pad_vec_def)

lemma single_same:
  assumes "length main \<le> n" "length sec \<le> length main" "n \<le> 53" "0 < k"
  shows "single_covering_prefix_combinations main sec (replicate k n) (n - length main) = Some (main # replicate (k - 1) sec)"
proof -
  have "n < 18446744073709551616" using assms(3) by simp
  moreover have "adjust_unwrap sec n (length main - length sec + (n - length main)) = Some sec"
    using adjust_same[of sec n] assms by (simp add: adjust_unwrap_def)
  moreover have "length main - length sec + (n - length main) < 18446744073709551616" using assms by simp
  ultimately have "omap (\<lambda>nb. do {
         k \<leftarrow> u64_sub (length main) (length sec);
         k \<leftarrow> u64_add k (n - length main);
         adjust_unwrap sec nb k
       }) (drop 1 (replicate k n)) = Some (replicate (k - 1) sec)"
    using assms(1,2) by (auto simp: omap_Some_iff list_all2_conv_all_nth bind_eq_Some_conv)
  moreover have "adjust_unwrap main n (n - length main) = Some main" using adjust_same[OF assms(1)] by (simp add: adjust_unwrap_def)
  ultimately show ?thesis using assms(4) by (simp add: single_covering_prefix_combinations_def)
qed

lemma trim_same:
  assumes "length main \<le> n" "\<forall>p \<in> set mid. length p \<le> n" "length mid = k" "n \<le> 53"
  shows "trim_combination mid (replicate k n) main (n - length main) = pok mid"
  unfolding trim_combination_def pmap_pok_iff
  using assms adjust_same by (auto simp: list_all2_conv_all_nth bind_eq_Some_conv)

lemma mid_combination_eq:
  "mid_combination k i main first second = main # rev (map (\<lambda>j. if bit i j then second else first) [0..<k - 1])"
proof -
  have "(if i AND push_bit j 1 = 0 then first else second) = (if bit i j then second else first)" for j
    by (simp add: push_bit_of_1 and_exp_eq_0_iff_not_bit)
  then show ?thesis by (simp add: mid_combination_def)
qed

lemma double_loop_same:
  assumes "length main \<le> n" "length first \<le> n" "length second \<le> n" "n \<le> 53" "0 < k"
  shows "double_covering_loop main first second (replicate k n) (n - length main) is =
    Some (map (\<lambda>i. mid_combination k i main first second) is)"
proof (induction "is")
  case (Cons i "is")
  have "trim_combination (mid_combination k i main first second) (replicate k n) main (n - length main) =
      pok (mid_combination k i main first second)"
    using assms by (intro trim_same) (auto simp: mid_combination_eq)
  with Cons show ?case by simp
qed simp

text \<open>All choices between two prefixes for the secondary oracles.\<close>

lemma choices_covered:
  assumes "length ws = k - 1" "set ws \<subseteq> {first, second}"
  shows "\<exists>i < 2 ^ (k - 1). mid_combination k i main first second = main # ws"
proof -
  define bs where "bs = map (\<lambda>w. w \<noteq> first) (rev ws)"
  define i :: nat where "i = horner_sum of_bool 2 bs"
  have len: "length bs = k - 1" using assms(1) by (simp add: bs_def)
  have "i < 2 ^ length bs" unfolding i_def by (rule horner_sum_of_bool_2_less)
  moreover have "rev (map (\<lambda>j. if bit i j then second else first) [0..<k - 1]) = ws"
  proof -
    have "map (\<lambda>j. if bit i j then second else first) [0..<k - 1] = rev ws"
    proof (rule nth_equalityI)
      fix j assume "j < length (map (\<lambda>j. if bit i j then second else first) [0..<k - 1])"
      then have j: "j < k - 1" by simp
      have "rev ws ! j \<in> {first, second}" using j assms by (metis length_rev nth_mem set_rev subsetD)
      moreover have "bit i j \<longleftrightarrow> rev ws ! j \<noteq> first"
        using j len assms(1) by (simp add: i_def bit_horner_sum_bit_iff bs_def)
      ultimately show "map (\<lambda>j. if bit i j then second else first) [0..<k - 1] ! j = rev ws ! j" using j by auto
    qed (use assms(1) in simp)
    then show ?thesis by simp
  qed
  ultimately show ?thesis unfolding mid_combination_eq len by blast
qed

lemma mid_choices: "\<exists>ws. mid_combination k i main first second = main # ws \<and> length ws = k - 1 \<and> set ws \<subseteq> {first, second}"
  by (auto simp: mid_combination_eq)

lemma i32_shl1_small: "e < 31 \<Longrightarrow> i32_shl1 e = Some (2 ^ e)"
proof -
  assume "e < 31"
  then have "(2 :: int) ^ e < 2 ^ 31" by (intro power_strict_increasing) auto
  then have "signed_take_bit 31 ((2 :: int) ^ e) = 2 ^ e" by (intro signed_take_bit_int_eq_self) (auto intro: order_trans[of _ 0])
  then show ?thesis using \<open>e < 31\<close> by (simp add: i32_shl1_def push_bit_of_1)
qed

text \<open>With 32 oracles there are no choices at all, with more the shift overflows.\<close>

lemma too_many_oracles:
  "length infos = 32 \<Longrightarrow> double_covering_prefix_combinations main left right infos l = Some []"
  "32 < length infos \<Longrightarrow> double_covering_prefix_combinations main left right infos l = None"
  by (simp_all add: double_covering_prefix_combinations_def i32_shl1_def push_bit_of_1 Let_def)

lemma double_same:
  assumes "length main \<le> n" "length left \<le> n" "length right \<le> n" "n \<le> 53" "0 < k" "k \<le> 31"
  shows "\<exists>cs. double_covering_prefix_combinations main left right (replicate k n) (n - length main) = Some cs \<and>
    set cs = {main # ws | ws. length ws = k - 1 \<and> set ws \<subseteq> {left, right}}"
proof -
  define first second where "first = (if slice_less right left then right else left)"
    and "second = (if slice_less right left then left else right)"
  let ?cs = "map (\<lambda>i. mid_combination k i main first second) [0..<2 ^ (k - 1)]"
  have two: "{first, second} = {left, right}" by (auto simp: first_def second_def)
  have "double_covering_prefix_combinations main left right (replicate k n) (n - length main) = Some ?cs"
    using assms double_loop_same[of main n first second k "[0..<2 ^ (k - 1)]"]
    by (auto simp: double_covering_prefix_combinations_def i32_shl1_small nat_power_eq first_def second_def)
  moreover have "set ?cs = {main # ws | ws. length ws = k - 1 \<and> set ws \<subseteq> {first, second}}"
  proof (intro set_eqI iffI)
    fix c assume "c \<in> {main # ws | ws. length ws = k - 1 \<and> set ws \<subseteq> {first, second}}"
    then show "c \<in> set ?cs" using choices_covered by (auto simp: image_iff) (metis atLeastLessThan_iff zero_le)
  qed (use mid_choices in fastforce)
  ultimately show ?thesis unfolding two by blast
qed

lemma double_restricted_same:
  assumes "length main \<le> n" "length other \<le> n" "n \<le> 53" "0 < k" "k \<le> 31"
  shows "\<exists>cs. double_covering_restricted_prefix_combinations main other (replicate k n) (n - length main) = Some cs \<and>
    (\<forall>c \<in> set cs. \<exists>ws. c = main # ws \<and> length ws = k - 1 \<and> set ws \<subseteq> {main, other}) \<and>
    (\<forall>ws. length ws = k - 1 \<and> set ws \<subseteq> {main, other} \<and> (\<exists>w \<in> set ws. w \<noteq> main) \<longrightarrow> main # ws \<in> set cs)"
proof -
  let ?m = "2 ^ (k - 1) :: nat"
  define less where "less = slice_less other main"
  define f where "f = (\<lambda>i. mid_combination k i main (if less then other else main) (if less then main else other))"
  have all: "double_covering_prefix_combinations main main other (replicate k n) (n - length main) = Some (map f [0..<?m])"
    using assms double_loop_same[of main n "if less then other else main" "if less then main else other" k "[0..<?m]"]
    by (auto simp: double_covering_prefix_combinations_def i32_shl1_small nat_power_eq f_def less_def)
  let ?is = "if less then [0..<?m - 1] else [1..<?m]"
  have "butlast [0..<?m] = [0..<?m - 1]" using upt_Suc_append[of 0 "?m - 1"] by simp
  moreover have "drop 1 [0..<?m] = [1..<?m]" by simp
  ultimately have "double_covering_restricted_prefix_combinations main other (replicate k n) (n - length main) = Some (map f ?is)"
    using all by (simp add: double_covering_restricted_prefix_combinations_def less_def[symmetric] map_butlast[symmetric] drop_map)
  moreover have "\<exists>ws. c = main # ws \<and> length ws = k - 1 \<and> set ws \<subseteq> {main, other}" if "c \<in> set (map f ?is)" for c
  proof -
    obtain i where "c = f i" using \<open>c \<in> set (map f ?is)\<close> by auto
    then show ?thesis using mid_choices[of k i main "if less then other else main" "if less then main else other"]
      by (auto simp: f_def split: if_splits)
  qed
  moreover have "main # ws \<in> set (map f ?is)" if ws: "length ws = k - 1" "set ws \<subseteq> {main, other}" "\<exists>w \<in> set ws. w \<noteq> main" for ws
  proof -
    have "set ws \<subseteq> {if less then other else main, if less then main else other}" using ws(2) by auto
    from choices_covered[OF ws(1) this] obtain i where i: "i < ?m" "f i = main # ws" by (auto simp: f_def)
    have ws_eq: "ws = rev (map (\<lambda>j. if bit i j then (if less then main else other) else if less then other else main) [0..<k - 1])"
      using i(2) by (simp add: f_def mid_combination_eq)
    have "i \<in> set ?is"
    proof (cases less)
      case True
      have "i \<noteq> ?m - 1"
      proof
        assume "i = ?m - 1"
        then have "i = mask (k - 1)" by (simp only: mask_eq_exp_minus_1)
        then have "bit i j" if "j < k - 1" for j using that by (simp only: bit_mask_iff) simp
        then have "set ws \<subseteq> {main}" unfolding ws_eq using True by auto
        then show False using ws(3) by auto
      qed
      then show ?thesis using i True by simp
    next
      case False
      have "i \<noteq> 0"
      proof
        assume "i = 0"
        then have "set ws \<subseteq> {main}" unfolding ws_eq using False by auto
        then show False using ws(3) by auto
      qed
      then show ?thesis using i False by simp
    qed
    then show ?thesis using i(2) by (metis image_eqI set_map)
  qed
  ultimately show ?thesis by blast
qed

section \<open>Coverage and safety\<close>

text \<open>
  For a main outcome in \<open>A..<B\<close>: all tuples of \<open>k\<close> outcomes that pairwise differ by at most \<open>S\<close> are
  covered, and in a covered tuple every outcome is less than \<open>M\<close> away from the main one, or in
  the same interval.
\<close>

definition covers :: "nat \<Rightarrow> nat \<Rightarrow> nat \<Rightarrow> nat \<Rightarrow> nat \<Rightarrow> nat list list list \<Rightarrow> bool" where
  "covers n k A B S cs \<longleftrightarrow> (\<forall>x0 xs. length xs = k - 1 \<and> A \<le> x0 \<and> x0 < B \<and> (\<forall>v \<in> set xs. v < 2 ^ n) \<and>
     (\<forall>v \<in> set (x0 # xs). \<forall>w \<in> set (x0 # xs). v \<le> w + S) \<longrightarrow> (\<exists>c \<in> set cs. list_all2 (inside n) c (x0 # xs)))"

definition safe :: "nat \<Rightarrow> nat \<Rightarrow> nat \<Rightarrow> nat \<Rightarrow> nat \<Rightarrow> nat list list list \<Rightarrow> bool" where
  "safe n k A B M cs \<longleftrightarrow> (\<forall>c \<in> set cs. length c = k \<and> (\<forall>p \<in> set c. prefix_ok 2 n p) \<and>
     (\<forall>x0 xs. list_all2 (inside n) c (x0 # xs) \<longrightarrow> A \<le> x0 \<and> x0 < B \<and>
       (\<forall>v \<in> set xs. (v < x0 + M \<and> x0 < v + M) \<or> (A \<le> v \<and> v < B))))"

lemma safe_append: "safe n k A B M (cs @ ds) \<longleftrightarrow> safe n k A B M cs \<and> safe n k A B M ds"
  unfolding safe_def by (simp only: set_append ball_Un)

lemma choose_prefixes:
  "\<forall>v \<in> set xs. \<exists>w \<in> W. inside n w v \<Longrightarrow> \<exists>ws. length ws = length xs \<and> set ws \<subseteq> W \<and> list_all2 (inside n) ws xs"
proof (induction xs)
  case (Cons v xs)
  then obtain w ws where "w \<in> W" "inside n w v" "length ws = length xs" "set ws \<subseteq> W" "list_all2 (inside n) ws xs" by auto
  then show ?case by (intro exI[of _ "w # ws"]) auto
qed simp

lemma chosen_prefixes: "list_all2 (inside n) ws xs \<Longrightarrow> set ws \<subseteq> W \<Longrightarrow> v \<in> set xs \<Longrightarrow> \<exists>w \<in> W. inside n w v"
  by (fastforce simp: list_all2_conv_all_nth in_set_conv_nth)

lemma choices_good:
  assumes "set cs = {main # ws | ws. length ws = k - 1 \<and> set ws \<subseteq> W}" "0 < k"
    "A = lo 2 n main" "B = hi 2 n main" "\<forall>p \<in> insert main W. prefix_ok 2 n p"
    "\<And>x0 v. A \<le> x0 \<Longrightarrow> x0 < B \<Longrightarrow> v < 2 ^ n \<Longrightarrow> v \<le> x0 + S \<Longrightarrow> x0 \<le> v + S \<Longrightarrow> \<exists>w \<in> W. inside n w v"
    "\<And>x0 v w. A \<le> x0 \<Longrightarrow> x0 < B \<Longrightarrow> w \<in> W \<Longrightarrow> inside n w v \<Longrightarrow> v < x0 + M \<and> x0 < v + M"
  shows "covers n k A B S cs \<and> safe n k A B M cs"
proof
  show "covers n k A B S cs"
    unfolding covers_def
  proof (intro allI impI)
    fix x0 xs assume x: "length xs = k - 1 \<and> A \<le> x0 \<and> x0 < B \<and> (\<forall>v \<in> set xs. v < 2 ^ n) \<and>
      (\<forall>v \<in> set (x0 # xs). \<forall>w \<in> set (x0 # xs). v \<le> w + S)"
    then have "\<forall>v \<in> set xs. \<exists>w \<in> W. inside n w v" using assms(6) by auto
    then obtain ws where "length ws = length xs" "set ws \<subseteq> W" "list_all2 (inside n) ws xs"
      using choose_prefixes by blast
    moreover have "inside n main x0" using x assms(3,4) by (simp add: inside_def)
    ultimately show "\<exists>c \<in> set cs. list_all2 (inside n) c (x0 # xs)"
      unfolding assms(1) using x by (intro bexI[of _ "main # ws"]) auto
  qed
  show "safe n k A B M cs"
    unfolding safe_def
  proof (intro ballI conjI)
    fix c assume "c \<in> set cs"
    then obtain ws where c: "c = main # ws" "length ws = k - 1" "set ws \<subseteq> W" unfolding assms(1) by blast
    then show "length c = k" "\<And>p. p \<in> set c \<Longrightarrow> prefix_ok 2 n p" using assms(2,5) by auto
    show "\<forall>x0 xs. list_all2 (inside n) c (x0 # xs) \<longrightarrow> A \<le> x0 \<and> x0 < B \<and>
        (\<forall>v \<in> set xs. (v < x0 + M \<and> x0 < v + M) \<or> (A \<le> v \<and> v < B))"
    proof (intro allI impI)
      fix x0 xs assume x: "list_all2 (inside n) c (x0 # xs)"
      then have x0: "A \<le> x0" "x0 < B" using c assms(3,4) by (auto simp: inside_def)
      moreover have "v < x0 + M \<and> x0 < v + M" if "v \<in> set xs" for v
        using chosen_prefixes[of n ws xs W v] x c that assms(7)[OF x0] by auto
      ultimately show "A \<le> x0 \<and> x0 < B \<and> (\<forall>v \<in> set xs. (v < x0 + M \<and> x0 < v + M) \<or> (A \<le> v \<and> v < B))" by blast
    qed
  qed
qed

lemma single_choice: "set [main # replicate (k - 1) w] = {main # ws | ws. length ws = k - 1 \<and> set ws \<subseteq> {w}}"
proof -
  have "ws = replicate (k - 1) w" if "set ws \<subseteq> {w}" "length ws = k - 1" for ws using that by (intro replicate_eqI) auto
  then show ?thesis by auto
qed

lemma pow_gap:
  fixes a :: nat
  assumes "q \<le> h" "s \<le> h" "2 ^ q dvd a" "a < 2 ^ s"
  shows "a + 2 ^ q \<le> 2 ^ h"
proof (cases "q \<le> s")
  case True
  then have "(2::nat) ^ q dvd 2 ^ s" by (rule le_imp_power_dvd)
  then obtain t u where t: "a = 2 ^ q * t" "2 ^ s = 2 ^ q * (u :: nat)" using assms(3) by (auto simp: dvd_def)
  then have "t < u" using assms(4) by simp
  then have "2 ^ q * Suc t \<le> 2 ^ q * u" by (intro mult_le_mono2) simp
  then have "a + 2 ^ q \<le> 2 ^ s" using t by simp
  also have "\<dots> \<le> 2 ^ h" using assms(2) by (rule power_increasing) simp
  finally show ?thesis .
next
  case False
  then have "(2::nat) ^ s \<le> 2 ^ q" by (intro power_increasing) auto
  then have "a = 0" using assms(3,4) by (metis dvd_imp_le leD less_le_trans not_gr_zero)
  moreover have "(2::nat) ^ q \<le> 2 ^ h" using assms(1) by (rule power_increasing) simp
  ultimately show ?thesis by simp
qed

lemma or_low: "push_bit e (x::nat) OR (2 ^ e - 1) = push_bit e x + (2 ^ e - 1)"
proof -
  have "push_bit e x + mask e = push_bit e x OR mask e"
    by (rule disjunctive_add) (auto simp: bit_push_bit_iff bit_mask_iff)
  then show ?thesis by (simp only: mask_eq_exp_minus_1)
qed

lemma and_low: "(x::nat) AND (2 ^ e - 1) = x mod 2 ^ e"
  by (metis mask_eq_exp_minus_1 take_bit_eq_mask take_bit_eq_mod)

text \<open>The block that starts at a multiple of its length.\<close>

lemma block_at:
  assumes "i \<le> n" "x < 2 ^ n" "2 ^ i dvd x"
  shows "length (block n i x) = n - i" "prefix_ok 2 n (block n i x)" "inside n (block n i x) v \<longleftrightarrow> x \<le> v \<and> v < x + 2 ^ i"
  using block_props[OF assms(1,2)] assms(3) by (auto simp: inside_def)

text \<open>
  The prefixes for the other oracles, next to the interval of the main one and beyond the border of its block: with maximal
  coverage they are the block of the maximal error and half of its neighbour, otherwise they reach the minimal support.
\<close>

lemma near_right:
  assumes n: "n \<le> 53" "e \<le> n" and L: "2 ^ e dvd L" "L + 2 ^ e \<le> 2 ^ n" and r: "E = L + r" "r + S < 2 ^ e"
  shows "\<exists>P w. (if mx then Some (block n e L) else compute_right_covering_prefix E e S n) = Some P \<and> prefix_ok 2 n P \<and>
    (\<forall>v. inside n P v \<longleftrightarrow> L \<le> v \<and> v < L + w) \<and> r + S < w \<and> w \<le> 2 ^ e"
proof (cases mx)
  case True
  have "L < 2 ^ n" using L(2) r(2) by linarith
  then show ?thesis using True block_at[OF n(2) _ L(1)] r(2) by auto
next
  case False
  have "L + (r + S) < 2 ^ n" using L(2) r(2) by linarith
  moreover from this have "u64_add E S = Some (L + (r + S))"
    using power_increasing[OF n(1), of "2 :: nat"] r(1) by (simp add: u64_add_def add.assoc)
  ultimately show ?thesis using False right_extension[OF n(2,1) _ L(1) r(2)] by (auto simp: compute_right_covering_prefix_def add.assoc)
qed

lemma near_left:
  assumes n: "n \<le> 53" "e \<le> n" and L: "2 ^ e dvd L" "L + 2 ^ e \<le> 2 ^ n" and a: "A = L + a" "a < 2 ^ e" "S \<le> a"
  shows "\<exists>P w. (if mx then Some (block n e L) else compute_left_covering_prefix A e S n) = Some P \<and> prefix_ok 2 n P \<and>
    (\<forall>v. inside n P v \<longleftrightarrow> L + 2 ^ e \<le> v + w \<and> v < L + 2 ^ e) \<and> 2 ^ e + S \<le> a + w \<and> w \<le> 2 ^ e"
proof (cases mx)
  case True
  have "L < 2 ^ n" using L(2) a(2) by linarith
  then show ?thesis using True block_at[OF n(2) _ L(1)] a(3)
    by (intro exI[of _ "block n e L"] exI[of _ "2 ^ e"]) simp
next
  case False
  have r: "L + (a - S) < 2 ^ n" "a - S < 2 ^ e" using L(2) a(2) by linarith+
  obtain P w where P: "extend_covering_prefix 1 (L + (a - S)) e n = Some P" "prefix_ok 2 n P"
    "\<forall>v. inside n P v \<longleftrightarrow> L + 2 ^ e \<le> v + w \<and> v < L + 2 ^ e" "2 ^ e \<le> a - S + w" "w \<le> 2 ^ e"
    using left_extension[OF n(2,1) r(1) L(1) r(2)] by blast
  have "u64_sub A S = Some (L + (a - S))" using a by (simp add: u64_sub_def)
  then have "compute_left_covering_prefix A e S n = Some P" using P(1) by (simp add: compute_left_covering_prefix_def)
  moreover have "2 ^ e + S \<le> a + w" using P(4) a(3) by linarith
  ultimately show ?thesis using False P(2,3,5) by (intro exI[of _ P] exI[of _ w]) simp
qed

lemma far_right:
  assumes n: "n \<le> 53" "e \<le> n" "0 < e" and R: "2 ^ e dvd R" "R + 2 ^ e \<le> 2 ^ n" "rb + 1 = R"
    and r: "E + S = R + r" "r < S" "S \<le> 2 ^ (e - 1)"
  shows "\<exists>P w. (if mx then do { x \<leftarrow> u64_add rb 1; i \<leftarrow> u64_sub e 1; num_to_vec x n i 2 } else compute_right_covering_prefix E e S n) = Some P \<and>
    prefix_ok 2 n P \<and> (\<forall>v. inside n P v \<longleftrightarrow> R \<le> v \<and> v < R + w) \<and> r < w \<and> w \<le> 2 ^ (e - 1)"
proof -
  have half: "(2 :: nat) ^ e = 2 * 2 ^ (e - 1)" using n(3) by (simp add: power_eq_if)
  have small: "(2 :: nat) ^ n \<le> 2 ^ 53" using n(1) by (rule power_increasing) simp
  have lt: "R < 2 ^ n" "R + r < 2 ^ n" "r < 2 ^ e" "r < 2 ^ (e - 1)" using R(2) r half by linarith+
  show ?thesis
  proof (cases mx)
    case True
    have "2 ^ (e - 1) dvd R" using R(1) half by (metis dvd_mult_right)
    note blk = block_at[OF _ lt(1) this]
    have "u64_add rb 1 = Some R" "u64_sub e 1 = Some (e - 1)" using R(3) lt(1) small n(3) by (auto simp: u64_add_def u64_sub_def)
    moreover have "num_to_vec R n (e - 1) 2 = Some (block n (e - 1) R)" using n lt(1) by (intro num_to_vec_block) auto
    ultimately show ?thesis using True blk n(2) lt(4)
      by (intro exI[of _ "block n (e - 1) R"] exI[of _ "2 ^ (e - 1)"]) (simp del: One_nat_def)
  next
    case False
    have "u64_add E S = Some (R + r)" using r(1) lt(2) small by (simp add: u64_add_def)
    moreover obtain P w where "extend_covering_prefix 0 (R + r) e n = Some P" "prefix_ok 2 n P"
      "\<forall>v. inside n P v \<longleftrightarrow> R \<le> v \<and> v < R + w" "r < w" "\<forall>i \<le> e. r < 2 ^ i \<longrightarrow> w \<le> 2 ^ i"
      using right_extension[OF n(2,1) lt(2) R(1) lt(3)] by blast
    moreover from this(5) lt(4) have "w \<le> 2 ^ (e - 1)" by simp
    ultimately show ?thesis using False by (simp add: compute_right_covering_prefix_def) blast
  qed
qed

lemma far_left:
  assumes n: "n \<le> 53" "e \<le> n" "0 < e" and L: "2 ^ e dvd L" "L < 2 ^ n" "2 ^ e \<le> L"
    and a: "A = L + a" "a < S" "S \<le> 2 ^ (e - 1)"
  shows "\<exists>P w. (if mx then do { x \<leftarrow> u64_sub L (2 ^ (e - 1)); i \<leftarrow> u64_sub e 1; num_to_vec x n i 2 }
      else compute_left_covering_prefix A e S n) = Some P \<and>
    prefix_ok 2 n P \<and> (\<forall>v. inside n P v \<longleftrightarrow> L \<le> v + w \<and> v < L) \<and> S \<le> a + w \<and> w \<le> 2 ^ (e - 1)"
proof -
  have half: "(2 :: nat) ^ e = 2 * 2 ^ (e - 1)" using n(3) by (simp add: power_eq_if)
  show ?thesis
  proof (cases mx)
    case True
    let ?H = "2 ^ (e - 1) :: nat"
    have "?H dvd L" using L(1) half by (metis dvd_mult_right)
    then have dv: "?H dvd L - ?H" by (simp add: dvd_diff_nat)
    have lt: "L - ?H < 2 ^ n" "?H \<le> L" using L half by linarith+
    note blk = block_at[OF _ lt(1) dv]
    have "num_to_vec (L - ?H) n (e - 1) 2 = Some (block n (e - 1) (L - ?H))" using n lt(1) by (intro num_to_vec_block) auto
    moreover have "u64_sub L ?H = Some (L - ?H)" "u64_sub e 1 = Some (e - 1)" using lt(2) n(3) by (auto simp: u64_sub_def)
    moreover have "inside n (block n (e - 1) (L - ?H)) v \<longleftrightarrow> L \<le> v + ?H \<and> v < L" for v using blk(3)[of v] n(2) lt(2) by auto
    ultimately show ?thesis using True blk(2) n(2) a(3)
      by (intro exI[of _ "block n (e - 1) (L - ?H)"] exI[of _ ?H]) (simp del: One_nat_def)
  next
    case False
    let ?c = "L - 2 ^ e" and ?r = "2 ^ e + a - S"
    have c: "?c + 2 ^ e = L" "2 ^ e dvd ?c" using L(1,3) by simp_all
    have r: "?r < 2 ^ e" "?c + ?r < 2 ^ n" "?c + ?r = A - S" "S \<le> A" using a L half by linarith+
    obtain P w where P: "extend_covering_prefix 1 (?c + ?r) e n = Some P" "prefix_ok 2 n P"
      "\<forall>v. inside n P v \<longleftrightarrow> ?c + 2 ^ e \<le> v + w \<and> v < ?c + 2 ^ e" "2 ^ e \<le> ?r + w" "\<forall>i \<le> e. 2 ^ e \<le> ?r + 2 ^ i \<longrightarrow> w \<le> 2 ^ i"
      using left_extension[OF n(2,1) r(2) c(2) r(1)] by blast
    have "2 ^ e \<le> ?r + 2 ^ (e - 1)" "S \<le> a + w" using a half P(4) by linarith+
    then have "w \<le> 2 ^ (e - 1)" "S \<le> a + w" using P(5) by simp_all
    moreover have "compute_left_covering_prefix A e S n = Some P" using P(1) r(3,4)
      by (simp add: compute_left_covering_prefix_def u64_sub_def)
    ultimately show ?thesis using False P(2,3) unfolding c(1) by (intro exI[of _ P] exI[of _ w]) simp
  qed
qed

lemma small_cover:
  assumes main: "prefix_ok 2 n main" and n: "n \<le> 53" "e \<le> n" "s < e" and k: "2 \<le> k" "k \<le> 31"
    and q: "n - length main < e"
  defines "A \<equiv> lo 2 n main" and "B \<equiv> hi 2 n main"
  shows "\<exists>cs. small_interval_combinations (replicate k n) main n (2 ^ n - 1) (n - length main) A (B - 1) e (2 ^ e) (2 ^ s) mx
      = Some cs \<and> covers n k A B (2 ^ s) cs \<and> safe n k A B (2 ^ e) cs"
proof -
  define M H S Q where "M = (2::nat) ^ e" and "H = (2::nat) ^ (e - 1)" and "S = (2::nat) ^ s"
    and "Q = (2::nat) ^ (n - length main)"
  define a L where "a = A mod M" and "L = A div M * M"
  have len: "length main \<le> n" using main by (simp add: prefix_ok_def)
  have MH: "M = 2 * H" using n(3) by (simp add: M_def H_def power_eq_if)
  have SH: "S \<le> H" unfolding S_def H_def using n(3) by (intro power_increasing) auto
  have QH: "Q \<le> H" unfolding Q_def H_def using q by (intro power_increasing) auto
  have pos: "0 < S" "0 < Q" "0 < H" by (simp_all add: S_def Q_def H_def)
  have AL: "A = L + a" "a < M" using pos MH div_mult_mod_eq[of A M] by (simp_all add: a_def L_def)
  have AB: "B = A + Q" by (simp add: A_def B_def Q_def lo_def hi_def)
  have B2: "B \<le> 2 ^ n" unfolding B_def using main by (rule hi_le)
  have "Q dvd M" unfolding Q_def M_def using q by (intro le_imp_power_dvd) auto
  moreover have "Q dvd A" by (simp add: A_def Q_def lo_def)
  ultimately have Qa: "Q dvd a" unfolding a_def by (simp add: dvd_mod_iff)
  then have "Q dvd M - a" using \<open>Q dvd M\<close> by (rule dvd_diff_nat[rotated])
  then have aQ: "a + Q \<le> M" using AL(2) dvd_imp_le[of Q "M - a"] by simp
  have dvL: "M dvd L" by (simp add: L_def)
  have Mn: "M dvd 2 ^ n" unfolding M_def using n(2) by (rule le_imp_power_dvd)
  have LB: "L < 2 ^ n" using AL AB B2 pos by simp
  have LM: "L + M \<le> 2 ^ n"
    using dvd_imp_le[of M "2 ^ n - L"] dvL Mn LB by (simp add: dvd_diff_nat)
  let ?E = "block n e L"
  note E = block_at[OF n(2) LB, unfolded M_def[symmetric], OF dvL]
  have numE: "num_to_vec L n e 2 = Some ?E" using n LB by (intro num_to_vec_block) auto
  have left: "push_bit e (drop_bit e A) = L" by (simp add: L_def M_def push_bit_eq_mult drop_bit_eq_div)
  have right: "L OR (M - 1) = L + (M - 1)" using or_low[of e "drop_bit e A"] by (simp only: left M_def)
  have suf: "A AND (M - 1) = a" by (simp only: M_def and_low a_def)
  have shorter: "length P \<le> length main" if "prefix_ok 2 n P" "inside n P A" "inside n P (B - 1)" for P
  proof (rule ccontr)
    assume "\<not> length P \<le> length main"
    then have "(2 :: nat) ^ (n - length P) < 2 ^ (n - length main)"
      using that(1) by (intro power_strict_increasing) (auto simp: prefix_ok_def)
    moreover have "hi 2 n P = lo 2 n P + 2 ^ (n - length P)" by (simp add: hi_def lo_def)
    ultimately show False using that(2,3) AB pos unfolding inside_def Q_def by linarith
  qed
  have single: "single_covering_prefix_combinations main P (replicate k n) (n - length main) = Some (main # replicate (k - 1) P)"
    if "prefix_ok 2 n P" "inside n P A" "inside n P (B - 1)" for P
    using single_same[OF len shorter[OF that] n(1)] k by simp
  have double: "\<exists>cs. double_covering_prefix_combinations main P F (replicate k n) (n - length main) = Some cs \<and>
      set cs = {main # ws | ws. length ws = k - 1 \<and> set ws \<subseteq> {P, F}}" if "prefix_ok 2 n P" "prefix_ok 2 n F" for P F
    using double_same[OF len _ _ n(1) _ k(2), of P F] k that by (simp add: prefix_ok_def)
  have fin: ?thesis if "small_interval_combinations (replicate k n) main n (2 ^ n - 1) (n - length main) A (B - 1) e M S mx = Some cs"
    "covers n k A B S cs \<and> safe n k A B M cs" for cs
    using that by (auto simp: M_def S_def)
  note defs = small_interval_combinations_def suf left right numE Let_def
  have k0: "0 < k" and AB0: "A = lo 2 n main" "B = hi 2 n main" using k by (simp_all add: A_def B_def)
  have gap: "x + Q \<le> H" if "Q dvd x" "x < S" for x
    using pow_gap[of "n - length main" "e - 1" s x] that q n(3) by (auto simp: Q_def H_def S_def)
  have half: "drop_bit 1 M = H" by (simp add: drop_bit_eq_div MH)
  have gap_up: "H \<le> a" if "M - (a + Q) < S"
  proof -
    have "Q dvd M - (a + Q)" using Qa \<open>Q dvd M\<close> by (simp add: dvd_diff_nat)
    then have "M - (a + Q) + Q \<le> H" using gap that by blast
    then show ?thesis using aQ MH by linarith
  qed
  have e0: "0 < e" using n(3) by simp
  consider (mid) "S \<le> a" "B - 1 \<le> L + (M - 1) - S" | (low) "a < S" | (high) "S \<le> a" "L + (M - 1) - S < B - 1" by linarith
  then show ?thesis
  proof cases
    case mid
    have SR: "S \<le> L + (M - 1)" and top: "B - 1 + S < L + M" using mid AL AB pos by linarith+
    have blocks: "v div M = L div M \<longleftrightarrow> L \<le> v \<and> v < L + M" for v
      using E(3)[of v] inside_block[OF n(2) LB, of v] by (simp add: M_def)
    have "\<exists>P. (if mx then Some ?E else compute_min_support_covering_prefix A (B - 1) S n) = Some P \<and> prefix_ok 2 n P \<and>
        (\<forall>v. A - S \<le> v \<and> v \<le> B - 1 + S \<longrightarrow> inside n P v) \<and> (\<forall>v. inside n P v \<longrightarrow> L \<le> v \<and> v < L + M)"
    proof (cases mx)
      case True
      moreover have "inside n ?E v" if "A - S \<le> v" "v \<le> B - 1 + S" for v
        unfolding E(3) using that mid(1) AL(1) top by linarith
      ultimately show ?thesis using E(2) by (intro exI[of _ ?E]) (simp add: E(3))
    next
      case False
      have "A - S \<le> B - 1 + S" "B - 1 + S < 2 ^ n" "S \<le> A" using AB pos top LM mid AL by linarith+
      moreover have in1: "L \<le> A - S" "A - S < L + M" "L \<le> B - 1 + S" "B - 1 + S < L + M" using top mid(1) AL AB pos by linarith+
      then have "(A - S) div M = L div M" "(B - 1 + S) div M = L div M" by (simp_all add: blocks)
      then have "(A - S) div M = (B - 1 + S) div M" by simp
      ultimately obtain P where P: "compute_min_support_covering_prefix A (B - 1) S n = Some P" "prefix_ok 2 n P"
        "\<forall>v. A - S \<le> v \<and> v \<le> B - 1 + S \<longrightarrow> inside n P v" "\<forall>v. inside n P v \<longrightarrow> v div M = (A - S) div M"
        using support_prefix[OF n(2,1) _ _ _ _ refl refl] unfolding M_def by blast
      have "\<forall>v. inside n P v \<longrightarrow> L \<le> v \<and> v < L + M" using P(4) blocks \<open>(A - S) div M = L div M\<close> by simp
      then show ?thesis using False P(1-3) by auto
    qed
    then obtain P where P: "(if mx then Some ?E else compute_min_support_covering_prefix A (B - 1) S n) = Some P" "prefix_ok 2 n P"
      "\<And>v. A - S \<le> v \<Longrightarrow> v \<le> B - 1 + S \<Longrightarrow> inside n P v" "\<And>v. inside n P v \<Longrightarrow> L \<le> v \<and> v < L + M" by blast
    have one: "inside n P A" "inside n P (B - 1)" using P(3)[of A] P(3)[of "B - 1"] AB pos by linarith+
    have "covers n k A B S [main # replicate (k - 1) P] \<and> safe n k A B M [main # replicate (k - 1) P]"
    proof (rule choices_good[OF single_choice k0 AB0])
      show "\<forall>p \<in> insert main {P}. prefix_ok 2 n p" using main P(2) by simp
      show "\<exists>w \<in> {P}. inside n w v" if "A \<le> x0" "x0 < B" "v < 2 ^ n" "v \<le> x0 + S" "x0 \<le> v + S" for x0 v
        using that P(3)[of v] by simp
      show "v < x0 + M \<and> x0 < v + M" if "A \<le> x0" "x0 < B" "w \<in> {P}" "inside n w v" for x0 v w
        using that P(4)[of v] AL AB aQ by simp
    qed
    then show ?thesis using mid SR P(1) single[OF P(2) one] by (intro fin) (simp_all add: defs del: One_nat_def)
  next
    case low
    have aH: "a + Q \<le> H" using gap Qa low by blast
    have "B - 1 = L + (a + Q - 1)" "a + Q - 1 + S < 2 ^ e" using AB AL aH SH pos MH by (simp_all add: M_def[symmetric])
    then obtain P w where P: "(if mx then Some ?E else compute_right_covering_prefix (B - 1) e S n) = Some P" "prefix_ok 2 n P"
      "\<And>v. inside n P v \<longleftrightarrow> L \<le> v \<and> v < L + w" "a + Q - 1 + S < w" "w \<le> M"
      using near_right[OF n(1,2) dvL[unfolded M_def] LM[unfolded M_def]] unfolding M_def by metis
    have one: "inside n P A" "inside n P (B - 1)" unfolding P(3) using P(4) AL AB pos by linarith+
    show ?thesis
    proof (cases "L = 0")
      case True
      have "covers n k A B S [main # replicate (k - 1) P] \<and> safe n k A B M [main # replicate (k - 1) P]"
      proof (rule choices_good[OF single_choice k0 AB0])
        show "\<forall>p \<in> insert main {P}. prefix_ok 2 n p" using main P(2) by simp
        show "\<exists>w \<in> {P}. inside n w v" if "A \<le> x0" "x0 < B" "v < 2 ^ n" "v \<le> x0 + S" "x0 \<le> v + S" for x0 v
        proof -
          have "inside n P v" unfolding P(3) using that P(4) AL AB True by linarith
          then show ?thesis by simp
        qed
        show "v < x0 + M \<and> x0 < v + M" if x: "A \<le> x0" "x0 < B" "w' \<in> {P}" "inside n w' v" for x0 v w'
        proof -
          have "inside n P v" using x by simp
          then show ?thesis unfolding P(3) using x(1,2) P(5) aH AL AB MH True by linarith
        qed
      qed
      then show ?thesis using low True P(1)[unfolded True] numE[unfolded True] single[OF P(2) one]
        by (intro fin) (simp_all add: defs del: One_nat_def)
    next
      case False
      then have HL: "M \<le> L" using dvL by (simp add: dvd_imp_le)
      obtain F u where F: "(if mx then do { x \<leftarrow> u64_sub L H; i \<leftarrow> u64_sub e 1; num_to_vec x n i 2 } else compute_left_covering_prefix A e S n) = Some F"
        "prefix_ok 2 n F" "\<And>v. inside n F v \<longleftrightarrow> L \<le> v + u \<and> v < L" "S \<le> a + u" "u \<le> H"
        using far_left[OF n(1,2) e0 dvL[unfolded M_def] LB HL[unfolded M_def] AL(1) low SH[unfolded H_def]] unfolding H_def by metis
      obtain cs where cs: "double_covering_prefix_combinations main P F (replicate k n) (n - length main) = Some cs"
        "set cs = {main # ws | ws. length ws = k - 1 \<and> set ws \<subseteq> {P, F}}" using double[OF P(2) F(2)] by blast
      have "covers n k A B S cs \<and> safe n k A B M cs"
      proof (rule choices_good[OF cs(2) k0 AB0])
        show "\<forall>p \<in> insert main {P, F}. prefix_ok 2 n p" using main P(2) F(2) by simp
        show "\<exists>w \<in> {P, F}. inside n w v" if "A \<le> x0" "x0 < B" "v < 2 ^ n" "v \<le> x0 + S" "x0 \<le> v + S" for x0 v
        proof (cases "v < L")
          case True
          have "inside n F v" unfolding F(3) using True that F(4) AL by linarith
          then show ?thesis by simp
        next
          case False
          have "inside n P v" unfolding P(3) using False that P(4) AL AB by linarith
          then show ?thesis by simp
        qed
        show "v < x0 + M \<and> x0 < v + M" if x: "A \<le> x0" "x0 < B" "w' \<in> {P, F}" "inside n w' v" for x0 v w'
        proof -
          have "inside n P v \<or> inside n F v" using x(3,4) by auto
          then show ?thesis unfolding P(3) F(3) using x(1,2) aH AL AB MH P(5) F(5) by linarith
        qed
      qed
      then show ?thesis using low False P(1) F(1) cs(1)
        by (intro fin) (cases mx; auto simp: defs half bind_eq_Some_conv simp del: One_nat_def)+
    qed
  next
    case high
    have gH: "H \<le> a" using high AL AB aQ pos by (intro gap_up) linarith
    have SR: "S \<le> L + (M - 1)" and over: "L + M \<le> B - 1 + S" using high AL pos by linarith+
    obtain P w where P: "(if mx then Some ?E else compute_left_covering_prefix A e S n) = Some P" "prefix_ok 2 n P"
      "\<And>v. inside n P v \<longleftrightarrow> L + M \<le> v + w \<and> v < L + M" "M + S \<le> a + w" "w \<le> M"
      using near_left[OF n(1,2) dvL[unfolded M_def] LM[unfolded M_def] AL(1) AL(2)[unfolded M_def] high(1)] unfolding M_def by metis
    have one: "inside n P A" "inside n P (B - 1)" unfolding P(3) using P(4) AL AB aQ pos by linarith+
    show ?thesis
    proof (cases "L + (M - 1) = 2 ^ n - 1")
      case True
      then have top: "L + M = 2 ^ n" using LM pos MH by linarith
      have "covers n k A B S [main # replicate (k - 1) P] \<and> safe n k A B M [main # replicate (k - 1) P]"
      proof (rule choices_good[OF single_choice k0 AB0])
        show "\<forall>p \<in> insert main {P}. prefix_ok 2 n p" using main P(2) by simp
        show "\<exists>w \<in> {P}. inside n w v" if "A \<le> x0" "x0 < B" "v < 2 ^ n" "v \<le> x0 + S" "x0 \<le> v + S" for x0 v
        proof -
          have "inside n P v" unfolding P(3) using that P(4) top AL by linarith
          then show ?thesis by simp
        qed
        show "v < x0 + M \<and> x0 < v + M" if "A \<le> x0" "x0 < B" "w' \<in> {P}" "inside n w' v" for x0 v w'
        proof -
          have "inside n P v" using that by simp
          then show ?thesis unfolding P(3) using that(1,2) P(5) gH aQ AL AB MH by linarith
        qed
      qed
      then show ?thesis using high SR True P(1) single[OF P(2) one] by (intro fin) (simp_all add: defs del: One_nat_def)
    next
      case False
      then have lt: "L + M < 2 ^ n" using LM pos MH by linarith
      have dvR: "M dvd L + M" using dvL by simp
      then have c1: "L + M + M \<le> 2 ^ n" using dvd_imp_le[of M "2 ^ n - (L + M)"] Mn lt by (simp add: dvd_diff_nat)
      have c2: "L + (M - 1) + 1 = L + M" and c3: "B - 1 + S = L + M + (B - 1 + S - (L + M))" and c4: "B - 1 + S - (L + M) < S"
        using pos MH over AB AL aQ by linarith+
      obtain F u where F: "(if mx then do { x \<leftarrow> u64_add (L + (M - 1)) 1; i \<leftarrow> u64_sub e 1; num_to_vec x n i 2 }
            else compute_right_covering_prefix (B - 1) e S n) = Some F"
        "prefix_ok 2 n F" "\<And>v. inside n F v \<longleftrightarrow> L + M \<le> v \<and> v < L + M + u" "B - 1 + S - (L + M) < u" "u \<le> H"
        using far_right[OF n(1,2) e0, folded M_def H_def, OF dvR c1 c2 c3 c4 SH, of mx] by blast
      obtain cs where cs: "double_covering_prefix_combinations main P F (replicate k n) (n - length main) = Some cs"
        "set cs = {main # ws | ws. length ws = k - 1 \<and> set ws \<subseteq> {P, F}}" using double[OF P(2) F(2)] by blast
      have "covers n k A B S cs \<and> safe n k A B M cs"
      proof (rule choices_good[OF cs(2) k0 AB0])
        show "\<forall>p \<in> insert main {P, F}. prefix_ok 2 n p" using main P(2) F(2) by simp
        show "\<exists>w \<in> {P, F}. inside n w v" if "A \<le> x0" "x0 < B" "v < 2 ^ n" "v \<le> x0 + S" "x0 \<le> v + S" for x0 v
        proof (cases "v < L + M")
          case True
          have "inside n P v" unfolding P(3) using True that P(4) AL by linarith
          then show ?thesis by simp
        next
          case False
          have "inside n F v" unfolding F(3) using False that F(4) AL AB over by linarith
          then show ?thesis by simp
        qed
        show "v < x0 + M \<and> x0 < v + M" if x: "A \<le> x0" "x0 < B" "w' \<in> {P, F}" "inside n w' v" for x0 v w'
        proof -
          have "inside n P v \<or> inside n F v" using x(3,4) by auto
          then show ?thesis unfolding P(3) F(3) using x(1,2) gH aQ AL AB MH P(5) F(5) by linarith
        qed
      qed
      then show ?thesis using high SR False P(1) F(1) cs(1)
        by (intro fin) (cases mx; auto simp: defs half bind_eq_Some_conv simp del: One_nat_def)+
    qed
  qed
qed

text \<open>The combinations at one end of a longer interval: the main outcome in the block next to the end,
  at least one other outcome in the block beyond it.\<close>

lemma side_combinations:
  assumes main: "prefix_ok 2 n p" "prefix_ok 2 n p'" "n \<le> 53" and k: "0 < k" "k \<le> 31"
    and inside: "\<And>v. inside n p v \<longleftrightarrow> C \<le> v \<and> v < C + H" "\<And>v. inside n p' v \<longleftrightarrow> D \<le> v \<and> v < D + H"
    and near: "C = D + H \<or> D = C + H" and AB: "A \<le> C" "C + H \<le> B" and M: "2 * H \<le> M" "0 < H"
    and sl: "l = n - length p"
  shows "\<exists>cs. double_covering_restricted_prefix_combinations p p' (replicate k n) l = Some cs \<and> safe n k A B M cs \<and>
    (\<forall>x0 xs. length xs = k - 1 \<and> C \<le> x0 \<and> x0 < C + H \<and> (\<forall>v \<in> set xs. inside n p v \<or> inside n p' v) \<and>
       (\<exists>v \<in> set xs. \<not> inside n p v) \<longrightarrow> (\<exists>c \<in> set cs. list_all2 (inside n) c (x0 # xs)))"
proof -
  have len: "length p \<le> n" "length p' \<le> n" using main by (simp_all add: prefix_ok_def)
  obtain cs where cs: "double_covering_restricted_prefix_combinations p p' (replicate k n) l = Some cs"
    "\<And>c. c \<in> set cs \<Longrightarrow> \<exists>ws. c = p # ws \<and> length ws = k - 1 \<and> set ws \<subseteq> {p, p'}"
    "\<And>ws. length ws = k - 1 \<and> set ws \<subseteq> {p, p'} \<and> (\<exists>w \<in> set ws. w \<noteq> p) \<Longrightarrow> p # ws \<in> set cs"
    using double_restricted_same[OF len main(3) k] unfolding sl by blast
  have "safe n k A B M cs"
    unfolding safe_def
  proof (intro ballI conjI allI impI)
    fix c assume "c \<in> set cs"
    then obtain ws where c: "c = p # ws" "length ws = k - 1" "set ws \<subseteq> {p, p'}" using cs(2) by blast
    show "length c = k" using c k by simp
    show "prefix_ok 2 n w" if "w \<in> set c" for w using that c main by auto
    fix x0 xs assume x: "list_all2 (inside n) c (x0 # xs)"
    then have x0: "C \<le> x0" "x0 < C + H" using c inside by auto
    then show "A \<le> x0" "x0 < B" using AB by auto
    fix v assume "v \<in> set xs"
    then have "inside n p v \<or> inside n p' v" using chosen_prefixes[of n ws xs "{p, p'}" v] x c by auto
    then have "C \<le> v \<and> v < C + H \<or> D \<le> v \<and> v < D + H" by (simp only: inside)
    then have "v < x0 + M" "x0 < v + M" using near x0 M by linarith+
    then show "v < x0 + M \<and> x0 < v + M \<or> A \<le> v \<and> v < B" by blast
  qed
  moreover have "\<exists>c \<in> set cs. list_all2 (inside n) c (x0 # xs)"
    if x: "length xs = k - 1 \<and> C \<le> x0 \<and> x0 < C + H \<and> (\<forall>v \<in> set xs. inside n p v \<or> inside n p' v) \<and>
      (\<exists>v \<in> set xs. \<not> inside n p v)" for x0 xs
  proof -
    obtain ws where ws: "length ws = length xs" "set ws \<subseteq> {p, p'}" "list_all2 (inside n) ws xs"
      using choose_prefixes[of xs "{p, p'}" n] x by auto
    obtain v where v: "v \<in> set xs" "\<not> inside n p v" using x by blast
    have "set ws \<subseteq> {p} \<Longrightarrow> inside n p v" using chosen_prefixes[OF ws(3) _ v(1), of "{p}"] by auto
    then have "\<exists>w \<in> set ws. w \<noteq> p" using v(2) by auto
    then have "p # ws \<in> set cs" using ws x by (intro cs(3)) auto
    then show ?thesis using ws(3) x inside(1) by (intro bexI[of _ "p # ws"]) auto
  qed
  ultimately show ?thesis using cs(1) by blast
qed

lemma large_cover:
  assumes main: "prefix_ok 2 n main" and n: "n \<le> 53" "s < e" and k: "2 \<le> k" "k \<le> 31"
    and q: "e \<le> n - length main"
  defines "A \<equiv> lo 2 n main" and "B \<equiv> hi 2 n main"
  shows "\<exists>cs. large_interval_combinations (replicate k n) main n (2 ^ n - 1) (n - length main) A (B - 1) e
      (drop_bit 1 (2 ^ e)) s (2 ^ s) mx = Some cs \<and> covers n k A B (2 ^ s) cs \<and> safe n k A B (2 ^ e) cs"
proof -
  define j where "j = (if mx then e - 1 else s)"
  define M H S Q where "M = (2::nat) ^ e" and "H = (2::nat) ^ j" and "S = (2::nat) ^ s"
    and "Q = (2::nat) ^ (n - length main)"
  have len: "length main \<le> n" and e1: "j \<le> n" using main q n(2) by (auto simp: prefix_ok_def j_def)
  have je: "Suc j \<le> e" using n(2) by (simp add: j_def)
  then have MH: "2 * H \<le> M" unfolding M_def H_def power_Suc[symmetric] by (rule power_increasing) simp
  have "M = 2 * 2 ^ (e - 1)" using n(2) by (simp add: M_def power_eq_if)
  then have width: "(if mx then drop_bit 1 M else S) = H" by (simp add: drop_bit_eq_div j_def H_def S_def)
  have ignored: "(if mx then u64_sub e 1 else Some s) = Some j" using n(2) by (simp add: j_def)
  have SH: "S \<le> H" unfolding S_def H_def using n(2) by (intro power_increasing) (auto simp: j_def)
  have MQ: "M dvd Q" unfolding Q_def M_def using q by (rule le_imp_power_dvd)
  have pos: "0 < S" "0 < Q" "0 < H" by (simp_all add: S_def Q_def H_def)
  have MQle: "M \<le> Q" using MQ pos(2) by (rule dvd_imp_le)
  have AB: "B = A + Q" by (simp add: A_def B_def Q_def lo_def hi_def)
  have B2: "B \<le> 2 ^ n" unfolding B_def using main by (rule hi_le)
  have "H dvd M" unfolding H_def M_def using je by (intro le_imp_power_dvd) simp
  then have HQ: "H dvd Q" using MQ by (rule dvd_trans)
  then have HA: "H dvd A" by (simp add: A_def Q_def[symmetric] lo_def)
  have HB: "H dvd B" unfolding AB using HA HQ by simp
  have small: "(2::nat) ^ n \<le> 2 ^ 53" using n(1) by (rule power_increasing) simp
  have num: "num_to_vec x n j 2 = Some (block n j x)" if "x < 2 ^ n" for x
    using num_to_vec_block[OF e1 n(1) that] .
  have blk: "length (block n j x) = n - j" "prefix_ok 2 n (block n j x)"
    "inside n (block n j x) v \<longleftrightarrow> x \<le> v \<and> v < x + H" if "x < 2 ^ n" "H dvd x" for x v
    using block_at[OF e1, of x] that by (simp_all add: H_def)
  have sl: "j = n - length (block n j x)" if "x < 2 ^ n" "H dvd x" for x using blk(1)[OF that] e1 by simp
  have k0: "0 < k" using k by simp
  have lefts: "\<exists>ls. (if A = 0 then Some [] else do {
      r \<leftarrow> num_to_vec A n j 2; x \<leftarrow> u64_sub A H; l \<leftarrow> num_to_vec x n j 2; u \<leftarrow> u64_sub n (length r);
      double_covering_restricted_prefix_combinations r l (replicate k n) u }) = Some ls \<and> safe n k A B M ls \<and>
      (\<forall>x0 xs. length xs = k - 1 \<and> A \<le> x0 \<and> x0 < A + H \<and> (\<forall>v \<in> set xs. A \<le> v + H \<and> v < A + H) \<and>
       (\<exists>v \<in> set xs. v < A) \<longrightarrow> (\<exists>c \<in> set ls. list_all2 (inside n) c (x0 # xs)))"
  proof (cases "A = 0")
    case False
    then have HA': "H \<le> A" using HA by (simp add: dvd_imp_le)
    have a: "A < 2 ^ n" "A - H < 2 ^ n" "H dvd A - H" using AB B2 pos HA by auto
    note sc = side_combinations[OF blk(2)[OF a(1) HA] blk(2)[OF a(2,3)] n(1) k0 k(2) blk(3)[OF a(1) HA] blk(3)[OF a(2,3)],
        of A B M "j"]
    have run: "(if A = 0 then Some [] else do {
      r \<leftarrow> num_to_vec A n j 2; x \<leftarrow> u64_sub A H; l \<leftarrow> num_to_vec x n j 2; u \<leftarrow> u64_sub n (length r);
      double_covering_restricted_prefix_combinations r l (replicate k n) u }) =
      double_covering_restricted_prefix_combinations (block n j A) (block n j (A - H)) (replicate k n) j"
      using False n(2) num[OF a(1)] num[OF a(2)] HA' blk(1)[OF a(1) HA] e1 by (simp del: One_nat_def)
    obtain ls where ls: "double_covering_restricted_prefix_combinations (block n j A) (block n j (A - H)) (replicate k n) j = Some ls"
      "safe n k A B M ls" and cov: "\<And>x0 xs. length xs = k - 1 \<and> A \<le> x0 \<and> x0 < A + H \<and>
         (\<forall>v \<in> set xs. inside n (block n j A) v \<or> inside n (block n j (A - H)) v) \<and>
         (\<exists>v \<in> set xs. \<not> inside n (block n j A) v) \<Longrightarrow> \<exists>c \<in> set ls. list_all2 (inside n) c (x0 # xs)"
      using sc[OF _ _ _ MH pos(3) sl[OF a(1) HA]] HA' AB MQle MH pos by auto
    have "\<exists>c \<in> set ls. list_all2 (inside n) c (x0 # xs)"
      if "length xs = k - 1 \<and> A \<le> x0 \<and> x0 < A + H \<and> (\<forall>v \<in> set xs. A \<le> v + H \<and> v < A + H) \<and> (\<exists>v \<in> set xs. v < A)" for x0 xs
    proof (rule cov)
      have "inside n (block n j A) v \<or> inside n (block n j (A - H)) v" if "A \<le> v + H" "v < A + H" for v
        using that HA' unfolding blk(3)[OF a(1) HA] blk(3)[OF a(2,3)] by linarith
      moreover have "\<not> inside n (block n j A) v" if "v < A" for v
        using that unfolding blk(3)[OF a(1) HA] by linarith
      ultimately show "length xs = k - 1 \<and> A \<le> x0 \<and> x0 < A + H \<and>
         (\<forall>v \<in> set xs. inside n (block n j A) v \<or> inside n (block n j (A - H)) v) \<and>
         (\<exists>v \<in> set xs. \<not> inside n (block n j A) v)" using that by blast
    qed
    then show ?thesis unfolding run using ls by blast
  qed (simp add: safe_def)
  have rights: "\<exists>rs. (if B - 1 = 2 ^ n - 1 then Some [] else do {
      x \<leftarrow> u64_sub (B - 1) H; r \<leftarrow> num_to_vec (x + 1) n j 2; y \<leftarrow> u64_add (B - 1) 1;
      l \<leftarrow> num_to_vec y n j 2; u \<leftarrow> u64_sub n (length r);
      double_covering_restricted_prefix_combinations r l (replicate k n) u }) = Some rs \<and> safe n k A B M rs \<and>
      (\<forall>x0 xs. length xs = k - 1 \<and> B \<le> x0 + H \<and> x0 < B \<and> (\<forall>v \<in> set xs. B \<le> v + H \<and> v < B + H) \<and>
       (\<exists>v \<in> set xs. B \<le> v \<and> v < 2 ^ n) \<longrightarrow> (\<exists>c \<in> set rs. list_all2 (inside n) c (x0 # xs)))"
  proof (cases "B - 1 = 2 ^ n - 1")
    case True
    have "0 < B" using AB pos by simp
    then have "B = 2 ^ n" using True B2 by linarith
    then show ?thesis using True by (auto simp: safe_def)
  next
    case False
    then have a: "B < 2 ^ n" "B - H < 2 ^ n" "H dvd B - H" using B2 HB by auto
    have HB': "H \<le> B" "H < B" "A \<le> B - H" using AB MQle MH pos by auto
    note sc = side_combinations[OF blk(2)[OF a(2,3)] blk(2)[OF a(1) HB] n(1) k0 k(2) blk(3)[OF a(2,3)] blk(3)[OF a(1) HB],
        of A B M "j"]
    have "u64_sub (B - 1) H = Some (B - 1 - H)" "B - 1 - H + 1 = B - H" using HB' by auto
    moreover have "u64_add (B - 1) 1 = Some B"
    proof -
      have "B < u64_bound" using a(1) small by simp
      then show ?thesis using HB' by (simp add: u64_add_def)
    qed
    ultimately have run: "(if B - 1 = 2 ^ n - 1 then Some [] else do {
      x \<leftarrow> u64_sub (B - 1) H; r \<leftarrow> num_to_vec (x + 1) n j 2; y \<leftarrow> u64_add (B - 1) 1;
      l \<leftarrow> num_to_vec y n j 2; u \<leftarrow> u64_sub n (length r);
      double_covering_restricted_prefix_combinations r l (replicate k n) u }) =
      double_covering_restricted_prefix_combinations (block n j (B - H)) (block n j B) (replicate k n) j"
      using False n(2) num[OF a(1)] num[OF a(2)] blk(1)[OF a(2,3)] e1 by (simp del: One_nat_def)
    obtain rs where rs: "double_covering_restricted_prefix_combinations (block n j (B - H)) (block n j B) (replicate k n) j = Some rs"
      "safe n k A B M rs" and cov: "\<And>x0 xs. length xs = k - 1 \<and> B - H \<le> x0 \<and> x0 < B - H + H \<and>
         (\<forall>v \<in> set xs. inside n (block n j (B - H)) v \<or> inside n (block n j B) v) \<and>
         (\<exists>v \<in> set xs. \<not> inside n (block n j (B - H)) v) \<Longrightarrow> \<exists>c \<in> set rs. list_all2 (inside n) c (x0 # xs)"
      using sc[OF _ _ _ MH pos(3) sl[OF a(2,3)]] HB' AB MQle MH pos by auto
    have "\<exists>c \<in> set rs. list_all2 (inside n) c (x0 # xs)"
      if "length xs = k - 1 \<and> B \<le> x0 + H \<and> x0 < B \<and> (\<forall>v \<in> set xs. B \<le> v + H \<and> v < B + H) \<and>
       (\<exists>v \<in> set xs. B \<le> v \<and> v < 2 ^ n)" for x0 xs
    proof (rule cov)
      have "inside n (block n j (B - H)) v \<or> inside n (block n j B) v" if "B \<le> v + H" "v < B + H" for v
        using that HB' unfolding blk(3)[OF a(1) HB] blk(3)[OF a(2,3)] by linarith
      moreover have "\<not> inside n (block n j (B - H)) v" if "B \<le> v" for v
        using that HB' unfolding blk(3)[OF a(2,3)] by linarith
      moreover have "B - H \<le> x0" "x0 < B - H + H" using that HB' by linarith+
      ultimately show "length xs = k - 1 \<and> B - H \<le> x0 \<and> x0 < B - H + H \<and>
         (\<forall>v \<in> set xs. inside n (block n j (B - H)) v \<or> inside n (block n j B) v) \<and>
         (\<exists>v \<in> set xs. \<not> inside n (block n j (B - H)) v)" using that by blast
    qed
    then show ?thesis unfolding run using rs by blast
  qed
  obtain ls rs where ls: "(if A = 0 then Some [] else do {
      r \<leftarrow> num_to_vec A n j 2; x \<leftarrow> u64_sub A H; l \<leftarrow> num_to_vec x n j 2; u \<leftarrow> u64_sub n (length r);
      double_covering_restricted_prefix_combinations r l (replicate k n) u }) = Some ls" "safe n k A B M ls"
    "\<And>x0 xs. length xs = k - 1 \<and> A \<le> x0 \<and> x0 < A + H \<and> (\<forall>v \<in> set xs. A \<le> v + H \<and> v < A + H) \<and>
       (\<exists>v \<in> set xs. v < A) \<Longrightarrow> \<exists>c \<in> set ls. list_all2 (inside n) c (x0 # xs)"
    and rs: "(if B - 1 = 2 ^ n - 1 then Some [] else do {
      x \<leftarrow> u64_sub (B - 1) H; r \<leftarrow> num_to_vec (x + 1) n j 2; y \<leftarrow> u64_add (B - 1) 1;
      l \<leftarrow> num_to_vec y n j 2; u \<leftarrow> u64_sub n (length r);
      double_covering_restricted_prefix_combinations r l (replicate k n) u }) = Some rs" "safe n k A B M rs"
    "\<And>x0 xs. length xs = k - 1 \<and> B \<le> x0 + H \<and> x0 < B \<and> (\<forall>v \<in> set xs. B \<le> v + H \<and> v < B + H) \<and>
       (\<exists>v \<in> set xs. B \<le> v \<and> v < 2 ^ n) \<Longrightarrow> \<exists>c \<in> set rs. list_all2 (inside n) c (x0 # xs)"
    using lefts rights by blast
  let ?mid = "main # replicate (k - 1) main"
  have mid: "single_covering_prefix_combinations main main (replicate k n) (n - length main) = Some ?mid"
    using single_same[OF len le_refl n(1) k0] .
  have run: "large_interval_combinations (replicate k n) main n (2 ^ n - 1) (n - length main) A (B - 1) e (drop_bit 1 M) s S mx =
      Some (ls @ ?mid # rs)"
  proof -
    have nice: "Option.bind (Some j) f = f j" for f :: "nat \<Rightarrow> nat list list list option" by simp
    show ?thesis unfolding large_interval_combinations_def Let_def ignored width ls(1) rs(1) mid nice by simp
  qed
  have safe_mid: "safe n k A B M [?mid]"
  proof -
    have "A \<le> v \<and> v < B" if "list_all2 (inside n) ?mid x" "v \<in> set x" for x v
      using chosen_prefixes[OF that(1) _ that(2), of "{main}"] by (auto simp: inside_def A_def B_def set_replicate_conv_if)
    then show ?thesis using main k0 unfolding safe_def by fastforce
  qed
  then have safe: "safe n k A B M (ls @ ?mid # rs)" using safe_mid ls(2) rs(2) safe_append[of n k A B M ls "?mid # rs"] safe_append[of n k A B M "[?mid]" rs]
    by simp
  have "covers n k A B S (ls @ ?mid # rs)"
    unfolding covers_def
  proof (intro allI impI)
    fix x0 xs assume x: "length xs = k - 1 \<and> A \<le> x0 \<and> x0 < B \<and> (\<forall>v \<in> set xs. v < 2 ^ n) \<and>
      (\<forall>v \<in> set (x0 # xs). \<forall>w \<in> set (x0 # xs). v \<le> w + S)"
    then have x0: "A \<le> x0" "x0 < B" by auto
    consider (low) u where "u \<in> set xs" "u < A" | (high) u where "u \<in> set xs" "B \<le> u" | (both) "\<forall>v \<in> set xs. A \<le> v \<and> v < B"
      by (meson not_le)
    then show "\<exists>c \<in> set (ls @ ?mid # rs). list_all2 (inside n) c (x0 # xs)"
    proof cases
      case low
      have "x0 \<le> u + S" "\<And>v. v \<in> set xs \<Longrightarrow> v \<le> u + S \<and> x0 \<le> v + S" using x low by auto
      then have "x0 < A + H" "\<And>v. v \<in> set xs \<Longrightarrow> A \<le> v + H \<and> v < A + H" using x0 low(2) SH by fastforce+
      then have "\<exists>c \<in> set ls. list_all2 (inside n) c (x0 # xs)" using x low by (intro ls(3)) blast
      then show ?thesis by auto
    next
      case high
      have "u \<le> x0 + S" "\<And>v. v \<in> set xs \<Longrightarrow> u \<le> v + S \<and> v \<le> x0 + S" using x high by auto
      then have "B \<le> x0 + H" "\<And>v. v \<in> set xs \<Longrightarrow> B \<le> v + H \<and> v < B + H" using x0 high(2) SH by fastforce+
      then have "\<exists>c \<in> set rs. list_all2 (inside n) c (x0 # xs)" using x high by (intro rs(3)) blast
      then show ?thesis by auto
    next
      case both
      have "inside n main v" if "v \<in> set (x0 # xs)" for v using that x0 both by (auto simp: inside_def A_def B_def)
      moreover from this have "list_all2 (inside n) (replicate (k - 1) main) xs" using x by (auto simp: list_all2_conv_all_nth)
      ultimately have "list_all2 (inside n) ?mid (x0 # xs)" by simp
      then show ?thesis by auto
    qed
  qed
  then show ?thesis using run safe by (auto simp: M_def S_def)
qed



end
