(* ===== verification/DigitTrie.thy ===== *)
theory DigitTrie
  imports DlcPrelude
begin

text \<open>
  \<open>dlc-trie/src/digit_trie.rs\<close> with the node type and \<open>LookupResult\<close> of \<open>dlc-trie/src/lib.rs\<close>:
  the prefix-compressed trie over digit paths, stored in an arena. The nodes of the trie are
  indexes into the vector \<open>store\<close>; insertion moves a node out of the arena, leaving the
  placeholder \<open>NodeNone\<close>, and puts it back. \<open>None\<close> is a panic (or a look-up that does not end,
  on an arena that is not a tree).
\<close>

section \<open>Data\<close>

datatype ('l, 'n) Node = NodeNone | Leaf 'l | Node 'n

datatype 'a DigitLeaf = DigitLeaf (leaf_data: 'a) (leaf_prefix: "nat list")

datatype 'a DigitNode =
  DigitNode (children: "nat option list") (node_prefix: "nat list") (node_data: "'a option")

type_synonym 'a arena = "('a DigitLeaf, 'a DigitNode) Node list"

record 'a DigitTrie =
  store :: "'a arena"
  root :: "nat option"
  base :: nat

datatype ('v, 'p) LookupResult = LookupResult (res_path: "'p list") (res_value: 'v)

text \<open>\<open>NodePrefix\<close>: both operations are \<open>unreachable!()\<close> on the placeholder.\<close>

fun get_node_prefix :: "('a DigitLeaf, 'a DigitNode) Node \<Rightarrow> nat list option" where
  "get_node_prefix NodeNone = None"
| "get_node_prefix (Leaf l) = Some (leaf_prefix l)"
| "get_node_prefix (Node n) = Some (node_prefix n)"

fun set_node_prefix ::
  "('a DigitLeaf, 'a DigitNode) Node \<Rightarrow> nat list \<Rightarrow> ('a DigitLeaf, 'a DigitNode) Node option" where
  "set_node_prefix NodeNone p = None"
| "set_node_prefix (Leaf l) p = Some (Leaf (DigitLeaf (leaf_data l) p))"
| "set_node_prefix (Node n) p = Some (Node (DigitNode (children n) p (node_data n)))"

definition get_common_prefix :: "nat list \<Rightarrow> nat list \<Rightarrow> nat list" where
  "get_common_prefix a b = map fst (takeWhile (\<lambda>(x, y). x = y) (zip a b))"

definition is_prefix_of :: "nat list \<Rightarrow> nat list \<Rightarrow> bool" where
  "is_prefix_of prefix value =
     (if length value < length prefix then False
      else list_all (\<lambda>i. prefix ! i = value ! i) [0..<length prefix])"

definition new_trie :: "nat \<Rightarrow> 'a DigitTrie" where
  "new_trie b = \<lparr>store = [], root = None, base = b\<rparr>"

section \<open>Insertion\<close>

text \<open>\<open>insert_new_leaf\<close>: the new arena and the index of the leaf.\<close>

definition insert_new_leaf :: "'a arena \<Rightarrow> nat list \<Rightarrow> 'a \<Rightarrow> 'a arena \<times> nat" where
  "insert_new_leaf st p d = (st @ [Leaf (DigitLeaf d p)], length st)"

text \<open>
  The callback \<open>get_data: FnMut(Option<T>) -> Result<T, Error>\<close> may change what it captures: it
  takes and returns a state. A result is \<open>Inl\<close> of the callback's error or \<open>Inr\<close> of the index,
  with the arena and the state as they are then (on an error the placeholder stays behind).
\<close>

type_synonym ('a, 'e, 's) get_data = "'a option \<Rightarrow> 's \<Rightarrow> ('e + 'a) \<times> 's"

partial_function (option) insert_internal ::
  "nat \<Rightarrow> ('a, 'e, 's) get_data \<Rightarrow> 'a arena \<Rightarrow> nat option \<Rightarrow> nat list \<Rightarrow> 's \<Rightarrow>
   (('e + nat) \<times> 'a arena \<times> 's) option" where
  "insert_internal b get_data st cur path s =
     (case cur of
        None \<Rightarrow>
          (case get_data None s of
             (Inl e, s) \<Rightarrow> Some (Inl e, st, s)
           | (Inr d, s) \<Rightarrow> let (st, i) = insert_new_leaf st path d in Some (Inr i, st, s))
      | Some cur_index \<Rightarrow>
          Option.bind (vget st cur_index) (\<lambda>cur_node.
          let st = st[cur_index := NodeNone] in
          Option.bind (get_node_prefix cur_node) (\<lambda>prefix.
          if prefix = path
          then
            (case cur_node of
               Leaf l \<Rightarrow>
                 (case get_data (Some (leaf_data l)) s of
                    (Inl e, s) \<Rightarrow> Some (Inl e, st, s)
                  | (Inr d, s) \<Rightarrow> Some (Inr cur_index, st[cur_index := Leaf (DigitLeaf d (leaf_prefix l))], s))
             | Node n \<Rightarrow>
                 (case get_data (node_data n) s of
                    (Inl e, s) \<Rightarrow> Some (Inl e, st, s)
                  | (Inr d, s) \<Rightarrow>
                      Some (Inr cur_index, st[cur_index := Node (DigitNode (children n) (node_prefix n) (Some d))], s))
             | NodeNone \<Rightarrow> None)
          else
            let common_prefix = get_common_prefix prefix path;
                suffix = drop (length common_prefix) path
            in if prefix = common_prefix
            then
              (case cur_node of
                 Node n \<Rightarrow>
                   Option.bind (vget suffix 0) (\<lambda>s0.
                   Option.bind (vget (children n) s0) (\<lambda>child.
                   Option.bind (insert_internal b get_data st child suffix s) (\<lambda>(r, st, s).
                   case r of
                     Inl e \<Rightarrow> Some (Inl e, st, s)
                   | Inr i \<Rightarrow>
                       Option.bind (vset (children n) s0 (Some i)) (\<lambda>cs.
                       Option.bind (vset st cur_index (Node (DigitNode cs (node_prefix n) (node_data n)))) (\<lambda>st.
                       Some (Inr cur_index, st, s))))))
               | NodeNone \<Rightarrow> None
               | Leaf l \<Rightarrow>
                   Option.bind (vget suffix 0) (\<lambda>s0.
                   case get_data None s of
                     (Inl e, s) \<Rightarrow> Some (Inl e, st, s)
                   | (Inr d, s) \<Rightarrow>
                       let (st, i) = insert_new_leaf st suffix d in
                       Option.bind (vset (replicate b None) s0 (Some i)) (\<lambda>cs.
                       Option.bind (vset st cur_index (Node (DigitNode cs (leaf_prefix l) (Some (leaf_data l))))) (\<lambda>st.
                       Some (Inr cur_index, st, s)))))
            else
              Option.bind
                (if path = common_prefix
                 then
                   (case get_data None s of
                      (Inl e, s) \<Rightarrow> Some (Inl e, st, s)
                    | (Inr d, s) \<Rightarrow> Some (Inr (Some d, replicate b None), st, s))
                 else
                   (case get_data None s of
                      (Inl e, s) \<Rightarrow> Some (Inl e, st, s)
                    | (Inr d, s) \<Rightarrow>
                        let (st, i) = insert_new_leaf st suffix d in
                        Option.bind (vget path (length common_prefix)) (\<lambda>k.
                        Option.bind (vset (replicate b None) k (Some i)) (\<lambda>cs.
                        Some (Inr (None, cs), st, s)))))
                (\<lambda>(r, st, s).
                 case r of
                   Inl e \<Rightarrow> Some (Inl e, st, s)
                 | Inr (data, new_children) \<Rightarrow>
                     Option.bind (vget prefix (length common_prefix)) (\<lambda>k.
                     Option.bind (vset new_children k (Some cur_index)) (\<lambda>new_children.
                     Option.bind (set_node_prefix cur_node (drop (length common_prefix) prefix)) (\<lambda>cur_node.
                     let st = st @ [Node (DigitNode new_children common_prefix data)] in
                     Option.bind (vset st cur_index cur_node) (\<lambda>st.
                     Some (Inr (length st - 1), st, s)))))))))"

declare insert_internal.simps [code]

text \<open>
  \<open>insert\<close> is \<open>insert_path\<close>: an empty path, or a digit greater than the base, panics. On an error of the callback
  the root is not assigned.
\<close>

definition insert_path ::
  "('a, 'e, 's) get_data \<Rightarrow> 'a DigitTrie \<Rightarrow> nat list \<Rightarrow> 's \<Rightarrow> (('e + unit) \<times> 'a DigitTrie \<times> 's) option" where
  "insert_path get_data t path s =
     (if path = [] \<or> (\<exists>x \<in> set path. base t < x) then None
      else Option.bind (insert_internal (base t) get_data (store t) (root t) path s) (\<lambda>(r, st, s).
        case r of
          Inl e \<Rightarrow> Some (Inl e, t\<lparr>store := st\<rparr>, s)
        | Inr i \<Rightarrow> Some (Inr (), t\<lparr>store := st, root := Some i\<rparr>, s)))"

section \<open>Look-up\<close>

definition extend_lookup_res_paths ::
  "('a, nat) LookupResult list \<Rightarrow> nat list \<Rightarrow> ('a, nat) LookupResult list" where
  "extend_lookup_res_paths l_res p = map (\<lambda>x. LookupResult (p @ res_path x) (res_value x)) l_res"

partial_function (option) look_up_internal ::
  "'a arena \<Rightarrow> nat option \<Rightarrow> nat list \<Rightarrow> ('a, nat) LookupResult list option option" where
  "look_up_internal st cur p =
     (case cur of
        None \<Rightarrow> Some None
      | Some cur_index \<Rightarrow>
          Option.bind (vget st cur_index) (\<lambda>node.
          case node of
            NodeNone \<Rightarrow> None
          | Leaf l \<Rightarrow>
              (if leaf_prefix l = get_common_prefix (leaf_prefix l) p
               then Some (Some [LookupResult (leaf_prefix l) (leaf_data l)])
               else Some None)
          | Node n \<Rightarrow>
              let own = map_option (\<lambda>d. [LookupResult (node_prefix n) d]) (node_data n) in
              if length p < length (node_prefix n) \<or> \<not> is_prefix_of (node_prefix n) p then Some None
              else if length (node_prefix n) = length p then Some own
              else
                Option.bind (vget p (length (node_prefix n))) (\<lambda>k.
                Option.bind (vget (children n) k) (\<lambda>child.
                Option.bind (look_up_internal st child (drop (length (node_prefix n)) p)) (\<lambda>res.
                Some (case res of
                    None \<Rightarrow> own
                  | Some l_res \<Rightarrow>
                      let up = extend_lookup_res_paths l_res (node_prefix n) in
                      (case own of None \<Rightarrow> Some up | Some o_res \<Rightarrow> Some (o_res @ up))))))))"

declare look_up_internal.simps [code]

definition look_up :: "'a DigitTrie \<Rightarrow> nat list \<Rightarrow> ('a, nat) LookupResult list option option" where
  "look_up t p = look_up_internal (store t) (root t) p"


section \<open>The arena as a tree\<close>

text \<open>
  The tree an index of the arena stands for, with the indexes of its nodes; \<open>foot\<close> lists them,
  \<open>holds t st\<close> says that the arena \<open>st\<close> stores \<open>t\<close>, and \<open>content\<close> is the map from paths to
  data the trie represents.
\<close>

datatype 'a atree =
    ALeaf nat "nat list" 'a
  | ANode nat "nat list" "'a option" "'a atree option list"

primrec idx :: "'a atree \<Rightarrow> nat" where
  "idx (ALeaf i p d) = i" | "idx (ANode i p d ts) = i"

primrec pre :: "'a atree \<Rightarrow> nat list" where
  "pre (ALeaf i p d) = p" | "pre (ANode i p d ts) = p"

primrec set_pre :: "nat list \<Rightarrow> 'a atree \<Rightarrow> 'a atree" where
  "set_pre q (ALeaf i p d) = ALeaf i q d" | "set_pre q (ANode i p d ts) = ANode i q d ts"

primrec foot :: "'a atree \<Rightarrow> nat list" where
  "foot (ALeaf i p d) = [i]"
| "foot (ANode i p d ts) = i # concat (map (case_option [] id) (map (map_option foot) ts))"

primrec holds :: "'a atree \<Rightarrow> 'a arena \<Rightarrow> bool" where
  "holds (ALeaf i p d) = (\<lambda>st. i < length st \<and> st ! i = Leaf (DigitLeaf d p))"
| "holds (ANode i p d ts) = (\<lambda>st. i < length st \<and> st ! i = Node (DigitNode (map (map_option idx) ts) p d) \<and>
     list_all (\<lambda>h. case_option True (\<lambda>f. f st) h) (map (map_option holds) ts))"

primrec content :: "'a atree \<Rightarrow> nat list \<Rightarrow> 'a option" where
  "content (ALeaf i p d) = (\<lambda>q. if q = p then Some d else None)"
| "content (ANode i p d ts) = (\<lambda>q.
     if take (length p) q = p
     then (case drop (length p) q of
        [] \<Rightarrow> d
      | x # xs \<Rightarrow> (case vget (map (map_option content) ts) x of Some (Some f) \<Rightarrow> f (x # xs) | _ \<Rightarrow> None))
     else None)"

primrec wf_tree :: "nat \<Rightarrow> 'a atree \<Rightarrow> bool" where
  "wf_tree b (ALeaf i p d) \<longleftrightarrow> (\<forall>x \<in> set p. x < b)"
| "wf_tree b (ANode i p d ts) \<longleftrightarrow> (\<forall>x \<in> set p. x < b) \<and> length ts = b \<and>
     (\<forall>k t. k < b \<and> ts ! k = Some t \<longrightarrow> pre t \<noteq> [] \<and> hd (pre t) = k) \<and>
     list_all (case_option True id) (map (map_option (wf_tree b)) ts)"

definition ofoot :: "'a atree option \<Rightarrow> nat list" where
  "ofoot ot = (case ot of None \<Rightarrow> [] | Some t \<Rightarrow> foot t)"

lemma ofoot_simps [simp]: "ofoot None = []" "ofoot (Some t) = foot t"
  by (simp_all add: ofoot_def)

definition sub_foot :: "'a atree option list \<Rightarrow> nat list" where
  "sub_foot ts = concat (map ofoot ts)"

lemma foot_node: "foot (ANode i p d ts) = i # sub_foot ts"
proof -
  have "map (case_option [] id) (map (map_option foot) ts) = map ofoot ts"
    by (auto simp: ofoot_def split: option.splits)
  then show ?thesis by (simp only: foot.simps sub_foot_def)
qed

lemma holds_node: "holds (ANode i p d ts) st \<longleftrightarrow>
    i < length st \<and> st ! i = Node (DigitNode (map (map_option idx) ts) p d) \<and> (\<forall>t. Some t \<in> set ts \<longrightarrow> holds t st)"
  by (auto simp: list_all_iff split: option.splits)

lemma wf_node: "wf_tree b (ANode i p d ts) \<longleftrightarrow> (\<forall>x \<in> set p. x < b) \<and> length ts = b \<and>
     (\<forall>k t. k < b \<and> ts ! k = Some t \<longrightarrow> pre t \<noteq> [] \<and> hd (pre t) = k \<and> wf_tree b t)"
  by (auto simp: list_all_length split: option.splits)

lemma content_node: "content (ANode i p d ts) q =
    (if take (length p) q = p
     then (case drop (length p) q of
        [] \<Rightarrow> d
      | x # xs \<Rightarrow> (case vget ts x of Some (Some t) \<Rightarrow> content t (x # xs) | _ \<Rightarrow> None))
     else None)"
  by (auto simp: vget_def split: list.splits option.splits)

declare foot.simps(2) [simp del] holds.simps(2) [simp del] content.simps(2) [simp del] wf_tree.simps(2) [simp del]

definition opt_content :: "'a atree option \<Rightarrow> nat list \<Rightarrow> 'a option" where
  "opt_content ot = (case ot of None \<Rightarrow> Map.empty | Some t \<Rightarrow> content t)"

lemma content_append_node: "content (ANode i p d ts) (p @ q) =
    (case q of [] \<Rightarrow> d | x # xs \<Rightarrow> (case vget ts x of Some (Some t) \<Rightarrow> content t (x # xs) | _ \<Rightarrow> None))"
  by (simp add: content_node)

lemma content_at_prefix [simp]: "content (ANode i p d ts) p = d"
  by (simp add: content_node)

lemma content_below:
  "content (ANode i p d ts) (p @ x # xs) =
     (if x < length ts then opt_content (ts ! x) (x # xs) else None)"
  by (auto simp: content_append_node opt_content_def split: option.splits)

lemma content_not_below: "\<nexists>z. q = p @ z \<Longrightarrow> content (ANode i p d ts) q = None"
  by (auto simp: content_node) (metis append_take_drop_id)

lemma content_prefix: "content t q \<noteq> None \<Longrightarrow> \<exists>r. q = pre t @ r"
proof (cases t)
  case (ANode i p d ts)
  assume "content t q \<noteq> None"
  then have "take (length p) q = p" by (auto simp: ANode content_node split: if_splits)
  then show ?thesis using ANode by (metis append_take_drop_id pre.simps(2))
qed (auto split: if_splits)

lemma content_off_path: "pre t = c @ x # q \<Longrightarrow> w = [] \<or> hd w \<noteq> x \<Longrightarrow> content t (c @ w) = None"
proof (rule ccontr)
  assume p: "pre t = c @ x # q" "w = [] \<or> hd w \<noteq> x" and "content t (c @ w) \<noteq> None"
  then obtain r where "c @ w = (c @ x # q) @ r" using content_prefix by metis
  with p(2) show False by auto
qed

lemma idx_in_foot [simp]: "idx t \<in> set (foot t)"
  by (cases t) (simp_all add: foot_node)

lemma set_pre_simps [simp]:
  "idx (set_pre q t) = idx t" "pre (set_pre q t) = q" "foot (set_pre q t) = foot t"
  by (cases t; simp add: foot_node)+

lemma content_set_pre: "pre t = c @ q \<Longrightarrow> content (set_pre q t) z = content t (c @ z)"
  by (cases t) (auto simp: content_node)

lemma wf_set_pre: "wf_tree b t \<Longrightarrow> pre t = c @ q \<Longrightarrow> wf_tree b (set_pre q t)"
  by (cases t) (auto simp: wf_node)

lemma wf_pre: "wf_tree b t \<Longrightarrow> x \<in> set (pre t) \<Longrightarrow> x < b"
  by (cases t) (auto simp: wf_node)

lemma sub_foot_set: "set (sub_foot ts) = (\<Union>t \<in> {t. Some t \<in> set ts}. set (foot t))"
  by (auto simp: sub_foot_def ofoot_def split: option.splits)

lemma sub_foot_update:
  "k < length ts \<Longrightarrow> sub_foot (ts[k := o']) =
     sub_foot (take k ts) @ ofoot o' @ sub_foot (drop (Suc k) ts)"
  by (simp add: sub_foot_def upd_conv_take_nth_drop)

lemma sub_foot_split:
  "k < length ts \<Longrightarrow> sub_foot ts = sub_foot (take k ts) @ ofoot (ts ! k) @ sub_foot (drop (Suc k) ts)"
  using sub_foot_update[of k ts "ts ! k"] by simp

lemma sub_foot_replicate [simp]: "sub_foot (replicate n None) = []"
  by (simp add: sub_foot_def)

lemma sub_foot_one: "k < n \<Longrightarrow> sub_foot ((replicate n None)[k := B]) = ofoot B"
  by (simp add: sub_foot_update)

lemma sub_foot_two:
  assumes "y < b" "x < b" "y \<noteq> x"
  shows "sub_foot ((replicate b None)[y := B, x := A]) =
    (if y < x then ofoot B @ ofoot A else ofoot A @ ofoot B)"
proof (cases "y < x")
  case True
  with assms show ?thesis
    using sub_foot_update[of x "(replicate b None)[y := B]" A]
    by (simp add: take_update_swap sub_foot_one)
next
  case False
  with assms show ?thesis
    using sub_foot_update[of x "(replicate b None)[y := B]" A]
    by (simp add: drop_update_swap sub_foot_one)
qed

text \<open>A tree is stored as long as its own nodes are unchanged.\<close>

lemma holds_frame:
  "holds t st \<Longrightarrow> (\<And>j. j \<in> set (foot t) \<Longrightarrow> j < length st' \<and> st' ! j = st ! j) \<Longrightarrow> holds t st'"
proof (induction t)
  case (ANode i p d ts)
  have "holds t st'" if t: "Some t \<in> set ts" for t
  proof (rule ANode.IH[OF t])
    show "holds t st" using ANode.prems(1) t by (simp add: holds_node)
    show "j < length st' \<and> st' ! j = st ! j" if "j \<in> set (foot t)" for j
      using ANode.prems(2)[of j] that t by (auto simp: foot_node sub_foot_set)
  qed simp
  moreover have "i < length st' \<and> st' ! i = st ! i" using ANode.prems(2)[of i] by (simp add: foot_node)
  ultimately show ?case using ANode.prems(1) by (simp add: holds_node)
qed simp

lemma holds_foot_bound: "holds t st \<Longrightarrow> j \<in> set (foot t) \<Longrightarrow> j < length st"
proof (induction t)
  case (ANode i p d ts)
  then show ?case by (auto simp: foot_node sub_foot_set holds_node)
qed simp

section \<open>Common prefixes\<close>

lemma get_common_prefix_simps [simp]:
  "get_common_prefix [] b = []" "get_common_prefix a [] = []"
  "get_common_prefix (x # xs) (y # ys) = (if x = y then x # get_common_prefix xs ys else [])"
  by (simp_all add: get_common_prefix_def)

lemma get_common_prefix_spec:
  "\<exists>r1 r2. a = get_common_prefix a b @ r1 \<and> b = get_common_prefix a b @ r2 \<and> (r1 = [] \<or> r2 = [] \<or> hd r1 \<noteq> hd r2)"
  by (induction a b rule: list_induct2') auto

lemma get_common_prefix_append [simp]: "get_common_prefix p (p @ r) = p"
  by (induction p) auto

lemma get_common_prefix_self [simp]: "get_common_prefix p p = p"
  by (induction p) auto

lemma get_common_prefix_eq: "p = get_common_prefix p q \<longleftrightarrow> (\<exists>r. q = p @ r)"
proof
  assume "p = get_common_prefix p q"
  then show "\<exists>r. q = p @ r" using get_common_prefix_spec[of p q] by metis
qed auto

lemma is_prefix_of_iff [simp]: "is_prefix_of p q \<longleftrightarrow> (\<exists>r. q = p @ r)"
proof
  assume "is_prefix_of p q"
  then have "take (length p) q = p"
    by (intro nth_equalityI) (auto simp: is_prefix_of_def list_all_iff split: if_splits)
  then show "\<exists>r. q = p @ r" by (metis append_take_drop_id)
qed (auto simp: is_prefix_of_def list_all_iff nth_append)


section \<open>Insertion updates the map\<close>

definition opt_foot :: "'a atree option \<Rightarrow> nat set" where
  "opt_foot ot = set (ofoot ot)"

lemma opt_simps [simp]:
  "opt_content None = Map.empty" "opt_content (Some t) = content t"
  "opt_foot None = {}" "opt_foot (Some t) = set (foot t)"
  by (simp_all add: opt_content_def opt_foot_def)

text \<open>A (sub)trie in the arena: stored without sharing, and well-formed.\<close>

definition valid :: "nat \<Rightarrow> 'a arena \<Rightarrow> 'a atree \<Rightarrow> bool" where
  "valid b st t \<longleftrightarrow> holds t st \<and> distinct (foot t) \<and> wf_tree b t"

text \<open>
  What a successful insertion of \<open>v\<close> does: it returns a subtrie with the updated content whose
  nodes are old nodes of the subtrie or new ones, and leaves every other node of the arena alone.
\<close>

definition ins_ok ::
  "nat \<Rightarrow> ('a, 'e, 's) get_data \<Rightarrow> 'a arena \<Rightarrow> 'a atree option \<Rightarrow> nat list \<Rightarrow> 's \<Rightarrow> 'a \<Rightarrow> 's \<Rightarrow> bool" where
  "ins_ok b gd st ot p s v s' \<longleftrightarrow>
     (\<exists>st' t'. insert_internal b gd st (map_option idx ot) p s = Some (Inr (idx t'), st', s') \<and>
        valid b st' t' \<and> content t' = (opt_content ot)(p \<mapsto> v) \<and>
        pre t' = (case ot of None \<Rightarrow> p | Some t \<Rightarrow> get_common_prefix (pre t) p) \<and>
        length st \<le> length st' \<and>
        (\<forall>j < length st. j \<notin> opt_foot ot \<longrightarrow> st' ! j = st ! j) \<and>
        set (foot t') = opt_foot ot \<union> {length st..<length st'})"

lemma ins_okI:
  assumes "insert_internal b gd st (map_option idx ot) p s = Some (Inr (idx t'), st', s')"
    "valid b st' t'" "\<And>q. content t' q = ((opt_content ot)(p \<mapsto> v)) q"
    "pre t' = (case ot of None \<Rightarrow> p | Some t \<Rightarrow> get_common_prefix (pre t) p)"
    "length st \<le> length st'" "\<And>j. j < length st \<Longrightarrow> j \<notin> opt_foot ot \<Longrightarrow> st' ! j = st ! j"
    "set (foot t') = opt_foot ot \<union> {length st..<length st'}"
  shows "ins_ok b gd st ot p s v s'"
  using assms unfolding ins_ok_def by (intro exI[of _ st'] exI[of _ t']) (auto intro!: ext)

lemma ins_none:
  assumes "gd None s = (Inr v, s')" "\<forall>x \<in> set p. x < b"
  shows "ins_ok b gd st None p s v s'"
  using assms
  by (intro ins_okI[where t' = "ALeaf (length st) p v" and st' = "st @ [Leaf (DigitLeaf v p)]"])
     (auto simp: insert_internal.simps[of b gd st] insert_new_leaf_def valid_def nth_append)

text \<open>The path is the prefix of the node: its data is replaced.\<close>

lemma ins_same:
  assumes t: "valid b st t" and p: "pre t = p" and gd: "gd (content t p) s = (Inr v, s')"
  shows "ins_ok b gd st (Some t) p s v s'"
proof (cases t)
  case (ALeaf i q d)
  have st: "i < length st" "st ! i = Leaf (DigitLeaf d p)" using t p by (auto simp: valid_def ALeaf)
  have "insert_internal b gd st (Some i) p s = Some (Inr i, st[i := Leaf (DigitLeaf v p)], s')"
    using st gd p by (subst insert_internal.simps) (simp add: ALeaf)
  with t p st ALeaf show ?thesis
    by (intro ins_okI[where t' = "ALeaf i p v" and st' = "st[i := Leaf (DigitLeaf v p)]"]) (auto simp: valid_def)
next
  case (ANode i q d ts)
  have st: "i < length st" "st ! i = Node (DigitNode (map (map_option idx) ts) p d)"
    using t p by (auto simp: valid_def ANode holds_node)
  let ?st = "st[i := Node (DigitNode (map (map_option idx) ts) p (Some v))]"
  have "content t p = d" using p ANode by (simp add: content_node)
  then have run: "insert_internal b gd st (Some i) p s = Some (Inr i, ?st, s')"
    using st gd p by (subst insert_internal.simps) (simp add: ANode)
  have "holds u ?st" if "Some u \<in> set ts" for u
  proof (rule holds_frame)
    show "holds u st" using t that by (simp add: valid_def ANode holds_node)
    show "j < length ?st \<and> ?st ! j = st ! j" if "j \<in> set (foot u)" for j
      using that \<open>Some u \<in> set ts\<close> t holds_foot_bound[of u st j]
      by (auto simp: valid_def ANode holds_node foot_node sub_foot_set nth_list_update)
  qed
  then have "valid b ?st (ANode i p (Some v) ts)"
    using t p st by (auto simp: valid_def ANode holds_node foot_node wf_node)
  with run p st ANode show ?thesis
    by (intro ins_okI[where t' = "ANode i p (Some v) ts" and st' = ?st])
       (auto simp: foot_node content_node split: list.splits)
qed

text \<open>The path extends the prefix of a leaf: the leaf becomes a node with one child.\<close>

lemma ins_below_leaf:
  assumes t: "valid b st (ALeaf i p d)" and r: "r \<noteq> []" "\<forall>x \<in> set (p @ r). x < b"
    and gd: "gd None s = (Inr v, s')"
  shows "ins_ok b gd st (Some (ALeaf i p d)) (p @ r) s v s'"
proof -
  obtain x xs where x: "r = x # xs" "x < b" using r by (cases r) auto
  have st: "i < length st" "st ! i = Leaf (DigitLeaf d p)" using t by (auto simp: valid_def)
  let ?cs = "(replicate b None)[x := Some (length st)]"
  let ?st = "(st[i := NodeNone] @ [Leaf (DigitLeaf v r)])[i := Node (DigitNode ?cs p (Some d))]"
  let ?ts = "(replicate b None)[x := Some (ALeaf (length st) r v)]"
  let ?t = "ANode i p (Some d) ?ts"
  have run: "insert_internal b gd st (Some i) (p @ r) s = Some (Inr i, ?st, s')"
    using st gd x by (subst insert_internal.simps) (simp add: insert_new_leaf_def Let_def)
  have sf: "sub_foot ?ts = [length st]" using x by (simp add: sub_foot_update)
  have hold: "holds ?t ?st" using st x r
    by (auto simp: holds_node nth_append nth_list_update map_update in_set_conv_nth split: if_splits)
  have "wf_tree b ?t" using r t x by (auto simp: wf_node valid_def nth_list_update split: if_splits)
  with hold have "valid b ?st ?t" using st by (auto simp: valid_def foot_node sf)
  moreover have "content ?t q = ((content (ALeaf i p d))(p @ r \<mapsto> v)) q" for q
  proof (cases "\<exists>z. q = p @ z")
    case True
    then obtain z where q: "q = p @ z" ..
    show ?thesis using x by (cases z) (auto simp: q content_below nth_list_update)
  next
    case False
    then show ?thesis using content_not_below[OF False, of i "Some d" ?ts] by auto
  qed
  ultimately show ?thesis using run st x
    by (intro ins_okI[where t' = ?t and st' = ?st]) (auto simp: foot_node sf[unfolded x(1)] nth_append nth_list_update)
qed


text \<open>The path extends the prefix of a node: the insertion goes on in the child.\<close>

lemma holds_other:
  "holds t st \<Longrightarrow> length st \<le> length st' \<Longrightarrow> (\<And>j. j \<in> set (foot t) \<Longrightarrow> st' ! j = st ! j) \<Longrightarrow> holds t st'"
  using holds_foot_bound by (blast intro: holds_frame less_le_trans)

lemma ins_below_node:
  assumes t: "valid b st (ANode i p d ts)" and x: "x < b" "r = x # xs"
    and child: "ins_ok b gd (st[i := NodeNone]) (ts ! x) r s v s'"
  shows "ins_ok b gd st (Some (ANode i p d ts)) (p @ r) s v s'"
proof -
  have st: "i < length st" "st ! i = Node (DigitNode (map (map_option idx) ts) p d)"
    and hts: "\<And>u. Some u \<in> set ts \<Longrightarrow> holds u st" and len: "length ts = b"
    and dist: "i \<notin> set (sub_foot ts)" "distinct (sub_foot ts)"
    using t by (auto simp: valid_def holds_node wf_node foot_node)
  let ?st0 = "st[i := NodeNone]"
  obtain st1 u where run1: "insert_internal b gd ?st0 (map_option idx (ts ! x)) r s = Some (Inr (idx u), st1, s')"
    and u: "valid b st1 u" "content u = (opt_content (ts ! x))(r \<mapsto> v)"
      "pre u = (case ts ! x of None \<Rightarrow> r | Some t \<Rightarrow> get_common_prefix (pre t) r)"
    and fr: "length ?st0 \<le> length st1" "\<And>j. j < length ?st0 \<Longrightarrow> j \<notin> opt_foot (ts ! x) \<Longrightarrow> st1 ! j = ?st0 ! j"
      "set (foot u) = opt_foot (ts ! x) \<union> {length ?st0..<length st1}"
    using child by (auto simp: ins_ok_def)
  let ?ts = "ts[x := Some u]"
  let ?st = "st1[i := Node (DigitNode (map (map_option idx) ?ts) p d)]"
  let ?t = "ANode i p d ?ts"
  have xl: "x < length ts" using x len by simp
  have run: "insert_internal b gd st (Some i) (p @ r) s = Some (Inr i, ?st, s')"
    using st run1 xl x(2) fr(1) by (subst insert_internal.simps) (simp add: Let_def map_update)
  have opt: "opt_foot (ts ! x) = set (ofoot (ts ! x))" by (simp add: opt_foot_def)
  let ?a = "sub_foot (take x ts)" and ?z = "sub_foot (drop (Suc x) ts)"
  have parts: "sub_foot ts = ?a @ ofoot (ts ! x) @ ?z" by (rule sub_foot_split[OF xl])
  have sf: "sub_foot ?ts = ?a @ foot u @ ?z" using sub_foot_update[OF xl, of "Some u"] by simp
  have bound: "j < length st" if "j \<in> set (sub_foot ts)" for j
    using that hts holds_foot_bound by (auto simp: sub_foot_set)
  have "i \<notin> set (ofoot (ts ! x))" using dist(1) unfolding parts by simp
  then have ni: "i \<notin> set (foot u)" using fr(3) opt st(1) by auto
  have "j \<notin> set ?a \<union> set ?z" if "j \<in> set (foot u)" for j
    using fr(3) that bound[of j] dist(2) opt unfolding parts by auto
  then have dist': "distinct (foot ?t)"
    using dist u(1) ni unfolding foot_node sf parts by (auto simp: valid_def)
  have other: "holds w ?st" if w: "Some w \<in> set ts" "w \<noteq> u" "set (foot w) \<inter> opt_foot (ts ! x) = {}" for w
  proof (rule holds_other[OF hts[OF w(1)]])
    show "?st ! j = st ! j" if j: "j \<in> set (foot w)" for j
    proof -
      have "j \<in> set (sub_foot ts)" using j w(1) by (auto simp: sub_foot_set)
      then have "j < length st" "j \<noteq> i" using bound dist(1) by auto
      moreover have "j \<notin> opt_foot (ts ! x)" using j w(3) by auto
      ultimately show ?thesis using fr(2)[of j] by simp
    qed
  qed (use fr(1) in simp)
  have "holds w ?st" if w: "Some w \<in> set ?ts" for w
  proof -
    consider "w = u" | "w \<noteq> u" "Some w \<in> set (take x ts) \<union> set (drop (Suc x) ts)"
      using w xl by (auto simp: upd_conv_take_nth_drop)
    then show ?thesis
    proof cases
      case 1
      have hu: "holds u st1" using u(1) by (simp add: valid_def)
      have "j < length ?st \<and> ?st ! j = st1 ! j" if "j \<in> set (foot u)" for j
      proof -
        have "j \<noteq> i" using that ni by blast
        then show ?thesis using holds_foot_bound[OF hu that] by simp
      qed
      with hu show ?thesis unfolding 1 by (rule holds_frame)
    next
      case 2
      then have "set (foot w) \<subseteq> set ?a \<union> set ?z" by (auto simp: sub_foot_set)
      then have "set (foot w) \<inter> opt_foot (ts ! x) = {}" using dist(2) opt unfolding parts by auto
      then show ?thesis using 2 other by (meson UnE in_set_dropD in_set_takeD)
    qed
  qed
  then have hold: "holds ?t ?st" using st(1) fr(1) by (simp add: holds_node)
  have "pre u \<noteq> [] \<and> hd (pre u) = x"
  proof (cases "ts ! x")
    case None
    then show ?thesis using u(3) x by simp
  next
    case (Some w)
    then have "pre w \<noteq> [] \<and> hd (pre w) = x" using t x len by (auto simp: valid_def wf_node)
    then show ?thesis using u(3) x Some by (cases "pre w") auto
  qed
  then have "wf_tree b ?t" using t u(1) x by (auto simp: valid_def wf_node nth_list_update)
  with hold dist' have "valid b ?st ?t" by (simp add: valid_def)
  moreover have "content ?t q = ((content (ANode i p d ts))(p @ r \<mapsto> v)) q" for q
  proof (cases "\<exists>z. q = p @ z")
    case True
    then obtain z where q: "q = p @ z" ..
    show ?thesis using x xl u(2) by (cases z) (auto simp: q content_below nth_list_update)
  next
    case False
    then show ?thesis
      using content_not_below[OF False, of i d ts] content_not_below[OF False, of i d ?ts] by auto
  qed
  moreover have "?st ! j = st ! j" if "j < length st" "j \<notin> set (foot (ANode i p d ts))" for j
    using that fr(2)[of j] opt unfolding foot_node parts by (auto simp: nth_list_update)
  moreover have "set (foot ?t) = set (foot (ANode i p d ts)) \<union> {length st..<length ?st}"
    using fr(3) opt unfolding foot_node sf parts by auto
  ultimately show ?thesis using run fr(1)
    by (intro ins_okI[where t' = ?t and st' = ?st]) auto
qed


text \<open>The path leaves the prefix of the node: a new node for the common prefix is put above it.\<close>

lemma holds_set_pre:
  assumes "holds t st" "distinct (foot t)" "length st \<le> length st'"
    "\<And>j. j \<in> set (foot t) \<Longrightarrow> j \<noteq> idx t \<Longrightarrow> st' ! j = st ! j"
    "set_node_prefix (st ! idx t) q = Some (st' ! idx t)"
  shows "holds (set_pre q t) st'"
proof (cases t)
  case (ANode i p d ts)
  have "holds u st'" if "Some u \<in> set ts" for u
  proof (rule holds_other[OF _ assms(3)])
    show "holds u st" using assms(1) that by (simp add: ANode holds_node)
    have "set (foot u) \<subseteq> set (sub_foot ts)" using that by (auto simp: sub_foot_set)
    then show "st' ! j = st ! j" if "j \<in> set (foot u)" for j
      using that assms(2,4) by (auto simp: ANode foot_node)
  qed
  then show ?thesis using assms by (auto simp: ANode holds_node)
qed (use assms in auto)

lemma set_node_prefix_Some:
  "holds t st \<Longrightarrow> \<exists>nd. set_node_prefix (st ! idx t) q = Some nd"
  "holds t st \<Longrightarrow> get_node_prefix (st ! idx t) = Some (pre t)"
  "holds t st \<Longrightarrow> idx t < length st"
  by (cases t; simp add: holds_node)+

lemma ins_split_node:
  assumes t: "valid b st t" and p: "pre t = c @ x # q"
    and gd: "gd None s = (Inr v, s')"
  shows "ins_ok b gd st (Some t) c s v s'"
proof -
  let ?i = "idx t" and ?n = "length st"
  have hold: "holds t st" and dist: "distinct (foot t)" and wf: "wf_tree b t" using t by (auto simp: valid_def)
  have x: "x < b" using wf_pre[OF wf, of x] p by simp
  obtain nd where nd: "set_node_prefix (st ! ?i) (x # q) = Some nd" using set_node_prefix_Some(1)[OF hold] by blast
  have i: "?i < ?n" "get_node_prefix (st ! ?i) = Some (c @ x # q)" using set_node_prefix_Some[OF hold] p by auto
  let ?cs = "(replicate b None)[x := Some ?i]"
  let ?st = "(st[?i := NodeNone] @ [Node (DigitNode ?cs c (Some v))])[?i := nd]"
  let ?ts = "(replicate b None)[x := Some (set_pre (x # q) t)]"
  let ?t = "ANode ?n c (Some v) ?ts"
  have cp: "get_common_prefix (c @ x # q) c = c" by (induction c) auto
  have run: "insert_internal b gd st (Some ?i) c s = Some (Inr ?n, ?st, s')"
    using i gd x nd cp by (subst insert_internal.simps) (simp add: Let_def)
  have sf: "sub_foot ?ts = foot t" using x by (simp add: sub_foot_update)
  have "holds (set_pre (x # q) t) ?st"
    using dist nd i(1) holds_foot_bound[OF hold]
    by (intro holds_set_pre[OF hold]) (auto simp: nth_append nth_list_update less_Suc_eq)
  then have "holds ?t ?st" using i(1) x
    by (auto simp: holds_node nth_append nth_list_update map_update in_set_conv_nth split: if_splits)
  moreover have "distinct (foot ?t)" using dist holds_foot_bound[OF hold] by (auto simp: foot_node sf)
  moreover have "wf_tree b ?t" using wf_set_pre[OF wf p] wf_pre[OF wf] p x
    by (auto simp: wf_node nth_list_update split: if_splits)
  ultimately have "valid b ?st ?t" by (simp add: valid_def)
  moreover have "content ?t z = ((content t)(c \<mapsto> v)) z" for z
  proof (cases "\<exists>y. z = c @ y")
    case True
    then obtain y where z: "z = c @ y" ..
    have None: "content t (c @ w) = None" if "w = [] \<or> hd w \<noteq> x" for w
      using content_off_path[OF p that] .
    show ?thesis using x None[of y] content_set_pre[OF p]
      by (cases y) (auto simp: z content_below nth_list_update)
  next
    case False
    then have "content t z = None" using content_prefix[of t z] p by (cases "content t z") auto
    with False show ?thesis using content_not_below[OF False, of ?n "Some v" ?ts] by auto
  qed
  moreover have "?st ! j = st ! j" if "j < ?n" "j \<notin> set (foot t)" for j
  proof -
    have "j \<noteq> ?i" using that(2) idx_in_foot by metis
    then show ?thesis using that(1) by (simp add: nth_append nth_list_update)
  qed
  ultimately show ?thesis using run i(1) p cp sf
    by (intro ins_okI[where t' = ?t and st' = ?st]) (auto simp: foot_node opt_foot_def)
qed

lemma ins_split_branch:
  assumes t: "valid b st t" and p: "pre t = c @ x # q" and y: "y \<noteq> x" "\<forall>z \<in> set (c @ y # r). z < b"
    and gd: "gd None s = (Inr v, s')"
  shows "ins_ok b gd st (Some t) (c @ y # r) s v s'"
proof -
  let ?i = "idx t" and ?n = "length st"
  have hold: "holds t st" and dist: "distinct (foot t)" and wf: "wf_tree b t" using t by (auto simp: valid_def)
  have x: "x < b" using wf_pre[OF wf, of x] p by simp
  have yb: "y < b" using y by simp
  obtain nd where nd: "set_node_prefix (st ! ?i) (x # q) = Some nd" using set_node_prefix_Some(1)[OF hold] by blast
  have i: "?i < ?n" "get_node_prefix (st ! ?i) = Some (c @ x # q)" using set_node_prefix_Some[OF hold] p by auto
  let ?cs = "(replicate b None)[y := Some ?n, x := Some ?i]"
  let ?st = "(st[?i := NodeNone] @ [Leaf (DigitLeaf v (y # r))] @ [Node (DigitNode ?cs c None)])[?i := nd]"
  let ?lf = "ALeaf ?n (y # r) v"
  let ?ts = "(replicate b None)[y := Some ?lf, x := Some (set_pre (x # q) t)]"
  let ?t = "ANode (Suc ?n) c None ?ts"
  have cp: "get_common_prefix (c @ x # q) (c @ y # r) = c" using y(1) by (induction c) auto
  have run: "insert_internal b gd st (Some ?i) (c @ y # r) s = Some (Inr (Suc ?n), ?st, s')"
    using i gd x yb y(1) nd cp
    by (subst insert_internal.simps) (simp add: Let_def insert_new_leaf_def nth_append)
  have sf: "set (sub_foot ?ts) = {?n} \<union> set (foot t)" "distinct (sub_foot ?ts)"
    using dist holds_foot_bound[OF hold, of ?n] by (auto simp: sub_foot_two[OF yb x y(1)])
  have mem: "Some w \<in> set ?ts \<Longrightarrow> w = ?lf \<or> w = set_pre (x # q) t" for w
    using x yb by (auto simp: in_set_conv_nth nth_list_update split: if_splits)
  have "holds (set_pre (x # q) t) ?st"
    using dist nd i(1) holds_foot_bound[OF hold]
    by (intro holds_set_pre[OF hold]) (auto simp: nth_append nth_list_update less_Suc_eq)
  moreover have "holds ?lf ?st" using i(1) by (simp add: nth_append nth_list_update)
  ultimately have "Some w \<in> set ?ts \<Longrightarrow> holds w ?st" for w using mem[of w] by blast
  moreover have "?st ! Suc ?n = Node (DigitNode (map (map_option idx) ?ts) c None)"
    using i(1) by (simp add: nth_append nth_list_update map_update)
  ultimately have "holds ?t ?st" using i(1) unfolding holds_node by simp
  moreover have "distinct (foot ?t)" using sf holds_foot_bound[OF hold, of "Suc ?n"] by (auto simp: foot_node)
  moreover have "wf_tree b ?t" using wf_set_pre[OF wf p] wf_pre[OF wf] p x y
    by (auto simp: wf_node nth_list_update split: if_splits)
  ultimately have "valid b ?st ?t" by (simp add: valid_def)
  moreover have "content ?t z = ((content t)(c @ y # r \<mapsto> v)) z" for z
  proof (cases "\<exists>w. z = c @ w")
    case True
    then obtain w where z: "z = c @ w" ..
    have None: "content t (c @ w) = None" if "w = [] \<or> hd w \<noteq> x"
      using content_off_path[OF p that] .
    show ?thesis using x yb y(1) None content_set_pre[OF p]
      by (cases w) (auto simp: z content_below nth_list_update)
  next
    case False
    then have "content t z = None" using content_prefix[of t z] p by (cases "content t z") auto
    with False show ?thesis using content_not_below[OF False, of "Suc ?n" None ?ts] by auto
  qed
  moreover have "?st ! j = st ! j" if "j < ?n" "j \<notin> set (foot t)" for j
  proof -
    have "j \<noteq> ?i" using that(2) idx_in_foot by metis
    then show ?thesis using that(1) by (simp add: nth_append nth_list_update)
  qed
  ultimately show ?thesis using run i(1) p cp sf
    by (intro ins_okI[where t' = ?t and st' = ?st]) (auto simp: foot_node opt_foot_def)
qed

text \<open>Insertion into any subtrie.\<close>

lemma path_cases:
  fixes p q :: "nat list"
  obtains "q = p" | r where "p = q @ r" "r \<noteq> []" | x q' where "q = p @ x # q'"
    | c x q' y r where "q = c @ x # q'" "p = c @ y # r" "y \<noteq> x"
proof -
  obtain r1 r2 where "q = get_common_prefix q p @ r1" "p = get_common_prefix q p @ r2"
    "r1 = [] \<or> r2 = [] \<or> hd r1 \<noteq> hd r2" using get_common_prefix_spec[of q p] by blast
  then show thesis using that by (cases r1; cases r2) (metis append_Nil2 list.sel(1) list.distinct(1))+
qed

lemma child_valid:
  assumes "valid b st (ANode i p d ts)" "Some t \<in> set ts"
  shows "valid b (st[i := NodeNone]) t"
proof -
  obtain k where k: "k < length ts" "ts ! k = Some t" using assms(2) by (metis in_set_conv_nth)
  have sub: "sub_foot ts = sub_foot (take k ts) @ foot t @ sub_foot (drop (Suc k) ts)"
    using sub_foot_split[OF k(1)] k(2) by simp
  have dist: "distinct (foot t)" "i \<notin> set (foot t)"
    using assms(1) unfolding valid_def foot_node sub by auto
  have "holds t st" using assms by (auto simp: valid_def holds_node)
  moreover have "st[i := NodeNone] ! j = st ! j" if "j \<in> set (foot t)" for j
    using dist(2) that by (metis nth_list_update_neq)
  ultimately have "holds t (st[i := NodeNone])" by (rule holds_other[OF _ eq_imp_le[OF length_list_update[symmetric]]])
  moreover have "wf_tree b t" using assms k by (auto simp: valid_def wf_node)
  ultimately show ?thesis using dist by (simp add: valid_def)
qed

lemma insert_internal_ok:
  assumes "\<And>t. ot = Some t \<Longrightarrow> valid b st t" "p \<noteq> []" "\<forall>x \<in> set p. x < b"
    "gd (opt_content ot p) s = (Inr v, s')"
  shows "ins_ok b gd st ot p s v s'"
proof (cases ot)
  case None
  with assms show ?thesis by (simp add: ins_none)
next
  case (Some t)
  have "valid b st t" using assms(1) Some by simp
  then show ?thesis using assms(2-4) unfolding Some
  proof (induction t arbitrary: st p)
    case (ALeaf i q d)
    consider (same) "q = p" | (below) r where "p = q @ r" "r \<noteq> []" | (up) x q' where "q = p @ x # q'"
      | (branch) c x q' y r where "q = c @ x # q'" "p = c @ y # r" "y \<noteq> x"
      by (rule path_cases)
    then show ?case
    proof cases
      case same
      then show ?thesis using ALeaf by (intro ins_same) auto
    next
      case (below r)
      then show ?thesis using ALeaf ins_below_leaf[of b st i q d r gd s v s'] by simp
    next
      case (up x q')
      then show ?thesis using ALeaf by (intro ins_split_node[of _ _ _ _ x q']) auto
    next
      case (branch c x q' y r)
      then show ?thesis using ALeaf ins_split_branch[of b st "ALeaf i q d" c x q' y r gd s v s'] by simp
    qed
  next
    case (ANode i q d ts)
    consider (same) "q = p" | (below) r where "p = q @ r" "r \<noteq> []" | (up) x q' where "q = p @ x # q'"
      | (branch) c x q' y r where "q = c @ x # q'" "p = c @ y # r" "y \<noteq> x"
      by (rule path_cases)
    then show ?case
    proof cases
      case same
      then show ?thesis using ANode.prems by (intro ins_same) auto
    next
      case (below r)
      then obtain x xs where x: "r = x # xs" by (cases r) auto
      have xb: "x < b" "x < length ts" using ANode.prems below x by (auto simp: valid_def wf_node)
      have gd: "gd (opt_content (ts ! x) r) s = (Inr v, s')" using ANode.prems(4) below x xb by (simp add: content_below)
      let ?st0 = "st[i := NodeNone]"
      have "ins_ok b gd ?st0 (ts ! x) r s v s'"
      proof (cases "ts ! x")
        case None
        have "gd None s = (Inr v, s')" using gd None by simp
        then show ?thesis unfolding None using ANode.prems(3) below by (intro ins_none) auto
      next
        case (Some t)
        then have mem: "Some t \<in> set ts" using xb by (metis nth_mem)
        have "valid b ?st0 t" using child_valid[OF ANode.prems(1) mem] .
        then show ?thesis using ANode.IH[OF mem, of t ?st0 r] gd ANode.prems below Some by auto
      qed
      then show ?thesis using ins_below_node[OF ANode.prems(1) xb(1) x] below by simp
    next
      case (up x q')
      then have "content (ANode i q d ts) p = None"
        using content_prefix[of "ANode i q d ts" p] by (cases "content (ANode i q d ts) p") auto
      then show ?thesis using ANode.prems up by (intro ins_split_node[of _ _ _ _ x q']) auto
    next
      case (branch c x q' y r)
      then have "content (ANode i q d ts) p = None"
        using content_prefix[of "ANode i q d ts" p] by (cases "content (ANode i q d ts) p") auto
      then show ?thesis using ANode.prems branch ins_split_branch[of b st "ANode i q d ts" c x q' y r gd s v s'] by simp
    qed
  qed
qed


section \<open>Look-up returns the data on the path\<close>

definition own_hit :: "(nat list \<Rightarrow> 'a option) \<Rightarrow> ('a, nat) LookupResult list" where
  "own_hit c = (case c [] of None \<Rightarrow> [] | Some d \<Rightarrow> [LookupResult [] d])"

fun hits :: "(nat list \<Rightarrow> 'a option) \<Rightarrow> nat list \<Rightarrow> ('a, nat) LookupResult list" where
  "hits c [] = own_hit c"
| "hits c (x # xs) = own_hit c @ extend_lookup_res_paths (hits (\<lambda>z. c (x # z)) xs) [x]"

lemma extend_simps [simp]:
  "extend_lookup_res_paths [] p = []"
  "extend_lookup_res_paths xs [] = xs"
  "extend_lookup_res_paths (xs @ ys) p = extend_lookup_res_paths xs p @ extend_lookup_res_paths ys p"
  "extend_lookup_res_paths (extend_lookup_res_paths xs p) q = extend_lookup_res_paths xs (q @ p)"
  "extend_lookup_res_paths [r] p = [LookupResult (p @ res_path r) (res_value r)]"
  "extend_lookup_res_paths xs p = [] \<longleftrightarrow> xs = []"
  by (auto simp: extend_lookup_res_paths_def intro: map_idI)

lemma own_hit_None [simp]: "c [] = None \<Longrightarrow> own_hit c = []"
  by (simp add: own_hit_def)

lemma hits_append:
  "(\<And>k. k < length q \<Longrightarrow> c (take k q) = None) \<Longrightarrow>
   hits c (q @ r) = extend_lookup_res_paths (hits (\<lambda>z. c (q @ z)) r) q"
proof (induction q arbitrary: c)
  case (Cons x q)
  have "hits (\<lambda>z. c (x # z)) (q @ r) = extend_lookup_res_paths (hits (\<lambda>z. c (x # q @ z)) r) q"
    using Cons.prems[of "Suc k" for k] by (intro Cons.IH) auto
  with Cons.prems[of 0] show ?case by simp
qed simp

lemma hits_None: "(\<And>k. c (take k p) = None) \<Longrightarrow> hits c p = []"
proof (induction p arbitrary: c)
  case (Cons x p)
  have "hits (\<lambda>z. c (x # z)) p = []" using Cons.prems[of "Suc k" for k] by (intro Cons.IH) simp
  with Cons.prems[of 0] show ?case by simp
qed simp

lemma hits_cong: "(\<And>z. z \<noteq> [] \<Longrightarrow> c z = c' z) \<Longrightarrow> c' [] = None \<Longrightarrow> hits c (x # xs) = own_hit c @ hits c' (x # xs)"
  by simp

text \<open>The hits are the data stored at the prefixes of the path, shortest first.\<close>

lemma hits_eq:
  "hits c p = List.map_filter (\<lambda>k. map_option (LookupResult (take k p)) (c (take k p))) [0..<Suc (length p)]"
proof (induction p arbitrary: c)
  case Nil
  then show ?case by (simp add: own_hit_def map_filter_simps split: option.splits)
next
  case (Cons x p)
  have "[0..<Suc (length (x # p))] = 0 # map Suc [0..<Suc (length p)]"
    by (simp add: upt_conv_Cons map_Suc_upt del: upt_Suc)
  moreover have "extend_lookup_res_paths (List.map_filter (\<lambda>k. map_option (LookupResult (take k p)) (c (x # take k p))) ks) [x] =
      List.map_filter (\<lambda>k. map_option (LookupResult (x # take k p)) (c (x # take k p))) ks" for ks
    by (induction ks) (auto simp: extend_lookup_res_paths_def map_filter_simps split: option.splits)
  ultimately show ?case
    by (simp add: Cons own_hit_def map_filter_simps map_filter_map del: upt_Suc split: option.splits)
qed

definition hits_opt :: "(nat list \<Rightarrow> 'a option) \<Rightarrow> nat list \<Rightarrow> ('a, nat) LookupResult list option" where
  "hits_opt c p = (if hits c p = [] then None else Some (hits c p))"

lemma look_up_internal_hits:
  assumes "\<And>t. ot = Some t \<Longrightarrow> valid b st t" "\<forall>x \<in> set p. x < b"
  shows "look_up_internal st (map_option idx ot) p = Some (hits_opt (opt_content ot) p)"
proof (cases ot)
  case None
  then show ?thesis by (simp add: look_up_internal.simps hits_opt_def hits_None)
next
  case (Some t)
  have "valid b st t" using assms(1) Some by simp
  then show ?thesis using assms(2) unfolding Some
  proof (induction t arbitrary: p)
    case (ALeaf i q d)
    have st: "i < length st" "st ! i = Leaf (DigitLeaf d q)" using ALeaf by (auto simp: valid_def)
    have look: "look_up_internal st (Some i) p =
        Some (if \<exists>r. p = q @ r then Some [LookupResult q d] else None)"
      using st by (subst look_up_internal.simps) (simp add: get_common_prefix_eq)
    show ?case
    proof (cases "\<exists>r. p = q @ r")
      case True
      then obtain r where r: "p = q @ r" ..
      have "hits (content (ALeaf i q d)) p = extend_lookup_res_paths (hits (\<lambda>z. content (ALeaf i q d) (q @ z)) r) q"
        unfolding r by (intro hits_append) auto
      also have "hits (\<lambda>z. content (ALeaf i q d) (q @ z)) r = [LookupResult [] d]"
        by (cases r) (simp_all add: own_hit_def hits_None)
      finally show ?thesis using look True by (simp add: hits_opt_def)
    next
      case False
      then have "content (ALeaf i q d) (take k p) = None" for k by auto (metis append_take_drop_id)
      then have "hits (content (ALeaf i q d)) p = []" by (rule hits_None)
      with look False show ?thesis by (simp add: hits_opt_def)
    qed
  next
    case (ANode i q d ts)
    have st: "i < length st" "st ! i = Node (DigitNode (map (map_option idx) ts) q d)"
      and hts: "\<And>u. Some u \<in> set ts \<Longrightarrow> holds u st" and len: "length ts = b"
      using ANode.prems by (auto simp: valid_def holds_node wf_node)
    let ?c = "content (ANode i q d ts)"
    show ?case
    proof (cases "\<exists>r. p = q @ r")
      case False
      have "?c (take k p) = None" for k
      proof (rule content_not_below)
        show "\<nexists>z. take k p = q @ z" using False by (metis append.assoc append_take_drop_id)
      qed
      then have "hits ?c p = []" by (rule hits_None)
      with False st show ?thesis by (subst look_up_internal.simps) (simp add: hits_opt_def)
    next
      case True
      then obtain r where r: "p = q @ r" ..
      have "?c (take k q) = None" if "k < length q" for k
        using content_not_below[of "take k q" q i d ts] that by (metis length_append length_take min.absorb4 not_add_less1)
      then have hq: "hits ?c p = extend_lookup_res_paths (hits (\<lambda>z. ?c (q @ z)) r) q"
        unfolding r by (rule hits_append)
      show ?thesis
      proof (cases r)
        case Nil
        then show ?thesis using st r hq
          by (subst look_up_internal.simps) (auto simp: hits_opt_def own_hit_def split: option.splits)
      next
        case (Cons x xs)
        have x: "x < b" using ANode.prems r Cons by simp
        let ?u = "ts ! x"
        have nil: "opt_content ?u [] = None"
        proof (cases ?u)
          case (Some u)
          then have "pre u \<noteq> []" using ANode.prems x by (auto simp: valid_def wf_node)
          then show ?thesis using Some content_prefix[of u "[]"] by (cases "content u []") auto
        qed simp
        have rec: "look_up_internal st (map_option idx ?u) r = Some (hits_opt (opt_content ?u) r)"
        proof (cases ?u)
          case None
          then show ?thesis by (simp add: look_up_internal.simps hits_opt_def hits_None)
        next
          case (Some u)
          then have mem: "Some u \<in> set ts" using x len by (metis nth_mem)
          have "valid b st u"
            using child_valid[OF ANode.prems(1) mem] hts[OF mem] by (simp add: valid_def)
          then show ?thesis using ANode.IH[OF mem, of u r] ANode.prems r Some by simp
        qed
        have "?c (q @ z) = opt_content ?u z" if "z \<noteq> []" "hd z = x" for z
          using that x len by (cases z) (auto simp: content_below)
        then have hr: "hits (\<lambda>z. ?c (q @ z)) r = own_hit (\<lambda>z. ?c (q @ z)) @ hits (opt_content ?u) r"
          unfolding Cons by (simp add: nil)
        have own: "own_hit (\<lambda>z. ?c (q @ z)) = (case d of None \<Rightarrow> [] | Some v \<Rightarrow> [LookupResult [] v])"
          by (simp add: own_hit_def)
        have "look_up_internal st (Some i) p =
            Some (case hits_opt (opt_content ?u) r of
              None \<Rightarrow> map_option (\<lambda>v. [LookupResult q v]) d
            | Some l \<Rightarrow> (case d of None \<Rightarrow> Some (extend_lookup_res_paths l q)
                | Some v \<Rightarrow> Some (LookupResult q v # extend_lookup_res_paths l q)))"
          using st r Cons x len rec
          by (subst look_up_internal.simps) (auto simp: Let_def nth_append split: option.splits)
        then show ?thesis by (auto simp: hits_opt_def hq hr own split: option.splits)
      qed
    qed
  qed
qed

end
