(* ===== verification/DigitTrieMap.thy ===== *)
theory DigitTrieMap
  imports DigitTrie
begin

text \<open>
  The digit trie as a finite map from digit paths to data: the abstraction relation, the contract
  of a path trie as a locale with its client lemmas, its interpretation on the trie of
  \<open>digit_trie.rs\<close>, the behaviour on an error of the callback, and the serialisation dump.
\<close>

section \<open>The abstraction relation\<close>

text \<open>
  The trie represents \<open>m\<close>: its root leads to a well-formed tree that uses every cell of the arena
  exactly once and whose content is \<open>m\<close>.
\<close>

definition is_trie :: "'a DigitTrie \<Rightarrow> (nat list \<Rightarrow> 'a option) \<Rightarrow> bool" where
  "is_trie t m \<longleftrightarrow> (\<exists>ot. root t = map_option idx ot \<and> (\<forall>u. ot = Some u \<longrightarrow> valid (base t) (store t) u) \<and>
     opt_foot ot = {..<length (store t)} \<and> m = opt_content ot)"

definition digits_ok :: "nat \<Rightarrow> nat list \<Rightarrow> bool" where
  "digits_ok b p \<longleftrightarrow> p \<noteq> [] \<and> (\<forall>x \<in> set p. x < b)"

lemma digits_okD: "digits_ok b p \<Longrightarrow> p \<noteq> []" "digits_ok b p \<Longrightarrow> \<forall>x \<in> set p. x < b"
  by (auto simp: digits_ok_def)

lemma is_trie_new: "is_trie (new_trie b) Map.empty"
  unfolding is_trie_def new_trie_def by (rule exI[of _ None]) simp

lemma is_trie_insert:
  assumes "is_trie t m" "digits_ok (base t) p" "gd (m p) s = (Inr v, s')"
  shows "\<exists>t'. insert_path gd t p s = Some (Inr (), t', s') \<and> is_trie t' (m(p \<mapsto> v)) \<and> base t' = base t"
proof -
  obtain ot where ot: "root t = map_option idx ot" "\<And>u. ot = Some u \<Longrightarrow> valid (base t) (store t) u"
    "opt_foot ot = {..<length (store t)}" "m = opt_content ot" using assms(1) unfolding is_trie_def by blast
  have "ins_ok (base t) gd (store t) ot p s v s'"
    using ot assms by (intro insert_internal_ok) (auto simp: digits_ok_def)
  then obtain st' u where u: "insert_internal (base t) gd (store t) (map_option idx ot) p s = Some (Inr (idx u), st', s')"
    "valid (base t) st' u" "content u = m(p \<mapsto> v)" "set (foot u) = opt_foot ot \<union> {length (store t)..<length st'}"
    "length (store t) \<le> length st'"
    unfolding ins_ok_def using ot(4) by blast
  let ?t = "t\<lparr>store := st', root := Some (idx u)\<rparr>"
  have "insert_path gd t p s = Some (Inr (), ?t, s')"
    unfolding insert_path_def using assms(2) u(1) ot(1) by (subst if_not_P) (auto simp: digits_ok_def)
  moreover have "is_trie ?t (m(p \<mapsto> v))"
    unfolding is_trie_def
  proof (intro exI[of _ "Some u"] conjI allI impI)
    show "opt_foot (Some u) = {..<length (store ?t)}"
      unfolding opt_simps u(4) ot(3) using u(5) by (simp add: ivl_disj_un)
  qed (use u in simp_all)
  ultimately show ?thesis by auto
qed

lemma is_trie_look_up:
  assumes "is_trie t m" "\<forall>x \<in> set p. x < base t"
  shows "look_up t p = Some (hits_opt m p)"
proof -
  obtain ot where ot: "root t = map_option idx ot" "\<And>u. ot = Some u \<Longrightarrow> valid (base t) (store t) u"
    "m = opt_content ot" using assms(1) unfolding is_trie_def by blast
  show ?thesis unfolding look_up_def ot(1,3) by (rule look_up_internal_hits[OF ot(2) assms(2)])
qed

lemma base_new_trie [simp]: "base (new_trie b) = b"
  by (simp add: new_trie_def)

lemma first_insert:
  assumes "digits_ok b p" "gd None s = (Inr v, s')"
  obtains t' where "insert_path gd (new_trie b) p s = Some (Inr (), t', s')" "is_trie t' [p \<mapsto> v]" "base t' = b"
  using is_trie_insert[OF is_trie_new, of b p gd s v s'] assms by auto

section \<open>The contract of a path trie\<close>

text \<open>
  What the multi-oracle tries rely on: an empty trie, an insertion whose callback sees the
  data already at the path, and a look-up of all data on the way to a path. \<open>rep t m\<close> relates a
  trie to the map it stands for.
\<close>

locale path_trie =
  fixes empty_trie :: 't
    and ins :: "('a, 'e, 's) get_data \<Rightarrow> 't \<Rightarrow> nat list \<Rightarrow> 's \<Rightarrow> (('e + unit) \<times> 't \<times> 's) option"
    and find :: "'t \<Rightarrow> nat list \<Rightarrow> ('a, nat) LookupResult list option option"
    and rep :: "'t \<Rightarrow> (nat list \<Rightarrow> 'a option) \<Rightarrow> bool"
    and ok :: "nat list \<Rightarrow> bool"
  assumes rep_empty: "rep empty_trie Map.empty"
    and rep_ins: "rep t m \<Longrightarrow> ok p \<Longrightarrow> gd (m p) s = (Inr v, s') \<Longrightarrow>
      \<exists>t'. ins gd t p s = Some (Inr (), t', s') \<and> rep t' (m(p \<mapsto> v))"
    and rep_find: "rep t m \<Longrightarrow> ok p \<Longrightarrow> find t p = Some (hits_opt m p)"

text \<open>A loop of insertions, each with its own callback: it stops at the first error.\<close>

fun insert_each ::
  "(('a, 'e, 's) get_data \<Rightarrow> 't \<Rightarrow> nat list \<Rightarrow> 's \<Rightarrow> (('e + unit) \<times> 't \<times> 's) option) \<Rightarrow> 't \<Rightarrow>
   (nat list \<times> ('a, 'e, 's) get_data) list \<Rightarrow> 's \<Rightarrow> (('e + unit) \<times> 't \<times> 's) option" where
  "insert_each ins t [] s = Some (Inr (), t, s)"
| "insert_each ins t ((p, gd) # ops) s =
     Option.bind (ins gd t p s) (\<lambda>(r, t, s). case r of Inl e \<Rightarrow> Some (Inl e, t, s) | Inr _ \<Rightarrow> insert_each ins t ops s)"

text \<open>The same loop on the map: \<open>None\<close> when a callback fails.\<close>

fun update_each ::
  "(nat list \<Rightarrow> 'a option) \<Rightarrow> (nat list \<times> ('a, 'e, 's) get_data) list \<Rightarrow> 's \<Rightarrow>
   ((nat list \<Rightarrow> 'a option) \<times> 's) option" where
  "update_each m [] s = Some (m, s)"
| "update_each m ((p, gd) # ops) s =
     (case gd (m p) s of (Inl e, s') \<Rightarrow> None | (Inr v, s') \<Rightarrow> update_each (m(p \<mapsto> v)) ops s')"

context path_trie
begin

lemma insert_each_rep:
  "rep t m \<Longrightarrow> \<forall>op \<in> set ops. ok (fst op) \<Longrightarrow> update_each m ops s = Some (m', s') \<Longrightarrow>
   \<exists>t'. insert_each ins t ops s = Some (Inr (), t', s') \<and> rep t' m'"
proof (induction m ops s arbitrary: t rule: update_each.induct)
  case (2 m p gd ops s)
  obtain v s2 where gd: "gd (m p) s = (Inr v, s2)" and rest: "update_each (m(p \<mapsto> v)) ops s2 = Some (m', s')"
    using 2(4) by (auto split: prod.splits sum.splits)
  obtain t2 where t2: "ins gd t p s = Some (Inr (), t2, s2)" "rep t2 (m(p \<mapsto> v))"
    using rep_ins[of t m p gd s v s2] 2(2,3) gd by auto
  moreover have "\<forall>op \<in> set ops. ok (fst op)" using 2(3) by simp
  ultimately show ?case using 2(1)[OF gd[symmetric] refl t2(2) _ rest] by simp
qed simp

lemma session:
  assumes "\<forall>op \<in> set ops. ok (fst op)" "update_each Map.empty ops s = Some (m, s')" "ok p"
  shows "\<exists>t. insert_each ins empty_trie ops s = Some (Inr (), t, s') \<and> find t p = Some (hits_opt m p)"
  using insert_each_rep[OF rep_empty assms(1,2)] rep_find assms(3) by blast

lemma last_insert_found:
  assumes "rep t m" "ok p" "gd (m p) s = (Inr v, s')"
  shows "\<exists>t' rs. ins gd t p s = Some (Inr (), t', s') \<and> find t' p = Some (Some rs) \<and> LookupResult p v \<in> set rs"
proof -
  obtain t' where t': "ins gd t p s = Some (Inr (), t', s')" "rep t' (m(p \<mapsto> v))" using rep_ins assms by blast
  have "LookupResult p v \<in> set (hits (m(p \<mapsto> v)) p)"
    by (simp add: hits_eq map_filter_def image_iff)
  then have "hits_opt (m(p \<mapsto> v)) p = Some (hits (m(p \<mapsto> v)) p)" by (auto simp: hits_opt_def)
  then show ?thesis using t' rep_find[OF t'(2) assms(2)] \<open>LookupResult p v \<in> _\<close> by auto
qed

end

text \<open>The trie of \<open>digit_trie.rs\<close> keeps the contract, for every base.\<close>

interpretation digit_trie: path_trie "new_trie b" insert_path look_up
  "\<lambda>t m. is_trie t m \<and> base t = b" "digits_ok b" for b
proof unfold_locales
  show "is_trie (new_trie b) Map.empty \<and> base (new_trie b) = b" by (simp add: is_trie_new)
  show "\<exists>t'. insert_path gd t p s = Some (Inr (), t', s') \<and> is_trie t' (m(p \<mapsto> v)) \<and> base t' = b"
    if "is_trie t m \<and> base t = b" "digits_ok b p" "gd (m p) s = (Inr v, s')"
    for t m p v s' gd s
    using is_trie_insert[of t m p gd s v s'] that by auto
  show "look_up t p = Some (hits_opt m p)" if "is_trie t m \<and> base t = b" "digits_ok b p" for t m p
    using is_trie_look_up that by (auto simp: digits_ok_def)
qed

section \<open>An error of the callback\<close>

text \<open>
  The nodes on the way were moved out of the arena: when the callback fails, the \<open>?\<close> leaves the
  placeholder at the top of the subtrie.
\<close>

definition ins_err ::
  "nat \<Rightarrow> ('a, 'e, 's) get_data \<Rightarrow> 'a arena \<Rightarrow> 'a atree option \<Rightarrow> nat list \<Rightarrow> 's \<Rightarrow> 'e \<Rightarrow> 's \<Rightarrow> bool" where
  "ins_err b gd st ot p s e s' \<longleftrightarrow>
     (\<exists>st'. insert_internal b gd st (map_option idx ot) p s = Some (Inl e, st', s') \<and> length st' = length st \<and>
        (\<forall>t. ot = Some t \<longrightarrow> st' ! idx t = NodeNone) \<and> (\<forall>j < length st. j \<notin> opt_foot ot \<longrightarrow> st' ! j = st ! j))"

lemma ins_errI:
  assumes "insert_internal b gd st (Some (idx t)) p s = Some (Inl e, st[idx t := NodeNone], s')" "idx t < length st"
  shows "ins_err b gd st (Some t) p s e s'"
proof -
  have "st[idx t := NodeNone] ! j = st ! j" if "j \<notin> set (foot t)" for j
    using that by (metis idx_in_foot nth_list_update_neq)
  then show ?thesis unfolding ins_err_def using assms by (intro exI[of _ "st[idx t := NodeNone]"]) auto
qed

lemma ins_err_same:
  assumes "valid b st t" "pre t = p" "gd (content t p) s = (Inl e, s')"
  shows "ins_err b gd st (Some t) p s e s'"
proof (rule ins_errI)
  show "idx t < length st" using assms(1) by (cases t) (auto simp: valid_def holds_node)
  show "insert_internal b gd st (Some (idx t)) p s = Some (Inl e, st[idx t := NodeNone], s')"
    using assms by (cases t; subst insert_internal.simps) (auto simp: valid_def holds_node content_node)
qed

lemma ins_err_off:
  assumes t: "valid b st t" and p: "pre t = c @ x # q" "p = c \<or> (\<exists>y r. p = c @ y # r \<and> y \<noteq> x)"
    and gd: "gd None s = (Inl e, s')"
  shows "ins_err b gd st (Some t) p s e s'"
proof (rule ins_errI)
  have h: "holds t st" using t by (simp add: valid_def)
  then show i: "idx t < length st" by (rule holds_foot_bound) simp
  have g: "get_node_prefix (st ! idx t) = Some (c @ x # q)" using set_node_prefix_Some[OF h] p(1) by auto
  have "get_common_prefix (c @ x # q) (c @ y # r) = c" if "y \<noteq> x" for y r using that by (induction c) auto
  moreover have "get_common_prefix (c @ x # q) c = c" by (induction c) auto
  ultimately have "get_common_prefix (c @ x # q) p = c" "c @ x # q \<noteq> p" using p(2) by auto
  then show "insert_internal b gd st (Some (idx t)) p s = Some (Inl e, st[idx t := NodeNone], s')"
    using i g gd by (subst insert_internal.simps) (simp add: Let_def)
qed

lemma ins_err_below:
  assumes t: "valid b st (ANode i p d ts)" and x: "x < b" "r = x # xs"
    and child: "ins_err b gd (st[i := NodeNone]) (ts ! x) r s e s'"
  shows "ins_err b gd st (Some (ANode i p d ts)) (p @ r) s e s'"
proof -
  have st: "i < length st" "st ! i = Node (DigitNode (map (map_option idx) ts) p d)" and len: "x < length ts"
    and dist: "i \<notin> set (sub_foot ts)"
    using t x by (auto simp: valid_def holds_node wf_node foot_node)
  obtain st1 where st1: "insert_internal b gd (st[i := NodeNone]) (map_option idx (ts ! x)) r s = Some (Inl e, st1, s')"
    "length st1 = length st" "\<And>j. j < length st \<Longrightarrow> j \<notin> opt_foot (ts ! x) \<Longrightarrow> st1 ! j = st[i := NodeNone] ! j"
    using child by (auto simp: ins_err_def)
  have sub: "opt_foot (ts ! x) \<subseteq> set (sub_foot ts)"
    unfolding sub_foot_split[OF len] opt_foot_def by auto
  have "insert_internal b gd st (Some i) (p @ r) s = Some (Inl e, st1, s')"
    using st st1 x len by (subst insert_internal.simps) (simp add: Let_def)
  moreover have "st1 ! i = NodeNone" using st1(3)[OF st(1)] sub dist st(1) by auto
  moreover have "st1 ! j = st ! j" if "j < length st" "j \<notin> set (foot (ANode i p d ts))" for j
    using st1(3)[OF that(1)] that(2) sub unfolding foot_node by (auto simp: nth_list_update)
  ultimately show ?thesis using st1(2) unfolding ins_err_def by auto
qed

lemma content_above: "(\<nexists>r. q = pre t @ r) \<Longrightarrow> content t q = None"
  using content_prefix[of t q] by (cases "content t q") auto

lemma insert_internal_err:
  assumes "\<And>t. ot = Some t \<Longrightarrow> valid b st t" "\<forall>x \<in> set p. x < b" "gd (opt_content ot p) s = (Inl e, s')"
  shows "ins_err b gd st ot p s e s'"
proof (cases ot)
  case None
  then show ?thesis using assms(3) by (auto simp: ins_err_def insert_internal.simps)
next
  case (Some t)
  have "valid b st t" using assms(1) Some by simp
  then show ?thesis using assms(2,3) unfolding Some
  proof (induction t arbitrary: st p)
    case (ALeaf i q d)
    have off: "gd None s = (Inl e, s')" if "q \<noteq> p" using ALeaf.prems(3) that by simp
    show ?case
    proof (rule path_cases[where p = p and q = q])
      show ?thesis if "q = p" using ALeaf that by (intro ins_err_same) auto
      show ?thesis if r: "p = q @ r" "r \<noteq> []" for r
      proof (rule ins_errI)
        show "idx (ALeaf i q d) < length st" using ALeaf.prems(1) by (simp add: valid_def)
        show "insert_internal b gd st (Some (idx (ALeaf i q d))) p s = Some (Inl e, st[idx (ALeaf i q d) := NodeNone], s')"
          using ALeaf.prems(1) r off by (subst insert_internal.simps) (auto simp: valid_def Let_def neq_Nil_conv)
      qed
      show ?thesis if "q = p @ x # q'" for x q' using ALeaf.prems(1) off that by (intro ins_err_off[where c = p]) auto
      show ?thesis if "q = c @ x # q'" "p = c @ y # r" "y \<noteq> x" for c x q' y r
        using ALeaf.prems(1) off that by (intro ins_err_off[where c = c]) auto
    qed
  next
    case (ANode i q d ts)
    let ?t = "ANode i q d ts"
    have off: "gd None s = (Inl e, s')" if "\<nexists>r. p = q @ r" using ANode.prems(3) content_above[of p ?t] that by simp
    show ?case
    proof (rule path_cases[where p = p and q = q])
      show ?thesis if "q = p" using ANode.prems that by (intro ins_err_same) auto
      show ?thesis if r: "p = q @ r" "r \<noteq> []" for r
      proof -
        obtain x xs where x: "r = x # xs" using r by (cases r) auto
        have xb: "x < b" "x < length ts" using ANode.prems r x by (auto simp: valid_def wf_node)
        have gd: "gd (opt_content (ts ! x) r) s = (Inl e, s')" using ANode.prems(3) r x xb by (simp add: content_below)
        have "ins_err b gd (st[i := NodeNone]) (ts ! x) r s e s'"
        proof (cases "ts ! x")
          case None
          then show ?thesis using gd by (auto simp: ins_err_def insert_internal.simps)
        next
          case (Some t)
          then have mem: "Some t \<in> set ts" using xb by (metis nth_mem)
          show ?thesis using ANode.IH[OF mem, of t "st[i := NodeNone]" r] child_valid[OF ANode.prems(1) mem] gd ANode.prems r Some
            by auto
        qed
        then show ?thesis using ins_err_below[OF ANode.prems(1) xb(1) x] r by simp
      qed
      show ?thesis if "q = p @ x # q'" for x q' using ANode.prems(1) off that by (intro ins_err_off[where c = p]) auto
      show ?thesis if "q = c @ x # q'" "p = c @ y # r" "y \<noteq> x" for c x q' y r
        using ANode.prems(1) off that by (intro ins_err_off[where c = c]) auto
    qed
  qed
qed

section \<open>What the callbacks keep\<close>

text \<open>A property of the state that the callback keeps is kept by an insertion, whatever its result.\<close>

lemma insert_internal_state:
  assumes keep: "\<And>d s. P s \<Longrightarrow> P (snd (gd d s))"
  shows "P s \<Longrightarrow> every (insert_internal b gd st cur path s) (\<lambda>y. P (snd (snd y)))"
proof -
  have "(\<forall>d s. P s \<longrightarrow> P (snd (gd d s))) \<longrightarrow> P s \<longrightarrow> P (snd (snd y))" if "insert_internal b gd st cur path s = Some y" for y
  proof (rule insert_internal.raw_induct[OF _ that], goal_cases)
    case (1 rec b gd st cur path s y)
    show ?case
    proof (intro impI)
      assume k: "\<forall>d s. P s \<longrightarrow> P (snd (gd d s))" and "P s"
      have keep: "P s'" if "gd d s = (r, s')" for d r s' using k \<open>P s\<close> that by (metis snd_conv)
      have IH: "P s'" if "rec b gd st0 cur0 path0 s = Some (r, st', s')" for st0 cur0 path0 r st' s'
        using 1(1)[OF that] k \<open>P s\<close> by simp
      show "P (snd (snd y))"
        by (rule everyD[OF _ 1(2)], (auto simp: Let_def intro!: every_bind split: option.split Node.split prod.split sum.split if_split)[1])
           (rule keep IH, assumption)+
    qed
  qed
  then show "P s \<Longrightarrow> every (insert_internal b gd st cur path s) (\<lambda>y. P (snd (snd y)))" using keep by (auto simp: every_def)
qed
lemma insert_path_state:
  assumes "\<And>d s. P s \<Longrightarrow> P (snd (gd d s))" "P s"
  shows "every (insert_path gd t path s) (\<lambda>(r, t', s'). P s')"
proof -
  have "every (insert_internal (base t) gd (store t) (root t) path s) (\<lambda>(r, st', s'). P s')"
    using insert_internal_state[of P gd, OF assms] by (simp add: split_def)
  then show ?thesis unfolding insert_path_def
    by (auto elim!: every_seq split: sum.split)
qed

section \<open>The dump\<close>

record 'a DigitNodeData =
  nd_data :: "'a option"
  nd_prefix :: "nat list"
  nd_children :: "nat option list option"

record 'a DigitTrieDump =
  dump_node_data :: "'a DigitNodeData list"
  dump_root :: "nat option"
  dump_base :: nat

fun get_data_of :: "('a DigitLeaf, 'a DigitNode) Node \<Rightarrow> 'a DigitNodeData option" where
  "get_data_of (Leaf l) = Some \<lparr>nd_data = Some (leaf_data l), nd_prefix = leaf_prefix l, nd_children = None\<rparr>"
| "get_data_of (Node n) = Some \<lparr>nd_data = node_data n, nd_prefix = node_prefix n, nd_children = Some (children n)\<rparr>"
| "get_data_of NodeNone = None"

text \<open>\<open>from_data\<close> unwraps the data of a leaf.\<close>

definition from_data :: "'a DigitNodeData \<Rightarrow> ('a DigitLeaf, 'a DigitNode) Node option" where
  "from_data d = (case nd_children d of
     Some c \<Rightarrow> Some (Node (DigitNode c (nd_prefix d) (nd_data d)))
   | None \<Rightarrow> map_option (\<lambda>v. Leaf (DigitLeaf v (nd_prefix d))) (nd_data d))"

definition dump :: "'a DigitTrie \<Rightarrow> 'a DigitTrieDump option" where
  "dump t = map_option (\<lambda>nd. \<lparr>dump_node_data = nd, dump_root = root t, dump_base = base t\<rparr>) (omap get_data_of (store t))"

definition from_dump :: "'a DigitTrieDump \<Rightarrow> 'a DigitTrie option" where
  "from_dump d = map_option (\<lambda>st. \<lparr>store = st, root = dump_root d, base = dump_base d\<rparr>) (omap from_data (dump_node_data d))"

lemma from_get_data: "get_data_of n = Some d \<Longrightarrow> from_data d = Some n"
  by (cases n) (auto simp: from_data_def)

lemma get_data_total: "n \<noteq> NodeNone \<Longrightarrow> \<exists>d. get_data_of n = Some d"
  by (cases n) auto

lemma omap_roundtrip:
  "(\<And>x y. f x = Some y \<Longrightarrow> g y = Some x) \<Longrightarrow> (\<And>x. x \<in> set xs \<Longrightarrow> \<exists>y. f x = Some y) \<Longrightarrow>
   \<exists>ys. omap f xs = Some ys \<and> omap g ys = Some xs"
  by (induction xs) (fastforce simp: bind_eq_Some_conv)+

lemma holds_no_placeholder: "holds t st \<Longrightarrow> j \<in> set (foot t) \<Longrightarrow> st ! j \<noteq> NodeNone"
proof (induction t)
  case (ANode i p d ts)
  then show ?case by (auto simp: holds_node foot_node sub_foot_set)
qed simp

lemma is_trie_no_placeholder:
  assumes "is_trie t m" "n \<in> set (store t)"
  shows "n \<noteq> NodeNone"
proof -
  obtain ot where ot: "\<And>u. ot = Some u \<Longrightarrow> valid (base t) (store t) u" "opt_foot ot = {..<length (store t)}"
    using assms(1) unfolding is_trie_def by blast
  obtain j where j: "j < length (store t)" "n = store t ! j" using assms(2) by (metis in_set_conv_nth)
  then have "j \<in> opt_foot ot" using ot(2) by simp
  then show ?thesis using ot(1) j(2) holds_no_placeholder by (cases ot) (auto simp: valid_def)
qed

section \<open>Properties\<close>

text \<open>C30: A successful insertion into a trie that represents m calls the callback once, with the data
  already at the path, and returns a trie that represents m updated at the path.\<close>

theorem digit_trie_insert_refines_update:
  assumes "is_trie t m" "digits_ok (base t) p" "gd (m p) s = (Inr v, s')"
  shows "\<exists>t'. insert_path gd t p s = Some (Inr (), t', s') \<and> is_trie t' (m(p \<mapsto> v)) \<and> base t' = base t"
  using assms by (rule is_trie_insert)

theorem digit_trie_insert_refines_update_witness:
  "\<exists>t'. insert_path (\<lambda>_ n. (Inr n :: string + nat, Suc n)) (new_trie 2) [1, 0] 7 = Some (Inr (), t', 8) \<and>
     is_trie t' [[1, 0] \<mapsto> 7] \<and> base t' = 2"
  using digit_trie_insert_refines_update[OF is_trie_new[of 2], of "[1, 0]" "\<lambda>_ n. (Inr n :: string + nat, Suc n)" 7 7 8]
  by (simp add: digits_ok_def)

text \<open>C31: A look-up returns the data stored at the prefixes of the path, shortest prefix first and
  each with the prefix as its path, and nothing when no prefix has data.\<close>

theorem digit_trie_look_up_prefixes:
  assumes "is_trie t m" "\<forall>x \<in> set p. x < base t"
  shows "look_up t p = Some (let rs = List.map_filter (\<lambda>k. map_option (LookupResult (take k p)) (m (take k p))) [0..<Suc (length p)]
     in if rs = [] then None else Some rs)"
  using is_trie_look_up[OF assms] unfolding hits_opt_def hits_eq by (simp add: Let_def del: upt_Suc)

theorem digit_trie_look_up_prefixes_witness:
  "\<exists>t'. insert_path (\<lambda>_ n. (Inr n :: string + nat, Suc n)) (new_trie 2) [1, 0] 7 = Some (Inr (), t', 8) \<and>
     look_up t' [1, 0, 1] = Some (Some [LookupResult [1, 0] 7])"
proof -
  obtain t' where t': "insert_path (\<lambda>_ n. (Inr n :: string + nat, Suc n)) (new_trie 2) [1, 0] 7 = Some (Inr (), t', 8)"
    "is_trie t' [[1, 0] \<mapsto> 7]" "base t' = 2"
    using first_insert[of 2 "[1, 0]" "\<lambda>_ n. (Inr n :: string + nat, Suc n)" 7 7 8] by (auto simp: digits_ok_def)
  have "look_up t' [1, 0, 1] = Some (Some [LookupResult [1, 0] 7])"
    using digit_trie_look_up_prefixes[OF t'(2), of "[1, 0, 1]"] t'(3) by (simp add: map_filter_simps upt_rec)
  with t'(1) show ?thesis by blast
qed

text \<open>Any sequence of successful insertions into an empty trie, followed by a look-up: the result is
  that of the same sequence of updates of a map.\<close>

theorem digit_trie_session:
  assumes "\<forall>op \<in> set ops. digits_ok b (fst op)" "update_each Map.empty ops s = Some (m, s')" "digits_ok b p"
  shows "\<exists>t. insert_each insert_path (new_trie b) ops s = Some (Inr (), t, s') \<and> look_up t p = Some (hits_opt m p)"
  using assms by (rule digit_trie.session)

theorem digit_trie_session_witness:
  "\<exists>t. insert_each insert_path (new_trie 2)
       [([0], \<lambda>_ n. (Inr [n] :: string + nat list, n + 1)), ([0, 1], \<lambda>_ n. (Inr [n], n + 1)),
        ([0], \<lambda>d n. (Inr (n # the d), n + 1))] 5 = Some (Inr (), t, 8) \<and>
     look_up t [0, 1, 1] = Some (Some [LookupResult [0] [7, 5], LookupResult [0, 1] [6]])"
proof -
  let ?ops = "[([0], \<lambda>_ n. (Inr [n] :: string + nat list, n + 1)), ([0, 1], \<lambda>_ n. (Inr [n], n + 1)),
    ([0], \<lambda>d n. (Inr (n # the d), n + 1))]"
  let ?m = "[[0::nat] \<mapsto> [5::nat], [0, 1] \<mapsto> [6], [0] \<mapsto> [7, 5]]"
  have "update_each Map.empty ?ops 5 = Some (?m, 8)" by simp
  moreover have "hits_opt ?m [0, 1, 1] = Some [LookupResult [0] [7, 5], LookupResult [0, 1] [6]]"
    by (simp add: hits_opt_def own_hit_def extend_lookup_res_paths_def)
  ultimately show ?thesis using digit_trie_session[of ?ops 2 5 ?m 8 "[0, 1, 1]"] by (simp add: digits_ok_def)
qed

text \<open>When the callback fails on a trie that is not empty, the insertion returns its error and leaves
  the placeholder where the root was: every later look-up panics.\<close>

theorem digit_trie_callback_error:
  assumes "is_trie t m" "digits_ok (base t) p" "root t \<noteq> None" "gd (m p) s = (Inl e, s')"
  shows "\<exists>t'. insert_path gd t p s = Some (Inl e, t', s') \<and> root t' = root t \<and> (\<forall>q. look_up t' q = None)"
proof -
  obtain u where u: "root t = Some (idx u)" "valid (base t) (store t) u" "m = content u"
    using assms(1,3) unfolding is_trie_def by auto
  obtain st' where st': "insert_internal (base t) gd (store t) (Some (idx u)) p s = Some (Inl e, st', s')"
    "length st' = length (store t)" "st' ! idx u = NodeNone"
    using insert_internal_err[of "Some u" "base t" "store t" p gd s e s'] u assms(2,4)
    by (auto simp: digits_ok_def ins_err_def)
  have i: "idx u < length st'" using st'(2) u(2) by (auto simp: valid_def intro: holds_foot_bound)
  have "insert_path gd t p s = Some (Inl e, t\<lparr>store := st'\<rparr>, s')"
    unfolding insert_path_def using assms(2) st'(1) u(1) by (subst if_not_P) (auto simp: digits_ok_def)
  moreover have "look_up (t\<lparr>store := st'\<rparr>) q = None" for q
    using u(1) i st'(3) by (simp add: look_up_def look_up_internal.simps)
  ultimately show ?thesis by auto
qed

theorem digit_trie_callback_error_witness:
  "\<exists>t1 t2. insert_path (\<lambda>_ _. (Inr 7 :: string + nat, ())) (new_trie 2) [1, 0] () = Some (Inr (), t1, ()) \<and>
     insert_path (\<lambda>_ _. (Inl ''invalid'', ())) t1 [1, 1] () = Some (Inl ''invalid'', t2, ()) \<and>
     look_up t2 [1, 0] = None"
proof -
  obtain t1 where t1: "insert_path (\<lambda>_ _. (Inr 7 :: string + nat, ())) (new_trie 2) [1, 0] () = Some (Inr (), t1, ())"
    "is_trie t1 [[1, 0] \<mapsto> 7]" "base t1 = 2"
    using first_insert[of 2 "[1, 0]" "\<lambda>_ _. (Inr 7 :: string + nat, ())" "()" 7 "()"] by (auto simp: digits_ok_def)
  have "root t1 \<noteq> None" using t1(2) by (auto simp: is_trie_def fun_eq_iff split: if_splits)
  then show ?thesis
    using digit_trie_callback_error[OF t1(2), of "[1, 1]" "\<lambda>_ _. (Inl ''invalid'', ())" "()" "''invalid''" "()"] t1(1,3)
    by (auto simp: digits_ok_def)
qed

text \<open>A trie that represents a map has a dump, and the trie restored from the dump is the trie.\<close>

theorem digit_trie_dump_roundtrip:
  assumes "is_trie t m"
  shows "\<exists>d. dump t = Some d \<and> from_dump d = Some t"
proof -
  have "\<exists>d. get_data_of n = Some d" if "n \<in> set (store t)" for n
    using get_data_total is_trie_no_placeholder[OF assms that] .
  then obtain nd where "omap get_data_of (store t) = Some nd" "omap from_data nd = Some (store t)"
    using omap_roundtrip[of get_data_of from_data "store t"] from_get_data by blast
  then show ?thesis by (simp add: dump_def from_dump_def)
qed

theorem digit_trie_dump_roundtrip_witness:
  "\<exists>t' d. insert_path (\<lambda>_ _. (Inr 7 :: string + nat, ())) (new_trie 2) [1, 0] () = Some (Inr (), t', ()) \<and>
     dump t' = Some d \<and> from_dump d = Some t'"
proof -
  obtain t' where t': "insert_path (\<lambda>_ _. (Inr 7 :: string + nat, ())) (new_trie 2) [1, 0] () = Some (Inr (), t', ())"
    "is_trie t' [[1, 0] \<mapsto> 7]"
    using first_insert[of 2 "[1, 0]" "\<lambda>_ _. (Inr 7 :: string + nat, ())" "()" 7 "()"] by (auto simp: digits_ok_def)
  then show ?thesis using digit_trie_dump_roundtrip[OF t'(2)] by blast
qed

text \<open>The guard of insert rejects only digits greater than the base: a digit equal to the base is
  accepted, and then a later insertion of a valid path panics.\<close>

theorem digit_trie_guard_off_by_one:
  "\<exists>t. insert_path (\<lambda>_ _. (Inr 7 :: string + nat, ())) (new_trie 2) [2] () = Some (Inr (), t, ()) \<and>
     insert_path (\<lambda>_ _. (Inr 8 :: string + nat, ())) t [1] () = None"
  by (simp add: insert_path_def insert_internal.simps new_trie_def insert_new_leaf_def get_common_prefix_def vset_def Let_def)

end
