(* ===== verification/DigitTrieIter.thy ===== *)
theory DigitTrieIter
  imports DigitTrieMap
begin

text \<open>
  The iterator of \<open>dlc-trie/src/digit_trie.rs\<close>. It keeps a stack of nodes with the child to visit next and the
  prefixes of the nodes it is below; the last elements of the vectors are the heads of the lists here. \<open>next\<close> calls
  itself and, in a node, loops over the children: the two are one partial function whose second argument is the
  loop it is in. An iterator on a trie of \<open>is_trie\<close> ends and yields the entries of the map in the order of paths.
\<close>

section \<open>The iterator\<close>

record DigitTrieIter =
  index_stack :: "(nat option \<times> int) list"
  cur_prefix :: "nat list list"

definition new_digit_iter :: "'a DigitTrie \<Rightarrow> DigitTrieIter" where
  "new_digit_iter t = \<lparr>index_stack = [(root t, -1)], cur_prefix = []\<rparr>"

definition found :: "DigitTrieIter \<Rightarrow> nat list \<Rightarrow> 'a \<Rightarrow> ('a, nat) LookupResult" where
  "found it p d = LookupResult (concat (filter (\<lambda>x. x \<noteq> []) (rev (cur_prefix it))) @ p) d"

text \<open>The loop of a node: its index, its children and the current child.\<close>

type_synonym node_loop = "nat \<times> nat option list \<times> int"

partial_function (option) digit_iter ::
  "'a DigitTrie \<Rightarrow> node_loop option \<Rightarrow> DigitTrieIter \<Rightarrow> (('a, nat) LookupResult option \<times> DigitTrieIter) option" where
  "digit_iter t w it =
     (case w of
        None \<Rightarrow>
          (case index_stack it of
             [] \<Rightarrow> Some (None, it)
           | (None, _) # rest \<Rightarrow> digit_iter t None (it\<lparr>index_stack := rest\<rparr>)
           | (Some cur_index, cur_child) # rest \<Rightarrow>
               let it = it\<lparr>index_stack := rest\<rparr> in
               Option.bind (vget (store t) cur_index) (\<lambda>node.
               case node of
                 NodeNone \<Rightarrow> None
               | Leaf l \<Rightarrow> Some (Some (found it (leaf_prefix l) (leaf_data l)), it)
               | Node n \<Rightarrow>
                   if int (base t) \<le> cur_child
                   then digit_iter t None (it\<lparr>cur_prefix := tl (cur_prefix it)\<rparr>)
                   else if cur_child = -1 \<and> node_data n \<noteq> None
                   then Some (Some (found it (node_prefix n) (the (node_data n))),
                     it\<lparr>index_stack := (Some cur_index, cur_child + 1) # rest\<rparr>)
                   else
                     let cur_child = (if cur_child = -1 then 0 else cur_child);
                         it = (if cur_child = 0 then it\<lparr>cur_prefix := node_prefix n # cur_prefix it\<rparr> else it)
                     in digit_iter t (Some (cur_index, children n, cur_child)) it))
      | Some (cur_index, cur_children, cur_child) \<Rightarrow>
          if cur_child < int (base t)
          then
            Option.bind (vget cur_children (nat cur_child)) (\<lambda>child.
            Option.bind (digit_iter t None
                (it\<lparr>index_stack := (child, -1) # (Some cur_index, cur_child + 1) # index_stack it\<rparr>)) (\<lambda>(r, it).
            case r of
              None \<Rightarrow> digit_iter t (Some (cur_index, cur_children, cur_child + 1)) (it\<lparr>index_stack := tl (index_stack it)\<rparr>)
            | Some res \<Rightarrow> Some (Some res, it)))
          else Some (None, it\<lparr>cur_prefix := tl (cur_prefix it), index_stack := tl (index_stack it)\<rparr>))"

declare digit_iter.simps [code]

definition digit_next :: "'a DigitTrie \<Rightarrow> DigitTrieIter \<Rightarrow> (('a, nat) LookupResult option \<times> DigitTrieIter) option" where
  "digit_next t it = digit_iter t None it"

section \<open>The entries of a tree\<close>

primrec entries :: "nat list \<Rightarrow> 'a atree \<Rightarrow> ('a, nat) LookupResult list" where
  "entries q (ALeaf i p d) = [LookupResult (q @ p) d]"
| "entries q (ANode i p d ts) = (case d of None \<Rightarrow> [] | Some d \<Rightarrow> [LookupResult (q @ p) d]) @
     concat (map (case_option [] (\<lambda>f. f (q @ p))) (map (map_option (\<lambda>t q. entries q t)) ts))"

definition oentries :: "nat list \<Rightarrow> 'a atree option \<Rightarrow> ('a, nat) LookupResult list" where
  "oentries q ot = (case ot of None \<Rightarrow> [] | Some t \<Rightarrow> entries q t)"

definition sub_entries :: "nat list \<Rightarrow> 'a atree option list \<Rightarrow> ('a, nat) LookupResult list" where
  "sub_entries q ts = concat (map (oentries q) ts)"

lemma oentries_simps [simp]: "oentries q None = []" "oentries q (Some t) = entries q t"
  by (simp_all add: oentries_def)

lemma entries_node: "entries q (ANode i p d ts) =
    (case d of None \<Rightarrow> [] | Some d \<Rightarrow> [LookupResult (q @ p) d]) @ sub_entries (q @ p) ts"
proof -
  have "map (case_option [] (\<lambda>f. f (q @ p))) (map (map_option (\<lambda>t q. entries q t)) ts) = map (oentries (q @ p)) ts"
    by (auto simp: oentries_def split: option.splits)
  then show ?thesis by (simp only: entries.simps sub_entries_def)
qed

declare entries.simps(2) [simp del]

lemma sub_entries_drop: "c < length ts \<Longrightarrow> sub_entries q (drop c ts) = oentries q (ts ! c) @ sub_entries q (drop (Suc c) ts)"
  by (simp add: sub_entries_def Cons_nth_drop_Suc[symmetric])

lemma sub_entries_Nil [simp]: "sub_entries q [] = []"
  by (simp add: sub_entries_def)

text \<open>Whether a tree has entries does not depend on the path to it.\<close>

lemma entries_empty: "entries q t = [] \<longleftrightarrow> entries q' t = []"
proof (induction t arbitrary: q q')
  case (ANode i p d ts)
  have "oentries (q @ p) ot = [] \<longleftrightarrow> oentries (q' @ p) ot = []" if "ot \<in> set ts" for ot
    using ANode that by (cases ot) (auto simp: oentries_def)
  then show ?case by (auto simp: entries_node sub_entries_def split: option.splits)
qed simp

lemma sub_entries_empty: "sub_entries q ts = [] \<longleftrightarrow> sub_entries q' ts = []"
proof -
  have "oentries q ot = [] \<longleftrightarrow> oentries q' ot = []" for ot :: "'a atree option"
    using entries_empty by (cases ot) (auto simp: oentries_def)
  then show ?thesis by (auto simp: sub_entries_def)
qed

section \<open>The frames of the stack\<close>

text \<open>A subtree that is not visited yet, or a node of which the children from \<open>c\<close> on are not.\<close>

datatype 'a frame = Fresh "'a atree option" | Resume nat "nat list" "'a option" "'a atree option list" nat

fun concrete :: "'a frame \<Rightarrow> nat option \<times> int" where
  "concrete (Fresh ot) = (map_option idx ot, -1)"
| "concrete (Resume i p d ts c) = (Some i, int c)"

fun frame_ok :: "'a DigitTrie \<Rightarrow> 'a frame \<Rightarrow> bool" where
  "frame_ok t (Fresh None) \<longleftrightarrow> True"
| "frame_ok t (Fresh (Some u)) \<longleftrightarrow> holds u (store t) \<and> wf_tree (base t) u"
| "frame_ok t (Resume i p d ts c) \<longleftrightarrow> holds (ANode i p d ts) (store t) \<and> wf_tree (base t) (ANode i p d ts)"

fun pending :: "'a frame list \<Rightarrow> nat list list \<Rightarrow> ('a, nat) LookupResult list" where
  "pending [] ps = []"
| "pending (Fresh ot # fs) ps = oentries (concat (rev ps)) ot @ pending fs ps"
| "pending (Resume i p d ts c # fs) ps =
     (if c = 0 then sub_entries (concat (rev ps) @ p) ts @ pending fs ps
      else sub_entries (concat (rev ps)) (drop c ts) @ pending fs (tl ps))"

text \<open>A bound on the calls.\<close>

primrec work :: "'a atree \<Rightarrow> nat" where
  "work (ALeaf i p d) = 2"
| "work (ANode i p d ts) = 4 + sum_list (map (\<lambda>x. case x of None \<Rightarrow> 4 | Some k \<Rightarrow> 4 + k) (map (map_option work) ts))"

definition owork :: "'a atree option \<Rightarrow> nat" where
  "owork ot = (case ot of None \<Rightarrow> 4 | Some t \<Rightarrow> 4 + work t)"

lemma work_node: "work (ANode i p d ts) = 4 + sum_list (map owork ts)"
proof -
  have "map (\<lambda>x. case x of None \<Rightarrow> 4 | Some k \<Rightarrow> 4 + k) (map (map_option work) ts) = map owork ts"
    by (simp add: owork_def comp_def option.case_eq_if option.map_sel cong: map_cong)
  then show ?thesis by (simp only: work.simps)
qed

declare work.simps(2) [simp del]

fun frame_work :: "'a frame \<Rightarrow> nat" where
  "frame_work (Fresh None) = 1"
| "frame_work (Fresh (Some t)) = work t + 1"
| "frame_work (Resume i p d ts c) = 2 + sum_list (map owork (drop c ts))"

lemma oentries_empty: "oentries q ot = [] \<longleftrightarrow> oentries q' ot = []"
  by (cases ot) (simp_all, rule entries_empty)

lemma empty_pending: "pending fs ps = [] \<longleftrightarrow> pending fs ps' = []"
proof (induction fs ps arbitrary: ps' rule: pending.induct)
  case (2 ot fs ps)
  show ?case using 2[of ps'] oentries_empty[of "concat (rev ps)" ot "concat (rev ps')"] by simp
next
  case (3 i p d ts c fs ps)
  show ?case
    using 3(1)[of ps'] 3(2)[of "tl ps'"] sub_entries_empty[of "concat (rev ps) @ p" ts "concat (rev ps') @ p"]
      sub_entries_empty[of "concat (rev ps)" "drop c ts" "concat (rev ps')"] by simp
qed simp

definition frames_work :: "'a frame list \<Rightarrow> nat" where
  "frames_work fs = sum_list (map frame_work fs)"

lemma frames_work_simps [simp]: "frames_work [] = 0" "frames_work (f # fs) = frame_work f + frames_work fs"
  by (simp_all add: frames_work_def)

definition iter_state :: "'a frame list \<Rightarrow> nat list list \<Rightarrow> DigitTrieIter" where
  "iter_state fs ps = \<lparr>index_stack = map concrete fs, cur_prefix = ps\<rparr>"

text \<open>What a call returns when \<open>xs\<close> is to come.\<close>

definition call_ok ::
  "'a DigitTrie \<Rightarrow> ('a, nat) LookupResult list \<Rightarrow> (('a, nat) LookupResult option \<times> DigitTrieIter) option \<Rightarrow> bool" where
  "call_ok t xs r \<longleftrightarrow> (case xs of
     [] \<Rightarrow> \<exists>ps. r = Some (None, \<lparr>index_stack = [], cur_prefix = ps\<rparr>)
   | x # xs \<Rightarrow> \<exists>fs ps. r = Some (Some x, iter_state fs ps) \<and> list_all (frame_ok t) fs \<and> pending fs ps = xs)"

lemma call_okI:
  "list_all (frame_ok t) fs \<Longrightarrow> pending fs ps = xs \<Longrightarrow> call_ok t (x # xs) (Some (Some x, iter_state fs ps))"
  "call_ok t [] (Some (None, \<lparr>index_stack = [], cur_prefix = ps\<rparr>))"
  by (auto simp: call_ok_def)

lemma found_simps [simp]: "found (iter_state fs ps) p d = LookupResult (concat (rev ps) @ p) d"
proof -
  have "concat (filter (\<lambda>x. x \<noteq> []) qs) = concat qs" for qs :: "nat list list" by (induction qs) auto
  then show ?thesis by (simp add: found_def iter_state_def)
qed

lemma iter_state_simps [simp]:
  "index_stack (iter_state fs ps) = map concrete fs" "cur_prefix (iter_state fs ps) = ps"
  "(iter_state fs ps)\<lparr>cur_prefix := qs\<rparr> = iter_state fs qs"
  "(iter_state fs ps)\<lparr>index_stack := map concrete gs\<rparr> = iter_state gs ps"
  by (simp_all add: iter_state_def)


definition loop_work :: "'a atree option list \<Rightarrow> nat \<Rightarrow> 'a frame list \<Rightarrow> nat" where
  "loop_work ts c fs = 1 + sum_list (map owork (drop c ts)) + frames_work fs"

definition loop_result :: "'a atree option list \<Rightarrow> nat \<Rightarrow> 'a frame list \<Rightarrow> nat list list \<Rightarrow> ('a, nat) LookupResult list" where
  "loop_result ts c fs ps = sub_entries (concat (rev ps)) (drop c ts) @ pending fs (tl ps)"

abbreviation run_loop ::
  "'a DigitTrie \<Rightarrow> nat \<Rightarrow> 'a atree option list \<Rightarrow> nat \<Rightarrow> 'a frame list \<Rightarrow> nat list list \<Rightarrow>
   (('a, nat) LookupResult option \<times> DigitTrieIter) option" where
  "run_loop t i ts c fs ps \<equiv> digit_iter t (Some (i, map (map_option idx) ts, int c)) (iter_state fs ps)"


lemma loop_step:
  assumes next_ok: "\<And>fs ps. list_all (frame_ok t) fs \<Longrightarrow> frames_work fs < loop_work ts c fs0 \<Longrightarrow>
      call_ok t (pending fs ps) (digit_iter t None (iter_state fs ps))"
    and loop_ok: "\<And>ps. c < base t \<Longrightarrow> call_ok t (loop_result ts (Suc c) [] ps) (run_loop t i ts (Suc c) [] ps)"
    and ok: "frame_ok t (Resume i p d ts c)" "list_all (frame_ok t) fs0" and c: "c < base t \<or> c = base t \<and> fs0 = []"
  shows "call_ok t (loop_result ts c fs0 ps) (run_loop t i ts c fs0 ps)"
proof (cases "c < base t")
  case False
  have len: "length ts = base t" using ok(1) by (simp add: wf_node)
  have "run_loop t i ts c fs0 ps = Some (None, \<lparr>index_stack = [], cur_prefix = tl ps\<rparr>)"
    using False c by (subst digit_iter.simps) (simp add: iter_state_def)
  then show ?thesis using False c len by (auto simp: loop_result_def intro: call_okI)
next
  case True
  have len: "c < length ts" using ok(1) True by (simp add: wf_node)
  let ?fs = "Fresh (ts ! c) # Resume i p d ts (Suc c) # fs0"
  have sub: "frame_ok t (Fresh (ts ! c))"
  proof (cases "ts ! c")
    case (Some u)
    then have "Some u \<in> set ts" using len nth_mem by metis
    then show ?thesis using ok(1) Some True by (auto simp: wf_node holds_node)
  qed simp
  have fs: "list_all (frame_ok t) ?fs" using ok sub by simp
  have work: "frames_work ?fs < loop_work ts c fs0"
    using len by (cases "ts ! c") (simp_all add: loop_work_def owork_def Cons_nth_drop_Suc[symmetric])
  have pend: "pending ?fs ps = loop_result ts c fs0 ps"
    using len by (simp add: loop_result_def sub_entries_drop)
  have call: "call_ok t (loop_result ts c fs0 ps) (digit_iter t None (iter_state ?fs ps))"
    using next_ok[OF fs work, of ps] pend by simp
  have run: "run_loop t i ts c fs0 ps = Option.bind (digit_iter t None (iter_state ?fs ps)) (\<lambda>(r, it).
      case r of
        None \<Rightarrow> digit_iter t (Some (i, map (map_option idx) ts, int c + 1)) (it\<lparr>index_stack := tl (index_stack it)\<rparr>)
      | Some res \<Rightarrow> Some (Some res, it))"
    using True len by (subst digit_iter.simps) (simp add: iter_state_def add.commute)
  show ?thesis
  proof (cases "loop_result ts c fs0 ps")
    case Nil
    then obtain ps' where "digit_iter t None (iter_state ?fs ps) = Some (None, iter_state [] ps')"
      using call by (auto simp: call_ok_def iter_state_def)
    then have "run_loop t i ts c fs0 ps = run_loop t i ts (Suc c) [] ps'"
      unfolding run by (simp add: iter_state_def add.commute)
    moreover have "loop_result ts (Suc c) [] ps' = []"
      using Nil len sub_entries_empty by (auto simp: loop_result_def sub_entries_drop)
    ultimately show ?thesis using loop_ok[OF True, of ps'] Nil by metis
  next
    case (Cons x xs)
    then obtain fs ps' where "digit_iter t None (iter_state ?fs ps) = Some (Some x, iter_state fs ps')"
      "list_all (frame_ok t) fs" "pending fs ps' = xs" using call by (auto simp: call_ok_def)
    then show ?thesis using Cons call_okI(1) by (simp add: run)
  qed
qed

lemma digit_iter_node:
  assumes "index_stack it = (Some i, c) # rest" "i < length (store t)" "store t ! i = Node n"
  shows "digit_iter t None it =
    (if int (base t) \<le> c then digit_iter t None (it\<lparr>index_stack := rest, cur_prefix := tl (cur_prefix it)\<rparr>)
     else if c = -1 \<and> node_data n \<noteq> None
     then Some (Some (found it (node_prefix n) (the (node_data n))), it\<lparr>index_stack := (Some i, 0) # rest\<rparr>)
     else if c \<le> 0 \<and> -1 \<le> c then digit_iter t (Some (i, children n, 0)) (it\<lparr>index_stack := rest, cur_prefix := node_prefix n # cur_prefix it\<rparr>)
     else digit_iter t (Some (i, children n, c)) (it\<lparr>index_stack := rest\<rparr>))"
proof -
  have [simp]: "found (it\<lparr>index_stack := xs\<rparr>) q e = found it q e" for xs q and e :: 'a by (simp add: found_def)
  have "digit_iter t None it =
    (if int (base t) \<le> c then digit_iter t None (it\<lparr>index_stack := rest, cur_prefix := tl (cur_prefix it)\<rparr>)
     else if c = -1 \<and> node_data n \<noteq> None
     then Some (Some (found it (node_prefix n) (the (node_data n))), it\<lparr>index_stack := (Some i, c + 1) # rest\<rparr>)
     else let cur_child = (if c = -1 then 0 else c);
              it' = (if cur_child = 0 then it\<lparr>index_stack := rest, cur_prefix := node_prefix n # cur_prefix it\<rparr> else it\<lparr>index_stack := rest\<rparr>)
          in digit_iter t (Some (i, children n, cur_child)) it')"
    by (subst digit_iter.simps) (simp add: assms)
  then show ?thesis by (auto simp: Let_def)
qed

lemma next_step:
  assumes next_ok: "\<And>fs' ps. list_all (frame_ok t) fs' \<Longrightarrow> frames_work fs' < frames_work fs \<Longrightarrow>
      call_ok t (pending fs' ps) (digit_iter t None (iter_state fs' ps))"
    and loop_ok: "\<And>i p d ts c fs' ps. list_all (frame_ok t) (Resume i p d ts c # fs') \<Longrightarrow> loop_work ts c fs' < frames_work fs \<Longrightarrow>
      c < base t \<Longrightarrow> call_ok t (loop_result ts c fs' ps) (run_loop t i ts c fs' ps)"
    and ok: "list_all (frame_ok t) fs" and b: "0 < base t"
  shows "call_ok t (pending fs ps) (digit_iter t None (iter_state fs ps))"
proof (cases fs)
  case Nil
  have "digit_iter t None (iter_state fs ps) = Some (None, \<lparr>index_stack = [], cur_prefix = ps\<rparr>)"
    using Nil by (subst digit_iter.simps) (simp add: iter_state_def)
  then show ?thesis using Nil by (auto intro: call_okI)
next
  case (Cons f fs')
  have fs': "list_all (frame_ok t) fs'" using ok Cons by simp
  have node: "call_ok t (pending fs ps) (digit_iter t None (iter_state fs ps))"
    if f: "concrete f = (Some i, c)" "frame_ok t (Resume i p d ts 0)"
      "pending fs ps = (if c = -1 then oentries (concat (rev ps)) (Some (ANode i p d ts)) @ pending fs' ps
        else pending (Resume i p d ts (nat c) # fs') ps)" "-1 \<le> c"
      "loop_work ts (nat c) fs' < frames_work fs" "frames_work fs' < frames_work fs" for i c p d ts
  proof -
    have st: "i < length (store t)" "store t ! i = Node (DigitNode (map (map_option idx) ts) p d)"
      and len: "length ts = base t" using f(2) by (simp_all add: holds_node wf_node)
    let ?rest = "iter_state fs' ps"
    have stack: "index_stack (iter_state fs ps) = (Some i, c) # map concrete fs'" using Cons f(1) by simp
    consider (finished) "int (base t) \<le> c" | (own) x where "c = -1" "d = Some x"
      | (start) "c = 0 \<or> c = -1 \<and> d = None" | (children) "0 < c" "c < int (base t)"
      using f(4) by (cases d) force+
    then show ?thesis
    proof cases
      case finished
      then have "digit_iter t None (iter_state fs ps) = digit_iter t None (iter_state fs' (tl ps))"
        using st b by (simp add: digit_iter_node[OF stack])
      moreover have "pending fs ps = pending fs' (tl ps)" using finished f(3) len b by (simp add: nat_eq_iff2)
      ultimately show ?thesis using next_ok[OF fs' f(6), of "tl ps"] by simp
    next
      case own
      have "iter_state fs ps\<lparr>index_stack := (Some i, 0) # map concrete fs'\<rparr> = iter_state (Resume i p d ts 0 # fs') ps"
        by (simp add: iter_state_def)
      then have "digit_iter t None (iter_state fs ps) =
          Some (Some (LookupResult (concat (rev ps) @ p) x), iter_state (Resume i p d ts 0 # fs') ps)"
        unfolding digit_iter_node[OF stack st] using own b by simp
      moreover have "list_all (frame_ok t) (Resume i p d ts 0 # fs')" using f(2) fs' by simp
      ultimately show ?thesis using own f(3) call_okI(1)[of t "Resume i p d ts 0 # fs'" ps] by (simp add: entries_node)
    next
      case start
      then have "digit_iter t None (iter_state fs ps) = run_loop t i ts 0 fs' (p # ps)"
        using st b by (auto simp: digit_iter_node[OF stack])
      moreover have "pending fs ps = loop_result ts 0 fs' (p # ps)"
        using start f(3) by (auto simp: loop_result_def entries_node)
      moreover have "list_all (frame_ok t) (Resume i p d ts 0 # fs')" using f(2) fs' by simp
      moreover have "loop_work ts 0 fs' < frames_work fs" using start f(5) by auto
      ultimately show ?thesis using loop_ok[of i p d ts 0 fs' "p # ps"] b by simp
    next
      case children
      then have "digit_iter t None (iter_state fs ps) = run_loop t i ts (nat c) fs' ps"
        using st b by (simp add: digit_iter_node[OF stack])
      moreover have "pending fs ps = loop_result ts (nat c) fs' ps"
        using children f(3) by (simp add: loop_result_def)
      moreover have "list_all (frame_ok t) (Resume i p d ts (nat c) # fs')" using f(2) fs' by simp
      ultimately show ?thesis using loop_ok[of i p d ts "nat c" fs' ps] children f(5) by simp
    qed
  qed
  show ?thesis
  proof (cases f)
    case (Fresh ot)
    show ?thesis
    proof (cases ot)
      case None
      then have "digit_iter t None (iter_state fs ps) = digit_iter t None (iter_state fs' ps)"
        using Cons Fresh by (subst digit_iter.simps) (simp add: iter_state_def)
      then show ?thesis using next_ok[OF fs', of ps] Cons Fresh None by simp
    next
      case (Some u)
      show ?thesis
      proof (cases u)
        case (ALeaf i p d)
        then have "digit_iter t None (iter_state fs ps) = Some (Some (LookupResult (concat (rev ps) @ p) d), iter_state fs' ps)"
          using ok Cons Fresh Some by (subst digit_iter.simps) simp
        then show ?thesis using call_okI(1)[OF fs'] Cons Fresh Some ALeaf by simp
      next
        case (ANode i p d ts)
        then show ?thesis using Cons Fresh Some ok
          by (intro node[of i "-1" p d ts]) (simp_all add: loop_work_def work_node)
      qed
    qed
  next
    case (Resume i p d ts c)
    then show ?thesis using Cons ok by (intro node[of i "int c" p d ts]) (simp_all add: loop_work_def)
  qed
qed


lemma digit_iter_runs:
  assumes b: "0 < base t"
  shows "(\<forall>fs ps. list_all (frame_ok t) fs \<longrightarrow> frames_work fs = k \<longrightarrow>
      call_ok t (pending fs ps) (digit_iter t None (iter_state fs ps))) \<and>
    (\<forall>i p d ts c fs ps. list_all (frame_ok t) (Resume i p d ts c # fs) \<longrightarrow> loop_work ts c fs = k \<longrightarrow>
      c < base t \<or> c = base t \<and> fs = [] \<longrightarrow> call_ok t (loop_result ts c fs ps) (run_loop t i ts c fs ps))"
proof (induction k rule: less_induct)
  case (less k)
  have nxt: "call_ok t (pending fs ps) (digit_iter t None (iter_state fs ps))"
    if "list_all (frame_ok t) fs" "frames_work fs < k" for fs ps using less that by blast
  have loop: "call_ok t (loop_result ts c fs ps) (run_loop t i ts c fs ps)"
    if "list_all (frame_ok t) (Resume i p d ts c # fs)" "loop_work ts c fs < k" "c < base t \<or> c = base t \<and> fs = []"
    for i p d ts c fs ps using less that by blast
  show ?case
  proof (intro conjI allI impI)
    fix fs ps assume fs: "list_all (frame_ok t) fs" "frames_work fs = k"
    show "call_ok t (pending fs ps) (digit_iter t None (iter_state fs ps))"
      by (rule next_step[OF nxt loop fs(1) b]) (use fs(2) in auto)
  next
    fix i p d ts c fs ps
    assume a: "list_all (frame_ok t) (Resume i p d ts c # fs)" "loop_work ts c fs = k" "c < base t \<or> c = base t \<and> fs = []"
    have ok: "frame_ok t (Resume i p d ts c)" "list_all (frame_ok t) fs" using a(1) by simp_all
    have less_work: "loop_work ts (Suc c) [] < k" if "c < base t"
    proof -
      have "c < length ts" using that a(1) by (simp add: wf_node)
      then show ?thesis unfolding a(2)[symmetric]
        by (cases "ts ! c") (simp_all add: loop_work_def owork_def Cons_nth_drop_Suc[symmetric])
    qed
    show "call_ok t (loop_result ts c fs ps) (run_loop t i ts c fs ps)"
    proof (rule loop_step[OF _ _ ok a(3)])
      show "call_ok t (pending fs' ps') (digit_iter t None (iter_state fs' ps'))"
        if "list_all (frame_ok t) fs'" "frames_work fs' < loop_work ts c fs" for fs' ps'
        using nxt[OF that(1)] that(2) a(2) by simp
      show "call_ok t (loop_result ts (Suc c) [] ps') (run_loop t i ts (Suc c) [] ps')" if "c < base t" for ps'
        by (rule loop[of i p d ts "Suc c" "[]" ps']) (use ok(1) that less_work[OF that] in auto)
    qed
  qed
qed

section \<open>The items to come\<close>

definition digit_iter_of :: "'a DigitTrie \<Rightarrow> DigitTrieIter \<Rightarrow> ('a, nat) LookupResult list \<Rightarrow> bool" where
  "digit_iter_of t it xs \<longleftrightarrow> 0 < base t \<and>
     (\<exists>fs ps. it = iter_state fs ps \<and> list_all (frame_ok t) fs \<and> pending fs ps = xs)"

interpretation digits: iterator "digit_next t" "digit_iter_of t" for t
proof
  have call: "call_ok t xs (digit_next t it)" if "digit_iter_of t it xs" for it xs
    using that digit_iter_runs[of t] unfolding digit_iter_of_def digit_next_def by blast
  show "\<exists>it'. digit_next t it = Some (None, it')" if "digit_iter_of t it []" for it
    using call[OF that] by (auto simp: call_ok_def)
  show "\<exists>it'. digit_next t it = Some (Some x, it') \<and> digit_iter_of t it' xs" if "digit_iter_of t it (x # xs)" for it x xs
    using call[OF that] that unfolding call_ok_def by (force simp: digit_iter_of_def)
qed

section \<open>The entries are the map\<close>

lemma entries_extend: "e \<in> set (entries q t) \<Longrightarrow> \<exists>r. res_path e = q @ pre t @ r"
proof (induction t arbitrary: q e)
  case (ANode i p d ts)
  show ?case
  proof (cases "e \<in> set (sub_entries (q @ p) ts)")
    case True
    then obtain u where "Some u \<in> set ts" "e \<in> set (entries (q @ p) u)"
      by (auto simp: sub_entries_def oentries_def split: option.splits)
    then show ?thesis using ANode.IH[of "Some u" u e "q @ p"] by auto
  next
    case False
    then show ?thesis using ANode.prems by (auto simp: entries_node split: option.splits)
  qed
qed simp

lemma set_sub_entries: "set (sub_entries q ts) = (\<Union>k < length ts. set (oentries q (ts ! k)))"
proof -
  have "set ts = (!) ts ` {..<length ts}" by (auto simp: set_conv_nth)
  then show ?thesis by (simp add: sub_entries_def)
qed

lemma oentries_extend:
  assumes "wf_tree b (ANode i p d ts)" "k < b" "e \<in> set (oentries q (ts ! k))"
  shows "\<exists>r. res_path e = q @ k # r"
proof -
  obtain u where u: "ts ! k = Some u" "e \<in> set (entries q u)"
    using assms(3) by (cases "ts ! k") auto
  then obtain r where "res_path e = q @ pre u @ r" using entries_extend by blast
  moreover have "pre u \<noteq> []" "hd (pre u) = k" using assms u(1) by (auto simp: wf_node)
  ultimately show ?thesis by (cases "pre u") auto
qed

lemma entries_set:
  "wf_tree b t \<Longrightarrow> set (entries q t) = {LookupResult (q @ r) v | r v. content t r = Some v}"
proof (induction t arbitrary: q)
  case (ANode i p d ts)
  have len: "length ts = b" using ANode.prems by (simp add: wf_node)
  have sub: "set (oentries (q @ p) (ts ! k)) = {LookupResult (q @ p @ k # r) v | r v. content (ANode i p d ts) (p @ k # r) = Some v}"
    if k: "k < b" for k
  proof (cases "ts ! k")
    case (Some u)
    have u: "Some u \<in> set ts" "wf_tree b u" "pre u \<noteq> []" "hd (pre u) = k"
      using ANode.prems k Some len nth_mem[of k ts] by (auto simp: wf_node)
    have "set (entries (q @ p) u) = {LookupResult ((q @ p) @ r) v | r v. content u r = Some v}"
      using ANode.IH[OF u(1) _ u(2)] by simp
    also have "\<dots> = {LookupResult (q @ p @ k # r) v | r v. content u (k # r) = Some v}"
    proof -
      have "\<exists>r'. r = k # r'" if "content u r = Some v" for r v
        using content_prefix[of u r] that u(3,4) by (cases "pre u") auto
      then show ?thesis by fastforce
    qed
    finally show ?thesis using Some k len by (simp add: content_below)
  qed (use k len in \<open>simp add: content_below\<close>)
  have "set (entries q (ANode i p d ts)) = {LookupResult (q @ p) v | v. d = Some v} \<union> (\<Union>k < b. set (oentries (q @ p) (ts ! k)))"
    by (auto simp: entries_node set_sub_entries len split: option.splits)
  also have "\<dots> = {LookupResult (q @ r) v | r v. content (ANode i p d ts) r = Some v}"
  proof (intro set_eqI iffI)
    fix e assume "e \<in> {LookupResult (q @ r) v | r v. content (ANode i p d ts) r = Some v}"
    then obtain r v where r: "e = LookupResult (q @ r) v" "content (ANode i p d ts) r = Some v" by blast
    obtain z where z: "r = p @ z" using r(2) content_not_below[of r p i d ts] by auto
    show "e \<in> {LookupResult (q @ p) v | v. d = Some v} \<union> (\<Union>k < b. set (oentries (q @ p) (ts ! k)))"
    proof (cases z)
      case (Cons k z')
      then have "k < b" using r(2) z len by (auto simp: content_below split: if_splits)
      then show ?thesis using sub[of k] r z Cons by auto
    qed (use r z in simp)
  next
    fix e assume e: "e \<in> {LookupResult (q @ p) v | v. d = Some v} \<union> (\<Union>k < b. set (oentries (q @ p) (ts ! k)))"
    show "e \<in> {LookupResult (q @ r) v | r v. content (ANode i p d ts) r = Some v}"
    proof (cases "e \<in> {LookupResult (q @ p) v | v. d = Some v}")
      case True
      then show ?thesis using content_at_prefix[of i p d ts] by blast
    next
      case False
      then obtain k where k: "k < b" "e \<in> set (oentries (q @ p) (ts ! k))" using e by blast
      then show ?thesis using sub[OF k(1)] by auto
    qed
  qed
  finally show ?case .
qed auto

abbreviation path_less :: "nat list \<Rightarrow> nat list \<Rightarrow> bool" where "path_less \<equiv> ord_class.lexordp"

lemma path_less_append [simp]: "path_less (q @ xs) (q @ ys) \<longleftrightarrow> path_less xs ys"
  by (induction q) auto

lemma path_less_extend [simp]: "path_less q (q @ k # r)"
  using path_less_append[of q "[]" "k # r"] by simp

lemma entries_sorted: "wf_tree b t \<Longrightarrow> sorted_wrt path_less (map res_path (entries q t))"
proof (induction t arbitrary: q)
  case (ANode i p d ts)
  have len: "length ts = b" using ANode.prems by (simp add: wf_node)
  have ext: "\<exists>k r. c \<le> k \<and> res_path e = (q @ p) @ k # r" if e: "e \<in> set (sub_entries (q @ p) (drop c ts))" for c e
  proof -
    obtain j where "j < length ts - c" "e \<in> set (oentries (q @ p) (ts ! (c + j)))"
      using e by (auto simp: set_sub_entries)
    then obtain r where "res_path e = (q @ p) @ (c + j) # r"
      using oentries_extend[OF ANode.prems, of "c + j" e "q @ p"] len by fastforce
    then show ?thesis by (intro exI[of _ "c + j"] exI[of _ r]) simp
  qed
  have "sorted_wrt path_less (map res_path (sub_entries (q @ p) (drop c ts)))" if "c \<le> b" for c
    using that
  proof (induction c rule: inc_induct)
    case base
    then show ?case using len by simp
  next
    case (step c)
    have "sorted_wrt path_less (map res_path (oentries (q @ p) (ts ! c)))"
      using ANode.IH[of "ts ! c"] ANode.prems step.hyps len nth_mem[of c ts] by (cases "ts ! c") (auto simp: wf_node)
    moreover have "path_less x y" if xy: "x \<in> set (map res_path (oentries (q @ p) (ts ! c)))"
        "y \<in> set (map res_path (sub_entries (q @ p) (drop (Suc c) ts)))" for x y
    proof -
      obtain r where "x = (q @ p) @ c # r" using xy(1) oentries_extend[OF ANode.prems, of c _ "q @ p"] step.hyps by fastforce
      moreover obtain k r' where "Suc c \<le> k" "y = (q @ p) @ k # r'" using xy(2) ext[of _ "Suc c"] by fastforce
      ultimately show ?thesis by simp
    qed
    ultimately show ?case using step len by (simp add: sub_entries_drop sorted_wrt_append)
  qed
  from this[of 0] have "sorted_wrt path_less (map res_path (sub_entries (q @ p) ts))" by simp
  moreover have "path_less (q @ p) (res_path e)" if "e \<in> set (sub_entries (q @ p) ts)" for e
    using ext[of e 0] that by auto
  ultimately show ?case by (auto simp: entries_node split: option.splits)
qed simp

lemma path_less_irrefl: "\<not> path_less p p"
  using path_less_append[of p "[]" "[]"] by simp

lemma sorted_paths_distinct: "sorted_wrt path_less ps \<Longrightarrow> distinct ps"
  by (induction ps) (auto simp: path_less_irrefl)

lemma digit_iter_entries:
  assumes "is_trie t m" "0 < base t"
  shows "\<exists>xs. digit_iter_of t (new_digit_iter t) xs \<and> set xs = {LookupResult p v | p v. m p = Some v} \<and>
    sorted_wrt path_less (map res_path xs)"
proof -
  obtain ot where ot: "root t = map_option idx ot" "\<And>u. ot = Some u \<Longrightarrow> valid (base t) (store t) u" "m = opt_content ot"
    using assms(1) unfolding is_trie_def by blast
  have "digit_iter_of t (new_digit_iter t) (oentries [] ot)"
    unfolding digit_iter_of_def
  proof (intro conjI exI)
    show "new_digit_iter t = iter_state [Fresh ot] []" using ot(1) by (simp add: new_digit_iter_def iter_state_def)
    show "list_all (frame_ok t) [Fresh ot]" using ot(2) by (cases ot) (auto simp: valid_def)
  qed (use assms in simp_all)
  moreover have "set (oentries [] ot) = {LookupResult p v | p v. m p = Some v} \<and> sorted_wrt path_less (map res_path (oentries [] ot))"
    using entries_set[of "base t" _ "[]"] entries_sorted[of "base t" _ "[]"] ot(2,3) by (cases ot) (auto simp: valid_def)
  ultimately show ?thesis by blast
qed

text \<open>C38: Iterating over a digit trie ends, and yields every entry of the map exactly once, in the lexicographic order of paths.\<close>

theorem digit_trie_iterates:
  assumes "is_trie t m" "0 < base t"
  shows "\<exists>xs. drain (digit_next t) (new_digit_iter t) = Some xs \<and> set xs = {LookupResult p v | p v. m p = Some v} \<and>
    sorted_wrt path_less (map res_path xs)"
  using digit_iter_entries[OF assms] digits.drain_yields by blast

theorem digit_trie_iterates_witness:
  "\<exists>t xs. insert_path (\<lambda>_ s. (Inr True, s)) (new_trie 2) [1, 0] () = Some ((Inr () :: string + unit), t, ()) \<and>
    drain (digit_next t) (new_digit_iter t) = Some xs \<and> set xs = {LookupResult [1, 0] True}"
proof -
  obtain t where t: "insert_path (\<lambda>_ s. (Inr True, s)) (new_trie 2) [1, 0] () = Some ((Inr () :: string + unit), t, ())"
    "is_trie t [[1, 0] \<mapsto> True]" "base t = 2"
    using is_trie_insert[OF is_trie_new, of 2 "[1, 0]" "\<lambda>_ s. (Inr True, s)" "()" True "()"]
    by (auto simp: digits_ok_def)
  show ?thesis using digit_trie_iterates[OF t(2)] t(1,3) by (auto split: if_splits)
qed

end
