(* ===== verification/MultiTrie.thy ===== *)
theory MultiTrie
  imports DigitTrieMap MultiOracle
begin

text \<open>
  \<open>dlc-trie/src/multi_trie.rs\<close>: the trie of tries. The nodes of its arena are digit tries: a leaf
  maps digit paths to values, an inner node maps digit paths to the children, one for each next
  oracle. A path through the multi trie has a digit path for each of \<open>nb_required\<close> oracles.
\<close>

section \<open>Data\<close>

record TrieNodeInfo =
  trie_index :: nat
  store_index :: nat

type_synonym 'v multi_node = "('v DigitTrie, TrieNodeInfo list DigitTrie) Node"

record 'v MultiTrie =
  mt_store :: "'v multi_node list"
  nb_tries :: nat
  nb_required :: nat
  min_support_exp :: nat
  max_error_exp :: nat
  maximize_coverage :: bool
  mt_infos :: OracleNumericInfo

type_synonym indexed_path = "nat \<times> nat list"

type_synonym ('v, 's) get_value = "nat list list \<Rightarrow> nat list \<Rightarrow> 's \<Rightarrow> (DlcError + 'v) \<times> 's"

definition new_multi_node :: "nat \<Rightarrow> bool \<Rightarrow> 'v multi_node" where
  "new_multi_node b is_leaf = (if is_leaf then Leaf (new_trie b) else Node (new_trie b))"

definition new_multi_trie :: "OracleNumericInfo \<Rightarrow> nat \<Rightarrow> nat \<Rightarrow> nat \<Rightarrow> bool \<Rightarrow> 'v MultiTrie option" where
  "new_multi_trie infos required min_support max_error maximize =
     (let tries = length (nb_digits infos) in
      if 0 < required \<and> required \<le> tries \<and> nb_digits infos \<noteq> []
      then Some \<lparr>mt_store = replicate (tries - required + 1) (new_multi_node (oni_base infos) (required \<le> 1)),
        nb_tries = tries, nb_required = required, min_support_exp = min_support, max_error_exp = max_error,
        maximize_coverage = maximize, mt_infos = infos\<rparr>
      else None)"

fun find_store_index :: "TrieNodeInfo list \<Rightarrow> nat \<Rightarrow> nat option" where
  "find_store_index [] j = None"
| "find_store_index (info # infos) j = (if j = trie_index info then Some (store_index info) else find_store_index infos j)"

section \<open>Insertion\<close>

text \<open>
  The callback of an inner node: the child of the next oracle is reused or pushed to the arena.
  Its state is the arena and the index of the child.
\<close>

definition child_callback ::
  "nat \<Rightarrow> bool \<Rightarrow> nat \<Rightarrow> (TrieNodeInfo list, DlcError, 'v multi_node list \<times> nat) get_data" where
  "child_callback b is_leaf j cur_data_res s =
     (let (st, i) = s;
          insert_new = (\<lambda>cur_data. let st = st @ [new_multi_node b is_leaf]; i = length st - 1 in
            (Inr (cur_data @ [\<lparr>trie_index = j, store_index = i\<rparr>]), (st, i)))
      in case cur_data_res of
        None \<Rightarrow> insert_new []
      | Some cur_data \<Rightarrow> (case find_store_index cur_data j of
            Some k \<Rightarrow> (Inr cur_data, (st, k))
          | None \<Rightarrow> insert_new cur_data))"

text \<open>
  \<open>swap_remove\<close> after a push leaves the placeholder in the arena. The result is the arena at the
  end, also on an error of \<open>get_value\<close>.
\<close>

function mt_insert_internal ::
  "nat \<Rightarrow> ('v, 's) get_value \<Rightarrow> nat \<Rightarrow> nat list list \<Rightarrow> nat \<Rightarrow> nat list \<Rightarrow> 'v multi_node list \<times> 's \<Rightarrow>
   ((DlcError + unit) \<times> ('v multi_node list \<times> 's)) option" where
  "mt_insert_internal b get_value cur paths i tidx (st, s) =
     (if \<not> i < length paths then None
      else Option.bind (vget st cur) (\<lambda>cur_node.
        let st = st[cur := NodeNone] in
        case cur_node of
          NodeNone \<Rightarrow> None
        | Leaf t \<Rightarrow>
            (if i \<noteq> length paths - 1 then None
             else Option.bind (insert_path (\<lambda>_. get_value paths tidx) t (paths ! i) s) (\<lambda>(r, t, s).
               case r of
                 Inl e \<Rightarrow> Some (Inl e, (st, s))
               | Inr _ \<Rightarrow> Some (Inr (), (st[cur := Leaf t], s))))
        | Node t \<Rightarrow>
            (if \<not> i < length paths - 1 then None
             else Option.bind (vget tidx (i + 1)) (\<lambda>j.
               Option.bind (insert_path (child_callback b (length paths - 1 = i + 1) j) t (paths ! i) (st, 0)) (\<lambda>(r, t, (st, k)).
               case r of
                 Inl e \<Rightarrow> Some (Inl e, (st, s))
               | Inr _ \<Rightarrow> mt_insert_internal b get_value k paths (i + 1) tidx (st[cur := Node t], s))))))"
  by pat_completeness auto
termination
  by (relation "measure (\<lambda>(b, gv, cur, paths, i, tidx, st, s). length paths - i)") auto

declare mt_insert_internal.simps [simp del]

text \<open>\<open>reorder_to_min_first\<close>: the index of the first minimum, and the list with it in front.\<close>

definition reorder_to_min_first :: "nat list \<Rightarrow> (nat \<times> nat list) option" where
  "reorder_to_min_first xs =
     Option.bind (find_first_index (\<lambda>x. \<forall>y \<in> set xs. x \<le> y) xs) (\<lambda>i.
       Some (i, if i \<noteq> 0 then xs ! i # take i xs @ drop (Suc i) xs else xs))"

text \<open>\<open>combination.remove(0)\<close> and \<open>insert(min_index, _)\<close>.\<close>

definition move_first_to :: "nat \<Rightarrow> 'a list \<Rightarrow> 'a list option" where
  "move_first_to i xs =
     (case xs of [] \<Rightarrow> None | x # rest \<Rightarrow> if i \<le> length rest then Some (take i rest @ x # drop i rest) else None)"

text \<open>The combinations of paths for one selection of oracles.\<close>

definition selection_combinations :: "'v MultiTrie \<Rightarrow> nat \<Rightarrow> nat list \<Rightarrow> nat list \<Rightarrow> nat list list list option" where
  "selection_combinations t m path sel =
     (if 1 < nb_required t
      then do {
        (min_index, digit_infos) \<leftarrow> reorder_to_min_first (selected_infos (nb_digits (mt_infos t)) sel);
        d0 \<leftarrow> vget digit_infos 0;
        to_pad \<leftarrow> u64_sub d0 m;
        padded \<leftarrow> pre_pad_vec path (length path + to_pad);
        combinations \<leftarrow> compute_outcome_combinations digit_infos padded (max_error_exp t) (min_support_exp t) (maximize_coverage t);
        if min_index \<noteq> 0 then omap (move_first_to min_index) combinations else Some combinations
      }
      else Some [[path]])"

definition mt_insert_paths ::
  "('v, 's) get_value \<Rightarrow> nat list list \<Rightarrow> nat list \<Rightarrow> 'v MultiTrie \<times> 's \<Rightarrow> ((DlcError + unit) \<times> ('v MultiTrie \<times> 's)) option" where
  "mt_insert_paths get_value paths tidx = (\<lambda>(t, s).
     Option.bind (vget tidx 0) (\<lambda>r.
     Option.bind (mt_insert_internal (oni_base (mt_infos t)) get_value r paths 0 tidx (mt_store t, s)) (\<lambda>(r, (st, s)).
     Some (r, (t\<lparr>mt_store := st\<rparr>, s)))))"

definition mt_insert ::
  "('v, 's) get_value \<Rightarrow> 'v MultiTrie \<Rightarrow> nat list \<Rightarrow> 's \<Rightarrow> ((DlcError + unit) \<times> ('v MultiTrie \<times> 's)) option" where
  "mt_insert get_value t path s =
     do {
       it \<leftarrow> new (nb_tries t) (nb_required t);
       m \<leftarrow> get_min_nb_digits (mt_infos t);
       selectors \<leftarrow> collect it;
       each_state (\<lambda>sel (t, s). Option.bind (selection_combinations t m path sel) (\<lambda>cs.
         each_state (\<lambda>c. mt_insert_paths get_value c sel) cs (t, s))) selectors (t, s)
     }"

definition mt_insert_max_paths ::
  "('v, 's) get_value \<Rightarrow> 'v MultiTrie \<Rightarrow> 's \<Rightarrow> ((DlcError + unit) \<times> ('v MultiTrie \<times> 's)) option" where
  "mt_insert_max_paths get_value t s =
     Option.bind (get_max_covering_paths (mt_infos t) (nb_required t)) (\<lambda>ps.
       each_state (\<lambda>p. mt_insert_paths get_value (map snd p) (map fst p)) ps (t, s))"

text \<open>What \<open>get_value\<close> keeps of its state is kept by an insertion.\<close>

lemma mt_insert_internal_state:
  assumes keep: "\<And>ps is s. P s \<Longrightarrow> P (snd (get_value ps is s))"
  shows "P s \<Longrightarrow> every (mt_insert_internal b get_value cur paths i tidx (st, s)) (\<lambda>(r, (st', s')). P s')"
proof (induction "length paths - i" arbitrary: cur i st s rule: less_induct)
  case less
  have leaf: "P s'" if "insert_path (\<lambda>_. get_value paths tidx) t p s = Some (r, t', s')" for t p r t' s'
    using everyD[OF insert_path_state[of P "\<lambda>_. get_value paths tidx"] that] less.prems keep by simp
  have IH: "every (mt_insert_internal b get_value k paths (Suc i) tidx (st', s)) (\<lambda>(r, (st', s')). P s')"
    if "i < length paths" for k st' using less.hyps[of "Suc i"] less.prems that by simp
  show ?case
    by (subst mt_insert_internal.simps, (auto simp: Let_def less.prems intro!: every_bind IH split: Node.split sum.split)[1])
       (rule leaf, assumption)+
qed

lemma mt_insert_paths_state:
  assumes "\<And>ps is s. P s \<Longrightarrow> P (snd (get_value ps is s))" "P (snd ts)"
  shows "every (mt_insert_paths get_value paths tidx ts) (\<lambda>(r, ts'). P (snd ts'))"
proof (cases ts)
  case (Pair t s)
  have "every (mt_insert_internal (oni_base (mt_infos t)) get_value r paths 0 tidx (mt_store t, s)) (\<lambda>(r, (st', s')). P s')" for r
    using assms Pair by (intro mt_insert_internal_state) auto
  from everyD[OF this] show ?thesis unfolding mt_insert_paths_def Pair by (auto intro!: every_bind)
qed

lemma mt_insert_state:
  assumes keep: "\<And>ps is s. P s \<Longrightarrow> P (snd (get_value ps is s))" and "P s"
  shows "every (mt_insert get_value t path s) (\<lambda>(r, ts'). P (snd ts'))"
  unfolding mt_insert_def
proof (intro every_bind)
  fix sels
  show "every (each_state (\<lambda>sel (t, s). Option.bind (selection_combinations t m path sel) (\<lambda>cs.
         each_state (\<lambda>c. mt_insert_paths get_value c sel) cs (t, s))) sels (t, s)) (\<lambda>(r, ts'). P (snd ts'))" for m
    using assms by (intro each_state_every)
      (auto intro!: every_bind each_state_every[where P = "\<lambda>ts. P (snd ts)"] mt_insert_paths_state)
qed

lemma mt_insert_max_paths_state:
  assumes "\<And>ps is s. P s \<Longrightarrow> P (snd (get_value ps is s))" "P s"
  shows "every (mt_insert_max_paths get_value t s) (\<lambda>(r, ts'). P (snd ts'))"
  unfolding mt_insert_max_paths_def using assms
  by (intro every_bind each_state_every[where P = "\<lambda>ts. P (snd ts)"] mt_insert_paths_state) auto

section \<open>Look-up\<close>

text \<open>The path of a result is built from the last oracle to the first, and reversed at the end.\<close>

function mt_look_up_internal ::
  "'v multi_node list \<Rightarrow> 'v multi_node \<Rightarrow> indexed_path list \<Rightarrow> nat \<Rightarrow> ('v, indexed_path) LookupResult option option" where
  "mt_look_up_internal st cur paths i =
     (if \<not> i < length paths then None
      else let j = fst (paths ! i) in
        case cur of
          NodeNone \<Rightarrow> None
        | Leaf t \<Rightarrow>
            Option.bind (look_up t (snd (paths ! i))) (\<lambda>res.
            case res of
              None \<Rightarrow> Some None
            | Some rs \<Rightarrow> Option.bind (vget rs 0) (\<lambda>r. Some (Some (LookupResult [(j, res_path r)] (res_value r)))))
        | Node t \<Rightarrow>
            (if \<not> i < length paths - 1 then None
             else Option.bind (look_up t (snd (paths ! i))) (\<lambda>res.
             case res of
               None \<Rightarrow> Some None
             | Some rs \<Rightarrow>
                 ofirst (\<lambda>r.
                   case find_store_index (res_value r) (fst (paths ! (i + 1))) of
                     None \<Rightarrow> Some None
                   | Some k \<Rightarrow>
                       Option.bind (vget st k) (\<lambda>next_node.
                       Option.bind (mt_look_up_internal st next_node paths (i + 1)) (\<lambda>child.
                       Some (map_option (\<lambda>c. LookupResult (res_path c @ [(j, res_path r)]) (res_value c)) child)))) rs)))"
  by pat_completeness auto
termination
  by (relation "measure (\<lambda>(st, cur, paths, i). length paths - i)") auto

declare mt_look_up_internal.simps [simp del]

definition mt_look_up :: "'v MultiTrie \<Rightarrow> indexed_path list \<Rightarrow> ('v \<times> indexed_path list) option option" where
  "mt_look_up t paths =
     (if length paths < nb_required t then Some None
      else do {
        it \<leftarrow> new (length paths) (nb_required t);
        k \<leftarrow> u64_sub (nb_tries t) (nb_required t);
        let nb_roots = k + 1;
        selectors \<leftarrow> collect it;
        ofirst (\<lambda>sel. do {
          h \<leftarrow> vget sel 0;
          p \<leftarrow> vget paths h;
          if nb_roots \<le> fst p then Some None
          else do {
            node \<leftarrow> vget (mt_store t) (fst p);
            let sub = map snd (filter (\<lambda>(i, x). i \<in> set sel) (zip [0..<length paths] paths));
            res \<leftarrow> mt_look_up_internal (mt_store t) node sub 0;
            Some (map_option (\<lambda>r. (res_value r, rev (res_path r))) res)
          }
        }) selectors
      })"

section \<open>The dump\<close>

datatype 'v MultiTrieNodeData =
  LeafData "'v DigitTrieDump" | NodeData "TrieNodeInfo list DigitTrieDump"

record 'v MultiTrieDump =
  md_node_data :: "'v MultiTrieNodeData list"
  md_nb_tries :: nat
  md_nb_required :: nat
  md_min_support_exp :: nat
  md_max_error_exp :: nat
  md_maximize_coverage :: bool
  md_infos :: OracleNumericInfo

fun mt_get_data :: "'v multi_node \<Rightarrow> 'v MultiTrieNodeData option" where
  "mt_get_data (Leaf l) = map_option LeafData (dump l)"
| "mt_get_data (Node n) = map_option NodeData (dump n)"
| "mt_get_data NodeNone = None"

fun mt_from_data :: "'v MultiTrieNodeData \<Rightarrow> 'v multi_node option" where
  "mt_from_data (LeafData l) = map_option Leaf (from_dump l)"
| "mt_from_data (NodeData n) = map_option Node (from_dump n)"

definition mt_dump :: "'v MultiTrie \<Rightarrow> 'v MultiTrieDump option" where
  "mt_dump t = map_option (\<lambda>nd. \<lparr>md_node_data = nd, md_nb_tries = nb_tries t, md_nb_required = nb_required t,
     md_min_support_exp = min_support_exp t, md_max_error_exp = max_error_exp t,
     md_maximize_coverage = maximize_coverage t, md_infos = mt_infos t\<rparr>) (omap mt_get_data (mt_store t))"

definition mt_from_dump :: "'v MultiTrieDump \<Rightarrow> 'v MultiTrie option" where
  "mt_from_dump d = map_option (\<lambda>st. \<lparr>mt_store = st, nb_tries = md_nb_tries d, nb_required = md_nb_required d,
     min_support_exp = md_min_support_exp d, max_error_exp = md_max_error_exp d,
     maximize_coverage = md_maximize_coverage d, mt_infos = md_infos d\<rparr>) (omap mt_from_data (md_node_data d))"

end
