(* ===== verification/TrieSign.thy ===== *)
theory TrieSign
  imports TrieUtils
begin

text \<open>
  The \<open>DlcTrie\<close> trait of \<open>dlc-trie/src/lib.rs\<close>: its default methods sign and verify all adaptor
  signatures of a trie from the infos that \<open>generate\<close> or \<open>iter\<close> give. The adaptor signature
  functions of \<open>dlc/src/lib.rs\<close> (\<open>create_cet_adaptor_sig_from_point\<close> and
  \<open>verify_cet_adaptor_sig_from_point\<close>, with the key, script and value already given) and the sum of
  public keys are parameters: they rest on the secp256k1 library. The contract of the trait is a
  locale; the tries of the crate interpret it in their own theories.
\<close>

section \<open>Signing and verifying helpers\<close>

definition sign_info ::
  "('pk list \<Rightarrow> string + 'pk) \<Rightarrow> ('tx \<Rightarrow> 'pk \<Rightarrow> DlcError + 'sig) \<Rightarrow> 'tx list \<Rightarrow> 'pk list list list \<Rightarrow>
   TrieIterInfo \<Rightarrow> (DlcError + nat \<times> 'sig) option" where
  "sign_info combine create cets points x =
     pbind (get_adaptor_point_for_indexed_paths combine (tii_indexes x) (tii_paths x) points) (\<lambda>point.
     obind (vget cets (cet_index (tii_value x))) (\<lambda>cet.
     pbind (Some (create cet point)) (\<lambda>sig. pok (adaptor_index (tii_value x), sig))))"

definition sign_helper ::
  "('pk list \<Rightarrow> string + 'pk) \<Rightarrow> ('tx \<Rightarrow> 'pk \<Rightarrow> DlcError + 'sig) \<Rightarrow> 'tx list \<Rightarrow> 'pk list list list \<Rightarrow>
   TrieIterInfo list \<Rightarrow> (DlcError + 'sig list) option" where
  "sign_helper combine create cets points infos =
     pbind (pmap (sign_info combine create cets points) infos) (\<lambda>unsorted.
       pok (map snd (sort_key fst unsorted)))"

definition verify_info ::
  "('pk list \<Rightarrow> string + 'pk) \<Rightarrow> ('sig \<Rightarrow> 'tx \<Rightarrow> 'pk \<Rightarrow> DlcError + unit) \<Rightarrow> 'tx list \<Rightarrow> 'sig list \<Rightarrow> 'pk list list list \<Rightarrow>
   TrieIterInfo \<Rightarrow> (DlcError + unit) option" where
  "verify_info combine check cets sigs points x =
     pbind (get_adaptor_point_for_indexed_paths combine (tii_indexes x) (tii_paths x) points) (\<lambda>point.
     obind (vget sigs (adaptor_index (tii_value x))) (\<lambda>sig.
     obind (vget cets (cet_index (tii_value x))) (\<lambda>cet. Some (check sig cet point))))"

text \<open>The loop keeps the greatest adaptor index.\<close>

fun verify_loop ::
  "('pk list \<Rightarrow> string + 'pk) \<Rightarrow> ('sig \<Rightarrow> 'tx \<Rightarrow> 'pk \<Rightarrow> DlcError + unit) \<Rightarrow> 'tx list \<Rightarrow> 'sig list \<Rightarrow> 'pk list list list \<Rightarrow>
   TrieIterInfo list \<Rightarrow> nat \<Rightarrow> (DlcError + nat) option" where
  "verify_loop combine check cets sigs points [] max_adaptor_index = pok (max_adaptor_index + 1)"
| "verify_loop combine check cets sigs points (x # xs) max_adaptor_index =
     pbind (verify_info combine check cets sigs points x) (\<lambda>_.
       verify_loop combine check cets sigs points xs
         (if max_adaptor_index < adaptor_index (tii_value x) then adaptor_index (tii_value x) else max_adaptor_index))"

definition verify_helper ::
  "('pk list \<Rightarrow> string + 'pk) \<Rightarrow> ('sig \<Rightarrow> 'tx \<Rightarrow> 'pk \<Rightarrow> DlcError + unit) \<Rightarrow> 'tx list \<Rightarrow> 'sig list \<Rightarrow> 'pk list list list \<Rightarrow>
   TrieIterInfo list \<Rightarrow> (DlcError + nat) option" where
  "verify_helper combine check cets sigs points infos = verify_loop combine check cets sigs points infos 0"

section \<open>The default methods of the trait\<close>

text \<open>
  \<open>generate\<close> takes the first adaptor index and the payout ranges (type \<open>'r\<close> here) and returns the
  infos and the new trie; \<open>iter\<close> the infos that iterating over the trie gives.
\<close>

type_synonym ('t, 'r) generate = "'t \<Rightarrow> nat \<Rightarrow> 'r list \<Rightarrow> (DlcError + 't \<times> TrieIterInfo list) option"

definition generate_sign ::
  "('t, 'r) generate \<Rightarrow> ('pk list \<Rightarrow> string + 'pk) \<Rightarrow> ('tx \<Rightarrow> 'pk \<Rightarrow> DlcError + 'sig) \<Rightarrow> 'tx list \<Rightarrow>
   'pk list list list \<Rightarrow> 't \<Rightarrow> nat \<Rightarrow> 'r list \<Rightarrow> (DlcError + 't \<times> 'sig list) option" where
  "generate_sign gen combine create cets points t start outcomes =
     pbind (gen t start outcomes) (\<lambda>(t', infos).
     pbind (sign_helper combine create cets points infos) (\<lambda>sigs. pok (t', sigs)))"

definition generate_verify ::
  "('t, 'r) generate \<Rightarrow> ('pk list \<Rightarrow> string + 'pk) \<Rightarrow> ('sig \<Rightarrow> 'tx \<Rightarrow> 'pk \<Rightarrow> DlcError + unit) \<Rightarrow> 'tx list \<Rightarrow>
   'sig list \<Rightarrow> 'pk list list list \<Rightarrow> 't \<Rightarrow> nat \<Rightarrow> 'r list \<Rightarrow> (DlcError + 't \<times> nat) option" where
  "generate_verify gen combine check cets sigs points t start outcomes =
     pbind (gen t start outcomes) (\<lambda>(t', infos).
     pbind (verify_helper combine check cets sigs points infos) (\<lambda>n. pok (t', n)))"

definition sign_trie ::
  "('t \<Rightarrow> TrieIterInfo list option) \<Rightarrow> ('pk list \<Rightarrow> string + 'pk) \<Rightarrow> ('tx \<Rightarrow> 'pk \<Rightarrow> DlcError + 'sig) \<Rightarrow> 'tx list \<Rightarrow>
   'pk list list list \<Rightarrow> 't \<Rightarrow> (DlcError + 'sig list) option" where
  "sign_trie iter combine create cets points t =
     obind (iter t) (\<lambda>infos. sign_helper combine create cets points infos)"

definition verify_trie ::
  "('t \<Rightarrow> TrieIterInfo list option) \<Rightarrow> ('pk list \<Rightarrow> string + 'pk) \<Rightarrow> ('sig \<Rightarrow> 'tx \<Rightarrow> 'pk \<Rightarrow> DlcError + unit) \<Rightarrow> 'tx list \<Rightarrow>
   'sig list \<Rightarrow> 'pk list list list \<Rightarrow> 't \<Rightarrow> (DlcError + nat) option" where
  "verify_trie iter combine check cets sigs points t =
     obind (iter t) (\<lambda>infos. verify_helper combine check cets sigs points infos)"

section \<open>Numbered infos\<close>

text \<open>The adaptor indexes of the infos count up from \<open>start\<close>.\<close>

definition numbered :: "nat \<Rightarrow> TrieIterInfo list \<Rightarrow> bool" where
  "numbered start infos \<longleftrightarrow> map (\<lambda>x. adaptor_index (tii_value x)) infos = [start..<start + length infos]"

lemma numbered_nth: "numbered start infos \<Longrightarrow> i < length infos \<Longrightarrow> adaptor_index (tii_value (infos ! i)) = start + i"
  unfolding numbered_def by (metis length_map nth_map nth_upt add_less_cancel_left)

lemma numbered_append:
  "numbered start (xs @ ys) \<longleftrightarrow> numbered start xs \<and> numbered (start + length xs) ys"
proof -
  have "[start..<start + (length xs + length ys)] =
      [start..<start + length xs] @ [start + length xs..<start + length xs + length ys]"
    using upt_add_eq_append[of start "start + length xs" "length ys"] by (simp add: add.assoc)
  then show ?thesis by (simp add: numbered_def append_eq_append_conv)
qed

lemma numbered_Nil [simp]: "numbered start []"
  by (simp add: numbered_def)

lemma numbered_single [simp]: "numbered start [x] \<longleftrightarrow> adaptor_index (tii_value x) = start"
  by (simp add: numbered_def)

lemma sign_info_fst:
  "sign_info combine create cets points x = pok y \<Longrightarrow> fst y = adaptor_index (tii_value x)"
  by (auto simp: sign_info_def bind_eq_Some_conv)

lemma sign_helper_numbered:
  assumes "numbered start infos" "pmap (sign_info combine create cets points) infos = pok sigs"
  shows "sign_helper combine create cets points infos = pok (map snd sigs)"
proof -
  have "list_all2 (\<lambda>x y. fst y = adaptor_index (tii_value x)) infos sigs"
    using assms(2) unfolding pmap_pok_iff list_all2_conv_all_nth by (blast intro: sign_info_fst)
  then have "map fst sigs = map (\<lambda>x. adaptor_index (tii_value x)) infos"
    by (auto simp: list_all2_conv_all_nth list_eq_iff_nth_eq)
  then have "sorted (map fst sigs)" using assms(1) by (simp add: numbered_def)
  then show ?thesis using assms(2) by (simp add: sign_helper_def sorted_sort_id sort_key_id_if_sorted)
qed

section \<open>The contract of the trait\<close>

text \<open>What a verifier accepts: every signature the signer makes.\<close>

definition sound_sigs :: "('tx \<Rightarrow> 'pk \<Rightarrow> DlcError + 'sig) \<Rightarrow> ('sig \<Rightarrow> 'tx \<Rightarrow> 'pk \<Rightarrow> DlcError + unit) \<Rightarrow> bool" where
  "sound_sigs create check \<longleftrightarrow> (\<forall>cet point sig. create cet point = Inr sig \<longrightarrow> check sig cet point = Inr ())"

lemma verify_loop_numbered:
  "numbered start infos \<Longrightarrow> infos \<noteq> [] \<Longrightarrow> m \<le> start \<Longrightarrow>
   (\<And>x. x \<in> set infos \<Longrightarrow> verify_info combine check cets sigs points x = pok ()) \<Longrightarrow>
   verify_loop combine check cets sigs points infos m = pok (start + length infos)"
proof (induction infos arbitrary: start m)
  case (Cons x xs)
  have num: "adaptor_index (tii_value x) = start" "numbered (Suc start) xs"
    using Cons.prems(1) numbered_append[of start "[x]" xs] by auto
  have x: "verify_info combine check cets sigs points x = pok ()" using Cons.prems by simp
  show ?case
  proof (cases "xs = []")
    case True
    then show ?thesis using num Cons.prems(3) x by simp
  next
    case False
    then show ?thesis using Cons.IH[of "Suc start" start] num Cons.prems x by auto
  qed
qed simp

locale dlc_trie =
  fixes gen :: "('t, 'r) generate"
  assumes gen_numbered: "gen t start outcomes = pok (t', infos) \<Longrightarrow> numbered start infos"
begin

lemma generate_sign_order:
  assumes "generate_sign gen combine create cets points t start outcomes = pok (t', sigs)"
  shows "\<exists>infos. gen t start outcomes = pok (t', infos) \<and>
    list_all2 (\<lambda>x sig. sign_info combine create cets points x = pok (adaptor_index (tii_value x), sig)) infos sigs \<and>
    map (\<lambda>x. adaptor_index (tii_value x)) infos = [start..<start + length sigs]"
proof -
  obtain infos where gen: "gen t start outcomes = pok (t', infos)"
    and sign: "sign_helper combine create cets points infos = pok sigs"
    using assms by (auto simp: generate_sign_def)
  obtain us where us: "pmap (sign_info combine create cets points) infos = pok us"
    using sign by (auto simp: sign_helper_def)
  have sigs: "sigs = map snd us" using sign_helper_numbered[OF gen_numbered[OF gen] us] sign by simp
  have "list_all2 (\<lambda>x sig. sign_info combine create cets points x = pok (adaptor_index (tii_value x), sig)) infos sigs"
  proof (rule list_all2_all_nthI)
    show "length infos = length sigs" using us by (simp add: sigs pmap_pok_iff list_all2_lengthD)
    fix i assume i: "i < length infos"
    then have h: "sign_info combine create cets points (infos ! i) = pok (us ! i)" "i < length us"
      using us by (auto simp: pmap_pok_iff list_all2_conv_all_nth)
    show "sign_info combine create cets points (infos ! i) = pok (adaptor_index (tii_value (infos ! i)), sigs ! i)"
      using h(2) sign_info_fst[OF h(1)] by (simp add: sigs h(1) prod_eq_iff)
  qed
  moreover have "length sigs = length infos" using calculation by (simp add: list_all2_lengthD)
  ultimately show ?thesis using gen gen_numbered[OF gen] by (auto simp: numbered_def)
qed

lemma sign_then_verify:
  assumes "generate_sign gen combine create cets points t start outcomes = pok (t', sigs)"
    "sound_sigs create check" "length before = start" "sigs \<noteq> []"
  shows "generate_verify gen combine check cets (before @ sigs @ after) points t start outcomes =
    pok (t', start + length sigs)"
proof -
  obtain infos where gen: "gen t start outcomes = pok (t', infos)"
    and all: "list_all2 (\<lambda>x sig. sign_info combine create cets points x = pok (adaptor_index (tii_value x), sig)) infos sigs"
    and num: "map (\<lambda>x. adaptor_index (tii_value x)) infos = [start..<start + length sigs]"
    using generate_sign_order[OF assms(1)] by blast
  have len: "length infos = length sigs" using all by (rule list_all2_lengthD)
  have "verify_info combine check cets (before @ sigs @ after) points x = pok ()" if mem: "x \<in> set infos" for x
  proof -
    obtain i where i: "i < length infos" "x = infos ! i" using mem by (metis in_set_conv_nth)
    have s: "sign_info combine create cets points x = pok (adaptor_index (tii_value x), sigs ! i)"
      using all i by (auto simp: list_all2_conv_all_nth)
    have "adaptor_index (tii_value x) = start + i" using numbered_nth[OF gen_numbered[OF gen] i(1)] i(2) by simp
    then have "vget (before @ sigs @ after) (adaptor_index (tii_value x)) = Some (sigs ! i)"
      using i(1) len assms(3) by (simp add: nth_append)
    then show ?thesis using s assms(2) by (auto simp: sign_info_def verify_info_def sound_sigs_def bind_eq_Some_conv)
  qed
  then have "verify_helper combine check cets (before @ sigs @ after) points infos = pok (start + length infos)"
    unfolding verify_helper_def using gen_numbered[OF gen] assms(4) len by (intro verify_loop_numbered) auto
  then show ?thesis using gen len by (simp add: generate_verify_def)
qed

text \<open>One signature that the verifier rejects: the whole set is rejected, when the signatures and
  transactions are there for all infos.\<close>

lemma bad_signature:
  assumes "gen t start outcomes = pok (t', infos)" "i < length infos"
    "\<And>x. x \<in> set (take i infos) \<Longrightarrow> verify_info combine check cets sigs points x = pok ()"
    "verify_info combine check cets sigs points (infos ! i) = perr e"
  shows "generate_verify gen combine check cets sigs points t start outcomes = perr e"
proof -
  have "verify_loop combine check cets sigs points (xs @ x # ys) m = perr e"
    if "\<And>x. x \<in> set xs \<Longrightarrow> verify_info combine check cets sigs points x = pok ()"
      "verify_info combine check cets sigs points x = perr e" for xs x ys m
    using that by (induction xs arbitrary: m) auto
  from this[of "take i infos" "infos ! i" "drop (Suc i) infos"] show ?thesis
    using assms by (simp add: generate_verify_def verify_helper_def id_take_nth_drop[symmetric])
qed

end

end
