(* ===== verification/DlcTypes.thy ===== *)
theory DlcTypes
  imports F64 TrieUtils "HOL-Library.Multiset"
begin

text \<open>
  The data of \<open>dlc/src/lib.rs\<close>, with the transaction types of the bitcoin library it builds, and the
  functions of \<open>dlc/src/util.rs\<close> that do not sign. Scripts, keys and identifiers are byte strings; a
  public key is its compressed serialisation, whose order is the order of the library. What the
  bitcoin library computes is in a record of functions, an argument of the definitions that use it.
\<close>

section \<open>Transactions\<close>

type_synonym bytes = "nat list"
type_synonym script = bytes
type_synonym pubkey = bytes
type_synonym amount = nat

record OutPoint =
  txid :: bytes
  vout :: nat

record TxIn =
  previous_output :: OutPoint
  script_sig :: script
  sequence :: nat
  witness :: "bytes list"

record TxOut =
  txo_value :: amount
  script_pubkey :: script

record Transaction =
  version :: nat
  lock_time :: nat
  tx_input :: "TxIn list"
  tx_output :: "TxOut list"

text \<open>
  The functions of the bitcoin library: the id of a transaction, the P2WSH output script of a
  script, the version 0 witness program script (\<open>None\<close> for a program that is not 20 or 32 bytes
  long, on which the code unwraps), the assembly of a script from what the builder was given, the
  hash, and the size of a \<open>VarInt\<close>.
\<close>

datatype ScriptItem = Op string | PushSlice bytes | PushInt int | PushSequence nat

record btc =
  compute_txid :: "Transaction \<Rightarrow> bytes"
  to_p2wsh :: "script \<Rightarrow> script"
  witness_program_v0 :: "bytes \<Rightarrow> script option"
  assemble :: "ScriptItem list \<Rightarrow> script"
  sha256 :: "bytes \<Rightarrow> bytes"
  var_int_size :: "nat \<Rightarrow> nat"

text \<open>An instance for the concrete examples.\<close>

definition toy_btc :: btc where
  "toy_btc = \<lparr>compute_txid = (\<lambda>tx. [length (tx_input tx), length (tx_output tx)]), to_p2wsh = (\<lambda>s. 0 # s),
     witness_program_v0 = (\<lambda>b. if length b = 20 \<or> length b = 32 then Some (0 # b) else None),
     assemble = (\<lambda>items. [length items]), sha256 = (\<lambda>b. b), var_int_size = (\<lambda>n. if n < 253 then 1 else 3)\<rparr>"

section \<open>Data of the contracts\<close>

record Payout =
  offer_payout :: amount
  accept_payout :: amount

record RangePayout =
  rp_start :: nat
  rp_count :: nat
  rp_payout :: Payout

record EnumerationPayout =
  ep_outcome :: string
  ep_payout :: Payout

record DlcTransactions =
  fund :: Transaction
  cets :: "Transaction list"
  refund :: Transaction
  funding_script_pubkey :: script

record TxInputInfo =
  ii_outpoint :: OutPoint
  max_witness_len :: nat
  redeem_script :: script
  ii_serial_id :: nat

record PartyParams =
  fund_pubkey :: pubkey
  change_script_pubkey :: script
  change_serial_id :: nat
  payout_script_pubkey :: script
  payout_serial_id :: nat
  pp_inputs :: "TxInputInfo list"
  input_amount :: amount
  collateral :: amount

definition DUST_LIMIT :: amount where "DUST_LIMIT = 1000"
definition TX_VERSION :: nat where "TX_VERSION = 2"
definition FUND_TX_BASE_WEIGHT :: nat where "FUND_TX_BASE_WEIGHT = 400"
definition CET_BASE_WEIGHT :: nat where "CET_BASE_WEIGHT = 500"
definition TX_INPUT_BASE_WEIGHT :: nat where "TX_INPUT_BASE_WEIGHT = 164"

text \<open>\<open>checked_add!\<close> and \<open>checked_mul\<close> with \<open>InvalidArgument\<close>.\<close>

definition ck :: "'a option \<Rightarrow> (DlcError + 'a) option" where
  "ck x = Some (ok_or InvalidArgument x)"

definition checked_add3 :: "nat \<Rightarrow> nat \<Rightarrow> nat \<Rightarrow> (DlcError + nat) option" where
  "checked_add3 a b c = pbind (ck (u64_add a b)) (\<lambda>x. ck (u64_add x c))"

definition checked_add4 :: "nat \<Rightarrow> nat \<Rightarrow> nat \<Rightarrow> nat \<Rightarrow> (DlcError + nat) option" where
  "checked_add4 a b c d = pbind (checked_add3 a b c) (\<lambda>x. ck (u64_add x d))"

lemma ck_pok [simp]: "ck x = pok y \<longleftrightarrow> x = Some y"
  by (simp add: ck_def)

lemma ck_Some [simp]: "ck (Some y) = pok y" "ck None = perr InvalidArgument"
  by (simp_all add: ck_def)

lemma ck_perr [simp]: "ck x = perr e \<longleftrightarrow> x = None \<and> e = InvalidArgument"
  by (auto simp: ck_def)

lemma ck_total [simp]: "ck x \<noteq> None"
  by (simp add: ck_def)

section \<open>Functions of util.rs\<close>

text \<open>The fee of a weight, rounded up to virtual bytes in floating point.\<close>

definition weight_to_fee :: "nat \<Rightarrow> nat \<Rightarrow> DlcError + amount" where
  "weight_to_fee weight fee_rate =
     ok_or InvalidArgument (u64_mul (f64_ceil (f64_div (f64_of_nat weight) (f64_of_nat 4))) fee_rate)"

definition get_common_fee :: "nat \<Rightarrow> DlcError + amount" where
  "get_common_fee fee_rate = weight_to_fee (FUND_TX_BASE_WEIGHT + CET_BASE_WEIGHT) fee_rate"

definition validate_fee_rate :: "nat \<Rightarrow> DlcError + unit" where
  "validate_fee_rate fee_rate_per_vb = (if 25 * 250 < fee_rate_per_vb then Inl InvalidArgument else Inr ())"

definition DISABLE_LOCKTIME :: nat where "DISABLE_LOCKTIME = 0xffffffff"
definition ENABLE_LOCKTIME :: nat where "ENABLE_LOCKTIME = 0xfffffffe"

definition get_sequence :: "nat \<Rightarrow> nat" where
  "get_sequence lt = (if lt = 0 then DISABLE_LOCKTIME else ENABLE_LOCKTIME)"

definition redeem_script_to_script_sig :: "btc \<Rightarrow> script \<Rightarrow> script option" where
  "redeem_script_to_script_sig B redeem = (if length redeem = 0 then Some [] else witness_program_v0 B redeem)"

definition order_by_serial_ids :: "'a list \<Rightarrow> nat list \<Rightarrow> 'a list option" where
  "order_by_serial_ids inputs ids =
     (if length inputs = length ids then Some (map snd (sort_key fst (zip ids inputs))) else None)"

definition get_output_for_script_pubkey :: "Transaction \<Rightarrow> script \<Rightarrow> (nat \<times> TxOut) option" where
  "get_output_for_script_pubkey tx s =
     map_option (\<lambda>i. (i, tx_output tx ! i)) (find_first_index (\<lambda>x. script_pubkey x = s) (tx_output tx))"

definition discard_dust :: "TxOut list \<Rightarrow> amount \<Rightarrow> TxOut list" where
  "discard_dust txs dust_limit = filter (\<lambda>x. dust_limit \<le> txo_value x) txs"

definition compute_var_int_prefix_size :: "btc \<Rightarrow> nat \<Rightarrow> nat" where
  "compute_var_int_prefix_size B len = var_int_size B len"

lemma weight_to_fee_exact:
  assumes "w < 2 ^ 53"
  shows "weight_to_fee w r = ok_or InvalidArgument (u64_mul ((w + 3) div 4) r)"
  using f64_div_ceil[of w 4] assms by (simp add: weight_to_fee_def add.commute)

text \<open>The order of the serial ids is total and stable, and loses nothing.\<close>

lemma order_by_serial_ids_spec:
  assumes "length inputs = length ids"
  shows "\<exists>ys. order_by_serial_ids inputs ids = Some ys \<and> mset ys = mset inputs \<and>
    (\<exists>zs. map snd zs = ys \<and> sorted (map fst zs) \<and> mset zs = mset (zip ids inputs))"
proof -
  have "mset (map snd (sort_key fst (zip ids inputs))) = image_mset snd (mset (zip ids inputs))"
    by (simp only: mset_map mset_sort)
  also have "\<dots> = mset (map snd (zip ids inputs))" by (simp only: mset_map)
  finally have "mset (map snd (sort_key fst (zip ids inputs))) = mset inputs" using assms by simp
  then show ?thesis using assms
    by (intro exI[of _ "map snd (sort_key fst (zip ids inputs))"])
       (auto simp: order_by_serial_ids_def intro!: exI[of _ "sort_key fst (zip ids inputs)"])
qed

end
