(* ===== verification/MultiOracleTrie.thy ===== *)
theory MultiOracleTrie
  imports MultiTrie TrieSign DigitDecomposition DlcTypes
begin

text \<open>
  \<open>dlc-trie/src/multi_oracle_trie.rs\<close>: the trie of a numerical contract that closes when at least
  \<open>threshold\<close> oracles sign the same outcome. A digit trie has, for every grp of outcomes, one
  \<open>RangeInfo\<close> per selection of oracles; a multi trie covers the outcomes beyond the smallest oracle.
  The order in which a \<open>HashMap\<close> is iterated is a parameter. \<open>None\<close> is a panic.
\<close>

section \<open>Data\<close>

record MultiOracleTrie =
  digit_trie :: "RangeInfo list DigitTrie"
  threshold :: nat
  oracle_numeric_infos :: OracleNumericInfo
  extra_cover_trie :: "RangeInfo MultiTrie option"

record MultiOracleTrieDump =
  digit_trie_dump :: "RangeInfo list DigitTrieDump"
  mod_threshold :: nat
  mod_infos :: OracleNumericInfo
  extra_cover_trie_dump :: "RangeInfo MultiTrieDump option"

definition new_mot :: "OracleNumericInfo \<Rightarrow> nat \<Rightarrow> (DlcError + MultiOracleTrie) option" where
  "new_mot infos thr =
     (if nb_digits infos = [] then perr InvalidArgument
      else obind (if has_diff_nb_digits infos then map_option Some (new_multi_trie infos thr 1 2 True) else Some None) (\<lambda>extra.
        pok \<lparr>digit_trie = new_trie (oni_base infos), threshold = thr, oracle_numeric_infos = infos, extra_cover_trie = extra\<rparr>))"

definition mot_dump :: "MultiOracleTrie \<Rightarrow> MultiOracleTrieDump option" where
  "mot_dump t = do {
     d \<leftarrow> dump (digit_trie t);
     x \<leftarrow> (case extra_cover_trie t of None \<Rightarrow> Some None | Some m \<Rightarrow> map_option Some (mt_dump m));
     Some \<lparr>digit_trie_dump = d, mod_threshold = threshold t, mod_infos = oracle_numeric_infos t, extra_cover_trie_dump = x\<rparr>
   }"

definition mot_from_dump :: "MultiOracleTrieDump \<Rightarrow> MultiOracleTrie option" where
  "mot_from_dump d = do {
     t \<leftarrow> from_dump (digit_trie_dump d);
     x \<leftarrow> (case extra_cover_trie_dump d of None \<Rightarrow> Some None | Some m \<Rightarrow> map_option Some (mt_from_dump m));
     Some \<lparr>digit_trie = t, threshold = mod_threshold d, oracle_numeric_infos = mod_infos d, extra_cover_trie = x\<rparr>
   }"

section \<open>Generation\<close>

text \<open>The loop of the callback over the selections: one info and one \<open>RangeInfo\<close> each.\<close>

fun selection_values :: "nat \<Rightarrow> (nat list \<times> nat list list) list \<Rightarrow> RangeInfo list \<Rightarrow> trie_state \<Rightarrow> RangeInfo list \<times> trie_state" where
  "selection_values cet [] range_infos st = (range_infos, st)"
| "selection_values cet ((sel, paths) # rest) range_infos (k, trie_infos) =
     (let range_info = \<lparr>cet_index = cet, adaptor_index = k\<rparr>;
          trie_info = \<lparr>tii_indexes = sel, tii_paths = paths, tii_value = range_info\<rparr>
      in selection_values cet rest (range_infos @ [range_info]) (k + 1, trie_infos @ [trie_info]))"

definition mot_get_value :: "nat \<Rightarrow> (nat list \<times> nat list list) list \<Rightarrow> (RangeInfo list, DlcError, trie_state) get_data" where
  "mot_get_value cet sels d st = (let (range_infos, st) = selection_values cet sels [] st in (Inr range_infos, st))"

text \<open>The selections and the padded paths do not depend on the state of the callback and are computed before it.\<close>

definition selection_paths :: "nat list \<Rightarrow> nat \<Rightarrow> nat list \<Rightarrow> nat list \<Rightarrow> nat list list option" where
  "selection_paths nds m grp sel =
     omap (\<lambda>nd. do { n \<leftarrow> u64_add (length grp) nd; expected_len \<leftarrow> u64_sub n m; pre_pad_vec grp expected_len })
       (selected_infos nds sel)"

definition mot_insert_group ::
  "nat list \<Rightarrow> nat \<Rightarrow> nat \<Rightarrow> nat \<Rightarrow> nat list \<Rightarrow> RangeInfo list DigitTrie \<times> trie_state \<Rightarrow>
   ((DlcError + unit) \<times> (RangeInfo list DigitTrie \<times> trie_state)) option" where
  "mot_insert_group nds thr m cet grp = (\<lambda>(t, st). do {
     it \<leftarrow> new (length nds) thr;
     selectors \<leftarrow> collect it;
     paths \<leftarrow> omap (selection_paths nds m grp) selectors;
     (r, t, st) \<leftarrow> insert_path (mot_get_value cet (zip selectors paths)) t grp st;
     Some (r, (t, st))
   })"

definition outcome_groups :: "RangePayout \<Rightarrow> nat \<Rightarrow> nat \<Rightarrow> nat list list option" where
  "outcome_groups outcome b m = do {
     x \<leftarrow> u64_add (rp_start outcome) (rp_count outcome);
     y \<leftarrow> u64_sub x 1;
     group_by_ignoring_digits (rp_start outcome) y b m
   }"

definition mot_insert_outcome ::
  "nat list \<Rightarrow> nat \<Rightarrow> nat \<Rightarrow> nat \<times> RangePayout \<Rightarrow> RangeInfo list DigitTrie \<times> trie_state \<Rightarrow>
   ((DlcError + unit) \<times> (RangeInfo list DigitTrie \<times> trie_state)) option" where
  "mot_insert_outcome nds thr m = (\<lambda>(cet, outcome) (t, st).
     if rp_count outcome = 0 then Some (Inl InvalidArgument, (t, st))
     else Option.bind (outcome_groups outcome (base t) m) (\<lambda>groups. each_state (mot_insert_group nds thr m cet) groups (t, st)))"

text \<open>The last contract execution transaction of the extra cover: \<open>outcomes.len() - 1\<close> panics in the callback, if
  it is called.\<close>

definition last_cet :: "OracleNumericInfo \<Rightarrow> nat \<Rightarrow> 'a list \<Rightarrow> nat option" where
  "last_cet infos thr outcomes =
     (if outcomes = [] \<and> get_max_covering_paths infos thr \<noteq> Some [] then None else Some (length outcomes - 1))"

definition mot_generate :: "(MultiOracleTrie, RangePayout) generate" where
  "mot_generate t adaptor_index_start outcomes =
     (let infos = oracle_numeric_infos t; nds = nb_digits infos in
      Option.bind (get_min_nb_digits infos) (\<lambda>m.
      Option.bind (each_state (mot_insert_outcome nds (threshold t) m) (zip [0..<length outcomes] outcomes)
         (digit_trie t, (adaptor_index_start, []))) (\<lambda>(r, (dt, st)).
      case r of
        Inl e \<Rightarrow> perr e
      | Inr _ \<Rightarrow>
          (case extra_cover_trie t of
             None \<Rightarrow> pok (t\<lparr>digit_trie := dt\<rparr>, snd st)
           | Some x \<Rightarrow>
               Option.bind (last_cet (mt_infos x) (nb_required x) outcomes) (\<lambda>cet.
               Option.bind (mt_insert_max_paths (\<lambda>paths is st. get_value_callback paths is cet st) x st) (\<lambda>(r, (x, st)).
               case r of
                 Inl e \<Rightarrow> perr e
               | Inr _ \<Rightarrow> pok (t\<lparr>digit_trie := dt, extra_cover_trie := Some x\<rparr>, snd st)))))))"

section \<open>Look-up\<close>

text \<open>The oracles of each outcome path, in the order they come; \<open>order\<close> is the iteration order of the \<open>HashMap\<close>.\<close>

fun agreeing :: "(nat \<times> nat list) list \<Rightarrow> (nat list \<times> nat list) list \<Rightarrow> (nat list \<times> nat list) list" where
  "agreeing [] hash_set = hash_set"
| "agreeing ((i, p) # paths) hash_set =
     agreeing paths (if p \<in> fst ` set hash_set then map (\<lambda>(q, is). if q = p then (q, is @ [i]) else (q, is)) hash_set
       else hash_set @ [(p, [i])])"

type_synonym hash_order = "(nat list \<times> nat list) list \<Rightarrow> (nat list \<times> nat list) list"

definition get_agreeing_oracles :: "hash_order \<Rightarrow> nat \<Rightarrow> (nat \<times> nat list) list \<Rightarrow> (nat list \<times> nat list) list option" where
  "get_agreeing_oracles order thr paths =
     (let hash_set = agreeing paths [] in
      if hash_set = [] then None
      else let res = filter (\<lambda>x. thr \<le> length (snd x)) (sort_key (\<lambda>x. length (snd x)) (order hash_set)) in
        if res = [] then None else Some res)"

definition strip_path :: "nat \<Rightarrow> nat \<times> nat list \<Rightarrow> (nat \<times> nat list) option" where
  "strip_path m = (\<lambda>(i, p).
     if length p < m then None
     else let extra_len = length p - m in
       if extra_len = 0 then Some (i, p)
       else if \<forall>x \<in> set (take extra_len p). x = 0 then Some (i, drop extra_len p) else None)"

definition mot_look_up_combination ::
  "MultiOracleTrie \<Rightarrow> nat \<Rightarrow> nat list \<times> nat list \<Rightarrow> (RangeInfo \<times> indexed_path list) option option" where
  "mot_look_up_combination t m = (\<lambda>(path, combination).
     Option.bind (look_up (digit_trie t) path) (\<lambda>res.
     case res of
       None \<Rightarrow> Some None
     | Some rs \<Rightarrow>
         let sufficient = take (threshold t) combination in do {
           it \<leftarrow> new (length (nb_digits (oracle_numeric_infos t))) (threshold t);
           position \<leftarrow> get_index_for_combination it sufficient;
           (case position of
              None \<Rightarrow> Some None
            | Some position \<Rightarrow> do {
                r \<leftarrow> vget rs 0;
                v \<leftarrow> vget (res_value r) position;
                paths \<leftarrow> omap (\<lambda>x. do {
                  nd \<leftarrow> vget (nb_digits (oracle_numeric_infos t)) x;
                  n \<leftarrow> u64_add (length (res_path r)) nd;
                  actual_len \<leftarrow> u64_sub n m;
                  p \<leftarrow> pre_pad_vec (res_path r) actual_len;
                  Some (x, p)
                }) sufficient;
                Some (Some (v, paths))
              })
         }))"

definition mot_look_up :: "hash_order \<Rightarrow> MultiOracleTrie \<Rightarrow> indexed_path list \<Rightarrow> (RangeInfo \<times> indexed_path list) option option" where
  "mot_look_up order t paths = do {
     m \<leftarrow> get_min_nb_digits (oracle_numeric_infos t);
     let stripped = List.map_filter (strip_path m) paths;
     found \<leftarrow> (case get_agreeing_oracles order (threshold t) stripped of
        None \<Rightarrow> Some None
      | Some combinations \<Rightarrow> ofirst (mot_look_up_combination t m) combinations);
     case found of
       Some r \<Rightarrow> Some (Some r)
     | None \<Rightarrow> (case extra_cover_trie t of None \<Rightarrow> Some None | Some x \<Rightarrow> mt_look_up x paths)
   }"

section \<open>The numbering of the adaptor signatures\<close>

definition trie_state_ok :: "nat \<Rightarrow> trie_state \<Rightarrow> bool" where
  "trie_state_ok start st \<longleftrightarrow> numbered start (snd st) \<and> fst st = start + length (snd st)"

lemma trie_state_ok_new [simp]: "trie_state_ok start (start, [])"
  by (simp add: trie_state_ok_def)

lemma trie_state_ok_add:
  "trie_state_ok start (k, infos) \<Longrightarrow> adaptor_index (tii_value x) = k \<Longrightarrow> trie_state_ok start (Suc k, infos @ [x])"
  by (simp add: trie_state_ok_def numbered_append)

lemma selection_values_ok: "trie_state_ok start st \<Longrightarrow> trie_state_ok start (snd (selection_values cet sels rs st))"
  by (induction cet sels rs st rule: selection_values.induct) (simp_all add: Let_def trie_state_ok_add)

lemma mot_get_value_ok: "trie_state_ok start st \<Longrightarrow> trie_state_ok start (snd (mot_get_value cet sels d st))"
  using selection_values_ok[of start st cet sels "[]"] by (auto simp: mot_get_value_def split: prod.split)

lemma get_value_callback_ok: "trie_state_ok start st \<Longrightarrow> trie_state_ok start (snd (get_value_callback ps is cet st))"
  by (cases st) (simp add: get_value_callback_def Let_def trie_state_ok_add)

lemma mot_generate_numbered:
  assumes "mot_generate t start outcomes = pok (t', infos)"
  shows "numbered start infos"
proof -
  let ?P = "\<lambda>s. trie_state_ok start (snd s)"
  have grp: "every (mot_insert_group nds thr m cet g ts) (\<lambda>(r, ts'). ?P ts')" if "?P ts" for nds thr m cet g ts
  proof -
    obtain t st where ts: "ts = (t, st)" by (cases ts)
    have ins: "every (insert_path (mot_get_value cet sels) t g st) (\<lambda>(r, t', s'). trie_state_ok start s')" for sels
      using that ts by (intro insert_path_state mot_get_value_ok) auto
    show ?thesis unfolding mot_insert_group_def ts by (auto intro!: every_bind every_mono[OF ins])
  qed
  have outcome: "every (mot_insert_outcome nds thr m x ts) (\<lambda>(r, ts'). ?P ts')" if "?P ts" for nds thr m x ts
    using that grp unfolding mot_insert_outcome_def
    by (cases ts; cases x) (auto intro!: every_bind each_state_every)
  have all: "every (each_state (mot_insert_outcome nds thr m) xs ts) (\<lambda>(r, ts'). ?P ts')" if "?P ts" for nds thr m xs ts
    using that outcome by (intro each_state_every) auto
  have extra: "every (mt_insert_max_paths (\<lambda>paths is st. get_value_callback paths is cet st) x st) (\<lambda>(r, ts'). ?P ts')"
    if "trie_state_ok start st" for cet x st
    using that by (intro mt_insert_max_paths_state get_value_callback_ok) auto
  have "every (mot_generate t start outcomes) (\<lambda>r. case r of Inl e \<Rightarrow> True | Inr (t', infos) \<Rightarrow> numbered start infos)"
    unfolding mot_generate_def Let_def
    by (auto intro!: every_bind split: sum.split option.split dest!: everyD[OF all, rotated] everyD[OF extra, rotated]
        simp: trie_state_ok_def)
  then show ?thesis using assms by simp
qed

end
