(* ===== verification/MultiOracleTrieSpec.thy ===== *)
theory MultiOracleTrieSpec
  imports MultiOracleTrie
begin

text \<open>
  What \<open>generate\<close> puts in a \<open>MultiOracleTrie\<close> and \<open>look_up\<close> finds in it: the trie stands for a map from
  the groups of the outcomes to the numbered infos of the selections of oracles.
\<close>

interpretation mot: dlc_trie mot_generate
  by unfold_locales (rule mot_generate_numbered)

section \<open>One group\<close>

text \<open>The digits of outcome path \<open>p\<close> for oracle \<open>i\<close>, which may have more digits than the smallest.\<close>

definition padded :: "nat list \<Rightarrow> nat \<Rightarrow> nat list \<Rightarrow> nat \<Rightarrow> nat list" where
  "padded nds m p i = replicate (nds ! i - m) 0 @ p"

definition group_info :: "nat list \<Rightarrow> nat \<Rightarrow> nat \<Rightarrow> nat list \<Rightarrow> nat list \<times> nat \<Rightarrow> TrieIterInfo" where
  "group_info nds m cet p = (\<lambda>(sel, k). \<lparr>tii_indexes = sel, tii_paths = map (padded nds m p) sel,
     tii_value = \<lparr>cet_index = cet, adaptor_index = k\<rparr>\<rparr>)"

abbreviation selections :: "nat list \<Rightarrow> nat \<Rightarrow> nat list list" where
  "selections nds thr \<equiv> combs 0 (length nds) thr"

definition range_values :: "nat \<Rightarrow> nat \<Rightarrow> nat \<Rightarrow> RangeInfo list" where
  "range_values cet a l = map (\<lambda>j. \<lparr>cet_index = cet, adaptor_index = a + j\<rparr>) [0..<l]"

lemma selection_values_run:
  "length paths = length sels \<Longrightarrow>
   selection_values cet (zip sels paths) rs (a, infos) =
     (rs @ range_values cet a (length sels), (a + length sels, infos @ map (\<lambda>((sel, ps), k). \<lparr>tii_indexes = sel, tii_paths = ps,
        tii_value = \<lparr>cet_index = cet, adaptor_index = k\<rparr>\<rparr>) (zip (zip sels paths) [a..<a + length sels])))"
proof (induction sels paths arbitrary: rs a infos rule: list_induct2')
  case (4 s ss p ps)
  have "range_values cet a (Suc l) = \<lparr>cet_index = cet, adaptor_index = a\<rparr> # range_values cet (Suc a) l" for l
    by (simp add: range_values_def upt_conv_Cons map_Suc_upt[symmetric] comp_def del: upt_Suc)
  then show ?case using 4 by (simp add: Let_def upt_conv_Cons del: upt_Suc)
qed (auto simp: range_values_def)

definition oracles_ok :: "nat list \<Rightarrow> nat \<Rightarrow> nat \<Rightarrow> bool" where
  "oracles_ok nds thr m \<longleftrightarrow> 0 < thr \<and> thr \<le> length nds \<and> m = Min (set nds) \<and> (\<forall>x \<in> set nds. x < 2 ^ 63)"

lemma oracles_okD:
  assumes "oracles_ok nds thr m"
  shows "nds \<noteq> []" "i < length nds \<Longrightarrow> m \<le> nds ! i" "m < 2 ^ 63" "i < length nds \<Longrightarrow> nds ! i < 2 ^ 63"
proof -
  show ne: "nds \<noteq> []" using assms by (auto simp: oracles_ok_def)
  show "i < length nds \<Longrightarrow> m \<le> nds ! i" "i < length nds \<Longrightarrow> nds ! i < 2 ^ 63" using assms by (auto simp: oracles_ok_def)
  have "m \<in> set nds" using assms ne by (simp add: oracles_ok_def)
  then show "m < 2 ^ 63" using assms by (simp add: oracles_ok_def)
qed

lemma selection_paths_run:
  assumes "oracles_ok nds thr m" "sel \<in> set (selections nds thr)" "length g \<le> m"
  shows "selection_paths nds m g sel = Some (map (padded nds m g) sel)"
proof -
  have sel: "selection 0 (length nds) thr sel" using assms(2) by (simp add: set_combs)
  have "do { n \<leftarrow> u64_add (length g) nd; l \<leftarrow> u64_sub n m; pre_pad_vec g l } = Some (padded nds m g i)"
    if "i \<in> set sel" "nd = nds ! i" for i nd
  proof -
    have i: "i < length nds" using that sel by (auto simp: selection_def)
    have "length g + nds ! i < u64_bound" using oracles_okD(3)[OF assms(1)] oracles_okD(4)[OF assms(1) i] assms(3) by simp
    then show ?thesis using that oracles_okD(2)[OF assms(1) i] by (simp add: padded_def)
  qed
  then show ?thesis using sel
    by (auto simp: selection_paths_def selected_infos_eq omap_Some_iff list_all2_conv_all_nth)
qed

section \<open>What the digit trie stands for\<close>

text \<open>
  \<open>groups\<close> are the inserted groups with their contract execution transaction. Every group has
  its values in the map, one for each selection, and the infos of these values are among \<open>infos\<close>.
\<close>

definition group_values :: "nat list \<Rightarrow> nat \<Rightarrow> nat \<Rightarrow> (nat \<times> nat list) set \<Rightarrow> (nat list \<Rightarrow> RangeInfo list option) \<Rightarrow> TrieIterInfo list \<Rightarrow> bool" where
  "group_values nds thr m groups M infos \<longleftrightarrow> dom M = snd ` groups \<and>
     (\<forall>p v. M p = Some v \<longrightarrow> (\<exists>cet a. (cet, p) \<in> groups \<and> v = range_values cet a (length (selections nds thr)) \<and>
        group_info nds m cet p ` set (zip (selections nds thr) [a..<a + length (selections nds thr)]) \<subseteq> set infos))"

definition mot_inv ::
  "nat list \<Rightarrow> nat \<Rightarrow> nat \<Rightarrow> nat \<Rightarrow> (nat \<times> nat list) set \<Rightarrow> RangeInfo list DigitTrie \<Rightarrow> trie_state \<Rightarrow> bool" where
  "mot_inv nds thr m b groups t st \<longleftrightarrow>
     (\<exists>M. is_trie t M \<and> base t = b \<and> group_values nds thr m groups M (snd st))"

lemma group_values_Some:
  "group_values nds thr m groups M infos \<Longrightarrow> M p = Some v \<Longrightarrow>
    \<exists>cet a. (cet, p) \<in> groups \<and> v = range_values cet a (length (selections nds thr)) \<and>
      group_info nds m cet p ` set (zip (selections nds thr) [a..<a + length (selections nds thr)]) \<subseteq> set infos"
  unfolding group_values_def by blast

lemma group_values_add:
  assumes "group_values nds thr m groups M infos" "l = length (selections nds thr)"
  shows "group_values nds thr m (insert (cet, g) groups) (M(g \<mapsto> range_values cet a l))
    (infos @ map (group_info nds m cet g) (zip (selections nds thr) [a..<a + l]))"
  unfolding group_values_def
proof (intro conjI allI impI)
  show "dom (M(g \<mapsto> range_values cet a l)) = snd ` insert (cet, g) groups" using assms by (simp add: group_values_def)
  fix p v assume v: "(M(g \<mapsto> range_values cet a l)) p = Some v"
  show "\<exists>c a'. (c, p) \<in> insert (cet, g) groups \<and> v = range_values c a' (length (selections nds thr)) \<and>
      group_info nds m c p ` set (zip (selections nds thr) [a'..<a' + length (selections nds thr)]) \<subseteq>
      set (infos @ map (group_info nds m cet g) (zip (selections nds thr) [a..<a + l]))"
  proof (cases "p = g")
    case True
    then show ?thesis using v assms(2) by (intro exI[of _ cet] exI[of _ a]) auto
  next
    case False
    then have "M p = Some v" using v by simp
    then obtain c a' where "(c, p) \<in> groups" "v = range_values c a' (length (selections nds thr))"
      "group_info nds m c p ` set (zip (selections nds thr) [a'..<a' + length (selections nds thr)]) \<subseteq> set infos"
      using assms(1) unfolding group_values_def by blast
    then show ?thesis by (intro exI[of _ c] exI[of _ a']) auto
  qed
qed

lemma mot_insert_group_step:
  assumes ok: "oracles_ok nds thr m" and g: "digits_ok b g" "length g \<le> m" and M: "is_trie t M" "base t = b"
    and l: "l = length (selections nds thr)"
  shows "\<exists>t'. mot_insert_group nds thr m cet g (t, (a, infos)) = Some (Inr (), (t', (a + l,
      infos @ map (group_info nds m cet g) (zip (selections nds thr) [a..<a + l])))) \<and>
    is_trie t' (M(g \<mapsto> range_values cet a l)) \<and> base t' = b"
proof -
  let ?C = "selections nds thr"
  have thr: "0 < thr" "thr \<le> length nds" using ok by (auto simp: oracles_ok_def)
  obtain it where it: "new (length nds) thr = Some it" "collect it = Some ?C" using collect_new[OF thr] by blast
  let ?ps = "map (\<lambda>sel. map (padded nds m g) sel) ?C"
  have ps: "omap (selection_paths nds m g) ?C = Some ?ps"
    unfolding omap_Some_iff using selection_paths_run[OF ok _ g(2)] by (simp add: list_all2_conv_all_nth)
  let ?v = "range_values cet a (length ?C)"
  let ?new = "map (group_info nds m cet g) (zip ?C [a..<a + length ?C])"
  have "map (\<lambda>((sel, ps), k). \<lparr>tii_indexes = sel, tii_paths = ps, tii_value = \<lparr>cet_index = cet, adaptor_index = k\<rparr>\<rparr>)
      (zip (zip ?C ?ps) [a..<a + length ?C]) = ?new"
    by (rule nth_equalityI) (auto simp: group_info_def)
  then have val: "mot_get_value cet (zip ?C ?ps) d (a, infos) = (Inr ?v, (a + length ?C, infos @ ?new))" for d
    by (simp add: mot_get_value_def selection_values_run del: upt_Suc)
  obtain t' where t': "insert_path (mot_get_value cet (zip ?C ?ps)) t g (a, infos) = Some (Inr (), t', (a + length ?C, infos @ ?new))"
    "is_trie t' (M(g \<mapsto> ?v))" "base t' = b"
    using is_trie_insert[OF M(1), of g "mot_get_value cet (zip ?C ?ps)"] g(1) M(2) val by blast
  have "mot_insert_group nds thr m cet g (t, (a, infos)) = Some (Inr (), (t', (a + length ?C, infos @ ?new)))"
    using it ps t'(1) by (simp add: mot_insert_group_def)
  then show ?thesis using t'(2,3) l by blast
qed

lemma mot_insert_group_run:
  assumes ok: "oracles_ok nds thr m" and g: "digits_ok b g" "length g \<le> m" and inv: "mot_inv nds thr m b groups t st"
  shows "\<exists>t' st'. mot_insert_group nds thr m cet g (t, st) = Some (Inr (), (t', st')) \<and>
    mot_inv nds thr m b (insert (cet, g) groups) t' st'"
proof -
  obtain M where M: "is_trie t M" "base t = b" "group_values nds thr m groups M (snd st)"
    using inv unfolding mot_inv_def by blast
  obtain a infos where st: "st = (a, infos)" by (cases st)
  let ?l = "length (selections nds thr)"
  obtain t' where t': "mot_insert_group nds thr m cet g (t, st) = Some (Inr (), (t', (a + ?l,
        infos @ map (group_info nds m cet g) (zip (selections nds thr) [a..<a + ?l]))))"
    "is_trie t' (M(g \<mapsto> range_values cet a ?l))" "base t' = b"
    using mot_insert_group_step[OF ok g M(1,2) refl, of cet a infos] st by blast
  have "mot_inv nds thr m b (insert (cet, g) groups) t' (a + ?l, infos @ map (group_info nds m cet g) (zip (selections nds thr) [a..<a + ?l]))"
    using t'(2,3) group_values_add[OF M(3) refl, of cet g a] st unfolding mot_inv_def by auto
  then show ?thesis using t'(1) by blast
qed

lemma mot_insert_groups_run:
  assumes ok: "oracles_ok nds thr m"
  shows "\<forall>g \<in> set gs. digits_ok b g \<and> length g \<le> m \<Longrightarrow> mot_inv nds thr m b groups t st \<Longrightarrow>
    \<exists>t' st'. each_state (mot_insert_group nds thr m cet) gs (t, st) = Some (Inr (), (t', st')) \<and>
      mot_inv nds thr m b (groups \<union> Pair cet ` set gs) t' st'"
proof (induction gs arbitrary: groups t st)
  case (Cons g gs)
  obtain t1 st1 where 1: "mot_insert_group nds thr m cet g (t, st) = Some (Inr (), (t1, st1))"
    "mot_inv nds thr m b (insert (cet, g) groups) t1 st1"
    using mot_insert_group_run[OF ok _ _ Cons.prems(2), of g cet] Cons.prems(1) by auto
  obtain t' st' where "each_state (mot_insert_group nds thr m cet) gs (t1, st1) = Some (Inr (), (t', st'))"
    "mot_inv nds thr m b (insert (cet, g) groups \<union> Pair cet ` set gs) t' st'"
    using Cons.IH[OF _ 1(2)] Cons.prems(1) by auto
  then show ?case using 1(1) by auto
qed auto

section \<open>All outcomes\<close>

definition outcome_ok :: "nat \<Rightarrow> nat \<Rightarrow> RangePayout \<Rightarrow> bool" where
  "outcome_ok b m oc \<longleftrightarrow> 0 < rp_count oc \<and> rp_start oc + rp_count oc \<le> b ^ m \<and> rp_count oc < b ^ m"

definition in_outcome :: "nat \<Rightarrow> RangePayout \<Rightarrow> bool" where
  "in_outcome v oc \<longleftrightarrow> rp_start oc \<le> v \<and> v < rp_start oc + rp_count oc"

definition base_ok :: "nat \<Rightarrow> nat \<Rightarrow> bool" where
  "base_ok b m \<longleftrightarrow> 2 \<le> b \<and> b < 2 ^ 53 \<and> b ^ m \<le> 2 ^ 53"

lemma tiles_mem:
  "tiles b m a ps e \<Longrightarrow> 0 < b \<Longrightarrow> p \<in> set ps \<Longrightarrow> prefix_ok b m p \<and> a \<le> lo b m p \<and> hi b m p \<le> e"
proof (induction ps arbitrary: a)
  case (Cons q ps)
  have q: "a = lo b m q" "lo b m q < hi b m q" "hi b m q \<le> e"
    using Cons.prems tiles_le[of b m "hi b m q" ps e] lo_less_hi[of b m q] by auto
  show ?case
  proof (cases "p = q")
    case False
    then have "prefix_ok b m p \<and> hi b m q \<le> lo b m p \<and> hi b m p \<le> e"
      using Cons.IH[of "hi b m q"] Cons.prems by simp
    then show ?thesis using q by linarith
  qed (use q Cons.prems in auto)
qed simp

lemma outcome_groups_run:
  assumes b: "base_ok b m" and oc: "outcome_ok b m oc"
  shows "\<exists>ps. outcome_groups oc b m = Some ps \<and> tiles b m (rp_start oc) ps (rp_start oc + rp_count oc) \<and>
    (\<forall>p \<in> set ps. digits_ok b p \<and> length p \<le> m)"
proof -
  let ?e = "rp_start oc + rp_count oc"
  have e: "?e \<le> 2 ^ 53" "0 < ?e" using b oc unfolding base_ok_def outcome_ok_def by linarith+
  obtain ps where ps: "group_by_ignoring_digits (rp_start oc) (?e - 1) b m = Some ps" "tiles b m (rp_start oc) ps (Suc (?e - 1))"
    using group_by_tiles[of b "rp_start oc" "?e - 1" m] b oc e unfolding base_ok_def outcome_ok_def by fastforce
  have "?e < u64_bound" using e by simp
  then have run: "outcome_groups oc b m = Some ps" using ps(1) e(2) by (simp add: outcome_groups_def)
  have tiles: "tiles b m (rp_start oc) ps ?e" using ps(2) e(2) by simp
  have "digits_ok b p \<and> length p \<le> m" if p: "p \<in> set ps" for p
  proof -
    have "prefix_ok b m p" "rp_start oc \<le> lo b m p" "hi b m p \<le> ?e"
      using tiles_mem[OF tiles _ p] b by (auto simp: base_ok_def)
    moreover have "hi b m p = lo b m p + b ^ (m - length p)" by (simp add: hi_def lo_def)
    ultimately have "b ^ (m - length p) < b ^ m" using oc unfolding outcome_ok_def by linarith
    then have "p \<noteq> []" by auto
    then show ?thesis using \<open>prefix_ok b m p\<close> by (auto simp: digits_ok_def prefix_ok_def)
  qed
  with run tiles show ?thesis by blast
qed

text \<open>The groups of the outcomes, with their execution transactions.\<close>

definition groups_of :: "nat \<Rightarrow> nat \<Rightarrow> RangePayout list \<Rightarrow> (nat \<times> nat list) set" where
  "groups_of b m outcomes = {(k, p). \<exists>ps. k < length outcomes \<and> outcome_groups (outcomes ! k) b m = Some ps \<and> p \<in> set ps}"

lemma groups_of_snoc:
  assumes "outcome_groups oc b m = Some ps"
  shows "groups_of b m (outcomes @ [oc]) = groups_of b m outcomes \<union> Pair (length outcomes) ` set ps"
  using assms by (auto simp: groups_of_def nth_append less_Suc_eq)

lemma mot_insert_outcomes_run:
  assumes ok: "oracles_ok nds thr m" and b: "base_ok b m"
  shows "\<forall>oc \<in> set outcomes. outcome_ok b m oc \<Longrightarrow> mot_inv nds thr m b {} t st \<Longrightarrow>
    \<exists>t' st'. each_state (mot_insert_outcome nds thr m) (zip [0..<length outcomes] outcomes) (t, st) = Some (Inr (), (t', st')) \<and>
      mot_inv nds thr m b (groups_of b m outcomes) t' st'"
proof (induction outcomes rule: rev_induct)
  case Nil
  then show ?case by (simp add: groups_of_def)
next
  case (snoc oc outcomes)
  obtain t1 st1 where 1: "each_state (mot_insert_outcome nds thr m) (zip [0..<length outcomes] outcomes) (t, st) = Some (Inr (), (t1, st1))"
    "mot_inv nds thr m b (groups_of b m outcomes) t1 st1" using snoc by auto
  have oc: "outcome_ok b m oc" using snoc.prems by simp
  obtain ps where ps: "outcome_groups oc b m = Some ps" "\<forall>p \<in> set ps. digits_ok b p \<and> length p \<le> m"
    using outcome_groups_run[OF b oc] by blast
  obtain t' st' where 2: "each_state (mot_insert_group nds thr m (length outcomes)) ps (t1, st1) = Some (Inr (), (t', st'))"
    "mot_inv nds thr m b (groups_of b m outcomes \<union> Pair (length outcomes) ` set ps) t' st'"
    using mot_insert_groups_run[OF ok ps(2) 1(2)] by blast
  have base: "base t1 = b" using 1(2) by (auto simp: mot_inv_def)
  have "zip [0..<length (outcomes @ [oc])] (outcomes @ [oc]) = zip [0..<length outcomes] outcomes @ [(length outcomes, oc)]"
    by (simp add: zip_append1)
  moreover have "mot_insert_outcome nds thr m (length outcomes, oc) (t1, st1) = Some (Inr (), (t', st'))"
    using ps(1) 2(1) oc base by (simp add: mot_insert_outcome_def outcome_ok_def)
  ultimately show ?case using 1(1) 2(2) groups_of_snoc[OF ps(1)] by (simp add: each_state_append)
qed

section \<open>The generated trie\<close>

lemma generated_trie:
  assumes ok: "oracles_ok (nb_digits info) thr m" and b: "base_ok (oni_base info) m" and ocs: "\<forall>oc \<in> set outcomes. outcome_ok (oni_base info) m oc"
    and new: "new_mot info thr = pok t0" and gen: "mot_generate t0 start outcomes = pok (t, infos)"
  shows "\<exists>st. mot_inv (nb_digits info) thr m (oni_base info) (groups_of (oni_base info) m outcomes) (digit_trie t) st \<and>
    set (snd st) \<subseteq> set infos \<and> threshold t = thr \<and> oracle_numeric_infos t = info"
proof -
  have t0: "digit_trie t0 = new_trie (oni_base info)" "threshold t0 = thr" "oracle_numeric_infos t0 = info"
    using new by (auto simp: new_mot_def bind_eq_Some_conv split: if_splits)
  have m: "get_min_nb_digits info = Some m"
    using ok oracles_okD(1)[OF ok] by (simp add: get_min_nb_digits_spec oracles_ok_def)
  have "group_values (nb_digits info) thr m {} Map.empty (snd (start, []))" by (simp add: group_values_def)
  then have "mot_inv (nb_digits info) thr m (oni_base info) {} (new_trie (oni_base info)) (start, [])"
    unfolding mot_inv_def using is_trie_new by (intro exI[of _ Map.empty]) simp
  then obtain dt st where run: "each_state (mot_insert_outcome (nb_digits info) thr m) (zip [0..<length outcomes] outcomes)
       (new_trie (oni_base info), (start, [])) = Some (Inr (), (dt, st))"
    and inv: "mot_inv (nb_digits info) thr m (oni_base info) (groups_of (oni_base info) m outcomes) dt st"
    using mot_insert_outcomes_run[OF ok b ocs] by blast
  show ?thesis
  proof (cases "extra_cover_trie t0")
    case None
    then have "t = t0\<lparr>digit_trie := dt\<rparr>" "infos = snd st" using gen run m by (simp_all add: mot_generate_def t0)
    then show ?thesis using inv t0 by (intro exI[of _ st]) simp
  next
    case (Some x)
    then obtain cet x' st' where x': "mt_insert_max_paths (\<lambda>paths is st. get_value_callback paths is cet st) x st = Some (Inr (), (x', st'))"
      "t = t0\<lparr>digit_trie := dt, extra_cover_trie := Some x'\<rparr>" "infos = snd st'"
      using gen run m by (auto simp: mot_generate_def t0 bind_eq_Some_conv split: sum.split_asm)
        (metis old.unit.exhaust sum.exhaust)
    have "every (mt_insert_max_paths (\<lambda>paths is st. get_value_callback paths is cet st) x st) (\<lambda>(r, ts). set (snd st) \<subseteq> set (snd (snd ts)))"
      by (intro mt_insert_max_paths_state) (auto simp: get_value_callback_def Let_def)
    then show ?thesis using x' inv t0 by (intro exI[of _ st]) simp
  qed
qed

text \<open>The look-up of the digits of a value in the digit trie.\<close>

definition disjoint_outcomes :: "RangePayout list \<Rightarrow> bool" where
  "disjoint_outcomes outcomes \<longleftrightarrow> (\<forall>i < length outcomes. \<forall>j < length outcomes. \<forall>v.
     in_outcome v (outcomes ! i) \<and> in_outcome v (outcomes ! j) \<longrightarrow> i = j)"

lemma prefix_in_outcome:
  assumes "base_ok b m" "outcome_ok b m oc" "outcome_groups oc b m = Some ps" "v < b ^ m"
  shows "p \<in> set ps \<Longrightarrow> take (length p) (digits b m v) = p \<Longrightarrow> in_outcome v oc"
    and "in_outcome v oc \<Longrightarrow> \<exists>!p. p \<in> set ps \<and> take (length p) (digits b m v) = p"
proof -
  have b: "2 \<le> b" using assms(1) by (simp add: base_ok_def)
  have tiles: "tiles b m (rp_start oc) ps (rp_start oc + rp_count oc)" using outcome_groups_run[OF assms(1,2)] assms(3) by auto
  note u = tiles_unique[OF b assms(4) tiles]
  show "in_outcome v oc" if "p \<in> set ps" "take (length p) (digits b m v) = p"
  proof -
    have "filter (\<lambda>p. take (length p) (digits b m v) = p) ps \<noteq> []" using that by (auto simp: filter_empty_conv)
    then show ?thesis using u by (auto simp: in_outcome_def split: if_splits)
  qed
  assume "in_outcome v oc"
  then have "length (filter (\<lambda>p. take (length p) (digits b m v) = p) ps) = 1" using u by (simp add: in_outcome_def)
  then obtain p where "filter (\<lambda>p. take (length p) (digits b m v) = p) ps = [p]" by (auto simp: length_Suc_conv)
  then have "set (filter (\<lambda>p. take (length p) (digits b m v) = p) ps) = {p}" by simp
  then have "q \<in> set ps \<and> take (length q) (digits b m v) = q \<longleftrightarrow> q = p" for q unfolding set_filter by blast
  then show "\<exists>!p. p \<in> set ps \<and> take (length p) (digits b m v) = p" by auto
qed

lemma digit_look_up:
  assumes b: "base_ok b m" and ocs: "\<forall>oc \<in> set outcomes. outcome_ok b m oc" "disjoint_outcomes outcomes"
    and inv: "mot_inv nds thr m b (groups_of b m outcomes) t st"
    and v: "k < length outcomes" "in_outcome v (outcomes ! k)"
  shows "\<exists>p a rs. look_up t (digits b m v) = Some (Some rs) \<and> rs \<noteq> [] \<and>
    rs ! 0 = LookupResult p (range_values k a (length (selections nds thr))) \<and> take (length p) (digits b m v) = p \<and> length p \<le> m \<and>
    group_info nds m k p ` set (zip (selections nds thr) [a..<a + length (selections nds thr)]) \<subseteq> set (snd st)"
proof -
  let ?d = "digits b m v" and ?L = "length (selections nds thr)"
  obtain M where M: "is_trie t M" "base t = b" "group_values nds thr m (groups_of b m outcomes) M (snd st)"
    using inv unfolding mot_inv_def by blast
  have ok: "outcome_ok b m (outcomes ! k)" using ocs(1) v(1) by simp
  then have vb: "v < b ^ m" using v(2) by (simp add: in_outcome_def outcome_ok_def)
  obtain ps where ps: "outcome_groups (outcomes ! k) b m = Some ps" "\<forall>p \<in> set ps. length p \<le> m"
    using outcome_groups_run[OF b ok] by blast
  obtain p where p: "p \<in> set ps" "take (length p) ?d = p" "\<And>q. q \<in> set ps \<Longrightarrow> take (length q) ?d = q \<Longrightarrow> q = p"
    using prefix_in_outcome(2)[OF b ok ps(1) vb v(2)] by blast
  have own: "c = k \<and> q = p" if q: "(c, q) \<in> groups_of b m outcomes" "take (length q) ?d = q" for c q
  proof -
    obtain qs where qs: "c < length outcomes" "outcome_groups (outcomes ! c) b m = Some qs" "q \<in> set qs"
      using q(1) by (auto simp: groups_of_def)
    then have "in_outcome v (outcomes ! c)" using prefix_in_outcome(1)[OF b _ qs(2) vb qs(3) q(2)] ocs(1) by simp
    then have "c = k" using ocs(2) v qs(1) unfolding disjoint_outcomes_def by blast
    then show ?thesis using qs ps(1) p(3) q(2) by simp
  qed
  have "(k, p) \<in> groups_of b m outcomes" using ps(1) p(1) v(1) by (auto simp: groups_of_def)
  then have "p \<in> snd ` groups_of b m outcomes" by (rule image_eqI[rotated]) simp
  then have "p \<in> dom M" using M(3) by (simp add: group_values_def)
  then obtain w where w: "M p = Some w" by blast
  obtain c a where "(c, p) \<in> groups_of b m outcomes" "w = range_values c a ?L"
    "group_info nds m c p ` set (zip (selections nds thr) [a..<a + ?L]) \<subseteq> set (snd st)"
    using group_values_Some[OF M(3) w] by blast
  moreover from this have "c = k" using own[of c p] p(2) by simp
  ultimately have a: "w = range_values k a ?L" "group_info nds m k p ` set (zip (selections nds thr) [a..<a + ?L]) \<subseteq> set (snd st)"
    by simp_all
  have dig: "\<forall>x \<in> set ?d. x < b" using b all_digits_digits[of b m v] by (simp add: base_ok_def)
  have hit: "r \<in> set (hits M ?d) \<longleftrightarrow> r = LookupResult p w" for r
  proof -
    have "r \<in> set (hits M ?d) \<longleftrightarrow> (\<exists>j \<le> length ?d. \<exists>x. M (take j ?d) = Some x \<and> r = LookupResult (take j ?d) x)"
      by (auto simp: hits_eq map_filter_def image_iff less_Suc_eq_le simp del: upt_Suc)
    also have "\<dots> \<longleftrightarrow> r = LookupResult p w"
    proof
      assume "\<exists>j \<le> length ?d. \<exists>x. M (take j ?d) = Some x \<and> r = LookupResult (take j ?d) x"
      then obtain j x where j: "j \<le> length ?d" "M (take j ?d) = Some x" "r = LookupResult (take j ?d) x" by blast
      then obtain c where "(c, take j ?d) \<in> groups_of b m outcomes" using group_values_Some[OF M(3)] by blast
      then have "take j ?d = p" using own[of c "take j ?d"] j(1) by simp
      then show "r = LookupResult p w" using j w by simp
    next
      assume "r = LookupResult p w"
      then show "\<exists>j \<le> length ?d. \<exists>x. M (take j ?d) = Some x \<and> r = LookupResult (take j ?d) x"
        using p(1,2) ps(2) w by (intro exI[of _ "length p"]) simp
    qed
    finally show ?thesis .
  qed
  then have ne: "hits M ?d \<noteq> []" by (metis empty_iff empty_set)
  then have "hits M ?d ! 0 = LookupResult p w" using hit[of "hits M ?d ! 0"] by simp
  moreover have "look_up t ?d = Some (Some (hits M ?d))"
    using is_trie_look_up[OF M(1), of ?d] dig M(2) ne by (simp add: hits_opt_def)
  ultimately show ?thesis using ne a p(2) ps(2) p(1)
    by (intro exI[of _ p] exI[of _ a] exI[of _ "hits M ?d"]) simp
qed

section \<open>The look-up of agreeing oracles\<close>

lemma agreeing_more: "agreeing (map (\<lambda>i. (i, d)) is) [(d, js)] = [(d, js @ is)]"
  by (induction "is" arbitrary: js) auto

lemma agreeing_same: "is \<noteq> [] \<Longrightarrow> agreeing (map (\<lambda>i. (i, d)) is) [] = [(d, is)]"
  using agreeing_more by (cases "is") auto

lemma strip_padded: "length p = m \<Longrightarrow> strip_path m (i, replicate k 0 @ p) = Some (i, p)"
  by (auto simp: strip_path_def)

lemma find_first_index_nth:
  assumes "x \<in> set xs"
  shows "\<exists>j. find_first_index ((=) x) xs = Some j \<and> j < length xs \<and> xs ! j = x"
proof -
  have "find_first_index ((=) x) xs \<noteq> None" using assms by (auto simp: find_first_index_None)
  then obtain j where j: "find_first_index ((=) x) xs = Some j" by blast
  then show ?thesis using find_first_index_Some[of "(=) x" xs j] by auto
qed

text \<open>The iteration order of a \<open>HashMap\<close> has its entries, each once.\<close>

definition iteration_order :: "hash_order \<Rightarrow> bool" where
  "iteration_order order \<longleftrightarrow> (\<forall>xs. mset (order xs) = mset xs)"

lemma iteration_order_single: "iteration_order order \<Longrightarrow> order [x] = [x]"
  unfolding iteration_order_def by (metis mset_single_iff mset_single_iff_right mset.simps)

lemma mot_look_up_combination_run:
  assumes ok: "oracles_ok nds thr m" and t: "threshold t = thr" "nb_digits (oracle_numeric_infos t) = nds"
    and found: "look_up (digit_trie t) d = Some (Some rs)" "rs \<noteq> []"
      "rs ! 0 = LookupResult p (range_values k a (length (selections nds thr)))" "length p \<le> m"
    and sel: "sorted_wrt (<) js" "set js \<subseteq> {..<length nds}" "thr \<le> length js"
  shows "\<exists>j. j < length (selections nds thr) \<and> selections nds thr ! j = take thr js \<and>
    mot_look_up_combination t m (d, js) =
      Some (Some (\<lparr>cet_index = k, adaptor_index = a + j\<rparr>, map (\<lambda>i. (i, padded nds m p i)) (take thr js)))"
proof -
  let ?sel = "take thr js"
  have thr: "0 < thr" "thr \<le> length nds" using ok by (auto simp: oracles_ok_def)
  have mem: "set ?sel \<subseteq> {..<length nds}" using sel(2) set_take_subset[of thr js] by blast
  have "selection 0 (length nds) thr ?sel"
    using sel mem by (auto simp: selection_def sorted_wrt_take)
  then have "?sel \<in> set (selections nds thr)" by (simp add: set_combs)
  from find_first_index_nth[OF this] obtain j where j: "find_first_index ((=) ?sel) (selections nds thr) = Some j"
    "j < length (selections nds thr)" "selections nds thr ! j = ?sel" by auto
  obtain it where it: "new (length nds) thr = Some it" "get_index_for_combination it ?sel = Some (Some j)"
    using get_index_new[OF thr, of ?sel] j(1) by auto
  have pad: "do { nd \<leftarrow> vget nds i; n \<leftarrow> u64_add (length p) nd; l \<leftarrow> u64_sub n m; q \<leftarrow> pre_pad_vec p l; Some (i, q) } =
      Some (i, padded nds m p i)" if "i \<in> set ?sel" for i
  proof -
    have i: "i < length nds" using that mem by auto
    have "length p + nds ! i < u64_bound" using oracles_okD(3)[OF ok] oracles_okD(4)[OF ok i] found(4) by simp
    moreover have pp: "pre_pad_vec p (length p + nds ! i - m) = Some (padded nds m p i)"
      using oracles_okD(2)[OF ok i] by (simp add: padded_def)
    ultimately show ?thesis using i oracles_okD(2)[OF ok i] by (simp add: pp)
  qed
  then have "omap (\<lambda>i. do { nd \<leftarrow> vget nds i; n \<leftarrow> u64_add (length p) nd; l \<leftarrow> u64_sub n m; q \<leftarrow> pre_pad_vec p l; Some (i, q) }) ?sel =
      Some (map (\<lambda>i. (i, padded nds m p i)) ?sel)"
    by (rule omap_Some_map)
  then show ?thesis using j found it
    by (intro exI[of _ j]) (simp add: mot_look_up_combination_def t Let_def range_values_def)
qed

lemma generate_returns:
  assumes ok: "oracles_ok (nb_digits info) thr m" and b: "base_ok (oni_base info) m"
    and ocs: "\<forall>oc \<in> set outcomes. outcome_ok (oni_base info) m oc" and same: "\<not> has_diff_nb_digits info"
  shows "\<exists>t0 t infos. new_mot info thr = pok t0 \<and> mot_generate t0 start outcomes = pok (t, infos)"
proof -
  let ?t0 = "\<lparr>digit_trie = new_trie (oni_base info), threshold = thr, oracle_numeric_infos = info, extra_cover_trie = None\<rparr>"
  have ne: "nb_digits info \<noteq> []" using oracles_okD(1)[OF ok] .
  have m: "get_min_nb_digits info = Some m" using ok ne by (simp add: get_min_nb_digits_spec oracles_ok_def)
  have "group_values (nb_digits info) thr m {} Map.empty (snd (start, []))" by (simp add: group_values_def)
  then have "mot_inv (nb_digits info) thr m (oni_base info) {} (new_trie (oni_base info)) (start, [])"
    unfolding mot_inv_def using is_trie_new by (intro exI[of _ Map.empty]) simp
  then obtain dt st where "each_state (mot_insert_outcome (nb_digits info) thr m) (zip [0..<length outcomes] outcomes)
       (new_trie (oni_base info), (start, [])) = Some (Inr (), (dt, st))"
    using mot_insert_outcomes_run[OF ok b ocs] by blast
  then have "mot_generate ?t0 start outcomes = pok (?t0\<lparr>digit_trie := dt\<rparr>, snd st)" by (simp add: mot_generate_def m)
  moreover have "new_mot info thr = pok ?t0" using ne same by (simp add: new_mot_def)
  ultimately show ?thesis by blast
qed

lemma group_whole_range:
  assumes "2 \<le> b" "b < 2 ^ 53" "b ^ m \<le> 2 ^ 53" "0 < m"
  shows "group_by_ignoring_digits 0 (b ^ m - 1) b m = Some [[]]"
proof -
  have pos: "0 < b ^ m" using assms(1) by simp
  have "Suc (digit_val b (replicate m (b - 1))) = b ^ m" using digit_val_replicate_max[of b "[]" m] assms(1) by simp
  then have "digits b m (b ^ m - 1) = replicate m (b - 1)"
    using digits_digit_val[of "replicate m (b - 1)" b] assms(1) by (metis diff_Suc_1 in_set_replicate length_replicate diff_less le_zero_eq not_gr_zero not_numeral_le_zero zero_less_one)
  then have d: "decompose_value 0 b m = Some (replicate m 0)" "decompose_value (b ^ m - 1) b m = Some (replicate m (b - 1))"
    using decompose_value_digits[of 0 b m] decompose_value_digits[of "b ^ m - 1" b m] assms pos by auto
  obtain k where k: "m = Suc k" using assms(4) by (cases m) auto
  have "take_prefix (replicate m 0) (replicate m (b - 1)) = Some ([], replicate m 0, replicate m (b - 1))"
    using assms(1) by (simp add: take_prefix_def k)
  then show ?thesis using d by (simp add: group_by_ignoring_digits_def)
qed

text \<open>C29: Once a trie for disjoint outcomes is generated, the oracles that sign the same outcome close the contract with
  it: when at least \<open>threshold\<close> of them, in the order of their indexes, give the digits of an outcome, the look-up
  returns for the first \<open>threshold\<close> of them the execution transaction of the outcome, their digit prefixes,
  and the adaptor signature that was generated for exactly these oracles and prefixes.\<close>

theorem multi_oracle_trie_closes:
  assumes ok: "oracles_ok (nb_digits info) thr m" and b: "base_ok (oni_base info) m"
    and ocs: "\<forall>oc \<in> set outcomes. outcome_ok (oni_base info) m oc" "disjoint_outcomes outcomes"
    and gen: "new_mot info thr = pok t0" "mot_generate t0 start outcomes = pok (t, infos)"
    and v: "k < length outcomes" "in_outcome v (outcomes ! k)"
    and signed: "sorted_wrt (<) js" "set js \<subseteq> {..<length (nb_digits info)}" "thr \<le> length js"
    and hash: "iteration_order order"
  shows "\<exists>value paths x. mot_look_up order t (map (\<lambda>i. (i, padded (nb_digits info) m (digits (oni_base info) m v) i)) js) = Some (Some (value, paths)) \<and>
    cet_index value = k \<and> map fst paths = take thr js \<and>
    (\<forall>(i, q) \<in> set paths. take (length q) (padded (nb_digits info) m (digits (oni_base info) m v) i) = q) \<and>
    x \<in> set infos \<and> tii_value x = value \<and> tii_indexes x = map fst paths \<and> tii_paths x = map snd paths"
proof -
  let ?nds = "nb_digits info" and ?b = "oni_base info" and ?d = "digits (oni_base info) m v"
  obtain st where st: "mot_inv ?nds thr m ?b (groups_of ?b m outcomes) (digit_trie t) st" "set (snd st) \<subseteq> set infos"
    "threshold t = thr" "oracle_numeric_infos t = info"
    using generated_trie[OF ok b ocs(1) gen] by blast
  obtain p a rs where r: "look_up (digit_trie t) ?d = Some (Some rs)" "rs \<noteq> []"
    "rs ! 0 = LookupResult p (range_values k a (length (selections ?nds thr)))" "take (length p) ?d = p" "length p \<le> m"
    "group_info ?nds m k p ` set (zip (selections ?nds thr) [a..<a + length (selections ?nds thr)]) \<subseteq> set (snd st)"
    using digit_look_up[OF b ocs st(1) v] by blast
  obtain j where j: "j < length (selections ?nds thr)" "selections ?nds thr ! j = take thr js"
    "mot_look_up_combination t m (?d, js) =
      Some (Some (\<lparr>cet_index = k, adaptor_index = a + j\<rparr>, map (\<lambda>i. (i, padded ?nds m p i)) (take thr js)))"
    using mot_look_up_combination_run[OF ok st(3) _ r(1-3,5) signed] st(4) by auto
  have m: "get_min_nb_digits info = Some m"
    using ok oracles_okD(1)[OF ok] by (simp add: get_min_nb_digits_spec oracles_ok_def)
  have "0 < thr" using ok by (simp add: oracles_ok_def)
  then have ne: "js \<noteq> []" using signed(3) by auto
  have strip: "List.map_filter (strip_path m) (map (\<lambda>i. (i, padded ?nds m ?d i)) js) = map (\<lambda>i. (i, ?d)) js"
    by (induction js) (simp_all add: map_filter_simps padded_def strip_padded)
  have agree: "get_agreeing_oracles order thr (map (\<lambda>i. (i, ?d)) js) = Some [(?d, js)]"
    using signed(3) ne iteration_order_single[OF hash] by (simp add: get_agreeing_oracles_def agreeing_same)
  let ?paths = "map (\<lambda>i. (i, padded ?nds m p i)) (take thr js)"
  have run: "mot_look_up order t (map (\<lambda>i. (i, padded ?nds m ?d i)) js) = Some (Some (\<lparr>cet_index = k, adaptor_index = a + j\<rparr>, ?paths))"
    using j(3) by (simp add: mot_look_up_def st m strip agree)
  let ?x = "group_info ?nds m k p (take thr js, a + j)"
  have "(take thr js, a + j) \<in> set (zip (selections ?nds thr) [a..<a + length (selections ?nds thr)])"
    using j(1,2) by (auto simp: in_set_zip intro!: exI[of _ j])
  then have x: "?x \<in> set infos" using r(6) st(2) by blast
  have pre: "take (length (padded ?nds m p i)) (padded ?nds m ?d i) = padded ?nds m p i" for i
    using r(4) by (simp add: padded_def)
  show ?thesis
    using run x pre by (intro exI[of _ "\<lparr>cet_index = k, adaptor_index = a + j\<rparr>"] exI[of _ ?paths] exI[of _ ?x])
      (auto simp: group_info_def comp_def)
qed

theorem multi_oracle_trie_closes_witness:
  "\<exists>t value paths. mot_look_up (\<lambda>xs. xs) t [(0, padded [3, 3] 3 (digits 2 3 2) 0), (1, padded [3, 3] 3 (digits 2 3 2) 1)] =
     Some (Some (value, paths)) \<and> cet_index value = 0 \<and> map fst paths = [0, 1]"
proof -
  let ?info = "\<lparr>oni_base = 2, nb_digits = [3, 3]\<rparr>" and ?pay = "\<lparr>offer_payout = 0, accept_payout = 0\<rparr>"
  let ?ocs = "[\<lparr>rp_start = 0, rp_count = 3, rp_payout = ?pay\<rparr>, \<lparr>rp_start = 3, rp_count = 5, rp_payout = ?pay\<rparr>]"
  have ok: "oracles_ok (nb_digits ?info) 2 3" "base_ok (oni_base ?info) 3" "\<forall>oc \<in> set ?ocs. outcome_ok (oni_base ?info) 3 oc"
    "\<not> has_diff_nb_digits ?info" by (simp_all add: oracles_ok_def base_ok_def outcome_ok_def has_diff_nb_digits_def)
  have dis: "disjoint_outcomes ?ocs" by (auto simp: disjoint_outcomes_def in_outcome_def less_Suc_eq)
  obtain t0 t infos where gen: "new_mot ?info 2 = pok t0" "mot_generate t0 0 ?ocs = pok (t, infos)"
    using generate_returns[OF ok, of 0] by blast
  have v: "0 < length ?ocs" "in_outcome 2 (?ocs ! 0)" by (simp_all add: in_outcome_def)
  have js: "sorted_wrt (<) [0, 1::nat]" "set [0, 1] \<subseteq> {..<length (nb_digits ?info)}" "2 \<le> length [0, 1::nat]" by auto
  have "iteration_order (\<lambda>xs. xs)" by (simp add: iteration_order_def)
  from multi_oracle_trie_closes[OF ok(1-3) dis gen v js this] obtain v p where
    "mot_look_up (\<lambda>xs. xs) t (map (\<lambda>i. (i, padded (nb_digits ?info) 3 (digits (oni_base ?info) 3 2) i)) [0, 1]) = Some (Some (v, p))"
    "cet_index v = 0" "map fst p = take 2 [0, 1]" by blast
  then show ?thesis by (intro exI[of _ t] exI[of _ v] exI[of _ p]) simp
qed

text \<open>For oracles with equal numbers of digits and outcomes within the range that do not cover all of it, the
  generation returns.\<close>

theorem multi_oracle_generate_returns:
  assumes "oracles_ok (nb_digits info) thr m" "base_ok (oni_base info) m"
    "\<forall>oc \<in> set outcomes. outcome_ok (oni_base info) m oc" "\<not> has_diff_nb_digits info"
  shows "\<exists>t0 t infos. new_mot info thr = pok t0 \<and> mot_generate t0 start outcomes = pok (t, infos)"
  by (rule generate_returns[OF assms])

theorem multi_oracle_generate_returns_witness:
  "\<exists>t0 t infos. new_mot \<lparr>oni_base = 2, nb_digits = [3, 3]\<rparr> 2 = pok t0 \<and>
    mot_generate t0 0 [\<lparr>rp_start = 0, rp_count = 3, rp_payout = \<lparr>offer_payout = 0, accept_payout = 0\<rparr>\<rparr>] = pok (t, infos)"
  using multi_oracle_generate_returns[of "\<lparr>oni_base = 2, nb_digits = [3, 3]\<rparr>" 2 3
      "[\<lparr>rp_start = 0, rp_count = 3, rp_payout = \<lparr>offer_payout = 0, accept_payout = 0\<rparr>\<rparr>]" 0]
  by (simp add: oracles_ok_def base_ok_def outcome_ok_def has_diff_nb_digits_def)

text \<open>An outcome that is the whole range panics: its only group is the empty path, which the digit trie rejects.\<close>

theorem whole_range_outcome_panics:
  assumes "2 \<le> oni_base info" "oni_base info < 2 ^ 53" "oni_base info ^ m \<le> 2 ^ 53" "0 < m" "get_min_nb_digits info = Some m"
    "new_mot info thr = pok t0"
  shows "mot_generate t0 start (\<lparr>rp_start = 0, rp_count = oni_base info ^ m, rp_payout = pay\<rparr> # rest) = None"
proof -
  let ?oc = "\<lparr>rp_start = 0, rp_count = oni_base info ^ m, rp_payout = pay\<rparr>"
  have t0: "digit_trie t0 = new_trie (oni_base info)" "threshold t0 = thr" "oracle_numeric_infos t0 = info"
    using assms(6) by (auto simp: new_mot_def bind_eq_Some_conv split: if_splits)
  have pos: "0 < oni_base info ^ m" using assms(1) by simp
  have "outcome_groups ?oc (oni_base info) m = Some [[]]"
    using group_whole_range[OF assms(1-4)] assms(3) pos by (simp add: outcome_groups_def)
  moreover have "mot_insert_group (nb_digits info) thr m 0 [] (t, st) = None" for t st
    by (auto simp: mot_insert_group_def insert_path_def intro!: bind_eq_None_conv[THEN iffD2] split: option.splits)
  ultimately have "mot_insert_outcome (nb_digits info) thr m (0, ?oc) (new_trie (oni_base info), (start, [])) = None"
    using pos by (simp add: mot_insert_outcome_def)
  then show ?thesis
    by (simp add: mot_generate_def t0 assms(5) upt_conv_Cons del: upt_Suc)
qed

theorem whole_range_outcome_panics_witness:
  "\<exists>t0. new_mot \<lparr>oni_base = 2, nb_digits = [3, 3]\<rparr> 2 = pok t0 \<and>
     mot_generate t0 0 [\<lparr>rp_start = 0, rp_count = 2 ^ 3, rp_payout = \<lparr>offer_payout = 0, accept_payout = 0\<rparr>\<rparr>] = None"
proof -
  let ?info = "\<lparr>oni_base = 2, nb_digits = [3, 3]\<rparr>"
  obtain t0 where t0: "new_mot ?info 2 = pok t0" by (simp add: new_mot_def has_diff_nb_digits_def)
  have "get_min_nb_digits ?info = Some 3" by (simp add: get_min_nb_digits_def)
  from whole_range_outcome_panics[OF _ _ _ _ this t0, of 0 "\<lparr>offer_payout = 0, accept_payout = 0\<rparr>" "[]"] t0
  show ?thesis by simp
qed

text \<open>C36: The signatures that \<open>generate_sign\<close> of this trie makes are accepted by \<open>generate_verify\<close> of the other party, which
  returns the next adaptor index.\<close>

theorem multi_oracle_sign_then_verify:
  assumes "generate_sign mot_generate combine create txs points t start outcomes = pok (t', sigs)"
    "sound_sigs create check" "length before = start" "sigs \<noteq> []"
  shows "generate_verify mot_generate combine check txs (before @ sigs @ after) points t start outcomes =
    pok (t', start + length sigs)"
  using assms by (rule mot.sign_then_verify)

lemma sample_generate:
  "\<exists>t0 t. new_mot \<lparr>oni_base = 2, nb_digits = [1]\<rparr> 1 = pok t0 \<and>
   mot_generate t0 0 [\<lparr>rp_start = 0, rp_count = 1, rp_payout = \<lparr>offer_payout = 0, accept_payout = 0\<rparr>\<rparr>] =
     pok (t, [\<lparr>tii_indexes = [0], tii_paths = [[0]], tii_value = \<lparr>cet_index = 0, adaptor_index = 0\<rparr>\<rparr>])"
proof -
  have "group_by_ignoring_digits 0 0 2 1 = Some [[0]]" by code_simp
  moreover obtain it where "new 1 1 = Some it" "collect it = Some (combs 0 1 1)" using collect_new[of 1 1] by auto
  ultimately show ?thesis
    by (simp add: new_mot_def mot_generate_def get_min_nb_digits_def has_diff_nb_digits_def mot_insert_outcome_def outcome_groups_def
        mot_insert_group_def selection_paths_def selected_infos_def insert_path_def new_trie_def insert_internal.simps
        mot_get_value_def Let_def insert_new_leaf_def pre_pad_vec_def)
qed

theorem multi_oracle_sign_then_verify_witness:
  "\<exists>t0 t. new_mot \<lparr>oni_base = 2, nb_digits = [1]\<rparr> 1 = pok t0 \<and>
    generate_verify mot_generate (\<lambda>ps. Inr (sum_list ps)) (\<lambda>sig tx p. if sig = tx + p then Inr () else Inl InvalidArgument) [10 :: nat] [15 :: nat]
      [[[5 :: nat, 6]]] t0 0 [\<lparr>rp_start = 0, rp_count = 1, rp_payout = \<lparr>offer_payout = 0, accept_payout = 0\<rparr>\<rparr>] = pok (t, 1)"
proof -
  obtain t0 t where g: "new_mot \<lparr>oni_base = 2, nb_digits = [1]\<rparr> 1 = pok t0"
    "mot_generate t0 0 [\<lparr>rp_start = 0, rp_count = 1, rp_payout = \<lparr>offer_payout = 0, accept_payout = 0\<rparr>\<rparr>] =
     pok (t, [\<lparr>tii_indexes = [0], tii_paths = [[0]], tii_value = \<lparr>cet_index = 0, adaptor_index = 0\<rparr>\<rparr>])"
    using sample_generate by blast
  then have "generate_sign mot_generate (\<lambda>ps. Inr (sum_list ps)) (\<lambda>tx p. Inr (tx + p)) [10 :: nat] [[[5 :: nat, 6]]] t0 0
      [\<lparr>rp_start = 0, rp_count = 1, rp_payout = \<lparr>offer_payout = 0, accept_payout = 0\<rparr>\<rparr>] = pok (t, [15])"
    by (simp add: generate_sign_def sign_helper_def sign_info_def get_adaptor_point_for_indexed_paths_def indexed_keys_def)
  from multi_oracle_sign_then_verify[OF this, of "\<lambda>sig tx p. if sig = tx + p then Inr () else Inl InvalidArgument" "[]" "[]"] g(1)
  show ?thesis by (simp add: sound_sigs_def)
qed

end
