(* ===== verification/MultiOracleTrieWithDiff.thy ===== *)
theory MultiOracleTrieWithDiff
  imports MultiOracleTrie
begin

text \<open>
  \<open>dlc-trie/src/multi_oracle_trie_with_diff.rs\<close>: the trie of a numerical contract whose oracles may sign
  outcomes that differ up to a bound, a multi trie over the combinations of outcomes.
\<close>

record MultiOracleTrieWithDiff =
  multi_trie :: "RangeInfo MultiTrie"
  mtd_infos :: OracleNumericInfo

definition new_mtd :: "OracleNumericInfo \<Rightarrow> nat \<Rightarrow> nat \<Rightarrow> nat \<Rightarrow> (DlcError + MultiOracleTrieWithDiff) option" where
  "new_mtd infos thr min_support max_error =
     (let nb_oracles = length (nb_digits infos); is_valid = 1 \<le> nb_oracles \<and> thr \<le> nb_oracles \<and> min_support < max_error in
      if \<not> is_valid then perr InvalidArgument
      else obind (new_multi_trie infos thr min_support max_error True) (\<lambda>t. pok \<lparr>multi_trie = t, mtd_infos = infos\<rparr>))"

definition mtd_insert_group ::
  "nat \<Rightarrow> nat list \<Rightarrow> RangeInfo MultiTrie \<times> trie_state \<Rightarrow> ((DlcError + unit) \<times> (RangeInfo MultiTrie \<times> trie_state)) option" where
  "mtd_insert_group cet grp = (\<lambda>(t, st). mt_insert (\<lambda>paths is st. get_value_callback paths is cet st) t grp st)"

definition mtd_insert_outcome ::
  "OracleNumericInfo \<Rightarrow> nat \<times> RangePayout \<Rightarrow> RangeInfo MultiTrie \<times> trie_state \<Rightarrow>
   ((DlcError + unit) \<times> (RangeInfo MultiTrie \<times> trie_state)) option" where
  "mtd_insert_outcome infos = (\<lambda>(cet, outcome) ts.
     if rp_count outcome = 0 then Some (Inl InvalidArgument, ts)
     else Option.bind (get_min_nb_digits infos) (\<lambda>m.
       Option.bind (outcome_groups outcome (oni_base infos) m) (\<lambda>grps. each_state (mtd_insert_group cet) grps ts)))"

text \<open>\<open>has_diff_nb_digits\<close> reads the first number of digits of an oracle and panics without oracles.\<close>

definition mtd_generate :: "(MultiOracleTrieWithDiff, RangePayout) generate" where
  "mtd_generate t adaptor_index_start outcomes =
     (let infos = mtd_infos t in
      Option.bind (each_state (mtd_insert_outcome infos) (zip [0..<length outcomes] outcomes) (multi_trie t, (adaptor_index_start, [])))
       (\<lambda>(r, (mt, st)).
      case r of
        Inl e \<Rightarrow> perr e
      | Inr _ \<Rightarrow>
          Option.bind (vget (nb_digits infos) 0) (\<lambda>_.
          if has_diff_nb_digits infos
          then Option.bind (last_cet (mt_infos mt) (nb_required mt) outcomes) (\<lambda>cet.
            Option.bind (mt_insert_max_paths (\<lambda>paths is st. get_value_callback paths is cet st) mt st) (\<lambda>(r, (mt, st)).
            case r of
              Inl e \<Rightarrow> perr e
            | Inr _ \<Rightarrow> pok (t\<lparr>multi_trie := mt\<rparr>, snd st)))
          else pok (t\<lparr>multi_trie := mt\<rparr>, snd st))))"

record MultiOracleTrieWithDiffDump =
  mtd_trie_dump :: "RangeInfo MultiTrieDump"
  mtd_dump_infos :: OracleNumericInfo

definition mtd_dump :: "MultiOracleTrieWithDiff \<Rightarrow> MultiOracleTrieWithDiffDump option" where
  "mtd_dump t = map_option (\<lambda>d. \<lparr>mtd_trie_dump = d, mtd_dump_infos = mtd_infos t\<rparr>) (mt_dump (multi_trie t))"

definition mtd_from_dump :: "MultiOracleTrieWithDiffDump \<Rightarrow> MultiOracleTrieWithDiff option" where
  "mtd_from_dump d = map_option (\<lambda>t. \<lparr>multi_trie = t, mtd_infos = mtd_dump_infos d\<rparr>) (mt_from_dump (mtd_trie_dump d))"

lemma mtd_generate_numbered:
  assumes "mtd_generate t start outcomes = pok (t', infos)"
  shows "numbered start infos"
proof -
  let ?P = "\<lambda>s. trie_state_ok start (snd s)"
  have grp: "every (mtd_insert_group cet g ts) (\<lambda>(r, ts'). ?P ts')" if "?P ts" for cet g ts
    using that unfolding mtd_insert_group_def by (cases ts) (auto intro!: mt_insert_state get_value_callback_ok)
  have outcome: "every (mtd_insert_outcome oi x ts) (\<lambda>(r, ts'). ?P ts')" if "?P ts" for oi x ts
    using that grp unfolding mtd_insert_outcome_def by (cases x) (auto intro!: every_bind each_state_every)
  have all: "every (each_state (mtd_insert_outcome oi) xs ts) (\<lambda>(r, ts'). ?P ts')" if "?P ts" for oi xs ts
    using that outcome by (intro each_state_every) auto
  have extra: "every (mt_insert_max_paths (\<lambda>paths is st. get_value_callback paths is cet st) x st) (\<lambda>(r, ts'). ?P ts')"
    if "trie_state_ok start st" for cet x st
    using that by (intro mt_insert_max_paths_state get_value_callback_ok) auto
  have "every (mtd_generate t start outcomes) (\<lambda>r. case r of Inl e \<Rightarrow> True | Inr (t', infos) \<Rightarrow> numbered start infos)"
    unfolding mtd_generate_def Let_def
    by (auto intro!: every_bind split: sum.split dest!: everyD[OF all, rotated] everyD[OF extra, rotated] simp: trie_state_ok_def)
  then show ?thesis using assms by simp
qed

interpretation mtd: dlc_trie mtd_generate
  by unfold_locales (rule mtd_generate_numbered)

text \<open>With oracles whose outcomes may differ too, the signatures that one party generates are accepted by
  the verification of the other, which returns the next adaptor index.\<close>

theorem multi_oracle_diff_sign_then_verify:
  assumes "generate_sign mtd_generate combine create txs points t start outcomes = pok (t', sigs)"
    "sound_sigs create check" "length before = start" "sigs \<noteq> []"
  shows "generate_verify mtd_generate combine check txs (before @ sigs @ after) points t start outcomes =
    pok (t', start + length sigs)"
  using assms by (rule mtd.sign_then_verify)

lemma mtd_sample:
  "\<exists>t0 t. new_mtd \<lparr>oni_base = 2, nb_digits = [1]\<rparr> 1 0 1 = pok t0 \<and>
   mtd_generate t0 0 [\<lparr>rp_start = 0, rp_count = 1, rp_payout = \<lparr>offer_payout = 0, accept_payout = 0\<rparr>\<rparr>] =
     pok (t, [\<lparr>tii_indexes = [0], tii_paths = [[0]], tii_value = \<lparr>cet_index = 0, adaptor_index = 0\<rparr>\<rparr>])"
proof -
  have "group_by_ignoring_digits 0 0 2 1 = Some [[0]]" by code_simp
  moreover obtain it where "new 1 1 = Some it" "collect it = Some (combs 0 1 1)" using collect_new[of 1 1] by auto
  ultimately show ?thesis
    by (simp add: new_mtd_def new_multi_trie_def new_multi_node_def mtd_generate_def get_min_nb_digits_def has_diff_nb_digits_def
        mtd_insert_outcome_def outcome_groups_def mtd_insert_group_def mt_insert_def selection_combinations_def mt_insert_paths_def
        mt_insert_internal.simps insert_path_def new_trie_def insert_internal.simps get_value_callback_def Let_def insert_new_leaf_def)
qed

theorem multi_oracle_diff_sign_then_verify_witness:
  "\<exists>t0 t. new_mtd \<lparr>oni_base = 2, nb_digits = [1]\<rparr> 1 0 1 = pok t0 \<and>
    generate_verify mtd_generate (\<lambda>ps. Inr (sum_list ps)) (\<lambda>sig tx p. if sig = tx + p then Inr () else Inl InvalidArgument) [10 :: nat] [15 :: nat]
      [[[5 :: nat, 6]]] t0 0 [\<lparr>rp_start = 0, rp_count = 1, rp_payout = \<lparr>offer_payout = 0, accept_payout = 0\<rparr>\<rparr>] = pok (t, 1)"
proof -
  obtain t0 t where g: "new_mtd \<lparr>oni_base = 2, nb_digits = [1]\<rparr> 1 0 1 = pok t0"
    "mtd_generate t0 0 [\<lparr>rp_start = 0, rp_count = 1, rp_payout = \<lparr>offer_payout = 0, accept_payout = 0\<rparr>\<rparr>] =
     pok (t, [\<lparr>tii_indexes = [0], tii_paths = [[0]], tii_value = \<lparr>cet_index = 0, adaptor_index = 0\<rparr>\<rparr>])"
    using mtd_sample by blast
  then have "generate_sign mtd_generate (\<lambda>ps. Inr (sum_list ps)) (\<lambda>tx p. Inr (tx + p)) [10 :: nat] [[[5 :: nat, 6]]] t0 0
      [\<lparr>rp_start = 0, rp_count = 1, rp_payout = \<lparr>offer_payout = 0, accept_payout = 0\<rparr>\<rparr>] = pok (t, [15])"
    by (simp add: generate_sign_def sign_helper_def sign_info_def get_adaptor_point_for_indexed_paths_def indexed_keys_def)
  from multi_oracle_diff_sign_then_verify[OF this, of "\<lambda>sig tx p. if sig = tx + p then Inr () else Inl InvalidArgument" "[]" "[]"] g(1)
  show ?thesis by (simp add: sound_sigs_def)
qed

end
