(* ===== verification/OracleTrieIter.thy ===== *)
theory OracleTrieIter
  imports DigitTrieIter MultiOracleTrieSpec MultiOracleTrieWithDiff
begin

text \<open>
  The iterators of \<open>multi_trie.rs\<close>, \<open>multi_oracle_trie.rs\<close> and \<open>multi_oracle_trie_with_diff.rs\<close>, from which the trait
  signs and verifies with a stored trie. The last elements of their stacks are the heads of the lists here, and an
  iterator over a part of a trie is kept with that part. Every call of \<open>next\<close> to itself is in tail position: a step
  returns \<open>Inl\<close> of the state to call it with again, or \<open>Inr\<close> of its result.
\<close>

partial_function (option) repeat_step :: "('i \<Rightarrow> ('i + 'x option \<times> 'i) option) \<Rightarrow> 'i \<Rightarrow> ('x option \<times> 'i) option" where
  "repeat_step f it = Option.bind (f it) (\<lambda>r. case r of Inl it \<Rightarrow> repeat_step f it | Inr y \<Rightarrow> Some y)"

declare repeat_step.simps [code]

section \<open>Multi trie\<close>

record 'v MultiTrieIterator =
  node_stack :: "((nat \<times> nat list) \<times> TrieNodeInfo list DigitTrie \<times> DigitTrieIter) list"
  trie_info_iter :: "(nat list \<times> nat \<times> TrieNodeInfo list) list"
  leaf_iter :: "(nat \<times> 'v DigitTrie \<times> DigitTrieIter) list"
  cur_path :: "indexed_path list"

fun create_node_iterator :: "'v multi_node \<Rightarrow> (TrieNodeInfo list DigitTrie \<times> DigitTrieIter) option" where
  "create_node_iterator (Node d) = Some (d, new_digit_iter d)"
| "create_node_iterator _ = None"

fun create_leaf_iterator :: "'v multi_node \<Rightarrow> ('v DigitTrie \<times> DigitTrieIter) option" where
  "create_leaf_iterator (Leaf d) = Some (d, new_digit_iter d)"
| "create_leaf_iterator _ = None"

text \<open>The roots are pushed from the last to the first.\<close>

definition new_multi_iter :: "'v MultiTrie \<Rightarrow> 'v MultiTrieIterator option" where
  "new_multi_iter t = do {
     d \<leftarrow> u64_sub (nb_tries t) (nb_required t);
     let roots = [0..<d + 1];
     if 1 < nb_required t
     then do {
       ns \<leftarrow> omap (\<lambda>i. do { n \<leftarrow> vget (mt_store t) i; it \<leftarrow> create_node_iterator n; Some ((i, []), it) }) roots;
       Some \<lparr>node_stack = ns, trie_info_iter = [], leaf_iter = [], cur_path = []\<rparr>
     }
     else do {
       ls \<leftarrow> omap (\<lambda>i. do { n \<leftarrow> vget (mt_store t) i; it \<leftarrow> create_leaf_iterator n; Some (i, it) }) roots;
       Some \<lparr>node_stack = [], trie_info_iter = [], leaf_iter = ls, cur_path = []\<rparr>
     }
   }"

text \<open>The part of \<open>next\<close> after the infos: the next entry of the node on the top of the stack.\<close>

definition multi_node_step ::
  "'v MultiTrieIterator \<Rightarrow> ('v MultiTrieIterator + ('v, indexed_path) LookupResult option \<times> 'v MultiTrieIterator) option" where
  "multi_node_step it =
     (case node_stack it of
        [] \<Rightarrow> Some (Inr (None, it))
      | (h, t, di) # ns \<Rightarrow>
          Option.bind (digit_next t di) (\<lambda>(r, di).
          case r of
            None \<Rightarrow> Some (Inl (it\<lparr>node_stack := ns\<rparr>))
          | Some res \<Rightarrow>
              Some (Inl (it\<lparr>node_stack := (h, t, di) # ns,
                trie_info_iter := (res_path res, 0, res_value res) # trie_info_iter it\<rparr>))))"

definition multi_info_step ::
  "'v MultiTrie \<Rightarrow> 'v MultiTrieIterator \<Rightarrow> ('v MultiTrieIterator + ('v, indexed_path) LookupResult option \<times> 'v MultiTrieIterator) option" where
  "multi_info_step t it =
     (case trie_info_iter it of
        [] \<Rightarrow> multi_node_step it
      | (path, i, []) # rest \<Rightarrow> multi_node_step (it\<lparr>trie_info_iter := rest, cur_path := butlast (cur_path it)\<rparr>)
      | (path, i, info # infos) # rest \<Rightarrow> do {
          it \<leftarrow> (if i = 0
             then (case node_stack it of
                 [] \<Rightarrow> None
               | ((k, _), _) # _ \<Rightarrow> Some (it\<lparr>trie_info_iter := (path, i + 1, infos) # rest, cur_path := cur_path it @ [(k, path)]\<rparr>))
             else Some (it\<lparr>trie_info_iter := (path, i + 1, infos) # rest\<rparr>));
          node \<leftarrow> vget (mt_store t) (store_index info);
          (case node of
             NodeNone \<Rightarrow> None
           | Node d \<Rightarrow> multi_node_step (it\<lparr>node_stack := ((trie_index info, path), d, new_digit_iter d) # node_stack it\<rparr>)
           | Leaf d \<Rightarrow> Some (Inl (it\<lparr>leaf_iter := (trie_index info, d, new_digit_iter d) # leaf_iter it\<rparr>)))
        })"

definition multi_step ::
  "'v MultiTrie \<Rightarrow> 'v MultiTrieIterator \<Rightarrow> ('v MultiTrieIterator + ('v, indexed_path) LookupResult option \<times> 'v MultiTrieIterator) option" where
  "multi_step t it =
     (case leaf_iter it of
        (i, d, di) # ls \<Rightarrow>
          Option.bind (digit_next d di) (\<lambda>(r, di).
          case r of
            Some res \<Rightarrow> Some (Inr (Some (LookupResult (cur_path it @ [(i, res_path res)]) (res_value res)), it\<lparr>leaf_iter := (i, d, di) # ls\<rparr>))
          | None \<Rightarrow> Some (Inl (it\<lparr>leaf_iter := ls\<rparr>)))
      | [] \<Rightarrow> multi_info_step t it)"

definition multi_next ::
  "'v MultiTrie \<Rightarrow> 'v MultiTrieIterator \<Rightarrow> (('v, indexed_path) LookupResult option \<times> 'v MultiTrieIterator) option" where
  "multi_next t it = repeat_step (multi_step t) it"

text \<open>The indexes and the paths of a result, with its value.\<close>

definition trie_info_of :: "(RangeInfo, indexed_path) LookupResult \<Rightarrow> TrieIterInfo" where
  "trie_info_of res = \<lparr>tii_indexes = map fst (res_path res), tii_paths = map snd (res_path res), tii_value = res_value res\<rparr>"

section \<open>Trie of agreeing oracles\<close>

record MultiOracleTrieIter =
  digit_trie_iterator :: DigitTrieIter
  extra_cover_trie_iterator :: "RangeInfo MultiTrieIterator option"
  cur_res :: "(RangeInfo list, nat) LookupResult option"
  cur_index :: nat
  combination_iter :: CombinationIterator

definition new_mot_iter :: "MultiOracleTrie \<Rightarrow> MultiOracleTrieIter option" where
  "new_mot_iter t = do {
     extra \<leftarrow> (case extra_cover_trie t of None \<Rightarrow> Some None | Some x \<Rightarrow> map_option Some (new_multi_iter x));
     c \<leftarrow> new (length (nb_digits (oracle_numeric_infos t))) (threshold t);
     Some \<lparr>digit_trie_iterator = new_digit_iter (digit_trie t), extra_cover_trie_iterator = extra, cur_res = None, cur_index = 0,
       combination_iter = c\<rparr>
   }"

definition mot_iter_path :: "OracleNumericInfo \<Rightarrow> nat list \<Rightarrow> nat \<Rightarrow> nat list option" where
  "mot_iter_path infos x i = do {
     m \<leftarrow> get_min_nb_digits infos;
     nd \<leftarrow> vget (nb_digits infos) i;
     extra_len \<leftarrow> u64_sub nd m;
     if extra_len = 0 then Some x
     else do { expected_size \<leftarrow> u64_add extra_len (length x); pre_pad_vec x expected_size }
   }"

text \<open>The items of the current entry of the digit trie; when the combinations are exhausted, they start again with the next entry.\<close>

definition mot_res_step ::
  "MultiOracleTrie \<Rightarrow> (RangeInfo list, nat) LookupResult \<Rightarrow> MultiOracleTrieIter \<Rightarrow>
   (MultiOracleTrieIter + TrieIterInfo option \<times> MultiOracleTrieIter) option" where
  "mot_res_step t res it =
     Option.bind (next_combination (combination_iter it)) (\<lambda>(r, c).
     case r of
       None \<Rightarrow> do {
         c \<leftarrow> new (nb_elements c) (nb_selected c);
         Some (Inl (it\<lparr>cur_res := None, cur_index := 0, combination_iter := c\<rparr>))
       }
     | Some indexes \<Rightarrow> do {
         _ \<leftarrow> get_min_nb_digits (oracle_numeric_infos t);
         paths \<leftarrow> omap (mot_iter_path (oracle_numeric_infos t) (res_path res)) indexes;
         value \<leftarrow> vget (res_value res) (cur_index it);
         Some (Inr (Some \<lparr>tii_indexes = indexes, tii_paths = paths, tii_value = value\<rparr>,
           it\<lparr>cur_res := Some res, cur_index := cur_index it + 1, combination_iter := c\<rparr>))
       })"

definition mot_extra_step ::
  "MultiOracleTrie \<Rightarrow> MultiOracleTrieIter \<Rightarrow> (MultiOracleTrieIter + TrieIterInfo option \<times> MultiOracleTrieIter) option" where
  "mot_extra_step t it =
     (case (extra_cover_trie t, extra_cover_trie_iterator it) of
        (Some x, Some xi) \<Rightarrow>
          Option.bind (multi_next x xi) (\<lambda>(r, xi).
            Some (Inr (map_option trie_info_of r, it\<lparr>cur_res := None, extra_cover_trie_iterator := Some xi\<rparr>)))
      | _ \<Rightarrow> Some (Inr (None, it\<lparr>cur_res := None\<rparr>)))"

definition mot_step ::
  "MultiOracleTrie \<Rightarrow> MultiOracleTrieIter \<Rightarrow> (MultiOracleTrieIter + TrieIterInfo option \<times> MultiOracleTrieIter) option" where
  "mot_step t it =
     Option.bind (case cur_res it of
         Some res \<Rightarrow> Some (Some res, it)
       | None \<Rightarrow> Option.bind (digit_next (digit_trie t) (digit_trie_iterator it)) (\<lambda>(r, di).
           Some (r, it\<lparr>cur_res := r, digit_trie_iterator := di\<rparr>))) (\<lambda>(r, it).
     case r of None \<Rightarrow> mot_extra_step t it | Some res \<Rightarrow> mot_res_step t res it)"

definition mot_next :: "MultiOracleTrie \<Rightarrow> MultiOracleTrieIter \<Rightarrow> (TrieIterInfo option \<times> MultiOracleTrieIter) option" where
  "mot_next t it = repeat_step (mot_step t) it"

text \<open>\<open>self.iter()\<close> as the trait uses it, to its end.\<close>

definition mot_iter :: "MultiOracleTrie \<Rightarrow> TrieIterInfo list option" where
  "mot_iter t = Option.bind (new_mot_iter t) (drain (mot_next t))"

section \<open>Trie of differing oracles\<close>

definition mtd_next ::
  "MultiOracleTrieWithDiff \<Rightarrow> RangeInfo MultiTrieIterator \<Rightarrow> (TrieIterInfo option \<times> RangeInfo MultiTrieIterator) option" where
  "mtd_next t it = Option.bind (multi_next (multi_trie t) it) (\<lambda>(r, it). Some (map_option trie_info_of r, it))"

definition mtd_iter :: "MultiOracleTrieWithDiff \<Rightarrow> TrieIterInfo list option" where
  "mtd_iter t = Option.bind (new_multi_iter (multi_trie t)) (drain (mtd_next t))"

end
