(* ===== verification/OracleTrieIterSpec.thy ===== *)
theory OracleTrieIterSpec
  imports OracleTrieIter
begin

text \<open>
  What the iterator of a generated \<open>MultiOracleTrie\<close> yields: the infos of the generation, in another order, so
  that \<open>sign\<close> and \<open>verify\<close> on the stored trie agree with \<open>generate_sign\<close> and \<open>generate_verify\<close>.
\<close>

section \<open>The infos of a generated trie\<close>

text \<open>A group with its execution transaction and the first of its adaptor indexes.\<close>

type_synonym group_entry = "nat \<times> nat list \<times> nat"

definition entry_infos :: "nat list \<Rightarrow> nat \<Rightarrow> nat \<Rightarrow> group_entry \<Rightarrow> TrieIterInfo list" where
  "entry_infos nds thr m = (\<lambda>(cet, p, a). map (group_info nds m cet p)
     (zip (selections nds thr) [a..<a + length (selections nds thr)]))"

definition entry_path :: "group_entry \<Rightarrow> nat list" where "entry_path = (\<lambda>(cet, p, a). p)"
definition entry_key :: "group_entry \<Rightarrow> nat \<times> nat list" where "entry_key = (\<lambda>(cet, p, a). (cet, p))"
definition entry_values :: "nat \<Rightarrow> group_entry \<Rightarrow> RangeInfo list" where "entry_values l = (\<lambda>(cet, p, a). range_values cet a l)"

lemma entry_path_key: "entry_path e = snd (entry_key e)"
  by (simp add: entry_path_def entry_key_def split: prod.split)

definition exact ::
  "nat list \<Rightarrow> nat \<Rightarrow> nat \<Rightarrow> nat \<Rightarrow> group_entry list \<Rightarrow> RangeInfo list DigitTrie \<Rightarrow> trie_state \<Rightarrow> bool" where
  "exact nds thr m b es t st \<longleftrightarrow>
     (\<exists>M. is_trie t M \<and> base t = b \<and> (\<forall>p v. M p = Some v \<longleftrightarrow> (\<exists>e \<in> set es. entry_path e = p \<and> entry_values (length (selections nds thr)) e = v))) \<and>
     distinct (map entry_path es) \<and> snd st = concat (map (entry_infos nds thr m) es)"

lemma exact_insert_group:
  assumes ok: "oracles_ok nds thr m" and g: "digits_ok b g" "length g \<le> m" "g \<notin> entry_path ` set es"
    and inv: "exact nds thr m b es t st"
  shows "\<exists>t' st' e. mot_insert_group nds thr m cet g (t, st) = Some (Inr (), (t', st')) \<and>
    exact nds thr m b (es @ [e]) t' st' \<and> entry_key e = (cet, g)"
proof -
  let ?l = "length (selections nds thr)"
  obtain a infos where st: "st = (a, infos)" by (cases st)
  obtain M where M: "is_trie t M" "base t = b"
    "\<And>p v. M p = Some v \<longleftrightarrow> (\<exists>e \<in> set es. entry_path e = p \<and> entry_values ?l e = v)"
    using inv unfolding exact_def by blast
  obtain t' where t': "mot_insert_group nds thr m cet g (t, st) = Some (Inr (), (t', (a + ?l, infos @ entry_infos nds thr m (cet, g, a))))"
    "is_trie t' (M(g \<mapsto> range_values cet a ?l))" "base t' = b"
    using mot_insert_group_step[OF ok g(1,2) M(1,2) refl, of cet a infos] unfolding st entry_infos_def by auto
  have upd: "(M(g \<mapsto> range_values cet a ?l)) p = Some v \<longleftrightarrow> (\<exists>e \<in> set (es @ [(cet, g, a)]). entry_path e = p \<and> entry_values ?l e = v)" for p v
  proof (cases "p = g")
    case True
    then show ?thesis using g(3) by (auto simp: entry_path_def entry_values_def image_iff split: prod.splits)
  next
    case False
    then show ?thesis using M(3) by (simp add: entry_path_def)
  qed
  have "exact nds thr m b (es @ [(cet, g, a)]) t' (a + ?l, infos @ entry_infos nds thr m (cet, g, a))"
    unfolding exact_def
  proof (intro conjI exI[of _ "M(g \<mapsto> range_values cet a ?l)"] allI)
    show "distinct (map entry_path (es @ [(cet, g, a)]))" using inv g(3) by (simp add: exact_def) (simp add: entry_path_def)
    show "snd (a + ?l, infos @ entry_infos nds thr m (cet, g, a)) = concat (map (entry_infos nds thr m) (es @ [(cet, g, a)]))"
      using inv st by (simp add: exact_def)
  qed (rule t'(2), rule t'(3), rule upd)
  then show ?thesis using t'(1) by (auto simp: entry_key_def)
qed

lemma exact_insert_groups:
  assumes ok: "oracles_ok nds thr m"
  shows "\<forall>g \<in> set gs. digits_ok b g \<and> length g \<le> m \<Longrightarrow> distinct gs \<Longrightarrow> set gs \<inter> entry_path ` set es = {} \<Longrightarrow>
    exact nds thr m b es t st \<Longrightarrow>
    \<exists>t' st' es'. each_state (mot_insert_group nds thr m cet) gs (t, st) = Some (Inr (), (t', st')) \<and>
      exact nds thr m b (es @ es') t' st' \<and> map entry_key es' = map (Pair cet) gs"
proof (induction gs arbitrary: es t st)
  case (Cons g gs)
  have g: "digits_ok b g" "length g \<le> m" "g \<notin> entry_path ` set es" using Cons.prems by auto
  obtain t1 st1 e where 1: "mot_insert_group nds thr m cet g (t, st) = Some (Inr (), (t1, st1))"
    "exact nds thr m b (es @ [e]) t1 st1" "entry_key e = (cet, g)"
    using exact_insert_group[OF ok g Cons.prems(4), of cet] by blast
  have "set gs \<inter> entry_path ` set (es @ [e]) = {}" using Cons.prems 1(3) by (auto simp: entry_path_key)
  then obtain t' st' es' where "each_state (mot_insert_group nds thr m cet) gs (t1, st1) = Some (Inr (), (t', st'))"
    "exact nds thr m b ((es @ [e]) @ es') t' st'" "map entry_key es' = map (Pair cet) gs"
    using Cons.IH[OF _ _ _ 1(2)] Cons.prems by auto
  then show ?case using 1(1,3) by (intro exI[of _ t'] exI[of _ st'] exI[of _ "e # es'"]) simp
qed (auto intro: exI[of _ "[]"])

lemma tiles_distinct: "tiles b m a ps e \<Longrightarrow> 0 < b \<Longrightarrow> distinct ps"
proof (induction ps arbitrary: a)
  case (Cons p ps)
  have "p \<notin> set ps"
  proof
    assume "p \<in> set ps"
    then have "hi b m p \<le> lo b m p" using tiles_mem[of b m "hi b m p" ps e p] Cons.prems by simp
    then show False using lo_less_hi[of b m p] Cons.prems(2) by simp
  qed
  then show ?case using Cons by auto
qed simp

definition all_groups :: "nat \<Rightarrow> nat \<Rightarrow> RangePayout list \<Rightarrow> (nat \<times> nat list) list" where
  "all_groups b m outcomes = concat (map (\<lambda>(k, oc). map (Pair k) (the (outcome_groups oc b m))) (zip [0..<length outcomes] outcomes))"

lemma all_groups_snoc:
  "all_groups b m (outcomes @ [oc]) = all_groups b m outcomes @ map (Pair (length outcomes)) (the (outcome_groups oc b m))"
  by (simp add: all_groups_def zip_append1)

lemma all_groups_mem:
  "(k, p) \<in> set (all_groups b m outcomes) \<Longrightarrow> k < length outcomes \<and> p \<in> set (the (outcome_groups (outcomes ! k) b m))"
  by (auto simp: all_groups_def set_zip)

text \<open>A path is a group of one outcome only: the first number of its interval is an outcome of both.\<close>

lemma group_outcome:
  assumes b: "base_ok b m" and oc: "outcome_ok b m oc" and p: "p \<in> set (the (outcome_groups oc b m))"
  shows "in_outcome (lo b m p) oc"
proof -
  obtain ps where ps: "outcome_groups oc b m = Some ps" "tiles b m (rp_start oc) ps (rp_start oc + rp_count oc)"
    using outcome_groups_run[OF b oc] by blast
  then show ?thesis
    using tiles_mem[OF ps(2), of p] lo_less_hi[of b m p] b p by (auto simp: in_outcome_def base_ok_def)
qed

lemma all_groups_distinct:
  assumes b: "base_ok b m"
  shows "\<forall>oc \<in> set outcomes. outcome_ok b m oc \<Longrightarrow> disjoint_outcomes outcomes \<Longrightarrow> distinct (map snd (all_groups b m outcomes))"
proof (induction outcomes rule: rev_induct)
  case Nil
  then show ?case by (simp add: all_groups_def)
next
  case (snoc oc outcomes)
  have "disjoint_outcomes outcomes"
    using snoc.prems(2) unfolding disjoint_outcomes_def by (metis length_append_singleton less_SucI nth_append)
  then have IH: "distinct (map snd (all_groups b m outcomes))" using snoc by simp
  have oc: "outcome_ok b m oc" using snoc.prems by simp
  obtain ps where ps: "outcome_groups oc b m = Some ps" "distinct ps"
    using outcome_groups_run[OF b oc] tiles_distinct b by (fastforce simp: base_ok_def)
  have "p \<notin> set ps" if kp: "(k, p) \<in> set (all_groups b m outcomes)" for k p
  proof
    assume p: "p \<in> set ps"
    have k: "k < length outcomes" "p \<in> set (the (outcome_groups (outcomes ! k) b m))" using all_groups_mem[OF kp] by auto
    then have "outcome_ok b m (outcomes ! k)" using snoc.prems(1) by simp
    then have "in_outcome (lo b m p) (outcomes ! k)" using group_outcome[OF b] k(2) by simp
    moreover have "in_outcome (lo b m p) oc" using group_outcome[OF b oc] ps(1) p by simp
    ultimately have "k = length outcomes" using snoc.prems(2) k(1) unfolding disjoint_outcomes_def
      by (metis length_append_singleton lessI less_SucI nth_append nth_append_length)
    then show False using k(1) by simp
  qed
  then show ?case using IH ps by (auto simp: all_groups_snoc comp_def)
qed

lemma exact_insert_outcomes:
  assumes ok: "oracles_ok nds thr m" and b: "base_ok b m"
  shows "\<forall>oc \<in> set outcomes. outcome_ok b m oc \<Longrightarrow> distinct (map snd (all_groups b m outcomes)) \<Longrightarrow> exact nds thr m b [] t st \<Longrightarrow>
    \<exists>t' st' es. each_state (mot_insert_outcome nds thr m) (zip [0..<length outcomes] outcomes) (t, st) = Some (Inr (), (t', st')) \<and>
      exact nds thr m b es t' st' \<and> map entry_key es = all_groups b m outcomes"
proof (induction outcomes rule: rev_induct)
  case Nil
  then show ?case by (auto simp: all_groups_def)
next
  case (snoc oc outcomes)
  obtain t1 st1 es where 1: "each_state (mot_insert_outcome nds thr m) (zip [0..<length outcomes] outcomes) (t, st) = Some (Inr (), (t1, st1))"
    "exact nds thr m b es t1 st1" "map entry_key es = all_groups b m outcomes"
    using snoc by (auto simp: all_groups_snoc)
  have oc: "outcome_ok b m oc" using snoc.prems by simp
  obtain ps where ps: "outcome_groups oc b m = Some ps" "\<forall>p \<in> set ps. digits_ok b p \<and> length p \<le> m"
    using outcome_groups_run[OF b oc] by blast
  have "map snd (all_groups b m outcomes) = map entry_path es"
    unfolding 1(3)[symmetric] by (simp add: entry_path_key)
  then have d: "distinct ps" "set ps \<inter> entry_path ` set es = {}"
    using snoc.prems(2) ps(1) by (auto simp: all_groups_snoc comp_def dest!: arg_cong[of _ _ set])
  obtain t' st' es' where 2: "each_state (mot_insert_group nds thr m (length outcomes)) ps (t1, st1) = Some (Inr (), (t', st'))"
    "exact nds thr m b (es @ es') t' st'" "map entry_key es' = map (Pair (length outcomes)) ps"
    using exact_insert_groups[OF ok ps(2) d 1(2)] by blast
  have base: "base t1 = b" using 1(2) by (auto simp: exact_def)
  have "zip [0..<length (outcomes @ [oc])] (outcomes @ [oc]) = zip [0..<length outcomes] outcomes @ [(length outcomes, oc)]"
    by (simp add: zip_append1)
  moreover have "mot_insert_outcome nds thr m (length outcomes, oc) (t1, st1) = Some (Inr (), (t', st'))"
    using ps(1) 2(1) oc base by (simp add: mot_insert_outcome_def outcome_ok_def)
  ultimately have "each_state (mot_insert_outcome nds thr m) (zip [0..<length (outcomes @ [oc])] (outcomes @ [oc])) (t, st) = Some (Inr (), (t', st'))"
    using 1(1) by (simp add: each_state_append)
  then show ?case using 2(2,3) 1(3) ps(1) by (intro exI[of _ t'] exI[of _ st'] exI[of _ "es @ es'"]) (simp add: all_groups_snoc)
qed


section \<open>The items of the iterator\<close>

lemma collect_Cons: "collect it = Some (c # cs) \<longleftrightarrow> (\<exists>it'. next_combination it = Some (Some c, it') \<and> collect it' = Some cs)"
  by (subst collect.simps) (auto simp: bind_eq_Some_conv split: option.splits)

lemma collect_Nil: "collect it = Some [] \<longleftrightarrow> (\<exists>it'. next_combination it = Some (None, it'))"
  by (subst collect.simps) (auto simp: bind_eq_Some_conv split: option.splits)

lemma next_combination_size:
  "next_combination it = Some (r, it') \<Longrightarrow> nb_elements it' = nb_elements it \<and> nb_selected it' = nb_selected it"
  by (auto simp: next_combination_def bind_eq_Some_conv split: if_splits)

definition mot_items :: "nat list \<Rightarrow> nat \<Rightarrow> nat \<Rightarrow> (RangeInfo list, nat) LookupResult \<Rightarrow> TrieIterInfo list" where
  "mot_items nds thr m e = map (\<lambda>(sel, v). \<lparr>tii_indexes = sel, tii_paths = map (padded nds m (res_path e)) sel, tii_value = v\<rparr>)
     (zip (selections nds thr) (res_value e))"

definition mot_entry :: "nat list \<Rightarrow> nat \<Rightarrow> nat \<Rightarrow> (RangeInfo list, nat) LookupResult \<Rightarrow> bool" where
  "mot_entry nds thr m e \<longleftrightarrow> length (res_path e) \<le> m \<and> length (res_value e) = length (selections nds thr)"

text \<open>What is to come: the rest of the current entry, and the items of the entries the digit trie still yields.\<close>

definition mot_to_come :: "MultiOracleTrie \<Rightarrow> MultiOracleTrieIter \<Rightarrow> TrieIterInfo list \<Rightarrow> bool" where
  "mot_to_come t it items \<longleftrightarrow>
     (let nds = nb_digits (oracle_numeric_infos t); thr = threshold t; m = Min (set nds); C = selections nds thr in
      extra_cover_trie t = None \<and> oracles_ok nds thr m \<and>
      nb_elements (combination_iter it) = length nds \<and> nb_selected (combination_iter it) = thr \<and>
      (\<exists>xs cs. digit_iter_of (digit_trie t) (digit_trie_iterator it) xs \<and> (\<forall>e \<in> set xs. mot_entry nds thr m e) \<and>
        collect (combination_iter it) = Some cs \<and>
        (case cur_res it of
           None \<Rightarrow> cs = C \<and> cur_index it = 0 \<and> items = concat (map (mot_items nds thr m) xs)
         | Some e \<Rightarrow> mot_entry nds thr m e \<and> cur_index it \<le> length C \<and> cs = drop (cur_index it) C \<and>
             items = drop (cur_index it) (mot_items nds thr m e) @ concat (map (mot_items nds thr m) xs))))"

lemma selections_nonempty: "oracles_ok nds thr m \<Longrightarrow> selections nds thr \<noteq> []"
proof -
  assume "oracles_ok nds thr m"
  then have "selection 0 (length nds) thr [0..<thr]" by (auto simp: selection_def oracles_ok_def sorted_wrt_upt)
  then show ?thesis using set_combs[of 0 "length nds" thr] by auto
qed

lemma mot_iter_paths:
  assumes ok: "oracles_ok (nb_digits info) thr m" and sel: "sel \<in> set (selections (nb_digits info) thr)" and p: "length p \<le> m"
  shows "omap (mot_iter_path info p) sel = Some (map (padded (nb_digits info) m p) sel)"
proof (rule omap_Some_map)
  fix i assume "i \<in> set sel"
  then have i: "i < length (nb_digits info)" using sel by (auto simp: set_combs selection_def)
  have m: "get_min_nb_digits info = Some m"
    using ok oracles_okD(1)[OF ok] by (simp add: get_min_nb_digits_spec oracles_ok_def)
  have "nb_digits info ! i - m + length p < u64_bound" using oracles_okD(3,4)[OF ok] i p by fastforce
  then show "mot_iter_path info p i = Some (padded (nb_digits info) m p i)"
    using m i oracles_okD(2)[OF ok i] by (auto simp: mot_iter_path_def padded_def)
qed

lemma mot_res_step_item:
  assumes tc: "mot_to_come t it items" and e: "cur_res it = Some e" "cur_index it < length (selections (nb_digits (oracle_numeric_infos t)) (threshold t))"
  shows "\<exists>x rest it'. items = x # rest \<and> mot_res_step t e it = Some (Inr (Some x, it')) \<and> mot_to_come t it' rest"
proof -
  let ?info = "oracle_numeric_infos t"
  let ?nds = "nb_digits ?info" and ?thr = "threshold t"
  let ?m = "Min (set ?nds)" and ?C = "selections ?nds ?thr" and ?j = "cur_index it"
  obtain xs where h: "extra_cover_trie t = None" "oracles_ok ?nds ?thr ?m" "nb_elements (combination_iter it) = length ?nds"
    "nb_selected (combination_iter it) = ?thr" "digit_iter_of (digit_trie t) (digit_trie_iterator it) xs"
    "\<forall>e \<in> set xs. mot_entry ?nds ?thr ?m e" "collect (combination_iter it) = Some (drop ?j ?C)"
    "mot_entry ?nds ?thr ?m e" "items = drop ?j (mot_items ?nds ?thr ?m e) @ concat (map (mot_items ?nds ?thr ?m) xs)"
    using tc e(1) unfolding mot_to_come_def Let_def by auto
  obtain c where c: "next_combination (combination_iter it) = Some (Some (?C ! ?j), c)" "collect c = Some (drop (Suc ?j) ?C)"
    using h(7) e(2) collect_Cons by (metis Cons_nth_drop_Suc)
  have m: "get_min_nb_digits ?info = Some ?m" using oracles_okD(1)[OF h(2)] by (simp add: get_min_nb_digits_spec)
  have len: "length (res_value e) = length ?C" "length (res_path e) \<le> ?m" using h(8) by (auto simp: mot_entry_def)
  have paths: "omap (mot_iter_path ?info (res_path e)) (?C ! ?j) = Some (map (padded ?nds ?m (res_path e)) (?C ! ?j))"
    using mot_iter_paths[OF h(2) _ len(2)] e(2) by simp
  let ?x = "\<lparr>tii_indexes = ?C ! ?j, tii_paths = map (padded ?nds ?m (res_path e)) (?C ! ?j), tii_value = res_value e ! ?j\<rparr>"
  let ?it = "it\<lparr>cur_res := Some e, cur_index := ?j + 1, combination_iter := c\<rparr>"
  have "mot_res_step t e it = Some (Inr (Some ?x, ?it))"
    using c(1) m paths len(1) e(2) by (simp add: mot_res_step_def)
  moreover have "drop ?j (mot_items ?nds ?thr ?m e) = ?x # drop (Suc ?j) (mot_items ?nds ?thr ?m e)"
    using e(2) len(1) by (simp add: mot_items_def Cons_nth_drop_Suc[symmetric])
  moreover have "mot_to_come t ?it (drop (Suc ?j) (mot_items ?nds ?thr ?m e) @ concat (map (mot_items ?nds ?thr ?m) xs))"
    using h c(2) e(2) next_combination_size[OF c(1)] unfolding mot_to_come_def Let_def by auto
  ultimately show ?thesis using h(9) by auto
qed

lemma repeat_step_Inl: "f it = Some (Inl it') \<Longrightarrow> repeat_step f it = repeat_step f it'"
  by (subst repeat_step.simps) simp

lemma repeat_step_Inr: "f it = Some (Inr y) \<Longrightarrow> repeat_step f it = Some y"
  by (subst repeat_step.simps) simp

lemma mot_next_fresh:
  assumes tc: "mot_to_come t it items" and e: "cur_res it = None"
  shows "case items of [] \<Rightarrow> \<exists>it'. mot_next t it = Some (None, it')
     | x # rest \<Rightarrow> \<exists>it'. mot_next t it = Some (Some x, it') \<and> mot_to_come t it' rest"
proof -
  let ?nds = "nb_digits (oracle_numeric_infos t)" and ?thr = "threshold t"
  let ?m = "Min (set ?nds)" and ?C = "selections ?nds ?thr"
  obtain xs where h: "extra_cover_trie t = None" "oracles_ok ?nds ?thr ?m" "nb_elements (combination_iter it) = length ?nds"
    "nb_selected (combination_iter it) = ?thr" "digit_iter_of (digit_trie t) (digit_trie_iterator it) xs"
    "\<forall>e \<in> set xs. mot_entry ?nds ?thr ?m e" "collect (combination_iter it) = Some ?C" "cur_index it = 0"
    "items = concat (map (mot_items ?nds ?thr ?m) xs)"
    using tc e unfolding mot_to_come_def Let_def by auto
  show ?thesis
  proof (cases xs)
    case Nil
    obtain di where "digit_next (digit_trie t) (digit_trie_iterator it) = Some (None, di)"
      using digits.next_none h(5) Nil by blast
    then have "mot_step t it = Some (Inr (None, it\<lparr>cur_res := None, digit_trie_iterator := di\<rparr>))"
      using h(1) e by (simp add: mot_step_def mot_extra_step_def)
    then show ?thesis using h(9) Nil repeat_step_Inr unfolding mot_next_def by fastforce
  next
    case (Cons y ys)
    then have "digit_iter_of (digit_trie t) (digit_trie_iterator it) (y # ys)" using h(5) by simp
    then obtain di where di: "digit_next (digit_trie t) (digit_trie_iterator it) = Some (Some y, di)"
      "digit_iter_of (digit_trie t) di ys" using digits.next_some by blast
    let ?it = "it\<lparr>cur_res := Some y, digit_trie_iterator := di\<rparr>"
    have "mot_to_come t ?it items"
      using h di(2) Cons unfolding mot_to_come_def Let_def by (auto simp: mot_items_def)
    moreover have "0 < length ?C" using selections_nonempty[OF h(2)] by simp
    ultimately obtain x rest it' where x: "items = x # rest" "mot_res_step t y ?it = Some (Inr (Some x, it'))" "mot_to_come t it' rest"
      using mot_res_step_item[of t ?it items y] h(8) by auto
    have "mot_step t it = Some (Inr (Some x, it'))" using e di(1) x(2) by (simp add: mot_step_def)
    then show ?thesis using x(1,3) repeat_step_Inr unfolding mot_next_def by fastforce
  qed
qed

lemma mot_next_to_come:
  assumes tc: "mot_to_come t it items"
  shows "case items of [] \<Rightarrow> \<exists>it'. mot_next t it = Some (None, it')
     | x # rest \<Rightarrow> \<exists>it'. mot_next t it = Some (Some x, it') \<and> mot_to_come t it' rest"
proof (cases "cur_res it")
  case None
  then show ?thesis by (rule mot_next_fresh[OF tc])
next
  case (Some e)
  let ?nds = "nb_digits (oracle_numeric_infos t)" and ?thr = "threshold t"
  let ?m = "Min (set ?nds)" and ?C = "selections ?nds ?thr"
  show ?thesis
  proof (cases "cur_index it < length ?C")
    case True
    then obtain x rest it' where x: "items = x # rest" "mot_res_step t e it = Some (Inr (Some x, it'))" "mot_to_come t it' rest"
      using mot_res_step_item[OF tc Some] by blast
    then have "mot_step t it = Some (Inr (Some x, it'))" using Some by (simp add: mot_step_def)
    then show ?thesis using x(1,3) repeat_step_Inr unfolding mot_next_def by fastforce
  next
    case False
    obtain xs where h: "oracles_ok ?nds ?thr ?m" "nb_elements (combination_iter it) = length ?nds"
      "nb_selected (combination_iter it) = ?thr" "collect (combination_iter it) = Some []"
      "digit_iter_of (digit_trie t) (digit_trie_iterator it) xs" "\<forall>e \<in> set xs. mot_entry ?nds ?thr ?m e" "extra_cover_trie t = None"
      "items = concat (map (mot_items ?nds ?thr ?m) xs)"
      using tc Some False unfolding mot_to_come_def Let_def by (auto simp: mot_items_def mot_entry_def)
    obtain c where c: "next_combination (combination_iter it) = Some (None, c)" using h(4) collect_Nil by blast
    obtain it0 where it0: "new (length ?nds) ?thr = Some it0" "collect it0 = Some ?C"
      using collect_new[of ?thr "length ?nds"] h(1) by (auto simp: oracles_ok_def)
    let ?it = "it\<lparr>cur_res := None, cur_index := 0, combination_iter := it0\<rparr>"
    have size: "nb_elements it0 = length ?nds" "nb_selected it0 = ?thr" using it0(1) by (auto simp: new_def split: if_splits)
    have step: "mot_step t it = Some (Inl ?it)"
      using Some c it0(1) next_combination_size[OF c] h(2,3) by (simp add: mot_step_def mot_res_step_def)
    have "mot_to_come t ?it items" using h it0(2) size unfolding mot_to_come_def Let_def by auto
    from mot_next_fresh[OF this] show ?thesis unfolding mot_next_def repeat_step_Inl[where f = "mot_step t", OF step] by simp
  qed
qed

interpretation mot_items: iterator "mot_next t" "mot_to_come t" for t
proof
  show "\<exists>it'. mot_next t it = Some (None, it')" if "mot_to_come t it []" for it
    using mot_next_to_come[OF that] by simp
  show "\<exists>it'. mot_next t it = Some (Some x, it') \<and> mot_to_come t it' xs" if "mot_to_come t it (x # xs)" for it x xs
    using mot_next_to_come[OF that] by simp
qed


section \<open>Iterating over a generated trie\<close>

text \<open>The entries of the digit trie are the groups; their items are the infos.\<close>

lemma entry_items:
  assumes "length (selections nds thr) = l"
  shows "mot_items nds thr m (LookupResult (entry_path e) (entry_values l e)) = entry_infos nds thr m e"
proof (cases e)
  case (fields cet p a)
  show ?thesis
    by (rule nth_equalityI)
      (use assms in \<open>auto simp: mot_items_def entry_infos_def entry_path_def entry_values_def range_values_def group_info_def fields\<close>)
qed

lemma mset_of_distinct:
  assumes "distinct (map f es)" "distinct (map g xs)" "f ` set es = g ` set xs"
    "\<And>e x. e \<in> set es \<Longrightarrow> x \<in> set xs \<Longrightarrow> f e = g x \<Longrightarrow> h e = k x"
  shows "mset (map h es) = mset (map k xs)"
proof -
  define H where "H y = h (the_inv_into (set es) f y)" for y
  have inj: "inj_on f (set es)" using assms(1) by (simp add: distinct_map)
  have H: "h e = H (f e)" if "e \<in> set es" for e using that inj by (simp add: H_def the_inv_into_f_f)
  have K: "k x = H (g x)" if x: "x \<in> set xs" for x
  proof -
    have "g x \<in> f ` set es" using x assms(3) by simp
    then obtain e where "e \<in> set es" "f e = g x" by auto
    then show ?thesis using assms(4)[OF _ x] H by metis
  qed
  have "mset (map f es) = mset (map g xs)"
    using assms(1-3) set_eq_iff_mset_eq_distinct[of "map f es" "map g xs"] by simp
  then have "image_mset H (mset (map f es)) = image_mset H (mset (map g xs))" by simp
  moreover have "map h es = map H (map f es)" "map k xs = map H (map g xs)" using H K by auto
  ultimately show ?thesis by (simp only: mset_map)
qed

lemma mset_concat_cong: "mset xss = mset yss \<Longrightarrow> mset (concat xss) = mset (concat yss)"
  by (metis mset_concat mset_map sum_mset_sum_list)

lemma generated_infos:
  assumes ok: "oracles_ok (nb_digits info) thr m" and b: "base_ok (oni_base info) m"
    and ocs: "\<forall>oc \<in> set outcomes. outcome_ok (oni_base info) m oc" "disjoint_outcomes outcomes"
    and same: "\<not> has_diff_nb_digits info"
    and new: "new_mot info thr = pok t0" and gen: "mot_generate t0 start outcomes = pok (t, infos)"
  shows "\<exists>infos'. mot_iter t = Some infos' \<and> mset infos' = mset infos"
proof -
  have t0: "digit_trie t0 = new_trie (oni_base info)" "threshold t0 = thr" "oracle_numeric_infos t0 = info" "extra_cover_trie t0 = None"
    using new same by (auto simp: new_mot_def bind_eq_Some_conv split: if_splits)
  let ?nds = "nb_digits info"
  have ne: "?nds \<noteq> []" using oracles_okD(1)[OF ok] .
  have m: "get_min_nb_digits info = Some m" using ok ne by (simp add: get_min_nb_digits_spec oracles_ok_def)
  have mMin: "m = Min (set ?nds)" using ok by (simp add: oracles_ok_def)
  have "exact ?nds thr m (oni_base info) [] (new_trie (oni_base info)) (start, [])"
    unfolding exact_def using is_trie_new by (intro conjI exI[of _ Map.empty]) simp_all
  then obtain dt st es where run: "each_state (mot_insert_outcome ?nds thr m) (zip [0..<length outcomes] outcomes)
       (new_trie (oni_base info), (start, [])) = Some (Inr (), (dt, st))"
    and ex: "exact ?nds thr m (oni_base info) es dt st" "map entry_key es = all_groups (oni_base info) m outcomes"
    using exact_insert_outcomes[OF ok b ocs(1) all_groups_distinct[OF b ocs]] by blast
  have t: "t = t0\<lparr>digit_trie := dt\<rparr>" "infos = snd st" using gen run m t0 by (simp_all add: mot_generate_def)
  let ?l = "length (selections ?nds thr)"
  obtain M where M: "is_trie dt M" "base dt = oni_base info" "\<And>p v. M p = Some v \<longleftrightarrow> (\<exists>e \<in> set es. entry_path e = p \<and> entry_values ?l e = v)"
    "distinct (map entry_path es)" "snd st = concat (map (entry_infos ?nds thr m) es)"
    using ex(1) unfolding exact_def by blast
  have b2: "0 < base dt" using b M(2) by (simp add: base_ok_def)
  obtain xs where xs: "digit_iter_of dt (new_digit_iter dt) xs" "set xs = {LookupResult p v | p v. M p = Some v}"
      "distinct (map res_path xs)" using digit_iter_entries[OF M(1) b2] sorted_paths_distinct by blast
  have entry: "mot_entry ?nds thr m x" if "x \<in> set xs" for x
  proof -
    have "x \<in> {LookupResult p v | p v. M p = Some v}" using that xs(2) by (simp only:)
    then obtain p v where "x = LookupResult p v" "M p = Some v" by blast
    then obtain e where e: "e \<in> set es" "x = LookupResult (entry_path e) (entry_values ?l e)" using M(3)[of p v] by metis
    obtain k p where k: "entry_key e = (k, p)" by fastforce
    then have kp: "(k, p) \<in> set (all_groups (oni_base info) m outcomes)" using e(1) ex(2) by (metis image_eqI list.set_map)
    have "outcome_ok (oni_base info) m (outcomes ! k)" using all_groups_mem[OF kp] ocs(1) by simp
    then have "length p \<le> m" using outcome_groups_run[OF b] all_groups_mem[OF kp] by fastforce
    then show ?thesis using e(2) k by (auto simp: mot_entry_def entry_path_key entry_values_def range_values_def split: prod.split)
  qed
  obtain c where c: "new (length ?nds) thr = Some c" "collect c = Some (selections ?nds thr)"
    using collect_new[of thr "length ?nds"] ok by (auto simp: oracles_ok_def)
  let ?it = "\<lparr>digit_trie_iterator = new_digit_iter dt, extra_cover_trie_iterator = None, cur_res = None, cur_index = 0, combination_iter = c\<rparr>"
  have "new_mot_iter t = Some ?it" using c(1) t t0 by (simp add: new_mot_iter_def)
  moreover have "mot_to_come t ?it (concat (map (mot_items ?nds thr m) xs))"
    using xs(1) entry c ok t t0 mMin unfolding mot_to_come_def Let_def by (auto simp: new_def split: if_splits)
  ultimately have "mot_iter t = Some (concat (map (mot_items ?nds thr m) xs))"
    using mot_items.drain_yields by (simp add: mot_iter_def)
  moreover have "mset (map (entry_infos ?nds thr m) es) = mset (map (mot_items ?nds thr m) xs)"
  proof (rule mset_of_distinct[OF M(4) xs(3)])
    show "entry_path ` set es = res_path ` set xs" using xs(2) M(3) by (force simp: image_iff)
    show "entry_infos ?nds thr m e = mot_items ?nds thr m x" if e: "e \<in> set es" and x: "x \<in> set xs" and eq: "entry_path e = res_path x" for e x
    proof -
      have "M (entry_path e) = Some (entry_values ?l e)" using M(3) e by blast
      moreover have "x \<in> {LookupResult p v | p v. M p = Some v}" using x xs(2) by (simp only:)
      ultimately show ?thesis using entry_items[OF refl, of ?nds thr m e] eq by auto
    qed
  qed
  ultimately show ?thesis using mset_concat_cong M(5) t(2) by metis
qed


section \<open>Signing with a stored trie\<close>

text \<open>The order of the infos does not matter to \<open>sign_helper\<close>, as their adaptor indexes differ.\<close>

lemma pmap_perm:
  assumes "mset xs = mset ys" "pmap f xs = pok us"
  shows "\<exists>vs. pmap f ys = pok vs \<and> mset us = mset vs"
proof -
  define u where "u x = (THE y. f x = pok y)" for x
  have u: "f x = pok (u x)" if "x \<in> set xs" for x
  proof -
    obtain i where "i < length xs" "x = xs ! i" using \<open>x \<in> set xs\<close> by (metis in_set_conv_nth)
    then have "f x = pok (us ! i)" using assms(2) by (simp add: pmap_pok_iff list_all2_conv_all_nth)
    then show ?thesis unfolding u_def by simp
  qed
  have "set ys = set xs" using assms(1) by (metis set_mset_mset)
  then have "pmap f ys = pok (map u ys)" "pmap f xs = pok (map u xs)" using u by (auto intro!: pmap_pok_map)
  then show ?thesis using assms by (auto simp: mset_map)
qed

lemma sort_key_perm:
  assumes "mset xs = mset ys" "distinct (map f xs)"
  shows "sort_key f xs = sort_key f ys"
proof -
  have "sort (map f xs) = map f (sort_key f zs)" if "mset zs = mset xs" for zs
    using that by (intro properties_for_sort) (simp_all add: mset_map)
  then have "map f (sort_key f xs) = map f (sort_key f ys)" using assms(1) by metis
  moreover have "inj_on f (set (sort_key f xs) \<union> set (sort_key f ys))"
    using assms mset_eq_setD[OF assms(1)] by (simp add: distinct_map)
  ultimately show ?thesis using inj_on_map_eq_map by blast
qed

lemma sign_helper_perm:
  assumes "mset infos = mset infos'" "numbered start infos" "sign_helper combine create txs points infos = pok sigs"
  shows "sign_helper combine create txs points infos' = pok sigs"
proof -
  obtain us where us: "pmap (sign_info combine create txs points) infos = pok us" "sigs = map snd (sort_key fst us)"
    using assms(3) by (auto simp: sign_helper_def)
  obtain vs where vs: "pmap (sign_info combine create txs points) infos' = pok vs" "mset us = mset vs"
    using pmap_perm[OF assms(1) us(1)] by blast
  have "map fst us = map (\<lambda>x. adaptor_index (tii_value x)) infos"
    using us(1) unfolding pmap_pok_iff list_all2_conv_all_nth
    by (intro nth_equalityI) (auto dest!: sign_info_fst)
  then have "distinct (map fst us)" using assms(2) by (simp add: numbered_def)
  then show ?thesis using vs(1) us(2) sort_key_perm[OF vs(2), of fst] by (simp add: sign_helper_def)
qed

lemma verify_loop_max:
  "verify_loop combine check txs sigs points infos k =
     pbind (pforall (verify_info combine check txs sigs points) infos) (\<lambda>_. pok (foldl max k (map (\<lambda>x. adaptor_index (tii_value x)) infos) + 1))"
proof (induction infos arbitrary: k)
  case (Cons x xs)
  have "(if k < adaptor_index (tii_value x) then adaptor_index (tii_value x) else k) = max k (adaptor_index (tii_value x))" by auto
  then show ?case using Cons by (simp add: pbind_assoc)
qed simp

lemma foldl_max: "foldl max (k :: nat) xs = Max (insert k (set xs))"
  using Max.set_eq_fold[of k xs] by (simp add: foldl_conv_fold max.commute)

lemma verify_helper_perm:
  assumes "mset infos = mset infos'" "verify_helper combine check txs sigs points infos = pok n"
  shows "verify_helper combine check txs sigs points infos' = pok n"
proof -
  have "set infos = set infos'" using assms(1) by (metis set_mset_mset)
  then show ?thesis using assms(2) by (auto simp: verify_helper_def verify_loop_max foldl_max)
qed



end
