(* ===== verification/DlcTx.thy ===== *)
theory DlcTx
  imports DlcTypes
begin

unbundle bit_operations_syntax

text \<open>
  The transactions of \<open>dlc/src/lib.rs\<close>: fees and change of a party, the fund transaction, the contract
  execution and refund transactions, the escrow and collateral transactions of a loan, and the
  redeem scripts. Amounts panic on overflow (\<open>None\<close>); \<open>assert_eq\<close> panics too.
\<close>

section \<open>Scripts\<close>

text \<open>The order of public keys is the lexicographic order of their serialisations.\<close>

definition key_le :: "pubkey \<Rightarrow> pubkey \<Rightarrow> bool" where
  "key_le a b \<longleftrightarrow> a = b \<or> ord_class.lexordp a b"

definition funding_redeemscript_items :: "pubkey \<Rightarrow> pubkey \<Rightarrow> ScriptItem list" where
  "funding_redeemscript_items a b =
     (let (first, second) = (if key_le a b then (a, b) else (b, a)) in
      [Op ''OP_PUSHNUM_2'', PushSlice first, PushSlice second, Op ''OP_PUSHNUM_2'', Op ''OP_CHECKMULTISIG''])"

definition make_funding_redeemscript :: "btc \<Rightarrow> pubkey \<Rightarrow> pubkey \<Rightarrow> script" where
  "make_funding_redeemscript B a b = assemble B (funding_redeemscript_items a b)"

definition loan_funding_items :: "pubkey \<Rightarrow> pubkey \<Rightarrow> nat \<Rightarrow> bytes \<Rightarrow> ScriptItem list" where
  "loan_funding_items borrower_pubkey lender_pubkey relative_locktime borrower_hash =
     [PushSlice borrower_pubkey, Op ''OP_DEPTH'', Op ''OP_PUSHNUM_2'', Op ''OP_EQUAL'', Op ''OP_IF'',
      Op ''OP_CHECKSIGVERIFY'', PushSequence relative_locktime, Op ''OP_CSV'', Op ''OP_ELSE'',
      Op ''OP_CODESEPARATOR'', Op ''OP_CHECKSIGVERIFY'', Op ''OP_SIZE'', PushInt 16, Op ''OP_EQUALVERIFY'',
      Op ''OP_SHA256'', PushSlice borrower_hash, Op ''OP_EQUALVERIFY'', PushSlice lender_pubkey,
      Op ''OP_CHECKSIG'', Op ''OP_ENDIF'']"

definition make_loan_funding_redeemscript :: "btc \<Rightarrow> pubkey \<Rightarrow> pubkey \<Rightarrow> nat \<Rightarrow> bytes \<Rightarrow> script" where
  "make_loan_funding_redeemscript B borrower lender lt hash = assemble B (loan_funding_items borrower lender lt hash)"

definition loan_escrow_after_codesep_items :: "pubkey \<Rightarrow> bytes \<Rightarrow> ScriptItem list" where
  "loan_escrow_after_codesep_items lender_pubkey borrower_hash =
     [Op ''OP_CHECKSIGVERIFY'', Op ''OP_SIZE'', PushInt 16, Op ''OP_EQUALVERIFY'', Op ''OP_SHA256'',
      PushSlice borrower_hash, Op ''OP_EQUALVERIFY'', PushSlice lender_pubkey, Op ''OP_CHECKSIG'', Op ''OP_ENDIF'']"

definition make_loan_escrow_after_codesep_script :: "btc \<Rightarrow> pubkey \<Rightarrow> bytes \<Rightarrow> script" where
  "make_loan_escrow_after_codesep_script B lender hash = assemble B (loan_escrow_after_codesep_items lender hash)"

definition collateral_items :: "pubkey \<Rightarrow> pubkey \<Rightarrow> bytes \<Rightarrow> ScriptItem list" where
  "collateral_items borrower_pubkey lender_pubkey lender_hash =
     [PushSlice lender_pubkey, Op ''OP_2SWAP'', PushSlice borrower_pubkey, PushInt 2, Op ''OP_PICK'', Op ''OP_NOTIF'',
      Op ''OP_CHECKSIGVERIFY'', Op ''OP_DROP'', Op ''OP_CHECKSIG'', Op ''OP_ELSE'', Op ''OP_CODESEPARATOR'',
      Op ''OP_CHECKSIGVERIFY'', Op ''OP_1SUB'', Op ''OP_NOTIF'', Op ''OP_CHECKSIG'', Op ''OP_ELSE'', Op ''OP_DROP'',
      Op ''OP_SIZE'', PushInt 16, Op ''OP_EQUALVERIFY'', Op ''OP_SHA256'', PushSlice lender_hash, Op ''OP_EQUAL'',
      Op ''OP_ENDIF'', Op ''OP_ENDIF'']"

definition make_collateral_redeemscript :: "btc \<Rightarrow> pubkey \<Rightarrow> pubkey \<Rightarrow> bytes \<Rightarrow> script" where
  "make_collateral_redeemscript B borrower lender hash = assemble B (collateral_items borrower lender hash)"

definition collateral_after_codesep_items :: "bytes \<Rightarrow> ScriptItem list" where
  "collateral_after_codesep_items lender_hash =
     [Op ''OP_CHECKSIGVERIFY'', Op ''OP_1SUB'', Op ''OP_NOTIF'', Op ''OP_CHECKSIG'', Op ''OP_ELSE'', Op ''OP_DROP'',
      Op ''OP_SIZE'', PushInt 16, Op ''OP_EQUALVERIFY'', Op ''OP_SHA256'', PushSlice lender_hash, Op ''OP_EQUAL'',
      Op ''OP_ENDIF'', Op ''OP_ENDIF'']"

definition make_collateral_after_codesep_script :: "btc \<Rightarrow> bytes \<Rightarrow> script" where
  "make_collateral_after_codesep_script B hash = assemble B (collateral_after_codesep_items hash)"

section \<open>Fees and change of a party\<close>

fun inputs_weight_loop :: "btc \<Rightarrow> TxInputInfo list \<Rightarrow> nat \<Rightarrow> (DlcError + nat) option" where
  "inputs_weight_loop B [] acc = pok acc"
| "inputs_weight_loop B (w # ws) acc =
     obind (redeem_script_to_script_sig B (redeem_script w)) (\<lambda>sig.
     pbind (ck (u64_mul (length sig) 4)) (\<lambda>script_weight.
     pbind (checked_add4 acc TX_INPUT_BASE_WEIGHT script_weight (max_witness_len w)) (\<lambda>acc.
     inputs_weight_loop B ws acc)))"

definition get_change_output_and_fees ::
  "btc \<Rightarrow> PartyParams \<Rightarrow> nat \<Rightarrow> amount \<Rightarrow> (DlcError + TxOut \<times> amount \<times> amount) option" where
  "get_change_output_and_fees B p fee_rate_per_vb extra_fee =
     pbind (inputs_weight_loop B (pp_inputs p) 0) (\<lambda>inputs_weight.
     pbind (ck (u64_mul (length (change_script_pubkey p)) 4)) (\<lambda>change_weight.
     pbind (checked_add4 (FUND_TX_BASE_WEIGHT div 2) inputs_weight change_weight 36) (\<lambda>total_fund_weight.
     pbind (Some (weight_to_fee total_fund_weight fee_rate_per_vb)) (\<lambda>fund_fee.
     pbind (checked_add3 (8 + 4 + 4) (TX_INPUT_BASE_WEIGHT + 32 * 4) (8 + 4 + (32 + 2) * 4)) (\<lambda>total_collateral_weight.
     pbind (Some (weight_to_fee total_collateral_weight fee_rate_per_vb)) (\<lambda>collateral_fee.
     pbind (ck (u64_mul (length (payout_script_pubkey p)) 4)) (\<lambda>output_spk_weight.
     pbind (ck (u64_add (CET_BASE_WEIGHT div 2) output_spk_weight)) (\<lambda>total_cet_weight.
     pbind (Some (weight_to_fee total_cet_weight fee_rate_per_vb)) (\<lambda>cet_or_refund_fee.
     pbind (checked_add3 (collateral p) fund_fee collateral_fee) (\<lambda>x.
     pbind (checked_add3 x cet_or_refund_fee extra_fee) (\<lambda>required_input_funds.
     if input_amount p < required_input_funds then perr InvalidArgument
     else
       obind (u64_sub (input_amount p) required_input_funds) (\<lambda>v.
       obind (u64_sub v 100) (\<lambda>v.
       pok (\<lparr>txo_value = v, script_pubkey = change_script_pubkey p\<rparr>, fund_fee, cet_or_refund_fee))))))))))))))"

definition get_unsigned_tx_inputs_and_serial_ids ::
  "btc \<Rightarrow> PartyParams \<Rightarrow> nat \<Rightarrow> (TxIn list \<times> nat list) option" where
  "get_unsigned_tx_inputs_and_serial_ids B p sq =
     Option.bind (omap (\<lambda>i. map_option (\<lambda>sig. \<lparr>previous_output = ii_outpoint i, script_sig = sig, sequence = sq, witness = []\<rparr>)
         (redeem_script_to_script_sig B (redeem_script i))) (pp_inputs p)) (\<lambda>ins.
       Some (ins, map ii_serial_id (pp_inputs p)))"

section \<open>The fund transaction\<close>

definition create_funding_transaction ::
  "btc \<Rightarrow> script \<Rightarrow> amount \<Rightarrow> TxIn list \<Rightarrow> nat list \<Rightarrow> TxIn list \<Rightarrow> nat list \<Rightarrow> TxOut \<Rightarrow> nat \<Rightarrow> TxOut \<Rightarrow> nat \<Rightarrow>
   nat \<Rightarrow> nat \<Rightarrow> Transaction option" where
  "create_funding_transaction B funding_script output_amount offer_inputs offer_ids accept_inputs accept_ids
     offer_change offer_change_id accept_change accept_change_id fund_output_id lt =
     do {
       let fund_out = \<lparr>txo_value = output_amount, script_pubkey = to_p2wsh B funding_script\<rparr>;
       outs \<leftarrow> order_by_serial_ids [fund_out, offer_change, accept_change] [fund_output_id, offer_change_id, accept_change_id];
       ins \<leftarrow> order_by_serial_ids (offer_inputs @ accept_inputs) (offer_ids @ accept_ids);
       Some \<lparr>version = TX_VERSION, lock_time = lt, tx_input = ins, tx_output = discard_dust outs DUST_LIMIT\<rparr>
     }"

definition create_fund_transaction_with_fees ::
  "btc \<Rightarrow> PartyParams \<Rightarrow> PartyParams \<Rightarrow> nat \<Rightarrow> nat \<Rightarrow> nat \<Rightarrow> amount \<Rightarrow> (DlcError + Transaction \<times> script) option" where
  "create_fund_transaction_with_fees B offer accept fee_rate fund_lock_time fund_output_id extra_fee =
     pbind (ck (u64_add (collateral offer) (collateral accept))) (\<lambda>total_collateral.
     pbind (get_change_output_and_fees B offer fee_rate extra_fee) (\<lambda>(offer_change, offer_fund_fee, offer_cet_fee).
     pbind (get_change_output_and_fees B accept fee_rate extra_fee) (\<lambda>(accept_change, accept_fund_fee, accept_cet_fee).
     pbind (ck (u64_add (input_amount offer) (input_amount accept))) (\<lambda>inputs.
     obind (do {
       x \<leftarrow> u64_sub inputs (txo_value offer_change);
       x \<leftarrow> u64_sub x (txo_value accept_change);
       x \<leftarrow> u64_sub x offer_fund_fee;
       x \<leftarrow> u64_sub x accept_fund_fee;
       fund_output_value \<leftarrow> u64_sub x extra_fee;
       y \<leftarrow> u64_add total_collateral offer_cet_fee;
       y \<leftarrow> u64_add y accept_cet_fee;
       y \<leftarrow> u64_add y extra_fee;
       assert_that (y = fund_output_value);
       a \<leftarrow> u64_add (input_amount offer) (input_amount accept);
       z \<leftarrow> u64_add fund_output_value (txo_value offer_change);
       z \<leftarrow> u64_add z (txo_value accept_change);
       z \<leftarrow> u64_add z offer_fund_fee;
       z \<leftarrow> u64_add z accept_fund_fee;
       z \<leftarrow> u64_add z extra_fee;
       assert_that (a = z);
       let sq = get_sequence fund_lock_time;
       (offer_ins, offer_ids) \<leftarrow> get_unsigned_tx_inputs_and_serial_ids B offer sq;
       (accept_ins, accept_ids) \<leftarrow> get_unsigned_tx_inputs_and_serial_ids B accept sq;
       let s = make_funding_redeemscript B (fund_pubkey offer) (fund_pubkey accept);
       tx \<leftarrow> create_funding_transaction B s fund_output_value offer_ins offer_ids accept_ins accept_ids
         offer_change (change_serial_id offer) accept_change (change_serial_id accept) fund_output_id fund_lock_time;
       Some (tx, s)
     }) (\<lambda>r. pok r)))))"

section \<open>Contract execution and refund transactions\<close>

definition create_cet :: "TxOut \<Rightarrow> nat \<Rightarrow> TxOut \<Rightarrow> nat \<Rightarrow> TxIn \<Rightarrow> nat \<Rightarrow> Transaction" where
  "create_cet offer_output offer_id accept_output accept_id fund_tx_in lt =
     \<lparr>version = TX_VERSION, lock_time = lt, tx_input = [fund_tx_in],
      tx_output = discard_dust (if offer_id < accept_id then [offer_output, accept_output] else [accept_output, offer_output]) DUST_LIMIT\<rparr>"

definition create_cets :: "TxIn \<Rightarrow> script \<Rightarrow> nat \<Rightarrow> script \<Rightarrow> nat \<Rightarrow> Payout list \<Rightarrow> nat \<Rightarrow> Transaction list" where
  "create_cets fund_tx_input offer_spk offer_id accept_spk accept_id payouts lt =
     map (\<lambda>p. create_cet \<lparr>txo_value = offer_payout p, script_pubkey = offer_spk\<rparr> offer_id
                \<lparr>txo_value = accept_payout p, script_pubkey = accept_spk\<rparr> accept_id fund_tx_input lt) payouts"

definition create_refund_transaction :: "TxOut \<Rightarrow> TxOut \<Rightarrow> TxIn \<Rightarrow> nat \<Rightarrow> Transaction" where
  "create_refund_transaction offer_output accept_output funding_input lt =
     \<lparr>version = TX_VERSION, lock_time = lt, tx_input = [funding_input],
      tx_output = discard_dust [offer_output, accept_output] DUST_LIMIT\<rparr>"

definition proper_payout :: "amount \<Rightarrow> Payout \<Rightarrow> bool" where
  "proper_payout tot p = (case u64_add (offer_payout p) (accept_payout p) of Some t \<Rightarrow> t = tot | None \<Rightarrow> False)"

definition create_cets_and_refund_tx ::
  "PartyParams \<Rightarrow> PartyParams \<Rightarrow> OutPoint \<Rightarrow> Payout list \<Rightarrow> nat \<Rightarrow> nat \<Rightarrow> nat option \<Rightarrow>
   DlcError + (Transaction list \<times> Transaction)" where
  "create_cets_and_refund_tx offer accept prev_outpoint payouts refund_lock_time cet_lock_time cet_nsequence =
     rbind (ok_or InvalidArgument (u64_add (collateral offer) (collateral accept))) (\<lambda>total_collateral.
     if \<not> list_all (proper_payout total_collateral) payouts then Inl InvalidArgument
     else
       let cet_input = \<lparr>previous_output = prev_outpoint, script_sig = [],
             sequence = (case cet_nsequence of Some sq \<Rightarrow> sq | None \<Rightarrow> get_sequence cet_lock_time), witness = []\<rparr>;
           cets = create_cets cet_input (payout_script_pubkey offer) (payout_serial_id offer)
             (payout_script_pubkey accept) (payout_serial_id accept) payouts cet_lock_time;
           offer_refund = \<lparr>txo_value = collateral offer, script_pubkey = payout_script_pubkey offer\<rparr>;
           accept_refund = \<lparr>txo_value = collateral accept, script_pubkey = payout_script_pubkey accept\<rparr>;
           refund_input = \<lparr>previous_output = prev_outpoint, script_sig = [], sequence = ENABLE_LOCKTIME, witness = []\<rparr>
       in Inr (cets, create_refund_transaction offer_refund accept_refund refund_input refund_lock_time))"

section \<open>The transactions of a contract\<close>

definition create_dlc_transactions ::
  "btc \<Rightarrow> PartyParams \<Rightarrow> PartyParams \<Rightarrow> Payout list \<Rightarrow> nat \<Rightarrow> nat \<Rightarrow> nat \<Rightarrow> nat \<Rightarrow> nat \<Rightarrow> (DlcError + DlcTransactions) option" where
  "create_dlc_transactions B offer accept payouts refund_lock_time fee_rate fund_lock_time cet_lock_time fund_output_id =
     pbind (create_fund_transaction_with_fees B offer accept fee_rate fund_lock_time fund_output_id 0) (\<lambda>(fund_tx, s).
     obind (get_output_for_script_pubkey fund_tx (to_p2wsh B s)) (\<lambda>(i, _).
     pbind (Some (create_cets_and_refund_tx offer accept \<lparr>txid = compute_txid B fund_tx, vout = i mod u32_bound\<rparr>
       payouts refund_lock_time cet_lock_time None)) (\<lambda>(cets, refund_tx).
     pok \<lparr>fund = fund_tx, cets = cets, refund = refund_tx, funding_script_pubkey = s\<rparr>)))"

definition create_loan_expiration_dlc_transactions ::
  "btc \<Rightarrow> PartyParams \<Rightarrow> PartyParams \<Rightarrow> Payout list \<Rightarrow> nat \<Rightarrow> nat \<Rightarrow> Transaction \<Rightarrow> script \<Rightarrow> (DlcError + DlcTransactions) option" where
  "create_loan_expiration_dlc_transactions B offer accept payouts refund_lock_time cet_lock_time collateral_tx collateral_spk =
     pbind (Some (create_cets_and_refund_tx offer accept \<lparr>txid = compute_txid B collateral_tx, vout = 0\<rparr>
       payouts refund_lock_time cet_lock_time None)) (\<lambda>(cets, refund_tx).
     obind (vget (tx_input collateral_tx) 0) (\<lambda>i0.
     pok \<lparr>fund = \<lparr>version = TX_VERSION, lock_time = 0, tx_input = (tx_input collateral_tx)[0 := i0\<lparr>witness := []\<rparr>],
            tx_output = tx_output collateral_tx\<rparr>,
          cets = cets, refund = refund_tx, funding_script_pubkey = collateral_spk\<rparr>))"

section \<open>Escrow and collateral of a loan\<close>

definition create_escrow_transaction_internal ::
  "btc \<Rightarrow> script \<Rightarrow> amount \<Rightarrow> TxIn list \<Rightarrow> nat list \<Rightarrow> TxOut \<Rightarrow> nat \<Rightarrow> Transaction option" where
  "create_escrow_transaction_internal B funding_script output_amount ins ids change lt =
     do {
       input \<leftarrow> order_by_serial_ids ins ids;
       Some \<lparr>version = TX_VERSION, lock_time = lt, tx_input = input,
         tx_output = [\<lparr>txo_value = output_amount, script_pubkey = to_p2wsh B funding_script\<rparr>, change]\<rparr>
     }"

text \<open>\<open>Sequence::from_hex("0x64004000")\<close> and the bytes of the \<open>u128\<close> preimage, big-endian.\<close>

definition escrow_locktime :: nat where "escrow_locktime = 0x64004000"

definition be_bytes :: "nat \<Rightarrow> nat \<Rightarrow> bytes" where
  "be_bytes n v = map (\<lambda>i. v div 256 ^ i mod 256) (rev [0..<n])"

definition create_escrow_transaction ::
  "btc \<Rightarrow> PartyParams \<Rightarrow> PartyParams \<Rightarrow> nat \<Rightarrow> nat \<Rightarrow> amount \<Rightarrow> nat \<Rightarrow> (DlcError + Transaction \<times> script) option" where
  "create_escrow_transaction B offer accept fee_rate fund_lock_time extra_fee borrower_preimage =
     pbind (get_change_output_and_fees B accept fee_rate extra_fee) (\<lambda>(accept_change, accept_fund_fee, accept_cet_fee).
     pbind (ck (u64_add (input_amount offer) (input_amount accept))) (\<lambda>inputs.
     obind (do {
       x \<leftarrow> u64_sub inputs (txo_value accept_change);
       x \<leftarrow> u64_sub x accept_fund_fee;
       x \<leftarrow> u64_sub x accept_cet_fee;
       x \<leftarrow> u64_sub x extra_fee;
       fund_output_value \<leftarrow> u64_add x 100;
       (ins, ids) \<leftarrow> get_unsigned_tx_inputs_and_serial_ids B accept (get_sequence fund_lock_time);
       let s = make_loan_funding_redeemscript B (fund_pubkey accept) (fund_pubkey offer) escrow_locktime
         (sha256 B (be_bytes 16 borrower_preimage));
       tx \<leftarrow> create_escrow_transaction_internal B s fund_output_value ins ids accept_change 0;
       Some (tx, s)
     }) (\<lambda>r. pok r)))"

definition create_collateral_transaction ::
  "btc \<Rightarrow> pubkey \<Rightarrow> pubkey \<Rightarrow> amount \<Rightarrow> TxIn \<Rightarrow> bytes \<Rightarrow> (Transaction \<times> script) option" where
  "create_collateral_transaction B borrower lender collateral_amount escrow_input lender_hash =
     do {
       let s = make_collateral_redeemscript B borrower lender lender_hash;
       v \<leftarrow> u64_sub collateral_amount 166;
       Some (\<lparr>version = TX_VERSION, lock_time = 0, tx_input = [escrow_input],
         tx_output = [\<lparr>txo_value = v, script_pubkey = to_p2wsh B s\<rparr>]\<rparr>, s)
     }"

section \<open>What the fees add up to\<close>

definition outputs_value :: "Transaction \<Rightarrow> nat" where
  "outputs_value tx = sum_list (map txo_value (tx_output tx))"

lemma collateral_fee:
  "weight_to_fee 456 r = Inr f \<longleftrightarrow> f = 114 * r \<and> 114 * r < u64_bound"
  by (subst weight_to_fee_exact) (auto simp: mult.commute)

lemma change_output_value:
  assumes "get_change_output_and_fees B p r x = pok (chg, ff, cf)"
  shows "input_amount p = txo_value chg + 100 + collateral p + ff + 114 * r + cf + x"
    "script_pubkey chg = change_script_pubkey p"
  using assms
  by (auto simp: get_change_output_and_fees_def checked_add3_def checked_add4_def TX_INPUT_BASE_WEIGHT_def
      bind_eq_Some_conv collateral_fee split: if_splits)

text \<open>The weight of the inputs of a party.\<close>

definition input_weight :: "btc \<Rightarrow> TxInputInfo \<Rightarrow> nat" where
  "input_weight B i = 164 + 4 * length (the (redeem_script_to_script_sig B (redeem_script i))) + max_witness_len i"

lemma inputs_weight_value:
  "inputs_weight_loop B ins acc = pok w \<Longrightarrow> w = acc + sum_list (map (input_weight B) ins)"
proof (induction ins arbitrary: acc)
  case (Cons i ins)
  then obtain y where y: "redeem_script_to_script_sig B (redeem_script i) = Some y"
    "inputs_weight_loop B ins (acc + 164 + length y * 4 + max_witness_len i) = pok w"
    by (auto simp: bind_eq_Some_conv checked_add4_def checked_add3_def TX_INPUT_BASE_WEIGHT_def)
  then show ?case using Cons.IH[OF y(2)] by (simp add: input_weight_def)
qed simp

text \<open>In a successful result the change is what is left of the inputs after collateral, fees and a
  hundred satoshis: the fund fee and the payout fee are the rate times the virtual size (rounded up) of
  the party's share of the fund transaction and of the execution transaction, and the third fee is that
  of 114 virtual bytes for the collateral transaction.\<close>

theorem change_and_fees_value:
  assumes "get_change_output_and_fees B p rate extra = pok (chg, fund_fee, cet_fee)"
    "236 + sum_list (map (input_weight B) (pp_inputs p)) + 4 * length (change_script_pubkey p) < 2 ^ 53"
    "250 + 4 * length (payout_script_pubkey p) < 2 ^ 53"
  shows "fund_fee = (236 + sum_list (map (input_weight B) (pp_inputs p)) + 4 * length (change_script_pubkey p) + 3) div 4 * rate \<and>
    cet_fee = (250 + 4 * length (payout_script_pubkey p) + 3) div 4 * rate \<and>
    input_amount p = txo_value chg + 100 + collateral p + fund_fee + 114 * rate + cet_fee + extra \<and>
    script_pubkey chg = change_script_pubkey p"
proof -
  obtain iw ff cf where w: "inputs_weight_loop B (pp_inputs p) 0 = pok iw"
    "weight_to_fee (FUND_TX_BASE_WEIGHT div 2 + iw + length (change_script_pubkey p) * 4 + 36) rate = Inr ff" "ff = fund_fee"
    "weight_to_fee (CET_BASE_WEIGHT div 2 + length (payout_script_pubkey p) * 4) rate = Inr cf" "cf = cet_fee"
    using assms(1) by (auto simp: get_change_output_and_fees_def checked_add3_def checked_add4_def bind_eq_Some_conv split: if_splits)
  have iw: "iw = sum_list (map (input_weight B) (pp_inputs p))" using inputs_weight_value[OF w(1)] by simp
  have "fund_fee = (236 + iw + 4 * length (change_script_pubkey p) + 3) div 4 * rate"
    using w(2,3) assms(2) by (subst (asm) weight_to_fee_exact) (auto simp: FUND_TX_BASE_WEIGHT_def iw algebra_simps)
  moreover have "cet_fee = (250 + 4 * length (payout_script_pubkey p) + 3) div 4 * rate"
    using w(4,5) assms(3) by (subst (asm) weight_to_fee_exact) (auto simp: CET_BASE_WEIGHT_def algebra_simps)
  ultimately show ?thesis using change_output_value[OF assms(1)] iw by simp
qed

text \<open>A party with one key-hash input, for the concrete instances.\<close>

definition sample_party :: "amount \<Rightarrow> amount \<Rightarrow> PartyParams" where
  "sample_party inp coll = \<lparr>fund_pubkey = replicate 33 2, change_script_pubkey = replicate 22 0, change_serial_id = 1,
     payout_script_pubkey = replicate 22 1, payout_serial_id = 2,
     pp_inputs = [\<lparr>ii_outpoint = \<lparr>txid = replicate 32 7, vout = 0\<rparr>, max_witness_len = 107, redeem_script = [], ii_serial_id = 3\<rparr>],
     input_amount = inp, collateral = coll\<rparr>"

lemma sample_change:
  "get_change_output_and_fees B (sample_party inp coll) 2 0 =
     (if inp < coll + 696 then perr InvalidArgument
      else obind (u64_sub (inp - (coll + 696)) 100) (\<lambda>v. pok (\<lparr>txo_value = v, script_pubkey = replicate 22 0\<rparr>, 298, 170)))"
  if "coll < 2 ^ 50"
  using that weight_to_fee_exact[of 595 2] weight_to_fee_exact[of 456 2] weight_to_fee_exact[of 338 2]
  by (simp add: get_change_output_and_fees_def sample_party_def redeem_script_to_script_sig_def checked_add3_def
      checked_add4_def FUND_TX_BASE_WEIGHT_def TX_INPUT_BASE_WEIGHT_def CET_BASE_WEIGHT_def add.commute)

theorem change_and_fees_value_witness:
  "get_change_output_and_fees toy_btc (sample_party 1000000 500000) 2 0 =
     pok (\<lparr>txo_value = 499204, script_pubkey = replicate 22 0\<rparr>, 298, 170) \<and>
   (298::nat) = (236 + sum_list (map (input_weight toy_btc) (pp_inputs (sample_party 1000000 500000))) + 4 * 22 + 3) div 4 * 2"
proof -
  have r: "get_change_output_and_fees toy_btc (sample_party 1000000 500000) 2 0 =
      pok (\<lparr>txo_value = 499204, script_pubkey = replicate 22 0\<rparr>, 298, 170)" by (subst sample_change) simp_all
  from change_and_fees_value[OF r] show ?thesis
    using r by (simp add: sample_party_def input_weight_def redeem_script_to_script_sig_def)
qed

text \<open>An input amount that covers the required funds but not another hundred satoshis is no error:
  the subtraction of the hundred satoshis panics.\<close>

theorem change_output_panics_within_100_sat:
  "get_change_output_and_fees B (sample_party 500750 500000) 2 0 = None"
  by (subst sample_change) simp_all

section \<open>The fund transaction is never built\<close>

lemma fund_transaction_not_ok: "create_fund_transaction_with_fees B offer accept r lt sid x \<noteq> pok res"
proof
  assume "create_fund_transaction_with_fees B offer accept r lt sid x = pok res"
  then obtain oc off ocf ac aff acf where o: "get_change_output_and_fees B offer r x = pok (oc, off, ocf)"
    and a: "get_change_output_and_fees B accept r x = pok (ac, aff, acf)"
    and eq: "collateral offer + collateral accept + ocf + acf + x =
      input_amount offer + input_amount accept - txo_value oc - txo_value ac - off - aff - x"
    by (auto simp: create_fund_transaction_with_fees_def bind_eq_Some_conv split: if_splits)
  show False using change_output_value(1)[OF o] change_output_value(1)[OF a] eq by linarith
qed

text \<open>C33: No contract transactions are ever created: the fee of the collateral transaction and the hundred
  satoshis taken from each change output are part of the fund output, which the first
  assertion does not expect.\<close>

theorem create_dlc_transactions_never_ok:
  "create_dlc_transactions B offer accept payouts refund_lt fee_rate fund_lt cet_lt sid \<noteq> pok txs"
  using fund_transaction_not_ok by (auto simp: create_dlc_transactions_def)

text \<open>For two parties with enough funds it is the assertion that fails.\<close>

lemma create_dlc_transactions_panics:
  "create_dlc_transactions B (sample_party 1000000 500000) (sample_party 1000000 500000) payouts refund_lt 2 fund_lt cet_lt sid = None"
proof -
  have c: "collateral (sample_party i c) = c" "input_amount (sample_party i c) = i" for i c by (simp_all add: sample_party_def)
  have s: "get_change_output_and_fees B (sample_party 1000000 500000) 2 0 =
      pok (\<lparr>txo_value = 499204, script_pubkey = replicate 22 0\<rparr>, 298, 170)" by (subst sample_change) simp_all
  show ?thesis by (simp add: create_dlc_transactions_def create_fund_transaction_with_fees_def s c)
qed

section \<open>The escrow transaction\<close>

text \<open>C34: The escrow transaction of a loan, when it is built, has the escrow output and the change of the
  borrower. The escrow output is worth the collateral, the fee of the collateral transaction, 200
  satoshis and the lender's inputs, which the transaction does not spend; with a lender without
  inputs the fee paid is a hundred satoshis below the computed fees.\<close>

theorem escrow_transaction_value:
  assumes "create_escrow_transaction B offer accept rate lt extra preimage = pok (tx, s)"
  shows "\<exists>chg ff cf. get_change_output_and_fees B accept rate extra = pok (chg, ff, cf) \<and>
    tx_output tx = [\<lparr>txo_value = collateral accept + 114 * rate + 200 + input_amount offer, script_pubkey = to_p2wsh B s\<rparr>, chg] \<and>
    length (tx_input tx) = length (pp_inputs accept) \<and>
    outputs_value tx + ff + cf + extra = input_amount accept + input_amount offer + 100"
proof -
  obtain chg ff cf where g: "get_change_output_and_fees B accept rate extra = pok (chg, ff, cf)"
    using assms by (auto simp: create_escrow_transaction_def)
  obtain v ins where v: "v = input_amount offer + input_amount accept + 100 - (txo_value chg + (ff + (cf + extra)))"
    and ins: "omap (\<lambda>i. map_option (\<lambda>sig. \<lparr>previous_output = ii_outpoint i, script_sig = sig, sequence = get_sequence lt, witness = []\<rparr>)
         (redeem_script_to_script_sig B (redeem_script i))) (pp_inputs accept) = Some ins"
    and tx: "create_escrow_transaction_internal B s v ins (map ii_serial_id (pp_inputs accept)) chg 0 = Some tx"
    using assms by (auto simp: create_escrow_transaction_def g get_unsigned_tx_inputs_and_serial_ids_def Let_def bind_eq_Some_conv)
  have amount: "v = collateral accept + 114 * rate + 200 + input_amount offer"
    using change_output_value(1)[OF g] v by linarith
  have len: "length ins = length (pp_inputs accept)" using ins by (simp add: omap_Some_iff list_all2_lengthD)
  obtain ys where ys: "order_by_serial_ids ins (map ii_serial_id (pp_inputs accept)) = Some ys" "mset ys = mset ins"
    using order_by_serial_ids_spec[of ins "map ii_serial_id (pp_inputs accept)"] len by auto
  have "length ys = length ins" using ys(2) by (metis size_mset)
  then show ?thesis using tx ys len change_output_value(1)[OF g]
    by (intro exI[of _ chg] exI[of _ ff] exI[of _ cf])
       (auto simp: create_escrow_transaction_internal_def g amount outputs_value_def)
qed

theorem escrow_transaction_value_witness:
  "\<exists>tx s. create_escrow_transaction toy_btc (sample_party 0 0) (sample_party 1000000 500000) 2 0 0 42 = pok (tx, s) \<and>
    tx_output tx = [\<lparr>txo_value = 500428, script_pubkey = to_p2wsh toy_btc s\<rparr>, \<lparr>txo_value = 499204, script_pubkey = replicate 22 0\<rparr>] \<and>
    outputs_value tx + 298 + 170 = 1000100"
proof -
  have c: "input_amount (sample_party i c) = i" "collateral (sample_party i c) = c" "length (pp_inputs (sample_party i c)) = 1" for i c
    by (simp_all add: sample_party_def)
  have g: "get_change_output_and_fees toy_btc (sample_party 1000000 500000) 2 0 =
      pok (\<lparr>txo_value = 499204, script_pubkey = replicate 22 0\<rparr>, 298, 170)" by (subst sample_change) simp_all
  obtain ins where ins: "get_unsigned_tx_inputs_and_serial_ids toy_btc (sample_party 1000000 500000) (get_sequence 0) = Some (ins, [3])"
    "length ins = 1"
    by (simp add: get_unsigned_tx_inputs_and_serial_ids_def sample_party_def redeem_script_to_script_sig_def)
  obtain tx s where run: "create_escrow_transaction toy_btc (sample_party 0 0) (sample_party 1000000 500000) 2 0 0 42 = pok (tx, s)"
    using ins by (simp add: create_escrow_transaction_def g c create_escrow_transaction_internal_def order_by_serial_ids_def Let_def)
  from escrow_transaction_value[OF run] show ?thesis using run g by (auto simp: c)
qed

text \<open>The relative lock time of a sequence number (BIP 68): none when bit 31 is set, seconds in units of 512 when bit
  22 is set, and blocks otherwise; the value is in the low 16 bits.\<close>

datatype relative_lock = NoLock | Blocks nat | Seconds nat

definition bip68 :: "nat \<Rightarrow> relative_lock" where
  "bip68 n = (if bit n 31 then NoLock else if bit n 22 then Seconds (take_bit 16 n * 512) else Blocks (take_bit 16 n))"

text \<open>The relative lock of the escrow is 16384 blocks, not the 51200 seconds of the comment: 51200
  seconds is the number with the bytes in the opposite order.\<close>

theorem escrow_lock_is_blocks:
  "bip68 escrow_locktime = Blocks 16384 \<and> bip68 0x00400064 = Seconds 51200 \<and>
   be_bytes 4 escrow_locktime = rev (be_bytes 4 0x00400064)"
  by (simp add: bip68_def escrow_locktime_def bit_iff_odd take_bit_eq_mod be_bytes_def upt_rec)

section \<open>Scripts: order of keys and code separators\<close>

text \<open>The funding script does not depend on which party gives which key.\<close>

lemma funding_redeemscript_symmetric: "make_funding_redeemscript B a b = make_funding_redeemscript B b a"
proof -
  have "a = b" if "key_le a b" "key_le b a"
    using that lexordp_antisym[of a b] by (auto simp: key_le_def)
  moreover have "key_le a b \<or> key_le b a" using lexordp_linear[of a b] by (auto simp: key_le_def)
  ultimately show ?thesis by (auto simp: make_funding_redeemscript_def funding_redeemscript_items_def Let_def)
qed

text \<open>What a signature commits to after a code separator: the items after the last separator.\<close>

definition after_codesep :: "ScriptItem list \<Rightarrow> ScriptItem list" where
  "after_codesep items = rev (takeWhile (\<lambda>x. x \<noteq> Op ''OP_CODESEPARATOR'') (rev items))"

text \<open>The scripts "after codesep" that the escrow and collateral signatures commit to are the redeem scripts
  from their code separator on.\<close>

theorem codesep_scripts_are_suffixes:
  "make_loan_escrow_after_codesep_script B lender bhash = assemble B (after_codesep (loan_funding_items borrower lender lt bhash)) \<and>
   make_collateral_after_codesep_script B lhash = assemble B (after_codesep (collateral_items borrower lender lhash))"
  by (simp add: make_loan_escrow_after_codesep_script_def make_collateral_after_codesep_script_def after_codesep_def
      loan_funding_items_def loan_escrow_after_codesep_items_def collateral_items_def collateral_after_codesep_items_def)

section \<open>Execution and refund transactions\<close>

text \<open>The outputs of an execution transaction before dust is dropped, in the order of the serial ids.\<close>

definition cet_outputs :: "PartyParams \<Rightarrow> PartyParams \<Rightarrow> Payout \<Rightarrow> TxOut list" where
  "cet_outputs offer accept p =
     (let o_out = \<lparr>txo_value = offer_payout p, script_pubkey = payout_script_pubkey offer\<rparr>;
          a_out = \<lparr>txo_value = accept_payout p, script_pubkey = payout_script_pubkey accept\<rparr>
      in if payout_serial_id offer < payout_serial_id accept then [o_out, a_out] else [a_out, o_out])"

lemma discard_dust_value:
  "sum_list (map txo_value (discard_dust outs d)) \<le> sum_list (map txo_value outs)"
  "0 < d \<Longrightarrow> sum_list (map txo_value outs) \<le> sum_list (map txo_value (discard_dust outs d)) + length outs * (d - 1)"
  by (induction outs) (auto simp: discard_dust_def)

lemma cets_and_refund_err:
  assumes "create_cets_and_refund_tx offer accept outpoint payouts refund_lt cet_lt sq = Inl e"
  shows "e = InvalidArgument \<and> (u64_bound \<le> collateral offer + collateral accept \<or>
    (\<exists>p \<in> set payouts. offer_payout p + accept_payout p \<noteq> collateral offer + collateral accept))"
proof -
  have "proper_payout t p \<longleftrightarrow> offer_payout p + accept_payout p = t" if "t < u64_bound" for t p
    using that by (auto simp: proper_payout_def u64_add_def split: option.splits if_splits)
  then show ?thesis using assms
    by (auto simp: create_cets_and_refund_tx_def rbind_Inl list_all_iff Let_def split: if_splits)
qed

lemma cets_and_refund_ok:
  fixes offer accept :: PartyParams
  defines "total_collateral \<equiv> collateral offer + collateral accept"
  assumes run: "create_cets_and_refund_tx offer accept outpoint payouts refund_lt cet_lt sq = Inr (cs, rf)"
  shows "total_collateral < u64_bound" "\<forall>p \<in> set payouts. offer_payout p + accept_payout p = total_collateral" "length cs = length payouts"
    "\<forall>i < length payouts. tx_input (cs ! i) = [\<lparr>previous_output = outpoint, script_sig = [],
             sequence = (case sq of Some sq \<Rightarrow> sq | None \<Rightarrow> get_sequence cet_lt), witness = []\<rparr>] \<and> lock_time (cs ! i) = cet_lt \<and>
           tx_output (cs ! i) = filter (\<lambda>x. 1000 \<le> txo_value x) (cet_outputs offer accept (payouts ! i)) \<and>
           outputs_value (cs ! i) \<le> total_collateral \<and> total_collateral \<le> outputs_value (cs ! i) + 1998"
    "tx_input rf = [\<lparr>previous_output = outpoint, script_sig = [], sequence = ENABLE_LOCKTIME, witness = []\<rparr>] \<and> lock_time rf = refund_lt \<and>
        tx_output rf = filter (\<lambda>x. 1000 \<le> txo_value x)
          [\<lparr>txo_value = collateral offer, script_pubkey = payout_script_pubkey offer\<rparr>,
           \<lparr>txo_value = collateral accept, script_pubkey = payout_script_pubkey accept\<rparr>] \<and>
        outputs_value rf \<le> total_collateral \<and> total_collateral \<le> outputs_value rf + 1998"
proof -
  have tot: "total_collateral < u64_bound" and all: "list_all (proper_payout total_collateral) payouts"
    and cs: "cs = create_cets \<lparr>previous_output = outpoint, script_sig = [],
             sequence = (case sq of Some sq \<Rightarrow> sq | None \<Rightarrow> get_sequence cet_lt), witness = []\<rparr> (payout_script_pubkey offer)
             (payout_serial_id offer) (payout_script_pubkey accept) (payout_serial_id accept) payouts cet_lt"
    and rf: "tx_input rf = [\<lparr>previous_output = outpoint, script_sig = [], sequence = ENABLE_LOCKTIME, witness = []\<rparr>]"
      "lock_time rf = refund_lt" "tx_output rf = discard_dust [\<lparr>txo_value = collateral offer, script_pubkey = payout_script_pubkey offer\<rparr>,
         \<lparr>txo_value = collateral accept, script_pubkey = payout_script_pubkey accept\<rparr>] DUST_LIMIT"
    using run
    by (auto simp: total_collateral_def create_cets_and_refund_tx_def create_refund_transaction_def Let_def split: if_splits)
  have proper: "offer_payout p + accept_payout p = total_collateral" if "p \<in> set payouts" for p
    using all that by (auto simp: list_all_iff proper_payout_def split: option.splits)
  have dust: "sum_list (map txo_value (discard_dust outs DUST_LIMIT)) \<le> sum_list (map txo_value outs) \<and>
      sum_list (map txo_value outs) \<le> sum_list (map txo_value (discard_dust outs DUST_LIMIT)) + length outs * 999" for outs
    using discard_dust_value(1)[of outs DUST_LIMIT] discard_dust_value(2)[of DUST_LIMIT outs] by (simp add: DUST_LIMIT_def)
  have cet: "tx_output (cs ! i) = discard_dust (cet_outputs offer accept (payouts ! i)) DUST_LIMIT"
    "tx_input (cs ! i) = [\<lparr>previous_output = outpoint, script_sig = [],
             sequence = (case sq of Some sq \<Rightarrow> sq | None \<Rightarrow> get_sequence cet_lt), witness = []\<rparr>]" "lock_time (cs ! i) = cet_lt" if "i < length payouts" for i
    using that by (simp_all add: cs create_cets_def create_cet_def cet_outputs_def Let_def)
  have "outputs_value (cs ! i) \<le> total_collateral \<and> total_collateral \<le> outputs_value (cs ! i) + 1998" if "i < length payouts" for i
    using dust[of "cet_outputs offer accept (payouts ! i)"] proper[of "payouts ! i"] that
    by (auto simp: outputs_value_def cet cet_outputs_def Let_def split: if_splits)
  moreover have "outputs_value rf \<le> total_collateral \<and> total_collateral \<le> outputs_value rf + 1998"
    unfolding outputs_value_def rf(3) total_collateral_def
    using dust[of "[\<lparr>txo_value = collateral offer, script_pubkey = payout_script_pubkey offer\<rparr>,
         \<lparr>txo_value = collateral accept, script_pubkey = payout_script_pubkey accept\<rparr>]"] by simp
  moreover have "length cs = length payouts" by (simp add: cs create_cets_def)
  ultimately show "total_collateral < u64_bound" "\<forall>p \<in> set payouts. offer_payout p + accept_payout p = total_collateral" "length cs = length payouts"
    "\<forall>i < length payouts. tx_input (cs ! i) = [\<lparr>previous_output = outpoint, script_sig = [],
             sequence = (case sq of Some sq \<Rightarrow> sq | None \<Rightarrow> get_sequence cet_lt), witness = []\<rparr>] \<and> lock_time (cs ! i) = cet_lt \<and>
           tx_output (cs ! i) = filter (\<lambda>x. 1000 \<le> txo_value x) (cet_outputs offer accept (payouts ! i)) \<and>
           outputs_value (cs ! i) \<le> total_collateral \<and> total_collateral \<le> outputs_value (cs ! i) + 1998"
    "tx_input rf = [\<lparr>previous_output = outpoint, script_sig = [], sequence = ENABLE_LOCKTIME, witness = []\<rparr>] \<and> lock_time rf = refund_lt \<and>
        tx_output rf = filter (\<lambda>x. 1000 \<le> txo_value x)
          [\<lparr>txo_value = collateral offer, script_pubkey = payout_script_pubkey offer\<rparr>,
           \<lparr>txo_value = collateral accept, script_pubkey = payout_script_pubkey accept\<rparr>] \<and>
        outputs_value rf \<le> total_collateral \<and> total_collateral \<le> outputs_value rf + 1998"
    using tot proper cet rf by (simp_all add: discard_dust_def DUST_LIMIT_def)
qed

text \<open>C32: The execution and refund transactions are built exactly when the collaterals add up in 64 bits and every
  payout adds up to the total collateral. Then there is one execution transaction per payout, in
  order, that spends the fund output alone, pays the payouts that are not dust, in the order of the
  serial ids, with the given lock time, and is worth the total collateral less at most 1998 satoshis of
  dust. The refund transaction spends the fund output alone, can be locked until its own lock time, and has as outputs the
  collateral of the offerer to the script of the offerer and then that of the accepter to the script of the accepter, each only
  when it is not dust.\<close>

theorem cets_and_refund_correct:
  assumes "create_cets_and_refund_tx offer accept outpoint payouts refund_lt cet_lt sq = res"
  defines "total_collateral \<equiv> collateral offer + collateral accept"
  shows "(case res of
      Inl e \<Rightarrow> e = InvalidArgument \<and> (u64_bound \<le> total_collateral \<or> (\<exists>p \<in> set payouts. offer_payout p + accept_payout p \<noteq> total_collateral))
    | Inr (cs, rf) \<Rightarrow>
        total_collateral < u64_bound \<and> (\<forall>p \<in> set payouts. offer_payout p + accept_payout p = total_collateral) \<and> length cs = length payouts \<and>
        (\<forall>i < length payouts. tx_input (cs ! i) = [\<lparr>previous_output = outpoint, script_sig = [],
             sequence = (case sq of Some sq \<Rightarrow> sq | None \<Rightarrow> get_sequence cet_lt), witness = []\<rparr>] \<and> lock_time (cs ! i) = cet_lt \<and>
           tx_output (cs ! i) = filter (\<lambda>x. 1000 \<le> txo_value x) (cet_outputs offer accept (payouts ! i)) \<and>
           outputs_value (cs ! i) \<le> total_collateral \<and> total_collateral \<le> outputs_value (cs ! i) + 1998) \<and>
        tx_input rf = [\<lparr>previous_output = outpoint, script_sig = [], sequence = ENABLE_LOCKTIME, witness = []\<rparr>] \<and> lock_time rf = refund_lt \<and>
        tx_output rf = filter (\<lambda>x. 1000 \<le> txo_value x)
          [\<lparr>txo_value = collateral offer, script_pubkey = payout_script_pubkey offer\<rparr>,
           \<lparr>txo_value = collateral accept, script_pubkey = payout_script_pubkey accept\<rparr>] \<and>
        outputs_value rf \<le> total_collateral \<and> total_collateral \<le> outputs_value rf + 1998)"
  using cets_and_refund_err[of offer accept outpoint payouts refund_lt cet_lt sq]
    cets_and_refund_ok[of offer accept outpoint payouts refund_lt cet_lt sq] assms(1)
  unfolding total_collateral_def by (cases res) (simp_all split: prod.splits)

theorem cets_and_refund_correct_witness:
  "\<exists>cs rf. create_cets_and_refund_tx (sample_party 0 60000) (sample_party 0 40000) \<lparr>txid = [7], vout = 0\<rparr>
      [\<lparr>offer_payout = 99500, accept_payout = 500\<rparr>, \<lparr>offer_payout = 30000, accept_payout = 70000\<rparr>] 9 8 None = Inr (cs, rf) \<and>
    map outputs_value cs = [99500, 100000] \<and> outputs_value rf = 100000"
proof -
  let ?ps = "[\<lparr>offer_payout = 99500, accept_payout = 500\<rparr>, \<lparr>offer_payout = 30000, accept_payout = 70000\<rparr>]"
  have c: "collateral (sample_party 0 k) = k" for k by (simp add: sample_party_def)
  obtain cs rf where r: "create_cets_and_refund_tx (sample_party 0 60000) (sample_party 0 40000) \<lparr>txid = [7], vout = 0\<rparr> ?ps 9 8 None = Inr (cs, rf)"
    by (simp add: create_cets_and_refund_tx_def proper_payout_def u64_add_def c Let_def)
  from cets_and_refund_correct[OF r] have "length cs = 2"
    and "tx_output (cs ! 0) = filter (\<lambda>x. 1000 \<le> txo_value x) (cet_outputs (sample_party 0 60000) (sample_party 0 40000) (?ps ! 0))"
    "tx_output (cs ! 1) = filter (\<lambda>x. 1000 \<le> txo_value x) (cet_outputs (sample_party 0 60000) (sample_party 0 40000) (?ps ! 1))"
    by (auto simp: c)
  then have "map outputs_value cs = [99500, 100000]"
    by (cases cs; cases "tl cs") (auto simp: outputs_value_def cet_outputs_def Let_def)
  moreover from cets_and_refund_correct[OF r] have "outputs_value rf = 100000" by (simp add: c outputs_value_def)
  ultimately show ?thesis using r by (intro exI[of _ cs] exI[of _ rf]) simp
qed

end
