(* ===== verification/DlcSign.thy ===== *)
theory DlcSign
  imports DlcTx
begin

text \<open>
  The signing half of \<open>dlc/src\<close>: signature hashes and signatures of \<open>util.rs\<close>, oracle signature
  points of \<open>secp_utils.rs\<close>, adaptor points, adaptor signatures and the secret that the oracle
  signatures give, of \<open>lib.rs\<close>. The operations of the secp256k1 library and the signature hash of
  the bitcoin library are a record of functions; keys, scalars, messages and signatures are byte
  strings. \<open>None\<close> is a panic.
\<close>

section \<open>The libraries\<close>

record secp =
  pk_of :: "bytes \<Rightarrow> pubkey"
  p2wsh_sighash :: "Transaction \<Rightarrow> nat \<Rightarrow> script \<Rightarrow> amount \<Rightarrow> string + bytes"
  sign_ecdsa :: "bytes \<Rightarrow> bytes \<Rightarrow> bytes"
  verify_ecdsa :: "bytes \<Rightarrow> bytes \<Rightarrow> pubkey \<Rightarrow> string + unit"
  adaptor_encrypt :: "bytes \<Rightarrow> bytes \<Rightarrow> pubkey \<Rightarrow> bytes"
  adaptor_verify :: "bytes \<Rightarrow> bytes \<Rightarrow> pubkey \<Rightarrow> pubkey \<Rightarrow> string + unit"
  adaptor_decrypt :: "bytes \<Rightarrow> bytes \<Rightarrow> string + bytes"
  combine_keys :: "pubkey list \<Rightarrow> string + pubkey"
  pk_from_slice :: "bytes \<Rightarrow> string + pubkey"
  xonly_from_slice :: "bytes \<Rightarrow> string + bytes"
  sk_from_slice :: "bytes \<Rightarrow> string + bytes"
  sk_add_tweak :: "bytes \<Rightarrow> bytes \<Rightarrow> string + bytes"
  mul_tweak :: "pubkey \<Rightarrow> bytes \<Rightarrow> string + pubkey"
  scalar_from_be_bytes :: "bytes \<Rightarrow> bytes option"
  bip340_hash :: "bytes \<Rightarrow> bytes"
  serialize_der :: "bytes \<Rightarrow> bytes"
  p2pkh_script :: "pubkey \<Rightarrow> script"

definition secp_err :: "string + 'a \<Rightarrow> DlcError + 'a" where
  "secp_err r = (case r of Inl e \<Rightarrow> Inl (Secp256k1 e) | Inr x \<Rightarrow> Inr x)"

lemma secp_err_simps [simp]: "secp_err r = Inr x \<longleftrightarrow> r = Inr x" "secp_err (Inr x) = Inr x"
  by (auto simp: secp_err_def split: sum.splits)

definition unwrap :: "'e + 'a \<Rightarrow> 'a option" where
  "unwrap r = (case r of Inl _ \<Rightarrow> None | Inr x \<Rightarrow> Some x)"

lemma unwrap_Some [simp]: "unwrap r = Some x \<longleftrightarrow> r = Inr x" "unwrap (Inr x) = Some x"
  by (auto simp: unwrap_def split: sum.splits)

section \<open>Signatures of inputs\<close>

definition get_sig_hash_msg :: "secp \<Rightarrow> Transaction \<Rightarrow> nat \<Rightarrow> script \<Rightarrow> amount \<Rightarrow> DlcError + bytes" where
  "get_sig_hash_msg S tx i s v = (case p2wsh_sighash S tx i s v of Inl e \<Rightarrow> Inl (InputsIndex e) | Inr h \<Rightarrow> Inr h)"

text \<open>\<open>EcdsaSighashType::All\<close> is 1.\<close>

definition SIGHASH_ALL :: nat where "SIGHASH_ALL = 1"

definition finalize_sig :: "secp \<Rightarrow> bytes \<Rightarrow> nat \<Rightarrow> bytes" where
  "finalize_sig S sig sig_hash_type = serialize_der S sig @ [sig_hash_type mod 256]"

definition get_raw_sig_for_tx_input :: "secp \<Rightarrow> Transaction \<Rightarrow> nat \<Rightarrow> script \<Rightarrow> amount \<Rightarrow> bytes \<Rightarrow> DlcError + bytes" where
  "get_raw_sig_for_tx_input S tx i s v sk = rbind (get_sig_hash_msg S tx i s v) (\<lambda>m. Inr (sign_ecdsa S m sk))"

definition get_sig_for_tx_input :: "secp \<Rightarrow> Transaction \<Rightarrow> nat \<Rightarrow> script \<Rightarrow> amount \<Rightarrow> nat \<Rightarrow> bytes \<Rightarrow> DlcError + bytes" where
  "get_sig_for_tx_input S tx i s v ty sk = rbind (get_raw_sig_for_tx_input S tx i s v sk) (\<lambda>sig. Inr (finalize_sig S sig ty))"

definition get_pkh_script_pubkey_from_sk :: "secp \<Rightarrow> bytes \<Rightarrow> script" where
  "get_pkh_script_pubkey_from_sk S sk = p2pkh_script S (pk_of S sk)"

definition get_sig_for_p2wpkh_input :: "secp \<Rightarrow> bytes \<Rightarrow> Transaction \<Rightarrow> nat \<Rightarrow> amount \<Rightarrow> nat \<Rightarrow> DlcError + bytes" where
  "get_sig_for_p2wpkh_input S sk tx i v ty = get_sig_for_tx_input S tx i (get_pkh_script_pubkey_from_sk S sk) v ty sk"

definition get_witness_for_p2wpkh_input :: "secp \<Rightarrow> bytes \<Rightarrow> Transaction \<Rightarrow> nat \<Rightarrow> nat \<Rightarrow> amount \<Rightarrow> DlcError + bytes list" where
  "get_witness_for_p2wpkh_input S sk tx i ty v = rbind (get_sig_for_p2wpkh_input S sk tx i v ty) (\<lambda>sig. Inr [sig, pk_of S sk])"

definition set_witness :: "Transaction \<Rightarrow> nat \<Rightarrow> bytes list \<Rightarrow> Transaction option" where
  "set_witness tx i w = Option.bind (vget (tx_input tx) i) (\<lambda>t. Some (tx\<lparr>tx_input := (tx_input tx)[i := t\<lparr>witness := w\<rparr>]\<rparr>))"

definition sign_p2wpkh_input :: "secp \<Rightarrow> bytes \<Rightarrow> Transaction \<Rightarrow> nat \<Rightarrow> nat \<Rightarrow> amount \<Rightarrow> (DlcError + Transaction) option" where
  "sign_p2wpkh_input S sk tx i ty v =
     pbind (Some (get_witness_for_p2wpkh_input S sk tx i ty v)) (\<lambda>w. obind (set_witness tx i w) (\<lambda>tx. pok tx))"

definition sign_multi_sig_input ::
  "secp \<Rightarrow> Transaction \<Rightarrow> bytes \<Rightarrow> pubkey \<Rightarrow> bytes \<Rightarrow> script \<Rightarrow> amount \<Rightarrow> nat \<Rightarrow> (DlcError + Transaction) option" where
  "sign_multi_sig_input S tx other_sig other_pk sk s input_value i =
     pbind (Some (get_sig_for_tx_input S tx i s input_value SIGHASH_ALL sk)) (\<lambda>own_sig.
     obind (set_witness tx i [[], own_sig, finalize_sig S other_sig SIGHASH_ALL, s]) (\<lambda>tx. pok tx))"

section \<open>Oracle signature points\<close>

record OracleInfo =
  oracle_public_key :: bytes
  oracle_nonces :: "bytes list"

definition create_schnorr_hash :: "secp \<Rightarrow> bytes \<Rightarrow> bytes \<Rightarrow> bytes \<Rightarrow> bytes" where
  "create_schnorr_hash S msg nonce pubkey = bip340_hash S (nonce @ pubkey @ msg)"

definition schnorr_pubkey_to_pubkey :: "secp \<Rightarrow> bytes \<Rightarrow> DlcError + pubkey" where
  "schnorr_pubkey_to_pubkey S k = secp_err (pk_from_slice S (2 # k))"

definition schnorrsig_compute_sig_point :: "secp \<Rightarrow> bytes \<Rightarrow> bytes \<Rightarrow> bytes \<Rightarrow> (DlcError + pubkey) option" where
  "schnorrsig_compute_sig_point S pubkey nonce msg =
     (let hash = create_schnorr_hash S msg nonce pubkey in
      pbind (Some (schnorr_pubkey_to_pubkey S pubkey)) (\<lambda>pk.
      obind (scalar_from_be_bytes S hash) (\<lambda>scalar.
      pbind (Some (secp_err (mul_tweak S pk scalar))) (\<lambda>tweaked.
      pbind (Some (schnorr_pubkey_to_pubkey S nonce)) (\<lambda>npk.
      Some (secp_err (combine_keys S [npk, tweaked])))))))"

definition schnorrsig_decompose :: "secp \<Rightarrow> bytes \<Rightarrow> DlcError + bytes \<times> bytes" where
  "schnorrsig_decompose S sig =
     rbind (secp_err (xonly_from_slice S (take 32 sig))) (\<lambda>n. Inr (n, take 32 (drop 32 sig)))"

definition get_oracle_sig_point :: "secp \<Rightarrow> OracleInfo \<Rightarrow> bytes list \<Rightarrow> (DlcError + pubkey) option" where
  "get_oracle_sig_point S info msgs =
     (if length (oracle_nonces info) < length msgs then perr InvalidArgument
      else pbind (pmap (\<lambda>(nonce, msg). schnorrsig_compute_sig_point S (oracle_public_key info) nonce msg)
             (zip (oracle_nonces info) msgs)) (\<lambda>pts. Some (secp_err (combine_keys S pts))))"

definition get_adaptor_point_from_oracle_info :: "secp \<Rightarrow> OracleInfo list \<Rightarrow> bytes list list \<Rightarrow> (DlcError + pubkey) option" where
  "get_adaptor_point_from_oracle_info S infos msgs =
     (if infos = [] \<or> msgs = [] then perr InvalidArgument
      else pbind (pmap (\<lambda>(i, info). obind (vget msgs i) (\<lambda>m. get_oracle_sig_point S info m))
             (zip [0..<length infos] infos)) (\<lambda>pts. Some (secp_err (combine_keys S pts))))"

section \<open>Adaptor signatures\<close>

definition create_cet_adaptor_sig_from_point :: "secp \<Rightarrow> bytes \<Rightarrow> script \<Rightarrow> amount \<Rightarrow> Transaction \<Rightarrow> pubkey \<Rightarrow> DlcError + bytes" where
  "create_cet_adaptor_sig_from_point S funding_sk s v cet point =
     rbind (get_sig_hash_msg S cet 0 s v) (\<lambda>h. Inr (adaptor_encrypt S h funding_sk point))"

definition create_cet_adaptor_sig_from_oracle_info ::
  "secp \<Rightarrow> bytes \<Rightarrow> script \<Rightarrow> amount \<Rightarrow> Transaction \<Rightarrow> OracleInfo list \<Rightarrow> bytes list list \<Rightarrow> (DlcError + bytes) option" where
  "create_cet_adaptor_sig_from_oracle_info S funding_sk s v cet infos msgs =
     pbind (get_adaptor_point_from_oracle_info S infos msgs) (\<lambda>point.
     Some (create_cet_adaptor_sig_from_point S funding_sk s v cet point))"

definition create_cet_adaptor_sigs_from_points ::
  "secp \<Rightarrow> (Transaction \<times> pubkey) list \<Rightarrow> bytes \<Rightarrow> script \<Rightarrow> amount \<Rightarrow> DlcError + bytes list" where
  "create_cet_adaptor_sigs_from_points S ins funding_sk s v =
     rmap (\<lambda>(cet, point). create_cet_adaptor_sig_from_point S funding_sk s v cet point) ins"

definition create_cet_adaptor_sigs_from_oracle_info ::
  "secp \<Rightarrow> Transaction list \<Rightarrow> OracleInfo list \<Rightarrow> bytes \<Rightarrow> script \<Rightarrow> amount \<Rightarrow> bytes list list list \<Rightarrow> (DlcError + bytes list) option" where
  "create_cet_adaptor_sigs_from_oracle_info S txs infos funding_sk s v msgs =
     (if length msgs \<noteq> length txs then perr InvalidArgument
      else pmap (\<lambda>(cet, msg). create_cet_adaptor_sig_from_oracle_info S funding_sk s v cet infos msg) (zip txs msgs))"

text \<open>The loop over the other \<open>s\<close> values unwraps.\<close>

fun add_secrets :: "secp \<Rightarrow> bytes \<Rightarrow> bytes list \<Rightarrow> bytes option" where
  "add_secrets S acc [] = Some acc"
| "add_secrets S acc (s # ss) =
     do { sec \<leftarrow> unwrap (sk_from_slice S s); acc \<leftarrow> unwrap (sk_add_tweak S acc sec); add_secrets S acc ss }"

definition signatures_to_secret :: "secp \<Rightarrow> bytes list list \<Rightarrow> (DlcError + bytes) option" where
  "signatures_to_secret S signatures =
     pbind (Some (rmap (\<lambda>x. rbind (schnorrsig_decompose S x) (\<lambda>v. Inr (snd v))) (concat signatures))) (\<lambda>s_values.
     obind (vget s_values 0) (\<lambda>s0.
     pbind (Some (secp_err (sk_from_slice S s0))) (\<lambda>secret.
     obind (add_secrets S secret (drop 1 s_values)) (\<lambda>r. pok r))))"

definition sign_cet ::
  "secp \<Rightarrow> Transaction \<Rightarrow> bytes \<Rightarrow> bytes list list \<Rightarrow> bytes \<Rightarrow> pubkey \<Rightarrow> script \<Rightarrow> amount \<Rightarrow> (DlcError + Transaction) option" where
  "sign_cet S cet adaptor_signature oracle_signatures funding_sk other_pk s v =
     pbind (signatures_to_secret S oracle_signatures) (\<lambda>adaptor_secret.
     pbind (Some (secp_err (adaptor_decrypt S adaptor_signature adaptor_secret))) (\<lambda>adapted_sig.
     sign_multi_sig_input S cet adapted_sig other_pk funding_sk s v 0))"

definition verify_cet_adaptor_sig_from_point ::
  "secp \<Rightarrow> pubkey \<Rightarrow> script \<Rightarrow> amount \<Rightarrow> bytes \<Rightarrow> Transaction \<Rightarrow> pubkey \<Rightarrow> DlcError + unit" where
  "verify_cet_adaptor_sig_from_point S pk s v adaptor_sig cet point =
     rbind (get_sig_hash_msg S cet 0 s v) (\<lambda>h. secp_err (adaptor_verify S adaptor_sig h pk point))"

definition verify_cet_adaptor_sig_from_oracle_info ::
  "secp \<Rightarrow> pubkey \<Rightarrow> script \<Rightarrow> amount \<Rightarrow> bytes \<Rightarrow> Transaction \<Rightarrow> OracleInfo list \<Rightarrow> bytes list list \<Rightarrow> (DlcError + unit) option" where
  "verify_cet_adaptor_sig_from_oracle_info S pk s v adaptor_sig cet infos msgs =
     pbind (get_adaptor_point_from_oracle_info S infos msgs) (\<lambda>point.
     Some (verify_cet_adaptor_sig_from_point S pk s v adaptor_sig cet point))"

definition verify_tx_input_sig :: "secp \<Rightarrow> bytes \<Rightarrow> Transaction \<Rightarrow> nat \<Rightarrow> script \<Rightarrow> amount \<Rightarrow> pubkey \<Rightarrow> DlcError + unit" where
  "verify_tx_input_sig S sig tx i s v pk = rbind (get_sig_hash_msg S tx i s v) (\<lambda>h. secp_err (verify_ecdsa S h sig pk))"

section \<open>The laws of the library\<close>

text \<open>
  What the code relies on. Keys are scalars modulo the group order: \<open>val\<close> is the scalar of a secret key,
  tweaking adds scalars, the public key depends on the scalar only, and combining public keys
  gives the public key of the sum of the scalars, unless that sum is zero.
\<close>

definition key_laws :: "secp \<Rightarrow> (bytes \<Rightarrow> nat) \<Rightarrow> nat \<Rightarrow> bool" where
  "key_laws S val n \<longleftrightarrow>
     (\<forall>b k. sk_from_slice S b = Inr k \<longrightarrow> k = b \<and> 0 < val k \<and> val k < n) \<and>
     (\<forall>a b c. sk_add_tweak S a b = Inr c \<longrightarrow> val c = (val a + val b) mod n \<and> 0 < val c) \<and>
     (\<forall>a b. val a = val b \<longrightarrow> pk_of S a = pk_of S b) \<and>
     (\<forall>ks p. combine_keys S (map (pk_of S) ks) = Inr p \<longrightarrow>
        (\<exists>k. p = pk_of S k \<and> val k = sum_list (map val ks) mod n \<and> 0 < val k))"

text \<open>An adaptor signature that verifies for a point decrypts to a valid signature with the key of the point.\<close>

definition adaptor_laws :: "secp \<Rightarrow> bool" where
  "adaptor_laws S \<longleftrightarrow> (\<forall>a h pk x. adaptor_verify S a h pk (pk_of S x) = Inr () \<longrightarrow>
     (\<exists>sig. adaptor_decrypt S a x = Inr sig \<and> verify_ecdsa S h sig pk = Inr ()))"

text \<open>The attestation of an oracle: a signature \<open>R, s\<close> (BIP 340) with \<open>s\<close> a key of the signature point.\<close>

definition attests :: "secp \<Rightarrow> bytes \<Rightarrow> bytes \<Rightarrow> bytes \<Rightarrow> bytes \<Rightarrow> bool" where
  "attests S oracle_pk nonce msg sig \<longleftrightarrow> take 32 sig = nonce \<and>
     schnorrsig_compute_sig_point S oracle_pk nonce msg = pok (pk_of S (take 32 (drop 32 sig)))"

definition oracle_attests :: "secp \<Rightarrow> OracleInfo \<Rightarrow> bytes list \<Rightarrow> bytes list \<Rightarrow> bool" where
  "oracle_attests S info msgs sigs \<longleftrightarrow> length sigs = length msgs \<and> length msgs \<le> length (oracle_nonces info) \<and>
     (\<forall>j < length msgs. attests S (oracle_public_key info) (oracle_nonces info ! j) (msgs ! j) (sigs ! j))"

definition s_value :: "bytes \<Rightarrow> bytes" where "s_value sig = take 32 (drop 32 sig)"

section \<open>The oracle signatures open the adaptor point\<close>

lemma oracle_point_keys:
  assumes "oracle_attests S info msgs sigs" "get_oracle_sig_point S info msgs = pok p"
  shows "combine_keys S (map (pk_of S) (map s_value sigs)) = Inr p"
proof -
  let ?ns = "oracle_nonces info"
  obtain pts where pts: "pmap (\<lambda>(nonce, msg). schnorrsig_compute_sig_point S (oracle_public_key info) nonce msg) (zip ?ns msgs) = pok pts"
    "combine_keys S pts = Inr p"
    using assms(2) by (auto simp: get_oracle_sig_point_def split: if_splits)
  have len: "length (zip ?ns msgs) = length sigs" using assms(1) by (simp add: oracle_attests_def)
  have "pts = map (pk_of S) (map s_value sigs)"
  proof (rule nth_equalityI)
    show l: "length pts = length (map (pk_of S) (map s_value sigs))"
      using pmap_length[OF pts(1)] len by simp
    fix j assume "j < length pts"
    then have j: "j < length sigs" using l by simp
    then have "schnorrsig_compute_sig_point S (oracle_public_key info) (?ns ! j) (msgs ! j) = pok (pts ! j)"
      using pts(1) len assms(1) by (auto simp: pmap_pok_iff list_all2_conv_all_nth oracle_attests_def)
    moreover have "schnorrsig_compute_sig_point S (oracle_public_key info) (?ns ! j) (msgs ! j) = pok (pk_of S (s_value (sigs ! j)))"
      using assms(1) j by (auto simp: oracle_attests_def attests_def s_value_def)
    ultimately show "pts ! j = map (pk_of S) (map s_value sigs) ! j" using j by simp
  qed
  then show ?thesis using pts(2) by simp
qed

lemma sum_list_mod: "sum_list (map (\<lambda>x. f x mod n) xs) mod n = sum_list (map f xs) mod (n :: nat)"
proof (induction xs)
  case (Cons x xs)
  have "(f x mod n + sum_list (map (\<lambda>x. f x mod n) xs)) mod n = (f x + sum_list (map f xs)) mod n"
    using Cons by (intro mod_add_cong) simp_all
  then show ?case by simp
qed simp

text \<open>The adaptor point is the key of the sum of all \<open>s\<close> values.\<close>

lemma adaptor_point_scalar:
  assumes laws: "key_laws S val n" and att: "length infos = length sigs"
    "\<forall>i < length infos. i < length msgs \<longrightarrow> oracle_attests S (infos ! i) (msgs ! i) (sigs ! i)"
    and point: "get_adaptor_point_from_oracle_info S infos msgs = pok p"
  shows "\<exists>k. p = pk_of S k \<and> val k = sum_list (map val (map s_value (concat sigs))) mod n"
proof -
  obtain pts where pts: "pmap (\<lambda>(i, info). obind (vget msgs i) (\<lambda>m. get_oracle_sig_point S info m)) (zip [0..<length infos] infos) = pok pts"
    "combine_keys S pts = Inr p"
    using point by (auto simp: get_adaptor_point_from_oracle_info_def split: if_splits)
  have lp: "length pts = length sigs" using pmap_length[OF pts(1)] att(1) by simp
  have "\<exists>k. pts ! i = pk_of S k \<and> val k = sum_list (map val (map s_value (sigs ! i))) mod n" if i: "i < length sigs" for i
  proof -
    have "i < length msgs \<and> get_oracle_sig_point S (infos ! i) (msgs ! i) = pok (pts ! i)"
      using pts(1) i att(1) by (auto simp: pmap_pok_iff list_all2_conv_all_nth bind_eq_Some_conv)
    then have "combine_keys S (map (pk_of S) (map s_value (sigs ! i))) = Inr (pts ! i)"
      using oracle_point_keys att i by auto
    then show ?thesis using laws unfolding key_laws_def by metis
  qed
  then obtain k where k: "\<And>i. i < length sigs \<Longrightarrow> pts ! i = pk_of S (k i) \<and> val (k i) = sum_list (map val (map s_value (sigs ! i))) mod n"
    by metis
  then have "pts = map (pk_of S) (map k [0..<length sigs])" using lp by (intro nth_equalityI) auto
  then obtain r where r: "p = pk_of S r" "val r = sum_list (map val (map k [0..<length sigs])) mod n"
    using pts(2) laws unfolding key_laws_def by metis
  have "map val (map k [0..<length sigs]) = map (\<lambda>ss. sum_list (map val (map s_value ss)) mod n) sigs"
    using k by (intro nth_equalityI) auto
  then have "val r = sum_list (map (\<lambda>ss. sum_list (map val (map s_value ss))) sigs) mod n"
    using r(2) by (simp only: sum_list_mod)
  also have "sum_list (map (\<lambda>ss. sum_list (map val (map s_value ss))) sigs) = sum_list (map val (map s_value (concat sigs)))"
    by (induction sigs) auto
  finally show ?thesis using r(1) by blast
qed

lemma add_secrets_scalar:
  assumes "key_laws S val n"
  shows "add_secrets S acc ss = Some r \<Longrightarrow> val acc < n \<Longrightarrow> val r = (val acc + sum_list (map val ss)) mod n"
proof (induction ss arbitrary: acc)
  case (Cons s ss)
  then obtain sec acc' where s: "sk_from_slice S s = Inr sec" "sk_add_tweak S acc sec = Inr acc'" "add_secrets S acc' ss = Some r"
    by (auto simp: bind_eq_Some_conv)
  then have v: "sec = s" "val acc' = (val acc + val s) mod n" using assms unfolding key_laws_def by metis+
  then have "val acc' < n" using Cons.prems(2) by simp
  then show ?case using Cons.IH[OF s(3)] v by (simp add: mod_add_left_eq add.assoc)
qed simp

lemma signatures_secret_scalar:
  assumes "key_laws S val n" "signatures_to_secret S sigs = pok x"
  shows "val x = sum_list (map val (map s_value (concat sigs))) mod n"
proof -
  obtain vs s0 sec where vs: "rmap (\<lambda>y. rbind (schnorrsig_decompose S y) (\<lambda>v. Inr (snd v))) (concat sigs) = Inr vs"
    "vs \<noteq> []" "s0 = vs ! 0" "sk_from_slice S s0 = Inr sec" "add_secrets S sec (drop 1 vs) = Some x"
    using assms(2) by (auto simp: signatures_to_secret_def bind_eq_Some_conv)
  have "vs = map s_value (concat sigs)"
    using vs(1) unfolding rmap_Inr_iff
    by (intro nth_equalityI) (auto simp: list_all2_conv_all_nth schnorrsig_decompose_def s_value_def)
  moreover have "sec = s0" "val sec < n" using assms(1) vs(4) unfolding key_laws_def by metis+
  moreover from this have "val x = (val s0 + sum_list (map val (drop 1 vs))) mod n"
    using add_secrets_scalar[OF assms(1) vs(5)] by simp
  moreover have "vs = s0 # drop 1 vs" using vs(2,3) by (cases vs) auto
  ultimately show ?thesis by (metis list.simps(9) sum_list.Cons)
qed

lemma secret_opens_point:
  assumes "key_laws S val n" "length infos = length sigs"
    "\<forall>i < length infos. i < length msgs \<longrightarrow> oracle_attests S (infos ! i) (msgs ! i) (sigs ! i)"
    "get_adaptor_point_from_oracle_info S infos msgs = pok p" "signatures_to_secret S sigs = pok x"
  shows "pk_of S x = p"
  using adaptor_point_scalar[OF assms(1-4)] signatures_secret_scalar[OF assms(1,5)] assms(1)
  unfolding key_laws_def by metis

section \<open>Properties\<close>

lemma sign_multi_sig_input_ok:
  assumes "i < length (tx_input tx)" "get_sig_hash_msg S tx i s v = Inr h"
  shows "\<exists>tx'. sign_multi_sig_input S tx sig pk sk s v i = pok tx' \<and>
    witness (tx_input tx' ! i) = [[], serialize_der S (sign_ecdsa S h sk) @ [1], serialize_der S sig @ [1], s] \<and>
    tx_output tx' = tx_output tx \<and> map previous_output (tx_input tx') = map previous_output (tx_input tx)"
  using assms
  by (auto simp: sign_multi_sig_input_def get_sig_for_tx_input_def get_raw_sig_for_tx_input_def set_witness_def finalize_sig_def
      SIGHASH_ALL_def map_update list_update_id)
     (metis list_update_id map_update nth_map length_map)

lemma attestations_decrypt:
  assumes "key_laws S val n" "adaptor_laws S"
    "verify_cet_adaptor_sig_from_oracle_info S other_pk s v adaptor_sig cet infos msgs = pok ()"
    "length infos = length sigs" "\<forall>i < length infos. i < length msgs \<longrightarrow> oracle_attests S (infos ! i) (msgs ! i) (sigs ! i)"
    "signatures_to_secret S sigs = pok x"
  shows "\<exists>h sig. get_sig_hash_msg S cet 0 s v = Inr h \<and> adaptor_decrypt S adaptor_sig x = Inr sig \<and>
    verify_ecdsa S h sig other_pk = Inr ()"
proof -
  obtain p h where p: "get_adaptor_point_from_oracle_info S infos msgs = pok p"
    and h: "get_sig_hash_msg S cet 0 s v = Inr h" "adaptor_verify S adaptor_sig h other_pk p = Inr ()"
    using assms(3) by (auto simp: verify_cet_adaptor_sig_from_oracle_info_def verify_cet_adaptor_sig_from_point_def)
  have "pk_of S x = p" using secret_opens_point[OF assms(1,4,5) p assms(6)] .
  then show ?thesis using assms(2) h unfolding adaptor_laws_def by blast
qed

text \<open>C1: When the counterparty's adaptor signature for an execution transaction verifies against the oracles'
  announced keys and nonces, the attestations of these oracles to the announced messages close the
  contract: the secret they give decrypts the adaptor signature to a signature of the transaction
  that is valid for the counterparty's key, and both signatures and the script are put in the witness.\<close>

theorem attestations_close_the_contract:
  assumes "key_laws S val n" "adaptor_laws S"
    "verify_cet_adaptor_sig_from_oracle_info S other_pk s v adaptor_sig cet infos msgs = pok ()"
    "length infos = length sigs" "\<forall>i < length infos. i < length msgs \<longrightarrow> oracle_attests S (infos ! i) (msgs ! i) (sigs ! i)"
    "signatures_to_secret S sigs = pok x" "tx_input cet \<noteq> []"
  shows "\<exists>cet' h sig. sign_cet S cet adaptor_sig sigs sk other_pk s v = pok cet' \<and> get_sig_hash_msg S cet 0 s v = Inr h \<and>
    verify_ecdsa S h sig other_pk = Inr () \<and>
    witness (tx_input cet' ! 0) = [[], serialize_der S (sign_ecdsa S h sk) @ [1], serialize_der S sig @ [1], s] \<and>
    tx_output cet' = tx_output cet"
proof -
  obtain h sig where h: "get_sig_hash_msg S cet 0 s v = Inr h" and sig: "adaptor_decrypt S adaptor_sig x = Inr sig"
    "verify_ecdsa S h sig other_pk = Inr ()"
    using attestations_decrypt[OF assms(1-6)] by blast
  have "0 < length (tx_input cet)" using assms(7) by simp
  from sign_multi_sig_input_ok[OF this h, of sig other_pk sk] sig h assms(6)
  show ?thesis by (auto simp: sign_cet_def)
qed

text \<open>An instance of the laws: scalars modulo 7, public keys that are their scalar, and 32-byte encodings.\<close>

definition toy_val :: "bytes \<Rightarrow> nat" where "toy_val b = sum_list b mod 7"

definition toy_key :: "nat \<Rightarrow> bytes" where "toy_key v = v # replicate 31 0"

definition toy_secp :: secp where
  "toy_secp = \<lparr>pk_of = (\<lambda>k. toy_key (toy_val k)), p2wsh_sighash = (\<lambda>tx i s v. Inr [9]),
     sign_ecdsa = (\<lambda>h k. [1]), verify_ecdsa = (\<lambda>h sig pk. if sig = pk then Inr () else Inl ''bad signature''),
     adaptor_encrypt = (\<lambda>h k p. p), adaptor_verify = (\<lambda>a h pk p. if p = toy_key 6 \<and> pk = [5] then Inr () else Inl ''bad adaptor''),
     adaptor_decrypt = (\<lambda>a x. Inr [5]),
     combine_keys = (\<lambda>ps. if sum_list (map toy_val ps) mod 7 = 0 then Inl ''infinity'' else Inr (toy_key (sum_list (map toy_val ps) mod 7))),
     pk_from_slice = (\<lambda>b. Inr (toy_key (toy_val (tl b)))), xonly_from_slice = (\<lambda>b. Inr b),
     sk_from_slice = (\<lambda>b. if toy_val b = 0 then Inl ''zero'' else Inr b),
     sk_add_tweak = (\<lambda>a b. if (toy_val a + toy_val b) mod 7 = 0 then Inl ''zero'' else Inr (toy_key ((toy_val a + toy_val b) mod 7))),
     mul_tweak = (\<lambda>p t. Inr (toy_key (toy_val p * toy_val t mod 7))), scalar_from_be_bytes = (\<lambda>b. Some b),
     bip340_hash = (\<lambda>b. toy_key 1), serialize_der = (\<lambda>b. b), p2pkh_script = (\<lambda>p. p)\<rparr>"

lemma toy_val_key [simp]: "toy_val (toy_key v) = v mod 7"
  by (simp add: toy_val_def toy_key_def sum_list_replicate)

lemma toy_simps: "combine_keys toy_secp ps = (if sum_list (map toy_val ps) mod 7 = 0 then Inl ''infinity'' else Inr (toy_key (sum_list (map toy_val ps) mod 7)))"
  "p2wsh_sighash toy_secp tx i s v = Inr [9]" "pk_of toy_secp k = toy_key (toy_val k)" "xonly_from_slice toy_secp b = Inr b"
  "adaptor_verify toy_secp a h pk p = (if p = toy_key 6 \<and> pk = [5] then Inr () else Inl ''bad adaptor'')"
  "sk_from_slice toy_secp b = (if toy_val b = 0 then Inl ''zero'' else Inr b)"
  "sk_add_tweak toy_secp a b = (if (toy_val a + toy_val b) mod 7 = 0 then Inl ''zero'' else Inr (toy_key ((toy_val a + toy_val b) mod 7)))"
  "pk_from_slice toy_secp b = Inr (toy_key (toy_val (tl b)))" "mul_tweak toy_secp p b = Inr (toy_key (toy_val p * toy_val b mod 7))"
  "scalar_from_be_bytes toy_secp b = Some b" "bip340_hash toy_secp b = toy_key 1"
  by (simp_all add: toy_secp_def)

lemma toy_key_laws: "key_laws toy_secp toy_val 7"
proof -
  have val: "toy_val k < 7" for k by (simp add: toy_val_def)
  have "map toy_val (map (\<lambda>k. toy_key (toy_val k)) ks) = map toy_val ks" for ks
    using val by (simp add: comp_def)
  then show ?thesis using val by (auto simp: key_laws_def toy_secp_def comp_def split: if_splits) (metis mod_mod_trivial toy_val_key)
qed

lemma toy_adaptor_laws: "adaptor_laws toy_secp"
  by (auto simp: adaptor_laws_def toy_secp_def split: if_splits)

definition toy_infos :: "OracleInfo list" where
  "toy_infos = replicate 2 \<lparr>oracle_public_key = toy_key 2, oracle_nonces = [toy_key 1]\<rparr>"

definition toy_msgs :: "bytes list list" where "toy_msgs = replicate 2 [[0]]"

definition toy_sigs :: "bytes list list" where "toy_sigs = replicate 2 [toy_key 1 @ toy_key 3]"

lemma toy_take: "take 32 (toy_key a @ toy_key b) = toy_key a" "take 32 (toy_key b) = toy_key b"
    "take 32 (drop 32 (toy_key a @ toy_key b)) = toy_key b"
  by (simp_all add: toy_key_def)

lemma toy_point: "schnorrsig_compute_sig_point toy_secp (toy_key 2) (toy_key 1) [0] = pok (toy_key 3)"
  by (simp add: schnorrsig_compute_sig_point_def schnorr_pubkey_to_pubkey_def create_schnorr_hash_def toy_simps del: One_nat_def)

lemma toy_verified: "verify_cet_adaptor_sig_from_oracle_info toy_secp [5] s v [] cet toy_infos toy_msgs = pok ()"
proof -
  have "get_oracle_sig_point toy_secp \<lparr>oracle_public_key = toy_key 2, oracle_nonces = [toy_key 1]\<rparr> [[0]] = pok (toy_key 3)"
    by (simp add: get_oracle_sig_point_def toy_point toy_simps del: One_nat_def)
  then have "get_adaptor_point_from_oracle_info toy_secp toy_infos toy_msgs = pok (toy_key 6)"
    by (simp add: get_adaptor_point_from_oracle_info_def vget_def toy_simps toy_infos_def toy_msgs_def numeral_2_eq_2 del: One_nat_def)
  then show ?thesis
    by (simp add: verify_cet_adaptor_sig_from_oracle_info_def verify_cet_adaptor_sig_from_point_def get_sig_hash_msg_def toy_simps
        del: One_nat_def)
qed

lemma toy_attested:
  "length toy_infos = length toy_sigs"
  "\<forall>i < length toy_infos. i < length toy_msgs \<longrightarrow> oracle_attests toy_secp (toy_infos ! i) (toy_msgs ! i) (toy_sigs ! i)"
proof -
  have "attests toy_secp (toy_key 2) (toy_key 1) [0] (toy_key 1 @ toy_key 3)"
    unfolding attests_def toy_take using toy_point by (simp add: toy_simps del: One_nat_def)
  then show "\<forall>i < length toy_infos. i < length toy_msgs \<longrightarrow> oracle_attests toy_secp (toy_infos ! i) (toy_msgs ! i) (toy_sigs ! i)"
    by (auto simp: oracle_attests_def toy_infos_def toy_msgs_def toy_sigs_def simp del: One_nat_def)
qed (simp add: toy_infos_def toy_sigs_def)

lemma toy_secret: "signatures_to_secret toy_secp toy_sigs = pok (toy_key 6)"
proof -
  have "schnorrsig_decompose toy_secp (toy_key 1 @ toy_key 3) = Inr (toy_key 1, toy_key 3)"
    unfolding schnorrsig_decompose_def toy_take by (simp add: toy_simps del: One_nat_def)
  moreover have "drop 1 (x # xs) = xs" for x :: bytes and xs by simp
  ultimately show ?thesis
    by (simp add: signatures_to_secret_def toy_simps vget_def toy_sigs_def numeral_2_eq_2 del: One_nat_def)
qed

definition toy_tx :: "amount list \<Rightarrow> Transaction" where
  "toy_tx vs = \<lparr>version = 2, lock_time = 0, tx_input = [\<lparr>previous_output = \<lparr>txid = [], vout = 0\<rparr>, script_sig = [], sequence = 0, witness = []\<rparr>],
     tx_output = map (\<lambda>v. \<lparr>txo_value = v, script_pubkey = [0, 32]\<rparr>) vs\<rparr>"

theorem attestations_close_the_contract_witness:
  "\<exists>cet' h sig. sign_cet toy_secp (toy_tx []) [] toy_sigs [] [5] [] 0 = pok cet' \<and>
    verify_ecdsa toy_secp h sig [5] = Inr () \<and> witness (tx_input cet' ! 0) = [[], [1, 1], sig @ [1], []]"
proof -
  have "tx_input (toy_tx []) \<noteq> []" by (simp add: toy_tx_def)
  from attestations_close_the_contract[OF toy_key_laws toy_adaptor_laws toy_verified toy_attested toy_secret this]
  obtain cet' h sig where "sign_cet toy_secp (toy_tx []) [] toy_sigs [] [5] [] 0 = pok cet'" "verify_ecdsa toy_secp h sig [5] = Inr ()"
    "witness (tx_input cet' ! 0) = [[], serialize_der toy_secp (sign_ecdsa toy_secp h []) @ [1], serialize_der toy_secp sig @ [1], []]"
    by fast
  then show ?thesis by (auto simp: toy_secp_def)
qed

text \<open>The witness of a funding input has the own signature before the counterparty's, whatever their keys:
  while the funding script has the keys in their order, the signatures are not put in the order of
  the keys.\<close>

theorem multi_sig_witness_order:
  assumes "i < length (tx_input tx)" "get_sig_hash_msg S tx i s v = Inr h" "key_le other own" "other \<noteq> own"
  shows "\<exists>tx'. sign_multi_sig_input S tx sig other sk s v i = pok tx' \<and>
      witness (tx_input tx' ! i) = [[], finalize_sig S (sign_ecdsa S h sk) 1, finalize_sig S sig 1, s] \<and>
      funding_redeemscript_items own other =
        [Op ''OP_PUSHNUM_2'', PushSlice other, PushSlice own, Op ''OP_PUSHNUM_2'', Op ''OP_CHECKMULTISIG'']"
proof -
  have "\<not> key_le own other" using assms(3,4) lexordp_antisym[of own other] by (auto simp: key_le_def)
  then show ?thesis using sign_multi_sig_input_ok[OF assms(1,2), of sig other sk]
    by (auto simp: funding_redeemscript_items_def finalize_sig_def)
qed

theorem multi_sig_witness_order_witness:
  "\<exists>tx'. sign_multi_sig_input toy_secp (toy_tx []) [5] [2] [] [] 0 0 = pok tx' \<and>
    witness (tx_input tx' ! 0) = [[], [1, 1], [5, 1], []] \<and>
    funding_redeemscript_items [3] [2] =
      [Op ''OP_PUSHNUM_2'', PushSlice [2], PushSlice [3], Op ''OP_PUSHNUM_2'', Op ''OP_CHECKMULTISIG'']"
proof -
  have "get_sig_hash_msg toy_secp (toy_tx []) 0 [] 0 = Inr [9]" by (simp add: get_sig_hash_msg_def toy_secp_def)
  from multi_sig_witness_order[OF _ this, of "[2]" "[3]" "[5]" "[]"] show ?thesis
    by (auto simp: key_le_def finalize_sig_def toy_secp_def toy_tx_def)
qed

end
