(* ===== verification/DlcChannel.thy ===== *)
theory DlcChannel
  imports DlcSign
begin

text \<open>
  The transactions of a DLC channel, \<open>dlc/src/channel/mod.rs\<close>: buffer, settle and punishment
  transactions, the renewal of the contract of a channel, and the descriptors of the revocable outputs. A
  descriptor is the expression the code formats, as a tree; what the miniscript library makes of it
  is a record of functions.
\<close>

section \<open>Descriptors\<close>

datatype Desc =
    PkK pubkey | PkH pubkey | Older nat | AndV Desc Desc | OrI Desc Desc | AndOr Desc Desc Desc

text \<open>
  The library: whether an expression parses, its output script and script code, and the satisfaction
  of an input with signatures by key, or by the hash of the key.
\<close>

type_synonym ecdsa_sig = "bytes \<times> nat"

record mslib =
  parses :: "Desc \<Rightarrow> bool"
  desc_script_pubkey :: "Desc \<Rightarrow> script"
  desc_script_code :: "Desc \<Rightarrow> string + script"
  pubkey_hash :: "pubkey \<Rightarrow> bytes"
  satisfy :: "Desc \<Rightarrow> TxIn \<Rightarrow> (pubkey \<rightharpoonup> ecdsa_sig) \<Rightarrow> string + TxIn"
  satisfy_hash :: "Desc \<Rightarrow> TxIn \<Rightarrow> (bytes \<rightharpoonup> pubkey \<times> ecdsa_sig) \<Rightarrow> string + TxIn"

definition ms_err :: "string + 'a \<Rightarrow> DlcError + 'a" where
  "ms_err r = (case r of Inl e \<Rightarrow> Inl (Miniscript e) | Inr x \<Rightarrow> Inr x)"

definition invalid_arg :: "string + 'a \<Rightarrow> DlcError + 'a" where
  "invalid_arg r = (case r of Inl _ \<Rightarrow> Inl InvalidArgument | Inr x \<Rightarrow> Inr x)"

lemma ms_err_Inr [simp]: "ms_err r = Inr x \<longleftrightarrow> r = Inr x" "ms_err (Inr x) = Inr x"
  by (auto simp: ms_err_def split: sum.splits)

lemma invalid_arg_Inr [simp]: "invalid_arg r = Inr x \<longleftrightarrow> r = Inr x" "invalid_arg (Inr x) = Inr x" "invalid_arg (Inl e) = Inl InvalidArgument"
  by (auto simp: invalid_arg_def split: sum.splits)

record RevokeParams =
  own_pk :: pubkey
  publish_pk :: pubkey
  revoke_pk :: pubkey

definition buffer_expression :: "RevokeParams \<Rightarrow> RevokeParams \<Rightarrow> Desc" where
  "buffer_expression offer accept =
     (let (first_pk, second_pk) = (if key_le (own_pk offer) (own_pk accept) \<and> own_pk offer \<noteq> own_pk accept
        then (own_pk offer, own_pk accept) else (own_pk accept, own_pk offer)) in
      AndOr (PkK first_pk) (PkK second_pk)
        (OrI (AndV (PkH (own_pk offer)) (AndV (PkH (publish_pk accept)) (PkH (revoke_pk accept))))
             (AndV (PkH (own_pk accept)) (AndV (PkH (publish_pk offer)) (PkH (revoke_pk offer))))))"

definition parse :: "mslib \<Rightarrow> Desc \<Rightarrow> Desc option" where
  "parse M d = (if parses M d then Some d else None)"

definition buffer_descriptor :: "mslib \<Rightarrow> RevokeParams \<Rightarrow> RevokeParams \<Rightarrow> Desc option" where
  "buffer_descriptor M offer accept = parse M (buffer_expression offer accept)"

definition settle_expression :: "RevokeParams \<Rightarrow> pubkey \<Rightarrow> nat \<Rightarrow> Desc" where
  "settle_expression payee counter_pk csv_timelock =
     AndOr (PkK (own_pk payee)) (Older csv_timelock)
       (AndV (PkK counter_pk) (AndV (PkK (publish_pk payee)) (PkK (revoke_pk payee))))"

definition settle_descriptor :: "mslib \<Rightarrow> RevokeParams \<Rightarrow> pubkey \<Rightarrow> nat \<Rightarrow> Desc option" where
  "settle_descriptor M payee counter_pk csv_timelock = parse M (settle_expression payee counter_pk csv_timelock)"

section \<open>Weights\<close>

definition BUFFER_TX_WEIGHT :: nat where "BUFFER_TX_WEIGHT = 599"
definition CET_EXTRA_WEIGHT :: nat where "CET_EXTRA_WEIGHT = 330"
definition SETTLE_INPUT_WEIGHT :: nat where "SETTLE_INPUT_WEIGHT = 428"
definition SETTLE_OUTPUT_WEIGHT :: nat where "SETTLE_OUTPUT_WEIGHT = 172"
definition PUNISH_BUFFER_INPUT_WEIGHT :: nat where "PUNISH_BUFFER_INPUT_WEIGHT = 758"
definition PUNISH_SETTLE_INPUT_WEIGHT :: nat where "PUNISH_SETTLE_INPUT_WEIGHT = 575"
definition N_VALUE_WEIGHT :: nat where "N_VALUE_WEIGHT = 8 * 4"

lemmas weight_defs = BUFFER_TX_WEIGHT_def CET_EXTRA_WEIGHT_def SETTLE_INPUT_WEIGHT_def SETTLE_OUTPUT_WEIGHT_def
  PUNISH_BUFFER_INPUT_WEIGHT_def PUNISH_SETTLE_INPUT_WEIGHT_def N_VALUE_WEIGHT_def

section \<open>Buffer and settle transactions\<close>

record DlcChannelTransactions =
  dlc_transactions :: DlcTransactions
  buffer_transaction :: Transaction
  buffer_script_pubkey :: script

definition create_buffer_transaction :: "mslib \<Rightarrow> TxIn \<Rightarrow> Desc \<Rightarrow> amount \<Rightarrow> nat \<Rightarrow> Transaction" where
  "create_buffer_transaction M fund_tx_in d total_collateral lt =
     \<lparr>version = TX_VERSION, lock_time = lt, tx_input = [fund_tx_in],
      tx_output = [\<lparr>txo_value = total_collateral, script_pubkey = desc_script_pubkey M d\<rparr>]\<rparr>"

definition get_tx_adaptor_signature :: "secp \<Rightarrow> Transaction \<Rightarrow> amount \<Rightarrow> script \<Rightarrow> bytes \<Rightarrow> pubkey \<Rightarrow> DlcError + bytes" where
  "get_tx_adaptor_signature S tx v s own_fund_sk other_publish_key =
     rbind (get_sig_hash_msg S tx 0 s v) (\<lambda>sighash. Inr (adaptor_encrypt S sighash own_fund_sk other_publish_key))"

definition verify_tx_adaptor_signature ::
  "secp \<Rightarrow> Transaction \<Rightarrow> amount \<Rightarrow> script \<Rightarrow> pubkey \<Rightarrow> pubkey \<Rightarrow> bytes \<Rightarrow> DlcError + unit" where
  "verify_tx_adaptor_signature S tx v s other_fund_pk own_publish_key adaptor_sig =
     rbind (get_sig_hash_msg S tx 0 s v) (\<lambda>sighash. secp_err (adaptor_verify S adaptor_sig sighash other_fund_pk own_publish_key))"

text \<open>The division by the number of outputs panics when there is none.\<close>

definition create_settle_transaction ::
  "mslib \<Rightarrow> TxIn \<Rightarrow> RevokeParams \<Rightarrow> RevokeParams \<Rightarrow> amount \<Rightarrow> amount \<Rightarrow> nat \<Rightarrow> nat \<Rightarrow> amount \<Rightarrow> nat \<Rightarrow>
   (DlcError + Transaction) option" where
  "create_settle_transaction M fund_tx_in offer accept o_pay a_pay csv_timelock lt fund_output_value fee_rate =
     obind (settle_descriptor M offer (own_pk accept) csv_timelock) (\<lambda>offer_d.
     obind (settle_descriptor M accept (own_pk offer) csv_timelock) (\<lambda>accept_d.
     let output = discard_dust [\<lparr>txo_value = o_pay, script_pubkey = desc_script_pubkey M offer_d\<rparr>,
           \<lparr>txo_value = a_pay, script_pubkey = desc_script_pubkey M accept_d\<rparr>] DUST_LIMIT in
     obind (u64_sub fund_output_value o_pay) (\<lambda>x.
     obind (u64_sub x a_pay) (\<lambda>x.
     pbind (Some (weight_to_fee (SETTLE_INPUT_WEIGHT + length output * SETTLE_OUTPUT_WEIGHT) fee_rate)) (\<lambda>fee.
     obind (u64_sub x fee) (\<lambda>x.
     obind (if length output = 0 then None else Some (x div length output)) (\<lambda>remaining_fee.
     obind (omap (\<lambda>out. map_option (\<lambda>v. out\<lparr>txo_value := v\<rparr>) (u64_add (txo_value out) remaining_fee)) output) (\<lambda>output.
     pok \<lparr>version = TX_VERSION, lock_time = lt, tx_input = [fund_tx_in], tx_output = output\<rparr>))))))))"

section \<open>The transactions of a channel\<close>

definition create_renewal_channel_transactions ::
  "btc \<Rightarrow> mslib \<Rightarrow> PartyParams \<Rightarrow> PartyParams \<Rightarrow> RevokeParams \<Rightarrow> RevokeParams \<Rightarrow> Transaction \<Rightarrow> script \<Rightarrow> Payout list \<Rightarrow>
   nat \<Rightarrow> nat \<Rightarrow> nat \<Rightarrow> nat \<Rightarrow> (DlcError + DlcChannelTransactions) option" where
  "create_renewal_channel_transactions B M offer accept offer_rev accept_rev fund_tx funding_spk payouts
     refund_lock_time fee_rate cet_lock_time cet_nsequence =
     pbind (Some (weight_to_fee (BUFFER_TX_WEIGHT + CET_EXTRA_WEIGHT) fee_rate)) (\<lambda>extra_fee.
     obind (get_output_for_script_pubkey fund_tx (to_p2wsh B funding_spk)) (\<lambda>(fund_vout, fund_output).
     let tx_in = \<lparr>previous_output = \<lparr>txid = compute_txid B fund_tx, vout = fund_vout mod u32_bound\<rparr>, script_sig = [],
           sequence = get_sequence cet_lock_time, witness = []\<rparr> in
     obind (buffer_descriptor M offer_rev accept_rev) (\<lambda>d.
     obind (u64_sub (txo_value fund_output) extra_fee) (\<lambda>v.
     let buffer_tx = create_buffer_transaction M tx_in d v cet_lock_time in
     pbind (Some (create_cets_and_refund_tx offer accept \<lparr>txid = compute_txid B buffer_tx, vout = 0\<rparr> payouts
        refund_lock_time cet_lock_time (Some cet_nsequence))) (\<lambda>(cet_list, refund_tx).
     pbind (Some (ms_err (desc_script_code M d))) (\<lambda>code.
     pok \<lparr>dlc_transactions = \<lparr>fund = fund_tx, cets = cet_list, refund = refund_tx, funding_script_pubkey = funding_spk\<rparr>,
          buffer_transaction = buffer_tx, buffer_script_pubkey = code\<rparr>))))))"

definition create_channel_transactions ::
  "btc \<Rightarrow> mslib \<Rightarrow> PartyParams \<Rightarrow> PartyParams \<Rightarrow> RevokeParams \<Rightarrow> RevokeParams \<Rightarrow> Payout list \<Rightarrow>
   nat \<Rightarrow> nat \<Rightarrow> nat \<Rightarrow> nat \<Rightarrow> nat \<Rightarrow> nat \<Rightarrow> (DlcError + DlcChannelTransactions) option" where
  "create_channel_transactions B M offer accept offer_rev accept_rev payouts refund_lock_time fee_rate fund_lock_time
     cet_lock_time fund_output_serial_id cet_nsequence =
     pbind (Some (weight_to_fee (BUFFER_TX_WEIGHT + CET_EXTRA_WEIGHT) fee_rate)) (\<lambda>extra_fee.
     pbind (create_fund_transaction_with_fees B offer accept fee_rate fund_lock_time fund_output_serial_id extra_fee)
       (\<lambda>(fund_tx, funding_spk).
     create_renewal_channel_transactions B M offer accept offer_rev accept_rev fund_tx funding_spk payouts
       refund_lock_time fee_rate cet_lock_time cet_nsequence))"

definition create_collaborative_close_transaction ::
  "PartyParams \<Rightarrow> amount \<Rightarrow> PartyParams \<Rightarrow> amount \<Rightarrow> OutPoint \<Rightarrow> amount \<Rightarrow> Transaction" where
  "create_collaborative_close_transaction offer o_pay accept a_pay fund_outpoint fund_output_amount =
     (let offer_output = \<lparr>txo_value = o_pay, script_pubkey = payout_script_pubkey offer\<rparr>;
          accept_output = \<lparr>txo_value = a_pay, script_pubkey = payout_script_pubkey accept\<rparr>;
          output = (if payout_serial_id offer < payout_serial_id accept
            then [offer_output, accept_output] else [accept_output, offer_output])
      in \<lparr>version = TX_VERSION, lock_time = 0,
          tx_input = [\<lparr>previous_output = fund_outpoint, script_sig = [], sequence = DISABLE_LOCKTIME, witness = []\<rparr>],
          tx_output = discard_dust output DUST_LIMIT\<rparr>)"

section \<open>Signing with the descriptors\<close>

definition set_input :: "Transaction \<Rightarrow> nat \<Rightarrow> TxIn \<Rightarrow> Transaction" where
  "set_input tx i t = tx\<lparr>tx_input := (tx_input tx)[i := t]\<rparr>"

definition channel_sign_cet ::
  "secp \<Rightarrow> mslib \<Rightarrow> Transaction \<Rightarrow> amount \<Rightarrow> RevokeParams \<Rightarrow> RevokeParams \<Rightarrow> bytes \<Rightarrow> pubkey \<Rightarrow> bytes \<Rightarrow> bytes list list \<Rightarrow>
   (DlcError + Transaction) option" where
  "channel_sign_cet S M cet cet_amount offer accept own_sk counter_pubkey adaptor_signature oracle_signatures =
     pbind (signatures_to_secret S oracle_signatures) (\<lambda>adaptor_secret.
     pbind (Some (secp_err (adaptor_decrypt S adaptor_signature adaptor_secret))) (\<lambda>adapted_sig.
     obind (buffer_descriptor M offer accept) (\<lambda>d.
     pbind (Some (ms_err (desc_script_code M d))) (\<lambda>code.
     pbind (Some (get_raw_sig_for_tx_input S cet 0 code cet_amount own_sk)) (\<lambda>own_sig.
     let sigs = [pk_of S own_sk \<mapsto> (own_sig, SIGHASH_ALL), counter_pubkey \<mapsto> (adapted_sig, SIGHASH_ALL)] in
     obind (vget (tx_input cet) 0) (\<lambda>i0.
     pbind (Some (invalid_arg (satisfy M d i0 sigs))) (\<lambda>i0.
     pok (set_input cet 0 i0))))))))"

text \<open>The signatures of the own, publication and revocation keys, by key hash; later ones replace earlier ones.\<close>

fun hash_sigs :: "secp \<Rightarrow> mslib \<Rightarrow> Transaction \<Rightarrow> Desc \<Rightarrow> amount \<Rightarrow> bytes list \<Rightarrow> (bytes \<rightharpoonup> pubkey \<times> ecdsa_sig) \<Rightarrow>
    DlcError + (bytes \<rightharpoonup> pubkey \<times> ecdsa_sig)" where
  "hash_sigs S M tx d v [] m = Inr m"
| "hash_sigs S M tx d v (sk # sks) m =
     rbind (ms_err (desc_script_code M d)) (\<lambda>code.
     rbind (get_raw_sig_for_tx_input S tx 0 code v sk) (\<lambda>sig.
     hash_sigs S M tx d v sks (m(pubkey_hash M (pk_of S sk) \<mapsto> (pk_of S sk, sig, SIGHASH_ALL)))))"

fun key_sigs :: "secp \<Rightarrow> mslib \<Rightarrow> Transaction \<Rightarrow> Desc \<Rightarrow> amount \<Rightarrow> bytes list \<Rightarrow> (pubkey \<rightharpoonup> ecdsa_sig) \<Rightarrow>
    DlcError + (pubkey \<rightharpoonup> ecdsa_sig)" where
  "key_sigs S M tx d v [] m = Inr m"
| "key_sigs S M tx d v (sk # sks) m =
     rbind (ms_err (desc_script_code M d)) (\<lambda>code.
     rbind (get_raw_sig_for_tx_input S tx 0 code v sk) (\<lambda>sig.
     key_sigs S M tx d v sks (m(pk_of S sk \<mapsto> (sig, SIGHASH_ALL)))))"

definition create_and_sign_punish_buffer_transaction ::
  "btc \<Rightarrow> secp \<Rightarrow> mslib \<Rightarrow> RevokeParams \<Rightarrow> RevokeParams \<Rightarrow> bytes \<Rightarrow> bytes \<Rightarrow> bytes \<Rightarrow> Transaction \<Rightarrow> script \<Rightarrow> nat \<Rightarrow> nat \<Rightarrow>
   (DlcError + Transaction) option" where
  "create_and_sign_punish_buffer_transaction B S M offer accept own_sk counter_publish_sk counter_revoke_sk prev_tx dest_spk lt fee_rate =
     obind (buffer_descriptor M offer accept) (\<lambda>d.
     let tx_in = \<lparr>previous_output = \<lparr>txid = compute_txid B prev_tx, vout = 0\<rparr>, script_sig = [], sequence = 0, witness = []\<rparr>;
         output_weight = N_VALUE_WEIGHT + compute_var_int_prefix_size B (length dest_spk) + length dest_spk * 4 in
     pbind (Some (weight_to_fee (PUNISH_BUFFER_INPUT_WEIGHT + output_weight) fee_rate)) (\<lambda>tx_fee.
     obind (vget (tx_output prev_tx) 0) (\<lambda>prev_out.
     obind (u64_sub (txo_value prev_out) tx_fee) (\<lambda>output_value.
     let tx = \<lparr>version = TX_VERSION, lock_time = lt, tx_input = [tx_in],
           tx_output = [\<lparr>txo_value = output_value, script_pubkey = dest_spk\<rparr>]\<rparr> in
     pbind (Some (hash_sigs S M tx d (txo_value prev_out) [own_sk, counter_publish_sk, counter_revoke_sk] Map.empty)) (\<lambda>sigs.
     pbind (Some (invalid_arg (satisfy_hash M d tx_in sigs))) (\<lambda>i0. pok (set_input tx 0 i0)))))))"

definition create_and_sign_punish_settle_transaction ::
  "btc \<Rightarrow> secp \<Rightarrow> mslib \<Rightarrow> RevokeParams \<Rightarrow> RevokeParams \<Rightarrow> bytes \<Rightarrow> bytes \<Rightarrow> bytes \<Rightarrow> Transaction \<Rightarrow> script \<Rightarrow> nat \<Rightarrow> nat \<Rightarrow> nat \<Rightarrow>
   bool \<Rightarrow> (DlcError + Transaction) option" where
  "create_and_sign_punish_settle_transaction B S M offer accept own_sk counter_publish_sk counter_revoke_sk prev_tx dest_spk
     csv_timelock lt fee_rate is_offer =
     (let (own_params, counter_params) = (if is_offer then (offer, accept) else (accept, offer)) in
     obind (settle_descriptor M counter_params (own_pk own_params) csv_timelock) (\<lambda>d.
     let vout = (if is_offer then 1 else 0);
         tx_in = \<lparr>previous_output = \<lparr>txid = compute_txid B prev_tx, vout = vout\<rparr>, script_sig = [], sequence = 0, witness = []\<rparr> in
     obind (vget (tx_output prev_tx) vout) (\<lambda>prev_out.
     let input_value = txo_value prev_out;
         output_weight = N_VALUE_WEIGHT + compute_var_int_prefix_size B (length dest_spk) + length dest_spk * 4 in
     pbind (Some (weight_to_fee (PUNISH_SETTLE_INPUT_WEIGHT + output_weight) fee_rate)) (\<lambda>tx_fee.
     obind (u64_sub input_value tx_fee) (\<lambda>output_value.
     let tx = \<lparr>version = TX_VERSION, lock_time = lt, tx_input = [tx_in],
           tx_output = [\<lparr>txo_value = output_value, script_pubkey = dest_spk\<rparr>]\<rparr> in
     pbind (Some (key_sigs S M tx d input_value [own_sk, counter_publish_sk, counter_revoke_sk] Map.empty)) (\<lambda>sigs.
     pbind (Some (invalid_arg (satisfy M d tx_in sigs))) (\<lambda>i0. pok (set_input tx 0 i0))))))))"

section \<open>What the library promises\<close>

text \<open>The semantics of the expressions: \<open>keys\<close> can sign and the relative locks of \<open>old\<close> have passed.\<close>

fun satisfiable :: "(pubkey \<Rightarrow> bool) \<Rightarrow> (nat \<Rightarrow> bool) \<Rightarrow> Desc \<Rightarrow> bool" where
  "satisfiable keys old (PkK k) = keys k"
| "satisfiable keys old (PkH k) = keys k"
| "satisfiable keys old (Older n) = old n"
| "satisfiable keys old (AndV x y) = (satisfiable keys old x \<and> satisfiable keys old y)"
| "satisfiable keys old (OrI x y) = (satisfiable keys old x \<or> satisfiable keys old y)"
| "satisfiable keys old (AndOr x y z) = (satisfiable keys old x \<and> satisfiable keys old y \<or> satisfiable keys old z)"

text \<open>
  A map of signatures satisfies the expressions its keys satisfy, and no lock time; satisfying an input
  keeps what it spends. The signature hash of an input that exists is defined.
\<close>

definition ms_laws :: "mslib \<Rightarrow> bool" where
  "ms_laws M \<longleftrightarrow>
     (\<forall>d t m. parses M d \<longrightarrow> (satisfiable (\<lambda>k. m k \<noteq> None) (\<lambda>n. False) d \<longleftrightarrow> (\<exists>t'. satisfy M d t m = Inr t'))) \<and>
     (\<forall>d t m. parses M d \<longrightarrow> (satisfiable (\<lambda>k. m (pubkey_hash M k) \<noteq> None) (\<lambda>n. False) d \<longleftrightarrow>
        (\<exists>t'. satisfy_hash M d t m = Inr t'))) \<and>
     (\<forall>d t m t'. satisfy M d t m = Inr t' \<longrightarrow> previous_output t' = previous_output t) \<and>
     (\<forall>d t m t'. satisfy_hash M d t m = Inr t' \<longrightarrow> previous_output t' = previous_output t) \<and>
     (\<forall>d. parses M d \<longrightarrow> (\<exists>c. desc_script_code M d = Inr c))"

lemma satisfy_iff:
  "ms_laws M \<Longrightarrow> parses M d \<Longrightarrow> satisfiable (\<lambda>k. m k \<noteq> None) (\<lambda>n. False) d \<longleftrightarrow> (\<exists>t'. satisfy M d t m = Inr t')"
  unfolding ms_laws_def by blast

lemma satisfy_hash_iff:
  "ms_laws M \<Longrightarrow> parses M d \<Longrightarrow> satisfiable (\<lambda>k. m (pubkey_hash M k) \<noteq> None) (\<lambda>n. False) d \<longleftrightarrow> (\<exists>t'. satisfy_hash M d t m = Inr t')"
  unfolding ms_laws_def by blast

lemma satisfy_keeps_outpoint:
  "ms_laws M \<Longrightarrow> satisfy M d t m = Inr t' \<Longrightarrow> previous_output t' = previous_output t"
  "ms_laws M \<Longrightarrow> satisfy_hash M d t mh = Inr t' \<Longrightarrow> previous_output t' = previous_output t"
  unfolding ms_laws_def by blast+

definition sighash_laws :: "secp \<Rightarrow> bool" where
  "sighash_laws S \<longleftrightarrow> (\<forall>tx i s v. i < length (tx_input tx) \<longrightarrow> (\<exists>h. p2wsh_sighash S tx i s v = Inr h))"

section \<open>Descriptors\<close>

lemma buffer_policy: "satisfiable keys old (buffer_expression offer accept) \<longleftrightarrow>
    keys (own_pk offer) \<and> keys (own_pk accept) \<or>
    keys (own_pk offer) \<and> keys (publish_pk accept) \<and> keys (revoke_pk accept) \<or>
    keys (own_pk accept) \<and> keys (publish_pk offer) \<and> keys (revoke_pk offer)"
  by (auto simp: buffer_expression_def Let_def)

lemma settle_policy: "satisfiable keys old (settle_expression payee counter csv) \<longleftrightarrow>
    keys (own_pk payee) \<and> old csv \<or> keys counter \<and> keys (publish_pk payee) \<and> keys (revoke_pk payee)"
  by (simp add: settle_expression_def)

text \<open>The descriptors allow what their policies say: a buffer output can be spent by both parties
  together, or by a party with the publication and revocation keys of the other one; a settle output
  by the payee after the relative lock, or by the counterparty with the publication and
  revocation keys of the payee.\<close>

theorem descriptor_policies:
  "(satisfiable keys old (buffer_expression offer accept) \<longleftrightarrow>
      keys (own_pk offer) \<and> keys (own_pk accept) \<or>
      keys (own_pk offer) \<and> keys (publish_pk accept) \<and> keys (revoke_pk accept) \<or>
      keys (own_pk accept) \<and> keys (publish_pk offer) \<and> keys (revoke_pk offer)) \<and>
   (satisfiable keys old (settle_expression payee counter csv) \<longleftrightarrow>
      keys (own_pk payee) \<and> old csv \<or> keys counter \<and> keys (publish_pk payee) \<and> keys (revoke_pk payee))"
  by (intro conjI buffer_policy settle_policy)

lemma hash_sigs_ok:
  assumes "desc_script_code M d = Inr c" "sighash_laws S" "tx_input tx \<noteq> []"
  shows "\<exists>m'. hash_sigs S M tx d v sks m = Inr m' \<and>
    (\<forall>h. m' h \<noteq> None \<longleftrightarrow> m h \<noteq> None \<or> h \<in> (\<lambda>sk. pubkey_hash M (pk_of S sk)) ` set sks)"
proof (induction sks arbitrary: m)
  case (Cons sk sks)
  obtain h where "p2wsh_sighash S tx 0 c v = Inr h" using assms(2,3) unfolding sighash_laws_def by blast
  then have "hash_sigs S M tx d v (sk # sks) m =
      hash_sigs S M tx d v sks (m(pubkey_hash M (pk_of S sk) \<mapsto> (pk_of S sk, sign_ecdsa S h sk, SIGHASH_ALL)))"
    using assms(1) by (simp add: get_raw_sig_for_tx_input_def get_sig_hash_msg_def)
  moreover obtain m' where m': "hash_sigs S M tx d v sks (m(pubkey_hash M (pk_of S sk) \<mapsto> (pk_of S sk, sign_ecdsa S h sk, SIGHASH_ALL))) = Inr m'"
    "\<forall>h'. m' h' \<noteq> None \<longleftrightarrow> (m(pubkey_hash M (pk_of S sk) \<mapsto> (pk_of S sk, sign_ecdsa S h sk, SIGHASH_ALL))) h' \<noteq> None
       \<or> h' \<in> (\<lambda>sk. pubkey_hash M (pk_of S sk)) ` set sks"
    using Cons.IH by blast
  ultimately show ?case by (intro exI[of _ m'] conjI) (simp, force)
qed simp

lemma key_sigs_ok:
  assumes "desc_script_code M d = Inr c" "sighash_laws S" "tx_input tx \<noteq> []"
  shows "\<exists>m'. key_sigs S M tx d v sks m = Inr m' \<and> (\<forall>k. m' k \<noteq> None \<longleftrightarrow> m k \<noteq> None \<or> k \<in> pk_of S ` set sks)"
proof (induction sks arbitrary: m)
  case (Cons sk sks)
  obtain h where "p2wsh_sighash S tx 0 c v = Inr h" using assms(2,3) unfolding sighash_laws_def by blast
  then have "key_sigs S M tx d v (sk # sks) m = key_sigs S M tx d v sks (m(pk_of S sk \<mapsto> (sign_ecdsa S h sk, SIGHASH_ALL)))"
    using assms(1) by (simp add: get_raw_sig_for_tx_input_def get_sig_hash_msg_def)
  moreover obtain m' where m': "key_sigs S M tx d v sks (m(pk_of S sk \<mapsto> (sign_ecdsa S h sk, SIGHASH_ALL))) = Inr m'"
    "\<forall>k. m' k \<noteq> None \<longleftrightarrow> (m(pk_of S sk \<mapsto> (sign_ecdsa S h sk, SIGHASH_ALL))) k \<noteq> None \<or> k \<in> pk_of S ` set sks"
    using Cons.IH by blast
  ultimately show ?case by (intro exI[of _ m'] conjI) (simp, force)
qed simp

section \<open>Punishment\<close>

text \<open>The fee of a punishment transaction: the input and an output to a script of this length.\<close>

definition punish_fee :: "btc \<Rightarrow> nat \<Rightarrow> script \<Rightarrow> nat \<Rightarrow> nat" where
  "punish_fee B weight dest rate = (weight + 32 + var_int_size B (length dest) + length dest * 4 + 3) div 4 * rate"

text \<open>
  A transaction that spends the first output of another by its descriptor: the input is the one the library makes of the unsigned
  one with the signatures of three secret keys, on the hash for the script code of the descriptor and the value of the output.
\<close>

definition punishes_with :: "btc \<Rightarrow> secp \<Rightarrow> mslib \<Rightarrow> Desc \<Rightarrow> Transaction \<Rightarrow> TxOut \<Rightarrow> bytes \<Rightarrow> bytes \<Rightarrow> bytes \<Rightarrow> Transaction \<Rightarrow> bool" where
  "punishes_with B S M d prev_tx prev_out own pub rvk tx \<longleftrightarrow>
     (let unsigned = \<lparr>previous_output = \<lparr>txid = compute_txid B prev_tx, vout = 0\<rparr>, script_sig = [], sequence = 0, witness = []\<rparr> in
      \<exists>c h i0. desc_script_code M d = Inr c \<and> p2wsh_sighash S (tx\<lparr>tx_input := [unsigned]\<rparr>) 0 c (txo_value prev_out) = Inr h \<and>
        satisfy_hash M d unsigned
          [pubkey_hash M (pk_of S own) \<mapsto> (pk_of S own, sign_ecdsa S h own, SIGHASH_ALL),
           pubkey_hash M (pk_of S pub) \<mapsto> (pk_of S pub, sign_ecdsa S h pub, SIGHASH_ALL),
           pubkey_hash M (pk_of S rvk) \<mapsto> (pk_of S rvk, sign_ecdsa S h rvk, SIGHASH_ALL)] = Inr i0 \<and>
        tx_input tx = [i0])"

text \<open>With the three secret keys the punishment of a revoked buffer transaction succeeds exactly when
  they are keys of a branch of the policy; it spends the buffer output and pays its value less the fee
  to the given address. With other keys it is an \<open>InvalidArgument\<close>, never an unsigned transaction.\<close>

theorem punish_buffer_correct:
  fixes own pub rvk :: bytes
  assumes "ms_laws M" "sighash_laws S" "inj (pubkey_hash M)" "parses M (buffer_expression offer accept)"
    and out: "tx_output prev_tx = prev_out # rest" "punish_fee B 758 dest rate \<le> txo_value prev_out"
    and bounds: "793 + var_int_size B (length dest) + length dest * 4 < 2 ^ 53" "txo_value prev_out < u64_bound"
  defines "keys \<equiv> {pk_of S own, pk_of S pub, pk_of S rvk}"
  shows "if own_pk offer \<in> keys \<and> own_pk accept \<in> keys \<or>
        own_pk offer \<in> keys \<and> publish_pk accept \<in> keys \<and> revoke_pk accept \<in> keys \<or>
        own_pk accept \<in> keys \<and> publish_pk offer \<in> keys \<and> revoke_pk offer \<in> keys
      then \<exists>tx. create_and_sign_punish_buffer_transaction B S M offer accept own pub rvk prev_tx dest lt rate = pok tx \<and>
        map previous_output (tx_input tx) = [\<lparr>txid = compute_txid B prev_tx, vout = 0\<rparr>] \<and> lock_time tx = lt \<and>
        punishes_with B S M (buffer_expression offer accept) prev_tx prev_out own pub rvk tx \<and>
        tx_output tx = [\<lparr>txo_value = txo_value prev_out - punish_fee B 758 dest rate, script_pubkey = dest\<rparr>]
      else create_and_sign_punish_buffer_transaction B S M offer accept own pub rvk prev_tx dest lt rate = perr InvalidArgument"
proof -
  let ?d = "buffer_expression offer accept"
  let ?in = "\<lparr>previous_output = \<lparr>txid = compute_txid B prev_tx, vout = 0\<rparr>, script_sig = [], sequence = 0, witness = []\<rparr>"
  let ?fee = "punish_fee B 758 dest rate"
  let ?tx = "\<lparr>version = TX_VERSION, lock_time = lt, tx_input = [?in],
    tx_output = [\<lparr>txo_value = txo_value prev_out - ?fee, script_pubkey = dest\<rparr>]\<rparr>"
  have fee: "weight_to_fee (PUNISH_BUFFER_INPUT_WEIGHT + (N_VALUE_WEIGHT + var_int_size B (length dest) + length dest * 4)) rate = Inr ?fee"
    using bounds out(2) by (subst weight_to_fee_exact) (auto simp: weight_defs punish_fee_def add.commute add.left_commute)
  obtain c where c: "desc_script_code M ?d = Inr c" using assms(1,4) unfolding ms_laws_def by blast
  obtain h where h: "p2wsh_sighash S ?tx 0 c (txo_value prev_out) = Inr h"
    using assms(2) unfolding sighash_laws_def by (metis Transaction.select_convs(3) length_Cons zero_less_Suc)
  let ?entry = "\<lambda>sk. (pk_of S sk, sign_ecdsa S h sk, SIGHASH_ALL)"
  define m where "m = [pubkey_hash M (pk_of S own) \<mapsto> ?entry own, pubkey_hash M (pk_of S pub) \<mapsto> ?entry pub, pubkey_hash M (pk_of S rvk) \<mapsto> ?entry rvk]"
  have m: "hash_sigs S M ?tx ?d (txo_value prev_out) [own, pub, rvk] Map.empty = Inr m"
    using c h by (simp add: m_def get_raw_sig_for_tx_input_def get_sig_hash_msg_def)
  have m2: "m h' \<noteq> None \<longleftrightarrow> h' \<in> (\<lambda>sk. pubkey_hash M (pk_of S sk)) ` set [own, pub, rvk]" for h'
    by (auto simp: m_def)
  have "m (pubkey_hash M k) \<noteq> None \<longleftrightarrow> k \<in> keys" for k
    using m2[of "pubkey_hash M k"] assms(3) by (auto simp: keys_def dest: injD)
  then have "(\<lambda>k. m (pubkey_hash M k) \<noteq> None) = (\<lambda>k. k \<in> keys)" by (simp add: fun_eq_iff del: not_None_eq)
  then have sat: "satisfiable (\<lambda>k. k \<in> keys) (\<lambda>n. False) ?d \<longleftrightarrow> (\<exists>t. satisfy_hash M ?d ?in m = Inr t)"
    using satisfy_hash_iff[OF assms(1,4), of m ?in] by simp
  have run: "create_and_sign_punish_buffer_transaction B S M offer accept own pub rvk prev_tx dest lt rate =
      pbind (Some (invalid_arg (satisfy_hash M ?d ?in m))) (\<lambda>i0. pok (set_input ?tx 0 i0))"
    using assms(4) out fee m
    by (simp add: create_and_sign_punish_buffer_transaction_def buffer_descriptor_def parse_def compute_var_int_prefix_size_def Let_def
        del: hash_sigs.simps)
  have keep: "satisfy_hash M ?d ?in m = Inr t \<Longrightarrow> previous_output t = \<lparr>txid = compute_txid B prev_tx, vout = 0\<rparr>" for t
    using satisfy_keeps_outpoint(2)[OF assms(1), of ?d ?in m t] by simp
  show ?thesis
  proof (cases "satisfy_hash M ?d ?in m")
    case (Inl e)
    then have "\<not> satisfiable (\<lambda>k. k \<in> keys) (\<lambda>n. False) ?d" using sat by simp
    then show ?thesis using Inl unfolding run buffer_policy by (simp only: invalid_arg_Inr pbind_simps if_False)
  next
    case (Inr t)
    then have "satisfiable (\<lambda>k. k \<in> keys) (\<lambda>n. False) ?d" using sat by simp
    then show ?thesis using Inr keep[OF Inr] unfolding run buffer_policy
      by (simp only: invalid_arg_Inr pbind_simps if_True) (simp add: set_input_def punishes_with_def c h flip: m_def)
  qed
qed

text \<open>The punishment of a revoked settle transaction spends the output of the counterparty, 1 for the
  offerer and 0 for the accepter. It succeeds exactly when the keys are the own key and the publication and
  revocation keys of the counterparty, and then pays the value less the fee to the given address.\<close>

theorem punish_settle_correct:
  fixes S :: secp and own pub rvk :: bytes and offer accept :: RevokeParams and is_offer :: bool
  defines "keys \<equiv> {pk_of S own, pk_of S pub, pk_of S rvk}"
    and "me \<equiv> if is_offer then offer else accept" and "other \<equiv> if is_offer then accept else offer"
    and "idx \<equiv> if is_offer then 1 else 0"
  assumes "ms_laws M" "sighash_laws S" "parses M (settle_expression other (own_pk me) csv)"
    and out: "idx < length (tx_output prev_tx)" "punish_fee B 575 dest rate \<le> txo_value (tx_output prev_tx ! idx)"
    and bounds: "610 + var_int_size B (length dest) + length dest * 4 < 2 ^ 53" "txo_value (tx_output prev_tx ! idx) < u64_bound"
  shows "if own_pk me \<in> keys \<and> publish_pk other \<in> keys \<and> revoke_pk other \<in> keys
      then \<exists>tx. create_and_sign_punish_settle_transaction B S M offer accept own pub rvk prev_tx dest csv lt rate is_offer = pok tx \<and>
        map previous_output (tx_input tx) = [\<lparr>txid = compute_txid B prev_tx, vout = idx\<rparr>] \<and> lock_time tx = lt \<and>
        tx_output tx = [\<lparr>txo_value = txo_value (tx_output prev_tx ! idx) - punish_fee B 575 dest rate, script_pubkey = dest\<rparr>]
      else create_and_sign_punish_settle_transaction B S M offer accept own pub rvk prev_tx dest csv lt rate is_offer = perr InvalidArgument"
proof -
  let ?d = "settle_expression other (own_pk me) csv"
  let ?in = "\<lparr>previous_output = \<lparr>txid = compute_txid B prev_tx, vout = idx\<rparr>, script_sig = [], sequence = 0, witness = []\<rparr>"
  let ?fee = "punish_fee B 575 dest rate" and ?val = "txo_value (tx_output prev_tx ! idx)"
  let ?tx = "\<lparr>version = TX_VERSION, lock_time = lt, tx_input = [?in],
    tx_output = [\<lparr>txo_value = ?val - ?fee, script_pubkey = dest\<rparr>]\<rparr>"
  have fee: "weight_to_fee (PUNISH_SETTLE_INPUT_WEIGHT + (N_VALUE_WEIGHT + var_int_size B (length dest) + length dest * 4)) rate = Inr ?fee"
    using bounds out(2) by (subst weight_to_fee_exact) (auto simp: weight_defs punish_fee_def add.commute add.left_commute)
  obtain c where c: "desc_script_code M ?d = Inr c" using assms(5,7) unfolding ms_laws_def by blast
  obtain m where m: "key_sigs S M ?tx ?d ?val [own, pub, rvk] Map.empty = Inr m"
    "\<And>k. m k \<noteq> None \<longleftrightarrow> k \<in> pk_of S ` set [own, pub, rvk]"
    using key_sigs_ok[OF c assms(6), of ?tx ?val "[own, pub, rvk]" Map.empty] by auto
  have "(\<lambda>k. m k \<noteq> None) = (\<lambda>k. k \<in> keys)" using m(2) by (simp add: fun_eq_iff keys_def del: not_None_eq)
  then have sat: "satisfiable (\<lambda>k. k \<in> keys) (\<lambda>n. False) ?d \<longleftrightarrow> (\<exists>t. satisfy M ?d ?in m = Inr t)"
    using satisfy_iff[OF assms(5,7), of m ?in] by simp
  have run: "create_and_sign_punish_settle_transaction B S M offer accept own pub rvk prev_tx dest csv lt rate is_offer =
      pbind (Some (invalid_arg (satisfy M ?d ?in m))) (\<lambda>i0. pok (set_input ?tx 0 i0))"
    using assms(7) out fee m(1) unfolding me_def other_def idx_def
    by (cases is_offer) (simp_all add: create_and_sign_punish_settle_transaction_def settle_descriptor_def parse_def
        compute_var_int_prefix_size_def Let_def del: key_sigs.simps)
  have keep: "satisfy M ?d ?in m = Inr t \<Longrightarrow> previous_output t = \<lparr>txid = compute_txid B prev_tx, vout = idx\<rparr>" for t
    using satisfy_keeps_outpoint(1)[OF assms(5), of ?d ?in m t] by simp
  show ?thesis
  proof (cases "satisfy M ?d ?in m")
    case (Inl e)
    then have "\<not> satisfiable (\<lambda>k. k \<in> keys) (\<lambda>n. False) ?d" using sat by simp
    then show ?thesis using Inl unfolding run settle_policy by simp
  next
    case (Inr t)
    then have "satisfiable (\<lambda>k. k \<in> keys) (\<lambda>n. False) ?d" using sat by simp
    then show ?thesis using Inr keep[OF Inr] unfolding run settle_policy by (simp add: set_input_def)
  qed
qed

section \<open>Settling\<close>

text \<open>The outputs of a settle transaction before the rest is shared: the payouts that are not dust.\<close>

definition settle_outputs :: "mslib \<Rightarrow> RevokeParams \<Rightarrow> RevokeParams \<Rightarrow> amount \<Rightarrow> amount \<Rightarrow> nat \<Rightarrow> TxOut list" where
  "settle_outputs M offer accept o_pay a_pay csv =
     filter (\<lambda>x. 1000 \<le> txo_value x)
       [\<lparr>txo_value = o_pay, script_pubkey = desc_script_pubkey M (settle_expression offer (own_pk accept) csv)\<rparr>,
        \<lparr>txo_value = a_pay, script_pubkey = desc_script_pubkey M (settle_expression accept (own_pk offer) csv)\<rparr>]"

definition settle_fee :: "nat \<Rightarrow> nat \<Rightarrow> nat" where
  "settle_fee n rate = (428 + n * 172 + 3) div 4 * rate"

lemma settle_transaction_outputs:
  assumes "create_settle_transaction M inp offer accept o_pay a_pay csv lt value rate = pok tx"
  defines "outs \<equiv> settle_outputs M offer accept o_pay a_pay csv"
  defines "fee \<equiv> settle_fee (length outs) rate"
  shows "outs \<noteq> []" "o_pay + a_pay + fee \<le> value"
    "tx_output tx = map (\<lambda>out. out\<lparr>txo_value := txo_value out + (value - o_pay - a_pay - fee) div length outs\<rparr>) outs"
    "tx_input tx = [inp]" "lock_time tx = lt"
proof -
  have len: "length outs \<le> 2" unfolding outs_def settle_outputs_def by simp
  have w: "weight_to_fee (SETTLE_INPUT_WEIGHT + length outs * SETTLE_OUTPUT_WEIGHT) rate =
      ok_or InvalidArgument (u64_mul ((428 + length outs * 172 + 3) div 4) rate)"
    using len by (subst weight_to_fee_exact) (simp_all add: weight_defs)
  have d: "discard_dust [\<lparr>txo_value = o_pay, script_pubkey = desc_script_pubkey M (settle_expression offer (own_pk accept) csv)\<rparr>,
        \<lparr>txo_value = a_pay, script_pubkey = desc_script_pubkey M (settle_expression accept (own_pk offer) csv)\<rparr>] DUST_LIMIT = outs"
    by (simp add: outs_def settle_outputs_def discard_dust_def DUST_LIMIT_def)
  have p: "parses M (settle_expression offer (own_pk accept) csv)" "parses M (settle_expression accept (own_pk offer) csv)"
    using assms(1) by (auto simp: create_settle_transaction_def settle_descriptor_def parse_def split: if_splits)
  note run = assms(1)[unfolded create_settle_transaction_def settle_descriptor_def parse_def Let_def if_P[OF p(1)] if_P[OF p(2)]
      bind.bind_lunit d w]
  obtain res where r: "omap (\<lambda>out. map_option (\<lambda>v. out\<lparr>txo_value := v\<rparr>)
       (u64_add (txo_value out) ((value - o_pay - a_pay - fee) div length outs))) outs = Some res"
    "tx = \<lparr>version = TX_VERSION, lock_time = lt, tx_input = [inp], tx_output = res\<rparr>"
    "outs \<noteq> []" "o_pay \<le> value" "a_pay \<le> value - o_pay" "fee \<le> value - o_pay - a_pay"
    using run unfolding fee_def settle_fee_def
    by (simp only: bind_eq_Some_conv pbind_pok ok_or_Inr u64_sub_Some u64_mul_Some Option.option.inject length_0_conv split: if_splits) auto
  have "res = map (\<lambda>out. out\<lparr>txo_value := txo_value out + (value - o_pay - a_pay - fee) div length outs\<rparr>) outs"
    using r(1) unfolding omap_Some_iff by (intro nth_equalityI) (auto simp: list_all2_conv_all_nth)
  then show "outs \<noteq> []" "o_pay + a_pay + fee \<le> value"
    "tx_output tx = map (\<lambda>out. out\<lparr>txo_value := txo_value out + (value - o_pay - a_pay - fee) div length outs\<rparr>) outs"
    "tx_input tx = [inp]" "lock_time tx = lt" using r by simp_all
qed

text \<open>A settle transaction that is built has at least one payout that is not dust, pays these payouts, and
  gives each an equal part of what the fund output leaves after both payouts and the fee: the outputs, the fee, the
  dust and a remainder below the number of outputs are the value of the fund output.\<close>

theorem settle_transaction_value:
  assumes "create_settle_transaction M inp offer accept o_pay a_pay csv lt value rate = pok tx"
  shows "\<exists>n share rest dust. n = length (settle_outputs M offer accept o_pay a_pay csv) \<and> 1 \<le> n \<and> n \<le> 2 \<and> rest < n \<and> dust \<le> 999 \<and>
    tx_output tx = map (\<lambda>out. out\<lparr>txo_value := txo_value out + share\<rparr>) (settle_outputs M offer accept o_pay a_pay csv) \<and>
    outputs_value tx + settle_fee n rate + dust + rest = value"
proof -
  let ?outs = "settle_outputs M offer accept o_pay a_pay csv"
  let ?n = "length ?outs"
  let ?x = "value - o_pay - a_pay - settle_fee ?n rate"
  define dust where "dust = (if 1000 \<le> o_pay then 0 else o_pay) + (if 1000 \<le> a_pay then 0 else a_pay)"
  note t = settle_transaction_outputs[OF assms]
  have n: "1 \<le> ?n" "?n \<le> 2" using t(1) by (simp add: Suc_leI, simp add: settle_outputs_def)
  have "sum_list (map txo_value (map (\<lambda>out. out\<lparr>txo_value := txo_value out + k\<rparr>) outs)) =
      sum_list (map txo_value outs) + length outs * k" for k outs by (induction outs) auto
  then have "outputs_value tx = sum_list (map txo_value ?outs) + ?n * (?x div ?n)"
    unfolding outputs_value_def t(3) by blast
  moreover have "sum_list (map txo_value ?outs) + dust = o_pay + a_pay" by (simp add: settle_outputs_def dust_def)
  moreover have "dust \<le> 999" using t(1) by (auto simp: settle_outputs_def dust_def split: if_splits)
  moreover have "?n * (?x div ?n) + ?x mod ?n = ?x" by simp
  moreover have "?x + settle_fee ?n rate + o_pay + a_pay = value" using t(2) by linarith
  moreover have "?x mod ?n < ?n" using n(1) by (intro mod_less_divisor) linarith
  ultimately show ?thesis using n t(3)
    by (intro exI[of _ ?n] exI[of _ "?x div ?n"] exI[of _ "?x mod ?n"] exI[of _ dust] conjI) (assumption | linarith | rule refl)+
qed

text \<open>When the payout of the offerer is dust, the settle transaction does not have the output 1 that the offerer
  would punish: building the punishment of a revoked settle transaction panics.\<close>

theorem dust_settle_cannot_be_punished:
  "o_pay < 1000 \<Longrightarrow> create_settle_transaction M inp offer accept o_pay a_pay csv lt value rate = pok tx \<Longrightarrow>
    create_and_sign_punish_settle_transaction B S M offer accept own pub rvk tx dest csv lt2 rate2 True = None"
proof -
  assume dust: "o_pay < 1000" and run: "create_settle_transaction M inp offer accept o_pay a_pay csv lt value rate = pok tx"
  have "length (tx_output tx) \<le> 1" unfolding settle_transaction_outputs(3)[OF run] using dust by (simp add: settle_outputs_def)
  then have v: "vget (tx_output tx) 1 = None" by simp
  show ?thesis
    by (cases "settle_descriptor M accept (own_pk offer) csv")
       (simp_all add: create_and_sign_punish_settle_transaction_def Let_def v del: One_nat_def key_sigs.simps)
qed

section \<open>The transactions of a channel\<close>

text \<open>A channel is never created, for the fund transaction never is.\<close>

lemma create_channel_transactions_never_ok:
  "create_channel_transactions B M offer accept offer_rev accept_rev payouts refund_lt rate fund_lt cet_lt sid sq \<noteq> pok txs"
  using fund_transaction_not_ok by (auto simp: create_channel_transactions_def)

definition extra_fee :: "nat \<Rightarrow> nat" where "extra_fee rate = 233 * rate"

text \<open>The transactions of a renewed channel are a chain: the buffer transaction spends the output of the fund
  transaction with the P2WSH script of the funding script, is worth this output less the fee of 929 weight
  units, and pays to the revocable descriptor; the execution transactions, one per payout, and the
  refund transaction spend the buffer output. If the fund output has the total collateral
  and that fee, no execution transaction spends more than the buffer output is worth.\<close>

theorem renewal_transactions_chain:
  assumes "create_renewal_channel_transactions B M offer accept offer_rev accept_rev fund_tx spk payouts refund_lt rate cet_lt sq = pok txs"
  defines "buffer \<equiv> buffer_transaction txs" and "dlc \<equiv> dlc_transactions txs"
  shows "\<exists>i code. i < length (tx_output fund_tx) \<and> script_pubkey (tx_output fund_tx ! i) = to_p2wsh B spk \<and>
    map previous_output (tx_input buffer) = [\<lparr>txid = compute_txid B fund_tx, vout = i mod u32_bound\<rparr>] \<and>
    tx_output buffer = [\<lparr>txo_value = txo_value (tx_output fund_tx ! i) - extra_fee rate,
       script_pubkey = desc_script_pubkey M (buffer_expression offer_rev accept_rev)\<rparr>] \<and>
    extra_fee rate \<le> txo_value (tx_output fund_tx ! i) \<and>
    desc_script_code M (buffer_expression offer_rev accept_rev) = Inr code \<and> buffer_script_pubkey txs = code \<and>
    length (cets dlc) = length payouts \<and>
    (\<forall>tx \<in> set (refund dlc # cets dlc). map previous_output (tx_input tx) = [\<lparr>txid = compute_txid B buffer, vout = 0\<rparr>] \<and>
       (collateral offer + collateral accept + extra_fee rate \<le> txo_value (tx_output fund_tx ! i) \<longrightarrow>
          outputs_value tx \<le> outputs_value buffer))"
proof -
  let ?d = "buffer_expression offer_rev accept_rev"
  obtain fee i out v where o: "weight_to_fee (BUFFER_TX_WEIGHT + CET_EXTRA_WEIGHT) rate = Inr fee"
    "get_output_for_script_pubkey fund_tx (to_p2wsh B spk) = Some (i, out)" "parses M ?d"
    "u64_sub (txo_value out) fee = Some v"
    using assms(1) by (auto simp: create_renewal_channel_transactions_def buffer_descriptor_def parse_def bind_eq_Some_conv
        split: if_splits)
  let ?buf = "create_buffer_transaction M \<lparr>previous_output = \<lparr>txid = compute_txid B fund_tx, vout = i mod u32_bound\<rparr>, script_sig = [],
           sequence = get_sequence cet_lt, witness = []\<rparr> ?d v cet_lt"
  obtain cs rf code where c: "create_cets_and_refund_tx offer accept \<lparr>txid = compute_txid B ?buf, vout = 0\<rparr> payouts
        refund_lt cet_lt (Some sq) = Inr (cs, rf)" "desc_script_code M ?d = Inr code"
    and txs: "txs = \<lparr>dlc_transactions = \<lparr>fund = fund_tx, cets = cs, refund = rf, funding_script_pubkey = spk\<rparr>,
          buffer_transaction = ?buf, buffer_script_pubkey = code\<rparr>"
    using assms(1) o by (auto simp: create_renewal_channel_transactions_def buffer_descriptor_def parse_def Let_def)
  have out: "i < length (tx_output fund_tx)" "out = tx_output fund_tx ! i" "script_pubkey out = to_p2wsh B spk"
    using o(2) find_first_index_Some[of "\<lambda>x. script_pubkey x = to_p2wsh B spk" "tx_output fund_tx"]
    by (auto simp: get_output_for_script_pubkey_def)
  have fee: "fee = extra_fee rate" using o(1) by (subst (asm) weight_to_fee_exact) (auto simp: weight_defs extra_fee_def)
  have val: "outputs_value ?buf = txo_value out - extra_fee rate" "extra_fee rate \<le> txo_value out" "v = txo_value out - extra_fee rate"
    using o(4) by (simp_all add: create_buffer_transaction_def outputs_value_def fee)
  note spec = cets_and_refund_ok[OF c(1)]
  have tx: "map previous_output (tx_input tx) = [\<lparr>txid = compute_txid B ?buf, vout = 0\<rparr>] \<and>
      outputs_value tx \<le> collateral offer + collateral accept" if "tx \<in> set (rf # cs)" for tx
    using that spec by (auto simp: in_set_conv_nth)
  have "outputs_value tx \<le> outputs_value ?buf"
    if "tx \<in> set (rf # cs)" "collateral offer + collateral accept + extra_fee rate \<le> txo_value out" for tx
    using tx[OF that(1)] that(2) val(1) by linarith
  then show ?thesis
    using out val c(2) tx spec(3) unfolding buffer_def dlc_def txs
    by (intro exI[of _ i] exI[of _ code]) (simp add: create_buffer_transaction_def)
qed

section \<open>Signing an execution transaction of a channel\<close>

text \<open>C37: In a channel too the attestations of the oracles close the contract: when the counterparty's adaptor signature
  verifies for the script and the value of the buffer output, the attestations give a signature that is valid
  for the counterparty's key, and with the own one it satisfies the descriptor of the buffer output.\<close>

theorem attestations_close_the_channel:
  assumes laws: "key_laws S val n" "adaptor_laws S" "ms_laws M"
    and d: "parses M (buffer_expression offer accept)" "desc_script_code M (buffer_expression offer accept) = Inr code"
    and keys: "{pk_of S own_sk, other_pk} = {own_pk offer, own_pk accept}"
    and verified: "verify_cet_adaptor_sig_from_oracle_info S other_pk code v adaptor_sig cet infos msgs = pok ()"
    and attested: "length infos = length sigs"
      "\<forall>i < length infos. i < length msgs \<longrightarrow> oracle_attests S (infos ! i) (msgs ! i) (sigs ! i)"
    and secret: "signatures_to_secret S sigs = pok x" and input: "tx_input cet \<noteq> []"
  shows "\<exists>h sig i0. get_sig_hash_msg S cet 0 code v = Inr h \<and> verify_ecdsa S h sig other_pk = Inr () \<and>
    satisfy M (buffer_expression offer accept) (tx_input cet ! 0)
      [pk_of S own_sk \<mapsto> (sign_ecdsa S h own_sk, SIGHASH_ALL), other_pk \<mapsto> (sig, SIGHASH_ALL)] = Inr i0 \<and>
    channel_sign_cet S M cet v offer accept own_sk other_pk adaptor_sig sigs = pok (set_input cet 0 i0) \<and>
    previous_output i0 = previous_output (tx_input cet ! 0)"
proof -
  let ?d = "buffer_expression offer accept"
  obtain h sig where h: "get_sig_hash_msg S cet 0 code v = Inr h" "adaptor_decrypt S adaptor_sig x = Inr sig"
    "verify_ecdsa S h sig other_pk = Inr ()"
    using attestations_decrypt[OF laws(1,2) verified attested secret] by blast
  let ?m = "[pk_of S own_sk \<mapsto> (sign_ecdsa S h own_sk, SIGHASH_ALL), other_pk \<mapsto> (sig, SIGHASH_ALL)]"
  have "?m (own_pk offer) \<noteq> None" "?m (own_pk accept) \<noteq> None" using keys by (auto simp: doubleton_eq_iff)
  then have "satisfiable (\<lambda>k. ?m k \<noteq> None) (\<lambda>n. False) ?d" unfolding buffer_policy by blast
  then obtain i0 where i0: "satisfy M ?d (tx_input cet ! 0) ?m = Inr i0" using satisfy_iff[OF laws(3) d(1)] by blast
  then have "channel_sign_cet S M cet v offer accept own_sk other_pk adaptor_sig sigs = pok (set_input cet 0 i0)"
    using h d secret input by (simp add: channel_sign_cet_def buffer_descriptor_def parse_def get_raw_sig_for_tx_input_def)
  then show ?thesis using h i0 satisfy_keeps_outpoint(1)[OF laws(3) i0] by blast
qed

section \<open>Instances\<close>

definition toy_ms :: mslib where
  "toy_ms = \<lparr>parses = (\<lambda>d. True), desc_script_pubkey = (\<lambda>d. [0, 32]), desc_script_code = (\<lambda>d. Inr [2]), pubkey_hash = (\<lambda>k. k),
     satisfy = (\<lambda>d t m. if satisfiable (\<lambda>k. m k \<noteq> None) (\<lambda>n. False) d then Inr (t\<lparr>witness := [[1]]\<rparr>) else Inl ''unsatisfied''),
     satisfy_hash = (\<lambda>d t m. if satisfiable (\<lambda>k. m k \<noteq> None) (\<lambda>n. False) d then Inr (t\<lparr>witness := [[1]]\<rparr>) else Inl ''unsatisfied'')\<rparr>"

lemma toy_ms_laws: "ms_laws toy_ms"
  by (simp add: ms_laws_def toy_ms_def)

lemma toy_sighash_laws: "sighash_laws toy_secp"
  by (simp add: sighash_laws_def toy_simps)

definition toy_revoke :: "nat \<Rightarrow> RevokeParams" where
  "toy_revoke i = \<lparr>own_pk = toy_key i, publish_pk = toy_key (i + 1), revoke_pk = toy_key (i + 2)\<rparr>"

lemma toy_key_eq [simp]: "toy_key a = toy_key b \<longleftrightarrow> a = b"
  by (simp add: toy_key_def)

theorem punish_buffer_correct_witness:
  "\<exists>tx. create_and_sign_punish_buffer_transaction toy_btc toy_secp toy_ms (toy_revoke 1) (toy_revoke 4) [1] [5] [6]
      (toy_tx [100000]) (replicate 22 0) 0 2 = pok tx \<and> map txo_value (tx_output tx) = [99560]"
proof -
  have fee: "punish_fee toy_btc 758 (replicate 22 0) 2 = 440" by (simp add: punish_fee_def toy_btc_def)
  have v: "var_int_size toy_btc 22 = 1" by (simp add: toy_btc_def)
  have k: "pk_of toy_secp [k] = toy_key (k mod 7)" for k by (simp add: toy_simps toy_val_def)
  have "inj (pubkey_hash toy_ms)" by (simp add: toy_ms_def inj_def)
  from punish_buffer_correct[OF toy_ms_laws toy_sighash_laws this, of "toy_revoke 1" "toy_revoke 4" "toy_tx [100000]"
    "\<lparr>txo_value = 100000, script_pubkey = [0, 32]\<rparr>" "[]" toy_btc "replicate 22 0" 2 "[1]" "[5]" "[6]" 0]
  show ?thesis by (auto simp: fee v k toy_ms_def toy_tx_def toy_revoke_def)
qed

theorem punish_settle_correct_witness:
  "\<exists>tx. create_and_sign_punish_settle_transaction toy_btc toy_secp toy_ms (toy_revoke 1) (toy_revoke 4) [1] [5] [6]
      (toy_tx [5000, 100000]) (replicate 22 0) 144 0 2 True = pok tx \<and> map txo_value (tx_output tx) = [99652]"
proof -
  have fee: "punish_fee toy_btc 575 (replicate 22 0) 2 = 348" by (simp add: punish_fee_def toy_btc_def)
  have v: "var_int_size toy_btc 22 = 1" by (simp add: toy_btc_def)
  have k: "pk_of toy_secp [k] = toy_key (k mod 7)" for k by (simp add: toy_simps toy_val_def)
  from punish_settle_correct[OF toy_ms_laws toy_sighash_laws, of True "toy_revoke 4" "toy_revoke 1" 144 "toy_tx [5000, 100000]" toy_btc
    "replicate 22 0" 2 "[1]" "[5]" "[6]" 0]
  show ?thesis by (auto simp: fee v k toy_ms_def toy_tx_def toy_revoke_def)
qed

lemma toy_settle:
  "\<exists>tx. create_settle_transaction toy_ms (hd (tx_input (toy_tx []))) (toy_revoke 1) (toy_revoke 4) 900 60000 144 0 70000 2 = pok tx"
proof -
  have w: "weight_to_fee (SETTLE_INPUT_WEIGHT + SETTLE_OUTPUT_WEIGHT) 2 = Inr 300" by (subst weight_to_fee_exact) (simp_all add: weight_defs)
  then show ?thesis
    by (simp add: create_settle_transaction_def settle_descriptor_def parse_def toy_ms_def discard_dust_def DUST_LIMIT_def Let_def)
qed

theorem settle_transaction_value_witness:
  "\<exists>tx dust. create_settle_transaction toy_ms (hd (tx_input (toy_tx []))) (toy_revoke 1) (toy_revoke 4) 900 60000 144 0 70000 2 = pok tx \<and>
    outputs_value tx + 300 + dust = 70000 \<and> dust \<le> 999"
proof -
  obtain tx where run: "create_settle_transaction toy_ms (hd (tx_input (toy_tx []))) (toy_revoke 1) (toy_revoke 4) 900 60000 144 0 70000 2 = pok tx"
    using toy_settle by blast
  have "length (settle_outputs toy_ms (toy_revoke 1) (toy_revoke 4) 900 60000 144) = 1" by (simp add: settle_outputs_def)
  with settle_transaction_value[OF run] run show ?thesis by (auto simp: settle_fee_def)
qed

theorem dust_settle_cannot_be_punished_witness:
  "\<exists>tx. create_settle_transaction toy_ms (hd (tx_input (toy_tx []))) (toy_revoke 1) (toy_revoke 4) 900 60000 144 0 70000 2 = pok tx \<and>
    create_and_sign_punish_settle_transaction toy_btc toy_secp toy_ms (toy_revoke 1) (toy_revoke 4) [1] [5] [6] tx [] 144 0 2 True = None"
proof -
  obtain tx where run: "create_settle_transaction toy_ms (hd (tx_input (toy_tx []))) (toy_revoke 1) (toy_revoke 4) 900 60000 144 0 70000 2 = pok tx"
    using toy_settle by blast
  from dust_settle_cannot_be_punished[OF _ run] run show ?thesis by auto
qed

theorem renewal_transactions_chain_witness:
  "\<exists>txs. create_renewal_channel_transactions toy_btc toy_ms (sample_party 0 60000) (sample_party 0 40000) (toy_revoke 1) (toy_revoke 4)
      (toy_tx [110000]) [32] [\<lparr>offer_payout = 99500, accept_payout = 500\<rparr>] 9 2 8 5 = pok txs \<and>
    map txo_value (tx_output (buffer_transaction txs)) = [109534] \<and> length (cets (dlc_transactions txs)) = 1"
proof -
  have f: "weight_to_fee (BUFFER_TX_WEIGHT + CET_EXTRA_WEIGHT) 2 = Inr 466" by (subst weight_to_fee_exact) (simp_all add: weight_defs)
  have c: "collateral (sample_party 0 k) = k" for k by (simp add: sample_party_def)
  obtain txs where run: "create_renewal_channel_transactions toy_btc toy_ms (sample_party 0 60000) (sample_party 0 40000) (toy_revoke 1) (toy_revoke 4)
      (toy_tx [110000]) [32] [\<lparr>offer_payout = 99500, accept_payout = 500\<rparr>] 9 2 8 5 = pok txs"
    by (simp add: create_renewal_channel_transactions_def f get_output_for_script_pubkey_def toy_tx_def toy_btc_def toy_ms_def
        buffer_descriptor_def parse_def create_cets_and_refund_tx_def proper_payout_def u64_add_def c Let_def)
  from renewal_transactions_chain[OF run] run show ?thesis
    by (auto simp: create_renewal_channel_transactions_def f get_output_for_script_pubkey_def toy_tx_def toy_btc_def
      create_buffer_transaction_def extra_fee_def split: if_splits)
qed

theorem attestations_close_the_channel_witness:
  "\<exists>i0. channel_sign_cet toy_secp toy_ms (toy_tx []) 100 (toy_revoke 1) (toy_revoke 4\<lparr>own_pk := [5]\<rparr>) [1] [5] [] toy_sigs =
     pok (set_input (toy_tx []) 0 i0) \<and> previous_output i0 = \<lparr>txid = [], vout = 0\<rparr>"
proof -
  have p: "parses toy_ms d" "desc_script_code toy_ms d = Inr [2]" for d by (simp_all add: toy_ms_def)
  have k: "{pk_of toy_secp [1], [5]} = {own_pk (toy_revoke 1), own_pk (toy_revoke 4\<lparr>own_pk := [5]\<rparr>)}"
    by (simp add: toy_simps toy_val_def toy_revoke_def)
  have "tx_input (toy_tx []) \<noteq> []" by (simp add: toy_tx_def)
  from attestations_close_the_channel[OF toy_key_laws toy_adaptor_laws toy_ms_laws p k toy_verified toy_attested toy_secret this]
  show ?thesis by (auto simp: toy_tx_def)
qed

end
