(* ===== verification/OracleMsgs.thy ===== *)
theory OracleMsgs
  imports DlcChannel
begin

text \<open>
  \<open>dlc-messages/src/oracle_msgs.rs\<close>: the events that oracles announce, their announcements and attestations, and the
  checks on them. The Schnorr verification of the secp256k1 library and the encoding of an event, over which the
  announcement is signed, are parameters. A panic is \<open>None\<close>.
\<close>

section \<open>Data\<close>

record DigitDecompositionEventDescriptor =
  dd_base :: nat
  is_signed :: bool
  dd_unit :: string
  dd_precision :: int
  dd_nb_digits :: nat

text \<open>An \<open>EnumEventDescriptor\<close> is its vector of outcomes.\<close>

datatype EventDescriptor = EnumEvent "string list" | DigitDecompositionEvent DigitDecompositionEventDescriptor

record OracleEvent =
  event_nonces :: "bytes list"
  event_maturity_epoch :: nat
  event_descriptor :: EventDescriptor
  event_id :: string

record OracleAnnouncement =
  announcement_signature :: bytes
  ann_public_key :: bytes
  oracle_event :: OracleEvent

record OracleAttestation =
  att_event_id :: string
  att_public_key :: bytes
  att_signatures :: "bytes list"
  att_outcomes :: "string list"

record OracleParams =
  op_max_error_exp :: nat
  op_min_fail_exp :: nat
  op_maximize_coverage :: bool

record MultiOracleInfo =
  mo_threshold :: nat
  mo_announcements :: "OracleAnnouncement list"
  mo_params :: "OracleParams option"

text \<open>A \<open>SingleOracleInfo\<close> is its announcement.\<close>

datatype MsgOracleInfo = SingleOracle OracleAnnouncement | MultiOracles MultiOracleInfo

record oracle_lib =
  verify_schnorr :: "bytes \<Rightarrow> bytes \<Rightarrow> bytes \<Rightarrow> string + unit"
  encode_event :: "OracleEvent \<Rightarrow> bytes"

text \<open>\<open>as_bytes\<close> of a string.\<close>

definition str_bytes :: "string \<Rightarrow> bytes" where
  "str_bytes s = map of_char s"

section \<open>Oracle infos\<close>

fun get_first_event_descriptor :: "MsgOracleInfo \<Rightarrow> EventDescriptor option" where
  "get_first_event_descriptor (SingleOracle a) = Some (event_descriptor (oracle_event a))"
| "get_first_event_descriptor (MultiOracles m) = map_option (\<lambda>a. event_descriptor (oracle_event a)) (vget (mo_announcements m) 0)"

fun get_closest_maturity_date :: "MsgOracleInfo \<Rightarrow> nat option" where
  "get_closest_maturity_date (SingleOracle a) = Some (event_maturity_epoch (oracle_event a))"
| "get_closest_maturity_date (MultiOracles m) =
     (case map (\<lambda>a. event_maturity_epoch (oracle_event a)) (mo_announcements m) of
        [] \<Rightarrow> None | x # xs \<Rightarrow> Some (fold min xs x))"

section \<open>Announcements\<close>

definition validate_event :: "OracleEvent \<Rightarrow> DlcError + unit" where
  "validate_event e =
     (let expected_nb_nonces = (case event_descriptor e of
            EnumEvent _ \<Rightarrow> 1
          | DigitDecompositionEvent d \<Rightarrow> if is_signed d then dd_nb_digits d + 1 else dd_nb_digits d)
      in if expected_nb_nonces = length (event_nonces e) then Inr () else Inl InvalidArgument)"

definition validate_announcement :: "btc \<Rightarrow> oracle_lib \<Rightarrow> OracleAnnouncement \<Rightarrow> DlcError + unit" where
  "validate_announcement B L a =
     rbind (secp_err (verify_schnorr L (announcement_signature a) (sha256 B (encode_event L (oracle_event a))) (ann_public_key a)))
       (\<lambda>_. validate_event (oracle_event a))"

fun rforall :: "('a \<Rightarrow> 'e + unit) \<Rightarrow> 'a list \<Rightarrow> 'e + unit" where
  "rforall f [] = Inr ()"
| "rforall f (x # xs) = rbind (f x) (\<lambda>_. rforall f xs)"

lemma rforall_Inr [simp]: "rforall f xs = Inr () \<longleftrightarrow> (\<forall>x \<in> set xs. f x = Inr ())"
  by (induction xs) auto

fun validate_oracle_info :: "btc \<Rightarrow> oracle_lib \<Rightarrow> MsgOracleInfo \<Rightarrow> DlcError + unit" where
  "validate_oracle_info B L (SingleOracle a) = validate_announcement B L a"
| "validate_oracle_info B L (MultiOracles m) = rforall (validate_announcement B L) (mo_announcements m)"

definition to_oracle_info :: "OracleAnnouncement \<Rightarrow> OracleInfo" where
  "to_oracle_info a = \<lparr>oracle_public_key = ann_public_key a, oracle_nonces = event_nonces (oracle_event a)\<rparr>"

section \<open>Attestations\<close>

definition validate_attestation :: "btc \<Rightarrow> oracle_lib \<Rightarrow> OracleAttestation \<Rightarrow> OracleAnnouncement \<Rightarrow> DlcError + unit" where
  "validate_attestation B L a announcement =
     (if length (att_outcomes a) \<noteq> length (att_signatures a) then Inl InvalidArgument
      else if att_public_key a \<noteq> ann_public_key announcement then Inl InvalidArgument
      else rbind (rforall (\<lambda>(sig, outcome).
             invalid_arg (verify_schnorr L sig (sha256 B (str_bytes outcome)) (att_public_key a))) (zip (att_signatures a) (att_outcomes a))) (\<lambda>_.
        if \<not> list_all (\<lambda>(sig, nonce). take 32 sig = nonce) (zip (att_signatures a) (event_nonces (oracle_event announcement)))
        then Inl InvalidArgument else Inr ()))"

text \<open>\<open>expect\<close> panics when the first half of a signature is not a key.\<close>

definition nonces :: "secp \<Rightarrow> OracleAttestation \<Rightarrow> bytes list option" where
  "nonces S a = omap (\<lambda>s. unwrap (xonly_from_slice S (take 32 s))) (att_signatures a)"

section \<open>What an attestation that passes the checks shows\<close>

definition signed_outcome :: "btc \<Rightarrow> oracle_lib \<Rightarrow> OracleAnnouncement \<Rightarrow> bytes \<Rightarrow> string \<Rightarrow> bool" where
  "signed_outcome B L a sig outcome \<longleftrightarrow> verify_schnorr L sig (sha256 B (str_bytes outcome)) (ann_public_key a) = Inr ()"

lemma attestation_checks:
  "validate_attestation B L att a = Inr () \<longleftrightarrow>
     att_public_key att = ann_public_key a \<and> list_all2 (signed_outcome B L a) (att_signatures att) (att_outcomes att) \<and>
     list_all (\<lambda>(sig, nonce). take 32 sig = nonce) (zip (att_signatures att) (event_nonces (oracle_event a)))"
  by (cases "length (att_outcomes att) = length (att_signatures att)")
    (auto simp: validate_attestation_def list_all2_iff signed_outcome_def split: if_splits)

text \<open>An attestation without signatures passes the checks for any announcement of the oracle.\<close>

lemma empty_attestation_valid:
  "att_public_key att = ann_public_key a \<Longrightarrow> att_signatures att = [] \<Longrightarrow> att_outcomes att = [] \<Longrightarrow>
   validate_attestation B L att a = Inr ()"
  by (simp add: attestation_checks)

text \<open>
  With a signature per nonce, the nonces by which the program finds the announcement of an attestation are the nonces
  of the announcement.
\<close>

lemma attestation_nonces:
  assumes "validate_attestation B L att a = Inr ()" "length (att_signatures att) = length (event_nonces (oracle_event a))"
    "\<forall>n \<in> set (event_nonces (oracle_event a)). xonly_from_slice S n = Inr n"
  shows "nonces S att = Some (event_nonces (oracle_event a))"
proof -
  have "list_all2 (\<lambda>sig nonce. take 32 sig = nonce) (att_signatures att) (event_nonces (oracle_event a))"
    using assms(1,2) by (simp add: attestation_checks list_all2_iff list_all_iff)
  then have "list_all2 (\<lambda>sig nonce. unwrap (xonly_from_slice S (take 32 sig)) = Some nonce) (att_signatures att) (event_nonces (oracle_event a))"
    using assms(3) by (auto simp: list_all2_iff dest: set_zip_rightD)
  then show ?thesis by (simp add: nonces_def omap_Some_iff)
qed

end
