(* ===== verification/Double.thy ===== *)
theory Double
  imports F64
begin

text \<open>
  IEEE 754 double precision as the payout curves use it: signed finite values, infinities and not-a-number, with
  the exact result of an operation rounded to nearest, ties to even, in the range of the exponents (subnormal numbers
  and overflow included). A finite value is a sign and an \<open>F64 m e\<close>, that is \<open>m * 2 ^ e\<close>; it is read as a quotient of
  naturals. The sign of a not-a-number is taken as positive.
\<close>

section \<open>Values\<close>

datatype double = NaN | Inf bool | Fin bool f64

definition fnum :: "f64 \<Rightarrow> nat" where
  "fnum f = (if 0 \<le> expo f then mant f * 2 ^ nat (expo f) else mant f)"

definition fden :: "f64 \<Rightarrow> nat" where
  "fden f = (if 0 \<le> expo f then 1 else 2 ^ nat (- expo f))"

lemma fden_pos [simp]: "0 < fden f" "fden f \<noteq> 0"
  by (simp_all add: fden_def)

text \<open>The double nearest to \<open>a / b\<close> (\<open>0 < b\<close>), with the sign given.\<close>

definition rounded :: "bool \<Rightarrow> nat \<Rightarrow> nat \<Rightarrow> double" where
  "rounded s a b =
     (if a = 0 then Fin s (F64 0 0)
      else if a * 2 ^ 1022 < b then Fin s (F64 (round_half_even (a * 2 ^ 1074) b) (-1074))
      else let f = round_quotient a b in
        if 0 \<le> expo f \<and> 2 ^ 1024 \<le> mant f * 2 ^ nat (expo f) then Inf s else Fin s f)"

definition dbl_of_nat :: "nat \<Rightarrow> double" where
  "dbl_of_nat n = rounded False n 1"

definition is_sign_negative :: "double \<Rightarrow> bool" where
  "is_sign_negative x = (case x of NaN \<Rightarrow> False | Inf s \<Rightarrow> s | Fin s _ \<Rightarrow> s)"

definition is_normal :: "double \<Rightarrow> bool" where
  "is_normal x = (case x of Fin _ f \<Rightarrow> fden f \<le> fnum f * 2 ^ 1022 | _ \<Rightarrow> False)"

section \<open>Comparison\<close>

text \<open>The numerator with the sign of the value.\<close>

definition snum :: "bool \<Rightarrow> f64 \<Rightarrow> int" where
  "snum s f = (if s then - int (fnum f) else int (fnum f))"

fun dbl_le :: "double \<Rightarrow> double \<Rightarrow> bool" where
  "dbl_le (Fin s x) (Fin t y) \<longleftrightarrow> snum s x * int (fden y) \<le> snum t y * int (fden x)"
| "dbl_le (Inf s) (Inf t) \<longleftrightarrow> s \<or> \<not> t"
| "dbl_le (Inf s) (Fin t y) \<longleftrightarrow> s"
| "dbl_le (Fin s x) (Inf t) \<longleftrightarrow> \<not> t"
| "dbl_le _ _ \<longleftrightarrow> False"

definition dbl_eq :: "double \<Rightarrow> double \<Rightarrow> bool" where
  "dbl_eq x y \<longleftrightarrow> dbl_le x y \<and> dbl_le y x"

definition dbl_less :: "double \<Rightarrow> double \<Rightarrow> bool" where
  "dbl_less x y \<longleftrightarrow> dbl_le x y \<and> \<not> dbl_le y x"

section \<open>Arithmetic\<close>

fun dbl_neg :: "double \<Rightarrow> double" where
  "dbl_neg NaN = NaN"
| "dbl_neg (Inf s) = Inf (\<not> s)"
| "dbl_neg (Fin s x) = Fin (\<not> s) x"

text \<open>A sum that is zero is negative only when both operands are.\<close>

fun dbl_add :: "double \<Rightarrow> double \<Rightarrow> double" where
  "dbl_add (Fin s x) (Fin t y) =
     (let n = snum s x * int (fden y) + snum t y * int (fden x)
      in rounded (if n = 0 then s \<and> t else n < 0) (nat \<bar>n\<bar>) (fden x * fden y))"
| "dbl_add (Inf s) (Inf t) = (if s = t then Inf s else NaN)"
| "dbl_add (Inf s) (Fin t y) = Inf s"
| "dbl_add (Fin s x) (Inf t) = Inf t"
| "dbl_add _ _ = NaN"

definition dbl_sub :: "double \<Rightarrow> double \<Rightarrow> double" where
  "dbl_sub x y = dbl_add x (dbl_neg y)"

fun dbl_mul :: "double \<Rightarrow> double \<Rightarrow> double" where
  "dbl_mul (Fin s x) (Fin t y) = rounded (s \<noteq> t) (fnum x * fnum y) (fden x * fden y)"
| "dbl_mul (Inf s) (Inf t) = Inf (s \<noteq> t)"
| "dbl_mul (Inf s) (Fin t y) = (if fnum y = 0 then NaN else Inf (s \<noteq> t))"
| "dbl_mul (Fin s x) (Inf t) = (if fnum x = 0 then NaN else Inf (s \<noteq> t))"
| "dbl_mul _ _ = NaN"

fun dbl_div :: "double \<Rightarrow> double \<Rightarrow> double" where
  "dbl_div (Fin s x) (Fin t y) =
     (if fnum y = 0 then (if fnum x = 0 then NaN else Inf (s \<noteq> t))
      else rounded (s \<noteq> t) (fnum x * fden y) (fden x * fnum y))"
| "dbl_div (Inf s) (Fin t y) = Inf (s \<noteq> t)"
| "dbl_div (Fin s x) (Inf t) = Fin (s \<noteq> t) (F64 0 0)"
| "dbl_div _ _ = NaN"

text \<open>\<open>%\<close> is the exact remainder of the truncated quotient, with the sign of the dividend.\<close>

fun dbl_rem :: "double \<Rightarrow> double \<Rightarrow> double" where
  "dbl_rem (Fin s x) (Fin t y) =
     (if fnum y = 0 then NaN else rounded s ((fnum x * fden y) mod (fnum y * fden x)) (fden x * fden y))"
| "dbl_rem (Fin s x) (Inf t) = Fin s x"
| "dbl_rem _ _ = NaN"

text \<open>The integer square root, by bisection: the greatest \<open>r\<close> with \<open>r * r \<le> n\<close> has at most \<open>k\<close> bits.\<close>

fun isqrt :: "nat \<Rightarrow> nat \<Rightarrow> nat \<Rightarrow> nat" where
  "isqrt n r 0 = r"
| "isqrt n r (Suc k) = (let r' = r + 2 ^ k in isqrt n (if r' * r' \<le> n then r' else r) k)"

fun bit_size :: "nat \<Rightarrow> nat" where
  "bit_size n = (if n = 0 then 0 else Suc (bit_size (n div 2)))"

declare bit_size.simps [simp del]

text \<open>
  The square root of \<open>a / b\<close> is that of \<open>a * b * 4 ^ k\<close> over \<open>b * 2 ^ k\<close>; one more bit says whether the integer
  root is not exact, which is all that rounding to nearest needs when the root has more than 54 bits.
\<close>

definition dbl_sqrt :: "double \<Rightarrow> double" where
  "dbl_sqrt x = (case x of
     NaN \<Rightarrow> NaN
   | Inf s \<Rightarrow> if s then NaN else Inf False
   | Fin s f \<Rightarrow>
       if fnum f = 0 then Fin s f
       else if s then NaN
       else let n = fnum f * fden f * 4 ^ 64; r = isqrt n 0 (bit_size n)
         in rounded False (2 * r + (if r * r = n then 0 else 1)) (fden f * 2 ^ 65))"

text \<open>\<open>round()\<close>: to the nearest integer, halves away from zero; \<open>as u64\<close> saturates.\<close>

definition dbl_round :: "double \<Rightarrow> double" where
  "dbl_round x = (case x of Fin s f \<Rightarrow> rounded s ((2 * fnum f + fden f) div (2 * fden f)) 1 | _ \<Rightarrow> x)"

definition dbl_to_u64 :: "double \<Rightarrow> nat" where
  "dbl_to_u64 x = (case x of
     NaN \<Rightarrow> 0
   | Inf s \<Rightarrow> if s then 0 else 2 ^ 64 - 1
   | Fin s f \<Rightarrow> if s then 0 else min (fnum f div fden f) (2 ^ 64 - 1))"

section \<open>Exact values\<close>

text \<open>\<open>x\<close> is a positive zero or a positive number, and equal to \<open>a\<close>.\<close>

definition exactly :: "double \<Rightarrow> nat \<Rightarrow> bool" where
  "exactly x a \<longleftrightarrow> (\<exists>f. x = Fin False f \<and> fnum f = a * fden f)"

lemma round_quotient_exact:
  assumes "a < 2 ^ 53" "0 < a"
  shows "\<exists>s. round_quotient a 1 = F64 (a * 2 ^ s) (- int s)"
  using f64_value_exact[OF assms(1)] unfolding f64_of_nat_def by metis

lemma exactly_F64:
  "f = F64 (a * 2 ^ s) (- int s) \<Longrightarrow> fnum f = a * fden f"
  by (cases "s = 0") (auto simp: fnum_def fden_def)

lemma rounded_exact:
  assumes "a < 2 ^ 53" "0 < c"
  shows "exactly (rounded False (a * c) c) a"
proof (cases "a = 0")
  case True
  then show ?thesis by (simp add: rounded_def exactly_def fnum_def)
next
  case False
  have "round_quotient (a * c) c = round_quotient a 1"
    using round_quotient_scale[of c a 1] assms by simp
  moreover obtain s where s: "round_quotient a 1 = F64 (a * 2 ^ s) (- int s)"
    using round_quotient_exact[OF assms(1)] False by auto
  moreover have "\<not> a * c * 2 ^ 1022 < c" using False assms(2) by (simp add: not_less)
  moreover have "\<not> (0 \<le> - int s \<and> 2 ^ 1024 \<le> a * 2 ^ s * 2 ^ nat (- int s))"
  proof
    assume "0 \<le> - int s \<and> 2 ^ 1024 \<le> a * 2 ^ s * 2 ^ nat (- int s)"
    then have "2 ^ 1024 \<le> a" by auto
    moreover have "(2 :: nat) ^ 53 \<le> 2 ^ 1024" by (rule power_increasing) simp_all
    ultimately show False using assms(1) by linarith
  qed
  ultimately have "rounded False (a * c) c = Fin False (F64 (a * 2 ^ s) (- int s))"
    using False assms(2) by (simp add: rounded_def Let_def)
  then show ?thesis using exactly_F64[OF refl, of a s] by (simp add: exactly_def)
qed


lemma dbl_of_nat_exact: "n < 2 ^ 53 \<Longrightarrow> exactly (dbl_of_nat n) n"
  using rounded_exact[of n 1] by (simp add: dbl_of_nat_def)

lemma exactlyE:
  assumes "exactly x a" obtains f where "x = Fin False f" "fnum f = a * fden f"
  using assms unfolding exactly_def by auto

lemma int_sign: "(if int k = 0 then False else int k < 0) = False"
  by simp

lemma exactly_add: "exactly x a \<Longrightarrow> exactly y b \<Longrightarrow> a + b < 2 ^ 53 \<Longrightarrow> exactly (dbl_add x y) (a + b)"
proof -
  assume x: "exactly x a" and y: "exactly y b" and ab: "a + b < 2 ^ 53"
  obtain f g where f: "x = Fin False f" "fnum f = a * fden f" and g: "y = Fin False g" "fnum g = b * fden g"
    using x y by (auto elim!: exactlyE)
  have n: "snum False f * int (fden g) + snum False g * int (fden f) = int ((a + b) * (fden f * fden g))"
    by (simp add: snum_def f g algebra_simps)
  have "dbl_add x y = rounded False ((a + b) * (fden f * fden g)) (fden f * fden g)"
    by (simp only: f(1) g(1) dbl_add.simps n Let_def nat_int abs_of_nat simp_thms int_sign)
  then show ?thesis using rounded_exact[OF ab, of "fden f * fden g"] by simp
qed

lemma exactly_sub: "exactly x a \<Longrightarrow> exactly y b \<Longrightarrow> b \<le> a \<Longrightarrow> a < 2 ^ 53 \<Longrightarrow> exactly (dbl_sub x y) (a - b)"
proof -
  assume x: "exactly x a" and y: "exactly y b" and ab: "b \<le> a" "a < 2 ^ 53"
  obtain f g where f: "x = Fin False f" "fnum f = a * fden f" and g: "y = Fin False g" "fnum g = b * fden g"
    using x y by (auto elim!: exactlyE)
  have n: "snum False f * int (fden g) + snum True g * int (fden f) = int ((a - b) * (fden f * fden g))"
    using ab(1) by (simp add: snum_def f g algebra_simps of_nat_diff)
  have "dbl_sub x y = rounded False ((a - b) * (fden f * fden g)) (fden f * fden g)"
    by (simp only: f(1) g(1) dbl_sub_def dbl_neg.simps dbl_add.simps not_False_eq_True n Let_def nat_int abs_of_nat simp_thms int_sign)
  then show ?thesis using rounded_exact[of "a - b" "fden f * fden g"] ab by simp
qed

lemma exactly_mul: "exactly x a \<Longrightarrow> exactly y b \<Longrightarrow> a * b < 2 ^ 53 \<Longrightarrow> exactly (dbl_mul x y) (a * b)"
proof -
  assume x: "exactly x a" and y: "exactly y b" and ab: "a * b < 2 ^ 53"
  obtain f g where f: "x = Fin False f" "fnum f = a * fden f" and g: "y = Fin False g" "fnum g = b * fden g"
    using x y by (auto elim!: exactlyE)
  have "fnum f * fnum g = (a * b) * (fden f * fden g)" by (simp add: f g ac_simps)
  then have "dbl_mul x y = rounded False ((a * b) * (fden f * fden g)) (fden f * fden g)" using f(1) g(1) by (simp only: dbl_mul.simps simp_thms)
  then show ?thesis using rounded_exact[OF ab, of "fden f * fden g"] by simp
qed

lemma exactly_div: "exactly x (q * b) \<Longrightarrow> exactly y b \<Longrightarrow> 0 < b \<Longrightarrow> q < 2 ^ 53 \<Longrightarrow> exactly (dbl_div x y) q"
proof -
  assume x: "exactly x (q * b)" and y: "exactly y b" and b: "0 < b" and q: "q < 2 ^ 53"
  obtain f g where f: "x = Fin False f" "fnum f = q * b * fden f" and g: "y = Fin False g" "fnum g = b * fden g"
    using x y by (auto elim!: exactlyE)
  have "fnum f * fden g = q * (b * (fden f * fden g))" "fden f * fnum g = b * (fden f * fden g)" by (simp_all add: f g ac_simps)
  then have "dbl_div x y = rounded False (q * (b * (fden f * fden g))) (b * (fden f * fden g))"
    using f(1) g b by (simp only: dbl_div.simps) simp
  then show ?thesis using rounded_exact[OF q, of "b * (fden f * fden g)"] b by simp
qed

lemma exactly_rem: "exactly x a \<Longrightarrow> exactly y b \<Longrightarrow> 0 < b \<Longrightarrow> a < 2 ^ 53 \<Longrightarrow> exactly (dbl_rem x y) (a mod b)"
proof -
  assume x: "exactly x a" and y: "exactly y b" and ab: "0 < b" "a < 2 ^ 53"
  obtain f g where f: "x = Fin False f" "fnum f = a * fden f" and g: "y = Fin False g" "fnum g = b * fden g"
    using x y by (auto elim!: exactlyE)
  have "(fnum f * fden g) mod (fnum g * fden f) = (a * (fden f * fden g)) mod (b * (fden f * fden g))"
    by (simp add: f g ac_simps)
  also have "\<dots> = (a mod b) * (fden f * fden g)" by (simp add: mult_mod_left)
  finally have "dbl_rem x y = rounded False ((a mod b) * (fden f * fden g)) (fden f * fden g)"
    using f(1) g ab(1) by (simp only: dbl_rem.simps) simp
  moreover have "a mod b < 2 ^ 53" using ab mod_less_eq_dividend[of a b] by linarith
  ultimately show ?thesis using rounded_exact[of "a mod b" "fden f * fden g"] by simp
qed

lemma exactly_round: "exactly x a \<Longrightarrow> a < 2 ^ 53 \<Longrightarrow> exactly (dbl_round x) a"
proof -
  assume x: "exactly x a" and a: "a < 2 ^ 53"
  obtain f where f: "x = Fin False f" "fnum f = a * fden f" using x by (auto elim!: exactlyE)
  have "(2 * fnum f + fden f) div (2 * fden f) = a" using f(2) by (intro div_nat_eqI) simp_all
  then show ?thesis using rounded_exact[OF a, of 1] f(1) by (simp add: dbl_round_def)
qed

lemma exactly_to_u64: "exactly x a \<Longrightarrow> a < 2 ^ 53 \<Longrightarrow> dbl_to_u64 x = a"
  by (auto elim!: exactlyE simp: dbl_to_u64_def)

lemma exactly_le: "exactly x a \<Longrightarrow> exactly y b \<Longrightarrow> dbl_le x y \<longleftrightarrow> a \<le> b"
proof -
  assume x: "exactly x a" and y: "exactly y b"
  obtain f g where f: "x = Fin False f" "fnum f = a * fden f" and g: "y = Fin False g" "fnum g = b * fden g"
    using x y by (auto elim!: exactlyE)
  have "dbl_le x y \<longleftrightarrow> a * (fden f * fden g) \<le> b * (fden f * fden g)"
    by (simp add: f g snum_def ac_simps flip: of_nat_mult)
  then show ?thesis by simp
qed

lemma exactly_less: "exactly x a \<Longrightarrow> exactly y b \<Longrightarrow> dbl_less x y \<longleftrightarrow> a < b"
  by (auto simp: dbl_less_def exactly_le)

lemma exactly_sign [simp]: "exactly x a \<Longrightarrow> \<not> is_sign_negative x"
  by (auto elim!: exactlyE simp: is_sign_negative_def)

lemma exactly_normal: "exactly x a \<Longrightarrow> is_normal x \<longleftrightarrow> 0 < a"
proof -
  assume "exactly x a"
  then obtain f where f: "x = Fin False f" "fnum f = a * fden f" by (auto elim!: exactlyE)
  have "fden f \<le> a * fden f * 2 ^ 1022 \<longleftrightarrow> 0 < a" by (cases "a = 0") simp_all
  then show ?thesis using f by (simp add: is_normal_def)
qed

text \<open>Halving is exact too: \<open>a\<close> is at least half of \<open>b\<close>.\<close>

lemma half_le:
  assumes "exactly x a" "exactly y b" "0 < b" "b < 2 ^ 52"
  shows "dbl_le (dbl_div y (dbl_of_nat 2)) x \<longleftrightarrow> b \<le> 2 * a"
proof -
  obtain f g h where f: "x = Fin False f" "fnum f = a * fden f" and g: "y = Fin False g" "fnum g = b * fden g"
    and h: "dbl_of_nat 2 = Fin False h" "fnum h = 2 * fden h"
    using assms(1,2) dbl_of_nat_exact[of 2] by (auto elim!: exactlyE)
  let ?c = "fden g * fden h"
  have "dbl_div y (dbl_of_nat 2) = rounded False (b * ?c) (2 * ?c)"
    using g h by (simp add: mult.left_commute mult.commute[of "fden h"] mult.assoc)
  moreover have "round_quotient (b * ?c) (2 * ?c) = round_quotient b 2"
    using round_quotient_scale[of ?c b 2] assms(4) by simp
  moreover have "\<exists>s. round_quotient b 2 = F64 (b * 2 ^ s) (- int (Suc s))"
  proof -
    have up: "scale_up b 2 = Suc (scale_up (2 * b) 2)" using assms(3,4) by (subst scale_up.simps) simp
    have "round_half_even (b * 2 ^ Suc s) 2 = b * 2 ^ s" for s
      using round_half_even_exact[of 2 "b * 2 ^ s"] by (simp add: ac_simps)
    then show ?thesis using assms(4) up by (intro exI[of _ "scale_up (2 * b) 2"]) (simp add: round_quotient_def Let_def)
  qed
  then obtain s where s: "round_quotient b 2 = F64 (b * 2 ^ s) (- int (Suc s))" by blast
  moreover have "\<not> b * ?c * 2 ^ 1022 < 2 * ?c"
  proof -
    have "2 * ?c \<le> 2 ^ 1022 * ?c" by (intro mult_right_mono) simp_all
    also have "\<dots> \<le> b * ?c * 2 ^ 1022" using assms(3) by simp
    finally show ?thesis by simp
  qed
  ultimately have "dbl_div y (dbl_of_nat 2) = Fin False (F64 (b * 2 ^ s) (- int (Suc s)))"
    using assms(3) by (simp add: rounded_def Let_def)
  moreover have "fnum (F64 (b * 2 ^ s) (- int (Suc s))) = b * 2 ^ s" "fden (F64 (b * 2 ^ s) (- int (Suc s))) = 2 * 2 ^ s"
    by (simp_all add: fnum_def fden_def nat_add_distrib)
  ultimately have "dbl_le (dbl_div y (dbl_of_nat 2)) x \<longleftrightarrow> int (b * 2 ^ s * fden f) \<le> int (a * fden f * (2 * 2 ^ s))"
    using f by (simp add: snum_def)
  also have "\<dots> \<longleftrightarrow> b * (2 ^ s * fden f) \<le> (2 * a) * (2 ^ s * fden f)" unfolding of_nat_le_iff by (simp add: ac_simps)
  also have "\<dots> \<longleftrightarrow> b \<le> 2 * a" by simp
  finally show ?thesis .
qed

end
