(* ===== verification/ManagerError.thy ===== *)
theory ManagerError
  imports TrieUtils
begin

text \<open>
  The errors of the contract manager, \<open>dlc-manager/src/error.rs\<close> and the error of \<open>conversion_utils.rs\<close>, with the
  conversions that \<open>?\<close> applies. Errors of the libraries are strings.
\<close>

datatype ConversionError = BitcoinEncoding string | ConversionInvalidParameters

datatype Error =
    Conversion ConversionError
  | IOError string
  | Deserialize string
  | InvalidParameters string
  | InvalidState string
  | WalletError string
  | BlockchainError string
  | StorageError string
  | OracleError string
  | DlcErr DlcError
  | SecpError string
  | OutOfRange

text \<open>The text of an error, which a failed contract is stored with.\<close>

fun dlc_error_to_string :: "DlcError \<Rightarrow> string" where
  "dlc_error_to_string (Secp256k1 e) = ''Secp256k1 error: '' @ e"
| "dlc_error_to_string InvalidArgument = ''Invalid argument''"
| "dlc_error_to_string (P2wpkh e) = ''Error while computing p2wpkh sighash: '' @ e"
| "dlc_error_to_string (InputsIndex e) = ''Error ordering inputs: '' @ e"
| "dlc_error_to_string (Miniscript _) = ''Error within miniscript''"

fun error_to_string :: "Error \<Rightarrow> string" where
  "error_to_string (Conversion _) = ''Conversion error''"
| "error_to_string (IOError _) = ''IO error''"
| "error_to_string (Deserialize s) = ''Deserialize error: '' @ s"
| "error_to_string (InvalidState s) = ''Invalid state: '' @ s"
| "error_to_string (InvalidParameters s) = ''Invalid parameters were provided: '' @ s"
| "error_to_string (WalletError e) = ''Wallet error '' @ e"
| "error_to_string (BlockchainError s) = ''Blockchain error '' @ s"
| "error_to_string (StorageError s) = ''Storage error '' @ s"
| "error_to_string (DlcErr e) = ''Dlc error '' @ dlc_error_to_string e"
| "error_to_string (OracleError s) = ''Oracle error '' @ s"
| "error_to_string (SecpError _) = ''Secp error''"
| "error_to_string OutOfRange = ''Out of range error''"

definition map_err :: "('e \<Rightarrow> 'f) \<Rightarrow> ('e + 'a) option \<Rightarrow> ('f + 'a) option" where
  "map_err f r = map_option (map_sum f id) r"

abbreviation dlc_err :: "(DlcError + 'a) option \<Rightarrow> (Error + 'a) option" where "dlc_err \<equiv> map_err DlcErr"
abbreviation conversion_err :: "(ConversionError + 'a) option \<Rightarrow> (Error + 'a) option" where "conversion_err \<equiv> map_err Conversion"

lemma map_err_simps [simp]:
  "map_err f None = None" "map_err f (perr e) = perr (f e)" "map_err f (pok x) = pok x"
  by (simp_all add: map_err_def)

lemma map_err_pok [simp]: "map_err f r = pok x \<longleftrightarrow> r = pok x"
  by (cases r) (auto simp: map_err_def, case_tac a, auto)

lemma map_err_None [simp]: "map_err f r = None \<longleftrightarrow> r = None"
  by (simp add: map_err_def)

lemma map_err_perr: "map_err f r = perr e \<longleftrightarrow> (\<exists>e'. r = perr e' \<and> e = f e')"
  by (cases r) (auto simp: map_err_def, case_tac a, auto)

end
