(* ===== verification/PayoutCurve.thy ===== *)
theory PayoutCurve
  imports Double DlcTypes ManagerError
begin

text \<open>
  \<open>dlc-manager/src/payout_curve.rs\<close>: payout functions of numerical contracts as polynomial and hyperbola pieces,
  their evaluation in double precision, the rounding intervals, and the ranges of outcomes with equal payouts.
  A panic is \<open>None\<close>: indexing, an overflow of the integer arithmetic, a failed \<open>debug_assert!\<close>.
\<close>

section \<open>Data\<close>

record PayoutPoint =
  event_outcome :: nat
  outcome_payout :: amount
  extra_precision :: nat

record HyperbolaPayoutCurvePiece =
  left_end_point :: PayoutPoint
  right_end_point :: PayoutPoint
  use_positive_piece :: bool
  translate_outcome :: double
  translate_payout :: double
  hyp_a :: double
  hyp_b :: double
  hyp_c :: double
  hyp_d :: double

text \<open>A polynomial piece is its vector of points, a payout function its vector of pieces.\<close>

datatype PayoutFunctionPiece =
    PolynomialPayoutCurvePiece (payout_points: "PayoutPoint list")
  | HyperbolaPayoutCurvePiece HyperbolaPayoutCurvePiece

type_synonym PayoutFunction = "PayoutFunctionPiece list"

record RoundingInterval =
  begin_interval :: nat
  rounding_mod :: nat

type_synonym RoundingIntervals = "RoundingInterval list"

section \<open>Construction and validation\<close>

definition last_elem :: "'a list \<Rightarrow> 'a option" where
  "last_elem xs = (if xs = [] then None else Some (last xs))"

fun get_first_point :: "PayoutFunctionPiece \<Rightarrow> PayoutPoint option" where
  "get_first_point (PolynomialPayoutCurvePiece ps) = vget ps 0"
| "get_first_point (HyperbolaPayoutCurvePiece h) = Some (left_end_point h)"

fun get_last_point :: "PayoutFunctionPiece \<Rightarrow> PayoutPoint option" where
  "get_last_point (PolynomialPayoutCurvePiece ps) = last_elem ps"
| "get_last_point (HyperbolaPayoutCurvePiece h) = Some (right_end_point h)"

text \<open>\<open>all\<close> stops at the first gap.\<close>

fun is_continuous :: "PayoutFunction \<Rightarrow> bool option" where
  "is_continuous (cur # nxt # rest) = do {
     p \<leftarrow> get_last_point cur;
     q \<leftarrow> get_first_point nxt;
     if p = q then is_continuous (nxt # rest) else Some False
   }"
| "is_continuous _ = Some True"

definition new_payout_function :: "PayoutFunctionPiece list \<Rightarrow> (Error + PayoutFunction) option" where
  "new_payout_function pieces =
     Option.bind (if pieces = [] then Some False else is_continuous pieces) (\<lambda>c.
       if c then pok pieces else perr (InvalidParameters ''Function pieces are not continuous.''))"

definition ascending_points :: "PayoutPoint list \<Rightarrow> bool" where
  "ascending_points ps \<longleftrightarrow> 1 < length ps \<and> list_all (\<lambda>(cur, nxt). event_outcome cur < event_outcome nxt) (zip ps (drop 1 ps))"

definition new_polynomial :: "PayoutPoint list \<Rightarrow> Error + PayoutFunctionPiece" where
  "new_polynomial ps = (if ascending_points ps then Inr (PolynomialPayoutCurvePiece ps)
     else Inl (InvalidParameters ''Payout points must have ascending event outcome value.''))"

definition new_hyperbola :: "HyperbolaPayoutCurvePiece \<Rightarrow> Error + PayoutFunctionPiece" where
  "new_hyperbola h =
     (if dbl_eq (dbl_mul (hyp_a h) (hyp_d h)) (dbl_mul (hyp_b h) (hyp_c h))
      then Inl (InvalidParameters ''a * c cannot equal d * c'')
      else if event_outcome (right_end_point h) \<le> event_outcome (left_end_point h)
      then Inl (InvalidParameters ''Left end point outcome must be strictly less than right end point outcome'')
      else Inr (HyperbolaPayoutCurvePiece h))"

fun starts_at_zero :: "PayoutFunctionPiece \<Rightarrow> bool option" where
  "starts_at_zero (PolynomialPayoutCurvePiece ps) = map_option (\<lambda>p. event_outcome p = 0) (vget ps 0)"
| "starts_at_zero (HyperbolaPayoutCurvePiece h) = Some True"

fun finishes_at :: "nat \<Rightarrow> PayoutFunctionPiece \<Rightarrow> bool option" where
  "finishes_at max_value (PolynomialPayoutCurvePiece ps) = map_option (\<lambda>p. event_outcome p = max_value) (last_elem ps)"
| "finishes_at max_value (HyperbolaPayoutCurvePiece h) = Some (event_outcome (right_end_point h) = max_value)"

definition validate_function :: "PayoutFunction \<Rightarrow> nat \<Rightarrow> (Error + unit) option" where
  "validate_function f max_value =
     Option.bind (is_continuous f) (\<lambda>c.
     if \<not> c then perr (InvalidParameters ''Payout function is not continuous.'')
     else do {
       first \<leftarrow> vget f 0;
       starts \<leftarrow> starts_at_zero first;
       lst \<leftarrow> last_elem f;
       finishes \<leftarrow> finishes_at max_value lst;
       if starts \<and> finishes then pok ()
       else perr (InvalidParameters ''Payout function doesn't cover all the possible outcomes.'')
     })"

section \<open>Rounding\<close>

definition validate_rounding :: "RoundingIntervals \<Rightarrow> Error + unit" where
  "validate_rounding ri =
     (if ri = [] then Inl (InvalidParameters ''Empty rounding intervals.'')
      else if begin_interval (ri ! 0) \<noteq> 0 then Inl (InvalidParameters ''Rounding interval doesn't start at 0.'')
      else if \<not> list_all (\<lambda>(x, y). begin_interval x < begin_interval y) (zip ri (drop 1 ri))
      then Inl (InvalidParameters ''Rounding intervals being value are not strictly increasing'')
      else Inr ())"

text \<open>
  The binary search on strictly increasing intervals, which \<open>validate\<close> checks: the interval that begins at the
  outcome, or the one before the insertion point; with the insertion point at 0 the code is \<open>unreachable!()\<close>.
\<close>

definition rounding_index :: "RoundingIntervals \<Rightarrow> nat \<Rightarrow> nat option" where
  "rounding_index ri outcome = u64_sub (length (filter (\<lambda>x. begin_interval x \<le> outcome) ri)) 1"

definition round_payout :: "RoundingIntervals \<Rightarrow> nat \<Rightarrow> double \<Rightarrow> nat option" where
  "round_payout ri outcome payout = do {
     i \<leftarrow> rounding_index ri outcome;
     x \<leftarrow> vget ri i;
     let rmod = dbl_of_nat (rounding_mod x);
     let m = (if dbl_le (dbl_of_nat 0) payout then dbl_rem payout rmod else dbl_add (dbl_rem payout rmod) rmod);
     Some (if dbl_le (dbl_div rmod (dbl_of_nat 2)) m
       then dbl_to_u64 (dbl_round (dbl_sub (dbl_add payout rmod) m))
       else dbl_to_u64 (dbl_round (dbl_sub payout m)))
   }"

section \<open>Evaluation\<close>

definition get_outcome_payout :: "PayoutPoint \<Rightarrow> double" where
  "get_outcome_payout p = dbl_add (dbl_of_nat (outcome_payout p)) (dbl_div (dbl_of_nat (extra_precision p)) (dbl_of_nat (2 ^ 16)))"

text \<open>The factor of point \<open>j\<close> in the term of point \<open>i\<close>; two points with one outcome fail the \<open>debug_assert!\<close>.\<close>

definition lagrange_factor :: "PayoutPoint \<Rightarrow> double \<Rightarrow> double \<Rightarrow> PayoutPoint \<Rightarrow> double option" where
  "lagrange_factor pi outcome l pj =
     (if event_outcome pi = event_outcome pj then None
      else let i_outcome = dbl_of_nat (event_outcome pi); j_outcome = dbl_of_nat (event_outcome pj);
               denominator = dbl_sub i_outcome j_outcome; numerator = dbl_sub outcome j_outcome
        in Some (dbl_mul l (dbl_div numerator denominator)))"

fun lagrange_term :: "PayoutPoint list \<Rightarrow> nat \<Rightarrow> double \<Rightarrow> (nat \<times> PayoutPoint) list \<Rightarrow> double \<Rightarrow> double option" where
  "lagrange_term ps i outcome [] l = Some l"
| "lagrange_term ps i outcome ((j, pj) # rest) l =
     (if i \<noteq> j then Option.bind (lagrange_factor (ps ! i) outcome l pj) (lagrange_term ps i outcome rest)
      else lagrange_term ps i outcome rest l)"

fun lagrange_sum :: "PayoutPoint list \<Rightarrow> double \<Rightarrow> nat list \<Rightarrow> double \<Rightarrow> double option" where
  "lagrange_sum ps outcome [] result = Some result"
| "lagrange_sum ps outcome (i # rest) result =
     Option.bind (lagrange_term ps i outcome (zip [0..<length ps] ps) (get_outcome_payout (ps ! i))) (\<lambda>l.
       lagrange_sum ps outcome rest (dbl_add result l))"

definition evaluate_linear :: "PayoutPoint \<Rightarrow> PayoutPoint \<Rightarrow> nat \<Rightarrow> double option" where
  "evaluate_linear left right outcome =
     (let right_sats = dbl_of_nat (outcome_payout right); left_sats = dbl_of_nat (outcome_payout left) in
      if outcome_payout left = outcome_payout right then Some right_sats
      else do {
        run \<leftarrow> u64_sub (event_outcome right) (event_outcome left);
        let slope = dbl_div (dbl_sub right_sats left_sats) (dbl_of_nat run);
        x \<leftarrow> u64_sub outcome (event_outcome left);
        Some (dbl_add (dbl_mul (dbl_of_nat x) slope) left_sats)
      })"

definition evaluate_polynomial :: "PayoutPoint list \<Rightarrow> nat \<Rightarrow> double option" where
  "evaluate_polynomial ps outcome =
     (if length ps = 2 then evaluate_linear (ps ! 0) (ps ! 1) outcome
      else lagrange_sum ps (dbl_of_nat outcome) [0..<length ps] (dbl_of_nat 0))"

definition evaluate_hyperbola :: "HyperbolaPayoutCurvePiece \<Rightarrow> nat \<Rightarrow> double" where
  "evaluate_hyperbola h outcome =
     (let translated = dbl_sub (dbl_of_nat outcome) (translate_outcome h);
          sqrt_term_abs_val = dbl_sqrt (dbl_sub (dbl_mul translated translated) (dbl_mul (dbl_mul (dbl_of_nat 4) (hyp_a h)) (hyp_b h)));
          sqrt_term = (if use_positive_piece h then sqrt_term_abs_val else dbl_neg sqrt_term_abs_val);
          first_term = dbl_div (dbl_mul (hyp_c h) (dbl_add translated sqrt_term)) (dbl_mul (dbl_of_nat 2) (hyp_a h));
          second_term = dbl_div (dbl_mul (dbl_mul (dbl_of_nat 2) (hyp_a h)) (hyp_d h)) (dbl_add translated sqrt_term)
      in dbl_add (dbl_add first_term second_term) (translate_payout h))"

fun evaluate :: "PayoutFunctionPiece \<Rightarrow> nat \<Rightarrow> double option" where
  "evaluate (PolynomialPayoutCurvePiece ps) outcome = evaluate_polynomial ps outcome"
| "evaluate (HyperbolaPayoutCurvePiece h) outcome = Some (evaluate_hyperbola h outcome)"

fun get_first_outcome :: "PayoutFunctionPiece \<Rightarrow> nat option" where
  "get_first_outcome (PolynomialPayoutCurvePiece ps) = map_option event_outcome (vget ps 0)"
| "get_first_outcome (HyperbolaPayoutCurvePiece h) = Some (event_outcome (left_end_point h))"

fun get_last_outcome :: "PayoutFunctionPiece \<Rightarrow> nat option" where
  "get_last_outcome (PolynomialPayoutCurvePiece ps) = map_option event_outcome (last_elem ps)"
| "get_last_outcome (HyperbolaPayoutCurvePiece h) = Some (event_outcome (right_end_point h))"

text \<open>The message of the first error also has the outcome and the value.\<close>

definition get_rounded_payout :: "PayoutFunctionPiece \<Rightarrow> nat \<Rightarrow> RoundingIntervals \<Rightarrow> amount \<Rightarrow> (Error + amount) option" where
  "get_rounded_payout piece outcome ri total_collateral =
     Option.bind (evaluate piece outcome) (\<lambda>payout_double.
     if is_sign_negative payout_double \<or> \<not> dbl_eq payout_double (dbl_of_nat 0) \<and> \<not> is_normal payout_double
     then perr (InvalidParameters ''Could not evaluate function'')
     else if dbl_less (dbl_of_nat total_collateral) (dbl_round payout_double)
     then perr (InvalidParameters ''Computed payout is greater than total collateral'')
     else Option.bind (round_payout ri outcome payout_double) (\<lambda>r. pok (min r total_collateral)))"

section \<open>Ranges\<close>

definition new_range :: "nat \<Rightarrow> amount \<Rightarrow> amount \<Rightarrow> RangePayout option" where
  "new_range outcome payout total_collateral =
     map_option (\<lambda>a. \<lparr>rp_start = outcome, rp_count = 1, rp_payout = \<lparr>offer_payout = payout, accept_payout = a\<rparr>\<rparr>)
       (u64_sub total_collateral payout)"

text \<open>The last range is popped; the result has the ranges before it.\<close>

definition get_cur_range ::
  "PayoutFunctionPiece \<Rightarrow> RangePayout list \<Rightarrow> amount \<Rightarrow> RoundingIntervals \<Rightarrow> (Error + RangePayout \<times> RangePayout list) option" where
  "get_cur_range piece ranges total_collateral ri =
     (if ranges \<noteq> [] then pok (last ranges, butlast ranges)
      else Option.bind (get_first_outcome piece) (\<lambda>first_outcome.
        pbind (get_rounded_payout piece first_outcome ri total_collateral) (\<lambda>first_payout.
        obind (new_range first_outcome first_payout total_collateral) (\<lambda>r. pok (r, [])))))"

fun range_loop ::
  "PayoutFunctionPiece \<Rightarrow> RoundingIntervals \<Rightarrow> amount \<Rightarrow> nat list \<Rightarrow> RangePayout \<Rightarrow> RangePayout list \<Rightarrow> (Error + RangePayout list) option" where
  "range_loop piece ri total_collateral [] cur_range ranges = pok (ranges @ [cur_range])"
| "range_loop piece ri total_collateral (outcome # rest) cur_range ranges =
     pbind (get_rounded_payout piece outcome ri total_collateral) (\<lambda>payout.
     if total_collateral < payout then perr (InvalidParameters ''Computed payout is greater than total collateral.'')
     else if offer_payout (rp_payout cur_range) = payout
     then obind (u64_add (rp_count cur_range) 1) (\<lambda>n.
       range_loop piece ri total_collateral rest (cur_range\<lparr>rp_count := n\<rparr>) ranges)
     else obind (new_range outcome payout total_collateral) (\<lambda>r.
       range_loop piece ri total_collateral rest r (ranges @ [cur_range])))"

definition compute_range_payouts ::
  "PayoutFunctionPiece \<Rightarrow> RoundingIntervals \<Rightarrow> amount \<Rightarrow> RangePayout list \<Rightarrow> (Error + RangePayout list) option" where
  "compute_range_payouts piece ri total_collateral ranges =
     Option.bind (get_first_outcome piece) (\<lambda>first_outcome.
     pbind (get_cur_range piece ranges total_collateral ri) (\<lambda>(cur_range, ranges).
     Option.bind (get_last_outcome piece) (\<lambda>last_outcome.
     let range_end = (case u64_add last_outcome 1 of Some e \<Rightarrow> e | None \<Rightarrow> 2 ^ 64 - 1) in
     obind (u64_add first_outcome 1) (\<lambda>s.
       range_loop piece ri total_collateral [s..<range_end] cur_range ranges))))"

text \<open>A constant piece extends the current range without evaluation.\<close>

definition is_constant :: "PayoutFunctionPiece \<Rightarrow> bool" where
  "is_constant piece \<longleftrightarrow> (case piece of PolynomialPayoutCurvePiece [p, q] \<Rightarrow> outcome_payout p = outcome_payout q | _ \<Rightarrow> False)"

definition piece_to_range_payouts ::
  "PayoutFunctionPiece \<Rightarrow> amount \<Rightarrow> RoundingIntervals \<Rightarrow> RangePayout list \<Rightarrow> (Error + RangePayout list) option" where
  "piece_to_range_payouts piece total_collateral ri ranges =
     (if is_constant piece
      then pbind (get_cur_range piece ranges total_collateral ri) (\<lambda>(cur_range, ranges).
        obind (get_first_outcome piece) (\<lambda>p.
        obind (get_last_outcome piece) (\<lambda>q.
        obind (u64_sub q p) (\<lambda>d.
        obind (u64_add (rp_count cur_range) d) (\<lambda>n. pok (ranges @ [cur_range\<lparr>rp_count := n\<rparr>]))))))
      else compute_range_payouts piece ri total_collateral ranges)"

fun pieces_to_range_payouts ::
  "PayoutFunction \<Rightarrow> amount \<Rightarrow> RoundingIntervals \<Rightarrow> RangePayout list \<Rightarrow> (Error + RangePayout list) option" where
  "pieces_to_range_payouts [] total_collateral ri ranges = pok ranges"
| "pieces_to_range_payouts (piece # rest) total_collateral ri ranges =
     pbind (piece_to_range_payouts piece total_collateral ri ranges) (\<lambda>ranges. pieces_to_range_payouts rest total_collateral ri ranges)"

definition to_range_payouts :: "PayoutFunction \<Rightarrow> amount \<Rightarrow> RoundingIntervals \<Rightarrow> (Error + RangePayout list) option" where
  "to_range_payouts f total_collateral ri = pieces_to_range_payouts f total_collateral ri []"

end
