(* ===== verification/ContractInfo.thy ===== *)
theory ContractInfo
  imports OracleMsgs OracleTrieIter PayoutCurve "HOL-Library.Mapping"
begin

text \<open>
  The conditions of a contract: \<open>contract/utils.rs\<close>, \<open>enum_descriptor.rs\<close>, \<open>numerical_descriptor.rs\<close>, \<open>contract_info.rs\<close> and
  the descriptor of \<open>contract/mod.rs\<close> in \<open>dlc-manager/src\<close>. Which adaptor signatures a contract has, in which order,
  how they are made and verified, and which one closes the contract on given outcomes. The order in which a
  \<open>HashMap\<close> is iterated is a parameter. A panic is \<open>None\<close>.
\<close>

section \<open>Counting and majorities\<close>

definition count_items :: "'a list \<Rightarrow> ('a, nat) mapping" where
  "count_items items = fold (\<lambda>i cnt. Mapping.update i (Suc (case Mapping.lookup cnt i of None \<Rightarrow> 0 | Some n \<Rightarrow> n)) cnt) items Mapping.empty"

definition unordered_equal :: "'a list \<Rightarrow> 'a list \<Rightarrow> bool" where
  "unordered_equal a b \<longleftrightarrow> count_items a = count_items b"

text \<open>The oracles of each value, in the order they come.\<close>

fun by_outcome :: "(nat \<times> string list) list \<Rightarrow> (string list \<times> nat list) list \<Rightarrow> (string list \<times> nat list) list" where
  "by_outcome [] hash_set = hash_set"
| "by_outcome ((i, v) # outcomes) hash_set =
     by_outcome outcomes (if v \<in> fst ` set hash_set then map (\<lambda>(w, is). if w = v then (w, is @ [i]) else (w, is)) hash_set
       else hash_set @ [(v, [i])])"

record map_orders =
  digit_order :: "(nat list \<times> nat list) list \<Rightarrow> (nat list \<times> nat list) list"
  outcome_order :: "(string list \<times> nat list) list \<Rightarrow> (string list \<times> nat list) list"

definition get_majority_combination :: "map_orders \<Rightarrow> (nat \<times> string list) list \<Rightarrow> (string list \<times> nat list) option" where
  "get_majority_combination H outcomes =
     (let hash_set = by_outcome outcomes [] in
      if hash_set = [] then None else Some (last (sort_key (\<lambda>x. length (snd x)) (outcome_order H hash_set))))"

section \<open>Enumerated outcomes\<close>

text \<open>An \<open>EnumDescriptor\<close> is its vector of outcomes with payouts.\<close>

type_synonym EnumDescriptor = "EnumerationPayout list"

definition enum_payouts :: "EnumDescriptor \<Rightarrow> Payout list" where
  "enum_payouts e = map ep_payout e"

definition validate_enum :: "EnumDescriptor \<Rightarrow> string list \<Rightarrow> Error + unit" where
  "validate_enum e outcomes =
     (if unordered_equal outcomes (map ep_outcome e) then Inr ()
      else Inl (InvalidParameters ''Oracle outcomes do not each have a single associated payout.''))"

text \<open>The prefix lengths of the outcomes by oracle, with the info of the adaptor signature.\<close>

type_synonym OracleIndexAndPrefixLength = "(nat \<times> nat) list"

text \<open>The inner loop: the position of the combination (0 when it is not there, the last one if there are several) and the count.\<close>

fun find_combination :: "nat list \<Rightarrow> (nat \<times> nat list) list \<Rightarrow> nat \<Rightarrow> nat \<Rightarrow> nat \<times> nat" where
  "find_combination actual [] comb_pos comb_count = (comb_pos, comb_count)"
| "find_combination actual ((i, c) # rest) comb_pos comb_count =
     find_combination actual rest (if c = actual then i else comb_pos) (comb_count + 1)"

definition enum_range_info ::
  "map_orders \<Rightarrow> EnumDescriptor \<Rightarrow> nat \<Rightarrow> nat \<Rightarrow> (nat \<times> string list) list \<Rightarrow> nat \<Rightarrow> (OracleIndexAndPrefixLength \<times> RangeInfo) option option" where
  "enum_range_info H e nb_oracles thr outcomes adaptor_sig_start =
     (if length outcomes < thr then Some None
      else let filtered_outcomes = filter (\<lambda>x. length (snd x) = 1) outcomes in
      (case get_majority_combination H filtered_outcomes of
         None \<Rightarrow> Some None
       | Some (majority, actual) \<Rightarrow> do {
           outcome \<leftarrow> vget majority 0;
           if length actual < thr then Some None
           else let actual_combination = take thr actual in
           (case find_first_index (\<lambda>x. ep_outcome x = outcome) e of
              None \<Rightarrow> Some None
            | Some pos \<Rightarrow> do {
                combinator \<leftarrow> new nb_oracles thr;
                combinations \<leftarrow> collect combinator;
                let (comb_pos, comb_count) = find_combination actual_combination (zip [0..<length combinations] combinations) 0 0;
                a \<leftarrow> u64_mul comb_count pos;
                b \<leftarrow> u64_add a comb_pos;
                c \<leftarrow> u64_add b adaptor_sig_start;
                Some (Some (map (\<lambda>x. (x, 1)) actual_combination, \<lparr>cet_index = pos, adaptor_index = c\<rparr>))
              })
         }))"

text \<open>The callback of \<open>iter_outcomes\<close> has a state.\<close>

type_synonym 's point_callback = "pubkey \<Rightarrow> nat \<Rightarrow> 's \<Rightarrow> (DlcError + 's) option"

definition selected_oracles :: "OracleInfo list \<Rightarrow> nat list \<Rightarrow> OracleInfo list" where
  "selected_oracles oracle_infos sel = List.map_filter (\<lambda>(i, x). if i \<in> set sel then Some x else None) (zip [0..<length oracle_infos] oracle_infos)"

fun iter_points :: "secp \<Rightarrow> OracleInfo list \<Rightarrow> 's point_callback \<Rightarrow> ((nat \<times> bytes list list) \<times> nat list) list \<Rightarrow> 's \<Rightarrow> (DlcError + 's) option" where
  "iter_points S oracle_infos callback [] s = pok s"
| "iter_points S oracle_infos callback (((i, outcome_messages), sel) # rest) s =
     pbind (get_adaptor_point_from_oracle_info S (selected_oracles oracle_infos sel) outcome_messages) (\<lambda>adaptor_point.
     pbind (callback adaptor_point i s) (iter_points S oracle_infos callback rest))"

definition iter_outcomes :: "btc \<Rightarrow> secp \<Rightarrow> EnumDescriptor \<Rightarrow> OracleInfo list \<Rightarrow> nat \<Rightarrow> 's point_callback \<Rightarrow> 's \<Rightarrow> (DlcError + 's) option" where
  "iter_outcomes B S e oracle_infos thr callback s =
     (let messages = map (\<lambda>x. replicate thr [sha256 B (str_bytes (ep_outcome x))]) e in
      obind (new (length oracle_infos) thr) (\<lambda>combination_iter.
      obind (collect combination_iter) (\<lambda>combinations.
      iter_points S oracle_infos callback (List.product (zip [0..<length messages] messages) combinations) s)))"

definition enum_verify ::
  "btc \<Rightarrow> secp \<Rightarrow> EnumDescriptor \<Rightarrow> OracleInfo list \<Rightarrow> nat \<Rightarrow> pubkey \<Rightarrow> script \<Rightarrow> amount \<Rightarrow> Transaction list \<Rightarrow> bytes list \<Rightarrow> nat \<Rightarrow>
   (DlcError + nat) option" where
  "enum_verify B S e oracle_infos thr fund_pk spk v txs adaptor_sigs adaptor_sig_start =
     iter_outcomes B S e oracle_infos thr (\<lambda>adaptor_point i adaptor_sig_index.
       obind (vget adaptor_sigs adaptor_sig_index) (\<lambda>sig.
       obind (u64_add adaptor_sig_index 1) (\<lambda>next_index.
       obind (vget txs i) (\<lambda>cet.
       pbind (Some (verify_cet_adaptor_sig_from_point S fund_pk spk v sig cet adaptor_point)) (\<lambda>_. pok next_index)))))
     adaptor_sig_start"

definition enum_sign ::
  "btc \<Rightarrow> secp \<Rightarrow> EnumDescriptor \<Rightarrow> OracleInfo list \<Rightarrow> nat \<Rightarrow> Transaction list \<Rightarrow> bytes \<Rightarrow> script \<Rightarrow> amount \<Rightarrow> (DlcError + bytes list) option" where
  "enum_sign B S e oracle_infos thr txs fund_sk spk v =
     iter_outcomes B S e oracle_infos thr (\<lambda>adaptor_point i adaptor_sigs.
       obind (vget txs i) (\<lambda>cet.
       pbind (Some (create_cet_adaptor_sig_from_point S fund_sk spk v cet adaptor_point)) (\<lambda>sig. pok (adaptor_sigs @ [sig])))) []"

section \<open>Numerical outcomes\<close>

datatype AdaptorInfo = EnumInfo | NumericalInfo MultiOracleTrie | NumericalWithDifference MultiOracleTrieWithDiff

record DifferenceParams =
  dp_max_error_exp :: nat
  min_support_exp :: nat
  maximize_coverage :: bool

record NumericalDescriptor =
  payout_function :: PayoutFunction
  rounding_intervals :: RoundingIntervals
  difference_params :: "DifferenceParams option"
  nd_numeric_infos :: OracleNumericInfo

definition get_range_payouts :: "NumericalDescriptor \<Rightarrow> amount \<Rightarrow> (Error + RangePayout list) option" where
  "get_range_payouts n total_collateral = to_range_payouts (payout_function n) total_collateral (rounding_intervals n)"

definition validate_numerical :: "NumericalDescriptor \<Rightarrow> nat \<Rightarrow> (Error + unit) option" where
  "validate_numerical n max_value =
     pbind (Some (validate_rounding (rounding_intervals n))) (\<lambda>_. validate_function (payout_function n) max_value)"

definition numerical_payouts :: "NumericalDescriptor \<Rightarrow> amount \<Rightarrow> (Error + Payout list) option" where
  "numerical_payouts n total_collateral = pbind (get_range_payouts n total_collateral) (\<lambda>rs. pok (map rp_payout rs))"

definition numerical_verify ::
  "secp \<Rightarrow> NumericalDescriptor \<Rightarrow> amount \<Rightarrow> pubkey \<Rightarrow> script \<Rightarrow> amount \<Rightarrow> nat \<Rightarrow> pubkey list list list \<Rightarrow> Transaction list \<Rightarrow>
   bytes list \<Rightarrow> nat \<Rightarrow> (Error + AdaptorInfo \<times> nat) option" where
  "numerical_verify S n total_collateral fund_pk spk v thr points txs adaptor_sigs start =
     (let check = verify_cet_adaptor_sig_from_point S fund_pk spk v in
      case difference_params n of
        Some params \<Rightarrow>
          pbind (dlc_err (new_mtd (nd_numeric_infos n) thr (min_support_exp params) (dp_max_error_exp params))) (\<lambda>t.
          pbind (get_range_payouts n total_collateral) (\<lambda>outcomes.
          pbind (dlc_err (generate_verify mtd_generate (combine_keys S) check txs adaptor_sigs points t start outcomes)) (\<lambda>(t, index).
          pok (NumericalWithDifference t, index))))
      | None \<Rightarrow>
          pbind (dlc_err (new_mot (nd_numeric_infos n) thr)) (\<lambda>t.
          pbind (get_range_payouts n total_collateral) (\<lambda>outcomes.
          pbind (dlc_err (generate_verify mot_generate (combine_keys S) check txs adaptor_sigs points t start outcomes)) (\<lambda>(t, index).
          pok (NumericalInfo t, index)))))"

definition numerical_sign ::
  "secp \<Rightarrow> NumericalDescriptor \<Rightarrow> amount \<Rightarrow> bytes \<Rightarrow> script \<Rightarrow> amount \<Rightarrow> nat \<Rightarrow> pubkey list list list \<Rightarrow> Transaction list \<Rightarrow>
   nat \<Rightarrow> (Error + AdaptorInfo \<times> bytes list) option" where
  "numerical_sign S n total_collateral fund_sk spk v thr points txs start =
     (let create = create_cet_adaptor_sig_from_point S fund_sk spk v in
      case difference_params n of
        Some params \<Rightarrow>
          pbind (dlc_err (new_mtd (nd_numeric_infos n) thr (min_support_exp params) (dp_max_error_exp params))) (\<lambda>t.
          pbind (get_range_payouts n total_collateral) (\<lambda>outcomes.
          pbind (dlc_err (generate_sign mtd_generate (combine_keys S) create txs points t start outcomes)) (\<lambda>(t, sigs).
          pok (NumericalWithDifference t, sigs))))
      | None \<Rightarrow>
          pbind (dlc_err (new_mot (nd_numeric_infos n) thr)) (\<lambda>t.
          pbind (get_range_payouts n total_collateral) (\<lambda>outcomes.
          pbind (dlc_err (generate_sign mot_generate (combine_keys S) create txs points t start outcomes)) (\<lambda>(t, sigs).
          pok (NumericalInfo t, sigs)))))"

section \<open>Descriptors\<close>

datatype ContractDescriptor = EnumContract EnumDescriptor | NumericalContract NumericalDescriptor

fun get_oracle_params :: "ContractDescriptor \<Rightarrow> DifferenceParams option" where
  "get_oracle_params (EnumContract e) = None"
| "get_oracle_params (NumericalContract n) = difference_params n"

definition same_enum :: "string list \<Rightarrow> OracleAnnouncement \<Rightarrow> Error + unit" where
  "same_enum outcomes announcement = (case event_descriptor (oracle_event announcement) of
     EnumEvent os \<Rightarrow> if unordered_equal outcomes os then Inr () else Inl (InvalidParameters ''Oracles don't have same enum outcomes.'')
   | DigitDecompositionEvent _ \<Rightarrow> Inl (InvalidParameters ''Expected enum event descriptor.''))"

text \<open>The cast of the minimum number of digits to \<open>u32\<close> drops the bits above.\<close>

definition validate_descriptor :: "ContractDescriptor \<Rightarrow> OracleAnnouncement list \<Rightarrow> (Error + unit) option" where
  "validate_descriptor d announcements =
     Option.bind (vget announcements 0) (\<lambda>first.
     case event_descriptor (oracle_event first) of
       EnumEvent outcomes \<Rightarrow>
         pbind (Some (rforall (same_enum outcomes) announcements)) (\<lambda>_.
         case d of EnumContract e \<Rightarrow> Some (validate_enum e outcomes)
         | NumericalContract _ \<Rightarrow> perr (InvalidParameters ''Event descriptor from contract and oracle differ.''))
     | DigitDecompositionEvent _ \<Rightarrow>
         (case d of
            NumericalContract n \<Rightarrow>
              obind (get_min_nb_digits (nd_numeric_infos n)) (\<lambda>min_nb_digits.
              pbind (Some (ok_or (InvalidParameters ''Could not compute max value'')
                (let p = oni_base (nd_numeric_infos n) ^ (min_nb_digits mod u32_bound) in if p < u64_bound then Some p else None)))
                (\<lambda>max_value. obind (u64_sub max_value 1) (\<lambda>mx. validate_numerical n mx)))
          | EnumContract _ \<Rightarrow> perr (InvalidParameters ''Event descriptor from contract and oracle differ.'')))"

section \<open>Numbers as strings\<close>

text \<open>\<open>usize::to_string\<close> and \<open>str::parse::<usize>\<close>: decimal digits, after an optional plus sign.\<close>

definition digit_char :: "nat \<Rightarrow> char" where
  "digit_char d = char_of (48 + d)"

fun usize_to_string :: "nat \<Rightarrow> string" where
  "usize_to_string n = (if n < 10 then [digit_char n] else usize_to_string (n div 10) @ [digit_char (n mod 10)])"

declare usize_to_string.simps [simp del]

definition char_digit :: "char \<Rightarrow> nat option" where
  "char_digit c = (let n = of_char c in if 48 \<le> n \<and> n \<le> (57 :: nat) then Some (n - 48) else None)"

fun parse_digits :: "nat \<Rightarrow> string \<Rightarrow> nat option" where
  "parse_digits acc [] = Some acc"
| "parse_digits acc (c # cs) = do { d \<leftarrow> char_digit c; a \<leftarrow> u64_mul acc 10; a \<leftarrow> u64_add a d; parse_digits a cs }"

definition parse_usize :: "string \<Rightarrow> nat option" where
  "parse_usize s = (let ds = (case s of c # cs \<Rightarrow> if c = CHR ''+'' then cs else s | [] \<Rightarrow> []) in
     if ds = [] then None else parse_digits 0 ds)"

definition get_digits_outcome :: "string list \<Rightarrow> Error + nat list" where
  "get_digits_outcome input =
     rmap (\<lambda>x. ok_or (InvalidParameters ''Invalid outcome, {} is not a valid number.'') (parse_usize x)) input"

definition outcomes_to_digits :: "(nat \<times> string list) list \<Rightarrow> (nat \<times> nat list) list" where
  "outcomes_to_digits outcomes =
     List.map_filter (\<lambda>(x, path). case get_digits_outcome path of Inl _ \<Rightarrow> None | Inr ds \<Rightarrow> Some (x, ds)) outcomes"

section \<open>Contract infos\<close>

record ContractInfo =
  contract_descriptor :: ContractDescriptor
  oracle_announcements :: "OracleAnnouncement list"
  ci_threshold :: nat

definition get_payouts :: "ContractInfo \<Rightarrow> amount \<Rightarrow> (Error + Payout list) option" where
  "get_payouts ci total_collateral = (case contract_descriptor ci of
     EnumContract e \<Rightarrow> pok (enum_payouts e)
   | NumericalContract n \<Rightarrow> numerical_payouts n total_collateral)"

definition validate_info :: "ContractInfo \<Rightarrow> (Error + unit) option" where
  "validate_info ci =
     (if oracle_announcements ci = [] then perr (InvalidState ''ContractInfo doesn't contain any announcement.'')
      else validate_descriptor (contract_descriptor ci) (oracle_announcements ci))"

definition get_oracle_infos :: "ContractInfo \<Rightarrow> OracleInfo list" where
  "get_oracle_infos ci = map to_oracle_info (oracle_announcements ci)"

definition announcement_points :: "btc \<Rightarrow> secp \<Rightarrow> OracleAnnouncement \<Rightarrow> (Error + pubkey list list) option" where
  "announcement_points B S a = (let event = oracle_event a in
     case event_descriptor event of
       DigitDecompositionEvent d \<Rightarrow>
         if dd_nb_digits d \<noteq> length (event_nonces event)
         then perr (InvalidParameters ''Number of digits and nonces must be equal'')
         else dlc_err (pmap (\<lambda>nonce.
           pmap (\<lambda>j. schnorrsig_compute_sig_point S (ann_public_key a) nonce (sha256 B (str_bytes (usize_to_string j)))) [0..<dd_base d])
           (event_nonces event))
     | EnumEvent _ \<Rightarrow> perr (InvalidParameters ''Expected digit decomposition event.''))"

definition precompute_points :: "btc \<Rightarrow> secp \<Rightarrow> ContractInfo \<Rightarrow> (Error + pubkey list list list) option" where
  "precompute_points B S ci = pmap (announcement_points B S) (oracle_announcements ci)"

text \<open>The signer gives the secret key of the funding output, or an error.\<close>

definition get_adaptor_signatures ::
  "btc \<Rightarrow> secp \<Rightarrow> ContractInfo \<Rightarrow> AdaptorInfo \<Rightarrow> Error + bytes \<Rightarrow> script \<Rightarrow> amount \<Rightarrow> Transaction list \<Rightarrow> (Error + bytes list) option" where
  "get_adaptor_signatures B S ci info secret_key spk v txs =
     pbind (Some secret_key) (\<lambda>fund_sk.
     case info of
       EnumInfo \<Rightarrow> (case contract_descriptor ci of
           EnumContract e \<Rightarrow> dlc_err (enum_sign B S e (get_oracle_infos ci) (ci_threshold ci) txs fund_sk spk v)
         | NumericalContract _ \<Rightarrow> None)
     | NumericalInfo t \<Rightarrow> pbind (precompute_points B S ci) (\<lambda>points.
         dlc_err (sign_trie mot_iter (combine_keys S) (create_cet_adaptor_sig_from_point S fund_sk spk v) txs points t))
     | NumericalWithDifference t \<Rightarrow> pbind (precompute_points B S ci) (\<lambda>points.
         dlc_err (sign_trie mtd_iter (combine_keys S) (create_cet_adaptor_sig_from_point S fund_sk spk v) txs points t)))"

definition verify_and_get_adaptor_info ::
  "btc \<Rightarrow> secp \<Rightarrow> ContractInfo \<Rightarrow> amount \<Rightarrow> pubkey \<Rightarrow> script \<Rightarrow> amount \<Rightarrow> Transaction list \<Rightarrow> bytes list \<Rightarrow> nat \<Rightarrow>
   (Error + AdaptorInfo \<times> nat) option" where
  "verify_and_get_adaptor_info B S ci total_collateral fund_pk spk v txs adaptor_sigs start = (case contract_descriptor ci of
     EnumContract e \<Rightarrow>
       pbind (dlc_err (enum_verify B S e (get_oracle_infos ci) (ci_threshold ci) fund_pk spk v txs adaptor_sigs start)) (\<lambda>index.
       pok (EnumInfo, index))
   | NumericalContract n \<Rightarrow> pbind (precompute_points B S ci) (\<lambda>points.
       numerical_verify S n total_collateral fund_pk spk v (ci_threshold ci) points txs adaptor_sigs start))"

definition get_range_info_for_outcome ::
  "map_orders \<Rightarrow> ContractInfo \<Rightarrow> AdaptorInfo \<Rightarrow> (nat \<times> string list) list \<Rightarrow> nat \<Rightarrow> (OracleIndexAndPrefixLength \<times> RangeInfo) option option" where
  "get_range_info_for_outcome H ci info outcomes adaptor_sig_start = (case info of
     EnumInfo \<Rightarrow> (case contract_descriptor ci of
         EnumContract e \<Rightarrow> enum_range_info H e (length (oracle_announcements ci)) (ci_threshold ci) outcomes adaptor_sig_start
       | NumericalContract _ \<Rightarrow> None)
   | NumericalInfo t \<Rightarrow>
       map_option (map_option (\<lambda>(r, paths). (map (\<lambda>(x, y). (x, length y)) paths, r)))
         (mot_look_up (digit_order H) t (outcomes_to_digits outcomes))
   | NumericalWithDifference t \<Rightarrow>
       map_option (map_option (\<lambda>(r, paths). (map (\<lambda>(x, y). (x, length y)) paths, r)))
         (mt_look_up (multi_trie t) (outcomes_to_digits outcomes)))"

definition verify_adaptor_info ::
  "btc \<Rightarrow> secp \<Rightarrow> ContractInfo \<Rightarrow> pubkey \<Rightarrow> script \<Rightarrow> amount \<Rightarrow> Transaction list \<Rightarrow> bytes list \<Rightarrow> nat \<Rightarrow> AdaptorInfo \<Rightarrow>
   (Error + nat) option" where
  "verify_adaptor_info B S ci fund_pk spk v txs adaptor_sigs start info = (case contract_descriptor ci of
     EnumContract e \<Rightarrow> dlc_err (enum_verify B S e (get_oracle_infos ci) (ci_threshold ci) fund_pk spk v txs adaptor_sigs start)
   | NumericalContract _ \<Rightarrow> (case info of
         EnumInfo \<Rightarrow> None
       | NumericalInfo t \<Rightarrow> pbind (precompute_points B S ci) (\<lambda>points.
           dlc_err (verify_trie mot_iter (combine_keys S) (verify_cet_adaptor_sig_from_point S fund_pk spk v) txs adaptor_sigs points t))
       | NumericalWithDifference t \<Rightarrow> pbind (precompute_points B S ci) (\<lambda>points.
           dlc_err (verify_trie mtd_iter (combine_keys S) (verify_cet_adaptor_sig_from_point S fund_pk spk v) txs adaptor_sigs points t))))"

definition get_adaptor_info ::
  "btc \<Rightarrow> secp \<Rightarrow> ContractInfo \<Rightarrow> amount \<Rightarrow> bytes \<Rightarrow> script \<Rightarrow> amount \<Rightarrow> Transaction list \<Rightarrow> nat \<Rightarrow>
   (Error + AdaptorInfo \<times> bytes list) option" where
  "get_adaptor_info B S ci total_collateral fund_sk spk v txs start = (case contract_descriptor ci of
     EnumContract e \<Rightarrow>
       pbind (dlc_err (enum_sign B S e (get_oracle_infos ci) (ci_threshold ci) txs fund_sk spk v)) (\<lambda>sigs. pok (EnumInfo, sigs))
   | NumericalContract n \<Rightarrow> pbind (precompute_points B S ci) (\<lambda>points.
       numerical_sign S n total_collateral fund_sk spk v (ci_threshold ci) points txs start))"

end
