(* ===== verification/ContractMsgs.thy ===== *)
theory ContractMsgs
  imports OracleMsgs PayoutCurve
begin

text \<open>
  The messages of a contract: \<open>dlc-messages/src/contract_msgs.rs\<close> and the contract half of \<open>dlc-messages/src/lib.rs\<close>, the
  data that two parties exchange and the checks on an offer. A panic is \<open>None\<close>. Amounts are satoshis; a \<open>Signature\<close>, an
  adaptor signature and a witness element are byte strings.
\<close>

section \<open>The terms of a contract\<close>

record ContractOutcome =
  co_outcome :: string
  co_offer_payout :: amount

record SerHyperbolaPiece =
  sh_use_positive_piece :: bool
  sh_translate_outcome :: double
  sh_translate_payout :: double
  sh_a :: double
  sh_b :: double
  sh_c :: double
  sh_d :: double

text \<open>The points of a polynomial without its end points.\<close>

datatype PayoutCurvePiece = SerPolynomial "PayoutPoint list" | SerHyperbola SerHyperbolaPiece

record SerPayoutFunctionPiece =
  end_point :: PayoutPoint
  payout_curve_piece :: PayoutCurvePiece

record SerPayoutFunction =
  payout_function_pieces :: "SerPayoutFunctionPiece list"
  last_endpoint :: PayoutPoint

record NumericOutcomeContractDescriptor =
  num_digits :: nat
  noc_payout_function :: SerPayoutFunction
  noc_rounding_intervals :: RoundingIntervals

datatype SerContractDescriptor =
    EnumeratedContractDescriptor "ContractOutcome list"
  | NumericOutcomeDescriptor NumericOutcomeContractDescriptor

record ContractInfoInner =
  cii_descriptor :: SerContractDescriptor
  cii_oracle_info :: MsgOracleInfo

text \<open>The total collateral and the contracts on one event or on several.\<close>

datatype SerContractInfo =
    SingleContractInfo (ser_total_collateral: amount) ContractInfoInner
  | DisjointContractInfo (ser_total_collateral: amount) "ContractInfoInner list"

fun closest_maturity_date :: "SerContractInfo \<Rightarrow> nat option" where
  "closest_maturity_date (SingleContractInfo _ s) = get_closest_maturity_date (cii_oracle_info s)"
| "closest_maturity_date (DisjointContractInfo _ infos) =
     Option.bind (omap (\<lambda>x. get_closest_maturity_date (cii_oracle_info x)) infos) (\<lambda>ds.
       case ds of [] \<Rightarrow> None | d # ds \<Rightarrow> Some (fold min ds d))"

section \<open>Messages\<close>

record FundingInput =
  fi_serial_id :: nat
  prev_tx :: bytes
  prev_tx_vout :: nat
  fi_sequence :: nat
  fi_max_witness_len :: nat
  fi_redeem_script :: script

text \<open>A \<open>FundingSignature\<close> is its vector of witness elements.\<close>

type_synonym FundingSignatures = "bytes list list"

datatype NegotiationFields = SingleNegotiation RoundingIntervals | DisjointNegotiation "NegotiationFields list"

record OfferDlc =
  od_protocol_version :: nat
  od_contract_flags :: nat
  od_chain_hash :: bytes
  od_temporary_contract_id :: bytes
  od_contract_info :: SerContractInfo
  od_funding_pubkey :: pubkey
  od_payout_spk :: script
  od_payout_serial_id :: nat
  od_offer_collateral :: amount
  od_funding_inputs :: "FundingInput list"
  od_change_spk :: script
  od_change_serial_id :: nat
  od_fund_output_serial_id :: nat
  od_fee_rate_per_vb :: nat
  od_cet_locktime :: nat
  od_refund_locktime :: nat

record OfferLoanDlc =
  ol_collateral_ratio :: nat
  ol_liquidation_ratio :: nat
  ol_interest_rate :: nat
  ol_duration :: nat
  ol_lender_hash :: bytes
  ol_offer_dlc :: OfferDlc

record AcceptDlc =
  ad_protocol_version :: nat
  ad_temporary_contract_id :: bytes
  ad_accept_collateral :: amount
  ad_funding_pubkey :: pubkey
  ad_payout_spk :: script
  ad_payout_serial_id :: nat
  ad_funding_inputs :: "FundingInput list"
  ad_change_spk :: script
  ad_change_serial_id :: nat
  ad_cet_adaptor_signatures :: "bytes list"
  ad_refund_signature :: bytes
  ad_negotiation_fields :: "NegotiationFields option"

record AcceptLoanDlc =
  al_protocol_version :: nat
  al_temporary_contract_id :: bytes
  al_accept_collateral :: amount
  al_funding_pubkey :: pubkey
  al_payout_spk :: script
  al_payout_serial_id :: nat
  al_funding_inputs :: "FundingInput list"
  al_change_spk :: script
  al_change_serial_id :: nat
  al_cet_adaptor_signatures :: "bytes list"
  al_refund_signature :: bytes
  al_negotiation_fields :: "NegotiationFields option"
  al_escrow_txid :: bytes
  al_borrower_hash :: bytes
  al_signed_escrow_spend_tx :: Transaction
  al_escrow_amount :: amount
  al_escrow_spk :: script
  al_collateral_spk :: script

record SignDlc =
  sd_protocol_version :: nat
  sd_contract_id :: bytes
  sd_cet_adaptor_signatures :: "bytes list"
  sd_refund_signature :: bytes
  sd_funding_signatures :: FundingSignatures

record InitiateAcceptLoanDlc =
  ia_protocol_version :: nat
  ia_contract_id :: bytes
  ia_borrower_hash :: bytes
  ia_escrow_txid :: bytes

definition to_accept_dlc :: "AcceptLoanDlc \<Rightarrow> AcceptDlc" where
  "to_accept_dlc m = \<lparr>ad_protocol_version = al_protocol_version m, ad_temporary_contract_id = al_temporary_contract_id m,
     ad_accept_collateral = al_accept_collateral m, ad_funding_pubkey = al_funding_pubkey m, ad_payout_spk = al_payout_spk m,
     ad_payout_serial_id = al_payout_serial_id m, ad_funding_inputs = al_funding_inputs m, ad_change_spk = al_change_spk m,
     ad_change_serial_id = al_change_serial_id m, ad_cet_adaptor_signatures = al_cet_adaptor_signatures m,
     ad_refund_signature = al_refund_signature m, ad_negotiation_fields = al_negotiation_fields m\<rparr>"

section \<open>Checks on an offer\<close>

definition offer_total_collateral :: "OfferDlc \<Rightarrow> amount" where
  "offer_total_collateral m = ser_total_collateral (od_contract_info m)"

definition validate_oracle_infos :: "btc \<Rightarrow> oracle_lib \<Rightarrow> SerContractInfo \<Rightarrow> DlcError + unit" where
  "validate_oracle_infos B L info = (case info of
     SingleContractInfo _ s \<Rightarrow> validate_oracle_info B L (cii_oracle_info s)
   | DisjointContractInfo _ infos \<Rightarrow>
       if length infos < 2 then Inl InvalidArgument else rforall (\<lambda>c. validate_oracle_info B L (cii_oracle_info c)) infos)"

text \<open>Locktimes are \<open>u32\<close>; the sums are computed only as far as \<open>&&\<close> goes.\<close>

definition u32_add :: "nat \<Rightarrow> nat \<Rightarrow> nat option" where
  "u32_add a b = (if a + b < u32_bound then Some (a + b) else None)"

definition validate_offer_dlc :: "btc \<Rightarrow> oracle_lib \<Rightarrow> OfferDlc \<Rightarrow> nat \<Rightarrow> nat \<Rightarrow> (DlcError + unit) option" where
  "validate_offer_dlc B L m min_timeout_interval max_timeout_interval =
     pbind (Some (validate_oracle_infos B L (od_contract_info m))) (\<lambda>_.
     obind (closest_maturity_date (od_contract_info m)) (\<lambda>closest.
     obind (if \<not> od_cet_locktime m \<le> closest then Some False
       else obind (u32_add closest min_timeout_interval) (\<lambda>earliest.
         if \<not> earliest \<le> od_refund_locktime m then Some False
         else map_option (\<lambda>latest. od_refund_locktime m \<le> latest) (u32_add closest max_timeout_interval))) (\<lambda>valid_dates.
     if \<not> valid_dates then perr InvalidArgument else pok ())))"

definition validate_offer_loan_dlc :: "btc \<Rightarrow> oracle_lib \<Rightarrow> OfferLoanDlc \<Rightarrow> nat \<Rightarrow> nat \<Rightarrow> (DlcError + unit) option" where
  "validate_offer_loan_dlc B L m min_timeout_interval max_timeout_interval =
     validate_offer_dlc B L (ol_offer_dlc m) min_timeout_interval max_timeout_interval"

lemma u32_add_Some [simp]: "u32_add a b = Some c \<longleftrightarrow> c = a + b \<and> c < u32_bound"
  by (auto simp: u32_add_def)

lemma u32_add_None [simp]: "u32_add a b = None \<longleftrightarrow> u32_bound \<le> a + b"
  by (auto simp: u32_add_def)

lemma u32_add_in [simp]: "a + b < u32_bound \<Longrightarrow> u32_add a b = Some (a + b)"
  by simp

lemma fold_min_le: "fold min xs (m :: nat) \<le> m \<and> (\<forall>x \<in> set xs. fold min xs m \<le> x)"
proof (induction xs arbitrary: m)
  case (Cons a xs)
  then show ?case using Cons[of "min a m"] by auto
qed simp

lemma list_all2_partner: "list_all2 P xs ys \<Longrightarrow> x \<in> set xs \<Longrightarrow> \<exists>y \<in> set ys. P x y"
  by (induction xs ys rule: list_all2_induct) auto

lemma closest_of_all:
  assumes "closest_maturity_date (DisjointContractInfo T infos) = Some d" "x \<in> set infos"
  shows "\<exists>e. get_closest_maturity_date (cii_oracle_info x) = Some e \<and> d \<le> e"
proof -
  obtain ds where ds: "omap (\<lambda>x. get_closest_maturity_date (cii_oracle_info x)) infos = Some ds" "ds \<noteq> []" "d = fold min (tl ds) (hd ds)"
    using assms(1) by (auto simp: bind_eq_Some_conv neq_Nil_conv split: list.splits)
  have "list_all2 (\<lambda>x y. get_closest_maturity_date (cii_oracle_info x) = Some y) infos ds" using ds(1) by (simp only: omap_Some_iff)
  from list_all2_partner[OF this assms(2)] obtain e where "get_closest_maturity_date (cii_oracle_info x) = Some e" "e \<in> set ds" by blast
  then show ?thesis using ds(2,3) fold_min_le[of "tl ds" "hd ds"] by (cases ds) auto
qed

text \<open>What an offer that passes the checks guarantees about the times.\<close>

lemma validated_offer_times:
  "validate_offer_dlc B L m lo hi = pok () \<longleftrightarrow>
     validate_oracle_infos B L (od_contract_info m) = Inr () \<and>
     (\<exists>d. closest_maturity_date (od_contract_info m) = Some d \<and> od_cet_locktime m \<le> d \<and> d + lo \<le> od_refund_locktime m \<and>
       od_refund_locktime m \<le> d + hi \<and> d + lo < u32_bound \<and> d + hi < u32_bound)"
  by (auto simp: validate_offer_dlc_def bind_eq_Some_conv split: if_splits)

end
