(* ===== verification/Contract.thy ===== *)
theory Contract
  imports ContractInfo ContractMsgs
begin

text \<open>
  Contracts as the manager keeps them: \<open>contract_input.rs\<close>, \<open>offered_contract.rs\<close>, \<open>accepted_contract.rs\<close>,
  \<open>signed_contract.rs\<close> and the states of \<open>contract/mod.rs\<close>, the helpers of \<open>utils.rs\<close>, and the conversions of
  \<open>conversion_utils.rs\<close> between contracts and messages, in \<open>dlc-manager/src\<close>. What wallet, blockchain, signer provider,
  clock and random numbers give during one call is a record. A panic is \<open>None\<close>.
\<close>

section \<open>The outside\<close>

record Utxo =
  utxo_tx_out :: TxOut
  utxo_outpoint :: OutPoint
  utxo_redeem_script :: script

record tx_codec =
  consensus_encode :: "Transaction \<Rightarrow> bytes"
  consensus_decode :: "bytes \<Rightarrow> string + Transaction"

text \<open>
  Answers of the traits \<open>Wallet\<close>, \<open>Blockchain\<close>, \<open>ContractSignerProvider\<close>, \<open>ContractSigner\<close> (by key id) and \<open>Time\<close>, and of
  the random generators: \<open>serial_ids k\<close> is the \<open>k\<close>-th new serial id of the call.
\<close>

record outside =
  new_address :: "Error + script"
  new_change_address :: "Error + script"
  utxos_for_amount :: "amount \<Rightarrow> nat \<Rightarrow> Error + Utxo list"
  sign_raw_transaction :: "Transaction \<Rightarrow> Error + Transaction"
  chain_transaction :: "bytes \<Rightarrow> Error + Transaction"
  derive_signer_key_id :: "bool \<Rightarrow> bytes \<Rightarrow> bytes"
  derive_contract_signer :: "bytes \<Rightarrow> Error + bytes"
  signer_public_key :: "bytes \<Rightarrow> Error + pubkey"
  signer_secret_key :: "bytes \<Rightarrow> Error + bytes"
  unix_time_now :: nat
  serial_ids :: "nat \<Rightarrow> nat"
  temporary_id :: bytes

section \<open>Inputs of the funding transaction\<close>

definition decode_tx :: "tx_codec \<Rightarrow> bytes \<Rightarrow> ConversionError + Transaction" where
  "decode_tx K b = (case consensus_decode K b of Inl e \<Rightarrow> Inl (BitcoinEncoding e) | Inr tx \<Rightarrow> Inr tx)"

text \<open>\<open>From<&FundingInput> for TxInputInfo\<close> expects the transaction to decode.\<close>

definition to_tx_input_info :: "btc \<Rightarrow> tx_codec \<Rightarrow> FundingInput \<Rightarrow> TxInputInfo option" where
  "to_tx_input_info B K f = map_option (\<lambda>tx.
     \<lparr>ii_outpoint = \<lparr>txid = compute_txid B tx, vout = prev_tx_vout f\<rparr>, max_witness_len = fi_max_witness_len f,
      redeem_script = fi_redeem_script f, ii_serial_id = fi_serial_id f\<rparr>) (unwrap (consensus_decode K (prev_tx f)))"

fun tx_input_infos_loop ::
  "btc \<Rightarrow> tx_codec \<Rightarrow> FundingInput list \<Rightarrow> amount \<Rightarrow> TxInputInfo list \<Rightarrow> (ConversionError + TxInputInfo list \<times> amount) option" where
  "tx_input_infos_loop B K [] amt inputs = pok (inputs, amt)"
| "tx_input_infos_loop B K (f # fs) amt inputs =
     pbind (Some (decode_tx K (prev_tx f))) (\<lambda>tx.
     pbind (Some (ok_or ConversionInvalidParameters (vget (tx_output tx) (prev_tx_vout f)))) (\<lambda>tx_out.
     obind (u64_add amt (txo_value tx_out)) (\<lambda>a.
     tx_input_infos_loop B K fs a (inputs @
       [\<lparr>ii_outpoint = \<lparr>txid = compute_txid B tx, vout = prev_tx_vout f\<rparr>, max_witness_len = 107,
         redeem_script = fi_redeem_script f, ii_serial_id = fi_serial_id f\<rparr>]))))"

definition get_tx_input_infos :: "btc \<Rightarrow> tx_codec \<Rightarrow> FundingInput list \<Rightarrow> (ConversionError + TxInputInfo list \<times> amount) option" where
  "get_tx_input_infos B K fs = tx_input_infos_loop B K fs 0 []"

definition get_half_common_fee :: "nat \<Rightarrow> DlcError + amount" where
  "get_half_common_fee fee_rate = rbind (get_common_fee fee_rate) (\<lambda>c. Inr (f64_ceil (f64_div (f64_of_nat c) (f64_of_nat 2))))"

fun fund_utxos ::
  "btc \<Rightarrow> tx_codec \<Rightarrow> outside \<Rightarrow> Utxo list \<Rightarrow> nat \<Rightarrow> FundingInput list \<Rightarrow> TxInputInfo list \<Rightarrow> amount \<Rightarrow>
   (Error + FundingInput list \<times> TxInputInfo list \<times> amount) option" where
  "fund_utxos B K W [] k funding_inputs infos total_input = pok (funding_inputs, infos, total_input)"
| "fund_utxos B K W (utxo # rest) k funding_inputs infos total_input =
     pbind (Some (chain_transaction W (txid (utxo_outpoint utxo)))) (\<lambda>tx.
     let f = \<lparr>fi_serial_id = serial_ids W k, prev_tx = consensus_encode K tx, prev_tx_vout = vout (utxo_outpoint utxo),
           fi_sequence = 0xffffffff, fi_max_witness_len = 107, fi_redeem_script = utxo_redeem_script utxo\<rparr> in
     obind (vget (tx_output tx) (vout (utxo_outpoint utxo))) (\<lambda>out.
     obind (u64_add total_input (txo_value out)) (\<lambda>total_input.
     obind (to_tx_input_info B K f) (\<lambda>info.
     fund_utxos B K W rest (k + 1) (funding_inputs @ [f]) (infos @ [info]) total_input))))"

definition get_party_params ::
  "btc \<Rightarrow> tx_codec \<Rightarrow> outside \<Rightarrow> amount \<Rightarrow> nat \<Rightarrow> bytes \<Rightarrow> (Error + PartyParams \<times> FundingInput list) option" where
  "get_party_params B K W own_collateral fee_rate signer =
     pbind (Some (signer_public_key W signer)) (\<lambda>funding_pubkey.
     pbind (Some (new_address W)) (\<lambda>payout_spk.
     pbind (Some (new_change_address W)) (\<lambda>change_spk.
     pbind (dlc_err (Some (get_half_common_fee fee_rate))) (\<lambda>half.
     obind (u64_add own_collateral half) (\<lambda>a.
     pbind (dlc_err (Some (weight_to_fee 124 fee_rate))) (\<lambda>f.
     obind (u64_add a f) (\<lambda>appr_required_amount.
     pbind (Some (utxos_for_amount W appr_required_amount fee_rate)) (\<lambda>utxos.
     pbind (fund_utxos B K W utxos 2 [] [] 0) (\<lambda>(funding_inputs, infos, total_input).
     pok (\<lparr>fund_pubkey = funding_pubkey, change_script_pubkey = change_spk, change_serial_id = serial_ids W 1,
           payout_script_pubkey = payout_spk, payout_serial_id = serial_ids W 0, pp_inputs = infos,
           input_amount = total_input, collateral = own_collateral\<rparr>, funding_inputs))))))))))"

definition get_lender_party_params :: "outside \<Rightarrow> bytes \<Rightarrow> Error + PartyParams" where
  "get_lender_party_params W signer =
     rbind (signer_public_key W signer) (\<lambda>funding_pubkey.
     rbind (new_address W) (\<lambda>payout_spk.
     rbind (new_change_address W) (\<lambda>change_spk.
     Inr \<lparr>fund_pubkey = funding_pubkey, change_script_pubkey = change_spk, change_serial_id = serial_ids W 1,
       payout_script_pubkey = payout_spk, payout_serial_id = serial_ids W 0, pp_inputs = [], input_amount = 0, collateral = 0\<rparr>)))"

section \<open>Contract inputs\<close>

record OracleInput =
  oi_public_keys :: "bytes list"
  oi_event_id :: string
  oi_threshold :: nat

record ContractInputInfo =
  cinput_descriptor :: ContractDescriptor
  oracles :: OracleInput

record ContractInput =
  ci_offer_collateral :: amount
  ci_accept_collateral :: amount
  ci_fee_rate :: nat
  ci_contract_infos :: "ContractInputInfo list"

record LoanContractInput =
  lci_collateral_ratio :: nat
  lci_liquidation_ratio :: nat
  lci_interest_rate :: nat
  lci_duration :: nat
  lci_collateral :: amount
  lci_fee_rate :: nat
  lci_contract_infos :: "ContractInputInfo list"

text \<open>The number of keys is cast to \<open>u16\<close>.\<close>

definition validate_oracle_input :: "OracleInput \<Rightarrow> Error + unit" where
  "validate_oracle_input x =
     (if oi_public_keys x = [] then Inl (InvalidParameters ''OracleInput must have at least one public key.'')
      else if length (oi_public_keys x) mod 2 ^ 16 < oi_threshold x
      then Inl (InvalidParameters ''Threshold cannot be larger than number of oracles.'')
      else if oi_threshold x = 0 then Inl (InvalidParameters ''Threshold cannot be zero.'')
      else Inr ())"

definition fee_rate_ok :: "string \<Rightarrow> nat \<Rightarrow> Error + unit" where
  "fee_rate_ok msg fee_rate = (case validate_fee_rate fee_rate of Inl _ \<Rightarrow> Inl (InvalidParameters msg) | Inr _ \<Rightarrow> Inr ())"

definition validate_contract_input :: "ContractInput \<Rightarrow> Error + unit" where
  "validate_contract_input c =
     (if ci_contract_infos c = [] then Inl (InvalidParameters ''Need at least one contract info'')
      else rbind (rforall (\<lambda>x. validate_oracle_input (oracles x)) (ci_contract_infos c)) (\<lambda>_.
        fee_rate_ok ''Fee rate too high.'' (ci_fee_rate c)))"

definition validate_loan_input :: "LoanContractInput \<Rightarrow> Error + unit" where
  "validate_loan_input c =
     (if lci_interest_rate c = 0 \<or> 100 < lci_interest_rate c then Inl (InvalidParameters ''Interest rate must be between 1 and 100.'')
      else if lci_duration c = 0 then Inl (InvalidParameters ''Duration must be greater than zero.'')
      else if lci_contract_infos c = [] then Inl (InvalidParameters ''Need at least one contract info'')
      else rbind (rforall (\<lambda>x. validate_oracle_input (oracles x)) (lci_contract_infos c)) (\<lambda>_.
        fee_rate_ok ''Fee rate too high.'' (lci_fee_rate c)))"

section \<open>Offered contracts\<close>

record OfferedContract =
  oc_id :: bytes
  is_offer_party :: bool
  contract_info :: "ContractInfo list"
  counter_party :: pubkey
  offer_params :: PartyParams
  total_collateral :: amount
  oc_funding_inputs :: "FundingInput list"
  fund_output_serial_id :: nat
  fee_rate_per_vb :: nat
  cet_locktime :: nat
  refund_locktime :: nat
  keys_id :: bytes

text \<open>\<open>iter().all(f)\<close> stops at the first that does not hold.\<close>

fun oall :: "('a \<Rightarrow> bool option) \<Rightarrow> 'a list \<Rightarrow> bool option" where
  "oall f [] = Some True"
| "oall f (x # xs) = Option.bind (f x) (\<lambda>b. if b then oall f xs else Some False)"

lemma oall_True: "oall f xs = Some True \<longleftrightarrow> (\<forall>x \<in> set xs. f x = Some True)"
  by (induction xs) (auto simp: bind_eq_Some_conv split: if_splits)

definition validate_offered_info :: "amount \<Rightarrow> ContractInfo \<Rightarrow> (Error + unit) option" where
  "validate_offered_info T info =
     pbind (validate_info info) (\<lambda>_.
     pbind (get_payouts info T) (\<lambda>payouts.
     obind (oall (\<lambda>p. map_option (\<lambda>s. s = T) (u64_add (accept_payout p) (offer_payout p))) payouts) (\<lambda>valid.
     if valid then pok () else perr (InvalidParameters ''Sum of payout doesn't equal total collateral''))))"

definition validate_offered :: "OfferedContract \<Rightarrow> (Error + unit) option" where
  "validate_offered oc =
     pbind (Some (fee_rate_ok ''Fee rate is too high'' (fee_rate_per_vb oc))) (\<lambda>_.
     pforall (validate_offered_info (total_collateral oc)) (contract_info oc))"

definition get_latest_maturity_date :: "OracleAnnouncement list list \<Rightarrow> Error + nat" where
  "get_latest_maturity_date announcements =
     (case map (\<lambda>x. event_maturity_epoch (oracle_event x)) (concat announcements) of
        [] \<Rightarrow> Inl (InvalidParameters ''Could not find maximum event maturity.'')
      | d # ds \<Rightarrow> Inr (fold max ds d))"

definition new_offered ::
  "bytes \<Rightarrow> ContractInput \<Rightarrow> OracleAnnouncement list list \<Rightarrow> PartyParams \<Rightarrow> FundingInput list \<Rightarrow> pubkey \<Rightarrow> nat \<Rightarrow> nat \<Rightarrow> bytes \<Rightarrow> nat \<Rightarrow>
   OfferedContract option" where
  "new_offered i contract announcements params funding_inputs cp refund_delay cet_lock keys serial = do {
     T \<leftarrow> u64_add (ci_offer_collateral contract) (ci_accept_collateral contract);
     assert_that (length (ci_contract_infos contract) = length announcements);
     latest \<leftarrow> unwrap (get_latest_maturity_date announcements);
     refund_lock \<leftarrow> u32_add latest refund_delay;
     Some \<lparr>oc_id = i, is_offer_party = True,
       contract_info = map (\<lambda>(x, y). \<lparr>contract_descriptor = cinput_descriptor x, oracle_announcements = y, ci_threshold = oi_threshold (oracles x)\<rparr>)
         (zip (ci_contract_infos contract) announcements),
       counter_party = cp, offer_params = params, total_collateral = T, oc_funding_inputs = funding_inputs,
       fund_output_serial_id = serial, fee_rate_per_vb = ci_fee_rate contract, cet_locktime = cet_lock,
       refund_locktime = refund_lock, keys_id = keys\<rparr>
   }"

record OfferedLoanContract =
  offered_contract :: OfferedContract
  collateral_ratio :: nat
  liquidation_ratio :: nat
  interest_rate :: nat
  duration :: nat
  lender_hash :: bytes

definition validate_offered_loan :: "OfferedLoanContract \<Rightarrow> (Error + unit) option" where
  "validate_offered_loan l =
     pbind (validate_offered (offered_contract l)) (\<lambda>_.
     if collateral_ratio l \<le> liquidation_ratio l
     then perr (InvalidParameters ''Collateral ratio must be greater than liquidation ratio'') else pok ())"

section \<open>Contracts and messages\<close>

definition PROTOCOL_VERSION :: nat where "PROTOCOL_VERSION = 1"

definition BITCOIN_CHAINHASH :: bytes where
  "BITCOIN_CHAINHASH = [0x06, 0x22, 0x6e, 0x46, 0x11, 0x1a, 0x0b, 0x59, 0xca, 0xaf, 0x12, 0x60, 0x43, 0xeb, 0x5b, 0xbf,
     0x28, 0xc3, 0x4f, 0x3a, 0x5e, 0x33, 0x2a, 0x1f, 0xc7, 0xb2, 0xb7, 0x3c, 0xf1, 0x88, 0x91, 0x0f]"

definition ser_piece :: "PayoutFunctionPiece \<Rightarrow> SerPayoutFunctionPiece option" where
  "ser_piece piece = (case piece of
     PolynomialPayoutCurvePiece ps \<Rightarrow> do {
       left \<leftarrow> vget ps 0;
       inner \<leftarrow> u64_sub (length ps) 2;
       Some \<lparr>end_point = left, payout_curve_piece = SerPolynomial (take inner (drop 1 ps))\<rparr>
     }
   | HyperbolaPayoutCurvePiece h \<Rightarrow> Some \<lparr>end_point = left_end_point h, payout_curve_piece = SerHyperbola
       \<lparr>sh_use_positive_piece = use_positive_piece h, sh_translate_outcome = translate_outcome h,
        sh_translate_payout = translate_payout h, sh_a = hyp_a h, sh_b = hyp_b h, sh_c = hyp_c h, sh_d = hyp_d h\<rparr>\<rparr>)"

definition ser_payout_function :: "PayoutFunction \<Rightarrow> SerPayoutFunction option" where
  "ser_payout_function f = do {
     pieces \<leftarrow> omap ser_piece f;
     last_piece \<leftarrow> last_elem f;
     p \<leftarrow> get_last_point last_piece;
     Some \<lparr>payout_function_pieces = pieces, last_endpoint = p\<rparr>
   }"

definition from_ser_payout_function_piece :: "SerPayoutFunctionPiece \<Rightarrow> PayoutPoint \<Rightarrow> PayoutFunctionPiece" where
  "from_ser_payout_function_piece piece right = (case payout_curve_piece piece of
     SerPolynomial ps \<Rightarrow> PolynomialPayoutCurvePiece ([end_point piece] @ ps @ [right])
   | SerHyperbola h \<Rightarrow> HyperbolaPayoutCurvePiece
       \<lparr>left_end_point = end_point piece, right_end_point = right, use_positive_piece = sh_use_positive_piece h,
        translate_outcome = sh_translate_outcome h, translate_payout = sh_translate_payout h,
        hyp_a = sh_a h, hyp_b = sh_b h, hyp_c = sh_c h, hyp_d = sh_d h\<rparr>)"

definition from_ser_payout_function :: "SerPayoutFunction \<Rightarrow> PayoutFunction" where
  "from_ser_payout_function f =
     (let pieces = payout_function_pieces f
      in map (\<lambda>(x, y). from_ser_payout_function_piece x y) (zip pieces (map end_point (drop 1 pieces) @ [last_endpoint f])))"

definition ser_descriptor :: "ContractDescriptor \<Rightarrow> SerContractDescriptor option" where
  "ser_descriptor d = (case d of
     EnumContract e \<Rightarrow> Some (EnumeratedContractDescriptor
       (map (\<lambda>x. \<lparr>co_outcome = ep_outcome x, co_offer_payout = offer_payout (ep_payout x)\<rparr>) e))
   | NumericalContract n \<Rightarrow> do {
       m \<leftarrow> get_min_nb_digits (nd_numeric_infos n);
       f \<leftarrow> ser_payout_function (payout_function n);
       Some (NumericOutcomeDescriptor \<lparr>num_digits = m mod 2 ^ 16, noc_payout_function = f, noc_rounding_intervals = rounding_intervals n\<rparr>)
     })"

definition ser_params :: "DifferenceParams \<Rightarrow> OracleParams" where
  "ser_params p = \<lparr>op_max_error_exp = dp_max_error_exp p mod 2 ^ 16, op_min_fail_exp = min_support_exp p mod 2 ^ 16,
     op_maximize_coverage = maximize_coverage p\<rparr>"

definition from_ser_params :: "OracleParams \<Rightarrow> DifferenceParams" where
  "from_ser_params p = \<lparr>dp_max_error_exp = op_max_error_exp p, min_support_exp = op_min_fail_exp p, maximize_coverage = op_maximize_coverage p\<rparr>"

definition ser_oracle_info :: "ContractInfo \<Rightarrow> MsgOracleInfo" where
  "ser_oracle_info ci = (case oracle_announcements ci of
     [a] \<Rightarrow> SingleOracle a
   | announcements \<Rightarrow> MultiOracles \<lparr>mo_threshold = ci_threshold ci mod 2 ^ 16, mo_announcements = announcements,
       mo_params = map_option ser_params (get_oracle_params (contract_descriptor ci))\<rparr>)"

definition ser_contract_info :: "OfferedContract \<Rightarrow> SerContractInfo option" where
  "ser_contract_info oc = do {
     infos \<leftarrow> omap (\<lambda>c. map_option (\<lambda>d. \<lparr>cii_descriptor = d, cii_oracle_info = ser_oracle_info c\<rparr>) (ser_descriptor (contract_descriptor c)))
       (contract_info oc);
     Some (case infos of [i] \<Rightarrow> SingleContractInfo (total_collateral oc) i | _ \<Rightarrow> DisjointContractInfo (total_collateral oc) infos)
   }"

fun oracles_of :: "MsgOracleInfo \<Rightarrow> OracleAnnouncement list \<times> nat" where
  "oracles_of (SingleOracle a) = ([a], 1)"
| "oracles_of (MultiOracles m) = (mo_announcements m, mo_threshold m)"

fun params_of :: "MsgOracleInfo \<Rightarrow> DifferenceParams option" where
  "params_of (SingleOracle a) = None"
| "params_of (MultiOracles m) = map_option from_ser_params (mo_params m)"

definition is_enum_event :: "OracleAnnouncement \<Rightarrow> bool" where
  "is_enum_event x = (case event_descriptor (oracle_event x) of EnumEvent _ \<Rightarrow> True | DigitDecompositionEvent _ \<Rightarrow> False)"

definition digits_in_base :: "nat \<Rightarrow> OracleAnnouncement \<Rightarrow> ConversionError + nat" where
  "digits_in_base expected_base x = (case event_descriptor (oracle_event x) of
     DigitDecompositionEvent d \<Rightarrow> if dd_base d = expected_base then Inr (dd_nb_digits d) else Inl ConversionInvalidParameters
   | EnumEvent _ \<Rightarrow> Inl ConversionInvalidParameters)"

definition contract_info_of :: "amount \<Rightarrow> ContractInfoInner \<Rightarrow> (ConversionError + ContractInfo) option" where
  "contract_info_of T inner = (let (announcements, thr) = oracles_of (cii_oracle_info inner) in
     case cii_descriptor inner of
       EnumeratedContractDescriptor payouts \<Rightarrow>
         obind (omap (\<lambda>x. map_option (\<lambda>a. \<lparr>ep_outcome = co_outcome x, ep_payout = \<lparr>offer_payout = co_offer_payout x, accept_payout = a\<rparr>\<rparr>)
           (u64_sub T (co_offer_payout x))) payouts) (\<lambda>e.
         if \<not> list_all is_enum_event announcements then perr ConversionInvalidParameters
         else pok \<lparr>contract_descriptor = EnumContract e, oracle_announcements = announcements, ci_threshold = thr\<rparr>)
     | NumericOutcomeDescriptor numeric \<Rightarrow>
         (case announcements of
            [] \<Rightarrow> perr ConversionInvalidParameters
          | a0 # _ \<Rightarrow>
              (case event_descriptor (oracle_event a0) of
                 EnumEvent _ \<Rightarrow> perr ConversionInvalidParameters
               | DigitDecompositionEvent d \<Rightarrow>
                   pbind (Some (rmap (digits_in_base (dd_base d)) announcements)) (\<lambda>nds.
                   pok \<lparr>contract_descriptor = NumericalContract
                          \<lparr>payout_function = from_ser_payout_function (noc_payout_function numeric),
                           rounding_intervals = noc_rounding_intervals numeric, difference_params = params_of (cii_oracle_info inner),
                           nd_numeric_infos = \<lparr>oni_base = dd_base d, nb_digits = nds\<rparr>\<rparr>,
                        oracle_announcements = announcements, ci_threshold = thr\<rparr>))))"

definition get_contract_info_and_announcements :: "SerContractInfo \<Rightarrow> (ConversionError + ContractInfo list) option" where
  "get_contract_info_and_announcements info = (case info of
     SingleContractInfo T i \<Rightarrow> pmap (contract_info_of T) [i]
   | DisjointContractInfo T infos \<Rightarrow> pmap (contract_info_of T) infos)"

definition to_offer_dlc :: "OfferedContract \<Rightarrow> OfferDlc option" where
  "to_offer_dlc oc = map_option (\<lambda>info.
     \<lparr>od_protocol_version = PROTOCOL_VERSION, od_contract_flags = 0, od_chain_hash = BITCOIN_CHAINHASH,
      od_temporary_contract_id = oc_id oc, od_contract_info = info, od_funding_pubkey = fund_pubkey (offer_params oc),
      od_payout_spk = payout_script_pubkey (offer_params oc), od_payout_serial_id = payout_serial_id (offer_params oc),
      od_offer_collateral = collateral (offer_params oc), od_funding_inputs = oc_funding_inputs oc,
      od_change_spk = change_script_pubkey (offer_params oc), od_change_serial_id = change_serial_id (offer_params oc),
      od_fund_output_serial_id = fund_output_serial_id oc, od_fee_rate_per_vb = fee_rate_per_vb oc,
      od_cet_locktime = cet_locktime oc, od_refund_locktime = refund_locktime oc\<rparr>) (ser_contract_info oc)"

definition try_from_offer_dlc :: "btc \<Rightarrow> tx_codec \<Rightarrow> OfferDlc \<Rightarrow> pubkey \<Rightarrow> bytes \<Rightarrow> (ConversionError + OfferedContract) option" where
  "try_from_offer_dlc B K m cp keys =
     pbind (get_contract_info_and_announcements (od_contract_info m)) (\<lambda>infos.
     pbind (get_tx_input_infos B K (od_funding_inputs m)) (\<lambda>(inputs, amt).
     pok \<lparr>oc_id = od_temporary_contract_id m, is_offer_party = False, contract_info = infos, counter_party = cp,
       offer_params = \<lparr>fund_pubkey = od_funding_pubkey m, change_script_pubkey = od_change_spk m, change_serial_id = od_change_serial_id m,
         payout_script_pubkey = od_payout_spk m, payout_serial_id = od_payout_serial_id m, pp_inputs = inputs,
         input_amount = amt, collateral = od_offer_collateral m\<rparr>,
       total_collateral = ser_total_collateral (od_contract_info m), oc_funding_inputs = od_funding_inputs m,
       fund_output_serial_id = od_fund_output_serial_id m, fee_rate_per_vb = od_fee_rate_per_vb m,
       cet_locktime = od_cet_locktime m, refund_locktime = od_refund_locktime m, keys_id = keys\<rparr>))"

definition to_offer_loan_dlc :: "OfferedLoanContract \<Rightarrow> OfferLoanDlc option" where
  "to_offer_loan_dlc l = map_option (\<lambda>m. \<lparr>ol_collateral_ratio = collateral_ratio l, ol_liquidation_ratio = liquidation_ratio l,
     ol_interest_rate = interest_rate l, ol_duration = duration l, ol_lender_hash = lender_hash l, ol_offer_dlc = m\<rparr>)
     (to_offer_dlc (offered_contract l))"

definition try_from_offer_loan_dlc :: "btc \<Rightarrow> tx_codec \<Rightarrow> OfferLoanDlc \<Rightarrow> pubkey \<Rightarrow> bytes \<Rightarrow> (ConversionError + OfferedLoanContract) option" where
  "try_from_offer_loan_dlc B K m cp keys =
     pbind (try_from_offer_dlc B K (ol_offer_dlc m) cp keys) (\<lambda>oc.
     pok \<lparr>offered_contract = oc, collateral_ratio = ol_collateral_ratio m, liquidation_ratio = ol_liquidation_ratio m,
       interest_rate = ol_interest_rate m, duration = ol_duration m, lender_hash = ol_lender_hash m\<rparr>)"

section \<open>Accepted and signed contracts\<close>

record AcceptedContract =
  ac_offered_contract :: OfferedContract
  accept_params :: PartyParams
  ac_funding_inputs :: "FundingInput list"
  adaptor_infos :: "AdaptorInfo list"
  ac_adaptor_signatures :: "bytes list option"
  accept_refund_signature :: bytes
  ac_transactions :: DlcTransactions

record AcceptedLoanContract =
  offered_loan_contract :: OfferedLoanContract
  alc_accept_params :: PartyParams
  alc_funding_inputs :: "FundingInput list"
  alc_adaptor_infos :: "AdaptorInfo list"
  alc_adaptor_signatures :: "bytes list option"
  alc_accept_refund_signature :: bytes
  alc_transactions :: DlcTransactions
  escrow_txid :: bytes
  borrower_hash :: bytes
  signed_escrow_spend_tx :: Transaction

record SignedContract =
  accepted_contract :: AcceptedContract
  sc_adaptor_signatures :: "bytes list option"
  offer_refund_signature :: bytes
  funding_signatures :: FundingSignatures
  channel_id :: "bytes option"

text \<open>\<open>get_fund_output\<close> and \<open>get_fund_output_index\<close> unwrap.\<close>

definition get_fund_output :: "btc \<Rightarrow> DlcTransactions \<Rightarrow> TxOut option" where
  "get_fund_output B t = map_option snd (get_output_for_script_pubkey (fund t) (to_p2wsh B (funding_script_pubkey t)))"

definition get_fund_output_index :: "btc \<Rightarrow> DlcTransactions \<Rightarrow> nat option" where
  "get_fund_output_index B t = map_option fst (get_output_for_script_pubkey (fund t) (to_p2wsh B (funding_script_pubkey t)))"

definition get_fund_outpoint :: "btc \<Rightarrow> DlcTransactions \<Rightarrow> OutPoint option" where
  "get_fund_outpoint B t = map_option (\<lambda>i. \<lparr>txid = compute_txid B (fund t), vout = i mod u32_bound\<rparr>) (get_fund_output_index B t)"

definition compute_id :: "bytes \<Rightarrow> nat \<Rightarrow> bytes \<Rightarrow> bytes" where
  "compute_id fund_tx_id fund_output_index tmp_id =
     (let res = map (\<lambda>i. xor (fund_tx_id ! (31 - i)) (tmp_id ! i)) [0..<32];
          res = res[30 := xor (res ! 30) (fund_output_index div 256 mod 256)]
      in res[31 := xor (res ! 31) (fund_output_index mod 256)])"

definition transactions_id :: "btc \<Rightarrow> DlcTransactions \<Rightarrow> bytes \<Rightarrow> bytes option" where
  "transactions_id B t tmp_id =
     map_option (\<lambda>i. compute_id (compute_txid B (fund t)) (i mod 2 ^ 16) tmp_id) (get_fund_output_index B t)"

definition get_contract_id :: "btc \<Rightarrow> AcceptedContract \<Rightarrow> bytes option" where
  "get_contract_id B a = transactions_id B (ac_transactions a) (oc_id (ac_offered_contract a))"

definition get_loan_contract_id :: "btc \<Rightarrow> AcceptedLoanContract \<Rightarrow> bytes option" where
  "get_loan_contract_id B a = transactions_id B (alc_transactions a) (oc_id (offered_contract (offered_loan_contract a)))"

definition hex_digit :: "nat \<Rightarrow> char" where
  "hex_digit d = (if d < 10 then char_of (48 + d) else char_of (87 + d))"

definition get_contract_id_string :: "btc \<Rightarrow> AcceptedContract \<Rightarrow> string option" where
  "get_contract_id_string B a = map_option (\<lambda>i. ''0x'' @ concat (map (\<lambda>b. [hex_digit (b div 16), hex_digit (b mod 16)]) i)) (get_contract_id B a)"

definition get_accept_contract_msg :: "AcceptedContract \<Rightarrow> bytes list \<Rightarrow> AcceptDlc" where
  "get_accept_contract_msg a sigs =
     \<lparr>ad_protocol_version = PROTOCOL_VERSION, ad_temporary_contract_id = oc_id (ac_offered_contract a),
      ad_accept_collateral = collateral (accept_params a), ad_funding_pubkey = fund_pubkey (accept_params a),
      ad_payout_spk = payout_script_pubkey (accept_params a), ad_payout_serial_id = payout_serial_id (accept_params a),
      ad_funding_inputs = ac_funding_inputs a, ad_change_spk = change_script_pubkey (accept_params a),
      ad_change_serial_id = change_serial_id (accept_params a), ad_cet_adaptor_signatures = sigs,
      ad_refund_signature = accept_refund_signature a, ad_negotiation_fields = None\<rparr>"

definition get_accept_loan_msg :: "AcceptedLoanContract \<Rightarrow> bytes list \<Rightarrow> amount \<Rightarrow> script \<Rightarrow> script \<Rightarrow> AcceptLoanDlc" where
  "get_accept_loan_msg a sigs escrow_amount escrow_spk collateral_spk =
     \<lparr>al_protocol_version = PROTOCOL_VERSION, al_temporary_contract_id = oc_id (offered_contract (offered_loan_contract a)),
      al_accept_collateral = collateral (alc_accept_params a), al_funding_pubkey = fund_pubkey (alc_accept_params a),
      al_payout_spk = payout_script_pubkey (alc_accept_params a), al_payout_serial_id = payout_serial_id (alc_accept_params a),
      al_funding_inputs = alc_funding_inputs a, al_change_spk = change_script_pubkey (alc_accept_params a),
      al_change_serial_id = change_serial_id (alc_accept_params a), al_cet_adaptor_signatures = sigs,
      al_refund_signature = alc_accept_refund_signature a, al_negotiation_fields = None, al_escrow_txid = escrow_txid a,
      al_borrower_hash = borrower_hash a, al_signed_escrow_spend_tx = signed_escrow_spend_tx a,
      al_escrow_amount = escrow_amount, al_escrow_spk = escrow_spk, al_collateral_spk = collateral_spk\<rparr>"

text \<open>Amounts above \<open>i64::MAX\<close> have no signed value.\<close>

definition to_signed :: "amount \<Rightarrow> Error + int" where
  "to_signed a = (if a < 2 ^ 63 then Inr (int a) else Inl OutOfRange)"

definition pnl_of :: "PartyParams \<Rightarrow> Transaction \<Rightarrow> Error + int" where
  "pnl_of party cet =
     (let final_payout = (case List.find (\<lambda>x. script_pubkey x = payout_script_pubkey party) (tx_output cet) of
            Some x \<Rightarrow> txo_value x | None \<Rightarrow> 0)
      in rbind (to_signed final_payout) (\<lambda>p. rbind (to_signed (collateral party)) (\<lambda>c. Inr (p - c))))"

definition compute_pnl :: "AcceptedContract \<Rightarrow> Transaction \<Rightarrow> Error + int" where
  "compute_pnl a cet = pnl_of (if is_offer_party (ac_offered_contract a) then offer_params (ac_offered_contract a) else accept_params a) cet"

definition compute_loan_pnl :: "AcceptedLoanContract \<Rightarrow> Transaction \<Rightarrow> Error + int" where
  "compute_loan_pnl a cet = (let oc = offered_contract (offered_loan_contract a) in
     pnl_of (if is_offer_party oc then offer_params oc else alc_accept_params a) cet)"

definition to_accepted_contract :: "AcceptedLoanContract \<Rightarrow> AcceptedContract" where
  "to_accepted_contract a =
     \<lparr>ac_offered_contract = offered_contract (offered_loan_contract a), accept_params = alc_accept_params a,
      ac_funding_inputs = alc_funding_inputs a, adaptor_infos = alc_adaptor_infos a,
      ac_adaptor_signatures = alc_adaptor_signatures a, accept_refund_signature = alc_accept_refund_signature a,
      ac_transactions = alc_transactions a\<rparr>"

definition get_sign_dlc :: "btc \<Rightarrow> SignedContract \<Rightarrow> bytes list \<Rightarrow> SignDlc option" where
  "get_sign_dlc B s sigs = map_option (\<lambda>i.
     \<lparr>sd_protocol_version = PROTOCOL_VERSION, sd_contract_id = i, sd_cet_adaptor_signatures = sigs,
      sd_refund_signature = offer_refund_signature s, sd_funding_signatures = funding_signatures s\<rparr>) (get_contract_id B (accepted_contract s))"

section \<open>The states of a contract\<close>

record FailedAcceptContract =
  fa_offered_contract :: OfferedContract
  accept_message :: AcceptDlc
  fa_error_message :: string

record FailedSignContract =
  fs_accepted_contract :: AcceptedContract
  sign_message :: SignDlc
  fs_error_message :: string

record PreClosedContract =
  pc_signed_contract :: SignedContract
  pc_attestations :: "OracleAttestation list option"
  pc_signed_cet :: Transaction

record ClosedContract =
  cc_attestations :: "OracleAttestation list option"
  cc_signed_cet :: "Transaction option"
  cc_contract_id :: bytes
  cc_temporary_contract_id :: bytes
  cc_counter_party_id :: pubkey
  pnl :: int

datatype Contract =
    Offered OfferedContract
  | OfferedLoan OfferedLoanContract
  | OfferedLoanEscrowConfirmed OfferedLoanContract
  | Accepted AcceptedContract
  | Signed SignedContract
  | Confirmed SignedContract
  | PreClosed PreClosedContract
  | Closed ClosedContract
  | Refunded SignedContract
  | FailedAccept FailedAcceptContract
  | FailedSign FailedSignContract
  | Rejected OfferedContract

text \<open>The contract id has the funding transaction; \<open>get_contract_id\<close> panics when its output is not there.\<close>

fun get_id :: "btc \<Rightarrow> Contract \<Rightarrow> bytes option" where
  "get_id B (Offered oc) = Some (oc_id oc)"
| "get_id B (Rejected oc) = Some (oc_id oc)"
| "get_id B (OfferedLoan l) = Some (oc_id (offered_contract l))"
| "get_id B (OfferedLoanEscrowConfirmed l) = Some (oc_id (offered_contract l))"
| "get_id B (Accepted a) = get_contract_id B a"
| "get_id B (Signed s) = get_contract_id B (accepted_contract s)"
| "get_id B (Confirmed s) = get_contract_id B (accepted_contract s)"
| "get_id B (Refunded s) = get_contract_id B (accepted_contract s)"
| "get_id B (FailedAccept f) = Some (oc_id (fa_offered_contract f))"
| "get_id B (FailedSign f) = get_contract_id B (fs_accepted_contract f)"
| "get_id B (PreClosed p) = get_contract_id B (accepted_contract (pc_signed_contract p))"
| "get_id B (Closed c) = Some (cc_contract_id c)"

fun get_temporary_id :: "Contract \<Rightarrow> bytes" where
  "get_temporary_id (Offered oc) = oc_id oc"
| "get_temporary_id (Rejected oc) = oc_id oc"
| "get_temporary_id (OfferedLoan l) = oc_id (offered_contract l)"
| "get_temporary_id (OfferedLoanEscrowConfirmed l) = oc_id (offered_contract l)"
| "get_temporary_id (Accepted a) = oc_id (ac_offered_contract a)"
| "get_temporary_id (Signed s) = oc_id (ac_offered_contract (accepted_contract s))"
| "get_temporary_id (Confirmed s) = oc_id (ac_offered_contract (accepted_contract s))"
| "get_temporary_id (Refunded s) = oc_id (ac_offered_contract (accepted_contract s))"
| "get_temporary_id (FailedAccept f) = oc_id (fa_offered_contract f)"
| "get_temporary_id (FailedSign f) = oc_id (ac_offered_contract (fs_accepted_contract f))"
| "get_temporary_id (PreClosed p) = oc_id (ac_offered_contract (accepted_contract (pc_signed_contract p)))"
| "get_temporary_id (Closed c) = cc_temporary_contract_id c"

fun get_counter_party_id :: "Contract \<Rightarrow> pubkey" where
  "get_counter_party_id (Offered oc) = counter_party oc"
| "get_counter_party_id (Rejected oc) = counter_party oc"
| "get_counter_party_id (OfferedLoan l) = counter_party (offered_contract l)"
| "get_counter_party_id (OfferedLoanEscrowConfirmed l) = counter_party (offered_contract l)"
| "get_counter_party_id (Accepted a) = counter_party (ac_offered_contract a)"
| "get_counter_party_id (Signed s) = counter_party (ac_offered_contract (accepted_contract s))"
| "get_counter_party_id (Confirmed s) = counter_party (ac_offered_contract (accepted_contract s))"
| "get_counter_party_id (Refunded s) = counter_party (ac_offered_contract (accepted_contract s))"
| "get_counter_party_id (PreClosed p) = counter_party (ac_offered_contract (accepted_contract (pc_signed_contract p)))"
| "get_counter_party_id (Closed c) = cc_counter_party_id c"
| "get_counter_party_id (FailedAccept f) = counter_party (fa_offered_contract f)"
| "get_counter_party_id (FailedSign f) = counter_party (ac_offered_contract (fs_accepted_contract f))"

text \<open>The infos of an outcome and the oracle signatures to decrypt with: of every attestation as many as its prefix has digits.\<close>

definition get_range_info_and_oracle_sigs ::
  "map_orders \<Rightarrow> ContractInfo \<Rightarrow> AdaptorInfo \<Rightarrow> (nat \<times> OracleAttestation) list \<Rightarrow> (Error + RangeInfo \<times> bytes list list) option" where
  "get_range_info_and_oracle_sigs H ci info attestations =
     (let outcomes = map (\<lambda>(i, x). (i, att_outcomes x)) attestations in
      Option.bind (get_range_info_for_outcome H ci info outcomes 0) (\<lambda>info_opt. case info_opt of
        Some (sig_infos, range_info) \<Rightarrow>
          pok (range_info, List.map_filter (\<lambda>(i, a). map_option (\<lambda>sig_info. take (snd sig_info) (att_signatures a))
            (List.find (\<lambda>x. fst x = i) sig_infos)) attestations)
      | None \<Rightarrow> perr (InvalidState ''Could not find closing info for given outcomes'')))"

end
