(* ===== verification/ContractUpdater.thy ===== *)
theory ContractUpdater
  imports Contract
begin

text \<open>
  The steps of a contract, of \<open>dlc-manager/src/contract_updater.rs\<close>: offering, accepting, verifying and signing, and the
  signed execution and refund transactions. Wallet, blockchain, signer provider, clock and random numbers are the record
  \<open>outside\<close>; a panic is \<open>None\<close>. Every later condition of a contract continues the adaptor signatures of the ones before.
\<close>

section \<open>Offering\<close>

definition offer_contract ::
  "btc \<Rightarrow> tx_codec \<Rightarrow> outside \<Rightarrow> ContractInput \<Rightarrow> OracleAnnouncement list list \<Rightarrow> nat \<Rightarrow> pubkey \<Rightarrow> (Error + OfferedContract \<times> OfferDlc) option" where
  "offer_contract B K W contract_input announcements refund_delay cp =
     pbind (Some (validate_contract_input contract_input)) (\<lambda>_.
     let i = temporary_id W; keys = derive_signer_key_id W True i in
     pbind (Some (derive_contract_signer W keys)) (\<lambda>signer.
     pbind (get_party_params B K W (ci_offer_collateral contract_input) (ci_fee_rate contract_input) signer) (\<lambda>(party_params, funding_inputs).
     obind (new_offered i contract_input announcements party_params funding_inputs cp refund_delay (unix_time_now W mod u32_bound) keys
       (serial_ids W (2 + length funding_inputs))) (\<lambda>oc.
     obind (to_offer_dlc oc) (\<lambda>msg. pok (oc, msg))))))"

definition offer_loan_contract ::
  "btc \<Rightarrow> outside \<Rightarrow> LoanContractInput \<Rightarrow> OracleAnnouncement list list \<Rightarrow> nat \<Rightarrow> pubkey \<Rightarrow> nat \<Rightarrow> (Error + OfferedLoanContract \<times> OfferLoanDlc) option" where
  "offer_loan_contract B W loan_input announcements refund_delay cp lender_preimage =
     pbind (Some (validate_loan_input loan_input)) (\<lambda>_.
     let i = temporary_id W; keys = derive_signer_key_id W True i in
     pbind (Some (derive_contract_signer W keys)) (\<lambda>signer.
     pbind (Some (get_lender_party_params W signer)) (\<lambda>party_params.
     let contract_input = \<lparr>ci_offer_collateral = 0, ci_accept_collateral = lci_collateral loan_input,
           ci_fee_rate = lci_fee_rate loan_input, ci_contract_infos = lci_contract_infos loan_input\<rparr> in
     obind (new_offered i contract_input announcements party_params [] cp refund_delay (unix_time_now W mod u32_bound) keys
       (serial_ids W 2)) (\<lambda>oc.
     let l = \<lparr>offered_contract = oc, collateral_ratio = lci_collateral_ratio loan_input, liquidation_ratio = lci_liquidation_ratio loan_input,
           interest_rate = lci_interest_rate loan_input, duration = lci_duration loan_input,
           lender_hash = sha256 B (be_bytes 16 lender_preimage)\<rparr> in
     obind (to_offer_loan_dlc l) (\<lambda>msg. pok (l, msg))))))"

section \<open>Accepting\<close>

text \<open>The transactions of a later condition have lock time 0, and its signatures are numbered after the ones so far.\<close>

definition later_cets :: "OfferedContract \<Rightarrow> PartyParams \<Rightarrow> TxIn \<Rightarrow> Payout list \<Rightarrow> Transaction list" where
  "later_cets oc accept cet_input payouts =
     create_cets cet_input (payout_script_pubkey (offer_params oc)) (payout_serial_id (offer_params oc))
       (payout_script_pubkey accept) (payout_serial_id accept) payouts 0"

fun accept_later_infos ::
  "btc \<Rightarrow> secp \<Rightarrow> OfferedContract \<Rightarrow> PartyParams \<Rightarrow> TxIn \<Rightarrow> bytes \<Rightarrow> script \<Rightarrow> amount \<Rightarrow> ContractInfo list \<Rightarrow>
   Transaction list \<Rightarrow> AdaptorInfo list \<Rightarrow> bytes list \<Rightarrow> (Error + Transaction list \<times> AdaptorInfo list \<times> bytes list) option" where
  "accept_later_infos B S oc accept cet_input sk spk v [] txs infos sigs = pok (txs, infos, sigs)"
| "accept_later_infos B S oc accept cet_input sk spk v (ci # rest) txs infos sigs =
     pbind (get_payouts ci (total_collateral oc)) (\<lambda>payouts.
     let tmp_cets = later_cets oc accept cet_input payouts in
     pbind (get_adaptor_info B S ci (total_collateral oc) sk spk v tmp_cets (length sigs)) (\<lambda>(info, sig).
     accept_later_infos B S oc accept cet_input sk spk v rest (txs @ tmp_cets) (infos @ [info]) (sigs @ sig)))"

definition input_script :: "DlcTransactions \<Rightarrow> script option \<Rightarrow> script" where
  "input_script t spk_opt = (case spk_opt of Some s \<Rightarrow> s | None \<Rightarrow> funding_script_pubkey t)"

definition accept_contract_internal ::
  "btc \<Rightarrow> secp \<Rightarrow> OfferedContract \<Rightarrow> PartyParams \<Rightarrow> FundingInput list \<Rightarrow> bytes \<Rightarrow> amount \<Rightarrow> script option \<Rightarrow> DlcTransactions \<Rightarrow>
   (Error + AcceptedContract \<times> bytes list) option" where
  "accept_contract_internal B S oc accept inputs sk v spk_opt t =
     (let spk = input_script t spk_opt in
      obind (vget (cets t) 0) (\<lambda>cet0.
      obind (vget (tx_input cet0) 0) (\<lambda>cet_input.
      obind (vget (contract_info oc) 0) (\<lambda>first_info.
      pbind (get_adaptor_info B S first_info (total_collateral oc) sk spk v (cets t) 0) (\<lambda>(info, sig).
      pbind (accept_later_infos B S oc accept cet_input sk spk v (drop 1 (contract_info oc)) (cets t) [info] sig) (\<lambda>(txs, infos, sigs).
      pbind (dlc_err (Some (get_raw_sig_for_tx_input S (refund t) 0 spk v sk))) (\<lambda>refund_signature.
      pok (\<lparr>ac_offered_contract = oc, accept_params = accept, ac_funding_inputs = inputs, adaptor_infos = infos,
             ac_adaptor_signatures = None, accept_refund_signature = refund_signature, ac_transactions = t\<lparr>cets := txs\<rparr>\<rparr>, sigs))))))))"

definition accept_contract ::
  "btc \<Rightarrow> secp \<Rightarrow> tx_codec \<Rightarrow> outside \<Rightarrow> OfferedContract \<Rightarrow> (Error + AcceptedContract \<times> AcceptDlc) option" where
  "accept_contract B S K W oc =
     pbind (Some (derive_contract_signer W (keys_id oc))) (\<lambda>signer.
     obind (u64_sub (total_collateral oc) (collateral (offer_params oc))) (\<lambda>own_collateral.
     pbind (get_party_params B K W own_collateral (fee_rate_per_vb oc) signer) (\<lambda>(accept, inputs).
     obind (vget (contract_info oc) 0) (\<lambda>first_info.
     pbind (get_payouts first_info (total_collateral oc)) (\<lambda>payouts.
     pbind (dlc_err (create_dlc_transactions B (offer_params oc) accept payouts (refund_locktime oc) (fee_rate_per_vb oc) 0
       (cet_locktime oc) (fund_output_serial_id oc))) (\<lambda>t.
     obind (get_fund_output B t) (\<lambda>fund_out.
     pbind (Some (signer_secret_key W signer)) (\<lambda>sk.
     pbind (accept_contract_internal B S oc accept inputs sk (txo_value fund_out) None t) (\<lambda>(a, sigs).
     pok (a, get_accept_contract_msg a sigs))))))))))"

definition accept_loan_contract_internal ::
  "btc \<Rightarrow> secp \<Rightarrow> OfferedLoanContract \<Rightarrow> PartyParams \<Rightarrow> FundingInput list \<Rightarrow> bytes \<Rightarrow> amount \<Rightarrow> script option \<Rightarrow> DlcTransactions \<Rightarrow>
   bytes \<Rightarrow> bytes \<Rightarrow> Transaction \<Rightarrow> (Error + AcceptedLoanContract \<times> bytes list) option" where
  "accept_loan_contract_internal B S l accept inputs sk v spk_opt t escrow bhash spend_tx =
     (let spk = input_script t spk_opt; oc = offered_contract l in
      obind (vget (cets t) 0) (\<lambda>cet0.
      obind (vget (tx_input cet0) 0) (\<lambda>cet_input.
      obind (vget (contract_info oc) 0) (\<lambda>first_info.
      pbind (get_adaptor_info B S first_info (total_collateral oc) sk spk v (cets t) 0) (\<lambda>(info, sig).
      pbind (accept_later_infos B S oc accept cet_input sk spk v (drop 1 (contract_info oc)) (cets t) [info] sig) (\<lambda>(txs, infos, sigs).
      pbind (dlc_err (Some (get_raw_sig_for_tx_input S (refund t) 0 spk v sk))) (\<lambda>refund_signature.
      pok (\<lparr>offered_loan_contract = l, alc_accept_params = accept, alc_funding_inputs = inputs, alc_adaptor_infos = infos,
             alc_adaptor_signatures = None, alc_accept_refund_signature = refund_signature, alc_transactions = t\<lparr>cets := txs\<rparr>,
             escrow_txid = escrow, borrower_hash = bhash, signed_escrow_spend_tx = spend_tx\<rparr>, sigs))))))))"

text \<open>The transaction that moves the escrow to the collateral output, signed by the borrower.\<close>

definition escrow_input_of :: "bytes \<Rightarrow> TxIn" where
  "escrow_input_of escrow = \<lparr>previous_output = \<lparr>txid = escrow, vout = 0\<rparr>, script_sig = [], sequence = 0xFFFFFFFF, witness = []\<rparr>"

definition accept_loan_contract ::
  "btc \<Rightarrow> secp \<Rightarrow> tx_codec \<Rightarrow> outside \<Rightarrow> OfferedLoanContract \<Rightarrow> bytes \<Rightarrow> bytes \<Rightarrow> bytes \<Rightarrow> (Error + AcceptedLoanContract \<times> AcceptLoanDlc) option" where
  "accept_loan_contract B S K W l escrow bhash borrower_preimage_bytes =
     (let oc = offered_contract l; T = total_collateral oc; lender = fund_pubkey (offer_params oc) in
      pbind (Some (derive_contract_signer W (keys_id oc))) (\<lambda>signer.
      pbind (Some (signer_public_key W signer)) (\<lambda>borrower.
      let escrow_script = make_loan_funding_redeemscript B borrower lender escrow_locktime bhash;
          script_to_sign = make_loan_escrow_after_codesep_script B lender bhash in
      obind (unwrap (chain_transaction W escrow)) (\<lambda>escrow_tx.
      obind (vget (tx_output escrow_tx) 0) (\<lambda>escrow_out.
      obind (create_collateral_transaction B borrower lender (txo_value escrow_out) (escrow_input_of escrow) (lender_hash l)) (\<lambda>(unsigned_tx, collateral_spk).
      obind (unwrap (signer_secret_key W signer)) (\<lambda>sk.
      obind (unwrap (get_sig_for_tx_input S unsigned_tx 0 script_to_sign (txo_value escrow_out) SIGHASH_ALL sk)) (\<lambda>borrower_signature.
      obind (set_witness unsigned_tx 0 [[], borrower_preimage_bytes, borrower_signature, escrow_script]) (\<lambda>collateral_tx.
      pbind (get_party_params B K W T (fee_rate_per_vb oc) signer) (\<lambda>(accept, inputs).
      obind (vget (contract_info oc) 0) (\<lambda>first_info.
      pbind (get_payouts first_info T) (\<lambda>payouts.
      pbind (dlc_err (create_loan_expiration_dlc_transactions B (offer_params oc) accept payouts (refund_locktime oc) (cet_locktime oc)
        collateral_tx collateral_spk)) (\<lambda>t.
      obind (get_fund_output B t) (\<lambda>fund_out.
      pbind (Some (signer_secret_key W signer)) (\<lambda>sk.
      pbind (accept_loan_contract_internal B S l accept inputs sk (txo_value fund_out) None t escrow bhash collateral_tx) (\<lambda>(a, sigs).
      pok (a, get_accept_loan_msg a sigs (txo_value escrow_out) script_to_sign collateral_spk)))))))))))))))))"

text \<open>The escrow transaction, signed by the wallet and broadcast; the result is its id, with what was sent.\<close>

definition send_escrow_transaction ::
  "btc \<Rightarrow> tx_codec \<Rightarrow> outside \<Rightarrow> (Transaction \<Rightarrow> Error + unit) \<Rightarrow> OfferedLoanContract \<Rightarrow> nat \<Rightarrow> (Error + bytes \<times> Transaction) option" where
  "send_escrow_transaction B K W send l borrower_preimage =
     (let oc = offered_contract l in
      pbind (Some (derive_contract_signer W (keys_id oc))) (\<lambda>signer.
      obind (u64_sub (total_collateral oc) (collateral (offer_params oc))) (\<lambda>own_collateral.
      pbind (get_party_params B K W own_collateral (fee_rate_per_vb oc) signer) (\<lambda>(accept, inputs).
      pbind (dlc_err (create_escrow_transaction B (offer_params oc) accept (fee_rate_per_vb oc) (refund_locktime oc) 300 borrower_preimage)) (\<lambda>(escrow_tx, _).
      pbind (Some (sign_raw_transaction W escrow_tx)) (\<lambda>signed_tx.
      pbind (Some (send signed_tx)) (\<lambda>_.
      pok (compute_txid B escrow_tx, signed_tx))))))))"

section \<open>Verifying an acceptance and signing\<close>

text \<open>For the later conditions the code takes the fund key and script, whatever key and script the first was verified with.\<close>

fun verify_later_infos ::
  "btc \<Rightarrow> secp \<Rightarrow> OfferedContract \<Rightarrow> PartyParams \<Rightarrow> TxIn \<Rightarrow> amount \<Rightarrow> script \<Rightarrow> amount \<Rightarrow> bytes list \<Rightarrow> ContractInfo list \<Rightarrow>
   Transaction list \<Rightarrow> AdaptorInfo list \<Rightarrow> nat \<Rightarrow> (Error + Transaction list \<times> AdaptorInfo list) option" where
  "verify_later_infos B S oc accept cet_input T spk v sigs [] txs infos adaptor_idx = pok (txs, infos)"
| "verify_later_infos B S oc accept cet_input T spk v sigs (ci # rest) txs infos adaptor_idx =
     pbind (get_payouts ci T) (\<lambda>payouts.
     let tmp_cets = later_cets oc accept cet_input payouts in
     pbind (verify_and_get_adaptor_info B S ci (total_collateral oc) (fund_pubkey accept) spk v tmp_cets sigs adaptor_idx) (\<lambda>(info, idx).
     verify_later_infos B S oc accept cet_input T spk v sigs rest (txs @ tmp_cets) (infos @ [info]) idx))"

text \<open>The own signatures of every condition, over the transactions of all of them.\<close>

definition own_signatures ::
  "btc \<Rightarrow> secp \<Rightarrow> ContractInfo list \<Rightarrow> AdaptorInfo list \<Rightarrow> Error + bytes \<Rightarrow> script \<Rightarrow> amount \<Rightarrow> Transaction list \<Rightarrow> (Error + bytes list) option" where
  "own_signatures B S cis infos secret_key spk v txs =
     pbind (pmap (\<lambda>(ci, info). get_adaptor_signatures B S ci info secret_key spk v txs) (zip cis infos)) (\<lambda>sigs. pok (concat sigs))"

definition verify_accepted_and_sign_contract_internal ::
  "btc \<Rightarrow> secp \<Rightarrow> OfferedContract \<Rightarrow> PartyParams \<Rightarrow> FundingInput list \<Rightarrow> bytes \<Rightarrow> bytes list \<Rightarrow> amount \<Rightarrow> Error + bytes \<Rightarrow>
   script option \<Rightarrow> pubkey option \<Rightarrow> DlcTransactions \<Rightarrow> bytes option \<Rightarrow> (Error + SignedContract \<times> bytes list) option" where
  "verify_accepted_and_sign_contract_internal B S oc accept inputs refund_signature sigs v secret_key spk_opt pk_opt t channel =
     (let spk = input_script t spk_opt; counter_pk = (case pk_opt of Some k \<Rightarrow> k | None \<Rightarrow> fund_pubkey accept) in
      pbind (dlc_err (Some (verify_tx_input_sig S refund_signature (refund t) 0 spk v counter_pk))) (\<lambda>_.
      obind (vget (contract_info oc) 0) (\<lambda>first_info.
      pbind (verify_and_get_adaptor_info B S first_info (total_collateral oc) counter_pk spk v (cets t) sigs 0) (\<lambda>(info, idx).
      obind (vget (cets t) 0) (\<lambda>cet0.
      obind (vget (tx_input cet0) 0) (\<lambda>cet_input.
      obind (u64_add (collateral (offer_params oc)) (collateral accept)) (\<lambda>T.
      pbind (verify_later_infos B S oc accept cet_input T (funding_script_pubkey t) v sigs (drop 1 (contract_info oc)) (cets t) [info] idx) (\<lambda>(txs, infos).
      pbind (own_signatures B S (contract_info oc) infos secret_key spk v txs) (\<lambda>own.
      pbind (Some secret_key) (\<lambda>sk.
      pbind (dlc_err (Some (get_raw_sig_for_tx_input S (refund t) 0 spk v sk))) (\<lambda>own_refund_signature.
      pok (\<lparr>accepted_contract = \<lparr>ac_offered_contract = oc, accept_params = accept, ac_funding_inputs = inputs, adaptor_infos = infos,
               ac_adaptor_signatures = Some sigs, accept_refund_signature = refund_signature, ac_transactions = t\<lparr>cets := txs\<rparr>\<rparr>,
             sc_adaptor_signatures = None, offer_refund_signature = own_refund_signature, funding_signatures = [[[]]],
             channel_id = channel\<rparr>, own))))))))))))"

definition accept_params_of :: "btc \<Rightarrow> tx_codec \<Rightarrow> AcceptDlc \<Rightarrow> (Error + PartyParams) option" where
  "accept_params_of B K m =
     pbind (conversion_err (get_tx_input_infos B K (ad_funding_inputs m))) (\<lambda>(infos, amt).
     pok \<lparr>fund_pubkey = ad_funding_pubkey m, change_script_pubkey = ad_change_spk m, change_serial_id = ad_change_serial_id m,
       payout_script_pubkey = ad_payout_spk m, payout_serial_id = ad_payout_serial_id m, pp_inputs = infos, input_amount = amt,
       collateral = ad_accept_collateral m\<rparr>)"

definition sign_accepted ::
  "btc \<Rightarrow> secp \<Rightarrow> outside \<Rightarrow> OfferedContract \<Rightarrow> PartyParams \<Rightarrow> AcceptDlc \<Rightarrow> DlcTransactions \<Rightarrow> (Error + SignedContract \<times> SignDlc) option" where
  "sign_accepted B S W oc accept m t =
     obind (get_fund_output B t) (\<lambda>fund_out.
     pbind (Some (derive_contract_signer W (keys_id oc))) (\<lambda>signer.
     pbind (verify_accepted_and_sign_contract_internal B S oc accept (ad_funding_inputs m) (ad_refund_signature m)
       (ad_cet_adaptor_signatures m) (txo_value fund_out) (signer_secret_key W signer) None None t None) (\<lambda>(s, own).
     obind (get_sign_dlc B s own) (\<lambda>msg. pok (s, msg)))))"

definition verify_accepted_and_sign_contract ::
  "btc \<Rightarrow> secp \<Rightarrow> tx_codec \<Rightarrow> outside \<Rightarrow> OfferedContract \<Rightarrow> AcceptDlc \<Rightarrow> (Error + SignedContract \<times> SignDlc) option" where
  "verify_accepted_and_sign_contract B S K W oc m =
     pbind (accept_params_of B K m) (\<lambda>accept.
     obind (vget (contract_info oc) 0) (\<lambda>first_info.
     pbind (get_payouts first_info (total_collateral oc)) (\<lambda>payouts.
     pbind (dlc_err (create_dlc_transactions B (offer_params oc) accept payouts (refund_locktime oc) (fee_rate_per_vb oc) 0
       (cet_locktime oc) (fund_output_serial_id oc))) (\<lambda>t. sign_accepted B S W oc accept m t))))"

definition verify_accepted_and_sign_loan_contract ::
  "btc \<Rightarrow> secp \<Rightarrow> tx_codec \<Rightarrow> outside \<Rightarrow> OfferedContract \<Rightarrow> AcceptDlc \<Rightarrow> Transaction \<Rightarrow> script \<Rightarrow> (Error + SignedContract \<times> SignDlc) option" where
  "verify_accepted_and_sign_loan_contract B S K W oc m collateral_tx collateral_spk =
     pbind (accept_params_of B K m) (\<lambda>accept.
     obind (vget (contract_info oc) 0) (\<lambda>first_info.
     pbind (get_payouts first_info (total_collateral oc)) (\<lambda>payouts.
     pbind (dlc_err (create_loan_expiration_dlc_transactions B (offer_params oc) accept payouts (refund_locktime oc) (cet_locktime oc)
       collateral_tx collateral_spk)) (\<lambda>t. sign_accepted B S W oc accept m t))))"

section \<open>Verifying the signatures of the offering party\<close>

fun verify_infos ::
  "btc \<Rightarrow> secp \<Rightarrow> pubkey \<Rightarrow> script \<Rightarrow> amount \<Rightarrow> Transaction list \<Rightarrow> bytes list \<Rightarrow> (AdaptorInfo \<times> ContractInfo) list \<Rightarrow> nat \<Rightarrow> (Error + nat) option" where
  "verify_infos B S pk spk v txs sigs [] start = pok start"
| "verify_infos B S pk spk v txs sigs ((info, ci) # rest) start =
     pbind (verify_adaptor_info B S ci pk spk v txs sigs start info) (verify_infos B S pk spk v txs sigs rest)"

definition verify_signed_contract_internal ::
  "btc \<Rightarrow> secp \<Rightarrow> AcceptedContract \<Rightarrow> bytes \<Rightarrow> bytes list \<Rightarrow> FundingSignatures \<Rightarrow> amount \<Rightarrow> script option \<Rightarrow> pubkey option \<Rightarrow> bytes option \<Rightarrow>
   (Error + SignedContract \<times> Transaction) option" where
  "verify_signed_contract_internal B S a refund_signature sigs fsigs v spk_opt pk_opt channel =
     (let t = ac_transactions a; oc = ac_offered_contract a; spk = input_script t spk_opt;
          counter_pk = (case pk_opt of Some k \<Rightarrow> k | None \<Rightarrow> fund_pubkey (offer_params oc)) in
      pbind (dlc_err (Some (verify_tx_input_sig S refund_signature (refund t) 0 spk v counter_pk))) (\<lambda>_.
      pbind (verify_infos B S counter_pk spk v (cets t) sigs (zip (adaptor_infos a) (contract_info oc)) 0) (\<lambda>_.
      pok (\<lparr>accepted_contract = a, sc_adaptor_signatures = Some sigs, offer_refund_signature = refund_signature,
             funding_signatures = fsigs, channel_id = channel\<rparr>, fund t))))"

definition verify_signed_contract :: "btc \<Rightarrow> secp \<Rightarrow> AcceptedContract \<Rightarrow> SignDlc \<Rightarrow> (Error + SignedContract \<times> Transaction) option" where
  "verify_signed_contract B S a m =
     obind (get_fund_output B (ac_transactions a)) (\<lambda>fund_out.
     verify_signed_contract_internal B S a (sd_refund_signature m) (sd_cet_adaptor_signatures m) (sd_funding_signatures m)
       (txo_value fund_out) None None None)"

section \<open>Closing\<close>

text \<open>The adaptor signatures of the other party, with its key; the unwrap panics when they are not there.\<close>

definition counter_adaptor_sigs :: "SignedContract \<Rightarrow> (bytes list \<times> pubkey) option" where
  "counter_adaptor_sigs s = (let a = accepted_contract s; oc = ac_offered_contract a in
     if is_offer_party oc then map_option (\<lambda>x. (x, fund_pubkey (accept_params a))) (ac_adaptor_signatures a)
     else map_option (\<lambda>x. (x, fund_pubkey (offer_params oc))) (sc_adaptor_signatures s))"

definition get_signed_cet ::
  "btc \<Rightarrow> secp \<Rightarrow> map_orders \<Rightarrow> SignedContract \<Rightarrow> ContractInfo \<Rightarrow> AdaptorInfo \<Rightarrow> (nat \<times> OracleAttestation) list \<Rightarrow> Error + bytes \<Rightarrow>
   (Error + Transaction) option" where
  "get_signed_cet B S H s ci info attestations secret_key =
     (let t = ac_transactions (accepted_contract s) in
      pbind (get_range_info_and_oracle_sigs H ci info attestations) (\<lambda>(range_info, sigs).
      obind (vget (cets t) (cet_index range_info)) (\<lambda>cet.
      obind (counter_adaptor_sigs s) (\<lambda>(adaptor_sigs, other_pk).
      pbind (Some secret_key) (\<lambda>sk.
      obind (vget adaptor_sigs (adaptor_index range_info)) (\<lambda>adaptor_sig.
      obind (get_fund_output B t) (\<lambda>fund_out.
      dlc_err (sign_cet S cet adaptor_sig sigs sk other_pk (funding_script_pubkey t) (txo_value fund_out)))))))))"

definition get_signed_refund :: "btc \<Rightarrow> secp \<Rightarrow> SignedContract \<Rightarrow> Error + bytes \<Rightarrow> (Error + Transaction) option" where
  "get_signed_refund B S s secret_key =
     (let a = accepted_contract s; oc = ac_offered_contract a; t = ac_transactions a in
      obind (get_fund_output B t) (\<lambda>fund_out.
      let (other_pk, other_sig) = (if is_offer_party oc then (fund_pubkey (accept_params a), accept_refund_signature a)
            else (fund_pubkey (offer_params oc), offer_refund_signature s)) in
      pbind (Some secret_key) (\<lambda>sk.
      dlc_err (sign_multi_sig_input S (refund t) other_sig other_pk sk (funding_script_pubkey t) (txo_value fund_out) 0))))"

end
