(* ===== verification/Storage.thy ===== *)
theory Storage
  imports Contract
begin

text \<open>
  The contract half of the trait \<open>Storage\<close> of \<open>dlc-manager/src/lib.rs\<close>: the operations the manager calls, as a record, and
  what they promise, as the locale \<open>contract_store\<close>. A store of type \<open>'s\<close> is seen as a map from ids to contracts.
\<close>

section \<open>The operations\<close>

record 's Storage =
  st_get_contract :: "'s \<Rightarrow> bytes \<Rightarrow> Error + Contract option"
  st_get_contracts :: "'s \<Rightarrow> (Error + Contract list) option"
  st_create_contract :: "'s \<Rightarrow> OfferedContract \<Rightarrow> Error + 's"
  st_create_loan_contract :: "'s \<Rightarrow> OfferedLoanContract \<Rightarrow> Error + 's"
  st_delete_contract :: "'s \<Rightarrow> bytes \<Rightarrow> Error + 's"
  st_update_contract :: "'s \<Rightarrow> Contract \<Rightarrow> (Error + 's) option"
  st_get_contract_offers :: "'s \<Rightarrow> (Error + OfferedContract list) option"
  st_get_loan_contract_offers :: "'s \<Rightarrow> (Error + OfferedLoanContract list) option"
  st_get_signed_contracts :: "'s \<Rightarrow> (Error + SignedContract list) option"
  st_get_confirmed_contracts :: "'s \<Rightarrow> (Error + SignedContract list) option"
  st_get_preclosed_contracts :: "'s \<Rightarrow> (Error + PreClosedContract list) option"
  st_set_loan_preimage :: "'s \<Rightarrow> bytes \<Rightarrow> nat \<Rightarrow> Error + 's"
  st_get_loan_preimage :: "'s \<Rightarrow> bytes \<Rightarrow> Error + nat option"
  st_set_escrow_txid :: "'s \<Rightarrow> bytes \<Rightarrow> bytes \<Rightarrow> Error + 's"
  st_get_escrow_txid :: "'s \<Rightarrow> bytes \<Rightarrow> (Error + bytes option) option"

section \<open>What an update does\<close>

text \<open>A contract that gets its final id, by being accepted or signed, leaves its temporary one.\<close>

fun leaves_temporary_id :: "Contract \<Rightarrow> bool" where
  "leaves_temporary_id (Accepted a) = True"
| "leaves_temporary_id (Signed s) = True"
| "leaves_temporary_id c = False"

definition updated :: "(bytes \<Rightarrow> Contract option) \<Rightarrow> bytes \<Rightarrow> Contract \<Rightarrow> bytes \<Rightarrow> Contract option" where
  "updated m i c = (if leaves_temporary_id c then m(get_temporary_id c := None) else m)(i \<mapsto> c)"

lemma updated_at [simp]: "updated m i c i = Some c"
  by (simp add: updated_def)

lemma updated_other: "k \<noteq> i \<Longrightarrow> k \<noteq> get_temporary_id c \<Longrightarrow> updated m i c k = m k"
  by (simp add: updated_def)

lemma updated_SomeD: "updated m i c k = Some x \<Longrightarrow> k = i \<and> x = c \<or> m k = Some x"
  by (auto simp: updated_def split: if_splits)

section \<open>The contract between manager and store\<close>

locale contract_store =
  fixes btc_of :: "'e \<Rightarrow> btc"
    and ops :: "'e \<Rightarrow> 's Storage"
    and lawful :: "'e \<Rightarrow> bool"
    and view :: "'e \<Rightarrow> 's \<Rightarrow> bytes \<Rightarrow> Contract option"
  assumes get: "lawful e \<Longrightarrow> st_get_contract (ops e) s i = Inr r \<Longrightarrow> r = view e s i"
    and create: "lawful e \<Longrightarrow> st_create_contract (ops e) s oc = Inr s' \<Longrightarrow> view e s' = (view e s)(oc_id oc \<mapsto> Offered oc)"
    and create_loan: "lawful e \<Longrightarrow> st_create_loan_contract (ops e) s l = Inr s' \<Longrightarrow>
      view e s' = (view e s)(oc_id (offered_contract l) \<mapsto> OfferedLoan l)"
    and delete: "lawful e \<Longrightarrow> st_delete_contract (ops e) s i = Inr s' \<Longrightarrow> view e s' = (view e s)(i := None)"
    and update: "lawful e \<Longrightarrow> st_update_contract (ops e) s c = pok s' \<Longrightarrow>
      \<exists>i. get_id (btc_of e) c = Some i \<and> view e s' = updated (view e s) i c"
    and loans: "lawful e \<Longrightarrow> st_get_loan_contract_offers (ops e) s = pok ls \<Longrightarrow> l \<in> set ls \<longleftrightarrow> (\<exists>i. view e s i = Some (OfferedLoan l))"
    and signed: "lawful e \<Longrightarrow> st_get_signed_contracts (ops e) s = pok cs \<Longrightarrow> sc \<in> set cs \<longleftrightarrow> (\<exists>i. view e s i = Some (Signed sc))"
    and confirmed: "lawful e \<Longrightarrow> st_get_confirmed_contracts (ops e) s = pok cs \<Longrightarrow> sc \<in> set cs \<longleftrightarrow> (\<exists>i. view e s i = Some (Confirmed sc))"
    and preclosed: "lawful e \<Longrightarrow> st_get_preclosed_contracts (ops e) s = pok ps \<Longrightarrow> p \<in> set ps \<longleftrightarrow> (\<exists>i. view e s i = Some (PreClosed p))"
    and set_preimage: "lawful e \<Longrightarrow> st_set_loan_preimage (ops e) s i n = Inr s' \<Longrightarrow> view e s' = view e s"
    and set_escrow: "lawful e \<Longrightarrow> st_set_escrow_txid (ops e) s i t = Inr s' \<Longrightarrow> view e s' = view e s"

end
