(* ===== verification/ChainMonitor.thy ===== *)
theory ChainMonitor
  imports Contract "HOL-Library.AList"
begin

text \<open>
  The watched transactions and outputs of channels, \<open>dlc-manager/src/chain_monitor.rs\<close>. A hash map is an association list
  with one entry per key; nothing below depends on its order.
\<close>

section \<open>Data\<close>

datatype RevokedTxType = RevokedBuffer | RevokedSettle

datatype TxType = RevokedTx nat bytes bool RevokedTxType | BufferTx | CollaborativeClose | SettleTx | CetTx

record ChannelInfo =
  watched_channel :: bytes
  tx_type :: TxType

datatype WatchState = Registered ChannelInfo | ConfirmedTx ChannelInfo Transaction

record ChainMonitor =
  watched_tx :: "(bytes \<times> WatchState) list"
  watched_txo :: "(OutPoint \<times> WatchState) list"
  last_height :: nat

section \<open>Operations\<close>

definition new_monitor :: "nat \<Rightarrow> ChainMonitor" where
  "new_monitor init_height = \<lparr>watched_tx = [], watched_txo = [], last_height = init_height\<rparr>"

definition monitor_is_empty :: "ChainMonitor \<Rightarrow> bool" where
  "monitor_is_empty m \<longleftrightarrow> watched_tx m = []"

definition new_watch :: "ChannelInfo \<Rightarrow> WatchState" where "new_watch info = Registered info"

fun confirm :: "Transaction \<Rightarrow> WatchState \<Rightarrow> WatchState" where
  "confirm tx (Registered info) = ConfirmedTx info tx"
| "confirm tx (ConfirmedTx info tx') = ConfirmedTx info tx'"

fun watch_info :: "WatchState \<Rightarrow> ChannelInfo" where
  "watch_info (Registered info) = info"
| "watch_info (ConfirmedTx info tx) = info"

definition watch_channel_id :: "WatchState \<Rightarrow> bytes" where "watch_channel_id w = watched_channel (watch_info w)"

definition add_txo :: "OutPoint \<Rightarrow> ChannelInfo \<Rightarrow> ChainMonitor \<Rightarrow> ChainMonitor" where
  "add_txo p info m = m\<lparr>watched_txo := AList.update p (new_watch info) (watched_txo m)\<rparr>"

definition add_tx :: "bytes \<Rightarrow> ChannelInfo \<Rightarrow> ChainMonitor \<Rightarrow> ChainMonitor" where
  "add_tx i info m =
     (let m = m\<lparr>watched_tx := AList.update i (new_watch info) (watched_tx m)\<rparr>
      in if tx_type info = BufferTx
         then add_txo \<lparr>txid = i, vout = 0\<rparr> \<lparr>watched_channel = watched_channel info, tx_type = CetTx\<rparr> m else m)"

definition cleanup_channel :: "bytes \<Rightarrow> ChainMonitor \<Rightarrow> ChainMonitor" where
  "cleanup_channel c m = m\<lparr>watched_tx := filter (\<lambda>(_, w). watch_channel_id w \<noteq> c) (watched_tx m),
     watched_txo := filter (\<lambda>(_, w). watch_channel_id w \<noteq> c) (watched_txo m)\<rparr>"

definition remove_tx :: "bytes \<Rightarrow> ChainMonitor \<Rightarrow> ChainMonitor" where
  "remove_tx i m = m\<lparr>watched_tx := AList.delete i (watched_tx m)\<rparr>"

definition process_tx :: "btc \<Rightarrow> ChainMonitor \<Rightarrow> Transaction \<Rightarrow> ChainMonitor" where
  "process_tx B m tx =
     m\<lparr>watched_tx := AList.map_entry (compute_txid B tx) (confirm tx) (watched_tx m),
       watched_txo := fold (\<lambda>i. AList.map_entry (previous_output i) (confirm tx)) (tx_input tx) (watched_txo m)\<rparr>"

text \<open>A block is its transactions; the assertion on the height panics.\<close>

definition process_block :: "btc \<Rightarrow> Transaction list \<Rightarrow> nat \<Rightarrow> ChainMonitor \<Rightarrow> ChainMonitor option" where
  "process_block B block height m =
     do {
       next_height \<leftarrow> u64_add (last_height m) 1;
       assert_that (next_height = height);
       Some ((foldl (process_tx B) m block)\<lparr>last_height := next_height\<rparr>)
     }"

fun confirmed_of :: "WatchState \<Rightarrow> (Transaction \<times> ChannelInfo) option" where
  "confirmed_of (Registered info) = None"
| "confirmed_of (ConfirmedTx info tx) = Some (tx, info)"

definition confirmed_txs :: "ChainMonitor \<Rightarrow> (Transaction \<times> ChannelInfo) list" where
  "confirmed_txs m = List.map_filter confirmed_of (map snd (watched_tx m) @ map snd (watched_txo m))"

section \<open>What is watched is confirmed once\<close>

text \<open>The transaction that confirms a watched id, or spends a watched output, is the first of the blocks.\<close>

definition first_confirm :: "(Transaction \<Rightarrow> bool) \<Rightarrow> Transaction list \<Rightarrow> WatchState \<Rightarrow> WatchState" where
  "first_confirm P txs w = (case List.find P txs of Some tx \<Rightarrow> confirm tx w | None \<Rightarrow> w)"

lemma first_confirm_nil: "map_option (first_confirm P []) w = w"
  by (cases w) (simp_all add: first_confirm_def)

lemma confirm_twice [simp]: "confirm tx' (confirm tx w) = confirm tx w"
  by (cases w) simp_all

lemma map_of_map_entries:
  "map_of (fold (\<lambda>i. AList.map_entry (f i) (confirm tx)) xs m) k =
     (if k \<in> f ` set xs then map_option (confirm tx) (map_of m k) else map_of m k)"
proof (induction xs arbitrary: m)
  case (Cons x xs)
  then show ?case by (auto simp: map_of_map_entry split: option.split)
qed simp

lemma processed_watched_tx:
  "map_of (watched_tx (foldl (process_tx B) m txs)) i =
     map_option (first_confirm (\<lambda>tx. compute_txid B tx = i) txs) (map_of (watched_tx m) i)"
proof (induction txs arbitrary: m)
  case (Cons tx txs)
  have "first_confirm P txs (confirm tx w) = confirm tx w" for P w
    by (simp add: first_confirm_def split: option.split)
  then show ?case using Cons[of "process_tx B m tx"]
    by (cases "map_of (watched_tx m) i") (auto simp: process_tx_def map_of_map_entry first_confirm_def)
qed (simp add: first_confirm_nil)

lemma processed_watched_txo:
  "map_of (watched_txo (foldl (process_tx B) m txs)) p =
     map_option (first_confirm (\<lambda>tx. p \<in> previous_output ` set (tx_input tx)) txs) (map_of (watched_txo m) p)"
proof (induction txs arbitrary: m)
  case (Cons tx txs)
  have "first_confirm P txs (confirm tx w) = confirm tx w" for P w
    by (simp add: first_confirm_def split: option.split)
  then show ?case using Cons[of "process_tx B m tx"]
    by (cases "map_of (watched_txo m) p") (auto simp: process_tx_def map_of_map_entries first_confirm_def)
qed (simp add: first_confirm_nil)

lemma foldl_keeps_height [simp]: "last_height (foldl (process_tx B) m txs) = last_height m"
  by (induction txs arbitrary: m) (simp_all add: process_tx_def)

end
