(* ===== verification/Manager.thy ===== *)
theory Manager
  imports ContractUpdater Storage ChainMonitor
begin

text \<open>
  The contract half of \<open>dlc-manager/src/manager.rs\<close>: offers, acceptances and signatures that are sent and received, and the
  periodic checks that confirm, close and refund contracts. The manager is a record of what it was built with (libraries,
  store, wallet, oracles, chain, EVM client); its calls are functions on the state of the store, the transactions that were
  broadcast and the chain monitor. A call returns a result with the state after it, also when it fails; \<open>None\<close> is a panic.
\<close>

section \<open>State and calls\<close>

record oracle_client =
  get_announcement :: "string \<Rightarrow> Error + OracleAnnouncement"
  get_attestation :: "string \<Rightarrow> Error + OracleAttestation"

record blockchain =
  get_transaction_confirmations :: "bytes \<Rightarrow> Error + nat"
  get_blockchain_height :: "Error + nat"
  get_block_at_height :: "nat \<Rightarrow> Error + Transaction list"
  send_transaction :: "Transaction \<Rightarrow> Error + unit"
  import_address :: "script \<Rightarrow> Error + unit"

text \<open>The lending contract on the EVM side: the recorded loan of a hash is its collateral amount and the borrower's preimage.\<close>

record evm_client =
  evm_signer :: "string \<Rightarrow> Error + unit"
  stable_loans :: "bytes \<Rightarrow> (Error + nat \<times> nat) option"
  lend_stable :: "bytes \<Rightarrow> nat \<Rightarrow> (Error + unit) option"
  claim_stable :: "nat \<Rightarrow> (Error + unit) option"

record 's Manager =
  m_btc :: btc
  m_secp :: secp
  m_codec :: tx_codec
  m_oracle_lib :: oracle_lib
  m_orders :: map_orders
  m_store :: "'s Storage"
  m_oracles :: "bytes \<Rightarrow> oracle_client option"
  m_world :: outside
  m_chain :: blockchain
  m_evm :: evm_client
  m_random_preimage :: nat

record 's mgr_state =
  contract_db :: 's
  broadcast :: "Transaction list"
  monitor :: ChainMonitor

type_synonym ('s, 'a) mgr = "'s mgr_state \<Rightarrow> ((Error + 'a) \<times> 's mgr_state) option"

definition mret :: "'a \<Rightarrow> ('s, 'a) mgr" where "mret x st = Some (Inr x, st)"
definition mfail :: "Error \<Rightarrow> ('s, 'a) mgr" where "mfail e st = Some (Inl e, st)"
definition mpanic :: "('s, 'a) mgr" where "mpanic st = None"
definition mlift :: "(Error + 'a) option \<Rightarrow> ('s, 'a) mgr" where "mlift r st = map_option (\<lambda>x. (x, st)) r"

definition mbind :: "('s, 'a) mgr \<Rightarrow> ('a \<Rightarrow> ('s, 'b) mgr) \<Rightarrow> ('s, 'b) mgr" where
  "mbind m f st = (case m st of None \<Rightarrow> None | Some (Inl e, st') \<Rightarrow> Some (Inl e, st') | Some (Inr x, st') \<Rightarrow> f x st')"

text \<open>A call whose result is not looked at, a value that is unwrapped, and a loop that stops at the first error.\<close>

definition mignore :: "('s, 'a) mgr \<Rightarrow> ('s, unit) mgr" where
  "mignore m st = map_option (\<lambda>(_, st'). (Inr (), st')) (m st)"

definition munwrap :: "'a option \<Rightarrow> ('s, 'a) mgr" where
  "munwrap r = (case r of Some x \<Rightarrow> mret x | None \<Rightarrow> mpanic)"

definition mcatch :: "('s, 'a) mgr \<Rightarrow> (Error \<Rightarrow> ('s, 'a) mgr) \<Rightarrow> ('s, 'a) mgr" where
  "mcatch m h st = (case m st of Some (Inl e, st') \<Rightarrow> h e st' | r \<Rightarrow> r)"

fun mfor :: "('a \<Rightarrow> ('s, unit) mgr) \<Rightarrow> 'a list \<Rightarrow> ('s, unit) mgr" where
  "mfor f [] = mret ()"
| "mfor f (x # xs) = mbind (f x) (\<lambda>_. mfor f xs)"

definition store_read :: "('s \<Rightarrow> (Error + 'a) option) \<Rightarrow> ('s, 'a) mgr" where
  "store_read f st = map_option (\<lambda>r. (r, st)) (f (contract_db st))"

definition store_write :: "('s \<Rightarrow> (Error + 's) option) \<Rightarrow> ('s, unit) mgr" where
  "store_write f st = (case f (contract_db st) of
     None \<Rightarrow> None | Some (Inl e) \<Rightarrow> Some (Inl e, st) | Some (Inr s') \<Rightarrow> Some (Inr (), st\<lparr>contract_db := s'\<rparr>))"

definition broadcast_tx :: "'s Manager \<Rightarrow> Transaction \<Rightarrow> ('s, unit) mgr" where
  "broadcast_tx M tx st = (case send_transaction (m_chain M) tx of
     Inl e \<Rightarrow> Some (Inl e, st) | Inr _ \<Rightarrow> Some (Inr (), st\<lparr>broadcast := broadcast st @ [tx]\<rparr>))"

definition update_contract :: "'s Manager \<Rightarrow> Contract \<Rightarrow> ('s, unit) mgr" where
  "update_contract M c = store_write (\<lambda>s. st_update_contract (m_store M) s c)"

definition NB_CONFIRMATIONS :: nat where "NB_CONFIRMATIONS = 6"
definition REFUND_DELAY :: nat where "REFUND_DELAY = 86400 * 7"

section \<open>Contracts in a state\<close>

fun as_offered :: "Contract \<Rightarrow> OfferedContract option" where
  "as_offered (Offered oc) = Some oc" | "as_offered c = None"

fun as_offered_loan :: "Contract \<Rightarrow> OfferedLoanContract option" where
  "as_offered_loan (OfferedLoan l) = Some l" | "as_offered_loan c = None"

fun as_escrow_confirmed :: "Contract \<Rightarrow> OfferedLoanContract option" where
  "as_escrow_confirmed (OfferedLoanEscrowConfirmed l) = Some l" | "as_escrow_confirmed c = None"

fun as_accepted :: "Contract \<Rightarrow> AcceptedContract option" where
  "as_accepted (Accepted a) = Some a" | "as_accepted c = None"

fun as_confirmed :: "Contract \<Rightarrow> SignedContract option" where
  "as_confirmed (Confirmed s) = Some s" | "as_confirmed c = None"

definition get_contract_in_state :: "'s Manager \<Rightarrow> bytes \<Rightarrow> (Contract \<Rightarrow> 'a option) \<Rightarrow> pubkey option \<Rightarrow> ('s, 'a) mgr" where
  "get_contract_in_state M i sel peer =
     mbind (store_read (\<lambda>s. Some (st_get_contract (m_store M) s i))) (\<lambda>object. case object of
       Some c \<Rightarrow>
         if \<exists>p \<in> set_option peer. get_counter_party_id c \<noteq> p then mfail (InvalidParameters ''Peer is not involved with Contract'')
         else (case sel c of Some x \<Rightarrow> mret x | None \<Rightarrow> mfail (InvalidState ''Invalid state''))
     | None \<Rightarrow> mfail (InvalidParameters ''Unknown Contract id.''))"

section \<open>Offers\<close>

definition get_oracle_announcements :: "'s Manager \<Rightarrow> OracleInput \<Rightarrow> Error + OracleAnnouncement list" where
  "get_oracle_announcements M x =
     rmap (\<lambda>pk. rbind (ok_or (InvalidParameters ''Unknown oracle public key'') (m_oracles M pk)) (\<lambda>oracle.
       get_announcement oracle (oi_event_id x))) (oi_public_keys x)"

definition send_offer_with_announcements :: "'s Manager \<Rightarrow> ContractInput \<Rightarrow> pubkey \<Rightarrow> OracleAnnouncement list list \<Rightarrow> ('s, OfferDlc) mgr" where
  "send_offer_with_announcements M input cp announcements =
     mbind (mlift (offer_contract (m_btc M) (m_codec M) (m_world M) input announcements REFUND_DELAY cp)) (\<lambda>(oc, msg).
     mbind (mlift (validate_offered oc)) (\<lambda>_.
     mbind (store_write (\<lambda>s. Some (st_create_contract (m_store M) s oc))) (\<lambda>_. mret msg)))"

definition send_offer :: "'s Manager \<Rightarrow> ContractInput \<Rightarrow> pubkey \<Rightarrow> ('s, OfferDlc) mgr" where
  "send_offer M input cp =
     mbind (mlift (Some (rmap (\<lambda>x. get_oracle_announcements M (oracles x)) (ci_contract_infos input))))
       (send_offer_with_announcements M input cp)"

definition send_offer_loan_with_announcements ::
  "'s Manager \<Rightarrow> LoanContractInput \<Rightarrow> pubkey \<Rightarrow> OracleAnnouncement list list \<Rightarrow> ('s, OfferLoanDlc) mgr" where
  "send_offer_loan_with_announcements M input cp announcements =
     mbind (mlift (offer_loan_contract (m_btc M) (m_world M) input announcements REFUND_DELAY cp (m_random_preimage M))) (\<lambda>(l, msg).
     mbind (mignore (store_write (\<lambda>s. Some (st_set_loan_preimage (m_store M) s (oc_id (offered_contract l)) (m_random_preimage M))))) (\<lambda>_.
     mbind (mlift (validate_offered_loan l)) (\<lambda>_.
     mbind (store_write (\<lambda>s. Some (st_create_loan_contract (m_store M) s l))) (\<lambda>_. mret msg))))"

definition send_offer_loan :: "'s Manager \<Rightarrow> LoanContractInput \<Rightarrow> pubkey \<Rightarrow> ('s, OfferLoanDlc) mgr" where
  "send_offer_loan M input cp =
     mbind (mlift (Some (rmap (\<lambda>x. get_oracle_announcements M (oracles x)) (lci_contract_infos input))))
       (send_offer_loan_with_announcements M input cp)"

definition refuse_known_id :: "'s Manager \<Rightarrow> bytes \<Rightarrow> ('s, unit) mgr" where
  "refuse_known_id M i =
     mbind (store_read (\<lambda>s. Some (st_get_contract (m_store M) s i))) (\<lambda>object.
       if object \<noteq> None then mfail (InvalidParameters ''Contract with identical id already exists'') else mret ())"

definition on_offer_message :: "'s Manager \<Rightarrow> OfferDlc \<Rightarrow> pubkey \<Rightarrow> ('s, unit) mgr" where
  "on_offer_message M msg cp =
     mbind (mlift (dlc_err (validate_offer_dlc (m_btc M) (m_oracle_lib M) msg REFUND_DELAY (REFUND_DELAY * 2)))) (\<lambda>_.
     let keys = derive_signer_key_id (m_world M) False (od_temporary_contract_id msg) in
     mbind (mlift (conversion_err (try_from_offer_dlc (m_btc M) (m_codec M) msg cp keys))) (\<lambda>oc.
     mbind (mlift (validate_offered oc)) (\<lambda>_.
     mbind (refuse_known_id M (oc_id oc)) (\<lambda>_.
     store_write (\<lambda>s. Some (st_create_contract (m_store M) s oc))))))"

definition on_offer_loan_message :: "'s Manager \<Rightarrow> OfferLoanDlc \<Rightarrow> pubkey \<Rightarrow> ('s, unit) mgr" where
  "on_offer_loan_message M msg cp =
     mbind (mlift (dlc_err (validate_offer_loan_dlc (m_btc M) (m_oracle_lib M) msg REFUND_DELAY (REFUND_DELAY * 2)))) (\<lambda>_.
     let keys = derive_signer_key_id (m_world M) False (od_temporary_contract_id (ol_offer_dlc msg)) in
     mbind (mlift (conversion_err (try_from_offer_loan_dlc (m_btc M) (m_codec M) msg cp keys))) (\<lambda>l.
     mbind (mlift (validate_offered_loan l)) (\<lambda>_.
     mbind (refuse_known_id M (oc_id (offered_contract l))) (\<lambda>_.
     store_write (\<lambda>s. Some (st_create_loan_contract (m_store M) s l))))))"

section \<open>Accepting\<close>

definition accept_contract_offer :: "'s Manager \<Rightarrow> bytes \<Rightarrow> ('s, bytes \<times> pubkey \<times> AcceptDlc) mgr" where
  "accept_contract_offer M i =
     mbind (get_contract_in_state M i as_offered None) (\<lambda>oc.
     mbind (mlift (accept_contract (m_btc M) (m_secp M) (m_codec M) (m_world M) oc)) (\<lambda>(a, msg).
     mbind (mlift (Some (import_address (m_chain M) (funding_script_pubkey (ac_transactions a))))) (\<lambda>_.
     mbind (munwrap (get_contract_id (m_btc M) a)) (\<lambda>i'.
     mbind (update_contract M (Accepted a)) (\<lambda>_. mret (i', counter_party oc, msg))))))"

text \<open>The escrow is broadcast before anything of it is stored; what storing returns is not looked at.\<close>

definition initiate_accept_loan_contract_offer :: "'s Manager \<Rightarrow> bytes \<Rightarrow> ('s, pubkey \<times> InitiateAcceptLoanDlc) mgr" where
  "initiate_accept_loan_contract_offer M i =
     mbind (get_contract_in_state M i as_offered_loan None) (\<lambda>l.
     let preimage = m_random_preimage M in
     mbind (munwrap (obind (send_escrow_transaction (m_btc M) (m_codec M) (m_world M) (send_transaction (m_chain M)) l preimage) unwrap)) (\<lambda>(escrow, tx).
     mbind (\<lambda>st. Some (Inr (), st\<lparr>broadcast := broadcast st @ [tx]\<rparr>)) (\<lambda>_.
     mbind (mignore (store_write (\<lambda>s. Some (st_set_escrow_txid (m_store M) s i escrow)))) (\<lambda>_.
     mbind (mignore (store_write (\<lambda>s. Some (st_set_loan_preimage (m_store M) s i preimage)))) (\<lambda>_.
     mret (counter_party (offered_contract l), \<lparr>ia_protocol_version = PROTOCOL_VERSION, ia_contract_id = i,
       ia_borrower_hash = sha256 (m_btc M) (be_bytes 16 preimage), ia_escrow_txid = escrow\<rparr>))))))"

definition accept_loan_contract_offer :: "'s Manager \<Rightarrow> bytes \<Rightarrow> ('s, bytes \<times> pubkey \<times> AcceptLoanDlc) mgr" where
  "accept_loan_contract_offer M i =
     mbind (get_contract_in_state M i as_escrow_confirmed None) (\<lambda>l.
     mbind (\<lambda>st. munwrap (obind (obind (st_get_escrow_txid (m_store M) (contract_db st) i) unwrap) id) st) (\<lambda>escrow.
     mbind (\<lambda>st. munwrap (obind (unwrap (st_get_loan_preimage (m_store M) (contract_db st) i)) id) st) (\<lambda>preimage.
     let bytes = be_bytes 16 preimage; bhash = sha256 (m_btc M) bytes in
     mbind (mlift (accept_loan_contract (m_btc M) (m_secp M) (m_codec M) (m_world M) l escrow bhash bytes)) (\<lambda>(a, msg).
     mbind (mlift (Some (import_address (m_chain M) (funding_script_pubkey (alc_transactions a))))) (\<lambda>_.
     mbind (munwrap (get_loan_contract_id (m_btc M) a)) (\<lambda>i'.
     mbind (update_contract M (Accepted (to_accepted_contract a))) (\<lambda>_. mret (i', counter_party (offered_contract l), msg))))))))"

section \<open>Verifying acceptances and signatures\<close>

text \<open>What cannot be verified is stored as failed before its error is returned.\<close>

definition accept_fail_on_error :: "'s Manager \<Rightarrow> OfferedContract \<Rightarrow> AcceptDlc \<Rightarrow> Error \<Rightarrow> ('s, 'a) mgr" where
  "accept_fail_on_error M oc msg e =
     mbind (update_contract M (FailedAccept \<lparr>fa_offered_contract = oc, accept_message = msg, fa_error_message = error_to_string e\<rparr>))
       (\<lambda>_. mfail e)"

definition sign_fail_on_error :: "'s Manager \<Rightarrow> AcceptedContract \<Rightarrow> SignDlc \<Rightarrow> Error \<Rightarrow> ('s, 'a) mgr" where
  "sign_fail_on_error M a msg e =
     mbind (update_contract M (FailedSign \<lparr>fs_accepted_contract = a, sign_message = msg, fs_error_message = error_to_string e\<rparr>))
       (\<lambda>_. mfail e)"

definition on_accept_message :: "'s Manager \<Rightarrow> AcceptDlc \<Rightarrow> pubkey \<Rightarrow> ('s, SignDlc) mgr" where
  "on_accept_message M msg cp =
     mbind (get_contract_in_state M (ad_temporary_contract_id msg) as_offered (Some cp)) (\<lambda>oc.
     mbind (mcatch (mlift (verify_accepted_and_sign_contract (m_btc M) (m_secp M) (m_codec M) (m_world M) oc msg))
       (accept_fail_on_error M oc msg)) (\<lambda>(s, signed_msg).
     mbind (mlift (Some (import_address (m_chain M) (funding_script_pubkey (ac_transactions (accepted_contract s)))))) (\<lambda>_.
     mbind (update_contract M (Signed s)) (\<lambda>_. mret signed_msg))))"

text \<open>The lender puts its signature and the preimage of the borrower in the witness of the escrow input and broadcasts.\<close>

definition sign_collateral_tx :: "secp \<Rightarrow> AcceptLoanDlc \<Rightarrow> bytes \<Rightarrow> nat \<Rightarrow> Transaction option" where
  "sign_collateral_tx S msg sk preimage = (let tx = al_signed_escrow_spend_tx msg in do {
     lender_signature \<leftarrow> unwrap (get_sig_for_tx_input S tx 0 (al_escrow_spk msg) (al_escrow_amount msg) SIGHASH_ALL sk);
     i0 \<leftarrow> vget (tx_input tx) 0;
     items \<leftarrow> vset (witness i0) 0 lender_signature;
     items \<leftarrow> vset items 1 (be_bytes 16 preimage);
     set_witness tx 0 items
   })"

definition on_accept_loan_message :: "'s Manager \<Rightarrow> AcceptLoanDlc \<Rightarrow> pubkey \<Rightarrow> ('s, SignDlc) mgr" where
  "on_accept_loan_message M msg cp =
     (let W = m_world M; accept_msg = to_accept_dlc msg in
      mbind (get_contract_in_state M (al_temporary_contract_id msg) as_offered_loan (Some cp)) (\<lambda>l.
      let oc = offered_contract l in
      mbind (mlift (Some (derive_contract_signer W (keys_id oc)))) (\<lambda>signer.
      mbind (munwrap (unwrap (signer_public_key W signer))) (\<lambda>_.
      mbind (mlift (stable_loans (m_evm M) (al_borrower_hash msg))) (\<lambda>(_, preimage).
      mbind (munwrap (unwrap (signer_secret_key W signer))) (\<lambda>sk.
      mbind (munwrap (sign_collateral_tx (m_secp M) msg sk preimage)) (\<lambda>collateral_tx.
      mbind (broadcast_tx M collateral_tx) (\<lambda>_.
      mbind (mcatch (mlift (verify_accepted_and_sign_loan_contract (m_btc M) (m_secp M) (m_codec M) W oc accept_msg collateral_tx (al_collateral_spk msg)))
        (accept_fail_on_error M oc accept_msg)) (\<lambda>(s, signed_msg).
      mbind (mlift (Some (import_address (m_chain M) (funding_script_pubkey (ac_transactions (accepted_contract s)))))) (\<lambda>_.
      mbind (update_contract M (Signed s)) (\<lambda>_. mret signed_msg)))))))))))"

definition on_initiate_accept_loan_message :: "'s Manager \<Rightarrow> InitiateAcceptLoanDlc \<Rightarrow> pubkey \<Rightarrow> string \<Rightarrow> ('s, unit) mgr" where
  "on_initiate_accept_loan_message M msg cp evm_pk =
     mbind (mlift (Some (evm_signer (m_evm M) evm_pk))) (\<lambda>_.
     mbind (get_contract_in_state M (ia_contract_id msg) as_offered_loan (Some cp)) (\<lambda>l.
     mlift (lend_stable (m_evm M) (ia_borrower_hash msg) (total_collateral (offered_contract l)))))"

definition on_sign_message :: "'s Manager \<Rightarrow> SignDlc \<Rightarrow> pubkey \<Rightarrow> ('s, unit) mgr" where
  "on_sign_message M msg cp =
     mbind (get_contract_in_state M (sd_contract_id msg) as_accepted (Some cp)) (\<lambda>a.
     mbind (mcatch (mlift (verify_signed_contract (m_btc M) (m_secp M) a msg)) (sign_fail_on_error M a msg)) (\<lambda>(s, fund_tx).
     update_contract M (Signed s)))"

section \<open>Messages\<close>

datatype DlcMessage = OfferMsg OfferDlc | OfferLoanMsg OfferLoanDlc | AcceptMsg AcceptDlc | InitiateAcceptLoanMsg InitiateAcceptLoanDlc
  | AcceptLoanMsg AcceptLoanDlc | SignMsg SignDlc

definition mmap :: "('a \<Rightarrow> 'b) \<Rightarrow> ('s, 'a) mgr \<Rightarrow> ('s, 'b) mgr" where "mmap f m = mbind m (\<lambda>x. mret (f x))"

fun on_dlc_message :: "'s Manager \<Rightarrow> DlcMessage \<Rightarrow> pubkey \<Rightarrow> string \<Rightarrow> ('s, DlcMessage option) mgr" where
  "on_dlc_message M (OfferMsg m) cp evm_pk = mmap (\<lambda>_. None) (on_offer_message M m cp)"
| "on_dlc_message M (OfferLoanMsg m) cp evm_pk = mmap (\<lambda>_. None) (on_offer_loan_message M m cp)"
| "on_dlc_message M (AcceptMsg m) cp evm_pk = mmap (\<lambda>r. Some (SignMsg r)) (on_accept_message M m cp)"
| "on_dlc_message M (AcceptLoanMsg m) cp evm_pk = mmap (\<lambda>r. Some (SignMsg r)) (on_accept_loan_message M m cp)"
| "on_dlc_message M (InitiateAcceptLoanMsg m) cp evm_pk = mmap (\<lambda>_. None) (on_initiate_accept_loan_message M m cp evm_pk)"
| "on_dlc_message M (SignMsg m) cp evm_pk = mmap (\<lambda>_. None) (on_sign_message M m cp)"

section \<open>Closing\<close>

text \<open>The attestations are numbered by their position among the announcements that have matured.\<close>

definition matured_announcements :: "nat \<Rightarrow> ContractInfo \<Rightarrow> (nat \<times> OracleAnnouncement) list" where
  "matured_announcements now ci =
     (let matured = filter (\<lambda>x. event_maturity_epoch (oracle_event x) \<le> now) (oracle_announcements ci)
      in zip [0..<length matured] matured)"

definition valid_attestation :: "'s Manager \<Rightarrow> nat \<times> OracleAnnouncement \<Rightarrow> (nat \<times> OracleAttestation) option" where
  "valid_attestation M = (\<lambda>(i, announcement).
     Option.bind (m_oracles M (ann_public_key announcement)) (\<lambda>oracle.
     case get_attestation oracle (event_id (oracle_event announcement)) of
       Inl _ \<Rightarrow> None
     | Inr attestation \<Rightarrow>
         (case validate_attestation (m_btc M) (m_oracle_lib M) attestation announcement of Inl _ \<Rightarrow> None | Inr _ \<Rightarrow> Some (i, attestation))))"

fun closable_info ::
  "'s Manager \<Rightarrow> (ContractInfo \<times> AdaptorInfo) list \<Rightarrow> (ContractInfo \<times> AdaptorInfo \<times> (nat \<times> OracleAttestation) list) option" where
  "closable_info M [] = None"
| "closable_info M ((ci, info) # rest) =
     (let matured = matured_announcements (unix_time_now (m_world M)) ci;
          attestations = List.map_filter (valid_attestation M) matured
      in if ci_threshold ci \<le> length matured \<and> ci_threshold ci \<le> length attestations then Some (ci, info, attestations)
         else closable_info M rest)"

definition get_closable_contract_info ::
  "'s Manager \<Rightarrow> SignedContract \<Rightarrow> (ContractInfo \<times> AdaptorInfo \<times> (nat \<times> OracleAttestation) list) option" where
  "get_closable_contract_info M s = (let a = accepted_contract s in
     closable_info M (zip (contract_info (ac_offered_contract a)) (adaptor_infos a)))"

definition closed_contract :: "'s Manager \<Rightarrow> SignedContract \<Rightarrow> OracleAttestation list option \<Rightarrow> Transaction \<Rightarrow> (Error + ClosedContract) option" where
  "closed_contract M s attestations tx = (let a = accepted_contract s; oc = ac_offered_contract a in
     pbind (Some (compute_pnl a tx)) (\<lambda>p.
     obind (get_contract_id (m_btc M) a) (\<lambda>i.
     pok \<lparr>cc_attestations = attestations, cc_signed_cet = Some tx, cc_contract_id = i,
       cc_temporary_contract_id = oc_id oc, cc_counter_party_id = counter_party oc, pnl = p\<rparr>)))"

definition close_contract :: "'s Manager \<Rightarrow> SignedContract \<Rightarrow> Transaction \<Rightarrow> OracleAttestation list \<Rightarrow> ('s, Contract) mgr" where
  "close_contract M s signed_cet attestations =
     (let preclosed = PreClosed \<lparr>pc_signed_contract = s, pc_attestations = Some attestations, pc_signed_cet = signed_cet\<rparr> in
      mbind (mlift (Some (get_transaction_confirmations (m_chain M) (compute_txid (m_btc M) signed_cet)))) (\<lambda>confirmations.
      if confirmations < 1 then mbind (broadcast_tx M signed_cet) (\<lambda>_. mret preclosed)
      else if confirmations < NB_CONFIRMATIONS then mret preclosed
      else mbind (mlift (closed_contract M s (Some attestations) signed_cet)) (\<lambda>c. mret (Closed c))))"

definition signed_cet_of ::
  "'s Manager \<Rightarrow> SignedContract \<Rightarrow> ContractInfo \<Rightarrow> AdaptorInfo \<Rightarrow> (nat \<times> OracleAttestation) list \<Rightarrow> ('s, Transaction) mgr" where
  "signed_cet_of M s ci info attestations =
     mbind (mlift (Some (derive_contract_signer (m_world M) (keys_id (ac_offered_contract (accepted_contract s)))))) (\<lambda>signer.
     mlift (get_signed_cet (m_btc M) (m_secp M) (m_orders M) s ci info attestations (signer_secret_key (m_world M) signer)))"

definition check_refund :: "'s Manager \<Rightarrow> SignedContract \<Rightarrow> ('s, unit) mgr" where
  "check_refund M s =
     (let refund_tx = refund (ac_transactions (accepted_contract s)) in
      if lock_time refund_tx \<le> unix_time_now (m_world M) then
        mbind (mlift (Some (get_transaction_confirmations (m_chain M) (compute_txid (m_btc M) refund_tx)))) (\<lambda>confirmations.
        mbind (if confirmations = 0 then
            mbind (mlift (Some (derive_contract_signer (m_world M) (keys_id (ac_offered_contract (accepted_contract s)))))) (\<lambda>signer.
            mbind (mlift (get_signed_refund (m_btc M) (m_secp M) s (signer_secret_key (m_world M) signer))) (\<lambda>tx.
            broadcast_tx M tx))
          else mret ()) (\<lambda>_.
        update_contract M (Refunded s)))
      else mret ())"

definition check_confirmed_contract :: "'s Manager \<Rightarrow> SignedContract \<Rightarrow> ('s, unit) mgr" where
  "check_confirmed_contract M s = (case get_closable_contract_info M s of
     Some (ci, info, attestations) \<Rightarrow>
       mbind (signed_cet_of M s ci info attestations) (\<lambda>cet.
       mbind (mcatch (close_contract M s cet (map snd attestations)) (\<lambda>e.
         mbind (munwrap (get_contract_id_string (m_btc M) (accepted_contract s))) (\<lambda>_. mfail e))) (\<lambda>c. update_contract M c))
   | None \<Rightarrow> check_refund M s)"

text \<open>A contract info matches when enough attestations have the nonces of its announcements.\<close>

definition matching_attestations :: "secp \<Rightarrow> ContractInfo \<Rightarrow> (nat \<times> OracleAttestation) list \<Rightarrow> nat option" where
  "matching_attestations S ci attestations =
     map_option (\<lambda>bs. length (filter id bs)) (omap (\<lambda>(i, a). do {
       announcement \<leftarrow> vget (oracle_announcements ci) i;
       ns \<leftarrow> nonces S a;
       Some (event_nonces (oracle_event announcement) = ns)
     }) attestations)"

fun find_matching ::
  "secp \<Rightarrow> (nat \<times> OracleAttestation) list \<Rightarrow> (ContractInfo \<times> AdaptorInfo) list \<Rightarrow> (ContractInfo \<times> AdaptorInfo) option option" where
  "find_matching S attestations [] = Some None"
| "find_matching S attestations ((ci, info) # rest) =
     Option.bind (matching_attestations S ci attestations) (\<lambda>n.
     if ci_threshold ci \<le> n then Some (Some (ci, info)) else find_matching S attestations rest)"

text \<open>A lock time below 500000000 is a height; \<open>from_consensus\<close> refuses the other kind.\<close>

definition LOCK_TIME_THRESHOLD :: nat where "LOCK_TIME_THRESHOLD = 500000000"

definition lock_time_passed :: "nat \<Rightarrow> nat \<Rightarrow> nat \<Rightarrow> bool" where
  "lock_time_passed lt height time = (if lt < LOCK_TIME_THRESHOLD then lt \<le> height else lt \<le> time)"

definition close_confirmed_contract :: "'s Manager \<Rightarrow> bytes \<Rightarrow> (nat \<times> OracleAttestation) list \<Rightarrow> ('s, Contract) mgr" where
  "close_confirmed_contract M i attestations =
     mbind (get_contract_in_state M i as_confirmed None) (\<lambda>s.
     let a = accepted_contract s in
     mbind (munwrap (find_matching (m_secp M) attestations (zip (contract_info (ac_offered_contract a)) (adaptor_infos a)))) (\<lambda>found.
     case found of
       None \<Rightarrow> mfail (InvalidState ''Attestations did not match contract infos'')
     | Some (ci, info) \<Rightarrow>
         mbind (signed_cet_of M s ci info attestations) (\<lambda>cet.
         let time = unix_time_now (m_world M) mod u32_bound in
         mbind (munwrap (assert_that (LOCK_TIME_THRESHOLD \<le> time))) (\<lambda>_.
         mbind (mlift (Some (get_blockchain_height (m_chain M)))) (\<lambda>h.
         let height = h mod u32_bound in
         mbind (munwrap (assert_that (height < LOCK_TIME_THRESHOLD))) (\<lambda>_.
         if \<not> lock_time_passed (lock_time cet) height time then mfail (InvalidState ''CET lock time has not passed yet'')
         else
           mbind (close_contract M s cet (map snd attestations)) (\<lambda>c.
           mbind (update_contract M c) (\<lambda>_. mret c))))))))"

definition check_preclosed_contract :: "'s Manager \<Rightarrow> PreClosedContract \<Rightarrow> ('s, unit) mgr" where
  "check_preclosed_contract M p =
     mbind (mlift (Some (get_transaction_confirmations (m_chain M) (compute_txid (m_btc M) (pc_signed_cet p))))) (\<lambda>confirmations.
     if NB_CONFIRMATIONS \<le> confirmations then
       mbind (munwrap (get_contract_id (m_btc M) (accepted_contract (pc_signed_contract p)))) (\<lambda>_.
       mbind (mlift (closed_contract M (pc_signed_contract p) (pc_attestations p) (pc_signed_cet p))) (\<lambda>c. update_contract M (Closed c)))
     else mret ())"

definition check_signed_contract :: "'s Manager \<Rightarrow> SignedContract \<Rightarrow> ('s, unit) mgr" where
  "check_signed_contract M s =
     mbind (mlift (Some (get_transaction_confirmations (m_chain M) (compute_txid (m_btc M) (fund (ac_transactions (accepted_contract s))))))) (\<lambda>confirmations.
     if NB_CONFIRMATIONS \<le> confirmations then update_contract M (Confirmed s) else mret ())"

definition on_counterparty_close :: "'s Manager \<Rightarrow> SignedContract \<Rightarrow> Transaction \<Rightarrow> nat \<Rightarrow> ('s, Contract) mgr" where
  "on_counterparty_close M s closing_tx confirmations =
     (let a = accepted_contract s; t = ac_transactions a; B = m_btc M in
      mbind (if tx_input closing_tx = [] then mret None else munwrap (map_option Some (get_fund_outpoint B t))) (\<lambda>outpoint.
      if \<not> (\<exists>i \<in> set (tx_input closing_tx). Some (previous_output i) = outpoint)
      then mfail (InvalidParameters ''Closing tx does not spend the funding tx'')
      else
        mbind (if compute_txid B (refund t) = compute_txid B closing_tx then mret (Refunded s)
          else if confirmations < NB_CONFIRMATIONS
          then mret (PreClosed \<lparr>pc_signed_contract = s, pc_attestations = None, pc_signed_cet = closing_tx\<rparr>)
          else mbind (mlift (closed_contract M s None closing_tx)) (\<lambda>c. mret (Closed c))) (\<lambda>c.
        mbind (update_contract M c) (\<lambda>_. mret c))))"

section \<open>Periodic checks\<close>

text \<open>A loop over stored contracts that logs errors and goes on.\<close>

definition each_logged :: "('a \<Rightarrow> ('s, unit) mgr) \<Rightarrow> 'a list \<Rightarrow> ('s, unit) mgr" where
  "each_logged f = mfor (\<lambda>x. mignore (f x))"

definition check_signed_contracts :: "'s Manager \<Rightarrow> ('s, unit) mgr" where
  "check_signed_contracts M = mbind (store_read (st_get_signed_contracts (m_store M))) (each_logged (check_signed_contract M))"

definition check_confirmed_contracts :: "'s Manager \<Rightarrow> ('s, unit) mgr" where
  "check_confirmed_contracts M = mbind (store_read (st_get_confirmed_contracts (m_store M)))
     (\<lambda>cs. each_logged (check_confirmed_contract M) (filter (\<lambda>c. channel_id c = None) cs))"

definition check_preclosed_contracts :: "'s Manager \<Rightarrow> ('s, unit) mgr" where
  "check_preclosed_contracts M = mbind (store_read (st_get_preclosed_contracts (m_store M))) (each_logged (check_preclosed_contract M))"

definition check_offered_loan_contract :: "'s Manager \<Rightarrow> OfferedLoanContract \<Rightarrow> ('s, unit) mgr" where
  "check_offered_loan_contract M l = (let i = oc_id (offered_contract l) in
     mbind (store_read (\<lambda>s. st_get_escrow_txid (m_store M) s i)) (\<lambda>escrow_opt. case escrow_opt of
       None \<Rightarrow> mret ()
     | Some escrow \<Rightarrow>
         mbind (store_read (\<lambda>s. Some (st_get_loan_preimage (m_store M) s i))) (\<lambda>preimage_opt.
         mbind (munwrap preimage_opt) (\<lambda>preimage.
         mbind (mlift (stable_loans (m_evm M) (sha256 (m_btc M) (be_bytes 16 preimage)))) (\<lambda>(amount, _).
         mbind (if 0 < amount then mlift (claim_stable (m_evm M) preimage) else mret ()) (\<lambda>_.
         mbind (mlift (Some (get_transaction_confirmations (m_chain M) escrow))) (\<lambda>confirmations.
         if NB_CONFIRMATIONS \<le> confirmations \<and> 0 < amount then update_contract M (OfferedLoanEscrowConfirmed l) else mret ())))))))"

definition check_offered_loan_contracts_for_escrow :: "'s Manager \<Rightarrow> string \<Rightarrow> ('s, unit) mgr" where
  "check_offered_loan_contracts_for_escrow M evm_pk =
     mbind (mlift (Some (evm_signer (m_evm M) evm_pk))) (\<lambda>_.
     mbind (store_read (st_get_loan_contract_offers (m_store M))) (mfor (check_offered_loan_contract M)))"

text \<open>The checks without those of channels (\<open>check_channels\<close> false).\<close>

definition periodic_check :: "'s Manager \<Rightarrow> string \<Rightarrow> ('s, unit) mgr" where
  "periodic_check M evm_pk =
     mbind (check_offered_loan_contracts_for_escrow M evm_pk) (\<lambda>_.
     mbind (check_signed_contracts M) (\<lambda>_.
     mbind (check_confirmed_contracts M) (\<lambda>_. check_preclosed_contracts M)))"

definition process_height :: "'s Manager \<Rightarrow> nat \<Rightarrow> ('s, unit) mgr" where
  "process_height M height =
     mbind (mlift (Some (get_block_at_height (m_chain M) height))) (\<lambda>block st.
       map_option (\<lambda>m. (Inr (), st\<lparr>monitor := m\<rparr>)) (process_block (m_btc M) block height (monitor st)))"

definition periodic_chain_monitor :: "'s Manager \<Rightarrow> ('s, unit) mgr" where
  "periodic_chain_monitor M =
     mbind (mlift (Some (get_blockchain_height (m_chain M)))) (\<lambda>cur_height st.
       if cur_height < last_height (monitor st) then mfail (InvalidState ''Current height is lower than last height.'') st
       else mfor (process_height M) [last_height (monitor st) + 1..<cur_height + 1] st)"

end
