(* ===== verification/SledStorage.thy ===== *)
theory SledStorage
  imports Storage
begin

text \<open>
  The storage provider on the sled database, \<open>dlc-sled-storage-provider/src/lib.rs\<close>, for contracts, preimages and escrow
  transactions. The database is a record of functions: its trees are maps from keys to values, and every operation may
  fail. The encodings of the stored structures are a record too (\<open>contract_codec\<close>); what is modelled is how the provider
  puts a state prefix before them, finds contracts by prefix, and moves a contract from its temporary id to its final one.
\<close>

section \<open>The database\<close>

datatype tree_op = TreeRemove bytes | TreeInsert bytes bytes

fun apply_op :: "tree_op \<Rightarrow> (bytes \<Rightarrow> bytes option) \<Rightarrow> bytes \<Rightarrow> bytes option" where
  "apply_op (TreeRemove k) m = m(k := None)"
| "apply_op (TreeInsert k v) m = m(k \<mapsto> v)"

record 't sled =
  sled_open :: "nat \<Rightarrow> string + unit"
  sled_get :: "'t \<Rightarrow> bytes \<Rightarrow> string + bytes option"
  sled_insert :: "'t \<Rightarrow> bytes \<Rightarrow> bytes \<Rightarrow> string + 't"
  sled_remove :: "'t \<Rightarrow> bytes \<Rightarrow> string + 't"
  sled_transaction :: "'t \<Rightarrow> tree_op list \<Rightarrow> string + 't"
  sled_values :: "'t \<Rightarrow> (string + bytes) list"
  sled_content :: "'t \<Rightarrow> bytes \<Rightarrow> bytes option"

text \<open>
  What the documentation of sled says: a successful operation acts on the content of the tree, a transaction applies all of
  its operations, and an iteration that meets no error meets every value; the provider unwraps what it meets.
\<close>

definition sled_laws :: "'t sled \<Rightarrow> bool" where
  "sled_laws D \<longleftrightarrow>
     (\<forall>t k v. sled_get D t k = Inr v \<longrightarrow> v = sled_content D t k) \<and>
     (\<forall>t k v t'. sled_insert D t k v = Inr t' \<longrightarrow> sled_content D t' = (sled_content D t)(k \<mapsto> v)) \<and>
     (\<forall>t k t'. sled_remove D t k = Inr t' \<longrightarrow> sled_content D t' = (sled_content D t)(k := None)) \<and>
     (\<forall>t xs t'. sled_transaction D t xs = Inr t' \<longrightarrow> sled_content D t' = fold apply_op xs (sled_content D t)) \<and>
     (\<forall>t vs. sled_values D t = map Inr vs \<longrightarrow> set vs = ran (sled_content D t))"

type_synonym 't db = "nat \<Rightarrow> 't"

definition CONTRACT_TREE :: nat where "CONTRACT_TREE = 1"
definition PREIMAGE_TREE :: nat where "PREIMAGE_TREE = 9"
definition ESCROW_TXID_TREE :: nat where "ESCROW_TXID_TREE = 10"

lemma trees_distinct [simp]:
  "CONTRACT_TREE \<noteq> PREIMAGE_TREE" "CONTRACT_TREE \<noteq> ESCROW_TXID_TREE" "PREIMAGE_TREE \<noteq> ESCROW_TXID_TREE"
  by (simp_all add: CONTRACT_TREE_def PREIMAGE_TREE_def ESCROW_TXID_TREE_def)

definition to_storage_error :: "string + 'a \<Rightarrow> Error + 'a" where
  "to_storage_error r = map_sum StorageError id r"

lemma to_storage_error_Inr [simp]: "to_storage_error r = Inr x \<longleftrightarrow> r = Inr x"
  by (cases r) (simp_all add: to_storage_error_def)

definition open_tree :: "'t sled \<Rightarrow> 't db \<Rightarrow> nat \<Rightarrow> Error + 't" where
  "open_tree D db i = (case sled_open D i of
     Inl e \<Rightarrow> Inl (StorageError (''Error opening contract tree: '' @ e)) | Inr _ \<Rightarrow> Inr (db i))"

lemma open_tree_Inr [simp]: "open_tree D db i = Inr t \<longleftrightarrow> sled_open D i = Inr () \<and> t = db i"
  by (auto simp: open_tree_def split: sum.splits)

section \<open>Prefixes\<close>

datatype ContractPrefix = OfferedPrefix | OfferedLoanPrefix | OfferedLoanEscrowConfirmedPrefix | AcceptedPrefix | SignedPrefix
  | ConfirmedPrefix | PreClosedPrefix | ClosedPrefix | FailedAcceptPrefix | FailedSignPrefix | RefundedPrefix | RejectedPrefix

fun prefix_u8 :: "ContractPrefix \<Rightarrow> nat" where
  "prefix_u8 OfferedPrefix = 1"
| "prefix_u8 OfferedLoanPrefix = 2"
| "prefix_u8 OfferedLoanEscrowConfirmedPrefix = 3"
| "prefix_u8 AcceptedPrefix = 4"
| "prefix_u8 SignedPrefix = 5"
| "prefix_u8 ConfirmedPrefix = 6"
| "prefix_u8 PreClosedPrefix = 7"
| "prefix_u8 ClosedPrefix = 8"
| "prefix_u8 FailedAcceptPrefix = 9"
| "prefix_u8 FailedSignPrefix = 10"
| "prefix_u8 RefundedPrefix = 11"
| "prefix_u8 RejectedPrefix = 12"

definition all_prefixes :: "ContractPrefix list" where
  "all_prefixes = [OfferedPrefix, OfferedLoanPrefix, OfferedLoanEscrowConfirmedPrefix, AcceptedPrefix, SignedPrefix,
     ConfirmedPrefix, PreClosedPrefix, ClosedPrefix, FailedAcceptPrefix, FailedSignPrefix, RefundedPrefix, RejectedPrefix]"

definition prefix_try_from :: "nat \<Rightarrow> Error + ContractPrefix" where
  "prefix_try_from v = ok_or (StorageError ''Unknown prefix'') (List.find (\<lambda>p. v = prefix_u8 p) all_prefixes)"

fun prefix_of :: "Contract \<Rightarrow> ContractPrefix" where
  "prefix_of (Offered _) = OfferedPrefix"
| "prefix_of (OfferedLoan _) = OfferedLoanPrefix"
| "prefix_of (OfferedLoanEscrowConfirmed _) = OfferedLoanEscrowConfirmedPrefix"
| "prefix_of (Accepted _) = AcceptedPrefix"
| "prefix_of (Signed _) = SignedPrefix"
| "prefix_of (Confirmed _) = ConfirmedPrefix"
| "prefix_of (PreClosed _) = PreClosedPrefix"
| "prefix_of (Closed _) = ClosedPrefix"
| "prefix_of (FailedAccept _) = FailedAcceptPrefix"
| "prefix_of (FailedSign _) = FailedSignPrefix"
| "prefix_of (Refunded _) = RefundedPrefix"
| "prefix_of (Rejected _) = RejectedPrefix"

definition get_prefix :: "Contract \<Rightarrow> nat" where "get_prefix c = prefix_u8 (prefix_of c)"

lemma prefix_round_trip [simp]: "prefix_try_from (prefix_u8 p) = Inr p"
  by (cases p) (simp_all add: prefix_try_from_def all_prefixes_def)

lemma prefix_u8_inject [simp]: "prefix_u8 p = prefix_u8 q \<longleftrightarrow> p = q"
  using prefix_round_trip by (metis sum.inject(2))

lemma prefix_try_from_Inr: "prefix_try_from v = Inr p \<longleftrightarrow> v = prefix_u8 p"
proof
  assume "prefix_try_from v = Inr p"
  then show "v = prefix_u8 p" by (auto simp: prefix_try_from_def find_Some_iff)
qed simp

section \<open>Contracts as bytes\<close>

text \<open>The encodings of the stored structures; reading ignores what follows.\<close>

record contract_codec =
  ser_offered :: "OfferedContract \<Rightarrow> string + bytes"
  ser_loan :: "OfferedLoanContract \<Rightarrow> string + bytes"
  ser_accepted :: "AcceptedContract \<Rightarrow> string + bytes"
  ser_signed :: "SignedContract \<Rightarrow> string + bytes"
  ser_preclosed :: "PreClosedContract \<Rightarrow> string + bytes"
  ser_closed :: "ClosedContract \<Rightarrow> string + bytes"
  ser_failed_accept :: "FailedAcceptContract \<Rightarrow> string + bytes"
  ser_failed_sign :: "FailedSignContract \<Rightarrow> string + bytes"
  de_offered :: "bytes \<Rightarrow> string + OfferedContract"
  de_loan :: "bytes \<Rightarrow> string + OfferedLoanContract"
  de_accepted :: "bytes \<Rightarrow> string + AcceptedContract"
  de_signed :: "bytes \<Rightarrow> string + SignedContract"
  de_preclosed :: "bytes \<Rightarrow> string + PreClosedContract"
  de_closed :: "bytes \<Rightarrow> string + ClosedContract"
  de_failed_accept :: "bytes \<Rightarrow> string + FailedAcceptContract"
  de_failed_sign :: "bytes \<Rightarrow> string + FailedSignContract"

definition reads_back :: "('a \<Rightarrow> string + bytes) \<Rightarrow> (bytes \<Rightarrow> string + 'a) \<Rightarrow> bool" where
  "reads_back ser de \<longleftrightarrow> (\<forall>x b. ser x = Inr b \<longrightarrow> de b = Inr x)"

definition storage_codec_laws :: "contract_codec \<Rightarrow> bool" where
  "storage_codec_laws C \<longleftrightarrow> reads_back (ser_offered C) (de_offered C) \<and> reads_back (ser_loan C) (de_loan C) \<and>
     reads_back (ser_accepted C) (de_accepted C) \<and> reads_back (ser_signed C) (de_signed C) \<and>
     reads_back (ser_preclosed C) (de_preclosed C) \<and> reads_back (ser_closed C) (de_closed C) \<and>
     reads_back (ser_failed_accept C) (de_failed_accept C) \<and> reads_back (ser_failed_sign C) (de_failed_sign C)"

fun serialize_payload :: "contract_codec \<Rightarrow> Contract \<Rightarrow> string + bytes" where
  "serialize_payload C (Offered oc) = ser_offered C oc"
| "serialize_payload C (Rejected oc) = ser_offered C oc"
| "serialize_payload C (OfferedLoan l) = ser_loan C l"
| "serialize_payload C (OfferedLoanEscrowConfirmed l) = ser_loan C l"
| "serialize_payload C (Accepted a) = ser_accepted C a"
| "serialize_payload C (Signed s) = ser_signed C s"
| "serialize_payload C (Confirmed s) = ser_signed C s"
| "serialize_payload C (Refunded s) = ser_signed C s"
| "serialize_payload C (FailedAccept f) = ser_failed_accept C f"
| "serialize_payload C (FailedSign f) = ser_failed_sign C f"
| "serialize_payload C (PreClosed p) = ser_preclosed C p"
| "serialize_payload C (Closed c) = ser_closed C c"

definition serialize_contract :: "contract_codec \<Rightarrow> Contract \<Rightarrow> Error + bytes" where
  "serialize_contract C c = rbind (map_sum IOError id (serialize_payload C c)) (\<lambda>b. Inr (get_prefix c # b))"

fun deserialize_payload :: "contract_codec \<Rightarrow> ContractPrefix \<Rightarrow> bytes \<Rightarrow> string + Contract" where
  "deserialize_payload C OfferedPrefix b = map_sum id Offered (de_offered C b)"
| "deserialize_payload C OfferedLoanPrefix b = map_sum id OfferedLoan (de_loan C b)"
| "deserialize_payload C OfferedLoanEscrowConfirmedPrefix b = map_sum id OfferedLoanEscrowConfirmed (de_loan C b)"
| "deserialize_payload C AcceptedPrefix b = map_sum id Accepted (de_accepted C b)"
| "deserialize_payload C SignedPrefix b = map_sum id Signed (de_signed C b)"
| "deserialize_payload C ConfirmedPrefix b = map_sum id Confirmed (de_signed C b)"
| "deserialize_payload C PreClosedPrefix b = map_sum id PreClosed (de_preclosed C b)"
| "deserialize_payload C ClosedPrefix b = map_sum id Closed (de_closed C b)"
| "deserialize_payload C FailedAcceptPrefix b = map_sum id FailedAccept (de_failed_accept C b)"
| "deserialize_payload C FailedSignPrefix b = map_sum id FailedSign (de_failed_sign C b)"
| "deserialize_payload C RefundedPrefix b = map_sum id Refunded (de_signed C b)"
| "deserialize_payload C RejectedPrefix b = map_sum id Rejected (de_offered C b)"

fun deserialize_contract :: "contract_codec \<Rightarrow> bytes \<Rightarrow> Error + Contract" where
  "deserialize_contract C [] = Inl (IOError ''failed to fill whole buffer'')"
| "deserialize_contract C (b # rest) = rbind (prefix_try_from b) (\<lambda>p. to_storage_error (deserialize_payload C p rest))"

lemma serialized_reads_back:
  assumes "storage_codec_laws C" "serialize_contract C c = Inr b"
  shows "deserialize_contract C b = Inr c"
proof -
  obtain payload where "serialize_payload C c = Inr payload" "b = get_prefix c # payload"
    using assms(2) by (cases "serialize_payload C c") (auto simp: serialize_contract_def)
  moreover from this have "deserialize_payload C (prefix_of c) payload = Inr c" using assms(1)
    by (cases c) (simp_all add: storage_codec_laws_def reads_back_def)
  ultimately show ?thesis by (simp add: get_prefix_def)
qed

section \<open>The operations of the provider\<close>

type_synonym 't provider = "'t sled \<times> contract_codec"

text \<open>The values with a prefix: a value that is shorter panics, and one that cannot be read is left out.\<close>

definition read_with_prefix :: "bytes \<Rightarrow> nat option \<Rightarrow> (bytes \<Rightarrow> string + 'a) \<Rightarrow> bytes \<Rightarrow> 'a option" where
  "read_with_prefix prefix skip de v =
     (if take (length prefix) v = prefix
      then (case de (drop (length prefix + (case skip of Some n \<Rightarrow> n | None \<Rightarrow> 0)) v) of Inr x \<Rightarrow> Some x | Inl _ \<Rightarrow> None)
      else None)"

definition get_data_with_prefix :: "'t sled \<Rightarrow> 't \<Rightarrow> bytes \<Rightarrow> nat option \<Rightarrow> (bytes \<Rightarrow> string + 'a) \<Rightarrow> (Error + 'a list) option" where
  "get_data_with_prefix D t prefix skip de =
     obind (omap unwrap (sled_values D t)) (\<lambda>vs.
     if \<exists>v \<in> set vs. length v < length prefix then None else pok (List.map_filter (read_with_prefix prefix skip de) vs))"

definition contracts_with :: "'t provider \<Rightarrow> 't db \<Rightarrow> ContractPrefix \<Rightarrow> (bytes \<Rightarrow> string + 'a) \<Rightarrow> (Error + 'a list) option" where
  "contracts_with P db p de = pbind (Some (open_tree (fst P) db CONTRACT_TREE)) (\<lambda>t. get_data_with_prefix (fst P) t [prefix_u8 p] None de)"

definition sled_get_contract :: "'t provider \<Rightarrow> 't db \<Rightarrow> bytes \<Rightarrow> Error + Contract option" where
  "sled_get_contract P db i =
     rbind (open_tree (fst P) db CONTRACT_TREE) (\<lambda>t.
     rbind (to_storage_error (sled_get (fst P) t i)) (\<lambda>r. case r of
       Some b \<Rightarrow> rbind (deserialize_contract (snd P) b) (\<lambda>c. Inr (Some c))
     | None \<Rightarrow> Inr None))"

fun deserialize_all :: "contract_codec \<Rightarrow> (string + bytes) list \<Rightarrow> (Error + Contract list) option" where
  "deserialize_all C [] = pok []"
| "deserialize_all C (Inl _ # vs) = None"
| "deserialize_all C (Inr b # vs) = pbind (Some (deserialize_contract C b)) (\<lambda>c. pbind (deserialize_all C vs) (\<lambda>cs. pok (c # cs)))"

definition sled_get_contracts :: "'t provider \<Rightarrow> 't db \<Rightarrow> (Error + Contract list) option" where
  "sled_get_contracts P db =
     pbind (Some (open_tree (fst P) db CONTRACT_TREE)) (\<lambda>t. deserialize_all (snd P) (sled_values (fst P) t))"

definition store_value :: "'t provider \<Rightarrow> 't db \<Rightarrow> nat \<Rightarrow> bytes \<Rightarrow> bytes \<Rightarrow> Error + 't db" where
  "store_value P db i k v =
     rbind (open_tree (fst P) db i) (\<lambda>t.
     rbind (to_storage_error (sled_insert (fst P) t k v)) (\<lambda>t'. Inr (db(i := t'))))"

definition sled_create_contract :: "'t provider \<Rightarrow> 't db \<Rightarrow> OfferedContract \<Rightarrow> Error + 't db" where
  "sled_create_contract P db oc =
     rbind (serialize_contract (snd P) (Offered oc)) (\<lambda>b. store_value P db CONTRACT_TREE (oc_id oc) b)"

definition sled_create_loan_contract :: "'t provider \<Rightarrow> 't db \<Rightarrow> OfferedLoanContract \<Rightarrow> Error + 't db" where
  "sled_create_loan_contract P db l =
     rbind (serialize_contract (snd P) (OfferedLoan l)) (\<lambda>b. store_value P db CONTRACT_TREE (oc_id (offered_contract l)) b)"

definition sled_delete_contract :: "'t provider \<Rightarrow> 't db \<Rightarrow> bytes \<Rightarrow> Error + 't db" where
  "sled_delete_contract P db i =
     rbind (open_tree (fst P) db CONTRACT_TREE) (\<lambda>t.
     rbind (to_storage_error (sled_remove (fst P) t i)) (\<lambda>t'. Inr (db(CONTRACT_TREE := t'))))"

text \<open>The transaction of \<open>update_contract\<close>; the id of a contract may panic.\<close>

definition update_ops :: "Contract \<Rightarrow> bytes \<Rightarrow> bytes \<Rightarrow> tree_op list" where
  "update_ops c i b = (if leaves_temporary_id c then [TreeRemove (get_temporary_id c)] else []) @ [TreeInsert i b]"

definition sled_update_contract :: "btc \<Rightarrow> 't provider \<Rightarrow> 't db \<Rightarrow> Contract \<Rightarrow> (Error + 't db) option" where
  "sled_update_contract B P db c =
     pbind (Some (serialize_contract (snd P) c)) (\<lambda>b.
     pbind (Some (open_tree (fst P) db CONTRACT_TREE)) (\<lambda>t.
     obind (get_id B c) (\<lambda>i.
     pbind (Some (to_storage_error (sled_transaction (fst P) t (update_ops c i b)))) (\<lambda>t'. pok (db(CONTRACT_TREE := t'))))))"

text \<open>Preimages are 16 bytes, transaction ids 32; reading an id of another length panics.\<close>

definition sled_set_loan_preimage :: "'t provider \<Rightarrow> 't db \<Rightarrow> bytes \<Rightarrow> nat \<Rightarrow> Error + 't db" where
  "sled_set_loan_preimage P db i preimage = store_value P db PREIMAGE_TREE i (be_bytes 16 preimage)"

definition from_be_bytes :: "bytes \<Rightarrow> nat" where "from_be_bytes b = foldl (\<lambda>n d. n * 256 + d) 0 b"

definition sled_get_loan_preimage :: "'t provider \<Rightarrow> 't db \<Rightarrow> bytes \<Rightarrow> Error + nat option" where
  "sled_get_loan_preimage P db i =
     rbind (open_tree (fst P) db PREIMAGE_TREE) (\<lambda>t.
     rbind (to_storage_error (sled_get (fst P) t i)) (\<lambda>r. case r of
       Some b \<Rightarrow> if length b = 16 then Inr (Some (from_be_bytes b))
                 else Inl (StorageError ''Invalid preimage data length, expected 16 bytes'')
     | None \<Rightarrow> Inr None))"

definition sled_set_escrow_txid :: "'t provider \<Rightarrow> 't db \<Rightarrow> bytes \<Rightarrow> bytes \<Rightarrow> Error + 't db" where
  "sled_set_escrow_txid P db i tx = store_value P db ESCROW_TXID_TREE i tx"

definition sled_get_escrow_txid :: "'t provider \<Rightarrow> 't db \<Rightarrow> bytes \<Rightarrow> (Error + bytes option) option" where
  "sled_get_escrow_txid P db i =
     pbind (Some (open_tree (fst P) db ESCROW_TXID_TREE)) (\<lambda>t.
     pbind (Some (to_storage_error (sled_get (fst P) t i))) (\<lambda>r. case r of
       Some b \<Rightarrow> if length b = 32 then pok (Some b) else None
     | None \<Rightarrow> pok None))"

definition sled_storage :: "btc \<Rightarrow> 't provider \<Rightarrow> 't db Storage" where
  "sled_storage B P =
     \<lparr>st_get_contract = sled_get_contract P, st_get_contracts = sled_get_contracts P, st_create_contract = sled_create_contract P,
      st_create_loan_contract = sled_create_loan_contract P, st_delete_contract = sled_delete_contract P,
      st_update_contract = sled_update_contract B P,
      st_get_contract_offers = (\<lambda>db. contracts_with P db OfferedPrefix (de_offered (snd P))),
      st_get_loan_contract_offers = (\<lambda>db. contracts_with P db OfferedLoanPrefix (de_loan (snd P))),
      st_get_signed_contracts = (\<lambda>db. contracts_with P db SignedPrefix (de_signed (snd P))),
      st_get_confirmed_contracts = (\<lambda>db. contracts_with P db ConfirmedPrefix (de_signed (snd P))),
      st_get_preclosed_contracts = (\<lambda>db. contracts_with P db PreClosedPrefix (de_preclosed (snd P))),
      st_set_loan_preimage = sled_set_loan_preimage P, st_get_loan_preimage = sled_get_loan_preimage P,
      st_set_escrow_txid = sled_set_escrow_txid P, st_get_escrow_txid = sled_get_escrow_txid P\<rparr>"

section \<open>The provider keeps the contract\<close>

text \<open>The contracts of a database: what can be read of the tree of contracts.\<close>

definition sled_view :: "'t provider \<Rightarrow> 't db \<Rightarrow> bytes \<Rightarrow> Contract option" where
  "sled_view P db i = Option.bind (sled_content (fst P) (db CONTRACT_TREE) i)
     (\<lambda>b. case deserialize_contract (snd P) b of Inr c \<Rightarrow> Some c | Inl _ \<Rightarrow> None)"

lemma sled_view_Some:
  "sled_view P db i = Some c \<longleftrightarrow> (\<exists>b. sled_content (fst P) (db CONTRACT_TREE) i = Some b \<and> deserialize_contract (snd P) b = Inr c)"
proof
  assume "sled_view P db i = Some c"
  then obtain b where "sled_content (fst P) (db CONTRACT_TREE) i = Some b"
      "(case deserialize_contract (snd P) b of Inr c \<Rightarrow> Some c | Inl _ \<Rightarrow> None) = Some c"
    by (auto simp: sled_view_def bind_eq_Some_conv)
  then show "\<exists>b. sled_content (fst P) (db CONTRACT_TREE) i = Some b \<and> deserialize_contract (snd P) b = Inr c"
    by (cases "deserialize_contract (snd P) b") auto
qed (auto simp: sled_view_def)

definition sled_lawful :: "btc \<times> 't provider \<Rightarrow> bool" where
  "sled_lawful E \<longleftrightarrow> sled_laws (fst (snd E)) \<and> storage_codec_laws (snd (snd E))"

lemma sled_lawsD:
  assumes "sled_laws D"
  shows "sled_get D t k = Inr v \<Longrightarrow> v = sled_content D t k"
    "sled_insert D t k b = Inr t' \<Longrightarrow> sled_content D t' = (sled_content D t)(k \<mapsto> b)"
    "sled_remove D t k = Inr t' \<Longrightarrow> sled_content D t' = (sled_content D t)(k := None)"
    "sled_transaction D t xs = Inr t' \<Longrightarrow> sled_content D t' = fold apply_op xs (sled_content D t)"
    "sled_values D t = map Inr vs \<Longrightarrow> set vs = ran (sled_content D t)"
  using assms unfolding sled_laws_def by blast+

lemma stored_contract_view:
  assumes "sled_laws D" "storage_codec_laws C" "serialize_contract C c = Inr b" "store_value (D, C) db CONTRACT_TREE i b = Inr db'"
  shows "sled_view (D, C) db' = (sled_view (D, C) db)(i \<mapsto> c)"
proof -
  obtain t' where t: "sled_insert D (db CONTRACT_TREE) i b = Inr t'" "db' = db(CONTRACT_TREE := t')"
    using assms(4) by (auto simp: store_value_def)
  show ?thesis using serialized_reads_back[OF assms(2,3)] t(2)
    by (auto simp: sled_view_def fun_eq_iff sled_lawsD(2)[OF assms(1) t(1)])
qed

lemma map_sum_Inr: "map_sum f g r = Inr y \<longleftrightarrow> (\<exists>x. r = Inr x \<and> y = g x)"
  by (cases r) auto

lemma in_map_filter: "x \<in> set (List.map_filter f vs) \<longleftrightarrow> (\<exists>v \<in> set vs. f v = Some x)"
  by (induction vs) (auto simp: map_filter_simps split: option.split)

lemma omap_unwrap: "omap unwrap rs = Some vs \<Longrightarrow> rs = map Inr vs"
proof (induction rs arbitrary: vs)
  case (Cons r rs)
  then show ?case by (cases r) (auto simp: bind_eq_Some_conv)
qed simp

text \<open>The reader of a prefix and the constructor that is read for it.\<close>

lemma contracts_with_view:
  assumes "sled_laws D" "contracts_with (D, C) db p de = pok xs"
    "\<And>b. deserialize_payload C p b = map_sum id con (de b)" "\<And>x. prefix_of (con x) = p" "inj con"
    "\<And>q b c. deserialize_payload C q b = Inr c \<Longrightarrow> prefix_of c = q"
  shows "x \<in> set xs \<longleftrightarrow> (\<exists>i. sled_view (D, C) db i = Some (con x))"
proof -
  obtain vs where vs: "omap unwrap (sled_values D (db CONTRACT_TREE)) = Some vs" "xs = List.map_filter (read_with_prefix [prefix_u8 p] None de) vs"
    using assms(2) by (auto simp: contracts_with_def get_data_with_prefix_def bind_eq_Some_conv split: if_splits)
  have ran: "set vs = ran (sled_content D (db CONTRACT_TREE))" using sled_lawsD(5)[OF assms(1) omap_unwrap[OF vs(1)]] .
  have read: "deserialize_contract C v = Inr (con x) \<longleftrightarrow> read_with_prefix [prefix_u8 p] None de v = Some x" for v
  proof (cases v)
    case (Cons k rest)
    have "q = p" if "deserialize_payload C q rest = Inr (con x)" for q using assms(6)[OF that] assms(4) by simp
    moreover have "deserialize_payload C p rest = Inr (con x) \<longleftrightarrow> de rest = Inr x"
      unfolding assms(3) using assms(5) by (auto simp: map_sum_Inr dest: injD)
    ultimately have "deserialize_payload C q rest = Inr (con x) \<longleftrightarrow> q = p \<and> de rest = Inr x" for q by blast
    then show ?thesis using Cons by (auto simp: prefix_try_from_Inr read_with_prefix_def split: sum.splits)
  qed (simp add: read_with_prefix_def)
  have "x \<in> set xs \<longleftrightarrow> (\<exists>v \<in> set vs. deserialize_contract C v = Inr (con x))"
    unfolding vs(2) read by (simp add: in_map_filter)
  also have "\<dots> \<longleftrightarrow> (\<exists>i. sled_view (D, C) db i = Some (con x))"
    unfolding ran by (auto simp: ran_def sled_view_Some)
  finally show ?thesis .
qed

lemma deserialized_prefix: "deserialize_payload C q b = Inr c \<Longrightarrow> prefix_of c = q"
  by (cases q) (auto simp: map_sum_Inr)

lemma updated_contents:
  "fold apply_op (update_ops c i b) m = (if leaves_temporary_id c then m(get_temporary_id c := None) else m)(i \<mapsto> b)"
  by (simp add: update_ops_def)

lemma sled_update_view:
  assumes "sled_laws D" "storage_codec_laws C" "sled_update_contract B (D, C) db c = pok db'"
  shows "\<exists>i. get_id B c = Some i \<and> sled_view (D, C) db' = updated (sled_view (D, C) db) i c"
proof -
  obtain b i t' where u: "serialize_contract C c = Inr b" "get_id B c = Some i"
      "sled_transaction D (db CONTRACT_TREE) (update_ops c i b) = Inr t'" "db' = db(CONTRACT_TREE := t')"
    using assms(3) by (auto simp: sled_update_contract_def bind_eq_Some_conv)
  show ?thesis
    using u(2,4) sled_lawsD(4)[OF assms(1) u(3)] serialized_reads_back[OF assms(2) u(1)]
    by (auto simp: sled_view_def updated_def updated_contents fun_eq_iff)
qed

lemma sled_other_tree: "store_value (D, C) db j k v = Inr db' \<Longrightarrow> CONTRACT_TREE \<noteq> j \<Longrightarrow> sled_view (D, C) db' = sled_view (D, C) db"
  by (auto simp: store_value_def sled_view_def intro!: ext)

interpretation sled: contract_store fst "\<lambda>E. sled_storage (fst E) (snd E)" sled_lawful "\<lambda>E. sled_view (snd E)"
proof (unfold_locales, goal_cases)
  case (1 E s i r)
  then show ?case using sled_lawsD(1)[of "fst (snd E)"]
    by (fastforce simp: sled_lawful_def sled_storage_def sled_get_contract_def sled_view_def split: option.splits)
next
  case (2 E s oc s')
  then show ?case using stored_contract_view[of "fst (snd E)" "snd (snd E)"]
    by (auto simp: sled_lawful_def sled_storage_def sled_create_contract_def)
next
  case (3 E s l s')
  then show ?case using stored_contract_view[of "fst (snd E)" "snd (snd E)"]
    by (auto simp: sled_lawful_def sled_storage_def sled_create_loan_contract_def)
next
  case (4 E s i s')
  then show ?case
    by (auto simp: sled_lawful_def sled_storage_def sled_delete_contract_def sled_view_def sled_lawsD(3) intro!: ext)
next
  case (5 E s c s')
  then show ?case using sled_update_view[of "fst (snd E)" "snd (snd E)"] by (simp add: sled_lawful_def sled_storage_def)
next
  case (6 E s ls l)
  then show ?case using contracts_with_view[of "fst (snd E)" "snd (snd E)" s OfferedLoanPrefix _ ls OfferedLoan l] deserialized_prefix
    by (simp add: sled_lawful_def sled_storage_def inj_on_def)
next
  case (7 E s cs sc)
  then show ?case using contracts_with_view[of "fst (snd E)" "snd (snd E)" s SignedPrefix _ cs Signed sc] deserialized_prefix
    by (simp add: sled_lawful_def sled_storage_def inj_on_def)
next
  case (8 E s cs sc)
  then show ?case using contracts_with_view[of "fst (snd E)" "snd (snd E)" s ConfirmedPrefix _ cs Confirmed sc] deserialized_prefix
    by (simp add: sled_lawful_def sled_storage_def inj_on_def)
next
  case (9 E s ps p)
  then show ?case using contracts_with_view[of "fst (snd E)" "snd (snd E)" s PreClosedPrefix _ ps PreClosed p] deserialized_prefix
    by (simp add: sled_lawful_def sled_storage_def inj_on_def)
next
  case (10 E s i n s')
  then show ?case using sled_other_tree[of "fst (snd E)" "snd (snd E)"]
    by (simp add: sled_storage_def sled_set_loan_preimage_def)
next
  case (11 E s i t s')
  then show ?case using sled_other_tree[of "fst (snd E)" "snd (snd E)"]
    by (simp add: sled_storage_def sled_set_escrow_txid_def)
qed

end
