(* ===== verification/ContractInfoSpec.thy ===== *)
theory ContractInfoSpec
  imports ContractInfo
begin

text \<open>
  What the conditions of a contract guarantee: the signatures that one party makes are the ones the other verifies, and the
  signature that closing takes is the one made for the attested outcome.
\<close>

section \<open>Counting\<close>

lemma lookup_count:
  "Mapping.lookup (fold (\<lambda>i cnt. Mapping.update i (Suc (case Mapping.lookup cnt i of None \<Rightarrow> 0 | Some n \<Rightarrow> n)) cnt) items m) x =
     (if count (mset items) x = 0 then Mapping.lookup m x
      else Some (count (mset items) x + (case Mapping.lookup m x of None \<Rightarrow> 0 | Some n \<Rightarrow> n)))"
  by (induction items arbitrary: m) (auto simp: Mapping.lookup_update' count_eq_zero_iff split: option.splits)

lemma unordered_equal_mset: "unordered_equal a b \<longleftrightarrow> mset a = mset b"
proof -
  have c: "Mapping.lookup (count_items xs) x = (if count (mset xs) x = 0 then None else Some (count (mset xs) x))" for xs :: "'a list" and x
    unfolding count_items_def lookup_count by (simp add: Mapping.lookup_empty)
  have n: "count (mset xs) x = (case Mapping.lookup (count_items xs) x of None \<Rightarrow> 0 | Some n \<Rightarrow> n)" for xs :: "'a list" and x
    using c[of xs x] by (simp split: if_splits)
  show ?thesis
  proof
    assume "unordered_equal a b"
    then show "mset a = mset b" by (intro multiset_eqI) (simp only: n unordered_equal_def)
  qed (auto simp: unordered_equal_def c intro!: mapping_eqI)
qed

section \<open>Points of an enumerated contract\<close>

definition outcome_message :: "btc \<Rightarrow> nat \<Rightarrow> string \<Rightarrow> bytes list list" where
  "outcome_message B thr outcome = replicate thr [sha256 B (str_bytes outcome)]"

abbreviation enum_slots :: "btc \<Rightarrow> EnumDescriptor \<Rightarrow> nat \<Rightarrow> nat list list \<Rightarrow> ((nat \<times> bytes list list) \<times> nat list) list" where
  "enum_slots B e thr cs \<equiv> List.product (zip [0..<length e] (map (\<lambda>x. outcome_message B thr (ep_outcome x)) e)) cs"

lemma iter_outcomes_run:
  assumes "0 < thr" "thr \<le> length infos"
  shows "iter_outcomes B S e infos thr callback s = iter_points S infos callback (enum_slots B e thr (combs 0 (length infos) thr)) s"
proof -
  obtain it where "new (length infos) thr = Some it" "collect it = Some (combs 0 (length infos) thr)"
    using collect_new[OF assms] by blast
  then show ?thesis by (simp add: iter_outcomes_def outcome_message_def)
qed

definition slot_sig :: "secp \<Rightarrow> OracleInfo list \<Rightarrow> Transaction list \<Rightarrow> bytes \<Rightarrow> script \<Rightarrow> amount \<Rightarrow> (nat \<times> bytes list list) \<times> nat list \<Rightarrow> bytes \<Rightarrow> bool" where
  "slot_sig S infos txs sk spk v = (\<lambda>((i, ms), sel) sig. \<exists>point.
     get_adaptor_point_from_oracle_info S (selected_oracles infos sel) ms = pok point \<and> i < length txs \<and>
     create_cet_adaptor_sig_from_point S sk spk v (txs ! i) point = Inr sig)"

lemma sign_points:
  "iter_points S infos (\<lambda>point i sigs. obind (vget txs i) (\<lambda>cet.
       pbind (Some (create_cet_adaptor_sig_from_point S sk spk v cet point)) (\<lambda>sig. pok (sigs @ [sig])))) slots acc = pok sigs \<longleftrightarrow>
   (\<exists>new_sigs. sigs = acc @ new_sigs \<and> list_all2 (slot_sig S infos txs sk spk v) slots new_sigs)"
proof (induction slots arbitrary: acc)
  case (Cons slot slots)
  obtain i ms sel where slot: "slot = ((i, ms), sel)" by (metis prod.exhaust)
  show ?case unfolding slot
    by (auto simp: Cons bind_eq_Some_conv list_all2_Cons1 slot_sig_def)
qed auto

lemma enum_sign_slots:
  assumes "0 < thr" "thr \<le> length infos"
  shows "enum_sign B S e infos thr txs sk spk v = pok sigs \<longleftrightarrow>
    list_all2 (slot_sig S infos txs sk spk v) (enum_slots B e thr (combs 0 (length infos) thr)) sigs"
  unfolding enum_sign_def iter_outcomes_run[OF assms] sign_points by simp

definition sound_encryption :: "secp \<Rightarrow> bytes \<Rightarrow> bool" where
  "sound_encryption S sk \<longleftrightarrow> (\<forall>h point. adaptor_verify S (adaptor_encrypt S h sk point) h (pk_of S sk) point = Inr ())"

lemma sound_sigs_of_encryption:
  "sound_encryption S sk \<Longrightarrow> sound_sigs (create_cet_adaptor_sig_from_point S sk spk v) (verify_cet_adaptor_sig_from_point S (pk_of S sk) spk v)"
  by (auto simp: sound_sigs_def create_cet_adaptor_sig_from_point_def verify_cet_adaptor_sig_from_point_def sound_encryption_def)

lemma verify_points:
  assumes "sound_encryption S sk" "list_all2 (slot_sig S infos txs sk spk v) slots sigs"
    "length before + length sigs < u64_bound"
  shows "iter_points S infos (\<lambda>point i index. obind (vget (before @ sigs @ after) index) (\<lambda>sig. obind (u64_add index 1) (\<lambda>n.
       obind (vget txs i) (\<lambda>cet. pbind (Some (verify_cet_adaptor_sig_from_point S (pk_of S sk) spk v sig cet point)) (\<lambda>_. pok n)))))
     slots (length before) = pok (length before + length sigs)"
  using assms(2,3)
proof (induction slots arbitrary: before sigs)
  case (Cons slot slots)
  obtain i ms sel where slot: "slot = ((i, ms), sel)" by (metis prod.exhaust)
  obtain sig rest where sigs: "sigs = sig # rest" "slot_sig S infos txs sk spk v slot sig" "list_all2 (slot_sig S infos txs sk spk v) slots rest"
    using Cons.prems(1) by (auto simp: list_all2_Cons1)
  obtain point where point: "get_adaptor_point_from_oracle_info S (selected_oracles infos sel) ms = pok point" "i < length txs"
      "create_cet_adaptor_sig_from_point S sk spk v (txs ! i) point = Inr sig"
    using sigs(2) by (auto simp: slot_sig_def slot)
  have check: "verify_cet_adaptor_sig_from_point S (pk_of S sk) spk v sig (txs ! i) point = Inr ()"
    using sound_sigs_of_encryption[OF assms(1)] point(3) by (auto simp: sound_sigs_def)
  show ?case using Cons.IH[OF sigs(3), of "before @ [sig]"] Cons.prems(2) point check
    by (simp add: slot sigs(1) nth_append)
qed simp

text \<open>What an accepted set of adaptor signatures says of each of them.\<close>

definition slot_ok :: "secp \<Rightarrow> OracleInfo list \<Rightarrow> Transaction list \<Rightarrow> pubkey \<Rightarrow> script \<Rightarrow> amount \<Rightarrow> bytes list \<Rightarrow> (nat \<times> bytes list list) \<times> nat list \<Rightarrow> nat \<Rightarrow> bool" where
  "slot_ok S infos txs pk spk v sigs = (\<lambda>((i, ms), sel) k. i < length txs \<and> k < length sigs \<and>
     verify_cet_adaptor_sig_from_oracle_info S pk spk v (sigs ! k) (txs ! i) (selected_oracles infos sel) ms = pok ())"

lemma verified_points:
  "iter_points S infos (\<lambda>point i index. obind (vget sigs index) (\<lambda>sig. obind (u64_add index 1) (\<lambda>n.
       obind (vget txs i) (\<lambda>cet. pbind (Some (verify_cet_adaptor_sig_from_point S pk spk v sig cet point)) (\<lambda>_. pok n)))))
     slots start = pok n \<Longrightarrow> k < length slots \<Longrightarrow> slot_ok S infos txs pk spk v sigs (slots ! k) (start + k)"
proof (induction slots arbitrary: start k)
  case (Cons slot slots)
  obtain i ms sel where slot: "slot = ((i, ms), sel)" by (metis prod.exhaust)
  show ?case
  proof (cases k)
    case 0
    then show ?thesis using Cons.prems
      by (auto simp: slot slot_ok_def verify_cet_adaptor_sig_from_oracle_info_def bind_eq_Some_conv)
  next
    case (Suc k')
    then show ?thesis using Cons.IH[of "start + 1" k'] Cons.prems by (auto simp: slot bind_eq_Some_conv)
  qed
qed simp

lemma enum_verified:
  assumes "enum_verify B S e infos thr pk spk v txs sigs start = pok n" "0 < thr" "thr \<le> length infos"
    "k < length (enum_slots B e thr (combs 0 (length infos) thr))"
  shows "slot_ok S infos txs pk spk v sigs (enum_slots B e thr (combs 0 (length infos) thr) ! k) (start + k)"
  using assms(1) verified_points[OF _ assms(4)] unfolding enum_verify_def iter_outcomes_run[OF assms(2,3)] by blast

lemma adaptor_signatures_verify:
  assumes "get_adaptor_info B S ci T sk spk v txs (length before) = pok (info, sigs)" "sound_encryption S sk"
    "sigs \<noteq> []" "length before + length sigs < u64_bound" "0 < ci_threshold ci" "ci_threshold ci \<le> length (oracle_announcements ci)"
  shows "verify_and_get_adaptor_info B S ci T (pk_of S sk) spk v txs (before @ sigs @ after) (length before) =
    pok (info, length before + length sigs)"
proof (cases "contract_descriptor ci")
  case (EnumContract e)
  let ?infos = "get_oracle_infos ci"
  have len: "ci_threshold ci \<le> length ?infos" using assms(6) by (simp add: get_oracle_infos_def)
  have sign: "enum_sign B S e ?infos (ci_threshold ci) txs sk spk v = pok sigs" "info = EnumInfo"
    using assms(1) EnumContract by (auto simp: get_adaptor_info_def)
  then have "list_all2 (slot_sig S ?infos txs sk spk v) (enum_slots B e (ci_threshold ci) (combs 0 (length ?infos) (ci_threshold ci))) sigs"
    using enum_sign_slots[OF assms(5) len] by simp
  from verify_points[OF assms(2) this assms(4)] show ?thesis
    by (simp add: verify_and_get_adaptor_info_def EnumContract enum_verify_def iter_outcomes_run[OF assms(5) len] sign(2))
next
  case (NumericalContract n)
  note sound = sound_sigs_of_encryption[OF assms(2), of spk v]
  show ?thesis
    using assms(1) mot.sign_then_verify[where before = before and sigs = sigs and after = after, OF _ sound refl assms(3)]
      mtd.sign_then_verify[where before = before and sigs = sigs and after = after, OF _ sound refl assms(3)]
    by (auto simp: get_adaptor_info_def verify_and_get_adaptor_info_def NumericalContract numerical_sign_def numerical_verify_def
        Let_def split_def split: option.splits)
qed

text \<open>
  C22: The adaptor signatures that \<open>get_adaptor_info\<close> makes for a contract are the ones that the counter party's
  \<open>verify_and_get_adaptor_info\<close> accepts, at the position in the message where they are, with the same adaptor info and the
  position after them: for enumerated and for numerical contracts, with and without differences between oracles.
\<close>

theorem contract_signatures_verify:
  assumes "get_adaptor_info B S ci T sk spk v txs (length before) = pok (info, sigs)" "sound_encryption S sk"
    "sigs \<noteq> []" "length before + length sigs < u64_bound" "0 < ci_threshold ci" "ci_threshold ci \<le> length (oracle_announcements ci)"
  shows "verify_and_get_adaptor_info B S ci T (pk_of S sk) spk v txs (before @ sigs @ after) (length before) =
    pok (info, length before + length sigs)"
  by (rule adaptor_signatures_verify[OF assms])

section \<open>Closing an enumerated contract\<close>

lemma find_combination_absent:
  "actual \<notin> set cs \<Longrightarrow> find_combination actual (zip [n..<n + length cs] cs) pos c = (pos, c + length cs)"
proof (induction cs arbitrary: n c)
  case (Cons x cs)
  have "[n..<n + length (x # cs)] = n # [Suc n..<Suc n + length cs]" by (simp add: upt_conv_Cons del: upt_Suc)
  then show ?case using Cons.IH[of "Suc n" "c + 1"] Cons.prems by (auto simp del: upt_Suc)
qed simp

lemma find_combination_present:
  "distinct cs \<Longrightarrow> actual \<in> set cs \<Longrightarrow>
   \<exists>j < length cs. cs ! j = actual \<and> find_combination actual (zip [n..<n + length cs] cs) pos c = (n + j, c + length cs)"
proof (induction cs arbitrary: n pos c)
  case (Cons x cs)
  have upt: "[n..<n + length (x # cs)] = n # [Suc n..<Suc n + length cs]" by (simp add: upt_conv_Cons del: upt_Suc)
  show ?case
  proof (cases "x = actual")
    case True
    then show ?thesis using find_combination_absent[of actual cs "Suc n" n "c + 1"] Cons.prems
      unfolding upt by (intro exI[of _ 0]) (simp del: upt_Suc)
  next
    case False
    then obtain j where "j < length cs" "cs ! j = actual"
        "find_combination actual (zip [Suc n..<Suc n + length cs] cs) pos (c + 1) = (Suc n + j, c + 1 + length cs)"
      using Cons.IH[of "Suc n" pos "c + 1"] Cons.prems by auto
    then show ?thesis using False unfolding upt by (intro exI[of _ "Suc j"]) (simp del: upt_Suc)
  qed
qed simp

definition outcome_groups_inv :: "(nat \<times> string list) list \<Rightarrow> (string list \<times> nat list) list \<Rightarrow> bool" where
  "outcome_groups_inv seen hs \<longleftrightarrow> (\<forall>(v, is) \<in> set hs. is = map fst (filter (\<lambda>x. snd x = v) seen)) \<and> fst ` set hs = snd ` set seen"

lemma by_outcome_inv:
  "outcome_groups_inv seen hs \<Longrightarrow> outcome_groups_inv (seen @ outcomes) (by_outcome outcomes hs)"
proof (induction outcomes arbitrary: seen hs)
  case (Cons x outcomes)
  obtain i v where x: "x = (i, v)" by (metis prod.exhaust)
  let ?hs = "if v \<in> fst ` set hs then map (\<lambda>(w, is). if w = v then (w, is @ [i]) else (w, is)) hs else hs @ [(v, [i])]"
  have "outcome_groups_inv (seen @ [x]) ?hs"
  proof (cases "v \<in> fst ` set hs")
    case True
    have "fst ` set (map (\<lambda>(w, is). if w = v then (w, is @ [i]) else (w, is)) hs) = fst ` set hs" by (force simp: image_iff split: if_splits)
    then show ?thesis using Cons.prems True by (auto simp: outcome_groups_inv_def x split: if_splits)
  next
    case False
    then have "filter (\<lambda>x. snd x = v) seen = []" using Cons.prems by (auto simp: outcome_groups_inv_def filter_empty_conv)
    then show ?thesis using Cons.prems False by (force simp: outcome_groups_inv_def x)
  qed
  then show ?case using Cons.IH[of "seen @ [x]" ?hs] by (simp add: x)
qed simp

definition fair_orders :: "map_orders \<Rightarrow> bool" where
  "fair_orders H \<longleftrightarrow> iteration_order (digit_order H) \<and> (\<forall>xs. mset (outcome_order H xs) = mset xs)"

lemma majority_group:
  assumes "fair_orders H" "get_majority_combination H outcomes = Some (v, is)"
  shows "v \<in> snd ` set outcomes" "is = map fst (filter (\<lambda>x. snd x = v) outcomes)"
    "\<forall>w \<in> snd ` set outcomes. length (filter (\<lambda>x. snd x = w) outcomes) \<le> length is"
proof -
  let ?hs = "by_outcome outcomes []"
  let ?sorted = "sort_key (\<lambda>x. length (snd x)) (outcome_order H ?hs)"
  have inv: "outcome_groups_inv outcomes ?hs" using by_outcome_inv[of "[]" "[]" outcomes] by (simp add: outcome_groups_inv_def)
  have set: "set ?sorted = set ?hs" using assms(1) by (simp add: fair_orders_def flip: set_mset_mset)
  have hs: "?hs \<noteq> []" and pick: "last ?sorted = (v, is)" using assms(2) by (auto simp: get_majority_combination_def Let_def split: if_splits)
  then have ne: "?sorted \<noteq> []" using set by (metis set_empty)
  then have mem: "(v, is) \<in> set ?hs" using pick last_in_set[OF ne] set by simp
  have proj: "fst ` set ?hs = snd ` set outcomes" "\<forall>(v, is) \<in> set ?hs. is = map fst (filter (\<lambda>x. snd x = v) outcomes)"
    using inv unfolding outcome_groups_inv_def by blast+
  have "v \<in> fst ` set ?hs" using mem by (rule image_eqI[rotated]) simp
  then show "v \<in> snd ` set outcomes" unfolding proj(1) .
  show "is = map fst (filter (\<lambda>x. snd x = v) outcomes)" using bspec[OF proj(2) mem] by simp
  show "\<forall>w \<in> snd ` set outcomes. length (filter (\<lambda>x. snd x = w) outcomes) \<le> length is"
  proof
    fix w assume "w \<in> snd ` set outcomes"
    then have "w \<in> fst ` set ?hs" unfolding proj(1) .
    then obtain js where mem: "(w, js) \<in> set ?hs" by auto
    have js: "(w, js) \<in> set ?sorted" using mem unfolding set .
    have js': "js = map fst (filter (\<lambda>x. snd x = w) outcomes)" using bspec[OF proj(2) mem] by simp
    from js obtain k where k: "k < length ?sorted" "?sorted ! k = (w, js)" by (metis in_set_conv_nth)
    have "sorted (map (\<lambda>x. length (snd x)) ?sorted)" by simp
    then have "length (snd (?sorted ! k)) \<le> length (snd (?sorted ! (length ?sorted - 1)))"
      using k(1) sorted_nth_mono[of "map (\<lambda>x. length (snd x)) ?sorted" k "length ?sorted - 1"] by simp
    then show "length (filter (\<lambda>x. snd x = w) outcomes) \<le> length is" using k js' pick ne by (simp add: last_conv_nth)
  qed
qed

text \<open>The slot of a signature: the outcome and the combination of oracles.\<close>

lemma slot_nth:
  assumes "pos < length e" "j < length cs"
  shows "pos * length cs + j < length (enum_slots B e thr cs)"
    "enum_slots B e thr cs ! (pos * length cs + j) = ((pos, outcome_message B thr (ep_outcome (e ! pos))), cs ! j)"
proof -
  have "pos * length cs + j < Suc pos * length cs" using assms(2) by simp
  also have "\<dots> \<le> length e * length cs" using assms(1) by (intro mult_le_mono1) simp
  finally show lt: "pos * length cs + j < length (enum_slots B e thr cs)" by (simp add: length_product)
  have dm: "(pos * length cs + j) div length cs = pos" "(pos * length cs + j) mod length cs = j"
    using assms(2) div_mult_self3[of "length cs" pos j] by (cases cs, auto)
  show "enum_slots B e thr cs ! (pos * length cs + j) = ((pos, outcome_message B thr (ep_outcome (e ! pos))), cs ! j)"
    using lt assms by (subst List.product_nth) (simp_all add: length_product dm)
qed

lemma distinct_combs: "distinct (combs l n k)"
proof -
  have "sorted_wrt P xs \<Longrightarrow> (\<And>x. \<not> P x x) \<Longrightarrow> distinct xs" for P and xs :: "nat list list"
    by (induction xs) auto
  from this[OF sorted_combs] show ?thesis by (metis lexordp_irreflexive')
qed

lemma take_selection:
  assumes "sorted_wrt (<) is" "set is \<subseteq> {..<n}" "thr \<le> length is"
  shows "take thr is \<in> set (combs 0 n thr)"
  using assms set_take_subset[of thr "is"] by (auto simp: set_combs selection_def sorted_wrt_take)

text \<open>
  The combination a look-up takes the signature of: that of the oracles when they are in ascending order, the first one otherwise.
\<close>

definition looked_up :: "nat list \<Rightarrow> nat list" where
  "looked_up sel = (if sorted_wrt (<) sel then sel else [0..<length sel])"

lemma enum_range_slot_any:
  assumes "fair_orders H" "fst ` set outcomes \<subseteq> {..<n}" "0 < thr"
    "enum_range_info H e n thr outcomes start = Some (Some (paths, r))"
  shows "\<exists>outcome sel. thr \<le> n \<and> paths = map (\<lambda>i. (i, 1)) sel \<and> length sel = thr \<and> (sorted_wrt (<) (map fst outcomes) \<longrightarrow> sorted_wrt (<) sel) \<and> set sel \<subseteq> {..<n} \<and>
    (\<forall>i \<in> set sel. (i, [outcome]) \<in> set outcomes) \<and>
    cet_index r < length e \<and> ep_outcome (e ! cet_index r) = outcome \<and> start \<le> adaptor_index r \<and>
    adaptor_index r - start < length (enum_slots B e thr (combs 0 n thr)) \<and>
    enum_slots B e thr (combs 0 n thr) ! (adaptor_index r - start) = ((cet_index r, outcome_message B thr outcome), looked_up sel)"
proof -
  let ?single = "filter (\<lambda>x. length (snd x) = 1) outcomes"
  obtain w "is" where maj: "get_majority_combination H ?single = Some (w, is)"
    using assms(4) by (auto simp: enum_range_info_def Let_def split: if_splits option.splits)
  obtain outcome where w: "vget w 0 = Some outcome" and len: "thr \<le> length is"
    using assms(4) maj by (auto simp: enum_range_info_def Let_def bind_eq_Some_conv split: if_splits)
  obtain pos where pos: "find_first_index (\<lambda>x. ep_outcome x = outcome) e = Some pos"
    using assms(4) maj w len by (auto simp: enum_range_info_def Let_def split: if_splits option.splits)
  obtain it cs where it: "new n thr = Some it" "collect it = Some cs"
    using assms(4) maj w len pos by (auto simp: enum_range_info_def Let_def bind_eq_Some_conv split: if_splits)
  obtain comb_pos comb_count where find: "find_combination (take thr is) (zip [0..<length cs] cs) 0 0 = (comb_pos, comb_count)"
    by (metis prod.exhaust)
  have r: "r = \<lparr>cet_index = pos, adaptor_index = comb_count * pos + comb_pos + start\<rparr>" and paths: "paths = map (\<lambda>x. (x, 1)) (take thr is)"
    using assms(4) maj w len pos it find by (auto simp: enum_range_info_def Let_def bind_eq_Some_conv split: if_splits)
  have is_def: "is = map fst (filter (\<lambda>x. snd x = w) ?single)" and "w \<in> snd ` set ?single"
    using majority_group[OF assms(1) maj] by simp_all
  then have w1: "w = [outcome]" using w by (cases w) auto
  have attested: "(i, [outcome]) \<in> set outcomes" if "i \<in> set is" for i using that by (auto simp: is_def w1)
  have range: "set is \<subseteq> {..<n}" using assms(2) attested by force
  have sel: "sorted_wrt (<) is" if "sorted_wrt (<) (map fst outcomes)"
    using that unfolding is_def by (simp add: sorted_wrt_map sorted_wrt_filter)
  have thr: "thr \<le> n" using it(1) by (simp add: new_def split: if_splits)
  have cs: "cs = combs 0 n thr" using collect_new[OF assms(3) thr] it by auto
  have "distinct cs" unfolding cs by (rule distinct_combs)
  have j: "comb_pos < length cs \<and> cs ! comb_pos = looked_up (take thr is) \<and> comb_count = length cs"
  proof (cases "sorted_wrt (<) (take thr is)")
    case True
    then have "take thr is \<in> set cs" using take_selection[of "take thr is" n thr] range len set_take_subset[of thr "is"] cs by auto
    then show ?thesis using find_combination_present[of cs "take thr is" 0 0 0] \<open>distinct cs\<close> find True by (auto simp: looked_up_def)
  next
    case False
    then have "take thr is \<notin> set cs" unfolding cs by (auto simp: set_combs selection_def)
    then have "comb_pos = 0" "comb_count = length cs" using find_combination_absent[of "take thr is" cs 0 0 0] find by simp_all
    moreover have "cs \<noteq> []" "hd cs = [0..<thr]" using hd_combs[of 0 thr n] thr by (simp_all add: cs)
    ultimately show ?thesis using False len by (simp add: looked_up_def hd_conv_nth)
  qed
  have pos': "pos < length e" "ep_outcome (e ! pos) = outcome" using pos by (auto simp: find_first_index_Some)
  have "set (take thr is) \<subseteq> {..<n}" using range set_take_subset by (rule subset_trans[rotated])
  then show ?thesis using slot_nth[OF pos'(1), of comb_pos cs B thr] j len pos' attested set_take_subset[of thr "is"] sel thr
    unfolding paths r by (intro exI[of _ outcome] exI[of _ "take thr is"]) (auto simp: cs[symmetric] mult.commute sorted_wrt_take)
qed

lemma enum_range_slot:
  assumes "fair_orders H" "sorted_wrt (<) (map fst outcomes)" "fst ` set outcomes \<subseteq> {..<n}" "0 < thr"
    "enum_range_info H e n thr outcomes start = Some (Some (paths, r))"
  shows "\<exists>outcome sel. thr \<le> n \<and> paths = map (\<lambda>i. (i, 1)) sel \<and> length sel = thr \<and> sorted_wrt (<) sel \<and> set sel \<subseteq> {..<n} \<and>
    (\<forall>i \<in> set sel. (i, [outcome]) \<in> set outcomes) \<and>
    cet_index r < length e \<and> ep_outcome (e ! cet_index r) = outcome \<and> start \<le> adaptor_index r \<and>
    adaptor_index r - start < length (enum_slots B e thr (combs 0 n thr)) \<and>
    enum_slots B e thr (combs 0 n thr) ! (adaptor_index r - start) = ((cet_index r, outcome_message B thr outcome), sel)"
  using enum_range_slot_any[OF assms(1,3,4,5), of B] assms(2) by (elim exE conjE) (auto simp: looked_up_def)


text \<open>
  Two of three oracles attest, and the outcome of the last one comes first: the signature that is looked up is that of the first two
  oracles, of which one did not attest.
\<close>

lemma unsorted_outcomes_take_wrong_signature:
  "enum_range_info \<lparr>digit_order = id, outcome_order = id\<rparr> [p] 3 2 [(2, [ep_outcome p]), (0, [ep_outcome p])] 0 =
     Some (Some ([(2, 1), (0, 1)], \<lparr>cet_index = 0, adaptor_index = 0\<rparr>))" "combs 0 3 2 ! 0 = [0, 1]"
proof -
  have c: "combs 0 3 2 = [[0, 1], [0, 2], [1, 2]]" by (simp add: numeral_2_eq_2 numeral_3_eq_3)
  obtain it where "new 3 2 = Some it" "collect it = Some (combs 0 3 2)" using collect_new[of 2 3] by auto
  then show "enum_range_info \<lparr>digit_order = id, outcome_order = id\<rparr> [p] 3 2 [(2, [ep_outcome p]), (0, [ep_outcome p])] 0 =
     Some (Some ([(2, 1), (0, 1)], \<lparr>cet_index = 0, adaptor_index = 0\<rparr>))"
    by (simp add: enum_range_info_def get_majority_combination_def Let_def c)
  show "combs 0 3 2 ! 0 = [0, 1]" by (simp add: c)
qed

lemma sorted_attesting:
  assumes "sorted_wrt (<) (map fst outcomes)" "fst ` set outcomes \<subseteq> {..<n}"
  shows "sorted_wrt (<) (map fst (filter P outcomes))" "set (map fst (filter P outcomes)) \<subseteq> {..<n}"
    "length (filter P outcomes) \<le> n"
proof -
  show s: "sorted_wrt (<) (map fst (filter P outcomes))" using assms(1) by (simp add: sorted_wrt_map sorted_wrt_filter)
  show r: "set (map fst (filter P outcomes)) \<subseteq> {..<n}" using assms(2) by auto
  show "length (filter P outcomes) \<le> n"
    using s card_mono[OF _ r] distinct_card[of "map fst (filter P outcomes)"] by (simp add: strict_sorted_iff)
qed

lemma majority_found:
  assumes "fair_orders H" "0 < thr" "sorted_wrt (<) (map fst outcomes)" "fst ` set outcomes \<subseteq> {..<n}"
    "outcome \<in> ep_outcome ` set e" "thr \<le> length (filter (\<lambda>x. snd x = [outcome]) outcomes)"
    "\<And>w. w \<noteq> outcome \<Longrightarrow> length (filter (\<lambda>x. snd x = [w]) outcomes) < length (filter (\<lambda>x. snd x = [outcome]) outcomes)"
    "(n choose thr) * length e + start < u64_bound"
  shows "\<exists>paths r. enum_range_info H e n thr outcomes start = Some (Some (paths, r)) \<and> ep_outcome (e ! cet_index r) = outcome"
proof -
  let ?single = "filter (\<lambda>x. length (snd x) = 1) outcomes"
  have same: "filter (\<lambda>x. snd x = [w]) ?single = filter (\<lambda>x. snd x = [w]) outcomes" for w by (auto intro: filter_cong)
  have "filter (\<lambda>x. snd x = [outcome]) outcomes \<noteq> []" using assms(2,6) by force
  then obtain x where x: "x \<in> set outcomes" "snd x = [outcome]" unfolding filter_empty_conv by blast
  have inv: "outcome_groups_inv ?single (by_outcome ?single [])" using by_outcome_inv[of "[]" "[]" ?single] by (simp add: outcome_groups_inv_def)
  have "x \<in> set ?single" using x by simp
  then have "snd ` set ?single \<noteq> {}" by (metis empty_iff image_is_empty)
  then have "by_outcome ?single [] \<noteq> []" using inv unfolding outcome_groups_inv_def by (metis image_empty list.set(1))
  then obtain w "is" where maj: "get_majority_combination H ?single = Some (w, is)" by (force simp: get_majority_combination_def Let_def)
  note group = majority_group[OF assms(1) maj]
  obtain w' where w': "w = [w']" using group(1) by (auto simp: length_Suc_conv)
  have "[outcome] \<in> snd ` set ?single" using \<open>x \<in> set ?single\<close> x(2) by (metis image_eqI)
  then have "length (filter (\<lambda>x. snd x = [outcome]) outcomes) \<le> length is" using group(3) same by metis
  moreover have is_def: "is = map fst (filter (\<lambda>x. snd x = [w']) outcomes)" using group(2) same w' by simp
  ultimately have w: "w' = outcome" using assms(7)[of w'] by fastforce
  have len: "thr \<le> length is" using assms(6) is_def w by simp
  note att = sorted_attesting[OF assms(3,4), of "\<lambda>x. snd x = [w']", folded is_def]
  have n: "thr \<le> n" using len att(3) is_def by simp
  obtain pos where pos: "find_first_index (\<lambda>x. ep_outcome x = outcome) e = Some pos"
    using assms(5) by (metis (mono_tags, lifting) find_first_index_None imageE not_None_eq)
  then have pos': "pos < length e" "ep_outcome (e ! pos) = outcome" by (auto simp: find_first_index_Some)
  obtain it where it: "new n thr = Some it" "collect it = Some (combs 0 n thr)" using collect_new[OF assms(2) n] by blast
  obtain j where j: "j < length (combs 0 n thr)"
      "find_combination (take thr is) (zip [0..<length (combs 0 n thr)] (combs 0 n thr)) 0 0 = (j, length (combs 0 n thr))"
    using find_combination_present[OF distinct_combs take_selection[OF att(1,2) len], of 0 0 0] by auto
  have "length (combs 0 n thr) * pos + j < length (combs 0 n thr) * Suc pos" using j by simp
  also have "\<dots> \<le> (n choose thr) * length e" using pos'(1) by (simp add: length_combs[OF assms(2)] del: mult_Suc_right)
  finally have bound: "length (combs 0 n thr) * pos + j + start < u64_bound" using assms(8) by simp
  have "thr \<le> length outcomes" by (rule le_trans[OF assms(6) length_filter_le])
  then show ?thesis using maj w' w len pos pos' it j(2) bound
    by (simp add: enum_range_info_def)
qed

text \<open>
  An enumerated contract can be closed whenever enough oracles attest the same outcome of the contract and more of them
  attest it than any other: the look-up finds an adaptor signature for this outcome.
\<close>

theorem enum_contract_closes:
  assumes "fair_orders H" "0 < thr" "sorted_wrt (<) (map fst outcomes)" "fst ` set outcomes \<subseteq> {..<n}"
    "outcome \<in> ep_outcome ` set e" "thr \<le> length (filter (\<lambda>x. snd x = [outcome]) outcomes)"
    "\<And>w. w \<noteq> outcome \<Longrightarrow> length (filter (\<lambda>x. snd x = [w]) outcomes) < length (filter (\<lambda>x. snd x = [outcome]) outcomes)"
    "(n choose thr) * length e + start < u64_bound"
  shows "\<exists>paths r. enum_range_info H e n thr outcomes start = Some (Some (paths, r)) \<and> ep_outcome (e ! cet_index r) = outcome"
  by (rule majority_found[OF assms])

section \<open>Instances\<close>

definition honest_secp :: secp where
  "honest_secp = toy_secp\<lparr>sign_ecdsa := (\<lambda>h k. toy_key (toy_val k)), adaptor_encrypt := (\<lambda>h k p. toy_key (toy_val k) @ p),
     adaptor_verify := (\<lambda>a h pk p. if a = pk @ p then Inr () else Inl ''bad adaptor''),
     adaptor_decrypt := (\<lambda>a x. Inr (take (length a - 32) a))\<rparr>"

lemma honest_sound: "sound_encryption honest_secp sk"
  by (simp add: sound_encryption_def honest_secp_def toy_secp_def)

definition coin_event :: OracleAnnouncement where
  "coin_event = \<lparr>announcement_signature = [], ann_public_key = toy_key 2, oracle_event =
     \<lparr>event_nonces = [toy_key 1], event_maturity_epoch = 100, event_descriptor = EnumEvent [''heads'', ''tails''], event_id = ''coin''\<rparr>\<rparr>"

definition coin_payouts :: EnumDescriptor where
  "coin_payouts = [\<lparr>ep_outcome = ''heads'', ep_payout = \<lparr>offer_payout = 20000, accept_payout = 0\<rparr>\<rparr>,
     \<lparr>ep_outcome = ''tails'', ep_payout = \<lparr>offer_payout = 0, accept_payout = 20000\<rparr>\<rparr>]"

definition coin_info :: ContractInfo where
  "coin_info = \<lparr>contract_descriptor = EnumContract coin_payouts, oracle_announcements = [coin_event, coin_event], ci_threshold = 1\<rparr>"

lemma coin_point:
  "i < 2 \<Longrightarrow> get_adaptor_point_from_oracle_info honest_secp (selected_oracles (get_oracle_infos coin_info) [i]) (outcome_message toy_btc 1 x) =
     pok (toy_key 3)"
proof -
  assume i: "i < 2"
  let ?info = "\<lparr>oracle_public_key = toy_key 2, oracle_nonces = [toy_key 1]\<rparr>"
  have "schnorrsig_compute_sig_point honest_secp (toy_key 2) (toy_key 1) m = pok (toy_key 3)" for m
    by (simp add: schnorrsig_compute_sig_point_def schnorr_pubkey_to_pubkey_def create_schnorr_hash_def honest_secp_def toy_simps del: One_nat_def)
  then have point: "get_oracle_sig_point honest_secp ?info [m] = pok (toy_key 3)" for m
    by (simp add: get_oracle_sig_point_def honest_secp_def toy_simps del: One_nat_def)
  have infos: "get_oracle_infos coin_info = [?info, ?info]" by (simp add: get_oracle_infos_def coin_info_def coin_event_def to_oracle_info_def)
  have "selected_oracles (get_oracle_infos coin_info) [i] = [?info]"
    using i unfolding infos less_2_cases_iff by (auto simp: selected_oracles_def map_filter_simps)
  then show ?thesis using point
    by (simp add: get_adaptor_point_from_oracle_info_def outcome_message_def honest_secp_def toy_simps del: One_nat_def)
qed

lemma coin_combs: "combs 0 (length (get_oracle_infos coin_info)) 1 = [[0], [1]]"
  by (simp add: get_oracle_infos_def coin_info_def numeral_2_eq_2)

definition coin_sigs :: "bytes \<Rightarrow> bytes list" where
  "coin_sigs sk = (let a = toy_key (toy_val sk) @ toy_key 3 in [a, a, a, a])"

lemma coin_signatures:
  assumes "length txs = 2"
  shows "enum_sign toy_btc honest_secp coin_payouts (get_oracle_infos coin_info) 1 txs sk spk v = pok (coin_sigs sk)"
proof -
  have sig: "create_cet_adaptor_sig_from_point honest_secp sk spk v tx p = Inr (toy_key (toy_val sk) @ p)" for tx p
    by (simp add: create_cet_adaptor_sig_from_point_def get_sig_hash_msg_def honest_secp_def toy_secp_def)
  have "slot_sig honest_secp (get_oracle_infos coin_info) txs sk spk v ((k, outcome_message toy_btc 1 x), [i]) (toy_key (toy_val sk) @ toy_key 3)"
    if "i < 2" "k < 2" for i k x
    using that assms coin_point[OF that(1)] sig by (simp add: slot_sig_def)
  then have "list_all2 (slot_sig honest_secp (get_oracle_infos coin_info) txs sk spk v)
      (enum_slots toy_btc coin_payouts 1 [[0], [1]]) (coin_sigs sk)"
    by (simp add: coin_payouts_def coin_sigs_def Let_def del: One_nat_def)
  moreover have "1 \<le> length (get_oracle_infos coin_info)" by (simp add: get_oracle_infos_def coin_info_def)
  ultimately show ?thesis using enum_sign_slots[OF zero_less_one, of "get_oracle_infos coin_info"] unfolding coin_combs by blast
qed

lemma contract_signatures_verify_witness:
  "verify_and_get_adaptor_info toy_btc honest_secp coin_info 20000 (pk_of honest_secp [1]) [] 0 [toy_tx [20000], toy_tx [20000]]
     ([[9]] @ coin_sigs [1] @ [[8]]) 1 = pok (EnumInfo, 5)"
proof -
  have "get_adaptor_info toy_btc honest_secp coin_info 20000 [1] [] 0 [toy_tx [20000], toy_tx [20000]] (length [[9]]) =
      pok (EnumInfo, coin_sigs [1])"
    using coin_signatures[of "[toy_tx [20000], toy_tx [20000]]"] by (simp add: get_adaptor_info_def coin_info_def)
  from contract_signatures_verify[OF this honest_sound, where after = "[[8]]"] show ?thesis by (simp add: coin_info_def coin_sigs_def Let_def)
qed

abbreviation insertion_orders :: map_orders where
  "insertion_orders \<equiv> \<lparr>digit_order = id, outcome_order = id\<rparr>"

lemma insertion_orders_fair: "fair_orders insertion_orders"
  by (simp add: fair_orders_def iteration_order_def)


lemma enum_contract_closes_witness:
  "\<exists>paths r. enum_range_info insertion_orders coin_payouts 3 2 [(0, [''tails'']), (1, [''heads'']), (2, [''tails''])] 0 = Some (Some (paths, r)) \<and>
     ep_outcome (coin_payouts ! cet_index r) = ''tails''"
proof (rule enum_contract_closes[OF insertion_orders_fair])
  show "length (filter (\<lambda>x. snd x = [w]) [(0, [''tails'']), (1, [''heads'']), (2, [''tails''])]) <
      length (filter (\<lambda>x. snd x = [''tails'']) [(0, [''tails'']), (1, [''heads'']), (2, [''tails''])])" if "w \<noteq> ''tails''" for w
    using that by simp
qed (auto simp: coin_payouts_def choose_two)

section \<open>Outcomes as strings\<close>

lemma char_digit_char: "d < 10 \<Longrightarrow> char_digit (digit_char d) = Some d"
  by (simp add: char_digit_def digit_char_def Let_def)

lemma digit_not_plus: "d < 10 \<Longrightarrow> digit_char d \<noteq> CHR ''+''"
proof
  assume "d < 10" "digit_char d = CHR ''+''"
  then have "char_digit CHR ''+'' = Some d" using char_digit_char by metis
  then show False by (simp add: char_digit_def Let_def)
qed

lemma parse_digits_append: "parse_digits acc (xs @ ys) = Option.bind (parse_digits acc xs) (\<lambda>a. parse_digits a ys)"
  by (induction xs arbitrary: acc) simp_all

lemma parse_digits_string: "n < u64_bound \<Longrightarrow> parse_digits 0 (usize_to_string n) = Some n"
proof (induction n rule: usize_to_string.induct)
  case (1 n)
  show ?case
  proof (cases "n < 10")
    case True
    then show ?thesis using char_digit_char[of n] by (simp add: usize_to_string.simps)
  next
    case False
    have "n = n div 10 * 10 + n mod 10" by simp
    then have "u64_mul (n div 10) 10 = Some (n div 10 * 10)" "u64_add (n div 10 * 10) (n mod 10) = Some n"
      using "1.prems" by (simp_all add: u64_mul_def u64_add_def)
    moreover have "parse_digits 0 (usize_to_string (n div 10)) = Some (n div 10)"
      using "1.IH"[OF False] "1.prems" by (meson div_le_dividend le_less_trans)
    ultimately show ?thesis using False char_digit_char[of "n mod 10"]
      by (subst usize_to_string.simps) (simp add: parse_digits_append)
  qed
qed

lemma usize_string_shape: "\<exists>d cs. d < 10 \<and> usize_to_string n = digit_char d # cs"
proof (induction n rule: usize_to_string.induct)
  case (1 n)
  then show ?case by (subst usize_to_string.simps) (cases "n < 10"; force)
qed

lemma parse_to_string: "n < u64_bound \<Longrightarrow> parse_usize (usize_to_string n) = Some n"
  using usize_string_shape[of n] parse_digits_string[of n] digit_not_plus by (auto simp: parse_usize_def)

text \<open>
  The digits that a numerical look-up reads from the strings an oracle attested are the digits whose strings the
  signature points were computed for.
\<close>

theorem attested_digits:
  assumes "\<forall>(i, ds) \<in> set outcomes. \<forall>d \<in> set ds. d < u64_bound"
  shows "outcomes_to_digits (map (\<lambda>(i, ds). (i, map usize_to_string ds)) outcomes) = outcomes"
proof -
  have "get_digits_outcome (map usize_to_string ds) = Inr ds" if "\<forall>d \<in> set ds. d < u64_bound" for ds
    using that by (induction ds) (simp_all add: get_digits_outcome_def parse_to_string)
  then show ?thesis using assms
    by (induction outcomes) (auto simp: outcomes_to_digits_def map_filter_simps)
qed

lemma attested_digits_witness:
  "outcomes_to_digits [(0, [''1'', ''0'', ''1'']), (1, [''1'', ''0'', ''0''])] = [(0, [1, 0, 1]), (1, [1, 0, 0])]"
proof -
  have "digit_char 0 = CHR ''0''" "digit_char 1 = CHR ''1''" by code_simp+
  then show ?thesis using attested_digits[of "[(0, [1, 0, 1]), (1, [1, 0, 0])]"] by (simp add: usize_to_string.simps)
qed

end
