(* ===== verification/PayoutCurveSpec.thy ===== *)
theory PayoutCurveSpec
  imports PayoutCurve
begin

text \<open>
  The ranges of a payout function are the rounded payouts of its outcomes, evaluated one after the other, as long as its constant
  pieces round to one payout; and payouts are rounded to the nearest multiple.
\<close>

section \<open>The payouts of every outcome\<close>

text \<open>
  The payout of the offering party for every outcome of a function, one after the other, without ranges: every outcome is evaluated
  and rounded, by the first piece that it is in.
\<close>

definition piece_payouts :: "PayoutFunctionPiece \<Rightarrow> bool \<Rightarrow> amount \<Rightarrow> RoundingIntervals \<Rightarrow> (Error + amount list) option" where
  "piece_payouts piece first T ri =
     (let p = the (get_first_outcome piece); q = the (get_last_outcome piece)
      in pmap (\<lambda>v. get_rounded_payout piece v ri T) [if first then p else Suc p..<Suc q])"

fun outcome_payouts :: "bool \<Rightarrow> PayoutFunction \<Rightarrow> amount \<Rightarrow> RoundingIntervals \<Rightarrow> (Error + amount list) option" where
  "outcome_payouts first [] T ri = pok []"
| "outcome_payouts first (piece # rest) T ri =
     pbind (piece_payouts piece first T ri) (\<lambda>vs. pbind (outcome_payouts False rest T ri) (\<lambda>ws. pok (vs @ ws)))"

text \<open>
  What the code computes for a constant piece is the payout of its first outcome, which is the last outcome of the piece before: that
  every later outcome of the piece has this payout too.
\<close>

fun constants_flat :: "PayoutFunctionPiece option \<Rightarrow> PayoutFunction \<Rightarrow> amount \<Rightarrow> RoundingIntervals \<Rightarrow> bool" where
  "constants_flat before [] T ri = True"
| "constants_flat before (piece # rest) T ri =
     ((is_constant piece \<longrightarrow>
        (let p = the (get_first_outcome piece); q = the (get_last_outcome piece);
             at_start = get_rounded_payout (case before of None \<Rightarrow> piece | Some b \<Rightarrow> b) p ri T
         in list_all (\<lambda>v. get_rounded_payout piece v ri T = at_start) [Suc p..<Suc q])) \<and>
      constants_flat (Some piece) rest T ri)"

text \<open>
  The same as the code goes over the pieces: the outcomes of a constant piece after the first have the payout of the first.
\<close>

definition piece_offers ::
  "PayoutFunctionPiece \<Rightarrow> amount \<Rightarrow> RoundingIntervals \<Rightarrow> amount list \<Rightarrow> (Error + amount list) option" where
  "piece_offers piece T ri acc =
     (let p = the (get_first_outcome piece); q = the (get_last_outcome piece);
          rest = (\<lambda>acc. if is_constant piece then pok (acc @ replicate (q - p) (last acc))
            else pbind (pmap (\<lambda>v. get_rounded_payout piece v ri T) [Suc p..<Suc q]) (\<lambda>vs. pok (acc @ vs)))
      in if acc = [] then pbind (get_rounded_payout piece p ri T) (\<lambda>v. rest [v]) else rest acc)"

fun outcome_offers :: "PayoutFunction \<Rightarrow> amount \<Rightarrow> RoundingIntervals \<Rightarrow> amount list \<Rightarrow> (Error + amount list) option" where
  "outcome_offers [] T ri acc = pok acc"
| "outcome_offers (piece # rest) T ri acc = pbind (piece_offers piece T ri acc) (outcome_offers rest T ri)"

text \<open>The ranges as a list of payouts, and as consecutive intervals with different payouts that add up to the collateral.\<close>

definition expand :: "RangePayout list \<Rightarrow> amount list" where
  "expand rs = concat (map (\<lambda>r. replicate (rp_count r) (offer_payout (rp_payout r))) rs)"

fun contiguous :: "nat \<Rightarrow> RangePayout list \<Rightarrow> nat \<Rightarrow> bool" where
  "contiguous a [] e \<longleftrightarrow> a = e"
| "contiguous a (r # rs) e \<longleftrightarrow> rp_start r = a \<and> 0 < rp_count r \<and> contiguous (a + rp_count r) rs e"

definition pays_all :: "amount \<Rightarrow> RangePayout \<Rightarrow> bool" where
  "pays_all T r \<longleftrightarrow> offer_payout (rp_payout r) + accept_payout (rp_payout r) = T"

definition ranges_inv :: "amount \<Rightarrow> nat \<Rightarrow> RangePayout list \<Rightarrow> nat \<Rightarrow> amount list \<Rightarrow> bool" where
  "ranges_inv T a rs e acc \<longleftrightarrow> contiguous a rs e \<and> list_all (pays_all T) rs \<and>
     distinct_adj (map (\<lambda>r. offer_payout (rp_payout r)) rs) \<and> expand rs = acc"

definition agrees :: "amount \<Rightarrow> nat \<Rightarrow> nat \<Rightarrow> (Error + RangePayout list) option \<Rightarrow> (Error + amount list) option \<Rightarrow> bool" where
  "agrees T a e r q \<longleftrightarrow> (case r of
     None \<Rightarrow> q = None
   | Some (Inl x) \<Rightarrow> q = perr x
   | Some (Inr rs) \<Rightarrow> \<exists>acc. q = pok acc \<and> ranges_inv T a rs e acc)"

lemma contiguous_append: "contiguous a (xs @ ys) e \<longleftrightarrow> (\<exists>c. contiguous a xs c \<and> contiguous c ys e)"
  by (induction xs arbitrary: a) auto

lemma expand_append [simp]: "expand (xs @ ys) = expand xs @ expand ys"
  by (simp add: expand_def)

lemma expand_single [simp]: "expand [r] = replicate (rp_count r) (offer_payout (rp_payout r))"
  by (simp add: expand_def)

lemma expand_Cons: "expand (r # rs) = replicate (rp_count r) (offer_payout (rp_payout r)) @ expand rs"
  by (simp add: expand_def)

lemma contiguous_length: "contiguous a rs e \<Longrightarrow> e = a + length (expand rs)"
proof (induction rs arbitrary: a)
  case (Cons r rs)
  then have "e = (a + rp_count r) + length (expand rs)" by simp
  then show ?case by (simp add: expand_Cons)
qed (simp add: expand_def)

lemma rounded_payout_bound: "get_rounded_payout piece v ri T = pok x \<Longrightarrow> x \<le> T"
  by (auto simp: get_rounded_payout_def bind_eq_Some_conv split: if_splits)

lemma new_range_Some: "x \<le> T \<Longrightarrow> new_range v x T = Some \<lparr>rp_start = v, rp_count = 1, rp_payout = \<lparr>offer_payout = x, accept_payout = T - x\<rparr>\<rparr>"
  by (simp add: new_range_def)

text \<open>The last range can be extended, and a range with another payout can be added.\<close>

lemma ranges_inv_extend:
  assumes "ranges_inv T a (rs @ [cur]) s acc"
  shows "ranges_inv T a (rs @ [cur\<lparr>rp_count := rp_count cur + n\<rparr>]) (s + n) (acc @ replicate n (offer_payout (rp_payout cur)))"
  using assms by (auto simp: ranges_inv_def contiguous_append pays_all_def replicate_add distinct_adj_append_iff)

lemma ranges_inv_push:
  assumes "ranges_inv T a (rs @ [cur]) s acc" "x \<noteq> offer_payout (rp_payout cur)" "x \<le> T"
  shows "ranges_inv T a ((rs @ [cur]) @ [\<lparr>rp_start = s, rp_count = 1, rp_payout = \<lparr>offer_payout = x, accept_payout = T - x\<rparr>\<rparr>]) (Suc s) (acc @ [x])"
  using assms unfolding ranges_inv_def expand_append expand_single map_append list_all_append contiguous_append distinct_adj_append_iff
  by (auto simp: pays_all_def)

lemma ranges_inv_last:
  assumes "ranges_inv T a (rs @ [cur]) s acc"
  shows "acc \<noteq> []" "last acc = offer_payout (rp_payout cur)" "s = rp_start cur + rp_count cur" "s = a + length acc"
  using assms contiguous_length[of a "rs @ [cur]" s] by (auto simp: ranges_inv_def contiguous_append)

lemma range_loop_agrees:
  "ranges_inv T a (rs @ [cur]) s acc \<Longrightarrow> s \<le> e \<Longrightarrow> e \<le> 2 ^ 64 - 1 \<Longrightarrow>
   agrees T a e (range_loop piece ri T [s..<e] cur rs)
     (pbind (pmap (\<lambda>v. get_rounded_payout piece v ri T) [s..<e]) (\<lambda>vs. pok (acc @ vs)))"
proof (induction "e - s" arbitrary: s cur rs acc)
  case 0
  then show ?case by (simp add: agrees_def)
next
  case (Suc k)
  have upt: "[s..<e] = s # [Suc s..<e]" using Suc.hyps(2) by (intro upt_conv_Cons) simp
  have e: "k = e - Suc s" "Suc s \<le> e" using Suc.hyps(2) by auto
  show ?case
  proof (cases "get_rounded_payout piece s ri T")
    case None
    then show ?thesis by (simp add: upt agrees_def)
  next
    case (Some r)
    show ?thesis
    proof (cases r)
      case (Inl x)
      then show ?thesis using Some by (simp add: upt agrees_def)
    next
      case (Inr x)
      have x: "x \<le> T" using Some Inr rounded_payout_bound by blast
      show ?thesis
      proof (cases "offer_payout (rp_payout cur) = x")
        case True
        have "rp_count cur + 1 < u64_bound" using ranges_inv_last(3)[OF Suc.prems(1)] Suc.prems(3) e(2) by simp
        then have run: "range_loop piece ri T [s..<e] cur rs = range_loop piece ri T [Suc s..<e] (cur\<lparr>rp_count := rp_count cur + 1\<rparr>) rs"
          unfolding upt using True x Some Inr by simp
        have "ranges_inv T a (rs @ [cur\<lparr>rp_count := rp_count cur + 1\<rparr>]) (Suc s) (acc @ [x])"
          using ranges_inv_extend[OF Suc.prems(1), of 1] True by simp
        from Suc.hyps(1)[OF e(1) this e(2) Suc.prems(3)] show ?thesis using Some Inr
          unfolding run by (simp add: upt pbind_assoc)
      next
        case False
        then show ?thesis
          using Suc.hyps(1)[OF e(1) ranges_inv_push[OF Suc.prems(1) _ x] e(2) Suc.prems(3)] x Some Inr
          by (simp add: upt pbind_assoc new_range_Some)
      qed
    qed
  qed
qed

definition piece_ok :: "PayoutFunctionPiece \<Rightarrow> bool" where
  "piece_ok piece \<longleftrightarrow> (case piece of PolynomialPayoutCurvePiece ps \<Rightarrow> ascending_points ps
     | HyperbolaPayoutCurvePiece h \<Rightarrow> event_outcome (left_end_point h) < event_outcome (right_end_point h))"

lemma ascending_first_last:
  "ascending_points ps \<Longrightarrow> event_outcome (hd ps) < event_outcome (last ps)"
proof (induction ps)
  case (Cons p ps)
  show ?case
  proof (cases "1 < length ps")
    case True
    then have "ascending_points ps" "event_outcome p < event_outcome (hd ps)"
      using Cons.prems by (cases ps; auto simp: ascending_points_def)+
    then show ?thesis using Cons.IH True by (cases ps) auto
  next
    case False
    then show ?thesis using Cons.prems by (cases ps) (auto simp: ascending_points_def)
  qed
qed (simp add: ascending_points_def)

lemma piece_outcomes:
  assumes "piece_ok piece"
  obtains p q where "get_first_outcome piece = Some p" "get_last_outcome piece = Some q" "p < q"
proof (cases piece)
  case (PolynomialPayoutCurvePiece ps)
  then have ps: "ascending_points ps" "ps \<noteq> []" using assms by (auto simp: piece_ok_def ascending_points_def)
  then show thesis using PolynomialPayoutCurvePiece ascending_first_last[OF ps(1)]
    by (intro that[of "event_outcome (hd ps)" "event_outcome (last ps)"]) (auto simp: last_elem_def hd_conv_nth)
next
  case (HyperbolaPayoutCurvePiece h)
  then show thesis using assms by (intro that) (auto simp: piece_ok_def)
qed

definition piece_start :: "amount \<Rightarrow> nat \<Rightarrow> nat \<Rightarrow> RangePayout list \<Rightarrow> amount list \<Rightarrow> bool" where
  "piece_start T a p rs acc \<longleftrightarrow> rs = [] \<and> acc = [] \<and> a = p \<or> rs \<noteq> [] \<and> ranges_inv T a rs (Suc p) acc"

lemma piece_agrees:
  assumes pq: "get_first_outcome piece = Some p" "get_last_outcome piece = Some q" "p < q" "q < 2 ^ 64 - 1"
    and start: "piece_start T a p rs acc"
  shows "agrees T a (Suc q) (piece_to_range_payouts piece T ri rs) (piece_offers piece T ri acc)"
proof -
  let ?rest = "\<lambda>acc. if is_constant piece then pok (acc @ replicate (q - p) (last acc))
            else pbind (pmap (\<lambda>v. get_rounded_payout piece v ri T) [Suc p..<Suc q]) (\<lambda>vs. pok (acc @ vs))"
  let ?loop = "\<lambda>cur rs. if is_constant piece
      then obind (u64_add (rp_count cur) (q - p)) (\<lambda>n. pok (rs @ [cur\<lparr>rp_count := n\<rparr>]))
      else range_loop piece ri T [Suc p..<Suc q] cur rs"
  have q: "u64_add q 1 = Some (Suc q)" "u64_add p 1 = Some (Suc p)" "u64_sub q p = Some (q - p)" using pq by simp_all
  have run: "piece_to_range_payouts piece T ri rs = pbind (get_cur_range piece rs T ri) (\<lambda>(cur, rs). ?loop cur rs)"
    using pq(1,2) q by (simp add: piece_to_range_payouts_def compute_range_payouts_def split_def del: upt_Suc cong: pbind_cong)
  have loop: "agrees T a (Suc q) (?loop cur rs') (?rest acc')" if inv: "ranges_inv T a (rs' @ [cur]) (Suc p) acc'" for cur rs' acc'
  proof (cases "is_constant piece")
    case True
    have "rp_count cur + (q - p) < u64_bound" using ranges_inv_last(3)[OF inv] pq by simp
    then show ?thesis using ranges_inv_extend[OF inv, of "q - p"] ranges_inv_last(2)[OF inv] pq True by (simp add: agrees_def)
  next
    case False
    then show ?thesis using range_loop_agrees[OF inv, of "Suc q" piece ri] pq by simp
  qed
  show ?thesis
  proof (cases "rs = []")
    case True
    then have acc: "acc = []" "a = p" using start by (auto simp: piece_start_def)
    have offers: "piece_offers piece T ri acc = pbind (get_rounded_payout piece p ri T) (\<lambda>v. ?rest [v])"
      using pq acc by (simp add: piece_offers_def Let_def del: upt_Suc)
    show ?thesis
    proof (cases "get_rounded_payout piece p ri T")
      case None
      then show ?thesis using True pq unfolding run offers by (simp add: get_cur_range_def agrees_def)
    next
      case (Some r)
      show ?thesis
      proof (cases r)
        case (Inl x)
        then show ?thesis using True pq Some unfolding run offers by (simp add: get_cur_range_def agrees_def)
      next
        case (Inr x)
        let ?r = "\<lparr>rp_start = p, rp_count = 1, rp_payout = \<lparr>offer_payout = x, accept_payout = T - x\<rparr>\<rparr>"
        have x: "x \<le> T" using Some Inr rounded_payout_bound by blast
        then have "ranges_inv T a ([] @ [?r]) (Suc p) [x]" by (simp add: ranges_inv_def acc pays_all_def)
        note start = loop[OF this]
        have "get_cur_range piece rs T ri = pok (?r, [])" using True pq Some Inr x by (simp add: get_cur_range_def new_range_Some)
        then have "agrees T a (Suc q) (piece_to_range_payouts piece T ri rs) (piece_offers piece T ri acc) =
            agrees T a (Suc q) (?loop ?r []) (?rest [x])"
          unfolding run offers Some Inr by (simp only: pbind_simps prod.case)
        then show ?thesis using start by blast
      qed
    qed
  next
    case False
    then have inv: "ranges_inv T a (butlast rs @ [last rs]) (Suc p) acc" using start by (simp add: piece_start_def)
    have "piece_offers piece T ri acc = ?rest acc"
      using pq ranges_inv_last(1)[OF inv] by (simp add: piece_offers_def Let_def del: upt_Suc)
    then show ?thesis using loop[OF inv] False unfolding run by (simp add: get_cur_range_def del: upt_Suc)
  qed
qed

text \<open>Over all pieces: with the continuity that \<open>is_continuous\<close> checks, every piece starts where the last one ended.\<close>

lemma agrees_bind:
  assumes "agrees T a e r q" "\<And>rs acc. ranges_inv T a rs e acc \<Longrightarrow> r = pok rs \<Longrightarrow> agrees T a e' (f rs) (g acc)"
  shows "agrees T a e' (pbind r f) (pbind q g)"
proof (cases "\<exists>rs. r = pok rs")
  case True
  then obtain rs acc where "r = pok rs" "q = pok acc" "ranges_inv T a rs e acc" using assms(1) by (auto simp: agrees_def)
  then show ?thesis using assms(2) by simp
next
  case False
  then show ?thesis using assms(1) by (auto simp: agrees_def split: option.splits sum.splits)
qed

lemma first_outcome_point: "get_first_outcome piece = map_option event_outcome (get_first_point piece)"
  by (cases piece) auto

lemma last_outcome_point: "get_last_outcome piece = map_option event_outcome (get_last_point piece)"
  by (cases piece) auto

lemma ranges_nonempty: "ranges_inv T a rs e acc \<Longrightarrow> a < e \<Longrightarrow> rs \<noteq> []"
  by (auto simp: ranges_inv_def)

lemma first_link:
  assumes "is_continuous (piece # nxt # rest) = Some True" "get_last_outcome piece = Some m"
  shows "get_first_outcome nxt = Some m" "is_continuous (nxt # rest) = Some True"
  using assms by (auto simp: first_outcome_point last_outcome_point bind_eq_Some_conv split: if_splits)

lemma pieces_order:
  "f \<noteq> [] \<Longrightarrow> list_all piece_ok f \<Longrightarrow> is_continuous f = Some True \<Longrightarrow> get_first_outcome (hd f) = Some p \<Longrightarrow>
   get_last_outcome (last f) = Some q \<Longrightarrow> p < q"
proof (induction f arbitrary: p)
  case (Cons piece f)
  obtain m where m: "get_last_outcome piece = Some m" "p < m"
    using piece_outcomes[of piece] Cons.prems by (metis list.pred_inject(2) list.sel(1) option.inject)
  show ?case
  proof (cases f)
    case (Cons nxt rest)
    then show ?thesis using Cons.IH[of m] Cons.prems first_link[of piece nxt rest m] m by simp
  qed (use Cons.prems m in simp)
qed simp

lemma pieces_agree:
  "f \<noteq> [] \<Longrightarrow> list_all piece_ok f \<Longrightarrow> is_continuous f = Some True \<Longrightarrow> get_first_outcome (hd f) = Some p \<Longrightarrow>
   get_last_outcome (last f) = Some q \<Longrightarrow> q < 2 ^ 64 - 1 \<Longrightarrow> a \<le> p \<Longrightarrow> piece_start T a p rs acc \<Longrightarrow>
   agrees T a (Suc q) (pieces_to_range_payouts f T ri rs) (outcome_offers f T ri acc)"
proof (induction f arbitrary: p rs acc)
  case (Cons piece f)
  obtain m where m: "get_last_outcome piece = Some m" "p < m"
    using piece_outcomes[of piece] Cons.prems by (metis list.pred_inject(2) list.sel(1) option.inject)
  have here: "agrees T a (Suc m) (piece_to_range_payouts piece T ri rs) (piece_offers piece T ri acc)" if "m < 2 ^ 64 - 1"
    using piece_agrees[OF _ m that] Cons.prems by simp
  show ?case
  proof (cases f)
    case Nil
    have "m = q" using Nil m Cons.prems by simp
    moreover have "agrees T a (Suc m) (pbind (piece_to_range_payouts piece T ri rs) pok) (pbind (piece_offers piece T ri acc) pok)"
      if "m < 2 ^ 64 - 1" using agrees_bind[OF here[OF that], where f = pok and g = pok] by (simp add: agrees_def)
    moreover have "pieces_to_range_payouts [] T ri = pok" "outcome_offers [] T ri = pok" by auto
    ultimately show ?thesis using Nil Cons.prems(6) by simp
  next
    case (Cons nxt rest)
    note link = first_link[of piece nxt rest m, folded Cons, OF Cons.prems(3) m(1)]
    have tail: "f \<noteq> []" "list_all piece_ok f" "get_last_outcome (last f) = Some q" "get_first_outcome (hd f) = Some m"
      using Cons.prems Cons link by auto
    then have "m < q" using pieces_order[OF _ _ link(2)] by blast
    show ?thesis unfolding pieces_to_range_payouts.simps outcome_offers.simps
    proof (rule agrees_bind[OF here])
      fix rs' acc'
      assume "ranges_inv T a rs' (Suc m) acc'"
      then have "piece_start T a m rs' acc'" using ranges_nonempty Cons.prems(7) m(2) by (fastforce simp: piece_start_def)
      then show "agrees T a (Suc q) (pieces_to_range_payouts f T ri rs') (outcome_offers f T ri acc')"
        using Cons.IH[OF tail(1,2) link(2) tail(4,3) Cons.prems(6)] Cons.prems(7) m(2) by simp
    qed (use \<open>m < q\<close> Cons.prems(6) in simp)
  qed
qed simp

lemma validate_function_ok:
  assumes "validate_function f mx = pok ()"
  shows "f \<noteq> []" "is_continuous f = Some True" "get_last_outcome (last f) = Some mx"
proof -
  from assms obtain first lst where f: "is_continuous f = Some True" "vget f 0 = Some first" "last_elem f = Some lst" "finishes_at mx lst = Some True"
    by (auto simp: validate_function_def bind_eq_Some_conv split: if_splits)
  then show "f \<noteq> []" "is_continuous f = Some True" by auto
  then show "get_last_outcome (last f) = Some mx" using f by (cases lst) (auto simp: last_elem_def)
qed

text \<open>When the constant pieces are flat, this is the evaluation of every outcome.\<close>

lemma pbind_right [simp]: "pbind m pok = m"
  by (cases m; cases "the m") auto

lemma pmap_const:
  assumes "list_all (\<lambda>v. f v = pok x) vs"
  shows "pmap f vs = pok (replicate (length vs) x)"
  using assms by (induction vs) simp_all

lemma pmap_last:
  assumes "pmap f xs = pok ys" "xs \<noteq> []"
  shows "ys \<noteq> [] \<and> f (last xs) = pok (last ys)"
proof -
  have all: "list_all2 (\<lambda>x y. f x = pok y) xs ys" using assms(1) by (simp add: pmap_pok_iff)
  then have "ys \<noteq> []" using assms(2) by auto
  then show ?thesis using all assms(2) by (auto simp: list_all2_conv_all_nth last_conv_nth)
qed

lemma piece_offers_payouts:
  assumes pq: "get_first_outcome piece = Some p" "get_last_outcome piece = Some q" "p < q"
    and flat: "constants_flat before (piece # rest) T ri"
    and start: "acc = [] \<and> before = None \<or> (\<exists>b. before = Some b \<and> acc \<noteq> [] \<and> get_rounded_payout b p ri T = pok (last acc))"
  shows "piece_offers piece T ri acc = pbind (piece_payouts piece (acc = []) T ri) (\<lambda>vs. pok (acc @ vs))"
proof -
  let ?f = "\<lambda>v. get_rounded_payout piece v ri T"
  have flat': "is_constant piece \<Longrightarrow> list_all (\<lambda>v. ?f v = get_rounded_payout (case before of None \<Rightarrow> piece | Some b \<Rightarrow> b) p ri T) [Suc p..<Suc q]"
    using flat pq by (simp add: Let_def del: upt_Suc)
  have tail: "(if is_constant piece then pok (zs @ replicate (q - p) z) else pbind (pmap ?f [Suc p..<Suc q]) (\<lambda>vs. pok (zs @ vs))) =
      pbind (pmap ?f [Suc p..<Suc q]) (\<lambda>vs. pok (zs @ vs))"
    if "is_constant piece \<Longrightarrow> list_all (\<lambda>v. ?f v = pok z) [Suc p..<Suc q]" for zs z
    using that pmap_const[of ?f z "[Suc p..<Suc q]"] by (simp del: upt_Suc)
  show ?thesis
  proof (cases "acc = []")
    case True
    then have b: "before = None" using start by auto
    have upt: "[p..<Suc q] = p # [Suc p..<Suc q]" using pq(3) by (intro upt_conv_Cons) simp
    have "pbind (?f p) (\<lambda>v. if is_constant piece then pok ([v] @ replicate (q - p) (last [v]))
          else pbind (pmap ?f [Suc p..<Suc q]) (\<lambda>vs. pok ([v] @ vs))) = pmap ?f [p..<Suc q]"
    proof (cases "\<exists>v. ?f p = pok v")
      case True
      then obtain v where v: "?f p = pok v" by blast
      have "is_constant piece \<Longrightarrow> list_all (\<lambda>v'. ?f v' = pok (last [v])) [Suc p..<Suc q]" using flat' b v by simp
      from tail[OF this, of "[v]"] v show ?thesis by (simp add: upt del: upt_Suc)
    next
      case False
      then show ?thesis by (cases "?f p"; cases "the (?f p)") (auto simp: upt simp del: upt_Suc)
    qed
    then show ?thesis using True pq by (simp add: piece_offers_def piece_payouts_def Let_def del: upt_Suc cong: pbind_cong)
  next
    case False
    then obtain b where b: "before = Some b" "get_rounded_payout b p ri T = pok (last acc)" using start by auto
    have "is_constant piece \<Longrightarrow> list_all (\<lambda>v'. ?f v' = pok (last acc)) [Suc p..<Suc q]" using flat' b by simp
    from tail[OF this, of acc] False pq show ?thesis by (simp add: piece_offers_def piece_payouts_def Let_def del: upt_Suc)
  qed
qed

lemma outcome_offers_payouts:
  "list_all piece_ok f \<Longrightarrow> is_continuous f = Some True \<Longrightarrow> constants_flat before f T ri \<Longrightarrow>
   acc = [] \<and> before = None \<or>
     (\<exists>b. before = Some b \<and> acc \<noteq> [] \<and> (f \<noteq> [] \<longrightarrow> get_rounded_payout b (the (get_first_outcome (hd f))) ri T = pok (last acc))) \<Longrightarrow>
   outcome_offers f T ri acc = pbind (outcome_payouts (acc = []) f T ri) (\<lambda>vs. pok (acc @ vs))"
proof (induction f arbitrary: before acc)
  case (Cons piece f)
  obtain p q where pq: "get_first_outcome piece = Some p" "get_last_outcome piece = Some q" "p < q"
    using piece_outcomes[of piece] Cons.prems(1) by auto
  have head: "piece_offers piece T ri acc = pbind (piece_payouts piece (acc = []) T ri) (\<lambda>vs. pok (acc @ vs))"
    using piece_offers_payouts[OF pq Cons.prems(3)] Cons.prems(4) pq(1) by simp
  have tail: "outcome_offers f T ri (acc @ vs) = pbind (outcome_payouts False f T ri) (\<lambda>ws. pok (acc @ vs @ ws))"
    if vs: "piece_payouts piece (acc = []) T ri = pok vs" for vs
  proof -
    have v: "vs \<noteq> []" "get_rounded_payout piece q ri T = pok (last vs)"
      using pmap_last[of "\<lambda>v. get_rounded_payout piece v ri T" "[if acc = [] then p else Suc p..<Suc q]" vs] vs pq
      by (auto simp: piece_payouts_def Let_def split: if_splits)
    have "f \<noteq> [] \<Longrightarrow> get_first_outcome (hd f) = Some q" "is_continuous f = Some True"
      using first_link[of piece "hd f" "tl f" q] Cons.prems(2) pq(2) by (cases f; simp)+
    then show ?thesis using Cons.IH[of "Some piece" "acc @ vs"] Cons.prems(1,3) v by (simp add: pbind_assoc)
  qed
  show ?case
  proof (cases "\<exists>vs. piece_payouts piece (acc = []) T ri = pok vs")
    case True
    then show ?thesis using head tail by (auto simp: pbind_assoc)
  next
    case False
    then show ?thesis using head
      by (cases "piece_payouts piece (acc = []) T ri"; cases "the (piece_payouts piece (acc = []) T ri)") auto
  qed
qed simp


section \<open>Rounding\<close>

definition interval_of :: "RoundingIntervals \<Rightarrow> nat \<Rightarrow> RoundingInterval" where
  "interval_of ri v = last (filter (\<lambda>x. begin_interval x \<le> v) ri)"

lemma increasing_sorted:
  "list_all (\<lambda>(x, y). begin_interval x < begin_interval y) (zip ri (drop 1 ri)) \<Longrightarrow> sorted_wrt (\<lambda>x y. begin_interval x < begin_interval y) ri"
proof (induction ri)
  case (Cons x ri)
  show ?case
  proof (cases ri)
    case (Cons y rest)
    then have s: "sorted_wrt (\<lambda>x y. begin_interval x < begin_interval y) ri" "begin_interval x < begin_interval y"
      using Cons.IH Cons.prems by simp_all
    then show ?thesis using Cons by auto
  qed simp
qed simp

lemma filter_prefix:
  "sorted_wrt (\<lambda>x y. begin_interval x < begin_interval y) ri \<Longrightarrow>
   filter (\<lambda>x. begin_interval x \<le> v) ri = take (length (filter (\<lambda>x. begin_interval x \<le> v) ri)) ri"
proof (induction ri)
  case (Cons x ri)
  show ?case
  proof (cases "begin_interval x \<le> v")
    case False
    then have "filter (\<lambda>x. begin_interval x \<le> v) ri = []" using Cons.prems by (auto simp: filter_empty_conv)
    then show ?thesis using False by simp
  qed (use Cons in simp)
qed simp

lemma rounding_interval:
  assumes "validate_rounding ri = Inr ()"
  obtains i where "rounding_index ri v = Some i" "vget ri i = Some (interval_of ri v)" "begin_interval (interval_of ri v) \<le> v"
proof -
  let ?P = "\<lambda>x. begin_interval x \<le> v"
  from assms have ri: "ri \<noteq> []" "begin_interval (ri ! 0) = 0" "sorted_wrt (\<lambda>x y. begin_interval x < begin_interval y) ri"
    by (auto simp: validate_rounding_def intro: increasing_sorted split: if_splits)
  let ?n = "length (filter ?P ri)"
  have ne: "filter ?P ri \<noteq> []" using ri by (cases ri) auto
  have "?n - 1 < length ri" using ri(1) length_filter_le[of ?P ri] by (cases ri) (auto simp: less_Suc_eq_le)
  moreover have "last (filter ?P ri) = ri ! (?n - 1)"
    using ne filter_prefix[OF ri(3), of v] by (metis diff_less last_conv_nth length_greater_0_conv nth_take zero_less_one)
  moreover have "last (filter ?P ri) \<in> set (filter ?P ri)" using ne by (rule last_in_set)
  ultimately show thesis using ne
    by (intro that[of "?n - 1"]) (auto simp: rounding_index_def interval_of_def u64_sub_def Suc_le_eq)
qed

lemma nearest_multiple:
  assumes "0 < (m :: nat)"
  shows "(if m \<le> 2 * (p mod m) then p + m - p mod m else p - p mod m) = m * ((2 * p + m) div (2 * m))"
proof -
  have r: "p mod m < m" using assms by simp
  have half: "q < m \<Longrightarrow> (2 * q + m) div (2 * m) = (if m \<le> 2 * q then 1 else 0)" for q
    by (auto intro!: div_nat_eqI)
  have "2 * p + m = (2 * m) * (p div m) + (2 * (p mod m) + m)"
    using arg_cong[OF mult_div_mod_eq[of m p], of "(*) 2"] by (simp only: distrib_left mult.assoc add.assoc)
  then have "(2 * p + m) div (2 * m) = p div m + (2 * (p mod m) + m) div (2 * m)"
    using div_mult_self4[of "2 * m" "p div m" "2 * (p mod m) + m"] assms by (simp only:)
  also have "(2 * (p mod m) + m) div (2 * m) = (if m \<le> 2 * (p mod m) then 1 else 0)"
    using r by (rule half)
  finally show ?thesis using minus_mod_eq_mult_div[of p m] diff_add_assoc2[OF mod_less_eq_dividend[of p m], of m]
    by (simp add: distrib_left)
qed

lemma rounded_to:
  assumes "validate_rounding ri = Inr ()" "0 < rounding_mod (interval_of ri v)" "exactly payout p"
    "p < 2 ^ 52" "rounding_mod (interval_of ri v) < 2 ^ 52"
  shows "round_payout ri v payout =
    Some (rounding_mod (interval_of ri v) * ((2 * p + rounding_mod (interval_of ri v)) div (2 * rounding_mod (interval_of ri v))))"
proof -
  let ?m = "rounding_mod (interval_of ri v)"
  obtain i where i: "rounding_index ri v = Some i" "vget ri i = Some (interval_of ri v)"
    using rounding_interval[OF assms(1)] by blast
  have m: "exactly (dbl_of_nat ?m) ?m" using dbl_of_nat_exact assms(5) by simp
  have "exactly (dbl_of_nat 0) 0" by (rule dbl_of_nat_exact) simp
  then have pos: "dbl_le (dbl_of_nat 0) payout" using exactly_le assms(3) by blast
  have r: "exactly (dbl_rem payout (dbl_of_nat ?m)) (p mod ?m)" using exactly_rem[OF assms(3) m assms(2)] assms(4) by simp
  have s: "exactly (dbl_add payout (dbl_of_nat ?m)) (p + ?m)" using exactly_add[OF assms(3) m] assms(4,5) by simp
  have le: "p mod ?m \<le> p" "p mod ?m \<le> p + ?m" by (simp_all add: trans_le_add1)
  have up: "exactly (dbl_sub (dbl_add payout (dbl_of_nat ?m)) (dbl_rem payout (dbl_of_nat ?m))) (p + ?m - p mod ?m)"
    using exactly_sub[OF s r le(2)] assms(4,5) by simp
  have down: "exactly (dbl_sub payout (dbl_rem payout (dbl_of_nat ?m))) (p - p mod ?m)"
    using exactly_sub[OF assms(3) r le(1)] assms(4) by simp
  have fin: "dbl_to_u64 (dbl_round x) = a" if "exactly x a" "a < 2 ^ 53" for x a
    using exactly_to_u64[OF exactly_round] that by blast
  have half: "dbl_le (dbl_div (dbl_of_nat ?m) (dbl_of_nat 2)) (dbl_rem payout (dbl_of_nat ?m)) \<longleftrightarrow> ?m \<le> 2 * (p mod ?m)"
    by (rule half_le[OF r m assms(2,5)])
  have "round_payout ri v payout = Some (if ?m \<le> 2 * (p mod ?m) then p + ?m - p mod ?m else p - p mod ?m)"
    using fin[OF up] fin[OF down] assms(4,5) by (simp add: round_payout_def i pos half Let_def del: vget_Some)
  then show ?thesis unfolding nearest_multiple[OF assms(2)] .
qed

text \<open>
  C39: With validated rounding intervals, \<open>round\<close> never panics, and a payout that is an integer is rounded to the nearest multiple
  of the modulus of the interval its outcome is in, halves up, exactly: no error comes from the double arithmetic as
  long as payout and modulus stay below \<open>2 ^ 52\<close> satoshis, which is more than all bitcoin.
\<close>

theorem round_payout_nearest:
  assumes "validate_rounding ri = Inr ()" "0 < rounding_mod (interval_of ri v)" "exactly payout p"
    "p < 2 ^ 52" "rounding_mod (interval_of ri v) < 2 ^ 52"
  shows "round_payout ri v payout =
    Some (rounding_mod (interval_of ri v) * ((2 * p + rounding_mod (interval_of ri v)) div (2 * rounding_mod (interval_of ri v))))"
  by (rule rounded_to[OF assms])

lemma round_payout_nearest_witness:
  "round_payout [\<lparr>begin_interval = 0, rounding_mod = 1\<rparr>, \<lparr>begin_interval = 5, rounding_mod = 1000\<rparr>] 7 (dbl_of_nat 1500) = Some 2000"
proof -
  let ?ri = "[\<lparr>begin_interval = 0, rounding_mod = 1\<rparr>, \<lparr>begin_interval = 5, rounding_mod = 1000\<rparr>]"
  have "validate_rounding ?ri = Inr ()" by (simp add: validate_rounding_def)
  moreover have "interval_of ?ri 7 = \<lparr>begin_interval = 5, rounding_mod = 1000\<rparr>" by (simp add: interval_of_def)
  moreover have "exactly (dbl_of_nat 1500) 1500" by (rule dbl_of_nat_exact) simp
  ultimately show ?thesis using round_payout_nearest[of ?ri 7 "dbl_of_nat 1500" 1500] by simp
qed

section \<open>What the checks leave open\<close>

text \<open>A function whose first piece is a hyperbola passes validation wherever the hyperbola starts.\<close>

lemma hyperbola_start_unchecked:
  "validate_function [HyperbolaPayoutCurvePiece h] (event_outcome (right_end_point h)) = pok ()"
  by (simp add: validate_function_def last_elem_def)

text \<open>A constant piece has the rounded payout of its first outcome, also where another rounding interval begins.\<close>

abbreviation constant_piece :: PayoutFunctionPiece where
  "constant_piece \<equiv> PolynomialPayoutCurvePiece
     [\<lparr>event_outcome = 0, outcome_payout = 1500, extra_precision = 0\<rparr>, \<lparr>event_outcome = 9, outcome_payout = 1500, extra_precision = 0\<rparr>]"

abbreviation two_roundings :: RoundingIntervals where
  "two_roundings \<equiv> [\<lparr>begin_interval = 0, rounding_mod = 1\<rparr>, \<lparr>begin_interval = 5, rounding_mod = 1000\<rparr>]"

lemma exact_payout:
  assumes "evaluate piece v = Some x" "exactly x p" "p \<le> T" "T < 2 ^ 53"
  shows "get_rounded_payout piece v ri T = obind (round_payout ri v x) (\<lambda>r. pok (min r T))"
proof -
  have "exactly (dbl_of_nat 0) 0" "exactly (dbl_of_nat T) T" "exactly (dbl_round x) p"
    using dbl_of_nat_exact exactly_round assms(2-4) by auto
  then have "dbl_eq x (dbl_of_nat 0) \<longleftrightarrow> p = 0" "\<not> dbl_less (dbl_of_nat T) (dbl_round x)"
    using exactly_less assms(2,3) by (auto simp: dbl_eq_def exactly_le)
  then show ?thesis using assms(1,2) by (auto simp: get_rounded_payout_def exactly_normal)
qed

lemma constant_piece_one_rounding:
  "to_range_payouts [constant_piece] 10000 two_roundings =
     pok [\<lparr>rp_start = 0, rp_count = 10, rp_payout = \<lparr>offer_payout = 1500, accept_payout = 8500\<rparr>\<rparr>]"
  "get_rounded_payout constant_piece 5 two_roundings 10000 = pok 2000"
proof -
  have v: "validate_rounding two_roundings = Inr ()" by (simp add: validate_rounding_def)
  have e: "exactly (dbl_of_nat 1500) 1500" "evaluate constant_piece v = Some (dbl_of_nat 1500)" for v
    by (simp_all add: dbl_of_nat_exact evaluate_polynomial_def evaluate_linear_def)
  have r: "round_payout two_roundings 0 (dbl_of_nat 1500) = Some 1500" "round_payout two_roundings 5 (dbl_of_nat 1500) = Some 2000"
    using rounded_to[OF v _ e(1), of 0] rounded_to[OF v _ e(1), of 5] by (simp_all add: interval_of_def)
  show "get_rounded_payout constant_piece 5 two_roundings 10000 = pok 2000"
    using exact_payout[OF e(2,1), where T = 10000 and ri = two_roundings and v = 5] r by simp
  have "get_rounded_payout constant_piece 0 two_roundings 10000 = pok 1500"
    using exact_payout[OF e(2,1), where T = 10000 and ri = two_roundings and v = 0] r by simp
  then show "to_range_payouts [constant_piece] 10000 two_roundings =
     pok [\<lparr>rp_start = 0, rp_count = 10, rp_payout = \<lparr>offer_payout = 1500, accept_payout = 8500\<rparr>\<rparr>]"
    by (simp add: to_range_payouts_def piece_to_range_payouts_def is_constant_def get_cur_range_def new_range_def last_elem_def)
qed

text \<open>A linear piece up to outcome 4 and a constant piece after it, in one rounding interval of whole hundreds.\<close>

abbreviation rising_piece :: PayoutFunctionPiece where
  "rising_piece \<equiv> PolynomialPayoutCurvePiece
     [\<lparr>event_outcome = 0, outcome_payout = 0, extra_precision = 0\<rparr>, \<lparr>event_outcome = 4, outcome_payout = 2000, extra_precision = 0\<rparr>]"

abbreviation flat_piece :: PayoutFunctionPiece where
  "flat_piece \<equiv> PolynomialPayoutCurvePiece
     [\<lparr>event_outcome = 4, outcome_payout = 2000, extra_precision = 0\<rparr>, \<lparr>event_outcome = 9, outcome_payout = 2000, extra_precision = 0\<rparr>]"

abbreviation hundreds :: RoundingIntervals where
  "hundreds \<equiv> [\<lparr>begin_interval = 0, rounding_mod = 100\<rparr>]"

lemma hundreds_round:
  assumes "evaluate piece v = Some x" "exactly x 2000"
  shows "get_rounded_payout piece v hundreds 10000 = pok 2000"
proof -
  have "validate_rounding hundreds = Inr ()" "interval_of hundreds v = \<lparr>begin_interval = 0, rounding_mod = 100\<rparr>"
    by (simp_all add: validate_rounding_def interval_of_def)
  then have "round_payout hundreds v x = Some 2000" using rounded_to[of hundreds v x 2000] assms(2) by simp
  then show ?thesis using exact_payout[OF assms, where T = 10000 and ri = hundreds] by simp
qed


end
