(* ===== verification/ContractSpec.thy ===== *)
theory ContractSpec
  imports Contract ContractInfoSpec PayoutCurveSpec
begin

text \<open>What the conversions between contracts and messages keep, and what contract ids tell apart.\<close>

section \<open>Payout functions in messages\<close>

definition two_ended :: "PayoutFunctionPiece \<Rightarrow> bool" where
  "two_ended piece \<longleftrightarrow> (case piece of PolynomialPayoutCurvePiece ps \<Rightarrow> 2 \<le> length ps | HyperbolaPayoutCurvePiece h \<Rightarrow> True)"

lemma ser_piece_round_trip:
  assumes "two_ended piece"
  obtains s p q where "ser_piece piece = Some s" "get_first_point piece = Some p" "get_last_point piece = Some q"
    "end_point s = p" "from_ser_payout_function_piece s q = piece"
proof (cases piece)
  case (PolynomialPayoutCurvePiece ps)
  then have len: "2 \<le> length ps" using assms by (simp add: two_ended_def)
  then have "ps = hd ps # tl ps" "tl ps \<noteq> []" by (cases ps; auto)+
  then have ends: "ps = [hd ps] @ butlast (tl ps) @ [last ps]" by (metis append_Cons append_Nil append_butlast_last_id last_ConsR)
  have "take (length ps - 2) (drop 1 ps) = butlast (tl ps)" by (simp add: butlast_conv_take drop_Suc numeral_2_eq_2)
  moreover have "vget ps 0 = Some (hd ps)" "u64_sub (length ps) 2 = Some (length ps - 2)" "ps \<noteq> []"
    using len by (cases ps; simp)+
  moreover have "hd ps # butlast (tl ps) @ [last ps] = ps" using ends by simp
  ultimately show thesis by (intro that[of "\<lparr>end_point = hd ps, payout_curve_piece = SerPolynomial (butlast (tl ps))\<rparr>" "hd ps" "last ps"])
    (simp_all add: PolynomialPayoutCurvePiece ser_piece_def from_ser_payout_function_piece_def last_elem_def del: vget_Some)
next
  case (HyperbolaPayoutCurvePiece h)
  then show thesis using that by (auto simp: ser_piece_def from_ser_payout_function_piece_def)
qed

lemma right_ends:
  "list_all two_ended f \<Longrightarrow> is_continuous f = Some True \<Longrightarrow> f \<noteq> [] \<Longrightarrow> omap ser_piece f = Some ss \<Longrightarrow> get_last_point (last f) = Some e \<Longrightarrow>
   map (\<lambda>(x, y). from_ser_payout_function_piece x y) (zip ss (map end_point (drop 1 ss) @ [e])) = f"
proof (induction f arbitrary: ss)
  case (Cons piece f)
  obtain s p q where s: "ser_piece piece = Some s" "get_last_point piece = Some q" "from_ser_payout_function_piece s q = piece"
    using ser_piece_round_trip[of piece] Cons.prems(1) by (metis list.pred_inject(2))
  obtain ss' where ss: "ss = s # ss'" "omap ser_piece f = Some ss'" using Cons.prems(4) s(1) by (auto simp: bind_eq_Some_conv)
  show ?case
  proof (cases f)
    case Nil
    then show ?thesis using ss s Cons.prems(5) by simp
  next
    case (Cons nxt rest)
    then obtain s' ss'' where s': "ss' = s' # ss''" "ser_piece nxt = Some s'" using ss(2) by (auto simp: bind_eq_Some_conv)
    have "get_first_point nxt = Some q" "is_continuous f = Some True"
      using Cons.prems(2) s(2) Cons by (auto simp: bind_eq_Some_conv split: if_splits)
    moreover have "get_first_point nxt = Some (end_point s')"
      using ser_piece_round_trip[of nxt] Cons.prems(1) Cons s'(2) by (metis list.pred_inject(2) option.inject)
    ultimately show ?thesis using Cons.IH[OF _ _ _ ss(2)] Cons.prems(1,5) Cons ss s s' by simp
  qed
qed simp

lemma payout_function_round_trip:
  assumes "list_all two_ended f" "is_continuous f = Some True" "f \<noteq> []"
  shows "\<exists>s. ser_payout_function f = Some s \<and> from_ser_payout_function s = f"
proof -
  have "\<exists>ss. omap ser_piece f = Some ss" using assms(1)
  proof (induction f)
    case (Cons piece f)
    obtain s where "ser_piece piece = Some s" using ser_piece_round_trip[of piece] Cons.prems by (metis list.pred_inject(2))
    then show ?case using Cons by auto
  qed simp
  then obtain ss where ss: "omap ser_piece f = Some ss" by blast
  obtain e where e: "get_last_point (last f) = Some e"
    using ser_piece_round_trip[of "last f"] assms(1,3) by (metis last_in_set list_all_iff)
  show ?thesis using right_ends[OF assms ss e] ss e assms(3)
    by (simp add: ser_payout_function_def from_ser_payout_function_def last_elem_def)
qed

section \<open>Offers in messages\<close>

text \<open>What a message can carry: the fields in their width, one threshold and no difference for a single oracle.\<close>

definition params_fit :: "DifferenceParams option \<Rightarrow> bool" where
  "params_fit p \<longleftrightarrow> (case p of None \<Rightarrow> True | Some d \<Rightarrow> dp_max_error_exp d < 2 ^ 16 \<and> min_support_exp d < 2 ^ 16)"

definition descriptor_fits :: "amount \<Rightarrow> OracleAnnouncement list \<Rightarrow> ContractDescriptor \<Rightarrow> bool" where
  "descriptor_fits T anns d \<longleftrightarrow> (case d of
     EnumContract e \<Rightarrow> list_all is_enum_event anns \<and> (\<forall>x \<in> set e. offer_payout (ep_payout x) + accept_payout (ep_payout x) = T)
   | NumericalContract n \<Rightarrow> anns \<noteq> [] \<and> rmap (digits_in_base (oni_base (nd_numeric_infos n))) anns = Inr (nb_digits (nd_numeric_infos n)) \<and>
       list_all two_ended (payout_function n) \<and> is_continuous (payout_function n) = Some True \<and> payout_function n \<noteq> [])"

definition info_fits :: "amount \<Rightarrow> ContractInfo \<Rightarrow> bool" where
  "info_fits T ci \<longleftrightarrow> ci_threshold ci < 2 ^ 16 \<and> params_fit (get_oracle_params (contract_descriptor ci)) \<and>
     (length (oracle_announcements ci) = 1 \<longrightarrow> ci_threshold ci = 1 \<and> get_oracle_params (contract_descriptor ci) = None) \<and>
     descriptor_fits T (oracle_announcements ci) (contract_descriptor ci)"

lemma ser_oracles:
  assumes "info_fits T ci"
  shows "oracles_of (ser_oracle_info ci) = (oracle_announcements ci, ci_threshold ci)"
    "params_of (ser_oracle_info ci) = get_oracle_params (contract_descriptor ci)"
  using assms by (auto simp: info_fits_def ser_oracle_info_def params_fit_def ser_params_def from_ser_params_def option.map_comp comp_def
    split: list.splits option.splits)

lemma info_round_trip:
  assumes "info_fits T ci"
  shows "\<exists>d. ser_descriptor (contract_descriptor ci) = Some d \<and>
    contract_info_of T \<lparr>cii_descriptor = d, cii_oracle_info = ser_oracle_info ci\<rparr> = pok ci"
proof (cases "contract_descriptor ci")
  case (EnumContract e)
  have pays: "offer_payout (ep_payout x) + accept_payout (ep_payout x) = T" if "x \<in> set e" for x
    using assms that by (auto simp: info_fits_def descriptor_fits_def EnumContract)
  have "omap (\<lambda>x. map_option (\<lambda>a. \<lparr>ep_outcome = co_outcome x, ep_payout = \<lparr>offer_payout = co_offer_payout x, accept_payout = a\<rparr>\<rparr>)
      (u64_sub T (co_offer_payout x))) (map (\<lambda>x. \<lparr>co_outcome = ep_outcome x, co_offer_payout = offer_payout (ep_payout x)\<rparr>) e) = Some e"
    unfolding omap_Some_iff list_all2_map1 using pays by (intro list.rel_refl_strong) (force simp: u64_sub_def)
  then show ?thesis using ser_oracles[OF assms] assms EnumContract
    by (auto simp: ser_descriptor_def contract_info_of_def info_fits_def descriptor_fits_def)
next
  case (NumericalContract n)
  let ?anns = "oracle_announcements ci"
  have fits: "?anns \<noteq> []" "rmap (digits_in_base (oni_base (nd_numeric_infos n))) ?anns = Inr (nb_digits (nd_numeric_infos n))"
      "list_all two_ended (payout_function n)" "is_continuous (payout_function n) = Some True" "payout_function n \<noteq> []"
    using assms by (auto simp: info_fits_def descriptor_fits_def NumericalContract)
  obtain a0 as where a0: "?anns = a0 # as" using fits(1) by (cases ?anns) auto
  have "digits_in_base (oni_base (nd_numeric_infos n)) a0 \<noteq> Inl ConversionInvalidParameters"
    using fits(2) by (auto simp: a0)
  then obtain d where d: "event_descriptor (oracle_event a0) = DigitDecompositionEvent d" "dd_base d = oni_base (nd_numeric_infos n)"
    by (auto simp: digits_in_base_def split: EventDescriptor.splits if_splits)
  have "nb_digits (nd_numeric_infos n) \<noteq> []" using fits(2) a0 by auto
  then obtain m where m: "get_min_nb_digits (nd_numeric_infos n) = Some m" by (auto simp: get_min_nb_digits_def neq_Nil_conv)
  obtain s where s: "ser_payout_function (payout_function n) = Some s" "from_ser_payout_function s = payout_function n"
    using payout_function_round_trip[OF fits(3-5)] by blast
  have params: "params_of (ser_oracle_info ci) = difference_params n" using ser_oracles(2)[OF assms] NumericalContract by simp
  show ?thesis using s m d params ser_oracles(1)[OF assms] fits(2) NumericalContract a0
    by (auto simp: ser_descriptor_def contract_info_of_def Let_def)
qed

text \<open>
  C25: The contract that the counter party reads from an offer message is the one that was offered, but for the side it is
  on, its counter party and its keys: conditions, oracles, payouts, parameters and times are the same.
\<close>

theorem offer_round_trip:
  assumes "list_all (info_fits (total_collateral oc)) (contract_info oc)"
    "get_tx_input_infos B K (oc_funding_inputs oc) = pok (pp_inputs (offer_params oc), input_amount (offer_params oc))"
  shows "\<exists>m. to_offer_dlc oc = Some m \<and>
    try_from_offer_dlc B K m cp keys = pok (oc\<lparr>is_offer_party := False, counter_party := cp, keys_id := keys\<rparr>)"
proof -
  let ?T = "total_collateral oc"
  have "\<exists>inners. omap (\<lambda>c. map_option (\<lambda>d. \<lparr>cii_descriptor = d, cii_oracle_info = ser_oracle_info c\<rparr>) (ser_descriptor (contract_descriptor c))) infos =
      Some inners \<and> pmap (contract_info_of ?T) inners = pok infos" if "list_all (info_fits ?T) infos" for infos
    using that
  proof (induction infos)
    case (Cons ci infos)
    then show ?case using info_round_trip[of ?T ci] by (auto simp: bind_eq_Some_conv)
  qed simp
  from this[OF assms(1)] obtain inners where inners: "omap (\<lambda>c. map_option (\<lambda>d. \<lparr>cii_descriptor = d, cii_oracle_info = ser_oracle_info c\<rparr>)
      (ser_descriptor (contract_descriptor c))) (contract_info oc) = Some inners" "pmap (contract_info_of ?T) inners = pok (contract_info oc)"
    by blast
  have "\<exists>s. ser_contract_info oc = Some s \<and> get_contract_info_and_announcements s = pok (contract_info oc) \<and> ser_total_collateral s = ?T"
    using inners by (auto simp: ser_contract_info_def get_contract_info_and_announcements_def split: list.split)
  then show ?thesis using assms(2) by (auto simp: to_offer_dlc_def try_from_offer_dlc_def)
qed

text \<open>A codec of transactions that are their output values.\<close>

definition toy_codec :: tx_codec where
  "toy_codec = \<lparr>consensus_encode = (\<lambda>tx. map txo_value (tx_output tx)), consensus_decode = (\<lambda>b. Inr (toy_tx b))\<rparr>"

definition sample_input :: FundingInput where
  "sample_input = \<lparr>fi_serial_id = 3, prev_tx = [5000, 30000], prev_tx_vout = 1, fi_sequence = 0xffffffff,
     fi_max_witness_len = 107, fi_redeem_script = []\<rparr>"

definition sample_offer :: OfferedContract where
  "sample_offer = \<lparr>oc_id = replicate 32 0, is_offer_party = True, contract_info = [coin_info], counter_party = [2],
     offer_params = sample_party 30000 10000\<lparr>pp_inputs :=
       [\<lparr>ii_outpoint = \<lparr>txid = [1, 2], vout = 1\<rparr>, max_witness_len = 107, redeem_script = [], ii_serial_id = 3\<rparr>]\<rparr>,
     total_collateral = 20000, oc_funding_inputs = [sample_input], fund_output_serial_id = 3,
     fee_rate_per_vb = 2, cet_locktime = 50, refund_locktime = 200, keys_id = [1]\<rparr>"

lemma coin_info_fits: "info_fits 20000 coin_info"
  by (simp add: info_fits_def coin_info_def params_fit_def descriptor_fits_def is_enum_event_def coin_event_def coin_payouts_def)

lemma offer_round_trip_witness:
  "\<exists>m. to_offer_dlc sample_offer = Some m \<and>
    try_from_offer_dlc toy_btc toy_codec m [3] [9] = pok (sample_offer\<lparr>is_offer_party := False, counter_party := [3], keys_id := [9]\<rparr>)"
proof (rule offer_round_trip)
  show "list_all (info_fits (total_collateral sample_offer)) (contract_info sample_offer)"
    using coin_info_fits by (simp add: sample_offer_def)
  show "get_tx_input_infos toy_btc toy_codec (oc_funding_inputs sample_offer) = pok (pp_inputs (offer_params sample_offer), input_amount (offer_params sample_offer))"
    by (simp add: sample_offer_def get_tx_input_infos_def sample_party_def sample_input_def toy_codec_def decode_tx_def toy_btc_def toy_tx_def
      vget_def u64_add_def)
qed

text \<open>An offer whose payout exceeds its collateral is not rejected: reading it panics.\<close>

lemma excess_payout_panics:
  assumes "cii_descriptor i = EnumeratedContractDescriptor payouts" "x \<in> set payouts" "T < co_offer_payout x"
  shows "get_contract_info_and_announcements (SingleContractInfo T i) = None"
proof -
  have "omap f xs = None" if "x \<in> set xs" "f x = None" for f :: "ContractOutcome \<Rightarrow> EnumerationPayout option" and xs
    using that by (induction xs) (auto simp: bind_eq_None_conv)
  from this[OF assms(2)] assms show ?thesis
    by (simp add: get_contract_info_and_announcements_def contract_info_of_def split_def)
qed

section \<open>Contract ids\<close>

text \<open>
  The id is the reversed transaction id and the temporary id added bit by bit, with the output index in the last two bytes:
  contracts on the same funding output with different temporary ids have different ids.
\<close>

lemma xor_cancel: "xor a x = xor a y \<Longrightarrow> x = y" for a x y :: nat
  by (metis xor.assoc xor.left_neutral xor_self_eq)

lemma compute_id_nth:
  "i < 32 \<Longrightarrow> compute_id h n tmp ! i =
     (if i = 31 then xor (xor (h ! 0) (tmp ! 31)) (n mod 256)
      else if i = 30 then xor (xor (h ! 1) (tmp ! 30)) (n div 256 mod 256) else xor (h ! (31 - i)) (tmp ! i))"
  by (auto simp: compute_id_def Let_def nth_list_update simp del: upt_Suc)

lemma length_compute_id [simp]: "length (compute_id h n tmp) = 32"
  by (simp add: compute_id_def Let_def)

text \<open>
  Two contracts on the same funding output have the same contract id only when they have the same temporary id, so
  updating a contract in the store never writes over another one of the same output.
\<close>

theorem contract_id_injective:
  assumes "length tmp = 32" "length tmp' = 32"
  shows "compute_id h n tmp = compute_id h n tmp' \<longleftrightarrow> tmp = tmp'"
proof
  assume eq: "compute_id h n tmp = compute_id h n tmp'"
  show "tmp = tmp'"
  proof (rule nth_equalityI)
    fix i assume "i < length tmp"
    then have i: "i < 32" using assms(1) by simp
    have "compute_id h n tmp ! i = compute_id h n tmp' ! i" using eq by simp
    then show "tmp ! i = tmp' ! i" unfolding compute_id_nth[OF i]
      by (auto split: if_splits dest!: xor_cancel) (metis xor.commute xor_cancel)+
  qed (simp add: assms)
qed simp

lemma contract_id_injective_witness:
  "compute_id (replicate 32 5) 1 (replicate 32 7) \<noteq> compute_id (replicate 32 5) 1 (replicate 32 8)"
  using contract_id_injective[of "replicate 32 7" "replicate 32 8" "replicate 32 5" 1] by (simp add: replicate_eq_replicate)

end
