(* ===== verification/ContractUpdaterSpec.thy ===== *)
theory ContractUpdaterSpec
  imports ContractUpdater ContractSpec
begin

text \<open>
  What the steps of a contract guarantee: an honest acceptance of a loan is verified and signed by the lender, who gets the
  same transactions, adaptor infos and contract id; the borrower then verifies the signatures of the lender; and the
  attestations of the oracles give either party an execution transaction with a valid signature of the other.
\<close>

section \<open>Honest signing\<close>

text \<open>What is relied on of the signature library for a secret key, and of a signer: its keys belong together.\<close>

definition signing_laws :: "secp \<Rightarrow> bytes \<Rightarrow> bool" where
  "signing_laws S sk \<longleftrightarrow> sound_encryption S sk \<and> (\<forall>h. verify_ecdsa S h (sign_ecdsa S h sk) (pk_of S sk) = Inr ())"

definition signer_laws :: "secp \<Rightarrow> outside \<Rightarrow> bool" where
  "signer_laws S W \<longleftrightarrow> (\<forall>signer sk. signer_secret_key W signer = Inr sk \<longrightarrow>
     signer_public_key W signer = Inr (pk_of S sk) \<and> signing_laws S sk)"

text \<open>A condition that its oracles can decide, and that has signatures.\<close>

definition decidable_info :: "btc \<Rightarrow> secp \<Rightarrow> ContractInfo \<Rightarrow> bool" where
  "decidable_info B S ci \<longleftrightarrow> 0 < ci_threshold ci \<and> ci_threshold ci \<le> length (oracle_announcements ci) \<and>
     (\<forall>T sk spk v txs start info. get_adaptor_info B S ci T sk spk v txs start \<noteq> pok (info, []))"

lemma combs_nonempty: "0 < k \<Longrightarrow> k \<le> n \<Longrightarrow> combs 0 n k \<noteq> []"
  using length_combs[of k 0 n] zero_less_binomial[of k n] by (metis diff_zero length_0_conv less_numeral_extra(3))

lemma decidable_enum:
  assumes "contract_descriptor ci = EnumContract e" "e \<noteq> []" "0 < ci_threshold ci" "ci_threshold ci \<le> length (oracle_announcements ci)"
  shows "decidable_info B S ci"
proof -
  let ?infos = "get_oracle_infos ci"
  have len: "ci_threshold ci \<le> length ?infos" using assms(4) by (simp add: get_oracle_infos_def)
  have "enum_slots B e (ci_threshold ci) (combs 0 (length ?infos) (ci_threshold ci)) \<noteq> []"
    using combs_nonempty[OF assms(3) len] assms(2) by (cases e; cases "combs 0 (length ?infos) (ci_threshold ci)") (simp_all add: upt_conv_Cons del: upt_Suc)
  then have "enum_sign B S e ?infos (ci_threshold ci) txs sk spk v \<noteq> pok []" for txs sk spk v
    using enum_sign_slots[OF assms(3) len, of B S e txs sk spk v "[]"] by auto
  then show ?thesis using assms by (auto simp: decidable_info_def get_adaptor_info_def)
qed

lemma raw_sig_verifies:
  "signing_laws S sk \<Longrightarrow> get_raw_sig_for_tx_input S tx i spk v sk = Inr sig \<Longrightarrow> verify_tx_input_sig S sig tx i spk v (pk_of S sk) = Inr ()"
  by (auto simp: get_raw_sig_for_tx_input_def verify_tx_input_sig_def signing_laws_def)

section \<open>An honest acceptance is verified\<close>

lemma accept_later_prefix:
  "accept_later_infos B S oc accept inp sk spk v rest txs infos sigs = pok (txs', infos', sigs') \<Longrightarrow> \<exists>more. sigs' = sigs @ more"
  by (induction rest arbitrary: txs infos sigs) (force simp: Let_def split_def)+

lemma later_infos_verify:
  assumes "accept_later_infos B S oc accept inp sk spk v rest txs infos sigs = pok (txs', infos', sigs')"
    "sound_encryption S sk" "fund_pubkey accept = pk_of S sk" "\<forall>ci \<in> set rest. decidable_info B S ci" "length sigs' < u64_bound"
  shows "verify_later_infos B S oc accept inp (total_collateral oc) spk v sigs' rest txs infos (length sigs) = pok (txs', infos')"
  using assms(1,4)
proof (induction rest arbitrary: txs infos sigs)
  case (Cons ci rest)
  obtain payouts info sig where p: "get_payouts ci (total_collateral oc) = pok payouts"
      "get_adaptor_info B S ci (total_collateral oc) sk spk v (later_cets oc accept inp payouts) (length sigs) = pok (info, sig)"
      "accept_later_infos B S oc accept inp sk spk v rest (txs @ later_cets oc accept inp payouts) (infos @ [info]) (sigs @ sig) = pok (txs', infos', sigs')"
    using Cons.prems(1) by (auto simp: Let_def)
  obtain more where more: "sigs' = (sigs @ sig) @ more" using accept_later_prefix[OF p(3)] by blast
  have d: "decidable_info B S ci" using Cons.prems(2) by simp
  then have ne: "sig \<noteq> []" using p(2) unfolding decidable_info_def by blast
  have "verify_and_get_adaptor_info B S ci (total_collateral oc) (pk_of S sk) spk v (later_cets oc accept inp payouts) (sigs @ sig @ more) (length sigs) =
      pok (info, length sigs + length sig)"
    using adaptor_signatures_verify[OF p(2) assms(2) ne] d assms(5) more by (simp add: decidable_info_def)
  then show ?case using p(1) Cons.IH[OF p(3)] Cons.prems(2) more by (simp add: assms(3) Let_def)
qed simp

definition honest_terms :: "btc \<Rightarrow> secp \<Rightarrow> OfferedContract \<Rightarrow> PartyParams \<Rightarrow> bool" where
  "honest_terms B S oc accept \<longleftrightarrow> collateral (offer_params oc) + collateral accept = total_collateral oc \<and>
     total_collateral oc < u64_bound \<and> (\<forall>ci \<in> set (contract_info oc). decidable_info B S ci)"

text \<open>All that is left to do after an honest acceptance is the own signing.\<close>

lemma accepted_then_signed:
  assumes "accept_contract_internal B S oc accept inputs sk v None t = pok (a, sigs)"
    "signing_laws S sk" "fund_pubkey accept = pk_of S sk" "honest_terms B S oc accept" "length sigs < u64_bound"
    "own_signatures B S (contract_info oc) (adaptor_infos a) (Inr own_sk) (funding_script_pubkey t) v (cets (ac_transactions a)) = pok own"
  shows "\<exists>s. verify_accepted_and_sign_contract_internal B S oc accept inputs (accept_refund_signature a) sigs v (Inr own_sk) None None t channel = pok (s, own) \<and>
    accepted_contract s = a\<lparr>ac_adaptor_signatures := Some sigs\<rparr> \<and> sc_adaptor_signatures s = None \<and>
    get_raw_sig_for_tx_input S (refund t) 0 (funding_script_pubkey t) v own_sk = Inr (offer_refund_signature s)"
proof -
  let ?spk = "funding_script_pubkey t"
  obtain info sig txs infos refund_sig where run: "0 < length (cets t)" "0 < length (tx_input (cets t ! 0))" "0 < length (contract_info oc)"
      "get_adaptor_info B S (contract_info oc ! 0) (total_collateral oc) sk ?spk v (cets t) 0 = pok (info, sig)"
      "accept_later_infos B S oc accept (tx_input (cets t ! 0) ! 0) sk ?spk v (drop 1 (contract_info oc)) (cets t) [info] sig = pok (txs, infos, sigs)"
      "get_raw_sig_for_tx_input S (refund t) 0 ?spk v sk = Inr refund_sig"
    and a: "a = \<lparr>ac_offered_contract = oc, accept_params = accept, ac_funding_inputs = inputs, adaptor_infos = infos,
             ac_adaptor_signatures = None, accept_refund_signature = refund_sig, ac_transactions = t\<lparr>cets := txs\<rparr>\<rparr>"
    using assms(1) by (auto simp: accept_contract_internal_def input_script_def bind_eq_Some_conv Let_def split: sum.splits)
  have sound: "sound_encryption S sk" using assms(2) by (simp add: signing_laws_def)
  have cis: "contract_info oc ! 0 \<in> set (contract_info oc)" "set (drop 1 (contract_info oc)) \<subseteq> set (contract_info oc)"
    using run(3) by (simp_all add: set_drop_subset)
  then have d: "decidable_info B S (contract_info oc ! 0)" "\<forall>ci \<in> set (drop 1 (contract_info oc)). decidable_info B S ci"
    using assms(4) unfolding honest_terms_def by blast+
  obtain more where more: "sigs = sig @ more" using accept_later_prefix[OF run(5)] by blast
  have ne: "sig \<noteq> []" using run(4) d(1) unfolding decidable_info_def by blast
  have first: "verify_and_get_adaptor_info B S (contract_info oc ! 0) (total_collateral oc) (pk_of S sk) ?spk v (cets t) sigs 0 = pok (info, length sig)"
    using adaptor_signatures_verify[of B S "contract_info oc ! 0" "total_collateral oc" sk ?spk v "cets t" "[]" info sig more] run(4) sound ne d(1) assms(5) more
    by (simp add: decidable_info_def)
  note later = later_infos_verify[OF run(5) sound assms(3) d(2) assms(5)]
  obtain h where h: "get_sig_hash_msg S (refund t) 0 ?spk v = Inr h" using run(6) by (auto simp: get_raw_sig_for_tx_input_def)
  show ?thesis
    using raw_sig_verifies[OF assms(2) run(6)] first later assms(3,4,6) run(1-3) h
    by (auto simp: verify_accepted_and_sign_contract_internal_def input_script_def Let_def a honest_terms_def
        get_raw_sig_for_tx_input_def)
qed

section \<open>The handshake of a loan\<close>

text \<open>The encoding of a transaction of the block chain is read back.\<close>

definition codec_laws :: "tx_codec \<Rightarrow> outside \<Rightarrow> bool" where
  "codec_laws K W \<longleftrightarrow> (\<forall>i tx. chain_transaction W i = Inr tx \<longrightarrow> consensus_decode K (consensus_encode K tx) = Inr tx)"

text \<open>The id of a transaction does not depend on its witnesses (BIP 141).\<close>

definition txid_ignores_witness :: "btc \<Rightarrow> bool" where
  "txid_ignores_witness B \<longleftrightarrow> (\<forall>tx i w tx'. set_witness tx i w = Some tx' \<longrightarrow> compute_txid B tx' = compute_txid B tx)"

lemma fund_utxos_infos:
  "codec_laws K W \<Longrightarrow> fund_utxos B K W us k fs infos tot = pok (fs', infos', tot') \<Longrightarrow>
   \<exists>fs2 infos2. fs' = fs @ fs2 \<and> infos' = infos @ infos2 \<and> (\<forall>acc. tx_input_infos_loop B K fs2 tot acc = pok (acc @ infos2, tot'))"
proof (induction us arbitrary: k fs infos tot)
  case (Cons u us)
  obtain tx where tx: "chain_transaction W (txid (utxo_outpoint u)) = Inr tx" using Cons.prems(2) by (auto simp: Let_def)
  let ?f = "\<lparr>fi_serial_id = serial_ids W k, prev_tx = consensus_encode K tx, prev_tx_vout = vout (utxo_outpoint u),
           fi_sequence = 0xffffffff, fi_max_witness_len = 107, fi_redeem_script = utxo_redeem_script u\<rparr>"
  let ?i = "\<lparr>ii_outpoint = \<lparr>txid = compute_txid B tx, vout = vout (utxo_outpoint u)\<rparr>, max_witness_len = 107,
      redeem_script = utxo_redeem_script u, ii_serial_id = serial_ids W k\<rparr>"
  have dec: "consensus_decode K (consensus_encode K tx) = Inr tx" using Cons.prems(1) tx unfolding codec_laws_def by blast
  then have info: "to_tx_input_info B K ?f = Some ?i" by (simp add: to_tx_input_info_def)
  have o: "vout (utxo_outpoint u) < length (tx_output tx)" and s: "tot + txo_value (tx_output tx ! vout (utxo_outpoint u)) < u64_bound"
    and rest: "fund_utxos B K W us (k + 1) (fs @ [?f]) (infos @ [?i]) (tot + txo_value (tx_output tx ! vout (utxo_outpoint u))) = pok (fs', infos', tot')"
    using Cons.prems(2) tx info by (auto simp: Let_def bind_eq_Some_conv)
  obtain fs2 infos2 where h: "fs' = (fs @ [?f]) @ fs2" "infos' = (infos @ [?i]) @ infos2"
      "\<forall>acc. tx_input_infos_loop B K fs2 (tot + txo_value (tx_output tx ! vout (utxo_outpoint u))) acc = pok (acc @ infos2, tot')"
    using Cons.IH[OF Cons.prems(1) rest] by blast
  show ?case using h o s dec by (intro exI[of _ "?f # fs2"] exI[of _ "?i # infos2"]) (simp add: decode_tx_def)
qed simp

lemma party_params_inputs:
  assumes "codec_laws K W" "get_party_params B K W c rate signer = pok (accept, inputs)"
  shows "get_tx_input_infos B K inputs = pok (pp_inputs accept, input_amount accept)" "collateral accept = c"
    "signer_public_key W signer = Inr (fund_pubkey accept)"
proof -
  obtain us k infos tot where f: "fund_utxos B K W us k [] [] 0 = pok (inputs, infos, tot)" "pp_inputs accept = infos" "input_amount accept = tot"
      "collateral accept = c" "signer_public_key W signer = Inr (fund_pubkey accept)"
    using assms(2) by (auto simp: get_party_params_def bind_eq_Some_conv)
  show "get_tx_input_infos B K inputs = pok (pp_inputs accept, input_amount accept)"
    using fund_utxos_infos[OF assms(1) f(1)] f(2,3) by (auto simp: get_tx_input_infos_def)
  show "collateral accept = c" "signer_public_key W signer = Inr (fund_pubkey accept)" using f(4,5) by simp_all
qed

text \<open>The parts of a successful acceptance of a loan.\<close>

lemma accepted_loan:
  assumes "accept_loan_contract B S K W l escrow bhash preimage = pok (a, m)"
  obtains signer sk unsigned_tx wit accept inputs payouts t fund_out sigs ac where
    "derive_contract_signer W (keys_id (offered_contract l)) = Inr signer" "signer_secret_key W signer = Inr sk"
    "set_witness unsigned_tx 0 wit = Some (al_signed_escrow_spend_tx m)"
    "get_party_params B K W (total_collateral (offered_contract l)) (fee_rate_per_vb (offered_contract l)) signer = pok (accept, inputs)"
    "contract_info (offered_contract l) \<noteq> []"
    "get_payouts (contract_info (offered_contract l) ! 0) (total_collateral (offered_contract l)) = pok payouts"
    "create_loan_expiration_dlc_transactions B (offer_params (offered_contract l)) accept payouts (refund_locktime (offered_contract l))
       (cet_locktime (offered_contract l)) (al_signed_escrow_spend_tx m) (al_collateral_spk m) = pok t"
    "get_fund_output B t = Some fund_out"
    "accept_contract_internal B S (offered_contract l) accept inputs sk (txo_value fund_out) None t = pok (ac, sigs)"
    "to_accepted_contract a = ac" "al_cet_adaptor_signatures m = sigs"
    "to_accept_dlc m = get_accept_contract_msg ac sigs"
proof -
  let ?oc = "offered_contract l"
  obtain signer sk unsigned_tx wit accept inputs payouts t fund_out sigs amt collateral_tx collateral_spk where r:
    "derive_contract_signer W (keys_id ?oc) = Inr signer" "signer_secret_key W signer = Inr sk"
    "set_witness unsigned_tx 0 wit = Some collateral_tx"
    "get_party_params B K W (total_collateral ?oc) (fee_rate_per_vb ?oc) signer = pok (accept, inputs)"
    "contract_info ?oc \<noteq> []"
    "get_payouts (contract_info ?oc ! 0) (total_collateral ?oc) = pok payouts"
    "create_loan_expiration_dlc_transactions B (offer_params ?oc) accept payouts (refund_locktime ?oc) (cet_locktime ?oc) collateral_tx collateral_spk = pok t"
    "get_fund_output B t = Some fund_out"
    "accept_loan_contract_internal B S l accept inputs sk (txo_value fund_out) None t escrow bhash collateral_tx = pok (a, sigs)"
    "m = get_accept_loan_msg a sigs amt (make_loan_escrow_after_codesep_script B (fund_pubkey (offer_params ?oc)) bhash) collateral_spk"
    using assms by (auto simp: accept_loan_contract_def Let_def bind_eq_Some_conv)
  have spend: "signed_escrow_spend_tx a = collateral_tx" and internal:
      "accept_contract_internal B S ?oc accept inputs sk (txo_value fund_out) None t = pok (to_accepted_contract a, sigs)"
    using r(9) by (auto simp: accept_loan_contract_internal_def accept_contract_internal_def input_script_def Let_def bind_eq_Some_conv to_accepted_contract_def)
  show thesis
    by (rule that[OF r(1,2) _ r(4) _ r(6) _ r(8) internal])
       (use r(3,5,7,10) spend in \<open>simp_all add: get_accept_loan_msg_def to_accept_dlc_def get_accept_contract_msg_def to_accepted_contract_def\<close>)
qed

text \<open>The counter party's copy of an offer, and the transactions of a loan, which do not depend on the witness of the escrow input.\<close>

definition counter_copy :: "OfferedContract \<Rightarrow> pubkey \<Rightarrow> bytes \<Rightarrow> OfferedContract" where
  "counter_copy oc cp keys = oc\<lparr>is_offer_party := False, counter_party := cp, keys_id := keys\<rparr>"

lemma counter_copy_simps [simp]:
  "contract_info (counter_copy oc cp keys) = contract_info oc" "offer_params (counter_copy oc cp keys) = offer_params oc"
  "total_collateral (counter_copy oc cp keys) = total_collateral oc" "refund_locktime (counter_copy oc cp keys) = refund_locktime oc"
  "cet_locktime (counter_copy oc cp keys) = cet_locktime oc" "oc_id (counter_copy oc cp keys) = oc_id oc"
  "fee_rate_per_vb (counter_copy oc cp keys) = fee_rate_per_vb oc" "keys_id (counter_copy oc cp keys) = keys"
  by (simp_all add: counter_copy_def)

lemma accept_copy:
  assumes "accept_contract_internal B S (counter_copy oc cp keys) accept inputs sk v None t = pok (ac, sigs)"
  shows "accept_contract_internal B S oc accept inputs sk v None t = pok (ac\<lparr>ac_offered_contract := oc\<rparr>, sigs)"
proof -
  have "accept_later_infos B S (counter_copy oc cp keys) accept inp sk spk v rest txs infos sigs = accept_later_infos B S oc accept inp sk spk v rest txs infos sigs"
    for inp spk rest txs infos sigs
    by (induction rest arbitrary: txs infos sigs) (simp_all add: later_cets_def cong: pbind_cong)
  then show ?thesis using assms by (auto simp: accept_contract_internal_def Let_def bind_eq_Some_conv input_script_def)
qed

lemma loan_transactions_witness:
  assumes "set_witness tx0 0 w = Some tx" "txid_ignores_witness B"
  shows "create_loan_expiration_dlc_transactions B offer accept payouts rlt clt tx spk =
    create_loan_expiration_dlc_transactions B offer accept payouts rlt clt tx0 spk"
proof -
  have "compute_txid B tx = compute_txid B tx0" using assms unfolding txid_ignores_witness_def by blast
  moreover obtain i ins where "tx_input tx0 = i # ins" "tx = tx0\<lparr>tx_input := i\<lparr>witness := w\<rparr> # ins\<rparr>"
    using assms(1) by (cases "tx_input tx0") (auto simp: set_witness_def vget_def)
  ultimately show ?thesis by (simp add: create_loan_expiration_dlc_transactions_def)
qed

lemma fund_output_cets [simp]: "get_fund_output B (t\<lparr>cets := x\<rparr>) = get_fund_output B t" "get_fund_output_index B (t\<lparr>cets := x\<rparr>) = get_fund_output_index B t"
  by (simp_all add: get_fund_output_def get_fund_output_index_def)

lemma fund_output_id:
  "get_fund_output B (ac_transactions a) = Some fund_out \<Longrightarrow> \<exists>i. get_contract_id B a = Some i"
  by (auto simp: get_fund_output_def get_contract_id_def transactions_id_def get_fund_output_index_def)

lemma honest_loan_signed:
  assumes "accept_loan_contract B S K Wb l escrow bhash preimage = pok (a, m)" "offered_contract l = counter_copy oc cp keys"
    "collateral (offer_params oc) = 0" "total_collateral oc < u64_bound" "\<forall>ci \<in> set (contract_info oc). decidable_info B S ci"
    "length (al_cet_adaptor_signatures m) < u64_bound" "signer_laws S Wb" "codec_laws K Wb" "txid_ignores_witness B"
    "set_witness (al_signed_escrow_spend_tx m) 0 wit = Some tx"
    "derive_contract_signer Wl (keys_id oc) = Inr signer" "signer_secret_key Wl signer = Inr sk"
    "get_fund_output B (alc_transactions a) = Some fund_out"
    "own_signatures B S (contract_info oc) (alc_adaptor_infos a) (Inr sk) (funding_script_pubkey (alc_transactions a)) (txo_value fund_out)
       (cets (alc_transactions a)) = pok own"
  shows "\<exists>s msg. verify_accepted_and_sign_loan_contract B S K Wl oc (to_accept_dlc m) tx (al_collateral_spk m) = pok (s, msg) \<and>
    accepted_contract s = (to_accepted_contract a)\<lparr>ac_offered_contract := oc, ac_adaptor_signatures := Some (al_cet_adaptor_signatures m)\<rparr> \<and>
    sd_cet_adaptor_signatures msg = own \<and> Some (sd_contract_id msg) = get_loan_contract_id B a \<and>
    get_raw_sig_for_tx_input S (refund (alc_transactions a)) 0 (funding_script_pubkey (alc_transactions a)) (txo_value fund_out) sk = Inr (sd_refund_signature msg)"
proof -
  obtain bsigner bsk unsigned bwit accept inputs payouts t fo ac sigs where r:
    "signer_secret_key Wb bsigner = Inr bsk"
    "get_party_params B K Wb (total_collateral oc) (fee_rate_per_vb oc) bsigner = pok (accept, inputs)"
    "contract_info oc \<noteq> []" "get_payouts (contract_info oc ! 0) (total_collateral oc) = pok payouts"
    "create_loan_expiration_dlc_transactions B (offer_params oc) accept payouts (refund_locktime oc) (cet_locktime oc)
       (al_signed_escrow_spend_tx m) (al_collateral_spk m) = pok t"
    "get_fund_output B t = Some fo"
    "accept_contract_internal B S (counter_copy oc cp keys) accept inputs bsk (txo_value fo) None t = pok (ac, sigs)"
    "to_accepted_contract a = ac" "al_cet_adaptor_signatures m = sigs" "to_accept_dlc m = get_accept_contract_msg ac sigs"
    using accepted_loan[OF assms(1), unfolded assms(2) counter_copy_simps] by metis
  have laws: "signing_laws S bsk" "fund_pubkey accept = pk_of S bsk"
    using assms(7) r(1) party_params_inputs(3)[OF assms(8) r(2)] unfolding signer_laws_def by auto
  have terms: "honest_terms B S oc accept"
    using assms(3-5) party_params_inputs(2)[OF assms(8) r(2)] by (simp add: honest_terms_def)
  note acc = accept_copy[OF r(7)]
  obtain txs where ac: "accept_params ac = accept" "ac_funding_inputs ac = inputs" "ac_transactions ac = t\<lparr>cets := txs\<rparr>"
      "ac_adaptor_signatures ac = None" "ac_offered_contract ac = counter_copy oc cp keys"
    using r(7) by (auto simp: accept_contract_internal_def input_script_def Let_def bind_eq_Some_conv)
  have a: "alc_transactions a = t\<lparr>cets := txs\<rparr>" "alc_adaptor_infos a = adaptor_infos ac"
    using r(8) ac(3) by (auto simp: to_accepted_contract_def)
  have fo: "fo = fund_out" using assms(13) r(6) a(1) by simp
  have own: "own_signatures B S (contract_info oc) (adaptor_infos (ac\<lparr>ac_offered_contract := oc\<rparr>)) (Inr sk) (funding_script_pubkey t) (txo_value fo)
      (cets (ac_transactions (ac\<lparr>ac_offered_contract := oc\<rparr>))) = pok own"
    using assms(14) a ac(3) fo by simp
  obtain s where s: "verify_accepted_and_sign_contract_internal B S oc accept inputs (accept_refund_signature ac) sigs (txo_value fo) (Inr sk) None None t None = pok (s, own)"
      "accepted_contract s = ac\<lparr>ac_offered_contract := oc, ac_adaptor_signatures := Some sigs\<rparr>"
      "get_raw_sig_for_tx_input S (refund t) 0 (funding_script_pubkey t) (txo_value fo) sk = Inr (offer_refund_signature s)"
    using accepted_then_signed[OF acc laws terms _ own, of None] assms(6) r(9) by auto
  have params: "accept_params_of B K (to_accept_dlc m) = pok accept"
    using party_params_inputs(1)[OF assms(8) r(2)] ac(1,2) unfolding r(10)
    by (simp add: accept_params_of_def get_accept_contract_msg_def map_err_def)
  have id: "get_contract_id B (accepted_contract s) = get_loan_contract_id B a"
    using ac(3,5) a(1) arg_cong[OF r(8), of "\<lambda>x. oc_id (ac_offered_contract x)"]
    by (simp add: s(2) get_contract_id_def get_loan_contract_id_def to_accepted_contract_def)
  obtain i where i: "get_contract_id B (accepted_contract s) = Some i"
    using fund_output_id[of B "accepted_contract s" fo] s(2) ac(3) r(6) by auto
  have "verify_accepted_and_sign_loan_contract B S K Wl oc (to_accept_dlc m) tx (al_collateral_spk m) =
      sign_accepted B S Wl oc accept (to_accept_dlc m) t"
    using params r(3-5) loan_transactions_witness[OF assms(10,9)] by (simp add: verify_accepted_and_sign_loan_contract_def map_err_def)
  also have "\<dots> = obind (get_sign_dlc B s own) (\<lambda>msg. pok (s, msg))"
    using r(6) s(1) ac(2) assms(11,12) unfolding r(10) by (simp add: sign_accepted_def get_accept_contract_msg_def)
  finally show ?thesis using s(2,3) r(8,9) i id i[unfolded id] a(1) fo by (intro exI[of _ s]) (simp add: get_sign_dlc_def)
qed

text \<open>
  C15: The lender who receives an honest acceptance of a loan verifies and signs it, whatever the number and kind of its
  conditions, when the own signatures can be made: the contract it stores has the transactions, adaptor infos and
  parameters of the borrower's, though the lender has added its signature to the escrow input and kept its own copy of the
  offer, and the message it answers has the id under which the borrower stores the contract.
\<close>

theorem loan_acceptance_is_signed:
  assumes "accept_loan_contract B S K Wb l escrow bhash preimage = pok (a, m)" "offered_contract l = counter_copy oc cp keys"
    "collateral (offer_params oc) = 0" "total_collateral oc < u64_bound" "\<forall>ci \<in> set (contract_info oc). decidable_info B S ci"
    "length (al_cet_adaptor_signatures m) < u64_bound" "signer_laws S Wb" "codec_laws K Wb" "txid_ignores_witness B"
    "set_witness (al_signed_escrow_spend_tx m) 0 wit = Some tx"
    "derive_contract_signer Wl (keys_id oc) = Inr signer" "signer_secret_key Wl signer = Inr sk"
    "get_fund_output B (alc_transactions a) = Some fund_out"
    "own_signatures B S (contract_info oc) (alc_adaptor_infos a) (Inr sk) (funding_script_pubkey (alc_transactions a)) (txo_value fund_out)
       (cets (alc_transactions a)) = pok own"
  shows "\<exists>s msg. verify_accepted_and_sign_loan_contract B S K Wl oc (to_accept_dlc m) tx (al_collateral_spk m) = pok (s, msg) \<and>
    accepted_contract s = (to_accepted_contract a)\<lparr>ac_offered_contract := oc, ac_adaptor_signatures := Some (al_cet_adaptor_signatures m)\<rparr> \<and>
    sd_cet_adaptor_signatures msg = own \<and> Some (sd_contract_id msg) = get_loan_contract_id B a"
  using honest_loan_signed[OF assms] by blast

text \<open>Where one party can sign an enumerated condition, so can the other.\<close>

lemma enum_sign_other:
  assumes "enum_sign B S e infos thr txs sk spk v = pok sigs" "0 < thr" "thr \<le> length infos"
  shows "\<exists>sigs'. enum_sign B S e infos thr txs sk' spk v = pok sigs' \<and> length sigs' = length sigs"
proof -
  let ?slots = "enum_slots B e thr (combs 0 (length infos) thr)"
  have all: "list_all2 (slot_sig S infos txs sk spk v) ?slots sigs" using assms enum_sign_slots by blast
  have step: "\<exists>sig'. slot_sig S infos txs sk' spk v slot sig'" if "slot_sig S infos txs sk spk v slot sig" for slot sig
    using that by (auto simp: slot_sig_def create_cet_adaptor_sig_from_point_def split: prod.splits)
  have "\<exists>sigs'. list_all2 (slot_sig S infos txs sk' spk v) slots sigs' \<and> length sigs' = length ss"
    if "list_all2 (slot_sig S infos txs sk spk v) slots ss" for slots ss
    using that
  proof (induction slots arbitrary: ss)
    case (Cons slot slots)
    obtain x xs where ss: "ss = x # xs" "slot_sig S infos txs sk spk v slot x" "list_all2 (slot_sig S infos txs sk spk v) slots xs"
      using Cons.prems by (auto simp: list_all2_Cons1)
    obtain y where "slot_sig S infos txs sk' spk v slot y" using step[OF ss(2)] by blast
    moreover obtain ys where "list_all2 (slot_sig S infos txs sk' spk v) slots ys" "length ys = length xs"
      using Cons.IH[OF ss(3)] by blast
    ultimately show ?case using ss(1) by (intro exI[of _ "y # ys"]) simp
  qed simp
  from this[OF all] show ?thesis using enum_sign_slots[OF assms(2,3)] by blast
qed

lemma enum_sign_verifies:
  assumes "enum_sign B S e infos thr txs sk spk v = pok sigs" "0 < thr" "thr \<le> length infos" "sound_encryption S sk" "length sigs < u64_bound"
  shows "enum_verify B S e infos thr (pk_of S sk) spk v txs sigs 0 = pok (length sigs)"
  using verify_points[OF assms(4), of infos txs spk v _ sigs "[]" "[]"] assms(1,5) enum_sign_slots[OF assms(2,3)]
  by (simp add: enum_verify_def iter_outcomes_run[OF assms(2,3)])

text \<open>
  C13: The handshake of a loan on an enumerated event always completes: after an honest acceptance of the borrower, the
  lender verifies it and signs, and the borrower verifies the lender's signatures. Then both hold a signed contract with
  the same transactions, each with the adaptor signatures of the other, and the borrower finds its own under the id in the
  lender's message.
\<close>

theorem enum_loan_handshake:
  assumes "accept_loan_contract B S K Wb l escrow bhash preimage = pok (a, m)" "offered_contract l = counter_copy oc cp keys"
    "collateral (offer_params oc) = 0" "total_collateral oc < u64_bound" "contract_info oc = [ci]"
    "contract_descriptor ci = EnumContract e" "e \<noteq> []" "0 < ci_threshold ci" "ci_threshold ci \<le> length (oracle_announcements ci)"
    "length (al_cet_adaptor_signatures m) < u64_bound" "signer_laws S Wb" "codec_laws K Wb" "txid_ignores_witness B"
    "set_witness (al_signed_escrow_spend_tx m) 0 wit = Some tx"
    "derive_contract_signer Wl (keys_id oc) = Inr signer" "signer_secret_key Wl signer = Inr sk" "signing_laws S sk"
    "fund_pubkey (offer_params oc) = pk_of S sk"
  shows "\<exists>s msg s'. verify_accepted_and_sign_loan_contract B S K Wl oc (to_accept_dlc m) tx (al_collateral_spk m) = pok (s, msg) \<and>
    Some (sd_contract_id msg) = get_loan_contract_id B a \<and>
    verify_signed_contract B S (to_accepted_contract a) msg = pok (s', fund (alc_transactions a)) \<and>
    ac_transactions (accepted_contract s) = alc_transactions a \<and> ac_transactions (accepted_contract s') = alc_transactions a \<and>
    ac_adaptor_signatures (accepted_contract s) = Some (al_cet_adaptor_signatures m) \<and>
    sc_adaptor_signatures s' = Some (sd_cet_adaptor_signatures msg)"
proof -
  let ?infos = "get_oracle_infos ci" and ?thr = "ci_threshold ci" and ?t = "alc_transactions a"
  let ?spk = "funding_script_pubkey ?t"
  have len: "?thr \<le> length ?infos" using assms(9) by (simp add: get_oracle_infos_def)
  obtain bsk accept inputs t fo ac sigs where r:
    "get_fund_output B t = Some fo" "accept_contract_internal B S (counter_copy oc cp keys) accept inputs bsk (txo_value fo) None t = pok (ac, sigs)"
    "to_accepted_contract a = ac" "al_cet_adaptor_signatures m = sigs"
    using accepted_loan[OF assms(1), unfolded assms(2)] by metis
  have ac: "ac_transactions ac = t" "adaptor_infos ac = [EnumInfo]" "ac_offered_contract ac = counter_copy oc cp keys"
    and esign: "enum_sign B S e ?infos ?thr (cets t) bsk (funding_script_pubkey t) (txo_value fo) = pok sigs"
    using r(2) by (auto simp: accept_contract_internal_def input_script_def Let_def bind_eq_Some_conv assms(5,6) get_adaptor_info_def)
  have t: "?t = t" "alc_adaptor_infos a = [EnumInfo]" using arg_cong[OF r(3), of ac_transactions] arg_cong[OF r(3), of adaptor_infos] ac by (simp_all add: to_accepted_contract_def)
  obtain own where own: "enum_sign B S e ?infos ?thr (cets t) sk (funding_script_pubkey t) (txo_value fo) = pok own" "length own = length sigs"
    using enum_sign_other[OF esign assms(8) len] by blast
  have own_signs: "own_signatures B S (contract_info oc) (alc_adaptor_infos a) (Inr sk) ?spk (txo_value fo) (cets ?t) = pok own"
    using own(1) by (simp add: own_signatures_def get_adaptor_signatures_def assms(5,6) t)
  have dec: "\<forall>ci \<in> set (contract_info oc). decidable_info B S ci" using decidable_enum[OF assms(6-9)] by (simp add: assms(5))
  obtain s msg where s: "verify_accepted_and_sign_loan_contract B S K Wl oc (to_accept_dlc m) tx (al_collateral_spk m) = pok (s, msg)"
      "accepted_contract s = ac\<lparr>ac_offered_contract := oc, ac_adaptor_signatures := Some sigs\<rparr>"
      "sd_cet_adaptor_signatures msg = own" "Some (sd_contract_id msg) = get_loan_contract_id B a"
      "get_raw_sig_for_tx_input S (refund t) 0 (funding_script_pubkey t) (txo_value fo) sk = Inr (sd_refund_signature msg)"
    using honest_loan_signed[OF assms(1-4) dec assms(10-16) _ own_signs] r(1,3,4) by (auto simp: t(1))
  have "enum_verify B S e ?infos ?thr (pk_of S sk) (funding_script_pubkey t) (txo_value fo) (cets t) own 0 = pok (length own)"
    using enum_sign_verifies[OF own(1) assms(8) len] assms(10,17) own(2) r(4) by (simp add: signing_laws_def)
  moreover note raw_sig_verifies[OF assms(17) s(5)]
  ultimately obtain s' where "verify_signed_contract B S ac msg = pok (s', fund t)" "accepted_contract s' = ac" "sc_adaptor_signatures s' = Some own"
    using r(1) by (simp add: verify_signed_contract_def verify_signed_contract_internal_def input_script_def Let_def ac assms(5,6,18)
        s(3) verify_adaptor_info_def)
  then show ?thesis using s(1-4) r(3,4) ac t by (intro exI[of _ s] exI[of _ msg] exI[of _ s']) auto
qed

section \<open>Closing\<close>

lemma sorted_restrict:
  fixes xs :: "(nat \<times> 'a) list"
  assumes "sorted_wrt (<) (map fst xs)" "sorted_wrt (<) sel" "set sel \<subseteq> fst ` set xs"
  shows "map fst (filter (\<lambda>x. fst x \<in> set sel) xs) = sel"
proof (rule sorted_distinct_set_unique)
  have "sorted_wrt (<) (map fst (filter (\<lambda>x. fst x \<in> set sel) xs))" using assms(1) by (simp add: sorted_wrt_map sorted_wrt_filter)
  then show "sorted (map fst (filter (\<lambda>x. fst x \<in> set sel) xs))" "distinct (map fst (filter (\<lambda>x. fst x \<in> set sel) xs))"
    by (simp_all add: strict_sorted_iff)
  show "sorted sel" "distinct sel" using assms(2) by (simp_all add: strict_sorted_iff)
  show "set (map fst (filter (\<lambda>x. fst x \<in> set sel) xs)) = set sel" using assms(3) by force
qed

lemma map_filter_if: "List.map_filter (\<lambda>x. if P x then Some (f x) else None) xs = map f (filter P xs)"
  by (simp add: List.map_filter_def comp_def cong: filter_cong)

lemma selected_oracles_sorted:
  assumes "sorted_wrt (<) sel" "set sel \<subseteq> {..<length infos}"
  shows "selected_oracles infos sel = map ((!) infos) sel"
proof -
  let ?zs = "zip [0..<length infos] infos"
  have "map fst (filter (\<lambda>x. fst x \<in> set sel) ?zs) = sel"
    by (rule sorted_restrict) (use assms in \<open>simp_all add: atLeast0LessThan flip: set_map\<close>)
  moreover have "map snd (filter (\<lambda>x. fst x \<in> set sel) ?zs) = map ((!) infos) (map fst (filter (\<lambda>x. fst x \<in> set sel) ?zs))"
    by (auto simp: set_zip)
  moreover have "selected_oracles infos sel = map snd (filter (\<lambda>x. fst x \<in> set sel) ?zs)"
    unfolding selected_oracles_def by (subst map_filter_if[symmetric]) (simp add: case_prod_unfold)
  ultimately show ?thesis by simp
qed

lemma find_pair: "List.find (\<lambda>x. fst x = i) (map (\<lambda>i. (i, n)) sel) = (if i \<in> set sel then Some (i, n) else None)"
  by (induction sel) auto

text \<open>The oracle signatures of a closing: those of the oracles of the combination, in order.\<close>

lemma closing_oracle_sigs:
  assumes "get_range_info_and_oracle_sigs H ci EnumInfo attestations = pok (r, osigs)" "contract_descriptor ci = EnumContract e"
    "fair_orders H" "0 < ci_threshold ci" "sorted_wrt (<) (map fst attestations)"
    "fst ` set attestations \<subseteq> {..<length (oracle_announcements ci)}"
  obtains outcome sel where
    "ci_threshold ci \<le> length (oracle_announcements ci)" "length sel = ci_threshold ci" "sorted_wrt (<) sel" "set sel \<subseteq> {..<length (oracle_announcements ci)}"
    "cet_index r < length e" "ep_outcome (e ! cet_index r) = outcome"
    "adaptor_index r < length (enum_slots B e (ci_threshold ci) (combs 0 (length (oracle_announcements ci)) (ci_threshold ci)))"
    "enum_slots B e (ci_threshold ci) (combs 0 (length (oracle_announcements ci)) (ci_threshold ci)) ! adaptor_index r =
       ((cet_index r, outcome_message B (ci_threshold ci) outcome), sel)"
    "list_all2 (\<lambda>i sigs. \<exists>att. (i, att) \<in> set attestations \<and> att_outcomes att = [outcome] \<and> sigs = take 1 (att_signatures att)) sel osigs"
proof -
  let ?outs = "map (\<lambda>(i, x). (i, att_outcomes x)) attestations" and ?thr = "ci_threshold ci" and ?n = "length (oracle_announcements ci)"
  obtain paths where range: "enum_range_info H e ?n ?thr ?outs 0 = Some (Some (paths, r))"
    and osigs: "osigs = List.map_filter (\<lambda>(i, a). map_option (\<lambda>sig_info. take (snd sig_info) (att_signatures a))
            (List.find (\<lambda>x. fst x = i) paths)) attestations"
    using assms(1) by (auto simp: get_range_info_and_oracle_sigs_def get_range_info_for_outcome_def assms(2) Let_def bind_eq_Some_conv split: option.splits)
  have fst: "map fst ?outs = map fst attestations" by (simp add: comp_def split_def)
  then have sub: "fst ` set ?outs \<subseteq> {..<?n}" using assms(6) by (metis list.set_map)
  have so: "sorted_wrt (<) (map fst ?outs)" unfolding fst by (rule assms(5))
  obtain outcome sel where s: "?thr \<le> ?n" "paths = map (\<lambda>i. (i, 1)) sel" "length sel = ?thr" "sorted_wrt (<) sel" "set sel \<subseteq> {..<?n}"
      "\<forall>i \<in> set sel. (i, [outcome]) \<in> set ?outs" "cet_index r < length e" "ep_outcome (e ! cet_index r) = outcome"
      "adaptor_index r - 0 < length (enum_slots B e ?thr (combs 0 ?n ?thr))"
      "enum_slots B e ?thr (combs 0 ?n ?thr) ! (adaptor_index r - 0) = ((cet_index r, outcome_message B ?thr outcome), sel)"
    using enum_range_slot[OF assms(3) so sub assms(4) range, of B] by (elim exE conjE)
  note sel = s[unfolded minus_nat.diff_0]
  let ?F = "filter (\<lambda>x. fst x \<in> set sel) attestations"
  have os: "osigs = map (\<lambda>x. take 1 (att_signatures (snd x))) ?F"
    unfolding osigs sel(2) by (subst map_filter_if[symmetric]) (auto simp: find_pair split_def intro!: arg_cong2[of _ _ _ _ List.map_filter])
  have F: "map fst ?F = sel" by (rule sorted_restrict[OF assms(5) sel(4)]) (use sel(6) in force)
  have outcome: "att_outcomes (snd x) = [outcome]" if "x \<in> set ?F" for x
  proof -
    have "fst x \<in> set sel" using that by simp
    then obtain att where "(fst x, att) \<in> set attestations" "att_outcomes att = [outcome]" using sel(6) by force
    moreover have "x \<in> set attestations" "distinct (map fst attestations)" using that assms(5) by (simp_all add: strict_sorted_iff)
    ultimately show ?thesis by (metis eq_key_imp_eq_value prod.collapse)
  qed
  have att_of: "\<exists>att. (sel ! i, att) \<in> set attestations \<and> att_outcomes att = [outcome] \<and> take 1 (att_signatures (snd (?F ! i))) = take 1 (att_signatures att)"
    if "i < length ?F" for i
  proof -
    have "?F ! i \<in> set ?F" "fst (?F ! i) = sel ! i" using nth_mem[OF that] arg_cong[OF F, of "\<lambda>l. l ! i"] that by simp_all
    then show ?thesis using outcome[of "?F ! i"] by (intro exI[of _ "snd (?F ! i)"]) (cases "?F ! i", simp)
  qed
  have "length ?F = length sel" using arg_cong[OF F, of length] by simp
  then have "list_all2 (\<lambda>i sigs. \<exists>att. (i, att) \<in> set attestations \<and> att_outcomes att = [outcome] \<and> sigs = take 1 (att_signatures att)) sel osigs"
    unfolding os list_all2_conv_all_nth using att_of by simp
  with sel show thesis by (intro that[of sel outcome]) auto
qed

lemma attested_cet:
  assumes "counter_adaptor_sigs s = Some (sigs, other_pk)" "contract_descriptor ci = EnumContract e" "0 < ci_threshold ci"
    "enum_verify B S e (get_oracle_infos ci) (ci_threshold ci) other_pk (funding_script_pubkey t) (txo_value fo) (cets t) sigs 0 = pok n"
    "t = ac_transactions (accepted_contract s)" "get_fund_output B t = Some fo" "fair_orders H" "key_laws S val q" "adaptor_laws S"
    "sorted_wrt (<) (map fst attestations)" "fst ` set attestations \<subseteq> {..<length (oracle_announcements ci)}"
    "\<forall>(i, att) \<in> set attestations. \<forall>outcome. att_outcomes att = [outcome] \<longrightarrow>
       oracle_attests S (get_oracle_infos ci ! i) [sha256 B (str_bytes outcome)] (att_signatures att)"
    "get_range_info_and_oracle_sigs H ci EnumInfo attestations = pok (r, osigs)" "signatures_to_secret S osigs = pok x"
    "\<forall>cet \<in> set (cets t). tx_input cet \<noteq> []"
  shows "\<exists>outcome i cet cet' h sig. (\<exists>att. (i, att) \<in> set attestations \<and> att_outcomes att = [outcome]) \<and>
    cet_index r < length e \<and> ep_outcome (e ! cet_index r) = outcome \<and> vget (cets t) (cet_index r) = Some cet \<and>
    get_signed_cet B S H s ci EnumInfo attestations (Inr sk) = pok cet' \<and> tx_output cet' = tx_output cet \<and>
    get_sig_hash_msg S cet 0 (funding_script_pubkey t) (txo_value fo) = Inr h \<and> verify_ecdsa S h sig other_pk = Inr () \<and>
    witness (tx_input cet' ! 0) =
      [[], serialize_der S (sign_ecdsa S h sk) @ [1], serialize_der S sig @ [1], funding_script_pubkey t]"
proof -
  let ?infos = "get_oracle_infos ci" and ?thr = "ci_threshold ci" and ?spk = "funding_script_pubkey t" and ?v = "txo_value fo"
  have len: "length ?infos = length (oracle_announcements ci)" by (simp add: get_oracle_infos_def)
  obtain outcome sel where sel: "?thr \<le> length ?infos" "length sel = ?thr" "sorted_wrt (<) sel" "set sel \<subseteq> {..<length ?infos}"
      "cet_index r < length e" "ep_outcome (e ! cet_index r) = outcome"
      "adaptor_index r < length (enum_slots B e ?thr (combs 0 (length ?infos) ?thr))"
      "enum_slots B e ?thr (combs 0 (length ?infos) ?thr) ! adaptor_index r = ((cet_index r, outcome_message B ?thr outcome), sel)"
    and os: "list_all2 (\<lambda>i sigs. \<exists>att. (i, att) \<in> set attestations \<and> att_outcomes att = [outcome] \<and> sigs = take 1 (att_signatures att)) sel osigs"
    by (rule closing_oracle_sigs[OF assms(13,2,7,3,10,11), of B, folded len]) (rule that)
  have slot: "cet_index r < length (cets t)" "adaptor_index r < length sigs"
      "verify_cet_adaptor_sig_from_oracle_info S other_pk ?spk ?v (sigs ! adaptor_index r) (cets t ! cet_index r) (map ((!) ?infos) sel)
         (outcome_message B ?thr outcome) = pok ()"
    using enum_verified[OF assms(4,3) sel(1,7)] unfolding sel(8) slot_ok_def by (simp_all add: selected_oracles_sorted[OF sel(3,4)])
  have att: "\<exists>att. (sel ! j, att) \<in> set attestations \<and> att_outcomes att = [outcome] \<and> osigs ! j = att_signatures att" if "j < length sel" for j
  proof -
    have "\<exists>att. (sel ! j, att) \<in> set attestations \<and> att_outcomes att = [outcome] \<and> osigs ! j = take 1 (att_signatures att)"
      using os that by (simp add: list_all2_conv_all_nth)
    then obtain att where a: "(sel ! j, att) \<in> set attestations" "att_outcomes att = [outcome]" "osigs ! j = take 1 (att_signatures att)" by blast
    then have "length (att_signatures att) = 1" using assms(12) by (fastforce simp: oracle_attests_def)
    then show ?thesis using a by auto
  qed
  have attests: "\<forall>j < length (map ((!) ?infos) sel). j < length (outcome_message B ?thr outcome) \<longrightarrow>
      oracle_attests S (map ((!) ?infos) sel ! j) (outcome_message B ?thr outcome ! j) (osigs ! j)"
    using att assms(12) by (fastforce simp: outcome_message_def)
  have lo: "length (map ((!) ?infos) sel) = length osigs" using os by (simp add: list_all2_lengthD)
  obtain h sig where h: "get_sig_hash_msg S (cets t ! cet_index r) 0 ?spk ?v = Inr h" "adaptor_decrypt S (sigs ! adaptor_index r) x = Inr sig"
      "verify_ecdsa S h sig other_pk = Inr ()"
    using attestations_decrypt[OF assms(8,9) slot(3) lo attests assms(14)] by blast
  have "0 < length (tx_input (cets t ! cet_index r))" using assms(15) slot(1) by simp
  from sign_multi_sig_input_ok[OF this h(1), of sig other_pk sk] obtain cet' where c:
      "sign_multi_sig_input S (cets t ! cet_index r) sig other_pk sk ?spk ?v 0 = pok cet'" "tx_output cet' = tx_output (cets t ! cet_index r)"
      "witness (tx_input cet' ! 0) = [[], serialize_der S (sign_ecdsa S h sk) @ [1], serialize_der S sig @ [1], ?spk]" by blast
  have "get_signed_cet B S H s ci EnumInfo attestations (Inr sk) = pok cet'"
    using assms(1,6,13,14) slot(1,2) h(2) c(1) by (simp add: get_signed_cet_def Let_def assms(5)[symmetric] sign_cet_def vget_def)
  moreover have "0 < length sel" using sel(2) assms(3) by simp
  ultimately show ?thesis using att[of 0] sel(5,6) slot(1) h c by (auto simp: vget_def)
qed

lemma majority_range:
  assumes "contract_descriptor ci = EnumContract e" "fair_orders H" "0 < ci_threshold ci" "sorted_wrt (<) (map fst atts)"
    "fst ` set atts \<subseteq> {..<length (oracle_announcements ci)}" "outcome \<in> ep_outcome ` set e"
    "ci_threshold ci \<le> length (filter (\<lambda>x. att_outcomes (snd x) = [outcome]) atts)"
    "\<And>w. w \<noteq> outcome \<Longrightarrow> length (filter (\<lambda>x. att_outcomes (snd x) = [w]) atts) < length (filter (\<lambda>x. att_outcomes (snd x) = [outcome]) atts)"
    "(length (oracle_announcements ci) choose ci_threshold ci) * length e < u64_bound"
  shows "\<exists>r osigs. get_range_info_and_oracle_sigs H ci EnumInfo atts = pok (r, osigs) \<and> ep_outcome (e ! cet_index r) = outcome"
proof -
  let ?outs = "map (\<lambda>(i, x). (i, att_outcomes x)) atts"
  have fst: "map fst ?outs = map fst atts" "fst ` set ?outs = fst ` set atts" by (force simp: comp_def split_def)+
  have count: "length (filter (\<lambda>x. snd x = [w]) ?outs) = length (filter (\<lambda>x. att_outcomes (snd x) = [w]) atts)" for w
    by (simp add: filter_map comp_def split_def)
  obtain paths r where "enum_range_info H e (length (oracle_announcements ci)) (ci_threshold ci) ?outs 0 = Some (Some (paths, r))"
      "ep_outcome (e ! cet_index r) = outcome"
    using majority_found[of H "ci_threshold ci" ?outs "length (oracle_announcements ci)" outcome e 0] assms(2-9) unfolding fst count by auto
  then show ?thesis by (simp add: get_range_info_and_oracle_sigs_def get_range_info_for_outcome_def assms(1) Let_def)
qed

text \<open>
  C14: Enough attestations of one outcome close a verified contract on an enumerated event: when the adaptor signatures the other
  party sent verify, the attestations are valid and come in the order of the oracles, and one outcome of the contract is attested at
  least as often as the threshold and more often than any other, then the transaction of this outcome is signed, with its outputs,
  the own signature and a signature that is valid for the other party's key. The signatures that are collected must sum up to a secret
  key, and the positions of the signatures must be numbers of 64 bits.
\<close>

theorem attested_contract_closes:
  assumes "counter_adaptor_sigs s = Some (sigs, other_pk)" "contract_descriptor ci = EnumContract e" "0 < ci_threshold ci"
    "enum_verify B S e (get_oracle_infos ci) (ci_threshold ci) other_pk (funding_script_pubkey t) (txo_value fo) (cets t) sigs 0 = pok n"
    "t = ac_transactions (accepted_contract s)" "get_fund_output B t = Some fo" "fair_orders H" "key_laws S val q" "adaptor_laws S"
    "sorted_wrt (<) (map fst attestations)" "fst ` set attestations \<subseteq> {..<length (oracle_announcements ci)}"
    "\<forall>(i, att) \<in> set attestations. \<forall>w. att_outcomes att = [w] \<longrightarrow>
       oracle_attests S (get_oracle_infos ci ! i) [sha256 B (str_bytes w)] (att_signatures att)"
    "outcome \<in> ep_outcome ` set e" "ci_threshold ci \<le> length (filter (\<lambda>x. att_outcomes (snd x) = [outcome]) attestations)"
    "\<forall>w. w \<noteq> outcome \<longrightarrow>
       length (filter (\<lambda>x. att_outcomes (snd x) = [w]) attestations) < length (filter (\<lambda>x. att_outcomes (snd x) = [outcome]) attestations)"
    "(length (oracle_announcements ci) choose ci_threshold ci) * length e < u64_bound"
    "\<forall>r osigs. get_range_info_and_oracle_sigs H ci EnumInfo attestations = pok (r, osigs) \<longrightarrow> (\<exists>x. signatures_to_secret S osigs = pok x)"
    "\<forall>cet \<in> set (cets t). tx_input cet \<noteq> []"
  shows "\<exists>k cet cet' h sig. k < length e \<and> ep_outcome (e ! k) = outcome \<and> vget (cets t) k = Some cet \<and>
    get_signed_cet B S H s ci EnumInfo attestations (Inr sk) = pok cet' \<and> tx_output cet' = tx_output cet \<and>
    get_sig_hash_msg S cet 0 (funding_script_pubkey t) (txo_value fo) = Inr h \<and> verify_ecdsa S h sig other_pk = Inr () \<and>
    witness (tx_input cet' ! 0) =
      [[], serialize_der S (sign_ecdsa S h sk) @ [1], serialize_der S sig @ [1], funding_script_pubkey t]"
proof -
  obtain r osigs where r: "get_range_info_and_oracle_sigs H ci EnumInfo attestations = pok (r, osigs)" "ep_outcome (e ! cet_index r) = outcome"
    using majority_range[OF assms(2,7,3,10,11,13,14) assms(15)[rule_format] assms(16)] by blast
  obtain x where "signatures_to_secret S osigs = pok x" using assms(17) r(1) by blast
  from attested_cet[OF assms(1-12) r(1) this assms(18), of sk] r(2) show ?thesis by blast
qed

section \<open>Instances\<close>

text \<open>A borrower and a lender with the signature library of the coin event; both wallets have one output.\<close>


definition toy_wallet :: outside where
  "toy_wallet = \<lparr>new_address = Inr (replicate 22 0), new_change_address = Inr (replicate 22 0),
     utxos_for_amount = (\<lambda>a r. Inr [\<lparr>utxo_tx_out = \<lparr>txo_value = 30000, script_pubkey = []\<rparr>, utxo_outpoint = \<lparr>txid = [7], vout = 1\<rparr>, utxo_redeem_script = []\<rparr>]),
     sign_raw_transaction = Inr, chain_transaction = (\<lambda>i. Inr (toy_tx [21000, 30000])), derive_signer_key_id = (\<lambda>b i. i),
     derive_contract_signer = Inr, signer_public_key = (\<lambda>k. Inr (pk_of honest_secp k)), signer_secret_key = Inr,
     unix_time_now = 10, serial_ids = id, temporary_id = replicate 32 0\<rparr>"

definition loan_offer :: OfferedContract where
  "loan_offer = sample_offer\<lparr>offer_params := (sample_party 0 0)\<lparr>fund_pubkey := pk_of honest_secp [2], pp_inputs := []\<rparr>,
     oc_funding_inputs := [], keys_id := [2]\<rparr>"

definition sample_loan :: OfferedLoanContract where
  "sample_loan = \<lparr>offered_contract = counter_copy loan_offer [4] [3], collateral_ratio = 150, liquidation_ratio = 120,
     interest_rate = 5, duration = 100, lender_hash = [6]\<rparr>"

lemma honest_fields: "sk_from_slice honest_secp = sk_from_slice toy_secp" "sk_add_tweak honest_secp = sk_add_tweak toy_secp"
  "pk_of honest_secp = pk_of toy_secp" "combine_keys honest_secp = combine_keys toy_secp"
  by (simp_all add: honest_secp_def)

lemma honest_laws: "signing_laws honest_secp sk" "signer_laws honest_secp toy_wallet" "codec_laws toy_codec toy_wallet"
  "txid_ignores_witness toy_btc" "key_laws honest_secp toy_val 7" "adaptor_laws honest_secp"
  subgoal by (simp add: signing_laws_def honest_sound) (simp add: honest_secp_def toy_secp_def)
  subgoal by (simp add: signer_laws_def signing_laws_def honest_sound toy_wallet_def) (simp add: honest_secp_def toy_secp_def)
  subgoal by (simp add: codec_laws_def toy_wallet_def toy_codec_def toy_tx_def)
  subgoal by (auto simp: txid_ignores_witness_def toy_btc_def set_witness_def bind_eq_Some_conv)
  subgoal unfolding key_laws_def honest_fields by (rule toy_key_laws[unfolded key_laws_def])
  subgoal by (auto simp: adaptor_laws_def honest_secp_def toy_secp_def toy_key_def split: if_splits)
  done

lemma loan_offer_simps [simp]: "contract_info loan_offer = [coin_info]" "total_collateral loan_offer = 20000" "keys_id loan_offer = [2]"
  "offer_params loan_offer = (sample_party 0 0)\<lparr>fund_pubkey := pk_of honest_secp [2], pp_inputs := []\<rparr>"
  by (simp_all add: loan_offer_def sample_offer_def)




lemma half_fee_two: "get_half_common_fee 2 = Inr 225"
proof -
  have "get_common_fee 2 = Inr 450" unfolding get_common_fee_def by (subst weight_to_fee_exact) (simp_all add: FUND_TX_BASE_WEIGHT_def CET_BASE_WEIGHT_def u64_mul_def)
  then show ?thesis unfolding get_half_common_fee_def by (simp add: f64_div_ceil[of 450 2, simplified])
qed

lemma fee_124_two: "weight_to_fee 124 2 = Inr 62"
  by (subst weight_to_fee_exact) simp_all

lemma toy_party:
  "\<exists>accept inputs. get_party_params toy_btc toy_codec toy_wallet 20000 2 [3] = pok (accept, inputs)"
  by (simp add: get_party_params_def toy_wallet_def half_fee_two fee_124_two u64_add_def Let_def toy_tx_def vget_def to_tx_input_info_def toy_codec_def decode_tx_def)

lemma toy_accept:
  assumes "length (cets t) = 2" "tx_input (cets t ! 0) \<noteq> []"
  shows "\<exists>a. accept_loan_contract_internal toy_btc honest_secp sample_loan accept inputs sk v None t e b tx = pok (a, coin_sigs sk) \<and>
    alc_transactions a = t \<and> alc_adaptor_infos a = [EnumInfo] \<and> signed_escrow_spend_tx a = tx"
proof -
  have "get_adaptor_info toy_btc honest_secp coin_info T sk spk v (cets t) 0 = pok (EnumInfo, coin_sigs sk)" for T spk
    using coin_signatures[OF assms(1), of sk spk v] by (simp add: get_adaptor_info_def coin_info_def)
  moreover have "0 < length (cets t)" "0 < length (tx_input (cets t ! 0))" using assms by simp_all
  moreover have "p2wsh_sighash honest_secp tx i s v = Inr [9]" for tx i s v by (simp add: honest_secp_def toy_secp_def)
  ultimately show ?thesis
    by (simp add: accept_loan_contract_internal_def Let_def sample_loan_def vget_def get_raw_sig_for_tx_input_def get_sig_hash_msg_def)
qed

lemma toy_loan_transactions:
  assumes "collateral accept = 20000" "tx_input c \<noteq> []" "tx_output c = [\<lparr>txo_value = v, script_pubkey = to_p2wsh toy_btc spk\<rparr>]"
  shows "\<exists>t. create_loan_expiration_dlc_transactions toy_btc (offer_params loan_offer) accept
      [\<lparr>offer_payout = 20000, accept_payout = 0\<rparr>, \<lparr>offer_payout = 0, accept_payout = 20000\<rparr>] rlt clt c spk = pok t \<and>
    length (cets t) = 2 \<and> (\<forall>x \<in> set (cets t). tx_input x \<noteq> []) \<and> get_fund_output toy_btc t = Some (tx_output c ! 0)"
  using assms by (cases "tx_input c")
    (simp_all add: create_loan_expiration_dlc_transactions_def create_cets_and_refund_tx_def sample_party_def u64_add_def proper_payout_def
      create_cets_def create_cet_def Let_def vget_def get_fund_output_def get_output_for_script_pubkey_def)

lemma toy_loan:
  "\<exists>a m. accept_loan_contract toy_btc honest_secp toy_codec toy_wallet sample_loan [8] [9] [1] = pok (a, m) \<and>
     length (cets (alc_transactions a)) = 2 \<and> alc_adaptor_infos a = [EnumInfo] \<and> (\<exists>fo. get_fund_output toy_btc (alc_transactions a) = Some fo) \<and>
     tx_input (al_signed_escrow_spend_tx m) \<noteq> [] \<and> al_cet_adaptor_signatures m = coin_sigs [3]"
proof -
  obtain accept inputs where party: "get_party_params toy_btc toy_codec toy_wallet 20000 2 [3] = pok (accept, inputs)" using toy_party by blast
  then have col: "collateral accept = 20000" using party_params_inputs(2)[OF honest_laws(3)] by blast
  have sig: "p2wsh_sighash honest_secp tx i s v = Inr [9]" for tx i s v by (simp add: honest_secp_def toy_secp_def)
  have l: "lender_hash sample_loan = [6]" "offered_contract sample_loan = counter_copy loan_offer [4] [3]" "fee_rate_per_vb loan_offer = 2"
    by (simp_all add: sample_loan_def loan_offer_def sample_offer_def)
  have w: "derive_contract_signer toy_wallet = Inr" "signer_secret_key toy_wallet = Inr" "signer_public_key toy_wallet k = Inr (pk_of honest_secp k)"
     "chain_transaction toy_wallet i = Inr (toy_tx [21000, 30000])" for k i by (simp_all add: toy_wallet_def)
  have p: "get_payouts coin_info 20000 = pok [\<lparr>offer_payout = 20000, accept_payout = 0\<rparr>, \<lparr>offer_payout = 0, accept_payout = 20000\<rparr>]"
    by (simp add: get_payouts_def coin_info_def coin_payouts_def enum_payouts_def)
  let ?lender = "fund_pubkey (offer_params loan_offer)" and ?pk = "pk_of honest_secp [3]"
  let ?s = "make_loan_escrow_after_codesep_script toy_btc ?lender [9]" and ?es = "make_loan_funding_redeemscript toy_btc ?pk ?lender escrow_locktime [9]"
  obtain u spk where u: "create_collateral_transaction toy_btc ?pk ?lender 21000 (escrow_input_of [8]) [6] = Some (u, spk)"
    and ui: "tx_input u = [escrow_input_of [8]]" "tx_output u = [\<lparr>txo_value = 20834, script_pubkey = to_p2wsh toy_btc spk\<rparr>]"
    by (simp add: create_collateral_transaction_def u64_sub_def Let_def)
  obtain bsig where bsig: "get_sig_for_tx_input honest_secp u 0 ?s 21000 SIGHASH_ALL [3] = Inr bsig"
    using ui(1) sig by (simp add: get_sig_for_tx_input_def get_raw_sig_for_tx_input_def get_sig_hash_msg_def)
  obtain c where c: "set_witness u 0 [[], [1], bsig, ?es] = Some c" "tx_input c \<noteq> []" "tx_output c = tx_output u"
    using ui(1) by (simp add: set_witness_def vget_def)
  obtain t where t: "create_loan_expiration_dlc_transactions toy_btc (offer_params loan_offer) accept
      [\<lparr>offer_payout = 20000, accept_payout = 0\<rparr>, \<lparr>offer_payout = 0, accept_payout = 20000\<rparr>] (refund_locktime loan_offer) (cet_locktime loan_offer) c spk = pok t"
     "length (cets t) = 2" "\<forall>x \<in> set (cets t). tx_input x \<noteq> []" "get_fund_output toy_btc t = Some (tx_output c ! 0)"
    using toy_loan_transactions[OF col c(2) c(3)[unfolded ui]] by blast
  have "tx_input (cets t ! 0) \<noteq> []" using t(2,3) by simp
  note a = toy_accept[OF t(2) this, of accept inputs "[3]" "txo_value (tx_output c ! 0)" "[8]" "[9]" c]
  show ?thesis using a t u bsig c party
    by (auto simp: accept_loan_contract_def Let_def l w p toy_tx_def vget_def get_accept_loan_msg_def)
qed
lemma toy_own:
  assumes "length txs = 2"
  shows "own_signatures toy_btc honest_secp (contract_info loan_offer) [EnumInfo] (Inr [2]) spk v txs = pok (coin_sigs [2])"
  using coin_signatures[OF assms, of "[2]" spk v] by (simp add: own_signatures_def get_adaptor_signatures_def coin_info_def)

lemma coin_decidable: "decidable_info B S coin_info"
  by (rule decidable_enum[of _ coin_payouts]) (simp_all add: coin_info_def coin_payouts_def)

lemma loan_acceptance_is_signed_witness:
  "\<exists>a m tx s msg. accept_loan_contract toy_btc honest_secp toy_codec toy_wallet sample_loan [8] [9] [1] = pok (a, m) \<and>
     verify_accepted_and_sign_loan_contract toy_btc honest_secp toy_codec toy_wallet loan_offer (to_accept_dlc m) tx (al_collateral_spk m) = pok (s, msg) \<and>
     sd_cet_adaptor_signatures msg = coin_sigs [2] \<and> Some (sd_contract_id msg) = get_loan_contract_id toy_btc a"
proof -
  obtain a m fo where r: "accept_loan_contract toy_btc honest_secp toy_codec toy_wallet sample_loan [8] [9] [1] = pok (a, m)"
      "length (cets (alc_transactions a)) = 2" "alc_adaptor_infos a = [EnumInfo]" "get_fund_output toy_btc (alc_transactions a) = Some fo"
      "tx_input (al_signed_escrow_spend_tx m) \<noteq> []" "al_cet_adaptor_signatures m = coin_sigs [3]" using toy_loan by blast
  obtain tx where tx: "set_witness (al_signed_escrow_spend_tx m) 0 [] = Some tx" using r(5) by (auto simp: set_witness_def vget_def)
  have copy: "offered_contract sample_loan = counter_copy loan_offer [4] [3]" by (simp add: sample_loan_def)
  have "collateral (offer_params loan_offer) = 0" by (simp add: sample_party_def)
  moreover have "derive_contract_signer toy_wallet (keys_id loan_offer) = Inr [2]" "signer_secret_key toy_wallet [2] = Inr [2]" by (simp_all add: toy_wallet_def)
  moreover have "length (al_cet_adaptor_signatures m) < u64_bound" by (simp add: r(6) coin_sigs_def Let_def)
  moreover have "\<forall>ci \<in> set (contract_info loan_offer). decidable_info toy_btc honest_secp ci" using coin_decidable by simp
  ultimately show ?thesis
    using loan_acceptance_is_signed[OF r(1) copy _ _ _ _ honest_laws(2,3,4) tx _ _ r(4), where Wl = toy_wallet and signer = "[2]" and sk = "[2]" and own = "coin_sigs [2]"] r(1) toy_own[OF r(2)]
    unfolding r(3) by (simp del: loan_offer_simps(4)) blast
qed

lemma enum_loan_handshake_witness:
  "\<exists>a m tx s msg s'. accept_loan_contract toy_btc honest_secp toy_codec toy_wallet sample_loan [8] [9] [1] = pok (a, m) \<and>
     verify_accepted_and_sign_loan_contract toy_btc honest_secp toy_codec toy_wallet loan_offer (to_accept_dlc m) tx (al_collateral_spk m) = pok (s, msg) \<and>
     verify_signed_contract toy_btc honest_secp (to_accepted_contract a) msg = pok (s', fund (alc_transactions a))"
proof -
  obtain a m where r: "accept_loan_contract toy_btc honest_secp toy_codec toy_wallet sample_loan [8] [9] [1] = pok (a, m)"
      "tx_input (al_signed_escrow_spend_tx m) \<noteq> []" "al_cet_adaptor_signatures m = coin_sigs [3]" using toy_loan by blast
  obtain tx where tx: "set_witness (al_signed_escrow_spend_tx m) 0 [] = Some tx" using r(2) by (auto simp: set_witness_def vget_def)
  have copy: "offered_contract sample_loan = counter_copy loan_offer [4] [3]" by (simp add: sample_loan_def)
  have "collateral (offer_params loan_offer) = 0" "fund_pubkey (offer_params loan_offer) = pk_of honest_secp [2]" by (simp_all add: sample_party_def)
  moreover have "derive_contract_signer toy_wallet (keys_id loan_offer) = Inr [2]" "signer_secret_key toy_wallet [2] = Inr [2]" by (simp_all add: toy_wallet_def)
  moreover have "length (al_cet_adaptor_signatures m) < u64_bound" by (simp add: r(3) coin_sigs_def Let_def)
  moreover have "contract_descriptor coin_info = EnumContract coin_payouts" "coin_payouts \<noteq> []" "0 < ci_threshold coin_info"
      "ci_threshold coin_info \<le> length (oracle_announcements coin_info)" by (simp_all add: coin_info_def coin_payouts_def)
  ultimately show ?thesis
    using enum_loan_handshake[OF r(1) copy _ _ _ _ _ _ _ _ honest_laws(2,3,4) tx _ _ honest_laws(1), where ci = coin_info and e = coin_payouts and Wl = toy_wallet and signer = "[2]"] r(1)
    by (simp del: loan_offer_simps(4)) blast
qed
definition coin_transactions :: DlcTransactions where
  "coin_transactions = \<lparr>fund = toy_tx [20834], cets = [toy_tx [20000], toy_tx [20000]], refund = toy_tx [], funding_script_pubkey = [32]\<rparr>"

definition coin_contract :: SignedContract where
  "coin_contract = \<lparr>accepted_contract = \<lparr>ac_offered_contract = loan_offer, accept_params = (sample_party 0 20000)\<lparr>fund_pubkey := pk_of honest_secp [3]\<rparr>,
       ac_funding_inputs = [], adaptor_infos = [EnumInfo], ac_adaptor_signatures = Some (coin_sigs [3]),
       accept_refund_signature = pk_of honest_secp [3],
       ac_transactions = coin_transactions\<rparr>,
     sc_adaptor_signatures = None, offer_refund_signature = [], funding_signatures = [], channel_id = None\<rparr>"

definition tails :: OracleAttestation where
  "tails = \<lparr>att_event_id = ''coin'', att_public_key = toy_key 2, att_signatures = [toy_key 1 @ toy_key 3], att_outcomes = [''tails'']\<rparr>"

lemma tails_range:
  "get_range_info_and_oracle_sigs insertion_orders coin_info EnumInfo [(0, tails)] =
     pok (\<lparr>cet_index = 1, adaptor_index = 2\<rparr>, [[toy_key 1 @ toy_key 3]])"
proof -
  have "combs 0 2 1 = [[0], [1]]" by (simp add: numeral_2_eq_2)
  then obtain it where "new 2 1 = Some it" "collect it = Some [[0], [1]]" using collect_new[of 1 2] by auto
  then have "enum_range_info insertion_orders coin_payouts 2 1 [(0, [''tails''])] 0 = Some (Some ([(0, 1)], \<lparr>cet_index = 1, adaptor_index = 2\<rparr>))"
    by (simp add: enum_range_info_def get_majority_combination_def coin_payouts_def Let_def)
  then show ?thesis
    by (simp add: get_range_info_and_oracle_sigs_def get_range_info_for_outcome_def coin_info_def tails_def map_filter_simps numeral_2_eq_2)
qed

lemma coin_attests: "attests honest_secp (toy_key 2) (toy_key 1) m (toy_key 1 @ toy_key 3)"
proof -
  have "schnorrsig_compute_sig_point honest_secp (toy_key 2) (toy_key 1) m = pok (toy_key 3)"
    by (simp add: schnorrsig_compute_sig_point_def schnorr_pubkey_to_pubkey_def create_schnorr_hash_def honest_secp_def toy_simps del: One_nat_def)
  moreover have "toy_val (toy_key 3) = 3" "pk_of honest_secp b = toy_key (toy_val b)" for b by (simp_all add: honest_secp_def toy_secp_def)
  ultimately show ?thesis unfolding attests_def toy_take by (simp del: One_nat_def)
qed

lemma tails_attested:
  "oracle_attests honest_secp (get_oracle_infos coin_info ! 0) [sha256 toy_btc (str_bytes x)] (att_signatures tails)"
  "signatures_to_secret honest_secp [[toy_key 1 @ toy_key 3]] = pok (toy_key 3)"
proof -
  show "oracle_attests honest_secp (get_oracle_infos coin_info ! 0) [sha256 toy_btc (str_bytes x)] (att_signatures tails)"
    using coin_attests
    by (simp add: oracle_attests_def get_oracle_infos_def coin_info_def coin_event_def to_oracle_info_def tails_def del: One_nat_def)
  have "schnorrsig_decompose honest_secp (toy_key 1 @ toy_key 3) = Inr (toy_key 1, toy_key 3)"
    unfolding schnorrsig_decompose_def toy_take by (simp add: honest_secp_def toy_simps del: One_nat_def)
  then show "signatures_to_secret honest_secp [[toy_key 1 @ toy_key 3]] = pok (toy_key 3)"
    by (simp add: signatures_to_secret_def honest_secp_def toy_simps vget_def del: One_nat_def)
qed

lemma coin_facts:
  "ac_transactions (accepted_contract coin_contract) = coin_transactions" "cets coin_transactions = [toy_tx [20000], toy_tx [20000]]"
  "counter_adaptor_sigs coin_contract = Some (coin_sigs [3], pk_of honest_secp [3])"
  "contract_descriptor coin_info = EnumContract coin_payouts" "ci_threshold coin_info = 1" "length (oracle_announcements coin_info) = 2"
  "get_fund_output toy_btc coin_transactions = Some \<lparr>txo_value = 20834, script_pubkey = [0, 32]\<rparr>"
  by (simp_all add: coin_contract_def coin_transactions_def counter_adaptor_sigs_def loan_offer_def sample_offer_def coin_info_def
      get_fund_output_def get_output_for_script_pubkey_def toy_tx_def toy_btc_def)

lemma coin_verified:
  "enum_verify toy_btc honest_secp coin_payouts (get_oracle_infos coin_info) 1 (pk_of honest_secp [3])
     spk v [toy_tx [20000], toy_tx [20000]] (coin_sigs [3]) 0 = pok (length (coin_sigs [3]))"
  by (rule enum_sign_verifies[OF coin_signatures]) (simp_all add: honest_sound get_oracle_infos_def coin_facts coin_sigs_def Let_def)

lemma attested_contract_closes_witness:
  "\<exists>cet' sig. get_signed_cet toy_btc honest_secp insertion_orders coin_contract coin_info EnumInfo [(0, tails)] (Inr [2]) = pok cet' \<and>
     tx_output cet' = tx_output (toy_tx [20000]) \<and> verify_ecdsa honest_secp [9] sig (pk_of honest_secp [3]) = Inr ()"
proof -
  let ?t = "ac_transactions (accepted_contract coin_contract)" and ?fo = "\<lparr>txo_value = 20834, script_pubkey = [0, 32]\<rparr>"
  note facts = coin_facts
  have verify: "enum_verify toy_btc honest_secp coin_payouts (get_oracle_infos coin_info) (ci_threshold coin_info) (pk_of honest_secp [3])
      (funding_script_pubkey ?t) (txo_value ?fo) (cets ?t) (coin_sigs [3]) 0 = pok (length (coin_sigs [3]))"
    unfolding facts by (rule coin_verified)
  have fo: "get_fund_output toy_btc ?t = Some ?fo" unfolding facts by simp
  have att: "\<forall>(i, att) \<in> set [(0, tails)]. \<forall>outcome. att_outcomes att = [outcome] \<longrightarrow>
       oracle_attests honest_secp (get_oracle_infos coin_info ! i) [sha256 toy_btc (str_bytes outcome)] (att_signatures att)"
    using tails_attested(1) by simp
  have inp: "\<forall>cet \<in> set (cets ?t). tx_input cet \<noteq> []" unfolding facts by (simp add: toy_tx_def)
  have h: "get_sig_hash_msg honest_secp tx 0 spk v = Inr h \<longleftrightarrow> h = [9]" for tx spk v h
    by (auto simp: get_sig_hash_msg_def honest_secp_def toy_secp_def)
  have majority: "\<forall>w. w \<noteq> ''tails'' \<longrightarrow> length (filter (\<lambda>x. att_outcomes (snd x) = [w]) [(0 :: nat, tails)]) <
      length (filter (\<lambda>x. att_outcomes (snd x) = [''tails'']) [(0 :: nat, tails)])" by (simp add: tails_def)
  have secret: "\<forall>r osigs. get_range_info_and_oracle_sigs insertion_orders coin_info EnumInfo [(0, tails)] = pok (r, osigs) \<longrightarrow>
      (\<exists>x. signatures_to_secret honest_secp osigs = pok x)"
    using tails_range tails_attested(2) by auto
  have small: "(length (oracle_announcements coin_info) choose ci_threshold coin_info) * length coin_payouts < u64_bound"
    unfolding facts by (simp add: coin_payouts_def)
  have thr: "0 < ci_threshold coin_info" and enough: "ci_threshold coin_info \<le> length (filter (\<lambda>x. att_outcomes (snd x) = [''tails'']) [(0 :: nat, tails)])"
    and sorted: "sorted_wrt (<) (map fst [(0 :: nat, tails)])" and range: "fst ` set [(0, tails)] \<subseteq> {..<length (oracle_announcements coin_info)}"
    and outcome: "''tails'' \<in> ep_outcome ` set coin_payouts"
    unfolding facts by (simp_all add: tails_def coin_payouts_def)
  from attested_contract_closes[OF facts(3,4) thr verify refl fo insertion_orders_fair honest_laws(5,6) sorted range att outcome enough
      majority small secret inp, of "[2]"]
  obtain k cet cet' h sig where c: "vget (cets ?t) k = Some cet" "ep_outcome (coin_payouts ! k) = ''tails''"
      "get_signed_cet toy_btc honest_secp insertion_orders coin_contract coin_info EnumInfo [(0, tails)] (Inr [2]) = pok cet'"
      "tx_output cet' = tx_output cet" "get_sig_hash_msg honest_secp cet 0 (funding_script_pubkey ?t) (txo_value ?fo) = Inr h"
      "verify_ecdsa honest_secp h sig (pk_of honest_secp [3]) = Inr ()"
    by (elim exE conjE) (rule that)
  have "vget [toy_tx [20000], toy_tx [20000]] k = Some cet" using c(1) unfolding facts .
  then have "cet = toy_tx [20000]" by (auto simp: vget_def nth_Cons' split: if_splits)
  then show ?thesis using c(3-6) h by simp blast
qed

end
