(* ===== verification/ManagerSpec.thy ===== *)
theory ManagerSpec
  imports Manager SledStorage ContractUpdaterSpec
begin

text \<open>
  What the manager keeps of its store, for any store that keeps the contract \<open>contract_store\<close>: every contract is under its
  own id, and every contract that is signed, confirmed, refunded or being closed has signatures of the counter party that
  were verified. From this a confirmed contract can be closed by the attestations of its oracles.
\<close>

section \<open>Rules for calls\<close>

text \<open>\<open>holds I m Q\<close>: the call keeps \<open>I\<close>, also when it fails, and a result satisfies \<open>Q\<close>.\<close>

definition holds :: "('s mgr_state \<Rightarrow> bool) \<Rightarrow> ('s, 'a) mgr \<Rightarrow> ('a \<Rightarrow> bool) \<Rightarrow> bool" where
  "holds I m Q \<longleftrightarrow> (\<forall>st r st'. I st \<longrightarrow> m st = Some (r, st') \<longrightarrow> I st' \<and> (\<forall>x. r = Inr x \<longrightarrow> Q x))"

abbreviation keeps :: "('s mgr_state \<Rightarrow> bool) \<Rightarrow> ('s, 'a) mgr \<Rightarrow> bool" where "keeps I m \<equiv> holds I m (\<lambda>_. True)"

named_theorems call_rules \<open>rules for the calls of the manager\<close>
named_theorems bind_rules \<open>rules for a call and what follows it\<close>

lemma holdsI: "(\<And>st r st'. I st \<Longrightarrow> m st = Some (r, st') \<Longrightarrow> I st' \<and> (\<forall>x. r = Inr x \<longrightarrow> Q x)) \<Longrightarrow> holds I m Q"
  unfolding holds_def by blast

lemma holdsD: "holds I m Q \<Longrightarrow> I st \<Longrightarrow> m st = Some (r, st') \<Longrightarrow> I st' \<and> (\<forall>x. r = Inr x \<longrightarrow> Q x)"
  unfolding holds_def by blast

lemma keepsD: "keeps I m \<Longrightarrow> m st = Some (r, st') \<Longrightarrow> I st \<Longrightarrow> I st'"
  unfolding holds_def by blast

lemma holds_weaken: "holds I m Q \<Longrightarrow> (\<And>x. Q x \<Longrightarrow> R x) \<Longrightarrow> holds I m R"
  unfolding holds_def by blast

lemma holds_ret [call_rules]: "Q x \<Longrightarrow> holds I (mret x) Q"
  by (simp add: holds_def mret_def)

lemma holds_fail [call_rules]: "holds I (mfail e) Q"
  by (simp add: holds_def mfail_def)

lemma holds_lift [call_rules]: "(\<And>x. r = pok x \<Longrightarrow> Q x) \<Longrightarrow> holds I (mlift r) Q"
  by (auto simp: holds_def mlift_def)

lemma holds_unwrap [call_rules]: "(\<And>x. r = Some x \<Longrightarrow> Q x) \<Longrightarrow> holds I (munwrap r) Q"
  by (auto simp: holds_def munwrap_def mret_def mpanic_def split: option.splits)

lemma holds_bind [call_rules]:
  assumes "holds I m Q" "\<And>x. Q x \<Longrightarrow> holds I (f x) R"
  shows "holds I (mbind m f) R"
proof (rule holdsI)
  fix st r st' assume st: "I st" "mbind m f st = Some (r, st')"
  then obtain r0 st0 where m: "m st = Some (r0, st0)" by (auto simp: mbind_def split: option.splits)
  note 1 = holdsD[OF assms(1) st(1) m]
  show "I st' \<and> (\<forall>x. r = Inr x \<longrightarrow> R x)"
  proof (cases r0)
    case (Inl e)
    then show ?thesis using st(2) m 1 by (auto simp: mbind_def)
  next
    case (Inr x)
    then have "f x st0 = Some (r, st')" using st(2) m by (simp add: mbind_def)
    then show ?thesis using holdsD[OF assms(2)] 1 Inr by blast
  qed
qed

lemma holds_ignore [call_rules]: "keeps I m \<Longrightarrow> keeps I (mignore m)"
  by (fastforce simp: holds_def mignore_def)

lemma holds_catch [call_rules]:
  assumes "holds I m Q" "\<And>e. holds I (h e) Q"
  shows "holds I (mcatch m h) Q"
proof (rule holdsI)
  fix st r st' assume st: "I st" "mcatch m h st = Some (r, st')"
  then obtain r0 st0 where m: "m st = Some (r0, st0)" by (auto simp: mcatch_def split: option.splits)
  note 1 = holdsD[OF assms(1) st(1) m]
  show "I st' \<and> (\<forall>x. r = Inr x \<longrightarrow> Q x)"
  proof (cases r0)
    case (Inl e)
    then have "h e st0 = Some (r, st')" using st(2) m by (simp add: mcatch_def)
    then show ?thesis using holdsD[OF assms(2)] 1 by blast
  next
    case (Inr x)
    then show ?thesis using st(2) m 1 by (auto simp: mcatch_def)
  qed
qed

lemma holds_for [call_rules]: "(\<And>x. x \<in> set xs \<Longrightarrow> keeps I (f x)) \<Longrightarrow> keeps I (mfor f xs)"
  by (induction xs) (auto intro!: call_rules)

lemma holds_if [call_rules]: "(b \<Longrightarrow> holds I m Q) \<Longrightarrow> (\<not> b \<Longrightarrow> holds I m' Q) \<Longrightarrow> holds I (if b then m else m') Q"
  by simp

lemma holds_option [call_rules]:
  "(z = None \<Longrightarrow> holds I m Q) \<Longrightarrow> (\<And>x. z = Some x \<Longrightarrow> holds I (f x) Q) \<Longrightarrow> holds I (case z of None \<Rightarrow> m | Some x \<Rightarrow> f x) Q"
  by (cases z) simp_all

lemma holds_pair [call_rules]: "(\<And>x y. z = (x, y) \<Longrightarrow> holds I (f x y) Q) \<Longrightarrow> holds I (case z of (x, y) \<Rightarrow> f x y) Q"
  by (cases z) simp

lemma holds_let [call_rules]: "holds I (f x) Q \<Longrightarrow> holds I (let y = x in f y) Q"
  by simp

lemma holds_map [call_rules]: "keeps I m \<Longrightarrow> keeps I (mmap f m)"
  unfolding mmap_def by (auto intro!: call_rules)

text \<open>The same for a call with what follows it.\<close>

lemma bind_keeps: "keeps I m \<Longrightarrow> (\<And>x. holds I (f x) R) \<Longrightarrow> holds I (mbind m f) R"
  by (rule holds_bind)

lemma bind_lift [bind_rules]: "(\<And>x. r = pok x \<Longrightarrow> holds I (f x) R) \<Longrightarrow> holds I (mbind (mlift r) f) R"
  by (rule holds_bind[OF holds_lift])

lemma bind_unwrap [bind_rules]: "(\<And>x. r = Some x \<Longrightarrow> holds I (f x) R) \<Longrightarrow> holds I (mbind (munwrap r) f) R"
  by (rule holds_bind[OF holds_unwrap])

lemma bind_ret [bind_rules]: "holds I (f x) R \<Longrightarrow> holds I (mbind (mret x) f) R"
  by (simp add: mbind_def mret_def holds_def)

lemma bind_unwrap_state [bind_rules]: "(\<And>x. holds I (f x) R) \<Longrightarrow> holds I (mbind (\<lambda>st. munwrap (g st) st) f) R"
  by (rule bind_keeps) (auto simp: holds_def munwrap_def mret_def mpanic_def split: option.splits)

lemma bind_catch [bind_rules]:
  "(\<And>e. holds I (h e) (\<lambda>_. False)) \<Longrightarrow> (\<And>x. r = pok x \<Longrightarrow> holds I (f x) R) \<Longrightarrow> holds I (mbind (mcatch (mlift r) h) f) R"
  by (rule holds_bind[where Q = "\<lambda>x. r = pok x"]) (intro holds_catch holds_lift, assumption, rule holds_weaken, assumption, simp, simp)

lemma bind_read [bind_rules]: "(\<And>x. holds I (f x) R) \<Longrightarrow> holds I (mbind (store_read g) f) R"
  by (rule bind_keeps) (auto simp: holds_def store_read_def)

lemma bind_assoc: "mbind (mbind m f) g = mbind m (\<lambda>x. mbind (f x) g)"
  by (rule ext) (simp add: mbind_def split: option.splits sum.splits prod.splits)

text \<open>A call that succeeds.\<close>

lemma mbind_Inr: "mbind m f st = Some (Inr r, st') \<longleftrightarrow> (\<exists>x st''. m st = Some (Inr x, st'') \<and> f x st'' = Some (Inr r, st'))"
  by (auto simp: mbind_def split: option.splits sum.splits)

lemma mlift_Inr: "mlift x st = Some (Inr r, st') \<longleftrightarrow> x = pok r \<and> st' = st"
  by (auto simp: mlift_def)

section \<open>Contracts with verified signatures\<close>

definition first_condition :: "AcceptedContract \<Rightarrow> bool" where
  "first_condition a \<longleftrightarrow> contract_info (ac_offered_contract a) \<noteq> [] \<and> adaptor_infos a \<noteq> [] \<and>
     (\<forall>e. contract_descriptor (hd (contract_info (ac_offered_contract a))) = EnumContract e \<longrightarrow> hd (adaptor_infos a) = EnumInfo)"

definition counter_verified :: "btc \<Rightarrow> secp \<Rightarrow> SignedContract \<Rightarrow> bool" where
  "counter_verified B S s \<longleftrightarrow> (let a = accepted_contract s; oc = ac_offered_contract a; t = ac_transactions a; spk = funding_script_pubkey t in
     first_condition a \<and>
     (\<exists>fo. get_fund_output B t = Some fo \<and>
       (case ac_adaptor_signatures a of
          Some sigs \<Rightarrow> (let pk = fund_pubkey (accept_params a) in
            verify_tx_input_sig S (accept_refund_signature a) (refund t) 0 spk (txo_value fo) pk = Inr () \<and>
            (\<exists>txs txs2 n. cets t = txs @ txs2 \<and> verify_and_get_adaptor_info B S (hd (contract_info oc)) (total_collateral oc) pk spk
               (txo_value fo) txs sigs 0 = pok (hd (adaptor_infos a), n)))
        | None \<Rightarrow> (let pk = fund_pubkey (offer_params oc) in
            verify_tx_input_sig S (offer_refund_signature s) (refund t) 0 spk (txo_value fo) pk = Inr () \<and>
            (\<exists>sigs n. sc_adaptor_signatures s = Some sigs \<and>
               verify_infos B S pk spk (txo_value fo) (cets t) sigs (zip (adaptor_infos a) (contract_info oc)) 0 = pok n)))))"

fun contract_ok :: "btc \<Rightarrow> secp \<Rightarrow> Contract \<Rightarrow> bool" where
  "contract_ok B S (Accepted a) \<longleftrightarrow> ac_adaptor_signatures a = None \<and> first_condition a"
| "contract_ok B S (Signed s) \<longleftrightarrow> counter_verified B S s"
| "contract_ok B S (Confirmed s) \<longleftrightarrow> counter_verified B S s"
| "contract_ok B S (Refunded s) \<longleftrightarrow> counter_verified B S s"
| "contract_ok B S (PreClosed p) \<longleftrightarrow> counter_verified B S (pc_signed_contract p)"
| "contract_ok B S c \<longleftrightarrow> True"

lemma accept_later_infos_prefix:
  "accept_later_infos B S oc accept inp sk spk v rest txs infos sigs = pok (txs', infos', sigs') \<Longrightarrow> \<exists>more. infos' = infos @ more"
  by (induction rest arbitrary: txs infos sigs) (force simp: Let_def)+

lemma verify_later_infos_prefix:
  "verify_later_infos B S oc accept inp T spk v sigs rest txs infos k = pok (txs', infos') \<Longrightarrow>
   \<exists>txs2 infos2. txs' = txs @ txs2 \<and> infos' = infos @ infos2"
  by (induction rest arbitrary: txs infos k) (force simp: Let_def)+

lemma accepted_contract_ok:
  assumes "accept_contract_internal B S oc accept inputs sk v spk_opt t = pok (a, sigs)"
  shows "contract_ok B S (Accepted a)"
proof -
  obtain info sig spk inp txs infos where r: "contract_info oc \<noteq> []"
      "get_adaptor_info B S (contract_info oc ! 0) (total_collateral oc) sk spk v (cets t) 0 = pok (info, sig)"
      "accept_later_infos B S oc accept inp sk spk v (drop 1 (contract_info oc)) (cets t) [info] sig = pok (txs, infos, sigs)"
      "adaptor_infos a = infos" "ac_adaptor_signatures a = None" "ac_offered_contract a = oc"
    using assms by (auto simp: accept_contract_internal_def Let_def bind_eq_Some_conv)
  have "info = EnumInfo" if "contract_descriptor (contract_info oc ! 0) = EnumContract e" for e
    using r(2) that by (auto simp: get_adaptor_info_def)
  then show ?thesis using accept_later_infos_prefix[OF r(3)] r(1,4-6) by (auto simp: first_condition_def hd_conv_nth)
qed

lemma accepted_ok: "accept_contract B S K W oc = pok (a, m) \<Longrightarrow> contract_ok B S (Accepted a)"
  using accepted_contract_ok by (fastforce simp: accept_contract_def bind_eq_Some_conv)

lemma accepted_loan_ok:
  assumes "accept_loan_contract B S K W l escrow bhash preimage = pok (a, m)"
  shows "contract_ok B S (Accepted (to_accepted_contract a))"
  using accepted_loan[OF assms] accepted_contract_ok by metis

lemma signed_ok:
  assumes "verify_signed_contract B S a m = pok (s, tx)" "contract_ok B S (Accepted a)"
  shows "contract_ok B S (Signed s)"
  using assms
  by (auto simp: verify_signed_contract_def verify_signed_contract_internal_def input_script_def bind_eq_Some_conv Let_def counter_verified_def)

lemma sign_accepted_ok:
  assumes "sign_accepted B S W oc accept m t = pok (s, msg)"
  shows "contract_ok B S (Signed s)"
proof -
  obtain fo sk where fo: "get_fund_output B t = Some fo"
    and v: "\<exists>own. verify_accepted_and_sign_contract_internal B S oc accept (ad_funding_inputs m) (ad_refund_signature m)
       (ad_cet_adaptor_signatures m) (txo_value fo) sk None None t None = pok (s, own)"
    using assms by (fastforce simp: sign_accepted_def bind_eq_Some_conv)
  from v obtain info n txs infos h own_sig where r: "contract_info oc \<noteq> []"
      "verify_tx_input_sig S (ad_refund_signature m) (refund t) 0 (funding_script_pubkey t) (txo_value fo) (fund_pubkey accept) = Inr ()"
      "verify_and_get_adaptor_info B S (contract_info oc ! 0) (total_collateral oc) (fund_pubkey accept) (funding_script_pubkey t) (txo_value fo)
         (cets t) (ad_cet_adaptor_signatures m) 0 = pok (info, n)"
      "verify_later_infos B S oc accept (tx_input (cets t ! 0) ! 0) (collateral (offer_params oc) + collateral accept) (funding_script_pubkey t)
         (txo_value fo) (ad_cet_adaptor_signatures m) (drop 1 (contract_info oc)) (cets t) [info] n = pok (txs, infos)"
      "accepted_contract s = \<lparr>ac_offered_contract = oc, accept_params = accept, ac_funding_inputs = ad_funding_inputs m, adaptor_infos = infos,
         ac_adaptor_signatures = Some (ad_cet_adaptor_signatures m), accept_refund_signature = ad_refund_signature m, ac_transactions = t\<lparr>cets := txs\<rparr>\<rparr>"
    by (auto simp: verify_accepted_and_sign_contract_internal_def input_script_def Let_def bind_eq_Some_conv)
  obtain txs2 infos2 where more: "txs = cets t @ txs2" "infos = [info] @ infos2" using verify_later_infos_prefix[OF r(4)] by blast
  have "info = EnumInfo" if "contract_descriptor (contract_info oc ! 0) = EnumContract e" for e
    using r(3) that by (auto simp: verify_and_get_adaptor_info_def)
  then show ?thesis using r(1-3) fo more by (auto simp: counter_verified_def Let_def r(5) hd_conv_nth first_condition_def)
qed

lemma verified_acceptance_ok:
  "verify_accepted_and_sign_contract B S K W oc m = pok (s, msg) \<Longrightarrow> contract_ok B S (Signed s)"
  "verify_accepted_and_sign_loan_contract B S K W oc m tx spk = pok (s, msg) \<Longrightarrow> contract_ok B S (Signed s)"
  using sign_accepted_ok by (fastforce simp: verify_accepted_and_sign_contract_def verify_accepted_and_sign_loan_contract_def bind_eq_Some_conv)+

section \<open>The store of a manager\<close>

definition store_ok :: "btc \<Rightarrow> secp \<Rightarrow> ('s \<Rightarrow> bytes \<Rightarrow> Contract option) \<Rightarrow> 's mgr_state \<Rightarrow> bool" where
  "store_ok B S V st \<longleftrightarrow> (\<forall>i c. V (contract_db st) i = Some c \<longrightarrow> get_id B c = Some i \<and> contract_ok B S c)"

context contract_store
begin

definition serves :: "'e \<Rightarrow> 's Manager \<Rightarrow> bool" where
  "serves e M \<longleftrightarrow> lawful e \<and> m_store M = ops e \<and> m_btc M = btc_of e"

abbreviation ok :: "'e \<Rightarrow> 's Manager \<Rightarrow> 's mgr_state \<Rightarrow> bool" where
  "ok e M \<equiv> store_ok (m_btc M) (m_secp M) (view e)"

lemma keeps_update [call_rules]:
  assumes "serves e M" "contract_ok (m_btc M) (m_secp M) c"
  shows "keeps (ok e M) (update_contract M c)"
proof (rule holdsI)
  fix st r st' assume st: "ok e M st" "update_contract M c st = Some (r, st')"
  have "contract_db st' = contract_db st \<or> st_update_contract (ops e) (contract_db st) c = pok (contract_db st')"
    using st(2) assms(1) by (auto simp: update_contract_def store_write_def serves_def split: option.splits sum.splits)
  moreover have "store_ok (m_btc M) (m_secp M) (view e) st'" if u: "st_update_contract (ops e) (contract_db st) c = pok (contract_db st')"
  proof -
    obtain i where i: "get_id (m_btc M) c = Some i" "view e (contract_db st') = updated (view e (contract_db st)) i c"
      using update[OF _ u] assms(1) by (auto simp: serves_def)
    show ?thesis unfolding store_ok_def i(2)
      using st(1) i(1) assms(2) updated_SomeD[of "view e (contract_db st)" i c] unfolding store_ok_def by metis
  qed
  ultimately show "ok e M st' \<and> (\<forall>x. r = Inr x \<longrightarrow> True)" using st(1) by (auto simp: store_ok_def)
qed

lemma keeps_write:
  assumes "\<And>s s'. f s = pok s' \<Longrightarrow> (\<forall>i c. view e s' i = Some c \<longrightarrow> view e s i = Some c \<or> get_id (m_btc M) c = Some i \<and> contract_ok (m_btc M) (m_secp M) c)"
  shows "keeps (ok e M) (store_write f)"
proof (rule holdsI)
  fix st r st' assume st: "ok e M st" "store_write f st = Some (r, st')"
  then have "contract_db st' = contract_db st \<or> f (contract_db st) = pok (contract_db st')"
    by (auto simp: store_write_def split: option.splits sum.splits)
  then show "ok e M st' \<and> (\<forall>x. r = Inr x \<longrightarrow> True)" using st(1) assms unfolding store_ok_def by metis
qed

lemma keeps_create [call_rules]:
  assumes "serves e M"
  shows "keeps (ok e M) (store_write (\<lambda>s. Some (st_create_contract (m_store M) s oc)))"
    "keeps (ok e M) (store_write (\<lambda>s. Some (st_create_loan_contract (m_store M) s l)))"
proof -
  have "lawful e" "m_store M = ops e" using assms by (simp_all add: serves_def)
  note laws = create[OF this(1)] create_loan[OF this(1)]
  show "keeps (ok e M) (store_write (\<lambda>s. Some (st_create_contract (m_store M) s oc)))"
    "keeps (ok e M) (store_write (\<lambda>s. Some (st_create_loan_contract (m_store M) s l)))"
    unfolding \<open>m_store M = ops e\<close> by (rule keeps_write, use laws in auto)+
qed

lemma keeps_side_tables [call_rules]:
  assumes "serves e M"
  shows "keeps (ok e M) (store_write (\<lambda>s. Some (st_set_loan_preimage (m_store M) s i n)))"
    "keeps (ok e M) (store_write (\<lambda>s. Some (st_set_escrow_txid (m_store M) s i t)))"
proof -
  have "lawful e" "m_store M = ops e" using assms by (simp_all add: serves_def)
  note laws = set_preimage[OF this(1)] set_escrow[OF this(1)]
  show "keeps (ok e M) (store_write (\<lambda>s. Some (st_set_loan_preimage (m_store M) s i n)))"
    "keeps (ok e M) (store_write (\<lambda>s. Some (st_set_escrow_txid (m_store M) s i t)))"
    unfolding \<open>m_store M = ops e\<close> by (rule keeps_write, use laws in auto)+
qed

lemma keeps_broadcast [call_rules]: "keeps (ok e M) (broadcast_tx M tx)"
  by (auto simp: holds_def broadcast_tx_def store_ok_def split: sum.splits)

lemma bind_in_state [bind_rules]:
  assumes "serves e M" "\<And>x c. sel c = Some x \<Longrightarrow> get_id (m_btc M) c = Some i \<Longrightarrow> contract_ok (m_btc M) (m_secp M) c \<Longrightarrow> holds (ok e M) (f x) R"
  shows "holds (ok e M) (mbind (get_contract_in_state M i sel peer) f) R"
proof (rule holds_bind[where Q = "\<lambda>x. \<exists>c. sel c = Some x \<and> get_id (m_btc M) c = Some i \<and> contract_ok (m_btc M) (m_secp M) c"])
  show "holds (ok e M) (get_contract_in_state M i sel peer) (\<lambda>x. \<exists>c. sel c = Some x \<and> get_id (m_btc M) c = Some i \<and> contract_ok (m_btc M) (m_secp M) c)"
  proof (rule holdsI)
    fix st r st' assume st: "ok e M st" "get_contract_in_state M i sel peer st = Some (r, st')"
    then have "st' = st" and "\<forall>x. r = Inr x \<longrightarrow> (\<exists>c. st_get_contract (m_store M) (contract_db st) i = Inr (Some c) \<and> sel c = Some x)"
      by (auto simp: get_contract_in_state_def mbind_def store_read_def mret_def mfail_def split: sum.splits option.splits if_splits)
    then show "ok e M st' \<and> (\<forall>x. r = Inr x \<longrightarrow> (\<exists>c. sel c = Some x \<and> get_id (m_btc M) c = Some i \<and> contract_ok (m_btc M) (m_secp M) c))"
      using st(1) get[of e] assms(1) unfolding serves_def store_ok_def by metis
  qed
qed (use assms(2) in blast)

text \<open>Every call of the manager keeps the store in order.\<close>

lemma keeps_accept_fail [call_rules]: "serves e M \<Longrightarrow> holds (ok e M) (accept_fail_on_error M oc msg err) (\<lambda>_. False)"
  unfolding accept_fail_on_error_def by (intro bind_keeps keeps_update holds_fail) simp_all

lemma keeps_sign_fail [call_rules]: "serves e M \<Longrightarrow> holds (ok e M) (sign_fail_on_error M a msg err) (\<lambda>_. False)"
  unfolding sign_fail_on_error_def by (intro bind_keeps keeps_update holds_fail) simp_all

lemma keeps_offers:
  assumes "serves e M"
  shows "keeps (ok e M) (send_offer M input cp)" "keeps (ok e M) (send_offer_loan M linput cp)"
    "keeps (ok e M) (on_offer_message M omsg cp)" "keeps (ok e M) (on_offer_loan_message M lmsg cp)"
proof -
  have known: "keeps (ok e M) (refuse_known_id M i)" for i
    unfolding refuse_known_id_def by (intro bind_read call_rules) simp
  note rules = bind_rules holds_pair holds_let holds_ret bind_keeps[OF keeps_create(1)[OF assms]] bind_keeps[OF keeps_create(2)[OF assms]]
    bind_keeps[OF holds_ignore[OF keeps_side_tables(1)[OF assms]]] bind_keeps[OF known] keeps_create[OF assms]
  show "keeps (ok e M) (send_offer M input cp)" unfolding send_offer_def send_offer_with_announcements_def by (intro rules; simp)
  show "keeps (ok e M) (send_offer_loan M linput cp)"
    unfolding send_offer_loan_def send_offer_loan_with_announcements_def by (intro rules; simp)
  show "keeps (ok e M) (on_offer_message M omsg cp)" unfolding on_offer_message_def by (intro rules; simp)
  show "keeps (ok e M) (on_offer_loan_message M lmsg cp)" unfolding on_offer_loan_message_def by (intro rules; simp)
qed

lemma keeps_log_broadcast: "keeps (ok e M) (\<lambda>st. Some (Inr (), st\<lparr>broadcast := x st\<rparr>))"
  by (simp add: holds_def store_ok_def)

lemma keeps_acceptances:
  assumes "serves e M"
  shows "keeps (ok e M) (accept_contract_offer M i)" "keeps (ok e M) (initiate_accept_loan_contract_offer M i)"
    "keeps (ok e M) (accept_loan_contract_offer M i)" "keeps (ok e M) (on_accept_message M amsg cp)"
    "keeps (ok e M) (on_accept_loan_message M almsg cp)" "keeps (ok e M) (on_initiate_accept_loan_message M imsg cp pk)"
    "keeps (ok e M) (on_sign_message M smsg cp)"
proof -
  note rules = bind_in_state[OF assms] bind_rules holds_pair holds_let holds_ret bind_keeps[OF keeps_update[OF assms]] keeps_update[OF assms]
    bind_keeps[OF keeps_broadcast] bind_keeps[OF keeps_log_broadcast] keeps_accept_fail[OF assms] keeps_sign_fail[OF assms]
    bind_keeps[OF holds_ignore[OF keeps_side_tables(1)[OF assms]]] bind_keeps[OF holds_ignore[OF keeps_side_tables(2)[OF assms]]] holds_lift
  show "keeps (ok e M) (accept_contract_offer M i)" unfolding accept_contract_offer_def
    by (intro rules; use accepted_ok in \<open>auto simp del: contract_ok.simps\<close>)
  show "keeps (ok e M) (initiate_accept_loan_contract_offer M i)" unfolding initiate_accept_loan_contract_offer_def by (intro rules; simp)
  show "keeps (ok e M) (accept_loan_contract_offer M i)" unfolding accept_loan_contract_offer_def
    by (intro rules; use accepted_loan_ok in \<open>auto simp del: contract_ok.simps\<close>)
  show "keeps (ok e M) (on_accept_message M amsg cp)" unfolding on_accept_message_def
    by (intro rules; use verified_acceptance_ok in \<open>auto simp del: contract_ok.simps\<close>)
  show "keeps (ok e M) (on_accept_loan_message M almsg cp)" unfolding on_accept_loan_message_def
    by (intro rules; use verified_acceptance_ok in \<open>auto simp del: contract_ok.simps\<close>)
  show "keeps (ok e M) (on_initiate_accept_loan_message M imsg cp pk)" unfolding on_initiate_accept_loan_message_def by (intro rules; simp)
  have "contract_ok B S (Accepted a)" if "as_accepted c = Some a" "contract_ok B S c" for B S c a
    using that by (cases c) simp_all
  then show "keeps (ok e M) (on_sign_message M smsg cp)" unfolding on_sign_message_def
    by (intro rules; use signed_ok in \<open>auto simp del: contract_ok.simps\<close>)
qed

lemma keeps_close_contract:
  assumes "counter_verified (m_btc M) (m_secp M) s"
  shows "holds (ok e M) (close_contract M s cet atts) (contract_ok (m_btc M) (m_secp M))"
  unfolding close_contract_def
  by (intro holds_let bind_rules holds_if holds_ret bind_keeps[OF keeps_broadcast]; use assms in simp)

lemma keeps_checks:
  assumes "serves e M" "counter_verified (m_btc M) (m_secp M) s"
  shows "keeps (ok e M) (check_refund M s)" "keeps (ok e M) (check_confirmed_contract M s)" "keeps (ok e M) (check_signed_contract M s)"
    "keeps (ok e M) (on_counterparty_close M s tx n)"
proof -
  note rules = bind_rules holds_pair holds_let holds_ret holds_if holds_option holds_fail holds_lift keeps_broadcast
    bind_keeps[OF keeps_update[OF assms(1)]] keeps_update[OF assms(1)]
  show refund: "keeps (ok e M) (check_refund M s)" unfolding check_refund_def
    by (intro rules bind_keeps[OF holds_if]; use assms(2) in simp)
  have close: "holds (ok e M) (mcatch (close_contract M s cet atts) (\<lambda>err. mbind (munwrap z) (\<lambda>_. mfail err))) (contract_ok (m_btc M) (m_secp M))"
    for cet atts z
    by (intro holds_catch keeps_close_contract assms(2) bind_unwrap holds_fail)
  have cet: "keeps (ok e M) (signed_cet_of M s ci info atts)" for ci info atts unfolding signed_cet_of_def by (intro rules; simp)
  show "keeps (ok e M) (check_confirmed_contract M s)" unfolding check_confirmed_contract_def
    by (intro holds_option holds_pair refund bind_keeps[OF cet] holds_bind[OF close] keeps_update[OF assms(1)])
  show "keeps (ok e M) (check_signed_contract M s)" unfolding check_signed_contract_def by (intro rules; use assms(2) in simp)
  have c: "holds (ok e M) (if b then mret (Refunded s) else if b' then mret (PreClosed \<lparr>pc_signed_contract = s, pc_attestations = x, pc_signed_cet = tx\<rparr>)
       else mbind (mlift r) (\<lambda>c. mret (Closed c))) (contract_ok (m_btc M) (m_secp M))" for b b' x tx r
    by (intro rules; use assms(2) in simp)
  have out: "keeps (ok e M) (if b then mret None else munwrap r)" for b and r :: "OutPoint option option" by (intro rules holds_unwrap; simp)
  show "keeps (ok e M) (on_counterparty_close M s tx n)" unfolding on_counterparty_close_def Let_def
    by (rule bind_keeps[OF out], rule holds_if, rule holds_fail, rule holds_bind[OF c], intro rules; simp)
qed

lemma bind_stored:
  assumes "serves e M" "\<And>xs. (\<And>x. x \<in> set xs \<Longrightarrow> contract_ok (m_btc M) (m_secp M) (con x)) \<Longrightarrow> holds (ok e M) (f xs) R"
    "\<And>s xs x. g s = pok xs \<Longrightarrow> x \<in> set xs \<longleftrightarrow> (\<exists>i. view e s i = Some (con x))"
  shows "holds (ok e M) (mbind (store_read g) f) R"
proof (rule holds_bind[where Q = "\<lambda>xs. \<forall>x \<in> set xs. contract_ok (m_btc M) (m_secp M) (con x)"])
  show "holds (ok e M) (store_read g) (\<lambda>xs. \<forall>x \<in> set xs. contract_ok (m_btc M) (m_secp M) (con x))"
    using assms(3) by (fastforce simp: holds_def store_read_def store_ok_def)
qed (use assms(2) in blast)

lemma keeps_close_confirmed:
  assumes "serves e M"
  shows "keeps (ok e M) (close_confirmed_contract M i atts)"
proof -
  have verified: "counter_verified B S s" if "as_confirmed c = Some s" "contract_ok B S c" for B S c s using that by (cases c) simp_all
  have cet: "keeps (ok e M) (signed_cet_of M s ci info atts)" for s ci info atts
    unfolding signed_cet_of_def by (intro bind_rules holds_lift; simp)
  have tail: "keeps (ok e M) (mbind (close_contract M s cet atts) (\<lambda>c. mbind (update_contract M c) (\<lambda>_. mret c)))"
    if "counter_verified (m_btc M) (m_secp M) s" for s cet atts
    by (rule holds_bind[OF keeps_close_contract[OF that]], rule bind_keeps[OF keeps_update[OF assms]]) (auto intro: holds_ret)
  show ?thesis unfolding close_confirmed_contract_def
    by (intro bind_in_state[OF assms] holds_let bind_unwrap holds_option holds_pair bind_keeps[OF cet] bind_lift holds_if holds_fail tail verified)
qed

lemma keeps_periodic:
  assumes "serves e M"
  shows "keeps (ok e M) (periodic_check M pk)" "keeps (ok e M) (periodic_chain_monitor M)"
proof -
  have laws: "lawful e" "m_store M = ops e" using assms by (simp_all add: serves_def)
  note reads = loans[OF laws(1)] signed[OF laws(1)] confirmed[OF laws(1)] preclosed[OF laws(1)]
  note rules = bind_rules holds_pair holds_let holds_ret holds_if holds_option holds_fail holds_lift holds_for holds_ignore
    bind_keeps[OF keeps_update[OF assms]] keeps_update[OF assms]
  have loan: "keeps (ok e M) (check_offered_loan_contract M l)" for l
  proof -
    have claim: "keeps (ok e M) (if b then mlift r else mret ())" for b and r :: "(Error + unit) option" by (intro rules; simp)
    show ?thesis unfolding check_offered_loan_contract_def by (intro bind_keeps[OF claim] rules; simp)
  qed
  have 1: "keeps (ok e M) (check_offered_loan_contracts_for_escrow M pk)"
    unfolding check_offered_loan_contracts_for_escrow_def by (intro bind_rules holds_for loan)
  have 2: "keeps (ok e M) (check_signed_contracts M)" unfolding check_signed_contracts_def each_logged_def
    by (rule bind_stored[OF assms, where con = Signed], intro holds_for holds_ignore keeps_checks[OF assms])
      (auto simp: laws(2) reads)
  have 3: "keeps (ok e M) (check_confirmed_contracts M)" unfolding check_confirmed_contracts_def each_logged_def
    by (rule bind_stored[OF assms, where con = Confirmed], intro holds_for holds_ignore keeps_checks[OF assms])
      (auto simp: laws(2) reads)
  have pre: "keeps (ok e M) (check_preclosed_contract M p)" for p
    unfolding check_preclosed_contract_def by (intro rules; simp)
  have 4: "keeps (ok e M) (check_preclosed_contracts M)" unfolding check_preclosed_contracts_def each_logged_def
    by (intro bind_rules holds_for holds_ignore pre)
  show "keeps (ok e M) (periodic_check M pk)" unfolding periodic_check_def by (intro bind_keeps 1 2 3 4)
  have "keeps (ok e M) (\<lambda>st. map_option (\<lambda>m. (Inr (), st\<lparr>monitor := m\<rparr>)) (z st))" for z
    by (auto simp: holds_def store_ok_def)
  then have height: "keeps (ok e M) (process_height M h)" for h
    unfolding process_height_def by (intro bind_lift)
  have "keeps (ok e M) (\<lambda>st. if p st then mfail err st else mfor (process_height M) (hs st) st)" for p err hs
  proof (rule holdsI)
    fix st r st' assume st: "ok e M st" "(if p st then mfail err st else mfor (process_height M) (hs st) st) = Some (r, st')"
    have "keeps (ok e M) (mfor (process_height M) (hs st))" by (intro holds_for height)
    from holdsD[OF this st(1)] show "ok e M st' \<and> (\<forall>x. r = Inr x \<longrightarrow> True)"
      using st by (cases "p st") (auto simp: mfail_def)
  qed
  then show "keeps (ok e M) (periodic_chain_monitor M)" unfolding periodic_chain_monitor_def by (intro bind_lift)
qed

end

section \<open>Reachable states\<close>

text \<open>
  A step is any call that returns, with any answers of the outside world. The contract that \<open>on_counterparty_close\<close> is given
  is one that its caller has read as signed or confirmed from the store.
\<close>

inductive mgr_step :: "'s Manager \<Rightarrow> 's mgr_state \<Rightarrow> 's mgr_state \<Rightarrow> bool" for M where
  sent_offer: "send_offer M input cp st = Some (r, st') \<Longrightarrow> mgr_step M st st'"
| sent_loan_offer: "send_offer_loan M linput cp st = Some (r, st') \<Longrightarrow> mgr_step M st st'"
| accepted_offer: "accept_contract_offer M i st = Some (r, st') \<Longrightarrow> mgr_step M st st'"
| initiated_loan: "initiate_accept_loan_contract_offer M i st = Some (r, st') \<Longrightarrow> mgr_step M st st'"
| accepted_loan_offer: "accept_loan_contract_offer M i st = Some (r, st') \<Longrightarrow> mgr_step M st st'"
| received: "on_dlc_message M msg cp pk st = Some (r, st') \<Longrightarrow> mgr_step M st st'"
| closed_by_user: "close_confirmed_contract M i atts st = Some (r, st') \<Longrightarrow> mgr_step M st st'"
| closed_by_counterparty: "st_get_contract (m_store M) (contract_db st) i = Inr (Some c) \<Longrightarrow> c = Signed s \<or> c = Confirmed s \<Longrightarrow>
    on_counterparty_close M s tx n st = Some (r, st') \<Longrightarrow> mgr_step M st st'"
| checked: "periodic_check M pk st = Some (r, st') \<Longrightarrow> mgr_step M st st'"
| monitored: "periodic_chain_monitor M st = Some (r, st') \<Longrightarrow> mgr_step M st st'"

inductive reachable :: "btc \<Rightarrow> secp \<Rightarrow> 's Storage \<Rightarrow> 's mgr_state \<Rightarrow> 's mgr_state \<Rightarrow> bool" for B S T st0 where
  start: "reachable B S T st0 st0"
| step: "reachable B S T st0 st \<Longrightarrow> m_btc M = B \<Longrightarrow> m_secp M = S \<Longrightarrow> m_store M = T \<Longrightarrow> mgr_step M st st' \<Longrightarrow> reachable B S T st0 st'"

context contract_store
begin

lemma step_keeps:
  assumes "serves e M" "mgr_step M st st'" "ok e M st"
  shows "ok e M st'"
  using assms(2)
proof cases
  case (received msg cp pk r)
  have "keeps (ok e M) (on_dlc_message M msg cp pk)"
    by (cases msg) (auto intro!: holds_map keeps_offers[OF assms(1)] keeps_acceptances[OF assms(1)])
  then show ?thesis using keepsD received assms(3) by metis
next
  case (closed_by_counterparty i c s tx n r)
  have "view e (contract_db st) i = Some c"
    using get[of e "contract_db st" i] closed_by_counterparty(1) assms(1) by (auto simp: serves_def)
  then have "contract_ok (m_btc M) (m_secp M) c" using assms(3) by (auto simp: store_ok_def)
  then have "counter_verified (m_btc M) (m_secp M) s" using closed_by_counterparty(2) by auto
  from keepsD[OF keeps_checks(4)[OF assms(1) this] closed_by_counterparty(3) assms(3)] show ?thesis .
qed (erule keeps_offers[OF assms(1), THEN keepsD] keeps_acceptances[OF assms(1), THEN keepsD]
    keeps_close_confirmed[OF assms(1), THEN keepsD] keeps_periodic[OF assms(1), THEN keepsD], rule assms(3))+

lemma reachable_ok:
  assumes "reachable (btc_of e) S (ops e) st0 st" "lawful e" "store_ok (btc_of e) S (view e) st0"
  shows "store_ok (btc_of e) S (view e) st"
  using assms(1)
proof induction
  case (step st M st')
  have "serves e M" using step.hyps assms(2) by (simp add: serves_def)
  from step_keeps[OF this step.hyps(5)] show ?case using step by simp
qed (rule assms(3))

end

section \<open>Closing and refunding what is stored\<close>

text \<open>Which side made a contract is also which signatures it has; \<open>false_role_panics\<close> is about the other case.\<close>

definition roles_agree :: "SignedContract \<Rightarrow> bool" where
  "roles_agree s \<longleftrightarrow> (is_offer_party (ac_offered_contract (accepted_contract s)) \<longleftrightarrow> ac_adaptor_signatures (accepted_contract s) \<noteq> None)"

definition counter_refund :: "SignedContract \<Rightarrow> pubkey \<times> bytes" where
  "counter_refund s = (let a = accepted_contract s; oc = ac_offered_contract a in
     if is_offer_party oc then (fund_pubkey (accept_params a), accept_refund_signature a)
     else (fund_pubkey (offer_params oc), offer_refund_signature s))"

lemma verified_counter:
  assumes "counter_verified B S s" "roles_agree s"
  obtains fo sigs where "get_fund_output B (ac_transactions (accepted_contract s)) = Some fo"
    "counter_adaptor_sigs s = Some (sigs, fst (counter_refund s))"
    "verify_tx_input_sig S (snd (counter_refund s)) (refund (ac_transactions (accepted_contract s))) 0
       (funding_script_pubkey (ac_transactions (accepted_contract s))) (txo_value fo) (fst (counter_refund s)) = Inr ()"
  using assms
  by (auto simp: counter_verified_def roles_agree_def counter_adaptor_sigs_def counter_refund_def Let_def split: option.splits)

lemma iter_points_more:
  assumes "iter_points S infos (\<lambda>point i index. obind (vget sigs index) (\<lambda>sig. obind (u64_add index 1) (\<lambda>n.
       obind (vget txs i) (\<lambda>cet. pbind (Some (verify_cet_adaptor_sig_from_point S pk spk v sig cet point)) (\<lambda>_. pok n))))) slots start = pok n"
  shows "iter_points S infos (\<lambda>point i index. obind (vget sigs index) (\<lambda>sig. obind (u64_add index 1) (\<lambda>n.
       obind (vget (txs @ txs2) i) (\<lambda>cet. pbind (Some (verify_cet_adaptor_sig_from_point S pk spk v sig cet point)) (\<lambda>_. pok n))))) slots start = pok n"
  using assms
proof (induction slots arbitrary: start)
  case (Cons slot slots)
  then show ?case by (cases slot; cases "fst slot") (auto simp: bind_eq_Some_conv nth_append)
qed simp

lemma enum_verify_more:
  assumes "enum_verify B S e infos thr pk spk v txs sigs start = pok n" "0 < thr" "thr \<le> length infos"
  shows "enum_verify B S e infos thr pk spk v (txs @ txs2) sigs start = pok n"
  using iter_points_more assms unfolding enum_verify_def iter_outcomes_run[OF assms(2,3)] by blast

lemma verified_enum:
  assumes "counter_verified B S s" "roles_agree s" "contract_info (ac_offered_contract (accepted_contract s)) = ci # cis"
    "contract_descriptor ci = EnumContract e" "0 < ci_threshold ci" "ci_threshold ci \<le> length (oracle_announcements ci)"
  shows "\<exists>fo sigs n infos. get_fund_output B (ac_transactions (accepted_contract s)) = Some fo \<and>
    counter_adaptor_sigs s = Some (sigs, fst (counter_refund s)) \<and> adaptor_infos (accepted_contract s) = EnumInfo # infos \<and>
    enum_verify B S e (get_oracle_infos ci) (ci_threshold ci) (fst (counter_refund s)) (funding_script_pubkey (ac_transactions (accepted_contract s)))
      (txo_value fo) (cets (ac_transactions (accepted_contract s))) sigs 0 = pok n"
proof -
  let ?a = "accepted_contract s"
  let ?oc = "ac_offered_contract ?a" and ?t = "ac_transactions ?a" and ?pk = "fst (counter_refund s)"
  have len: "ci_threshold ci \<le> length (get_oracle_infos ci)" using assms(6) by (simp add: get_oracle_infos_def)
  have first: "first_condition ?a" using assms(1) by (simp add: counter_verified_def Let_def)
  then obtain infos where infos: "adaptor_infos ?a = EnumInfo # infos"
    using assms(3,4) by (cases "adaptor_infos ?a") (auto simp: first_condition_def)
  obtain fo where fo: "get_fund_output B ?t = Some fo" and cases: "case ac_adaptor_signatures ?a of
      Some sigs \<Rightarrow> (\<exists>txs txs2 n. cets ?t = txs @ txs2 \<and> verify_and_get_adaptor_info B S ci (total_collateral ?oc) (fund_pubkey (accept_params ?a))
        (funding_script_pubkey ?t) (txo_value fo) txs sigs 0 = pok (EnumInfo, n))
    | None \<Rightarrow> (\<exists>sigs n. sc_adaptor_signatures s = Some sigs \<and> verify_infos B S (fund_pubkey (offer_params ?oc)) (funding_script_pubkey ?t)
        (txo_value fo) (cets ?t) sigs ((EnumInfo, ci) # zip infos cis) 0 = pok n)"
    using assms(1,3) infos by (auto simp: counter_verified_def Let_def split: option.splits)
  show ?thesis
  proof (cases "ac_adaptor_signatures ?a")
    case None
    then obtain sigs n where "sc_adaptor_signatures s = Some sigs" "enum_verify B S e (get_oracle_infos ci) (ci_threshold ci) (fund_pubkey (offer_params ?oc))
        (funding_script_pubkey ?t) (txo_value fo) (cets ?t) sigs 0 = pok n"
      using cases assms(4) by (auto simp: verify_adaptor_info_def)
    then show ?thesis using None fo infos assms(2) by (auto simp: roles_agree_def counter_adaptor_sigs_def counter_refund_def Let_def)
  next
    case (Some sigs)
    then obtain txs txs2 n where "cets ?t = txs @ txs2" "enum_verify B S e (get_oracle_infos ci) (ci_threshold ci) (fund_pubkey (accept_params ?a))
        (funding_script_pubkey ?t) (txo_value fo) txs sigs 0 = pok n"
      using cases assms(4) by (auto simp: verify_and_get_adaptor_info_def)
    then show ?thesis using Some fo infos assms(2) enum_verify_more[OF _ assms(5) len]
      by (auto simp: roles_agree_def counter_adaptor_sigs_def counter_refund_def Let_def)
  qed
qed

end
