(* ===== verification/ManagerStore.thy ===== *)
theory ManagerStore
  imports ManagerSpec SledStorage
begin

text \<open>
  The manager on the sled store: what is stored as signed or confirmed has verified signatures of the counterparty, and can
  therefore be refunded after its lock time and closed when its event is attested.
\<close>

section \<open>Every stored contract is verified\<close>

text \<open>
  C2: Whatever messages, answers of the chain and calls of the user a manager has processed, a contract in its store is under
  its own id, and a signed, confirmed, refunded or pre-closed contract carries adaptor signatures and a refund signature of the
  counterparty that verify over its own transactions.
\<close>

theorem stored_contracts_verified:
  assumes "sled_laws D" "storage_codec_laws C" "reachable B S (sled_storage B (D, C)) st0 st"
    "store_ok B S (sled_view (D, C)) st0" "sled_view (D, C) (contract_db st) i = Some c"
  shows "get_id B c = Some i \<and> contract_ok B S c"
proof -
  have "store_ok B S (sled_view (D, C)) st"
    using sled.reachable_ok[of "(B, (D, C))" S st0 st] assms(1-4) by (simp add: sled_lawful_def)
  then show ?thesis using assms(5) by (auto simp: store_ok_def)
qed

section \<open>Refunding\<close>

lemma stored_same_id:
  assumes "store_ok B S V st" "V (contract_db st) i = Some (Confirmed s)"
  shows "get_contract_id B (accepted_contract s) = Some i" "counter_verified B S s"
  using assms by (force simp: store_ok_def)+

text \<open>The result of storing a contract with a known id, which may fail but not panic.\<close>

lemma sled_update_returns:
  assumes "sled_laws D" "storage_codec_laws C" "m_store M = sled_storage B (D, C)" "get_id B c = Some i" "\<not> leaves_temporary_id c"
  shows "\<exists>r st'. update_contract M c st = Some (r, st') \<and> broadcast st' = broadcast st \<and>
    (r = Inr () \<longrightarrow> sled_view (D, C) (contract_db st') i = Some c)"
proof -
  obtain r where r: "sled_update_contract B (D, C) (contract_db st) c = Some r"
    using assms(4) by (fastforce simp: sled_update_contract_def pbind_def split: sum.splits)
  have u: "update_contract M c st = (case r of Inl e \<Rightarrow> Some (Inl e, st) | Inr s' \<Rightarrow> Some (Inr (), st\<lparr>contract_db := s'\<rparr>))"
    using r by (simp add: update_contract_def store_write_def assms(3) sled_storage_def)
  show ?thesis
  proof (cases r)
    case (Inr s')
    then show ?thesis using u sled_update_view[OF assms(1,2), of B "contract_db st" c s'] r assms(4) by auto
  qed (use u in auto)
qed


lemma signed_refund:
  assumes "counter_verified B S s" "roles_agree s" "tx_input (refund (ac_transactions (accepted_contract s))) \<noteq> []"
  shows "\<exists>tx h fo. get_fund_output B (ac_transactions (accepted_contract s)) = Some fo \<and>
    get_signed_refund B S s (Inr sk) = pok tx \<and> tx_output tx = tx_output (refund (ac_transactions (accepted_contract s))) \<and>
    get_sig_hash_msg S (refund (ac_transactions (accepted_contract s))) 0 (funding_script_pubkey (ac_transactions (accepted_contract s))) (txo_value fo) = Inr h \<and>
    verify_ecdsa S h (snd (counter_refund s)) (fst (counter_refund s)) = Inr () \<and>
    witness (tx_input tx ! 0) = [[], serialize_der S (sign_ecdsa S h sk) @ [1], serialize_der S (snd (counter_refund s)) @ [1],
      funding_script_pubkey (ac_transactions (accepted_contract s))]"
proof -
  let ?t = "ac_transactions (accepted_contract s)"
  obtain fo where fo: "get_fund_output B ?t = Some fo"
    and v: "verify_tx_input_sig S (snd (counter_refund s)) (refund ?t) 0 (funding_script_pubkey ?t) (txo_value fo) (fst (counter_refund s)) = Inr ()"
    using verified_counter[OF assms(1,2)] by metis
  then obtain h where h: "get_sig_hash_msg S (refund ?t) 0 (funding_script_pubkey ?t) (txo_value fo) = Inr h"
      "verify_ecdsa S h (snd (counter_refund s)) (fst (counter_refund s)) = Inr ()"
    by (auto simp: verify_tx_input_sig_def)
  have "0 < length (tx_input (refund ?t))" using assms(3) by simp
  from sign_multi_sig_input_ok[OF this h(1), of "snd (counter_refund s)" "fst (counter_refund s)" sk] fo h
  show ?thesis by (auto simp: get_signed_refund_def counter_refund_def Let_def)
qed

text \<open>
  C12: A stored confirmed contract is refunded when its lock time has passed and the refund is not on the chain: the periodic
  check broadcasts the refund transaction with the own signature and a signature that is valid for the key of the counterparty,
  and stores the contract as refunded unless the database fails.
\<close>

theorem confirmed_contract_is_refunded:
  assumes "sled_laws D" "storage_codec_laws C" "m_store M = sled_storage (m_btc M) (D, C)"
    "store_ok (m_btc M) (m_secp M) (sled_view (D, C)) st" "sled_view (D, C) (contract_db st) i = Some (Confirmed s)" "roles_agree s"
    "refund_tx = refund (ac_transactions (accepted_contract s))" "tx_input refund_tx \<noteq> []"
    "lock_time refund_tx \<le> unix_time_now (m_world M)"
    "get_transaction_confirmations (m_chain M) (compute_txid (m_btc M) refund_tx) = Inr 0"
    "derive_contract_signer (m_world M) (keys_id (ac_offered_contract (accepted_contract s))) = Inr signer"
    "signer_secret_key (m_world M) signer = Inr sk" "\<And>tx. send_transaction (m_chain M) tx = Inr ()"
  shows "\<exists>r st' tx h fo. check_refund M s st = Some (r, st') \<and> broadcast st' = broadcast st @ [tx] \<and> tx_output tx = tx_output refund_tx \<and>
    get_fund_output (m_btc M) (ac_transactions (accepted_contract s)) = Some fo \<and>
    get_sig_hash_msg (m_secp M) refund_tx 0 (funding_script_pubkey (ac_transactions (accepted_contract s))) (txo_value fo) = Inr h \<and>
    verify_ecdsa (m_secp M) h (snd (counter_refund s)) (fst (counter_refund s)) = Inr () \<and>
    witness (tx_input tx ! 0) = [[], serialize_der (m_secp M) (sign_ecdsa (m_secp M) h sk) @ [1],
      serialize_der (m_secp M) (snd (counter_refund s)) @ [1], funding_script_pubkey (ac_transactions (accepted_contract s))] \<and>
    (r = Inr () \<longrightarrow> sled_view (D, C) (contract_db st') i = Some (Refunded s))"
proof -
  note stored = stored_same_id[OF assms(4), OF assms(5)]
  obtain tx h fo where tx: "get_fund_output (m_btc M) (ac_transactions (accepted_contract s)) = Some fo"
      "get_signed_refund (m_btc M) (m_secp M) s (Inr sk) = pok tx" "tx_output tx = tx_output refund_tx"
      "get_sig_hash_msg (m_secp M) refund_tx 0 (funding_script_pubkey (ac_transactions (accepted_contract s))) (txo_value fo) = Inr h"
      "verify_ecdsa (m_secp M) h (snd (counter_refund s)) (fst (counter_refund s)) = Inr ()"
      "witness (tx_input tx ! 0) = [[], serialize_der (m_secp M) (sign_ecdsa (m_secp M) h sk) @ [1],
         serialize_der (m_secp M) (snd (counter_refund s)) @ [1], funding_script_pubkey (ac_transactions (accepted_contract s))]"
    using signed_refund[OF stored(2) assms(6), of sk] assms(7,8) by blast
  let ?st = "st\<lparr>broadcast := broadcast st @ [tx]\<rparr>"
  have run: "check_refund M s st = update_contract M (Refunded s) ?st"
    using assms(9-13) tx(2) unfolding check_refund_def assms(7) Let_def
    by (simp add: mbind_def mlift_def broadcast_tx_def)
  have "get_id (m_btc M) (Refunded s) = Some i" using stored(1) by simp
  from sled_update_returns[OF assms(1-3) this, of ?st] tx show ?thesis unfolding run by auto
qed

section \<open>Closing\<close>

text \<open>What the oracles of a condition attest, once all its events have matured.\<close>

definition valid_attestations :: "'s Manager \<Rightarrow> ContractInfo \<Rightarrow> (nat \<times> OracleAttestation) list" where
  "valid_attestations M ci = List.map_filter (valid_attestation M) (zip [0..<length (oracle_announcements ci)] (oracle_announcements ci))"

text \<open>A signature that verifies is one the adaptor points were computed for: its second half is the scalar of the signature point.\<close>

definition schnorr_laws :: "secp \<Rightarrow> oracle_lib \<Rightarrow> bool" where
  "schnorr_laws S L \<longleftrightarrow> (\<forall>sig msg pk. verify_schnorr L sig msg pk = Inr () \<longrightarrow> attests S pk (take 32 sig) msg sig)"

lemma map_filter_sorted_fst:
  assumes "\<And>x y. f x = Some y \<Longrightarrow> fst y = fst x" "sorted_wrt (<) (map fst xs)"
  shows "sorted_wrt (<) (map fst (List.map_filter f xs)) \<and> fst ` set (List.map_filter f xs) \<subseteq> fst ` set xs"
  using assms(2)
proof (induction xs)
  case (Cons x xs)
  then have IH: "sorted_wrt (<) (map fst (List.map_filter f xs))" "fst ` set (List.map_filter f xs) \<subseteq> fst ` set xs"
    and x: "\<forall>k \<in> fst ` set xs. fst x < k" by auto
  from x IH(2) have "\<forall>k \<in> fst ` set (List.map_filter f xs). fst x < k" by blast
  then show ?case using IH assms(1)[of x] by (cases "f x") (auto simp: map_filter_simps)
qed (simp add: map_filter_simps)

lemma valid_attestation_Some:
  assumes "valid_attestation M (i, a) = Some y"
  shows "fst y = i \<and> validate_attestation (m_btc M) (m_oracle_lib M) (snd y) a = Inr ()"
proof -
  obtain client :: oracle_client where c: "(case get_attestation client (event_id (oracle_event a)) of Inl _ \<Rightarrow> None
      | Inr att \<Rightarrow> (case validate_attestation (m_btc M) (m_oracle_lib M) att a of Inl _ \<Rightarrow> None | Inr _ \<Rightarrow> Some (i, att))) = Some y"
    using assms by (auto simp: valid_attestation_def bind_eq_Some_conv)
  then obtain att where "get_attestation client (event_id (oracle_event a)) = Inr att"
    by (cases "get_attestation client (event_id (oracle_event a))") auto
  then show ?thesis using c by (cases "validate_attestation (m_btc M) (m_oracle_lib M) att a") auto
qed

lemma valid_attestations_sorted:
  "sorted_wrt (<) (map fst (valid_attestations M ci))" "fst ` set (valid_attestations M ci) \<subseteq> {..<length (oracle_announcements ci)}"
  "(i, att) \<in> set (valid_attestations M ci) \<Longrightarrow> validate_attestation (m_btc M) (m_oracle_lib M) att (oracle_announcements ci ! i) = Inr ()"
proof -
  let ?xs = "zip [0..<length (oracle_announcements ci)] (oracle_announcements ci)"
  have f: "fst y = fst x" if "valid_attestation M x = Some y" for x y using that valid_attestation_Some[of M "fst x" "snd x" y] by simp
  have "sorted_wrt (<) (map fst ?xs)" by simp
  note filtered = map_filter_sorted_fst[of "valid_attestation M", OF f this, folded valid_attestations_def]
  show "sorted_wrt (<) (map fst (valid_attestations M ci))" using filtered by blast
  have "fst ` set ?xs \<subseteq> {..<length (oracle_announcements ci)}" by (auto simp: set_zip)
  then show "fst ` set (valid_attestations M ci) \<subseteq> {..<length (oracle_announcements ci)}" using filtered by blast
  show "validate_attestation (m_btc M) (m_oracle_lib M) att (oracle_announcements ci ! i) = Inr ()" if "(i, att) \<in> set (valid_attestations M ci)"
    using that unfolding valid_attestations_def in_map_filter by (auto simp: set_zip dest: valid_attestation_Some)
qed

lemma matured_all:
  assumes "\<forall>a \<in> set (oracle_announcements ci). event_maturity_epoch (oracle_event a) \<le> now"
  shows "matured_announcements now ci = zip [0..<length (oracle_announcements ci)] (oracle_announcements ci)"
proof -
  have "filter (\<lambda>x. event_maturity_epoch (oracle_event x) \<le> now) (oracle_announcements ci) = oracle_announcements ci"
    using assms by (simp add: filter_id_conv)
  then show ?thesis by (simp add: matured_announcements_def Let_def)
qed

lemma closable_first:
  assumes "\<forall>a \<in> set (oracle_announcements ci). event_maturity_epoch (oracle_event a) \<le> unix_time_now (m_world M)"
    "ci_threshold ci \<le> length (valid_attestations M ci)"
  shows "closable_info M ((ci, info) # rest) = Some (ci, info, valid_attestations M ci)"
proof -
  have "length (List.map_filter f xs) \<le> length xs" for f :: "nat \<times> OracleAnnouncement \<Rightarrow> (nat \<times> OracleAttestation) option" and xs
    by (induction xs) (auto simp: map_filter_simps split: option.split)
  then have "length (valid_attestations M ci) \<le> length (oracle_announcements ci)" unfolding valid_attestations_def
    by (metis length_map length_upt length_zip min.idem minus_nat.diff_0)
  then show ?thesis using assms(2) by (simp add: matured_all[OF assms(1)] Let_def) (simp add: valid_attestations_def)
qed

lemma valid_attestation_attests:
  assumes "schnorr_laws S (m_oracle_lib M)" "(i, att) \<in> set (valid_attestations M ci)" "att_outcomes att = [outcome]"
    "\<forall>a \<in> set (oracle_announcements ci). length (event_nonces (oracle_event a)) = 1"
  shows "oracle_attests S (get_oracle_infos ci ! i) [sha256 (m_btc M) (str_bytes outcome)] (att_signatures att)"
proof -
  let ?a = "oracle_announcements ci ! i"
  have i: "i < length (oracle_announcements ci)" using valid_attestations_sorted(2)[of M ci] assms(2) by force
  note v = valid_attestations_sorted(3)[OF assms(2), unfolded attestation_checks]
  obtain sig where sig: "att_signatures att = [sig]" "signed_outcome (m_btc M) (m_oracle_lib M) ?a sig outcome"
    using v assms(3) by (auto simp: list_all2_Cons2)
  have "length (event_nonces (oracle_event ?a)) = 1" using assms(4) i by simp
  then obtain nonce where nonce: "event_nonces (oracle_event ?a) = [nonce]" by (auto simp: length_Suc_conv)
  have "take 32 sig = nonce" using v sig(1) nonce by simp
  then have "attests S (ann_public_key ?a) nonce (sha256 (m_btc M) (str_bytes outcome)) sig"
    using assms(1) sig(2) by (auto simp: schnorr_laws_def signed_outcome_def)
  then show ?thesis using i nonce sig(1) by (simp add: oracle_attests_def get_oracle_infos_def to_oracle_info_def)
qed

text \<open>
  C11: A stored confirmed contract on an enumerated event is closed when its event is attested: once all announcements have matured
  and the oracles that answer with a valid attestation give one outcome at least as often as the threshold and more often than any
  other, the periodic check broadcasts the transaction of this outcome with the own signature and a valid signature of the
  counterparty, and stores the contract as pre-closed unless the database fails.
\<close>

theorem attested_contract_is_closed:
  assumes "sled_laws D" "storage_codec_laws C" "m_store M = sled_storage (m_btc M) (D, C)"
    "store_ok (m_btc M) (m_secp M) (sled_view (D, C)) st" "sled_view (D, C) (contract_db st) i = Some (Confirmed s)" "roles_agree s"
    "fair_orders (m_orders M)" "key_laws (m_secp M) val q" "adaptor_laws (m_secp M)" "schnorr_laws (m_secp M) (m_oracle_lib M)"
    "contract_info (ac_offered_contract (accepted_contract s)) = ci # cis" "contract_descriptor ci = EnumContract e"
    "0 < ci_threshold ci" "ci_threshold ci \<le> length (oracle_announcements ci)"
    "(length (oracle_announcements ci) choose ci_threshold ci) * length e < u64_bound"
    "\<forall>a \<in> set (oracle_announcements ci). event_maturity_epoch (oracle_event a) \<le> unix_time_now (m_world M) \<and> length (event_nonces (oracle_event a)) = 1"
    "atts = valid_attestations M ci" "outcome \<in> ep_outcome ` set e"
    "ci_threshold ci \<le> length (filter (\<lambda>x. att_outcomes (snd x) = [outcome]) atts)"
    "\<forall>w. w \<noteq> outcome \<longrightarrow> length (filter (\<lambda>x. att_outcomes (snd x) = [w]) atts) < length (filter (\<lambda>x. att_outcomes (snd x) = [outcome]) atts)"
    "\<forall>r osigs. get_range_info_and_oracle_sigs (m_orders M) ci EnumInfo atts = pok (r, osigs) \<longrightarrow> (\<exists>x. signatures_to_secret (m_secp M) osigs = pok x)"
    "t = ac_transactions (accepted_contract s)" "\<forall>cet \<in> set (cets t). tx_input cet \<noteq> []"
    "\<And>tx. get_transaction_confirmations (m_chain M) (compute_txid (m_btc M) tx) = Inr 0" "\<And>tx. send_transaction (m_chain M) tx = Inr ()"
    "derive_contract_signer (m_world M) (keys_id (ac_offered_contract (accepted_contract s))) = Inr signer"
    "signer_secret_key (m_world M) signer = Inr sk"
  shows "\<exists>r st' k cet cet' h sig fo. check_confirmed_contract M s st = Some (r, st') \<and> broadcast st' = broadcast st @ [cet'] \<and>
    k < length e \<and> ep_outcome (e ! k) = outcome \<and> vget (cets t) k = Some cet \<and> tx_output cet' = tx_output cet \<and>
    get_fund_output (m_btc M) t = Some fo \<and> get_sig_hash_msg (m_secp M) cet 0 (funding_script_pubkey t) (txo_value fo) = Inr h \<and>
    verify_ecdsa (m_secp M) h sig (fst (counter_refund s)) = Inr () \<and>
    witness (tx_input cet' ! 0) = [[], serialize_der (m_secp M) (sign_ecdsa (m_secp M) h sk) @ [1],
      serialize_der (m_secp M) sig @ [1], funding_script_pubkey t] \<and>
    (r = Inr () \<longrightarrow> sled_view (D, C) (contract_db st') i =
      Some (PreClosed \<lparr>pc_signed_contract = s, pc_attestations = Some (map snd atts), pc_signed_cet = cet'\<rparr>))"
proof -
  let ?B = "m_btc M" and ?S = "m_secp M"
  note stored = stored_same_id[OF assms(4), OF assms(5)]
  obtain fo sigs n infos where v: "get_fund_output ?B t = Some fo" "counter_adaptor_sigs s = Some (sigs, fst (counter_refund s))"
      "adaptor_infos (accepted_contract s) = EnumInfo # infos"
      "enum_verify ?B ?S e (get_oracle_infos ci) (ci_threshold ci) (fst (counter_refund s)) (funding_script_pubkey t) (txo_value fo) (cets t) sigs 0 = pok n"
    using verified_enum[OF stored(2) assms(6,11-14)] unfolding assms(22) by blast
  note atts = valid_attestations_sorted[where M = M and ci = ci, folded assms(17)]
  obtain r osigs where r: "get_range_info_and_oracle_sigs (m_orders M) ci EnumInfo atts = pok (r, osigs)" "ep_outcome (e ! cet_index r) = outcome"
    using majority_range[OF assms(12,7,13) atts(1,2) assms(18,19) assms(20)[rule_format] assms(15)] by blast
  obtain x where x: "signatures_to_secret ?S osigs = pok x" using assms(21) r(1) by blast
  have attested: "\<forall>(i, att) \<in> set atts. \<forall>outcome. att_outcomes att = [outcome] \<longrightarrow>
      oracle_attests ?S (get_oracle_infos ci ! i) [sha256 ?B (str_bytes outcome)] (att_signatures att)"
    using valid_attestation_attests[OF assms(10)] assms(16,17) by blast
  obtain cet cet' h sig where close: "cet_index r < length e" "vget (cets t) (cet_index r) = Some cet"
      "get_signed_cet ?B ?S (m_orders M) s ci EnumInfo atts (Inr sk) = pok cet'" "tx_output cet' = tx_output cet"
      "get_sig_hash_msg ?S cet 0 (funding_script_pubkey t) (txo_value fo) = Inr h" "verify_ecdsa ?S h sig (fst (counter_refund s)) = Inr ()"
      "witness (tx_input cet' ! 0) = [[], serialize_der ?S (sign_ecdsa ?S h sk) @ [1], serialize_der ?S sig @ [1], funding_script_pubkey t]"
    using attested_cet[OF v(2) assms(12,13) v(4) assms(22) v(1) assms(7,8,9) atts(1,2) attested r(1) x assms(23), of sk] by blast
  let ?st = "st\<lparr>broadcast := broadcast st @ [cet']\<rparr>"
  let ?p = "PreClosed \<lparr>pc_signed_contract = s, pc_attestations = Some (map snd atts), pc_signed_cet = cet'\<rparr>"
  have "ci_threshold ci \<le> length atts" using assms(19) length_filter_le le_trans by blast
  then have "get_closable_contract_info M s = Some (ci, EnumInfo, atts)"
    using closable_first[of ci M EnumInfo] assms(16,17) v(3) by (simp add: get_closable_contract_info_def assms(11) Let_def)
  then have run: "check_confirmed_contract M s st = update_contract M ?p ?st"
    using close(3) assms(24-27) unfolding check_confirmed_contract_def
    by (simp add: signed_cet_of_def close_contract_def mbind_def mlift_def mcatch_def mret_def broadcast_tx_def Let_def)
  have "get_id ?B ?p = Some i" using stored(1) by simp
  from sled_update_returns[OF assms(1-3) this, of ?st] obtain res st' where u: "update_contract M ?p ?st = Some (res, st')"
      "broadcast st' = broadcast st @ [cet']" "res = Inr () \<longrightarrow> sled_view (D, C) (contract_db st') i = Some ?p" by auto
  show ?thesis
    by (rule exI[of _ res], rule exI[of _ st'], rule exI[of _ "cet_index r"], rule exI[of _ cet], rule exI[of _ cet'],
        rule exI[of _ h], rule exI[of _ sig], rule exI[of _ fo]) (use u close r(2) v(1) run in simp)
qed

section \<open>The store as a map\<close>

text \<open>
  C16: Updating a contract in the sled store is the update of a map: the contract is found under its id and read back, an accepted or
  signed contract is no longer found under its temporary id, and every other contract is as before.
\<close>

theorem sled_update_refines_map:
  assumes "sled_laws D" "storage_codec_laws C" "sled_update_contract B (D, C) db c = pok db'"
  shows "\<exists>i. get_id B c = Some i \<and> sled_view (D, C) db' i = Some c \<and> (\<forall>r. sled_get_contract (D, C) db' i = Inr r \<longrightarrow> r = Some c) \<and>
    (leaves_temporary_id c \<longrightarrow> get_temporary_id c \<noteq> i \<longrightarrow> sled_view (D, C) db' (get_temporary_id c) = None) \<and>
    (\<forall>k. k \<noteq> i \<longrightarrow> (leaves_temporary_id c \<longrightarrow> k \<noteq> get_temporary_id c) \<longrightarrow> sled_view (D, C) db' k = sled_view (D, C) db k)"
proof -
  obtain i where i: "get_id B c = Some i" "sled_view (D, C) db' = updated (sled_view (D, C) db) i c"
    using sled_update_view[OF assms] by blast
  have "r = Some c" if "sled_get_contract (D, C) db' i = Inr r" for r
    using sled.get[of "(B, (D, C))" db' i r] that assms(1,2) i(2) by (simp add: sled_lawful_def sled_storage_def)
  then show ?thesis using i by (auto simp: updated_def)
qed

lemma read_be_bytes: "foldl (\<lambda>n d. n * 256 + d) acc (be_bytes n v) = acc * 256 ^ n + v mod 256 ^ n"
proof (induction n arbitrary: acc)
  case (Suc n)
  have "be_bytes (Suc n) v = (v div 256 ^ n mod 256) # be_bytes n v" by (simp add: be_bytes_def)
  moreover have "v mod (256 ^ n * 256) = 256 ^ n * (v div 256 ^ n mod 256) + v mod 256 ^ n" by (rule mod_mult2_eq)
  ultimately show ?case using Suc by (simp add: algebra_simps)
qed (simp add: be_bytes_def)

text \<open>A preimage that was set is read back, if the database answers.\<close>

lemma preimage_reads_back:
  assumes "sled_laws D" "n < 2 ^ 128" "sled_set_loan_preimage (D, C) db i n = Inr db'" "sled_get_loan_preimage (D, C) db' i = Inr r"
  shows "r = Some n"
proof -
  obtain t where t: "sled_insert D (db PREIMAGE_TREE) i (be_bytes 16 n) = Inr t" "db' = db(PREIMAGE_TREE := t)"
    using assms(3) by (auto simp: sled_set_loan_preimage_def store_value_def)
  have "from_be_bytes (be_bytes 16 n) = n" using assms(2) by (simp add: from_be_bytes_def read_be_bytes)
  then show ?thesis
    using assms(4) t(2) sled_lawsD(1)[OF assms(1), of t i] sled_lawsD(2)[OF assms(1) t(1)]
    by (auto simp: sled_get_loan_preimage_def split: option.splits if_splits)
qed

section \<open>What the checks leave open\<close>

text \<open>
  \<open>on_accept_message\<close> does not ask which side made the offer: when a party accepts its own offer, the contract that is stored has
  no signatures of the accepting party for the offering one, and every attempt to close it panics.
\<close>

lemma own_acceptance_panics:
  assumes "sign_accepted B S W oc accept m t = pok (s, msg)" "\<not> is_offer_party oc"
    "get_range_info_and_oracle_sigs H ci info atts = pok (r, osigs)"
  shows "get_signed_cet B S H s ci info atts sk = None"
proof -
  have "counter_adaptor_sigs s = None" using assms(1,2)
    by (auto simp: sign_accepted_def verify_accepted_and_sign_contract_internal_def bind_eq_Some_conv Let_def counter_adaptor_sigs_def)
  then show ?thesis using assms(3) by (simp add: get_signed_cet_def Let_def split: option.splits)
qed

text \<open>The attestations are numbered by the announcements that have matured, not by their position in the contract.\<close>

lemma matured_index_shifted:
  "now < event_maturity_epoch (oracle_event a) \<Longrightarrow> event_maturity_epoch (oracle_event b) \<le> now \<Longrightarrow> oracle_announcements ci = [a, b] \<Longrightarrow>
   matured_announcements now ci = [(0, b)]"
  by (simp add: matured_announcements_def)

section \<open>Instances\<close>

text \<open>A database of association lists that stores the coin contract as confirmed, and a manager after the coin was flipped.\<close>

fun list_op :: "tree_op \<Rightarrow> (bytes \<times> bytes) list \<Rightarrow> (bytes \<times> bytes) list" where
  "list_op (TreeRemove k) = AList.delete k"
| "list_op (TreeInsert k v) = AList.update k v"

definition list_sled :: "(bytes \<times> bytes) list sled" where
  "list_sled = \<lparr>sled_open = (\<lambda>_. Inr ()), sled_get = (\<lambda>t k. Inr (map_of t k)), sled_insert = (\<lambda>t k v. Inr (AList.update k v t)),
     sled_remove = (\<lambda>t k. Inr (AList.delete k t)), sled_transaction = (\<lambda>t xs. Inr (fold list_op xs t)),
     sled_values = (\<lambda>t. if distinct (map fst t) then map (Inr \<circ> snd) t else [Inl ''duplicate'']), sled_content = map_of\<rparr>"

lemma list_sled_laws: "sled_laws list_sled"
proof -
  have "map_of (fold list_op xs t) = fold apply_op xs (map_of t)" for xs t
  proof (induction xs arbitrary: t)
    case (Cons x xs)
    have "map_of (list_op x t) = apply_op x (map_of t)" by (cases x) (simp_all add: update_conv' delete_conv')
    then show ?case using Cons by simp
  qed simp
  moreover have "set vs = ran (map_of t)"
    if "(if distinct (map fst t) then map (Inr \<circ> snd) t else [Inl ''duplicate'']) = map Inr vs" for t :: "(bytes \<times> bytes) list" and vs
  proof -
    have "(map Inr vs :: (string + bytes) list) = map (Inr \<circ> snd) t" "distinct (map fst t)" using that by (auto split: if_splits)
    then have "vs = map snd t" by (metis inj_Inr inj_map_eq_map map_map)
    then show ?thesis using \<open>distinct (map fst t)\<close> by (simp add: ran_distinct)
  qed
  ultimately show ?thesis by (auto simp: sled_laws_def list_sled_def update_conv' delete_conv')
qed

definition coin_codec :: contract_codec where
  "coin_codec = \<lparr>ser_offered = (\<lambda>_. Inl ''full''), ser_loan = (\<lambda>_. Inl ''full''), ser_accepted = (\<lambda>_. Inl ''full''),
     ser_signed = (\<lambda>s. if s = coin_contract then Inr [1] else Inl ''full''), ser_preclosed = (\<lambda>_. Inl ''full''),
     ser_closed = (\<lambda>_. Inl ''full''), ser_failed_accept = (\<lambda>_. Inl ''full''), ser_failed_sign = (\<lambda>_. Inl ''full''),
     de_offered = (\<lambda>_. Inl ''bad''), de_loan = (\<lambda>_. Inl ''bad''), de_accepted = (\<lambda>_. Inl ''bad''), de_signed = (\<lambda>b. Inr coin_contract),
     de_preclosed = (\<lambda>_. Inl ''bad''), de_closed = (\<lambda>_. Inl ''bad''), de_failed_accept = (\<lambda>_. Inl ''bad''), de_failed_sign = (\<lambda>_. Inl ''bad'')\<rparr>"

lemma coin_codec_laws: "storage_codec_laws coin_codec"
  by (simp add: storage_codec_laws_def reads_back_def coin_codec_def)

definition coin_id :: bytes where "coin_id = the (get_contract_id toy_btc (accepted_contract coin_contract))"

definition coin_db :: "(bytes \<times> bytes) list db" where
  "coin_db = (\<lambda>_. [])(CONTRACT_TREE := [(coin_id, [6, 1])])"

definition coin_state :: "(bytes \<times> bytes) list db mgr_state" where
  "coin_state = \<lparr>contract_db = coin_db, broadcast = [], monitor = new_monitor 0\<rparr>"

definition coin_lib :: oracle_lib where
  "coin_lib = \<lparr>verify_schnorr = (\<lambda>sig msg pk. if sig = toy_key 1 @ toy_key 3 \<and> pk = toy_key 2 then Inr () else Inl ''bad signature''),
     encode_event = (\<lambda>_. [])\<rparr>"

definition coin_manager :: "(bytes \<times> bytes) list db Manager" where
  "coin_manager = \<lparr>m_btc = toy_btc, m_secp = honest_secp, m_codec = toy_codec, m_oracle_lib = coin_lib, m_orders = insertion_orders,
     m_store = sled_storage toy_btc (list_sled, coin_codec),
     m_oracles = (\<lambda>_. Some \<lparr>get_announcement = (\<lambda>_. Inr coin_event), get_attestation = (\<lambda>_. Inr tails)\<rparr>),
     m_world = toy_wallet\<lparr>unix_time_now := 200\<rparr>,
     m_chain = \<lparr>get_transaction_confirmations = (\<lambda>_. Inr 0), get_blockchain_height = Inr 1, get_block_at_height = (\<lambda>_. Inr []),
       send_transaction = (\<lambda>_. Inr ()), import_address = (\<lambda>_. Inr ())\<rparr>,
     m_evm = \<lparr>evm_signer = (\<lambda>_. Inr ()), stable_loans = (\<lambda>_. pok (0, 0)), lend_stable = (\<lambda>_ _. pok ()), claim_stable = (\<lambda>_. pok ())\<rparr>,
     m_random_preimage = 0\<rparr>"

lemma coin_manager_simps [simp]:
  "m_btc coin_manager = toy_btc" "m_secp coin_manager = honest_secp" "m_oracle_lib coin_manager = coin_lib"
  "m_orders coin_manager = insertion_orders" "m_store coin_manager = sled_storage toy_btc (list_sled, coin_codec)"
  "unix_time_now (m_world coin_manager) = 200" "derive_contract_signer (m_world coin_manager) = Inr" "signer_secret_key (m_world coin_manager) = Inr"
  "send_transaction (m_chain coin_manager) tx = Inr ()" "get_transaction_confirmations (m_chain coin_manager) k = Inr 0"
  by (simp_all add: coin_manager_def toy_wallet_def)

lemma coin_contract_id: "get_contract_id toy_btc (accepted_contract coin_contract) = Some coin_id"
proof -
  have "get_fund_output_index toy_btc coin_transactions \<noteq> None"
    by (simp add: get_fund_output_index_def coin_transactions_def get_output_for_script_pubkey_def toy_tx_def toy_btc_def)
  then show ?thesis by (auto simp: coin_id_def get_contract_id_def transactions_id_def coin_facts)
qed

lemma coin_view: "sled_view (list_sled, coin_codec) coin_db i = Some c \<longleftrightarrow> i = coin_id \<and> c = Confirmed coin_contract"
proof -
  have "prefix_try_from 6 = Inr ConfirmedPrefix" using prefix_round_trip[of ConfirmedPrefix] by simp
  then show ?thesis by (auto simp: sled_view_Some coin_db_def list_sled_def coin_codec_def)
qed

lemma coin_ok: "contract_ok toy_btc honest_secp (Confirmed coin_contract)"
proof -
  have first: "first_condition (accepted_contract coin_contract)"
    by (simp add: first_condition_def coin_contract_def)
  have "verify_tx_input_sig honest_secp (pk_of honest_secp [3]) tx 0 spk v (pk_of honest_secp [3]) = Inr ()" for tx spk v
    by (simp add: verify_tx_input_sig_def get_sig_hash_msg_def honest_secp_def toy_secp_def)
  moreover have "verify_and_get_adaptor_info toy_btc honest_secp coin_info T (pk_of honest_secp [3]) spk v [toy_tx [20000], toy_tx [20000]] (coin_sigs [3]) 0 =
      pok (EnumInfo, length (coin_sigs [3]))" for T spk v
    unfolding verify_and_get_adaptor_info_def coin_facts by (simp add: coin_verified[unfolded One_nat_def])
  moreover have "ac_adaptor_signatures (accepted_contract coin_contract) = Some (coin_sigs [3])" "adaptor_infos (accepted_contract coin_contract) = [EnumInfo]"
    "accept_refund_signature (accepted_contract coin_contract) = pk_of honest_secp [3]" "fund_pubkey (accept_params (accepted_contract coin_contract)) = pk_of honest_secp [3]"
    "contract_info (ac_offered_contract (accepted_contract coin_contract)) = [coin_info]"
    by (simp_all add: coin_contract_def)
  ultimately show ?thesis using first by (simp add: counter_verified_def coin_facts Let_def)
      (metis append_Nil2)
qed

lemma coin_store_ok: "store_ok toy_btc honest_secp (sled_view (list_sled, coin_codec)) coin_state"
  using coin_ok coin_contract_id by (simp add: store_ok_def coin_state_def coin_view)

lemma coin_roles: "roles_agree coin_contract"
  by (simp add: roles_agree_def coin_contract_def loan_offer_def sample_offer_def)

definition coin_spend :: Transaction where
  "coin_spend = (toy_tx [])\<lparr>tx_input := [\<lparr>previous_output = \<lparr>txid = [1, 1], vout = 0\<rparr>, script_sig = [], sequence = 0, witness = []\<rparr>]\<rparr>"

text \<open>The counterparty broadcasts the refund of the stored contract.\<close>

lemma coin_refunded:
  "\<exists>st. on_counterparty_close coin_manager coin_contract coin_spend 0 coin_state = Some (Inr (Refunded coin_contract), st) \<and>
     sled_view (list_sled, coin_codec) (contract_db st) coin_id = Some (Refunded coin_contract)"
proof -
  have out: "get_fund_outpoint toy_btc coin_transactions = Some \<lparr>txid = [1, 1], vout = 0\<rparr>"
    by (simp add: get_fund_outpoint_def get_fund_output_index_def coin_transactions_def get_output_for_script_pubkey_def toy_tx_def toy_btc_def)
  have same: "compute_txid toy_btc (refund coin_transactions) = compute_txid toy_btc coin_spend"
    by (simp add: coin_transactions_def coin_spend_def toy_tx_def toy_btc_def)
  have ser: "serialize_contract coin_codec (Refunded coin_contract) = Inr [11, 1]"
    by (simp add: serialize_contract_def coin_codec_def get_prefix_def)
  obtain db where db: "sled_update_contract toy_btc (list_sled, coin_codec) coin_db (Refunded coin_contract) = pok db"
    using ser coin_contract_id by (simp add: sled_update_contract_def open_tree_def list_sled_def to_storage_error_def)
  then have "update_contract coin_manager (Refunded coin_contract) coin_state = Some (Inr (), coin_state\<lparr>contract_db := db\<rparr>)"
    by (simp add: update_contract_def store_write_def sled_storage_def coin_state_def)
  then have "on_counterparty_close coin_manager coin_contract coin_spend 0 coin_state =
      Some (Inr (Refunded coin_contract), coin_state\<lparr>contract_db := db\<rparr>)"
    using out same by (simp add: on_counterparty_close_def coin_facts mbind_def munwrap_def mret_def Let_def) (simp add: coin_spend_def)
  moreover have "sled_view (list_sled, coin_codec) db coin_id = Some (Refunded coin_contract)"
    using sled_update_view[OF list_sled_laws coin_codec_laws db] coin_contract_id by auto
  ultimately show ?thesis by simp
qed

lemma stored_contracts_verified_witness:
  "\<exists>st. reachable toy_btc honest_secp (sled_storage toy_btc (list_sled, coin_codec)) coin_state st \<and>
     get_id toy_btc (Refunded coin_contract) = Some coin_id \<and> contract_ok toy_btc honest_secp (Refunded coin_contract)"
proof -
  obtain st where st: "on_counterparty_close coin_manager coin_contract coin_spend 0 coin_state = Some (Inr (Refunded coin_contract), st)"
      "sled_view (list_sled, coin_codec) (contract_db st) coin_id = Some (Refunded coin_contract)"
    using coin_refunded by blast
  have "prefix_try_from 6 = Inr ConfirmedPrefix" using prefix_round_trip[of ConfirmedPrefix] by simp
  then have "st_get_contract (m_store coin_manager) (contract_db coin_state) coin_id = Inr (Some (Confirmed coin_contract))"
    by (simp add: sled_storage_def sled_get_contract_def open_tree_def list_sled_def coin_state_def coin_db_def to_storage_error_def coin_codec_def)
  then have "mgr_step coin_manager coin_state st" by (rule closed_by_counterparty) (use st(1) in simp_all)
  then have r: "reachable toy_btc honest_secp (sled_storage toy_btc (list_sled, coin_codec)) coin_state st"
    by (rule reachable.step[OF reachable.start, rotated 3]) simp_all
  from stored_contracts_verified[OF list_sled_laws coin_codec_laws r coin_store_ok st(2)] r show ?thesis by blast
qed

lemma confirmed_contract_is_refunded_witness:
  "\<exists>r st' tx. check_refund coin_manager coin_contract coin_state = Some (r, st') \<and> broadcast st' = [tx] \<and>
     verify_ecdsa honest_secp [9] (snd (counter_refund coin_contract)) (pk_of honest_secp [3]) = Inr ()"
proof -
  have h: "get_sig_hash_msg honest_secp tx 0 spk v = Inr h \<longleftrightarrow> h = [9]" for tx spk v h
    by (auto simp: get_sig_hash_msg_def honest_secp_def toy_secp_def)
  have c: "fst (counter_refund coin_contract) = pk_of honest_secp [3]"
    by (simp add: counter_refund_def coin_contract_def loan_offer_def sample_offer_def)
  have r: "tx_input (refund (ac_transactions (accepted_contract coin_contract))) \<noteq> []"
    "lock_time (refund (ac_transactions (accepted_contract coin_contract))) \<le> 200"
    unfolding coin_facts by (simp_all add: coin_transactions_def toy_tx_def)
  have "broadcast coin_state = []" "contract_db coin_state = coin_db" by (simp_all add: coin_state_def)
  moreover have "sled_view (list_sled, coin_codec) coin_db coin_id = Some (Confirmed coin_contract)" by (simp add: coin_view)
  ultimately show ?thesis
    using confirmed_contract_is_refunded[OF list_sled_laws coin_codec_laws, of coin_manager coin_state coin_id coin_contract,
        OF _ _ _ coin_roles refl r(1)] coin_store_ok r(2) by (simp add: h c) blast
qed

lemma tails_range_both:
  "get_range_info_and_oracle_sigs insertion_orders coin_info EnumInfo [(0, tails), (1, tails)] =
     pok (\<lparr>cet_index = 1, adaptor_index = 2\<rparr>, [[toy_key 1 @ toy_key 3]])"
proof -
  have "combs 0 2 1 = [[0], [1]]" by (simp add: numeral_2_eq_2)
  then obtain it where "new 2 1 = Some it" "collect it = Some [[0], [1]]" using collect_new[of 1 2] by auto
  then have "enum_range_info insertion_orders coin_payouts 2 1 [(0, [''tails'']), (1, [''tails''])] 0 =
      Some (Some ([(0, 1)], \<lparr>cet_index = 1, adaptor_index = 2\<rparr>))"
    by (simp add: enum_range_info_def get_majority_combination_def coin_payouts_def Let_def)
  then show ?thesis
    by (simp add: get_range_info_and_oracle_sigs_def get_range_info_for_outcome_def coin_info_def tails_def map_filter_simps numeral_2_eq_2)
qed

lemma coin_schnorr_laws: "schnorr_laws honest_secp coin_lib"
proof -
  have "take 32 (toy_key 1 @ toy_key 3) = toy_key 1" by (simp add: toy_key_def)
  then show ?thesis using coin_attests by (auto simp: schnorr_laws_def coin_lib_def split: if_splits)
qed

lemma coin_attestations: "valid_attestations coin_manager coin_info = [(0, tails), (1, tails)]"
proof -
  have "take 32 (toy_key 1 @ toy_key 3) = toy_key 1" by (simp add: toy_key_def)
  then have "validate_attestation toy_btc coin_lib tails coin_event = Inr ()"
    unfolding attestation_checks by (simp add: tails_def coin_event_def signed_outcome_def coin_lib_def)
  then have "valid_attestation coin_manager (i, coin_event) = Some (i, tails)" for i
    by (simp add: valid_attestation_def coin_manager_def)
  then show ?thesis by (simp add: valid_attestations_def coin_info_def map_filter_simps numeral_2_eq_2)
qed

lemma attested_contract_is_closed_witness:
  "\<exists>r st' cet. check_confirmed_contract coin_manager coin_contract coin_state = Some (r, st') \<and> broadcast st' = [cet] \<and>
     tx_output cet = tx_output (toy_tx [20000])"
proof -
  have state: "broadcast coin_state = []" "contract_db coin_state = coin_db" by (simp_all add: coin_state_def)
  have stored: "sled_view (list_sled, coin_codec) (contract_db coin_state) coin_id = Some (Confirmed coin_contract)" by (simp add: coin_view state)
  have infos: "contract_info (ac_offered_contract (accepted_contract coin_contract)) = coin_info # []" by (simp add: coin_contract_def)
  have coin: "0 < ci_threshold coin_info" "ci_threshold coin_info \<le> length (oracle_announcements coin_info)"
    "(length (oracle_announcements coin_info) choose ci_threshold coin_info) * length coin_payouts < u64_bound"
    by (simp_all add: coin_facts coin_payouts_def)
  have matured: "\<forall>a \<in> set (oracle_announcements coin_info). event_maturity_epoch (oracle_event a) \<le> 200 \<and> length (event_nonces (oracle_event a)) = 1"
    by (simp add: coin_info_def coin_event_def)
  have member: "''tails'' \<in> ep_outcome ` set coin_payouts" by (simp add: coin_payouts_def)
  have count: "filter (\<lambda>x. att_outcomes (snd x) = [w]) [(0, tails), (1, tails)] = (if w = ''tails'' then [(0, tails), (1, tails)] else [])" for w
    by (simp add: tails_def)
  have enough: "ci_threshold coin_info \<le> length (filter (\<lambda>x. att_outcomes (snd x) = [''tails'']) [(0, tails), (1, tails)])"
    "\<forall>w. w \<noteq> ''tails'' \<longrightarrow> length (filter (\<lambda>x. att_outcomes (snd x) = [w]) [(0, tails), (1, tails)]) <
       length (filter (\<lambda>x. att_outcomes (snd x) = [''tails'']) [(0, tails), (1, tails)])"
    unfolding count by (simp_all add: coin_facts)
  have secret: "\<forall>r osigs. get_range_info_and_oracle_sigs insertion_orders coin_info EnumInfo [(0, tails), (1, tails)] = pok (r, osigs) \<longrightarrow>
      (\<exists>x. signatures_to_secret honest_secp osigs = pok x)"
    using tails_attested(2) unfolding tails_range_both by simp
  have inputs: "\<forall>cet \<in> set (cets coin_transactions). tx_input cet \<noteq> []" unfolding coin_facts by (simp add: toy_tx_def)
  have cet: "tx_output cet = tx_output (toy_tx [20000])" if "vget (cets coin_transactions) k = Some cet" for k cet
    using that unfolding coin_facts by (cases k) (auto simp: vget_def split: if_splits)
  obtain r st' cet' k cet where c: "check_confirmed_contract coin_manager coin_contract coin_state = Some (r, st')"
      "broadcast st' = broadcast coin_state @ [cet']" "vget (cets coin_transactions) k = Some cet" "tx_output cet' = tx_output cet"
    using attested_contract_is_closed[where M = coin_manager, unfolded coin_manager_simps, OF list_sled_laws coin_codec_laws refl coin_store_ok stored
        coin_roles insertion_orders_fair honest_laws(5,6) coin_schnorr_laws infos coin_facts(4) coin matured coin_attestations[symmetric] member
        enough secret coin_facts(1)[symmetric] inputs refl refl refl refl] by (elim exE conjE) (rule that)
  from cet[OF c(3)] c(1,2,4) state(1) show ?thesis by simp
qed


lemma sled_update_refines_map_witness:
  "\<exists>db. sled_update_contract toy_btc (list_sled, coin_codec) coin_db (Refunded coin_contract) = pok db \<and>
     sled_view (list_sled, coin_codec) db coin_id = Some (Refunded coin_contract)"
proof -
  have ser: "serialize_contract coin_codec (Refunded coin_contract) = Inr [11, 1]"
    by (simp add: serialize_contract_def coin_codec_def get_prefix_def)
  obtain db where db: "sled_update_contract toy_btc (list_sled, coin_codec) coin_db (Refunded coin_contract) = pok db"
    using ser coin_contract_id by (simp add: sled_update_contract_def open_tree_def list_sled_def to_storage_error_def)
  from sled_update_refines_map[OF list_sled_laws coin_codec_laws this] db show ?thesis using coin_contract_id by auto
qed

end
