(* ===== verification/ManagerChain.thy ===== *)
theory ManagerChain
  imports ManagerStore
begin

text \<open>
  The manager and its chain monitor: a run of \<open>periodic_chain_monitor\<close> reads every block from the last one it knows to the
  end of the chain, and the next run goes on where it stopped.
\<close>

section \<open>Runs over the blocks\<close>

lemma processed_blocks:
  assumes "last_height (monitor st) \<le> n" "n < u64_bound"
    "\<forall>h. last_height (monitor st) < h \<longrightarrow> h \<le> n \<longrightarrow> get_block_at_height (m_chain M) h = Inr (blk h)"
  shows "mfor (process_height M) [last_height (monitor st) + 1..<n + 1] st = Some (Inr (), st\<lparr>monitor :=
    (foldl (process_tx (m_btc M)) (monitor st) (concat (map blk [last_height (monitor st) + 1..<n + 1])))\<lparr>last_height := n\<rparr>\<rparr>)"
  using assms
proof (induction "n - last_height (monitor st)" arbitrary: st)
  case (Suc k)
  let ?l = "last_height (monitor st)" and ?B = "m_btc M"
  let ?st = "st\<lparr>monitor := (foldl (process_tx ?B) (monitor st) (blk (?l + 1)))\<lparr>last_height := ?l + 1\<rparr>\<rparr>"
  have range: "[?l + 1..<n + 1] = (?l + 1) # [?l + 1 + 1..<n + 1]" using Suc.hyps(2) by (intro trans[OF upt_conv_Cons]) simp_all
  have "get_block_at_height (m_chain M) (?l + 1) = Inr (blk (?l + 1))" using Suc.hyps(2) Suc.prems(3) by simp
  moreover have "u64_add ?l 1 = Some (?l + 1)" using Suc.hyps(2) Suc.prems(2) by (simp add: u64_add_def)
  ultimately have step: "process_height M (?l + 1) st = Some (Inr (), ?st)"
    by (simp add: process_height_def mbind_def mlift_def process_block_def)
  have rest: "mfor (process_height M) [?l + 1 + 1..<n + 1] ?st = Some (Inr (), ?st\<lparr>monitor :=
      (foldl (process_tx ?B) (monitor ?st) (concat (map blk [?l + 1 + 1..<n + 1])))\<lparr>last_height := n\<rparr>\<rparr>)"
    using Suc.hyps(1)[of ?st] Suc.hyps(2) Suc.prems by simp
  have height: "foldl (process_tx ?B) (m\<lparr>last_height := x\<rparr>) txs = (foldl (process_tx ?B) m txs)\<lparr>last_height := x\<rparr>" for m x txs
  proof (induction txs arbitrary: m)
    case (Cons tx txs)
    have "process_tx ?B (m\<lparr>last_height := x\<rparr>) tx = (process_tx ?B m tx)\<lparr>last_height := x\<rparr>" by (simp add: process_tx_def)
    then show ?case using Cons by simp
  qed simp
  show ?case unfolding range mfor.simps mbind_def step using rest by (simp add: height del: upt_Suc)
qed (simp add: mret_def)

text \<open>
  C21: A run of the chain monitor ends at the current height without panic when every block can be read, and then a watched
  transaction or output that was not confirmed before is confirmed by the first transaction of the new blocks that has the id,
  or spends the output; what was confirmed before keeps its transaction.
\<close>

theorem monitor_follows_the_chain:
  assumes "get_blockchain_height (m_chain M) = Inr height" "last_height (monitor st) \<le> height" "height < u64_bound"
    "\<forall>h. last_height (monitor st) < h \<longrightarrow> h \<le> height \<longrightarrow> get_block_at_height (m_chain M) h = Inr (blk h)"
    "txs = concat (map blk [last_height (monitor st) + 1..<height + 1])"
  shows "\<exists>m. periodic_chain_monitor M st = Some (Inr (), st\<lparr>monitor := m\<rparr>) \<and> last_height m = height \<and>
    map_of (watched_tx m) i = map_option (first_confirm (\<lambda>tx. compute_txid (m_btc M) tx = i) txs) (map_of (watched_tx (monitor st)) i) \<and>
    map_of (watched_txo m) p = map_option (first_confirm (\<lambda>tx. p \<in> previous_output ` set (tx_input tx)) txs) (map_of (watched_txo (monitor st)) p)"
proof -
  have "periodic_chain_monitor M st = Some (Inr (), st\<lparr>monitor := (foldl (process_tx (m_btc M)) (monitor st) txs)\<lparr>last_height := height\<rparr>\<rparr>)"
    using processed_blocks[OF assms(2-4)] assms(1,2) unfolding assms(5)
    by (simp add: periodic_chain_monitor_def mbind_def mlift_def)
  then show ?thesis
    by (intro exI[of _ "(foldl (process_tx (m_btc M)) (monitor st) txs)\<lparr>last_height := height\<rparr>"])
      (simp add: processed_watched_tx processed_watched_txo)
qed

definition watching :: "(bytes \<times> bytes) list db mgr_state" where
  "watching = coin_state\<lparr>monitor := add_tx [1, 1] \<lparr>watched_channel = [9], tx_type = SettleTx\<rparr> (new_monitor 4)\<rparr>"

definition two_blocks :: "nat \<Rightarrow> Transaction list" where
  "two_blocks h = (if h = 6 then [toy_tx [5], toy_tx [7]] else [toy_tx []])"

definition watching_manager :: "(bytes \<times> bytes) list db Manager" where
  "watching_manager = coin_manager\<lparr>m_chain := (m_chain coin_manager)\<lparr>get_blockchain_height := Inr 6,
     get_block_at_height := (\<lambda>h. Inr (two_blocks h))\<rparr>\<rparr>"

lemma monitor_follows_the_chain_witness:
  "\<exists>m. periodic_chain_monitor watching_manager watching = Some (Inr (), watching\<lparr>monitor := m\<rparr>) \<and> last_height m = 6 \<and>
     map_of (watched_tx m) [1, 1] = Some (ConfirmedTx \<lparr>watched_channel = [9], tx_type = SettleTx\<rparr> (toy_tx [5]))"
proof -
  have w: "last_height (monitor watching) = 4" "map_of (watched_tx (monitor watching)) [1, 1] = Some (Registered \<lparr>watched_channel = [9], tx_type = SettleTx\<rparr>)"
    by (simp_all add: watching_def new_monitor_def add_tx_def new_watch_def)
  have "[5..<7] = [5, 6 :: nat]" by (simp add: upt_rec)
  then have txs: "concat (map two_blocks [last_height (monitor watching) + 1..<6 + 1]) = [toy_tx [], toy_tx [5], toy_tx [7]]"
    by (simp add: w two_blocks_def)
  have m: "get_blockchain_height (m_chain watching_manager) = Inr 6" "last_height (monitor watching) \<le> 6" "(6 :: nat) < u64_bound"
    "\<forall>h. last_height (monitor watching) < h \<longrightarrow> h \<le> 6 \<longrightarrow> get_block_at_height (m_chain watching_manager) h = Inr (two_blocks h)"
    "m_btc watching_manager = toy_btc"
    by (simp_all add: watching_manager_def w)
  obtain m where "periodic_chain_monitor watching_manager watching = Some (Inr (), watching\<lparr>monitor := m\<rparr>)" "last_height m = 6"
      "map_of (watched_tx m) [1, 1] = map_option (first_confirm (\<lambda>tx. compute_txid toy_btc tx = [1, 1]) [toy_tx [], toy_tx [5], toy_tx [7]])
         (map_of (watched_tx (monitor watching)) [1, 1])"
    using monitor_follows_the_chain[OF m(1-4) refl, of "[1, 1]"] unfolding txs m(5) by blast
  moreover have "first_confirm (\<lambda>tx. compute_txid toy_btc tx = [1, 1]) [toy_tx [], toy_tx [5], toy_tx [7]] w = confirm (toy_tx [5]) w" for w
    by (simp add: first_confirm_def toy_btc_def toy_tx_def)
  ultimately show ?thesis unfolding w(2) by (intro exI[of _ m]) simp
qed

end
