(* ===== verification/ChannelMsgs.thy ===== *)
theory ChannelMsgs
  imports ContractMsgs
begin

text \<open>
  The messages of DLC channels, \<open>dlc-messages/src/channel.rs\<close>, with the validation of an offer. Their encodings are generated
  by macros.
\<close>

section \<open>Establishing a channel\<close>

record OfferChannel =
  oc_protocol_version :: nat
  oc_contract_flags :: nat
  oc_chain_hash :: bytes
  oc_temporary_contract_id :: bytes
  oc_temporary_channel_id :: bytes
  oc_contract_info :: SerContractInfo
  oc_funding_pubkey :: pubkey
  oc_revocation_basepoint :: pubkey
  oc_publish_basepoint :: pubkey
  oc_own_basepoint :: pubkey
  oc_first_per_update_point :: pubkey
  oc_payout_spk :: script
  oc_payout_serial_id :: nat
  oc_offer_collateral :: amount
  oc_channel_inputs :: "FundingInput list"
  oc_change_spk :: script
  oc_change_serial_id :: nat
  oc_fund_output_serial_id :: nat
  oc_fee_rate_per_vb :: nat
  oc_cet_locktime :: nat
  oc_refund_locktime :: nat
  oc_cet_nsequence :: nat

text \<open>The operands of \<open>&&\<close> are evaluated in their order; a sum that overflows panics.\<close>

definition validate_offer_channel ::
  "btc \<Rightarrow> oracle_lib \<Rightarrow> OfferChannel \<Rightarrow> nat \<Rightarrow> nat \<Rightarrow> nat \<Rightarrow> nat \<Rightarrow> (DlcError + unit) option" where
  "validate_offer_channel B L m min_timeout_interval max_timeout_interval min_cet_nsequence max_cet_nsequence =
     obind (closest_maturity_date (oc_contract_info m)) (\<lambda>closest.
     obind (if \<not> oc_cet_locktime m \<le> closest then Some False
       else obind (u32_add closest min_timeout_interval) (\<lambda>earliest.
         if \<not> earliest \<le> oc_refund_locktime m then Some False
         else obind (u32_add closest max_timeout_interval) (\<lambda>latest.
           Some (oc_refund_locktime m \<le> latest \<and> min_cet_nsequence \<le> oc_cet_nsequence m \<and> oc_cet_nsequence m \<le> max_cet_nsequence)))) (\<lambda>valid_dates.
     if \<not> valid_dates then perr InvalidArgument
     else Some (case oc_contract_info m of
       SingleContractInfo _ s \<Rightarrow> validate_oracle_info B L (cii_oracle_info s)
     | DisjointContractInfo _ infos \<Rightarrow> rforall (\<lambda>c. validate_oracle_info B L (cii_oracle_info c)) infos)))"

lemma validated_channel_offer:
  assumes "validate_offer_channel B L m lo hi min_seq max_seq = pok ()"
  shows "\<exists>d. closest_maturity_date (oc_contract_info m) = Some d \<and> oc_cet_locktime m \<le> d \<and> d + lo \<le> oc_refund_locktime m \<and>
    oc_refund_locktime m \<le> d + hi \<and> min_seq \<le> oc_cet_nsequence m \<and> oc_cet_nsequence m \<le> max_seq"
  using assms by (auto simp: validate_offer_channel_def bind_eq_Some_conv split: if_splits)

record AcceptChannel =
  acm_temporary_channel_id :: bytes
  acm_accept_collateral :: amount
  acm_funding_pubkey :: pubkey
  acm_revocation_basepoint :: pubkey
  acm_publish_basepoint :: pubkey
  acm_own_basepoint :: pubkey
  acm_first_per_update_point :: pubkey
  acm_payout_spk :: script
  acm_payout_serial_id :: nat
  acm_funding_inputs :: "FundingInput list"
  acm_change_spk :: script
  acm_change_serial_id :: nat
  acm_cet_adaptor_signatures :: "bytes list"
  acm_buffer_adaptor_signature :: bytes
  acm_refund_signature :: bytes
  acm_negotiation_fields :: "NegotiationFields option"

record SignChannel =
  sc_channel_id :: bytes
  scm_cet_adaptor_signatures :: "bytes list"
  scm_buffer_adaptor_signature :: bytes
  scm_refund_signature :: bytes
  scm_funding_signatures :: FundingSignatures

section \<open>Settling\<close>

record SettleOffer =
  so_channel_id :: bytes
  so_counter_payout :: amount
  so_next_per_update_point :: pubkey

record SettleAccept =
  sa_channel_id :: bytes
  sa_next_per_update_point :: pubkey
  sa_settle_adaptor_signature :: bytes

record SettleConfirm =
  scf_channel_id :: bytes
  scf_prev_per_update_secret :: bytes
  scf_settle_adaptor_signature :: bytes

record SettleFinalize =
  sf_channel_id :: bytes
  sf_prev_per_update_secret :: bytes

section \<open>Renewing\<close>

record RenewOffer =
  ro_channel_id :: bytes
  ro_temporary_contract_id :: bytes
  ro_counter_payout :: amount
  ro_next_per_update_point :: pubkey
  ro_contract_info :: SerContractInfo
  ro_cet_locktime :: nat
  ro_refund_locktime :: nat
  ro_cet_nsequence :: nat

record RenewAccept =
  ra_channel_id :: bytes
  ra_next_per_update_point :: pubkey
  ra_cet_adaptor_signatures :: "bytes list"
  ra_refund_signature :: bytes

record RenewConfirm =
  rc_channel_id :: bytes
  rc_buffer_adaptor_signature :: bytes
  rc_cet_adaptor_signatures :: "bytes list"
  rc_refund_signature :: bytes

record RenewFinalize =
  rf_channel_id :: bytes
  rf_per_update_secret :: bytes
  rf_buffer_adaptor_signature :: bytes

record RenewRevoke =
  rr_channel_id :: bytes
  rr_per_update_secret :: bytes

section \<open>Closing together, and rejecting\<close>

record CollaborativeCloseOffer =
  co_channel_id :: bytes
  co_counter_payout :: amount
  co_close_signature :: bytes

record Reject =
  rj_channel_id :: bytes

end
