(* ===== verification/Channel.thy ===== *)
theory Channel
  imports Contract ChannelMsgs DlcChannel ChainMonitor
begin

text \<open>
  DLC channels as the manager keeps them, \<open>dlc-manager/src/channel/\<close>: base points and the keys derived from them, the states
  of a channel (\<open>mod.rs\<close>, \<open>offered_channel.rs\<close>, \<open>accepted_channel.rs\<close>, \<open>signed_channel.rs\<close>) and their conversions to and from
  messages. The commitment secrets of the lightning library are a record of functions.
\<close>

section \<open>Keys of a channel\<close>

text \<open>
  What the code uses of lightning: the secret of an update is derived from a seed and the update index, private keys follow
  the derivation of public keys, and the secrets the counterparty revealed are kept in an opaque store.
\<close>

record ln_lib =
  build_commitment_secret :: "bytes \<Rightarrow> nat \<Rightarrow> bytes"
  derive_private_key :: "pubkey \<Rightarrow> bytes \<Rightarrow> bytes"
  derive_private_revocation_key :: "bytes \<Rightarrow> bytes \<Rightarrow> bytes"
  no_secrets :: bytes
  provide_secret :: "bytes \<Rightarrow> nat \<Rightarrow> bytes \<Rightarrow> (unit + bytes)"
  get_secret :: "bytes \<Rightarrow> nat \<Rightarrow> bytes option"

text \<open>Answers of the signer provider: the \<open>k\<close>-th new secret key of a call, and the secret key of a public one.\<close>

record key_provider =
  new_secret_key :: "nat \<Rightarrow> Error + bytes"
  secret_key_for :: "pubkey \<Rightarrow> Error + bytes"

record PartyBasePoints =
  own_basepoint :: pubkey
  revocation_basepoint :: pubkey
  publish_basepoint :: pubkey

text \<open>The hashes are expected to be keys, and the sums not to be zero.\<close>

definition derive_public_key :: "btc \<Rightarrow> secp \<Rightarrow> pubkey \<Rightarrow> pubkey \<Rightarrow> pubkey option" where
  "derive_public_key B S per_commitment_point base_point = do {
     hash_key \<leftarrow> unwrap (sk_from_slice S (sha256 B (per_commitment_point @ base_point)));
     unwrap (combine_keys S [base_point, pk_of S hash_key])
   }"

definition derive_public_revocation_key :: "btc \<Rightarrow> secp \<Rightarrow> pubkey \<Rightarrow> pubkey \<Rightarrow> pubkey option" where
  "derive_public_revocation_key B S per_commitment_point counter_base_point = do {
     rev_tweak \<leftarrow> scalar_from_be_bytes S (sha256 B (counter_base_point @ per_commitment_point));
     counter_contrib \<leftarrow> unwrap (mul_tweak S counter_base_point rev_tweak);
     commit_tweak \<leftarrow> scalar_from_be_bytes S (sha256 B (per_commitment_point @ counter_base_point));
     broadcaster_contrib \<leftarrow> unwrap (mul_tweak S per_commitment_point commit_tweak);
     unwrap (combine_keys S [counter_contrib, broadcaster_contrib])
   }"

definition get_revokable_params :: "btc \<Rightarrow> secp \<Rightarrow> PartyBasePoints \<Rightarrow> pubkey \<Rightarrow> pubkey \<Rightarrow> RevokeParams option" where
  "get_revokable_params B S points counter_revocation_basepoint point = do {
     own \<leftarrow> derive_public_key B S point (own_basepoint points);
     publish \<leftarrow> derive_public_key B S point (publish_basepoint points);
     revoke \<leftarrow> derive_public_revocation_key B S point counter_revocation_basepoint;
     Some \<lparr>own_pk = own, publish_pk = publish, revoke_pk = revoke\<rparr>
   }"

definition get_own_pk :: "btc \<Rightarrow> secp \<Rightarrow> PartyBasePoints \<Rightarrow> pubkey \<Rightarrow> pubkey option" where
  "get_own_pk B S points point = derive_public_key B S point (own_basepoint points)"

definition get_publish_pk :: "btc \<Rightarrow> secp \<Rightarrow> PartyBasePoints \<Rightarrow> pubkey \<Rightarrow> pubkey option" where
  "get_publish_pk B S points point = derive_public_key B S point (publish_basepoint points)"

definition get_revocation_pk :: "btc \<Rightarrow> secp \<Rightarrow> PartyBasePoints \<Rightarrow> pubkey \<Rightarrow> pubkey option" where
  "get_revocation_pk B S points point = derive_public_key B S point (revocation_basepoint points)"

definition get_party_base_points :: "secp \<Rightarrow> key_provider \<Rightarrow> nat \<Rightarrow> Error + PartyBasePoints" where
  "get_party_base_points S P k =
     rbind (new_secret_key P k) (\<lambda>own.
     rbind (new_secret_key P (k + 1)) (\<lambda>publish.
     rbind (new_secret_key P (k + 2)) (\<lambda>revocation.
     Inr \<lparr>own_basepoint = pk_of S own, revocation_basepoint = pk_of S revocation, publish_basepoint = pk_of S publish\<rparr>)))"

section \<open>Offered and accepted channels\<close>

record OfferedChannel =
  och_contract_id :: bytes
  och_temporary_channel_id :: bytes
  och_points :: PartyBasePoints
  och_per_update_point :: pubkey
  och_per_update_seed :: "pubkey option"
  och_is_offer_party :: bool
  och_counter_party :: pubkey
  och_cet_nsequence :: nat

definition CET_NSEQUENCE :: nat where "CET_NSEQUENCE = 288"

definition get_offer_channel_msg :: "OfferedChannel \<Rightarrow> OfferedContract \<Rightarrow> OfferChannel option" where
  "get_offer_channel_msg ch oc = map_option (\<lambda>info. let points = och_points ch in
     \<lparr>oc_protocol_version = PROTOCOL_VERSION, oc_contract_flags = 0, oc_chain_hash = BITCOIN_CHAINHASH,
      oc_temporary_contract_id = oc_id oc, oc_temporary_channel_id = och_temporary_channel_id ch, oc_contract_info = info,
      oc_funding_pubkey = fund_pubkey (offer_params oc), oc_revocation_basepoint = revocation_basepoint points,
      oc_publish_basepoint = publish_basepoint points, oc_own_basepoint = own_basepoint points,
      oc_first_per_update_point = och_per_update_point ch, oc_payout_spk = payout_script_pubkey (offer_params oc),
      oc_payout_serial_id = payout_serial_id (offer_params oc), oc_offer_collateral = collateral (offer_params oc),
      oc_channel_inputs = oc_funding_inputs oc, oc_change_spk = change_script_pubkey (offer_params oc),
      oc_change_serial_id = change_serial_id (offer_params oc), oc_fund_output_serial_id = fund_output_serial_id oc,
      oc_fee_rate_per_vb = fee_rate_per_vb oc, oc_cet_locktime = cet_locktime oc, oc_refund_locktime = refund_locktime oc,
      oc_cet_nsequence = CET_NSEQUENCE\<rparr>) (ser_contract_info oc)"

definition from_offer_channel ::
  "btc \<Rightarrow> tx_codec \<Rightarrow> OfferChannel \<Rightarrow> pubkey \<Rightarrow> bytes \<Rightarrow> (Error + OfferedChannel \<times> OfferedContract) option" where
  "from_offer_channel B K m cp keys =
     (let ch = \<lparr>och_contract_id = oc_temporary_contract_id m, och_temporary_channel_id = oc_temporary_channel_id m,
        och_points = \<lparr>own_basepoint = oc_own_basepoint m, revocation_basepoint = oc_revocation_basepoint m,
          publish_basepoint = oc_publish_basepoint m\<rparr>,
        och_per_update_point = oc_first_per_update_point m, och_per_update_seed = None, och_is_offer_party = False,
        och_counter_party = cp, och_cet_nsequence = oc_cet_nsequence m\<rparr> in
      pbind (conversion_err (get_tx_input_infos B K (oc_channel_inputs m))) (\<lambda>(inputs, amt).
      pbind (conversion_err (get_contract_info_and_announcements (oc_contract_info m))) (\<lambda>infos.
      pok (ch, \<lparr>oc_id = oc_temporary_contract_id m, is_offer_party = False, contract_info = infos, counter_party = cp,
        offer_params = \<lparr>fund_pubkey = oc_funding_pubkey m, change_script_pubkey = oc_change_spk m, change_serial_id = oc_change_serial_id m,
          payout_script_pubkey = oc_payout_spk m, payout_serial_id = oc_payout_serial_id m, pp_inputs = inputs,
          input_amount = amt, collateral = oc_offer_collateral m\<rparr>,
        total_collateral = ser_total_collateral (oc_contract_info m), oc_funding_inputs = oc_channel_inputs m,
        fund_output_serial_id = oc_fund_output_serial_id m, fee_rate_per_vb = oc_fee_rate_per_vb m,
        cet_locktime = oc_cet_locktime m, refund_locktime = oc_refund_locktime m, keys_id = keys\<rparr>))))"

record AcceptedChannel =
  ach_counter_party :: pubkey
  ach_contract_id :: bytes
  ach_offer_points :: PartyBasePoints
  ach_accept_points :: PartyBasePoints
  ach_offer_per_update_point :: pubkey
  ach_accept_per_update_point :: pubkey
  ach_buffer_transaction :: Transaction
  ach_buffer_script_pubkey :: script
  ach_temporary_channel_id :: bytes
  ach_channel_id :: bytes
  ach_per_update_seed :: pubkey
  ach_buffer_adaptor_signature :: bytes

definition get_accept_channel_msg :: "AcceptedChannel \<Rightarrow> AcceptedContract \<Rightarrow> bytes \<Rightarrow> bytes list \<Rightarrow> AcceptChannel" where
  "get_accept_channel_msg ch a buffer_sig cet_sigs =
     \<lparr>acm_temporary_channel_id = ach_temporary_channel_id ch, acm_accept_collateral = collateral (accept_params a),
      acm_funding_pubkey = fund_pubkey (accept_params a), acm_revocation_basepoint = revocation_basepoint (ach_accept_points ch),
      acm_publish_basepoint = publish_basepoint (ach_accept_points ch), acm_own_basepoint = own_basepoint (ach_accept_points ch),
      acm_first_per_update_point = ach_accept_per_update_point ch, acm_payout_spk = payout_script_pubkey (accept_params a),
      acm_payout_serial_id = payout_serial_id (accept_params a), acm_funding_inputs = ac_funding_inputs a,
      acm_change_spk = change_script_pubkey (accept_params a), acm_change_serial_id = change_serial_id (accept_params a),
      acm_cet_adaptor_signatures = cet_sigs, acm_buffer_adaptor_signature = buffer_sig,
      acm_refund_signature = accept_refund_signature a, acm_negotiation_fields = None\<rparr>"

section \<open>Signed channels\<close>

text \<open>The states with their fields in the order of the source; a field that several states have is one selector.\<close>

datatype SignedChannelState =
    Established (ss_contract_id: bytes) (ss_counter_buffer_sig: bytes) (ss_own_buffer_sig: bytes) (ss_buffer_tx: Transaction)
      (ss_is_offer: bool) (ss_total_collateral: amount) (ss_keys_id: bytes)
  | SettledOffered (ss_counter_payout: amount) (ss_next_per_update_point: pubkey) (ss_timeout: nat) (ss_keys_id: bytes)
  | SettledReceived (ss_own_payout: amount) (ss_counter_payout: amount) (ss_counter_next_point: pubkey) (ss_keys_id: bytes)
  | SettledAccepted (ss_counter_next_point: pubkey) (ss_own_next_point: pubkey) (ss_own_settle_sig: bytes) (ss_settle_tx: Transaction)
      (ss_timeout: nat) (ss_own_payout: amount) (ss_counter_payout: amount) (ss_keys_id: bytes)
  | SettledConfirmed (ss_settle_tx: Transaction) (ss_counter_settle_sig: bytes) (ss_counter_next_point: pubkey) (ss_own_next_point: pubkey)
      (ss_own_settle_sig: bytes) (ss_timeout: nat) (ss_own_payout: amount) (ss_counter_payout: amount) (ss_keys_id: bytes)
  | Settled (ss_settle_tx: Transaction) (ss_counter_settle_sig: bytes) (ss_own_settle_sig: bytes) (ss_own_payout: amount)
      (ss_counter_payout: amount) (ss_keys_id: bytes)
  | RenewOffered (ss_contract_id: bytes) (ss_counter_payout: amount) (ss_offer_next_point: pubkey) (ss_is_offer: bool) (ss_timeout: nat)
      (ss_keys_id: bytes)
  | RenewAccepted (ss_contract_id: bytes) (ss_offer_point: pubkey) (ss_accept_point: pubkey) (ss_buffer_tx: Transaction)
      (ss_buffer_script: script) (ss_timeout: nat) (ss_own_payout: amount) (ss_keys_id: bytes)
  | RenewConfirmed (ss_contract_id: bytes) (ss_offer_point: pubkey) (ss_accept_point: pubkey) (ss_buffer_tx: Transaction)
      (ss_buffer_script: script) (ss_offer_buffer_sig: bytes) (ss_timeout: nat) (ss_own_payout: amount) (ss_total_collateral: amount)
      (ss_keys_id: bytes)
  | RenewFinalized (ss_contract_id: bytes) (ss_prev_offer_point: pubkey) (ss_buffer_tx: Transaction) (ss_buffer_script: script)
      (ss_offer_buffer_sig: bytes) (ss_accept_buffer_sig: bytes) (ss_timeout: nat) (ss_own_payout: amount) (ss_total_collateral: amount)
      (ss_keys_id: bytes)
  | Closing (ss_buffer_tx: Transaction) (ss_contract_id: bytes) (ss_is_initiator: bool) (ss_keys_id: bytes)
  | CollaborativeCloseOffered (ss_counter_payout: amount) (ss_offer_signature: bytes) (ss_close_tx: Transaction) (ss_timeout: nat)
      (ss_keys_id: bytes)

datatype SignedChannelStateType = EstablishedT | SettledOfferedT | SettledReceivedT | SettledAcceptedT | SettledConfirmedT | SettledT
  | RenewOfferedT | RenewAcceptedT | RenewConfirmedT | RenewFinalizedT | ClosingT | CollaborativeCloseOfferedT

fun get_type :: "SignedChannelState \<Rightarrow> SignedChannelStateType" where
  "get_type (Established _ _ _ _ _ _ _) = EstablishedT"
| "get_type (SettledOffered _ _ _ _) = SettledOfferedT"
| "get_type (SettledReceived _ _ _ _) = SettledReceivedT"
| "get_type (SettledAccepted _ _ _ _ _ _ _ _) = SettledAcceptedT"
| "get_type (SettledConfirmed _ _ _ _ _ _ _ _ _) = SettledConfirmedT"
| "get_type (Settled _ _ _ _ _ _) = SettledT"
| "get_type (RenewOffered _ _ _ _ _ _) = RenewOfferedT"
| "get_type (RenewAccepted _ _ _ _ _ _ _ _) = RenewAcceptedT"
| "get_type (RenewConfirmed _ _ _ _ _ _ _ _ _ _) = RenewConfirmedT"
| "get_type (RenewFinalized _ _ _ _ _ _ _ _ _ _) = RenewFinalizedT"
| "get_type (Closing _ _ _ _) = ClosingT"
| "get_type (CollaborativeCloseOffered _ _ _ _ _) = CollaborativeCloseOfferedT"

definition is_of_type :: "SignedChannelState \<Rightarrow> SignedChannelStateType \<Rightarrow> bool" where
  "is_of_type s t \<longleftrightarrow> get_type s = t"

record SignedChannel =
  sch_channel_id :: bytes
  sch_counter_party :: pubkey
  sch_temporary_channel_id :: bytes
  own_params :: PartyParams
  own_points :: PartyBasePoints
  own_per_update_point :: pubkey
  own_per_update_seed :: pubkey
  counter_points :: PartyBasePoints
  counter_per_update_point :: pubkey
  counter_params :: PartyParams
  sch_state :: SignedChannelState
  update_idx :: nat
  fund_tx :: Transaction
  fund_script_pubkey :: script
  fund_output_index :: nat
  roll_back_state :: "SignedChannelState option"
  counter_secrets :: bytes
  sch_fee_rate :: nat

definition state_contract_id :: "SignedChannelState \<Rightarrow> bytes option" where
  "state_contract_id s = (if get_type s \<in> {EstablishedT, RenewOfferedT, RenewAcceptedT, RenewConfirmedT, RenewFinalizedT, ClosingT}
     then Some (ss_contract_id s) else None)"

definition signed_channel_contract_id :: "SignedChannel \<Rightarrow> bytes option" where
  "signed_channel_contract_id ch = state_contract_id (sch_state ch)"

definition signed_channel_keys_id :: "SignedChannel \<Rightarrow> bytes option" where
  "signed_channel_keys_id ch = Some (ss_keys_id (sch_state ch))"

section \<open>The states of a channel\<close>

record FailedAcceptChannel =
  fac_counter_party :: pubkey
  fac_temporary_channel_id :: bytes
  fac_error_message :: string
  fac_accept_message :: AcceptChannel

record FailedSignChannel =
  fsc_counter_party :: pubkey
  fsc_channel_id :: bytes
  fsc_error_message :: string
  fsc_sign_message :: SignChannel

record ClosingChannel =
  clg_counter_party :: pubkey
  clg_temporary_channel_id :: bytes
  clg_channel_id :: bytes
  clg_rollback_state :: "SignedChannel option"
  clg_buffer_transaction :: Transaction
  clg_contract_id :: bytes
  clg_is_closer :: bool

record ClosedChannel =
  cld_counter_party :: pubkey
  cld_temporary_channel_id :: bytes
  cld_channel_id :: bytes

record ClosedPunishedChannel =
  cpd_counter_party :: pubkey
  cpd_temporary_channel_id :: bytes
  cpd_channel_id :: bytes
  cpd_punish_txid :: bytes

datatype Channel =
    ChOffered OfferedChannel | ChAccepted AcceptedChannel | ChSigned SignedChannel | ChFailedAccept FailedAcceptChannel
  | ChFailedSign FailedSignChannel | ChCancelled OfferedChannel | ChClosing ClosingChannel | ChClosed ClosedChannel
  | ChCounterClosed ClosedChannel | ChClosedPunished ClosedPunishedChannel | ChCollaborativelyClosed ClosedChannel

fun channel_counter_party :: "Channel \<Rightarrow> pubkey" where
  "channel_counter_party (ChOffered c) = och_counter_party c"
| "channel_counter_party (ChAccepted c) = ach_counter_party c"
| "channel_counter_party (ChSigned c) = sch_counter_party c"
| "channel_counter_party (ChFailedAccept c) = fac_counter_party c"
| "channel_counter_party (ChFailedSign c) = fsc_counter_party c"
| "channel_counter_party (ChCancelled c) = och_counter_party c"
| "channel_counter_party (ChClosing c) = clg_counter_party c"
| "channel_counter_party (ChClosed c) = cld_counter_party c"
| "channel_counter_party (ChCounterClosed c) = cld_counter_party c"
| "channel_counter_party (ChCollaborativelyClosed c) = cld_counter_party c"
| "channel_counter_party (ChClosedPunished c) = cpd_counter_party c"

text \<open>\<open>unimplemented!\<close> for the remaining states panics.\<close>

fun channel_temporary_id :: "Channel \<Rightarrow> bytes option" where
  "channel_temporary_id (ChOffered c) = Some (och_temporary_channel_id c)"
| "channel_temporary_id (ChAccepted c) = Some (ach_temporary_channel_id c)"
| "channel_temporary_id (ChSigned c) = Some (sch_temporary_channel_id c)"
| "channel_temporary_id (ChFailedAccept c) = Some (fac_temporary_channel_id c)"
| "channel_temporary_id (ChClosed c) = Some (cld_temporary_channel_id c)"
| "channel_temporary_id (ChCounterClosed c) = Some (cld_temporary_channel_id c)"
| "channel_temporary_id (ChCollaborativelyClosed c) = Some (cld_temporary_channel_id c)"
| "channel_temporary_id (ChClosedPunished c) = Some (cpd_temporary_channel_id c)"
| "channel_temporary_id c = None"

fun channel_get_id :: "Channel \<Rightarrow> bytes" where
  "channel_get_id (ChOffered c) = och_temporary_channel_id c"
| "channel_get_id (ChAccepted c) = ach_channel_id c"
| "channel_get_id (ChSigned c) = sch_channel_id c"
| "channel_get_id (ChFailedAccept c) = fac_temporary_channel_id c"
| "channel_get_id (ChFailedSign c) = fsc_channel_id c"
| "channel_get_id (ChClosing c) = clg_channel_id c"
| "channel_get_id (ChClosed c) = cld_channel_id c"
| "channel_get_id (ChCounterClosed c) = cld_channel_id c"
| "channel_get_id (ChCollaborativelyClosed c) = cld_channel_id c"
| "channel_get_id (ChClosedPunished c) = cpd_channel_id c"
| "channel_get_id (ChCancelled c) = och_temporary_channel_id c"

fun channel_contract_id :: "Channel \<Rightarrow> bytes option" where
  "channel_contract_id (ChOffered c) = Some (och_contract_id c)"
| "channel_contract_id (ChAccepted c) = Some (ach_contract_id c)"
| "channel_contract_id (ChSigned c) = signed_channel_contract_id c"
| "channel_contract_id c = None"

definition generate_temporary_contract_id :: "btc \<Rightarrow> bytes \<Rightarrow> nat \<Rightarrow> bytes" where
  "generate_temporary_contract_id B i n = sha256 B (i @ be_bytes 8 n)"

end
