(* ===== verification/ChannelUpdater.thy ===== *)
theory ChannelUpdater
  imports ContractUpdater Channel
begin

text \<open>
  The steps of a channel, of \<open>dlc-manager/src/channel_updater.rs\<close>: establishing it, settling and renewing its contract, and closing
  it. A step returns the channel after it with the message to send; when it fails the caller drops the channel it changed, so an
  error comes without one. A panic is \<open>None\<close>. The text of an \<open>InvalidState\<close> error leaves out the printed state.
\<close>

section \<open>Common parts\<close>

definition INITIAL_UPDATE_NUMBER :: nat where "INITIAL_UPDATE_NUMBER = 2 ^ 48 - 1"

definition secp_error :: "string + 'a \<Rightarrow> Error + 'a" where
  "secp_error r = (case r of Inl e \<Rightarrow> Inl (SecpError e) | Inr x \<Rightarrow> Inr x)"

lemma secp_error_Inr [simp]: "secp_error r = Inr x \<longleftrightarrow> r = Inr x" "secp_error (Inr x) = Inr x"
  by (auto simp: secp_error_def split: sum.splits)

text \<open>The secret of an update and its point; the code expects the secret to be a key where it needs the point only.\<close>

definition update_secret :: "secp \<Rightarrow> ln_lib \<Rightarrow> bytes \<Rightarrow> nat \<Rightarrow> string + bytes" where
  "update_secret S N seed i = sk_from_slice S (build_commitment_secret N seed i)"

definition update_point :: "secp \<Rightarrow> ln_lib \<Rightarrow> bytes \<Rightarrow> nat \<Rightarrow> pubkey option" where
  "update_point S N seed i = map_option (pk_of S) (unwrap (update_secret S N seed i))"

definition get_signed_channel_state :: "SignedChannel \<Rightarrow> SignedChannelStateType \<Rightarrow> (Error + SignedChannelState) option" where
  "get_signed_channel_state ch t =
     (if is_of_type (sch_state ch) t then pok (sch_state ch) else perr (InvalidState ''Expected another state''))"

definition fund_value :: "SignedChannel \<Rightarrow> amount option" where
  "fund_value ch = map_option txo_value (vget (tx_output (fund_tx ch)) (fund_output_index ch))"

text \<open>The state is replaced, and the one before kept to roll back to.\<close>

definition enter_state :: "SignedChannelState \<Rightarrow> SignedChannel \<Rightarrow> SignedChannel" where
  "enter_state s ch = ch\<lparr>sch_state := s, roll_back_state := Some (sch_state ch)\<rparr>"

section \<open>Establishing a channel\<close>

definition offer_channel ::
  "btc \<Rightarrow> secp \<Rightarrow> tx_codec \<Rightarrow> ln_lib \<Rightarrow> outside \<Rightarrow> key_provider \<Rightarrow> ContractInput \<Rightarrow> pubkey \<Rightarrow> OracleAnnouncement list list \<Rightarrow>
   nat \<Rightarrow> nat \<Rightarrow> bytes \<Rightarrow> (Error + OfferedChannel \<times> OfferedContract) option" where
  "offer_channel B S K N W P contract cp announcements cet_nsequence refund_delay tmp_channel_id =
     (let i = temporary_id W; keys = derive_signer_key_id W True i in
      pbind (Some (derive_contract_signer W keys)) (\<lambda>signer.
      pbind (get_party_params B K W (ci_offer_collateral contract) (ci_fee_rate contract) signer) (\<lambda>(params, inputs).
      pbind (Some (get_party_base_points S P 0)) (\<lambda>points.
      obind (new_offered i contract announcements params inputs cp refund_delay (unix_time_now W mod u32_bound) keys
        (serial_ids W (2 + length inputs))) (\<lambda>oc.
      pbind (Some (new_secret_key P 3)) (\<lambda>seed.
      obind (update_point S N seed INITIAL_UPDATE_NUMBER) (\<lambda>point.
      pok (\<lparr>och_contract_id = oc_id oc, och_temporary_channel_id = tmp_channel_id, och_points = points,
            och_per_update_point = point, och_per_update_seed = Some (pk_of S seed), och_is_offer_party = True,
            och_counter_party = cp, och_cet_nsequence = cet_nsequence\<rparr>, oc))))))))"

definition accept_channel_offer ::
  "btc \<Rightarrow> secp \<Rightarrow> mslib \<Rightarrow> tx_codec \<Rightarrow> ln_lib \<Rightarrow> outside \<Rightarrow> key_provider \<Rightarrow> OfferedChannel \<Rightarrow> OfferedContract \<Rightarrow>
   (Error + AcceptedChannel \<times> AcceptedContract \<times> AcceptChannel) option" where
  "accept_channel_offer B S M K N W P ch oc =
     obind (assert_that (och_contract_id ch = oc_id oc)) (\<lambda>_.
     pbind (Some (derive_contract_signer W (keys_id oc))) (\<lambda>signer.
     obind (u64_sub (total_collateral oc) (collateral (offer_params oc))) (\<lambda>own_collateral.
     pbind (get_party_params B K W own_collateral (fee_rate_per_vb oc) signer) (\<lambda>(accept, inputs).
     pbind (Some (new_secret_key P 0)) (\<lambda>seed.
     obind (update_point S N seed INITIAL_UPDATE_NUMBER) (\<lambda>point.
     pbind (Some (get_party_base_points S P 1)) (\<lambda>points.
     obind (get_revokable_params B S points (revocation_basepoint (och_points ch)) point) (\<lambda>accept_rev.
     obind (get_revokable_params B S (och_points ch) (revocation_basepoint points) (och_per_update_point ch)) (\<lambda>offer_rev.
     obind (vget (contract_info oc) 0) (\<lambda>first_info.
     pbind (get_payouts first_info (total_collateral oc)) (\<lambda>payouts.
     pbind (dlc_err (create_channel_transactions B M (offer_params oc) accept offer_rev accept_rev payouts (refund_locktime oc)
       (fee_rate_per_vb oc) 0 (cet_locktime oc) (fund_output_serial_id oc) (och_cet_nsequence ch))) (\<lambda>txs.
     let t = dlc_transactions txs; buffer_tx = buffer_transaction txs in
     pbind (Some (secret_key_for P (own_basepoint points))) (\<lambda>own_base_secret.
     obind (transactions_id B t (och_temporary_channel_id ch)) (\<lambda>ch_id.
     obind (get_fund_output B t) (\<lambda>fund_out.
     pbind (Some (signer_secret_key W signer)) (\<lambda>fund_sk.
     pbind (dlc_err (Some (get_tx_adaptor_signature S buffer_tx (txo_value fund_out) (funding_script_pubkey t) fund_sk (publish_pk offer_rev)))) (\<lambda>buffer_sig.
     obind (vget (tx_output buffer_tx) 0) (\<lambda>buffer_out.
     pbind (accept_contract_internal B S oc accept inputs (derive_private_key N point own_base_secret) (txo_value buffer_out)
       (Some (buffer_script_pubkey txs)) t) (\<lambda>(a, sigs).
     obind (get_contract_id B a) (\<lambda>contract_id.
     let ach = \<lparr>ach_counter_party = counter_party oc, ach_contract_id = contract_id, ach_offer_points = och_points ch,
           ach_accept_points = points, ach_offer_per_update_point = och_per_update_point ch, ach_accept_per_update_point = point,
           ach_buffer_transaction = buffer_tx, ach_buffer_script_pubkey = buffer_script_pubkey txs,
           ach_temporary_channel_id = och_temporary_channel_id ch, ach_channel_id = ch_id, ach_per_update_seed = pk_of S seed,
           ach_buffer_adaptor_signature = buffer_sig\<rparr> in
     pok (ach, a, get_accept_channel_msg ach a buffer_sig sigs)))))))))))))))))))))"

text \<open>The buffer transaction is watched, then the channel is built; the offering party needs its update seed for it.\<close>

definition accept_channel_params :: "btc \<Rightarrow> tx_codec \<Rightarrow> AcceptChannel \<Rightarrow> (Error + PartyParams) option" where
  "accept_channel_params B K m =
     pbind (conversion_err (get_tx_input_infos B K (acm_funding_inputs m))) (\<lambda>(infos, amt).
     pok \<lparr>fund_pubkey = acm_funding_pubkey m, change_script_pubkey = acm_change_spk m, change_serial_id = acm_change_serial_id m,
       payout_script_pubkey = acm_payout_spk m, payout_serial_id = acm_payout_serial_id m, pp_inputs = infos, input_amount = amt,
       collateral = acm_accept_collateral m\<rparr>)"

definition watch :: "btc \<Rightarrow> Transaction \<Rightarrow> bytes \<Rightarrow> TxType \<Rightarrow> ChainMonitor \<Rightarrow> ChainMonitor" where
  "watch B tx ch_id t = add_tx (compute_txid B tx) \<lparr>watched_channel = ch_id, tx_type = t\<rparr>"

definition verify_and_sign_accepted_channel ::
  "btc \<Rightarrow> secp \<Rightarrow> mslib \<Rightarrow> tx_codec \<Rightarrow> ln_lib \<Rightarrow> outside \<Rightarrow> key_provider \<Rightarrow> OfferedChannel \<Rightarrow> OfferedContract \<Rightarrow> AcceptChannel \<Rightarrow>
   nat \<Rightarrow> ChainMonitor \<Rightarrow> (Error + SignedChannel \<times> SignedContract \<times> SignChannel \<times> ChainMonitor) option" where
  "verify_and_sign_accepted_channel B S M K N W P ch oc m cet_nsequence mon =
     pbind (accept_channel_params B K m) (\<lambda>accept.
     let accept_points = \<lparr>own_basepoint = acm_own_basepoint m, revocation_basepoint = acm_revocation_basepoint m,
           publish_basepoint = acm_publish_basepoint m\<rparr>;
         offer_points = och_points ch in
     pbind (Some (secret_key_for P (own_basepoint offer_points))) (\<lambda>own_base_secret.
     let own_sk = derive_private_key N (och_per_update_point ch) own_base_secret in
     pbind (Some (derive_contract_signer W (keys_id oc))) (\<lambda>signer.
     obind (get_revokable_params B S offer_points (revocation_basepoint accept_points) (och_per_update_point ch)) (\<lambda>offer_rev.
     obind (get_revokable_params B S accept_points (revocation_basepoint offer_points) (acm_first_per_update_point m)) (\<lambda>accept_rev.
     obind (vget (contract_info oc) 0) (\<lambda>first_info.
     pbind (get_payouts first_info (total_collateral oc)) (\<lambda>payouts.
     pbind (dlc_err (create_channel_transactions B M (offer_params oc) accept offer_rev accept_rev payouts (refund_locktime oc)
       (fee_rate_per_vb oc) 0 (cet_locktime oc) (fund_output_serial_id oc) cet_nsequence)) (\<lambda>txs.
     let t = dlc_transactions txs; buffer_tx = buffer_transaction txs in
     obind (transactions_id B t (och_temporary_channel_id ch)) (\<lambda>ch_id.
     obind (vget (tx_output buffer_tx) 0) (\<lambda>buffer_out.
     pbind (verify_accepted_and_sign_contract_internal B S oc accept (acm_funding_inputs m) (acm_refund_signature m)
       (acm_cet_adaptor_signatures m) (txo_value buffer_out) (Inr own_sk) (Some (buffer_script_pubkey txs)) (Some (own_pk accept_rev))
       t (Some ch_id)) (\<lambda>(s, own_sigs).
     obind (get_fund_output B t) (\<lambda>fund_out.
     pbind (dlc_err (Some (verify_tx_adaptor_signature S buffer_tx (txo_value fund_out) (funding_script_pubkey t)
       (fund_pubkey (accept_params (accepted_contract s))) (publish_pk offer_rev) (acm_buffer_adaptor_signature m)))) (\<lambda>_.
     pbind (Some (signer_secret_key W signer)) (\<lambda>fund_sk.
     pbind (dlc_err (Some (get_tx_adaptor_signature S buffer_tx (txo_value fund_out) (funding_script_pubkey t) fund_sk (publish_pk accept_rev)))) (\<lambda>own_buffer_sig.
     obind (get_contract_id B (accepted_contract s)) (\<lambda>contract_id.
     obind (get_fund_output_index B t) (\<lambda>fund_index.
     obind (och_per_update_seed ch) (\<lambda>seed.
     pok (\<lparr>sch_channel_id = ch_id, sch_counter_party = counter_party oc, sch_temporary_channel_id = och_temporary_channel_id ch,
            own_params = offer_params oc, own_points = offer_points, own_per_update_point = och_per_update_point ch,
            own_per_update_seed = seed, counter_points = accept_points, counter_per_update_point = acm_first_per_update_point m,
            counter_params = accept_params (accepted_contract s),
            sch_state = Established contract_id (acm_buffer_adaptor_signature m) own_buffer_sig buffer_tx True (total_collateral oc) (keys_id oc),
            update_idx = INITIAL_UPDATE_NUMBER, fund_tx = fund t, fund_script_pubkey = funding_script_pubkey t,
            fund_output_index = fund_index, roll_back_state = None, counter_secrets = no_secrets N, sch_fee_rate = fee_rate_per_vb oc\<rparr>,
          s,
          \<lparr>sc_channel_id = ch_id, scm_cet_adaptor_signatures = own_sigs, scm_buffer_adaptor_signature = own_buffer_sig,
            scm_refund_signature = offer_refund_signature s, scm_funding_signatures = funding_signatures s\<rparr>,
          watch B buffer_tx ch_id BufferTx mon)))))))))))))))))))"

definition verify_signed_channel ::
  "btc \<Rightarrow> secp \<Rightarrow> ln_lib \<Rightarrow> AcceptedChannel \<Rightarrow> AcceptedContract \<Rightarrow> SignChannel \<Rightarrow> ChainMonitor \<Rightarrow>
   (Error + SignedChannel \<times> SignedContract \<times> Transaction \<times> ChainMonitor) option" where
  "verify_signed_channel B S N ach a m mon =
     obind (get_publish_pk B S (ach_accept_points ach) (ach_accept_per_update_point ach)) (\<lambda>own_publish.
     obind (get_own_pk B S (ach_offer_points ach) (ach_offer_per_update_point ach)) (\<lambda>counter_own.
     let t = ac_transactions a; oc = ac_offered_contract a; buffer_tx = ach_buffer_transaction ach in
     obind (get_fund_output B t) (\<lambda>fund_out.
     pbind (dlc_err (Some (verify_tx_adaptor_signature S buffer_tx (txo_value fund_out) (funding_script_pubkey t)
       (fund_pubkey (offer_params oc)) own_publish (scm_buffer_adaptor_signature m)))) (\<lambda>_.
     obind (vget (tx_output buffer_tx) 0) (\<lambda>buffer_out.
     pbind (verify_signed_contract_internal B S a (scm_refund_signature m) (scm_cet_adaptor_signatures m) (scm_funding_signatures m)
       (txo_value buffer_out) (Some (ach_buffer_script_pubkey ach)) (Some counter_own) (Some (ach_channel_id ach))) (\<lambda>(s, signed_fund_tx).
     obind (get_fund_output_index B t) (\<lambda>fund_index.
     obind (get_contract_id B a) (\<lambda>contract_id.
     pok (\<lparr>sch_channel_id = ach_channel_id ach, sch_counter_party = counter_party oc, sch_temporary_channel_id = ach_temporary_channel_id ach,
            own_params = accept_params a, own_points = ach_accept_points ach, own_per_update_point = ach_accept_per_update_point ach,
            own_per_update_seed = ach_per_update_seed ach, counter_points = ach_offer_points ach,
            counter_per_update_point = ach_offer_per_update_point ach, counter_params = offer_params oc,
            sch_state = Established contract_id (scm_buffer_adaptor_signature m) (ach_buffer_adaptor_signature ach) buffer_tx False
              (total_collateral oc) (keys_id oc),
            update_idx = INITIAL_UPDATE_NUMBER, fund_tx = fund t, fund_script_pubkey = funding_script_pubkey t,
            fund_output_index = fund_index, roll_back_state = None, counter_secrets = no_secrets N, sch_fee_rate = fee_rate_per_vb oc\<rparr>,
          s, signed_fund_tx, watch B buffer_tx (ach_channel_id ach) BufferTx mon)))))))))"


section \<open>Settling\<close>

definition get_settle_tx_and_adaptor_sig ::
  "btc \<Rightarrow> secp \<Rightarrow> mslib \<Rightarrow> pubkey \<Rightarrow> Transaction \<Rightarrow> nat \<Rightarrow> script \<Rightarrow> bytes \<Rightarrow> PartyBasePoints \<Rightarrow> PartyBasePoints \<Rightarrow> pubkey \<Rightarrow>
   amount \<Rightarrow> amount \<Rightarrow> nat \<Rightarrow> nat \<Rightarrow> (bytes \<times> pubkey) option \<Rightarrow> nat \<Rightarrow> (Error + Transaction \<times> bytes) option" where
  "get_settle_tx_and_adaptor_sig B S M own_next_point ftx fund_vout funding_spk own_fund_sk offer_points accept_points counter_point
     o_pay a_pay csv_timelock lt counter_sig fee_rate =
     (let is_offer = counter_sig \<noteq> None;
          (offer_point, accept_point) = (if is_offer then (own_next_point, counter_point) else (counter_point, own_next_point));
          fund_tx_in = \<lparr>previous_output = \<lparr>txid = compute_txid B ftx, vout = fund_vout mod u32_bound\<rparr>, script_sig = [],
            sequence = 0xffffffff, witness = []\<rparr> in
      obind (get_revokable_params B S offer_points (revocation_basepoint accept_points) offer_point) (\<lambda>offer_rev.
      obind (get_revokable_params B S accept_points (revocation_basepoint offer_points) accept_point) (\<lambda>accept_rev.
      obind (map_option txo_value (vget (tx_output ftx) fund_vout)) (\<lambda>v.
      pbind (dlc_err (create_settle_transaction M fund_tx_in offer_rev accept_rev o_pay a_pay csv_timelock lt v fee_rate)) (\<lambda>settle_tx.
      pbind (case counter_sig of
          Some (adaptor_sig, fund_pk) \<Rightarrow>
            dlc_err (Some (verify_tx_adaptor_signature S settle_tx v funding_spk fund_pk (publish_pk offer_rev) adaptor_sig))
        | None \<Rightarrow> pok ()) (\<lambda>_.
      let counter_pk = (if is_offer then publish_pk accept_rev else publish_pk offer_rev) in
      pbind (dlc_err (Some (get_tx_adaptor_signature S settle_tx v funding_spk own_fund_sk counter_pk))) (\<lambda>sig.
      pok (settle_tx, sig))))))))"

definition settle_channel_offer ::
  "secp \<Rightarrow> ln_lib \<Rightarrow> outside \<Rightarrow> key_provider \<Rightarrow> SignedChannel \<Rightarrow> amount \<Rightarrow> nat \<Rightarrow> (Error + SettleOffer \<times> SignedChannel) option" where
  "settle_channel_offer S N W P ch counter_payout peer_timeout =
     (if \<not> is_of_type (sch_state ch) EstablishedT
      then perr (InvalidState ''Signed channel was not in Established state as expected.'')
      else pbind (Some (secret_key_for P (own_per_update_seed ch))) (\<lambda>seed.
        obind (u64_sub (update_idx ch) 1) (\<lambda>next_idx.
        obind (update_point S N seed next_idx) (\<lambda>next_point.
        obind (u64_add (unix_time_now W) peer_timeout) (\<lambda>timeout.
        pok (\<lparr>so_channel_id = sch_channel_id ch, so_counter_payout = counter_payout, so_next_per_update_point = next_point\<rparr>,
          enter_state (SettledOffered counter_payout next_point timeout (ss_keys_id (sch_state ch))) ch))))))"

definition on_settle_offer :: "SignedChannel \<Rightarrow> SettleOffer \<Rightarrow> (Error + SignedChannel) option" where
  "on_settle_offer ch m =
     (if \<not> is_of_type (sch_state ch) EstablishedT
      then perr (InvalidState ''Received settle offer while not in Established state.'')
      else obind (u64_add (collateral (own_params ch)) (collateral (counter_params ch))) (\<lambda>T.
        if T < so_counter_payout m then perr (InvalidState ''Proposed settle offer payout greater than total collateral'')
        else pok (enter_state (SettledReceived (so_counter_payout m) (T - so_counter_payout m) (so_next_per_update_point m)
          (ss_keys_id (sch_state ch))) ch)))"

text \<open>The fee remainder of the source is the constant 0.\<close>

definition settle_channel_accept ::
  "btc \<Rightarrow> secp \<Rightarrow> mslib \<Rightarrow> ln_lib \<Rightarrow> outside \<Rightarrow> key_provider \<Rightarrow> SignedChannel \<Rightarrow> nat \<Rightarrow> nat \<Rightarrow> nat \<Rightarrow> ChainMonitor \<Rightarrow>
   (Error + SettleAccept \<times> SignedChannel \<times> ChainMonitor) option" where
  "settle_channel_accept B S M N W P ch csv_timelock lt peer_timeout mon =
     (let s = sch_state ch in
      if \<not> is_of_type s SettledReceivedT
      then perr (InvalidState ''Signed channel was not in SettledReceived state as expected.'')
      else pbind (Some (secret_key_for P (own_per_update_seed ch))) (\<lambda>seed.
        obind (u64_sub (update_idx ch) 1) (\<lambda>next_idx.
        obind (update_point S N seed next_idx) (\<lambda>next_point.
        obind (u64_add (collateral (counter_params ch)) (collateral (own_params ch))) (\<lambda>T.
        obind (u64_sub T (ss_own_payout s)) (\<lambda>final_offer_payout.
        pbind (Some (derive_contract_signer W (ss_keys_id s))) (\<lambda>signer.
        pbind (Some (signer_secret_key W signer)) (\<lambda>fund_sk.
        pbind (get_settle_tx_and_adaptor_sig B S M next_point (fund_tx ch) (fund_output_index ch) (fund_script_pubkey ch) fund_sk
          (counter_points ch) (own_points ch) (ss_counter_next_point s) final_offer_payout (ss_own_payout s) csv_timelock lt None
          (sch_fee_rate ch)) (\<lambda>(settle_tx, sig).
        obind (u64_add (unix_time_now W) peer_timeout) (\<lambda>timeout.
        pok (\<lparr>sa_channel_id = sch_channel_id ch, sa_next_per_update_point = next_point, sa_settle_adaptor_signature = sig\<rparr>,
          ch\<lparr>sch_state := SettledAccepted (ss_counter_next_point s) next_point sig settle_tx timeout (ss_own_payout s)
            (ss_counter_payout s) (ss_keys_id s)\<rparr>,
          watch B settle_tx (sch_channel_id ch) SettleTx mon)))))))))))"

text \<open>The settle transaction is watched before the secret of the update is derived, which may fail.\<close>

definition confirmed_settle_tx ::
  "btc \<Rightarrow> secp \<Rightarrow> mslib \<Rightarrow> outside \<Rightarrow> SignedChannel \<Rightarrow> SettleAccept \<Rightarrow> nat \<Rightarrow> nat \<Rightarrow> (Error + amount \<times> Transaction \<times> bytes) option" where
  "confirmed_settle_tx B S M W ch m csv_timelock lt =
     (let s = sch_state ch in
      if \<not> is_of_type s SettledOfferedT
      then perr (InvalidState ''Signed channel was not in SettledOffered state as expected.'')
      else obind (u64_add (collateral (counter_params ch)) (collateral (own_params ch))) (\<lambda>T.
        obind (u64_sub T (ss_counter_payout s)) (\<lambda>final_offer_payout.
        pbind (Some (derive_contract_signer W (ss_keys_id s))) (\<lambda>signer.
        pbind (Some (signer_secret_key W signer)) (\<lambda>fund_sk.
        pbind (get_settle_tx_and_adaptor_sig B S M (ss_next_per_update_point s) (fund_tx ch) (fund_output_index ch) (fund_script_pubkey ch)
          fund_sk (own_points ch) (counter_points ch) (sa_next_per_update_point m) final_offer_payout (ss_counter_payout s) csv_timelock lt
          (Some (sa_settle_adaptor_signature m, fund_pubkey (counter_params ch))) (sch_fee_rate ch)) (\<lambda>(settle_tx, sig).
        pok (final_offer_payout, settle_tx, sig)))))))"

definition settle_channel_confirm ::
  "btc \<Rightarrow> secp \<Rightarrow> mslib \<Rightarrow> ln_lib \<Rightarrow> outside \<Rightarrow> key_provider \<Rightarrow> SignedChannel \<Rightarrow> SettleAccept \<Rightarrow> nat \<Rightarrow> nat \<Rightarrow> nat \<Rightarrow> ChainMonitor \<Rightarrow>
   ((Error + SettleConfirm \<times> SignedChannel) \<times> ChainMonitor) option" where
  "settle_channel_confirm B S M N W P ch m csv_timelock lt peer_timeout mon =
     (let s = sch_state ch in
      case confirmed_settle_tx B S M W ch m csv_timelock lt of
        None \<Rightarrow> None
      | Some (Inl e) \<Rightarrow> Some (Inl e, mon)
      | Some (Inr (own_payout, settle_tx, sig)) \<Rightarrow>
          map_option (\<lambda>r. (r, watch B settle_tx (sch_channel_id ch) SettleTx mon))
            (pbind (Some (secret_key_for P (own_per_update_seed ch))) (\<lambda>seed.
             pbind (Some (secp_error (update_secret S N seed (update_idx ch)))) (\<lambda>prev_secret.
             obind (u64_add (unix_time_now W) peer_timeout) (\<lambda>timeout.
             pok (\<lparr>scf_channel_id = sch_channel_id ch, scf_prev_per_update_secret = prev_secret, scf_settle_adaptor_signature = sig\<rparr>,
               ch\<lparr>sch_state := SettledConfirmed settle_tx (sa_settle_adaptor_signature m) (sa_next_per_update_point m)
                 (ss_next_per_update_point s) sig timeout own_payout (ss_counter_payout s) (ss_keys_id s)\<rparr>))))))"

text \<open>A revealed secret is that of the counterparty's current point, and fits those it revealed before.\<close>

definition store_secret ::
  "secp \<Rightarrow> ln_lib \<Rightarrow> SignedChannel \<Rightarrow> pubkey \<Rightarrow> bytes \<Rightarrow> string \<Rightarrow> string \<Rightarrow> Error + bytes" where
  "store_secret S N ch point secret wrong invalid =
     (if pk_of S secret \<noteq> point then Inl (InvalidParameters wrong)
      else case provide_secret N (counter_secrets ch) (update_idx ch) secret of
        Inl _ \<Rightarrow> Inl (InvalidParameters invalid) | Inr secrets \<Rightarrow> Inr secrets)"

definition settle_channel_finalize ::
  "btc \<Rightarrow> secp \<Rightarrow> ln_lib \<Rightarrow> key_provider \<Rightarrow> SignedChannel \<Rightarrow> SettleConfirm \<Rightarrow> (Error + SettleFinalize \<times> SignedChannel) option" where
  "settle_channel_finalize B S N P ch m =
     (let s = sch_state ch in
      if \<not> is_of_type s SettledAcceptedT
      then perr (InvalidState ''Signed channel was not in SettledAccepted state as expected.'')
      else pbind (Some (secret_key_for P (own_per_update_seed ch))) (\<lambda>seed.
        obind (get_revokable_params B S (own_points ch) (revocation_basepoint (counter_points ch)) (ss_own_next_point s)) (\<lambda>accept_rev.
        obind (fund_value ch) (\<lambda>v.
        pbind (dlc_err (Some (verify_tx_adaptor_signature S (ss_settle_tx s) v (fund_script_pubkey ch) (fund_pubkey (counter_params ch))
          (publish_pk accept_rev) (scf_settle_adaptor_signature m)))) (\<lambda>_.
        pbind (Some (store_secret S N ch (counter_per_update_point ch) (scf_prev_per_update_secret m)
          ''Invalid per update secret in channel confirm'' ''Received per update secret is invalid'')) (\<lambda>secrets.
        pbind (Some (secp_error (update_secret S N seed (update_idx ch)))) (\<lambda>prev_secret.
        obind (u64_sub (update_idx ch) 1) (\<lambda>next_idx.
        pok (\<lparr>sf_channel_id = sch_channel_id ch, sf_prev_per_update_secret = prev_secret\<rparr>,
          ch\<lparr>own_per_update_point := ss_own_next_point s, counter_per_update_point := ss_counter_next_point s,
            sch_state := Settled (ss_settle_tx s) (scf_settle_adaptor_signature m) (ss_own_settle_sig s) (ss_own_payout s)
              (ss_counter_payout s) (ss_keys_id s),
            roll_back_state := None, update_idx := next_idx, counter_secrets := secrets\<rparr>)))))))))"

definition settle_channel_on_finalize :: "secp \<Rightarrow> ln_lib \<Rightarrow> SignedChannel \<Rightarrow> SettleFinalize \<Rightarrow> (Error + SignedChannel) option" where
  "settle_channel_on_finalize S N ch m =
     (let s = sch_state ch in
      if \<not> is_of_type s SettledConfirmedT
      then perr (InvalidState ''Signed channel was not in SettledConfirmed state as expected.'')
      else pbind (Some (store_secret S N ch (counter_per_update_point ch) (sf_prev_per_update_secret m)
          ''Invalid per update secret in channel finalize'' ''Received per update secret is invalid'')) (\<lambda>secrets.
        obind (u64_sub (update_idx ch) 1) (\<lambda>next_idx.
        pok (ch\<lparr>own_per_update_point := ss_own_next_point s, counter_per_update_point := ss_counter_next_point s,
            sch_state := Settled (ss_settle_tx s) (ss_counter_settle_sig s) (ss_own_settle_sig s) (ss_own_payout s)
              (ss_counter_payout s) (ss_keys_id s),
            roll_back_state := None, update_idx := next_idx, counter_secrets := secrets\<rparr>))))"

definition roll_back :: "SignedChannel \<Rightarrow> SignedChannel option" where
  "roll_back ch = map_option (\<lambda>s. ch\<lparr>sch_state := s, roll_back_state := None\<rparr>) (roll_back_state ch)"

definition reject_settle_offer :: "SignedChannel \<Rightarrow> (Error + Reject \<times> SignedChannel) option" where
  "reject_settle_offer ch =
     pbind (get_signed_channel_state ch SettledReceivedT) (\<lambda>_.
     obind (roll_back ch) (\<lambda>ch'. pok (\<lparr>rj_channel_id = sch_channel_id ch\<rparr>, ch')))"


section \<open>Renewing\<close>

definition renewable :: "SignedChannel \<Rightarrow> ContractInput \<Rightarrow> (Error + unit) option" where
  "renewable ch input = (case get_type (sch_state ch) of
     EstablishedT \<Rightarrow> obind (u64_add (ci_accept_collateral input) (ci_offer_collateral input)) (\<lambda>T.
       if ss_total_collateral (sch_state ch) \<noteq> T
       then perr (InvalidParameters ''Sum of collaterals in contract must equal total collateral in channel.'') else pok ())
   | SettledT \<Rightarrow>
       if ci_offer_collateral input \<noteq> ss_own_payout (sch_state ch) \<or> ci_accept_collateral input \<noteq> ss_counter_payout (sch_state ch)
       then perr (InvalidParameters ''Contract collateral not equal to each party's balance in the channel'') else pok ()
   | _ \<Rightarrow> perr (InvalidState ''Can only renewed established or closed channels''))"

definition renew_offer ::
  "btc \<Rightarrow> secp \<Rightarrow> ln_lib \<Rightarrow> outside \<Rightarrow> key_provider \<Rightarrow> SignedChannel \<Rightarrow> ContractInput \<Rightarrow> OracleAnnouncement list list \<Rightarrow>
   amount \<Rightarrow> nat \<Rightarrow> nat \<Rightarrow> nat \<Rightarrow> (Error + RenewOffer \<times> OfferedContract \<times> SignedChannel) option" where
  "renew_offer B S N W P ch input announcements counter_payout refund_delay peer_timeout cet_nsequence =
     pbind (renewable ch input) (\<lambda>_.
     pbind (Some (ok_or (InvalidState ''No keys_id available'') (signed_channel_keys_id ch))) (\<lambda>keys.
     obind (new_offered (generate_temporary_contract_id B (sch_channel_id ch) (update_idx ch)) input announcements (own_params ch) []
       (sch_counter_party ch) refund_delay (unix_time_now W mod u32_bound) keys (serial_ids W 0)) (\<lambda>oc.
     let oc = oc\<lparr>fund_output_serial_id := 0, fee_rate_per_vb := sch_fee_rate ch\<rparr> in
     pbind (Some (secret_key_for P (own_per_update_seed ch))) (\<lambda>seed.
     obind (u64_sub (update_idx ch) 1) (\<lambda>next_idx.
     obind (update_point S N seed next_idx) (\<lambda>next_point.
     obind (u64_add (unix_time_now W) peer_timeout) (\<lambda>timeout.
     obind (ser_contract_info oc) (\<lambda>info.
     pok (\<lparr>ro_channel_id = sch_channel_id ch, ro_temporary_contract_id = oc_id oc, ro_counter_payout = counter_payout,
            ro_next_per_update_point = next_point, ro_contract_info = info, ro_cet_locktime = cet_locktime oc,
            ro_refund_locktime = refund_locktime oc, ro_cet_nsequence = cet_nsequence\<rparr>,
          oc, enter_state (RenewOffered (oc_id oc) counter_payout next_point True timeout keys) ch)))))))))"

definition on_renew_offer ::
  "outside \<Rightarrow> SignedChannel \<Rightarrow> RenewOffer \<Rightarrow> nat \<Rightarrow> (Error + OfferedContract \<times> SignedChannel) option" where
  "on_renew_offer W ch m peer_timeout =
     (if \<not> is_of_type (sch_state ch) SettledT \<and> \<not> is_of_type (sch_state ch) EstablishedT
      then perr (InvalidState ''Received renew offer while not in Settled or Established states.'')
      else let keys = ss_keys_id (sch_state ch) in
        pbind (conversion_err (get_contract_info_and_announcements (ro_contract_info m))) (\<lambda>infos.
        obind (u64_add (collateral (own_params ch)) (collateral (counter_params ch))) (\<lambda>T.
        let oc = \<lparr>oc_id = ro_temporary_contract_id m, is_offer_party = False, contract_info = infos, counter_party = sch_counter_party ch,
              offer_params = counter_params ch, total_collateral = T, oc_funding_inputs = [], fund_output_serial_id = 0,
              fee_rate_per_vb = sch_fee_rate ch, cet_locktime = ro_cet_locktime m, refund_locktime = ro_refund_locktime m,
              keys_id = keys\<rparr> in
        obind (u64_add (unix_time_now W) peer_timeout) (\<lambda>timeout.
        pok (oc, enter_state (RenewOffered (oc_id oc) (ro_counter_payout m) (ro_next_per_update_point m) False timeout keys) ch)))))"

definition accept_channel_renewal ::
  "btc \<Rightarrow> secp \<Rightarrow> mslib \<Rightarrow> ln_lib \<Rightarrow> outside \<Rightarrow> key_provider \<Rightarrow> SignedChannel \<Rightarrow> OfferedContract \<Rightarrow> nat \<Rightarrow> nat \<Rightarrow>
   (Error + AcceptedContract \<times> RenewAccept \<times> SignedChannel) option" where
  "accept_channel_renewal B S M N W P ch oc cet_nsequence peer_timeout =
     (let s = sch_state ch in
      if \<not> is_of_type s RenewOfferedT
      then perr (InvalidState ''Signed channel was not in SettledOffered state as expected.'')
      else pbind (Some (secret_key_for P (own_basepoint (own_points ch)))) (\<lambda>own_base_secret.
        pbind (Some (secret_key_for P (own_per_update_seed ch))) (\<lambda>seed.
        obind (get_revokable_params B S (counter_points ch) (revocation_basepoint (own_points ch)) (ss_offer_next_point s)) (\<lambda>offer_rev.
        obind (u64_sub (update_idx ch) 1) (\<lambda>next_idx.
        pbind (Some (secp_error (update_secret S N seed next_idx))) (\<lambda>accept_secret.
        let accept_point = pk_of S accept_secret in
        obind (get_revokable_params B S (own_points ch) (revocation_basepoint (counter_points ch)) accept_point) (\<lambda>accept_rev.
        obind (vget (contract_info oc) 0) (\<lambda>first_info.
        pbind (get_payouts first_info (total_collateral oc)) (\<lambda>payouts.
        pbind (dlc_err (create_renewal_channel_transactions B M (offer_params oc) (own_params ch) offer_rev accept_rev (fund_tx ch)
          (fund_script_pubkey ch) payouts (refund_locktime oc) (fee_rate_per_vb oc) 0 cet_nsequence)) (\<lambda>txs.
        obind (vget (tx_output (buffer_transaction txs)) 0) (\<lambda>buffer_out.
        pbind (accept_contract_internal B S oc (own_params ch) [] (derive_private_key N accept_point own_base_secret) (txo_value buffer_out)
          (Some (buffer_script_pubkey txs)) (dlc_transactions txs)) (\<lambda>(a, sigs).
        obind (get_contract_id B a) (\<lambda>contract_id.
        obind (u64_add (unix_time_now W) peer_timeout) (\<lambda>timeout.
        pok (a, \<lparr>ra_channel_id = sch_channel_id ch, ra_next_per_update_point = accept_point, ra_cet_adaptor_signatures = sigs,
              ra_refund_signature = accept_refund_signature a\<rparr>,
          ch\<lparr>sch_state := RenewAccepted contract_id (ss_offer_next_point s) accept_point (buffer_transaction txs) (buffer_script_pubkey txs)
            timeout (ss_counter_payout s) (ss_keys_id s)\<rparr>)))))))))))))))"

definition verify_renew_accept_and_confirm ::
  "btc \<Rightarrow> secp \<Rightarrow> mslib \<Rightarrow> ln_lib \<Rightarrow> outside \<Rightarrow> key_provider \<Rightarrow> RenewAccept \<Rightarrow> SignedChannel \<Rightarrow> OfferedContract \<Rightarrow> nat \<Rightarrow> nat \<Rightarrow>
   (Error + SignedContract \<times> RenewConfirm \<times> SignedChannel) option" where
  "verify_renew_accept_and_confirm B S M N W P m ch oc cet_nsequence peer_timeout =
     pbind (Some (secret_key_for P (own_basepoint (own_points ch)))) (\<lambda>own_base_secret.
     pbind (get_signed_channel_state ch RenewOfferedT) (\<lambda>s.
     pbind (Some (derive_contract_signer W (ss_keys_id s))) (\<lambda>signer.
     obind (get_revokable_params B S (own_points ch) (revocation_basepoint (counter_points ch)) (ss_offer_next_point s)) (\<lambda>offer_rev.
     obind (get_revokable_params B S (counter_points ch) (revocation_basepoint (own_points ch)) (ra_next_per_update_point m)) (\<lambda>accept_rev.
     obind (u64_sub (total_collateral oc) (ss_counter_payout s)) (\<lambda>own_payout.
     obind (vget (contract_info oc) 0) (\<lambda>first_info.
     pbind (get_payouts first_info (total_collateral oc)) (\<lambda>payouts.
     pbind (dlc_err (create_renewal_channel_transactions B M (offer_params oc) (counter_params ch) offer_rev accept_rev (fund_tx ch)
       (fund_script_pubkey ch) payouts (refund_locktime oc) (fee_rate_per_vb oc) 0 cet_nsequence)) (\<lambda>txs.
     let t = dlc_transactions txs; buffer_tx = buffer_transaction txs;
         own_sk = derive_private_key N (ss_offer_next_point s) own_base_secret in
     obind (vget (tx_output buffer_tx) 0) (\<lambda>buffer_out.
     pbind (verify_accepted_and_sign_contract_internal B S oc (counter_params ch) [] (ra_refund_signature m) (ra_cet_adaptor_signatures m)
       (txo_value buffer_out) (Inr own_sk) (Some (buffer_script_pubkey txs)) (Some (own_pk accept_rev)) t (Some (sch_channel_id ch))) (\<lambda>(sc, sigs).
     obind (get_fund_output B t) (\<lambda>fund_out.
     pbind (Some (signer_secret_key W signer)) (\<lambda>fund_sk.
     pbind (dlc_err (Some (get_tx_adaptor_signature S buffer_tx (txo_value fund_out) (funding_script_pubkey t) fund_sk (publish_pk accept_rev)))) (\<lambda>buffer_sig.
     obind (get_contract_id B (accepted_contract sc)) (\<lambda>contract_id.
     obind (u64_add (unix_time_now W) peer_timeout) (\<lambda>timeout.
     pok (sc, \<lparr>rc_channel_id = sch_channel_id ch, rc_buffer_adaptor_signature = buffer_sig, rc_cet_adaptor_signatures = sigs,
           rc_refund_signature = offer_refund_signature sc\<rparr>,
       ch\<lparr>sch_state := RenewConfirmed contract_id (ss_offer_next_point s) (ra_next_per_update_point m) buffer_tx (buffer_script_pubkey txs)
         buffer_sig timeout own_payout (total_collateral oc) (ss_keys_id s)\<rparr>)))))))))))))))))"

definition verify_renew_confirm_and_finalize ::
  "btc \<Rightarrow> secp \<Rightarrow> ln_lib \<Rightarrow> outside \<Rightarrow> key_provider \<Rightarrow> SignedChannel \<Rightarrow> AcceptedContract \<Rightarrow> RenewConfirm \<Rightarrow> nat \<Rightarrow> ChainMonitor \<Rightarrow>
   (Error + SignedContract \<times> RenewFinalize \<times> SignedChannel \<times> ChainMonitor) option" where
  "verify_renew_confirm_and_finalize B S N W P ch a m peer_timeout mon =
     pbind (get_signed_channel_state ch RenewAcceptedT) (\<lambda>s.
     let offer_point = ss_offer_point s; accept_point = ss_accept_point s; buffer_tx = ss_buffer_tx s in
     obind (get_publish_pk B S (own_points ch) accept_point) (\<lambda>own_publish.
     obind (get_own_pk B S (counter_points ch) offer_point) (\<lambda>counter_own.
     obind (fund_value ch) (\<lambda>v.
     pbind (dlc_err (Some (verify_tx_adaptor_signature S buffer_tx v (fund_script_pubkey ch)
       (fund_pubkey (offer_params (ac_offered_contract a))) own_publish (rc_buffer_adaptor_signature m)))) (\<lambda>_.
     obind (vget (tx_output buffer_tx) 0) (\<lambda>buffer_out.
     pbind (verify_signed_contract_internal B S a (rc_refund_signature m) (rc_cet_adaptor_signatures m) [] (txo_value buffer_out)
       (Some (ss_buffer_script s)) (Some counter_own) (Some (sch_channel_id ch))) (\<lambda>(sc, _).
     pbind (Some (secret_key_for P (own_per_update_seed ch))) (\<lambda>seed.
     pbind (Some (secp_error (update_secret S N seed (update_idx ch)))) (\<lambda>prev_secret.
     obind (get_revokable_params B S (counter_points ch) (revocation_basepoint (own_points ch)) offer_point) (\<lambda>offer_rev.
     pbind (Some (secret_key_for P (fund_pubkey (own_params ch)))) (\<lambda>own_fund_sk.
     pbind (dlc_err (Some (get_tx_adaptor_signature S buffer_tx v (fund_script_pubkey ch) own_fund_sk (publish_pk offer_rev)))) (\<lambda>buffer_sig.
     obind (u64_add (collateral (own_params ch)) (collateral (counter_params ch))) (\<lambda>T.
     obind (get_contract_id B a) (\<lambda>contract_id.
     obind (u64_add (unix_time_now W) peer_timeout) (\<lambda>timeout.
     pok (sc, \<lparr>rf_channel_id = sch_channel_id ch, rf_per_update_secret = prev_secret, rf_buffer_adaptor_signature = buffer_sig\<rparr>,
       ch\<lparr>counter_per_update_point := offer_point, own_per_update_point := accept_point,
         sch_state := RenewFinalized contract_id (counter_per_update_point ch) buffer_tx (ss_buffer_script s) (rc_buffer_adaptor_signature m)
           buffer_sig timeout (ss_own_payout s) T (ss_keys_id s)\<rparr>,
       watch B buffer_tx (sch_channel_id ch) BufferTx mon))))))))))))))))"

definition renew_channel_on_finalize ::
  "btc \<Rightarrow> secp \<Rightarrow> ln_lib \<Rightarrow> key_provider \<Rightarrow> SignedChannel \<Rightarrow> RenewFinalize \<Rightarrow> (Error + RenewRevoke \<times> SignedChannel) option" where
  "renew_channel_on_finalize B S N P ch m =
     pbind (get_signed_channel_state ch RenewConfirmedT) (\<lambda>s.
     obind (get_revokable_params B S (own_points ch) (revocation_basepoint (counter_points ch)) (ss_offer_point s)) (\<lambda>offer_rev.
     obind (fund_value ch) (\<lambda>v.
     pbind (dlc_err (Some (verify_tx_adaptor_signature S (ss_buffer_tx s) v (fund_script_pubkey ch) (fund_pubkey (counter_params ch))
       (publish_pk offer_rev) (rf_buffer_adaptor_signature m)))) (\<lambda>_.
     pbind (Some (store_secret S N ch (counter_per_update_point ch) (rf_per_update_secret m)
       ''Invalid per update secret in channel renew finalize'' ''Provided secret was invalid'')) (\<lambda>secrets.
     pbind (Some (secret_key_for P (own_per_update_seed ch))) (\<lambda>seed.
     pbind (Some (secp_error (update_secret S N seed (update_idx ch)))) (\<lambda>prev_secret.
     obind (u64_sub (update_idx ch) 1) (\<lambda>next_idx.
     pok (\<lparr>rr_channel_id = sch_channel_id ch, rr_per_update_secret = prev_secret\<rparr>,
       ch\<lparr>own_per_update_point := ss_offer_point s, counter_per_update_point := ss_accept_point s,
         sch_state := Established (ss_contract_id s) (rf_buffer_adaptor_signature m) (ss_offer_buffer_sig s) (ss_buffer_tx s) True
           (ss_total_collateral s) (ss_keys_id s),
         roll_back_state := None, update_idx := next_idx, counter_secrets := secrets\<rparr>)))))))))"

text \<open>The state to roll back to is kept, and the local party is the offering one in the new state.\<close>

definition renew_channel_on_revoke :: "secp \<Rightarrow> ln_lib \<Rightarrow> SignedChannel \<Rightarrow> RenewRevoke \<Rightarrow> (Error + SignedChannel) option" where
  "renew_channel_on_revoke S N ch m =
     pbind (get_signed_channel_state ch RenewFinalizedT) (\<lambda>s.
     pbind (Some (store_secret S N ch (ss_prev_offer_point s) (rr_per_update_secret m)
       ''Invalid per update secret in channel renew revoke'' ''Provided secret was invalid'')) (\<lambda>secrets.
     obind (u64_sub (update_idx ch) 1) (\<lambda>next_idx.
     pok (ch\<lparr>update_idx := next_idx, counter_secrets := secrets,
       sch_state := Established (ss_contract_id s) (ss_offer_buffer_sig s) (ss_accept_buffer_sig s) (ss_buffer_tx s) True
         (ss_total_collateral s) (ss_keys_id s)\<rparr>))))"

definition reject_renew_offer :: "SignedChannel \<Rightarrow> (Error + Reject \<times> SignedChannel) option" where
  "reject_renew_offer ch =
     pbind (get_signed_channel_state ch RenewOfferedT) (\<lambda>s.
     if ss_is_offer s then perr (InvalidState ''Cannot reject own renew offer.'')
     else obind (roll_back ch) (\<lambda>ch'. pok (\<lparr>rj_channel_id = sch_channel_id ch\<rparr>, ch')))"

text \<open>A rejection is ignored in an established or settled channel.\<close>

definition updater_on_reject :: "SignedChannel \<Rightarrow> (Error + SignedChannel) option" where
  "updater_on_reject ch = (let s = sch_state ch in
     if is_of_type s EstablishedT \<or> is_of_type s SettledT then pok ch
     else if is_of_type s RenewOfferedT \<and> ss_is_offer s \<or> is_of_type s SettledOfferedT then obind (roll_back ch) (\<lambda>ch'. pok ch')
     else perr (InvalidState ''Not in a state adequate to receive a reject message''))"

section \<open>Closing\<close>

definition PEER_TIMEOUT :: nat where "PEER_TIMEOUT = 3600"

definition close_tx_of :: "btc \<Rightarrow> SignedChannel \<Rightarrow> PartyParams \<Rightarrow> amount \<Rightarrow> PartyParams \<Rightarrow> amount \<Rightarrow> amount \<Rightarrow> Transaction" where
  "close_tx_of B ch offer o_pay accept a_pay v =
     create_collaborative_close_transaction offer o_pay accept a_pay
       \<lparr>txid = compute_txid B (fund_tx ch), vout = fund_output_index ch mod u32_bound\<rparr> v"

definition updater_offer_collaborative_close ::
  "btc \<Rightarrow> secp \<Rightarrow> outside \<Rightarrow> SignedChannel \<Rightarrow> amount \<Rightarrow> (Error + CollaborativeCloseOffer \<times> Transaction \<times> SignedChannel) option" where
  "updater_offer_collaborative_close B S W ch counter_payout =
     obind (u64_add (collateral (counter_params ch)) (collateral (own_params ch))) (\<lambda>T.
     if T < counter_payout then perr (InvalidParameters ''Counter payout is greater than total collateral'')
     else obind (fund_value ch) (\<lambda>v.
       let close_tx = close_tx_of B ch (own_params ch) (T - counter_payout) (counter_params ch) counter_payout v in
       pbind (Some (ok_or (InvalidState ''No keys_id available'') (signed_channel_keys_id ch))) (\<lambda>keys.
       pbind (Some (derive_contract_signer W keys)) (\<lambda>signer.
       pbind (Some (signer_secret_key W signer)) (\<lambda>fund_sk.
       pbind (dlc_err (Some (get_raw_sig_for_tx_input S close_tx 0 (fund_script_pubkey ch) v fund_sk))) (\<lambda>sig.
       obind (u64_add (unix_time_now W) PEER_TIMEOUT) (\<lambda>timeout.
       pok (\<lparr>co_channel_id = sch_channel_id ch, co_counter_payout = counter_payout, co_close_signature = sig\<rparr>, close_tx,
         enter_state (CollaborativeCloseOffered counter_payout sig close_tx timeout keys) ch))))))))"

definition updater_on_collaborative_close_offer ::
  "btc \<Rightarrow> outside \<Rightarrow> SignedChannel \<Rightarrow> CollaborativeCloseOffer \<Rightarrow> nat \<Rightarrow> (Error + SignedChannel) option" where
  "updater_on_collaborative_close_offer B W ch m peer_timeout =
     obind (u64_add (collateral (own_params ch)) (collateral (counter_params ch))) (\<lambda>T.
     if T < co_counter_payout m
     then perr (InvalidParameters ''Received collaborative close offer with counter payout greater than total collateral, ignoring.'')
     else if roll_back_state ch \<noteq> None
     then perr (InvalidState ''Received collaborative close offer in state with rollback, ignoring.'')
     else obind (fund_value ch) (\<lambda>v.
       let close_tx = close_tx_of B ch (counter_params ch) (T - co_counter_payout m) (own_params ch) (co_counter_payout m) v in
       obind (u64_add (unix_time_now W) peer_timeout) (\<lambda>timeout.
       pbind (Some (ok_or (InvalidState ''No keys_id available'') (signed_channel_keys_id ch))) (\<lambda>keys.
       pok (enter_state (CollaborativeCloseOffered (co_counter_payout m) (co_close_signature m) close_tx timeout keys) ch)))))"

definition closed_of :: "SignedChannel \<Rightarrow> ClosedChannel" where
  "closed_of ch = \<lparr>cld_counter_party = sch_counter_party ch, cld_temporary_channel_id = sch_temporary_channel_id ch,
     cld_channel_id = sch_channel_id ch\<rparr>"

definition closed_by :: "SignedChannel \<Rightarrow> bool \<Rightarrow> Channel" where
  "closed_by ch is_initiator = (if is_initiator then ChClosed (closed_of ch) else ChCounterClosed (closed_of ch))"

definition accept_collaborative_close_offer ::
  "secp \<Rightarrow> key_provider \<Rightarrow> SignedChannel \<Rightarrow> (Error + Transaction \<times> Channel) option" where
  "accept_collaborative_close_offer S P ch =
     pbind (get_signed_channel_state ch CollaborativeCloseOfferedT) (\<lambda>s.
     obind (fund_value ch) (\<lambda>v.
     pbind (Some (secret_key_for P (fund_pubkey (own_params ch)))) (\<lambda>own_fund_sk.
     pbind (dlc_err (sign_multi_sig_input S (ss_close_tx s) (ss_offer_signature s) (fund_pubkey (counter_params ch)) own_fund_sk
       (fund_script_pubkey ch) v 0)) (\<lambda>close_tx.
     pok (close_tx, ChCollaborativelyClosed (closed_of ch))))))"

text \<open>The adaptor signature of the counterparty, decrypted with the own publication secret.\<close>

definition sign_with_publish_secret ::
  "secp \<Rightarrow> ln_lib \<Rightarrow> key_provider \<Rightarrow> SignedChannel \<Rightarrow> bytes \<Rightarrow> Transaction \<Rightarrow> (Error + Transaction) option" where
  "sign_with_publish_secret S N P ch adaptor_sig tx =
     pbind (Some (secret_key_for P (publish_basepoint (own_points ch)))) (\<lambda>publish_base_secret.
     let publish_sk = derive_private_key N (own_per_update_point ch) publish_base_secret in
     pbind (Some (secp_error (adaptor_decrypt S adaptor_sig publish_sk))) (\<lambda>counter_sig.
     pbind (Some (secret_key_for P (fund_pubkey (own_params ch)))) (\<lambda>own_fund_sk.
     obind (fund_value ch) (\<lambda>v.
     dlc_err (sign_multi_sig_input S tx counter_sig (fund_pubkey (counter_params ch)) own_fund_sk (fund_script_pubkey ch) v 0)))))"

definition updater_initiate_unilateral_close ::
  "secp \<Rightarrow> ln_lib \<Rightarrow> key_provider \<Rightarrow> SignedChannel \<Rightarrow> bytes \<Rightarrow> bytes \<Rightarrow> Transaction \<Rightarrow> bool \<Rightarrow> (Error + SignedChannel) option" where
  "updater_initiate_unilateral_close S N P ch adaptor_sig keys buffer_tx is_initiator =
     pbind (sign_with_publish_secret S N P ch adaptor_sig buffer_tx) (\<lambda>signed_tx.
     pbind (Some (ok_or (InvalidState ''Expected to be in a state with an associated contract id but was not.'')
       (signed_channel_contract_id ch))) (\<lambda>contract_id.
     pok (ch\<lparr>sch_state := Closing signed_tx contract_id is_initiator keys\<rparr>)))"

definition finalize_unilateral_close_settled_channel ::
  "btc \<Rightarrow> secp \<Rightarrow> mslib \<Rightarrow> ln_lib \<Rightarrow> map_orders \<Rightarrow> key_provider \<Rightarrow> SignedChannel \<Rightarrow> SignedContract \<Rightarrow> ContractInfo \<Rightarrow>
   (nat \<times> OracleAttestation) list \<Rightarrow> AdaptorInfo \<Rightarrow> bool \<Rightarrow> (Error + Transaction \<times> Channel) option" where
  "finalize_unilateral_close_settled_channel B S M N H P ch c ci attestations info is_initiator =
     pbind (get_signed_channel_state ch ClosingT) (\<lambda>s.
     pbind (get_range_info_and_oracle_sigs H ci info attestations) (\<lambda>(range_info, oracle_sigs).
     let a = accepted_contract c; is_offer = is_offer_party (ac_offered_contract a) in
     obind (vget (cets (ac_transactions a)) (cet_index range_info)) (\<lambda>cet.
     let (offer_points, accept_points, offer_point, accept_point) = (if is_offer
           then (own_points ch, counter_points ch, own_per_update_point ch, counter_per_update_point ch)
           else (counter_points ch, own_points ch, counter_per_update_point ch, own_per_update_point ch)) in
     obind (get_revokable_params B S offer_points (revocation_basepoint accept_points) offer_point) (\<lambda>offer_rev.
     obind (get_revokable_params B S accept_points (revocation_basepoint offer_points) accept_point) (\<lambda>accept_rev.
     let (own_point, own_base, counter_pk) = (if is_offer then (offer_point, own_basepoint offer_points, own_pk accept_rev)
           else (accept_point, own_basepoint accept_points, own_pk offer_rev)) in
     obind (if is_offer then ac_adaptor_signatures a else sc_adaptor_signatures c) (\<lambda>adaptor_sigs.
     pbind (Some (secret_key_for P own_base)) (\<lambda>base_secret.
     obind (vget (tx_output (ss_buffer_tx s)) 0) (\<lambda>buffer_out.
     obind (vget adaptor_sigs (adaptor_index range_info)) (\<lambda>adaptor_sig.
     pbind (dlc_err (channel_sign_cet S M cet (txo_value buffer_out) offer_rev accept_rev (derive_private_key N own_point base_secret)
       counter_pk adaptor_sig oracle_sigs)) (\<lambda>signed_cet.
     pok (signed_cet, closed_by ch is_initiator)))))))))))"

definition updater_close_settled_channel ::
  "secp \<Rightarrow> ln_lib \<Rightarrow> key_provider \<Rightarrow> SignedChannel \<Rightarrow> bool \<Rightarrow> (Error + Transaction \<times> Channel) option" where
  "updater_close_settled_channel S N P ch is_initiator =
     pbind (get_signed_channel_state ch SettledT) (\<lambda>s.
     pbind (sign_with_publish_secret S N P ch (ss_counter_settle_sig s) (ss_settle_tx s)) (\<lambda>settle_tx.
     pok (settle_tx, closed_by ch is_initiator)))"


end
