(* ===== verification/ChannelManager.thy ===== *)
theory ChannelManager
  imports Manager ChannelUpdater
begin

text \<open>
  The channel half of \<open>dlc-manager/src/manager.rs\<close>: calls and message handlers of channels, the transactions that the chain monitor
  reports, timeouts, forced closing and punishment. The manager is that of contracts with the libraries, the keys and the channel
  operations of the store it uses on top.
\<close>

section \<open>State and calls\<close>

text \<open>The channel half of the trait \<open>Storage\<close>; an upsert writes the channel and its contract together.\<close>

record 's ChannelStore =
  ch_get :: "'s \<Rightarrow> bytes \<Rightarrow> Error + Channel option"
  ch_upsert :: "'s \<Rightarrow> Channel \<Rightarrow> Contract option \<Rightarrow> (Error + 's) option"
  ch_delete :: "'s \<Rightarrow> bytes \<Rightarrow> Error + 's"
  ch_get_signed :: "'s \<Rightarrow> SignedChannelStateType option \<Rightarrow> (Error + SignedChannel list) option"
  ch_get_offered :: "'s \<Rightarrow> (Error + OfferedChannel list) option"
  ch_persist_monitor :: "'s \<Rightarrow> ChainMonitor \<Rightarrow> Error + 's"
  ch_get_monitor :: "'s \<Rightarrow> Error + ChainMonitor option"

text \<open>With signatures read from their encoding, and the secret recovered from an adaptor signature and the signature it gave.\<close>

record 's ChannelManager =
  cm_base :: "'s Manager"
  cm_ms :: mslib
  cm_ln :: ln_lib
  cm_keys :: key_provider
  cm_channels :: "'s ChannelStore"
  cm_temporary_channel_id :: bytes
  cm_sat_per_1000_weight :: nat
  cm_unreserve :: "OutPoint list \<Rightarrow> Error + unit"
  sig_from_der :: "bytes \<Rightarrow> string + bytes"
  adaptor_recover :: "bytes \<Rightarrow> bytes \<Rightarrow> pubkey \<Rightarrow> string + bytes"

abbreviation "cm_btc X \<equiv> m_btc (cm_base X)"
abbreviation "cm_secp X \<equiv> m_secp (cm_base X)"
abbreviation "cm_world X \<equiv> m_world (cm_base X)"

definition mmonitor :: "(ChainMonitor \<Rightarrow> ChainMonitor) \<Rightarrow> ('s, unit) mgr" where
  "mmonitor f st = Some (Inr (), st\<lparr>monitor := f (monitor st)\<rparr>)"

text \<open>A call that may change the monitor, also when it fails.\<close>

definition mmonitor_call :: "(ChainMonitor \<Rightarrow> ((Error + 'a) \<times> ChainMonitor) option) \<Rightarrow> ('s, 'a) mgr" where
  "mmonitor_call f st = map_option (\<lambda>(r, m). (r, st\<lparr>monitor := m\<rparr>)) (f (monitor st))"

definition with_monitor :: "(ChainMonitor \<Rightarrow> (Error + 'a) option) \<Rightarrow> ('s, 'a) mgr" where
  "with_monitor f st = mlift (f (monitor st)) st"

definition upsert_channel :: "'s ChannelManager \<Rightarrow> Channel \<Rightarrow> Contract option \<Rightarrow> ('s, unit) mgr" where
  "upsert_channel X ch c = store_write (\<lambda>s. ch_upsert (cm_channels X) s ch c)"

definition persist_chain_monitor :: "'s ChannelManager \<Rightarrow> ('s, unit) mgr" where
  "persist_chain_monitor X st = store_write (\<lambda>s. Some (ch_persist_monitor (cm_channels X) s (monitor st))) st"

fun as_offered_channel :: "Channel \<Rightarrow> OfferedChannel option" where
  "as_offered_channel (ChOffered c) = Some c" | "as_offered_channel c = None"

fun as_accepted_channel :: "Channel \<Rightarrow> AcceptedChannel option" where
  "as_accepted_channel (ChAccepted c) = Some c" | "as_accepted_channel c = None"

fun as_signed_channel :: "Channel \<Rightarrow> SignedChannel option" where
  "as_signed_channel (ChSigned c) = Some c" | "as_signed_channel c = None"

definition get_channel_in_state :: "'s ChannelManager \<Rightarrow> bytes \<Rightarrow> (Channel \<Rightarrow> 'a option) \<Rightarrow> pubkey option \<Rightarrow> ('s, 'a) mgr" where
  "get_channel_in_state X i sel peer =
     mbind (store_read (\<lambda>s. Some (ch_get (cm_channels X) s i))) (\<lambda>object. case object of
       Some c \<Rightarrow>
         if \<exists>p \<in> set_option peer. channel_counter_party c \<noteq> p then mfail (InvalidParameters ''Peer is not involved with Channel'')
         else (case sel c of Some x \<Rightarrow> mret x | None \<Rightarrow> mfail (InvalidState ''Invalid state''))
     | None \<Rightarrow> mfail (InvalidParameters ''Unknown Channel id.''))"

definition mstate :: "SignedChannel \<Rightarrow> SignedChannelStateType \<Rightarrow> ('s, SignedChannelState) mgr" where
  "mstate ch t = mlift (get_signed_channel_state ch t)"

definition contract_id_of :: "SignedChannel \<Rightarrow> ('s, bytes) mgr" where
  "contract_id_of ch = mlift (Some (ok_or (InvalidState ''Expected to be in a state with an associated contract id but was not.'')
     (signed_channel_contract_id ch)))"

text \<open>The state to roll back to, when it is an established one.\<close>

definition established_rollback :: "SignedChannel \<Rightarrow> (Error + SignedChannelState) option" where
  "established_rollback ch = (case roll_back_state ch of
     Some s \<Rightarrow> if is_of_type s EstablishedT then pok s else perr (InvalidState ''Expected rollback state Established'')
   | None \<Rightarrow> perr (InvalidState ''Expected rollback state Established''))"

section \<open>Contracts closed together\<close>

text \<open>The casts to \<open>i64\<close> wrap, the subtraction panics when it overflows.\<close>

definition as_i64 :: "nat \<Rightarrow> int" where
  "as_i64 n = (if n < 2 ^ 63 then int n else int n - 2 ^ 64)"

definition i64_sub :: "int \<Rightarrow> int \<Rightarrow> int option" where
  "i64_sub a b = (if - (2 ^ 63) \<le> a - b \<and> a - b < 2 ^ 63 then Some (a - b) else None)"

definition get_collaboratively_closed_contract :: "'s ChannelManager \<Rightarrow> bytes \<Rightarrow> amount \<Rightarrow> bool \<Rightarrow> ('s, ClosedContract) mgr" where
  "get_collaboratively_closed_contract X i payout is_own_payout =
     mbind (get_contract_in_state (cm_base X) i as_confirmed None) (\<lambda>c.
     let a = accepted_contract c; oc = ac_offered_contract a;
         own_collateral = (if is_offer_party oc then collateral (offer_params oc) else collateral (accept_params a)) in
     mbind (munwrap (if is_own_payout then Some payout else u64_sub (total_collateral oc) payout)) (\<lambda>own_payout.
     mbind (munwrap (i64_sub (as_i64 own_payout) (as_i64 own_collateral))) (\<lambda>p.
     mret \<lparr>cc_attestations = None, cc_signed_cet = None, cc_contract_id = i, cc_temporary_contract_id = oc_id oc,
       cc_counter_party_id = counter_party oc, pnl = p\<rparr>)))"

section \<open>Offering and accepting channels\<close>

definition mgr_offer_channel :: "'s ChannelManager \<Rightarrow> ContractInput \<Rightarrow> pubkey \<Rightarrow> ('s, OfferChannel) mgr" where
  "mgr_offer_channel X input cp =
     mbind (mlift (Some (rmap (\<lambda>x. get_oracle_announcements (cm_base X) (oracles x)) (ci_contract_infos input)))) (\<lambda>announcements.
     mbind (mlift (offer_channel (cm_btc X) (cm_secp X) (m_codec (cm_base X)) (cm_ln X) (cm_world X) (cm_keys X) input cp announcements
       CET_NSEQUENCE REFUND_DELAY (cm_temporary_channel_id X))) (\<lambda>(ch, oc).
     mbind (munwrap (get_offer_channel_msg ch oc)) (\<lambda>msg.
     mbind (upsert_channel X (ChOffered ch) (Some (Offered oc))) (\<lambda>_. mret msg))))"

definition reject_channel :: "'s ChannelManager \<Rightarrow> bytes \<Rightarrow> ('s, Reject \<times> pubkey) mgr" where
  "reject_channel X i =
     mbind (get_channel_in_state X i as_offered_channel None) (\<lambda>ch.
     if och_is_offer_party ch then mfail (InvalidState ''Cannot reject channel initiated by us.'')
     else mbind (get_contract_in_state (cm_base X) (och_contract_id ch) as_offered None) (\<lambda>oc.
       mbind (upsert_channel X (ChCancelled ch) (Some (Rejected oc))) (\<lambda>_. mret (\<lparr>rj_channel_id = i\<rparr>, och_counter_party ch))))"

definition accept_channel :: "'s ChannelManager \<Rightarrow> bytes \<Rightarrow> ('s, AcceptChannel \<times> bytes \<times> bytes \<times> pubkey) mgr" where
  "accept_channel X i =
     mbind (get_channel_in_state X i as_offered_channel None) (\<lambda>ch.
     if och_is_offer_party ch then mfail (InvalidState ''Cannot accept channel initiated by us.'')
     else mbind (get_contract_in_state (cm_base X) (och_contract_id ch) as_offered None) (\<lambda>oc.
       mbind (mlift (accept_channel_offer (cm_btc X) (cm_secp X) (cm_ms X) (m_codec (cm_base X)) (cm_ln X) (cm_world X) (cm_keys X) ch oc)) (\<lambda>(ach, a, msg).
       mbind (mlift (Some (import_address (m_chain (cm_base X)) (funding_script_pubkey (ac_transactions a))))) (\<lambda>_.
       mbind (munwrap (get_contract_id (cm_btc X) a)) (\<lambda>contract_id.
       mbind (upsert_channel X (ChAccepted ach) (Some (Accepted a))) (\<lambda>_.
       mret (msg, ach_channel_id ach, contract_id, counter_party oc)))))))"

definition on_offer_channel :: "'s ChannelManager \<Rightarrow> OfferChannel \<Rightarrow> pubkey \<Rightarrow> ('s, unit) mgr" where
  "on_offer_channel X m cp =
     mbind (mlift (dlc_err (validate_offer_channel (cm_btc X) (m_oracle_lib (cm_base X)) m REFUND_DELAY (REFUND_DELAY * 2)
       CET_NSEQUENCE (CET_NSEQUENCE * 2)))) (\<lambda>_.
     let keys = derive_signer_key_id (cm_world X) False (oc_temporary_contract_id m) in
     mbind (mlift (from_offer_channel (cm_btc X) (m_codec (cm_base X)) m cp keys)) (\<lambda>(ch, oc).
     mbind (mlift (validate_offered oc)) (\<lambda>_.
     mbind (store_read (\<lambda>s. Some (ch_get (cm_channels X) s (och_temporary_channel_id ch)))) (\<lambda>object.
     if object \<noteq> None then mfail (InvalidParameters ''Channel with identical idea already in store'')
     else upsert_channel X (ChOffered ch) (Some (Offered oc))))))"

text \<open>A channel whose acceptance or signature cannot be verified is stored as failed.\<close>

definition failed_channel_msg :: "Error \<Rightarrow> string" where
  "failed_channel_msg e = ''Error validating accept channel: '' @ error_to_string e"

definition watch_buffer :: "'s ChannelManager \<Rightarrow> SignedChannel \<Rightarrow> ('s, unit) mgr" where
  "watch_buffer X ch = (if is_of_type (sch_state ch) EstablishedT
     then mmonitor (watch (cm_btc X) (ss_buffer_tx (sch_state ch)) (sch_channel_id ch) BufferTx) else mpanic)"

definition on_accept_channel :: "'s ChannelManager \<Rightarrow> AcceptChannel \<Rightarrow> pubkey \<Rightarrow> ('s, SignChannel) mgr" where
  "on_accept_channel X m peer =
     mbind (get_channel_in_state X (acm_temporary_channel_id m) as_offered_channel (Some peer)) (\<lambda>och.
     mbind (get_contract_in_state (cm_base X) (och_contract_id och) as_offered (Some peer)) (\<lambda>oc.
     mbind (mcatch (with_monitor (verify_and_sign_accepted_channel (cm_btc X) (cm_secp X) (cm_ms X) (m_codec (cm_base X)) (cm_ln X)
         (cm_world X) (cm_keys X) och oc m CET_NSEQUENCE))
       (\<lambda>e. mbind (upsert_channel X (ChFailedAccept \<lparr>fac_counter_party = peer, fac_temporary_channel_id = acm_temporary_channel_id m,
           fac_error_message = failed_channel_msg e, fac_accept_message = m\<rparr>) None) (\<lambda>_. mfail e))) (\<lambda>(ch, c, msg, mon).
     mbind (mmonitor (\<lambda>_. mon)) (\<lambda>_.
     mbind (mlift (Some (import_address (m_chain (cm_base X)) (funding_script_pubkey (ac_transactions (accepted_contract c)))))) (\<lambda>_.
     mbind (watch_buffer X ch) (\<lambda>_.
     mbind (upsert_channel X (ChSigned ch) (Some (Signed c))) (\<lambda>_.
     mbind (persist_chain_monitor X) (\<lambda>_. mret msg))))))))"

definition on_sign_channel :: "'s ChannelManager \<Rightarrow> SignChannel \<Rightarrow> pubkey \<Rightarrow> ('s, unit) mgr" where
  "on_sign_channel X m peer =
     mbind (get_channel_in_state X (sc_channel_id m) as_accepted_channel (Some peer)) (\<lambda>ach.
     mbind (get_contract_in_state (cm_base X) (ach_contract_id ach) as_accepted (Some peer)) (\<lambda>a.
     mbind (mcatch (with_monitor (verify_signed_channel (cm_btc X) (cm_secp X) (cm_ln X) ach a m))
       (\<lambda>e. mbind (upsert_channel X (ChFailedSign \<lparr>fsc_counter_party = peer, fsc_channel_id = sc_channel_id m,
           fsc_error_message = failed_channel_msg e, fsc_sign_message = m\<rparr>) None) (\<lambda>_. mfail e))) (\<lambda>(ch, c, fund_tx, mon).
     mbind (mmonitor (\<lambda>_. mon)) (\<lambda>_.
     mbind (watch_buffer X ch) (\<lambda>_.
     mbind (broadcast_tx (cm_base X) fund_tx) (\<lambda>_.
     mbind (upsert_channel X (ChSigned ch) (Some (Signed c))) (\<lambda>_.
     persist_chain_monitor X)))))))"

section \<open>Settling\<close>

definition signed_channel_of :: "'s ChannelManager \<Rightarrow> bytes \<Rightarrow> pubkey option \<Rightarrow> ('s, SignedChannel) mgr" where
  "signed_channel_of X i peer = get_channel_in_state X i as_signed_channel peer"

definition settle_offer :: "'s ChannelManager \<Rightarrow> bytes \<Rightarrow> amount \<Rightarrow> ('s, SettleOffer \<times> pubkey) mgr" where
  "settle_offer X i counter_payout =
     mbind (signed_channel_of X i None) (\<lambda>ch.
     mbind (mlift (settle_channel_offer (cm_secp X) (cm_ln X) (cm_world X) (cm_keys X) ch counter_payout PEER_TIMEOUT)) (\<lambda>(msg, ch).
     mbind (upsert_channel X (ChSigned ch) None) (\<lambda>_. mret (msg, sch_counter_party ch))))"

definition accept_settle_offer :: "'s ChannelManager \<Rightarrow> bytes \<Rightarrow> ('s, SettleAccept \<times> pubkey) mgr" where
  "accept_settle_offer X i =
     mbind (signed_channel_of X i None) (\<lambda>ch.
     mbind (with_monitor (settle_channel_accept (cm_btc X) (cm_secp X) (cm_ms X) (cm_ln X) (cm_world X) (cm_keys X) ch CET_NSEQUENCE 0
       PEER_TIMEOUT)) (\<lambda>(msg, ch, mon).
     mbind (mmonitor (\<lambda>_. mon)) (\<lambda>_.
     mbind (upsert_channel X (ChSigned ch) None) (\<lambda>_. mret (msg, sch_counter_party ch)))))"

definition mgr_reject_settle_offer :: "'s ChannelManager \<Rightarrow> bytes \<Rightarrow> ('s, Reject \<times> pubkey) mgr" where
  "mgr_reject_settle_offer X i =
     mbind (signed_channel_of X i None) (\<lambda>ch.
     mbind (mlift (reject_settle_offer ch)) (\<lambda>(msg, ch).
     mbind (upsert_channel X (ChSigned ch) None) (\<lambda>_. mret (msg, sch_counter_party ch))))"

text \<open>Who offered to settle rejects the offer of the other party.\<close>

definition mgr_on_settle_offer :: "'s ChannelManager \<Rightarrow> SettleOffer \<Rightarrow> pubkey \<Rightarrow> ('s, Reject option) mgr" where
  "mgr_on_settle_offer X m peer =
     mbind (signed_channel_of X (so_channel_id m) (Some peer)) (\<lambda>ch.
     if is_of_type (sch_state ch) SettledOfferedT then mret (Some \<lparr>rj_channel_id = so_channel_id m\<rparr>)
     else mbind (mlift (on_settle_offer ch m)) (\<lambda>ch.
       mbind (upsert_channel X (ChSigned ch) None) (\<lambda>_. mret None)))"

definition on_settle_accept :: "'s ChannelManager \<Rightarrow> SettleAccept \<Rightarrow> pubkey \<Rightarrow> ('s, SettleConfirm) mgr" where
  "on_settle_accept X m peer =
     mbind (signed_channel_of X (sa_channel_id m) (Some peer)) (\<lambda>ch.
     mbind (mmonitor_call (settle_channel_confirm (cm_btc X) (cm_secp X) (cm_ms X) (cm_ln X) (cm_world X) (cm_keys X) ch m
       CET_NSEQUENCE 0 PEER_TIMEOUT)) (\<lambda>(msg, ch).
     mbind (upsert_channel X (ChSigned ch) None) (\<lambda>_. mret msg)))"

text \<open>The buffer transaction of the state before is watched as revoked, with the number of its update.\<close>

definition watch_revoked_buffer :: "'s ChannelManager \<Rightarrow> SignedChannel \<Rightarrow> SignedChannelState \<Rightarrow> ('s, unit) mgr" where
  "watch_revoked_buffer X ch prev =
     mbind (munwrap (u64_add (update_idx ch) 1)) (\<lambda>i.
     mmonitor (watch (cm_btc X) (ss_buffer_tx prev) (sch_channel_id ch) (RevokedTx i (ss_own_buffer_sig prev) (ss_is_offer prev) RevokedBuffer)))"

definition on_settle_confirm :: "'s ChannelManager \<Rightarrow> SettleConfirm \<Rightarrow> pubkey \<Rightarrow> ('s, SettleFinalize) mgr" where
  "on_settle_confirm X m peer =
     mbind (signed_channel_of X (scf_channel_id m) (Some peer)) (\<lambda>ch.
     mbind (mstate ch SettledAcceptedT) (\<lambda>s.
     mbind (mlift (established_rollback ch)) (\<lambda>prev.
     mbind (mlift (settle_channel_finalize (cm_btc X) (cm_secp X) (cm_ln X) (cm_keys X) ch m)) (\<lambda>(msg, ch).
     mbind (watch_revoked_buffer X ch prev) (\<lambda>_.
     mbind (get_collaboratively_closed_contract X (ss_contract_id prev) (ss_own_payout s) True) (\<lambda>c.
     mbind (upsert_channel X (ChSigned ch) (Some (Closed c))) (\<lambda>_.
     mbind (persist_chain_monitor X) (\<lambda>_. mret msg))))))))"

definition on_settle_finalize :: "'s ChannelManager \<Rightarrow> SettleFinalize \<Rightarrow> pubkey \<Rightarrow> ('s, unit) mgr" where
  "on_settle_finalize X m peer =
     mbind (signed_channel_of X (sf_channel_id m) (Some peer)) (\<lambda>ch.
     mbind (mstate ch SettledConfirmedT) (\<lambda>s.
     mbind (mlift (established_rollback ch)) (\<lambda>prev.
     mbind (mlift (settle_channel_on_finalize (cm_secp X) (cm_ln X) ch m)) (\<lambda>ch.
     mbind (watch_revoked_buffer X ch prev) (\<lambda>_.
     mbind (get_collaboratively_closed_contract X (ss_contract_id prev) (ss_own_payout s) True) (\<lambda>c.
     mbind (upsert_channel X (ChSigned ch) (Some (Closed c))) (\<lambda>_. persist_chain_monitor X)))))))"

section \<open>Renewing\<close>

definition mgr_renew_offer :: "'s ChannelManager \<Rightarrow> bytes \<Rightarrow> amount \<Rightarrow> ContractInput \<Rightarrow> ('s, RenewOffer \<times> pubkey) mgr" where
  "mgr_renew_offer X i counter_payout input =
     mbind (signed_channel_of X i None) (\<lambda>ch.
     mbind (mlift (Some (rmap (\<lambda>x. get_oracle_announcements (cm_base X) (oracles x)) (ci_contract_infos input)))) (\<lambda>announcements.
     mbind (mlift (renew_offer (cm_btc X) (cm_secp X) (cm_ln X) (cm_world X) (cm_keys X) ch input announcements counter_payout
       REFUND_DELAY PEER_TIMEOUT CET_NSEQUENCE)) (\<lambda>(msg, oc, ch).
     mbind (upsert_channel X (ChSigned ch) (Some (Offered oc))) (\<lambda>_. mret (msg, counter_party oc)))))"

definition accept_renew_offer :: "'s ChannelManager \<Rightarrow> bytes \<Rightarrow> ('s, RenewAccept \<times> pubkey) mgr" where
  "accept_renew_offer X i =
     mbind (signed_channel_of X i None) (\<lambda>ch.
     mbind (contract_id_of ch) (\<lambda>contract_id.
     mbind (get_contract_in_state (cm_base X) contract_id as_offered None) (\<lambda>oc.
     mbind (mlift (accept_channel_renewal (cm_btc X) (cm_secp X) (cm_ms X) (cm_ln X) (cm_world X) (cm_keys X) ch oc CET_NSEQUENCE
       PEER_TIMEOUT)) (\<lambda>(a, msg, ch).
     mbind (upsert_channel X (ChSigned ch) (Some (Accepted a))) (\<lambda>_. mret (msg, sch_counter_party ch))))))"

definition mgr_reject_renew_offer :: "'s ChannelManager \<Rightarrow> bytes \<Rightarrow> ('s, Reject \<times> pubkey) mgr" where
  "mgr_reject_renew_offer X i =
     mbind (signed_channel_of X i None) (\<lambda>ch.
     mbind (contract_id_of ch) (\<lambda>contract_id.
     mbind (get_contract_in_state (cm_base X) contract_id as_offered None) (\<lambda>oc.
     mbind (mlift (reject_renew_offer ch)) (\<lambda>(msg, ch).
     mbind (upsert_channel X (ChSigned ch) (Some (Rejected oc))) (\<lambda>_. mret (msg, sch_counter_party ch))))))"

definition mgr_on_renew_offer :: "'s ChannelManager \<Rightarrow> RenewOffer \<Rightarrow> pubkey \<Rightarrow> ('s, Reject option) mgr" where
  "mgr_on_renew_offer X m peer =
     mbind (signed_channel_of X (ro_channel_id m) (Some peer)) (\<lambda>ch.
     if is_of_type (sch_state ch) RenewOfferedT \<and> ss_is_offer (sch_state ch) then mret (Some \<lparr>rj_channel_id = ro_channel_id m\<rparr>)
     else mbind (mlift (on_renew_offer (cm_world X) ch m PEER_TIMEOUT)) (\<lambda>(oc, ch).
       mbind (store_write (\<lambda>s. Some (st_create_contract (m_store (cm_base X)) s oc))) (\<lambda>_.
       mbind (upsert_channel X (ChSigned ch) None) (\<lambda>_. mret None))))"

definition on_renew_accept :: "'s ChannelManager \<Rightarrow> RenewAccept \<Rightarrow> pubkey \<Rightarrow> ('s, RenewConfirm) mgr" where
  "on_renew_accept X m peer =
     mbind (signed_channel_of X (ra_channel_id m) (Some peer)) (\<lambda>ch.
     mbind (contract_id_of ch) (\<lambda>contract_id.
     mbind (get_contract_in_state (cm_base X) contract_id as_offered (Some peer)) (\<lambda>oc.
     mbind (mlift (verify_renew_accept_and_confirm (cm_btc X) (cm_secp X) (cm_ms X) (cm_ln X) (cm_world X) (cm_keys X) m ch oc
       CET_NSEQUENCE PEER_TIMEOUT)) (\<lambda>(c, msg, ch).
     mbind (upsert_channel X (ChSigned ch) (Some (Confirmed c))) (\<lambda>_. mret msg)))))"

text \<open>
  What the renewal revokes: the transaction of the state it is rolled back to, always as of the accepting party, with the closed
  contract of an established one. A missing state to roll back to panics.
\<close>

definition revoked_by_renewal :: "'s ChannelManager \<Rightarrow> SignedChannel \<Rightarrow> amount \<Rightarrow> ('s, TxType \<times> Transaction \<times> ClosedContract option) mgr" where
  "revoked_by_renewal X ch own_payout = (case roll_back_state ch of
     None \<Rightarrow> mpanic
   | Some s \<Rightarrow>
       (case get_type s of
          EstablishedT \<Rightarrow> mbind (get_collaboratively_closed_contract X (ss_contract_id s) own_payout True) (\<lambda>c.
            mret (RevokedTx (update_idx ch) (ss_own_buffer_sig s) False RevokedBuffer, ss_buffer_tx s, Some c))
        | SettledT \<Rightarrow> mret (RevokedTx (update_idx ch) (ss_own_settle_sig s) False RevokedSettle, ss_settle_tx s, None)
        | _ \<Rightarrow> mfail (InvalidState ''Expected rollback state Established or Revoked'')))"

definition update_closed :: "'s ChannelManager \<Rightarrow> ClosedContract option \<Rightarrow> ('s, unit) mgr" where
  "update_closed X c_opt = (case c_opt of Some c \<Rightarrow> update_contract (cm_base X) (Closed c) | None \<Rightarrow> mret ())"

definition on_renew_confirm :: "'s ChannelManager \<Rightarrow> RenewConfirm \<Rightarrow> pubkey \<Rightarrow> ('s, RenewFinalize) mgr" where
  "on_renew_confirm X m peer =
     mbind (signed_channel_of X (rc_channel_id m) (Some peer)) (\<lambda>ch.
     mbind (mstate ch RenewAcceptedT) (\<lambda>s.
     mbind (contract_id_of ch) (\<lambda>contract_id.
     mbind (revoked_by_renewal X ch (ss_own_payout s)) (\<lambda>(revoked, prev_tx, closed).
     mbind (get_contract_in_state (cm_base X) contract_id as_accepted (Some peer)) (\<lambda>a.
     mbind (with_monitor (verify_renew_confirm_and_finalize (cm_btc X) (cm_secp X) (cm_ln X) (cm_world X) (cm_keys X) ch a m PEER_TIMEOUT)) (\<lambda>(c, msg, ch, mon).
     mbind (mmonitor (\<lambda>_. mon)) (\<lambda>_.
     mbind (mmonitor (watch (cm_btc X) prev_tx (sch_channel_id ch) revoked)) (\<lambda>_.
     mbind (upsert_channel X (ChSigned ch) (Some (Confirmed c))) (\<lambda>_.
     mbind (persist_chain_monitor X) (\<lambda>_.
     mbind (update_closed X closed) (\<lambda>_. mret msg)))))))))))"

definition on_renew_finalize :: "'s ChannelManager \<Rightarrow> RenewFinalize \<Rightarrow> pubkey \<Rightarrow> ('s, RenewRevoke) mgr" where
  "on_renew_finalize X m peer =
     mbind (signed_channel_of X (rf_channel_id m) (Some peer)) (\<lambda>ch.
     mbind (mstate ch RenewConfirmedT) (\<lambda>s.
     mbind (revoked_by_renewal X ch (ss_own_payout s)) (\<lambda>(revoked, prev_tx, closed).
     mbind (mlift (renew_channel_on_finalize (cm_btc X) (cm_secp X) (cm_ln X) (cm_keys X) ch m)) (\<lambda>(msg, ch).
     mbind (mmonitor (watch (cm_btc X) prev_tx (sch_channel_id ch) revoked)) (\<lambda>_.
     mbind (mstate ch EstablishedT) (\<lambda>s'.
     mbind (mmonitor (watch (cm_btc X) (ss_buffer_tx s') (sch_channel_id ch) BufferTx)) (\<lambda>_.
     mbind (upsert_channel X (ChSigned ch) None) (\<lambda>_.
     mbind (persist_chain_monitor X) (\<lambda>_.
     mbind (update_closed X closed) (\<lambda>_. mret msg))))))))))"

definition on_renew_revoke :: "'s ChannelManager \<Rightarrow> RenewRevoke \<Rightarrow> pubkey \<Rightarrow> ('s, unit) mgr" where
  "on_renew_revoke X m peer =
     mbind (signed_channel_of X (rr_channel_id m) (Some peer)) (\<lambda>ch.
     mbind (mlift (renew_channel_on_revoke (cm_secp X) (cm_ln X) ch m)) (\<lambda>ch. upsert_channel X (ChSigned ch) None))"


section \<open>Closing together\<close>

definition offer_collaborative_close :: "'s ChannelManager \<Rightarrow> bytes \<Rightarrow> amount \<Rightarrow> ('s, CollaborativeCloseOffer) mgr" where
  "offer_collaborative_close X i counter_payout =
     mbind (signed_channel_of X i None) (\<lambda>ch.
     mbind (mlift (updater_offer_collaborative_close (cm_btc X) (cm_secp X) (cm_world X) ch counter_payout)) (\<lambda>(msg, close_tx, ch).
     mbind (mmonitor (watch (cm_btc X) close_tx i CollaborativeClose)) (\<lambda>_.
     mbind (upsert_channel X (ChSigned ch) None) (\<lambda>_.
     mbind (persist_chain_monitor X) (\<lambda>_. mret msg)))))"

definition accept_collaborative_close :: "'s ChannelManager \<Rightarrow> bytes \<Rightarrow> ('s, unit) mgr" where
  "accept_collaborative_close X i =
     mbind (signed_channel_of X i None) (\<lambda>ch.
     mbind (case established_rollback ch of
         Some (Inr prev) \<Rightarrow>
           mbind (mstate ch CollaborativeCloseOfferedT) (\<lambda>s.
           mbind (get_collaboratively_closed_contract X (ss_contract_id prev) (ss_counter_payout s) True) (\<lambda>c. mret (Some c)))
       | _ \<Rightarrow> mret None) (\<lambda>closed.
     mbind (mlift (accept_collaborative_close_offer (cm_secp X) (cm_keys X) ch)) (\<lambda>(close_tx, closed_channel).
     mbind (broadcast_tx (cm_base X) close_tx) (\<lambda>_.
     mbind (upsert_channel X closed_channel None) (\<lambda>_. update_closed X closed)))))"

definition on_collaborative_close_offer :: "'s ChannelManager \<Rightarrow> CollaborativeCloseOffer \<Rightarrow> pubkey \<Rightarrow> ('s, unit) mgr" where
  "on_collaborative_close_offer X m peer =
     mbind (signed_channel_of X (co_channel_id m) (Some peer)) (\<lambda>ch.
     mbind (mlift (updater_on_collaborative_close_offer (cm_btc X) (cm_world X) ch m PEER_TIMEOUT)) (\<lambda>ch.
     upsert_channel X (ChSigned ch) None))"

section \<open>Rejections\<close>

text \<open>The inputs of a rejected offer are decoded to be freed; a transaction that does not decode panics.\<close>

definition funding_outpoints :: "btc \<Rightarrow> tx_codec \<Rightarrow> FundingInput list \<Rightarrow> OutPoint list option" where
  "funding_outpoints B K = omap (\<lambda>f. map_option (\<lambda>tx. \<lparr>txid = compute_txid B tx, vout = prev_tx_vout f\<rparr>) (unwrap (consensus_decode K (prev_tx f))))"

definition on_reject_signed :: "'s ChannelManager \<Rightarrow> SignedChannel \<Rightarrow> ('s, unit) mgr" where
  "on_reject_signed X ch =
     mbind (if is_of_type (sch_state ch) RenewOfferedT
       then mbind (get_contract_in_state (cm_base X) (ss_contract_id (sch_state ch)) as_offered None) (\<lambda>oc. mret (Some (Rejected oc)))
       else mret None) (\<lambda>c.
     mbind (mlift (updater_on_reject ch)) (\<lambda>ch. upsert_channel X (ChSigned ch) c))"

definition on_reject :: "'s ChannelManager \<Rightarrow> Reject \<Rightarrow> pubkey \<Rightarrow> ('s, unit) mgr" where
  "on_reject X m cp =
     mbind (store_read (\<lambda>s. Some (ch_get (cm_channels X) s (rj_channel_id m)))) (\<lambda>object. case object of
       None \<Rightarrow> mret ()
     | Some channel \<Rightarrow>
         if channel_counter_party channel \<noteq> cp then mfail (InvalidParameters ''Peer is not involved with Channel'')
         else (case channel of
           ChOffered och \<Rightarrow>
             mbind (get_contract_in_state (cm_base X) (och_contract_id och) as_offered None) (\<lambda>oc.
             mbind (munwrap (funding_outpoints (cm_btc X) (m_codec (cm_base X)) (oc_funding_inputs oc))) (\<lambda>utxos.
             mbind (mlift (Some (cm_unreserve X utxos))) (\<lambda>_. upsert_channel X (ChCancelled och) (Some (Rejected oc)))))
         | ChSigned ch \<Rightarrow> on_reject_signed X ch
         | _ \<Rightarrow> mfail (InvalidState ''Not in a state adequate to receive a reject message.'')))"

section \<open>Forced closing\<close>

definition initiate_unilateral_close_established_channel ::
  "'s ChannelManager \<Rightarrow> SignedChannel \<Rightarrow> bool \<Rightarrow> bytes \<Rightarrow> Transaction \<Rightarrow> ('s, unit) mgr" where
  "initiate_unilateral_close_established_channel X ch is_initiator sig buffer_tx =
     mbind (mlift (Some (ok_or (InvalidState ''Expected to be in a state with an associated keys id.'') (signed_channel_keys_id ch)))) (\<lambda>keys.
     mbind (mlift (updater_initiate_unilateral_close (cm_secp X) (cm_ln X) (cm_keys X) ch sig keys buffer_tx is_initiator)) (\<lambda>ch.
     mbind (mstate ch ClosingT) (\<lambda>s.
     mbind (broadcast_tx (cm_base X) (ss_buffer_tx s)) (\<lambda>_.
     mbind (mmonitor (remove_tx (compute_txid (cm_btc X) (ss_buffer_tx s)))) (\<lambda>_.
     mbind (upsert_channel X (ChSigned ch) None) (\<lambda>_. persist_chain_monitor X))))))"

definition close_settled_channel :: "'s ChannelManager \<Rightarrow> SignedChannel \<Rightarrow> bool \<Rightarrow> ('s, unit) mgr" where
  "close_settled_channel X ch is_initiator =
     mbind (mlift (updater_close_settled_channel (cm_secp X) (cm_ln X) (cm_keys X) ch is_initiator)) (\<lambda>(settle_tx, closed_channel).
     mbind (if (case get_transaction_confirmations (m_chain (cm_base X)) (compute_txid (cm_btc X) settle_tx) of Inl _ \<Rightarrow> 0 | Inr n \<Rightarrow> n) = 0
       then broadcast_tx (cm_base X) settle_tx else mret ()) (\<lambda>_.
     mbind (mmonitor (cleanup_channel (sch_channel_id ch))) (\<lambda>_. upsert_channel X closed_channel None)))"

text \<open>A pending state is rolled back first; without one to roll back to the code panics.\<close>

function force_close_channel_internal :: "'s ChannelManager \<Rightarrow> SignedChannel \<Rightarrow> bool \<Rightarrow> ('s, unit) mgr" where
  "force_close_channel_internal X ch is_initiator = (let s = sch_state ch in case get_type s of
     EstablishedT \<Rightarrow> initiate_unilateral_close_established_channel X ch is_initiator (ss_counter_buffer_sig s) (ss_buffer_tx s)
   | RenewFinalizedT \<Rightarrow> initiate_unilateral_close_established_channel X ch is_initiator (ss_offer_buffer_sig s) (ss_buffer_tx s)
   | SettledT \<Rightarrow> close_settled_channel X ch is_initiator
   | ClosingT \<Rightarrow> mfail (InvalidState ''Channel is already closing.'')
   | _ \<Rightarrow> (case roll_back_state ch of
       None \<Rightarrow> mpanic
     | Some s' \<Rightarrow> force_close_channel_internal X (ch\<lparr>sch_state := s', roll_back_state := None\<rparr>) is_initiator))"
  by pat_completeness auto
termination
  by (relation "measure (\<lambda>(X, ch, b). if roll_back_state ch = None then 0 else 1)") auto

declare force_close_channel_internal.simps [simp del]

definition force_close_channel :: "'s ChannelManager \<Rightarrow> bytes \<Rightarrow> ('s, unit) mgr" where
  "force_close_channel X i = mbind (signed_channel_of X i None) (\<lambda>ch. force_close_channel_internal X ch True)"

definition try_finalize_closing_established_channel :: "'s ChannelManager \<Rightarrow> SignedChannel \<Rightarrow> ('s, unit) mgr" where
  "try_finalize_closing_established_channel X ch =
     mbind (mstate ch ClosingT) (\<lambda>s.
     mbind (mlift (Some (get_transaction_confirmations (m_chain (cm_base X)) (compute_txid (cm_btc X) (ss_buffer_tx s))))) (\<lambda>confirmations.
     if CET_NSEQUENCE \<le> confirmations then
       mbind (get_contract_in_state (cm_base X) (ss_contract_id s) as_confirmed None) (\<lambda>c.
       mbind (mlift (Some (ok_or (InvalidState ''Could not get information to close contract'') (get_closable_contract_info (cm_base X) c)))) (\<lambda>(ci, info, attestations).
       mbind (mlift (finalize_unilateral_close_settled_channel (cm_btc X) (cm_secp X) (cm_ms X) (cm_ln X) (m_orders (cm_base X)) (cm_keys X)
         ch c ci attestations info (ss_is_initiator s))) (\<lambda>(signed_cet, closed_channel).
       mbind (close_contract (cm_base X) c signed_cet (map snd attestations)) (\<lambda>closed.
       mbind (mmonitor (cleanup_channel (sch_channel_id ch))) (\<lambda>_.
       upsert_channel X closed_channel (Some closed))))))
     else mret ()))"

section \<open>Transactions seen on chain\<close>

text \<open>The punishment of a revoked transaction: its witness gives away the publication secret of the counterparty.\<close>

definition counter_publish_secret :: "'s ChannelManager \<Rightarrow> SignedChannel \<Rightarrow> Transaction \<Rightarrow> bytes \<Rightarrow> pubkey \<Rightarrow> (Error + bytes) option" where
  "counter_publish_secret X ch tx own_adaptor_sig publish =
     (let own = fund_pubkey (own_params ch); other = fund_pubkey (counter_params ch) in
      obind (vget (tx_input tx) 0) (\<lambda>i0.
      obind (vget (witness i0) (if key_le own other \<and> own \<noteq> other then 1 else 2)) (\<lambda>item.
      obind (u64_sub (length item) 1) (\<lambda>n.
      pbind (Some (secp_error (sig_from_der X (take n item)))) (\<lambda>own_sig.
      Some (secp_error (adaptor_recover X own_adaptor_sig own_sig publish)))))))"

definition punish_transaction ::
  "'s ChannelManager \<Rightarrow> SignedChannel \<Rightarrow> Transaction \<Rightarrow> nat \<Rightarrow> bytes \<Rightarrow> bool \<Rightarrow> RevokedTxType \<Rightarrow> (Error + Transaction) option" where
  "punish_transaction X ch tx i own_adaptor_sig is_offer revoked =
     (let B = cm_btc X; S = cm_secp X; N = cm_ln X; P = cm_keys X in
      obind (get_secret N (counter_secrets ch) i) (\<lambda>secret.
      obind (unwrap (sk_from_slice S secret)) (\<lambda>counter_secret.
      pbind (Some (secret_key_for P (own_per_update_seed ch))) (\<lambda>seed.
      obind (update_point S N seed i) (\<lambda>point.
      obind (get_revokable_params B S (own_points ch) (revocation_basepoint (counter_points ch)) point) (\<lambda>own_rev.
      pbind (Some (secret_key_for P (own_basepoint (own_points ch)))) (\<lambda>own_base.
      let own_sk = derive_private_key N point own_base; counter_point = pk_of S counter_secret in
      obind (get_revokable_params B S (counter_points ch) (revocation_basepoint (own_points ch)) counter_point) (\<lambda>counter_rev.
      pbind (counter_publish_secret X ch tx own_adaptor_sig (publish_pk counter_rev)) (\<lambda>counter_sk.
      pbind (Some (secret_key_for P (revocation_basepoint (own_points ch)))) (\<lambda>own_revocation_base.
      let counter_revocation_sk = derive_private_revocation_key N counter_secret own_revocation_base;
          (offer_rev, accept_rev) = (if is_offer then (own_rev, counter_rev) else (counter_rev, own_rev));
          fee_rate = cm_sat_per_1000_weight X div 250 in
      pbind (Some (new_address (cm_world X))) (\<lambda>dest.
      dlc_err (case revoked of
        RevokedBuffer \<Rightarrow> create_and_sign_punish_buffer_transaction B S (cm_ms X) offer_rev accept_rev own_sk counter_sk
          counter_revocation_sk tx dest 0 fee_rate
      | RevokedSettle \<Rightarrow> create_and_sign_punish_settle_transaction B S (cm_ms X) offer_rev accept_rev own_sk counter_sk
          counter_revocation_sk tx dest CET_NSEQUENCE 0 fee_rate is_offer))))))))))))"

definition forget_channel :: "'s ChannelManager \<Rightarrow> SignedChannel \<Rightarrow> Channel \<Rightarrow> Contract option \<Rightarrow> ('s, unit) mgr" where
  "forget_channel X ch closed c = mbind (mmonitor (cleanup_channel (sch_channel_id ch))) (\<lambda>_. upsert_channel X closed c)"

definition on_buffer_tx :: "'s ChannelManager \<Rightarrow> SignedChannel \<Rightarrow> Transaction \<Rightarrow> ('s, unit) mgr" where
  "on_buffer_tx X ch tx =
     mbind (munwrap (signed_channel_contract_id ch)) (\<lambda>contract_id.
     mbind (mlift (Some (ok_or (InvalidState ''Expected to have keys_id.'') (signed_channel_keys_id ch)))) (\<lambda>keys.
     upsert_channel X (ChSigned (enter_state (Closing tx contract_id False keys) ch)) None))"

definition on_collaborative_close_tx :: "'s ChannelManager \<Rightarrow> SignedChannel \<Rightarrow> ('s, unit) mgr" where
  "on_collaborative_close_tx X ch =
     mbind (case established_rollback ch of
         Some (Inr prev) \<Rightarrow>
           mbind (mstate ch CollaborativeCloseOfferedT) (\<lambda>s.
           mbind (get_collaboratively_closed_contract X (ss_contract_id prev) (ss_counter_payout s) False) (\<lambda>c.
           update_contract (cm_base X) (Closed c)))
       | _ \<Rightarrow> mret ()) (\<lambda>_.
     forget_channel X ch (ChCollaborativelyClosed (closed_of ch)) None)"

definition on_cet :: "'s ChannelManager \<Rightarrow> SignedChannel \<Rightarrow> Transaction \<Rightarrow> ('s, unit) mgr" where
  "on_cet X ch tx =
     (let closed = (if is_of_type (sch_state ch) ClosingT then closed_by ch (ss_is_initiator (sch_state ch)) else ChClosed (closed_of ch)) in
      mbind (mmonitor (cleanup_channel (sch_channel_id ch))) (\<lambda>_.
      mbind (case signed_channel_contract_id ch of
          None \<Rightarrow> mret None
        | Some i \<Rightarrow> mbind (store_read (\<lambda>s. Some (st_get_contract (m_store (cm_base X)) s i))) (\<lambda>object. case object of
            Some (Confirmed c) \<Rightarrow> mret (Some (PreClosed \<lparr>pc_signed_contract = c, pc_attestations = None, pc_signed_cet = tx\<rparr>))
          | _ \<Rightarrow> mret None)) (\<lambda>preclosed.
      upsert_channel X closed preclosed)))"

definition process_watched_tx :: "'s ChannelManager \<Rightarrow> Transaction \<Rightarrow> ChannelInfo \<Rightarrow> SignedChannel \<Rightarrow> ('s, unit) mgr" where
  "process_watched_tx X tx info ch = (case tx_type info of
     BufferTx \<Rightarrow> on_buffer_tx X ch tx
   | RevokedTx i sig is_offer revoked \<Rightarrow>
       mbind (mlift (punish_transaction X ch tx i sig is_offer revoked)) (\<lambda>signed_tx.
       mbind (broadcast_tx (cm_base X) signed_tx) (\<lambda>_.
       mbind (forget_channel X ch (ChClosedPunished \<lparr>cpd_counter_party = sch_counter_party ch,
         cpd_temporary_channel_id = sch_temporary_channel_id ch, cpd_channel_id = sch_channel_id ch,
         cpd_punish_txid = compute_txid (cm_btc X) signed_tx\<rparr>) None) (\<lambda>_. persist_chain_monitor X)))
   | CollaborativeClose \<Rightarrow> mbind (on_collaborative_close_tx X ch) (\<lambda>_. persist_chain_monitor X)
   | SettleTx \<Rightarrow> mbind (forget_channel X ch (ChCounterClosed (closed_of ch)) None) (\<lambda>_. persist_chain_monitor X)
   | CetTx \<Rightarrow> mbind (on_cet X ch tx) (\<lambda>_. persist_chain_monitor X))"

text \<open>A transaction whose channel cannot be read is logged and passed over.\<close>

definition process_watched_txs :: "'s ChannelManager \<Rightarrow> (Transaction \<times> ChannelInfo) list \<Rightarrow> ('s, unit) mgr" where
  "process_watched_txs X = mfor (\<lambda>(tx, info) st.
     case signed_channel_of X (watched_channel info) None st of
       Some (Inl e, st') \<Rightarrow> Some (Inr (), st')
     | Some (Inr ch, st') \<Rightarrow> process_watched_tx X tx info ch st'
     | None \<Rightarrow> None)"

definition check_for_watched_tx :: "'s ChannelManager \<Rightarrow> ('s, unit) mgr" where
  "check_for_watched_tx X st =
     mbind (process_watched_txs X (confirmed_txs (monitor st))) (\<lambda>_. persist_chain_monitor X) st"

section \<open>Periodic checks of channels\<close>

definition check_timed_out :: "'s ChannelManager \<Rightarrow> SignedChannelStateType \<Rightarrow> ('s, unit) mgr" where
  "check_timed_out X t =
     mbind (store_read (\<lambda>s. ch_get_signed (cm_channels X) s (Some t))) (\<lambda>chs.
     each_logged (\<lambda>ch. if is_of_type (sch_state ch) t \<and> ss_timeout (sch_state ch) < unix_time_now (cm_world X)
       then force_close_channel_internal X ch True else mret ()) chs)"

definition check_for_timed_out_channels :: "'s ChannelManager \<Rightarrow> ('s, unit) mgr" where
  "check_for_timed_out_channels X =
     mfor (check_timed_out X) [RenewOfferedT, RenewAcceptedT, RenewConfirmedT, SettledOfferedT, SettledAcceptedT, SettledConfirmedT]"

definition channel_checks :: "'s ChannelManager \<Rightarrow> ('s, unit) mgr" where
  "channel_checks X =
     mbind (store_read (\<lambda>s. ch_get_signed (cm_channels X) s (Some ClosingT))) (\<lambda>chs.
     mbind (each_logged (try_finalize_closing_established_channel X) chs) (\<lambda>_.
     mbind (mignore (check_for_timed_out_channels X)) (\<lambda>_. check_for_watched_tx X)))"

definition periodic_check_with_channels :: "'s ChannelManager \<Rightarrow> bool \<Rightarrow> string \<Rightarrow> ('s, unit) mgr" where
  "periodic_check_with_channels X check_channels evm_pk =
     mbind (periodic_check (cm_base X) evm_pk) (\<lambda>_. if check_channels then channel_checks X else mret ())"

section \<open>Messages\<close>

datatype ChannelDlcMessage =
    ContractMsg DlcMessage | OfferChannelMsg OfferChannel | AcceptChannelMsg AcceptChannel | SignChannelMsg SignChannel
  | SettleOfferMsg SettleOffer | SettleAcceptMsg SettleAccept | SettleConfirmMsg SettleConfirm | SettleFinalizeMsg SettleFinalize
  | RenewOfferMsg RenewOffer | RenewAcceptMsg RenewAccept | RenewConfirmMsg RenewConfirm | RenewFinalizeMsg RenewFinalize
  | RenewRevokeMsg RenewRevoke | CollaborativeCloseOfferMsg CollaborativeCloseOffer | RejectMsg Reject

fun on_channel_message :: "'s ChannelManager \<Rightarrow> ChannelDlcMessage \<Rightarrow> pubkey \<Rightarrow> string \<Rightarrow> ('s, ChannelDlcMessage option) mgr" where
  "on_channel_message X (ContractMsg m) cp evm_pk = mmap (map_option ContractMsg) (on_dlc_message (cm_base X) m cp evm_pk)"
| "on_channel_message X (OfferChannelMsg m) cp evm_pk = mmap (\<lambda>_. None) (on_offer_channel X m cp)"
| "on_channel_message X (AcceptChannelMsg m) cp evm_pk = mmap (\<lambda>r. Some (SignChannelMsg r)) (on_accept_channel X m cp)"
| "on_channel_message X (SignChannelMsg m) cp evm_pk = mmap (\<lambda>_. None) (on_sign_channel X m cp)"
| "on_channel_message X (SettleOfferMsg m) cp evm_pk = mmap (map_option RejectMsg) (mgr_on_settle_offer X m cp)"
| "on_channel_message X (SettleAcceptMsg m) cp evm_pk = mmap (\<lambda>r. Some (SettleConfirmMsg r)) (on_settle_accept X m cp)"
| "on_channel_message X (SettleConfirmMsg m) cp evm_pk = mmap (\<lambda>r. Some (SettleFinalizeMsg r)) (on_settle_confirm X m cp)"
| "on_channel_message X (SettleFinalizeMsg m) cp evm_pk = mmap (\<lambda>_. None) (on_settle_finalize X m cp)"
| "on_channel_message X (RenewOfferMsg m) cp evm_pk = mmap (map_option RejectMsg) (mgr_on_renew_offer X m cp)"
| "on_channel_message X (RenewAcceptMsg m) cp evm_pk = mmap (\<lambda>r. Some (RenewConfirmMsg r)) (on_renew_accept X m cp)"
| "on_channel_message X (RenewConfirmMsg m) cp evm_pk = mmap (\<lambda>r. Some (RenewFinalizeMsg r)) (on_renew_confirm X m cp)"
| "on_channel_message X (RenewFinalizeMsg m) cp evm_pk = mmap (\<lambda>r. Some (RenewRevokeMsg r)) (on_renew_finalize X m cp)"
| "on_channel_message X (RenewRevokeMsg m) cp evm_pk = mmap (\<lambda>_. None) (on_renew_revoke X m cp)"
| "on_channel_message X (CollaborativeCloseOfferMsg m) cp evm_pk = mmap (\<lambda>_. None) (on_collaborative_close_offer X m cp)"
| "on_channel_message X (RejectMsg m) cp evm_pk = mmap (\<lambda>_. None) (on_reject X m cp)"


end
