(* ===== verification/ChannelUpdaterSpec.thy ===== *)
theory ChannelUpdaterSpec
  imports ChannelUpdater
begin

text \<open>
  What the steps of a channel keep. A channel is backed when the local party can enforce it alone: it holds an adaptor signature of
  the counterparty on the last transaction both agreed on, encrypted to its own publication key. Every step keeps that.
\<close>

section \<open>Enforceable transactions\<close>

definition enforceable :: "btc \<Rightarrow> secp \<Rightarrow> SignedChannel \<Rightarrow> pubkey \<Rightarrow> Transaction \<Rightarrow> bytes \<Rightarrow> bool" where
  "enforceable B S ch point tx sig \<longleftrightarrow> tx_input tx \<noteq> [] \<and>
     (\<exists>v p. fund_value ch = Some v \<and> get_publish_pk B S (own_points ch) point = Some p \<and>
       verify_tx_adaptor_signature S tx v (fund_script_pubkey ch) (fund_pubkey (counter_params ch)) p sig = Inr ())"

text \<open>The state that is enforced when the channel is closed: the current one, or the one a pending update is rolled back to.\<close>

definition base_state :: "SignedChannel \<Rightarrow> SignedChannelState option" where
  "base_state ch = (if get_type (sch_state ch) \<in> {EstablishedT, RenewFinalizedT, SettledT, ClosingT}
     then Some (sch_state ch) else roll_back_state ch)"

fun backed_by :: "btc \<Rightarrow> secp \<Rightarrow> SignedChannel \<Rightarrow> SignedChannelState \<Rightarrow> bool" where
  "backed_by B S ch (Established _ counter_sig _ tx _ _ _) = enforceable B S ch (own_per_update_point ch) tx counter_sig"
| "backed_by B S ch (Settled tx counter_sig _ _ _ _) = enforceable B S ch (own_per_update_point ch) tx counter_sig"
| "backed_by B S ch (RenewFinalized _ _ tx _ counter_sig _ _ _ _ _) = enforceable B S ch (own_per_update_point ch) tx counter_sig"
| "backed_by B S ch (Closing _ _ _ _) = True"
| "backed_by B S ch _ = False"

fun pending_ok :: "btc \<Rightarrow> secp \<Rightarrow> SignedChannel \<Rightarrow> SignedChannelState \<Rightarrow> bool" where
  "pending_ok B S ch (SettledAccepted _ _ _ tx _ _ _ _) = (tx_input tx \<noteq> [])"
| "pending_ok B S ch (SettledConfirmed tx counter_sig _ own_next _ _ _ _ _) = enforceable B S ch own_next tx counter_sig"
| "pending_ok B S ch (RenewAccepted _ _ _ tx _ _ _ _) = (tx_input tx \<noteq> [])"
| "pending_ok B S ch (RenewConfirmed _ _ _ tx _ _ _ _ _ _) = (tx_input tx \<noteq> [])"
| "pending_ok B S ch _ = True"

definition backed :: "btc \<Rightarrow> secp \<Rightarrow> SignedChannel \<Rightarrow> bool" where
  "backed B S ch \<longleftrightarrow> (\<exists>s. base_state ch = Some s \<and> backed_by B S ch s) \<and> pending_ok B S ch (sch_state ch)"

lemma fund_value_cong [simp]:
  "fund_value (ch\<lparr>sch_state := s\<rparr>) = fund_value ch" "fund_value (ch\<lparr>roll_back_state := r\<rparr>) = fund_value ch"
  "fund_value (ch\<lparr>update_idx := i\<rparr>) = fund_value ch" "fund_value (ch\<lparr>counter_secrets := c\<rparr>) = fund_value ch"
  "fund_value (ch\<lparr>own_per_update_point := p\<rparr>) = fund_value ch" "fund_value (ch\<lparr>counter_per_update_point := p\<rparr>) = fund_value ch"
  by (simp_all add: fund_value_def)

lemma enforceable_cong [simp]:
  "enforceable B S (ch\<lparr>sch_state := s\<rparr>) = enforceable B S ch" "enforceable B S (ch\<lparr>roll_back_state := r\<rparr>) = enforceable B S ch"
  "enforceable B S (ch\<lparr>update_idx := i\<rparr>) = enforceable B S ch" "enforceable B S (ch\<lparr>counter_secrets := c\<rparr>) = enforceable B S ch"
  "enforceable B S (ch\<lparr>own_per_update_point := p\<rparr>) = enforceable B S ch"
  "enforceable B S (ch\<lparr>counter_per_update_point := p\<rparr>) = enforceable B S ch"
  by (simp_all add: enforceable_def fun_eq_iff)

lemma backed_by_cong [simp]:
  "backed_by B S (ch\<lparr>sch_state := s\<rparr>) t = backed_by B S ch t" "backed_by B S (ch\<lparr>roll_back_state := r\<rparr>) t = backed_by B S ch t"
  by (cases t; simp)+

lemma pending_ok_cong [simp]:
  "pending_ok B S (ch\<lparr>sch_state := s\<rparr>) t = pending_ok B S ch t" "pending_ok B S (ch\<lparr>roll_back_state := r\<rparr>) t = pending_ok B S ch t"
  by (cases t; simp)+

lemma get_type_cases:
  "get_type s = EstablishedT \<longleftrightarrow> (\<exists>a b c d e f g. s = Established a b c d e f g)"
  "get_type s = SettledT \<longleftrightarrow> (\<exists>a b c d e f. s = Settled a b c d e f)"
  "get_type s = SettledOfferedT \<longleftrightarrow> (\<exists>a b c d. s = SettledOffered a b c d)"
  "get_type s = SettledReceivedT \<longleftrightarrow> (\<exists>a b c d. s = SettledReceived a b c d)"
  "get_type s = SettledAcceptedT \<longleftrightarrow> (\<exists>a b c d e f g h. s = SettledAccepted a b c d e f g h)"
  "get_type s = SettledConfirmedT \<longleftrightarrow> (\<exists>a b c d e f g h i. s = SettledConfirmed a b c d e f g h i)"
  "get_type s = RenewOfferedT \<longleftrightarrow> (\<exists>a b c d e f. s = RenewOffered a b c d e f)"
  "get_type s = RenewAcceptedT \<longleftrightarrow> (\<exists>a b c d e f g h. s = RenewAccepted a b c d e f g h)"
  "get_type s = RenewConfirmedT \<longleftrightarrow> (\<exists>a b c d e f g h i j. s = RenewConfirmed a b c d e f g h i j)"
  "get_type s = RenewFinalizedT \<longleftrightarrow> (\<exists>a b c d e f g h i j. s = RenewFinalized a b c d e f g h i j)"
  "get_type s = ClosingT \<longleftrightarrow> (\<exists>a b c d. s = Closing a b c d)"
  "get_type s = CollaborativeCloseOfferedT \<longleftrightarrow> (\<exists>a b c d e. s = CollaborativeCloseOffered a b c d e)"
  by (cases s; simp)+

lemma get_signed_channel_state_pok [simp]:
  "get_signed_channel_state ch t = pok s \<longleftrightarrow> get_type (sch_state ch) = t \<and> s = sch_state ch"
  by (auto simp: get_signed_channel_state_def is_of_type_def)

text \<open>
  Not every channel can be enforced: an offer to close together is sent in every state, and when an update is pending the state to roll
  back to is lost. What every step keeps is held with the flag cleared: what the party agreed to it can enforce, and what it may return
  to is as it was; with the flag set the channel is also backed.
\<close>

abbreviation agreed :: "SignedChannelState \<Rightarrow> bool" where
  "agreed s \<equiv> get_type s \<in> {EstablishedT, RenewFinalizedT, SettledT, ClosingT}"

fun fallback_ok :: "bool \<Rightarrow> btc \<Rightarrow> secp \<Rightarrow> SignedChannel \<Rightarrow> SignedChannelState option \<Rightarrow> bool" where
  "fallback_ok q B S ch None = (\<not> q)"
| "fallback_ok q B S ch (Some s) = (if agreed s then backed_by B S ch s else \<not> q \<and> pending_ok B S ch s)"

definition held :: "bool \<Rightarrow> btc \<Rightarrow> secp \<Rightarrow> SignedChannel \<Rightarrow> bool" where
  "held q B S ch \<longleftrightarrow> pending_ok B S ch (sch_state ch) \<and>
     (if agreed (sch_state ch) then backed_by B S ch (sch_state ch) else fallback_ok q B S ch (roll_back_state ch))"

text \<open>The state that forced closing enforces, when there is one.\<close>

definition enforced_state :: "SignedChannel \<Rightarrow> SignedChannelState option" where
  "enforced_state ch = (case base_state ch of None \<Rightarrow> None | Some s \<Rightarrow> if agreed s then Some s else None)"

lemma backed_by_agreed: "backed_by B S ch s \<Longrightarrow> agreed s \<and> pending_ok B S ch s"
  by (cases s) auto

lemma backed_held: "backed B S ch \<longleftrightarrow> held True B S ch"
  by (cases "roll_back_state ch") (auto simp: backed_def held_def base_state_def dest: backed_by_agreed)

lemma held_enforced: "held True B S ch \<longleftrightarrow> held False B S ch \<and> enforced_state ch \<noteq> None"
  by (cases "roll_back_state ch") (auto simp: held_def base_state_def enforced_state_def)

lemma fallback_ok_cong [simp]:
  "fallback_ok q B S (ch\<lparr>sch_state := s\<rparr>) t = fallback_ok q B S ch t" "fallback_ok q B S (ch\<lparr>roll_back_state := r\<rparr>) t = fallback_ok q B S ch t"
  by (cases t; simp)+

text \<open>Entering a pending state from one that is backed.\<close>

lemma held_enter:
  assumes "held q B S ch" "get_type (sch_state ch) \<in> {EstablishedT, RenewFinalizedT, SettledT, ClosingT}"
    "get_type s \<in> {SettledOfferedT, SettledReceivedT, RenewOfferedT, CollaborativeCloseOfferedT}"
  shows "held q B S (enter_state s ch)"
  using assms by (cases s) (auto simp: held_def enter_state_def base_state_def)

lemma held_roll_back:
  assumes "held q B S ch" "\<not> agreed (sch_state ch)" "roll_back ch = Some ch'"
  shows "held q B S ch'"
proof -
  obtain s where s: "roll_back_state ch = Some s" "ch' = ch\<lparr>sch_state := s, roll_back_state := None\<rparr>"
    using assms(3) by (auto simp: roll_back_def)
  have "fallback_ok q B S ch (Some s)" using assms(1,2) s(1) by (simp add: held_def)
  then show ?thesis using s(2) backed_by_agreed[of B S ch s] by (simp add: held_def split: if_splits)
qed

section \<open>Every step keeps a channel backed\<close>

lemma settle_channel_offer_held:
  "settle_channel_offer S N W P ch pay peer_timeout = pok (m, ch') \<Longrightarrow> held q B S ch \<Longrightarrow> held q B S ch'"
  by (auto simp: settle_channel_offer_def is_of_type_def bind_eq_Some_conv split: if_splits intro!: held_enter)

lemma on_settle_offer_held: "on_settle_offer ch m = pok ch' \<Longrightarrow> held q B S ch \<Longrightarrow> held q B S ch'"
  by (auto simp: on_settle_offer_def is_of_type_def bind_eq_Some_conv split: if_splits intro!: held_enter)

lemma settle_tx_input:
  assumes "create_settle_transaction M inp offer accept o_pay a_pay csv lt v rate = pok tx"
  shows "tx_input tx = [inp]"
  using assms by (auto simp: create_settle_transaction_def Let_def bind_eq_Some_conv)

lemma get_settle_tx_and_adaptor_sig_pok:
  assumes "get_settle_tx_and_adaptor_sig B S M own_next ftx i spk sk offer_points accept_points point o_pay a_pay csv lt counter rate = pok (tx, sig)"
  shows "tx_input tx \<noteq> [] \<and> (\<forall>counter_sig pk. counter = Some (counter_sig, pk) \<longrightarrow>
    (\<exists>v p. map_option txo_value (vget (tx_output ftx) i) = Some v \<and> get_publish_pk B S offer_points own_next = Some p \<and>
      verify_tx_adaptor_signature S tx v spk pk p counter_sig = Inr ()))"
  using assms
  by (cases counter)
     (auto simp: get_settle_tx_and_adaptor_sig_def Let_def bind_eq_Some_conv get_publish_pk_def get_revokable_params_def dest!: settle_tx_input)

lemma settle_channel_accept_held:
  assumes "settle_channel_accept B S M N W P ch csv lt peer_timeout mon = pok (m, ch', mon')" "held q B S ch"
  shows "held q B S ch'"
  using assms
  by (auto simp: settle_channel_accept_def is_of_type_def bind_eq_Some_conv Let_def held_def
      split: if_splits dest!: get_settle_tx_and_adaptor_sig_pok)

lemma settle_channel_confirm_held:
  assumes "settle_channel_confirm B S M N W P ch m csv lt peer_timeout mon = Some (Inr (msg, ch'), mon')" "held q B S ch"
  shows "held q B S ch'"
proof -
  obtain own_pay tx sig where tx: "confirmed_settle_tx B S M W ch m csv lt = pok (own_pay, tx, sig)"
    using assms(1) by (auto simp: settle_channel_confirm_def Let_def split: option.splits sum.splits)
  have s: "get_type (sch_state ch) = SettledOfferedT"
    and e: "enforceable B S ch (ss_next_per_update_point (sch_state ch)) tx (sa_settle_adaptor_signature m)"
    using tx by (auto simp: confirmed_settle_tx_def Let_def is_of_type_def bind_eq_Some_conv enforceable_def fund_value_def
        split: if_splits dest!: get_settle_tx_and_adaptor_sig_pok)
  show ?thesis using assms tx s e
    by (auto simp: settle_channel_confirm_def Let_def bind_eq_Some_conv held_def)
qed

lemma settle_channel_finalize_held:
  assumes "settle_channel_finalize B S N P ch m = pok (msg, ch')" "held q B S ch"
  shows "held q B S ch'"
proof -
  obtain a b c tx e f g h where s: "sch_state ch = SettledAccepted a b c tx e f g h"
    using assms(1) by (auto simp: settle_channel_finalize_def Let_def is_of_type_def get_type_cases split: if_splits)
  have "tx_input tx \<noteq> []" using assms(2) s by (simp add: held_def)
  then show ?thesis using assms(1) s
    by (auto simp: settle_channel_finalize_def Let_def is_of_type_def bind_eq_Some_conv held_def enforceable_def
        get_revokable_params_def get_publish_pk_def fund_value_def)
qed

lemma settle_channel_on_finalize_held:
  assumes "settle_channel_on_finalize S N ch m = pok ch'" "held q B S ch"
  shows "held q B S ch'"
proof -
  obtain tx a b c d e f g h where s: "sch_state ch = SettledConfirmed tx a b c d e f g h"
    using assms(1) by (auto simp: settle_channel_on_finalize_def Let_def is_of_type_def get_type_cases split: if_splits)
  show ?thesis using assms s
    by (auto simp: settle_channel_on_finalize_def Let_def is_of_type_def bind_eq_Some_conv held_def)
qed

lemma reject_settle_offer_held: "reject_settle_offer ch = pok (m, ch') \<Longrightarrow> held q B S ch \<Longrightarrow> held q B S ch'"
  by (auto simp: reject_settle_offer_def bind_eq_Some_conv intro!: held_roll_back[of q B S ch])

lemma renew_offer_held:
  assumes "renew_offer B S N W P ch input announcements pay delay peer_timeout nsequence = pok (m, oc, ch')" "held q B S ch"
  shows "held q B S ch'"
proof -
  have r: "renewable ch input = pok ()" and c: "\<exists>s. ch' = enter_state s ch \<and> get_type s = RenewOfferedT"
    using assms(1) by (auto simp: renew_offer_def bind_eq_Some_conv Let_def)
  from r have "get_type (sch_state ch) \<in> {EstablishedT, SettledT}"
    by (simp add: renewable_def split: SignedChannelStateType.splits)
  then show ?thesis using c assms(2) held_enter by auto
qed

lemma on_renew_offer_held:
  assumes "on_renew_offer W ch m peer_timeout = pok (oc, ch')" "held q B S ch"
  shows "held q B S ch'"
proof -
  have "get_type (sch_state ch) \<in> {EstablishedT, SettledT}" "\<exists>s. ch' = enter_state s ch \<and> get_type s = RenewOfferedT"
    using assms(1) by (auto simp: on_renew_offer_def is_of_type_def bind_eq_Some_conv Let_def split: if_splits)
  then show ?thesis using assms(2) held_enter by auto
qed

lemma renewal_buffer_input:
  assumes "create_renewal_channel_transactions B M offer accept offer_rev accept_rev ftx spk payouts rlt rate clt sq = pok txs"
  shows "tx_input (buffer_transaction txs) \<noteq> []"
  using assms by (auto simp: create_renewal_channel_transactions_def Let_def bind_eq_Some_conv create_buffer_transaction_def)

lemma accept_channel_renewal_held:
  assumes "accept_channel_renewal B S M N W P ch oc nsequence peer_timeout = pok (a, m, ch')" "held q B S ch"
  shows "held q B S ch'"
  using assms
  by (auto simp: accept_channel_renewal_def is_of_type_def bind_eq_Some_conv Let_def held_def
      split: if_splits dest!: renewal_buffer_input)

lemma verify_renew_accept_and_confirm_held:
  assumes "verify_renew_accept_and_confirm B S M N W P m ch oc nsequence peer_timeout = pok (sc, msg, ch')" "held q B S ch"
  shows "held q B S ch'"
  using assms
  by (auto simp: verify_renew_accept_and_confirm_def bind_eq_Some_conv Let_def held_def dest!: renewal_buffer_input)

lemma verify_renew_confirm_and_finalize_held:
  assumes "verify_renew_confirm_and_finalize B S N W P ch a m peer_timeout mon = pok (sc, msg, ch', mon')" "held q B S ch"
    "fund_pubkey (offer_params (ac_offered_contract a)) = fund_pubkey (counter_params ch)"
  shows "held q B S ch'"
proof -
  have "get_type (sch_state ch) = RenewAcceptedT"
    using assms(1) by (auto simp: verify_renew_confirm_and_finalize_def)
  then obtain c d e tx f g h i where s: "sch_state ch = RenewAccepted c d e tx f g h i" unfolding get_type_cases by blast
  have "tx_input tx \<noteq> []" using assms(2) s by (simp add: held_def)
  then show ?thesis using assms(1,3) s
    by (auto simp: verify_renew_confirm_and_finalize_def Let_def bind_eq_Some_conv held_def enforceable_def fund_value_def)
qed

lemma renew_channel_on_finalize_held:
  assumes "renew_channel_on_finalize B S N P ch m = pok (msg, ch')" "held q B S ch"
  shows "held q B S ch'"
proof -
  have "get_type (sch_state ch) = RenewConfirmedT"
    using assms(1) by (auto simp: renew_channel_on_finalize_def)
  then obtain c d e tx f g h i j k where s: "sch_state ch = RenewConfirmed c d e tx f g h i j k" unfolding get_type_cases by blast
  have "tx_input tx \<noteq> []" using assms(2) s by (simp add: held_def)
  then show ?thesis using assms(1) s
    by (auto simp: renew_channel_on_finalize_def Let_def bind_eq_Some_conv held_def enforceable_def fund_value_def
        get_revokable_params_def get_publish_pk_def)
qed

lemma renew_channel_on_revoke_held:
  assumes "renew_channel_on_revoke S N ch m = pok ch'" "held q B S ch"
  shows "held q B S ch'"
proof -
  have "get_type (sch_state ch) = RenewFinalizedT" using assms(1) by (auto simp: renew_channel_on_revoke_def)
  then obtain c d tx e f g h i j k where s: "sch_state ch = RenewFinalized c d tx e f g h i j k" unfolding get_type_cases by blast
  then show ?thesis using assms
    by (auto simp: renew_channel_on_revoke_def Let_def bind_eq_Some_conv held_def)
qed

lemma reject_renew_offer_held: "reject_renew_offer ch = pok (m, ch') \<Longrightarrow> held q B S ch \<Longrightarrow> held q B S ch'"
  by (auto simp: reject_renew_offer_def bind_eq_Some_conv split: if_splits intro!: held_roll_back[of q B S ch])

lemma updater_on_reject_held: "updater_on_reject ch = pok ch' \<Longrightarrow> held q B S ch \<Longrightarrow> held q B S ch'"
  by (auto simp: updater_on_reject_def is_of_type_def Let_def bind_eq_Some_conv split: if_splits intro!: held_roll_back[of q B S ch])

text \<open>An own offer to close together may lose the state to roll back to, when it is sent while an update is pending.\<close>

lemma close_offer_enters:
  assumes "updater_offer_collaborative_close B S W ch pay = pok (m, tx, ch')"
  shows "\<exists>s. ch' = enter_state s ch \<and> get_type s = CollaborativeCloseOfferedT"
  using assms by (auto simp: updater_offer_collaborative_close_def Let_def bind_eq_Some_conv split: if_splits)

lemma offer_collaborative_close_held:
  assumes "updater_offer_collaborative_close B S W ch pay = pok (m, tx, ch')" "held q B S ch" "q \<Longrightarrow> agreed (sch_state ch)"
  shows "held q B S ch'"
proof -
  obtain s where s: "ch' = enter_state s ch" "get_type s = CollaborativeCloseOfferedT" using close_offer_enters[OF assms(1)] by blast
  then have "pending_ok B S ch s" by (auto simp: get_type_cases)
  then show ?thesis using s assms(2,3) by (auto simp: held_def enter_state_def)
qed

text \<open>A close offer is taken when there is no state to roll back to, which a pending state of a backed channel always has.\<close>

lemma on_collaborative_close_offer_held:
  assumes "updater_on_collaborative_close_offer B W ch m peer_timeout = pok ch'" "held q B S ch"
  shows "held q B S ch'"
proof -
  obtain s where s: "ch' = enter_state s ch" "get_type s = CollaborativeCloseOfferedT" and r: "roll_back_state ch = None"
    using assms(1) by (auto simp: updater_on_collaborative_close_offer_def Let_def bind_eq_Some_conv split: if_splits)
  then have "pending_ok B S ch s" by (auto simp: get_type_cases)
  then show ?thesis using s r assms(2) by (auto simp: held_def enter_state_def split: if_splits)
qed

lemma initiate_unilateral_close_held:
  "updater_initiate_unilateral_close S N P ch sig keys tx b = pok ch' \<Longrightarrow> held q B S ch'"
  by (auto simp: updater_initiate_unilateral_close_def held_def)


lemma fund_output_at:
  "get_fund_output B t = Some out \<Longrightarrow> get_fund_output_index B t = Some i \<Longrightarrow> i < length (tx_output (fund t)) \<and> out = tx_output (fund t) ! i"
  by (cases "find_first_index (\<lambda>x. script_pubkey x = to_p2wsh B (funding_script_pubkey t)) (tx_output (fund t))")
    (auto simp: get_fund_output_def get_fund_output_index_def get_output_for_script_pubkey_def find_first_index_Some)

lemma verify_signed_channel_held:
  assumes "verify_signed_channel B S N ach a m mon = pok (ch, sc, tx, mon')" "tx_input (ach_buffer_transaction ach) \<noteq> []"
  shows "held q B S ch"
  using assms
  by (auto simp: verify_signed_channel_def Let_def bind_eq_Some_conv held_def enforceable_def fund_value_def
      dest!: fund_output_at)

section \<open>The life of a channel\<close>

text \<open>
  One step of a signed channel: what the party does of itself, or on a message of the counterparty, whatever wallet, signer and
  clock answer. The stored contract of a renewal is between the two parties of the channel.
\<close>

inductive channel_step :: "btc \<Rightarrow> secp \<Rightarrow> mslib \<Rightarrow> ln_lib \<Rightarrow> SignedChannel \<Rightarrow> SignedChannel \<Rightarrow> bool" for B S M N where
  settle_offer_sent: "settle_channel_offer S N W P ch pay t = pok (m, ch') \<Longrightarrow> channel_step B S M N ch ch'"
| settle_offer_received: "on_settle_offer ch m = pok ch' \<Longrightarrow> channel_step B S M N ch ch'"
| settle_accepted: "settle_channel_accept B S M N W P ch csv lt t mon = pok (m, ch', mon') \<Longrightarrow> channel_step B S M N ch ch'"
| settle_confirmed: "settle_channel_confirm B S M N W P ch m csv lt t mon = Some (Inr (msg, ch'), mon') \<Longrightarrow> channel_step B S M N ch ch'"
| settle_finalized: "settle_channel_finalize B S N P ch m = pok (msg, ch') \<Longrightarrow> channel_step B S M N ch ch'"
| settle_finalize_received: "settle_channel_on_finalize S N ch m = pok ch' \<Longrightarrow> channel_step B S M N ch ch'"
| settle_rejected: "reject_settle_offer ch = pok (m, ch') \<Longrightarrow> channel_step B S M N ch ch'"
| renew_offer_sent: "renew_offer B S N W P ch input anns pay delay t sq = pok (m, oc, ch') \<Longrightarrow> channel_step B S M N ch ch'"
| renew_offer_received: "on_renew_offer W ch m t = pok (oc, ch') \<Longrightarrow> channel_step B S M N ch ch'"
| renew_accepted: "accept_channel_renewal B S M N W P ch oc sq t = pok (a, m, ch') \<Longrightarrow> channel_step B S M N ch ch'"
| renew_confirmed: "verify_renew_accept_and_confirm B S M N W P m ch oc sq t = pok (sc, msg, ch') \<Longrightarrow> channel_step B S M N ch ch'"
| renew_finalized: "verify_renew_confirm_and_finalize B S N W P ch a m t mon = pok (sc, msg, ch', mon') \<Longrightarrow>
    fund_pubkey (offer_params (ac_offered_contract a)) = fund_pubkey (counter_params ch) \<Longrightarrow> channel_step B S M N ch ch'"
| renew_finalize_received: "renew_channel_on_finalize B S N P ch m = pok (msg, ch') \<Longrightarrow> channel_step B S M N ch ch'"
| renew_revoke_received: "renew_channel_on_revoke S N ch m = pok ch' \<Longrightarrow> channel_step B S M N ch ch'"
| renew_rejected: "reject_renew_offer ch = pok (m, ch') \<Longrightarrow> channel_step B S M N ch ch'"
| reject_received: "updater_on_reject ch = pok ch' \<Longrightarrow> channel_step B S M N ch ch'"
| close_offer_sent: "updater_offer_collaborative_close B S W ch pay = pok (m, tx, ch') \<Longrightarrow> channel_step B S M N ch ch'"
| close_offer_received: "updater_on_collaborative_close_offer B W ch m t = pok ch' \<Longrightarrow> channel_step B S M N ch ch'"
| close_initiated: "updater_initiate_unilateral_close S N P ch sig keys tx b = pok ch' \<Longrightarrow> channel_step B S M N ch ch'"

text \<open>The own offer to close a channel together that has an update pending already.\<close>

definition close_offer_while_pending :: "btc \<Rightarrow> secp \<Rightarrow> SignedChannel \<Rightarrow> SignedChannel \<Rightarrow> bool" where
  "close_offer_while_pending B S ch ch' \<longleftrightarrow> \<not> agreed (sch_state ch) \<and>
     (\<exists>W pay m tx. updater_offer_collaborative_close B S W ch pay = pok (m, tx, ch'))"

lemmas steps_held = settle_channel_offer_held on_settle_offer_held settle_channel_accept_held settle_channel_confirm_held
  settle_channel_finalize_held settle_channel_on_finalize_held reject_settle_offer_held renew_offer_held on_renew_offer_held
  accept_channel_renewal_held verify_renew_accept_and_confirm_held verify_renew_confirm_and_finalize_held
  renew_channel_on_finalize_held renew_channel_on_revoke_held reject_renew_offer_held updater_on_reject_held
  on_collaborative_close_offer_held initiate_unilateral_close_held

lemma channel_step_held:
  "channel_step B S M N ch ch' \<Longrightarrow> held q B S ch \<Longrightarrow> \<not> q \<or> \<not> close_offer_while_pending B S ch ch' \<Longrightarrow> held q B S ch'"
proof (induction rule: channel_step.induct)
  case (close_offer_sent W ch pay m tx ch')
  then show ?case using offer_collaborative_close_held unfolding close_offer_while_pending_def by blast
qed (erule steps_held; assumption)+

text \<open>
  Along a run every channel is held; and when it is not backed any more, the party offered on the way to close together while an
  update was pending.
\<close>

lemma channel_steps_held:
  assumes "(channel_step B S M N)\<^sup>*\<^sup>* ch0 ch" "backed B S ch0"
  shows "held False B S ch \<and> (enforced_state ch = None \<longrightarrow>
    (\<exists>ch1 ch2. (channel_step B S M N)\<^sup>*\<^sup>* ch0 ch1 \<and> close_offer_while_pending B S ch1 ch2 \<and> (channel_step B S M N)\<^sup>*\<^sup>* ch2 ch))"
  using assms(1)
proof (induction rule: rtranclp_induct)
  case base
  then show ?case using assms(2) held_enforced by (auto simp: backed_held)
next
  case (step ch ch')
  have "held False B S ch'" using channel_step_held[OF step(2)] step.IH by blast
  moreover have "\<exists>ch1 ch2. (channel_step B S M N)\<^sup>*\<^sup>* ch0 ch1 \<and> close_offer_while_pending B S ch1 ch2 \<and> (channel_step B S M N)\<^sup>*\<^sup>* ch2 ch'"
    if none: "enforced_state ch' = None"
  proof (cases "enforced_state ch = None")
    case True
    then show ?thesis using step.IH step(2) by (meson rtranclp.rtrancl_into_rtrancl)
  next
    case False
    then have "held True B S ch" using step.IH held_enforced by blast
    then have "close_offer_while_pending B S ch ch'" using channel_step_held[OF step(2)] none held_enforced by blast
    then show ?thesis using step(1) by blast
  qed
  ultimately show ?case by blast
qed

lemma settle_channel_offer_backed:
  "settle_channel_offer S N W P ch pay peer_timeout = pok (m, ch') \<Longrightarrow> backed B S ch \<Longrightarrow> backed B S ch'"
  unfolding backed_held by (rule settle_channel_offer_held)

section \<open>Enforcing a backed channel\<close>

text \<open>
  What the key derivation promises (BOLT 3): the private key that is derived for a point is that of the derived public key; and
  what the signer provider promises: it has the secret key of a public one.
\<close>

definition derivation_laws :: "btc \<Rightarrow> secp \<Rightarrow> ln_lib \<Rightarrow> bool" where
  "derivation_laws B S N \<longleftrightarrow>
     (\<forall>point sk p. derive_public_key B S point (pk_of S sk) = Some p \<longrightarrow> p = pk_of S (derive_private_key N point sk))"

definition knows :: "secp \<Rightarrow> key_provider \<Rightarrow> pubkey \<Rightarrow> bool" where
  "knows S P pk \<longleftrightarrow> (\<exists>sk. secret_key_for P pk = Inr sk \<and> pk_of S sk = pk)"

text \<open>The transaction with its first input signed by both: the witness has the signature of the counterparty, which is valid.\<close>

definition signed_by_both :: "secp \<Rightarrow> SignedChannel \<Rightarrow> Transaction \<Rightarrow> Transaction \<Rightarrow> bool" where
  "signed_by_both S ch tx tx' \<longleftrightarrow> (\<exists>v h sk sig. fund_value ch = Some v \<and> get_sig_hash_msg S tx 0 (fund_script_pubkey ch) v = Inr h \<and>
     pk_of S sk = fund_pubkey (own_params ch) \<and> verify_ecdsa S h sig (fund_pubkey (counter_params ch)) = Inr () \<and>
     witness (tx_input tx' ! 0) = [[], serialize_der S (sign_ecdsa S h sk) @ [1], serialize_der S sig @ [1], fund_script_pubkey ch] \<and>
     tx_output tx' = tx_output tx \<and> map previous_output (tx_input tx') = map previous_output (tx_input tx))"

lemma enforceable_signed:
  assumes "enforceable B S ch (own_per_update_point ch) tx sig" "adaptor_laws S" "derivation_laws B S N"
    "knows S P (publish_basepoint (own_points ch))" "knows S P (fund_pubkey (own_params ch))"
  shows "\<exists>tx'. sign_with_publish_secret S N P ch sig tx = pok tx' \<and> signed_by_both S ch tx tx'"
proof -
  obtain base where base: "secret_key_for P (publish_basepoint (own_points ch)) = Inr base" "pk_of S base = publish_basepoint (own_points ch)"
    using assms(4) by (auto simp: knows_def)
  obtain sk where sk: "secret_key_for P (fund_pubkey (own_params ch)) = Inr sk" "pk_of S sk = fund_pubkey (own_params ch)"
    using assms(5) by (auto simp: knows_def)
  define x where "x = derive_private_key N (own_per_update_point ch) base"
  obtain v p h where v: "fund_value ch = Some v" and p: "derive_public_key B S (own_per_update_point ch) (pk_of S base) = Some p"
    and h: "get_sig_hash_msg S tx 0 (fund_script_pubkey ch) v = Inr h" "adaptor_verify S sig h (fund_pubkey (counter_params ch)) p = Inr ()"
    and inp: "0 < length (tx_input tx)"
    using assms(1) base(2) by (auto simp: enforceable_def get_publish_pk_def verify_tx_adaptor_signature_def)
  have "p = pk_of S x" using assms(3) p unfolding derivation_laws_def x_def by blast
  then obtain sig' where sig': "adaptor_decrypt S sig x = Inr sig'" "verify_ecdsa S h sig' (fund_pubkey (counter_params ch)) = Inr ()"
    using assms(2) h(2) unfolding adaptor_laws_def by blast
  obtain tx' where "sign_multi_sig_input S tx sig' (fund_pubkey (counter_params ch)) sk (fund_script_pubkey ch) v 0 = pok tx'"
    and "signed_by_both S ch tx tx'"
    using sign_multi_sig_input_ok[OF inp h(1), of sig' "fund_pubkey (counter_params ch)" sk] v h(1) sk(2) sig'(2)
    unfolding signed_by_both_def by blast
  then show ?thesis using base(1) sk(1) sig'(1) v by (auto simp: sign_with_publish_secret_def x_def)
qed


end
