(* ===== verification/ChannelSettle.thy ===== *)
theory ChannelSettle
  imports ChannelUpdaterSpec ContractUpdaterSpec
begin

text \<open>
  Settling a channel between its two parties: the messages of the protocol, each made by one party from the message of the other,
  bring both channels to the same settlement, seen from either side.
\<close>

section \<open>The two sides of a channel\<close>

definition paired :: "SignedChannel \<Rightarrow> SignedChannel \<Rightarrow> bool" where
  "paired a b \<longleftrightarrow> sch_channel_id a = sch_channel_id b \<and> own_params a = counter_params b \<and> counter_params a = own_params b \<and>
     own_points a = counter_points b \<and> counter_points a = own_points b \<and>
     own_per_update_point a = counter_per_update_point b \<and> counter_per_update_point a = own_per_update_point b \<and>
     update_idx a = update_idx b \<and> fund_tx a = fund_tx b \<and> fund_script_pubkey a = fund_script_pubkey b \<and>
     fund_output_index a = fund_output_index b \<and> sch_fee_rate a = sch_fee_rate b"

definition channel_total :: "SignedChannel \<Rightarrow> nat" where
  "channel_total ch = collateral (own_params ch) + collateral (counter_params ch)"

text \<open>The settle transaction of two parties, the same whoever builds it.\<close>

definition settle_tx_of ::
  "btc \<Rightarrow> secp \<Rightarrow> mslib \<Rightarrow> SignedChannel \<Rightarrow> pubkey \<Rightarrow> pubkey \<Rightarrow> amount \<Rightarrow> nat \<Rightarrow> nat \<Rightarrow> (DlcError + Transaction) option" where
  "settle_tx_of B S M a offer_point accept_point pay csv lt =
     obind (get_revokable_params B S (own_points a) (revocation_basepoint (counter_points a)) offer_point) (\<lambda>offer_rev.
     obind (get_revokable_params B S (counter_points a) (revocation_basepoint (own_points a)) accept_point) (\<lambda>accept_rev.
     obind (fund_value a) (\<lambda>v.
     create_settle_transaction M \<lparr>previous_output = \<lparr>txid = compute_txid B (fund_tx a), vout = fund_output_index a mod u32_bound\<rparr>,
         script_sig = [], sequence = 0xffffffff, witness = []\<rparr> offer_rev accept_rev (channel_total a - pay) pay csv lt v (sch_fee_rate a))))"

lemma settle_offer_pok:
  assumes "settle_channel_offer S N W P a pay t = pok (m, a1)"
  shows "\<exists>timeout. get_type (sch_state a) = EstablishedT \<and> so_counter_payout m = pay \<and>
    a1 = enter_state (SettledOffered pay (so_next_per_update_point m) timeout (ss_keys_id (sch_state a))) a"
  using assms by (auto simp: settle_channel_offer_def is_of_type_def bind_eq_Some_conv split: if_splits)

lemma on_settle_offer_pok:
  assumes "on_settle_offer b m = pok b1"
  shows "get_type (sch_state b) = EstablishedT \<and> so_counter_payout m \<le> channel_total b \<and>
    b1 = enter_state (SettledReceived (so_counter_payout m) (channel_total b - so_counter_payout m) (so_next_per_update_point m)
      (ss_keys_id (sch_state b))) b"
  using assms by (auto simp: on_settle_offer_def is_of_type_def bind_eq_Some_conv channel_total_def split: if_splits)

lemma settle_accept_pok:
  assumes "settle_channel_accept B S M N W P b1 csv lt t mon = pok (m, b2, mon')"
    "sch_state b1 = SettledReceived own_pay counter_pay counter_next keys"
  shows "\<exists>tx timeout a1. paired a1 b1 \<and> settle_tx_of B S M a1 counter_next (sa_next_per_update_point m) own_pay csv lt = pok tx \<and>
    b2 = b1\<lparr>sch_state := SettledAccepted counter_next (sa_next_per_update_point m) (sa_settle_adaptor_signature m) tx timeout own_pay counter_pay keys\<rparr> \<and>
    mon' = watch B tx (sch_channel_id b1) SettleTx mon"
proof -
  define a1 where "a1 = b1\<lparr>own_params := counter_params b1, counter_params := own_params b1, own_points := counter_points b1,
    counter_points := own_points b1, own_per_update_point := counter_per_update_point b1, counter_per_update_point := own_per_update_point b1\<rparr>"
  have "paired a1 b1" by (simp add: paired_def a1_def)
  moreover have "channel_total a1 = collateral (counter_params b1) + collateral (own_params b1)"
    by (simp add: channel_total_def a1_def)
  ultimately show ?thesis using assms
    by (intro exI[of _ "ss_settle_tx (sch_state b2)"] exI[of _ "ss_timeout (sch_state b2)"] exI[of _ a1])
       (auto simp: settle_channel_accept_def is_of_type_def bind_eq_Some_conv Let_def get_settle_tx_and_adaptor_sig_def settle_tx_of_def
         fund_value_def a1_def split: if_splits)
qed

lemma settle_tx_of_cong:
  "paired a b \<Longrightarrow> paired a' b \<Longrightarrow> settle_tx_of B S M a = settle_tx_of B S M a'"
  by (simp add: fun_eq_iff settle_tx_of_def paired_def channel_total_def fund_value_def)

lemma settle_confirm_pok:
  assumes "settle_channel_confirm B S M N W P a1 m csv lt t mon = Some (Inr (msg, a2), mon')"
    "sch_state a1 = SettledOffered pay own_next timeout keys"
  shows "\<exists>tx timeout'. settle_tx_of B S M a1 own_next (sa_next_per_update_point m) pay csv lt = pok tx \<and> pay \<le> channel_total a1 \<and>
    a2 = a1\<lparr>sch_state := SettledConfirmed tx (sa_settle_adaptor_signature m) (sa_next_per_update_point m) own_next
      (scf_settle_adaptor_signature msg) timeout' (channel_total a1 - pay) pay keys\<rparr> \<and>
    mon' = watch B tx (sch_channel_id a1) SettleTx mon"
proof -
  obtain own_pay tx sig where tx: "confirmed_settle_tx B S M W a1 m csv lt = pok (own_pay, tx, sig)"
    using assms(1) by (auto simp: settle_channel_confirm_def Let_def split: option.splits sum.splits)
  have "own_pay = channel_total a1 - pay" "pay \<le> channel_total a1"
    "settle_tx_of B S M a1 own_next (sa_next_per_update_point m) pay csv lt = pok tx"
    using tx assms(2) by (auto simp: confirmed_settle_tx_def Let_def is_of_type_def bind_eq_Some_conv get_settle_tx_and_adaptor_sig_def
        settle_tx_of_def fund_value_def channel_total_def add.commute)
  then show ?thesis using assms tx by (auto simp: settle_channel_confirm_def Let_def bind_eq_Some_conv)
qed

lemma settle_finalize_pok:
  assumes "settle_channel_finalize B S N P b2 m = pok (msg, b3)"
    "sch_state b2 = SettledAccepted counter_next own_next own_sig tx timeout own_pay counter_pay keys"
  shows "\<exists>secrets. pk_of S (scf_prev_per_update_secret m) = counter_per_update_point b2 \<and> 0 < update_idx b2 \<and>
    provide_secret N (counter_secrets b2) (update_idx b2) (scf_prev_per_update_secret m) = Inr secrets \<and>
    b3 = b2\<lparr>own_per_update_point := own_next, counter_per_update_point := counter_next,
      sch_state := Settled tx (scf_settle_adaptor_signature m) own_sig own_pay counter_pay keys,
      roll_back_state := None, update_idx := update_idx b2 - 1, counter_secrets := secrets\<rparr>"
  using assms
  by (auto simp: settle_channel_finalize_def Let_def is_of_type_def bind_eq_Some_conv store_secret_def split: if_splits sum.splits)

lemma settle_on_finalize_pok:
  assumes "settle_channel_on_finalize S N a2 m = pok a3"
    "sch_state a2 = SettledConfirmed tx counter_sig counter_next own_next own_sig timeout own_pay counter_pay keys"
  shows "\<exists>secrets. pk_of S (sf_prev_per_update_secret m) = counter_per_update_point a2 \<and> 0 < update_idx a2 \<and>
    provide_secret N (counter_secrets a2) (update_idx a2) (sf_prev_per_update_secret m) = Inr secrets \<and>
    a3 = a2\<lparr>own_per_update_point := own_next, counter_per_update_point := counter_next,
      sch_state := Settled tx counter_sig own_sig own_pay counter_pay keys,
      roll_back_state := None, update_idx := update_idx a2 - 1, counter_secrets := secrets\<rparr>"
  using assms
  by (auto simp: settle_channel_on_finalize_def Let_def is_of_type_def bind_eq_Some_conv store_secret_def split: if_splits sum.splits)

section \<open>The settlement\<close>

lemma paired_enter: "paired a b \<Longrightarrow> paired (enter_state s a) (enter_state t b)"
  by (simp add: paired_def enter_state_def)

text \<open>C5: When the parties of a channel settle it, each answering the message of the other, they end with the same settle
  transaction, the payouts offered as seen from either side, and the adaptor signature of the other; both watch the transaction.
  The channels are paired again one update further with nothing to roll back to, and each party holds the secret of the other
  for the update before, which it checked against the point of that update.\<close>

theorem settlement_pairs:
  assumes "paired a b"
    "settle_channel_offer S N Wa Pa a pay t1 = pok (offer, a1)" "on_settle_offer b offer = pok b1"
    "settle_channel_accept B S M N Wb Pb b1 csv lt t2 mb = pok (acc, b2, mb')"
    "settle_channel_confirm B S M N Wa' Pa' a1 acc csv lt t3 ma = Some (Inr (cfm, a2), ma')"
    "settle_channel_finalize B S N Pb' b2 cfm = pok (fin, b3)" "settle_channel_on_finalize S N a2 fin = pok a3"
  shows "paired a3 b3 \<and> update_idx a3 = update_idx a - 1 \<and> roll_back_state a3 = None \<and> roll_back_state b3 = None \<and>
    pay \<le> channel_total a \<and>
    (\<exists>tx sig_a sig_b. sch_state a3 = Settled tx sig_b sig_a (channel_total a - pay) pay (ss_keys_id (sch_state a)) \<and>
      sch_state b3 = Settled tx sig_a sig_b pay (channel_total a - pay) (ss_keys_id (sch_state b)) \<and>
      ma' = watch B tx (sch_channel_id a) SettleTx ma \<and> mb' = watch B tx (sch_channel_id b) SettleTx mb) \<and>
    (\<exists>secret_a secret_b. pk_of S secret_a = own_per_update_point a \<and> pk_of S secret_b = own_per_update_point b \<and>
      provide_secret N (counter_secrets a) (update_idx a) secret_b = Inr (counter_secrets a3) \<and>
      provide_secret N (counter_secrets b) (update_idx b) secret_a = Inr (counter_secrets b3))"
proof -
  have T: "channel_total b = channel_total a" using assms(1) by (simp add: paired_def channel_total_def add.commute)
  obtain t where offer: "so_counter_payout offer = pay"
    and a1: "a1 = enter_state (SettledOffered pay (so_next_per_update_point offer) t (ss_keys_id (sch_state a))) a"
    using settle_offer_pok[OF assms(2)] by blast
  have b1: "pay \<le> channel_total a"
    "b1 = enter_state (SettledReceived pay (channel_total a - pay) (so_next_per_update_point offer) (ss_keys_id (sch_state b))) b"
    using on_settle_offer_pok[OF assms(3)] offer T by auto
  have state: "sch_state a1 = SettledOffered pay (so_next_per_update_point offer) t (ss_keys_id (sch_state a))"
    "sch_state b1 = SettledReceived pay (channel_total a - pay) (so_next_per_update_point offer) (ss_keys_id (sch_state b))"
    by (simp_all add: a1 b1 enter_state_def)
  have paired: "paired a1 b1" and total: "channel_total a1 = channel_total a"
    using assms(1) paired_enter by (simp_all add: a1 b1 enter_state_def channel_total_def)
  obtain tx timeout a1' where tx: "paired a1' b1"
      "settle_tx_of B S M a1' (so_next_per_update_point offer) (sa_next_per_update_point acc) pay csv lt = pok tx"
    and b2: "b2 = b1\<lparr>sch_state := SettledAccepted (so_next_per_update_point offer) (sa_next_per_update_point acc)
      (sa_settle_adaptor_signature acc) tx timeout pay (channel_total a - pay) (ss_keys_id (sch_state b))\<rparr>"
    and mb: "mb' = watch B tx (sch_channel_id b1) SettleTx mb"
    using settle_accept_pok[OF assms(4) state(2)] by blast
  have same: "settle_tx_of B S M a1 (so_next_per_update_point offer) (sa_next_per_update_point acc) pay csv lt = pok tx"
    using settle_tx_of_cong[OF paired tx(1)] tx(2) by simp
  obtain timeout' where a2: "a2 = a1\<lparr>sch_state := SettledConfirmed tx (sa_settle_adaptor_signature acc) (sa_next_per_update_point acc)
      (so_next_per_update_point offer) (scf_settle_adaptor_signature cfm) timeout' (channel_total a - pay) pay (ss_keys_id (sch_state a))\<rparr>"
    and ma: "ma' = watch B tx (sch_channel_id a1) SettleTx ma"
    using settle_confirm_pok[OF assms(5) state(1)] same total by auto
  obtain secrets_b where b3: "pk_of S (scf_prev_per_update_secret cfm) = counter_per_update_point b2"
    "provide_secret N (counter_secrets b2) (update_idx b2) (scf_prev_per_update_secret cfm) = Inr secrets_b"
    "b3 = b2\<lparr>own_per_update_point := sa_next_per_update_point acc, counter_per_update_point := so_next_per_update_point offer,
      sch_state := Settled tx (scf_settle_adaptor_signature cfm) (sa_settle_adaptor_signature acc) pay (channel_total a - pay)
        (ss_keys_id (sch_state b)), roll_back_state := None, update_idx := update_idx b2 - 1, counter_secrets := secrets_b\<rparr>"
    using settle_finalize_pok[OF assms(6)] b2 by fastforce
  obtain secrets_a where a3: "pk_of S (sf_prev_per_update_secret fin) = counter_per_update_point a2"
    "provide_secret N (counter_secrets a2) (update_idx a2) (sf_prev_per_update_secret fin) = Inr secrets_a"
    "a3 = a2\<lparr>own_per_update_point := so_next_per_update_point offer, counter_per_update_point := sa_next_per_update_point acc,
      sch_state := Settled tx (sa_settle_adaptor_signature acc) (scf_settle_adaptor_signature cfm) (channel_total a - pay) pay
        (ss_keys_id (sch_state a)), roll_back_state := None, update_idx := update_idx a2 - 1, counter_secrets := secrets_a\<rparr>"
    using settle_on_finalize_pok[OF assms(7)] a2 by fastforce
  show ?thesis using assms(1) b1(1) a3 b3 ma mb
    by (auto simp: paired_def a2 b2 a1 b1(2) enter_state_def)
qed


section \<open>Instances\<close>

text \<open>Key derivation and update secrets over the scalars modulo 7, a provider for which a public key is its own secret key, and the
  two sides of an established channel. The store of secrets keeps the last one.\<close>

definition toy_ln :: ln_lib where
  "toy_ln = \<lparr>build_commitment_secret = (\<lambda>seed i. toy_key ((toy_val seed + 6 * i) mod 7)),
     derive_private_key = (\<lambda>point sk. toy_key ((toy_val sk + (toy_val point + toy_val sk)) mod 7)),
     derive_private_revocation_key = (\<lambda>secret base_secret. toy_key ((toy_val secret + toy_val base_secret) ^ 2 mod 7)),
     no_secrets = [], provide_secret = (\<lambda>b i s. Inr (i # s)), get_secret = (\<lambda>b i. if b \<noteq> [] \<and> hd b = i then Some (tl b) else None)\<rparr>"

definition toy_keys :: key_provider where
  "toy_keys = \<lparr>new_secret_key = (\<lambda>k. Inr (toy_key 1)), secret_key_for = Inr\<rparr>"

definition toy_points :: "nat \<Rightarrow> PartyBasePoints" where
  "toy_points k = \<lparr>own_basepoint = toy_key k, revocation_basepoint = toy_key (k + 1), publish_basepoint = toy_key (k + 2)\<rparr>"

definition toy_party :: "nat \<Rightarrow> amount \<Rightarrow> PartyParams" where
  "toy_party k c = (sample_party 0 c)\<lparr>fund_pubkey := toy_key k\<rparr>"

definition toy_a :: SignedChannel where
  "toy_a = \<lparr>sch_channel_id = [1], sch_counter_party = [66], sch_temporary_channel_id = [0], own_params = toy_party 1 60000,
     own_points = toy_points 1, own_per_update_point = toy_key 2, own_per_update_seed = toy_key 5, counter_points = toy_points 4,
     counter_per_update_point = toy_key 3, counter_params = toy_party 2 40000,
     sch_state = Established [7] (toy_key 2 @ toy_key 1) (toy_key 1 @ toy_key 1) (toy_tx [105000]) True 100000 (toy_key 1),
     update_idx = 10, fund_tx = toy_tx [110000], fund_script_pubkey = [9], fund_output_index = 0, roll_back_state = None,
     counter_secrets = [], sch_fee_rate = 2\<rparr>"

definition toy_b :: SignedChannel where
  "toy_b = \<lparr>sch_channel_id = [1], sch_counter_party = [65], sch_temporary_channel_id = [0], own_params = toy_party 2 40000,
     own_points = toy_points 4, own_per_update_point = toy_key 3, own_per_update_seed = toy_key 6, counter_points = toy_points 1,
     counter_per_update_point = toy_key 2, counter_params = toy_party 1 60000,
     sch_state = Established [7] (toy_key 1 @ toy_key 1) (toy_key 2 @ toy_key 1) (toy_tx [105000]) False 100000 (toy_key 2),
     update_idx = 10, fund_tx = toy_tx [110000], fund_script_pubkey = [9], fund_output_index = 0, roll_back_state = None,
     counter_secrets = [], sch_fee_rate = 2\<rparr>"

lemma toy_paired: "paired toy_a toy_b"
  by (simp add: paired_def toy_a_def toy_b_def)

lemma toy_public_key:
  "(p + b) mod 7 \<noteq> 0 \<Longrightarrow> (b + (p + b)) mod 7 \<noteq> 0 \<Longrightarrow>
   derive_public_key toy_btc honest_secp (toy_key p) (toy_key b) = Some (toy_key ((b + (p + b)) mod 7))"
proof -
  have "toy_val (toy_key p @ toy_key b) = (p + b) mod 7" by (simp add: toy_val_def toy_key_def sum_list_replicate)
  moreover assume "(p + b) mod 7 \<noteq> 0" "(b + (p + b)) mod 7 \<noteq> 0"
  ultimately show ?thesis
    by (simp add: derive_public_key_def toy_btc_def honest_fields toy_simps mod_simps)
qed

lemma toy_derivation: "derivation_laws toy_btc honest_secp toy_ln"
proof -
  have "sum_list p mod 7 = toy_val p" for p :: bytes by (simp add: toy_val_def)
  then have "toy_val (point @ toy_key (toy_val sk)) = (toy_val point + toy_val sk) mod 7" for point sk
    by (simp add: toy_val_def toy_key_def sum_list_replicate mod_simps)
  then show ?thesis
    by (auto simp: derivation_laws_def derive_public_key_def toy_btc_def honest_fields toy_simps toy_ln_def bind_eq_Some_conv mod_simps
        split: if_splits)
qed


lemma toy_revocation_key:
  assumes "(c * ((c + p) mod 7) + p * ((p + c) mod 7)) mod 7 \<noteq> 0"
  shows "derive_public_revocation_key toy_btc honest_secp (toy_key p) (toy_key c) = Some (toy_key ((c * ((c + p) mod 7) + p * ((p + c) mod 7)) mod 7))"
proof -
  have "toy_val (toy_key x @ toy_key y) = (x + y) mod 7" for x y by (simp add: toy_val_def toy_key_def sum_list_replicate)
  moreover have "mul_tweak honest_secp = mul_tweak toy_secp" "scalar_from_be_bytes honest_secp = scalar_from_be_bytes toy_secp"
    by (simp_all add: honest_secp_def)
  moreover have "(c * (c + p) + p * (p + c)) mod 7 = (c * ((c + p) mod 7) + p * ((p + c) mod 7)) mod 7"
    by (intro mod_add_cong) (simp_all add: mod_mult_right_eq)
  ultimately show ?thesis using assms
    by (simp add: derive_public_revocation_key_def toy_btc_def honest_fields toy_simps mod_simps)
qed

definition toy_offer_rev :: RevokeParams where
  "toy_offer_rev = \<lparr>own_pk = toy_key 5, publish_pk = toy_key 2, revoke_pk = toy_key 1\<rparr>"

definition toy_accept_rev :: RevokeParams where
  "toy_accept_rev = \<lparr>own_pk = toy_key 5, publish_pk = toy_key 2, revoke_pk = toy_key 1\<rparr>"

lemma toy_params:
  "get_revokable_params toy_btc honest_secp (toy_points 1) (toy_key 5) (toy_key 3) = Some toy_offer_rev"
  "get_revokable_params toy_btc honest_secp (toy_points 4) (toy_key 2) (toy_key 4) = Some toy_accept_rev"
  by (simp_all add: get_revokable_params_def toy_points_def toy_public_key toy_revocation_key toy_offer_rev_def toy_accept_rev_def)

definition toy_settle_tx :: Transaction where
  "toy_settle_tx = \<lparr>version = 2, lock_time = 0,
     tx_input = [\<lparr>previous_output = \<lparr>txid = [1, 1], vout = 0\<rparr>, script_sig = [], sequence = 0xffffffff, witness = []\<rparr>],
     tx_output = [\<lparr>txo_value = 64807, script_pubkey = [0, 32]\<rparr>, \<lparr>txo_value = 44807, script_pubkey = [0, 32]\<rparr>]\<rparr>"

lemma toy_create_settle:
  "create_settle_transaction toy_ms \<lparr>previous_output = \<lparr>txid = [1, 1], vout = 0\<rparr>, script_sig = [], sequence = 0xffffffff, witness = []\<rparr>
    offer_rev accept_rev 60000 40000 144 0 110000 2 = pok toy_settle_tx"
proof -
  have w: "weight_to_fee (SETTLE_INPUT_WEIGHT + 2 * SETTLE_OUTPUT_WEIGHT) 2 = Inr 386" by (subst weight_to_fee_exact) (simp_all add: weight_defs)
  show ?thesis
    using w by (simp add: create_settle_transaction_def settle_descriptor_def parse_def toy_ms_def discard_dust_def DUST_LIMIT_def Let_def
        toy_settle_tx_def TX_VERSION_def numeral_2_eq_2[symmetric] u64_add_def)
qed

lemma honest_adaptors:
  "get_tx_adaptor_signature honest_secp tx v spk sk p = Inr (toy_key (toy_val sk) @ p)"
  "verify_tx_adaptor_signature honest_secp tx v spk pk p a = Inr () \<longleftrightarrow> a = pk @ p"
  by (simp_all add: get_tx_adaptor_signature_def verify_tx_adaptor_signature_def get_sig_hash_msg_def honest_secp_def toy_secp_def secp_err_def)

lemma toy_settle_sig:
  "get_settle_tx_and_adaptor_sig toy_btc honest_secp toy_ms (toy_key 4) (toy_tx [110000]) 0 [9] (toy_key 2) (toy_points 1) (toy_points 4)
     (toy_key 3) 60000 40000 144 0 None 2 = pok (toy_settle_tx, toy_key 2 @ toy_key 2)"
  "get_settle_tx_and_adaptor_sig toy_btc honest_secp toy_ms (toy_key 3) (toy_tx [110000]) 0 [9] (toy_key 1) (toy_points 1) (toy_points 4)
     (toy_key 4) 60000 40000 144 0 (Some (toy_key 2 @ toy_key 2, toy_key 2)) 2 = pok (toy_settle_tx, toy_key 1 @ toy_key 2)"
proof -
  have b: "compute_txid toy_btc (toy_tx [110000]) = [1, 1]" by (simp add: toy_btc_def toy_tx_def)
  have p: "revocation_basepoint (toy_points 1) = toy_key 2" "revocation_basepoint (toy_points 4) = toy_key 5" by (simp_all add: toy_points_def)
  have v: "map_option txo_value (vget (tx_output (toy_tx [110000])) 0) = Some 110000" by (simp add: toy_tx_def)
  note defs = get_settle_tx_and_adaptor_sig_def Let_def b p v toy_params toy_create_settle honest_adaptors toy_offer_rev_def toy_accept_rev_def
  show "get_settle_tx_and_adaptor_sig toy_btc honest_secp toy_ms (toy_key 4) (toy_tx [110000]) 0 [9] (toy_key 2) (toy_points 1) (toy_points 4)
     (toy_key 3) 60000 40000 144 0 None 2 = pok (toy_settle_tx, toy_key 2 @ toy_key 2)"
    by (simp add: defs del: One_nat_def)
  show "get_settle_tx_and_adaptor_sig toy_btc honest_secp toy_ms (toy_key 3) (toy_tx [110000]) 0 [9] (toy_key 1) (toy_points 1) (toy_points 4)
     (toy_key 4) 60000 40000 144 0 (Some (toy_key 2 @ toy_key 2, toy_key 2)) 2 = pok (toy_settle_tx, toy_key 1 @ toy_key 2)"
    by (simp add: defs del: One_nat_def)
qed


text \<open>The run: the messages and the channels after each of them.\<close>

definition toy_a1 :: SignedChannel where "toy_a1 = enter_state (SettledOffered 40000 (toy_key 3) 110 (toy_key 1)) toy_a"
definition toy_b1 :: SignedChannel where "toy_b1 = enter_state (SettledReceived 40000 60000 (toy_key 3) (toy_key 2)) toy_b"

definition toy_b2 :: SignedChannel where
  "toy_b2 = toy_b1\<lparr>sch_state := SettledAccepted (toy_key 3) (toy_key 4) (toy_key 2 @ toy_key 2) toy_settle_tx 110 40000 60000 (toy_key 2)\<rparr>"

definition toy_a2 :: SignedChannel where
  "toy_a2 = toy_a1\<lparr>sch_state := SettledConfirmed toy_settle_tx (toy_key 2 @ toy_key 2) (toy_key 4) (toy_key 3) (toy_key 1 @ toy_key 2) 110
     60000 40000 (toy_key 1)\<rparr>"

definition toy_b3 :: SignedChannel where
  "toy_b3 = toy_b2\<lparr>own_per_update_point := toy_key 4, counter_per_update_point := toy_key 3,
     sch_state := Settled toy_settle_tx (toy_key 1 @ toy_key 2) (toy_key 2 @ toy_key 2) 40000 60000 (toy_key 2),
     roll_back_state := None, update_idx := 9, counter_secrets := 10 # toy_key 2\<rparr>"

definition toy_a3 :: SignedChannel where
  "toy_a3 = toy_a2\<lparr>own_per_update_point := toy_key 3, counter_per_update_point := toy_key 4,
     sch_state := Settled toy_settle_tx (toy_key 2 @ toy_key 2) (toy_key 1 @ toy_key 2) 60000 40000 (toy_key 1),
     roll_back_state := None, update_idx := 9, counter_secrets := 10 # toy_key 3\<rparr>"

lemma toy_update_secret:
  "(toy_val seed + 6 * i) mod 7 \<noteq> 0 \<Longrightarrow> update_secret honest_secp toy_ln seed i = Inr (toy_key ((toy_val seed + 6 * i) mod 7))"
  by (simp add: update_secret_def toy_ln_def honest_fields toy_simps)

lemmas toy_channel_defs = toy_a_def toy_b_def toy_a1_def toy_b1_def toy_a2_def toy_b2_def toy_a3_def toy_b3_def toy_party_def
  enter_state_def

lemma toy_wallet_simps [simp]:
  "unix_time_now toy_wallet = 10" "derive_contract_signer toy_wallet = Inr" "signer_secret_key toy_wallet = Inr"
  "secret_key_for toy_keys = Inr"
  by (simp_all add: toy_wallet_def toy_keys_def)

lemma toy_offer_run: "settle_channel_offer honest_secp toy_ln toy_wallet toy_keys toy_a 40000 100 =
    pok (\<lparr>so_channel_id = [1], so_counter_payout = 40000, so_next_per_update_point = toy_key 3\<rparr>, toy_a1)"
  by (simp add: settle_channel_offer_def is_of_type_def toy_channel_defs update_point_def toy_update_secret honest_fields toy_simps)

lemma toy_receive_run: "on_settle_offer toy_b \<lparr>so_channel_id = [1], so_counter_payout = 40000, so_next_per_update_point = toy_key 3\<rparr> = pok toy_b1"
  by (simp add: on_settle_offer_def is_of_type_def toy_channel_defs sample_party_def)

lemma toy_accept_run: "settle_channel_accept toy_btc honest_secp toy_ms toy_ln toy_wallet toy_keys toy_b1 144 0 100 mon =
    pok (\<lparr>sa_channel_id = [1], sa_next_per_update_point = toy_key 4, sa_settle_adaptor_signature = toy_key 2 @ toy_key 2\<rparr>, toy_b2,
      watch toy_btc toy_settle_tx [1] SettleTx mon)"
  by (simp add: settle_channel_accept_def Let_def is_of_type_def toy_channel_defs sample_party_def update_point_def toy_update_secret
      honest_fields toy_simps toy_settle_sig del: One_nat_def)

lemma toy_confirm_run: "settle_channel_confirm toy_btc honest_secp toy_ms toy_ln toy_wallet toy_keys toy_a1
      \<lparr>sa_channel_id = [1], sa_next_per_update_point = toy_key 4, sa_settle_adaptor_signature = toy_key 2 @ toy_key 2\<rparr> 144 0 100 mon =
    Some (Inr (\<lparr>scf_channel_id = [1], scf_prev_per_update_secret = toy_key 2, scf_settle_adaptor_signature = toy_key 1 @ toy_key 2\<rparr>, toy_a2),
      watch toy_btc toy_settle_tx [1] SettleTx mon)"
  by (simp add: settle_channel_confirm_def confirmed_settle_tx_def Let_def is_of_type_def toy_channel_defs sample_party_def toy_update_secret
      toy_settle_sig del: One_nat_def)

lemma toy_provide: "provide_secret toy_ln b i s = Inr (i # s)"
  by (simp add: toy_ln_def)

lemma toy_finalize_run: "settle_channel_finalize toy_btc honest_secp toy_ln toy_keys toy_b2
      \<lparr>scf_channel_id = [1], scf_prev_per_update_secret = toy_key 2, scf_settle_adaptor_signature = toy_key 1 @ toy_key 2\<rparr> =
    pok (\<lparr>sf_channel_id = [1], sf_prev_per_update_secret = toy_key 3\<rparr>, toy_b3)"
proof -
  have p: "revocation_basepoint (toy_points 1) = toy_key 2" by (simp add: toy_points_def)
  show ?thesis
    by (simp add: settle_channel_finalize_def Let_def is_of_type_def toy_channel_defs sample_party_def toy_update_secret toy_provide
        fund_value_def toy_tx_def toy_params toy_accept_rev_def p honest_adaptors store_secret_def honest_fields toy_simps del: One_nat_def)
qed

lemma toy_on_finalize_run: "settle_channel_on_finalize honest_secp toy_ln toy_a2 \<lparr>sf_channel_id = [1], sf_prev_per_update_secret = toy_key 3\<rparr> = pok toy_a3"
  by (simp add: settle_channel_on_finalize_def Let_def is_of_type_def toy_channel_defs store_secret_def honest_fields toy_simps toy_provide)

theorem settlement_pairs_witness:
  "\<exists>a3 b3 sig_a sig_b. paired a3 b3 \<and> sch_state a3 = Settled toy_settle_tx sig_b sig_a 60000 40000 (toy_key 1) \<and>
    sch_state b3 = Settled toy_settle_tx sig_a sig_b 40000 60000 (toy_key 2)"
proof -
  have "paired toy_a3 toy_b3"
    using settlement_pairs[OF toy_paired toy_offer_run toy_receive_run toy_accept_run[of "new_monitor 0"] toy_confirm_run[of "new_monitor 0"]
        toy_finalize_run toy_on_finalize_run] by blast
  then show ?thesis by (intro exI[of _ toy_a3] exI[of _ toy_b3]) (simp add: toy_a3_def toy_b3_def)
qed


end
