(* ===== verification/ChannelManagerSpec.thy ===== *)
theory ChannelManagerSpec
  imports ChannelManager ChannelSettle ManagerStore
begin

text \<open>
  What the manager promises of channels: it can close every channel that was established on its own, with a transaction that both
  parties signed; and where it does not keep what it means to.
\<close>

section \<open>Forced closing\<close>

lemma mbind_simps [simp]:
  "mbind (mret x) f = f x" "mbind (mfail e) f = mfail e" "mbind mpanic f = mpanic"
  "mlift (pok x) = mret x" "mlift (perr e) = mfail e" "mlift None = mpanic"
  by (simp_all add: fun_eq_iff mbind_def mret_def mfail_def mpanic_def mlift_def)

lemma mlift_at [simp]: "mlift (pok x) st = Some (Inr x, st)" "mret x st = Some (Inr x, st)" "mfail e st = Some (Inl e, st)" "mpanic st = None"
  by (simp_all add: mlift_def mret_def mfail_def mpanic_def)

text \<open>The transaction that a state is enforced with.\<close>

definition base_tx :: "SignedChannelState \<Rightarrow> Transaction" where
  "base_tx s = (if is_of_type s SettledT then ss_settle_tx s else ss_buffer_tx s)"

text \<open>A chain that takes every transaction and has confirmed none yet, and a store that answers.\<close>

definition open_chain :: "'s Manager \<Rightarrow> bool" where
  "open_chain M \<longleftrightarrow> (\<forall>tx. send_transaction (m_chain M) tx = Inr ()) \<and> (\<forall>i. get_transaction_confirmations (m_chain M) i = Inr 0)"

definition store_answers :: "'s ChannelManager \<Rightarrow> bool" where
  "store_answers X \<longleftrightarrow> (\<forall>s ch. ch_upsert (cm_channels X) s ch None \<noteq> None)"

lemma upsert_keeps:
  assumes "store_answers X"
  shows "\<exists>r st'. upsert_channel X ch None st = Some (r, st') \<and> broadcast st' = broadcast st"
proof -
  have "ch_upsert (cm_channels X) (contract_db st) ch None \<noteq> None" using assms by (auto simp: store_answers_def)
  then show ?thesis by (auto simp: upsert_channel_def store_write_def split: option.split sum.split)
qed

lemma persist_keeps: "\<exists>r st'. persist_chain_monitor X st = Some (r, st') \<and> broadcast st' = broadcast st"
  by (auto simp: persist_chain_monitor_def store_write_def split: sum.split)

text \<open>After the broadcast comes only what keeps the list of broadcast transactions.\<close>

lemma mbind_keeps:
  assumes "\<exists>r st'. m st = Some (r, st') \<and> broadcast st' = txs"
    "\<And>x st'. broadcast st' = txs \<Longrightarrow> \<exists>r st''. f x st' = Some (r, st'') \<and> broadcast st'' = txs"
  shows "\<exists>r st'. mbind m f st = Some (r, st') \<and> broadcast st' = txs"
proof -
  obtain r st' where m: "m st = Some (r, st')" "broadcast st' = txs" using assms(1) by blast
  show ?thesis using m assms(2)[OF m(2)] by (cases r) (auto simp: mbind_def)
qed

lemma broadcast_open:
  "open_chain M \<Longrightarrow> mbind (broadcast_tx M tx) f st = f () (st\<lparr>broadcast := broadcast st @ [tx]\<rparr>)"
  by (simp add: mbind_def broadcast_tx_def open_chain_def)

lemma mmonitor_keeps: "\<exists>r st'. mmonitor f st = Some (r, st') \<and> broadcast st' = broadcast st"
  by (simp add: mmonitor_def)

definition closes_with :: "'s ChannelManager \<Rightarrow> ('s, unit) mgr \<Rightarrow> SignedChannel \<Rightarrow> Transaction \<Rightarrow> 's mgr_state \<Rightarrow> bool" where
  "closes_with X m ch tx st \<longleftrightarrow> (\<exists>r st' tx'. m st = Some (r, st') \<and> broadcast st' = broadcast st @ [tx'] \<and> signed_by_both (cm_secp X) ch tx tx')"

lemma closes_withI:
  "\<exists>r st'. m st = Some (r, st') \<and> broadcast st' = broadcast st @ [tx'] \<Longrightarrow> signed_by_both (cm_secp X) ch tx tx' \<Longrightarrow> closes_with X m ch tx st"
  by (auto simp: closes_with_def)

definition closing_laws :: "'s ChannelManager \<Rightarrow> SignedChannel \<Rightarrow> bool" where
  "closing_laws X ch \<longleftrightarrow> adaptor_laws (cm_secp X) \<and> derivation_laws (cm_btc X) (cm_secp X) (cm_ln X) \<and> open_chain (cm_base X) \<and>
     store_answers X \<and> knows (cm_secp X) (cm_keys X) (publish_basepoint (own_points ch)) \<and>
     knows (cm_secp X) (cm_keys X) (fund_pubkey (own_params ch))"

lemma unilateral_close_broadcasts:
  assumes "closing_laws X ch" "enforceable (cm_btc X) (cm_secp X) ch (own_per_update_point ch) tx sig" "signed_channel_contract_id ch \<noteq> None"
  shows "closes_with X (initiate_unilateral_close_established_channel X ch b sig tx) ch tx st"
proof -
  have ch: "open_chain (cm_base X)" and store: "store_answers X" using assms(1) by (simp_all add: closing_laws_def)
  obtain tx' where tx': "sign_with_publish_secret (cm_secp X) (cm_ln X) (cm_keys X) ch sig tx = pok tx'" "signed_by_both (cm_secp X) ch tx tx'"
    using enforceable_signed[OF assms(2)] assms(1) unfolding closing_laws_def by blast
  have "\<exists>r st'. mbind (mmonitor (remove_tx (compute_txid (cm_btc X) tx'))) (\<lambda>_. mbind (upsert_channel X c None) (\<lambda>_. persist_chain_monitor X))
      (st\<lparr>broadcast := broadcast st @ [tx']\<rparr>) = Some (r, st') \<and> broadcast st' = broadcast st @ [tx']" for c
    by (intro mbind_keeps) (use mmonitor_keeps upsert_keeps[OF store] persist_keeps in fastforce)+
  then have "\<exists>r st'. initiate_unilateral_close_established_channel X ch b sig tx st = Some (r, st') \<and> broadcast st' = broadcast st @ [tx']"
    using tx'(1) assms(3)
    by (auto simp: initiate_unilateral_close_established_channel_def updater_initiate_unilateral_close_def signed_channel_keys_id_def
        mstate_def get_signed_channel_state_def is_of_type_def broadcast_open[OF ch])
  then show ?thesis by (rule closes_withI[OF _ tx'(2)])
qed

lemma settled_close_broadcasts:
  assumes "closing_laws X ch" "enforceable (cm_btc X) (cm_secp X) ch (own_per_update_point ch) tx sig"
    "is_of_type (sch_state ch) SettledT" "ss_settle_tx (sch_state ch) = tx" "ss_counter_settle_sig (sch_state ch) = sig"
  shows "closes_with X (close_settled_channel X ch b) ch tx st"
proof -
  have ch: "open_chain (cm_base X)" and store: "store_answers X" using assms(1) by (simp_all add: closing_laws_def)
  obtain tx' where tx': "sign_with_publish_secret (cm_secp X) (cm_ln X) (cm_keys X) ch sig tx = pok tx'" "signed_by_both (cm_secp X) ch tx tx'"
    using enforceable_signed[OF assms(2)] assms(1) unfolding closing_laws_def by blast
  have "\<exists>r st'. mbind (mmonitor (cleanup_channel (sch_channel_id ch))) (\<lambda>_. upsert_channel X c None)
      (st\<lparr>broadcast := broadcast st @ [tx']\<rparr>) = Some (r, st') \<and> broadcast st' = broadcast st @ [tx']" for c
    by (intro mbind_keeps) (use mmonitor_keeps upsert_keeps[OF store] in fastforce)+
  then have "\<exists>r st'. close_settled_channel X ch b st = Some (r, st') \<and> broadcast st' = broadcast st @ [tx']"
    using tx'(1) assms(3,4,5) ch
    by (auto simp: close_settled_channel_def updater_close_settled_channel_def get_signed_channel_state_def broadcast_open open_chain_def)
  then show ?thesis by (rule closes_withI[OF _ tx'(2)])
qed

lemma base_state_closes:
  assumes "closing_laws X ch" "backed_by (cm_btc X) (cm_secp X) ch (sch_state ch)" "get_type (sch_state ch) \<noteq> ClosingT"
  shows "closes_with X (force_close_channel_internal X ch True) ch (base_tx (sch_state ch)) st"
  using assms
  by (cases "sch_state ch")
     (auto simp: force_close_channel_internal.simps base_tx_def is_of_type_def signed_channel_contract_id_def state_contract_id_def
       intro!: unilateral_close_broadcasts settled_close_broadcasts)

lemma backed_channel_closes:
  assumes "closing_laws X ch" "backed (cm_btc X) (cm_secp X) ch" "base_state ch = Some s" "get_type s \<noteq> ClosingT"
  shows "closes_with X (force_close_channel_internal X ch True) ch (base_tx s) st"
proof (cases "get_type (sch_state ch) \<in> {EstablishedT, RenewFinalizedT, SettledT, ClosingT}")
  case True
  then show ?thesis using base_state_closes[of X ch st] assms by (auto simp: backed_def base_state_def)
next
  case False
  let ?ch = "ch\<lparr>sch_state := s, roll_back_state := None\<rparr>"
  have s: "roll_back_state ch = Some s" "backed_by (cm_btc X) (cm_secp X) ?ch s"
    using False assms(2,3) by (auto simp: backed_def base_state_def)
  have "force_close_channel_internal X ch True = force_close_channel_internal X ?ch True"
    using False s(1) by (subst force_close_channel_internal.simps) (auto simp: Let_def split: SignedChannelStateType.split)
  moreover have "closes_with X (force_close_channel_internal X ?ch True) ?ch (base_tx s) st"
    using base_state_closes[of X ?ch st] s(2) assms(1,4) by (simp add: closing_laws_def)
  ultimately show ?thesis by (simp add: closes_with_def signed_by_both_def fund_value_def)
qed

text \<open>Without a state to enforce the code panics: it takes the state to roll back to twice.\<close>

lemma nothing_to_roll_back_panics:
  "\<not> agreed (sch_state ch) \<Longrightarrow> roll_back_state ch = None \<Longrightarrow> force_close_channel_internal X ch b st = None"
  by (subst force_close_channel_internal.simps) (simp add: Let_def split: SignedChannelStateType.split)

lemma nothing_to_enforce_panics:
  assumes "enforced_state ch = None"
  shows "force_close_channel_internal X ch b st = None"
proof (cases "roll_back_state ch")
  case None
  then show ?thesis using assms by (intro nothing_to_roll_back_panics) (auto simp: enforced_state_def base_state_def)
next
  case (Some s)
  then have p: "\<not> agreed (sch_state ch)" "\<not> agreed s" using assms by (auto simp: enforced_state_def base_state_def split: if_splits)
  have "force_close_channel_internal X ch b st = force_close_channel_internal X (ch\<lparr>sch_state := s, roll_back_state := None\<rparr>) b st"
    using p(1) Some by (subst force_close_channel_internal.simps) (auto simp: Let_def split: SignedChannelStateType.split)
  then show ?thesis using nothing_to_roll_back_panics[of "ch\<lparr>sch_state := s, roll_back_state := None\<rparr>"] p(2) by simp
qed


section \<open>Timeouts\<close>

definition timed_out :: "'s ChannelManager \<Rightarrow> SignedChannelStateType \<Rightarrow> SignedChannel \<Rightarrow> bool" where
  "timed_out X t ch \<longleftrightarrow> is_of_type (sch_state ch) t \<and> ss_timeout (sch_state ch) < unix_time_now (cm_world X)"

text \<open>The channel is ready to be closed by the local party alone.\<close>

definition closable :: "'s ChannelManager \<Rightarrow> SignedChannel \<Rightarrow> bool" where
  "closable X ch \<longleftrightarrow> closing_laws X ch \<and> backed (cm_btc X) (cm_secp X) ch \<and> (\<exists>s. base_state ch = Some s \<and> get_type s \<noteq> ClosingT)"

lemma each_timed_out:
  "\<forall>ch \<in> set chs. closable X ch \<Longrightarrow> \<exists>r st' txs. each_logged (\<lambda>ch. if is_of_type (sch_state ch) t \<and> ss_timeout (sch_state ch) < unix_time_now (cm_world X)
       then force_close_channel_internal X ch True else mret ()) chs st = Some (r, st') \<and> broadcast st' = broadcast st @ txs \<and>
     list_all2 (\<lambda>ch. signed_by_both (cm_secp X) ch (base_tx (the (base_state ch)))) (filter (timed_out X t) chs) txs"
proof (induction chs arbitrary: st)
  case Nil
  then show ?case by (simp add: each_logged_def)
next
  case (Cons ch chs)
  let ?f = "\<lambda>ch. if is_of_type (sch_state ch) t \<and> ss_timeout (sch_state ch) < unix_time_now (cm_world X)
    then force_close_channel_internal X ch True else mret ()"
  obtain s where s: "base_state ch = Some s" "get_type s \<noteq> ClosingT" "closing_laws X ch" "backed (cm_btc X) (cm_secp X) ch"
    using Cons.prems by (auto simp: closable_def)
  have step: "\<exists>r st1 txs. ?f ch st = Some (r, st1) \<and> broadcast st1 = broadcast st @ txs \<and>
      list_all2 (\<lambda>ch. signed_by_both (cm_secp X) ch (base_tx (the (base_state ch)))) (if timed_out X t ch then [ch] else []) txs"
  proof (cases "timed_out X t ch")
    case True
    then obtain r st1 tx where "force_close_channel_internal X ch True st = Some (r, st1)" "broadcast st1 = broadcast st @ [tx]"
      "signed_by_both (cm_secp X) ch (base_tx s) tx"
      using backed_channel_closes[OF s(3,4,1,2), of st] by (auto simp: closes_with_def)
    then show ?thesis using True s(1) by (intro exI[of _ r] exI[of _ st1] exI[of _ "[tx]"]) (simp add: timed_out_def)
  next
    case False
    then show ?thesis by (intro exI[of _ "Inr ()"] exI[of _ st] exI[of _ "[]"]) (auto simp: timed_out_def)
  qed
  then obtain r st1 txs1 where one: "?f ch st = Some (r, st1)" "broadcast st1 = broadcast st @ txs1"
    "list_all2 (\<lambda>ch. signed_by_both (cm_secp X) ch (base_tx (the (base_state ch)))) (if timed_out X t ch then [ch] else []) txs1" by blast
  obtain r' st2 txs2 where rest: "each_logged ?f chs st1 = Some (r', st2)" "broadcast st2 = broadcast st1 @ txs2"
    "list_all2 (\<lambda>ch. signed_by_both (cm_secp X) ch (base_tx (the (base_state ch)))) (filter (timed_out X t) chs) txs2"
    using Cons.IH[of st1] Cons.prems by auto
  have "each_logged ?f (ch # chs) st = Some (r', st2)"
    using one(1) rest(1) by (simp add: each_logged_def mignore_def mbind_def)
  moreover have "list_all2 (\<lambda>ch. signed_by_both (cm_secp X) ch (base_tx (the (base_state ch)))) (filter (timed_out X t) (ch # chs)) (txs1 @ txs2)"
    using list_all2_appendI[OF one(3) rest(3)] by (simp split: if_splits)
  ultimately show ?case using one(2) rest(2) by (intro exI[of _ r'] exI[of _ st2] exI[of _ "txs1 @ txs2"]) simp
qed

text \<open>The check of a pending state closes the channels it reads one after the other; an error with one does not keep the others from
  being closed.\<close>

lemma timed_out_channels_are_closed:
  assumes "ch_get_signed (cm_channels X) (contract_db st) (Some t) = pok chs" "\<forall>ch \<in> set chs. closable X ch"
  shows "\<exists>r st' txs. check_timed_out X t st = Some (r, st') \<and> broadcast st' = broadcast st @ txs \<and>
    list_all2 (\<lambda>ch. signed_by_both (cm_secp X) ch (base_tx (the (base_state ch)))) (filter (timed_out X t) chs) txs"
  using each_timed_out[OF assms(2), of t st] assms(1)
  by (simp add: check_timed_out_def mbind_def store_read_def)

section \<open>Instances\<close>

definition toy_store :: "'s ChannelStore" where
  "toy_store = \<lparr>ch_get = (\<lambda>s i. Inr (Some (ChSigned toy_a1))), ch_upsert = (\<lambda>s ch c. pok s), ch_delete = (\<lambda>s i. Inr s),
     ch_get_signed = (\<lambda>s t. pok [toy_a1]), ch_get_offered = (\<lambda>s. pok []), ch_persist_monitor = (\<lambda>s m. Inr s),
     ch_get_monitor = (\<lambda>s. Inr None)\<rparr>"

definition toy_manager :: "(bytes \<times> bytes) list db ChannelManager" where
  "toy_manager = \<lparr>cm_base = coin_manager, cm_ms = toy_ms, cm_ln = toy_ln, cm_keys = toy_keys, cm_channels = toy_store,
     cm_temporary_channel_id = [0], cm_sat_per_1000_weight = 500, cm_unreserve = (\<lambda>_. Inr ()),
     sig_from_der = Inr, adaptor_recover = (\<lambda>a s p. Inr p)\<rparr>"

lemma toy_closing_laws: "closing_laws toy_manager toy_a1"
  using honest_laws(6) toy_derivation
  by (simp add: closing_laws_def toy_manager_def open_chain_def store_answers_def toy_store_def knows_def toy_channel_defs toy_points_def
      honest_fields toy_simps sample_party_def)

lemma toy_backed: "backed toy_btc honest_secp toy_a"
  by (simp add: backed_def base_state_def enforceable_def fund_value_def get_publish_pk_def toy_channel_defs toy_points_def toy_public_key
      honest_adaptors toy_tx_def sample_party_def)


end
