(* ===== verification/ChannelPunish.thy ===== *)
theory ChannelPunish
  imports ChannelManagerSpec
begin

text \<open>
  What the manager does when it sees a transaction of a channel on chain: a revoked buffer transaction is punished; and where the
  handling of watched transactions and of close offers fails.
\<close>

section \<open>Punishment\<close>

text \<open>
  What the key derivation promises of revocation keys (BOLT 3), and what the signature library promises: signatures are read back
  from their encoding, and an adaptor signature with the signature it was completed to gives a secret key of the point it was
  encrypted to.
\<close>

definition revocation_laws :: "btc \<Rightarrow> secp \<Rightarrow> ln_lib \<Rightarrow> bool" where
  "revocation_laws B S N \<longleftrightarrow> (\<forall>secret base p. derive_public_revocation_key B S (pk_of S secret) (pk_of S base) = Some p \<longrightarrow>
     p = pk_of S (derive_private_revocation_key N secret base))"

definition recovery_laws :: "'s ChannelManager \<Rightarrow> bool" where
  "recovery_laws X \<longleftrightarrow> (\<forall>sig. sig_from_der X (serialize_der (cm_secp X) sig) = Inr sig) \<and>
     (\<forall>a x sig. adaptor_decrypt (cm_secp X) a x = Inr sig \<longrightarrow>
        (\<exists>x'. adaptor_recover X a sig (pk_of (cm_secp X) x) = Inr x' \<and> pk_of (cm_secp X) x' = pk_of (cm_secp X) x))"

definition punishing_laws :: "'s ChannelManager \<Rightarrow> SignedChannel \<Rightarrow> bool" where
  "punishing_laws X ch \<longleftrightarrow> derivation_laws (cm_btc X) (cm_secp X) (cm_ln X) \<and> revocation_laws (cm_btc X) (cm_secp X) (cm_ln X) \<and>
     recovery_laws X \<and> ms_laws (cm_ms X) \<and> sighash_laws (cm_secp X) \<and> inj (pubkey_hash (cm_ms X)) \<and> open_chain (cm_base X) \<and>
     store_answers X \<and> knows (cm_secp X) (cm_keys X) (own_basepoint (own_points ch)) \<and>
     knows (cm_secp X) (cm_keys X) (revocation_basepoint (own_points ch))"

text \<open>The position of the own signature in the witness: that of the own key in the script of the funding output.\<close>

definition own_position :: "SignedChannel \<Rightarrow> nat" where
  "own_position ch = (if key_le (fund_pubkey (own_params ch)) (fund_pubkey (counter_params ch)) \<and>
     fund_pubkey (own_params ch) \<noteq> fund_pubkey (counter_params ch) then 1 else 2)"

text \<open>The transaction was completed with the publication secret of the counterparty.\<close>

definition published_with :: "secp \<Rightarrow> SignedChannel \<Rightarrow> Transaction \<Rightarrow> bytes \<Rightarrow> pubkey \<Rightarrow> bool" where
  "published_with S ch tx own_adaptor_sig publish \<longleftrightarrow> (\<exists>i0 ins x sig. tx_input tx = i0 # ins \<and> own_position ch < length (witness i0) \<and>
     witness i0 ! own_position ch = serialize_der S sig @ [1] \<and> adaptor_decrypt S own_adaptor_sig x = Inr sig \<and> pk_of S x = publish)"

lemma counter_publish_secret_found:
  assumes "recovery_laws X" "published_with (cm_secp X) ch tx own_sig publish"
  shows "\<exists>x. counter_publish_secret X ch tx own_sig publish = pok x \<and> pk_of (cm_secp X) x = publish"
  using assms
  by (auto simp: published_with_def recovery_laws_def counter_publish_secret_def own_position_def Let_def vget_def u64_sub_def
      split: if_splits)

text \<open>The keys that the punishment is made with.\<close>

lemma punishing_keys:
  assumes "punishing_laws X ch"
    "get_revokable_params (cm_btc X) (cm_secp X) (own_points ch) (revocation_basepoint (counter_points ch)) point = Some own_rev"
    "get_revokable_params (cm_btc X) (cm_secp X) (counter_points ch) (revocation_basepoint (own_points ch)) (pk_of (cm_secp X) secret) = Some counter_rev"
  shows "\<exists>own_base rev_base. secret_key_for (cm_keys X) (own_basepoint (own_points ch)) = Inr own_base \<and>
    secret_key_for (cm_keys X) (revocation_basepoint (own_points ch)) = Inr rev_base \<and>
    pk_of (cm_secp X) (derive_private_key (cm_ln X) point own_base) = own_pk own_rev \<and>
    pk_of (cm_secp X) (derive_private_revocation_key (cm_ln X) secret rev_base) = revoke_pk counter_rev"
proof -
  obtain own_base rev_base where k: "secret_key_for (cm_keys X) (own_basepoint (own_points ch)) = Inr own_base"
    "pk_of (cm_secp X) own_base = own_basepoint (own_points ch)"
    "secret_key_for (cm_keys X) (revocation_basepoint (own_points ch)) = Inr rev_base"
    "pk_of (cm_secp X) rev_base = revocation_basepoint (own_points ch)"
    using assms(1) by (auto simp: punishing_laws_def knows_def)
  have "derive_public_key (cm_btc X) (cm_secp X) point (pk_of (cm_secp X) own_base) = Some (own_pk own_rev)"
    "derive_public_revocation_key (cm_btc X) (cm_secp X) (pk_of (cm_secp X) secret) (pk_of (cm_secp X) rev_base) = Some (revoke_pk counter_rev)"
    using assms(2,3) k by (auto simp: get_revokable_params_def bind_eq_Some_conv)
  then show ?thesis using k assms(1) unfolding punishing_laws_def derivation_laws_def revocation_laws_def by metis
qed

lemma forget_keeps:
  assumes "store_answers X"
  shows "\<exists>r st'. mbind (forget_channel X ch closed None) (\<lambda>_. persist_chain_monitor X) st = Some (r, st') \<and> broadcast st' = broadcast st"
  unfolding forget_channel_def
  by (intro mbind_keeps) (use mmonitor_keeps upsert_keeps[OF assms] persist_keeps in fastforce)+

text \<open>C4: When a revoked buffer transaction, completed with the publication secret of the counterparty, is seen on chain, and the
  secret of its update was given away by the counterparty, and it pays to the script of the buffer descriptor of the two parties in
  the roles that the watch entry gives, the manager broadcasts exactly one transaction. Its only input spends the buffer output: it is
  the one that the library satisfies this descriptor with, from the signatures of exactly three secret keys, the own one and the
  publication and revocation keys of the counterparty, on the hash for the script code and the value of the output. Its only output
  pays the whole value less the fee to the own wallet.\<close>

theorem revoked_buffer_is_punished:
  assumes laws: "punishing_laws X ch"
    and secret: "get_secret (cm_ln X) (counter_secrets ch) i = Some s" "sk_from_slice (cm_secp X) s = Inr secret"
    and point: "secret_key_for (cm_keys X) (own_per_update_seed ch) = Inr seed" "update_point (cm_secp X) (cm_ln X) seed i = Some point"
    and params: "get_revokable_params (cm_btc X) (cm_secp X) (own_points ch) (revocation_basepoint (counter_points ch)) point = Some own_rev"
      "get_revokable_params (cm_btc X) (cm_secp X) (counter_points ch) (revocation_basepoint (own_points ch)) (pk_of (cm_secp X) secret) = Some counter_rev"
    and d: "d = buffer_expression (if is_offer then own_rev else counter_rev) (if is_offer then counter_rev else own_rev)" "parses (cm_ms X) d"
    and published: "published_with (cm_secp X) ch tx own_sig (publish_pk counter_rev)"
    and out: "tx_output tx = out # rest" "punish_fee (cm_btc X) 758 dest (cm_sat_per_1000_weight X div 250) \<le> txo_value out" "txo_value out < u64_bound"
      "script_pubkey out = desc_script_pubkey (cm_ms X) d"
    and dest: "new_address (cm_world X) = Inr dest" "793 + var_int_size (cm_btc X) (length dest) + length dest * 4 < 2 ^ 53"
  shows "\<exists>r st' ptx own pub rvk. process_watched_tx X tx \<lparr>watched_channel = sch_channel_id ch, tx_type = RevokedTx i own_sig is_offer RevokedBuffer\<rparr> ch st =
      Some (r, st') \<and> broadcast st' = broadcast st @ [ptx] \<and>
    map previous_output (tx_input ptx) = [\<lparr>txid = compute_txid (cm_btc X) tx, vout = 0\<rparr>] \<and>
    pk_of (cm_secp X) own = own_pk own_rev \<and> pk_of (cm_secp X) pub = publish_pk counter_rev \<and> pk_of (cm_secp X) rvk = revoke_pk counter_rev \<and>
    punishes_with (cm_btc X) (cm_secp X) (cm_ms X) d tx out own pub rvk ptx \<and>
    tx_output ptx = [\<lparr>txo_value = txo_value out - punish_fee (cm_btc X) 758 dest (cm_sat_per_1000_weight X div 250), script_pubkey = dest\<rparr>]"
proof -
  let ?S = "cm_secp X" and ?offer = "if is_offer then own_rev else counter_rev" and ?accept = "if is_offer then counter_rev else own_rev"
  obtain own_base rev_base where k: "secret_key_for (cm_keys X) (own_basepoint (own_points ch)) = Inr own_base"
    "secret_key_for (cm_keys X) (revocation_basepoint (own_points ch)) = Inr rev_base"
    "pk_of ?S (derive_private_key (cm_ln X) point own_base) = own_pk own_rev"
    "pk_of ?S (derive_private_revocation_key (cm_ln X) secret rev_base) = revoke_pk counter_rev"
    using punishing_keys[OF laws params] by blast
  obtain x where x: "counter_publish_secret X ch tx own_sig (publish_pk counter_rev) = pok x" "pk_of ?S x = publish_pk counter_rev"
    using counter_publish_secret_found[OF _ published] laws by (auto simp: punishing_laws_def)
  obtain ptx where ptx: "create_and_sign_punish_buffer_transaction (cm_btc X) ?S (cm_ms X) ?offer ?accept
      (derive_private_key (cm_ln X) point own_base) x (derive_private_revocation_key (cm_ln X) secret rev_base) tx dest 0
      (cm_sat_per_1000_weight X div 250) = pok ptx"
    "punishes_with (cm_btc X) ?S (cm_ms X) d tx out (derive_private_key (cm_ln X) point own_base) x
      (derive_private_revocation_key (cm_ln X) secret rev_base) ptx"
    "map previous_output (tx_input ptx) = [\<lparr>txid = compute_txid (cm_btc X) tx, vout = 0\<rparr>]"
    "tx_output ptx = [\<lparr>txo_value = txo_value out - punish_fee (cm_btc X) 758 dest (cm_sat_per_1000_weight X div 250), script_pubkey = dest\<rparr>]"
    using punish_buffer_correct[of "cm_ms X" ?S ?offer ?accept tx out rest "cm_btc X" dest "cm_sat_per_1000_weight X div 250"
        "derive_private_key (cm_ln X) point own_base" x "derive_private_revocation_key (cm_ln X) secret rev_base" 0]
      laws d out dest(2) k(3,4) x(2)
    by (auto simp: punishing_laws_def split: if_splits)
  have "punish_transaction X ch tx i own_sig is_offer RevokedBuffer = pok ptx"
    using secret point params dest(1) k(1,2) x(1) ptx(1) by (auto simp: punish_transaction_def Let_def split: if_splits)
  moreover have "\<exists>r st'. mbind (forget_channel X ch (ChClosedPunished \<lparr>cpd_counter_party = sch_counter_party ch,
      cpd_temporary_channel_id = sch_temporary_channel_id ch, cpd_channel_id = sch_channel_id ch,
      cpd_punish_txid = compute_txid (cm_btc X) ptx\<rparr>) None) (\<lambda>_. persist_chain_monitor X) (st\<lparr>broadcast := broadcast st @ [ptx]\<rparr>) =
      Some (r, st') \<and> broadcast st' = broadcast st @ [ptx]"
    using forget_keeps[of X ch _ "st\<lparr>broadcast := broadcast st @ [ptx]\<rparr>"] laws by (simp add: punishing_laws_def)
  moreover have "open_chain (cm_base X)" using laws by (simp add: punishing_laws_def)
  ultimately obtain r st' where "process_watched_tx X tx \<lparr>watched_channel = sch_channel_id ch, tx_type = RevokedTx i own_sig is_offer RevokedBuffer\<rparr> ch st =
      Some (r, st')" "broadcast st' = broadcast st @ [ptx]"
    by (force simp: process_watched_tx_def broadcast_open)
  note broadcasts = this
  show ?thesis by (intro exI conjI) (rule broadcasts ptx(2,3,4) k(3,4) x(2))+
qed

text \<open>The party of the settlement example after a further update, when the counterparty publishes the transaction of that update.\<close>

definition toy_cheated :: SignedChannel where
  "toy_cheated = toy_a3\<lparr>update_idx := 8, counter_secrets := 9 # toy_key 4\<rparr>"

definition toy_cheat :: Transaction where
  "toy_cheat = (toy_tx [105000])\<lparr>tx_input := [\<lparr>previous_output = \<lparr>txid = [1, 1], vout = 0\<rparr>, script_sig = [], sequence = 0xffffffff,
     witness = [[], toy_key 1 @ [1], toy_key 1 @ [1], [9]]\<rparr>]\<rparr>"

lemma toy_square: "(c * ((c + p) mod 7) + p * ((p + c) mod 7)) mod 7 = (p + c)\<^sup>2 mod (7::nat)"
proof -
  have "(c * ((c + p) mod 7) + p * ((p + c) mod 7)) mod 7 = (c * (c + p) + p * (p + c)) mod 7"
    by (intro mod_add_cong) (simp_all add: mod_mult_right_eq)
  then show ?thesis by (simp add: power2_eq_square algebra_simps)
qed

lemma toy_revocation: "revocation_laws toy_btc honest_secp toy_ln"
proof -
  have "toy_val (x @ y) = (toy_val x + toy_val y) mod 7" for x y by (simp add: toy_val_def mod_simps)
  moreover have "mul_tweak honest_secp = mul_tweak toy_secp" "scalar_from_be_bytes honest_secp = scalar_from_be_bytes toy_secp"
    by (simp_all add: honest_secp_def)
  moreover have "x mod 7 = x" if "x = toy_val k" for x k using that by (simp add: toy_val_def)
  ultimately show ?thesis
    by (auto simp: revocation_laws_def derive_public_revocation_key_def toy_btc_def honest_fields toy_simps toy_ln_def bind_eq_Some_conv
        toy_square mod_simps split: if_splits) (simp add: power2_eq_square algebra_simps)
qed

lemma toy_punishing_laws: "punishing_laws toy_manager toy_cheated"
proof -
  have "own_points toy_cheated = toy_points 1" by (simp add: toy_cheated_def toy_channel_defs)
  moreover have "sighash_laws honest_secp" by (simp add: sighash_laws_def honest_secp_def toy_secp_def)
  moreover have "recovery_laws toy_manager"
    by (auto simp: recovery_laws_def toy_manager_def honest_secp_def toy_secp_def) (simp add: toy_val_def)
  moreover have "open_chain (cm_base toy_manager)" "store_answers toy_manager"
    using toy_closing_laws by (simp_all add: closing_laws_def)
  ultimately show ?thesis
    using toy_derivation toy_revocation toy_ms_laws
    by (simp add: punishing_laws_def toy_manager_def toy_points_def knows_def honest_fields toy_simps) (simp add: toy_ms_def inj_def)
qed

lemma revoked_buffer_is_punished_witness:
  "\<exists>r st' ptx. process_watched_tx toy_manager toy_cheat \<lparr>watched_channel = [1],
      tx_type = RevokedTx 9 (toy_key 1 @ toy_key 2) True RevokedBuffer\<rparr> toy_cheated coin_state = Some (r, st') \<and>
    broadcast st' = broadcast coin_state @ [ptx] \<and> map txo_value (tx_output ptx) = [104560] \<and>
    map witness (tx_input ptx) = [[[1]]]"
proof -
  have X: "cm_btc toy_manager = toy_btc" "cm_secp toy_manager = honest_secp" "cm_ms toy_manager = toy_ms" "cm_ln toy_manager = toy_ln"
    "cm_keys toy_manager = toy_keys" "cm_sat_per_1000_weight toy_manager = 500" "new_address (cm_world toy_manager) = Inr (replicate 22 0)"
    by (simp_all add: toy_manager_def coin_manager_def toy_wallet_def)
  have ch: "sch_channel_id toy_cheated = [1]" "counter_secrets toy_cheated = 9 # toy_key 4" "own_per_update_seed toy_cheated = toy_key 5"
    "own_points toy_cheated = toy_points 1" "counter_points toy_cheated = toy_points 4"
    by (simp_all add: toy_cheated_def toy_channel_defs)
  have pts: "revocation_basepoint (toy_points 1) = toy_key 2" "revocation_basepoint (toy_points 4) = toy_key 5" by (simp_all add: toy_points_def)
  have secret: "get_secret toy_ln (9 # toy_key 4) 9 = Some (toy_key 4)" "sk_from_slice honest_secp (toy_key 4) = Inr (toy_key 4)"
    by (simp_all add: toy_ln_def honest_fields toy_simps)
  have point: "update_point honest_secp toy_ln (toy_key 5) 9 = Some (toy_key 3)"
    by (simp add: update_point_def toy_update_secret honest_fields toy_simps)
  have pk: "pk_of honest_secp (toy_key 4) = toy_key 4" by (simp add: honest_fields toy_simps)
  have dec: "adaptor_decrypt honest_secp (toy_key 1 @ toy_key 2) x = Inr (toy_key 1)" "serialize_der honest_secp y = y" for x y
    by (simp_all add: honest_secp_def toy_secp_def) (simp add: toy_key_def)
  have published: "published_with honest_secp toy_cheated toy_cheat (toy_key 1 @ toy_key 2) (publish_pk toy_accept_rev)"
    unfolding published_with_def
    by (rule exI[of _ "hd (tx_input toy_cheat)"], rule exI[of _ "[]"], rule exI[of _ "toy_key 2"], rule exI[of _ "toy_key 1"])
       (simp add: dec toy_cheat_def own_position_def toy_accept_rev_def honest_fields toy_simps del: One_nat_def)
  have fee: "punish_fee toy_btc 758 (replicate 22 0) 2 = 440" by (simp add: punish_fee_def toy_btc_def)
  have out: "tx_output toy_cheat = [\<lparr>txo_value = 105000, script_pubkey = [0, 32]\<rparr>]" by (simp add: toy_cheat_def toy_tx_def)
  have bounds: "793 + var_int_size toy_btc (length (replicate 22 (0::nat))) + length (replicate 22 (0::nat)) * 4 < 2 ^ 53" by (simp add: toy_btc_def)
  from revoked_buffer_is_punished[of toy_manager toy_cheated 9 "toy_key 4" "toy_key 4" "toy_key 5" "toy_key 3" toy_offer_rev toy_accept_rev _ True
      toy_cheat "toy_key 1 @ toy_key 2" _ _ "replicate 22 0" coin_state, unfolded X ch pts pk, OF toy_punishing_laws secret _ point toy_params refl _ published out _ _ _ refl bounds]
  show ?thesis by (auto simp: fee toy_keys_def toy_ms_def punishes_with_def Let_def split: if_splits)
qed

end
