(* ===== verification/ChannelFailures.thy ===== *)
theory ChannelFailures
  imports ChannelPunish
begin

text \<open>
  Where the handling of channels fails: transactions that are seen while an update is pending, and offers to close a channel
  together at the wrong time.
\<close>

section \<open>Establishing a channel\<close>

lemma accept_channel_offer_never_ok: "accept_channel_offer B S M K N W P ch oc \<noteq> pok r"
  using create_channel_transactions_never_ok by (auto simp: accept_channel_offer_def bind_eq_Some_conv)

lemma verify_accepted_channel_never_ok: "verify_and_sign_accepted_channel B S M K N W P ch oc m sq mon \<noteq> pok r"
  using create_channel_transactions_never_ok by (auto simp: verify_and_sign_accepted_channel_def bind_eq_Some_conv Let_def)

text \<open>C10: No channel is ever established: accepting an offered channel never succeeds, and neither does the verification of an
  acceptance by the party that offered it, since the fund transaction is never created.\<close>

theorem no_channel_is_established:
  "accept_channel X i st \<noteq> Some (Inr r, st') \<and> on_accept_channel X m peer st \<noteq> Some (Inr s, st'')"
  using accept_channel_offer_never_ok verify_accepted_channel_never_ok
  by (auto simp: accept_channel_def on_accept_channel_def mbind_Inr mlift_Inr mcatch_def with_monitor_def mfail_def
      split: if_splits option.splits sum.splits)

section \<open>Transactions seen while an update is pending\<close>

lemma signed_channel_found:
  "ch_get (cm_channels X) (contract_db st) i = Inr (Some (ChSigned ch)) \<Longrightarrow> signed_channel_of X i None st = Some (Inr ch, st)"
  by (simp add: signed_channel_of_def get_channel_in_state_def mbind_def store_read_def mlift_def mret_def)

lemma no_contract_id:
  "get_type s \<in> {SettledOfferedT, SettledReceivedT, SettledAcceptedT, SettledConfirmedT, SettledT, CollaborativeCloseOfferedT} \<longleftrightarrow>
   state_contract_id s = None"
  by (cases s) (simp_all add: state_contract_id_def)

text \<open>C9: When the counterparty publishes the buffer transaction of a channel that has an offer to settle or to close pending, so
  that its state names no contract, the check of the watched transactions panics instead of closing the channel.\<close>

theorem buffer_of_pending_channel_panics:
  assumes "confirmed_txs (monitor st) = (tx, info) # rest" "tx_type info = BufferTx"
    "ch_get (cm_channels X) (contract_db st) (watched_channel info) = Inr (Some (ChSigned ch))"
    "get_type (sch_state ch) \<in> {SettledOfferedT, SettledReceivedT, SettledAcceptedT, SettledConfirmedT, SettledT, CollaborativeCloseOfferedT}"
  shows "check_for_watched_tx X st = None"
proof -
  have "signed_channel_contract_id ch = None" using assms(4) no_contract_id by (simp add: signed_channel_contract_id_def)
  then have "process_watched_tx X tx info ch st = None"
    using assms(2) by (simp add: process_watched_tx_def on_buffer_tx_def mbind_def munwrap_def)
  then have "process_watched_txs X ((tx, info) # rest) st = None"
    using signed_channel_found[OF assms(3)] by (simp add: process_watched_txs_def mbind_def)
  then show ?thesis using assms(1) by (simp add: check_for_watched_tx_def mbind_def)
qed

section \<open>Offers to close together\<close>

lemma close_offer_taken:
  assumes "roll_back_state ch = None" "fund_value ch = Some v"
    "collateral (own_params ch) + collateral (counter_params ch) < u64_bound"
    "co_counter_payout m \<le> collateral (own_params ch) + collateral (counter_params ch)" "unix_time_now W + t < u64_bound"
  shows "\<exists>s. updater_on_collaborative_close_offer B W ch m t = pok (enter_state s ch) \<and> get_type s = CollaborativeCloseOfferedT"
  using assms
  by (cases "sch_state ch") (auto simp: updater_on_collaborative_close_offer_def u64_add_def signed_channel_keys_id_def Let_def not_less)

text \<open>C8: An offer to close together is also taken while the channel is closing: the transaction of the contract is then never
  broadcast, since the channel is not closing any more, and forcing it closed is refused, since the state before was closing.\<close>

theorem close_offer_stops_closing:
  assumes "get_type (sch_state ch) = ClosingT" "roll_back_state ch = None" "fund_value ch = Some v"
    "collateral (own_params ch) + collateral (counter_params ch) < u64_bound"
    "co_counter_payout m \<le> collateral (own_params ch) + collateral (counter_params ch)" "unix_time_now W + t < u64_bound"
  shows "\<exists>ch' e. updater_on_collaborative_close_offer B W ch m t = pok ch' \<and>
    try_finalize_closing_established_channel X ch' st = Some (Inl e, st) \<and>
    force_close_channel_internal X ch' b st = Some (Inl (InvalidState ''Channel is already closing.''), st)"
proof -
  obtain s where s: "updater_on_collaborative_close_offer B W ch m t = pok (enter_state s ch)" "get_type s = CollaborativeCloseOfferedT"
    using close_offer_taken[of ch v m W t] assms by auto
  have "force_close_channel_internal X (enter_state s ch) b st = Some (Inl (InvalidState ''Channel is already closing.''), st)"
    using s(2) assms(1) by (simp add: force_close_channel_internal.simps enter_state_def Let_def)
  moreover have "\<exists>e. try_finalize_closing_established_channel X (enter_state s ch) st = Some (Inl e, st)"
    using s(2) by (simp add: try_finalize_closing_established_channel_def mstate_def get_signed_channel_state_def is_of_type_def
        enter_state_def)
  ultimately show ?thesis using s(1) by blast
qed

text \<open>
  The accepting party of a renewal keeps the state to roll back to, so that it refuses every offer to close together, and takes
  itself for the offering party.
\<close>

lemma renewal_keeps_rollback:
  assumes "renew_channel_on_revoke S N ch m = pok ch'" "roll_back_state ch \<noteq> None"
  shows "updater_on_collaborative_close_offer B W ch' offer t \<noteq> pok ch''" "ss_is_offer (sch_state ch')"
  using assms
  by (auto simp: renew_channel_on_revoke_def updater_on_collaborative_close_offer_def Let_def bind_eq_Some_conv split: if_splits)

text \<open>Offering to close together while an update is pending loses the state to roll back to: forcing the channel closed panics.\<close>

lemma close_offer_while_pending_panics:
  assumes "updater_offer_collaborative_close B S W ch pay = pok (m, tx, ch')" "\<not> agreed (sch_state ch)"
  shows "force_close_channel_internal X ch' b st = None"
proof (rule nothing_to_enforce_panics)
  obtain s where "ch' = enter_state s ch" "get_type s = CollaborativeCloseOfferedT" using close_offer_enters[OF assms(1)] by blast
  then show "enforced_state ch' = None" using assms(2) by (simp add: enforced_state_def base_state_def enter_state_def)
qed

text \<open>A renewal watches the revoked transaction always as of the accepting party, also when the local party offered it.\<close>

lemma renewal_watches_as_accepting:
  assumes "revoked_by_renewal X ch p st = Some (Inr (t, tx, c), st')"
  shows "\<exists>i sig kind. t = RevokedTx i sig False kind"
  using assms by (auto simp: revoked_by_renewal_def mbind_def split: option.splits SignedChannelStateType.splits sum.splits)

section \<open>Instances\<close>

text \<open>The buffer transaction of the channel is watched and seen in a block while the own offer to settle is pending.\<close>

definition toy_watching :: "(bytes \<times> bytes) list db mgr_state" where
  "toy_watching = coin_state\<lparr>monitor :=
     process_tx toy_btc (watch toy_btc (toy_tx [105000]) [1] BufferTx (new_monitor 0)) (toy_tx [105000])\<rparr>"

lemma buffer_of_pending_channel_panics_witness: "check_for_watched_tx toy_manager toy_watching = None"
proof -
  have "confirmed_txs (monitor toy_watching) = [(toy_tx [105000], \<lparr>watched_channel = [1], tx_type = BufferTx\<rparr>)]"
    by (simp add: toy_watching_def process_tx_def watch_def add_tx_def add_txo_def new_monitor_def new_watch_def confirmed_txs_def
        toy_tx_def toy_btc_def Let_def)
  moreover have "get_type (sch_state toy_a1) = SettledOfferedT" by (simp add: toy_a1_def enter_state_def)
  moreover have "ch_get (cm_channels toy_manager) (contract_db toy_watching) [1] = Inr (Some (ChSigned toy_a1))"
    by (simp add: toy_manager_def toy_store_def)
  ultimately show ?thesis
    using buffer_of_pending_channel_panics[of toy_watching "toy_tx [105000]" "\<lparr>watched_channel = [1], tx_type = BufferTx\<rparr>" "[]"
        toy_manager toy_a1] by simp
qed

definition toy_closing :: SignedChannel where
  "toy_closing = toy_a\<lparr>sch_state := Closing (toy_tx [105000]) [7] True (toy_key 1)\<rparr>"

lemma close_offer_stops_closing_witness:
  "\<exists>ch' e. updater_on_collaborative_close_offer toy_btc toy_wallet toy_closing
      \<lparr>co_channel_id = [1], co_counter_payout = 40000, co_close_signature = [1]\<rparr> PEER_TIMEOUT = pok ch' \<and>
    try_finalize_closing_established_channel toy_manager ch' coin_state = Some (Inl e, coin_state)"
proof -
  have "fund_value toy_closing = Some 110000" by (simp add: fund_value_def toy_closing_def toy_a_def toy_tx_def)
  from close_offer_stops_closing[OF _ _ this, of "\<lparr>co_channel_id = [1], co_counter_payout = 40000, co_close_signature = [1]\<rparr>"
      toy_wallet PEER_TIMEOUT toy_btc toy_manager coin_state True]
  show ?thesis by (auto simp: toy_closing_def toy_channel_defs sample_party_def PEER_TIMEOUT_def)
qed

end
