(* ===== verification/SledChannels.thy ===== *)
theory SledChannels
  imports SledStorage ChannelManager
begin

text \<open>
  The storage provider on the sled database for channels and the chain monitor, \<open>dlc-sled-storage-provider/src/lib.rs\<close>, and
  what it promises to the manager, as the locale \<open>channel_store\<close>. A channel is stored behind a prefix of its kind, a signed one
  behind a second one of its state, and it is written together with its contract in one transaction on two trees.
\<close>

section \<open>What an upsert does\<close>

text \<open>A channel that gets its final id, by being accepted or signed, leaves its temporary one.\<close>

fun channel_leaves_temporary_id :: "Channel \<Rightarrow> bytes option" where
  "channel_leaves_temporary_id (ChAccepted c) = channel_temporary_id (ChAccepted c)"
| "channel_leaves_temporary_id (ChSigned c) = channel_temporary_id (ChSigned c)"
| "channel_leaves_temporary_id c = None"

definition channel_updated :: "(bytes \<Rightarrow> Channel option) \<Rightarrow> Channel \<Rightarrow> bytes \<Rightarrow> Channel option" where
  "channel_updated m ch = (case channel_leaves_temporary_id ch of Some i \<Rightarrow> m(i := None) | None \<Rightarrow> m)(channel_get_id ch \<mapsto> ch)"

section \<open>The contract between manager and store of channels\<close>

locale channel_store =
  fixes channels :: "'e \<Rightarrow> 's ChannelStore"
    and lawful :: "'e \<Rightarrow> 's \<Rightarrow> bool"
    and view :: "'e \<Rightarrow> 's \<Rightarrow> bytes \<Rightarrow> Channel option"
  assumes get: "lawful e s \<Longrightarrow> ch_get (channels e) s i = Inr r \<Longrightarrow> r = view e s i"
    and upsert: "lawful e s \<Longrightarrow> ch_upsert (channels e) s ch c = pok s' \<Longrightarrow> lawful e s' \<and> view e s' = channel_updated (view e s) ch"
    and delete: "lawful e s \<Longrightarrow> ch_delete (channels e) s i = Inr s' \<Longrightarrow> lawful e s' \<and> view e s' = (view e s)(i := None)"
    and signed: "lawful e s \<Longrightarrow> ch_get_signed (channels e) s t = pok chs \<Longrightarrow>
      sc \<in> set chs \<longleftrightarrow> (\<exists>i. view e s i = Some (ChSigned sc)) \<and> (\<forall>t' \<in> set_option t. get_type (sch_state sc) = t')"
    and offered: "lawful e s \<Longrightarrow> ch_get_offered (channels e) s = pok ochs \<Longrightarrow> och \<in> set ochs \<longleftrightarrow> (\<exists>i. view e s i = Some (ChOffered och))"
    and persist: "lawful e s \<Longrightarrow> ch_persist_monitor (channels e) s m = Inr s' \<Longrightarrow> lawful e s' \<and> view e s' = view e s \<and>
      (\<forall>r. ch_get_monitor (channels e) s' = Inr r \<longrightarrow> r = Some m)"
begin

lemma found_after_upsert:
  "lawful e s \<Longrightarrow> ch_upsert (channels e) s ch c = pok s' \<Longrightarrow> ch_get (channels e) s' (channel_get_id ch) = Inr r \<Longrightarrow> r = Some ch"
  using get upsert by (fastforce simp: channel_updated_def)

text \<open>What every channel of a store satisfies is kept by an upsert of a channel that satisfies it.\<close>

lemma upsert_keeps_all:
  assumes "lawful e s" "ch_upsert (channels e) s ch c = pok s'" "Q ch" "\<And>i x. view e s i = Some x \<Longrightarrow> Q x"
  shows "view e s' i = Some x \<Longrightarrow> Q x"
  using upsert[OF assms(1,2)] assms(3,4) by (auto simp: channel_updated_def split: if_splits option.splits)

end

section \<open>Prefixes\<close>

definition CHANNEL_TREE :: nat where "CHANNEL_TREE = 2"
definition CHAIN_MONITOR_TREE :: nat where "CHAIN_MONITOR_TREE = 3"
definition CHAIN_MONITOR_KEY :: nat where "CHAIN_MONITOR_KEY = 4"

lemma channel_trees_distinct [simp]:
  "CHANNEL_TREE \<noteq> CHAIN_MONITOR_TREE" "CHAIN_MONITOR_TREE \<noteq> CHANNEL_TREE" "CONTRACT_TREE \<noteq> CHANNEL_TREE" "CHANNEL_TREE \<noteq> CONTRACT_TREE"
  "CONTRACT_TREE \<noteq> CHAIN_MONITOR_TREE"
  by (simp_all add: CHANNEL_TREE_def CHAIN_MONITOR_TREE_def CONTRACT_TREE_def)

datatype ChannelPrefix = ChOfferedPrefix | ChAcceptedPrefix | ChSignedPrefix | ChClosingPrefix | ChClosedPrefix | ChCounterClosedPrefix
  | ChClosedPunishedPrefix | ChCollaborativelyClosedPrefix | ChFailedAcceptPrefix | ChFailedSignPrefix | ChCancelledPrefix

definition all_channel_prefixes :: "ChannelPrefix list" where
  "all_channel_prefixes = [ChOfferedPrefix, ChAcceptedPrefix, ChSignedPrefix, ChClosingPrefix, ChClosedPrefix, ChCounterClosedPrefix,
     ChClosedPunishedPrefix, ChCollaborativelyClosedPrefix, ChFailedAcceptPrefix, ChFailedSignPrefix, ChCancelledPrefix]"

fun channel_prefix_u8 :: "ChannelPrefix \<Rightarrow> nat" where
  "channel_prefix_u8 ChOfferedPrefix = 100"
| "channel_prefix_u8 ChAcceptedPrefix = 101"
| "channel_prefix_u8 ChSignedPrefix = 102"
| "channel_prefix_u8 ChClosingPrefix = 103"
| "channel_prefix_u8 ChClosedPrefix = 104"
| "channel_prefix_u8 ChCounterClosedPrefix = 105"
| "channel_prefix_u8 ChClosedPunishedPrefix = 106"
| "channel_prefix_u8 ChCollaborativelyClosedPrefix = 107"
| "channel_prefix_u8 ChFailedAcceptPrefix = 108"
| "channel_prefix_u8 ChFailedSignPrefix = 109"
| "channel_prefix_u8 ChCancelledPrefix = 110"

definition channel_prefix_try_from :: "nat \<Rightarrow> Error + ChannelPrefix" where
  "channel_prefix_try_from v = ok_or (StorageError ''Unknown prefix'') (List.find (\<lambda>p. v = channel_prefix_u8 p) all_channel_prefixes)"

fun channel_prefix_of :: "Channel \<Rightarrow> ChannelPrefix" where
  "channel_prefix_of (ChOffered _) = ChOfferedPrefix"
| "channel_prefix_of (ChAccepted _) = ChAcceptedPrefix"
| "channel_prefix_of (ChSigned _) = ChSignedPrefix"
| "channel_prefix_of (ChClosing _) = ChClosingPrefix"
| "channel_prefix_of (ChClosed _) = ChClosedPrefix"
| "channel_prefix_of (ChCounterClosed _) = ChCounterClosedPrefix"
| "channel_prefix_of (ChClosedPunished _) = ChClosedPunishedPrefix"
| "channel_prefix_of (ChCollaborativelyClosed _) = ChCollaborativelyClosedPrefix"
| "channel_prefix_of (ChFailedAccept _) = ChFailedAcceptPrefix"
| "channel_prefix_of (ChFailedSign _) = ChFailedSignPrefix"
| "channel_prefix_of (ChCancelled _) = ChCancelledPrefix"

text \<open>The second prefix of a signed channel.\<close>

fun signed_prefix_u8 :: "SignedChannelStateType \<Rightarrow> nat" where
  "signed_prefix_u8 EstablishedT = 1"
| "signed_prefix_u8 SettledOfferedT = 2"
| "signed_prefix_u8 SettledReceivedT = 3"
| "signed_prefix_u8 SettledAcceptedT = 4"
| "signed_prefix_u8 SettledConfirmedT = 5"
| "signed_prefix_u8 SettledT = 6"
| "signed_prefix_u8 ClosingT = 7"
| "signed_prefix_u8 CollaborativeCloseOfferedT = 8"
| "signed_prefix_u8 RenewAcceptedT = 9"
| "signed_prefix_u8 RenewOfferedT = 10"
| "signed_prefix_u8 RenewConfirmedT = 11"
| "signed_prefix_u8 RenewFinalizedT = 12"

lemma channel_prefix_round_trip [simp]: "channel_prefix_try_from (channel_prefix_u8 p) = Inr p"
  by (cases p) (simp_all add: channel_prefix_try_from_def all_channel_prefixes_def)

lemma channel_prefix_u8_inject [simp]: "channel_prefix_u8 p = channel_prefix_u8 q \<longleftrightarrow> p = q"
  using channel_prefix_round_trip by (metis sum.inject(2))

lemma signed_prefix_u8_inject [simp]: "signed_prefix_u8 s = signed_prefix_u8 t \<longleftrightarrow> s = t"
  by (cases s; cases t) simp_all

section \<open>Channels as bytes\<close>

record channel_codec =
  ser_offered_channel :: "OfferedChannel \<Rightarrow> string + bytes"
  ser_accepted_channel :: "AcceptedChannel \<Rightarrow> string + bytes"
  ser_signed_channel :: "SignedChannel \<Rightarrow> string + bytes"
  ser_failed_accept_channel :: "FailedAcceptChannel \<Rightarrow> string + bytes"
  ser_failed_sign_channel :: "FailedSignChannel \<Rightarrow> string + bytes"
  ser_closing_channel :: "ClosingChannel \<Rightarrow> string + bytes"
  ser_closed_channel :: "ClosedChannel \<Rightarrow> string + bytes"
  ser_punished_channel :: "ClosedPunishedChannel \<Rightarrow> string + bytes"
  ser_monitor :: "ChainMonitor \<Rightarrow> string + bytes"
  de_offered_channel :: "bytes \<Rightarrow> string + OfferedChannel"
  de_accepted_channel :: "bytes \<Rightarrow> string + AcceptedChannel"
  de_signed_channel :: "bytes \<Rightarrow> string + SignedChannel"
  de_failed_accept_channel :: "bytes \<Rightarrow> string + FailedAcceptChannel"
  de_failed_sign_channel :: "bytes \<Rightarrow> string + FailedSignChannel"
  de_closing_channel :: "bytes \<Rightarrow> string + ClosingChannel"
  de_closed_channel :: "bytes \<Rightarrow> string + ClosedChannel"
  de_punished_channel :: "bytes \<Rightarrow> string + ClosedPunishedChannel"
  de_monitor :: "bytes \<Rightarrow> string + ChainMonitor"

definition channel_codec_laws :: "channel_codec \<Rightarrow> bool" where
  "channel_codec_laws C \<longleftrightarrow> reads_back (ser_offered_channel C) (de_offered_channel C) \<and>
     reads_back (ser_accepted_channel C) (de_accepted_channel C) \<and> reads_back (ser_signed_channel C) (de_signed_channel C) \<and>
     reads_back (ser_failed_accept_channel C) (de_failed_accept_channel C) \<and>
     reads_back (ser_failed_sign_channel C) (de_failed_sign_channel C) \<and> reads_back (ser_closing_channel C) (de_closing_channel C) \<and>
     reads_back (ser_closed_channel C) (de_closed_channel C) \<and> reads_back (ser_punished_channel C) (de_punished_channel C) \<and>
     reads_back (ser_monitor C) (de_monitor C)"

fun serialize_channel_payload :: "channel_codec \<Rightarrow> Channel \<Rightarrow> string + bytes" where
  "serialize_channel_payload C (ChOffered c) = ser_offered_channel C c"
| "serialize_channel_payload C (ChAccepted c) = ser_accepted_channel C c"
| "serialize_channel_payload C (ChSigned c) = ser_signed_channel C c"
| "serialize_channel_payload C (ChFailedAccept c) = ser_failed_accept_channel C c"
| "serialize_channel_payload C (ChFailedSign c) = ser_failed_sign_channel C c"
| "serialize_channel_payload C (ChClosing c) = ser_closing_channel C c"
| "serialize_channel_payload C (ChClosed c) = ser_closed_channel C c"
| "serialize_channel_payload C (ChCounterClosed c) = ser_closed_channel C c"
| "serialize_channel_payload C (ChCollaborativelyClosed c) = ser_closed_channel C c"
| "serialize_channel_payload C (ChClosedPunished c) = ser_punished_channel C c"
| "serialize_channel_payload C (ChCancelled c) = ser_offered_channel C c"

fun channel_prefixes :: "Channel \<Rightarrow> bytes" where
  "channel_prefixes (ChSigned c) = [channel_prefix_u8 ChSignedPrefix, signed_prefix_u8 (get_type (sch_state c))]"
| "channel_prefixes c = [channel_prefix_u8 (channel_prefix_of c)]"

definition serialize_channel :: "channel_codec \<Rightarrow> Channel \<Rightarrow> Error + bytes" where
  "serialize_channel C ch = rbind (map_sum IOError id (serialize_channel_payload C ch)) (\<lambda>b. Inr (channel_prefixes ch @ b))"

fun deserialize_channel_payload :: "channel_codec \<Rightarrow> ChannelPrefix \<Rightarrow> bytes \<Rightarrow> string + Channel" where
  "deserialize_channel_payload C ChOfferedPrefix b = map_sum id ChOffered (de_offered_channel C b)"
| "deserialize_channel_payload C ChAcceptedPrefix b = map_sum id ChAccepted (de_accepted_channel C b)"
| "deserialize_channel_payload C ChSignedPrefix b = map_sum id ChSigned (de_signed_channel C (drop 1 b))"
| "deserialize_channel_payload C ChFailedAcceptPrefix b = map_sum id ChFailedAccept (de_failed_accept_channel C b)"
| "deserialize_channel_payload C ChFailedSignPrefix b = map_sum id ChFailedSign (de_failed_sign_channel C b)"
| "deserialize_channel_payload C ChClosingPrefix b = map_sum id ChClosing (de_closing_channel C b)"
| "deserialize_channel_payload C ChClosedPrefix b = map_sum id ChClosed (de_closed_channel C b)"
| "deserialize_channel_payload C ChCollaborativelyClosedPrefix b = map_sum id ChCollaborativelyClosed (de_closed_channel C b)"
| "deserialize_channel_payload C ChCounterClosedPrefix b = map_sum id ChCounterClosed (de_closed_channel C b)"
| "deserialize_channel_payload C ChClosedPunishedPrefix b = map_sum id ChClosedPunished (de_punished_channel C b)"
| "deserialize_channel_payload C ChCancelledPrefix b = map_sum id ChCancelled (de_offered_channel C b)"

fun deserialize_channel :: "channel_codec \<Rightarrow> bytes \<Rightarrow> Error + Channel" where
  "deserialize_channel C [] = Inl (IOError ''failed to fill whole buffer'')"
| "deserialize_channel C (b # rest) = rbind (channel_prefix_try_from b) (\<lambda>p. to_storage_error (deserialize_channel_payload C p rest))"

lemma channel_reads_back:
  assumes "channel_codec_laws C" "serialize_channel C ch = Inr b"
  shows "deserialize_channel C b = Inr ch"
proof -
  obtain payload where "serialize_channel_payload C ch = Inr payload" "b = channel_prefixes ch @ payload"
    using assms(2) by (cases "serialize_channel_payload C ch") (auto simp: serialize_channel_def)
  then show ?thesis using assms(1)
    by (cases ch) (simp_all add: channel_codec_laws_def reads_back_def del: channel_prefix_u8.simps)
qed

section \<open>The operations of the provider\<close>

text \<open>The transaction on the trees of channels and contracts.\<close>

record 't channel_provider =
  cp_contracts :: "'t provider"
  cp_codec :: channel_codec
  sled_transaction_pair :: "'t \<Rightarrow> 't \<Rightarrow> tree_op list \<Rightarrow> tree_op list \<Rightarrow> string + 't \<times> 't"

abbreviation "cp_sled P \<equiv> fst (cp_contracts P)"

definition upsert_ops :: "Channel \<Rightarrow> bytes \<Rightarrow> tree_op list" where
  "upsert_ops ch b = (case channel_leaves_temporary_id ch of Some i \<Rightarrow> [TreeRemove i] | None \<Rightarrow> []) @ [TreeInsert (channel_get_id ch) b]"

definition contract_ops :: "btc \<Rightarrow> contract_codec \<Rightarrow> Contract option \<Rightarrow> bytes option \<Rightarrow> tree_op list option" where
  "contract_ops B C c_opt b_opt = (case c_opt of None \<Rightarrow> Some []
   | Some c \<Rightarrow> obind b_opt (\<lambda>b. obind (get_id B c) (\<lambda>i. Some (update_ops c i b))))"

definition sled_upsert_channel :: "btc \<Rightarrow> 't channel_provider \<Rightarrow> 't db \<Rightarrow> Channel \<Rightarrow> Contract option \<Rightarrow> (Error + 't db) option" where
  "sled_upsert_channel B P db ch c_opt =
     pbind (Some (serialize_channel (cp_codec P) ch)) (\<lambda>b.
     pbind (Some (case c_opt of Some c \<Rightarrow> rbind (serialize_contract (snd (cp_contracts P)) c) (\<lambda>x. Inr (Some x)) | None \<Rightarrow> Inr None)) (\<lambda>b_opt.
     pbind (Some (open_tree (cp_sled P) db CHANNEL_TREE)) (\<lambda>t.
     pbind (Some (open_tree (cp_sled P) db CONTRACT_TREE)) (\<lambda>tc.
     obind (contract_ops B (snd (cp_contracts P)) c_opt b_opt) (\<lambda>ops.
     pbind (Some (to_storage_error (sled_transaction_pair P t tc (upsert_ops ch b) ops))) (\<lambda>(t', tc').
     pok (db(CHANNEL_TREE := t', CONTRACT_TREE := tc'))))))))"

definition sled_delete_channel :: "'t channel_provider \<Rightarrow> 't db \<Rightarrow> bytes \<Rightarrow> Error + 't db" where
  "sled_delete_channel P db i =
     rbind (open_tree (cp_sled P) db CHANNEL_TREE) (\<lambda>t.
     rbind (to_storage_error (sled_remove (cp_sled P) t i)) (\<lambda>t'. Inr (db(CHANNEL_TREE := t'))))"

definition sled_get_channel :: "'t channel_provider \<Rightarrow> 't db \<Rightarrow> bytes \<Rightarrow> Error + Channel option" where
  "sled_get_channel P db i =
     rbind (open_tree (cp_sled P) db CHANNEL_TREE) (\<lambda>t.
     rbind (to_storage_error (sled_get (cp_sled P) t i)) (\<lambda>r. case r of
       Some b \<Rightarrow> rbind (deserialize_channel (cp_codec P) b) (\<lambda>ch. Inr (Some ch))
     | None \<Rightarrow> Inr None))"

definition sled_get_signed_channels :: "'t channel_provider \<Rightarrow> 't db \<Rightarrow> SignedChannelStateType option \<Rightarrow> (Error + SignedChannel list) option" where
  "sled_get_signed_channels P db t_opt =
     (let (prefix, skip) = (case t_opt of
          Some t \<Rightarrow> ([channel_prefix_u8 ChSignedPrefix, signed_prefix_u8 t], None)
        | None \<Rightarrow> ([channel_prefix_u8 ChSignedPrefix], Some 1)) in
      pbind (Some (open_tree (cp_sled P) db CHANNEL_TREE)) (\<lambda>t.
      get_data_with_prefix (cp_sled P) t prefix skip (de_signed_channel (cp_codec P))))"

definition sled_get_offered_channels :: "'t channel_provider \<Rightarrow> 't db \<Rightarrow> (Error + OfferedChannel list) option" where
  "sled_get_offered_channels P db =
     pbind (Some (open_tree (cp_sled P) db CHANNEL_TREE)) (\<lambda>t.
     get_data_with_prefix (cp_sled P) t [channel_prefix_u8 ChOfferedPrefix] None (de_offered_channel (cp_codec P)))"

definition sled_persist_chain_monitor :: "'t channel_provider \<Rightarrow> 't db \<Rightarrow> ChainMonitor \<Rightarrow> Error + 't db" where
  "sled_persist_chain_monitor P db m =
     rbind (open_tree (cp_sled P) db CHAIN_MONITOR_TREE) (\<lambda>t.
     rbind (map_sum IOError id (ser_monitor (cp_codec P) m)) (\<lambda>b.
     rbind (map_sum (\<lambda>e. StorageError (''Error writing chain monitor: '' @ e)) id (sled_insert (cp_sled P) t [CHAIN_MONITOR_KEY] b)) (\<lambda>t'.
     Inr (db(CHAIN_MONITOR_TREE := t')))))"

definition sled_get_chain_monitor :: "'t channel_provider \<Rightarrow> 't db \<Rightarrow> Error + ChainMonitor option" where
  "sled_get_chain_monitor P db =
     rbind (open_tree (cp_sled P) db CHAIN_MONITOR_TREE) (\<lambda>t.
     rbind (map_sum (\<lambda>e. StorageError (''Error reading chain monitor: '' @ e)) id (sled_get (cp_sled P) t [CHAIN_MONITOR_KEY])) (\<lambda>r. case r of
       Some b \<Rightarrow> rbind (to_storage_error (de_monitor (cp_codec P) b)) (\<lambda>m. Inr (Some m))
     | None \<Rightarrow> Inr None))"

definition sled_channels :: "btc \<Rightarrow> 't channel_provider \<Rightarrow> 't db ChannelStore" where
  "sled_channels B P =
     \<lparr>ch_get = sled_get_channel P, ch_upsert = sled_upsert_channel B P, ch_delete = sled_delete_channel P,
      ch_get_signed = sled_get_signed_channels P, ch_get_offered = sled_get_offered_channels P,
      ch_persist_monitor = sled_persist_chain_monitor P, ch_get_monitor = sled_get_chain_monitor P\<rparr>"

section \<open>The provider keeps the contract\<close>

text \<open>A transaction on two trees applies all of its operations to both.\<close>

definition pair_laws :: "'t channel_provider \<Rightarrow> bool" where
  "pair_laws P \<longleftrightarrow> (\<forall>t tc xs ys t' tc'. sled_transaction_pair P t tc xs ys = Inr (t', tc') \<longrightarrow>
     sled_content (cp_sled P) t' = fold apply_op xs (sled_content (cp_sled P) t) \<and>
     sled_content (cp_sled P) tc' = fold apply_op ys (sled_content (cp_sled P) tc))"

definition provider_laws :: "'t channel_provider \<Rightarrow> bool" where
  "provider_laws P \<longleftrightarrow> sled_laws (cp_sled P) \<and> channel_codec_laws (cp_codec P) \<and> pair_laws P"

text \<open>The tree of channels holds what the provider wrote: every value is the encoding of a channel.\<close>

definition channels_written :: "'t channel_provider \<Rightarrow> 't db \<Rightarrow> bool" where
  "channels_written P db \<longleftrightarrow> (\<forall>i b. sled_content (cp_sled P) (db CHANNEL_TREE) i = Some b \<longrightarrow> (\<exists>ch. serialize_channel (cp_codec P) ch = Inr b))"

definition channel_view :: "'t channel_provider \<Rightarrow> 't db \<Rightarrow> bytes \<Rightarrow> Channel option" where
  "channel_view P db i = Option.bind (sled_content (cp_sled P) (db CHANNEL_TREE) i)
     (\<lambda>b. case deserialize_channel (cp_codec P) b of Inr ch \<Rightarrow> Some ch | Inl _ \<Rightarrow> None)"

lemma channel_view_cong: "db CHANNEL_TREE = db' CHANNEL_TREE \<Longrightarrow> channel_view P db = channel_view P db'"
  by (simp add: channel_view_def fun_eq_iff)

lemma channels_written_cong: "db CHANNEL_TREE = db' CHANNEL_TREE \<Longrightarrow> channels_written P db \<longleftrightarrow> channels_written P db'"
  by (simp add: channels_written_def)

lemma upserted_contents:
  "fold apply_op (upsert_ops ch b) m =
     (case channel_leaves_temporary_id ch of Some i \<Rightarrow> m(i := None) | None \<Rightarrow> m)(channel_get_id ch \<mapsto> b)"
  by (simp add: upsert_ops_def split: option.split)

lemma sled_upsert_pok:
  assumes "sled_upsert_channel B P db ch c_opt = pok db'"
  shows "\<exists>b ops t' tc'. serialize_channel (cp_codec P) ch = Inr b \<and> contract_ops B (snd (cp_contracts P)) c_opt
      (case c_opt of Some c \<Rightarrow> (case serialize_contract (snd (cp_contracts P)) c of Inr x \<Rightarrow> Some x | Inl _ \<Rightarrow> None) | None \<Rightarrow> None) = Some ops \<and>
    sled_transaction_pair P (db CHANNEL_TREE) (db CONTRACT_TREE) (upsert_ops ch b) ops = Inr (t', tc') \<and>
    db' = db(CHANNEL_TREE := t', CONTRACT_TREE := tc')"
  using assms by (auto simp: sled_upsert_channel_def bind_eq_Some_conv split: option.splits)

lemma sled_upsert_view:
  assumes "provider_laws P" "channels_written P db" "sled_upsert_channel B P db ch c_opt = pok db'"
  shows "channels_written P db' \<and> channel_view P db' = channel_updated (channel_view P db) ch"
proof -
  obtain b ops t' tc' where u: "serialize_channel (cp_codec P) ch = Inr b"
    "sled_transaction_pair P (db CHANNEL_TREE) (db CONTRACT_TREE) (upsert_ops ch b) ops = Inr (t', tc')"
    "db' = db(CHANNEL_TREE := t', CONTRACT_TREE := tc')" using sled_upsert_pok[OF assms(3)] by blast
  have t': "sled_content (cp_sled P) t' = fold apply_op (upsert_ops ch b) (sled_content (cp_sled P) (db CHANNEL_TREE))"
    using assms(1) u(2) unfolding provider_laws_def pair_laws_def by blast
  have "deserialize_channel (cp_codec P) b = Inr ch" using channel_reads_back[OF _ u(1)] assms(1) by (simp add: provider_laws_def)
  then show ?thesis using assms(2) u(1)
    by (auto simp: u(3) channels_written_def channel_view_def channel_updated_def t' upserted_contents fun_eq_iff split: option.split if_splits)
qed

text \<open>The contract that is written with the channel is updated as by \<open>update_contract\<close>.\<close>

lemma sled_upsert_contract:
  assumes "provider_laws P" "storage_codec_laws (snd (cp_contracts P))" "sled_upsert_channel B P db ch (Some c) = pok db'"
  shows "\<exists>i. get_id B c = Some i \<and> sled_view (cp_contracts P) db' = updated (sled_view (cp_contracts P) db) i c"
proof -
  obtain b ops t' tc' where u: "contract_ops B (snd (cp_contracts P)) (Some c)
      (case serialize_contract (snd (cp_contracts P)) c of Inr x \<Rightarrow> Some x | Inl _ \<Rightarrow> None) = Some ops"
    "sled_transaction_pair P (db CHANNEL_TREE) (db CONTRACT_TREE) (upsert_ops ch b) ops = Inr (t', tc')"
    "db' = db(CHANNEL_TREE := t', CONTRACT_TREE := tc')" using sled_upsert_pok[OF assms(3)] by auto
  obtain x i where x: "serialize_contract (snd (cp_contracts P)) c = Inr x" "get_id B c = Some i" "ops = update_ops c i x"
    using u(1) by (auto simp: contract_ops_def bind_eq_Some_conv split: sum.splits)
  have "sled_content (cp_sled P) tc' = fold apply_op ops (sled_content (cp_sled P) (db CONTRACT_TREE))"
    using assms(1) u(2) unfolding provider_laws_def pair_laws_def by blast
  then show ?thesis using x serialized_reads_back[OF assms(2) x(1)]
    by (auto simp: u(3) sled_view_def updated_def updated_contents fun_eq_iff)
qed

lemma sled_upsert_no_contract:
  assumes "provider_laws P" "sled_upsert_channel B P db ch None = pok db'"
  shows "sled_view (cp_contracts P) db' = sled_view (cp_contracts P) db"
proof -
  obtain b t' tc' where u: "sled_transaction_pair P (db CHANNEL_TREE) (db CONTRACT_TREE) (upsert_ops ch b) [] = Inr (t', tc')"
    "db' = db(CHANNEL_TREE := t', CONTRACT_TREE := tc')" using sled_upsert_pok[OF assms(2)] by (auto simp: contract_ops_def)
  have "sled_content (cp_sled P) tc' = sled_content (cp_sled P) (db CONTRACT_TREE)"
    using assms(1) u(1) unfolding provider_laws_def pair_laws_def by fastforce
  then show ?thesis by (simp add: u(2) sled_view_def fun_eq_iff)
qed

text \<open>The values that are read behind the prefixes of a channel.\<close>

lemma read_channel:
  assumes "channel_codec_laws C" "serialize_channel C ch = Inr b"
  shows "read_with_prefix [channel_prefix_u8 ChSignedPrefix, signed_prefix_u8 t] None (de_signed_channel C) b = Some sc \<longleftrightarrow>
      ch = ChSigned sc \<and> get_type (sch_state sc) = t"
    "read_with_prefix [channel_prefix_u8 ChSignedPrefix] (Some 1) (de_signed_channel C) b = Some sc \<longleftrightarrow> ch = ChSigned sc"
    "read_with_prefix [channel_prefix_u8 ChOfferedPrefix] None (de_offered_channel C) b = Some och \<longleftrightarrow> ch = ChOffered och"
proof -
  obtain payload where p: "serialize_channel_payload C ch = Inr payload" "b = channel_prefixes ch @ payload"
    using assms(2) by (cases "serialize_channel_payload C ch") (auto simp: serialize_channel_def)
  have "ch = ChSigned s \<Longrightarrow> de_signed_channel C payload = Inr s" "ch = ChOffered o' \<Longrightarrow> de_offered_channel C payload = Inr o'" for s o'
    using p(1) assms(1) by (auto simp: channel_codec_laws_def reads_back_def)
  then show "read_with_prefix [channel_prefix_u8 ChSignedPrefix, signed_prefix_u8 t] None (de_signed_channel C) b = Some sc \<longleftrightarrow>
      ch = ChSigned sc \<and> get_type (sch_state sc) = t"
    "read_with_prefix [channel_prefix_u8 ChSignedPrefix] (Some 1) (de_signed_channel C) b = Some sc \<longleftrightarrow> ch = ChSigned sc"
    "read_with_prefix [channel_prefix_u8 ChOfferedPrefix] None (de_offered_channel C) b = Some och \<longleftrightarrow> ch = ChOffered och"
    by (cases ch; auto simp: read_with_prefix_def p(2) simp del: channel_prefix_u8.simps signed_prefix_u8.simps)+
qed

text \<open>What a search by prefix finds is what is stored and read by it.\<close>

lemma found_channels:
  assumes "provider_laws P" "channels_written P db"
    "get_data_with_prefix (cp_sled P) (db CHANNEL_TREE) prefix skip de = pok xs"
    "\<And>ch b. serialize_channel (cp_codec P) ch = Inr b \<Longrightarrow> read_with_prefix prefix skip de b = Some x \<longleftrightarrow> Q ch"
  shows "x \<in> set xs \<longleftrightarrow> (\<exists>i ch. channel_view P db i = Some ch \<and> Q ch)"
proof -
  let ?m = "sled_content (cp_sled P) (db CHANNEL_TREE)"
  obtain vs where vs: "omap unwrap (sled_values (cp_sled P) (db CHANNEL_TREE)) = Some vs" "xs = List.map_filter (read_with_prefix prefix skip de) vs"
    using assms(3) by (auto simp: get_data_with_prefix_def bind_eq_Some_conv split: if_splits)
  have ran: "set vs = ran ?m" using sled_lawsD(5)[OF _ omap_unwrap[OF vs(1)]] assms(1) by (simp add: provider_laws_def)
  have read: "\<exists>ch. serialize_channel (cp_codec P) ch = Inr v \<and> deserialize_channel (cp_codec P) v = Inr ch" if "?m i = Some v" for i v
    using that assms(1,2) channel_reads_back by (fastforce simp: channels_written_def provider_laws_def)
  have one: "(\<exists>v. ?m i = Some v \<and> read_with_prefix prefix skip de v = Some x) \<longleftrightarrow> (\<exists>ch. channel_view P db i = Some ch \<and> Q ch)" for i
  proof (cases "?m i")
    case (Some v)
    then obtain ch where "serialize_channel (cp_codec P) ch = Inr v" "deserialize_channel (cp_codec P) v = Inr ch" using read by blast
    then show ?thesis using assms(4) Some by (simp add: channel_view_def)
  qed (simp add: channel_view_def)
  have "x \<in> set xs \<longleftrightarrow> (\<exists>i v. ?m i = Some v \<and> read_with_prefix prefix skip de v = Some x)"
    unfolding vs(2) by (auto simp: in_map_filter ran ran_def)
  also have "\<dots> \<longleftrightarrow> (\<exists>i ch. channel_view P db i = Some ch \<and> Q ch)"
    using one by blast
  finally show ?thesis .
qed

lemma sled_signed_channels:
  assumes "provider_laws P" "channels_written P db" "sled_get_signed_channels P db t_opt = pok chs"
  shows "sc \<in> set chs \<longleftrightarrow> (\<exists>i. channel_view P db i = Some (ChSigned sc)) \<and> (\<forall>t \<in> set_option t_opt. get_type (sch_state sc) = t)"
proof (cases t_opt)
  case None
  then have "get_data_with_prefix (cp_sled P) (db CHANNEL_TREE) [channel_prefix_u8 ChSignedPrefix] (Some 1) (de_signed_channel (cp_codec P)) = pok chs"
    using assms(3) by (auto simp: sled_get_signed_channels_def)
  from found_channels[OF assms(1,2) this, of sc "\<lambda>ch. ch = ChSigned sc"] show ?thesis
    using read_channel(2)[of "cp_codec P"] assms(1) None by (simp add: provider_laws_def del: channel_prefix_u8.simps)
next
  case (Some t)
  then have "get_data_with_prefix (cp_sled P) (db CHANNEL_TREE) [channel_prefix_u8 ChSignedPrefix, signed_prefix_u8 t] None
      (de_signed_channel (cp_codec P)) = pok chs" using assms(3) by (auto simp: sled_get_signed_channels_def)
  from found_channels[OF assms(1,2) this, of sc "\<lambda>ch. ch = ChSigned sc \<and> get_type (sch_state sc) = t"] show ?thesis
    using read_channel(1)[of "cp_codec P"] assms(1) Some by (auto simp: provider_laws_def simp del: channel_prefix_u8.simps)
qed

lemma sled_offered_channels:
  assumes "provider_laws P" "channels_written P db" "sled_get_offered_channels P db = pok ochs"
  shows "och \<in> set ochs \<longleftrightarrow> (\<exists>i. channel_view P db i = Some (ChOffered och))"
proof -
  have "get_data_with_prefix (cp_sled P) (db CHANNEL_TREE) [channel_prefix_u8 ChOfferedPrefix] None (de_offered_channel (cp_codec P)) = pok ochs"
    using assms(3) by (auto simp: sled_get_offered_channels_def)
  from found_channels[OF assms(1,2) this, of och "\<lambda>ch. ch = ChOffered och"] show ?thesis
    using read_channel(3)[of "cp_codec P"] assms(1) by (simp add: provider_laws_def del: channel_prefix_u8.simps)
qed

interpretation sled_ch: channel_store "\<lambda>E. sled_channels (fst E) (snd E)"
  "\<lambda>E db. provider_laws (snd E) \<and> channels_written (snd E) db" "\<lambda>E. channel_view (snd E)"
proof (unfold_locales, goal_cases)
  case (1 E s i r)
  then show ?case using sled_lawsD(1)[of "cp_sled (snd E)"]
    by (fastforce simp: provider_laws_def sled_channels_def sled_get_channel_def channel_view_def split: option.splits)
next
  case (2 E s ch c s')
  then have "sled_upsert_channel (fst E) (snd E) s ch c = pok s'" by (simp add: sled_channels_def)
  from sled_upsert_view[OF _ _ this] show ?case using 2(1) by simp
next
  case (3 E s i s')
  then obtain t' where "sled_remove (cp_sled (snd E)) (s CHANNEL_TREE) i = Inr t'" "s' = s(CHANNEL_TREE := t')"
    by (auto simp: sled_channels_def sled_delete_channel_def)
  then show ?case using 3(1) sled_lawsD(3)[of "cp_sled (snd E)" "s CHANNEL_TREE" i t']
    by (simp add: provider_laws_def channel_view_def channels_written_def fun_eq_iff)
next
  case (4 E s t chs sc)
  then show ?case using sled_signed_channels[of "snd E"] by (simp add: sled_channels_def)
next
  case (5 E s ochs och)
  then show ?case using sled_offered_channels[of "snd E"] by (simp add: sled_channels_def)
next
  case (6 E s m s')
  let ?P = "snd E"
  obtain b t' where b: "ser_monitor (cp_codec ?P) m = Inr b" "sled_insert (cp_sled ?P) (s CHAIN_MONITOR_TREE) [CHAIN_MONITOR_KEY] b = Inr t'"
    "s' = s(CHAIN_MONITOR_TREE := t')"
    using 6(2) by (auto simp: sled_channels_def sled_persist_chain_monitor_def map_sum_Inr)
  have same: "s' CHANNEL_TREE = s CHANNEL_TREE" by (simp add: b(3))
  have "de_monitor (cp_codec ?P) b = Inr m" using b(1) 6(1) by (simp add: provider_laws_def channel_codec_laws_def reads_back_def)
  moreover have "r = Some b" if "sled_get (cp_sled ?P) t' [CHAIN_MONITOR_KEY] = Inr r" for r
    using sled_lawsD(1)[OF _ that] sled_lawsD(2)[OF _ b(2)] 6(1) by (simp add: provider_laws_def)
  ultimately have "r = Some m" if "ch_get_monitor (sled_channels (fst E) ?P) s' = Inr r" for r
    using that by (auto simp: sled_channels_def sled_get_chain_monitor_def map_sum_Inr b(3) split: option.splits)
  then show ?case using 6(1) channel_view_cong[where db = s' and db' = s and P = "snd E"] channels_written_cong[where db = s' and db' = s and P = "snd E"] same by simp
qed

end
