(* ===== verification/SledChannelsSpec.thy ===== *)
theory SledChannelsSpec
  imports SledChannels ChannelManagerSpec
begin

text \<open>
  What the store of channels and the manager give together: an upsert is one update of the channels and the contracts, and the
  manager closes the stored channels whose counterparty did not answer in time.
\<close>

section \<open>The store\<close>

text \<open>C7: Writing a channel with its contract is one update of two maps: the channel is found under its id and has left its temporary
  one when it was accepted or signed, the contract is updated likewise or left alone, all others are as before; and the search for
  the signed channels in a state finds exactly those that are stored in this state.\<close>

theorem sled_channels_refine_maps:
  assumes "provider_laws P" "channels_written P db" "storage_codec_laws (snd (cp_contracts P))"
    "sled_upsert_channel B P db ch c_opt = pok db'"
  shows "channels_written P db' \<and> channel_view P db' = channel_updated (channel_view P db) ch \<and>
    (case c_opt of None \<Rightarrow> sled_view (cp_contracts P) db' = sled_view (cp_contracts P) db
     | Some c \<Rightarrow> \<exists>i. get_id B c = Some i \<and> sled_view (cp_contracts P) db' = updated (sled_view (cp_contracts P) db) i c) \<and>
    (\<forall>r. sled_get_channel P db' (channel_get_id ch) = Inr r \<longrightarrow> r = Some ch) \<and>
    (\<forall>chs. sled_get_signed_channels P db' (Some t) = pok chs \<longrightarrow>
      set chs = {sc. (\<exists>i. channel_updated (channel_view P db) ch i = Some (ChSigned sc)) \<and> get_type (sch_state sc) = t})"
proof -
  let ?E = "(B, P)"
  have up: "ch_upsert (sled_channels (fst ?E) (snd ?E)) db ch c_opt = pok db'" using assms(4) by (simp add: sled_channels_def)
  have laws: "provider_laws (snd ?E) \<and> channels_written (snd ?E) db" using assms(1,2) by simp
  note view = sled_ch.upsert[OF laws up]
  have "r = Some ch" if "sled_get_channel P db' (channel_get_id ch) = Inr r" for r
    using sled_ch.found_after_upsert[OF laws up] that by (simp add: sled_channels_def)
  moreover have "set chs = {sc. (\<exists>i. channel_updated (channel_view P db) ch i = Some (ChSigned sc)) \<and> get_type (sch_state sc) = t}"
    if "sled_get_signed_channels P db' (Some t) = pok chs" for chs
    using sled_ch.signed[of ?E db' "Some t" chs] that view by (auto simp: sled_channels_def)
  moreover have "case c_opt of None \<Rightarrow> sled_view (cp_contracts P) db' = sled_view (cp_contracts P) db
     | Some c \<Rightarrow> \<exists>i. get_id B c = Some i \<and> sled_view (cp_contracts P) db' = updated (sled_view (cp_contracts P) db) i c"
    using sled_upsert_contract[OF assms(1,3)] sled_upsert_no_contract[OF assms(1)] assms(4) by (cases c_opt) auto
  ultimately show ?thesis using view by simp
qed

section \<open>Timeouts\<close>

lemma sled_store_answers: "cm_channels X = sled_channels B P \<Longrightarrow> store_answers X"
  by (simp add: store_answers_def sled_channels_def sled_upsert_channel_def contract_ops_def pbind_def split: sum.split prod.split)

lemma list_all2_covers: "list_all2 R xs ys \<Longrightarrow> x \<in> set xs \<Longrightarrow> \<exists>y \<in> set ys. R x y" "list_all2 R xs ys \<Longrightarrow> y \<in> set ys \<Longrightarrow> \<exists>x \<in> set xs. R x y"
  by (induction xs ys rule: list_all2_induct) auto

text \<open>C6: When the counterparty of a stored channel does not answer in time, the channel is closed: the check of a pending state
  broadcasts, for every channel that is stored in this state with its timeout passed, the transaction of its last agreed state,
  signed by both parties, and nothing else.\<close>

theorem stored_timed_out_channels_are_closed:
  assumes "cm_channels X = sled_channels B P" "provider_laws P" "channels_written P (contract_db st)"
    "sled_get_signed_channels P (contract_db st) (Some t) = pok chs"
    "\<And>i ch. channel_view P (contract_db st) i = Some (ChSigned ch) \<Longrightarrow> get_type (sch_state ch) = t \<Longrightarrow> closable X ch"
  shows "\<exists>r st' txs. check_timed_out X t st = Some (r, st') \<and> broadcast st' = broadcast st @ txs \<and>
    (\<forall>i ch. channel_view P (contract_db st) i = Some (ChSigned ch) \<and> timed_out X t ch \<longrightarrow>
      (\<exists>tx \<in> set txs. signed_by_both (cm_secp X) ch (base_tx (the (base_state ch))) tx)) \<and>
    (\<forall>tx \<in> set txs. \<exists>i ch. channel_view P (contract_db st) i = Some (ChSigned ch) \<and> timed_out X t ch \<and>
      signed_by_both (cm_secp X) ch (base_tx (the (base_state ch))) tx)"
proof -
  have stored: "ch \<in> set chs \<longleftrightarrow> (\<exists>i. channel_view P (contract_db st) i = Some (ChSigned ch)) \<and> get_type (sch_state ch) = t" for ch
    using sled_ch.signed[of "(B, P)" "contract_db st" "Some t" chs ch] assms(2,3,4) by (simp add: sled_channels_def)
  then have "\<forall>ch \<in> set chs. closable X ch" using assms(5) by blast
  moreover have "ch_get_signed (cm_channels X) (contract_db st) (Some t) = pok chs" using assms(1,4) by (simp add: sled_channels_def)
  ultimately obtain r st' txs where run: "check_timed_out X t st = Some (r, st')" "broadcast st' = broadcast st @ txs"
    and each: "list_all2 (\<lambda>ch. signed_by_both (cm_secp X) ch (base_tx (the (base_state ch)))) (filter (timed_out X t) chs) txs"
    using timed_out_channels_are_closed by blast
  have "\<exists>tx \<in> set txs. signed_by_both (cm_secp X) ch (base_tx (the (base_state ch))) tx" if "ch \<in> set chs" "timed_out X t ch" for ch
    using list_all2_covers(1)[OF each] that by auto
  moreover have "\<exists>ch \<in> set chs. timed_out X t ch \<and> signed_by_both (cm_secp X) ch (base_tx (the (base_state ch))) tx" if "tx \<in> set txs" for tx
    using list_all2_covers(2)[OF each] that by auto
  moreover have "get_type (sch_state ch) = t" if "timed_out X t ch" for ch using that by (simp add: timed_out_def is_of_type_def)
  ultimately show ?thesis using run stored by (intro exI[of _ r] exI[of _ st'] exI[of _ txs]) blast
qed

section \<open>Instances\<close>

text \<open>A store on association lists that can keep the channel of the settlement example.\<close>

definition toy_channel_codec :: channel_codec where
  "toy_channel_codec = \<lparr>ser_offered_channel = (\<lambda>_. Inl ''full''), ser_accepted_channel = (\<lambda>_. Inl ''full''),
     ser_signed_channel = (\<lambda>s. if s = toy_a1 then Inr [1] else Inl ''full''), ser_failed_accept_channel = (\<lambda>_. Inl ''full''),
     ser_failed_sign_channel = (\<lambda>_. Inl ''full''), ser_closing_channel = (\<lambda>_. Inl ''full''), ser_closed_channel = (\<lambda>_. Inl ''full''),
     ser_punished_channel = (\<lambda>_. Inl ''full''), ser_monitor = (\<lambda>_. Inl ''full''), de_offered_channel = (\<lambda>_. Inl ''bad''),
     de_accepted_channel = (\<lambda>_. Inl ''bad''), de_signed_channel = (\<lambda>_. Inr toy_a1), de_failed_accept_channel = (\<lambda>_. Inl ''bad''),
     de_failed_sign_channel = (\<lambda>_. Inl ''bad''), de_closing_channel = (\<lambda>_. Inl ''bad''), de_closed_channel = (\<lambda>_. Inl ''bad''),
     de_punished_channel = (\<lambda>_. Inl ''bad''), de_monitor = (\<lambda>_. Inl ''bad'')\<rparr>"

definition toy_provider :: "(bytes \<times> bytes) list channel_provider" where
  "toy_provider = \<lparr>cp_contracts = (list_sled, coin_codec), cp_codec = toy_channel_codec,
     sled_transaction_pair = (\<lambda>t tc xs ys. Inr (fold list_op xs t, fold list_op ys tc))\<rparr>"

definition toy_channel_db :: "(bytes \<times> bytes) list db" where
  "toy_channel_db = coin_db(CHANNEL_TREE := [([1], [102, 2, 1])])"

lemma toy_provider_simps [simp]:
  "cp_contracts toy_provider = (list_sled, coin_codec)" "cp_codec toy_provider = toy_channel_codec"
  "sled_content list_sled = map_of" "sled_open list_sled i = Inr ()"
  "sled_transaction_pair toy_provider t tc xs ys = Inr (fold list_op xs t, fold list_op ys tc)"
  by (simp_all add: toy_provider_def list_sled_def)

lemma toy_provider_laws: "provider_laws toy_provider"
proof -
  have "map_of (fold list_op xs t) = fold apply_op xs (map_of t)" for xs t
    using sled_lawsD(4)[OF list_sled_laws, of t xs] by (simp add: list_sled_def)
  then have "pair_laws toy_provider" by (simp add: pair_laws_def)
  moreover have "channel_codec_laws toy_channel_codec"
    by (simp add: channel_codec_laws_def reads_back_def toy_channel_codec_def)
  ultimately show ?thesis by (simp add: provider_laws_def list_sled_laws)
qed

lemma toy_a1_type: "get_type (sch_state toy_a1) = SettledOfferedT" "sch_channel_id toy_a1 = [1]" "sch_temporary_channel_id toy_a1 = [0]"
  by (simp_all add: toy_channel_defs)

lemma toy_serialized: "serialize_channel toy_channel_codec (ChSigned toy_a1) = Inr [102, 2, 1]"
  by (simp add: serialize_channel_def toy_channel_codec_def toy_a1_type)

lemma toy_written: "channels_written toy_provider toy_channel_db"
  using toy_serialized by (auto simp: channels_written_def toy_channel_db_def)

lemma sled_channels_refine_maps_witness:
  "\<exists>db'. sled_upsert_channel toy_btc toy_provider toy_channel_db (ChSigned toy_a1) (Some (Refunded coin_contract)) = pok db' \<and>
     channel_view toy_provider db' [1] = Some (ChSigned toy_a1) \<and> sled_view (list_sled, coin_codec) db' coin_id = Some (Refunded coin_contract)"
proof -
  have "serialize_contract coin_codec (Refunded coin_contract) = Inr [11, 1]"
    by (simp add: serialize_contract_def coin_codec_def get_prefix_def)
  then obtain db' where up: "sled_upsert_channel toy_btc toy_provider toy_channel_db (ChSigned toy_a1) (Some (Refunded coin_contract)) = pok db'"
    using toy_serialized coin_contract_id by (simp add: sled_upsert_channel_def contract_ops_def open_tree_def to_storage_error_def)
  moreover have "storage_codec_laws (snd (cp_contracts toy_provider))" using coin_codec_laws by simp
  ultimately show ?thesis
    using sled_channels_refine_maps[OF toy_provider_laws toy_written _ up] coin_contract_id
    by (auto simp: channel_updated_def updated_def toy_a1_type)
qed

definition toy_stored :: "(bytes \<times> bytes) list db mgr_state" where
  "toy_stored = coin_state\<lparr>contract_db := toy_channel_db\<rparr>"

definition toy_sled_manager :: "(bytes \<times> bytes) list db ChannelManager" where
  "toy_sled_manager = toy_manager\<lparr>cm_channels := sled_channels toy_btc toy_provider\<rparr>"

lemma toy_view: "channel_view toy_provider toy_channel_db i = Some ch \<longleftrightarrow> i = [1] \<and> ch = ChSigned toy_a1"
proof -
  have "deserialize_channel toy_channel_codec [102, 2, 1] = Inr (ChSigned toy_a1)"
    using channel_reads_back[OF _ toy_serialized] toy_provider_laws by (simp add: provider_laws_def)
  then show ?thesis by (auto simp: channel_view_def toy_channel_db_def simp del: deserialize_channel.simps)
qed

lemma stored_timed_out_channels_are_closed_witness:
  "\<exists>r st' tx. check_timed_out toy_sled_manager SettledOfferedT toy_stored = Some (r, st') \<and> tx \<in> set (broadcast st') \<and>
     signed_by_both honest_secp toy_a1 (toy_tx [105000]) tx"
proof -
  have X: "cm_channels toy_sled_manager = sled_channels toy_btc toy_provider" "cm_secp toy_sled_manager = honest_secp"
    "cm_btc toy_sled_manager = toy_btc" "unix_time_now (cm_world toy_sled_manager) = 200" "contract_db toy_stored = toy_channel_db"
    by (simp_all add: toy_sled_manager_def toy_manager_def toy_stored_def)
  have s: "base_state toy_a1 = Some (sch_state toy_a)" "get_type (sch_state toy_a) = EstablishedT" "base_tx (sch_state toy_a) = toy_tx [105000]"
    by (simp_all add: base_state_def toy_a1_def enter_state_def toy_a_def base_tx_def is_of_type_def)
  have "backed toy_btc honest_secp toy_a1" using settle_channel_offer_backed[OF toy_offer_run toy_backed] .
  moreover have "closing_laws toy_sled_manager toy_a1"
    using toy_closing_laws sled_store_answers[OF X(1)] by (simp add: closing_laws_def toy_sled_manager_def)
  ultimately have closable: "closable toy_sled_manager toy_a1" using s by (simp add: closable_def X)
  have read: "sled_get_signed_channels toy_provider toy_channel_db (Some SettledOfferedT) = pok [toy_a1]"
    by (simp add: sled_get_signed_channels_def get_data_with_prefix_def open_tree_def list_sled_def toy_channel_db_def read_with_prefix_def
        toy_channel_codec_def toy_provider_def map_filter_simps)
  have out: "timed_out toy_sled_manager SettledOfferedT toy_a1" by (simp add: timed_out_def X is_of_type_def toy_a1_def enter_state_def)
  from stored_timed_out_channels_are_closed[OF X(1) toy_provider_laws, where st = toy_stored and t = SettledOfferedT, unfolded X, OF toy_written read] closable
  obtain r st' txs where "check_timed_out toy_sled_manager SettledOfferedT toy_stored = Some (r, st')" "broadcast st' = broadcast toy_stored @ txs"
    "\<exists>tx \<in> set txs. signed_by_both honest_secp toy_a1 (base_tx (the (base_state toy_a1))) tx"
    using out by (fastforce simp: toy_view)
  then show ?thesis using s by auto
qed

end
