(* ===== verification/Wallet.thy ===== *)
theory Wallet
  imports ManagerSpec
begin

text \<open>
  The wallet of \<open>simple-wallet/src/lib.rs\<close>, which funds and signs for the manager, with the trait of its storage. Its calls are
  functions on the state of the manager, whose store also keeps the keys, addresses and outputs of the wallet. What the bitcoin and
  bdk libraries compute is a record of functions; a new random key is an argument of the call that draws it. \<open>None\<close> is a panic.
\<close>

section \<open>Outputs, chain and libraries\<close>

type_synonym address = bytes

record WalletUtxo = Utxo +
  utxo_address :: address
  reserved :: bool

record wallet_chain = blockchain +
  get_utxos_for_address :: "address \<Rightarrow> Error + WalletUtxo list"
  is_output_spent :: "bytes \<Rightarrow> nat \<Rightarrow> Error + bool"
  est_sat_per_1000_weight :: nat

text \<open>Transactions that are being signed; a candidate for a selection is an output with the weight of its signature.\<close>

record PsbtInput =
  witness_utxo :: "TxOut option"
  non_witness_utxo :: "Transaction option"
  final_script_sig :: "script option"
  final_script_witness :: "bytes list option"

record Psbt =
  unsigned_tx :: Transaction
  psbt_inputs :: "PsbtInput list"

record WeightedUtxo =
  wu_outpoint :: OutPoint
  wu_txout :: TxOut
  satisfaction_weight :: nat

datatype BdkUtxo = LocalUtxo OutPoint TxOut | ForeignUtxo

record wallet_lib =
  p2wpkh_address :: "pubkey \<Rightarrow> address"
  address_script :: "address \<Rightarrow> script"
  address_from_script :: "script \<Rightarrow> string + address"
  p2wpkh_script :: "pubkey \<Rightarrow> script"
  tx_weight :: "Transaction \<Rightarrow> nat"
  coin_select :: "WeightedUtxo list \<Rightarrow> nat \<Rightarrow> amount \<Rightarrow> script \<Rightarrow> string + BdkUtxo list"
  psbt_from_unsigned_tx :: "Transaction \<Rightarrow> string + Psbt"
  extract_tx :: "Psbt \<Rightarrow> string + Transaction"

section \<open>The storage of a wallet\<close>

record 's WalletStorage =
  ws_upsert_address :: "'s \<Rightarrow> address \<Rightarrow> bytes \<Rightarrow> Error + 's"
  ws_delete_address :: "'s \<Rightarrow> address \<Rightarrow> Error + 's"
  ws_get_addresses :: "'s \<Rightarrow> (Error + address list) option"
  ws_get_priv_key_for_address :: "'s \<Rightarrow> address \<Rightarrow> (Error + bytes option) option"
  ws_upsert_key :: "'s \<Rightarrow> bytes \<Rightarrow> bytes \<Rightarrow> Error + 's"
  ws_get_priv_key :: "'s \<Rightarrow> bytes \<Rightarrow> (Error + bytes option) option"
  ws_upsert_utxo :: "'s \<Rightarrow> WalletUtxo \<Rightarrow> Error + 's"
  ws_has_utxo :: "'s \<Rightarrow> WalletUtxo \<Rightarrow> Error + bool"
  ws_delete_utxo :: "'s \<Rightarrow> WalletUtxo \<Rightarrow> Error + 's"
  ws_get_utxos :: "'s \<Rightarrow> Error + WalletUtxo list"
  ws_unreserve_utxo :: "'s \<Rightarrow> bytes \<Rightarrow> nat \<Rightarrow> Error + 's"

record 's SimpleWallet =
  w_chain :: wallet_chain
  w_store :: "'s WalletStorage"
  w_secp :: secp
  w_lib :: wallet_lib

text \<open>A call that must not fail, and a loop that collects results.\<close>

definition mexpect :: "('s, 'a) mgr \<Rightarrow> ('s, 'a) mgr" where
  "mexpect m st = (case m st of Some (Inr x, st') \<Rightarrow> Some (Inr x, st') | _ \<Rightarrow> None)"

fun mtraverse :: "('a \<Rightarrow> ('s, 'b) mgr) \<Rightarrow> 'a list \<Rightarrow> ('s, 'b list) mgr" where
  "mtraverse f [] = mret []"
| "mtraverse f (x # xs) = mbind (f x) (\<lambda>y. mbind (mtraverse f xs) (\<lambda>ys. mret (y # ys)))"

definition wallet_utxos :: "'s SimpleWallet \<Rightarrow> ('s, WalletUtxo list) mgr" where
  "wallet_utxos W = store_read (\<lambda>s. Some (ws_get_utxos (w_store W) s))"

definition upsert_wallet_utxo :: "'s SimpleWallet \<Rightarrow> WalletUtxo \<Rightarrow> ('s, unit) mgr" where
  "upsert_wallet_utxo W u = store_write (\<lambda>s. Some (ws_upsert_utxo (w_store W) s u))"

definition upsert_wallet_key :: "'s SimpleWallet \<Rightarrow> bytes \<Rightarrow> bytes \<Rightarrow> ('s, unit) mgr" where
  "upsert_wallet_key W i sk = store_write (\<lambda>s. Some (ws_upsert_key (w_store W) s i sk))"

section \<open>Refreshing\<close>

definition drop_if_spent :: "'s SimpleWallet \<Rightarrow> WalletUtxo \<Rightarrow> ('s, unit) mgr" where
  "drop_if_spent W u =
     mbind (mlift (Some (is_output_spent (w_chain W) (txid (utxo_outpoint u)) (vout (utxo_outpoint u))))) (\<lambda>is_spent.
     if is_spent then store_write (\<lambda>s. Some (ws_delete_utxo (w_store W) s u)) else mret ())"

definition add_if_new :: "'s SimpleWallet \<Rightarrow> WalletUtxo \<Rightarrow> ('s, unit) mgr" where
  "add_if_new W u =
     mbind (store_read (\<lambda>s. Some (ws_has_utxo (w_store W) s u))) (\<lambda>known.
     if known then mret () else upsert_wallet_utxo W u)"

definition wallet_refresh :: "'s SimpleWallet \<Rightarrow> ('s, unit) mgr" where
  "wallet_refresh W =
     mbind (wallet_utxos W) (\<lambda>utxos.
     mbind (mfor (drop_if_spent W) utxos) (\<lambda>_.
     mbind (store_read (ws_get_addresses (w_store W))) (\<lambda>addresses.
     mfor (\<lambda>address. mbind (mlift (Some (get_utxos_for_address (w_chain W) address))) (mfor (add_if_new W))) addresses)))"

section \<open>Balance and reservations\<close>

fun sum_values :: "amount list \<Rightarrow> amount option" where
  "sum_values [] = Some 0"
| "sum_values (v # vs) = Option.bind (sum_values vs) (u64_add v)"

definition wallet_get_balance :: "'s SimpleWallet \<Rightarrow> 's mgr_state \<Rightarrow> amount option" where
  "wallet_get_balance W st =
     Option.bind (unwrap (ws_get_utxos (w_store W) (contract_db st))) (\<lambda>utxos. sum_values (map (\<lambda>x. txo_value (utxo_tx_out x)) utxos))"

definition wallet_unreserve :: "'s SimpleWallet \<Rightarrow> OutPoint \<Rightarrow> ('s, unit) mgr" where
  "wallet_unreserve W o' = store_write (\<lambda>s. Some (ws_unreserve_utxo (w_store W) s (txid o') (vout o')))"

definition wallet_unreserve_utxos :: "'s SimpleWallet \<Rightarrow> OutPoint list \<Rightarrow> ('s, unit) mgr" where
  "wallet_unreserve_utxos W outputs = mfor (wallet_unreserve W) outputs"

definition wallet_unreserve_all_utxos :: "'s SimpleWallet \<Rightarrow> ('s, unit) mgr" where
  "wallet_unreserve_all_utxos W =
     mbind (mexpect (wallet_utxos W)) (mfor (\<lambda>u. mexpect (wallet_unreserve W (utxo_outpoint u))))"

section \<open>Selecting coins\<close>

definition dummy_pubkey :: pubkey where
  "dummy_pubkey = [0x02, 0x79, 0xbe, 0x66, 0x7e, 0xf9, 0xdc, 0xbb, 0xac, 0x55, 0xa0, 0x62, 0x95, 0xce, 0x87, 0x0b, 0x07,
     0x02, 0x9b, 0xfc, 0xdb, 0x2d, 0xce, 0x28, 0xd9, 0x59, 0xf2, 0x81, 0x5b, 0x16, 0xf8, 0x17, 0x98]"

text \<open>\<open>FeeRate\<close> is in satoshi per 1000 weight units, \<open>BROADCAST_MIN\<close> is one satoshi per virtual byte.\<close>

definition selection_fee_rate :: "nat \<Rightarrow> nat" where
  "selection_fee_rate r = (case u64_mul r 250 of Some x \<Rightarrow> x | None \<Rightarrow> 250)"

definition to_weighted_utxo :: "WalletUtxo \<Rightarrow> WeightedUtxo" where
  "to_weighted_utxo x = \<lparr>wu_outpoint = utxo_outpoint x, wu_txout = utxo_tx_out x, satisfaction_weight = 107\<rparr>"

fun find_selected :: "WalletUtxo list \<Rightarrow> BdkUtxo \<Rightarrow> WalletUtxo option" where
  "find_selected org_utxos (LocalUtxo outpoint tx_out) = List.find (\<lambda>x. utxo_tx_out x = tx_out \<and> utxo_outpoint x = outpoint) org_utxos"
| "find_selected org_utxos ForeignUtxo = None"

definition take_selected :: "'s SimpleWallet \<Rightarrow> WalletUtxo list \<Rightarrow> bool \<Rightarrow> BdkUtxo \<Rightarrow> ('s, WalletUtxo) mgr" where
  "take_selected W org_utxos lock_utxos utxo =
     mbind (munwrap (find_selected org_utxos utxo)) (\<lambda>org.
     mbind (if lock_utxos then upsert_wallet_utxo W (org\<lparr>reserved := True\<rparr>) else mret ()) (\<lambda>_. mret org))"

definition wallet_get_utxos_for_amount :: "'s SimpleWallet \<Rightarrow> amount \<Rightarrow> nat \<Rightarrow> bool \<Rightarrow> ('s, WalletUtxo list) mgr" where
  "wallet_get_utxos_for_amount W amt fee_rate lock_utxos =
     mbind (wallet_utxos W) (\<lambda>org_utxos.
     mbind (mlift (Some (map_sum WalletError id (coin_select (w_lib W)
         (map to_weighted_utxo (filter (\<lambda>x. \<not> reserved x) org_utxos)) (selection_fee_rate fee_rate) amt
         (p2wpkh_script (w_lib W) dummy_pubkey))))) (\<lambda>selected.
     mtraverse (take_selected W org_utxos lock_utxos) selected))"

section \<open>Keys and addresses\<close>

definition wallet_derive_contract_signer :: "'s SimpleWallet \<Rightarrow> bytes \<Rightarrow> bytes \<Rightarrow> ('s, bytes) mgr" where
  "wallet_derive_contract_signer W i seckey =
     mbind (store_read (\<lambda>s. ws_get_priv_key (w_store W) s i)) (\<lambda>r. case r of
       None \<Rightarrow> mbind (upsert_wallet_key W (pk_of (w_secp W) seckey) seckey) (\<lambda>_.
               mbind (upsert_wallet_key W i seckey) (\<lambda>_. mret seckey))
     | Some known \<Rightarrow> mret known)"

definition wallet_get_secret_key_for_pubkey :: "'s SimpleWallet \<Rightarrow> pubkey \<Rightarrow> ('s, bytes) mgr" where
  "wallet_get_secret_key_for_pubkey W pubkey =
     mbind (store_read (\<lambda>s. ws_get_priv_key (w_store W) s pubkey)) munwrap"

definition wallet_get_new_secret_key :: "'s SimpleWallet \<Rightarrow> bytes \<Rightarrow> ('s, bytes) mgr" where
  "wallet_get_new_secret_key W seckey =
     mbind (upsert_wallet_key W (pk_of (w_secp W) seckey) seckey) (\<lambda>_. mret seckey)"

definition wallet_get_new_address :: "'s SimpleWallet \<Rightarrow> bytes \<Rightarrow> ('s, address) mgr" where
  "wallet_get_new_address W seckey =
     (let address = p2wpkh_address (w_lib W) (pk_of (w_secp W) seckey) in
      mbind (store_write (\<lambda>s. Some (ws_upsert_address (w_store W) s address seckey))) (\<lambda>_. mret address))"

definition wallet_get_new_change_address :: "'s SimpleWallet \<Rightarrow> bytes \<Rightarrow> ('s, address) mgr" where
  "wallet_get_new_change_address W = wallet_get_new_address W"

definition wallet_import_address :: "'s SimpleWallet \<Rightarrow> address \<Rightarrow> ('s, unit) mgr" where
  "wallet_import_address W a = mret ()"

section \<open>Signing\<close>

text \<open>The key for an output script; the address of a script of the wallet and its key are expected to exist.\<close>

definition key_for_script :: "'s SimpleWallet \<Rightarrow> script \<Rightarrow> ('s, bytes) mgr" where
  "key_for_script W spk =
     mbind (munwrap (unwrap (address_from_script (w_lib W) spk))) (\<lambda>address.
     mbind (store_read (\<lambda>s. ws_get_priv_key_for_address (w_store W) s address)) munwrap)"

definition signing_data :: "'s SimpleWallet \<Rightarrow> WalletUtxo list \<Rightarrow> nat \<times> TxIn \<Rightarrow> ('s, nat \<times> bytes \<times> amount) mgr" where
  "signing_data W utxos = (\<lambda>(i, inp).
     mbind (mlift (Some (ok_or (InvalidParameters ''UTXO not found in wallet'')
       (List.find (\<lambda>x. utxo_outpoint x = previous_output inp) utxos)))) (\<lambda>utxo.
     mbind (key_for_script W (script_pubkey (utxo_tx_out utxo))) (\<lambda>seckey.
     mret (i, seckey, txo_value (utxo_tx_out utxo)))))"

fun sign_inputs :: "secp \<Rightarrow> (nat \<times> bytes \<times> amount) list \<Rightarrow> Transaction \<Rightarrow> (DlcError + Transaction) option" where
  "sign_inputs S [] tx = pok tx"
| "sign_inputs S ((i, seckey, v) # rest) tx = pbind (sign_p2wpkh_input S seckey tx i SIGHASH_ALL v) (sign_inputs S rest)"

definition wallet_sign_raw_transaction :: "'s SimpleWallet \<Rightarrow> Transaction \<Rightarrow> ('s, Transaction) mgr" where
  "wallet_sign_raw_transaction W tx =
     mbind (wallet_utxos W) (\<lambda>utxos.
     mbind (mtraverse (signing_data W utxos) (zip [0..<length (tx_input tx)] (tx_input tx))) (\<lambda>signing.
     mlift (dlc_err (sign_inputs (w_secp W) signing tx))))"

definition psbt_tx_out :: "Psbt \<Rightarrow> nat \<Rightarrow> (Error + TxOut) option" where
  "psbt_tx_out psbt input_index =
     (let missing = perr (InvalidParameters ''No TxOut for PSBT inout'') in
      case vget (psbt_inputs psbt) input_index of
        None \<Rightarrow> missing
      | Some inp \<Rightarrow> (case (witness_utxo inp, non_witness_utxo inp) of
          (Some wit_utxo, _) \<Rightarrow> pok wit_utxo
        | (None, Some in_tx) \<Rightarrow>
            Option.bind (vget (tx_input (unsigned_tx psbt)) input_index) (\<lambda>i.
            Option.bind (vget (tx_output in_tx) (vout (previous_output i))) pok)
        | (None, None) \<Rightarrow> missing))"

definition wallet_sign_psbt_input :: "'s SimpleWallet \<Rightarrow> Psbt \<Rightarrow> nat \<Rightarrow> ('s, Psbt) mgr" where
  "wallet_sign_psbt_input W psbt input_index =
     mbind (mlift (psbt_tx_out psbt input_index)) (\<lambda>tx_out.
     mbind (key_for_script W (script_pubkey tx_out)) (\<lambda>seckey.
     mbind (mlift (dlc_err (sign_p2wpkh_input (w_secp W) seckey (unsigned_tx psbt) input_index SIGHASH_ALL (txo_value tx_out)))) (\<lambda>tx.
     munwrap (Option.bind (vget (tx_input tx) input_index) (\<lambda>i.
       map_option (\<lambda>p. psbt\<lparr>psbt_inputs := (psbt_inputs psbt)[input_index :=
           p\<lparr>final_script_sig := Some (script_sig i), final_script_witness := Some (witness i)\<rparr>]\<rparr>)
         (vget (psbt_inputs psbt) input_index))))))"

fun sign_all_psbt_inputs :: "'s SimpleWallet \<Rightarrow> nat list \<Rightarrow> Psbt \<Rightarrow> ('s, Psbt) mgr" where
  "sign_all_psbt_inputs W [] psbt = mret psbt"
| "sign_all_psbt_inputs W (i # is') psbt = mbind (wallet_sign_psbt_input W psbt i) (sign_all_psbt_inputs W is')"

text \<open>The transaction that spends all outputs of the wallet to one address, less the fee; what panics is \<open>None\<close>.\<close>

definition sweep_tx :: "'s SimpleWallet \<Rightarrow> WalletUtxo list \<Rightarrow> address \<Rightarrow> Transaction option" where
  "sweep_tx W utxos address = do {
     total_value \<leftarrow> sum_values (map (\<lambda>x. txo_value (utxo_tx_out x)) utxos);
     let spk = address_script (w_lib W) address;
     let tx = \<lparr>version = 2, lock_time = 0,
       tx_input = map (\<lambda>x. \<lparr>previous_output = utxo_outpoint x, script_sig = [], sequence = 0xffffffff, witness = []\<rparr>) utxos,
       tx_output = [\<lparr>txo_value = total_value, script_pubkey = spk\<rparr>]\<rparr>;
     signatures \<leftarrow> u64_mul (length (tx_input tx)) (74 + 33);
     weight \<leftarrow> u64_add (tx_weight (w_lib W) tx) signatures;
     product \<leftarrow> u64_mul weight (est_sat_per_1000_weight (w_chain W));
     v \<leftarrow> u64_sub total_value (product div 1000);
     Some (tx\<lparr>tx_output := [\<lparr>txo_value = v, script_pubkey = spk\<rparr>]\<rparr>)
   }"

definition sweep_psbt :: "'s SimpleWallet \<Rightarrow> WalletUtxo list \<Rightarrow> Transaction \<Rightarrow> Psbt option" where
  "sweep_psbt W utxos tx = do {
     psbt \<leftarrow> unwrap (psbt_from_unsigned_tx (w_lib W) tx);
     if length (psbt_inputs psbt) < length utxos then None
     else Some (psbt\<lparr>psbt_inputs := map (\<lambda>(p, u). p\<lparr>witness_utxo := Some (utxo_tx_out u)\<rparr>) (zip (psbt_inputs psbt) utxos)
       @ drop (length utxos) (psbt_inputs psbt)\<rparr>)
   }"

definition wallet_empty_to_address :: "'s SimpleWallet \<Rightarrow> address \<Rightarrow> ('s, unit) mgr" where
  "wallet_empty_to_address W address =
     mbind (mexpect (wallet_utxos W)) (\<lambda>utxos.
     if utxos = [] then mfail (InvalidState ''No utxo in wallet'')
     else
       mbind (munwrap (sweep_tx W utxos address)) (\<lambda>tx.
       mbind (munwrap (sweep_psbt W utxos tx)) (\<lambda>psbt.
       mbind (sign_all_psbt_inputs W [0..<length utxos] psbt) (\<lambda>psbt.
       mbind (munwrap (unwrap (extract_tx (w_lib W) psbt))) (\<lambda>tx st. (case send_transaction (w_chain W) tx of
         Inl e \<Rightarrow> Some (Inl e, st) | Inr _ \<Rightarrow> Some (Inr (), st\<lparr>broadcast := broadcast st @ [tx]\<rparr>)))))))"

end
