(* ===== verification/WalletSpec.thy ===== *)
theory WalletSpec
  imports Wallet
begin

text \<open>
  What the wallet promises on any store that keeps the contract \<open>wallet_store\<close>: outputs that are reserved for one contract are not
  given to another one, keys and addresses are found again, and inputs are signed with the key of the output they spend.
\<close>

section \<open>Calls\<close>

datatype wallet_call =
    RefreshCall wallet_chain
  | SelectCall amount nat bool
  | UnreserveCall "OutPoint list"
  | UnreserveAllCall
  | SignerCall bytes bytes
  | NewKeyCall bytes
  | NewAddressCall bytes
  | SecretKeyCall pubkey
  | SignTxCall Transaction
  | SignPsbtCall Psbt nat
  | SweepCall address

text \<open>A call gives the outputs that it selects; a run gives those of each call, none for a call that fails.\<close>

fun run_wallet_call :: "'s SimpleWallet \<Rightarrow> wallet_call \<Rightarrow> ('s, WalletUtxo list) mgr" where
  "run_wallet_call W (RefreshCall c) = mmap (\<lambda>_. []) (wallet_refresh (W\<lparr>w_chain := c\<rparr>))"
| "run_wallet_call W (SelectCall amt r lock) = wallet_get_utxos_for_amount W amt r lock"
| "run_wallet_call W (UnreserveCall os) = mmap (\<lambda>_. []) (wallet_unreserve_utxos W os)"
| "run_wallet_call W UnreserveAllCall = mmap (\<lambda>_. []) (wallet_unreserve_all_utxos W)"
| "run_wallet_call W (SignerCall i sk) = mmap (\<lambda>_. []) (wallet_derive_contract_signer W i sk)"
| "run_wallet_call W (NewKeyCall sk) = mmap (\<lambda>_. []) (wallet_get_new_secret_key W sk)"
| "run_wallet_call W (NewAddressCall sk) = mmap (\<lambda>_. []) (wallet_get_new_address W sk)"
| "run_wallet_call W (SecretKeyCall pk) = mmap (\<lambda>_. []) (wallet_get_secret_key_for_pubkey W pk)"
| "run_wallet_call W (SignTxCall tx) = mmap (\<lambda>_. []) (wallet_sign_raw_transaction W tx)"
| "run_wallet_call W (SignPsbtCall psbt i) = mmap (\<lambda>_. []) (wallet_sign_psbt_input W psbt i)"
| "run_wallet_call W (SweepCall a) = mmap (\<lambda>_. []) (wallet_empty_to_address W a)"

fun run_wallet :: "'s SimpleWallet \<Rightarrow> wallet_call list \<Rightarrow> 's mgr_state \<Rightarrow> (WalletUtxo list list \<times> 's mgr_state) option" where
  "run_wallet W [] st = Some ([], st)"
| "run_wallet W (c # cs) st = (case run_wallet_call W c st of
     None \<Rightarrow> None
   | Some (r, st') \<Rightarrow> map_option (\<lambda>(rs, st''). ((case r of Inr us \<Rightarrow> us | Inl _ \<Rightarrow> []) # rs, st'')) (run_wallet W cs st'))"

text \<open>Output indices have 32 bits; a chain gives outputs with such indices.\<close>

abbreviation vout_ok :: "OutPoint \<Rightarrow> bool" where "vout_ok o' \<equiv> vout o' < 2 ^ 32"

definition chain_ok :: "wallet_chain \<Rightarrow> bool" where
  "chain_ok c \<longleftrightarrow> (\<forall>a us. get_utxos_for_address c a = Inr us \<longrightarrow> (\<forall>u \<in> set us. vout_ok (utxo_outpoint u)))"

text \<open>The selection of the bdk library selects among the candidates.\<close>

definition selects_candidates :: "wallet_lib \<Rightarrow> bool" where
  "selects_candidates L \<longleftrightarrow> (\<forall>cs r amt spk sel. coin_select L cs r amt spk = Inr sel \<longrightarrow>
     set sel \<subseteq> (\<lambda>c. LocalUtxo (wu_outpoint c) (wu_txout c)) ` set cs)"

section \<open>Rules\<close>

lemma holds_traverse: "(\<And>x. x \<in> set xs \<Longrightarrow> holds I (f x) Q) \<Longrightarrow> holds I (mtraverse f xs) (\<lambda>ys. \<forall>y \<in> set ys. Q y)"
proof (induction xs)
  case (Cons x xs)
  then have "holds I (mtraverse f xs) (\<lambda>ys. \<forall>y \<in> set ys. Q y)" "holds I (f x) Q" by simp_all
  then show ?case by (auto intro!: holds_ret elim!: holds_bind)
qed (simp add: holds_ret)

lemma traverse_reads:
  assumes "\<And>x r st'. f x st = Some (r, st') \<Longrightarrow> st' = st" "mtraverse f xs st = Some (Inr ys, st')"
  shows "st' = st \<and> list_all2 (\<lambda>x y. f x st = Some (Inr y, st)) xs ys"
  using assms(2)
proof (induction xs arbitrary: ys)
  case (Cons x xs)
  then obtain y st1 ys' where 1: "f x st = Some (Inr y, st1)" "mtraverse f xs st1 = Some (Inr ys', st')" "ys = y # ys'"
    by (auto simp: mbind_Inr mret_def)
  moreover have "st1 = st" using assms(1)[OF 1(1)] .
  ultimately show ?case using Cons.IH[of ys'] by simp
qed (simp add: mret_def)

lemma holds_expect: "holds I m Q \<Longrightarrow> holds I (mexpect m) Q"
  by (fastforce simp: holds_def mexpect_def split: option.splits sum.splits)

lemma holds_write:
  "(\<And>st s'. I st \<Longrightarrow> f (contract_db st) = pok s' \<Longrightarrow> I (st\<lparr>contract_db := s'\<rparr>)) \<Longrightarrow> keeps I (store_write f)"
  by (fastforce simp: holds_def store_write_def split: option.splits sum.splits)

lemma holds_read:
  "(\<And>st x. I st \<Longrightarrow> f (contract_db st) = pok x \<Longrightarrow> Q x) \<Longrightarrow> holds I (store_read f) Q"
  by (auto simp: holds_def store_read_def)

lemma holds_both: "keeps I m \<Longrightarrow> holds (\<lambda>_. True) m Q \<Longrightarrow> holds I m Q"
  unfolding holds_def by blast

lemma run_keeps:
  assumes "\<And>c. c \<in> set cs \<Longrightarrow> holds I (run_wallet_call W c) Q" "I st" "run_wallet W cs st = Some (rs, st')" "Q []"
  shows "I st' \<and> (\<forall>us \<in> set rs. Q us)"
  using assms
proof (induction cs arbitrary: st rs)
  case (Cons c cs)
  obtain r st1 rs' where c: "run_wallet_call W c st = Some (r, st1)" "run_wallet W cs st1 = Some (rs', st')"
    "rs = (case r of Inr us \<Rightarrow> us | Inl _ \<Rightarrow> []) # rs'"
    using Cons.prems(3) by (auto split: option.splits)
  have 1: "I st1 \<and> (\<forall>x. r = Inr x \<longrightarrow> Q x)" using holdsD[OF Cons.prems(1) Cons.prems(2) c(1)] by simp
  moreover have "I st' \<and> (\<forall>us \<in> set rs'. Q us)" using Cons.IH[OF _ _ c(2)] Cons.prems(1,4) 1 by simp
  ultimately show ?case using c(3) Cons.prems(4) by (auto split: sum.splits)
qed simp

section \<open>Signatures of inputs\<close>

text \<open>The hash that is signed does not depend on the witnesses.\<close>

definition sighash_ignores_witness :: "secp \<Rightarrow> bool" where
  "sighash_ignores_witness S \<longleftrightarrow> (\<forall>tx i w tx'. set_witness tx i w = Some tx' \<longrightarrow> p2wsh_sighash S tx' = p2wsh_sighash S tx)"

text \<open>An input that is signed by a key for a value.\<close>

definition signed_by :: "secp \<Rightarrow> Transaction \<Rightarrow> nat \<Rightarrow> bytes \<Rightarrow> amount \<Rightarrow> TxIn \<Rightarrow> bool" where
  "signed_by S tx i sk v inp \<longleftrightarrow> (\<exists>h. p2wsh_sighash S tx i (p2pkh_script S (pk_of S sk)) v = Inr h \<and>
     inp = (tx_input tx ! i)\<lparr>witness := [serialize_der S (sign_ecdsa S h sk) @ [1], pk_of S sk]\<rparr>)"

lemma sign_p2wpkh_input_pok:
  assumes "sign_p2wpkh_input S sk tx i SIGHASH_ALL v = pok tx'"
  shows "\<exists>inp. i < length (tx_input tx) \<and> signed_by S tx i sk v inp \<and> tx' = tx\<lparr>tx_input := (tx_input tx)[i := inp]\<rparr> \<and>
    (\<exists>w. set_witness tx i w = Some tx')"
  using assms by (auto simp: sign_p2wpkh_input_def get_witness_for_p2wpkh_input_def get_sig_for_p2wpkh_input_def get_sig_for_tx_input_def
    get_raw_sig_for_tx_input_def get_sig_hash_msg_def get_pkh_script_pubkey_from_sk_def finalize_sig_def SIGHASH_ALL_def signed_by_def
    set_witness_def bind_eq_Some_conv split: sum.splits)

lemma sign_inputs_pok:
  assumes "sighash_ignores_witness S" "sign_inputs S data tx = pok tx'" "distinct (map fst data)"
  shows "(\<exists>ins. tx' = tx\<lparr>tx_input := ins\<rparr> \<and> length ins = length (tx_input tx)) \<and>
    (\<forall>(i, sk, v) \<in> set data. signed_by S tx i sk v (tx_input tx' ! i)) \<and>
    (\<forall>i. i \<notin> fst ` set data \<longrightarrow> tx_input tx' ! i = tx_input tx ! i)"
  using assms(2,3)
proof (induction data arbitrary: tx)
  case Nil
  then show ?case by (auto intro!: exI[of _ "tx_input tx"])
next
  case (Cons d data)
  obtain i sk v where d: "d = (i, sk, v)" by (cases d)
  obtain tx1 where 1: "sign_p2wpkh_input S sk tx i SIGHASH_ALL v = pok tx1" "sign_inputs S data tx1 = pok tx'" using Cons.prems(1) d by auto
  obtain inp w where inp: "i < length (tx_input tx)" "signed_by S tx i sk v inp" "tx1 = tx\<lparr>tx_input := (tx_input tx)[i := inp]\<rparr>"
    "set_witness tx i w = Some tx1" using sign_p2wpkh_input_pok[OF 1(1)] by blast
  have same: "p2wsh_sighash S tx1 = p2wsh_sighash S tx" using assms(1) inp(4) by (simp add: sighash_ignores_witness_def)
  have other: "signed_by S tx1 j k x y \<longleftrightarrow> signed_by S tx j k x y" if "j \<noteq> i" for j k x y
    using that by (simp add: signed_by_def same) (simp add: inp(3))
  have i: "i \<notin> fst ` set data" "distinct (map fst data)" using Cons.prems(2) d by auto
  note IH = Cons.IH[OF 1(2) i(2)]
  have "signed_by S tx j k x (tx_input tx' ! j)" if "(j, k, x) \<in> set data" for j k x
  proof -
    have "j \<noteq> i" using i(1) that by force
    then show ?thesis using IH that other by blast
  qed
  moreover have "tx_input tx' ! i = inp" using IH i(1) inp(1,3) by simp
  ultimately show ?case using IH inp d by auto
qed

section \<open>The content of a wallet and the writes of a call\<close>

record wallet_content =
  wc_utxos :: "OutPoint \<Rightarrow> WalletUtxo option"
  wc_keys :: "bytes \<Rightarrow> bytes option"
  wc_addresses :: "address \<Rightarrow> bytes option"

inductive wallet_write :: "'s SimpleWallet \<Rightarrow> wallet_call \<Rightarrow> wallet_content \<Rightarrow> wallet_content \<Rightarrow> bool" where
  drop: "is_output_spent c (txid o') (vout o') = Inr True \<Longrightarrow>
    wallet_write W (RefreshCall c) v (v\<lparr>wc_utxos := (wc_utxos v)(o' := None)\<rparr>)"
| add: "wc_utxos v (utxo_outpoint u) = None \<Longrightarrow> get_utxos_for_address c a = Inr us \<Longrightarrow> u \<in> set us \<Longrightarrow>
    wallet_write W (RefreshCall c) v (v\<lparr>wc_utxos := (wc_utxos v)(utxo_outpoint u \<mapsto> u)\<rparr>)"
| lock: "reserved u \<Longrightarrow> wallet_write W (SelectCall amt r True) v (v\<lparr>wc_utxos := (wc_utxos v)(utxo_outpoint u \<mapsto> u)\<rparr>)"
| unlock: "o' \<in> set os \<Longrightarrow> wc_utxos v o' = Some u \<Longrightarrow>
    wallet_write W (UnreserveCall os) v (v\<lparr>wc_utxos := (wc_utxos v)(o' \<mapsto> u\<lparr>reserved := False\<rparr>)\<rparr>)"
| unlock_all: "wc_utxos v o' = Some u \<Longrightarrow>
    wallet_write W UnreserveAllCall v (v\<lparr>wc_utxos := (wc_utxos v)(o' \<mapsto> u\<lparr>reserved := False\<rparr>)\<rparr>)"
| new_key: "wallet_write W (NewKeyCall sk) v (v\<lparr>wc_keys := (wc_keys v)(pk_of (w_secp W) sk \<mapsto> sk)\<rparr>)"
| signer_key: "wc_keys v i = None \<Longrightarrow> wallet_write W (SignerCall i sk) v (v\<lparr>wc_keys := (wc_keys v)(pk_of (w_secp W) sk \<mapsto> sk)\<rparr>)"
| signer_id: "wc_keys v i = None \<or> wc_keys v i = Some sk \<Longrightarrow> wc_keys v (pk_of (w_secp W) sk) = Some sk \<Longrightarrow>
    wallet_write W (SignerCall i sk) v (v\<lparr>wc_keys := (wc_keys v)(i \<mapsto> sk)\<rparr>)"
| new_address: "wallet_write W (NewAddressCall sk) v
    (v\<lparr>wc_addresses := (wc_addresses v)(p2wpkh_address (w_lib W) (pk_of (w_secp W) sk) \<mapsto> sk)\<rparr>)"

inductive_cases wallet_writeE: "wallet_write W c v v'"

text \<open>Keys, key ids and output indices of a call are of their types.\<close>

fun call_ok :: "(bytes \<Rightarrow> bool) \<Rightarrow> wallet_call \<Rightarrow> bool" where
  "call_ok ok (RefreshCall c) = chain_ok c"
| "call_ok ok (UnreserveCall os) = (\<forall>o' \<in> set os. vout_ok o')"
| "call_ok ok (SignerCall i sk) = (length i = 32 \<and> ok sk)"
| "call_ok ok (NewKeyCall sk) = ok sk"
| "call_ok ok (NewAddressCall sk) = ok sk"
| "call_ok ok c = True"

section \<open>What the writes keep\<close>

definition reserved_at :: "OutPoint \<Rightarrow> wallet_content \<Rightarrow> bool" where
  "reserved_at o' v \<longleftrightarrow> (\<exists>u. wc_utxos v o' = Some u \<and> reserved u)"

text \<open>The calls that end a reservation: it is given up, or the chain says that the output is spent.\<close>

fun releases :: "OutPoint \<Rightarrow> wallet_call \<Rightarrow> bool" where
  "releases o' (RefreshCall c) = (is_output_spent c (txid o') (vout o') = Inr True)"
| "releases o' (UnreserveCall os) = (o' \<in> set os)"
| "releases o' UnreserveAllCall = True"
| "releases o' c = False"

lemma write_keeps_reserved: "wallet_write W c v v' \<Longrightarrow> \<not> releases o' c \<Longrightarrow> reserved_at o' v \<Longrightarrow> reserved_at o' v'"
  by (cases rule: wallet_write.cases) (auto simp: reserved_at_def)

text \<open>A key is stored under its public key, as often as it is stored at all, and an address is that of its key.\<close>

definition wallet_well_formed :: "'s SimpleWallet \<Rightarrow> wallet_content \<Rightarrow> bool" where
  "wallet_well_formed W v \<longleftrightarrow>
     (\<forall>i k. wc_keys v i = Some k \<longrightarrow> wc_keys v (pk_of (w_secp W) k) \<noteq> None \<and> (length i = 33 \<longrightarrow> i = pk_of (w_secp W) k)) \<and>
     (\<forall>a k. wc_addresses v a = Some k \<longrightarrow> a = p2wpkh_address (w_lib W) (pk_of (w_secp W) k))"

lemma key_upsert_well_formed:
  assumes "wallet_well_formed W v" "j = pk_of (w_secp W) sk \<or> wc_keys v (pk_of (w_secp W) sk) \<noteq> None \<and> length j \<noteq> 33"
  shows "wallet_well_formed W (v\<lparr>wc_keys := (wc_keys v)(j \<mapsto> sk)\<rparr>)"
proof -
  let ?m = "(wc_keys v)(j \<mapsto> sk)" and ?pk = "pk_of (w_secp W)"
  have "?m (?pk k) \<noteq> None \<and> (length i = 33 \<longrightarrow> i = ?pk k)" if m: "?m i = Some k" for i k
  proof (cases "i = j")
    case True
    then show ?thesis using assms(2) m by auto
  next
    case False
    then have "wc_keys v i = Some k" using m by simp
    then have "wc_keys v (?pk k) \<noteq> None" "length i = 33 \<longrightarrow> i = ?pk k" using assms(1) unfolding wallet_well_formed_def by blast+
    then show ?thesis by simp
  qed
  then show ?thesis using assms(1) by (simp add: wallet_well_formed_def)
qed

lemma well_formed_utxos: "wallet_well_formed W (v\<lparr>wc_utxos := m\<rparr>) = wallet_well_formed W v"
  by (simp add: wallet_well_formed_def)

lemma write_well_formed:
  assumes "wallet_write W c v v'" "call_ok ok c" "wallet_well_formed W v"
  shows "wallet_well_formed W v'"
  using assms
proof (cases rule: wallet_write.cases)
  case (new_address sk)
  then show ?thesis using assms(3) by (simp add: wallet_well_formed_def)
qed (auto simp: well_formed_utxos intro: key_upsert_well_formed)

lemma write_keeps_key:
  assumes "wallet_write W c v v'" "\<And>k. length (pk_of (w_secp W) k) = 33" "length i = 32" "wc_keys v i = Some sk"
  shows "wc_keys v' i = Some sk"
proof -
  have "pk_of (w_secp W) k \<noteq> i" for k using assms(2)[of k] assms(3) by auto
  moreover have "i \<noteq> pk_of (w_secp W) k" for k using assms(2)[of k] assms(3) by auto
  ultimately show ?thesis using assms(1,4) by (elim wallet_write.cases) auto
qed

section \<open>The interface\<close>

locale wallet_store =
  fixes ops :: "'e \<Rightarrow> 's WalletStorage"
    and lawful :: "'e \<Rightarrow> 's \<Rightarrow> bool"
    and view :: "'e \<Rightarrow> 's \<Rightarrow> wallet_content"
    and valid_key :: "'e \<Rightarrow> bytes \<Rightarrow> bool"
  assumes own: "lawful e s \<Longrightarrow> wc_utxos (view e s) o' = Some u \<Longrightarrow> utxo_outpoint u = o' \<and> vout_ok o'"
    and get_utxos: "lawful e s \<Longrightarrow> ws_get_utxos (ops e) s = Inr us \<Longrightarrow> set us = ran (wc_utxos (view e s))"
    and has_utxo: "lawful e s \<Longrightarrow> vout_ok (utxo_outpoint u) \<Longrightarrow> ws_has_utxo (ops e) s u = Inr b \<Longrightarrow>
      b \<longleftrightarrow> wc_utxos (view e s) (utxo_outpoint u) \<noteq> None"
    and upsert_utxo: "lawful e s \<Longrightarrow> vout_ok (utxo_outpoint u) \<Longrightarrow> ws_upsert_utxo (ops e) s u = Inr s' \<Longrightarrow>
      lawful e s' \<and> view e s' = (view e s)\<lparr>wc_utxos := (wc_utxos (view e s))(utxo_outpoint u \<mapsto> u)\<rparr>"
    and delete_utxo: "lawful e s \<Longrightarrow> vout_ok (utxo_outpoint u) \<Longrightarrow> ws_delete_utxo (ops e) s u = Inr s' \<Longrightarrow>
      lawful e s' \<and> view e s' = (view e s)\<lparr>wc_utxos := (wc_utxos (view e s))(utxo_outpoint u := None)\<rparr>"
    and unreserve: "lawful e s \<Longrightarrow> vout_ok o' \<Longrightarrow> ws_unreserve_utxo (ops e) s (txid o') (vout o') = Inr s' \<Longrightarrow>
      \<exists>u. wc_utxos (view e s) o' = Some u \<and> lawful e s' \<and>
        view e s' = (view e s)\<lparr>wc_utxos := (wc_utxos (view e s))(o' \<mapsto> u\<lparr>reserved := False\<rparr>)\<rparr>"
    and upsert_key: "lawful e s \<Longrightarrow> valid_key e k \<Longrightarrow> ws_upsert_key (ops e) s i k = Inr s' \<Longrightarrow>
      lawful e s' \<and> view e s' = (view e s)\<lparr>wc_keys := (wc_keys (view e s))(i \<mapsto> k)\<rparr>"
    and get_key: "lawful e s \<Longrightarrow> \<exists>r. ws_get_priv_key (ops e) s i = Some r \<and> (\<forall>x. r = Inr x \<longrightarrow> x = wc_keys (view e s) i)"
    and upsert_address: "lawful e s \<Longrightarrow> valid_key e k \<Longrightarrow> ws_upsert_address (ops e) s a k = Inr s' \<Longrightarrow>
      lawful e s' \<and> view e s' = (view e s)\<lparr>wc_addresses := (wc_addresses (view e s))(a \<mapsto> k)\<rparr>"
    and delete_address: "lawful e s \<Longrightarrow> ws_delete_address (ops e) s a = Inr s' \<Longrightarrow>
      lawful e s' \<and> view e s' = (view e s)\<lparr>wc_addresses := (wc_addresses (view e s))(a := None)\<rparr>"
    and get_address_key: "lawful e s \<Longrightarrow>
      \<exists>r. ws_get_priv_key_for_address (ops e) s a = Some r \<and> (\<forall>x. r = Inr x \<longrightarrow> x = wc_addresses (view e s) a)"
    and get_addresses: "lawful e s \<Longrightarrow> ws_get_addresses (ops e) s = pok as' \<Longrightarrow> set as' = dom (wc_addresses (view e s))"
begin

text \<open>A call whose keys and indices are of their types moves the content of the store by the writes of the call.\<close>

definition moved :: "'e \<Rightarrow> 's SimpleWallet \<Rightarrow> wallet_call \<Rightarrow> wallet_content \<Rightarrow> 's mgr_state \<Rightarrow> bool" where
  "moved e W c v0 st \<longleftrightarrow> lawful e (contract_db st) \<and> (wallet_write W c)\<^sup>*\<^sup>* v0 (view e (contract_db st))"

lemma moved_write:
  assumes "\<And>s s'. lawful e s \<Longrightarrow> f s = pok s' \<Longrightarrow> lawful e s' \<and> wallet_write W c (view e s) (view e s')"
  shows "keeps (moved e W c v0) (store_write f)"
proof (rule holds_write)
  fix st s' assume st: "moved e W c v0 st" "f (contract_db st) = pok s'"
  then have "lawful e s'" "wallet_write W c (view e (contract_db st)) (view e s')" using assms by (auto simp: moved_def)
  then show "moved e W c v0 (st\<lparr>contract_db := s'\<rparr>)" using st(1) by (auto simp: moved_def intro: rtranclp.rtrancl_into_rtrancl)
qed

lemma moved_read: "holds (moved e W c v0) (store_read f) (\<lambda>_. True)"
  by (rule holds_read) simp

lemma moved_read_then: "(\<And>x. holds (moved e W c v0) (f x) Q) \<Longrightarrow> holds (moved e W c v0) (mbind (store_read g) f) Q"
  by (rule bind_read)

lemma read_utxos:
  assumes "w_store W = ops e"
  shows "holds (moved e W' c v0) (wallet_utxos W) (\<lambda>us. \<forall>u \<in> set us. vout_ok (utxo_outpoint u))"
  unfolding wallet_utxos_def
proof (rule holds_read)
  fix st us assume "moved e W' c v0 st" "Some (ws_get_utxos (w_store W) (contract_db st)) = pok us"
  then show "\<forall>u \<in> set us. vout_ok (utxo_outpoint u)"
    using get_utxos[of e "contract_db st" us] own assms by (fastforce simp: moved_def ran_def)
qed

lemma drop_if_spent_moves:
  assumes "w_store W = ops e" "vout_ok (utxo_outpoint u)"
  shows "keeps (moved e W' (RefreshCall (w_chain W)) v0) (drop_if_spent W u)"
  unfolding drop_if_spent_def
  by (intro bind_lift holds_if moved_write holds_ret)
    (use assms delete_utxo in \<open>auto intro!: wallet_write.drop\<close>)

lemma add_if_new_moves:
  assumes "w_store W = ops e" "vout_ok (utxo_outpoint u)" "get_utxos_for_address (w_chain W) a = Inr us" "u \<in> set us"
  shows "keeps (moved e W' (RefreshCall (w_chain W)) v0) (add_if_new W u)"
proof (rule holdsI)
  fix st r st' assume st: "moved e W' (RefreshCall (w_chain W)) v0 st" "add_if_new W u st = Some (r, st')"
  let ?s = "contract_db st"
  show "moved e W' (RefreshCall (w_chain W)) v0 st' \<and> (\<forall>x. r = Inr x \<longrightarrow> True)"
  proof (cases "ws_has_utxo (ops e) ?s u = Inr False \<and> (\<exists>s'. ws_upsert_utxo (ops e) ?s u = Inr s')")
    case True
    then obtain s' where s': "ws_has_utxo (ops e) ?s u = Inr False" "ws_upsert_utxo (ops e) ?s u = Inr s'" by blast
    have law: "lawful e ?s" using st(1) by (simp add: moved_def)
    have "st' = st\<lparr>contract_db := s'\<rparr>" using st(2) s' assms(1)
      by (simp add: add_if_new_def mbind_def store_read_def upsert_wallet_utxo_def store_write_def)
    moreover have "lawful e s'" "wallet_write W' (RefreshCall (w_chain W)) (view e ?s) (view e s')"
      using upsert_utxo[OF law assms(2) s'(2)] has_utxo[OF law assms(2) s'(1)] assms(3,4) by (auto intro: wallet_write.add)
    ultimately show ?thesis using st(1) by (auto simp: moved_def intro: rtranclp.rtrancl_into_rtrancl)
  next
    case False
    then have "st' = st" using st(2) assms(1)
      by (auto simp: add_if_new_def mbind_def mret_def store_read_def upsert_wallet_utxo_def store_write_def split: sum.splits if_splits)
    then show ?thesis using st(1) by simp
  qed
qed

lemma refresh_moves:
  assumes "w_store W = ops e" "chain_ok (w_chain W)"
  shows "keeps (moved e W' (RefreshCall (w_chain W)) v0) (wallet_refresh W)"
  unfolding wallet_refresh_def
proof (intro holds_bind[OF read_utxos[OF assms(1)]] bind_keeps[of _ "mfor _ _"] moved_read_then holds_for bind_lift, goal_cases)
  case (1 us u)
  then show ?case using drop_if_spent_moves[OF assms(1)] by blast
next
  case (2 us uu as' a us' u)
  then show ?case using add_if_new_moves[OF assms(1), of u a us'] assms(2) by (auto simp: chain_ok_def)
qed

text \<open>Calls that only read the store.\<close>

lemma key_for_script_reads: "keeps (moved e W' c v0) (key_for_script W spk)"
  unfolding key_for_script_def by (intro bind_unwrap moved_read_then holds_unwrap) simp

lemma sign_psbt_input_reads: "keeps (moved e W' c v0) (wallet_sign_psbt_input W psbt i)"
  unfolding wallet_sign_psbt_input_def
  by (intro bind_lift bind_keeps[OF key_for_script_reads] holds_unwrap) simp

lemma sign_all_reads: "keeps (moved e W' c v0) (sign_all_psbt_inputs W is' psbt)"
  by (induction is' arbitrary: psbt) (auto intro!: holds_ret bind_keeps[OF sign_psbt_input_reads])

lemma sign_tx_reads: "keeps (moved e W' c v0) (wallet_sign_raw_transaction W tx)"
proof -
  have data: "keeps (moved e W' c v0) (signing_data W utxos x)" for utxos x
    unfolding signing_data_def by (intro holds_pair bind_lift bind_keeps[OF key_for_script_reads] holds_ret) simp
  then have "keeps (moved e W' c v0) (mtraverse (signing_data W utxos) xs)" for utxos xs
    by (rule holds_weaken[OF holds_traverse]) simp
  then show ?thesis unfolding wallet_sign_raw_transaction_def wallet_utxos_def
    by (intro moved_read_then bind_keeps[of _ "mtraverse _ _"] holds_lift) simp_all
qed

lemma empty_to_address_reads: "keeps (moved e W' c v0) (wallet_empty_to_address W a)"
  unfolding wallet_empty_to_address_def wallet_utxos_def
  by (intro bind_keeps[OF holds_expect[OF moved_read]] holds_if holds_fail bind_unwrap bind_keeps[OF sign_all_reads])
    (auto simp: holds_def moved_def split: sum.splits)

text \<open>Calls that write.\<close>

lemma select_moves:
  assumes "w_store W = ops e"
  shows "keeps (moved e W' (SelectCall amt r lock) v0) (wallet_get_utxos_for_amount W amt r lock)"
proof -
  have "keeps (moved e W' (SelectCall amt r lock) v0) (take_selected W us lock x)" if "\<forall>u \<in> set us. vout_ok (utxo_outpoint u)" for us x
    unfolding take_selected_def upsert_wallet_utxo_def
  proof (intro bind_unwrap bind_keeps[of _ "if lock then _ else _"] holds_if moved_write holds_ret, goal_cases)
    case (1 org s s')
    then have "vout_ok (utxo_outpoint (org\<lparr>reserved := True\<rparr>))"
      using that by (cases x) (auto simp: find_Some_iff)
    then show ?case using 1 upsert_utxo[of e s "org\<lparr>reserved := True\<rparr>" s'] assms
        wallet_write.lock[of "org\<lparr>reserved := True\<rparr>" W' amt r "view e s"] by simp
  qed simp_all
  then have "keeps (moved e W' (SelectCall amt r lock) v0) (mtraverse (take_selected W us lock) xs)"
    if "\<forall>u \<in> set us. vout_ok (utxo_outpoint u)" for us xs
    using that by (intro holds_weaken[OF holds_traverse]) simp_all
  then show ?thesis unfolding wallet_get_utxos_for_amount_def
    by (intro holds_bind[OF read_utxos[OF assms]] bind_lift) simp
qed

lemma unreserve_moves:
  assumes "w_store W = ops e" "vout_ok o'"
    "\<And>v u. wc_utxos v o' = Some u \<Longrightarrow> wallet_write W' c v (v\<lparr>wc_utxos := (wc_utxos v)(o' \<mapsto> u\<lparr>reserved := False\<rparr>)\<rparr>)"
  shows "keeps (moved e W' c v0) (wallet_unreserve W o')"
  unfolding wallet_unreserve_def
  by (intro moved_write) (use unreserve[OF _ assms(2)] assms(1,3) in fastforce)

lemma unreserve_all_moves:
  assumes "w_store W = ops e"
  shows "keeps (moved e W' UnreserveAllCall v0) (wallet_unreserve_all_utxos W)"
  unfolding wallet_unreserve_all_utxos_def
  by (intro holds_bind[OF holds_expect[OF read_utxos[OF assms]]] holds_for holds_expect unreserve_moves[OF assms] wallet_write.unlock_all) auto

lemma signer_moves:
  assumes "w_store W = ops e" "valid_key e sk"
  shows "keeps (moved e W (SignerCall i sk) v0) (wallet_derive_contract_signer W i sk)"
proof (rule holdsI)
  fix st r st' assume st: "moved e W (SignerCall i sk) v0 st" "wallet_derive_contract_signer W i sk st = Some (r, st')"
  let ?s = "contract_db st" and ?pk = "pk_of (w_secp W) sk" and ?step = "wallet_write W (SignerCall i sk)"
  have law: "lawful e ?s" "?step\<^sup>*\<^sup>* v0 (view e ?s)" using st(1) by (simp_all add: moved_def)
  obtain rk where rk: "ws_get_priv_key (ops e) ?s i = Some rk" "\<And>x. rk = Inr x \<Longrightarrow> x = wc_keys (view e ?s) i"
    using get_key[OF law(1), of i] by blast
  show "moved e W (SignerCall i sk) v0 st' \<and> (\<forall>x. r = Inr x \<longrightarrow> True)"
  proof (cases "rk = Inr None \<and> (\<exists>s1. ws_upsert_key (ops e) ?s ?pk sk = Inr s1)")
    case True
    then obtain s1 where s1: "rk = Inr None" "ws_upsert_key (ops e) ?s ?pk sk = Inr s1" by blast
    note v1 = upsert_key[OF law(1) assms(2) s1(2)]
    have to1: "?step\<^sup>*\<^sup>* v0 (view e s1)"
      using law(2) v1 wallet_write.signer_key[of "view e ?s" i W sk] rk(2)[OF s1(1)] by (auto intro: rtranclp.rtrancl_into_rtrancl)
    have st': "contract_db st' = s1 \<or> (\<exists>s2. ws_upsert_key (ops e) s1 i sk = Inr s2 \<and> contract_db st' = s2)"
      using st(2) rk(1) s1 assms(1)
      by (auto simp: wallet_derive_contract_signer_def mbind_def store_read_def upsert_wallet_key_def store_write_def mret_def split: sum.splits)
    have "lawful e s2 \<and> ?step (view e s1) (view e s2)" if "ws_upsert_key (ops e) s1 i sk = Inr s2" for s2
      using upsert_key[OF _ assms(2) that] v1 wallet_write.signer_id[of "view e s1" i sk W] rk(2)[OF s1(1)] by auto
    then show ?thesis using st' to1 v1 by (auto simp: moved_def intro: rtranclp.rtrancl_into_rtrancl)
  next
    case False
    then have "st' = st" using st(2) rk(1) assms(1)
      by (auto simp: wallet_derive_contract_signer_def mbind_def store_read_def upsert_wallet_key_def store_write_def mret_def
          split: sum.splits option.splits)
    then show ?thesis using st(1) by simp
  qed
qed

lemma call_moves:
  assumes "w_store W = ops e" "call_ok (valid_key e) c"
  shows "keeps (moved e W c v0) (run_wallet_call W c)"
proof (cases c)
  case (RefreshCall ch)
  then show ?thesis using refresh_moves[of "W\<lparr>w_chain := ch\<rparr>" e W v0] assms by (simp add: holds_map)
next
  case (SelectCall amt r lock)
  then show ?thesis using select_moves[OF assms(1)] by simp
next
  case (UnreserveCall os)
  then show ?thesis using assms by (auto simp: wallet_unreserve_utxos_def intro!: holds_map holds_for unreserve_moves wallet_write.unlock)
next
  case UnreserveAllCall
  then show ?thesis using unreserve_all_moves[OF assms(1)] by (simp add: holds_map)
next
  case (SignerCall i sk)
  then show ?thesis using signer_moves[OF assms(1)] assms(2) by (simp add: holds_map)
next
  case (NewKeyCall sk)
  then have "keeps (moved e W c v0) (upsert_wallet_key W (pk_of (w_secp W) sk) sk)"
    unfolding upsert_wallet_key_def by (intro moved_write) (use upsert_key assms wallet_write.new_key in fastforce)
  then show ?thesis using NewKeyCall by (auto simp: wallet_get_new_secret_key_def intro!: holds_map holds_ret bind_keeps[of _ "upsert_wallet_key _ _ _"])
next
  case (NewAddressCall sk)
  then have "keeps (moved e W c v0) (store_write (\<lambda>s. Some (ws_upsert_address (w_store W) s (p2wpkh_address (w_lib W) (pk_of (w_secp W) sk)) sk)))"
    by (intro moved_write) (use upsert_address assms wallet_write.new_address in fastforce)
  then show ?thesis using NewAddressCall
    by (auto simp: wallet_get_new_address_def Let_def intro!: holds_map holds_ret bind_keeps[of _ "store_write _"])
next
  case (SecretKeyCall pk)
  then show ?thesis by (auto simp: wallet_get_secret_key_for_pubkey_def intro!: holds_map moved_read_then holds_unwrap)
qed (auto intro!: holds_map sign_tx_reads sign_psbt_input_reads empty_to_address_reads)

text \<open>What every write of a call keeps is kept by the call.\<close>

lemma call_keeps:
  assumes "w_store W = ops e" "call_ok (valid_key e) c" "\<And>v v'. wallet_write W c v v' \<Longrightarrow> J v \<Longrightarrow> J v'"
  shows "keeps (\<lambda>st. lawful e (contract_db st) \<and> J (view e (contract_db st))) (run_wallet_call W c)"
proof (rule holdsI)
  fix st r st' assume st: "lawful e (contract_db st) \<and> J (view e (contract_db st))" "run_wallet_call W c st = Some (r, st')"
  then have "moved e W c (view e (contract_db st)) st" by (simp add: moved_def)
  from holdsD[OF call_moves[OF assms(1,2)] this st(2)]
  have m: "lawful e (contract_db st')" "(wallet_write W c)\<^sup>*\<^sup>* (view e (contract_db st)) (view e (contract_db st'))"
    by (simp_all add: moved_def)
  from m(2) st(1) have "J (view e (contract_db st'))" by (induction rule: rtranclp_induct) (use assms(3) in auto)
  then show "(lawful e (contract_db st') \<and> J (view e (contract_db st'))) \<and> (\<forall>x. r = Inr x \<longrightarrow> True)" using m(1) by simp
qed

lemma run_keeps_content:
  assumes "w_store W = ops e" "\<And>c. c \<in> set cs \<Longrightarrow> call_ok (valid_key e) c" "lawful e (contract_db st)" "J (view e (contract_db st))"
    "\<And>c v v'. c \<in> set cs \<Longrightarrow> wallet_write W c v v' \<Longrightarrow> J v \<Longrightarrow> J v'" "run_wallet W cs st = Some (rs, st')"
  shows "lawful e (contract_db st') \<and> J (view e (contract_db st'))"
proof -
  let ?I = "\<lambda>st. lawful e (contract_db st) \<and> J (view e (contract_db st))"
  have "keeps ?I (run_wallet_call W c)" if "c \<in> set cs" for c using call_keeps[OF assms(1)] assms(2,5) that by blast
  from run_keeps[OF this _ assms(6)] show ?thesis using assms(3,4) by simp
qed

text \<open>A selection gives no output that is reserved.\<close>

lemma selection_avoids_reserved:
  assumes "w_store W = ops e" "selects_candidates (w_lib W)"
  shows "holds (\<lambda>st. lawful e (contract_db st) \<and> reserved_at o' (view e (contract_db st)))
    (wallet_get_utxos_for_amount W amt r lock) (\<lambda>us. o' \<notin> utxo_outpoint ` set us)"
proof (rule holdsI)
  fix st r0 st' let ?I = "\<lambda>st. lawful e (contract_db st) \<and> reserved_at o' (view e (contract_db st))"
  assume st: "?I st" "wallet_get_utxos_for_amount W amt r lock st = Some (r0, st')"
  have "keeps ?I (run_wallet_call W (SelectCall amt r lock))"
    by (rule call_keeps[OF assms(1)]) (simp_all add: write_keeps_reserved)
  from holdsD[OF this st(1)] have I': "?I st'" using st(2) by simp
  have "o' \<notin> utxo_outpoint ` set us" if r0: "r0 = Inr us" for us
  proof -
    obtain org sel where run: "ws_get_utxos (ops e) (contract_db st) = Inr org"
      "coin_select (w_lib W) (map to_weighted_utxo (filter (\<lambda>x. \<not> reserved x) org)) (selection_fee_rate r) amt (p2wpkh_script (w_lib W) dummy_pubkey) = Inr sel"
      "mtraverse (take_selected W org lock) sel st = Some (Inr us, st')"
      using st(2) r0 assms(1)
      by (auto simp: wallet_get_utxos_for_amount_def mbind_def wallet_utxos_def store_read_def mlift_def map_sum_Inr split: sum.splits)
    have stored: "wc_utxos (view e (contract_db st)) (utxo_outpoint u) = Some u" if "u \<in> set org" for u
      using get_utxos[OF _ run(1)] own that st(1) by (fastforce simp: ran_def)
    have "holds (\<lambda>_. True) (take_selected W org lock x) (\<lambda>u. utxo_outpoint u \<noteq> o')" if "x \<in> set sel" for x
    proof -
      have "x \<in> (\<lambda>c. LocalUtxo (wu_outpoint c) (wu_txout c)) ` set (map to_weighted_utxo (filter (\<lambda>x. \<not> reserved x) org))"
        using assms(2) run(2) that unfolding selects_candidates_def by blast
      then obtain u where "u \<in> set org" "\<not> reserved u" "x = LocalUtxo (utxo_outpoint u) (utxo_tx_out u)"
        by (auto simp: to_weighted_utxo_def)
      moreover from this have "utxo_outpoint u \<noteq> o'" using stored st(1) by (auto simp: reserved_at_def)
      ultimately have "find_selected org x = Some u' \<Longrightarrow> utxo_outpoint u' \<noteq> o'" for u' by (auto simp: find_Some_iff)
      then show ?thesis unfolding take_selected_def
        by (intro bind_unwrap bind_keeps[of _ "if lock then _ else _"] holds_ret) (simp_all add: holds_def)
    qed
    from holdsD[OF holds_traverse[of sel "\<lambda>_. True" "take_selected W org lock", OF this] _ run(3)] show ?thesis by auto
  qed
  then show "?I st' \<and> (\<forall>us. r0 = Inr us \<longrightarrow> o' \<notin> utxo_outpoint ` set us)" using I' by blast
qed

lemma run_avoids_reserved:
  assumes "w_store W = ops e" "selects_candidates (w_lib W)" "\<And>c. c \<in> set cs \<Longrightarrow> call_ok (valid_key e) c \<and> \<not> releases o' c"
    "lawful e (contract_db st)" "reserved_at o' (view e (contract_db st))" "run_wallet W cs st = Some (rs, st')"
  shows "reserved_at o' (view e (contract_db st')) \<and> (\<forall>us \<in> set rs. o' \<notin> utxo_outpoint ` set us)"
proof -
  let ?I = "\<lambda>st. lawful e (contract_db st) \<and> reserved_at o' (view e (contract_db st))"
  have "holds ?I (run_wallet_call W c) (\<lambda>us. o' \<notin> utxo_outpoint ` set us)" if "c \<in> set cs" for c
  proof (cases "\<exists>amt r lock. c = SelectCall amt r lock")
    case True
    then show ?thesis using selection_avoids_reserved[OF assms(1,2)] by auto
  next
    case False
    have "holds (\<lambda>_. True) (run_wallet_call W c) (\<lambda>us. us = [])"
      using False by (cases c) (auto simp: mmap_def mbind_def mret_def holds_def split: option.splits sum.splits)
    then have none: "holds (\<lambda>_. True) (run_wallet_call W c) (\<lambda>us. o' \<notin> utxo_outpoint ` set us)" by (rule holds_weaken) simp
    have ok: "call_ok (valid_key e) c" "\<not> releases o' c" using assms(3)[OF that] by simp_all
    have "keeps ?I (run_wallet_call W c)" by (rule call_keeps[OF assms(1) ok(1)]) (rule write_keeps_reserved[OF _ ok(2)])
    then show ?thesis by (rule holds_both[OF _ none])
  qed
  from run_keeps[OF this _ assms(6)] show ?thesis using assms(4,5) by simp
qed

text \<open>A locking selection reserves what it gives.\<close>

lemma selection_reserves:
  assumes "w_store W = ops e" "lawful e (contract_db st)" "wallet_get_utxos_for_amount W amt r True st = Some (Inr us, st')"
  shows "lawful e (contract_db st') \<and> (\<forall>u \<in> set us. reserved_at (utxo_outpoint u) (view e (contract_db st')))"
proof -
  obtain org sel where run: "ws_get_utxos (ops e) (contract_db st) = Inr org" "mtraverse (take_selected W org True) sel st = Some (Inr us, st')"
    using assms(1,3) by (auto simp: wallet_get_utxos_for_amount_def mbind_def wallet_utxos_def store_read_def mlift_def split: sum.splits)
  have index: "vout_ok (utxo_outpoint u)" if "u \<in> set org" for u
    using get_utxos[OF assms(2) run(1)] own[OF assms(2)] that by (fastforce simp: ran_def)
  let ?L = "\<lambda>st. lawful e (contract_db st)" and ?R = "\<lambda>(u :: WalletUtxo) st. reserved_at (utxo_outpoint u) (view e (contract_db st))"
  have one: "?L st2 \<and> (\<forall>u. r1 = Inr u \<longrightarrow> ?R u st2) \<and> (\<forall>w. ?R w st1 \<longrightarrow> ?R w st2)"
    if st1: "?L st1" "take_selected W org True x st1 = Some (r1, st2)" for x st1 r1 st2
  proof (cases "find_selected org x")
    case (Some u)
    then have u: "vout_ok (utxo_outpoint (u\<lparr>reserved := True\<rparr>))" using index by (cases x) (auto simp: find_Some_iff)
    show ?thesis
    proof (cases "ws_upsert_utxo (ops e) (contract_db st1) (u\<lparr>reserved := True\<rparr>)")
      case (Inr s')
      then have "r1 = Inr u" "contract_db st2 = s'" using st1(2) Some assms(1)
        by (auto simp: take_selected_def mbind_def munwrap_def mret_def upsert_wallet_utxo_def store_write_def)
      then show ?thesis using upsert_utxo[OF st1(1) u Inr] by (auto simp: reserved_at_def)
    qed (use st1 Some assms(1) in \<open>auto simp: take_selected_def mbind_def munwrap_def mret_def upsert_wallet_utxo_def store_write_def\<close>)
  qed (use st1 in \<open>simp add: take_selected_def mbind_def munwrap_def mpanic_def\<close>)
  have "?L st' \<and> (\<forall>u \<in> set us. ?R u st') \<and> (\<forall>w. ?R w st \<longrightarrow> ?R w st')" if "?L st" "mtraverse (take_selected W org True) sel st = Some (Inr us, st')" for st us
    using that
  proof (induction sel arbitrary: st us)
    case (Cons x xs)
    then obtain u st1 us' where 1: "take_selected W org True x st = Some (Inr u, st1)"
        "mtraverse (take_selected W org True) xs st1 = Some (Inr us', st')" "us = u # us'"
      by (auto simp: mbind_def mret_def split: option.splits sum.splits)
    with one[OF Cons.prems(1) 1(1)] Cons.IH[of st1 us'] show ?case by auto
  qed (simp add: mret_def)
  then show ?thesis using assms(2) run(2) by blast
qed

text \<open>A key that is stored for an id stays, and is what deriving the id again gives.\<close>

lemma upsert_key_run:
  assumes "w_store W = ops e" "valid_key e k" "lawful e (contract_db st)" "upsert_wallet_key W i k st = Some (Inr u, st')"
  shows "lawful e (contract_db st') \<and> wc_keys (view e (contract_db st')) = (wc_keys (view e (contract_db st)))(i \<mapsto> k)"
proof -
  obtain s' where "ws_upsert_key (ops e) (contract_db st) i k = Inr s'" "contract_db st' = s'"
    using assms(1,4) by (cases "ws_upsert_key (ops e) (contract_db st) i k") (auto simp: upsert_wallet_key_def store_write_def)
  then show ?thesis using upsert_key[OF assms(3,2)] by simp
qed

lemma signer_stored:
  assumes "w_store W = ops e" "valid_key e sk0" "lawful e (contract_db st)" "wallet_derive_contract_signer W i sk0 st = Some (Inr sk, st')"
  shows "lawful e (contract_db st') \<and> wc_keys (view e (contract_db st')) i = Some sk"
proof -
  let ?s = "contract_db st" and ?pk = "pk_of (w_secp W) sk0"
  obtain rk where rk: "ws_get_priv_key (ops e) ?s i = Some rk" "\<And>x. rk = Inr x \<Longrightarrow> x = wc_keys (view e ?s) i"
    using get_key[OF assms(3), of i] by blast
  then obtain known where known: "ws_get_priv_key (ops e) ?s i = Some (Inr known)" "known = wc_keys (view e ?s) i"
    using assms(1,4) by (cases rk) (simp_all add: wallet_derive_contract_signer_def mbind_def store_read_def)
  show ?thesis
  proof (cases known)
    case None
    then have "mbind (upsert_wallet_key W ?pk sk0) (\<lambda>_. mbind (upsert_wallet_key W i sk0) (\<lambda>_. mret sk0)) st = Some (Inr sk, st')"
      using assms(1,4) known(1) by (simp add: wallet_derive_contract_signer_def mbind_def store_read_def)
    then obtain st1 where st1: "upsert_wallet_key W ?pk sk0 st = Some (Inr (), st1)" "upsert_wallet_key W i sk0 st1 = Some (Inr (), st')" "sk = sk0"
      unfolding mbind_Inr mret_def by auto
    have "lawful e (contract_db st1)" using upsert_key_run[OF assms(1-3) st1(1)] by simp
    from upsert_key_run[OF assms(1,2) this st1(2)] show ?thesis using st1(3) by simp
  next
    case (Some k)
    then show ?thesis using assms(1,3,4) known
      by (auto simp: wallet_derive_contract_signer_def mbind_def store_read_def mret_def)
  qed
qed

lemma signer_known:
  assumes "w_store W = ops e" "lawful e (contract_db st)" "wc_keys (view e (contract_db st)) i = Some sk"
  shows "\<exists>r. wallet_derive_contract_signer W i sk0 st = Some (r, st) \<and> (\<forall>x. r = Inr x \<longrightarrow> x = sk)"
  using get_key[OF assms(2), of i] assms(1,3)
  by (auto simp: wallet_derive_contract_signer_def mbind_def store_read_def mret_def split: sum.splits)

lemma key_for_pubkey:
  assumes "w_store W = ops e" "lawful e (contract_db st)" "wallet_well_formed W (view e (contract_db st))"
    "wc_keys (view e (contract_db st)) i = Some sk" "length (pk_of (w_secp W) sk) = 33"
  shows "\<exists>r. wallet_get_secret_key_for_pubkey W (pk_of (w_secp W) sk) st = Some (r, st) \<and> (\<forall>x. r = Inr x \<longrightarrow> pk_of (w_secp W) x = pk_of (w_secp W) sk)"
proof -
  let ?keys = "wc_keys (view e (contract_db st))" and ?pk = "pk_of (w_secp W) sk"
  obtain k where k: "?keys ?pk = Some k" using assms(3,4) unfolding wallet_well_formed_def by blast
  have "pk_of (w_secp W) k = ?pk" using assms(3,5) k unfolding wallet_well_formed_def by metis
  then show ?thesis using get_key[OF assms(2), of ?pk] assms(1) k
    by (auto simp: wallet_get_secret_key_for_pubkey_def mbind_def store_read_def munwrap_def mret_def split: sum.splits)
qed

text \<open>Every input is signed with the key of the address it spends from.\<close>

lemma key_for_script_result:
  assumes "w_store W = ops e" "lawful e (contract_db st)" "wallet_well_formed W (view e (contract_db st))"
    "key_for_script W spk st = Some (r, st')"
  shows "st' = st \<and> (\<forall>sk. r = Inr sk \<longrightarrow> address_from_script (w_lib W) spk = Inr (p2wpkh_address (w_lib W) (pk_of (w_secp W) sk)))"
proof -
  obtain a where a: "address_from_script (w_lib W) spk = Inr a" "mbind (store_read (\<lambda>s. ws_get_priv_key_for_address (ops e) s a)) munwrap st = Some (r, st')"
    using assms(1,4) by (cases "address_from_script (w_lib W) spk") (auto simp: key_for_script_def mbind_def munwrap_def mret_def mpanic_def unwrap_def)
  obtain rk where rk: "ws_get_priv_key_for_address (ops e) (contract_db st) a = Some rk" "\<And>x. rk = Inr x \<Longrightarrow> x = wc_addresses (view e (contract_db st)) a"
    using get_address_key[OF assms(2), of a] by blast
  have own: "wc_addresses (view e (contract_db st)) a = Some sk \<Longrightarrow> a = p2wpkh_address (w_lib W) (pk_of (w_secp W) sk)" for sk
    using assms(3) by (simp add: wallet_well_formed_def)
  show ?thesis
  proof (cases rk)
    case (Inr x)
    then have "munwrap x st = Some (r, st')" using a(2) rk(1) by (simp add: mbind_def store_read_def)
    then show ?thesis using a(1) own rk(2)[OF Inr] by (auto simp: munwrap_def mret_def mpanic_def split: option.splits)
  qed (use a rk(1) in \<open>auto simp: mbind_def store_read_def\<close>)
qed

lemma signing_data_result:
  assumes "w_store W = ops e" "lawful e (contract_db st)" "wallet_well_formed W (view e (contract_db st))"
    "signing_data W org (i, inp) st = Some (r, st')"
  shows "st' = st \<and> (\<forall>d. r = Inr d \<longrightarrow> (\<exists>u sk. u \<in> set org \<and> utxo_outpoint u = previous_output inp \<and>
    address_from_script (w_lib W) (script_pubkey (utxo_tx_out u)) = Inr (p2wpkh_address (w_lib W) (pk_of (w_secp W) sk)) \<and>
    d = (i, sk, txo_value (utxo_tx_out u))))"
proof (cases "List.find (\<lambda>x. utxo_outpoint x = previous_output inp) org")
  case None
  then show ?thesis using assms(4) by (auto simp: signing_data_def mbind_def mlift_def)
next
  case (Some u)
  then obtain rk st1 where k: "key_for_script W (script_pubkey (utxo_tx_out u)) st = Some (rk, st1)"
    using assms(4) by (auto simp: signing_data_def mbind_def mlift_def split: option.splits)
  have "u \<in> set org" "utxo_outpoint u = previous_output inp" using Some by (auto simp: find_Some_iff)
  then show ?thesis using assms(4) Some k key_for_script_result[OF assms(1-3) k]
    by (cases rk) (auto simp: signing_data_def mbind_def mlift_def mret_def)
qed

lemma sign_tx_result:
  assumes "w_store W = ops e" "lawful e (contract_db st)" "wallet_well_formed W (view e (contract_db st))" "sighash_ignores_witness (w_secp W)"
    "wallet_sign_raw_transaction W tx st = Some (Inr tx', st')"
  shows "st' = st \<and> (\<exists>ins. tx' = tx\<lparr>tx_input := ins\<rparr> \<and> length ins = length (tx_input tx) \<and>
    (\<forall>i < length (tx_input tx). \<exists>u sk. wc_utxos (view e (contract_db st)) (previous_output (tx_input tx ! i)) = Some u \<and>
      address_from_script (w_lib W) (script_pubkey (utxo_tx_out u)) = Inr (p2wpkh_address (w_lib W) (pk_of (w_secp W) sk)) \<and>
      signed_by (w_secp W) tx i sk (txo_value (utxo_tx_out u)) (ins ! i)))"
proof -
  let ?xs = "zip [0..<length (tx_input tx)] (tx_input tx)"
  obtain org data st1 where org: "ws_get_utxos (ops e) (contract_db st) = Inr org" "mtraverse (signing_data W org) ?xs st = Some (Inr data, st1)"
    "sign_inputs (w_secp W) data tx = pok tx'" "st' = st1"
    using assms(1,5) unfolding wallet_sign_raw_transaction_def mbind_Inr mlift_Inr by (auto simp: wallet_utxos_def store_read_def)
  note one = signing_data_result[OF assms(1-3)]
  have all: "st1 = st \<and> list_all2 (\<lambda>x d. signing_data W org x st = Some (Inr d, st)) ?xs data"
    using traverse_reads[OF _ org(2)] one by (metis prod.collapse)
  have stored: "wc_utxos (view e (contract_db st)) (utxo_outpoint u) = Some u" if "u \<in> set org" for u
    using get_utxos[OF assms(2) org(1)] own[OF assms(2)] that by (fastforce simp: ran_def)
  have len: "length data = length (tx_input tx)" using all by (auto dest: list_all2_lengthD)
  have nth: "\<exists>u sk. data ! i = (i, sk, txo_value (utxo_tx_out u)) \<and> wc_utxos (view e (contract_db st)) (previous_output (tx_input tx ! i)) = Some u \<and>
      address_from_script (w_lib W) (script_pubkey (utxo_tx_out u)) = Inr (p2wpkh_address (w_lib W) (pk_of (w_secp W) sk))"
    if "i < length (tx_input tx)" for i
  proof -
    have "signing_data W org (i, tx_input tx ! i) st = Some (Inr (data ! i), st)"
      using list_all2_nthD[OF conjunct2[OF all], of i] that by simp
    from one[OF this] stored show ?thesis by metis
  qed
  have "map fst data = [0..<length (tx_input tx)]" using nth len by (intro nth_equalityI) force+
  then have "distinct (map fst data)" by simp
  from sign_inputs_pok[OF assms(4) org(3) this] obtain ins where ins: "tx' = tx\<lparr>tx_input := ins\<rparr>" "length ins = length (tx_input tx)"
    "\<forall>(i, sk, v) \<in> set data. signed_by (w_secp W) tx i sk v (ins ! i)" by auto
  have "\<exists>u sk. wc_utxos (view e (contract_db st)) (previous_output (tx_input tx ! i)) = Some u \<and>
      address_from_script (w_lib W) (script_pubkey (utxo_tx_out u)) = Inr (p2wpkh_address (w_lib W) (pk_of (w_secp W) sk)) \<and>
      signed_by (w_secp W) tx i sk (txo_value (utxo_tx_out u)) (ins ! i)" if i: "i < length (tx_input tx)" for i
  proof -
    obtain u sk where d: "data ! i = (i, sk, txo_value (utxo_tx_out u))" "wc_utxos (view e (contract_db st)) (previous_output (tx_input tx ! i)) = Some u"
      "address_from_script (w_lib W) (script_pubkey (utxo_tx_out u)) = Inr (p2wpkh_address (w_lib W) (pk_of (w_secp W) sk))" using nth[OF i] by blast
    have "data ! i \<in> set data" using i len by simp
    then have "signed_by (w_secp W) tx i sk (txo_value (utxo_tx_out u)) (ins ! i)" using ins(3) d(1) by fastforce
    then show ?thesis using d by blast
  qed
  then show ?thesis using all org(4) ins(1,2) by blast
qed

end

end
