(* ===== verification/SledWallet.thy ===== *)
theory SledWallet
  imports WalletSpec SledChannelsSpec
begin

text \<open>
  The wallet half of the storage provider, \<open>dlc-sled-storage-provider/src/lib.rs\<close>, with feature \<open>wallet\<close>: keys, addresses and outputs
  in three trees of the database. It keeps the contract \<open>wallet_store\<close>, so that what the wallet promises holds for it.
\<close>

section \<open>The provider\<close>

definition UTXO_TREE :: nat where "UTXO_TREE = 6"
definition KEY_PAIR_TREE :: nat where "KEY_PAIR_TREE = 7"
definition ADDRESS_TREE :: nat where "ADDRESS_TREE = 8"

lemma wallet_trees_distinct [simp]:
  "UTXO_TREE \<noteq> KEY_PAIR_TREE" "UTXO_TREE \<noteq> ADDRESS_TREE" "KEY_PAIR_TREE \<noteq> UTXO_TREE" "KEY_PAIR_TREE \<noteq> ADDRESS_TREE"
  "ADDRESS_TREE \<noteq> UTXO_TREE" "ADDRESS_TREE \<noteq> KEY_PAIR_TREE"
  by (simp_all add: UTXO_TREE_def KEY_PAIR_TREE_def ADDRESS_TREE_def)

text \<open>
  The database with the operations that only the wallet uses, and the encodings: an address is a text, and what is stored as a key
  must be one (\<open>None\<close> for a text that is not an address, on which the provider panics).
\<close>

record 't wallet_provider =
  wp_sled :: "'t sled"
  sled_contains_key :: "'t \<Rightarrow> bytes \<Rightarrow> string + bool"
  sled_keys :: "'t \<Rightarrow> (string + bytes) list"
  wp_secp :: secp
  ser_utxo :: "WalletUtxo \<Rightarrow> string + bytes"
  de_utxo :: "bytes \<Rightarrow> string + WalletUtxo"
  address_text :: "address \<Rightarrow> bytes"
  parse_address :: "bytes \<Rightarrow> (string + address) option"
  outpoint_text :: "bytes \<Rightarrow> nat \<Rightarrow> string"

definition get_address_key :: "'t wallet_provider \<Rightarrow> address \<Rightarrow> bytes" where
  "get_address_key P a = address_text P a"

definition get_utxo_key :: "bytes \<Rightarrow> nat \<Rightarrow> bytes" where
  "get_utxo_key t v = t @ be_bytes 4 v"

abbreviation utxo_key :: "WalletUtxo \<Rightarrow> bytes" where
  "utxo_key u \<equiv> get_utxo_key (txid (utxo_outpoint u)) (vout (utxo_outpoint u))"

definition insert_in :: "'t wallet_provider \<Rightarrow> 't db \<Rightarrow> nat \<Rightarrow> bytes \<Rightarrow> bytes \<Rightarrow> Error + 't db" where
  "insert_in P db tree k v =
     rbind (open_tree (wp_sled P) db tree) (\<lambda>t. rbind (to_storage_error (sled_insert (wp_sled P) t k v)) (\<lambda>t'. Inr (db(tree := t'))))"

definition remove_in :: "'t wallet_provider \<Rightarrow> 't db \<Rightarrow> nat \<Rightarrow> bytes \<Rightarrow> Error + 't db" where
  "remove_in P db tree k =
     rbind (open_tree (wp_sled P) db tree) (\<lambda>t. rbind (to_storage_error (sled_remove (wp_sled P) t k)) (\<lambda>t'. Inr (db(tree := t'))))"

text \<open>A stored key that is not a secret key panics.\<close>

definition read_key :: "'t wallet_provider \<Rightarrow> 't db \<Rightarrow> nat \<Rightarrow> bytes \<Rightarrow> (Error + bytes option) option" where
  "read_key P db tree k =
     pbind (Some (open_tree (wp_sled P) db tree)) (\<lambda>t.
     pbind (Some (to_storage_error (sled_get (wp_sled P) t k))) (\<lambda>r. case r of
       None \<Rightarrow> pok None
     | Some raw_key \<Rightarrow> obind (unwrap (sk_from_slice (wp_secp P) raw_key)) (\<lambda>sk. pok (Some sk))))"

definition sled_upsert_address :: "'t wallet_provider \<Rightarrow> 't db \<Rightarrow> address \<Rightarrow> bytes \<Rightarrow> Error + 't db" where
  "sled_upsert_address P db a sk = insert_in P db ADDRESS_TREE (get_address_key P a) sk"

definition sled_delete_address :: "'t wallet_provider \<Rightarrow> 't db \<Rightarrow> address \<Rightarrow> Error + 't db" where
  "sled_delete_address P db a = remove_in P db ADDRESS_TREE (get_address_key P a)"

fun read_addresses :: "'t wallet_provider \<Rightarrow> (string + bytes) list \<Rightarrow> (Error + address list) option" where
  "read_addresses P [] = pok []"
| "read_addresses P (x # xs) =
     pbind (Some (to_storage_error x)) (\<lambda>k.
     obind (parse_address P k) (\<lambda>r.
     pbind (Some (map_sum InvalidState id r)) (\<lambda>a.
     pbind (read_addresses P xs) (\<lambda>as'. pok (a # as')))))"

definition sled_get_addresses :: "'t wallet_provider \<Rightarrow> 't db \<Rightarrow> (Error + address list) option" where
  "sled_get_addresses P db = pbind (Some (open_tree (wp_sled P) db ADDRESS_TREE)) (\<lambda>t. read_addresses P (sled_keys P t))"

definition sled_get_priv_key_for_address :: "'t wallet_provider \<Rightarrow> 't db \<Rightarrow> address \<Rightarrow> (Error + bytes option) option" where
  "sled_get_priv_key_for_address P db a = read_key P db ADDRESS_TREE (get_address_key P a)"

definition sled_upsert_key :: "'t wallet_provider \<Rightarrow> 't db \<Rightarrow> bytes \<Rightarrow> bytes \<Rightarrow> Error + 't db" where
  "sled_upsert_key P db i sk = insert_in P db KEY_PAIR_TREE i sk"

definition sled_get_priv_key :: "'t wallet_provider \<Rightarrow> 't db \<Rightarrow> bytes \<Rightarrow> (Error + bytes option) option" where
  "sled_get_priv_key P db i = read_key P db KEY_PAIR_TREE i"

definition sled_upsert_utxo :: "'t wallet_provider \<Rightarrow> 't db \<Rightarrow> WalletUtxo \<Rightarrow> Error + 't db" where
  "sled_upsert_utxo P db u =
     rbind (open_tree (wp_sled P) db UTXO_TREE) (\<lambda>t.
     rbind (map_sum IOError id (ser_utxo P u)) (\<lambda>buf. insert_in P db UTXO_TREE (utxo_key u) buf))"

definition sled_has_utxo :: "'t wallet_provider \<Rightarrow> 't db \<Rightarrow> WalletUtxo \<Rightarrow> Error + bool" where
  "sled_has_utxo P db u =
     rbind (open_tree (wp_sled P) db UTXO_TREE) (\<lambda>t. to_storage_error (sled_contains_key P t (utxo_key u)))"

definition sled_delete_utxo :: "'t wallet_provider \<Rightarrow> 't db \<Rightarrow> WalletUtxo \<Rightarrow> Error + 't db" where
  "sled_delete_utxo P db u = remove_in P db UTXO_TREE (utxo_key u)"

definition sled_get_utxos :: "'t wallet_provider \<Rightarrow> 't db \<Rightarrow> Error + WalletUtxo list" where
  "sled_get_utxos P db =
     rbind (open_tree (wp_sled P) db UTXO_TREE) (\<lambda>t.
     rmap (\<lambda>x. rbind (to_storage_error x) (\<lambda>ivec. map_sum InvalidState id (de_utxo P ivec))) (sled_values (wp_sled P) t))"

definition sled_unreserve_utxo :: "'t wallet_provider \<Rightarrow> 't db \<Rightarrow> bytes \<Rightarrow> nat \<Rightarrow> Error + 't db" where
  "sled_unreserve_utxo P db t v =
     rbind (open_tree (wp_sled P) db UTXO_TREE) (\<lambda>tree. let key = get_utxo_key t v in
     rbind (to_storage_error (sled_get (wp_sled P) tree key)) (\<lambda>r. case r of
       None \<Rightarrow> Inl (InvalidState (''No utxo for '' @ outpoint_text P t v))
     | Some res \<Rightarrow>
         rbind (map_sum (\<lambda>_. InvalidState ''Could not read UTXO'') id (de_utxo P res)) (\<lambda>u.
         rbind (map_sum IOError id (ser_utxo P (u\<lparr>reserved := False\<rparr>))) (\<lambda>buf. insert_in P db UTXO_TREE key buf))))"

definition sled_wallet :: "'t wallet_provider \<Rightarrow> 't db WalletStorage" where
  "sled_wallet P =
     \<lparr>ws_upsert_address = sled_upsert_address P, ws_delete_address = sled_delete_address P, ws_get_addresses = sled_get_addresses P,
      ws_get_priv_key_for_address = sled_get_priv_key_for_address P, ws_upsert_key = sled_upsert_key P, ws_get_priv_key = sled_get_priv_key P,
      ws_upsert_utxo = sled_upsert_utxo P, ws_has_utxo = sled_has_utxo P, ws_delete_utxo = sled_delete_utxo P, ws_get_utxos = sled_get_utxos P,
      ws_unreserve_utxo = sled_unreserve_utxo P\<rparr>"

section \<open>The provider keeps the contract\<close>

text \<open>What the documentation of sled says of the other operations; encodings that read back.\<close>

definition wallet_laws :: "'t wallet_provider \<Rightarrow> bool" where
  "wallet_laws P \<longleftrightarrow> sled_laws (wp_sled P) \<and>
     (\<forall>t k b. sled_contains_key P t k = Inr b \<longrightarrow> (b \<longleftrightarrow> sled_content (wp_sled P) t k \<noteq> None)) \<and>
     (\<forall>t ks. sled_keys P t = map Inr ks \<longrightarrow> set ks = dom (sled_content (wp_sled P) t)) \<and>
     reads_back (ser_utxo P) (de_utxo P) \<and> (\<forall>a. parse_address P (address_text P a) = Some (Inr a))"

definition secret_key :: "'t wallet_provider \<Rightarrow> bytes \<Rightarrow> bool" where
  "secret_key P k \<longleftrightarrow> sk_from_slice (wp_secp P) k = Inr k"

text \<open>The trees hold what the provider wrote.\<close>

definition wallet_written :: "'t wallet_provider \<Rightarrow> 't db \<Rightarrow> bool" where
  "wallet_written P db \<longleftrightarrow>
     (\<forall>k b. sled_content (wp_sled P) (db UTXO_TREE) k = Some b \<longrightarrow>
        (\<exists>u. ser_utxo P u = Inr b \<and> k = utxo_key u \<and> vout_ok (utxo_outpoint u))) \<and>
     (\<forall>k v. sled_content (wp_sled P) (db KEY_PAIR_TREE) k = Some v \<longrightarrow> secret_key P v) \<and>
     (\<forall>k v. sled_content (wp_sled P) (db ADDRESS_TREE) k = Some v \<longrightarrow> secret_key P v \<and> k \<in> range (address_text P))"

definition wallet_view :: "'t wallet_provider \<Rightarrow> 't db \<Rightarrow> wallet_content" where
  "wallet_view P db =
     \<lparr>wc_utxos = (\<lambda>o'. if vout_ok o' then Option.bind (sled_content (wp_sled P) (db UTXO_TREE) (get_utxo_key (txid o') (vout o')))
        (\<lambda>b. case de_utxo P b of Inr u \<Rightarrow> Some u | Inl _ \<Rightarrow> None) else None),
      wc_keys = sled_content (wp_sled P) (db KEY_PAIR_TREE),
      wc_addresses = (\<lambda>a. sled_content (wp_sled P) (db ADDRESS_TREE) (address_text P a))\<rparr>"

lemma wallet_lawsD:
  assumes "wallet_laws P"
  shows "sled_laws (wp_sled P)" "sled_contains_key P t k = Inr b \<Longrightarrow> b \<longleftrightarrow> sled_content (wp_sled P) t k \<noteq> None"
    "sled_keys P t = map Inr ks \<Longrightarrow> set ks = dom (sled_content (wp_sled P) t)" "ser_utxo P u = Inr x \<Longrightarrow> de_utxo P x = Inr u"
    "parse_address P (address_text P a) = Some (Inr a)"
  using assms unfolding wallet_laws_def reads_back_def by blast+

lemma address_text_inject: "wallet_laws P \<Longrightarrow> address_text P a = address_text P b \<longleftrightarrow> a = b"
  using wallet_lawsD(5)[of P] by (metis option.inject sum.inject(2))

lemma be_bytes_4_inject: "v < 2 ^ 32 \<Longrightarrow> w < 2 ^ 32 \<Longrightarrow> be_bytes 4 v = be_bytes 4 w \<longleftrightarrow> v = w"
proof -
  have "from_be_bytes (be_bytes 4 v) = v" if "v < 2 ^ 32" for v using that by (simp add: from_be_bytes_def read_be_bytes)
  then show "v < 2 ^ 32 \<Longrightarrow> w < 2 ^ 32 \<Longrightarrow> be_bytes 4 v = be_bytes 4 w \<longleftrightarrow> v = w" by metis
qed

lemma get_utxo_key_inject:
  "v < 2 ^ 32 \<Longrightarrow> w < 2 ^ 32 \<Longrightarrow> get_utxo_key t v = get_utxo_key t' w \<longleftrightarrow> t = t' \<and> v = w"
proof -
  assume "v < 2 ^ 32" "w < 2 ^ 32"
  moreover have "length (be_bytes 4 v) = length (be_bytes 4 w)" by (simp add: be_bytes_def)
  ultimately show ?thesis using be_bytes_4_inject by (simp add: get_utxo_key_def)
qed

lemma list_all2_right_Inr: "list_all2 (\<lambda>x u. \<exists>b. x = Inr b \<and> Q b u) xs us \<Longrightarrow> (\<And>bs. xs = map Inr bs \<Longrightarrow> thesis) \<Longrightarrow> thesis"
proof -
  assume all: "list_all2 (\<lambda>x u. \<exists>b. x = Inr b \<and> Q b u) xs us" and thesis: "\<And>bs. xs = map Inr bs \<Longrightarrow> thesis"
  from all have "\<exists>bs. xs = map Inr bs" by (induction rule: list_all2_induct) (auto intro: exI[of _ "_ # _"])
  then show thesis using thesis by blast
qed

lemma decoded: "(case r of Inr u \<Rightarrow> Some u | Inl _ \<Rightarrow> None) = Some x \<longleftrightarrow> r = Inr x"
  by (cases r) simp_all

lemma outpoint_eqI: "txid a = txid b \<Longrightarrow> vout a = vout b \<Longrightarrow> a = (b :: OutPoint)"
  by (cases a; cases b) simp

text \<open>Writing and reading one tree.\<close>

lemma insert_in_content:
  assumes "wallet_laws P" "insert_in P db tree k v = Inr db'"
  shows "\<exists>t'. db' = db(tree := t') \<and> sled_content (wp_sled P) t' = (sled_content (wp_sled P) (db tree))(k \<mapsto> v)"
  using assms(2) sled_lawsD(2)[OF wallet_lawsD(1)[OF assms(1)]] by (auto simp: insert_in_def)

lemma remove_in_content:
  assumes "wallet_laws P" "remove_in P db tree k = Inr db'"
  shows "\<exists>t'. db' = db(tree := t') \<and> sled_content (wp_sled P) t' = (sled_content (wp_sled P) (db tree))(k := None)"
  using assms(2) sled_lawsD(3)[OF wallet_lawsD(1)[OF assms(1)]] by (auto simp: remove_in_def)

lemma read_key_content:
  assumes "wallet_laws P" "\<And>v. sled_content (wp_sled P) (db tree) k = Some v \<Longrightarrow> secret_key P v"
  shows "\<exists>r. read_key P db tree k = Some r \<and> (\<forall>x. r = Inr x \<longrightarrow> x = sled_content (wp_sled P) (db tree) k)"
proof (cases "open_tree (wp_sled P) db tree")
  case (Inr t)
  note opened = this
  then have t: "t = db tree" by simp
  show ?thesis
  proof (cases "to_storage_error (sled_get (wp_sled P) (db tree) k)")
    case (Inr r)
    then have "r = sled_content (wp_sled P) (db tree) k" using sled_lawsD(1)[OF wallet_lawsD(1)[OF assms(1)]] by simp
    moreover have "v = r' \<Longrightarrow> unwrap (sk_from_slice (wp_secp P) v) = Some r'" if "r = Some v" for v r'
      using assms(2) that calculation by (simp add: secret_key_def)
    ultimately show ?thesis using opened Inr t
      by (cases "sled_content (wp_sled P) (db tree) k") (simp_all add: read_key_def pbind_def del: open_tree_Inr to_storage_error_Inr)
  qed (use opened t in \<open>simp add: read_key_def pbind_def del: open_tree_Inr\<close>)
qed (simp add: read_key_def pbind_def)

text \<open>The content of an output under its key.\<close>

lemma stored_utxo:
  assumes "wallet_laws P" "wallet_written P db"
  shows "wc_utxos (wallet_view P db) o' = Some u \<longleftrightarrow> utxo_outpoint u = o' \<and> vout_ok o' \<and>
    (\<exists>b. sled_content (wp_sled P) (db UTXO_TREE) (utxo_key u) = Some b \<and> de_utxo P b = Inr u)"
proof
  assume l: "wc_utxos (wallet_view P db) o' = Some u"
  then obtain b where b: "vout_ok o'" "sled_content (wp_sled P) (db UTXO_TREE) (get_utxo_key (txid o') (vout o')) = Some b" "de_utxo P b = Inr u"
    by (auto simp: wallet_view_def bind_eq_Some_conv decoded split: if_splits)
  obtain u' where u': "ser_utxo P u' = Inr b" "get_utxo_key (txid o') (vout o') = utxo_key u'" "vout_ok (utxo_outpoint u')"
    using assms(2) b(2) unfolding wallet_written_def by blast
  have "u' = u" using wallet_lawsD(4)[OF assms(1) u'(1)] b(3) by simp
  moreover have "txid o' = txid (utxo_outpoint u')" "vout o' = vout (utxo_outpoint u')" using u'(2,3) b(1) get_utxo_key_inject by blast+
  ultimately show "utxo_outpoint u = o' \<and> vout_ok o' \<and> (\<exists>b. sled_content (wp_sled P) (db UTXO_TREE) (utxo_key u) = Some b \<and> de_utxo P b = Inr u)"
    using b outpoint_eqI by metis
qed (auto simp: wallet_view_def)

lemma utxo_inserted:
  assumes "wallet_laws P" "wallet_written P db" "vout_ok (utxo_outpoint u)" "ser_utxo P u = Inr buf"
    "insert_in P db UTXO_TREE (utxo_key u) buf = Inr db'"
  shows "wallet_written P db' \<and> wallet_view P db' = (wallet_view P db)\<lparr>wc_utxos := (wc_utxos (wallet_view P db))(utxo_outpoint u \<mapsto> u)\<rparr>"
proof -
  obtain t' where t': "db' = db(UTXO_TREE := t')" "sled_content (wp_sled P) t' = (sled_content (wp_sled P) (db UTXO_TREE))(utxo_key u \<mapsto> buf)"
    using insert_in_content[OF assms(1,5)] by blast
  have "wallet_written P db'" using assms(2-4) by (auto simp: wallet_written_def t')
  moreover have "get_utxo_key (txid o') (vout o') = utxo_key u \<longleftrightarrow> o' = utxo_outpoint u" if "vout_ok o'" for o'
    using get_utxo_key_inject[OF that assms(3)] outpoint_eqI by blast
  then have "wc_utxos (wallet_view P db') = (wc_utxos (wallet_view P db))(utxo_outpoint u \<mapsto> u)"
    using wallet_lawsD(4)[OF assms(1,4)] assms(3) by (auto simp: wallet_view_def t' fun_eq_iff)
  ultimately show ?thesis by (simp add: wallet_view_def t'(1))
qed

text \<open>The lists of outputs and addresses.\<close>

lemma read_utxos_all:
  assumes "wallet_laws P" "wallet_written P db" "sled_get_utxos P db = Inr us"
  shows "set us = ran (wc_utxos (wallet_view P db))"
proof -
  let ?m = "sled_content (wp_sled P) (db UTXO_TREE)" and ?vs = "sled_values (wp_sled P) (db UTXO_TREE)"
  have all: "list_all2 (\<lambda>x u. \<exists>b. x = Inr b \<and> de_utxo P b = Inr u) ?vs us"
    using assms(3) by (auto simp: sled_get_utxos_def rmap_Inr_iff map_sum_Inr elim!: list_all2_mono)
  then obtain bs where bs: "?vs = map Inr bs" by (rule list_all2_right_Inr)
  have read: "list_all2 (\<lambda>b u. de_utxo P b = Inr u) bs us" using all by (simp add: bs list_all2_map1)
  have ran: "set bs = ran ?m" using sled_lawsD(5)[OF wallet_lawsD(1)[OF assms(1)] bs] .
  have key: "k = utxo_key u \<and> vout_ok (utxo_outpoint u)" if "?m k = Some b" "de_utxo P b = Inr u" for k b u
    using that assms(2) wallet_lawsD(4)[OF assms(1)] unfolding wallet_written_def by (metis sum.inject(2))
  have "u \<in> set us \<longleftrightarrow> (\<exists>b k. ?m k = Some b \<and> de_utxo P b = Inr u)" for u
  proof -
    have "u \<in> set us \<longleftrightarrow> (\<exists>b \<in> set bs. de_utxo P b = Inr u)"
      using list_all2_covers(1)[OF read] list_all2_covers(2)[OF read, of u] by (metis sum.inject(2))
    then show ?thesis by (auto simp: ran ran_def)
  qed
  also have "(\<exists>b k. ?m k = Some b \<and> de_utxo P b = Inr u) \<longleftrightarrow> wc_utxos (wallet_view P db) (utxo_outpoint u) = Some u" for u
    unfolding stored_utxo[OF assms(1,2)] using key by blast
  finally have "u \<in> set us \<longleftrightarrow> wc_utxos (wallet_view P db) (utxo_outpoint u) = Some u" for u .
  moreover have "u \<in> ran (wc_utxos (wallet_view P db)) \<longleftrightarrow> wc_utxos (wallet_view P db) (utxo_outpoint u) = Some u" for u
    using stored_utxo[OF assms(1,2)] by (auto simp: ran_def)
  ultimately show ?thesis by blast
qed

lemma read_addresses_all:
  assumes "read_addresses P xs = pok as'"
  shows "\<exists>ks. xs = map Inr ks \<and> list_all2 (\<lambda>k a. parse_address P k = Some (Inr a)) ks as'"
  using assms
proof (induction xs arbitrary: as')
  case (Cons x xs)
  then obtain k a as'' where "x = Inr k" "parse_address P k = Some (Inr a)" "read_addresses P xs = pok as''" "as' = a # as''"
    by (auto simp: bind_eq_Some_conv map_sum_Inr)
  moreover from this Cons.IH obtain ks where "xs = map Inr ks" "list_all2 (\<lambda>k a. parse_address P k = Some (Inr a)) ks as''" by blast
  ultimately show ?case by (intro exI[of _ "k # ks"]) simp
qed simp

lemma read_all_addresses:
  assumes "wallet_laws P" "wallet_written P db" "sled_get_addresses P db = pok as'"
  shows "set as' = dom (wc_addresses (wallet_view P db))"
proof -
  let ?m = "sled_content (wp_sled P) (db ADDRESS_TREE)"
  obtain ks where ks: "sled_keys P (db ADDRESS_TREE) = map Inr ks" "list_all2 (\<lambda>k a. parse_address P k = Some (Inr a)) ks as'"
    using assms(3) read_addresses_all by (fastforce simp: sled_get_addresses_def)
  have dom: "set ks = dom ?m" using wallet_lawsD(3)[OF assms(1) ks(1)] .
  have own_text: "k = address_text P a" if k: "k \<in> dom ?m" "parse_address P k = Some (Inr a)" for k a
  proof -
    obtain b where "k = address_text P b" using k(1) assms(2) unfolding wallet_written_def by blast
    then show ?thesis using k(2) wallet_lawsD(5)[OF assms(1), of b] by simp
  qed
  have "a \<in> set as' \<longleftrightarrow> (\<exists>k \<in> dom ?m. parse_address P k = Some (Inr a))" for a
    using list_all2_covers(1)[OF ks(2)] list_all2_covers(2)[OF ks(2), of a] dom by (metis option.inject sum.inject(2))
  also have "(\<exists>k \<in> dom ?m. parse_address P k = Some (Inr a)) \<longleftrightarrow> address_text P a \<in> dom ?m" for a
    using own_text wallet_lawsD(5)[OF assms(1)] by blast
  finally show ?thesis by (auto simp: wallet_view_def)
qed

text \<open>Writes to the other trees.\<close>

lemma key_inserted:
  assumes "wallet_laws P" "wallet_written P db" "secret_key P k" "sled_upsert_key P db i k = Inr db'"
  shows "wallet_written P db' \<and> wallet_view P db' = (wallet_view P db)\<lparr>wc_keys := (wc_keys (wallet_view P db))(i \<mapsto> k)\<rparr>"
proof -
  obtain t' where t': "db' = db(KEY_PAIR_TREE := t')" "sled_content (wp_sled P) t' = (sled_content (wp_sled P) (db KEY_PAIR_TREE))(i \<mapsto> k)"
    using insert_in_content[OF assms(1)] assms(4) unfolding sled_upsert_key_def by blast
  then show ?thesis using assms(2,3) by (auto simp: wallet_written_def wallet_view_def)
qed

lemma address_inserted:
  assumes "wallet_laws P" "wallet_written P db" "secret_key P k" "sled_upsert_address P db a k = Inr db'"
  shows "wallet_written P db' \<and> wallet_view P db' = (wallet_view P db)\<lparr>wc_addresses := (wc_addresses (wallet_view P db))(a \<mapsto> k)\<rparr>"
proof -
  obtain t' where t': "db' = db(ADDRESS_TREE := t')"
      "sled_content (wp_sled P) t' = (sled_content (wp_sled P) (db ADDRESS_TREE))(address_text P a \<mapsto> k)"
    using insert_in_content[OF assms(1)] assms(4) unfolding sled_upsert_address_def get_address_key_def by blast
  then show ?thesis using assms(2,3) address_text_inject[OF assms(1)] by (auto simp: wallet_written_def wallet_view_def fun_eq_iff)
qed

lemma address_deleted:
  assumes "wallet_laws P" "wallet_written P db" "sled_delete_address P db a = Inr db'"
  shows "wallet_written P db' \<and> wallet_view P db' = (wallet_view P db)\<lparr>wc_addresses := (wc_addresses (wallet_view P db))(a := None)\<rparr>"
proof -
  obtain t' where t': "db' = db(ADDRESS_TREE := t')"
      "sled_content (wp_sled P) t' = (sled_content (wp_sled P) (db ADDRESS_TREE))(address_text P a := None)"
    using remove_in_content[OF assms(1)] assms(3) unfolding sled_delete_address_def get_address_key_def by blast
  then show ?thesis using assms(2) address_text_inject[OF assms(1)] by (auto simp: wallet_written_def wallet_view_def fun_eq_iff)
qed

lemma utxo_deleted:
  assumes "wallet_laws P" "wallet_written P db" "vout_ok (utxo_outpoint u)" "sled_delete_utxo P db u = Inr db'"
  shows "wallet_written P db' \<and> wallet_view P db' = (wallet_view P db)\<lparr>wc_utxos := (wc_utxos (wallet_view P db))(utxo_outpoint u := None)\<rparr>"
proof -
  obtain t' where t': "db' = db(UTXO_TREE := t')" "sled_content (wp_sled P) t' = (sled_content (wp_sled P) (db UTXO_TREE))(utxo_key u := None)"
    using remove_in_content[OF assms(1)] assms(4) unfolding sled_delete_utxo_def by blast
  have key: "get_utxo_key (txid o') (vout o') = utxo_key u \<longleftrightarrow> o' = utxo_outpoint u" if "vout_ok o'" for o'
    using get_utxo_key_inject[OF that assms(3)] outpoint_eqI by blast
  have "wallet_written P db'" using assms(2) by (simp add: wallet_written_def t')
  moreover have "wc_utxos (wallet_view P db') = (wc_utxos (wallet_view P db))(utxo_outpoint u := None)"
    using assms(3) key by (auto simp: wallet_view_def t' fun_eq_iff)
  ultimately show ?thesis by (simp add: wallet_view_def t'(1))
qed

lemma utxo_unreserved:
  assumes "wallet_laws P" "wallet_written P db" "vout_ok o'" "sled_unreserve_utxo P db (txid o') (vout o') = Inr db'"
  shows "\<exists>u. wc_utxos (wallet_view P db) o' = Some u \<and> wallet_written P db' \<and>
    wallet_view P db' = (wallet_view P db)\<lparr>wc_utxos := (wc_utxos (wallet_view P db))(o' \<mapsto> u\<lparr>reserved := False\<rparr>)\<rparr>"
proof -
  let ?key = "get_utxo_key (txid o') (vout o')"
  obtain b u buf where u: "sled_get (wp_sled P) (db UTXO_TREE) ?key = Inr (Some b)" "de_utxo P b = Inr u"
      "ser_utxo P (u\<lparr>reserved := False\<rparr>) = Inr buf" "insert_in P db UTXO_TREE ?key buf = Inr db'"
    using assms(4) by (auto simp: sled_unreserve_utxo_def Let_def map_sum_Inr split: option.splits)
  have "sled_content (wp_sled P) (db UTXO_TREE) ?key = Some b" using sled_lawsD(1)[OF wallet_lawsD(1)[OF assms(1)] u(1)] by simp
  then have view: "wc_utxos (wallet_view P db) o' = Some u" using u(2) assms(3) by (simp add: wallet_view_def)
  then have own: "utxo_outpoint u = o'" using stored_utxo[OF assms(1,2)] by blast
  then have "vout_ok (utxo_outpoint (u\<lparr>reserved := False\<rparr>))" "insert_in P db UTXO_TREE (utxo_key (u\<lparr>reserved := False\<rparr>)) buf = Inr db'"
    using assms(3) u(4) by simp_all
  from utxo_inserted[OF assms(1,2) this(1) u(3) this(2)] show ?thesis using view own by auto
qed

interpretation sled_w: wallet_store sled_wallet "\<lambda>P db. wallet_laws P \<and> wallet_written P db" wallet_view secret_key
proof (unfold_locales, goal_cases)
  case (1 P db o' u)
  then show ?case using stored_utxo by blast
next
  case (2 P db us)
  then show ?case using read_utxos_all[of P db us] by (simp add: sled_wallet_def)
next
  case (3 P db u b)
  then have "sled_contains_key P (db UTXO_TREE) (utxo_key u) = Inr b" by (simp add: sled_wallet_def sled_has_utxo_def)
  from wallet_lawsD(2)[OF _ this] have b: "b \<longleftrightarrow> (\<exists>v. sled_content (wp_sled P) (db UTXO_TREE) (utxo_key u) = Some v)" using 3(1) by simp
  have "\<exists>x. de_utxo P v = Inr x" if "sled_content (wp_sled P) (db UTXO_TREE) k = Some v" for k v
    using that 3(1) wallet_lawsD(4) unfolding wallet_written_def by blast
  then show ?case unfolding b using 3(2)
    by (cases "sled_content (wp_sled P) (db UTXO_TREE) (utxo_key u)") (force simp: wallet_view_def decoded)+
next
  case (4 P db u db')
  then show ?case using utxo_inserted[of P db u] by (auto simp: sled_wallet_def sled_upsert_utxo_def map_sum_Inr)
next
  case (5 P db u db')
  then show ?case using utxo_deleted[of P db u db'] by (simp add: sled_wallet_def)
next
  case (6 P db o' db')
  then show ?case using utxo_unreserved[of P db o' db'] by (simp add: sled_wallet_def)
next
  case (7 P db k i db')
  then show ?case using key_inserted[of P db k i db'] by (simp add: sled_wallet_def)
next
  case (8 P db i)
  then show ?case using read_key_content[of P db KEY_PAIR_TREE i]
    by (simp add: sled_wallet_def sled_get_priv_key_def wallet_view_def wallet_written_def)
next
  case (9 P db k a db')
  then show ?case using address_inserted[of P db k a db'] by (simp add: sled_wallet_def)
next
  case (10 P db a db')
  then show ?case using address_deleted[of P db a db'] by (simp add: sled_wallet_def)
next
  case (11 P db a)
  then show ?case using read_key_content[of P db ADDRESS_TREE "address_text P a"]
    by (simp add: sled_wallet_def sled_get_priv_key_for_address_def get_address_key_def wallet_view_def wallet_written_def)
next
  case (12 P db as')
  then show ?case using read_all_addresses[of P db as'] by (simp add: sled_wallet_def)
qed

end
