(* ===== verification/SledWalletSpec.thy ===== *)
theory SledWalletSpec
  imports SledWallet
begin

text \<open>
  What the wallet promises on the sled store, over any sequence of its calls: reservations hold, signers stay the same, the stored
  data stay well formed, and inputs are signed by the owner of the output they spend.
\<close>

section \<open>Promises\<close>

lemma run_well_formed:
  assumes "w_store W = sled_wallet P" "wallet_laws P" "wallet_written P (contract_db st)" "wallet_well_formed W (wallet_view P (contract_db st))"
    "\<And>c. c \<in> set cs \<Longrightarrow> call_ok (secret_key P) c" "run_wallet W cs st = Some (rs, st')"
  shows "wallet_written P (contract_db st') \<and> wallet_well_formed W (wallet_view P (contract_db st'))"
  using sled_w.run_keeps_content[where J = "wallet_well_formed W", OF assms(1,5) _ assms(4) _ assms(6)] assms(2,3,5) write_well_formed by blast

text \<open>C17: An output that was reserved by a locking selection is not selected again: whatever calls follow, of which none gives the output
  up and no refresh is told by the chain that it is spent, it stays reserved and no later selection contains it.\<close>

theorem reserved_outputs_are_not_selected_again:
  assumes "w_store W = sled_wallet P" "wallet_laws P" "wallet_written P (contract_db st)" "selects_candidates (w_lib W)"
    "wallet_get_utxos_for_amount W amt r True st = Some (Inr us, st1)" "u \<in> set us"
    "\<And>c. c \<in> set cs \<Longrightarrow> call_ok (secret_key P) c \<and> \<not> releases (utxo_outpoint u) c" "run_wallet W cs st1 = Some (rs, st2)"
  shows "reserved_at (utxo_outpoint u) (wallet_view P (contract_db st2)) \<and> (\<forall>us' \<in> set rs. utxo_outpoint u \<notin> utxo_outpoint ` set us')"
proof -
  have "(wallet_laws P \<and> wallet_written P (contract_db st1)) \<and> (\<forall>u \<in> set us. reserved_at (utxo_outpoint u) (wallet_view P (contract_db st1)))"
    by (rule sled_w.selection_reserves[OF assms(1) _ assms(5)]) (use assms(2,3) in simp)
  then show ?thesis using sled_w.run_avoids_reserved[OF assms(1,4,7) _ _ assms(8)] assms(6) by blast
qed

text \<open>C19: The signer of a contract stays the same: what was derived for a key id is derived again after any calls, whatever random key is
  drawn then, and the secret key of its public key is found; neither panics.\<close>

theorem signers_are_stable:
  assumes "w_store W = sled_wallet P" "wallet_laws P" "wallet_written P (contract_db st)" "wallet_well_formed W (wallet_view P (contract_db st))"
    "\<And>k. length (pk_of (w_secp W) k) = 33" "length i = 32" "secret_key P sk0"
    "wallet_derive_contract_signer W i sk0 st = Some (Inr sk, st1)"
    "\<And>c. c \<in> set cs \<Longrightarrow> call_ok (secret_key P) c" "run_wallet W cs st1 = Some (rs, st2)"
  shows "(\<exists>r. wallet_derive_contract_signer W i sk' st2 = Some (r, st2) \<and> (\<forall>x. r = Inr x \<longrightarrow> x = sk)) \<and>
    (\<exists>r. wallet_get_secret_key_for_pubkey W (pk_of (w_secp W) sk) st2 = Some (r, st2) \<and>
      (\<forall>x. r = Inr x \<longrightarrow> pk_of (w_secp W) x = pk_of (w_secp W) sk))"
proof -
  let ?law = "\<lambda>st. wallet_laws P \<and> wallet_written P (contract_db st)" and ?v = "\<lambda>st. wallet_view P (contract_db st)"
  have law: "?law st" using assms(2,3) by simp
  have 1: "?law st1 \<and> wc_keys (?v st1) i = Some sk" by (rule sled_w.signer_stored[OF assms(1,7) law assms(8)])
  have 2: "?law st2 \<and> wc_keys (?v st2) i = Some sk"
    by (rule sled_w.run_keeps_content[OF assms(1,9) _ _ _ assms(10)]) (use 1 write_keeps_key[OF _ assms(5,6)] in auto)
  have run: "run_wallet W (SignerCall i sk0 # cs) st = Some ([] # rs, st2)"
    using assms(8,10) by (simp add: mmap_def mbind_def mret_def)
  have ok: "call_ok (secret_key P) c" if "c \<in> set (SignerCall i sk0 # cs)" for c using that assms(6,7,9) by auto
  have 3: "wallet_well_formed W (?v st2)" using run_well_formed[OF assms(1-4) ok run] by blast
  show ?thesis using sled_w.signer_known[OF assms(1), of st2 i sk sk'] sled_w.key_for_pubkey[OF assms(1), of st2 i sk] 2 3 assms(5) by blast
qed

text \<open>C20: The data of a wallet stay well formed under all its calls: every output is stored under its own outpoint, every stored key is
  found under its public key and nothing else is stored there, and every address is that of its key.\<close>

theorem wallet_stays_well_formed:
  assumes "w_store W = sled_wallet P" "wallet_laws P" "wallet_written P (contract_db st)" "wallet_well_formed W (wallet_view P (contract_db st))"
    "\<And>c. c \<in> set cs \<Longrightarrow> call_ok (secret_key P) c" "run_wallet W cs st = Some (rs, st')"
  shows "wallet_written P (contract_db st') \<and> wallet_well_formed W (wallet_view P (contract_db st')) \<and>
    (\<forall>o' u. wc_utxos (wallet_view P (contract_db st')) o' = Some u \<longrightarrow> utxo_outpoint u = o')"
  using run_well_formed[OF assms] sled_w.own assms(2) by blast

text \<open>C18: A transaction that the wallet signs is the given one up to its witnesses, and each of its inputs spends an output of the wallet and
  is signed, for the value of this output, with the key of the address that the output pays to.\<close>

theorem wallet_signs_for_its_outputs:
  assumes "w_store W = sled_wallet P" "wallet_laws P" "wallet_written P (contract_db st)" "wallet_well_formed W (wallet_view P (contract_db st))"
    "sighash_ignores_witness (w_secp W)" "wallet_sign_raw_transaction W tx st = Some (Inr tx', st')"
  shows "st' = st \<and> (\<exists>ins. tx' = tx\<lparr>tx_input := ins\<rparr> \<and> length ins = length (tx_input tx) \<and>
    (\<forall>i < length (tx_input tx). \<exists>u sk. wc_utxos (wallet_view P (contract_db st)) (previous_output (tx_input tx ! i)) = Some u \<and>
      address_from_script (w_lib W) (script_pubkey (utxo_tx_out u)) = Inr (p2wpkh_address (w_lib W) (pk_of (w_secp W) sk)) \<and>
      signed_by (w_secp W) tx i sk (txo_value (utxo_tx_out u)) (ins ! i)))"
  by (rule sled_w.sign_tx_result[OF assms(1) _ assms(4-6)]) (use assms(2,3) in simp)

section \<open>Instances\<close>

text \<open>A wallet with one output, whose selections take all candidates.\<close>

definition purse_secp :: secp where
  "purse_secp = honest_secp\<lparr>pk_of := (\<lambda>k. 2 # toy_key (toy_val k))\<rparr>"

definition purse_utxo :: WalletUtxo where
  "purse_utxo = \<lparr>utxo_tx_out = \<lparr>txo_value = 50000, script_pubkey = 0 # 2 # toy_key 3\<rparr>, utxo_outpoint = \<lparr>txid = [7], vout = 1\<rparr>,
     utxo_redeem_script = [], utxo_address = 2 # toy_key 3, reserved = False\<rparr>"

definition purse_provider :: "(bytes \<times> bytes) list wallet_provider" where
  "purse_provider = \<lparr>wp_sled = list_sled, sled_contains_key = (\<lambda>t k. Inr (map_of t k \<noteq> None)), sled_keys = map (Inr \<circ> fst), wp_secp = purse_secp,
     ser_utxo = (\<lambda>u. if u = purse_utxo then Inr [1] else if u = purse_utxo\<lparr>reserved := True\<rparr> then Inr [2] else Inl ''full''),
     de_utxo = (\<lambda>b. if b = [1] then Inr purse_utxo else Inr (purse_utxo\<lparr>reserved := True\<rparr>)), address_text = (\<lambda>a. a),
     parse_address = (\<lambda>b. pok b), outpoint_text = (\<lambda>t v. [])\<rparr>"

definition purse_lib :: wallet_lib where
  "purse_lib = \<lparr>p2wpkh_address = (\<lambda>pk. pk), address_script = (\<lambda>a. 0 # a), address_from_script = (\<lambda>s. Inr (tl s)),
     p2wpkh_script = (\<lambda>pk. 0 # pk), tx_weight = (\<lambda>tx. 100),
     coin_select = (\<lambda>cs r v spk. if cs = [] then Inl ''insufficient funds'' else Inr (map (\<lambda>c. LocalUtxo (wu_outpoint c) (wu_txout c)) cs)),
     psbt_from_unsigned_tx = (\<lambda>tx. Inl ''no psbt''), extract_tx = (\<lambda>p. Inl ''no psbt'')\<rparr>"

definition purse :: "(bytes \<times> bytes) list db SimpleWallet" where
  "purse = \<lparr>w_chain = \<lparr>get_transaction_confirmations = (\<lambda>_. Inr 0), get_blockchain_height = Inr 1, get_block_at_height = (\<lambda>_. Inr []),
       send_transaction = (\<lambda>_. Inr ()), import_address = (\<lambda>_. Inr ()), get_utxos_for_address = (\<lambda>a. Inr [purse_utxo]),
       is_output_spent = (\<lambda>t v. Inr False), est_sat_per_1000_weight = 500\<rparr>,
     w_store = sled_wallet purse_provider, w_secp = purse_secp, w_lib = purse_lib\<rparr>"

definition purse_state :: "(bytes \<times> bytes) list db mgr_state" where
  "purse_state = \<lparr>contract_db = (\<lambda>_. [])(UTXO_TREE := [(utxo_key purse_utxo, [1])], ADDRESS_TREE := [(2 # toy_key 3, [3])]),
     broadcast = [], monitor = new_monitor 0\<rparr>"

lemma purse_simps [simp]:
  "w_store purse = sled_wallet purse_provider" "w_secp purse = purse_secp" "w_lib purse = purse_lib"
  "wp_sled purse_provider = list_sled" "wp_secp purse_provider = purse_secp" "address_text purse_provider a = a"
  "pk_of purse_secp k = 2 # toy_key (toy_val k)" "sk_from_slice purse_secp k = sk_from_slice toy_secp k"
  "p2wpkh_address purse_lib pk = pk" "address_from_script purse_lib spk = Inr (tl spk)"
  by (simp_all add: purse_def purse_provider_def purse_secp_def purse_lib_def honest_secp_def)

lemma purse_utxo_simps [simp]:
  "utxo_outpoint purse_utxo = \<lparr>txid = [7], vout = 1\<rparr>" "reserved purse_utxo = False"
  "utxo_tx_out purse_utxo = \<lparr>txo_value = 50000, script_pubkey = 0 # 2 # toy_key 3\<rparr>"
  "purse_utxo\<lparr>reserved := True\<rparr> \<noteq> purse_utxo"
  by (simp_all add: purse_utxo_def)

lemma purse_provider_simps [simp]:
  "sled_contains_key purse_provider t k = Inr (map_of t k \<noteq> None)" "sled_keys purse_provider = map (Inr \<circ> fst)"
  "ser_utxo purse_provider u = (if u = purse_utxo then Inr [1] else if u = purse_utxo\<lparr>reserved := True\<rparr> then Inr [2] else Inl ''full'')"
  "de_utxo purse_provider b = (if b = [1] then Inr purse_utxo else Inr (purse_utxo\<lparr>reserved := True\<rparr>))"
  "parse_address purse_provider b = pok b"
  by (simp_all add: purse_provider_def)

lemma purse_laws: "wallet_laws purse_provider" "selects_candidates (w_lib purse)" "sighash_ignores_witness (w_secp purse)"
  "length (pk_of (w_secp purse) k) = 33"
proof -
  have "reads_back (ser_utxo purse_provider) (de_utxo purse_provider)"
    by (simp add: reads_back_def)
  moreover have "set ks = dom (map_of t)" if "map (Inr \<circ> fst) t = (map Inr ks :: (string + bytes) list)" for t :: "(bytes \<times> bytes) list" and ks
  proof -
    have "map Inr (map fst t) = (map Inr ks :: (string + bytes) list)" using that by simp
    then have "ks = map fst t" by (simp add: inj_map_eq_map del: map_map)
    then show ?thesis by (simp add: dom_map_of_conv_image_fst)
  qed
  ultimately show "wallet_laws purse_provider" using list_sled_laws by (simp add: wallet_laws_def)
  show "selects_candidates (w_lib purse)" by (auto simp: selects_candidates_def purse_lib_def)
  show "sighash_ignores_witness (w_secp purse)" by (simp add: sighash_ignores_witness_def purse_secp_def honest_secp_def toy_secp_def)
  show "length (pk_of (w_secp purse) k) = 33" by (simp add: toy_key_def)
qed

lemma purse_trees [simp]:
  "contract_db purse_state UTXO_TREE = [(utxo_key purse_utxo, [1])]" "contract_db purse_state KEY_PAIR_TREE = []"
  "contract_db purse_state ADDRESS_TREE = [(2 # toy_key 3, [3])]"
  by (simp_all add: purse_state_def)

lemma purse_written: "wallet_written purse_provider (contract_db purse_state)"
  "wallet_well_formed purse (wallet_view purse_provider (contract_db purse_state))"
proof -
  have "secret_key purse_provider [3]" by (simp add: secret_key_def toy_simps toy_val_def)
  moreover have "\<exists>u. ser_utxo purse_provider u = Inr [1] \<and> utxo_key purse_utxo = utxo_key u \<and> vout_ok (utxo_outpoint u)"
    by (rule exI[of _ purse_utxo]) simp
  ultimately show "wallet_written purse_provider (contract_db purse_state)" by (simp add: wallet_written_def)
  show "wallet_well_formed purse (wallet_view purse_provider (contract_db purse_state))"
    by (simp add: wallet_well_formed_def wallet_view_def toy_val_def)
qed

text \<open>Selecting its output, which stays reserved while a new key is made and the chain still lists it.\<close>

definition purse_locked :: "(bytes \<times> bytes) list db mgr_state" where
  "purse_locked = purse_state\<lparr>contract_db := (contract_db purse_state)(UTXO_TREE := [(utxo_key purse_utxo, [2])])\<rparr>"

lemma purse_operations:
  "ws_get_utxos (sled_wallet purse_provider) (contract_db purse_state) = Inr [purse_utxo]"
  "ws_upsert_utxo (sled_wallet purse_provider) (contract_db purse_state) (purse_utxo\<lparr>reserved := True\<rparr>) = Inr (contract_db purse_locked)"
  by (simp_all add: sled_wallet_def sled_get_utxos_def sled_upsert_utxo_def open_tree_def list_sled_def to_storage_error_def insert_in_def purse_locked_def)

lemma purse_selects: "wallet_get_utxos_for_amount purse 1000 1 True purse_state = Some (Inr [purse_utxo], purse_locked)"
proof -
  have "coin_select purse_lib [to_weighted_utxo purse_utxo] r v spk = Inr [LocalUtxo (utxo_outpoint purse_utxo) (utxo_tx_out purse_utxo)]" for r v spk
    by (simp add: purse_lib_def to_weighted_utxo_def)
  moreover have "purse_state\<lparr>contract_db := contract_db purse_locked\<rparr> = purse_locked" by (simp add: purse_locked_def)
  ultimately show ?thesis
    by (simp add: wallet_get_utxos_for_amount_def wallet_utxos_def mbind_def store_read_def mlift_def take_selected_def munwrap_def mret_def
        upsert_wallet_utxo_def store_write_def purse_operations del: purse_utxo_simps(1,3))
qed

definition purse_calls :: "wallet_call list" where
  "purse_calls = [NewKeyCall [4], SelectCall 1000 1 True, RefreshCall (w_chain purse)]"

lemma purse_calls_ok: "c \<in> set purse_calls \<Longrightarrow> call_ok (secret_key purse_provider) c \<and> \<not> releases (utxo_outpoint purse_utxo) c"
  by (auto simp: purse_calls_def chain_ok_def purse_def secret_key_def toy_simps toy_val_def)

lemma purse_calls_run: "\<exists>st. run_wallet purse purse_calls purse_locked = Some ([[], [], []], st)"
proof -
  let ?W = "sled_wallet purse_provider" and ?db = "(contract_db purse_locked)(KEY_PAIR_TREE := [(2 # toy_key 4, [4])])"
  let ?st = "purse_locked\<lparr>contract_db := ?db\<rparr>"
  note ops = sled_wallet_def open_tree_def list_sled_def to_storage_error_def insert_in_def purse_locked_def
  have "ws_upsert_key ?W (contract_db purse_locked) (2 # toy_key 4) [4] = Inr ?db"
    by (simp add: ops sled_upsert_key_def)
  then have "run_wallet_call purse (NewKeyCall [4]) purse_locked = Some (Inr [], ?st)"
    by (simp add: mmap_def wallet_get_new_secret_key_def mbind_def upsert_wallet_key_def store_write_def mret_def toy_val_def)
  moreover have read: "ws_get_utxos ?W ?db = Inr [purse_utxo\<lparr>reserved := True\<rparr>]"
    by (simp add: ops sled_get_utxos_def)
  then have "run_wallet_call purse (SelectCall 1000 1 True) ?st = Some (Inl (WalletError ''insufficient funds''), ?st)"
    by (simp add: wallet_get_utxos_for_amount_def wallet_utxos_def mbind_def store_read_def mlift_def purse_lib_def)
  moreover have "ws_get_addresses ?W ?db = pok [2 # toy_key 3]" "ws_has_utxo ?W ?db purse_utxo = Inr True"
    by (simp_all add: ops sled_get_addresses_def sled_has_utxo_def del: open_tree_Inr)
  then have "run_wallet_call purse (RefreshCall (w_chain purse)) ?st = Some (Inr [], ?st)" using read
    by (simp add: mmap_def wallet_refresh_def wallet_utxos_def mbind_def store_read_def mlift_def drop_if_spent_def add_if_new_def mret_def purse_def)
  ultimately show ?thesis by (simp add: purse_calls_def del: run_wallet_call.simps)
qed

lemma reserved_outputs_are_not_selected_again_witness:
  "\<exists>st. run_wallet purse purse_calls purse_locked = Some ([[], [], []], st) \<and>
     reserved_at \<lparr>txid = [7], vout = 1\<rparr> (wallet_view purse_provider (contract_db st))"
proof -
  obtain st where run: "run_wallet purse purse_calls purse_locked = Some ([[], [], []], st)" using purse_calls_run by blast
  from reserved_outputs_are_not_selected_again[OF _ purse_laws(1) purse_written(1) purse_laws(2) purse_selects _ purse_calls_ok run]
  show ?thesis using run by auto
qed

lemma purse_derives: "\<exists>st. wallet_derive_contract_signer purse (replicate 32 1) [5] purse_state = Some (Inr [5], st)"
proof -
  let ?W = "sled_wallet purse_provider" and ?i = "replicate 32 (1 :: nat)"
  let ?db1 = "(contract_db purse_state)(KEY_PAIR_TREE := [(2 # toy_key 5, [5])])"
  let ?db2 = "(contract_db purse_state)(KEY_PAIR_TREE := AList.update ?i [5] [(2 # toy_key 5, [5])])"
  note ops = sled_wallet_def open_tree_def list_sled_def to_storage_error_def insert_in_def
  have "ws_get_priv_key ?W (contract_db purse_state) ?i = pok None" by (simp add: ops sled_get_priv_key_def read_key_def del: open_tree_Inr)
  moreover have "ws_upsert_key ?W (contract_db purse_state) (2 # toy_key 5) [5] = Inr ?db1" "ws_upsert_key ?W ?db1 ?i [5] = Inr ?db2"
    by (simp_all add: ops sled_upsert_key_def)
  ultimately show ?thesis
    by (simp add: wallet_derive_contract_signer_def mbind_def store_read_def upsert_wallet_key_def store_write_def mret_def toy_val_def)
qed

lemma signers_are_stable_witness:
  "\<exists>st1 st2. wallet_derive_contract_signer purse (replicate 32 1) [5] purse_state = Some (Inr [5], st1) \<and>
     run_wallet purse [SecretKeyCall (2 # toy_key 5)] st1 = Some ([[]], st2) \<and>
     (\<exists>r. wallet_derive_contract_signer purse (replicate 32 1) [6] st2 = Some (r, st2) \<and> (\<forall>x. r = Inr x \<longrightarrow> x = [5]))"
proof -
  obtain st1 where 1: "wallet_derive_contract_signer purse (replicate 32 1) [5] purse_state = Some (Inr [5], st1)" using purse_derives by blast
  have sk: "length (replicate 32 (1 :: nat)) = 32" "secret_key purse_provider [5]" by (simp_all add: secret_key_def toy_simps toy_val_def)
  note stable = signers_are_stable[OF _ purse_laws(1) purse_written purse_laws(4) sk 1]
  from stable[of "[]" "[]" st1 "[6]"] obtain r where "wallet_get_secret_key_for_pubkey purse (2 # toy_key 5) st1 = Some (r, st1)"
    by (auto simp: toy_val_def)
  then have run: "run_wallet purse [SecretKeyCall (2 # toy_key 5)] st1 = Some ([[]], st1)"
    by (cases r) (auto simp: mmap_def mbind_def mret_def)
  have "\<exists>r. wallet_derive_contract_signer purse (replicate 32 1) [6] st1 = Some (r, st1) \<and> (\<forall>x. r = Inr x \<longrightarrow> x = [5])"
    using stable[of "[SecretKeyCall (2 # toy_key 5)]" "[[]]" st1 "[6]"] run by simp
  then show ?thesis using 1 run by blast
qed

lemma wallet_stays_well_formed_witness:
  "\<exists>st. run_wallet purse purse_calls purse_locked = Some ([[], [], []], st) \<and> wallet_well_formed purse (wallet_view purse_provider (contract_db st))"
proof -
  obtain st where run: "run_wallet purse purse_calls purse_locked = Some ([[], [], []], st)" using purse_calls_run by blast
  have "run_wallet purse (SelectCall 1000 1 True # purse_calls) purse_state = Some ([purse_utxo] # [[], [], []], st)"
    using purse_selects run by simp
  moreover have "call_ok (secret_key purse_provider) c" if "c \<in> set (SelectCall 1000 1 True # purse_calls)" for c
    using that purse_calls_ok by auto
  ultimately have "wallet_well_formed purse (wallet_view purse_provider (contract_db st))"
    using wallet_stays_well_formed[OF _ purse_laws(1) purse_written] by (metis purse_simps(1))
  then show ?thesis using run by blast
qed

definition purse_tx :: Transaction where
  "purse_tx = \<lparr>version = 2, lock_time = 0,
     tx_input = [\<lparr>previous_output = \<lparr>txid = [7], vout = 1\<rparr>, script_sig = [], sequence = 0, witness = []\<rparr>],
     tx_output = [\<lparr>txo_value = 40000, script_pubkey = []\<rparr>]\<rparr>"

lemma wallet_signs_for_its_outputs_witness:
  "\<exists>tx. wallet_sign_raw_transaction purse purse_tx purse_state = Some (Inr tx, purse_state) \<and> length (tx_input tx) = 1 \<and>
     (\<exists>sk v. signed_by purse_secp purse_tx 0 sk v (tx_input tx ! 0))"
proof -
  have "ws_get_priv_key_for_address (sled_wallet purse_provider) (contract_db purse_state) (2 # toy_key 3) = pok (Some [3])"
    by (simp add: sled_wallet_def sled_get_priv_key_for_address_def get_address_key_def read_key_def open_tree_def list_sled_def
        to_storage_error_def toy_simps toy_val_def del: open_tree_Inr)
  then obtain tx where run: "wallet_sign_raw_transaction purse purse_tx purse_state = Some (Inr tx, purse_state)"
    by (simp add: wallet_sign_raw_transaction_def wallet_utxos_def purse_operations purse_tx_def signing_data_def key_for_script_def
        mbind_def store_read_def mlift_def mret_def munwrap_def sign_p2wpkh_input_def get_witness_for_p2wpkh_input_def get_sig_for_p2wpkh_input_def
        get_sig_for_tx_input_def get_raw_sig_for_tx_input_def get_sig_hash_msg_def set_witness_def purse_secp_def honest_secp_def toy_secp_def)
  have len: "length (tx_input purse_tx) = 1" by (simp add: purse_tx_def)
  from wallet_signs_for_its_outputs[OF _ purse_laws(1) purse_written purse_laws(3) run] obtain ins sk v
    where "tx = purse_tx\<lparr>tx_input := ins\<rparr>" "length ins = 1" "signed_by purse_secp purse_tx 0 sk v (ins ! 0)"
    unfolding len by auto
  then show ?thesis using run by auto
qed

end
