(* ===== verification/Spec2Isabelle.thy ===== *)
theory Spec2Isabelle
  imports MultiOracleCover OracleTrieIterSpec DlcChannel ManagerChain ChannelFailures SledChannelsSpec SledWalletSpec
begin

text \<open>
  A model of the Rust crates of \<open>stable-borrow-cli\<close>: peer-to-peer loans in bitcoin on top of discreet log contracts (DLC).
  Two parties lock a collateral in an output that both must sign to spend. For every outcome an oracle may attest there is a
  contract execution transaction (CET) that pays the parties; each party gives the other an adaptor signature of it, which
  the signature of the oracle over the outcome turns into a valid one. All paths below are under
  \<open>src/stable-borrow-cli/crates\<close>.

  \<^bold>\<open>Conventions.\<close> A function of the source is a definition of the same name where the name is free. \<open>Result\<close> is a sum with
  the error on the left (\<open>rbind\<close> is \<open>?\<close>); a computation that may panic is an \<open>option\<close> of it (\<open>None\<close> a panic: indexing out of
  range, an unwrap or expect that fails, an overflow of the checked arithmetic of the debug profile or of \<open>bitcoin::Amount\<close>;
  \<open>pok\<close>, \<open>perr\<close> and \<open>pbind\<close>). Integers are naturals with the bound of their type written out, \<open>f64\<close> is modelled bit by bit in
  \<open>F64\<close> and \<open>Double\<close>. A loop is a recursive function of the same body; a loop that may not end is a \<open>partial_function\<close>, and that
  it ends is proved. There is no fuel. The bitcoin, secp256k1 and miniscript libraries are records of functions (\<open>btc\<close>,
  \<open>secp\<close>, \<open>mslib\<close>), and so are the answers of wallet, chain, signer and clock (\<open>outside\<close>); what a theorem needs of them is a
  named hypothesis (\<open>key_laws\<close>, \<open>adaptor_laws\<close>, \<open>sound_encryption\<close>, \<open>ms_laws\<close>), each with an instance in the examples.
  The order in which a \<open>HashMap\<close> is iterated is a parameter.

  \<^bold>\<open>The parts, from the bottom.\<close>

  \<^item> \<open>DlcPrelude\<close>: results, panics, checked arithmetic and indexing, loops with early return, partial correctness, and the
    interface of iterators (locale \<open>iterator\<close>).
  \<^item> \<open>F64\<close>, \<open>Double\<close>: the doubles that fees, digits and payout curves are computed in, and when they are exact.
  \<^item> \<open>dlc-trie\<close>: \<open>Combinations\<close> (\<open>combination_iterator.rs\<close>), \<open>DigitDecomposition\<close> (\<open>digit_decomposition.rs\<close>), \<open>DigitTrie\<close>,
    \<open>DigitTrieMap\<close>, \<open>DigitTrieIter\<close> (\<open>digit_trie.rs\<close>; locale \<open>path_trie\<close>: the arena of nodes is a map from paths to values),
    \<open>MultiOracle\<close>, \<open>MultiOracleCover\<close> (\<open>multi_oracle.rs\<close>), \<open>TrieUtils\<close> (\<open>utils.rs\<close>), \<open>MultiTrie\<close> (\<open>multi_trie.rs\<close>), \<open>TrieSign\<close> (the
    trait of \<open>lib.rs\<close> as locale \<open>dlc_trie\<close>), \<open>MultiOracleTrie\<close>, \<open>MultiOracleTrieSpec\<close> (\<open>multi_oracle_trie.rs\<close>),
    \<open>MultiOracleTrieWithDiff\<close> (\<open>multi_oracle_trie_with_diff.rs\<close>), \<open>OracleTrieIter\<close>, \<open>OracleTrieIterSpec\<close> (their iterators).
    Shown: which outcomes the tries cover, that look-ups give the adaptor signature made for the attested outcome, that both
    parties number and sign the same transactions, that iterators end.
  \<^item> \<open>dlc\<close>: \<open>DlcTypes\<close>, \<open>DlcTx\<close> (\<open>lib.rs\<close>, \<open>util.rs\<close>: fund, execution, refund, escrow and collateral transactions and their fees),
    \<open>DlcSign\<close> (signatures, adaptor signatures and the secret that the attestations give), \<open>DlcChannel\<close> (\<open>channel/mod.rs\<close>).
    Shown: value is conserved, attestations close a contract, revoked states can be punished, and where the code panics.
  \<^item> \<open>dlc-messages\<close>: \<open>OracleMsgs\<close> (\<open>oracle_msgs.rs\<close>) and \<open>ContractMsgs\<close> (\<open>contract_msgs.rs\<close> and the contract half of \<open>lib.rs\<close>).
  \<^item> \<open>dlc-manager\<close>: \<open>ManagerError\<close> (\<open>error.rs\<close>), \<open>PayoutCurve\<close>, \<open>PayoutCurveSpec\<close> (\<open>payout_curve.rs\<close>), \<open>ContractInfo\<close>,
    \<open>ContractInfoSpec\<close> (the conditions of a contract: descriptors, adaptor infos, closing), \<open>Contract\<close>, \<open>ContractSpec\<close> (the states of
    a contract, ids, conversions to and from messages). Shown: the ranges of equal payouts are those of the evaluated
    function, signatures made by one party are accepted by the other, the signature that closing takes is the one of the
    attested outcome, and an offer survives its message. \<open>ContractUpdater\<close>, \<open>ContractUpdaterSpec\<close> (\<open>contract_updater.rs\<close>: the
    steps of a contract and of a loan). Shown: the handshake of a loan completes between honest parties, and what the
    oracles attest closes the contract. No theorem on \<open>accept_contract\<close> can say that it succeeds, since the transactions
    it needs are never created (\<open>create_dlc_transactions_never_ok\<close>).
  \<^item> The store and the manager: \<open>Storage\<close> (the contract half of the trait in \<open>dlc-manager/src/lib.rs\<close>; locale \<open>contract_store\<close>: a store is
    a map from ids to contracts), \<open>SledStorage\<close> (\<open>dlc-sled-storage-provider/src/lib.rs\<close>, on a record of database functions; it
    interprets the locale), \<open>ChainMonitor\<close> (\<open>chain_monitor.rs\<close>), \<open>Manager\<close> (the contract half of \<open>manager.rs\<close>: each call is a
    function on the store, the transactions broadcast so far and the chain monitor, that keeps its effects when it fails).
    \<open>ManagerSpec\<close> has the calls as a step relation (\<open>mgr_step\<close>) and the invariant of every reachable store, \<open>ManagerStore\<close>
    what follows on the sled store: what is stored as signed was verified, is closed when attested, and can be refunded.
    \<open>ManagerChain\<close>: the chain monitor follows the chain.

  \<^item> Channels: \<open>ChannelMsgs\<close> (\<open>dlc-messages/src/channel.rs\<close>), \<open>Channel\<close> (\<open>dlc-manager/src/channel/\<close>: the states of a channel, base
    points and derived keys, the lightning library a record of functions), \<open>ChannelUpdater\<close> (\<open>channel_updater.rs\<close>: each step of a
    channel is a function from the channel and a message to the new channel and the answer), \<open>ChannelManager\<close> (the channel half of
    \<open>manager.rs\<close>, on the state of \<open>Manager\<close>). \<open>ChannelUpdaterSpec\<close> has the steps as a relation (\<open>channel_step\<close>) and the invariant that a
    party can always enforce the last state agreed on (\<open>backed\<close>). Shown: \<open>ChannelManagerSpec\<close>, a channel can be closed by one party
    alone whatever update is pending; \<open>ChannelSettle\<close>, settling brings both parties to the same transaction and exchanges the
    secrets of the state before; \<open>ChannelPunish\<close>, who publishes a revoked buffer transaction loses it; \<open>ChannelFailures\<close>, the
    handling of watched transactions and of close offers panics or loses the state in some pending updates. The witness that signing
    makes has the own signature first whatever the order of the keys (\<open>multi_sig_witness_order\<close>); the theorems on closing say what is
    in the witness, not that the script accepts the order.

  \<^item> \<open>SledChannels\<close>: the storage of channels and of the chain monitor (the rest of the trait \<open>Storage\<close>; locale \<open>channel_store\<close>: the channels
    are a map from ids, a search finds what is stored). \<open>SledChannelsSpec\<close>: writing a channel with its contract is one update of both
    maps, and the manager closes every stored channel whose counterparty did not answer in time.

  \<^item> The wallet: \<open>Wallet\<close> (\<open>simple-wallet/src/lib.rs\<close>: selections that reserve outputs, refreshing, keys, addresses and signing, on the
    state of the manager; coin selection is a function of the bdk library). \<open>WalletSpec\<close> (locale \<open>wallet_store\<close>: the store is three maps)
    has the calls as writes on these maps (\<open>wallet_write\<close>), which every call is shown to refine. \<open>SledWallet\<close> is the wallet half of the
    sled store and interprets the locale. \<open>SledWalletSpec\<close>: over any sequence of calls, reserved outputs are not given away again,
    signers stay the same, the stored data stay well formed, and inputs are signed by the owner of what they spend. That different
    random keys have different public keys is not assumed, so a look-up by public key gives a key of this public key.

  \<^bold>\<open>Not modelled.\<close> The encodings of messages and stored data (\<open>contract_codec\<close>, \<open>channel_codec\<close> and \<open>wallet_provider\<close> say what the store
  relies on), the sled database, the providers (network clients), the command line, tests, and the Solidity contract. The bodies of
  logging and display functions have no definition.
\<close>

end
